(* ===== verification/Prelude.thy ===== *)
theory Prelude
  imports Main "HOL-Library.Word" "HOL-Library.AList"
begin

unbundle bit_operations_syntax

text \<open>
  Shared vocabulary of the development: machine-integer types, Rust's \<open>Result\<close> as a sum,
  the slice and iterator operations the crates use (\<open>get\<close>, \<open>position\<close>, \<open>split_once\<close>),
  ASCII classification of \<open>u8\<close>, monotonic time (\<open>Instant\<close>, \<open>Duration\<close>) and \<open>HashMap\<close> as
  a duplicate-free association list. Generic interfaces (a byte codec, an expiring map) are
  locales; the component theories interpret them on their own operations.
\<close>

named_theorems codec_simps \<open>definitional equations of the wire encoders and decoders\<close>
named_theorems wf_intros \<open>introduction rules for well-formedness predicates\<close>
named_theorems wf_dests \<open>destruction rules for well-formedness predicates\<close>

section \<open>Machine integers and results\<close>

type_synonym u8 = "8 word"
type_synonym u16 = "16 word"
type_synonym u32 = "32 word"
type_synonym u64 = "64 word"
type_synonym bytes = "8 word list"

text \<open>\<open>usize\<close> values are naturals below \<open>2 ^ 64\<close>; the saturating addition is written out.\<close>

definition usize_max :: nat where
  "usize_max = 2 ^ 64 - 1"

definition usize_saturating_add :: "nat \<Rightarrow> nat \<Rightarrow> nat" where
  "usize_saturating_add a b = min (a + b) usize_max"

lemma usize_saturating_add_exact:
  "a + b \<le> usize_max \<Longrightarrow> usize_saturating_add a b = a + b"
  by (simp add: usize_saturating_add_def)

text \<open>Rust's \<open>Result<T, E>\<close> is the sum \<open>'e + 'a\<close>, \<open>Err\<close> on the left and \<open>Ok\<close> on the right.\<close>

abbreviation Err :: "'e \<Rightarrow> 'e + 'a" where "Err \<equiv> Inl"
abbreviation Ok :: "'a \<Rightarrow> 'e + 'a" where "Ok \<equiv> Inr"

text \<open>\<open>Option::ok_or\<close> and \<open>Option::is_some_and\<close> / \<open>Option::is_none_or\<close>.\<close>

definition ok_or :: "'a option \<Rightarrow> 'e \<Rightarrow> 'e + 'a" where
  "ok_or m e = (case m of None \<Rightarrow> Err e | Some x \<Rightarrow> Ok x)"

definition is_some_and :: "'a option \<Rightarrow> ('a \<Rightarrow> bool) \<Rightarrow> bool" where
  "is_some_and m P = (case m of None \<Rightarrow> False | Some x \<Rightarrow> P x)"

definition is_none_or :: "'a option \<Rightarrow> ('a \<Rightarrow> bool) \<Rightarrow> bool" where
  "is_none_or m P = (case m of None \<Rightarrow> True | Some x \<Rightarrow> P x)"

lemma ok_or_simps [simp]: "ok_or None e = Err e" "ok_or (Some x) e = Ok x"
  by (simp_all add: ok_or_def)

lemma is_some_and_simps [simp]: "is_some_and None P = False" "is_some_and (Some x) P = P x"
  by (simp_all add: is_some_and_def)

lemma is_none_or_simps [simp]: "is_none_or None P = True" "is_none_or (Some x) P = P x"
  by (simp_all add: is_none_or_def)

lemma not_is_none_or: "(\<not> is_none_or m P) = is_some_and m (\<lambda>x. \<not> P x)"
  by (cases m) simp_all

section \<open>Exhaustive reasoning over a byte\<close>

text \<open>A statement about every \<open>u8\<close> is a finite conjunction that the code equations decide.\<close>

lemma u8_all_of_nat: "(\<forall>b::u8. P b) \<longleftrightarrow> list_all P (map word_of_nat [0..<256])"
proof
  assume "list_all P (map word_of_nat [0..<256])"
  then have *: "\<And>n. n < 256 \<Longrightarrow> P (word_of_nat n)" by (auto simp: list_all_iff)
  show "\<forall>b. P b"
  proof
    fix b :: u8
    have "unat b < 256" using unsigned_less [of b] by simp
    then have "P (word_of_nat (unat b))" by (rule *)
    then show "P b" by simp
  qed
qed (simp add: list_all_iff)

lemma u8_list: "map word_of_nat [0..<256] = (
    [0, 1, 2, 3, 4, 5, 6, 7, 8, 9, 10, 11, 12, 13, 14, 15,
     16, 17, 18, 19, 20, 21, 22, 23, 24, 25, 26, 27, 28, 29, 30, 31,
     32, 33, 34, 35, 36, 37, 38, 39, 40, 41, 42, 43, 44, 45, 46, 47,
     48, 49, 50, 51, 52, 53, 54, 55, 56, 57, 58, 59, 60, 61, 62, 63,
     64, 65, 66, 67, 68, 69, 70, 71, 72, 73, 74, 75, 76, 77, 78, 79,
     80, 81, 82, 83, 84, 85, 86, 87, 88, 89, 90, 91, 92, 93, 94, 95,
     96, 97, 98, 99, 100, 101, 102, 103, 104, 105, 106, 107, 108, 109, 110, 111,
     112, 113, 114, 115, 116, 117, 118, 119, 120, 121, 122, 123, 124, 125, 126, 127,
     128, 129, 130, 131, 132, 133, 134, 135, 136, 137, 138, 139, 140, 141, 142, 143,
     144, 145, 146, 147, 148, 149, 150, 151, 152, 153, 154, 155, 156, 157, 158, 159,
     160, 161, 162, 163, 164, 165, 166, 167, 168, 169, 170, 171, 172, 173, 174, 175,
     176, 177, 178, 179, 180, 181, 182, 183, 184, 185, 186, 187, 188, 189, 190, 191,
     192, 193, 194, 195, 196, 197, 198, 199, 200, 201, 202, 203, 204, 205, 206, 207,
     208, 209, 210, 211, 212, 213, 214, 215, 216, 217, 218, 219, 220, 221, 222, 223,
     224, 225, 226, 227, 228, 229, 230, 231, 232, 233, 234, 235, 236, 237, 238, 239,
     240, 241, 242, 243, 244, 245, 246, 247, 248, 249, 250, 251, 252, 253, 254, 255] :: u8 list)"
  by (simp add: upt_rec)

lemmas u8_all = u8_all_of_nat [unfolded u8_list]

lemma nibble_cases: "(p::u8) \<le> 15 \<Longrightarrow> p \<in> {0, 1, 2, 3, 4, 5, 6, 7, 8, 9, 10, 11, 12, 13, 14, 15}"
proof -
  have "\<forall>p::u8. p \<le> 15 \<longrightarrow> p \<in> {0, 1, 2, 3, 4, 5, 6, 7, 8, 9, 10, 11, 12, 13, 14, 15}"
    unfolding u8_all by simp
  then show "p \<le> 15 \<Longrightarrow> p \<in> {0, 1, 2, 3, 4, 5, 6, 7, 8, 9, 10, 11, 12, 13, 14, 15}" by blast
qed

section \<open>Slices and iterators\<close>

text \<open>\<open>slice.get(i)\<close> and \<open>slice.get(a..b)\<close>.\<close>

definition get :: "nat \<Rightarrow> 'a list \<Rightarrow> 'a option" where
  "get i xs = (if i < length xs then Some (xs ! i) else None)"

definition get_range :: "nat \<Rightarrow> nat \<Rightarrow> 'a list \<Rightarrow> 'a list option" where
  "get_range a b xs = (if a \<le> b \<and> b \<le> length xs then Some (take (b - a) (drop a xs)) else None)"

definition get_from :: "nat \<Rightarrow> 'a list \<Rightarrow> 'a list option" where
  "get_from a xs = (if a \<le> length xs then Some (drop a xs) else None)"

lemma get_simps [simp]:
  "get i [] = None" "get 0 (x # xs) = Some x" "get (Suc i) (x # xs) = get i xs"
  "get (numeral k) (x # xs) = get (pred_numeral k) xs"
  by (simp_all add: get_def numeral_eq_Suc)

lemma get_append: "get i (xs @ ys) = (if i < length xs then get i xs else get (i - length xs) ys)"
  by (auto simp: get_def nth_append)

lemma get_Some_iff: "get i xs = Some x \<longleftrightarrow> i < length xs \<and> xs ! i = x"
  by (auto simp: get_def)

lemma get_None_iff: "get i xs = None \<longleftrightarrow> length xs \<le> i"
  by (auto simp: get_def)

lemma get_range_length: "get_range a b xs = Some ys \<Longrightarrow> length ys = b - a"
  by (auto simp: get_range_def split: if_splits)

text \<open>\<open>iter().position(P)\<close>: the index of the first element that satisfies \<open>P\<close>.\<close>

primrec position :: "('a \<Rightarrow> bool) \<Rightarrow> 'a list \<Rightarrow> nat option" where
  "position P [] = None"
| "position P (x # xs) = (if P x then Some 0 else map_option Suc (position P xs))"

lemma position_None_iff: "position P xs = None \<longleftrightarrow> (\<forall>x \<in> set xs. \<not> P x)"
  by (induction xs) auto

lemma position_Some_iff:
  "position P xs = Some i \<longleftrightarrow> i < length xs \<and> P (xs ! i) \<and> (\<forall>j<i. \<not> P (xs ! j))"
proof (induction xs arbitrary: i)
  case (Cons x xs)
  show ?case
  proof (cases i)
    case 0
    then show ?thesis by auto
  next
    case (Suc k)
    have "position P (x # xs) = Some (Suc k) \<longleftrightarrow> \<not> P x \<and> position P xs = Some k" by auto
    also have "\<dots> \<longleftrightarrow> \<not> P x \<and> k < length xs \<and> P (xs ! k) \<and> (\<forall>j<k. \<not> P (xs ! j))"
      by (simp add: Cons.IH)
    also have "\<dots> \<longleftrightarrow> k < length xs \<and> P (xs ! k) \<and> (\<forall>j<Suc k. \<not> P ((x # xs) ! j))"
      by (auto simp: less_Suc_eq_0_disj)
    finally show ?thesis using Suc by simp
  qed
qed simp

lemma position_less: "position P xs = Some i \<Longrightarrow> i < length xs"
  by (simp add: position_Some_iff)

lemma position_append_notin:
  "\<forall>x \<in> set xs. \<not> P x \<Longrightarrow> position P (xs @ ys) = map_option ((+) (length xs)) (position P ys)"
  by (induction xs) (auto simp: option.map_comp o_def fun_eq_iff option.map_ident cong: map_option_cong)

lemma position_append_hit:
  "\<forall>x \<in> set xs. \<not> P x \<Longrightarrow> P y \<Longrightarrow> position P (xs @ y # ys) = Some (length xs)"
  by (induction xs) auto

text \<open>\<open>iter().find(P)\<close> is \<^const>\<open>List.find\<close>; \<open>bytes().enumerate().find\<close> pairs it with the index.\<close>

definition find_enumerate :: "('a \<Rightarrow> bool) \<Rightarrow> 'a list \<Rightarrow> (nat \<times> 'a) option" where
  "find_enumerate P xs = map_option (\<lambda>i. (i, xs ! i)) (position P xs)"

lemma find_enumerate_None_iff: "find_enumerate P xs = None \<longleftrightarrow> (\<forall>x \<in> set xs. \<not> P x)"
  by (simp add: find_enumerate_def position_None_iff)

text \<open>\<open>str::split_once(c)\<close>: the parts before and after the first occurrence.\<close>

fun split_once :: "'a \<Rightarrow> 'a list \<Rightarrow> ('a list \<times> 'a list) option" where
  "split_once c [] = None"
| "split_once c (x # xs) =
     (if x = c then Some ([], xs)
      else map_option (\<lambda>(p, s). (x # p, s)) (split_once c xs))"

lemma split_once_None_iff: "split_once c xs = None \<longleftrightarrow> c \<notin> set xs"
  by (induction xs) auto

lemma split_once_append: "c \<notin> set p \<Longrightarrow> split_once c (p @ c # s) = Some (p, s)"
  by (induction p) auto

lemma split_once_SomeD: "split_once c xs = Some (p, s) \<Longrightarrow> xs = p @ c # s \<and> c \<notin> set p"
  by (induction xs arbitrary: p) (auto split: if_splits)

text \<open>\<open>str::trim_end_matches\<close>, and the padding of a fixed-width field that it undoes.\<close>

definition trim_end :: "('a \<Rightarrow> bool) \<Rightarrow> 'a list \<Rightarrow> 'a list" where
  "trim_end P xs = rev (dropWhile P (rev xs))"

definition space_padded :: "nat \<Rightarrow> bytes \<Rightarrow> bytes" where
  "space_padded n text = text @ replicate (n - length text) 0x20"

lemma trim_end_id: "xs = [] \<or> \<not> P (last xs) \<Longrightarrow> trim_end P xs = xs"
  by (cases xs rule: rev_cases) (auto simp: trim_end_def)

lemma trim_end_pad: "P c \<Longrightarrow> trim_end P (xs @ replicate n c) = trim_end P xs"
  by (simp add: trim_end_def) (rule dropWhile_append2, auto)

lemma trim_end_append: "trim_end P xs @ replicate (length xs - length (trim_end P xs)) c = xs"
  if "\<forall>x. P x \<longleftrightarrow> x = c"
proof -
  let ?t = "takeWhile P (rev xs)"
  have P: "P = (\<lambda>x. x = c)" using that by auto
  have "xs = rev (dropWhile P (rev xs)) @ rev ?t"
    by (metis rev_append rev_rev_ident takeWhile_dropWhile_id)
  moreover have "rev ?t = replicate (length ?t) c"
    by (metis P length_rev replicate_length_same set_rev set_takeWhileD)
  moreover have "length ?t = length xs - length (trim_end P xs)"
    by (metis add_diff_cancel_right' length_append length_rev takeWhile_dropWhile_id trim_end_def)
  ultimately show ?thesis by (metis trim_end_def)
qed

lemma trim_end_last: "trim_end P xs = [] \<or> \<not> P (last (trim_end P xs))"
  using hd_dropWhile [of P "rev xs"] by (auto simp: trim_end_def last_rev)

lemma set_trim_end: "set (trim_end P xs) \<subseteq> set xs"
  by (auto simp: trim_end_def dest: set_dropWhileD)

lemma trim_end_length: "length (trim_end P xs) \<le> length xs"
  using length_dropWhile_le [of P "rev xs"] by (simp add: trim_end_def)

lemma trim_end_trim_end [simp]: "trim_end P (trim_end P xs) = trim_end P xs"
  by (rule trim_end_id) (use trim_end_last in blast)

lemma trim_end_space_padded: "trim_end (\<lambda>b. b = 0x20) (space_padded n t) = trim_end (\<lambda>b. b = 0x20) t"
  by (simp add: space_padded_def trim_end_pad)

lemma length_space_padded [simp]: "length t \<le> n \<Longrightarrow> length (space_padded n t) = n"
  by (simp add: space_padded_def)

lemma space_padded_trim: "space_padded (length xs) (trim_end (\<lambda>b. b = 0x20) xs) = xs"
  unfolding space_padded_def by (rule trim_end_append) simp

section \<open>ASCII\<close>

definition is_ascii_uppercase :: "u8 \<Rightarrow> bool" where
  "is_ascii_uppercase b \<longleftrightarrow> 0x41 \<le> b \<and> b \<le> 0x5A"

definition is_ascii_lowercase :: "u8 \<Rightarrow> bool" where
  "is_ascii_lowercase b \<longleftrightarrow> 0x61 \<le> b \<and> b \<le> 0x7A"

definition is_ascii_digit :: "u8 \<Rightarrow> bool" where
  "is_ascii_digit b \<longleftrightarrow> 0x30 \<le> b \<and> b \<le> 0x39"

definition is_ascii_alphanumeric :: "u8 \<Rightarrow> bool" where
  "is_ascii_alphanumeric b \<longleftrightarrow> is_ascii_uppercase b \<or> is_ascii_lowercase b \<or> is_ascii_digit b"

definition to_ascii_uppercase :: "u8 \<Rightarrow> u8" where
  "to_ascii_uppercase b = (if is_ascii_lowercase b then b - 0x20 else b)"

definition to_ascii_lowercase :: "u8 \<Rightarrow> u8" where
  "to_ascii_lowercase b = (if is_ascii_uppercase b then b + 0x20 else b)"

definition eq_ignore_ascii_case :: "bytes \<Rightarrow> bytes \<Rightarrow> bool" where
  "eq_ignore_ascii_case xs ys \<longleftrightarrow> map to_ascii_lowercase xs = map to_ascii_lowercase ys"

definition is_printable_ascii :: "u8 \<Rightarrow> bool" where
  "is_printable_ascii b \<longleftrightarrow> 0x20 \<le> b \<and> b \<le> 0x7E"

lemmas ascii_defs = is_ascii_uppercase_def is_ascii_lowercase_def is_ascii_digit_def
  is_ascii_alphanumeric_def to_ascii_uppercase_def to_ascii_lowercase_def is_printable_ascii_def

lemma eq_ignore_ascii_case_refl [simp]: "eq_ignore_ascii_case xs xs"
  by (simp add: eq_ignore_ascii_case_def)

lemma to_ascii_uppercase_upper_digit:
  "is_ascii_uppercase b \<or> is_ascii_digit b \<Longrightarrow> to_ascii_uppercase b = b"
  unfolding ascii_defs by unat_arith

lemma alphanumeric_upper:
  "is_ascii_alphanumeric b \<Longrightarrow>
     is_ascii_uppercase (to_ascii_uppercase b) \<or> is_ascii_digit (to_ascii_uppercase b)"
  unfolding ascii_defs by unat_arith

text \<open>Case-insensitive comparison of text with no lower-case letter is equality.\<close>

lemma to_ascii_lowercase_inj:
  "is_ascii_uppercase a \<or> is_ascii_digit a \<Longrightarrow> is_ascii_uppercase b \<or> is_ascii_digit b \<Longrightarrow>
     to_ascii_lowercase a = to_ascii_lowercase b \<longleftrightarrow> a = b"
proof -
  have upper: "is_ascii_digit (to_ascii_lowercase b) = is_ascii_digit b"
    if "is_ascii_uppercase b \<or> is_ascii_digit b" for b
    using that unfolding ascii_defs by (unat_arith; simp)
  have "is_ascii_uppercase b \<Longrightarrow> \<not> is_ascii_digit b" for b
    unfolding ascii_defs by unat_arith
  then show "is_ascii_uppercase a \<or> is_ascii_digit a \<Longrightarrow> is_ascii_uppercase b \<or> is_ascii_digit b \<Longrightarrow>
     to_ascii_lowercase a = to_ascii_lowercase b \<longleftrightarrow> a = b"
    using upper [of a] upper [of b]
    by (cases "is_ascii_uppercase a"; cases "is_ascii_uppercase b")
       (auto simp: to_ascii_lowercase_def)
qed

lemma eq_ignore_ascii_case_upper:
  assumes "\<forall>b \<in> set xs. is_ascii_uppercase b \<or> is_ascii_digit b"
    and "\<forall>b \<in> set ys. is_ascii_uppercase b \<or> is_ascii_digit b"
  shows "eq_ignore_ascii_case xs ys \<longleftrightarrow> xs = ys"
  using assms unfolding eq_ignore_ascii_case_def
proof (induction xs arbitrary: ys)
  case (Cons x xs)
  then show ?case by (cases ys) (auto simp: to_ascii_lowercase_inj)
qed auto

section \<open>Monotonic time\<close>

text \<open>
  An \<open>Instant\<close> and a \<open>Duration\<close> are counted in nanoseconds from an arbitrary origin.
  \<open>checked_duration_since\<close> is \<open>None\<close> when the clock ran backwards.
\<close>

type_synonym instant = nat
type_synonym duration = nat

definition checked_duration_since :: "instant \<Rightarrow> instant \<Rightarrow> duration option" where
  "checked_duration_since now earlier = (if earlier \<le> now then Some (now - earlier) else None)"

definition from_secs :: "nat \<Rightarrow> duration" where
  "from_secs s = s * 1000000000"

definition from_millis :: "nat \<Rightarrow> duration" where
  "from_millis s = s * 1000000"

definition from_mins :: "nat \<Rightarrow> duration" where
  "from_mins m = from_secs (m * 60)"

text \<open>
  The two tests the crates make of a stored time: it is still \<open>fresh\<close> inside a window (a
  clock that ran backwards counts as fresh), or the interval has \<open>elapsed\<close> (a clock that ran
  backwards has not). They are complementary.
\<close>

definition fresh :: "instant \<Rightarrow> duration \<Rightarrow> instant \<Rightarrow> bool" where
  "fresh now window t = is_none_or (checked_duration_since now t) (\<lambda>elapsed. elapsed < window)"

definition interval_elapsed :: "instant \<Rightarrow> duration \<Rightarrow> instant \<Rightarrow> bool" where
  "interval_elapsed now d t = is_some_and (checked_duration_since now t) (\<lambda>elapsed. d \<le> elapsed)"

lemma fresh_iff: "fresh now window t \<longleftrightarrow> now < t \<or> now - t < window"
  by (auto simp: fresh_def checked_duration_since_def)

lemma interval_elapsed_iff: "interval_elapsed now d t \<longleftrightarrow> t + d \<le> now"
  by (auto simp: interval_elapsed_def checked_duration_since_def)

lemma interval_elapsed_not_fresh: "interval_elapsed now d t = (\<not> fresh now d t)"
  by (auto simp: interval_elapsed_iff fresh_iff)

section \<open>Hash maps\<close>

text \<open>
  A \<open>HashMap\<close> is an association list with distinct keys; the list order stands for the
  unspecified iteration order.
\<close>

type_synonym ('k, 'v) hashmap = "('k \<times> 'v) list"

definition hm_get :: "('k, 'v) hashmap \<Rightarrow> 'k \<Rightarrow> 'v option" where
  "hm_get m k = map_of m k"

definition hm_insert :: "'k \<Rightarrow> 'v \<Rightarrow> ('k, 'v) hashmap \<Rightarrow> ('k, 'v) hashmap" where
  "hm_insert k v m = AList.update k v m"

definition hm_remove :: "'k \<Rightarrow> ('k, 'v) hashmap \<Rightarrow> ('k, 'v) hashmap" where
  "hm_remove k m = AList.delete k m"

definition hm_retain :: "('k \<Rightarrow> 'v \<Rightarrow> bool) \<Rightarrow> ('k, 'v) hashmap \<Rightarrow> ('k, 'v) hashmap" where
  "hm_retain P m = filter (\<lambda>(k, v). P k v) m"

definition hm_len :: "('k, 'v) hashmap \<Rightarrow> nat" where
  "hm_len m = length m"

definition hm_wf :: "('k, 'v) hashmap \<Rightarrow> bool" where
  "hm_wf m \<longleftrightarrow> distinct (map fst m)"

text \<open>What the crates rely on from \<open>HashMap\<close>, as an interface.\<close>

locale hash_map =
  fixes lookup :: "'m \<Rightarrow> 'k \<Rightarrow> 'v option"
    and insert :: "'k \<Rightarrow> 'v \<Rightarrow> 'm \<Rightarrow> 'm"
    and remove :: "'k \<Rightarrow> 'm \<Rightarrow> 'm"
    and retain :: "('k \<Rightarrow> 'v \<Rightarrow> bool) \<Rightarrow> 'm \<Rightarrow> 'm"
    and len :: "'m \<Rightarrow> nat"
    and wf :: "'m \<Rightarrow> bool"
  assumes lookup_insert: "lookup (insert k v m) k' = (if k' = k then Some v else lookup m k')"
    and lookup_remove: "wf m \<Longrightarrow> lookup (remove k m) k' = (if k' = k then None else lookup m k')"
    and lookup_retain: "wf m \<Longrightarrow> lookup (retain P m) k =
          (case lookup m k of None \<Rightarrow> None | Some v \<Rightarrow> if P k v then Some v else None)"
    and len_insert: "wf m \<Longrightarrow> len (insert k v m) = (if lookup m k = None then Suc (len m) else len m)"
    and len_remove: "wf m \<Longrightarrow> len (remove k m) = (if lookup m k = None then len m else len m - 1)"
    and len_retain: "len (retain P m) \<le> len m"
    and wf_insert: "wf m \<Longrightarrow> wf (insert k v m)"
    and wf_remove: "wf m \<Longrightarrow> wf (remove k m)"
    and wf_retain: "wf m \<Longrightarrow> wf (retain P m)"
begin

text \<open>Clients: an insertion grows the map by at most one entry, and a swept map still
  answers for every entry the sweep kept.\<close>

lemma len_insert_le: "wf m \<Longrightarrow> len (insert k v m) \<le> Suc (len m)"
  by (simp add: len_insert)

lemma lookup_retain_keep: "wf m \<Longrightarrow> lookup m k = Some v \<Longrightarrow> P k v \<Longrightarrow> lookup (retain P m) k = Some v"
  by (simp add: lookup_retain)

lemma lookup_retain_SomeD: "wf m \<Longrightarrow> lookup (retain P m) k = Some v \<Longrightarrow> lookup m k = Some v \<and> P k v"
  by (auto simp: lookup_retain split: option.splits if_splits)

end

lemma length_AList_update:
  "length (AList.update k v m) = (if map_of m k = None then Suc (length m) else length m)"
  by (induction m) auto

lemma length_AList_delete:
  "distinct (map fst m) \<Longrightarrow>
     length (AList.delete k m) = (if map_of m k = None then length m else length m - 1)"
proof (induction m)
  case (Cons a m)
  have "k \<notin> fst ` set m \<Longrightarrow> AList.delete k m = m" by (simp add: AList.delete_idem)
  moreover have "map_of m k \<noteq> None \<Longrightarrow> length m \<noteq> 0" by auto
  ultimately show ?case using Cons by (cases a) (auto simp: image_iff)
qed simp

lemma map_of_filter:
  "distinct (map fst m) \<Longrightarrow> map_of (filter (\<lambda>(k, v). P k v) m) k =
     (case map_of m k of None \<Rightarrow> None | Some v \<Rightarrow> if P k v then Some v else None)"
proof (induction m)
  case (Cons a m)
  have "map_of m (fst a) = None" using Cons.prems by (simp add: map_of_eq_None_iff)
  then show ?case using Cons by (cases a) (auto split: option.splits)
qed simp

interpretation hm: hash_map hm_get hm_insert hm_remove hm_retain hm_len hm_wf
proof unfold_locales
  fix m :: "('k, 'v) hashmap" and k k' :: 'k and v :: 'v and P
  show "hm_get (hm_insert k v m) k' = (if k' = k then Some v else hm_get m k')"
    by (simp add: hm_get_def hm_insert_def update_conv')
  show "hm_len (hm_retain P m) \<le> hm_len m"
    by (simp add: hm_len_def hm_retain_def)
  assume wf: "hm_wf m"
  then show "hm_get (hm_remove k m) k' = (if k' = k then None else hm_get m k')"
    by (simp add: hm_get_def hm_remove_def delete_conv')
  from wf show "hm_get (hm_retain P m) k =
      (case hm_get m k of None \<Rightarrow> None | Some v \<Rightarrow> if P k v then Some v else None)"
    by (simp add: hm_get_def hm_retain_def hm_wf_def map_of_filter)
  from wf show "hm_len (hm_insert k v m) = (if hm_get m k = None then Suc (hm_len m) else hm_len m)"
    by (simp add: hm_len_def hm_insert_def hm_get_def length_AList_update)
  from wf show "hm_len (hm_remove k m) = (if hm_get m k = None then hm_len m else hm_len m - 1)"
    unfolding hm_len_def hm_remove_def hm_get_def hm_wf_def by (rule length_AList_delete)
  from wf show "hm_wf (hm_insert k v m)" by (simp add: hm_wf_def hm_insert_def distinct_update)
  from wf show "hm_wf (hm_remove k m)" by (simp add: hm_wf_def hm_remove_def distinct_delete)
  from wf show "hm_wf (hm_retain P m)"
    by (simp add: hm_wf_def hm_retain_def distinct_map_filter)
qed

section \<open>Expiring entries\<close>

text \<open>
  Several components remember when a key was last seen and sweep entries that are no longer
  \<^const>\<open>fresh\<close>. The contract of such a component: a step of it at a time when an entry is still
  fresh keeps the entry or stamps it with that time. The client lemma is that a key stays
  remembered through any interleaving of steps inside its window.
\<close>

locale ttl_cache =
  fixes seen :: "'s \<Rightarrow> 'k \<Rightarrow> instant option"
    and ttl :: "'s \<Rightarrow> duration"
    and step :: "'op \<Rightarrow> 's \<Rightarrow> 's"
    and at :: "'op \<Rightarrow> instant"
    and wf :: "'s \<Rightarrow> bool"
  assumes step_ttl: "wf s \<Longrightarrow> ttl (step op s) = ttl s"
    and step_wf: "wf s \<Longrightarrow> wf (step op s)"
    and step_keeps: "wf s \<Longrightarrow> seen s k = Some t \<Longrightarrow> fresh (at op) (ttl s) t \<Longrightarrow>
          \<exists>t'. seen (step op s) k = Some t' \<and> (t' = t \<or> t' = at op)"
begin

lemma run_ttl: "wf s \<Longrightarrow> ttl (fold step ops s) = ttl s"
  by (induction ops arbitrary: s) (simp_all add: step_ttl step_wf)

lemma run_wf: "wf s \<Longrightarrow> wf (fold step ops s)"
  by (induction ops arbitrary: s) (simp_all add: step_wf)

lemma remembered:
  assumes "wf s" and "seen s k = Some t" and "t0 \<le> t"
    and "\<forall>op \<in> set ops. t0 \<le> at op \<and> at op < t0 + ttl s"
  shows "\<exists>t'. seen (fold step ops s) k = Some t' \<and> t0 \<le> t'"
  using assms
proof (induction ops arbitrary: s t)
  case (Cons op ops)
  have now: "t0 \<le> at op" "at op < t0 + ttl s" using Cons.prems(4) by auto
  then have "fresh (at op) (ttl s) t" using Cons.prems(3) by (auto simp: fresh_iff)
  then obtain t' where t': "seen (step op s) k = Some t'" "t' = t \<or> t' = at op"
    using step_keeps Cons.prems(1,2) by blast
  then have "t0 \<le> t'" using Cons.prems(3) now(1) by auto
  moreover have "\<forall>op' \<in> set ops. t0 \<le> at op' \<and> at op' < t0 + ttl (step op s)"
    using Cons.prems(1,4) by (simp add: step_ttl)
  ultimately show ?case using Cons.IH [OF step_wf [OF Cons.prems(1)] t'(1)] by simp
qed auto

end

section \<open>Byte codecs\<close>

text \<open>
  The contract every wire codec of the workspace is meant to satisfy: decoding what the
  encoder produced returns the value up to the normalisation the wire format makes, and the
  decoder only returns well-formed values.
\<close>

locale wire_codec =
  fixes wf :: "'a \<Rightarrow> bool"
    and norm :: "'a \<Rightarrow> 'a"
    and enc :: "'a \<Rightarrow> 'w"
    and dec :: "'w \<Rightarrow> 'e + 'a"
  assumes dec_enc: "wf x \<Longrightarrow> dec (enc x) = Ok (norm x)"
    and dec_wf: "dec w = Ok x \<Longrightarrow> wf x"
    and norm_dec: "dec w = Ok x \<Longrightarrow> enc (norm x) = enc x"
begin

text \<open>Two values the wire cannot tell apart are equal up to normalisation.\<close>

lemma enc_inj: "wf x \<Longrightarrow> wf y \<Longrightarrow> enc x = enc y \<Longrightarrow> norm x = norm y"
  using dec_enc by (metis Inr_inject)

text \<open>One trip through the decoder and the encoder reaches a canonical wire form: a second
  trip changes nothing.\<close>

lemma canonical_wire:
  assumes "dec w = Ok x"
  shows "\<exists>y. dec (enc x) = Ok y \<and> enc y = enc x"
  using assms dec_enc dec_wf norm_dec by blast

lemma norm_wf: "wf x \<Longrightarrow> wf (norm x)"
  using dec_enc dec_wf by blast

end

text \<open>A lossless codec needs no normalisation.\<close>

locale lossless_codec =
  fixes wf :: "'a \<Rightarrow> bool"
    and enc :: "'a \<Rightarrow> 'w"
    and dec :: "'w \<Rightarrow> 'e + 'a"
  assumes lossless: "wf x \<Longrightarrow> dec (enc x) = Ok x"
    and lossless_wf: "dec w = Ok x \<Longrightarrow> wf x"

sublocale lossless_codec \<subseteq> wire_codec wf "\<lambda>x. x" enc dec
  by unfold_locales (simp_all add: lossless lossless_wf)

context lossless_codec
begin

lemma enc_inj_on: "inj_on enc {x. wf x}"
  by (auto intro!: inj_onI dest: enc_inj)

lemma redecode: "dec w = Ok x \<Longrightarrow> dec (enc x) = Ok x"
  using lossless_wf lossless by blast

end

end
