(* ===== verification/Kiss_Frame.thy ===== *)
theory Kiss_Frame
  imports Prelude
begin

unbundle bit_operations_syntax

text \<open>
  KISS TNC framing, crate \<open>kiss-tnc\<close>: command and port conversion (\<open>src/command.rs\<close>), the
  error type (\<open>src/error.rs\<close>) and the one-shot frame codec (\<open>src/frame.rs\<close>). The main facts
  are the round trip through byte stuffing and that a frame body never contains a raw
  delimiter, on which the streaming decoder of \<open>Kiss_Decoder\<close> relies.
\<close>

section \<open>Constants, commands and ports\<close>

definition FEND :: u8 where "FEND = 0xC0"
definition FESC :: u8 where "FESC = 0xDB"
definition TFEND :: u8 where "TFEND = 0xDC"
definition TFESC :: u8 where "TFESC = 0xDD"
definition CMD_RETURN :: u8 where "CMD_RETURN = 0xFF"

lemmas kiss_consts = FEND_def FESC_def TFEND_def TFESC_def CMD_RETURN_def

datatype KissCommand =
    KissData | KissTxDelay | KissPersistence | KissSlotTime | KissTxTail | KissFullDuplex
  | KissSetHardware | KissReturn

datatype KissError =
    FrameTooShort | MissingStartDelimiter | MissingEndDelimiter | EmptyFrame
  | UnknownCommand u8 | InvalidPort u8 | InvalidEscapeSequence | TruncatedEscapeSequence
  | UnexpectedFrameDelimiter | FrameTooLong

definition KissCommand_from_byte :: "u8 \<Rightarrow> KissCommand option" where
  "KissCommand_from_byte b =
     (if b = 0x00 then Some KissData
      else if b = 0x01 then Some KissTxDelay
      else if b = 0x02 then Some KissPersistence
      else if b = 0x03 then Some KissSlotTime
      else if b = 0x04 then Some KissTxTail
      else if b = 0x05 then Some KissFullDuplex
      else if b = 0x06 then Some KissSetHardware
      else if b = CMD_RETURN then Some KissReturn
      else None)"

fun KissCommand_as_byte :: "KissCommand \<Rightarrow> u8" where
  "KissCommand_as_byte KissData = 0x00"
| "KissCommand_as_byte KissTxDelay = 0x01"
| "KissCommand_as_byte KissPersistence = 0x02"
| "KissCommand_as_byte KissSlotTime = 0x03"
| "KissCommand_as_byte KissTxTail = 0x04"
| "KissCommand_as_byte KissFullDuplex = 0x05"
| "KissCommand_as_byte KissSetHardware = 0x06"
| "KissCommand_as_byte KissReturn = CMD_RETURN"

definition KissCommand_is_return :: "KissCommand \<Rightarrow> bool" where
  "KissCommand_is_return c = (case c of KissReturn \<Rightarrow> True | _ \<Rightarrow> False)"

definition KissCommand_try_from :: "u8 \<Rightarrow> KissError + KissCommand" where
  "KissCommand_try_from b = ok_or (KissCommand_from_byte b) (UnknownCommand b)"

text \<open>A port is a byte that the constructors keep inside a nibble.\<close>

datatype KissPort = KissPort (KissPort_get: u8)

definition KissPort_ZERO :: KissPort where "KissPort_ZERO = KissPort 0"
definition KissPort_MAX :: KissPort where "KissPort_MAX = KissPort 15"

definition KissPort_new :: "u8 \<Rightarrow> KissPort option" where
  "KissPort_new n = (if n \<le> KissPort_get KissPort_MAX then Some (KissPort n) else None)"

definition KissPort_from_type_byte :: "u8 \<Rightarrow> KissPort" where
  "KissPort_from_type_byte b = KissPort (drop_bit 4 b)"

definition KissPort_try_from :: "u8 \<Rightarrow> KissError + KissPort" where
  "KissPort_try_from b = ok_or (KissPort_new b) (InvalidPort b)"

definition KissPort_wf :: "KissPort \<Rightarrow> bool" where
  "KissPort_wf p \<longleftrightarrow> KissPort_get p \<le> 15"

text \<open>Ports are ordered by number, as the derived \<open>Ord\<close> orders them.\<close>

instantiation KissPort :: linorder
begin

definition less_eq_KissPort :: "KissPort \<Rightarrow> KissPort \<Rightarrow> bool" where
  "less_eq_KissPort p q \<longleftrightarrow> KissPort_get p \<le> KissPort_get q"

definition less_KissPort :: "KissPort \<Rightarrow> KissPort \<Rightarrow> bool" where
  "less_KissPort p q \<longleftrightarrow> KissPort_get p < KissPort_get q"

instance
  by standard (auto simp: less_eq_KissPort_def less_KissPort_def intro: KissPort.expand)

end

section \<open>Frames\<close>

record KissFrame =
  kf_port :: KissPort
  kf_command :: KissCommand
  kf_data :: bytes

definition KissFrame_wf :: "KissFrame \<Rightarrow> bool" where
  "KissFrame_wf f \<longleftrightarrow> KissPort_wf (kf_port f)"

definition KissFrame_data :: "bytes \<Rightarrow> KissFrame" where
  "KissFrame_data d = \<lparr>kf_port = KissPort_ZERO, kf_command = KissData, kf_data = d\<rparr>"

definition KissFrame_return_command :: KissFrame where
  "KissFrame_return_command = \<lparr>kf_port = KissPort_ZERO, kf_command = KissReturn, kf_data = []\<rparr>"

definition push_stuffed :: "bytes \<Rightarrow> u8 \<Rightarrow> bytes" where
  "push_stuffed out byte =
     (if byte = FEND then out @ [FESC] @ [TFEND]
      else if byte = FESC then out @ [FESC] @ [TFESC]
      else out @ [byte])"

definition KissFrame_append_to :: "KissFrame \<Rightarrow> bytes \<Rightarrow> bytes" where
  "KissFrame_append_to f out =
     (if KissCommand_is_return (kf_command f) then out @ [FEND] @ [CMD_RETURN] @ [FEND]
      else
        let type_byte = push_bit 4 (KissPort_get (kf_port f)) OR KissCommand_as_byte (kf_command f);
            out1 = out @ [FEND];
            out2 = push_stuffed out1 type_byte;
            out3 = foldl push_stuffed out2 (kf_data f)
        in out3 @ [FEND])"

definition KissFrame_to_bytes :: "KissFrame \<Rightarrow> bytes" where
  "KissFrame_to_bytes f = KissFrame_append_to f []"

text \<open>The de-stuffing loop: \<open>body\<close> is the output vector, the list is what is left to read.\<close>

fun destuff_loop :: "bytes \<Rightarrow> bytes \<Rightarrow> KissError + bytes" where
  "destuff_loop body [] = Ok body"
| "destuff_loop body (b # rest) =
     (if b = FESC then
        (case rest of
           [] \<Rightarrow> Err TruncatedEscapeSequence
         | c # rest' \<Rightarrow>
             (if c = TFEND then destuff_loop (body @ [FEND]) rest'
              else if c = TFESC then destuff_loop (body @ [FESC]) rest'
              else Err InvalidEscapeSequence))
      else if b = FEND then Err UnexpectedFrameDelimiter
      else destuff_loop (body @ [b]) rest)"

definition KissFrame_from_bytes :: "bytes \<Rightarrow> KissError + KissFrame" where
  "KissFrame_from_bytes data =
     (if length data < 2 then Err FrameTooShort
      else if get 0 data \<noteq> Some FEND then Err MissingStartDelimiter
      else if last data \<noteq> FEND then Err MissingEndDelimiter
      else
        let inner0 = (case get_range 1 (length data - 1) data of None \<Rightarrow> [] | Some s \<Rightarrow> s);
            inner = (case position (\<lambda>b. b \<noteq> FEND) inner0 of
                       None \<Rightarrow> []
                     | Some pos \<Rightarrow> (case get_from pos inner0 of None \<Rightarrow> [] | Some s \<Rightarrow> s))
        in case destuff_loop [] inner of
             Inl e \<Rightarrow> Err e
           | Inr body \<Rightarrow>
               (case body of
                  [] \<Rightarrow> Err EmptyFrame
                | type_byte # payload \<Rightarrow>
                    (if type_byte = CMD_RETURN then
                       Ok \<lparr>kf_port = KissPort_ZERO, kf_command = KissReturn, kf_data = payload\<rparr>
                     else
                       let nibble = type_byte AND 0x0F
                       in case KissCommand_from_byte nibble of
                            None \<Rightarrow> Err (UnknownCommand nibble)
                          | Some command \<Rightarrow>
                              Ok \<lparr>kf_port = KissPort_from_type_byte type_byte,
                                  kf_command = command, kf_data = payload\<rparr>)))"

text \<open>What survives on the wire: \<open>Return\<close> is a whole-byte command without port or payload.\<close>

definition KissFrame_wire :: "KissFrame \<Rightarrow> KissFrame" where
  "KissFrame_wire f = (if kf_command f = KissReturn then KissFrame_return_command else f)"

section \<open>Commands, ports and the type byte\<close>

lemma KissCommand_is_return_iff [simp]: "KissCommand_is_return c \<longleftrightarrow> c = KissReturn"
  by (cases c) (simp_all add: KissCommand_is_return_def)

lemma KissCommand_from_byte_as_byte [simp]:
  "KissCommand_from_byte (KissCommand_as_byte c) = Some c"
  by (cases c) (simp_all add: KissCommand_from_byte_def CMD_RETURN_def)

lemma KissCommand_from_byte_SomeD:
  "KissCommand_from_byte b = Some c \<Longrightarrow> KissCommand_as_byte c = b"
  by (auto simp: KissCommand_from_byte_def split: if_splits)

lemma KissPort_new_Some_iff: "KissPort_new n = Some p \<longleftrightarrow> KissPort_wf p \<and> p = KissPort n"
  by (auto simp: KissPort_new_def KissPort_MAX_def KissPort_wf_def)

lemma KissPort_from_type_byte_wf: "KissPort_wf (KissPort_from_type_byte b)"
proof -
  have "\<forall>b::u8. drop_bit 4 b \<le> 15" unfolding u8_all by simp
  then show ?thesis by (simp add: KissPort_wf_def KissPort_from_type_byte_def)
qed

text \<open>A port nibble and a non-return command never overlap, so the type byte splits again.\<close>

lemma type_byte_split:
  assumes "p \<le> 15" and "c \<noteq> KissReturn"
  shows "(push_bit 4 p OR KissCommand_as_byte c) AND 0x0F = KissCommand_as_byte c"
    and "drop_bit 4 (push_bit 4 p OR KissCommand_as_byte c) = p"
    and "push_bit 4 p OR KissCommand_as_byte c \<noteq> CMD_RETURN"
  using nibble_cases [OF assms(1)] assms(2)
  by (cases c; auto simp: CMD_RETURN_def)+

section \<open>Byte stuffing\<close>

definition stuff1 :: "u8 \<Rightarrow> bytes" where
  "stuff1 b = push_stuffed [] b"

lemma push_stuffed_append: "push_stuffed out b = out @ stuff1 b"
  by (simp add: push_stuffed_def stuff1_def)

lemma foldl_push_stuffed: "foldl push_stuffed out bs = out @ concat (map stuff1 bs)"
  by (induction bs arbitrary: out) (simp_all add: push_stuffed_append)

lemma stuff1_no_FEND: "FEND \<notin> set (stuff1 b)"
  by (auto simp: stuff1_def push_stuffed_def kiss_consts)

lemma stuffed_no_FEND: "FEND \<notin> set (concat (map stuff1 bs))"
  using stuff1_no_FEND by auto

lemma stuff1_length: "1 \<le> length (stuff1 b)" "length (stuff1 b) \<le> 2"
  by (auto simp: stuff1_def push_stuffed_def)

lemma stuff1_nonempty: "stuff1 b \<noteq> []"
  by (simp add: stuff1_def push_stuffed_def)

lemma destuff_stuff1: "destuff_loop body (stuff1 b @ rest) = destuff_loop (body @ [b]) rest"
  by (auto simp: stuff1_def push_stuffed_def kiss_consts)

lemma destuff_stuffed: "destuff_loop body (concat (map stuff1 bs)) = Ok (body @ bs)"
  by (induction bs arbitrary: body) (simp_all add: destuff_stuff1)

text \<open>The wire form of a frame: a delimiter-free non-empty body between two delimiters.\<close>

definition kiss_body :: "KissFrame \<Rightarrow> bytes" where
  "kiss_body f =
     (if kf_command f = KissReturn then [CMD_RETURN]
      else concat (map stuff1
        ((push_bit 4 (KissPort_get (kf_port f)) OR KissCommand_as_byte (kf_command f)) # kf_data f)))"

lemma KissFrame_append_to_eq: "KissFrame_append_to f out = out @ KissFrame_to_bytes f"
  by (simp add: KissFrame_to_bytes_def KissFrame_append_to_def Let_def foldl_push_stuffed
      push_stuffed_append)

lemma KissFrame_to_bytes_eq: "KissFrame_to_bytes f = FEND # kiss_body f @ [FEND]"
  by (simp add: KissFrame_to_bytes_def KissFrame_append_to_def Let_def kiss_body_def
      foldl_push_stuffed push_stuffed_append)

lemma kiss_body_no_FEND: "FEND \<notin> set (kiss_body f)"
proof (cases "kf_command f = KissReturn")
  case True
  then show ?thesis by (simp add: kiss_body_def kiss_consts)
next
  case False
  then show ?thesis unfolding kiss_body_def using stuffed_no_FEND by (simp only: if_False) blast
qed

lemma kiss_body_nonempty: "kiss_body f \<noteq> []"
  by (simp add: kiss_body_def stuff1_nonempty)

lemma concat_stuff1_length: "length (concat (map stuff1 bs)) \<le> 2 * length bs"
  by (induction bs) (auto intro: order_trans [OF add_mono [OF stuff1_length(2)]])

section \<open>Decoding\<close>

text \<open>On a delimiter-free, non-empty body the decoder is de-stuffing followed by the type byte.\<close>

definition decode_body :: "bytes \<Rightarrow> KissError + KissFrame" where
  "decode_body inner =
     (case destuff_loop [] inner of
        Inl e \<Rightarrow> Err e
      | Inr body \<Rightarrow>
          (case body of
             [] \<Rightarrow> Err EmptyFrame
           | type_byte # payload \<Rightarrow>
               (if type_byte = CMD_RETURN then
                  Ok \<lparr>kf_port = KissPort_ZERO, kf_command = KissReturn, kf_data = payload\<rparr>
                else
                  (case KissCommand_from_byte (type_byte AND 0x0F) of
                     None \<Rightarrow> Err (UnknownCommand (type_byte AND 0x0F))
                   | Some command \<Rightarrow>
                       Ok \<lparr>kf_port = KissPort_from_type_byte type_byte,
                           kf_command = command, kf_data = payload\<rparr>))))"

lemma KissFrame_from_bytes_delimited:
  assumes "x \<noteq> FEND"
  shows "KissFrame_from_bytes (FEND # (x # xs) @ [FEND]) = decode_body (x # xs)"
  using assms unfolding KissFrame_from_bytes_def decode_body_def Let_def
  by (simp add: get_range_def get_from_def del: destuff_loop.simps)

lemma KissFrame_from_bytes_body:
  assumes "FEND \<notin> set xs" and "xs \<noteq> []"
  shows "KissFrame_from_bytes (FEND # xs @ [FEND]) = decode_body xs"
proof -
  obtain y ys where "xs = y # ys" using assms(2) by (cases xs) auto
  with assms(1) show ?thesis using KissFrame_from_bytes_delimited [of y ys] by auto
qed

lemma decode_body_kiss_body:
  assumes "KissFrame_wf f"
  shows "decode_body (kiss_body f) = Ok (KissFrame_wire f)"
proof (cases "kf_command f = KissReturn")
  case True
  then show ?thesis
    by (simp add: decode_body_def kiss_body_def KissFrame_wire_def KissFrame_return_command_def
        kiss_consts)
next
  case False
  have p: "KissPort_get (kf_port f) \<le> 15" using assms by (simp add: KissFrame_wf_def KissPort_wf_def)
  note tb = type_byte_split [OF p False]
  have port: "KissPort (KissPort_get (kf_port f)) = kf_port f" by simp
  show ?thesis
    unfolding decode_body_def kiss_body_def KissFrame_wire_def
    using False tb by (simp add: destuff_stuffed del: map_eq_Cons_conv concat.simps list.map)
      (simp add: KissPort_from_type_byte_def)
qed

lemma decode_body_wf: "decode_body xs = Ok f \<Longrightarrow> KissFrame_wf f"
  by (auto simp: decode_body_def KissFrame_wf_def KissPort_from_type_byte_wf KissPort_ZERO_def
      KissPort_wf_def [of "KissPort 0"] split: sum.splits list.splits if_splits option.splits)

lemma KissFrame_from_bytes_wf: "KissFrame_from_bytes bs = Ok f \<Longrightarrow> KissFrame_wf f"
  by (auto simp: KissFrame_from_bytes_def KissFrame_wf_def KissPort_from_type_byte_wf
      KissPort_ZERO_def KissPort_wf_def [of "KissPort 0"] Let_def
      split: sum.splits list.splits if_splits option.splits)

lemma KissFrame_roundtrip_wire:
  "KissFrame_wf f \<Longrightarrow> KissFrame_from_bytes (KissFrame_to_bytes f) = Ok (KissFrame_wire f)"
  by (simp add: KissFrame_to_bytes_eq KissFrame_from_bytes_body kiss_body_no_FEND
      kiss_body_nonempty decode_body_kiss_body)

lemma KissFrame_to_bytes_wire: "KissFrame_to_bytes (KissFrame_wire f) = KissFrame_to_bytes f"
  by (simp add: KissFrame_to_bytes_eq kiss_body_def KissFrame_wire_def KissFrame_return_command_def)

interpretation kiss: wire_codec KissFrame_wf KissFrame_wire KissFrame_to_bytes KissFrame_from_bytes
  by unfold_locales
    (simp_all add: KissFrame_roundtrip_wire KissFrame_from_bytes_wf KissFrame_to_bytes_wire)

end
