(* ===== verification/Kiss_Decoder.thy ===== *)
theory Kiss_Decoder
  imports Kiss_Frame
begin

text \<open>
  The streaming KISS decoder, \<open>kiss-tnc/src/decoder.rs\<close>: a buffer, a synchronisation flag and
  a frame-length limit. \<open>next_frame\<close> is the source's loop as a recursive function whose
  termination is proved on the buffer length. \<open>kiss_scan\<close> is the reference definition (split
  the stream at delimiters); the decoder refines it, from which chunk-independence, the
  streaming round trip, error recovery and the memory bound follow.
\<close>

section \<open>The decoder\<close>

record KissDecoder =
  kd_buffer :: bytes
  kd_in_frame :: bool
  kd_max_frame_len :: nat

definition DEFAULT_MAX_FRAME_LEN :: nat where
  "DEFAULT_MAX_FRAME_LEN = 1024"

definition KissDecoder_with_max_frame_len :: "nat \<Rightarrow> KissDecoder" where
  "KissDecoder_with_max_frame_len m = \<lparr>kd_buffer = [], kd_in_frame = False, kd_max_frame_len = m\<rparr>"

definition KissDecoder_new :: KissDecoder where
  "KissDecoder_new = KissDecoder_with_max_frame_len DEFAULT_MAX_FRAME_LEN"

definition KissDecoder_push :: "KissDecoder \<Rightarrow> bytes \<Rightarrow> KissDecoder" where
  "KissDecoder_push d bs = d\<lparr>kd_buffer := kd_buffer d @ bs\<rparr>"

definition is_FEND :: "u8 \<Rightarrow> bool" where
  "is_FEND b \<longleftrightarrow> b = FEND"

definition kd_discard :: "KissDecoder \<Rightarrow> KissDecoder" where
  "kd_discard d = d\<lparr>kd_buffer := [], kd_in_frame := False\<rparr>"

definition kd_sync :: "nat \<Rightarrow> KissDecoder \<Rightarrow> KissDecoder" where
  "kd_sync first d =
     (if \<not> kd_in_frame d then d\<lparr>kd_buffer := drop first (kd_buffer d), kd_in_frame := True\<rparr> else d)"

function KissDecoder_next_frame :: "KissDecoder \<Rightarrow> (KissError + KissFrame option) \<times> KissDecoder" where
  "KissDecoder_next_frame d =
     (case position is_FEND (kd_buffer d) of
        None \<Rightarrow>
          (if length (kd_buffer d) > kd_max_frame_len d then (Err FrameTooLong, kd_discard d)
           else (Ok None, d))
      | Some first \<Rightarrow>
          let d1 = kd_sync first d;
              tail = (case get_from 1 (kd_buffer d1) of None \<Rightarrow> [] | Some s \<Rightarrow> s)
          in case position is_FEND tail of
               None \<Rightarrow>
                 (if length (kd_buffer d1) > kd_max_frame_len d1 then (Err FrameTooLong, kd_discard d1)
                  else (Ok None, d1))
             | Some end \<Rightarrow>
                 let end_idx = end + 1
                 in if end_idx = 1
                    then KissDecoder_next_frame (d1\<lparr>kd_buffer := drop 1 (kd_buffer d1)\<rparr>)
                    else if end_idx + 1 > kd_max_frame_len d1
                    then (Err FrameTooLong, d1\<lparr>kd_buffer := drop end_idx (kd_buffer d1)\<rparr>)
                    else
                      let frame = KissFrame_from_bytes
                            (case get_range 0 (end_idx + 1) (kd_buffer d1) of None \<Rightarrow> [] | Some s \<Rightarrow> s);
                          d2 = d1\<lparr>kd_buffer := drop end_idx (kd_buffer d1)\<rparr>
                      in (case frame of Inl e \<Rightarrow> Err e | Inr f \<Rightarrow> Ok (Some f), d2))"
  by pat_completeness auto
termination
proof (relation "measure (\<lambda>d. length (kd_buffer d))", goal_cases)
  case (2 d first d1 tail "end" end_idx)
  then have "first < length (kd_buffer d)" by (simp add: position_less)
  then show ?case using 2 by (auto simp: kd_sync_def)
qed simp

declare KissDecoder_next_frame.simps [simp del]

section \<open>Invariant\<close>

text \<open>Once synchronised, the buffer starts with the delimiter that opened the current frame.\<close>

definition KissDecoder_inv :: "KissDecoder \<Rightarrow> bool" where
  "KissDecoder_inv d \<longleftrightarrow> (kd_in_frame d \<longrightarrow> (\<exists>t. kd_buffer d = FEND # t))"

definition kd_synced :: "nat \<Rightarrow> bytes \<Rightarrow> KissDecoder" where
  "kd_synced m t = \<lparr>kd_buffer = FEND # t, kd_in_frame = True, kd_max_frame_len = m\<rparr>"

definition kd_unsynced :: "nat \<Rightarrow> bytes \<Rightarrow> KissDecoder" where
  "kd_unsynced m b = \<lparr>kd_buffer = b, kd_in_frame = False, kd_max_frame_len = m\<rparr>"

lemma KissDecoder_inv_cases:
  assumes "KissDecoder_inv d"
  obtains (synced) t where "d = kd_synced (kd_max_frame_len d) t"
        | (unsynced) "d = kd_unsynced (kd_max_frame_len d) (kd_buffer d)"
proof (cases "kd_in_frame d")
  case True
  with assms obtain t where "kd_buffer d = FEND # t" by (auto simp: KissDecoder_inv_def)
  with True have "d = kd_synced (kd_max_frame_len d) t" by (simp add: kd_synced_def)
  then show thesis by (rule synced)
next
  case False
  then have "d = kd_unsynced (kd_max_frame_len d) (kd_buffer d)" by (simp add: kd_unsynced_def)
  then show thesis by (rule unsynced)
qed

lemma kd_synced_simps [simp]:
  "kd_buffer (kd_synced m t) = FEND # t" "kd_in_frame (kd_synced m t)"
  "kd_max_frame_len (kd_synced m t) = m" "kd_sync i (kd_synced m t) = kd_synced m t"
  "(kd_synced m t)\<lparr>kd_buffer := FEND # r\<rparr> = kd_synced m r"
  "kd_discard (kd_synced m t) = kd_unsynced m []"
  by (simp_all add: kd_synced_def kd_unsynced_def kd_sync_def kd_discard_def)

lemma kd_unsynced_simps [simp]:
  "kd_buffer (kd_unsynced m b) = b" "\<not> kd_in_frame (kd_unsynced m b)"
  "kd_max_frame_len (kd_unsynced m b) = m" "kd_discard (kd_unsynced m b) = kd_unsynced m []"
  by (simp_all add: kd_unsynced_def kd_discard_def)

lemma KissDecoder_inv_states [simp]: "KissDecoder_inv (kd_synced m t)" "KissDecoder_inv (kd_unsynced m b)"
  by (simp_all add: KissDecoder_inv_def kd_synced_def kd_unsynced_def)

lemma kd_unsynced_empty: "KissDecoder_with_max_frame_len m = kd_unsynced m []"
  by (simp add: kd_unsynced_def KissDecoder_with_max_frame_len_def)

lemma push_synced [simp]: "KissDecoder_push (kd_synced m t) xs = kd_synced m (t @ xs)"
  by (simp add: KissDecoder_push_def kd_synced_def)

lemma push_unsynced [simp]: "KissDecoder_push (kd_unsynced m b) xs = kd_unsynced m (b @ xs)"
  by (simp add: KissDecoder_push_def kd_unsynced_def)

text \<open>One call of \<open>next_frame\<close>, by the position of the delimiters.\<close>

lemma position_split_once:
  "position is_FEND t = (case split_once FEND t of None \<Rightarrow> None | Some (c, r) \<Rightarrow> Some (length c))"
  by (induction t) (auto simp: is_FEND_def split: option.splits)

definition complete_frame :: "nat \<Rightarrow> bytes \<Rightarrow> KissError + KissFrame" where
  "complete_frame m c = (if length c + 2 > m then Err FrameTooLong else decode_body c)"

lemma next_frame_unsynced_none:
  assumes "split_once FEND b = None"
  shows "KissDecoder_next_frame (kd_unsynced m b) =
    (if length b > m then (Err FrameTooLong, kd_unsynced m []) else (Ok None, kd_unsynced m b))"
  using assms by (subst KissDecoder_next_frame.simps)
    (simp add: position_split_once)

lemma next_frame_unsynced_some:
  assumes "split_once FEND b = Some (g, r)"
  shows "KissDecoder_next_frame (kd_unsynced m b) = KissDecoder_next_frame (kd_synced m r)"
proof -
  have b: "b = g @ FEND # r" using split_once_SomeD [OF assms] by simp
  have "kd_sync (length g) (kd_unsynced m b) = kd_synced m r"
    by (simp add: kd_sync_def kd_unsynced_def kd_synced_def b)
  moreover have "position is_FEND (kd_buffer (kd_synced m r)) = Some 0"
    by (simp add: is_FEND_def)
  moreover have "position is_FEND (kd_buffer (kd_unsynced m b)) = Some (length g)"
    using assms by (simp add: position_split_once)
  ultimately show ?thesis
    by (simp add: KissDecoder_next_frame.simps [of "kd_unsynced m b"]
        KissDecoder_next_frame.simps [of "kd_synced m r"])
qed

lemma next_frame_synced_none:
  assumes "split_once FEND t = None"
  shows "KissDecoder_next_frame (kd_synced m t) =
    (if length t + 1 > m then (Err FrameTooLong, kd_unsynced m []) else (Ok None, kd_synced m t))"
  using assms by (subst KissDecoder_next_frame.simps)
    (simp add: position_split_once get_from_def Let_def)

lemma next_frame_synced_empty:
  "KissDecoder_next_frame (kd_synced m (FEND # r)) = KissDecoder_next_frame (kd_synced m r)"
  by (subst KissDecoder_next_frame.simps) (simp add: is_FEND_def get_from_def Let_def)

lemma next_frame_synced_some:
  assumes "split_once FEND t = Some (c, r)" and "c \<noteq> []"
  shows "KissDecoder_next_frame (kd_synced m t) =
    (case complete_frame m c of Inl e \<Rightarrow> Err e | Inr f \<Rightarrow> Ok (Some f), kd_synced m r)"
proof -
  have t: "t = c @ FEND # r" and c: "FEND \<notin> set c" using split_once_SomeD [OF assms(1)] by simp_all
  have "KissFrame_from_bytes (FEND # c @ [FEND]) = decode_body c"
    by (rule KissFrame_from_bytes_body [OF c assms(2)])
  moreover have "take (length c + 2) (FEND # t) = FEND # c @ [FEND]" by (simp add: t)
  moreover have "drop (Suc (length c)) (FEND # t) = FEND # r" by (simp add: t)
  ultimately show ?thesis using assms
    by (subst KissDecoder_next_frame.simps)
      (simp add: position_split_once get_from_def get_range_def complete_frame_def Let_def t)
qed

section \<open>Reference definition\<close>

text \<open>
  Scanning the bytes that follow an opening delimiter: every non-empty run up to the next
  delimiter is a frame. The second component is the unfinished run, or \<open>None\<close> when it
  outgrew the limit and synchronisation was given up.
\<close>

function kiss_scan :: "nat \<Rightarrow> bytes \<Rightarrow> (KissError + KissFrame) list \<times> bytes option" where
  "kiss_scan m t =
     (case split_once FEND t of
        None \<Rightarrow> (if length t + 1 > m then ([Err FrameTooLong], None) else ([], Some t))
      | Some (c, r) \<Rightarrow>
          (case kiss_scan m r of (rs, st) \<Rightarrow> (if c = [] then rs else complete_frame m c # rs, st)))"
  by pat_completeness auto
termination
  by (relation "measure (\<lambda>(m, t). length t)") (auto dest: split_once_SomeD)

declare kiss_scan.simps [simp del]

text \<open>The caller's loop: take frames and errors until the decoder asks for more input.\<close>

lemma next_frame_progress:
  assumes "KissDecoder_inv d" and "KissDecoder_next_frame d = (r, d')" and "r \<noteq> Ok None"
  shows "length (kd_buffer d') < length (kd_buffer d)"
proof -
  have syn: "length (kd_buffer d') < Suc (length t)"
    if "KissDecoder_next_frame (kd_synced m t) = (r, d')" for m t
    using that
  proof (induction t rule: length_induct)
    case (1 t)
    show ?case
    proof (cases "split_once FEND t")
      case None
      with 1(2) assms(3) show ?thesis
        by (auto simp: next_frame_synced_none split: if_splits)
    next
      case (Some cr)
      then obtain c r' where cr: "split_once FEND t = Some (c, r')" by (cases cr) auto
      then have t: "t = c @ FEND # r'" by (auto dest: split_once_SomeD)
      show ?thesis
      proof (cases "c = []")
        case True
        with 1 t show ?thesis by (fastforce simp: next_frame_synced_empty)
      next
        case False
        with 1(2) cr have "d' = kd_synced m r'" by (simp add: next_frame_synced_some)
        then show ?thesis by (simp add: t)
      qed
    qed
  qed
  show ?thesis using assms(1)
  proof (cases rule: KissDecoder_inv_cases)
    case (synced t)
    with syn assms(2) have "length (kd_buffer d') < Suc (length t)" by metis
    moreover have "length (kd_buffer d) = Suc (length t)" by (subst synced) simp
    ultimately show ?thesis by simp
  next
    case unsynced
    let ?b = "kd_buffer d" and ?m = "kd_max_frame_len d"
    have nf: "KissDecoder_next_frame (kd_unsynced ?m ?b) = (r, d')" using unsynced assms(2) by simp
    show ?thesis
    proof (cases "split_once FEND ?b")
      case None
      with nf assms(3) show ?thesis
        by (auto simp: next_frame_unsynced_none split: if_splits)
    next
      case (Some gr)
      then obtain g r' where gr: "split_once FEND ?b = Some (g, r')" by (cases gr) auto
      with nf have "KissDecoder_next_frame (kd_synced ?m r') = (r, d')"
        by (simp add: next_frame_unsynced_some)
      then have "length (kd_buffer d') < Suc (length r')" by (rule syn)
      with split_once_SomeD [OF gr] show ?thesis by simp
    qed
  qed
qed

text \<open>The drain loop needs the invariant to terminate, so the loop checks progress itself;
  \<open>next_frame_progress\<close> shows the check never fires on a reachable decoder.\<close>

function KissDecoder_drain :: "KissDecoder \<Rightarrow> (KissError + KissFrame) list \<times> KissDecoder" where
  "KissDecoder_drain d =
     (case KissDecoder_next_frame d of
        (Inr None, d') \<Rightarrow> ([], d')
      | (Inl e, d') \<Rightarrow>
          (if length (kd_buffer d') < length (kd_buffer d)
           then (case KissDecoder_drain d' of (rs, d'') \<Rightarrow> (Err e # rs, d'')) else ([Err e], d'))
      | (Inr (Some f), d') \<Rightarrow>
          (if length (kd_buffer d') < length (kd_buffer d)
           then (case KissDecoder_drain d' of (rs, d'') \<Rightarrow> (Ok f # rs, d'')) else ([Ok f], d')))"
  by pat_completeness auto
termination
  by (relation "measure (\<lambda>d. length (kd_buffer d))") auto

declare KissDecoder_drain.simps [simp del]

definition scan_state :: "nat \<Rightarrow> bytes option \<Rightarrow> KissDecoder" where
  "scan_state m st = (case st of None \<Rightarrow> kd_unsynced m [] | Some t \<Rightarrow> kd_synced m t)"

lemma drain_unsynced_empty: "KissDecoder_drain (kd_unsynced m []) = ([], kd_unsynced m [])"
  by (subst KissDecoder_drain.simps) (simp add: next_frame_unsynced_none)

lemma drain_step:
  assumes "KissDecoder_inv d" and "KissDecoder_next_frame d = (case r of Inl e \<Rightarrow> Err e | Inr f \<Rightarrow> Ok (Some f), d')"
  shows "KissDecoder_drain d = (case KissDecoder_drain d' of (rs, d'') \<Rightarrow> (r # rs, d''))"
proof -
  have "length (kd_buffer d') < length (kd_buffer d)"
    using next_frame_progress [OF assms(1,2)] by (cases r) auto
  then show ?thesis using assms(2)
    by (subst KissDecoder_drain.simps) (cases r; auto split: prod.splits)
qed

lemma drain_cong_next:
  assumes "KissDecoder_inv d" "KissDecoder_inv e"
    and eq: "KissDecoder_next_frame d = KissDecoder_next_frame e"
  shows "KissDecoder_drain d = KissDecoder_drain e"
proof (cases "KissDecoder_next_frame e")
  case (Pair r d')
  show ?thesis
  proof (cases "r = Ok None")
    case True
    with Pair eq show ?thesis
      by (simp add: KissDecoder_drain.simps [of d] KissDecoder_drain.simps [of e])
  next
    case False
    then obtain q where "r = (case q of Inl e \<Rightarrow> Err e | Inr f \<Rightarrow> Ok (Some f))"
      by (cases r) (auto split: option.splits intro: that [of "Inl _"] that [of "Inr _"]
          simp: option.expand)
    with drain_step [OF assms(1)] drain_step [OF assms(2)] eq Pair show ?thesis by metis
  qed
qed

text \<open>The decoder refines the reference definition.\<close>

lemma drain_synced:
  "KissDecoder_drain (kd_synced m t) = (fst (kiss_scan m t), scan_state m (snd (kiss_scan m t)))"
proof (induction m t rule: kiss_scan.induct)
  case (1 m t)
  show ?case
  proof (cases "split_once FEND t")
    case None
    then show ?thesis
      by (subst KissDecoder_drain.simps)
        (simp add: next_frame_synced_none kiss_scan.simps [of m t] scan_state_def
          drain_unsynced_empty)
  next
    case (Some cr)
    then obtain c r where cr: "split_once FEND t = Some (c, r)" by (cases cr) auto
    have IH: "KissDecoder_drain (kd_synced m r) = (fst (kiss_scan m r), scan_state m (snd (kiss_scan m r)))"
      using 1 [OF cr] by simp
    show ?thesis
    proof (cases "c = []")
      case True
      then have "t = FEND # r" using split_once_SomeD [OF cr] by simp
      then have "KissDecoder_drain (kd_synced m t) = KissDecoder_drain (kd_synced m r)"
        by (intro drain_cong_next) (simp_all add: next_frame_synced_empty)
      with IH True cr show ?thesis by (simp add: kiss_scan.simps [of m t] split: prod.splits)
    next
      case False
      from drain_step [OF KissDecoder_inv_states(1) next_frame_synced_some [OF cr False]]
      show ?thesis using IH False cr by (simp add: kiss_scan.simps [of m t] split: prod.splits)
    qed
  qed
qed

lemma drain_unsynced_some:
  assumes "split_once FEND b = Some (g, r)"
  shows "KissDecoder_drain (kd_unsynced m b) = KissDecoder_drain (kd_synced m r)"
  by (intro drain_cong_next) (simp_all add: next_frame_unsynced_some [OF assms])


section \<open>Operations keep the invariant\<close>

lemma KissDecoder_inv_new: "KissDecoder_inv (KissDecoder_with_max_frame_len m)"
  by (simp add: kd_unsynced_empty)

lemma KissDecoder_inv_push: "KissDecoder_inv d \<Longrightarrow> KissDecoder_inv (KissDecoder_push d bs)"
  by (auto simp: KissDecoder_inv_def KissDecoder_push_def)

text \<open>A drained decoder is in one of two states: hunting for a delimiter, or inside a frame,
  and either way it holds at most \<open>max_frame_len\<close> bytes without a delimiter after the first.\<close>

definition kd_drained :: "KissDecoder \<Rightarrow> bool" where
  "kd_drained d \<longleftrightarrow> length (kd_buffer d) \<le> kd_max_frame_len d \<and>
     ((\<exists>t. d = kd_synced (kd_max_frame_len d) t \<and> FEND \<notin> set t) \<or>
      (\<exists>b. d = kd_unsynced (kd_max_frame_len d) b \<and> FEND \<notin> set b))"

lemma kiss_scan_pending:
  "kiss_scan m t = (rs, Some t') \<Longrightarrow> FEND \<notin> set t' \<and> length t' + 1 \<le> m"
proof (induction m t arbitrary: rs rule: kiss_scan.induct)
  case (1 m t)
  show ?case
  proof (cases "split_once FEND t")
    case None
    with "1.prems" show ?thesis
      by (auto simp: kiss_scan.simps [of m t] split_once_None_iff split: if_splits)
  next
    case (Some cr)
    then obtain c r where cr: "split_once FEND t = Some (c, r)" by (cases cr) auto
    obtain rs' where "kiss_scan m r = (rs', Some t')"
      using "1.prems" cr by (auto simp: kiss_scan.simps [of m t] split: prod.splits)
    with "1.IH" [OF cr] show ?thesis by simp
  qed
qed

lemma kiss_scan_idle:
  assumes "FEND \<notin> set t" and "length t + 1 \<le> m"
  shows "kiss_scan m t = ([], Some t)"
proof -
  have "split_once FEND t = None" using assms(1) by (simp add: split_once_None_iff)
  with assms(2) show ?thesis by (subst kiss_scan.simps) simp
qed

lemma scan_state_drained: "kiss_scan m t = (rs, st) \<Longrightarrow> kd_drained (scan_state m st)"
  by (cases st) (auto simp: kd_drained_def scan_state_def dest: kiss_scan_pending)

lemma scan_state_max [simp]: "kd_max_frame_len (scan_state m st) = m"
  by (simp add: scan_state_def split: option.splits)

lemma drain_unsynced_none:
  assumes "split_once FEND b = None"
  shows "KissDecoder_drain (kd_unsynced m b) =
    (if length b > m then ([Err FrameTooLong], kd_unsynced m []) else ([], kd_unsynced m b))"
  using assms
  by (subst KissDecoder_drain.simps) (auto simp: next_frame_unsynced_none drain_unsynced_empty)

lemma drain_drained:
  assumes "KissDecoder_inv d" and "KissDecoder_drain d = (rs, d')"
  shows "kd_drained d' \<and> kd_max_frame_len d' = kd_max_frame_len d"
  using assms(1)
proof (cases rule: KissDecoder_inv_cases)
  case (synced t)
  with assms(2) have "d' = scan_state (kd_max_frame_len d) (snd (kiss_scan (kd_max_frame_len d) t))"
    by (metis drain_synced snd_conv)
  then show ?thesis by (metis scan_state_drained scan_state_max surjective_pairing)
next
  case unsynced
  let ?m = "kd_max_frame_len d" and ?b = "kd_buffer d"
  have dr: "KissDecoder_drain (kd_unsynced ?m ?b) = (rs, d')" using unsynced assms(2) by simp
  show ?thesis
  proof (cases "split_once FEND ?b")
    case None
    with dr show ?thesis
      by (auto simp: drain_unsynced_none kd_drained_def split_once_None_iff split: if_splits)
  next
    case (Some gr)
    then obtain g r where "split_once FEND ?b = Some (g, r)" by (cases gr) auto
    with dr have "d' = scan_state ?m (snd (kiss_scan ?m r))"
      by (simp add: drain_unsynced_some drain_synced)
    then show ?thesis by (metis scan_state_drained scan_state_max surjective_pairing)
  qed
qed

lemma drained_inv: "kd_drained d \<Longrightarrow> KissDecoder_inv d"
  by (metis kd_drained_def KissDecoder_inv_states)

section \<open>Scanning a stream in pieces\<close>

lemma kiss_scan_FEND: "kiss_scan m (FEND # t) = kiss_scan m t"
  by (subst kiss_scan.simps) (simp split: prod.splits)

lemma kiss_scan_frame:
  assumes "FEND \<notin> set c" and "c \<noteq> []"
  shows "kiss_scan m (c @ FEND # t) = (complete_frame m c # fst (kiss_scan m t), snd (kiss_scan m t))"
  using assms by (subst kiss_scan.simps) (simp add: split_once_append split: prod.splits)

text \<open>A delimiter closes whatever precedes it: what follows is scanned as from the start.\<close>

lemma kiss_scan_closed:
  "\<exists>rs. \<forall>u. kiss_scan m (t @ FEND # u) = (rs @ fst (kiss_scan m u), snd (kiss_scan m u))"
proof (induction t rule: length_induct)
  case (1 t)
  show ?case
  proof (cases "split_once FEND t")
    case None
    then have "FEND \<notin> set t" by (simp add: split_once_None_iff)
    then have "\<forall>u. kiss_scan m (t @ FEND # u) =
       ((if t = [] then [] else [complete_frame m t]) @ fst (kiss_scan m u), snd (kiss_scan m u))"
      by (cases "t = []") (simp_all add: kiss_scan_FEND kiss_scan_frame)
    then show ?thesis by blast
  next
    case (Some cr)
    then obtain c r where "split_once FEND t = Some (c, r)" by (cases cr) auto
    then have t: "t = c @ FEND # r" and c: "FEND \<notin> set c" by (auto dest: split_once_SomeD)
    from t have "length r < length t" by simp
    with 1 obtain rs where rs:
      "\<forall>u. kiss_scan m (r @ FEND # u) = (rs @ fst (kiss_scan m u), snd (kiss_scan m u))" by blast
    have "\<forall>u. kiss_scan m (t @ FEND # u) =
       (((if c = [] then [] else [complete_frame m c]) @ rs) @ fst (kiss_scan m u), snd (kiss_scan m u))"
      using c rs by (cases "c = []") (simp_all add: t kiss_scan_FEND kiss_scan_frame)
    then show ?thesis by blast
  qed
qed

lemma kiss_scan_append:
  assumes "kiss_scan m t = (rs, Some t')"
  shows "kiss_scan m (t @ xs) = (rs @ fst (kiss_scan m (t' @ xs)), snd (kiss_scan m (t' @ xs)))"
  using assms
proof (induction m t arbitrary: rs rule: kiss_scan.induct)
  case (1 m t)
  show ?case
  proof (cases "split_once FEND t")
    case None
    with "1.prems" show ?thesis by (auto simp: kiss_scan.simps [of m t] split: if_splits)
  next
    case (Some cr)
    then obtain c r where cr: "split_once FEND t = Some (c, r)" by (cases cr) auto
    then have t: "t = c @ FEND # r" and c: "FEND \<notin> set c" by (auto dest: split_once_SomeD)
    obtain rs' where rs': "kiss_scan m r = (rs', Some t')"
      and rs: "rs = (if c = [] then rs' else complete_frame m c # rs')"
      using "1.prems" cr by (auto simp: kiss_scan.simps [of m t] split: prod.splits)
    from "1.IH" [OF cr refl rs'] show ?thesis
      using c by (cases "c = []") (simp_all add: t rs kiss_scan_FEND kiss_scan_frame)
  qed
qed

text \<open>A stream fits when no run between delimiters exceeds the limit.\<close>

definition kiss_fits :: "nat \<Rightarrow> bytes \<Rightarrow> bool" where
  "kiss_fits m w \<longleftrightarrow> snd (kiss_scan m w) \<noteq> None \<and> Err FrameTooLong \<notin> set (fst (kiss_scan m w))"

lemma kiss_fits_prefix: "kiss_fits m (t @ xs) \<Longrightarrow> snd (kiss_scan m t) \<noteq> None"
proof (induction m t rule: kiss_scan.induct)
  case (1 m t)
  show ?case
  proof (cases "split_once FEND t")
    case None
    then have t: "FEND \<notin> set t" by (simp add: split_once_None_iff)
    show ?thesis
    proof (cases "split_once FEND xs")
      case None
      with t have "split_once FEND (t @ xs) = None" by (simp add: split_once_None_iff)
      with \<open>split_once FEND t = None\<close> "1.prems" show ?thesis
        by (auto simp: kiss_fits_def kiss_scan.simps split: if_splits)
    next
      case (Some cr)
      then obtain c r where "xs = c @ FEND # r" and "FEND \<notin> set c" by (cases cr) (auto dest: split_once_SomeD)
      with t have "split_once FEND (t @ xs) = Some (t @ c, r)"
        using split_once_append [of FEND "t @ c" r] by simp
      moreover have "0 < m" using "1.prems" kiss_scan_pending [of m "t @ xs"]
        by (cases "kiss_scan m (t @ xs)") (auto simp: kiss_fits_def)
      ultimately show ?thesis using \<open>split_once FEND t = None\<close> "1.prems"
        by (auto simp: kiss_fits_def kiss_scan.simps complete_frame_def split: if_splits prod.splits)
    qed
  next
    case (Some cr)
    then obtain c r where cr: "split_once FEND t = Some (c, r)" by (cases cr) auto
    then have t: "t = c @ FEND # r" and c: "FEND \<notin> set c" by (auto dest: split_once_SomeD)
    have "kiss_fits m (r @ xs)"
      using "1.prems" c
      by (cases "c = []") (simp_all add: t kiss_fits_def kiss_scan_FEND kiss_scan_frame)
    then have "snd (kiss_scan m r) \<noteq> None" using "1.IH" [OF cr refl] by blast
    then show ?thesis using cr
      by (cases "kiss_scan m r") (simp add: kiss_scan.simps [of m t])
  qed
qed

text \<open>The event loop of a serial client: push a chunk, drain, repeat.\<close>

fun KissDecoder_run :: "KissDecoder \<Rightarrow> bytes list \<Rightarrow> (KissError + KissFrame) list \<times> KissDecoder" where
  "KissDecoder_run d [] = ([], d)"
| "KissDecoder_run d (c # cs) =
     (case KissDecoder_drain (KissDecoder_push d c) of
        (rs, d') \<Rightarrow> (case KissDecoder_run d' cs of (rs', d'') \<Rightarrow> (rs @ rs', d'')))"

lemma run_synced:
  assumes "kiss_scan m t = ([], Some t)" and "kiss_fits m (t @ concat cs)"
  shows "KissDecoder_run (kd_synced m t) cs =
    (fst (kiss_scan m (t @ concat cs)), scan_state m (snd (kiss_scan m (t @ concat cs))))"
  using assms
proof (induction cs arbitrary: t)
  case Nil
  then show ?case by (simp add: scan_state_def)
next
  case (Cons c cs)
  from Cons.prems(2) obtain rs0 t' where sc: "kiss_scan m (t @ c) = (rs0, Some t')"
    using kiss_fits_prefix [of m "t @ c" "concat cs"] by (cases "kiss_scan m (t @ c)") auto
  from kiss_scan_pending [OF sc] have t': "kiss_scan m t' = ([], Some t')"
    by (simp add: kiss_scan_idle)
  note app = kiss_scan_append [OF sc, of "concat cs"]
  have "kiss_fits m (t' @ concat cs)" using Cons.prems(2) app by (simp add: kiss_fits_def)
  from Cons.IH [OF t' this] app sc show ?case
    by (simp add: drain_synced scan_state_def split: prod.splits)
qed

text \<open>From a fresh decoder: nothing happens until the first delimiter arrives.\<close>

lemma run_new:
  assumes "concat cs = FEND # t" and "kiss_fits m t"
  shows "KissDecoder_run (KissDecoder_with_max_frame_len m) cs =
    (fst (kiss_scan m t), scan_state m (snd (kiss_scan m t)))"
  using assms(1)
proof (induction cs)
  case (Cons c cs)
  show ?case
  proof (cases c)
    case Nil
    with Cons show ?thesis by (simp add: kd_unsynced_empty drain_unsynced_empty split: prod.splits)
  next
    case (Cons b u)
    then have b: "b = FEND" and t: "t = u @ concat cs" using Cons.prems by simp_all
    from assms(2) t obtain rs0 t' where sc: "kiss_scan m u = (rs0, Some t')"
      using kiss_fits_prefix [of m u "concat cs"] by (cases "kiss_scan m u") auto
    from kiss_scan_pending [OF sc] have t': "kiss_scan m t' = ([], Some t')"
      by (simp add: kiss_scan_idle)
    note app = kiss_scan_append [OF sc, of "concat cs"]
    have "kiss_fits m (t' @ concat cs)" using assms(2) app t by (simp add: kiss_fits_def)
    from run_synced [OF t' this]
    have "KissDecoder_run (kd_synced m t') cs =
      (fst (kiss_scan m (t' @ concat cs)), scan_state m (snd (kiss_scan m (t' @ concat cs))))" .
    moreover have "KissDecoder_drain (kd_unsynced m (FEND # u)) = (rs0, kd_synced m t')"
      using sc drain_unsynced_some [of "FEND # u" "[]" u m]
      by (simp add: drain_synced scan_state_def)
    ultimately show ?thesis using Cons b t app
      by (simp add: kd_unsynced_empty split: prod.splits)
  qed
qed simp

section \<open>Scanning encoded frames\<close>

lemma complete_frame_encoded:
  assumes "KissFrame_wf f" and "length (KissFrame_to_bytes f) \<le> m"
  shows "complete_frame m (kiss_body f) = Ok (KissFrame_wire f)"
  using assms by (simp add: complete_frame_def KissFrame_to_bytes_eq decode_body_kiss_body)

lemma kiss_scan_encoded:
  assumes "1 \<le> m" and "\<forall>f \<in> set fs. KissFrame_wf f \<and> length (KissFrame_to_bytes f) \<le> m"
  shows "kiss_scan m (concat (map KissFrame_to_bytes fs)) = (map (Ok \<circ> KissFrame_wire) fs, Some [])"
  using assms(2)
proof (induction fs)
  case Nil
  then show ?case using assms(1) by (subst kiss_scan.simps) simp
next
  case (Cons f fs)
  have "kiss_scan m (concat (map KissFrame_to_bytes (f # fs))) =
      kiss_scan m (kiss_body f @ FEND # concat (map KissFrame_to_bytes fs))"
    by (simp add: KissFrame_to_bytes_eq kiss_scan_FEND)
  also have "\<dots> = (map (Ok \<circ> KissFrame_wire) (f # fs), Some [])"
    using Cons complete_frame_encoded [of f m]
    by (simp add: kiss_scan_frame kiss_body_no_FEND kiss_body_nonempty)
  finally show ?case .
qed

section \<open>Properties\<close>

text \<open>C19. Streaming round trip. However the serial line cuts the encoded frames into chunks, a
  fresh decoder that drains after every chunk returns exactly those frames, in order and
  without an error, and ends empty but synchronised.\<close>

theorem kiss_stream_roundtrip:
  assumes "fs \<noteq> []"
    and "\<forall>f \<in> set fs. KissFrame_wf f \<and> length (KissFrame_to_bytes f) \<le> m"
    and "concat chunks = concat (map KissFrame_to_bytes fs)"
  shows "KissDecoder_run (KissDecoder_with_max_frame_len m) chunks =
    (map (Ok \<circ> KissFrame_wire) fs, kd_synced m [])"
proof -
  obtain f fs' where fs: "fs = f # fs'" using assms(1) by (cases fs) auto
  have m: "1 \<le> m" using assms(2) fs by (auto simp: KissFrame_to_bytes_eq)
  define t where "t = tl (concat (map KissFrame_to_bytes fs))"
  have w: "concat (map KissFrame_to_bytes fs) = FEND # t"
    by (simp add: fs t_def KissFrame_to_bytes_eq)
  have sc: "kiss_scan m t = (map (Ok \<circ> KissFrame_wire) fs, Some [])"
    using kiss_scan_encoded [OF m assms(2)] w by (simp add: kiss_scan_FEND)
  then have "kiss_fits m t" by (auto simp: kiss_fits_def)
  from run_new [OF _ this] assms(3) w sc show ?thesis by (simp add: scan_state_def)
qed

theorem kiss_stream_roundtrip_witness:
  "KissDecoder_run (KissDecoder_with_max_frame_len 16)
     [[0xC0], [0xDB, 0xDC, 0xDB], [0xDD, 0xC0, 0xC0, 0x00], [0x41, 0xC0]] =
   ([Ok \<lparr>kf_port = KissPort 12, kf_command = KissData, kf_data = [0xDB]\<rparr>,
     Ok \<lparr>kf_port = KissPort 0, kf_command = KissData, kf_data = [0x41]\<rparr>], kd_synced 16 [])"
proof -
  let ?f = "\<lparr>kf_port = KissPort 12, kf_command = KissData, kf_data = [0xDB]\<rparr>"
  let ?g = "\<lparr>kf_port = KissPort 0, kf_command = KissData, kf_data = [0x41]\<rparr>"
  have enc: "KissFrame_to_bytes ?f = [0xC0, 0xDB, 0xDC, 0xDB, 0xDD, 0xC0]"
    "KissFrame_to_bytes ?g = [0xC0, 0x00, 0x41, 0xC0]"
    by (simp_all add: KissFrame_to_bytes_def KissFrame_append_to_def push_stuffed_def kiss_consts)
  show ?thesis
    using kiss_stream_roundtrip [of "[?f, ?g]" 16
        "[[0xC0], [0xDB, 0xDC, 0xDB], [0xDD, 0xC0, 0xC0, 0x00], [0x41, 0xC0]]"]
    by (simp add: enc KissFrame_wf_def KissPort_wf_def KissFrame_wire_def)
qed

text \<open>Resynchronisation. Whatever a decoder has received before (noise, a truncated frame,
  an oversized run), a well-formed frame that fits the limit and arrives next is always
  delivered, as the last result, and the decoder is left synchronised and empty.\<close>

lemma kiss_decoder_resync:
  assumes "KissDecoder_inv d" and "KissFrame_wf f"
    and "length (KissFrame_to_bytes f) \<le> kd_max_frame_len d"
  shows "\<exists>rs. KissDecoder_drain (KissDecoder_push d (KissFrame_to_bytes f)) =
    (rs @ [Ok (KissFrame_wire f)], kd_synced (kd_max_frame_len d) [])"
proof -
  let ?m = "kd_max_frame_len d"
  have m: "1 \<le> ?m" using assms(3) by (simp add: KissFrame_to_bytes_eq)
  have body: "kiss_scan ?m (kiss_body f @ [FEND]) = ([Ok (KissFrame_wire f)], Some [])"
    using kiss_scan_encoded [of ?m "[f]"] m assms(2,3)
    by (simp add: KissFrame_to_bytes_eq kiss_scan_FEND)
  have fin: "\<exists>rs. KissDecoder_drain (kd_synced ?m (t @ KissFrame_to_bytes f)) =
      (rs @ [Ok (KissFrame_wire f)], kd_synced ?m [])" for t
  proof -
    obtain rs where "\<forall>u. kiss_scan ?m (t @ FEND # u) = (rs @ fst (kiss_scan ?m u), snd (kiss_scan ?m u))"
      using kiss_scan_closed by blast
    then have "kiss_scan ?m (t @ KissFrame_to_bytes f) = (rs @ [Ok (KissFrame_wire f)], Some [])"
      by (simp add: KissFrame_to_bytes_eq body)
    then show ?thesis by (simp add: drain_synced scan_state_def)
  qed
  show ?thesis using assms(1)
  proof (cases rule: KissDecoder_inv_cases)
    case (synced t)
    then have "KissDecoder_push d (KissFrame_to_bytes f) = kd_synced ?m (t @ KissFrame_to_bytes f)"
      by (metis push_synced)
    with fin show ?thesis by simp
  next
    case unsynced
    let ?b = "kd_buffer d @ KissFrame_to_bytes f"
    have push: "KissDecoder_push d (KissFrame_to_bytes f) = kd_unsynced ?m ?b"
      using unsynced by (metis push_unsynced)
    show ?thesis
    proof (cases "split_once FEND (kd_buffer d)")
      case None
      then have "split_once FEND ?b = Some (kd_buffer d, kiss_body f @ [FEND])"
        by (simp add: KissFrame_to_bytes_eq split_once_None_iff split_once_append)
      then show ?thesis using body push
        by (simp add: drain_unsynced_some drain_synced scan_state_def)
    next
      case (Some gr)
      then obtain g r where "kd_buffer d = g @ FEND # r" and "FEND \<notin> set g"
        by (cases gr) (auto dest: split_once_SomeD)
      then have "split_once FEND ?b = Some (g, r @ KissFrame_to_bytes f)"
        by (simp add: split_once_append)
      with fin [of r] push show ?thesis by (simp add: drain_unsynced_some)
    qed
  qed
qed

text \<open>Memory bound. After draining, a decoder never retains more than \<open>max_frame_len\<close>
  bytes, and the invariant holds again, whatever was pushed.\<close>

lemma kiss_decoder_bounded:
  assumes "KissDecoder_inv d" and "KissDecoder_drain (KissDecoder_push d bs) = (rs, d')"
  shows "length (kd_buffer d') \<le> kd_max_frame_len d \<and> KissDecoder_inv d'"
  using drain_drained [OF KissDecoder_inv_push [OF assms(1)] assms(2)]
  by (auto simp: kd_drained_def KissDecoder_push_def drained_inv [unfolded kd_drained_def])

text \<open>One-shot round trip. Decoding an encoded frame returns it; only the \<open>Return\<close>
  command loses its port and payload, which are not on the wire.\<close>

lemma kiss_frame_roundtrip:
  assumes "KissFrame_wf f"
  shows "KissFrame_from_bytes (KissFrame_to_bytes f) =
    Ok (if kf_command f = KissReturn then KissFrame_return_command else f)"
  using kiss.dec_enc [OF assms] by (simp add: KissFrame_wire_def)

end
