(* ===== verification/Ax25_Address.thy ===== *)
theory Ax25_Address
  imports Prelude
begin

unbundle bit_operations_syntax

text \<open>
  AX.25 addresses, crate \<open>ax25-codec\<close>: callsigns, SSIDs, addresses and route entries
  (\<open>src/address.rs\<close>), the error type (\<open>src/error.rs\<close>) and the seven-octet address slot
  (\<open>decode_address\<close> and \<open>encode_address\<close> of \<open>src/frame.rs\<close>). A Rust \<open>str\<close> is its UTF-8 bytes.
\<close>

section \<open>Errors\<close>

datatype Ax25Error =
    PacketTooShort
  | InvalidAddressLength
  | InvalidAddressExtension
  | InvalidAddress string
  | MissingControlFields
  | UnexpectedProtocolIdentifier u8
  | MissingProtocolIdentifier u8
  | MissingProtocolIdentifierExtension
  | UnexpectedInformationField u8 nat
  | TooManyDigipeaters
  | DigipeaterIndexOutOfBounds nat nat
  | InvalidCallsignByte u8
  | InvalidSequenceNumber u8
  | InvalidUnknownUnnumberedKind u8
  | InvalidCallsign string
  | InvalidSsid u8

section \<open>Callsigns and SSIDs\<close>

datatype Callsign = Callsign (Callsign_as_bytes: bytes)

definition Callsign_MAX_LEN :: nat where
  "Callsign_MAX_LEN = 6"

definition callsign_char :: "u8 \<Rightarrow> bool" where
  "callsign_char b \<longleftrightarrow> is_ascii_uppercase b \<or> is_ascii_digit b"

definition Callsign_validate :: "bytes \<Rightarrow> Ax25Error + unit" where
  "Callsign_validate s =
     (if s = [] then Err (InvalidCallsign ''must not be empty'')
      else if length s > Callsign_MAX_LEN then Err (InvalidCallsign ''length exceeds 6 characters'')
      else if \<exists>b \<in> set s. \<not> callsign_char b
      then Err (InvalidCallsign ''must be uppercase A-Z or digit 0-9'')
      else Ok ())"

definition Callsign_new :: "bytes \<Rightarrow> Ax25Error + Callsign" where
  "Callsign_new s = (case Callsign_validate s of Inl e \<Rightarrow> Err e | Inr u \<Rightarrow> Ok (Callsign s))"

definition Callsign_new_case_insensitive :: "bytes \<Rightarrow> Ax25Error + Callsign" where
  "Callsign_new_case_insensitive s = Callsign_new (map to_ascii_uppercase s)"

definition Callsign_wf :: "Callsign \<Rightarrow> bool" where
  "Callsign_wf c \<longleftrightarrow> Callsign_as_bytes c \<noteq> [] \<and> length (Callsign_as_bytes c) \<le> 6 \<and>
     (\<forall>b \<in> set (Callsign_as_bytes c). callsign_char b)"

datatype Ssid = Ssid (Ssid_get: u8)

definition Ssid_ZERO :: Ssid where "Ssid_ZERO = Ssid 0"

definition Ssid_MAX :: u8 where "Ssid_MAX = 15"

definition Ssid_new :: "u8 \<Rightarrow> Ax25Error + Ssid" where
  "Ssid_new n = (if n \<le> Ssid_MAX then Ok (Ssid n) else Err (InvalidSsid n))"

definition Ssid_saturating_decrement :: "Ssid \<Rightarrow> Ssid" where
  "Ssid_saturating_decrement s = Ssid (if Ssid_get s = 0 then 0 else Ssid_get s - 1)"

definition Ssid_wf :: "Ssid \<Rightarrow> bool" where
  "Ssid_wf s \<longleftrightarrow> Ssid_get s \<le> 15"

instantiation Ssid :: linorder
begin

definition less_eq_Ssid :: "Ssid \<Rightarrow> Ssid \<Rightarrow> bool" where
  "less_eq_Ssid s t \<longleftrightarrow> Ssid_get s \<le> Ssid_get t"

definition less_Ssid :: "Ssid \<Rightarrow> Ssid \<Rightarrow> bool" where
  "less_Ssid s t \<longleftrightarrow> Ssid_get s < Ssid_get t"

instance
  by standard (auto simp: less_eq_Ssid_def less_Ssid_def intro: Ssid.expand)

end

section \<open>Addresses and route entries\<close>

record Ax25Address =
  aa_callsign :: Callsign
  aa_ssid :: Ssid

definition Ax25Address_from_parts :: "Callsign \<Rightarrow> Ssid \<Rightarrow> Ax25Address" where
  "Ax25Address_from_parts c s = \<lparr>aa_callsign = c, aa_ssid = s\<rparr>"

definition Ax25Address_new :: "bytes \<Rightarrow> u8 \<Rightarrow> Ax25Error + Ax25Address" where
  "Ax25Address_new callsign ssid =
     (case Callsign_new_case_insensitive callsign of
        Inl e \<Rightarrow> Err e
      | Inr c \<Rightarrow> (case Ssid_new ssid of Inl e \<Rightarrow> Err e | Inr s \<Rightarrow> Ok (Ax25Address_from_parts c s)))"

text \<open>\<open>str::parse::<u8>\<close> on a string of decimal digits, with the overflow check at each digit.\<close>

fun parse_u8_digits :: "nat \<Rightarrow> bytes \<Rightarrow> nat option" where
  "parse_u8_digits acc [] = Some acc"
| "parse_u8_digits acc (d # ds) =
     (let v = acc * 10 + (unat d - 48) in if v > 255 then None else parse_u8_digits v ds)"

text \<open>\<open>Display\<close> of an unsigned integer.\<close>

fun display_nat :: "nat \<Rightarrow> bytes" where
  "display_nat n =
     (if n < 10 then [of_nat (48 + n)] else display_nat (n div 10) @ [of_nat (48 + n mod 10)])"

definition DASH :: u8 where "DASH = 0x2D"

definition Ax25Address_from_canonical_str :: "bytes \<Rightarrow> Ax25Error + Ax25Address" where
  "Ax25Address_from_canonical_str value =
     (case split_once DASH value of
        None \<Rightarrow>
          (case Callsign_new value of
             Inl e \<Rightarrow> Err e | Inr c \<Rightarrow> Ok (Ax25Address_from_parts c Ssid_ZERO))
      | Some (callsign, suffix) \<Rightarrow>
          (if suffix = [] then Err (InvalidAddress ''SSID suffix must not be empty'')
           else if get 0 suffix = Some 0x30 then
             Err (InvalidAddress
               ''SSID zero must be omitted and nonzero SSIDs must not be zero-padded'')
           else if \<not> (\<forall>b \<in> set suffix. is_ascii_digit b) then
             Err (InvalidAddress ''SSID suffix must contain only decimal digits'')
           else
             (case parse_u8_digits 0 suffix of
                None \<Rightarrow> Err (InvalidAddress ''SSID suffix must be in the range 1-15'')
              | Some raw_ssid \<Rightarrow>
                  (case Callsign_new callsign of
                     Inl e \<Rightarrow> Err e
                   | Inr c \<Rightarrow>
                       (case Ssid_new (of_nat raw_ssid) of
                          Inl e \<Rightarrow> Err e | Inr s \<Rightarrow> Ok (Ax25Address_from_parts c s))))))"

definition Ax25Address_display :: "Ax25Address \<Rightarrow> bytes" where
  "Ax25Address_display a =
     (if Ssid_get (aa_ssid a) = 0 then Callsign_as_bytes (aa_callsign a)
      else Callsign_as_bytes (aa_callsign a) @ [DASH] @ display_nat (unat (Ssid_get (aa_ssid a))))"

definition Ax25Address_wf :: "Ax25Address \<Rightarrow> bool" where
  "Ax25Address_wf a \<longleftrightarrow> Callsign_wf (aa_callsign a) \<and> Ssid_wf (aa_ssid a)"

record RouteEntry =
  re_address :: Ax25Address
  re_has_repeated :: bool

definition RouteEntry_from_address :: "Ax25Address \<Rightarrow> RouteEntry" where
  "RouteEntry_from_address a = \<lparr>re_address = a, re_has_repeated = False\<rparr>"

definition RouteEntry_new :: "bytes \<Rightarrow> u8 \<Rightarrow> Ax25Error + RouteEntry" where
  "RouteEntry_new callsign ssid =
     (case Ax25Address_new callsign ssid of
        Inl e \<Rightarrow> Err e | Inr a \<Rightarrow> Ok \<lparr>re_address = a, re_has_repeated = False\<rparr>)"

definition RouteEntry_marked_used :: "RouteEntry \<Rightarrow> RouteEntry" where
  "RouteEntry_marked_used e = e\<lparr>re_has_repeated := True\<rparr>"

definition RouteEntry_display :: "RouteEntry \<Rightarrow> bytes" where
  "RouteEntry_display e =
     Ax25Address_display (re_address e) @ (if re_has_repeated e then [0x2A] else [])"

definition RouteEntry_wf :: "RouteEntry \<Rightarrow> bool" where
  "RouteEntry_wf e \<longleftrightarrow> Ax25Address_wf (re_address e)"

section \<open>The seven-octet slot\<close>

fun decode_callsign_loop :: "bool \<Rightarrow> bytes \<Rightarrow> bytes \<Rightarrow> Ax25Error + bytes" where
  "decode_callsign_loop in_pad callsign [] = Ok callsign"
| "decode_callsign_loop in_pad callsign (b # bs) =
     (if b AND 0x01 \<noteq> 0 then Err InvalidAddressExtension
      else
        let ch = drop_bit 1 b
        in if ch = 0x20 then decode_callsign_loop True callsign bs
           else if in_pad then Err (InvalidCallsignByte ch)
           else if \<not> is_ascii_alphanumeric ch then Err (InvalidCallsignByte ch)
           else decode_callsign_loop in_pad (callsign @ [to_ascii_uppercase ch]) bs)"

definition decode_address :: "bytes \<Rightarrow> Ax25Error + (Ax25Address \<times> bool)" where
  "decode_address slot =
     (case decode_callsign_loop False [] (take 6 slot) of
        Inl e \<Rightarrow> Err e
      | Inr callsign \<Rightarrow>
          (case get 6 slot of
             None \<Rightarrow> Err PacketTooShort
           | Some ssid_byte \<Rightarrow>
               let ssid_raw = drop_bit 1 ssid_byte AND 0x0F;
                   bit7 = (ssid_byte AND 0x80 \<noteq> 0)
               in case Callsign_new callsign of
                    Inl e \<Rightarrow> Err e
                  | Inr c \<Rightarrow>
                      (case Ssid_new ssid_raw of
                         Inl e \<Rightarrow> Err e
                       | Inr s \<Rightarrow> Ok (Ax25Address_from_parts c s, bit7))))"

definition encode_ssid_byte :: "Ssid \<Rightarrow> bool \<Rightarrow> bool \<Rightarrow> u8" where
  "encode_ssid_byte s bit7 is_last =
     (let ssid_byte = 0x60 OR push_bit 1 (Ssid_get s AND 0x0F);
          ssid_byte1 = (if is_last then ssid_byte OR 0x01 else ssid_byte)
      in if bit7 then ssid_byte1 OR 0x80 else ssid_byte1)"

definition shl1 :: "u8 \<Rightarrow> u8" where
  "shl1 ch = push_bit 1 ch"

definition encode_address :: "Ax25Address \<Rightarrow> bool \<Rightarrow> bool \<Rightarrow> bytes" where
  "encode_address addr bit7 is_last =
     (let cs = take 6 (Callsign_as_bytes (aa_callsign addr))
      in map shl1 cs @ replicate (6 - length cs) 0x40
           @ [encode_ssid_byte (aa_ssid addr) bit7 is_last])"

section \<open>Construction is validation\<close>

lemma Callsign_new_Ok_iff: "Callsign_new s = Ok c \<longleftrightarrow> c = Callsign s \<and> Callsign_wf c"
  by (auto simp: Callsign_new_def Callsign_validate_def Callsign_wf_def Callsign_MAX_LEN_def
      split: if_splits)

lemma Callsign_new_wf: "Callsign_wf c \<Longrightarrow> Callsign_new (Callsign_as_bytes c) = Ok c"
  by (simp add: Callsign_new_Ok_iff)

lemma Callsign_new_case_insensitive_wf:
  "Callsign_new_case_insensitive s = Ok c \<Longrightarrow> Callsign_wf c"
  by (auto simp: Callsign_new_case_insensitive_def Callsign_new_Ok_iff)

lemma Ssid_new_Ok_iff: "Ssid_new n = Ok s \<longleftrightarrow> s = Ssid n \<and> Ssid_wf s"
  by (auto simp: Ssid_new_def Ssid_wf_def Ssid_MAX_def)

lemma Ssid_new_wf: "Ssid_wf s \<Longrightarrow> Ssid_new (Ssid_get s) = Ok s"
  by (simp add: Ssid_new_Ok_iff)

lemma Ssid_saturating_decrement_wf: "Ssid_wf s \<Longrightarrow> Ssid_wf (Ssid_saturating_decrement s)"
  by (auto simp: Ssid_wf_def Ssid_saturating_decrement_def) unat_arith

lemma Ax25Address_new_wf: "Ax25Address_new c s = Ok a \<Longrightarrow> Ax25Address_wf a"
  by (auto simp: Ax25Address_new_def Ax25Address_wf_def Ax25Address_from_parts_def
      Ssid_new_Ok_iff Callsign_new_case_insensitive_wf split: sum.splits)

section \<open>Slots\<close>

lemma callsign_char_slot:
  assumes "callsign_char c"
  shows "shl1 c AND 1 = 0" "drop_bit (Suc 0) (shl1 c) = c" "c \<noteq> 0x20"
    and "is_ascii_alphanumeric c" "to_ascii_uppercase c = c"
proof -
  have "\<forall>c. callsign_char c \<longrightarrow> shl1 c AND 1 = 0 \<and> drop_bit (Suc 0) (shl1 c) = c \<and> c \<noteq> 0x20"
    unfolding u8_all callsign_char_def ascii_defs shl1_def by simp
  with assms show "shl1 c AND 1 = 0" "drop_bit (Suc 0) (shl1 c) = c" "c \<noteq> 0x20" by blast+
  from assms show "is_ascii_alphanumeric c" "to_ascii_uppercase c = c"
    by (auto simp: to_ascii_uppercase_upper_digit callsign_char_def is_ascii_alphanumeric_def)
qed

lemma decode_callsign_chars:
  "\<forall>c \<in> set cs. callsign_char c \<Longrightarrow>
     decode_callsign_loop False acc (map shl1 cs @ bs) = decode_callsign_loop False (acc @ cs) bs"
  by (induction cs arbitrary: acc) (simp_all add: callsign_char_slot Let_def)

lemma decode_callsign_pad: "decode_callsign_loop p acc (replicate n 0x40) = Ok acc"
  by (induction n arbitrary: p) simp_all

lemma decode_callsign_slot:
  assumes "\<forall>c \<in> set cs. callsign_char c"
  shows "decode_callsign_loop False [] (map shl1 cs @ replicate n 0x40) = Ok cs"
  using decode_callsign_chars [OF assms, of "[]"] by (simp add: decode_callsign_pad)

text \<open>The decoder only ever collects callsign characters.\<close>

lemma decode_callsign_loop_chars:
  "decode_callsign_loop p acc bs = Ok cs \<Longrightarrow> \<forall>c \<in> set acc. callsign_char c \<Longrightarrow>
     \<forall>c \<in> set cs. callsign_char c"
proof (induction p acc bs arbitrary: cs rule: decode_callsign_loop.induct)
  case (2 in_pad callsign b bs)
  then show ?case
    by (auto simp: Let_def callsign_char_def alphanumeric_upper split: if_splits)
qed simp

lemma ssid_byte_split:
  assumes "Ssid_wf s"
  shows "drop_bit 1 (encode_ssid_byte s bit7 is_last) AND 0x0F = Ssid_get s"
    and "(encode_ssid_byte s bit7 is_last AND 0x80 \<noteq> 0) = bit7"
    and "(encode_ssid_byte s bit7 is_last AND 0x01 \<noteq> 0) = is_last"
  using nibble_cases [of "Ssid_get s"] assms
  by (auto simp: Ssid_wf_def encode_ssid_byte_def Let_def split: if_splits)

lemma encode_address_length [simp]: "length (encode_address a b l) = 7"
  by (simp add: encode_address_def Let_def)

lemma encode_address_last [simp]: "encode_address a b l ! 6 = encode_ssid_byte (aa_ssid a) b l"
  by (simp add: encode_address_def Let_def nth_append)

lemma decode_encode_address:
  assumes "Ax25Address_wf a"
  shows "decode_address (encode_address a bit7 is_last) = Ok (a, bit7)"
proof -
  let ?cs = "Callsign_as_bytes (aa_callsign a)"
  have c: "Callsign_wf (aa_callsign a)" and s: "Ssid_wf (aa_ssid a)"
    using assms by (simp_all add: Ax25Address_wf_def)
  then have "take 6 (encode_address a bit7 is_last) = map shl1 ?cs @ replicate (6 - length ?cs) 0x40"
    by (simp add: encode_address_def Callsign_wf_def Let_def)
  moreover have "\<forall>b \<in> set ?cs. callsign_char b" using c by (simp add: Callsign_wf_def)
  ultimately have "decode_callsign_loop False [] (take 6 (encode_address a bit7 is_last)) = Ok ?cs"
    by (simp add: decode_callsign_slot)
  then show ?thesis using ssid_byte_split [OF s, of bit7 is_last] c s
    by (simp add: decode_address_def Let_def get_def Callsign_new_wf Ssid_new_wf
        Ax25Address_from_parts_def)
qed

lemma decode_address_wf: "decode_address bs = Ok (a, b) \<Longrightarrow> Ax25Address_wf a"
  by (auto simp: decode_address_def Let_def Callsign_new_Ok_iff Ssid_new_Ok_iff Ax25Address_wf_def
      Ax25Address_from_parts_def split: sum.splits option.splits)

section \<open>Canonical text\<close>

lemma digit_value_le: "is_ascii_digit d \<Longrightarrow> unat d - 48 < 10 \<and> of_nat (48 + (unat d - 48)) = d"
proof -
  assume "is_ascii_digit d"
  then have "48 \<le> unat d" "unat d \<le> 57" by (simp_all add: is_ascii_digit_def word_le_nat_alt)
  then show ?thesis by simp
qed

lemma display_nat_shift: "0 < x \<Longrightarrow> d < 10 \<Longrightarrow> display_nat (x * 10 + d) = display_nat x @ [of_nat (48 + d)]"
  by (subst display_nat.simps) simp

declare display_nat.simps [simp del]

lemma display_nat_small:
  "n < 10 \<Longrightarrow> display_nat n = [of_nat (48 + n)]"
  "10 \<le> n \<Longrightarrow> n < 100 \<Longrightarrow> display_nat n = [of_nat (48 + n div 10), of_nat (48 + n mod 10)]"
proof -
  show one: "display_nat n = [of_nat (48 + n)]" if "n < 10" for n
    using that by (simp add: display_nat.simps [of n])
  show "10 \<le> n \<Longrightarrow> n < 100 \<Longrightarrow> display_nat n = [of_nat (48 + n div 10), of_nat (48 + n mod 10)]"
    using one [of "n div 10"] by (simp add: display_nat.simps [of n])
qed

lemma display_parse:
  "parse_u8_digits acc ds = Some v \<Longrightarrow> 0 < acc \<Longrightarrow> \<forall>d \<in> set ds. is_ascii_digit d \<Longrightarrow>
     display_nat v = display_nat acc @ ds"
proof (induction ds arbitrary: acc)
  case (Cons d ds)
  let ?v = "acc * 10 + (unat d - 48)"
  have d: "unat d - 48 < 10" "of_nat (48 + (unat d - 48)) = d"
    using Cons.prems(3) digit_value_le by auto
  have "parse_u8_digits ?v ds = Some v" using Cons.prems(1) by (auto simp: Let_def split: if_splits)
  moreover have "0 < ?v" using Cons.prems(2) by simp
  ultimately have "display_nat v = display_nat ?v @ ds" using Cons.IH Cons.prems(3) by auto
  also have "display_nat ?v = display_nat acc @ [d]"
    using display_nat_shift [OF Cons.prems(2) d(1)] d(2) by simp
  finally show ?case by simp
qed simp

lemma display_parse0:
  assumes "parse_u8_digits 0 ds = Some v" and "ds \<noteq> []" and "get 0 ds \<noteq> Some 0x30"
    and dig: "\<forall>d \<in> set ds. is_ascii_digit d"
  shows "display_nat v = ds \<and> 0 < v \<and> v \<le> 255"
proof -
  obtain d ds' where ds: "ds = d # ds'" using assms(2) by (cases ds) auto
  have d: "unat d - 48 < 10" "of_nat (48 + (unat d - 48)) = d" and "48 \<le> unat d"
    using dig ds digit_value_le by (auto simp: is_ascii_digit_def word_le_nat_alt)
  moreover have "d \<noteq> 48" using assms(3) ds by simp
  then have "unat d \<noteq> 48" using d(2) by auto
  ultimately have pos: "0 < unat d - 48" by simp
  have p: "parse_u8_digits (unat d - 48) ds' = Some v" using assms(1) ds by (auto simp: Let_def split: if_splits)
  have "display_nat v = display_nat (unat d - 48) @ ds'"
    using display_parse [OF p pos] dig ds by simp
  moreover have "display_nat (unat d - 48) = [d]" using d by (simp add: display_nat_small)
  moreover have "v \<ge> acc \<and> (acc \<le> 255 \<longrightarrow> v \<le> 255)" if "parse_u8_digits acc es = Some v" for acc es
    using that by (induction es arbitrary: acc) (force simp: Let_def split: if_splits)+
  ultimately show ?thesis using ds p pos d(1) by force
qed

lemma callsign_char_not_dash: "callsign_char b \<Longrightarrow> b \<noteq> DASH"
  unfolding callsign_char_def ascii_defs DASH_def by unat_arith

lemma callsign_no_dash: "Callsign_wf c \<Longrightarrow> DASH \<notin> set (Callsign_as_bytes c)"
  using callsign_char_not_dash by (auto simp: Callsign_wf_def)

lemma ssid_suffix:
  assumes "Ssid_wf s" and "Ssid_get s \<noteq> 0"
  shows "display_nat (unat (Ssid_get s)) \<noteq> []" "get 0 (display_nat (unat (Ssid_get s))) \<noteq> Some 0x30"
    "\<forall>b \<in> set (display_nat (unat (Ssid_get s))). is_ascii_digit b"
    "parse_u8_digits 0 (display_nat (unat (Ssid_get s))) = Some (unat (Ssid_get s))"
  using nibble_cases [of "Ssid_get s"] assms
  by (auto simp: Ssid_wf_def display_nat_small is_ascii_digit_def)

lemma from_canonical_str_display:
  assumes "Ax25Address_wf a"
  shows "Ax25Address_from_canonical_str (Ax25Address_display a) = Ok a"
proof -
  have c: "Callsign_wf (aa_callsign a)" and s: "Ssid_wf (aa_ssid a)"
    using assms by (simp_all add: Ax25Address_wf_def)
  note dash = callsign_no_dash [OF c]
  show ?thesis
  proof (cases "Ssid_get (aa_ssid a) = 0")
    case True
    then have "aa_ssid a = Ssid_ZERO" by (simp add: Ssid.expand Ssid_ZERO_def)
    moreover have "split_once DASH (Callsign_as_bytes (aa_callsign a)) = None"
      using dash by (simp add: split_once_None_iff)
    ultimately show ?thesis using True c
      by (simp add: Ax25Address_display_def Ax25Address_from_canonical_str_def Callsign_new_wf
          Ax25Address_from_parts_def)
  next
    case False
    have "Ssid_new (word_of_nat (unat (Ssid_get (aa_ssid a)))) = Ok (aa_ssid a)"
      using s by (simp add: Ssid_new_wf)
    then show ?thesis using False dash c ssid_suffix [OF s False]
      by (simp add: Ax25Address_display_def Ax25Address_from_canonical_str_def split_once_append
          Callsign_new_wf Ax25Address_from_parts_def)
  qed
qed

lemma from_canonical_str_wf: "Ax25Address_from_canonical_str v = Ok a \<Longrightarrow> Ax25Address_wf a"
  by (auto simp: Ax25Address_from_canonical_str_def Ax25Address_wf_def Ax25Address_from_parts_def
      Callsign_new_Ok_iff Ssid_new_Ok_iff Ssid_ZERO_def Ssid_wf_def
      split: option.splits sum.splits if_splits)

lemma display_from_canonical_str:
  assumes "Ax25Address_from_canonical_str v = Ok a"
  shows "Ax25Address_display a = v"
proof (cases "split_once DASH v")
  case None
  with assms show ?thesis
    by (auto simp: Ax25Address_from_canonical_str_def Ax25Address_display_def
        Ax25Address_from_parts_def Callsign_new_Ok_iff Ssid_ZERO_def split: sum.splits)
next
  case (Some cs)
  then obtain cl sf where cs: "split_once DASH v = Some (cl, sf)" by (cases cs) auto
  with assms obtain raw where sf: "sf \<noteq> []" "get 0 sf \<noteq> Some 0x30" "\<forall>b \<in> set sf. is_ascii_digit b"
    and raw: "parse_u8_digits 0 sf = Some raw"
    and cl: "aa_callsign a = Callsign cl" and ss: "aa_ssid a = Ssid (of_nat raw)"
    by (auto simp: Ax25Address_from_canonical_str_def Callsign_new_Ok_iff Ssid_new_Ok_iff
        Ax25Address_from_parts_def split: sum.splits option.splits if_splits)
  have d: "display_nat raw = sf" and "0 < raw" "raw \<le> 255"
    using display_parse0 [OF raw sf] by simp_all
  then have "unat (word_of_nat raw :: u8) = raw" by (simp add: unat_of_nat)
  with \<open>0 < raw\<close> have "(word_of_nat raw :: u8) \<noteq> 0" by (metis less_numeral_extra(3) unat_0)
  with \<open>unat (word_of_nat raw :: u8) = raw\<close> d split_once_SomeD [OF cs] cl ss show ?thesis
    by (simp add: Ax25Address_display_def)
qed

interpretation address_text:
  lossless_codec Ax25Address_wf Ax25Address_display Ax25Address_from_canonical_str
  by unfold_locales (simp_all add: from_canonical_str_display from_canonical_str_wf)

section \<open>Properties\<close>

text \<open>Canonical text. Parsing accepts exactly the displayed form of a valid address: the
  display of every valid address parses back to it, and whatever text the parser accepts is
  the display of the address it returns (so \<open>-0\<close>, zero-padded and out-of-range suffixes and
  lower-case letters are all refused).\<close>

lemma ax25_address_canonical:
  "Ax25Address_from_canonical_str v = Ok a \<longleftrightarrow> Ax25Address_wf a \<and> v = Ax25Address_display a"
  using address_text.lossless address_text.lossless_wf display_from_canonical_str by metis

end
