(* ===== verification/Ax25_Control.thy ===== *)
theory Ax25_Control
  imports Ax25_Address
begin

unbundle bit_operations_syntax

text \<open>
  The modulo-8 control field (\<open>ax25-codec/src/control.rs\<close>) and the protocol identifier
  (\<open>ax25-codec/src/pid.rs\<close>). Both are total classifications of a byte; the theorems are that
  the classifications lose nothing and that validated values never collide with a named one.
\<close>

section \<open>Control field\<close>

datatype PollFinal = PfClear | PfSet

definition PollFinal_is_set :: "PollFinal \<Rightarrow> bool" where
  "PollFinal_is_set p = (case p of PfSet \<Rightarrow> True | PfClear \<Rightarrow> False)"

definition PollFinal_from_control_byte :: "u8 \<Rightarrow> PollFinal" where
  "PollFinal_from_control_byte value = (if value AND 0x10 = 0 then PfClear else PfSet)"

datatype Ax25SequenceNumber = Ax25SequenceNumber (Ax25SequenceNumber_get: u8)

definition Ax25SequenceNumber_new :: "u8 \<Rightarrow> Ax25Error + Ax25SequenceNumber" where
  "Ax25SequenceNumber_new value =
     (if value \<le> 7 then Ok (Ax25SequenceNumber value) else Err (InvalidSequenceNumber value))"

datatype UnknownUnnumberedKind = UnknownUnnumberedKind (UnknownUnnumberedKind_as_byte: u8)

definition is_known_unnumbered_kind :: "u8 \<Rightarrow> bool" where
  "is_known_unnumbered_kind value \<longleftrightarrow>
     value \<in> {0x03, 0x0F, 0x2F, 0x43, 0x63, 0x6F, 0x87, 0xAF, 0xE3}"

definition UnknownUnnumberedKind_new :: "u8 \<Rightarrow> Ax25Error + UnknownUnnumberedKind" where
  "UnknownUnnumberedKind_new value =
     (if value AND 0x03 \<noteq> 0x03 \<or> value AND 0x10 \<noteq> 0 \<or> is_known_unnumbered_kind value
      then Err (InvalidUnknownUnnumberedKind value)
      else Ok (UnknownUnnumberedKind value))"

datatype SupervisoryKind = ReceiveReady | ReceiveNotReady | Reject | SelectiveReject

datatype UnnumberedKind =
    UnnumberedInformation | SetAsyncBalancedMode | SetAsyncBalancedModeExtended | Disconnect
  | DisconnectedMode | UnnumberedAcknowledge | FrameReject | ExchangeIdentification | UTest
  | UOther UnknownUnnumberedKind

datatype Ax25Control =
    Information (ns: Ax25SequenceNumber) (nr: Ax25SequenceNumber) (pf: PollFinal)
  | Supervisory SupervisoryKind Ax25SequenceNumber PollFinal
  | Unnumbered UnnumberedKind PollFinal

fun UnnumberedKind_as_byte :: "UnnumberedKind \<Rightarrow> u8" where
  "UnnumberedKind_as_byte UnnumberedInformation = 0x03"
| "UnnumberedKind_as_byte SetAsyncBalancedMode = 0x2F"
| "UnnumberedKind_as_byte SetAsyncBalancedModeExtended = 0x6F"
| "UnnumberedKind_as_byte Disconnect = 0x43"
| "UnnumberedKind_as_byte DisconnectedMode = 0x0F"
| "UnnumberedKind_as_byte UnnumberedAcknowledge = 0x63"
| "UnnumberedKind_as_byte FrameReject = 0x87"
| "UnnumberedKind_as_byte ExchangeIdentification = 0xAF"
| "UnnumberedKind_as_byte UTest = 0xE3"
| "UnnumberedKind_as_byte (UOther kind) = UnknownUnnumberedKind_as_byte kind"

definition unnumbered_kind_of_bits :: "u8 \<Rightarrow> UnnumberedKind" where
  "unnumbered_kind_of_bits kind_bits =
     (if kind_bits = 0x03 then UnnumberedInformation
      else if kind_bits = 0x2F then SetAsyncBalancedMode
      else if kind_bits = 0x6F then SetAsyncBalancedModeExtended
      else if kind_bits = 0x43 then Disconnect
      else if kind_bits = 0x0F then DisconnectedMode
      else if kind_bits = 0x63 then UnnumberedAcknowledge
      else if kind_bits = 0x87 then FrameReject
      else if kind_bits = 0xAF then ExchangeIdentification
      else if kind_bits = 0xE3 then UTest
      else UOther (UnknownUnnumberedKind kind_bits))"

definition Ax25Control_from_byte :: "u8 \<Rightarrow> Ax25Control" where
  "Ax25Control_from_byte b =
     (if b AND 0x01 = 0 then
        Information (Ax25SequenceNumber (drop_bit 1 b AND 0x07))
          (Ax25SequenceNumber (drop_bit 5 b AND 0x07)) (PollFinal_from_control_byte b)
      else if b AND 0x03 = 0x01 then
        let k = drop_bit 2 b AND 0x03;
            kind = (if k = 0 then ReceiveReady else if k = 1 then ReceiveNotReady
                    else if k = 2 then Reject else SelectiveReject)
        in Supervisory kind (Ax25SequenceNumber (drop_bit 5 b AND 0x07)) (PollFinal_from_control_byte b)
      else
        let kind_bits = b AND 0xEF
        in Unnumbered (unnumbered_kind_of_bits kind_bits) (PollFinal_from_control_byte b))"

definition Ax25Control_is_ui :: "Ax25Control \<Rightarrow> bool" where
  "Ax25Control_is_ui c = (case c of Unnumbered UnnumberedInformation p \<Rightarrow> True | _ \<Rightarrow> False)"

fun SupervisoryKind_bits :: "SupervisoryKind \<Rightarrow> u8" where
  "SupervisoryKind_bits ReceiveReady = 0x01"
| "SupervisoryKind_bits ReceiveNotReady = 0x05"
| "SupervisoryKind_bits Reject = 0x09"
| "SupervisoryKind_bits SelectiveReject = 0x0D"

fun Ax25Control_as_byte :: "Ax25Control \<Rightarrow> u8" where
  "Ax25Control_as_byte (Information s r p) =
     push_bit 1 (Ax25SequenceNumber_get s) OR push_bit 5 (Ax25SequenceNumber_get r)
       OR (if PollFinal_is_set p then 0x10 else 0)"
| "Ax25Control_as_byte (Supervisory kind r p) =
     SupervisoryKind_bits kind OR push_bit 5 (Ax25SequenceNumber_get r)
       OR (if PollFinal_is_set p then 0x10 else 0)"
| "Ax25Control_as_byte (Unnumbered kind p) =
     UnnumberedKind_as_byte kind OR (if PollFinal_is_set p then 0x10 else 0)"

datatype CommandResponse = Command | Response | LegacyBothClear | LegacyBothSet

text \<open>What the constructors of the source guarantee of a control value.\<close>

definition seq_wf :: "Ax25SequenceNumber \<Rightarrow> bool" where
  "seq_wf s \<longleftrightarrow> Ax25SequenceNumber_get s \<le> 7"

definition unknown_kind_wf :: "u8 \<Rightarrow> bool" where
  "unknown_kind_wf v \<longleftrightarrow> v AND 0x03 = 0x03 \<and> v AND 0x10 = 0 \<and> \<not> is_known_unnumbered_kind v"

fun Ax25Control_wf :: "Ax25Control \<Rightarrow> bool" where
  "Ax25Control_wf (Information s r p) \<longleftrightarrow> seq_wf s \<and> seq_wf r"
| "Ax25Control_wf (Supervisory k r p) \<longleftrightarrow> seq_wf r"
| "Ax25Control_wf (Unnumbered (UOther k) p) \<longleftrightarrow> unknown_kind_wf (UnknownUnnumberedKind_as_byte k)"
| "Ax25Control_wf (Unnumbered k p) \<longleftrightarrow> True"

section \<open>Protocol identifier\<close>

datatype UnknownPid = UnknownPid (UnknownPid_as_byte: u8)

datatype Ax25Pid =
    Iso8208 | CompressedTcpIp | UncompressedTcpIp | SegmentationFragment | TexNet | LinkQuality
  | Appletalk | AppletalkArp | Ip | Arp | FlexNet | NetRom | NoLayer3 | Escape u8 | PidOther UnknownPid

definition Ax25Pid_from_byte :: "u8 \<Rightarrow> Ax25Error + Ax25Pid" where
  "Ax25Pid_from_byte b =
     (if b = 0x01 then Ok Iso8208
      else if b = 0x06 then Ok CompressedTcpIp
      else if b = 0x07 then Ok UncompressedTcpIp
      else if b = 0x08 then Ok SegmentationFragment
      else if b = 0xC3 then Ok TexNet
      else if b = 0xC4 then Ok LinkQuality
      else if b = 0xCA then Ok Appletalk
      else if b = 0xCB then Ok AppletalkArp
      else if b = 0xCC then Ok Ip
      else if b = 0xCD then Ok Arp
      else if b = 0xCE then Ok FlexNet
      else if b = 0xCF then Ok NetRom
      else if b = 0xF0 then Ok NoLayer3
      else if b = 0xFF then Err MissingProtocolIdentifierExtension
      else Ok (PidOther (UnknownPid b)))"

definition Ax25Pid_escaped :: "u8 \<Rightarrow> Ax25Pid" where
  "Ax25Pid_escaped extension = Escape extension"

fun Ax25Pid_as_byte :: "Ax25Pid \<Rightarrow> u8" where
  "Ax25Pid_as_byte Iso8208 = 0x01"
| "Ax25Pid_as_byte CompressedTcpIp = 0x06"
| "Ax25Pid_as_byte UncompressedTcpIp = 0x07"
| "Ax25Pid_as_byte SegmentationFragment = 0x08"
| "Ax25Pid_as_byte TexNet = 0xC3"
| "Ax25Pid_as_byte LinkQuality = 0xC4"
| "Ax25Pid_as_byte Appletalk = 0xCA"
| "Ax25Pid_as_byte AppletalkArp = 0xCB"
| "Ax25Pid_as_byte Ip = 0xCC"
| "Ax25Pid_as_byte Arp = 0xCD"
| "Ax25Pid_as_byte FlexNet = 0xCE"
| "Ax25Pid_as_byte NetRom = 0xCF"
| "Ax25Pid_as_byte NoLayer3 = 0xF0"
| "Ax25Pid_as_byte (Escape extension) = 0xFF"
| "Ax25Pid_as_byte (PidOther pid) = UnknownPid_as_byte pid"

definition Ax25Pid_extension_byte :: "Ax25Pid \<Rightarrow> u8 option" where
  "Ax25Pid_extension_byte p = (case p of Escape extension \<Rightarrow> Some extension | _ \<Rightarrow> None)"

definition Ax25Pid_wire_len :: "Ax25Pid \<Rightarrow> nat" where
  "Ax25Pid_wire_len p = (if Ax25Pid_extension_byte p \<noteq> None then 2 else 1)"

definition known_pid :: "u8 \<Rightarrow> bool" where
  "known_pid b \<longleftrightarrow> b \<in> {0x01, 0x06, 0x07, 0x08, 0xC3, 0xC4, 0xCA, 0xCB, 0xCC, 0xCD, 0xCE, 0xCF, 0xF0, 0xFF}"

fun Ax25Pid_wf :: "Ax25Pid \<Rightarrow> bool" where
  "Ax25Pid_wf (PidOther p) \<longleftrightarrow> \<not> known_pid (UnknownPid_as_byte p)"
| "Ax25Pid_wf p \<longleftrightarrow> True"

section \<open>Round trips\<close>

lemma low3_cases: "(s::u8) \<le> 7 \<Longrightarrow> s \<in> {0, 1, 2, 3, 4, 5, 6, 7}"
proof -
  have "\<forall>s::u8. s \<le> 7 \<longrightarrow> s \<in> {0, 1, 2, 3, 4, 5, 6, 7}" unfolding u8_all by simp
  then show "s \<le> 7 \<Longrightarrow> s \<in> {0, 1, 2, 3, 4, 5, 6, 7}" by blast
qed

lemmas control_defs = Ax25Control_from_byte_def unnumbered_kind_of_bits_def
  PollFinal_from_control_byte_def PollFinal_is_set_def Let_def

lemma control_as_from_byte_all: "\<forall>b. Ax25Control_as_byte (Ax25Control_from_byte b) = b"
  unfolding u8_all by (simp add: control_defs)

lemma control_from_byte_wf_all: "\<forall>b. Ax25Control_wf (Ax25Control_from_byte b)"
  unfolding u8_all by (simp add: control_defs seq_wf_def unknown_kind_wf_def is_known_unnumbered_kind_def)

lemma information_from_as_byte:
  assumes "s \<le> 7" and "r \<le> 7"
  shows "Ax25Control_from_byte (Ax25Control_as_byte
      (Information (Ax25SequenceNumber s) (Ax25SequenceNumber r) p)) =
    Information (Ax25SequenceNumber s) (Ax25SequenceNumber r) p"
  using low3_cases [OF assms(1)] low3_cases [OF assms(2)]
  by (cases p) (auto simp: control_defs)

lemma supervisory_from_as_byte:
  assumes "r \<le> 7"
  shows "Ax25Control_from_byte (Ax25Control_as_byte (Supervisory k (Ax25SequenceNumber r) p)) =
    Supervisory k (Ax25SequenceNumber r) p"
  using low3_cases [OF assms] by (cases p; cases k) (auto simp: control_defs)

lemma unknown_from_as_byte_all:
  "\<forall>v. unknown_kind_wf v \<longrightarrow>
     Ax25Control_from_byte v = Unnumbered (UOther (UnknownUnnumberedKind v)) PfClear \<and>
     Ax25Control_from_byte (v OR 0x10) = Unnumbered (UOther (UnknownUnnumberedKind v)) PfSet"
  unfolding u8_all unknown_kind_wf_def is_known_unnumbered_kind_def by (simp add: control_defs)

lemma unnumbered_from_as_byte:
  assumes "Ax25Control_wf (Unnumbered k p)"
  shows "Ax25Control_from_byte (Ax25Control_as_byte (Unnumbered k p)) = Unnumbered k p"
proof (cases k)
  case (UOther u)
  obtain v where u: "u = UnknownUnnumberedKind v" by (cases u)
  then have "unknown_kind_wf v" using assms UOther by simp
  with unknown_from_as_byte_all UOther u show ?thesis
    by (cases p) (simp_all add: PollFinal_is_set_def)
qed (cases p; simp add: control_defs)+

lemma control_from_as_byte:
  assumes "Ax25Control_wf c"
  shows "Ax25Control_from_byte (Ax25Control_as_byte c) = c"
proof (cases c)
  case (Information s r p)
  with assms show ?thesis
    using information_from_as_byte [of "Ax25SequenceNumber_get s" "Ax25SequenceNumber_get r" p]
    by (simp add: seq_wf_def)
next
  case (Supervisory k r p)
  with assms show ?thesis
    using supervisory_from_as_byte [of "Ax25SequenceNumber_get r" k p] by (simp add: seq_wf_def)
next
  case (Unnumbered k p)
  with assms show ?thesis by (simp only: unnumbered_from_as_byte)
qed

interpretation control_codec:
  lossless_codec Ax25Control_wf Ax25Control_as_byte "\<lambda>b. Ok (Ax25Control_from_byte b) :: Ax25Error + Ax25Control"
  by unfold_locales (use control_from_as_byte control_from_byte_wf_all in auto)

lemma pid_as_from_byte: "Ax25Pid_from_byte b = Ok p \<Longrightarrow> Ax25Pid_as_byte p = b \<and> Ax25Pid_wf p \<and> b \<noteq> 0xFF"
  by (auto simp: Ax25Pid_from_byte_def known_pid_def split: if_splits)

lemma pid_from_as_byte:
  assumes "Ax25Pid_wf p" and "Ax25Pid_extension_byte p = None"
  shows "Ax25Pid_from_byte (Ax25Pid_as_byte p) = Ok p" "Ax25Pid_as_byte p \<noteq> 0xFF"
  using assms by (cases p; auto simp: Ax25Pid_from_byte_def Ax25Pid_extension_byte_def known_pid_def)+

section \<open>Properties\<close>

text \<open>Control field. Every byte is the encoding of the control value it decodes to, the
  decoder only produces values the validating constructors allow, and every such value
  survives encoding and decoding.\<close>

lemma ax25_control_bijection:
  "Ax25Control_as_byte (Ax25Control_from_byte b) = b \<and> Ax25Control_wf (Ax25Control_from_byte b) \<and>
   (Ax25Control_wf c \<longrightarrow> Ax25Control_from_byte (Ax25Control_as_byte c) = c)"
  using control_as_from_byte_all control_codec.lossless [of c] control_codec.lossless_wf [of b] by auto

text \<open>Validating constructors. A sequence number above seven and a modifier that is not a
  U-frame pattern, carries the P/F bit or names a known kind are refused with the offending
  byte; everything the decoder can produce is accepted.\<close>

lemma ax25_unknown_kind_validated:
  "UnknownUnnumberedKind_new v =
     (if unknown_kind_wf v then Ok (UnknownUnnumberedKind v) else Err (InvalidUnknownUnnumberedKind v)) \<and>
   (Ax25Control_from_byte b = Unnumbered (UOther k) p \<longrightarrow>
      UnknownUnnumberedKind_new (UnknownUnnumberedKind_as_byte k) = Ok k)"
proof -
  have "Ax25Control_from_byte b = Unnumbered (UOther k) p \<longrightarrow>
      unknown_kind_wf (UnknownUnnumberedKind_as_byte k)"
    using control_from_byte_wf_all by (metis Ax25Control_wf.simps(3))
  then show ?thesis by (auto simp: UnknownUnnumberedKind_new_def unknown_kind_wf_def)
qed

end
