(* ===== verification/Ax25_Frame.thy ===== *)
theory Ax25_Frame
  imports Ax25_Control
begin

unbundle bit_operations_syntax

text \<open>
  Bounded digipeater paths (\<open>ax25-codec/src/path.rs\<close>) and the AX.25 frame codec
  (\<open>ax25-codec/src/frame.rs\<close>): header and packet records, structural validation, the decoder
  with its address loop, and the encoder.
\<close>

section \<open>Digipeater paths\<close>

definition MAX_DIGIPEATERS :: nat where
  "MAX_DIGIPEATERS = 8"

type_synonym DigipeaterPath = "RouteEntry list"

definition DigipeaterPath_new :: "RouteEntry list \<Rightarrow> Ax25Error + DigipeaterPath" where
  "DigipeaterPath_new entries =
     (if length entries > MAX_DIGIPEATERS then Err TooManyDigipeaters else Ok entries)"

definition DigipeaterPath_try_push :: "DigipeaterPath \<Rightarrow> RouteEntry \<Rightarrow> Ax25Error + DigipeaterPath" where
  "DigipeaterPath_try_push path entry =
     (if length path = MAX_DIGIPEATERS then Err TooManyDigipeaters else Ok (path @ [entry]))"

definition DigipeaterPath_try_insert ::
  "DigipeaterPath \<Rightarrow> nat \<Rightarrow> RouteEntry \<Rightarrow> Ax25Error + DigipeaterPath" where
  "DigipeaterPath_try_insert path index entry =
     (let len = length path
      in if index > len then Err (DigipeaterIndexOutOfBounds index len)
         else if len = MAX_DIGIPEATERS then Err TooManyDigipeaters
         else Ok (take index path @ entry # drop index path))"

definition DigipeaterPath_wf :: "DigipeaterPath \<Rightarrow> bool" where
  "DigipeaterPath_wf path \<longleftrightarrow> length path \<le> MAX_DIGIPEATERS \<and> (\<forall>e \<in> set path. RouteEntry_wf e)"

section \<open>Packets\<close>

record Ax25Header =
  hd_source :: Ax25Address
  hd_destination :: Ax25Address
  hd_digipeaters :: DigipeaterPath
  hd_command_response :: CommandResponse

record Ax25Packet =
  pk_header :: Ax25Header
  pk_control :: Ax25Control
  pk_protocol :: "Ax25Pid option"
  pk_information :: bytes

definition control_requires_protocol :: "Ax25Control \<Rightarrow> bool" where
  "control_requires_protocol control =
     (case control of
        Information _ _ _ \<Rightarrow> True
      | Unnumbered UnnumberedInformation _ \<Rightarrow> True
      | _ \<Rightarrow> False)"

definition control_allows_information :: "Ax25Control \<Rightarrow> bool" where
  "control_allows_information control =
     (case control of
        Information _ _ _ \<Rightarrow> True
      | Unnumbered UnnumberedInformation _ \<Rightarrow> True
      | Unnumbered FrameReject _ \<Rightarrow> True
      | Unnumbered ExchangeIdentification _ \<Rightarrow> True
      | Unnumbered UTest _ \<Rightarrow> True
      | Unnumbered (UOther _) _ \<Rightarrow> True
      | _ \<Rightarrow> False)"

definition validate_frame_fields :: "Ax25Control \<Rightarrow> Ax25Pid option \<Rightarrow> bytes \<Rightarrow> Ax25Error + unit" where
  "validate_frame_fields control protocol information =
     (let control_byte = Ax25Control_as_byte control
      in case (control_requires_protocol control, protocol) of
           (True, None) \<Rightarrow> Err (MissingProtocolIdentifier control_byte)
         | (False, Some _) \<Rightarrow> Err (UnexpectedProtocolIdentifier control_byte)
         | _ \<Rightarrow>
             (if \<not> control_allows_information control \<and> information \<noteq> []
              then Err (UnexpectedInformationField control_byte (length information))
              else Ok ()))"

definition Ax25Packet_new ::
  "Ax25Header \<Rightarrow> Ax25Control \<Rightarrow> Ax25Pid option \<Rightarrow> bytes \<Rightarrow> Ax25Error + Ax25Packet" where
  "Ax25Packet_new header control protocol information =
     (case validate_frame_fields control protocol information of
        Inl e \<Rightarrow> Err e
      | Inr _ \<Rightarrow> Ok \<lparr>pk_header = header, pk_control = control, pk_protocol = protocol,
                     pk_information = information\<rparr>)"

definition Ax25Packet_unnumbered_information ::
  "Ax25Header \<Rightarrow> PollFinal \<Rightarrow> Ax25Pid \<Rightarrow> bytes \<Rightarrow> Ax25Packet" where
  "Ax25Packet_unnumbered_information header poll_final protocol information =
     \<lparr>pk_header = header, pk_control = Unnumbered UnnumberedInformation poll_final,
      pk_protocol = Some protocol, pk_information = information\<rparr>"

definition Ax25Packet_is_ui :: "Ax25Packet \<Rightarrow> bool" where
  "Ax25Packet_is_ui p = Ax25Control_is_ui (pk_control p)"

definition Ax25Packet_has_information_field :: "Ax25Packet \<Rightarrow> bool" where
  "Ax25Packet_has_information_field p = control_allows_information (pk_control p)"

section \<open>Encoder\<close>

fun command_response_bits :: "CommandResponse \<Rightarrow> bool \<times> bool" where
  "command_response_bits Command = (True, False)"
| "command_response_bits Response = (False, True)"
| "command_response_bits LegacyBothClear = (False, False)"
| "command_response_bits LegacyBothSet = (True, True)"

text \<open>The loop over \<open>digipeaters.iter().enumerate()\<close>: only the last entry ends the address field.\<close>

fun encode_digis :: "nat \<Rightarrow> nat \<Rightarrow> DigipeaterPath \<Rightarrow> bytes" where
  "encode_digis i digi_count [] = []"
| "encode_digis i digi_count (entry # rest) =
     (let is_last = (i + 1 = digi_count)
      in encode_address (re_address entry) (re_has_repeated entry) is_last
           @ encode_digis (i + 1) digi_count rest)"

definition encode_protocol :: "Ax25Pid option \<Rightarrow> bytes" where
  "encode_protocol protocol =
     (case protocol of
        None \<Rightarrow> []
      | Some p \<Rightarrow> Ax25Pid_as_byte p # (case Ax25Pid_extension_byte p of None \<Rightarrow> [] | Some x \<Rightarrow> [x]))"

definition Ax25Packet_to_bytes :: "Ax25Packet \<Rightarrow> bytes" where
  "Ax25Packet_to_bytes p =
     (let h = pk_header p;
          (dest_c, src_c) = command_response_bits (hd_command_response h);
          no_digis = (hd_digipeaters h = [])
      in encode_address (hd_destination h) dest_c False
           @ encode_address (hd_source h) src_c no_digis
           @ encode_digis 0 (length (hd_digipeaters h)) (hd_digipeaters h)
           @ [Ax25Control_as_byte (pk_control p)]
           @ encode_protocol (pk_protocol p)
           @ pk_information p)"

section \<open>Decoder\<close>

function decode_digis :: "bytes \<Rightarrow> nat \<Rightarrow> DigipeaterPath \<Rightarrow> Ax25Error + (DigipeaterPath \<times> nat)" where
  "decode_digis data addr_end digipeaters =
     (if length digipeaters \<ge> MAX_DIGIPEATERS then Err TooManyDigipeaters
      else
        (case get_range addr_end (addr_end + 7) data of
           None \<Rightarrow> Err InvalidAddressLength
         | Some digi_slice \<Rightarrow>
             (case decode_address digi_slice of
                Inl e \<Rightarrow> Err e
              | Inr (address, has_repeated) \<Rightarrow>
                  (case get 6 digi_slice of
                     None \<Rightarrow> Err InvalidAddressLength
                   | Some last_byte \<Rightarrow>
                       (case DigipeaterPath_try_push digipeaters
                               \<lparr>re_address = address, re_has_repeated = has_repeated\<rparr> of
                          Inl e \<Rightarrow> Err e
                        | Inr digipeaters' \<Rightarrow>
                            (if last_byte AND 0x01 \<noteq> 0 then Ok (digipeaters', addr_end + 7)
                             else decode_digis data (addr_end + 7) digipeaters'))))))"
  by pat_completeness auto
termination
  by (relation "measure (\<lambda>(d, n, ds). MAX_DIGIPEATERS - length ds)")
    (auto simp: DigipeaterPath_try_push_def split: if_splits)

declare decode_digis.simps [simp del]

fun command_response_of_bits :: "bool \<Rightarrow> bool \<Rightarrow> CommandResponse" where
  "command_response_of_bits True False = Command"
| "command_response_of_bits False True = Response"
| "command_response_of_bits False False = LegacyBothClear"
| "command_response_of_bits True True = LegacyBothSet"

definition decode_protocol :: "bytes \<Rightarrow> nat \<Rightarrow> Ax25Control \<Rightarrow> Ax25Error + (Ax25Pid option \<times> nat)" where
  "decode_protocol data addr_end control =
     (if control_requires_protocol control then
        (case get (addr_end + 1) data of
           None \<Rightarrow> Err (MissingProtocolIdentifier (Ax25Control_as_byte control))
         | Some first_pid_octet \<Rightarrow>
             (let protocol =
                (if first_pid_octet = 0xFF then
                   (case get (addr_end + 2) data of
                      None \<Rightarrow> Err MissingProtocolIdentifierExtension
                    | Some extension \<Rightarrow> Ok (Ax25Pid_escaped extension))
                 else Ax25Pid_from_byte first_pid_octet)
              in case protocol of
                   Inl e \<Rightarrow> Err e
                 | Inr p \<Rightarrow> Ok (Some p, addr_end + 1 + Ax25Pid_wire_len p)))
      else Ok (None, addr_end + 1))"

definition decode_packet :: "bytes \<Rightarrow> Ax25Error + Ax25Packet" where
  "decode_packet data =
     (if length data < 15 then Err PacketTooShort
      else
        (case get_range 0 7 data of
           None \<Rightarrow> Err PacketTooShort
         | Some dest_bytes \<Rightarrow>
        (case get_range 7 14 data of
           None \<Rightarrow> Err PacketTooShort
         | Some src_bytes \<Rightarrow>
        (if is_some_and (get 6 dest_bytes) (\<lambda>byte. byte AND 0x01 \<noteq> 0) then Err InvalidAddressExtension
         else
        (case decode_address dest_bytes of
           Inl e \<Rightarrow> Err e
         | Inr (destination, dest_c_bit) \<Rightarrow>
        (case decode_address src_bytes of
           Inl e \<Rightarrow> Err e
         | Inr (source, src_c_bit) \<Rightarrow>
        (case get 13 data of
           None \<Rightarrow> Err PacketTooShort
         | Some source_ext_byte \<Rightarrow>
        (case (if source_ext_byte AND 0x01 = 0 then decode_digis data 14 [] else Ok ([], 14)) of
           Inl e \<Rightarrow> Err e
         | Inr (digipeaters, addr_end) \<Rightarrow>
        (case get addr_end data of
           None \<Rightarrow> Err MissingControlFields
         | Some control_byte \<Rightarrow>
             let control = Ax25Control_from_byte control_byte
             in case decode_protocol data addr_end control of
                  Inl e \<Rightarrow> Err e
                | Inr (protocol, information_start) \<Rightarrow>
                    let information = (case get_from information_start data of None \<Rightarrow> [] | Some s \<Rightarrow> s)
                    in Ax25Packet_new
                         \<lparr>hd_source = source, hd_destination = destination,
                          hd_digipeaters = digipeaters,
                          hd_command_response = command_response_of_bits dest_c_bit src_c_bit\<rparr>
                         control protocol information)))))))))"

definition Ax25Packet_from_bytes :: "bytes \<Rightarrow> Ax25Error + Ax25Packet" where
  "Ax25Packet_from_bytes data = decode_packet data"

section \<open>Well-formed packets\<close>

definition Ax25Header_wf :: "Ax25Header \<Rightarrow> bool" where
  "Ax25Header_wf h \<longleftrightarrow> Ax25Address_wf (hd_source h) \<and> Ax25Address_wf (hd_destination h) \<and>
     DigipeaterPath_wf (hd_digipeaters h)"

definition Ax25Packet_wf :: "Ax25Packet \<Rightarrow> bool" where
  "Ax25Packet_wf p \<longleftrightarrow> Ax25Header_wf (pk_header p) \<and> Ax25Control_wf (pk_control p) \<and>
     (\<forall>pid. pk_protocol p = Some pid \<longrightarrow> Ax25Pid_wf pid) \<and>
     validate_frame_fields (pk_control p) (pk_protocol p) (pk_information p) = Ok ()"

lemma command_response_of_bits_inv:
  "command_response_bits cr = (a, b) \<Longrightarrow> command_response_of_bits a b = cr"
  by (cases cr) auto

lemma validate_Ok_iff:
  "validate_frame_fields c p i = Ok u \<longleftrightarrow>
     (control_requires_protocol c \<longleftrightarrow> p \<noteq> None) \<and> (control_allows_information c \<or> i = [])"
  by (cases p; cases "control_requires_protocol c")
     (auto simp: validate_frame_fields_def Let_def)

section \<open>Path operations\<close>

lemma DigipeaterPath_try_push_wf:
  "DigipeaterPath_wf path \<Longrightarrow> RouteEntry_wf e \<Longrightarrow> DigipeaterPath_try_push path e = Ok path' \<Longrightarrow>
     DigipeaterPath_wf path'"
  by (auto simp: DigipeaterPath_wf_def DigipeaterPath_try_push_def split: if_splits)

lemma DigipeaterPath_try_insert_wf:
  "DigipeaterPath_wf path \<Longrightarrow> RouteEntry_wf e \<Longrightarrow> DigipeaterPath_try_insert path i e = Ok path' \<Longrightarrow>
     DigipeaterPath_wf path' \<and> length path' = Suc (length path) \<and> path' ! i = e"
  by (auto simp: DigipeaterPath_wf_def DigipeaterPath_try_insert_def Let_def nth_append
      split: if_splits dest!: in_set_takeD in_set_dropD)

section \<open>Encoder then decoder\<close>

lemma encode_digis_length: "length (encode_digis i n ds) = 7 * length ds"
  by (induction i n ds rule: encode_digis.induct) (simp_all add: Let_def)

lemma get_range_prefix: "length pre = a \<Longrightarrow> length s = 7 \<Longrightarrow> get_range a (a + 7) (pre @ s @ rest) = Some s"
  by (simp add: get_range_def)

lemma decode_digis_step:
  assumes wf: "RouteEntry_wf e" and "length acc < MAX_DIGIPEATERS" and "length pre = a"
  shows "decode_digis (pre @ encode_address (re_address e) (re_has_repeated e) l @ xs) a acc =
    (if l then Ok (acc @ [e], a + 7)
     else decode_digis (pre @ encode_address (re_address e) (re_has_repeated e) l @ xs) (a + 7) (acc @ [e]))"
proof -
  let ?slot = "encode_address (re_address e) (re_has_repeated e) l"
  have awf: "Ax25Address_wf (re_address e)" using wf by (simp add: RouteEntry_wf_def)
  then have swf: "Ssid_wf (aa_ssid (re_address e))" by (simp add: Ax25Address_wf_def)
  have "get_range a (a + 7) (pre @ ?slot @ xs) = Some ?slot"
    by (rule get_range_prefix) (simp_all add: assms(3))
  moreover have "DigipeaterPath_try_push acc \<lparr>re_address = re_address e, re_has_repeated = re_has_repeated e\<rparr>
      = Ok (acc @ [e])"
    using assms(2) by (simp add: DigipeaterPath_try_push_def)
  moreover have "get 6 ?slot = Some (encode_ssid_byte (aa_ssid (re_address e)) (re_has_repeated e) l)"
    by (simp add: get_def)
  ultimately show ?thesis
    using assms(2) decode_encode_address [OF awf] ssid_byte_split(3) [OF swf, of "re_has_repeated e" l]
    by (subst decode_digis.simps) simp
qed

lemma decode_digis_encoded:
  assumes "ds \<noteq> []" and "\<forall>e \<in> set ds. RouteEntry_wf e"
    and "length acc + length ds \<le> MAX_DIGIPEATERS" and "length pre = a"
  shows "decode_digis (pre @ encode_digis (length acc) (length acc + length ds) ds @ rest) a acc =
    Ok (acc @ ds, a + 7 * length ds)"
  using assms
proof (induction ds arbitrary: acc pre a)
  case (Cons e es)
  let ?slot = "encode_address (re_address e) (re_has_repeated e) (es = [])"
  let ?tail = "encode_digis (length (acc @ [e])) (length (acc @ [e]) + length es) es @ rest"
  have enc: "pre @ encode_digis (length acc) (length acc + length (e # es)) (e # es) @ rest = pre @ ?slot @ ?tail"
    by (simp add: Let_def)
  have step: "decode_digis (pre @ ?slot @ ?tail) a acc =
      (if es = [] then Ok (acc @ [e], a + 7) else decode_digis (pre @ ?slot @ ?tail) (a + 7) (acc @ [e]))"
    by (rule decode_digis_step) (use Cons.prems in auto)
  show ?case
  proof (cases "es = []")
    case True
    then show ?thesis unfolding enc step by simp
  next
    case False
    have "decode_digis ((pre @ ?slot) @ ?tail) (a + 7) (acc @ [e]) =
        Ok ((acc @ [e]) @ es, a + 7 + 7 * length es)"
      by (rule Cons.IH) (use Cons.prems False in auto)
    with False show ?thesis unfolding enc step by (simp add: algebra_simps)
  qed
qed simp

text \<open>After the addresses: the control octet, the protocol identifier and the information.\<close>

lemma encode_protocol_length:
  "length (encode_protocol p) = (case p of None \<Rightarrow> 0 | Some q \<Rightarrow> Ax25Pid_wire_len q)"
  by (auto simp: encode_protocol_def Ax25Pid_wire_len_def split: option.splits)

lemma Ax25Pid_escape: "Ax25Pid_extension_byte p = Some x \<longleftrightarrow> p = Escape x"
  by (cases p) (auto simp: Ax25Pid_extension_byte_def)

lemma decode_protocol_encoded:
  assumes "control_requires_protocol c \<longleftrightarrow> p \<noteq> None"
    and "\<forall>q. p = Some q \<longrightarrow> Ax25Pid_wf q" and "length pre = a"
  shows "decode_protocol (pre @ b # encode_protocol p @ info) a c =
    Ok (p, a + 1 + length (encode_protocol p))"
proof (cases p)
  case None
  with assms(1) show ?thesis by (simp add: decode_protocol_def encode_protocol_def)
next
  case (Some q)
  have req: "control_requires_protocol c" using assms(1) Some by simp
  show ?thesis
  proof (cases "Ax25Pid_extension_byte q")
    case None
    with Some assms(2) have "Ax25Pid_from_byte (Ax25Pid_as_byte q) = Ok q" "Ax25Pid_as_byte q \<noteq> 0xFF"
      by (simp_all add: pid_from_as_byte)
    with None Some req assms(3) show ?thesis
      by (simp add: decode_protocol_def encode_protocol_def get_append Ax25Pid_wire_len_def Let_def)
  next
    case (Some x)
    then have "q = Escape x" by (simp add: Ax25Pid_escape)
    with Some \<open>p = Some q\<close> req assms(3) show ?thesis
      by (simp add: decode_protocol_def encode_protocol_def get_append Ax25Pid_wire_len_def Let_def
          Ax25Pid_escaped_def)
  qed
qed

lemma address_field_decoded:
  assumes wf: "DigipeaterPath_wf ds" and "length pre = 14"
  shows "(if (ds = []) = False then decode_digis (pre @ encode_digis 0 (length ds) ds @ rest) 14 []
          else Ok ([], 14)) = (Ok (ds, 14 + 7 * length ds) :: Ax25Error + _)"
  using decode_digis_encoded [of ds "[]" pre 14 rest] assms
  by (cases "ds = []") (auto simp: DigipeaterPath_wf_def)

lemma Ax25Packet_from_to_bytes:
  assumes wf: "Ax25Packet_wf p"
  shows "Ax25Packet_from_bytes (Ax25Packet_to_bytes p) = Ok p"
proof -
  let ?h = "pk_header p" and ?ds = "hd_digipeaters (pk_header p)" and ?c = "pk_control p"
  obtain dc sc where cr: "command_response_bits (hd_command_response ?h) = (dc, sc)" by fastforce
  let ?dest = "encode_address (hd_destination ?h) dc False"
  let ?src = "encode_address (hd_source ?h) sc (?ds = [])"
  let ?digis = "encode_digis 0 (length ?ds) ?ds"
  let ?tail = "Ax25Control_as_byte ?c # encode_protocol (pk_protocol p) @ pk_information p"
  define data where "data = ?dest @ ?src @ ?digis @ ?tail"
  then have data2: "data = (?dest @ ?src) @ ?digis @ ?tail" by simp
  let ?a = "14 + 7 * length ?ds"
  have enc: "Ax25Packet_to_bytes p = data" by (simp add: Ax25Packet_to_bytes_def Let_def cr data_def)
  have wfs: "Ax25Address_wf (hd_destination ?h)" "Ax25Address_wf (hd_source ?h)" "DigipeaterPath_wf ?ds"
    "Ax25Control_wf ?c" "\<forall>q. pk_protocol p = Some q \<longrightarrow> Ax25Pid_wf q"
    using wf by (simp_all add: Ax25Packet_wf_def Ax25Header_wf_def)
  have val: "validate_frame_fields ?c (pk_protocol p) (pk_information p) = Ok ()"
    using wf by (simp add: Ax25Packet_wf_def)
  then have req: "control_requires_protocol ?c \<longleftrightarrow> pk_protocol p \<noteq> None" by (simp add: validate_Ok_iff)
  have ssid: "Ssid_wf (aa_ssid (hd_destination ?h))" "Ssid_wf (aa_ssid (hd_source ?h))"
    using wfs by (simp_all add: Ax25Address_wf_def)
  have len: "\<not> length data < 15" by (simp add: data_def)
  have r0: "get_range 0 7 data = Some ?dest" by (simp add: data_def get_range_def)
  have r1: "get_range 7 14 data = Some ?src"
    using get_range_prefix [of ?dest 7 ?src "?digis @ ?tail"] by (simp add: data_def)
  have g6: "get 6 ?dest = Some (encode_ssid_byte (aa_ssid (hd_destination ?h)) dc False)" by (simp add: get_def)
  have g13: "get 13 data = Some (encode_ssid_byte (aa_ssid (hd_source ?h)) sc (?ds = []))"
    by (simp add: data_def get_def nth_append)
  have digis: "(if (?ds = []) = False then decode_digis data 14 [] else Ok ([], 14)) = Ok (?ds, ?a)"
    unfolding data2 by (rule address_field_decoded) (simp_all add: wfs)
  have gc: "get ?a data = Some (Ax25Control_as_byte ?c)"
    by (simp add: data_def get_append encode_digis_length)
  have pre: "length (?dest @ ?src @ ?digis) = ?a" by (simp add: encode_digis_length)
  have prot: "decode_protocol data ?a ?c = Ok (pk_protocol p, ?a + 1 + length (encode_protocol (pk_protocol p)))"
    using decode_protocol_encoded [OF req wfs(5) pre] by (simp add: data_def)
  have info: "get_from (?a + 1 + length (encode_protocol (pk_protocol p))) data = Some (pk_information p)"
    by (simp add: data_def get_from_def encode_digis_length)
  have ctl: "Ax25Control_from_byte (Ax25Control_as_byte ?c) = ?c" using wfs(4) by (rule control_from_as_byte)
  have digis': "(if encode_ssid_byte (aa_ssid (hd_source ?h)) sc (?ds = []) AND 1 = 0
      then decode_digis data 14 [] else Ok ([], 14)) = Ok (?ds, ?a)"
    using digis ssid_byte_split(3) [OF ssid(2), of sc "?ds = []"] by (cases "?ds = []") auto
  show ?thesis
    using r0 r1 len g6 g13 gc prot info val command_response_of_bits_inv [OF cr]
      ssid_byte_split(3) [OF ssid(1), of dc False] decode_encode_address [OF wfs(1)]
      decode_encode_address [OF wfs(2)] ctl
    unfolding enc Ax25Packet_from_bytes_def decode_packet_def
    by (simp add: digis' Ax25Packet_new_def Let_def split del: if_split)
qed

section \<open>The decoder returns well-formed packets\<close>

lemma decode_digis_wf:
  "decode_digis data a acc = Ok (ds, n) \<Longrightarrow> DigipeaterPath_wf acc \<Longrightarrow> DigipeaterPath_wf ds"
proof (induction data a acc rule: decode_digis.induct)
  case (1 data a acc)
  from "1.prems"(1) obtain sl addr rep lb acc' where
    step: "\<not> MAX_DIGIPEATERS \<le> length acc" "get_range a (a + 7) data = Some sl"
      "decode_address sl = Ok (addr, rep)" "get 6 sl = Some lb"
      "DigipeaterPath_try_push acc \<lparr>re_address = addr, re_has_repeated = rep\<rparr> = Ok acc'"
    and res: "(if lb AND 0x01 \<noteq> 0 then Ok (acc', a + 7) else decode_digis data (a + 7) acc') = Ok (ds, n)"
    by (subst (asm) decode_digis.simps) (auto split: if_splits option.splits sum.splits)
  have "DigipeaterPath_wf acc'"
    using DigipeaterPath_try_push_wf [OF "1.prems"(2) _ step(5)] decode_address_wf [OF step(3)]
    by (simp add: RouteEntry_wf_def)
  with res "1.IH" [OF step(1,2,3) refl step(4,5)] show ?case by (cases "lb AND 0x01 = 0") auto
qed

lemma decode_protocol_wf: "decode_protocol data a c = Ok (Some q, n) \<Longrightarrow> Ax25Pid_wf q"
  by (auto simp: decode_protocol_def Let_def Ax25Pid_escaped_def dest: pid_as_from_byte
      split: if_splits option.splits sum.splits)

lemma decode_packet_wf:
  assumes "decode_packet data = Ok p"
  shows "Ax25Packet_wf p"
proof -
  have nil: "DigipeaterPath_wf []" by (simp add: DigipeaterPath_wf_def)
  show ?thesis
    using assms control_from_byte_wf_all nil unfolding decode_packet_def Let_def
    by (auto simp: Ax25Packet_new_def Ax25Packet_wf_def Ax25Header_wf_def
        dest!: decode_address_wf decode_protocol_wf decode_digis_wf [OF _ nil]
        split: if_splits option.splits sum.splits)
qed

interpretation ax25: lossless_codec Ax25Packet_wf Ax25Packet_to_bytes Ax25Packet_from_bytes
  by unfold_locales (simp add: Ax25Packet_from_to_bytes, simp add: Ax25Packet_from_bytes_def decode_packet_wf)


lemma Ax25Packet_to_bytes_length:
  "length (Ax25Packet_to_bytes p) = 14 + length (hd_digipeaters (pk_header p)) * 7 + 1
     + (case pk_protocol p of None \<Rightarrow> 0 | Some q \<Rightarrow> Ax25Pid_wire_len q) + length (pk_information p)"
  by (cases "command_response_bits (hd_command_response (pk_header p))")
     (simp add: Ax25Packet_to_bytes_def Let_def encode_digis_length encode_protocol_length)

section \<open>Properties\<close>

text \<open>C20. Frame round trip. Every packet the constructors can build, with up to eight repeaters
  and any kind of control field, is encoded in exactly the \<open>total_len\<close> octets the encoder
  reserves and decodes back to itself.\<close>

theorem ax25_packet_roundtrip:
  assumes "Ax25Packet_wf p"
  shows "Ax25Packet_from_bytes (Ax25Packet_to_bytes p) = Ok p \<and>
    length (Ax25Packet_to_bytes p) = 14 + length (hd_digipeaters (pk_header p)) * 7 + 1
      + (case pk_protocol p of None \<Rightarrow> 0 | Some q \<Rightarrow> Ax25Pid_wire_len q) + length (pk_information p)"
  using ax25.lossless [OF assms] Ax25Packet_to_bytes_length by simp

definition sample_packet :: Ax25Packet where
  "sample_packet = Ax25Packet_unnumbered_information
     \<lparr>hd_source = \<lparr>aa_callsign = Callsign [0x4E, 0x30, 0x43], aa_ssid = Ssid 7\<rparr>,
      hd_destination = \<lparr>aa_callsign = Callsign [0x41, 0x50], aa_ssid = Ssid 0\<rparr>,
      hd_digipeaters = [\<lparr>re_address = \<lparr>aa_callsign = Callsign [0x57, 0x31], aa_ssid = Ssid 1\<rparr>,
                         re_has_repeated = True\<rparr>],
      hd_command_response = Command\<rparr> PfClear (Escape 0x10) [0x3E, 0xC0]"

lemma sample_packet_wf: "Ax25Packet_wf sample_packet"
  by (simp add: sample_packet_def Ax25Packet_unnumbered_information_def Ax25Packet_wf_def Ax25Header_wf_def
      Ax25Address_wf_def Callsign_wf_def Ssid_wf_def DigipeaterPath_wf_def RouteEntry_wf_def callsign_char_def
      ascii_defs MAX_DIGIPEATERS_def validate_Ok_iff control_requires_protocol_def
      control_allows_information_def)

theorem ax25_packet_roundtrip_witness:
  "Ax25Packet_from_bytes (Ax25Packet_to_bytes sample_packet) = Ok sample_packet \<and>
     length (Ax25Packet_to_bytes sample_packet) = 26"
  using ax25_packet_roundtrip [OF sample_packet_wf]
  by (simp add: sample_packet_def Ax25Packet_unnumbered_information_def Ax25Pid_wire_len_def
      Ax25Pid_extension_byte_def)

text \<open>Decoder soundness. Whatever octets arrive, a frame the decoder accepts satisfies every
  constructor's validation (addresses, at most eight repeaters, the protocol identifier exactly
  on I and UI frames, information only where the control field allows it), and re-encoding it
  yields a frame that decodes to the same packet.\<close>

lemma ax25_decoder_sound:
  assumes "Ax25Packet_from_bytes data = Ok p"
  shows "Ax25Packet_wf p \<and> length (hd_digipeaters (pk_header p)) \<le> MAX_DIGIPEATERS \<and>
    (pk_protocol p \<noteq> None \<longleftrightarrow> control_requires_protocol (pk_control p)) \<and>
    (pk_information p \<noteq> [] \<longrightarrow> Ax25Packet_has_information_field p) \<and>
    Ax25Packet_from_bytes (Ax25Packet_to_bytes p) = Ok p"
proof -
  have wf: "Ax25Packet_wf p" using assms by (rule ax25.lossless_wf)
  then have "length (hd_digipeaters (pk_header p)) \<le> MAX_DIGIPEATERS"
    "validate_frame_fields (pk_control p) (pk_protocol p) (pk_information p) = Ok ()"
    by (simp_all add: Ax25Packet_wf_def Ax25Header_wf_def DigipeaterPath_wf_def)
  with wf ax25.redecode [OF assms] show ?thesis
    by (auto simp: validate_Ok_iff Ax25Packet_has_information_field_def)
qed

end
