(* ===== verification/Crc.thy ===== *)
theory Crc
  imports Prelude
begin

unbundle bit_operations_syntax

text \<open>
  The two checksum routines of the workspace: \<open>ax25_fcs\<close> (\<open>ax25-codec/src/frame.rs\<close>), which
  consumes message bits one by one, and \<open>crc_ccitt\<close> (\<open>dstar-gateway-core/src/header.rs\<close>),
  which folds a byte into the register first. They are the same function; the residue and the
  detection of a corrupted byte follow from the linearity of the register step.
\<close>

section \<open>The two routines\<close>

text \<open>\<open>ax25_fcs\<close>: the inner loop over eight bits carries the register and the shifted byte.\<close>

definition fcs_bit :: "u16 \<times> u8 \<Rightarrow> u16 \<times> u8" where
  "fcs_bit st =
     (case st of (crc, b) \<Rightarrow>
        let carry = ((crc AND 0x0001) \<noteq> (ucast b AND 0x0001));
            crc1 = drop_bit 1 crc;
            b1 = drop_bit 1 b
        in (if carry then crc1 XOR 0x8408 else crc1, b1))"

definition fcs_byte :: "u16 \<Rightarrow> u8 \<Rightarrow> u16" where
  "fcs_byte crc b = fst ((fcs_bit ^^ 8) (crc, b))"

definition ax25_fcs :: "bytes \<Rightarrow> u16" where
  "ax25_fcs bs = NOT (foldl fcs_byte 0xFFFF bs)"

text \<open>\<open>crc_ccitt\<close>: the byte is added to the register before the eight shifts.\<close>

definition crc_shift :: "u16 \<Rightarrow> u16" where
  "crc_shift crc = (if crc AND 1 = 0 then drop_bit 1 crc else drop_bit 1 crc XOR 0x8408)"

definition crc_byte :: "u16 \<Rightarrow> u8 \<Rightarrow> u16" where
  "crc_byte crc b = (crc_shift ^^ 8) (crc XOR ucast b)"

definition crc_ccitt :: "bytes \<Rightarrow> u16" where
  "crc_ccitt bs = foldl crc_byte 0xFFFF bs XOR 0xFFFF"

section \<open>Equivalence\<close>

lemma and_one_word: "(a::'a::len word) AND 1 = of_bool (odd a)"
  by (simp add: and_one_eq mod_2_eq_odd)

lemma odd_ucast: "odd (ucast (b::u8) :: u16) = odd b"
  by (simp add: bit_0 [symmetric] bit_unsigned_iff)

lemma fcs_bit_simp:
  "fcs_bit (crc, b) =
     (if odd crc \<noteq> odd b then drop_bit 1 crc XOR 0x8408 else drop_bit 1 crc, drop_bit 1 b)"
  by (simp add: fcs_bit_def Let_def and_one_word odd_ucast of_bool_def)

lemma crc_shift_simp:
  "crc_shift crc = (if odd crc then drop_bit 1 crc XOR 0x8408 else drop_bit 1 crc)"
  by (simp add: crc_shift_def and_one_word)

lemma ucast_drop_bit: "(ucast (drop_bit n (b::u8)) :: u16) = drop_bit n (ucast b)"
  by (rule bit_eqI) (use bit_imp_le_length [of b] in \<open>force simp: bit_unsigned_iff bit_drop_bit_eq\<close>)

lemma fcs_bit_crc_shift:
  "fst (fcs_bit (crc, b)) XOR ucast (snd (fcs_bit (crc, b))) = crc_shift (crc XOR ucast b)"
  by (simp add: fcs_bit_simp crc_shift_simp even_xor_iff odd_ucast ucast_drop_bit drop_bit_xor
      xor.assoc xor.commute xor.left_commute)

lemma fcs_bits_crc_shifts:
  "fst ((fcs_bit ^^ n) (crc, b)) XOR ucast (snd ((fcs_bit ^^ n) (crc, b))) =
     (crc_shift ^^ n) (crc XOR ucast b)"
proof (induction n)
  case (Suc n)
  show ?case
    using fcs_bit_crc_shift [of "fst ((fcs_bit ^^ n) (crc, b))" "snd ((fcs_bit ^^ n) (crc, b))"] Suc
    by simp
qed simp

lemma fcs_bits_snd: "snd ((fcs_bit ^^ n) (crc, b)) = drop_bit n b"
proof (induction n)
  case (Suc n)
  obtain c d where cd: "(fcs_bit ^^ n) (crc, b) = (c, d)" by fastforce
  with Suc show ?case by (simp add: fcs_bit_simp drop_bit_drop_bit)
qed simp

lemma fcs_byte_eq: "fcs_byte crc b = crc_byte crc b"
proof -
  have "drop_bit 8 b = 0" by (rule bit_eqI) (use bit_imp_le_length [of b] in \<open>force simp: bit_drop_bit_eq\<close>)
  then show ?thesis
    using fcs_bits_crc_shifts [of 8 crc b] by (simp add: fcs_bits_snd fcs_byte_def crc_byte_def)
qed

lemma not_eq_xor: "NOT (x::u16) = x XOR 0xFFFF"
proof -
  have m: "(0xFFFF::u16) = - 1" by simp
  show ?thesis unfolding m by (rule bit_eqI) (simp add: bit_not_iff bit_xor_iff)
qed

section \<open>The register step is linear and invertible\<close>

lemma xor_cancel_left: "(x::'a::len word) XOR y = x XOR z \<longleftrightarrow> y = z"
  by (auto simp: bit_eq_iff bit_xor_iff)

lemma xor_cancel_right: "(y::'a::len word) XOR x = z XOR x \<longleftrightarrow> y = z"
  by (auto simp: bit_eq_iff bit_xor_iff)

lemma ucast_u8_inj: "(ucast (a::u8) :: u16) = ucast b \<longleftrightarrow> a = b"
proof
  assume eq: "(ucast a :: u16) = ucast b"
  show "a = b"
  proof (rule bit_eqI)
    fix n assume "possible_bit TYPE(u8) n"
    then have "n < 8" by simp
    then show "bit a n = bit b n" using eq by (auto simp: bit_eq_iff bit_unsigned_iff)
  qed
qed simp

lemma crc_shift_xor: "crc_shift (x XOR y) = crc_shift x XOR crc_shift y"
  by (simp add: crc_shift_simp even_xor_iff drop_bit_xor xor.assoc xor.commute xor.left_commute)

lemma crc_shifts_xor: "(crc_shift ^^ n) (x XOR y) = (crc_shift ^^ n) x XOR (crc_shift ^^ n) y"
  by (induction n) (simp_all add: crc_shift_xor)

text \<open>The shifted register never has its top bit, the polynomial does: the step can be undone.\<close>

lemma crc_shift_eq_0:
  assumes z: "crc_shift x = 0"
  shows "x = 0"
proof (cases "odd x")
  case True
  with z have "drop_bit 1 x XOR 0x8408 = 0" by (simp add: crc_shift_simp)
  then have "bit (drop_bit 1 x XOR 0x8408) 15 = bit (0::u16) 15" by (rule arg_cong)
  moreover have "bit (0x8408::u16) 15" by code_simp
  moreover have "\<not> bit (drop_bit 1 x) 15" using bit_imp_le_length [of x 16] by (auto simp: bit_drop_bit_eq)
  ultimately show ?thesis by (simp add: bit_xor_iff)
next
  case False
  with z have d: "drop_bit 1 x = 0" by (simp add: crc_shift_simp)
  show ?thesis
  proof (rule bit_eqI)
    fix n
    show "bit x n = bit 0 n"
    proof (cases n)
      case 0
      then show ?thesis using False by (simp add: bit_0)
    next
      case (Suc m)
      have "bit (drop_bit 1 x) m = bit (0::u16) m" using d by simp
      then show ?thesis using Suc by (simp add: bit_drop_bit_eq)
    qed
  qed
qed

lemma inj_crc_shift: "inj crc_shift"
proof (rule injI)
  fix x y assume eq: "crc_shift x = crc_shift y"
  then have "crc_shift (x XOR y) = 0" by (simp add: crc_shift_xor)
  then have "x XOR y = x XOR x" by (simp add: crc_shift_eq_0)
  then show "x = y" by (simp only: xor_cancel_left)
qed

lemma crc_shifts_inj: "(crc_shift ^^ n) x = (crc_shift ^^ n) y \<longleftrightarrow> x = y"
  using inj_fn [OF inj_crc_shift, of n] by (auto dest: injD)

lemma crc_byte_inj: "crc_byte x b = crc_byte y b \<longleftrightarrow> x = y"
  by (simp add: crc_byte_def crc_shifts_inj xor_cancel_right)

lemma crc_byte_inj_byte: "crc_byte x a = crc_byte x b \<longleftrightarrow> a = b"
  by (simp add: crc_byte_def crc_shifts_inj xor_cancel_left ucast_u8_inj)

lemma foldl_crc_byte_inj: "foldl crc_byte x bs = foldl crc_byte y bs \<longleftrightarrow> x = y"
  by (induction bs arbitrary: x y) (simp_all add: crc_byte_inj)

section \<open>Residue\<close>

lemma crc_shifts_low_clear: "\<forall>i<n. \<not> bit x i \<Longrightarrow> (crc_shift ^^ n) x = drop_bit n x"
proof (induction n)
  case (Suc n)
  then have "\<not> odd (drop_bit n x)" by (simp add: bit_iff_odd_drop_bit)
  with Suc show ?case by (simp add: crc_shift_simp drop_bit_drop_bit)
qed simp

definition crc_lo :: "u16 \<Rightarrow> u8" where "crc_lo c = ucast c"
definition crc_hi :: "u16 \<Rightarrow> u8" where "crc_hi c = ucast (drop_bit 8 c)"

lemma low_byte_cancelled:
  "r XOR ucast (crc_lo (NOT r)) = push_bit 8 (drop_bit 8 r) XOR mask 8"
  by (rule bit_eqI)
    (auto simp: crc_lo_def bit_xor_iff bit_unsigned_iff bit_not_iff bit_mask_iff bit_push_bit_iff bit_drop_bit_eq)

lemma high_byte_cancelled: "drop_bit 8 r XOR ucast (crc_hi (NOT r)) = mask 8"
proof (rule bit_eqI)
  fix n assume "possible_bit TYPE(u16) n"
  then show "bit (drop_bit 8 r XOR ucast (crc_hi (NOT r))) n = bit (mask 8::u16) n"
    using bit_imp_le_length [of r "8 + n"]
    by (auto simp: crc_hi_def bit_xor_iff bit_unsigned_iff bit_not_iff bit_mask_iff bit_drop_bit_eq)
qed

lemma crc_residue_step:
  "crc_byte (crc_byte r (crc_lo (NOT r))) (crc_hi (NOT r)) = 0xF0B8"
proof -
  let ?h = "push_bit 8 (drop_bit 8 r)" and ?K = "(crc_shift ^^ 8) (mask 8)"
  have "(crc_shift ^^ 8) ?h = drop_bit 8 ?h"
    by (rule crc_shifts_low_clear) (simp add: bit_push_bit_iff)
  also have "drop_bit 8 ?h = drop_bit 8 r"
    by (rule bit_eqI) (use bit_imp_le_length [of r] in \<open>force simp: bit_drop_bit_eq bit_push_bit_iff\<close>)
  finally have "crc_byte r (crc_lo (NOT r)) = drop_bit 8 r XOR ?K"
    by (simp only: crc_byte_def low_byte_cancelled crc_shifts_xor)
  then have "crc_byte (crc_byte r (crc_lo (NOT r))) (crc_hi (NOT r)) =
      (crc_shift ^^ 8) ((drop_bit 8 r XOR ucast (crc_hi (NOT r))) XOR ?K)"
    unfolding crc_byte_def by (simp only: ac_simps)
  also have "\<dots> = (crc_shift ^^ 8) (mask 8 XOR ?K)" by (simp only: high_byte_cancelled)
  also have "\<dots> = 0xF0B8" by code_simp
  finally show ?thesis .
qed

section \<open>Properties\<close>

lemma ax25_fcs_foldl: "ax25_fcs bs = NOT (foldl crc_byte 0xFFFF bs)"
proof -
  have "fcs_byte = crc_byte" by (intro ext) (rule fcs_byte_eq)
  then show ?thesis by (simp add: ax25_fcs_def)
qed

text \<open>Residue: appending the checksum low byte first, as both wire formats do, drives the
  register to the same constant for every message.\<close>

lemma crc_residue:
  "crc_ccitt (bs @ [crc_lo (crc_ccitt bs), crc_hi (crc_ccitt bs)]) = 0x0F47"
proof -
  let ?r = "foldl crc_byte 0xFFFF bs"
  have "crc_ccitt bs = NOT ?r" by (simp add: crc_ccitt_def not_eq_xor)
  then show ?thesis using crc_residue_step [of ?r] by (simp add: crc_ccitt_def)
qed

text \<open>C39. One checksum. The bit-serial \<open>ax25_fcs\<close> of the AX.25 codec and the byte-folding
  \<open>crc_ccitt\<close> of the D-STAR codec, written independently in two crates, compute the same
  function.\<close>

theorem fcs_equals_crc_ccitt: "ax25_fcs bs = crc_ccitt bs"
  by (simp add: ax25_fcs_foldl crc_ccitt_def not_eq_xor)

text \<open>Corruption. Replacing one byte of a message by a different one always changes the
  checksum, whatever surrounds it.\<close>

lemma crc_ccitt_detects_byte:
  "crc_ccitt (pre @ a # post) = crc_ccitt (pre @ b # post) \<longleftrightarrow> a = b"
  by (simp add: crc_ccitt_def xor_cancel_right foldl_crc_byte_inj crc_byte_inj_byte)

end
