(* ===== verification/Aprs_Digipeater.thy ===== *)
theory Aprs_Digipeater
  imports Ax25_Frame "HOL-Library.Multiset"
begin

unbundle bit_operations_syntax

text \<open>
  The APRS digipeater, \<open>aprs/src/digipeater.rs\<close>: alias validation, the three relay algorithms
  (\<open>UIdigipeat\<close>, \<open>UIflood\<close>, \<open>UItrace\<close>), loop detection, the rolling duplicate cache with its
  amortised sweep, and viscous (deferred) relaying under entry capacities. A \<open>&mut self\<close> method
  returns the updated configuration beside its result.

  The process-local hash of a packet's identity is Rust's \<open>DefaultHasher\<close>, whose algorithm is
  unspecified: it is the argument \<open>H\<close>, a function of the bytes fed to it.
\<close>

section \<open>Limits and aliases\<close>

datatype DigipeaterQueue = Dedup | Viscous

record DigipeaterLimits =
  dl_dedup_entries :: nat
  dl_pending_relays :: nat

definition DigipeaterLimits_DEFAULT :: DigipeaterLimits where
  "DigipeaterLimits_DEFAULT = \<lparr>dl_dedup_entries = 1024, dl_pending_relays = 128\<rparr>"

definition DigipeaterLimits_new :: "nat \<Rightarrow> DigipeaterLimits" where
  "DigipeaterLimits_new dedup_entries =
     \<lparr>dl_dedup_entries = dedup_entries, dl_pending_relays = dl_pending_relays DigipeaterLimits_DEFAULT\<rparr>"

definition DigipeaterLimits_with_pending_relays :: "DigipeaterLimits \<Rightarrow> nat \<Rightarrow> DigipeaterLimits" where
  "DigipeaterLimits_with_pending_relays l n = l\<lparr>dl_pending_relays := n\<rparr>"

text \<open>The fields are \<open>NonZeroUsize\<close>.\<close>

definition DigipeaterLimits_wf :: "DigipeaterLimits \<Rightarrow> bool" where
  "DigipeaterLimits_wf l \<longleftrightarrow> 0 < dl_dedup_entries l \<and> dl_dedup_entries l \<le> usize_max \<and>
     0 < dl_pending_relays l \<and> dl_pending_relays l \<le> usize_max"

record DigipeaterCapacityError =
  ce_queue :: DigipeaterQueue
  ce_retained :: nat
  ce_requested :: nat

datatype DigipeaterAliasError =
    AliasEmpty
  | AliasInvalidByte nat u8
  | AliasCallsign Ax25Error
  | AliasTooLong nat

datatype DigipeaterAlias = DigipeaterAlias (DigipeaterAlias_as_callsign: Callsign)

definition DigipeaterAlias_MAX_LEN :: nat where
  "DigipeaterAlias_MAX_LEN = Callsign_MAX_LEN - 1"

definition DigipeaterAlias_validate :: "bytes \<Rightarrow> DigipeaterAliasError + unit" where
  "DigipeaterAlias_validate candidate =
     (if candidate = [] then Err AliasEmpty
      else if length candidate > DigipeaterAlias_MAX_LEN then Err (AliasTooLong (length candidate))
      else (case find_enumerate (\<lambda>byte. \<not> is_ascii_alphanumeric byte) candidate of
              Some (index, byte) \<Rightarrow> Err (AliasInvalidByte index byte)
            | None \<Rightarrow> Ok ()))"

definition DigipeaterAlias_try_from :: "bytes \<Rightarrow> DigipeaterAliasError + DigipeaterAlias" where
  "DigipeaterAlias_try_from value =
     (case DigipeaterAlias_validate value of
        Inl e \<Rightarrow> Err e
      | Inr _ \<Rightarrow>
          (case Callsign_new (map to_ascii_uppercase value) of
             Inl source \<Rightarrow> Err (AliasCallsign source)
           | Inr c \<Rightarrow> Ok (DigipeaterAlias c)))"

definition DigipeaterAlias_new :: "bytes \<Rightarrow> DigipeaterAliasError + DigipeaterAlias" where
  "DigipeaterAlias_new value =
     (case DigipeaterAlias_validate value of
        Inl e \<Rightarrow> Err e | Inr _ \<Rightarrow> DigipeaterAlias_try_from value)"

definition DigipeaterAlias_as_str :: "DigipeaterAlias \<Rightarrow> bytes" where
  "DigipeaterAlias_as_str a = Callsign_as_bytes (DigipeaterAlias_as_callsign a)"

record DigipeaterAliases =
  das_uidigipeat :: "Ax25Address list"
  das_uiflood :: "DigipeaterAlias option"
  das_uitrace :: "DigipeaterAlias option"

section \<open>Configuration and runtime state\<close>

definition DEFAULT_DEDUP_TTL :: duration where "DEFAULT_DEDUP_TTL = from_secs 30"

definition DEFAULT_VISCOUS_DELAY :: duration where "DEFAULT_VISCOUS_DELAY = from_secs 0"

record DigipeaterConfig =
  dc_limits :: DigipeaterLimits
  dc_callsign :: Ax25Address
  dc_uidigipeat_aliases :: "Ax25Address list"
  dc_uiflood_alias :: "DigipeaterAlias option"
  dc_uitrace_alias :: "DigipeaterAlias option"
  dc_dedup_ttl :: duration
  dc_viscous_delay :: duration
  dc_dedup_cache :: "(u64, instant) hashmap"
  dc_last_prune :: "instant option"
  dc_pending_viscous :: "(u64, instant \<times> Ax25Packet) hashmap"

definition DigipeaterConfig_new :: "Ax25Address \<Rightarrow> DigipeaterAliases \<Rightarrow> DigipeaterConfig" where
  "DigipeaterConfig_new callsign aliases =
     \<lparr>dc_limits = DigipeaterLimits_DEFAULT, dc_callsign = callsign,
      dc_uidigipeat_aliases = das_uidigipeat aliases, dc_uiflood_alias = das_uiflood aliases,
      dc_uitrace_alias = das_uitrace aliases, dc_dedup_ttl = DEFAULT_DEDUP_TTL,
      dc_viscous_delay = DEFAULT_VISCOUS_DELAY, dc_dedup_cache = [], dc_last_prune = None,
      dc_pending_viscous = []\<rparr>"

fun check_limits :: "(DigipeaterQueue \<times> nat \<times> nat) list \<Rightarrow> DigipeaterCapacityError + unit" where
  "check_limits [] = Ok ()"
| "check_limits ((queue, retained, requested) # rest) =
     (if retained > requested
      then Err \<lparr>ce_queue = queue, ce_retained = retained, ce_requested = requested\<rparr>
      else check_limits rest)"

definition DigipeaterConfig_set_limits ::
  "DigipeaterConfig \<Rightarrow> DigipeaterLimits \<Rightarrow> (DigipeaterCapacityError + unit) \<times> DigipeaterConfig" where
  "DigipeaterConfig_set_limits cfg limits =
     (let dedup_retained =
            usize_saturating_add (hm_len (dc_dedup_cache cfg)) (hm_len (dc_pending_viscous cfg))
      in case check_limits
                [(Dedup, dedup_retained, dl_dedup_entries limits),
                 (Viscous, hm_len (dc_pending_viscous cfg), dl_pending_relays limits)] of
           Inl e \<Rightarrow> (Err e, cfg)
         | Inr _ \<Rightarrow> (Ok (), cfg\<lparr>dc_limits := limits\<rparr>))"

definition DigipeaterConfig_set_callsign :: "DigipeaterConfig \<Rightarrow> Ax25Address \<Rightarrow> DigipeaterConfig" where
  "DigipeaterConfig_set_callsign cfg callsign = cfg\<lparr>dc_callsign := callsign\<rparr>"

definition DigipeaterConfig_set_uidigipeat_aliases ::
  "DigipeaterConfig \<Rightarrow> Ax25Address list \<Rightarrow> DigipeaterConfig" where
  "DigipeaterConfig_set_uidigipeat_aliases cfg aliases = cfg\<lparr>dc_uidigipeat_aliases := aliases\<rparr>"

definition DigipeaterConfig_set_uiflood_alias ::
  "DigipeaterConfig \<Rightarrow> DigipeaterAlias option \<Rightarrow> DigipeaterConfig" where
  "DigipeaterConfig_set_uiflood_alias cfg alias = cfg\<lparr>dc_uiflood_alias := alias\<rparr>"

definition DigipeaterConfig_set_uitrace_alias ::
  "DigipeaterConfig \<Rightarrow> DigipeaterAlias option \<Rightarrow> DigipeaterConfig" where
  "DigipeaterConfig_set_uitrace_alias cfg alias = cfg\<lparr>dc_uitrace_alias := alias\<rparr>"

definition DigipeaterConfig_set_dedup_ttl :: "DigipeaterConfig \<Rightarrow> duration \<Rightarrow> DigipeaterConfig" where
  "DigipeaterConfig_set_dedup_ttl cfg dedup_ttl =
     (let cfg1 = cfg\<lparr>dc_dedup_ttl := dedup_ttl, dc_last_prune := None\<rparr>
      in if dedup_ttl = 0 then cfg1\<lparr>dc_dedup_cache := []\<rparr> else cfg1)"

definition DigipeaterConfig_set_viscous_delay :: "DigipeaterConfig \<Rightarrow> duration \<Rightarrow> DigipeaterConfig" where
  "DigipeaterConfig_set_viscous_delay cfg viscous_delay = cfg\<lparr>dc_viscous_delay := viscous_delay\<rparr>"

text \<open>The amortised sweep of expired duplicate entries.\<close>

definition prune_dedup :: "DigipeaterConfig \<Rightarrow> instant \<Rightarrow> DigipeaterConfig" where
  "prune_dedup cfg now =
     (let ttl = dc_dedup_ttl cfg;
          due = is_none_or (dc_last_prune cfg)
                  (\<lambda>last. is_none_or (checked_duration_since now last) (\<lambda>d. d \<ge> ttl))
      in if \<not> due then cfg
         else cfg\<lparr>dc_dedup_cache := hm_retain (\<lambda>_ t. fresh now ttl t) (dc_dedup_cache cfg),
                  dc_last_prune := Some now\<rparr>)"

fun drain_pending ::
  "DigipeaterConfig \<Rightarrow> instant \<Rightarrow> (u64 \<times> (instant \<times> Ax25Packet)) list \<Rightarrow> Ax25Packet list \<Rightarrow>
   (u64, instant) hashmap \<Rightarrow> (u64, instant \<times> Ax25Packet) hashmap \<Rightarrow>
   Ax25Packet list \<times> (u64, instant) hashmap \<times> (u64, instant \<times> Ax25Packet) hashmap" where
  "drain_pending cfg now [] ready dedup remaining = (ready, dedup, remaining)"
| "drain_pending cfg now ((k, (t, p)) # rest) ready dedup remaining =
     (if interval_elapsed now (dc_viscous_delay cfg) t
      then drain_pending cfg now rest (ready @ [p])
             (if dc_dedup_ttl cfg \<noteq> 0 then hm_insert k now dedup else dedup) remaining
      else drain_pending cfg now rest ready dedup (hm_insert k (t, p) remaining))"

definition drain_ready_viscous :: "DigipeaterConfig \<Rightarrow> instant \<Rightarrow> Ax25Packet list \<times> DigipeaterConfig" where
  "drain_ready_viscous cfg0 now =
     (let cfg = prune_dedup cfg0 now;
          (ready, dedup, remaining) =
            drain_pending cfg now (dc_pending_viscous cfg) [] (dc_dedup_cache cfg) []
      in (ready, cfg\<lparr>dc_dedup_cache := dedup, dc_pending_viscous := remaining\<rparr>))"

section \<open>Helpers\<close>

datatype DigiAction =
    CapacityExceeded DigipeaterQueue
  | Drop
  | NotUiFrame
  | LoopDetected
  | Duplicate
  | Relay Ax25Packet

definition is_used_digi :: "RouteEntry \<Rightarrow> bool" where
  "is_used_digi entry = re_has_repeated entry"

definition strip_prefix_ignore_ascii_case :: "bytes \<Rightarrow> bytes \<Rightarrow> bytes option" where
  "strip_prefix_ignore_ascii_case s prefix =
     (let split = length prefix
      in case get_range 0 split s of
           None \<Rightarrow> None
         | Some head \<Rightarrow> if eq_ignore_ascii_case head prefix then get_from split s else None)"

definition matches_new_n_alias :: "bytes \<Rightarrow> bytes \<Rightarrow> bool" where
  "matches_new_n_alias callsign base =
     (if eq_ignore_ascii_case callsign base then True
      else (case strip_prefix_ignore_ascii_case callsign base of
              None \<Rightarrow> False
            | Some rest \<Rightarrow> (case rest of [digit] \<Rightarrow> 0x31 \<le> digit \<and> digit \<le> 0x37 | _ \<Rightarrow> False)))"

definition own_callsign_already_relayed :: "Ax25Address \<Rightarrow> DigipeaterPath \<Rightarrow> bool" where
  "own_callsign_already_relayed own path =
     list_ex (\<lambda>d. re_has_repeated d
        \<and> eq_ignore_ascii_case (Callsign_as_bytes (aa_callsign (re_address d)))
             (Callsign_as_bytes (aa_callsign own))
        \<and> aa_ssid (re_address d) = aa_ssid own) path"

text \<open>
  What \<open>Hash\<close> feeds to the hasher: a \<open>str\<close> its bytes and the terminator \<open>0xFF\<close>, a \<open>u8\<close> itself, a
  byte slice its length as a little-endian \<open>usize\<close> and its bytes.
\<close>

definition usize_le_bytes :: "nat \<Rightarrow> bytes" where
  "usize_le_bytes n = map (\<lambda>i. word_of_nat (n div 256 ^ i)) [0..<8]"

definition packet_identity :: "Ax25Packet \<Rightarrow> bytes" where
  "packet_identity packet =
     (let source = hd_source (pk_header packet); destination = hd_destination (pk_header packet)
      in Callsign_as_bytes (aa_callsign source) @ [0xFF] @ [Ssid_get (aa_ssid source)]
         @ Callsign_as_bytes (aa_callsign destination) @ [0xFF] @ [Ssid_get (aa_ssid destination)]
         @ usize_le_bytes (length (pk_information packet)) @ pk_information packet)"

definition hash_packet_identity :: "(bytes \<Rightarrow> u64) \<Rightarrow> Ax25Packet \<Rightarrow> u64" where
  "hash_packet_identity H packet = H (packet_identity packet)"

section \<open>The relay algorithms\<close>

definition with_digipeaters :: "Ax25Packet \<Rightarrow> DigipeaterPath \<Rightarrow> Ax25Packet" where
  "with_digipeaters p path = p\<lparr>pk_header := (pk_header p)\<lparr>hd_digipeaters := path\<rparr>\<rparr>"

abbreviation path_of :: "Ax25Packet \<Rightarrow> DigipeaterPath" where
  "path_of p \<equiv> hd_digipeaters (pk_header p)"

definition apply_uidigipeat :: "Ax25Address \<Rightarrow> Ax25Packet \<Rightarrow> nat \<Rightarrow> DigiAction" where
  "apply_uidigipeat callsign packet idx =
     (case get idx (path_of packet) of
        Some _ \<Rightarrow> Relay (with_digipeaters packet
          ((path_of packet)[idx := \<lparr>re_address = callsign, re_has_repeated = True\<rparr>]))
      | None \<Rightarrow> Drop)"

text \<open>The slot \<open>UIflood\<close> and \<open>UItrace\<close> write: used up when no hop is left.\<close>

definition hop_slot :: "Callsign \<Rightarrow> Ssid \<Rightarrow> RouteEntry" where
  "hop_slot callsign new_ssid =
     (if new_ssid = Ssid_ZERO
      then \<lparr>re_address = Ax25Address_from_parts callsign Ssid_ZERO, re_has_repeated = True\<rparr>
      else \<lparr>re_address = Ax25Address_from_parts callsign new_ssid, re_has_repeated = False\<rparr>)"

definition apply_uiflood :: "Ax25Packet \<Rightarrow> nat \<Rightarrow> DigiAction" where
  "apply_uiflood packet idx =
     (case get idx (path_of packet) of
        None \<Rightarrow> Drop
      | Some digi \<Rightarrow>
          let new_ssid = Ssid_saturating_decrement (aa_ssid (re_address digi));
              callsign = aa_callsign (re_address digi)
          in Relay (with_digipeaters packet ((path_of packet)[idx := hop_slot callsign new_ssid])))"

definition apply_uitrace :: "Ax25Address \<Rightarrow> Ax25Packet \<Rightarrow> nat \<Rightarrow> DigiAction" where
  "apply_uitrace callsign packet idx =
     (if length (path_of packet) \<ge> MAX_DIGIPEATERS then Drop
      else
        (case get idx (path_of packet) of
           None \<Rightarrow> Drop
         | Some source_digi \<Rightarrow>
             let alias_callsign = aa_callsign (re_address source_digi);
                 new_ssid = Ssid_saturating_decrement (aa_ssid (re_address source_digi))
             in case DigipeaterPath_try_insert (path_of packet) idx
                       \<lparr>re_address = callsign, re_has_repeated = True\<rparr> of
                  Inl _ \<Rightarrow> Drop
                | Inr path \<Rightarrow>
                    (let trace_idx = idx + 1
                     in case get trace_idx path of
                          None \<Rightarrow> Drop
                        | Some _ \<Rightarrow> Relay (with_digipeaters packet
                            (path[trace_idx := hop_slot alias_callsign new_ssid])))))"

section \<open>Processing\<close>

definition has_dedup_capacity :: "DigipeaterConfig \<Rightarrow> instant \<Rightarrow> bool \<times> DigipeaterConfig" where
  "has_dedup_capacity cfg now =
     (if usize_saturating_add (hm_len (dc_dedup_cache cfg)) (hm_len (dc_pending_viscous cfg))
           < dl_dedup_entries (dc_limits cfg)
      then (True, cfg)
      else
        let cfg1 = prune_dedup (cfg\<lparr>dc_last_prune := None\<rparr>) now
        in (usize_saturating_add (hm_len (dc_dedup_cache cfg1)) (hm_len (dc_pending_viscous cfg1))
              < dl_dedup_entries (dc_limits cfg1), cfg1))"

definition record_relay ::
  "DigipeaterConfig \<Rightarrow> DigiAction \<Rightarrow> u64 \<Rightarrow> instant \<Rightarrow> DigiAction \<times> DigipeaterConfig" where
  "record_relay cfg action packet_hash now =
     (case action of
        Relay modified_packet \<Rightarrow>
          (if dc_viscous_delay cfg \<noteq> 0 then
             (if hm_len (dc_pending_viscous cfg) \<ge> dl_pending_relays (dc_limits cfg)
              then (CapacityExceeded Viscous, cfg)
              else
                let (room, cfg1) = has_dedup_capacity cfg now
                in if \<not> room then (CapacityExceeded Dedup, cfg1)
                   else (Drop, cfg1\<lparr>dc_pending_viscous :=
                           hm_insert packet_hash (now, modified_packet) (dc_pending_viscous cfg1)\<rparr>))
           else if dc_dedup_ttl cfg \<noteq> 0 then
             (let (room, cfg1) = has_dedup_capacity cfg now
              in if \<not> room then (CapacityExceeded Dedup, cfg1)
                 else (Relay modified_packet, cfg1\<lparr>dc_dedup_cache :=
                         hm_insert packet_hash now (dc_dedup_cache cfg1)\<rparr>))
           else (Relay modified_packet, cfg))
      | _ \<Rightarrow> (action, cfg))"

definition alias_action :: "DigipeaterConfig \<Rightarrow> Ax25Packet \<Rightarrow> nat \<Rightarrow> RouteEntry \<Rightarrow> DigiAction" where
  "alias_action cfg packet first_unused digi =
     (let callsign = Callsign_as_bytes (aa_callsign (re_address digi));
          hops_remaining = (Ssid_get (aa_ssid (re_address digi)) > 0)
      in if list_ex (\<lambda>alias. re_address digi = alias) (dc_uidigipeat_aliases cfg)
         then apply_uidigipeat (dc_callsign cfg) packet first_unused
         else if is_some_and (dc_uiflood_alias cfg)
                   (\<lambda>alias. hops_remaining \<and> matches_new_n_alias callsign (DigipeaterAlias_as_str alias))
         then apply_uiflood packet first_unused
         else if is_some_and (dc_uitrace_alias cfg)
                   (\<lambda>alias. hops_remaining \<and> matches_new_n_alias callsign (DigipeaterAlias_as_str alias))
         then apply_uitrace (dc_callsign cfg) packet first_unused
         else Drop)"

definition DigipeaterConfig_process ::
  "(bytes \<Rightarrow> u64) \<Rightarrow> DigipeaterConfig \<Rightarrow> Ax25Packet \<Rightarrow> instant \<Rightarrow> DigiAction \<times> DigipeaterConfig" where
  "DigipeaterConfig_process H cfg0 packet now =
     (if \<not> Ax25Packet_is_ui packet \<or> pk_protocol packet \<noteq> Some NoLayer3 then (NotUiFrame, cfg0)
      else if own_callsign_already_relayed (dc_callsign cfg0) (path_of packet) then (LoopDetected, cfg0)
      else
        let cfg = prune_dedup cfg0 now;
            packet_hash = hash_packet_identity H packet
        in if is_some_and (hm_get (dc_dedup_cache cfg) packet_hash) (\<lambda>t. fresh now (dc_dedup_ttl cfg) t)
           then (Duplicate, cfg)
           else if dc_viscous_delay cfg \<noteq> 0 \<and> hm_get (dc_pending_viscous cfg) packet_hash \<noteq> None
           then
             (let cfg1 = cfg\<lparr>dc_pending_viscous := hm_remove packet_hash (dc_pending_viscous cfg)\<rparr>
              in (Duplicate,
                  if dc_dedup_ttl cfg \<noteq> 0
                  then cfg1\<lparr>dc_dedup_cache := hm_insert packet_hash now (dc_dedup_cache cfg1)\<rparr>
                  else cfg1))
           else
             (case position (\<lambda>d. \<not> is_used_digi d) (path_of packet) of
                None \<Rightarrow> (Drop, cfg)
              | Some first_unused \<Rightarrow>
                  (case get first_unused (path_of packet) of
                     None \<Rightarrow> (Drop, cfg)
                   | Some digi \<Rightarrow>
                       record_relay cfg (alias_action cfg packet first_unused digi) packet_hash now)))"

section \<open>The sweep\<close>

text \<open>A configuration after a sweep, or none, at time \<open>now\<close>: only the duplicate cache and the time
  of the last sweep may differ.\<close>

definition swept :: "instant \<Rightarrow> DigipeaterConfig \<Rightarrow> DigipeaterConfig \<Rightarrow> bool" where
  "swept now cfg cfg1 \<longleftrightarrow>
     dc_limits cfg1 = dc_limits cfg \<and> dc_callsign cfg1 = dc_callsign cfg \<and>
     dc_uidigipeat_aliases cfg1 = dc_uidigipeat_aliases cfg \<and>
     dc_uiflood_alias cfg1 = dc_uiflood_alias cfg \<and> dc_uitrace_alias cfg1 = dc_uitrace_alias cfg \<and>
     dc_dedup_ttl cfg1 = dc_dedup_ttl cfg \<and> dc_viscous_delay cfg1 = dc_viscous_delay cfg \<and>
     dc_pending_viscous cfg1 = dc_pending_viscous cfg \<and>
     (dc_dedup_cache cfg1 = dc_dedup_cache cfg \<or>
      dc_dedup_cache cfg1 = hm_retain (\<lambda>_ t. fresh now (dc_dedup_ttl cfg) t) (dc_dedup_cache cfg))"

lemma swept_refl [simp]: "swept now cfg cfg"
  by (simp add: swept_def)

lemma hm_retain_idem: "hm_retain P (hm_retain P m) = hm_retain P m"
  by (simp add: hm_retain_def)

lemma swept_trans: "swept now cfg cfg1 \<Longrightarrow> swept now cfg1 cfg2 \<Longrightarrow> swept now cfg cfg2"
  unfolding swept_def by (auto simp: hm_retain_idem)

lemma prune_dedup_swept: "swept now cfg (prune_dedup cfg now)"
  by (simp add: swept_def prune_dedup_def Let_def)

lemma swept_fields:
  assumes "swept now cfg cfg1"
  shows "dc_limits cfg1 = dc_limits cfg" "dc_callsign cfg1 = dc_callsign cfg"
    "dc_uidigipeat_aliases cfg1 = dc_uidigipeat_aliases cfg" "dc_uiflood_alias cfg1 = dc_uiflood_alias cfg"
    "dc_uitrace_alias cfg1 = dc_uitrace_alias cfg" "dc_dedup_ttl cfg1 = dc_dedup_ttl cfg"
    "dc_viscous_delay cfg1 = dc_viscous_delay cfg" "dc_pending_viscous cfg1 = dc_pending_viscous cfg"
  using assms unfolding swept_def by auto

lemma swept_cache:
  assumes "swept now cfg cfg1" and "hm_wf (dc_dedup_cache cfg)"
  shows "hm_wf (dc_dedup_cache cfg1)" "hm_len (dc_dedup_cache cfg1) \<le> hm_len (dc_dedup_cache cfg)"
    and "hm_get (dc_dedup_cache cfg) k = Some t \<Longrightarrow> fresh now (dc_dedup_ttl cfg) t \<Longrightarrow>
           hm_get (dc_dedup_cache cfg1) k = Some t"
    and "hm_get (dc_dedup_cache cfg1) k = Some t \<Longrightarrow> hm_get (dc_dedup_cache cfg) k = Some t"
  using assms hm.len_retain unfolding swept_def
  by (auto simp: hm.wf_retain hm.lookup_retain dest: hm.lookup_retain_SomeD)

lemma has_dedup_capacity_spec:
  assumes "has_dedup_capacity cfg now = (room, cfg1)"
  shows "swept now cfg cfg1"
    and "DigipeaterLimits_wf (dc_limits cfg) \<Longrightarrow> room \<Longrightarrow>
      hm_len (dc_dedup_cache cfg1) + hm_len (dc_pending_viscous cfg1) < dl_dedup_entries (dc_limits cfg1)"
proof -
  have "swept now cfg (cfg\<lparr>dc_last_prune := None\<rparr>)"
    by (simp add: swept_def)
  then have sw: "swept now cfg (prune_dedup (cfg\<lparr>dc_last_prune := None\<rparr>) now)"
    using prune_dedup_swept by (rule swept_trans)
  with assms show sw1: "swept now cfg cfg1" by (auto simp: has_dedup_capacity_def Let_def split: if_splits)
  assume wf: "DigipeaterLimits_wf (dc_limits cfg)" and room
  then have "usize_saturating_add (hm_len (dc_dedup_cache cfg1)) (hm_len (dc_pending_viscous cfg1))
      < dl_dedup_entries (dc_limits cfg1)"
    using assms by (auto simp: has_dedup_capacity_def Let_def split: if_splits)
  with wf swept_fields(1) [OF sw1] show
    "hm_len (dc_dedup_cache cfg1) + hm_len (dc_pending_viscous cfg1) < dl_dedup_entries (dc_limits cfg1)"
    by (auto simp: usize_saturating_add_def DigipeaterLimits_wf_def min_def split: if_splits)
qed

section \<open>Outcomes of \<open>process\<close>\<close>

definition relay_candidate :: "DigipeaterConfig \<Rightarrow> Ax25Packet \<Rightarrow> Ax25Packet \<Rightarrow> bool" where
  "relay_candidate cfg p q \<longleftrightarrow>
     (\<exists>i d. position (\<lambda>d. \<not> is_used_digi d) (path_of p) = Some i \<and> get i (path_of p) = Some d \<and>
        alias_action cfg p i d = Relay q)"

lemma alias_action_swept: "swept now cfg cfg1 \<Longrightarrow> alias_action cfg1 = alias_action cfg"
  unfolding alias_action_def by (intro ext) (simp only: swept_fields [of now cfg cfg1])

lemma alias_action_range: "alias_action cfg p i d = Drop \<or> (\<exists>q. alias_action cfg p i d = Relay q)"
  by (auto simp: alias_action_def Let_def apply_uidigipeat_def apply_uiflood_def apply_uitrace_def
      split: option.splits sum.splits)

lemma record_relay_cases:
  assumes "record_relay cfg (Relay m) h now = (a, cfg')"
  obtains (full) qu where "a = CapacityExceeded qu" "swept now cfg cfg'"
  | (deferred) cfg1 where "a = Drop" "swept now cfg cfg1" "dc_viscous_delay cfg \<noteq> 0"
      "hm_len (dc_pending_viscous cfg1) < dl_pending_relays (dc_limits cfg1)"
      "has_dedup_capacity cfg now = (True, cfg1)"
      "cfg' = cfg1\<lparr>dc_pending_viscous := hm_insert h (now, m) (dc_pending_viscous cfg1)\<rparr>"
  | (stamped) cfg1 where "a = Relay m" "swept now cfg cfg1" "dc_viscous_delay cfg = 0" "dc_dedup_ttl cfg \<noteq> 0"
      "has_dedup_capacity cfg now = (True, cfg1)"
      "cfg' = cfg1\<lparr>dc_dedup_cache := hm_insert h now (dc_dedup_cache cfg1)\<rparr>"
  | (unstamped) "a = Relay m" "dc_viscous_delay cfg = 0" "dc_dedup_ttl cfg = 0" "cfg' = cfg"
proof -
  obtain room cfg1 where cap: "has_dedup_capacity cfg now = (room, cfg1)" by fastforce
  then have sw: "swept now cfg cfg1" by (rule has_dedup_capacity_spec(1))
  show ?thesis
    by (use assms that sw cap swept_fields(1,8) [OF sw] in
        \<open>auto simp: record_relay_def Let_def split: if_splits\<close>)
qed

lemma process_cases:
  assumes "DigipeaterConfig_process H cfg p now = (a, cfg')"
  obtains (not_ui) "a = NotUiFrame" "cfg' = cfg" "\<not> Ax25Packet_is_ui p \<or> pk_protocol p \<noteq> Some NoLayer3"
  | (looped) "a = LoopDetected" "cfg' = cfg" "own_callsign_already_relayed (dc_callsign cfg) (path_of p)"
  | (duplicate) t where "a = Duplicate" "swept now cfg cfg'"
      "hm_get (dc_dedup_cache cfg') (hash_packet_identity H p) = Some t" "fresh now (dc_dedup_ttl cfg) t"
  | (cancelled) cfg1 where "a = Duplicate" "swept now cfg cfg1" "dc_viscous_delay cfg \<noteq> 0"
      "hm_get (dc_pending_viscous cfg) (hash_packet_identity H p) \<noteq> None"
      "cfg' = (let cfg2 = cfg1\<lparr>dc_pending_viscous :=
                 hm_remove (hash_packet_identity H p) (dc_pending_viscous cfg1)\<rparr>
               in if dc_dedup_ttl cfg \<noteq> 0
                  then cfg2\<lparr>dc_dedup_cache := hm_insert (hash_packet_identity H p) now (dc_dedup_cache cfg2)\<rparr>
                  else cfg2)"
  | (refused) "a = Drop \<or> (\<exists>qu. a = CapacityExceeded qu)" "swept now cfg cfg'"
      "dc_viscous_delay cfg \<noteq> 0 \<longrightarrow> hm_get (dc_pending_viscous cfg') (hash_packet_identity H p) = None"
  | (candidate) cfg1 m where "swept now cfg cfg1" "relay_candidate cfg p m"
      "record_relay cfg1 (Relay m) (hash_packet_identity H p) now = (a, cfg')"
      "\<And>t. hm_get (dc_dedup_cache cfg1) (hash_packet_identity H p) = Some t \<Longrightarrow> \<not> fresh now (dc_dedup_ttl cfg) t"
      "dc_viscous_delay cfg \<noteq> 0 \<longrightarrow> hm_get (dc_pending_viscous cfg) (hash_packet_identity H p) = None"
proof -
  let ?h = "hash_packet_identity H p"
  define cfg1 where "cfg1 = prune_dedup cfg now"
  have sw: "swept now cfg cfg1" unfolding cfg1_def by (rule prune_dedup_swept)
  note flds = swept_fields [OF sw]
  consider (n) "\<not> Ax25Packet_is_ui p \<or> pk_protocol p \<noteq> Some NoLayer3"
    | (l) "Ax25Packet_is_ui p" "pk_protocol p = Some NoLayer3"
        "own_callsign_already_relayed (dc_callsign cfg) (path_of p)"
    | (u) "Ax25Packet_is_ui p" "pk_protocol p = Some NoLayer3"
        "\<not> own_callsign_already_relayed (dc_callsign cfg) (path_of p)" by blast
  then show ?thesis
  proof cases
    case n then show ?thesis using assms that(1) by (auto simp: DigipeaterConfig_process_def)
  next
    case l then show ?thesis using assms that(2) by (auto simp: DigipeaterConfig_process_def)
  next
    case u
    note proc = assms [unfolded DigipeaterConfig_process_def Let_def, folded cfg1_def]
    show ?thesis
    proof (cases "is_some_and (hm_get (dc_dedup_cache cfg1) ?h) (\<lambda>t. fresh now (dc_dedup_ttl cfg1) t)")
      case True
      then obtain t where "hm_get (dc_dedup_cache cfg1) ?h = Some t" "fresh now (dc_dedup_ttl cfg1) t"
        by (cases "hm_get (dc_dedup_cache cfg1) ?h") auto
      with proc u True sw flds that(3) show ?thesis by simp
    next
      case not_dup: False
      show ?thesis
      proof (cases "dc_viscous_delay cfg1 \<noteq> 0 \<and> hm_get (dc_pending_viscous cfg1) ?h \<noteq> None")
        case True
        with proc u not_dup have "a = Duplicate" and cfg': "cfg' = (let cfg2 = cfg1\<lparr>dc_pending_viscous :=
                 hm_remove ?h (dc_pending_viscous cfg1)\<rparr>
               in if dc_dedup_ttl cfg1 \<noteq> 0
                  then cfg2\<lparr>dc_dedup_cache := hm_insert ?h now (dc_dedup_cache cfg2)\<rparr> else cfg2)"
          by (simp_all add: Let_def)
        then show ?thesis using True flds sw that(4) [of cfg1] by simp
      next
        case no_pending: False
        from proc u not_dup no_pending have proc':
          "(case position (\<lambda>d. \<not> is_used_digi d) (path_of p) of
              None \<Rightarrow> (Drop, cfg1)
            | Some i \<Rightarrow> (case get i (path_of p) of
                 None \<Rightarrow> (Drop, cfg1)
               | Some d \<Rightarrow> record_relay cfg1 (alias_action cfg1 p i d) ?h now)) = (a, cfg')"
          by (auto split: if_splits)
        have stale: "\<not> fresh now (dc_dedup_ttl cfg) t" if "hm_get (dc_dedup_cache cfg1) ?h = Some t" for t
          using not_dup that flds by auto
        have none: "dc_viscous_delay cfg \<noteq> 0 \<longrightarrow> hm_get (dc_pending_viscous cfg) ?h = None"
          using no_pending flds by (cases "hm_get (dc_pending_viscous cfg) ?h") auto
        show ?thesis
        proof (cases "\<exists>q. relay_candidate cfg p q")
          case True
          then obtain i d q where "position (\<lambda>d. \<not> is_used_digi d) (path_of p) = Some i"
            "get i (path_of p) = Some d" "alias_action cfg p i d = Relay q"
            by (auto simp: relay_candidate_def)
          with proc' alias_action_swept [OF sw] sw stale none that(6) [of cfg1 q] show ?thesis
            by (auto simp: relay_candidate_def)
        next
          case False
          then have "alias_action cfg p i d = Drop"
            if "position (\<lambda>d. \<not> is_used_digi d) (path_of p) = Some i" "get i (path_of p) = Some d" for i d
            using that alias_action_range [of cfg p i d] by (auto simp: relay_candidate_def)
          with proc' alias_action_swept [OF sw] have "a = Drop \<and> cfg' = cfg1"
            by (auto simp: record_relay_def split: option.splits)
          with none sw flds show ?thesis using that(5) by simp
        qed
      qed
    qed
  qed
qed

section \<open>What a relay does to the path\<close>

lemma with_digipeaters_fields [simp]:
  "path_of (with_digipeaters p path) = path"
  "pk_control (with_digipeaters p path) = pk_control p"
  "pk_protocol (with_digipeaters p path) = pk_protocol p"
  "pk_information (with_digipeaters p path) = pk_information p"
  "hd_source (pk_header (with_digipeaters p path)) = hd_source (pk_header p)"
  "hd_destination (pk_header (with_digipeaters p path)) = hd_destination (pk_header p)"
  "packet_identity (with_digipeaters p path) = packet_identity p"
  by (simp_all add: with_digipeaters_def packet_identity_def)

text \<open>The entry that was matched, split out of the path.\<close>

lemma relay_candidate_path:
  assumes "relay_candidate cfg p q"
  obtains pre d post new where
    "path_of p = pre @ d # post" "\<forall>e \<in> set pre. re_has_repeated e" "\<not> re_has_repeated d"
    "q = with_digipeaters p (pre @ new @ post)"
    "new = [\<lparr>re_address = dc_callsign cfg, re_has_repeated = True\<rparr>] \<or>
     0 < Ssid_get (aa_ssid (re_address d)) \<and>
       (let slot = hop_slot (aa_callsign (re_address d)) (Ssid_saturating_decrement (aa_ssid (re_address d)))
        in new = [slot] \<or>
           new = [\<lparr>re_address = dc_callsign cfg, re_has_repeated = True\<rparr>, slot] \<and>
             length (path_of p) < MAX_DIGIPEATERS)"
proof -
  obtain i d where pos: "position (\<lambda>d. \<not> is_used_digi d) (path_of p) = Some i"
    and d: "get i (path_of p) = Some d" and act: "alias_action cfg p i d = Relay q"
    using assms by (auto simp: relay_candidate_def)
  let ?pre = "take i (path_of p)" and ?post = "drop (Suc i) (path_of p)"
  have i: "i < length (path_of p)" "path_of p ! i = d" using d by (simp_all add: get_Some_iff)
  then have path: "path_of p = ?pre @ d # ?post" using id_take_nth_drop [of i "path_of p"] by simp
  have used: "\<forall>e \<in> set ?pre. re_has_repeated e" "\<not> re_has_repeated d"
    using pos i by (auto simp: position_Some_iff is_used_digi_def in_set_conv_nth)
  let ?own = "\<lparr>re_address = dc_callsign cfg, re_has_repeated = True\<rparr>"
  let ?slot = "hop_slot (aa_callsign (re_address d)) (Ssid_saturating_decrement (aa_ssid (re_address d)))"
  have upd: "(path_of p)[i := e] = ?pre @ [e] @ ?post" for e
    using i by (simp add: upd_conv_take_nth_drop)
  have ins: "(take i (path_of p) @ e # drop i (path_of p))[Suc i := e'] = ?pre @ [e, e'] @ ?post" for e e'
    using i by (simp add: list_update_append Cons_nth_drop_Suc [symmetric])
  from act consider (rep) "q = with_digipeaters p (?pre @ [?own] @ ?post)"
    | (flood) "0 < Ssid_get (aa_ssid (re_address d))" "q = with_digipeaters p (?pre @ [?slot] @ ?post)"
    | (trace) "0 < Ssid_get (aa_ssid (re_address d))" "q = with_digipeaters p (?pre @ [?own, ?slot] @ ?post)"
        "length (path_of p) < MAX_DIGIPEATERS"
    by (auto simp: alias_action_def Let_def apply_uidigipeat_def apply_uiflood_def apply_uitrace_def
        DigipeaterPath_try_insert_def d upd ins is_some_and_def
        split: if_splits option.splits)
  then show ?thesis
  proof cases
    case rep then show ?thesis using that [OF path used] by blast
  next
    case flood then show ?thesis using that [OF path used, of "[?slot]"] by (simp add: Let_def)
  next
    case trace then show ?thesis using that [OF path used, of "[?own, ?slot]"] by (simp add: Let_def)
  qed
qed

text \<open>The hops a path still asks for: an unused \<open>WIDEn-N\<close> asks for \<open>N\<close>, any other unused entry for one.\<close>

definition entry_hops :: "RouteEntry \<Rightarrow> nat" where
  "entry_hops e = (if re_has_repeated e then 0 else max 1 (unat (Ssid_get (aa_ssid (re_address e)))))"

definition hop_budget :: "DigipeaterPath \<Rightarrow> nat" where
  "hop_budget path = sum_list (map entry_hops path)"

lemma hop_slot_hops:
  assumes "0 < Ssid_get s"
  shows "entry_hops (hop_slot c (Ssid_saturating_decrement s)) < unat (Ssid_get s)"
proof -
  have "unat (Ssid_get s - 1) = unat (Ssid_get s) - 1" "0 < unat (Ssid_get s)"
    using assms by (unat_arith)+
  with assms show ?thesis
    by (auto simp: entry_hops_def hop_slot_def Ssid_saturating_decrement_def Ax25Address_from_parts_def Ssid_ZERO_def
        max_def word_unat_eq_iff)
qed

lemma relay_candidate_budget:
  assumes "relay_candidate cfg p q"
  shows "hop_budget (path_of q) < hop_budget (path_of p)"
  using assms
proof (rule relay_candidate_path)
  fix pre d post new
  assume "path_of p = pre @ d # post" "\<not> re_has_repeated d" "q = with_digipeaters p (pre @ new @ post)"
    and new: "new = [\<lparr>re_address = dc_callsign cfg, re_has_repeated = True\<rparr>] \<or>
     0 < Ssid_get (aa_ssid (re_address d)) \<and>
       (let slot = hop_slot (aa_callsign (re_address d)) (Ssid_saturating_decrement (aa_ssid (re_address d)))
        in new = [slot] \<or>
           new = [\<lparr>re_address = dc_callsign cfg, re_has_repeated = True\<rparr>, slot] \<and>
             length (path_of p) < MAX_DIGIPEATERS)"
  moreover have "sum_list (map entry_hops new) < entry_hops d"
    using new hop_slot_hops [of "aa_ssid (re_address d)" "aa_callsign (re_address d)"] \<open>\<not> re_has_repeated d\<close>
    by (auto simp: Let_def entry_hops_def [of d] entry_hops_def [of "\<lparr>re_address = _, re_has_repeated = True\<rparr>"])
  ultimately show ?thesis by (simp add: hop_budget_def)
qed

lemma hop_slot_wf: "Callsign_wf c \<Longrightarrow> Ssid_wf s \<Longrightarrow> RouteEntry_wf (hop_slot c s)"
  by (simp add: hop_slot_def RouteEntry_wf_def Ax25Address_wf_def Ax25Address_from_parts_def Ssid_ZERO_def Ssid_wf_def)

lemma relay_candidate_wf:
  assumes "relay_candidate cfg p q" and "Ax25Packet_wf p" and "Ax25Address_wf (dc_callsign cfg)"
  shows "Ax25Packet_wf q \<and> q = with_digipeaters p (path_of q)"
  using assms(1)
proof (rule relay_candidate_path)
  fix pre d post new
  assume path: "path_of p = pre @ d # post" and q: "q = with_digipeaters p (pre @ new @ post)"
    and new: "new = [\<lparr>re_address = dc_callsign cfg, re_has_repeated = True\<rparr>] \<or>
     0 < Ssid_get (aa_ssid (re_address d)) \<and>
       (let slot = hop_slot (aa_callsign (re_address d)) (Ssid_saturating_decrement (aa_ssid (re_address d)))
        in new = [slot] \<or>
           new = [\<lparr>re_address = dc_callsign cfg, re_has_repeated = True\<rparr>, slot] \<and>
             length (path_of p) < MAX_DIGIPEATERS)"
  have "DigipeaterPath_wf (path_of p)" using assms(2) by (simp add: Ax25Packet_wf_def Ax25Header_wf_def)
  then have old: "length pre + length post < MAX_DIGIPEATERS" "\<forall>e \<in> set (pre @ post). RouteEntry_wf e"
    "Callsign_wf (aa_callsign (re_address d))" "Ssid_wf (aa_ssid (re_address d))"
    using path by (auto simp: DigipeaterPath_wf_def RouteEntry_wf_def Ax25Address_wf_def)
  have "RouteEntry_wf \<lparr>re_address = dc_callsign cfg, re_has_repeated = True\<rparr>"
    using assms(3) by (simp add: RouteEntry_wf_def)
  then have "\<forall>e \<in> set new. RouteEntry_wf e" "length pre + length new + length post \<le> MAX_DIGIPEATERS"
    using new old hop_slot_wf [OF old(3) Ssid_saturating_decrement_wf [OF old(4)]] path
    by (auto simp: Let_def)
  with old(2) have "DigipeaterPath_wf (path_of q)" using q by (auto simp: DigipeaterPath_wf_def)
  then show "Ax25Packet_wf q \<and> q = with_digipeaters p (path_of q)"
    using assms(2) q by (simp_all add: Ax25Packet_wf_def Ax25Header_wf_def)
qed

section \<open>Draining\<close>

lemma AList_update_new: "k \<notin> fst ` set m \<Longrightarrow> AList.update k v m = m @ [(k, v)]"
  by (induction m) auto

lemma drain_pending_spec:
  assumes "distinct (map fst rem @ map fst xs)"
  shows "drain_pending cfg now xs ready dedup rem =
    (ready @ map (snd \<circ> snd) (filter (\<lambda>(k, t, p). interval_elapsed now (dc_viscous_delay cfg) t) xs),
     (if dc_dedup_ttl cfg \<noteq> 0
      then fold (\<lambda>e. hm_insert (fst e) now)
             (filter (\<lambda>(k, t, p). interval_elapsed now (dc_viscous_delay cfg) t) xs) dedup
      else dedup),
     rem @ filter (\<lambda>(k, t, p). \<not> interval_elapsed now (dc_viscous_delay cfg) t) xs)"
  using assms
proof (induction cfg now xs ready dedup rem rule: drain_pending.induct)
  case (2 cfg now k t p rest ready dedup remaining)
  have "distinct (map fst remaining @ map fst rest)" using "2.prems" by auto
  moreover have "distinct (map fst (remaining @ [(k, t, p)]) @ map fst rest)" using "2.prems" by auto
  moreover have "hm_insert k (t, p) remaining = remaining @ [(k, t, p)]"
    unfolding hm_insert_def by (rule AList_update_new) (use "2.prems" in force)
  ultimately show ?case using "2.IH" by (simp del: distinct_append)
qed simp

definition ready_entries ::
  "DigipeaterConfig \<Rightarrow> instant \<Rightarrow> (u64 \<times> (instant \<times> Ax25Packet)) list" where
  "ready_entries cfg now =
     filter (\<lambda>(k, t, p). interval_elapsed now (dc_viscous_delay cfg) t) (dc_pending_viscous cfg)"

lemma drain_ready_viscous_spec:
  assumes "hm_wf (dc_pending_viscous cfg)"
  obtains cfg1 where "swept now cfg cfg1"
    "drain_ready_viscous cfg now =
      (map (snd \<circ> snd) (ready_entries cfg now),
       cfg1\<lparr>dc_dedup_cache := (if dc_dedup_ttl cfg \<noteq> 0
               then fold (\<lambda>e. hm_insert (fst e) now) (ready_entries cfg now) (dc_dedup_cache cfg1)
               else dc_dedup_cache cfg1),
            dc_pending_viscous :=
              filter (\<lambda>(k, t, p). \<not> interval_elapsed now (dc_viscous_delay cfg) t) (dc_pending_viscous cfg)\<rparr>)"
proof -
  let ?cfg1 = "prune_dedup cfg now"
  have sw: "swept now cfg ?cfg1" by (rule prune_dedup_swept)
  have "distinct (map fst [] @ map fst (dc_pending_viscous ?cfg1))"
    using assms by (simp add: hm_wf_def swept_fields [OF sw])
  from drain_pending_spec [OF this, of ?cfg1 now "[]" "dc_dedup_cache ?cfg1"] show ?thesis
    by (intro that [OF sw]) (simp add: drain_ready_viscous_def Let_def ready_entries_def swept_fields [OF sw])
qed

lemma fold_insert_get:
  "hm_get (fold (\<lambda>e. hm_insert (fst e) now) xs m) k =
     (if k \<in> fst ` set xs then Some now else hm_get m k)"
  by (induction xs arbitrary: m) (auto simp: hm.lookup_insert)

lemma fold_insert_wf: "hm_wf m \<Longrightarrow> hm_wf (fold (\<lambda>e. hm_insert (fst e) now) xs m)"
  by (induction xs arbitrary: m) (auto simp: hm.wf_insert)

lemma fold_insert_len:
  "hm_wf m \<Longrightarrow> hm_len (fold (\<lambda>e. hm_insert (fst e) now) xs m) \<le> hm_len m + length xs"
proof (induction xs arbitrary: m)
  case (Cons x xs)
  have "hm_len (fold (\<lambda>e. hm_insert (fst e) now) xs (hm_insert (fst x) now m)) \<le>
      hm_len (hm_insert (fst x) now m) + length xs"
    by (rule Cons.IH) (rule hm.wf_insert [OF Cons.prems])
  with hm.len_insert_le [OF Cons.prems, of "fst x" now] show ?case by simp
qed simp

section \<open>The runtime invariant\<close>

definition DigipeaterConfig_inv :: "DigipeaterConfig \<Rightarrow> bool" where
  "DigipeaterConfig_inv cfg \<longleftrightarrow>
     DigipeaterLimits_wf (dc_limits cfg) \<and> Ax25Address_wf (dc_callsign cfg) \<and>
     hm_wf (dc_dedup_cache cfg) \<and> hm_wf (dc_pending_viscous cfg) \<and>
     hm_len (dc_dedup_cache cfg) + hm_len (dc_pending_viscous cfg) \<le> dl_dedup_entries (dc_limits cfg) \<and>
     hm_len (dc_pending_viscous cfg) \<le> dl_pending_relays (dc_limits cfg) \<and>
     (\<forall>(k, t, p) \<in> set (dc_pending_viscous cfg). Ax25Packet_wf p)"

lemma inv_swept: "DigipeaterConfig_inv cfg \<Longrightarrow> swept now cfg cfg1 \<Longrightarrow> DigipeaterConfig_inv cfg1"
  using swept_cache(1,2) [of now cfg cfg1] by (auto simp: DigipeaterConfig_inv_def swept_fields)

lemma set_hm_insert: "set (hm_insert k v m) \<subseteq> insert (k, v) (set m)"
  unfolding hm_insert_def by (induction m) auto

lemma set_hm_remove: "set (hm_remove k m) \<subseteq> set m"
  by (simp add: hm_remove_def AList.delete_eq)

lemma inv_insert_dedup:
  assumes "DigipeaterConfig_inv cfg"
    and "hm_len (dc_dedup_cache cfg) + hm_len (dc_pending_viscous cfg) < dl_dedup_entries (dc_limits cfg)"
  shows "DigipeaterConfig_inv (cfg\<lparr>dc_dedup_cache := hm_insert h now (dc_dedup_cache cfg)\<rparr>)"
  using assms hm.len_insert_le [of "dc_dedup_cache cfg" h now]
  by (auto simp: DigipeaterConfig_inv_def hm.wf_insert)

lemma inv_insert_pending:
  assumes "DigipeaterConfig_inv cfg" and "Ax25Packet_wf m"
    and "hm_len (dc_dedup_cache cfg) + hm_len (dc_pending_viscous cfg) < dl_dedup_entries (dc_limits cfg)"
    and "hm_len (dc_pending_viscous cfg) < dl_pending_relays (dc_limits cfg)"
  shows "DigipeaterConfig_inv (cfg\<lparr>dc_pending_viscous := hm_insert h (now, m) (dc_pending_viscous cfg)\<rparr>)"
  using assms hm.len_insert_le [of "dc_pending_viscous cfg" h "(now, m)"]
    set_hm_insert [of h "(now, m)" "dc_pending_viscous cfg"]
  by (auto simp: DigipeaterConfig_inv_def hm.wf_insert)

lemma inv_cancel:
  assumes "DigipeaterConfig_inv cfg" and "hm_get (dc_pending_viscous cfg) h \<noteq> None"
  shows "DigipeaterConfig_inv (let cfg2 = cfg\<lparr>dc_pending_viscous := hm_remove h (dc_pending_viscous cfg)\<rparr>
     in if ttl \<noteq> (0 :: nat) then cfg2\<lparr>dc_dedup_cache := hm_insert h now (dc_dedup_cache cfg2)\<rparr> else cfg2)"
proof -
  let ?cfg2 = "cfg\<lparr>dc_pending_viscous := hm_remove h (dc_pending_viscous cfg)\<rparr>"
  have wf: "hm_wf (dc_pending_viscous cfg)" using assms(1) by (simp add: DigipeaterConfig_inv_def)
  have pos: "0 < hm_len (dc_pending_viscous cfg)"
    using assms(2) by (cases "dc_pending_viscous cfg") (simp_all add: hm_get_def hm_len_def)
  have len: "hm_len (hm_remove h (dc_pending_viscous cfg)) = hm_len (dc_pending_viscous cfg) - 1"
    using hm.len_remove [OF wf, of h] assms(2) by simp
  have inv: "DigipeaterConfig_inv ?cfg2"
    using assms(1) len hm.wf_remove [OF wf, of h] set_hm_remove [of h "dc_pending_viscous cfg"]
    by (auto simp: DigipeaterConfig_inv_def)
  moreover have "hm_len (dc_dedup_cache ?cfg2) + hm_len (dc_pending_viscous ?cfg2) < dl_dedup_entries (dc_limits ?cfg2)"
    using assms(1) len pos by (auto simp: DigipeaterConfig_inv_def)
  ultimately show ?thesis using inv_insert_dedup [of ?cfg2 h now] by (simp add: Let_def)
qed

lemma inv_record_relay:
  assumes "DigipeaterConfig_inv cfg" and "Ax25Packet_wf m"
    and "record_relay cfg (Relay m) h now = (a, cfg')"
  shows "DigipeaterConfig_inv cfg'"
  using assms(3)
proof (cases rule: record_relay_cases)
  case (full qu)
  then show ?thesis using assms(1) inv_swept by blast
next
  case (deferred cfg1)
  have "DigipeaterLimits_wf (dc_limits cfg)" using assms(1) by (simp add: DigipeaterConfig_inv_def)
  with deferred show ?thesis
    using inv_insert_pending [OF inv_swept [OF assms(1) deferred(2)] assms(2)]
      has_dedup_capacity_spec(2) [OF deferred(5)] by simp
next
  case (stamped cfg1)
  have "DigipeaterLimits_wf (dc_limits cfg)" using assms(1) by (simp add: DigipeaterConfig_inv_def)
  with stamped show ?thesis
    using inv_insert_dedup [OF inv_swept [OF assms(1) stamped(2)]]
      has_dedup_capacity_spec(2) [OF stamped(5)] by simp
next
  case unstamped
  then show ?thesis using assms(1) by simp
qed

lemma inv_process:
  assumes "DigipeaterConfig_inv cfg" and "Ax25Packet_wf p"
    and "DigipeaterConfig_process H cfg p now = (a, cfg')"
  shows "DigipeaterConfig_inv cfg'"
  using assms(3)
proof (cases rule: process_cases)
  case (cancelled cfg1)
  then show ?thesis
    using inv_cancel [OF inv_swept [OF assms(1) cancelled(2)], of "hash_packet_identity H p" "dc_dedup_ttl cfg" now]
    by (simp add: swept_fields [OF cancelled(2)])
next
  case (candidate cfg1 m)
  have "Ax25Address_wf (dc_callsign cfg)" using assms(1) by (simp add: DigipeaterConfig_inv_def)
  with candidate assms(1,2) show ?thesis
    using inv_record_relay inv_swept relay_candidate_wf by blast
qed (use assms(1) inv_swept in blast)+

lemma inv_drain:
  assumes "DigipeaterConfig_inv cfg"
  shows "DigipeaterConfig_inv (snd (drain_ready_viscous cfg now))"
proof -
  have wf: "hm_wf (dc_pending_viscous cfg)" using assms by (simp add: DigipeaterConfig_inv_def)
  let ?rdy = "ready_entries cfg now"
  let ?rem = "filter (\<lambda>(k, t, p). \<not> interval_elapsed now (dc_viscous_delay cfg) t) (dc_pending_viscous cfg)"
  from wf show ?thesis
  proof (rule drain_ready_viscous_spec [of cfg now])
    fix cfg1
    assume sw: "swept now cfg cfg1" and drain: "drain_ready_viscous cfg now =
      (map (snd \<circ> snd) ?rdy, cfg1\<lparr>dc_dedup_cache := (if dc_dedup_ttl cfg \<noteq> 0
          then fold (\<lambda>e. hm_insert (fst e) now) ?rdy (dc_dedup_cache cfg1) else dc_dedup_cache cfg1),
        dc_pending_viscous := ?rem\<rparr>)"
    have inv1: "DigipeaterConfig_inv cfg1" by (rule inv_swept [OF assms sw])
    have parts: "length ?rdy + length ?rem = length (dc_pending_viscous cfg)"
      unfolding ready_entries_def by (simp add: case_prod_unfold sum_length_filter_compl)
    have wf1: "hm_wf (dc_dedup_cache cfg1)" using inv1 by (simp add: DigipeaterConfig_inv_def)
    have "hm_wf ?rem" using wf by (simp add: hm_wf_def distinct_map_filter)
    with inv1 parts fold_insert_len [OF wf1, of now ?rdy] fold_insert_wf [OF wf1, of now ?rdy] show ?thesis
      unfolding drain by (auto simp: DigipeaterConfig_inv_def swept_fields [OF sw] hm_len_def)
  qed
qed

section \<open>Every reachable configuration\<close>

inductive digi_reachable :: "(bytes \<Rightarrow> u64) \<Rightarrow> DigipeaterConfig \<Rightarrow> bool" for H where
  new: "Ax25Address_wf callsign \<Longrightarrow> digi_reachable H (DigipeaterConfig_new callsign aliases)"
| process: "digi_reachable H cfg \<Longrightarrow> Ax25Packet_wf p \<Longrightarrow>
    digi_reachable H (snd (DigipeaterConfig_process H cfg p now))"
| drain: "digi_reachable H cfg \<Longrightarrow> digi_reachable H (snd (drain_ready_viscous cfg now))"
| set_limits: "digi_reachable H cfg \<Longrightarrow> DigipeaterLimits_wf limits \<Longrightarrow>
    digi_reachable H (snd (DigipeaterConfig_set_limits cfg limits))"
| set_callsign: "digi_reachable H cfg \<Longrightarrow> Ax25Address_wf callsign \<Longrightarrow>
    digi_reachable H (DigipeaterConfig_set_callsign cfg callsign)"
| set_uidigipeat: "digi_reachable H cfg \<Longrightarrow> digi_reachable H (DigipeaterConfig_set_uidigipeat_aliases cfg als)"
| set_uiflood: "digi_reachable H cfg \<Longrightarrow> digi_reachable H (DigipeaterConfig_set_uiflood_alias cfg al)"
| set_uitrace: "digi_reachable H cfg \<Longrightarrow> digi_reachable H (DigipeaterConfig_set_uitrace_alias cfg al)"
| set_dedup_ttl: "digi_reachable H cfg \<Longrightarrow> digi_reachable H (DigipeaterConfig_set_dedup_ttl cfg ttl)"
| set_viscous_delay: "digi_reachable H cfg \<Longrightarrow> digi_reachable H (DigipeaterConfig_set_viscous_delay cfg d)"

lemma inv_set_limits:
  assumes "DigipeaterConfig_inv cfg" and "DigipeaterLimits_wf limits"
  shows "DigipeaterConfig_inv (snd (DigipeaterConfig_set_limits cfg limits))"
proof -
  have "hm_len (dc_dedup_cache cfg) + hm_len (dc_pending_viscous cfg) \<le> usize_max"
    using assms(1) by (auto simp: DigipeaterConfig_inv_def DigipeaterLimits_wf_def)
  then show ?thesis using assms
    by (auto simp: DigipeaterConfig_set_limits_def DigipeaterConfig_inv_def Let_def usize_saturating_add_exact)
qed

lemma digi_reachable_inv: "digi_reachable H cfg \<Longrightarrow> DigipeaterConfig_inv cfg"
proof (induction rule: digi_reachable.induct)
  case (new callsign aliases)
  then show ?case
    by (simp add: DigipeaterConfig_inv_def DigipeaterConfig_new_def DigipeaterLimits_DEFAULT_def
        DigipeaterLimits_wf_def usize_max_def hm_wf_def hm_len_def)
next
  case (process cfg p now)
  then show ?case using inv_process by (metis prod.collapse)
next
  case (drain cfg now)
  then show ?case by (simp add: inv_drain)
next
  case (set_limits cfg limits)
  then show ?case by (simp add: inv_set_limits)
next
  case (set_dedup_ttl cfg ttl)
  then show ?case
    by (auto simp: DigipeaterConfig_inv_def DigipeaterConfig_set_dedup_ttl_def Let_def hm_wf_def hm_len_def)
qed (simp_all add: DigipeaterConfig_set_callsign_def
  DigipeaterConfig_set_uidigipeat_aliases_def DigipeaterConfig_set_uiflood_alias_def
  DigipeaterConfig_set_uitrace_alias_def DigipeaterConfig_set_viscous_delay_def DigipeaterConfig_inv_def)

section \<open>The duplicate cache as an expiring cache\<close>

datatype digi_op = OpProcess Ax25Packet instant | OpDrain instant

fun digi_step :: "(bytes \<Rightarrow> u64) \<Rightarrow> digi_op \<Rightarrow> DigipeaterConfig \<Rightarrow> DigipeaterConfig" where
  "digi_step H (OpProcess p now) cfg = snd (DigipeaterConfig_process H cfg p now)"
| "digi_step H (OpDrain now) cfg = snd (drain_ready_viscous cfg now)"

fun digi_at :: "digi_op \<Rightarrow> instant" where
  "digi_at (OpProcess p now) = now"
| "digi_at (OpDrain now) = now"

definition digi_maps_wf :: "DigipeaterConfig \<Rightarrow> bool" where
  "digi_maps_wf cfg \<longleftrightarrow> hm_wf (dc_dedup_cache cfg) \<and> hm_wf (dc_pending_viscous cfg)"

definition digi_seen :: "DigipeaterConfig \<Rightarrow> u64 \<Rightarrow> instant option" where
  "digi_seen cfg h = hm_get (dc_dedup_cache cfg) h"

text \<open>A step keeps what it does not stamp.\<close>

definition keeps :: "instant \<Rightarrow> DigipeaterConfig \<Rightarrow> DigipeaterConfig \<Rightarrow> bool" where
  "keeps now cfg cfg' \<longleftrightarrow> dc_dedup_ttl cfg' = dc_dedup_ttl cfg \<and> digi_maps_wf cfg' \<and>
     (\<forall>k t. digi_seen cfg k = Some t \<longrightarrow> fresh now (dc_dedup_ttl cfg) t \<longrightarrow>
        (\<exists>t'. digi_seen cfg' k = Some t' \<and> (t' = t \<or> t' = now)))"

lemma keeps_swept: "digi_maps_wf cfg \<Longrightarrow> swept now cfg cfg1 \<Longrightarrow> keeps now cfg cfg1"
  using swept_cache(1,3) [of now cfg cfg1]
  by (auto simp: keeps_def digi_maps_wf_def digi_seen_def swept_fields)

lemma keeps_insert:
  "keeps now cfg cfg1 \<Longrightarrow> keeps now cfg (cfg1\<lparr>dc_dedup_cache := hm_insert h now (dc_dedup_cache cfg1)\<rparr>)"
  by (auto simp: keeps_def digi_maps_wf_def digi_seen_def hm.lookup_insert hm.wf_insert)

lemma keeps_pending:
  "keeps now cfg cfg1 \<Longrightarrow> hm_wf m \<Longrightarrow> keeps now cfg (cfg1\<lparr>dc_pending_viscous := m\<rparr>)"
  by (auto simp: keeps_def digi_maps_wf_def digi_seen_def)

lemma keeps_record_relay:
  assumes "digi_maps_wf cfg" and "swept now cfg cfg1" and "record_relay cfg1 (Relay m) h now = (a, cfg')"
  shows "keeps now cfg cfg'"
  using assms(3)
proof (cases rule: record_relay_cases)
  case (deferred cfg2)
  have "keeps now cfg cfg2" using keeps_swept [OF assms(1) swept_trans [OF assms(2) deferred(2)]] .
  moreover from this have "hm_wf (dc_pending_viscous cfg2)" by (simp add: keeps_def digi_maps_wf_def)
  ultimately show ?thesis using deferred(6) keeps_pending by (simp add: hm.wf_insert)
next
  case (stamped cfg2)
  then show ?thesis
    using keeps_insert [OF keeps_swept [OF assms(1) swept_trans [OF assms(2) stamped(2)]]] by simp
qed (use assms keeps_swept swept_trans in blast)+

lemma keeps_process:
  assumes "digi_maps_wf cfg"
  shows "keeps now cfg (snd (DigipeaterConfig_process H cfg p now))"
proof -
  obtain a cfg' where eq: "DigipeaterConfig_process H cfg p now = (a, cfg')" by fastforce
  have "keeps now cfg cfg'"
    using eq
  proof (cases rule: process_cases)
    case (cancelled cfg1)
    let ?cfg2 = "cfg1\<lparr>dc_pending_viscous := hm_remove (hash_packet_identity H p) (dc_pending_viscous cfg1)\<rparr>"
    have k1: "keeps now cfg cfg1" by (rule keeps_swept [OF assms cancelled(2)])
    then have "keeps now cfg ?cfg2"
      by (rule keeps_pending) (use k1 in \<open>simp add: keeps_def digi_maps_wf_def hm.wf_remove\<close>)
    with cancelled(5) show ?thesis using keeps_insert [of now cfg ?cfg2] by (simp add: Let_def)
  qed (use assms keeps_swept keeps_record_relay swept_refl in blast)+
  with eq show ?thesis by simp
qed

lemma keeps_drain:
  assumes "digi_maps_wf cfg"
  shows "keeps now cfg (snd (drain_ready_viscous cfg now))"
proof -
  have wf: "hm_wf (dc_pending_viscous cfg)" using assms by (simp add: digi_maps_wf_def)
  then obtain cfg1 where sw: "swept now cfg cfg1" and eq: "drain_ready_viscous cfg now =
      (map (snd \<circ> snd) (ready_entries cfg now),
       cfg1\<lparr>dc_dedup_cache := (if dc_dedup_ttl cfg \<noteq> 0
               then fold (\<lambda>e. hm_insert (fst e) now) (ready_entries cfg now) (dc_dedup_cache cfg1)
               else dc_dedup_cache cfg1),
            dc_pending_viscous :=
              filter (\<lambda>(k, t, p). \<not> interval_elapsed now (dc_viscous_delay cfg) t) (dc_pending_viscous cfg)\<rparr>)"
    by (rule drain_ready_viscous_spec)
  have k1: "keeps now cfg cfg1" by (rule keeps_swept [OF assms sw])
  have "hm_wf (filter (\<lambda>(k, t, p). \<not> interval_elapsed now (dc_viscous_delay cfg) t) (dc_pending_viscous cfg))"
    using wf by (simp add: hm_wf_def distinct_map_filter)
  with k1 show ?thesis unfolding eq
    by (auto simp: keeps_def digi_maps_wf_def digi_seen_def fold_insert_get fold_insert_wf)
qed

interpretation digi_cache: ttl_cache digi_seen dc_dedup_ttl "digi_step H" digi_at digi_maps_wf
proof unfold_locales
  fix op cfg k t
  have step: "digi_maps_wf cfg \<Longrightarrow> keeps (digi_at op) cfg (digi_step H op cfg)"
    by (cases op) (simp_all add: keeps_process keeps_drain)
  then show "digi_maps_wf cfg \<Longrightarrow> digi_maps_wf (digi_step H op cfg)" by (simp add: keeps_def)
  show "\<exists>t'. digi_seen (digi_step H op cfg) k = Some t' \<and> (t' = t \<or> t' = digi_at op)"
    if "digi_maps_wf cfg" "digi_seen cfg k = Some t" "fresh (digi_at op) (dc_dedup_ttl cfg) t"
    using step that unfolding keeps_def by blast
  from step show "digi_maps_wf cfg \<Longrightarrow> dc_dedup_ttl (digi_step H op cfg) = dc_dedup_ttl cfg"
    by (simp add: keeps_def)
qed

lemma process_relay_stamps:
  assumes "DigipeaterConfig_process H cfg p now = (Relay q, cfg')"
  shows "relay_candidate cfg p q" "dc_dedup_ttl cfg \<noteq> 0 \<Longrightarrow> digi_seen cfg' (hash_packet_identity H p) = Some now"
proof -
  have "relay_candidate cfg p q \<and>
      (dc_dedup_ttl cfg \<noteq> 0 \<longrightarrow> digi_seen cfg' (hash_packet_identity H p) = Some now)"
    using assms
  proof (cases rule: process_cases)
    case (candidate cfg1 m)
    from candidate(3) show ?thesis
      by (cases rule: record_relay_cases)
         (use candidate(1,2) in \<open>auto simp: digi_seen_def hm.lookup_insert swept_fields\<close>)
  qed simp_all
  then show "relay_candidate cfg p q"
    "dc_dedup_ttl cfg \<noteq> 0 \<Longrightarrow> digi_seen cfg' (hash_packet_identity H p) = Some now" by auto
qed

lemma process_fresh_duplicate:
  assumes "digi_maps_wf cfg" and "digi_seen cfg (hash_packet_identity H p) = Some t"
    and "fresh now (dc_dedup_ttl cfg) t"
  shows "fst (DigipeaterConfig_process H cfg p now) \<in> {NotUiFrame, LoopDetected, Duplicate}"
proof -
  have "hm_get (dc_dedup_cache (prune_dedup cfg now)) (hash_packet_identity H p) = Some t"
    using swept_cache(3) [OF prune_dedup_swept] assms by (simp add: digi_maps_wf_def digi_seen_def)
  then show ?thesis
    using assms(3) swept_fields(6) [OF prune_dedup_swept, of cfg now]
    by (simp add: DigipeaterConfig_process_def Let_def)
qed

section \<open>A sample station\<close>

definition sample_alias :: Ax25Address where
  "sample_alias = \<lparr>aa_callsign = Callsign [0x57, 0x31], aa_ssid = Ssid 1\<rparr>"

definition sample_station :: Ax25Address where
  "sample_station = \<lparr>aa_callsign = Callsign [0x4E, 0x31], aa_ssid = Ssid 0\<rparr>"

definition sample_digi :: DigipeaterConfig where
  "sample_digi = DigipeaterConfig_new sample_station
     \<lparr>das_uidigipeat = [sample_alias], das_uiflood = None, das_uitrace = None\<rparr>"

definition sample_ui :: Ax25Packet where
  "sample_ui = Ax25Packet_unnumbered_information
     \<lparr>hd_source = \<lparr>aa_callsign = Callsign [0x4E, 0x30, 0x43], aa_ssid = Ssid 7\<rparr>,
      hd_destination = \<lparr>aa_callsign = Callsign [0x41, 0x50], aa_ssid = Ssid 0\<rparr>,
      hd_digipeaters = [\<lparr>re_address = sample_alias, re_has_repeated = False\<rparr>],
      hd_command_response = Command\<rparr> PfClear NoLayer3 [0x3E]"

definition sample_relayed :: Ax25Packet where
  "sample_relayed = with_digipeaters sample_ui [\<lparr>re_address = sample_station, re_has_repeated = True\<rparr>]"

definition sample_digi_after :: DigipeaterConfig where
  "sample_digi_after = sample_digi\<lparr>dc_dedup_cache := [(0, 0)], dc_last_prune := Some 0\<rparr>"

lemmas sample_digi_defs = sample_digi_def sample_ui_def sample_relayed_def sample_station_def sample_alias_def

lemma sample_digi_reachable: "digi_reachable H sample_digi"
  unfolding sample_digi_def
  by (rule digi_reachable.new)
     (simp add: sample_station_def Ax25Address_wf_def Callsign_wf_def Ssid_wf_def callsign_char_def ascii_defs)

lemmas sample_digi_inv = digi_reachable_inv [OF sample_digi_reachable]

lemma sample_ui_wf: "Ax25Packet_wf sample_ui"
  by (simp add: sample_digi_defs Ax25Packet_unnumbered_information_def Ax25Packet_wf_def Ax25Header_wf_def
      Ax25Address_wf_def Callsign_wf_def Ssid_wf_def DigipeaterPath_wf_def RouteEntry_wf_def callsign_char_def
      ascii_defs MAX_DIGIPEATERS_def validate_Ok_iff control_requires_protocol_def
      control_allows_information_def)

lemma sample_digi_process:
  "DigipeaterConfig_process (\<lambda>_. 0) sample_digi sample_ui 0 = (Relay sample_relayed, sample_digi_after)"
  by (simp add: DigipeaterConfig_process_def Let_def sample_digi_after_def sample_digi_defs DigipeaterConfig_new_def
      Ax25Packet_unnumbered_information_def Ax25Packet_is_ui_def Ax25Control_is_ui_def own_callsign_already_relayed_def
      prune_dedup_def hm_retain_def hm_get_def is_used_digi_def alias_action_def apply_uidigipeat_def
      record_relay_def DEFAULT_DEDUP_TTL_def DEFAULT_VISCOUS_DELAY_def from_secs_def has_dedup_capacity_def
      hm_len_def hm_insert_def usize_saturating_add_def DigipeaterLimits_DEFAULT_def hash_packet_identity_def
      with_digipeaters_def)

section \<open>Properties\<close>

text \<open>Relayed frames. Whatever the configuration and the caches, a frame returned for immediate
  relay differs from the received one in its digipeater path only, is again a well-formed frame
  (at most eight entries), and asks for strictly fewer hops.\<close>

lemma digi_relay_sound:
  assumes "DigipeaterConfig_inv cfg" and "Ax25Packet_wf p"
    and "DigipeaterConfig_process H cfg p now = (Relay q, cfg')"
  shows "Ax25Packet_wf q \<and> q = with_digipeaters p (path_of q) \<and>
    hop_budget (path_of q) < hop_budget (path_of p)"
proof -
  have "relay_candidate cfg p q" using assms(3) by (rule process_relay_stamps(1))
  moreover have "Ax25Address_wf (dc_callsign cfg)" using assms(1) by (simp add: DigipeaterConfig_inv_def)
  ultimately show ?thesis using relay_candidate_wf relay_candidate_budget assms(2) by blast
qed

text \<open>After a frame is relayed at once, frames with the same identity are refused while the window lasts,
  whatever is processed and drained in between.\<close>

lemma digi_relayed_refused:
  assumes "DigipeaterConfig_inv cfg"
    and "DigipeaterConfig_process H cfg p t0 = (Relay q, cfg1)"
    and "\<forall>op \<in> set ops. t0 \<le> digi_at op \<and> digi_at op < t0 + dc_dedup_ttl cfg"
    and "t0 \<le> now" and "now < t0 + dc_dedup_ttl cfg" and "packet_identity p' = packet_identity p"
  shows "fst (DigipeaterConfig_process H (fold (digi_step H) ops cfg1) p' now)
    \<in> {NotUiFrame, LoopDetected, Duplicate}"
proof -
  let ?h = "hash_packet_identity H p" and ?s = "fold (digi_step H) ops cfg1"
  have "digi_maps_wf cfg" using assms(1) by (simp add: digi_maps_wf_def DigipeaterConfig_inv_def)
  then have k: "keeps t0 cfg cfg1" using keeps_process [of cfg t0 H p] assms(2) by simp
  then have wf: "digi_maps_wf cfg1" and ttl: "dc_dedup_ttl cfg1 = dc_dedup_ttl cfg" by (simp_all add: keeps_def)
  have "digi_seen cfg1 ?h = Some t0" using process_relay_stamps(2) [OF assms(2)] assms(4,5) by simp
  then obtain t where t: "digi_seen ?s ?h = Some t" "t0 \<le> t"
    using digi_cache.remembered [OF wf, of ?h t0 t0 ops H] assms(3) ttl by auto
  have "dc_dedup_ttl ?s = dc_dedup_ttl cfg" "digi_maps_wf ?s"
    using digi_cache.run_ttl [OF wf] digi_cache.run_wf [OF wf] ttl by simp_all
  moreover have "hash_packet_identity H p' = ?h" using assms(6) by (simp add: hash_packet_identity_def)
  moreover have "fresh now (dc_dedup_ttl cfg) t" unfolding fresh_iff using t(2) assms(4,5) by linarith
  ultimately show ?thesis using process_fresh_duplicate [of ?s H p' t now] t(1) by simp
qed

section \<open>What the station transmits\<close>

text \<open>The frames that an operation hands out for transmission, and those of a run with their instants.\<close>

fun digi_out :: "(bytes \<Rightarrow> u64) \<Rightarrow> digi_op \<Rightarrow> DigipeaterConfig \<Rightarrow> Ax25Packet list" where
  "digi_out H (OpProcess p now) cfg = (case fst (DigipeaterConfig_process H cfg p now) of Relay q \<Rightarrow> [q] | _ \<Rightarrow> [])"
| "digi_out H (OpDrain now) cfg = fst (drain_ready_viscous cfg now)"

fun transmissions :: "(bytes \<Rightarrow> u64) \<Rightarrow> digi_op list \<Rightarrow> DigipeaterConfig \<Rightarrow> (instant \<times> Ax25Packet) list" where
  "transmissions H [] cfg = []"
| "transmissions H (op # ops) cfg = map (Pair (digi_at op)) (digi_out H op cfg) @ transmissions H ops (digi_step H op cfg)"

text \<open>What holds at \<open>now\<close>: a deferred frame is filed under its own identity, which was last transmitted
  a whole window ago, and only a station with a delay has deferred frames.\<close>

definition digi_guard :: "(bytes \<Rightarrow> u64) \<Rightarrow> instant \<Rightarrow> DigipeaterConfig \<Rightarrow> bool" where
  "digi_guard H now cfg \<longleftrightarrow> digi_maps_wf cfg \<and> (dc_viscous_delay cfg = 0 \<longrightarrow> dc_pending_viscous cfg = []) \<and>
     (\<forall>(k, t, p) \<in> set (dc_pending_viscous cfg). k = hash_packet_identity H p \<and>
        (\<forall>s. digi_seen cfg k = Some s \<longrightarrow> s + dc_dedup_ttl cfg \<le> now))"

lemma relay_candidate_hash: "relay_candidate cfg p q \<Longrightarrow> hash_packet_identity H q = hash_packet_identity H p"
  by (rule relay_candidate_path) (auto simp: hash_packet_identity_def)

lemma guard_later: "digi_guard H now cfg \<Longrightarrow> now \<le> now' \<Longrightarrow> digi_guard H now' cfg"
  unfolding digi_guard_def by fastforce

lemma guard_change:
  assumes "digi_guard H now cfg" "digi_maps_wf cfg'" "set (dc_pending_viscous cfg') \<subseteq> set (dc_pending_viscous cfg)"
    "dc_viscous_delay cfg' = dc_viscous_delay cfg" "dc_dedup_ttl cfg' = dc_dedup_ttl cfg"
    "\<And>k v s. (k, v) \<in> set (dc_pending_viscous cfg') \<Longrightarrow> digi_seen cfg' k = Some s \<Longrightarrow> digi_seen cfg k = Some s"
  shows "digi_guard H now cfg'"
proof -
  have "k = hash_packet_identity H p \<and> (\<forall>s. digi_seen cfg' k = Some s \<longrightarrow> s + dc_dedup_ttl cfg' \<le> now)"
    if "(k, t, p) \<in> set (dc_pending_viscous cfg')" for k t p
    using assms(1,3,5) assms(6) [OF that] that unfolding digi_guard_def by fastforce
  moreover have "dc_viscous_delay cfg' = 0 \<Longrightarrow> dc_pending_viscous cfg' = []" using assms(1,3,4) by (auto simp: digi_guard_def)
  ultimately show ?thesis using assms(2) by (auto simp: digi_guard_def)
qed

lemma guard_swept:
  assumes "digi_guard H now cfg" "swept now cfg cfg1"
  shows "digi_guard H now cfg1"
proof -
  have wf: "digi_maps_wf cfg" using assms(1) by (simp add: digi_guard_def)
  then have "digi_maps_wf cfg1" using keeps_swept [OF _ assms(2)] by (simp add: keeps_def)
  then show ?thesis using wf swept_cache(4) [OF assms(2)]
    by (intro guard_change [OF assms(1)]) (simp_all add: swept_fields [OF assms(2)] digi_maps_wf_def digi_seen_def)
qed

lemma pending_get: "hm_wf m \<Longrightarrow> (k, v) \<in> set m \<Longrightarrow> hm_get m k = Some v"
  by (simp add: hm_wf_def hm_get_def)

lemma guard_process:
  assumes "digi_guard H now cfg"
  shows "digi_guard H now (snd (DigipeaterConfig_process H cfg p now))"
proof -
  let ?h = "hash_packet_identity H p"
  obtain a cfg' where eq: "DigipeaterConfig_process H cfg p now = (a, cfg')" by fastforce
  have "digi_guard H now cfg'"
    using eq
  proof (cases rule: process_cases)
    case (cancelled cfg1)
    have g: "digi_guard H now cfg1" using guard_swept [OF assms cancelled(2)] .
    then have wf: "hm_wf (dc_pending_viscous cfg1)" by (simp add: digi_guard_def digi_maps_wf_def)
    let ?cfg2 = "cfg1\<lparr>dc_pending_viscous := hm_remove ?h (dc_pending_viscous cfg1)\<rparr>"
    have "(?h, v) \<notin> set (hm_remove ?h (dc_pending_viscous cfg1))" for v
      using hm.lookup_remove [OF wf, of ?h ?h] pending_get [OF hm.wf_remove [OF wf]] by fastforce
    then have sub: "(k, v) \<in> set (hm_remove ?h (dc_pending_viscous cfg1)) \<Longrightarrow> k \<noteq> ?h" for k v by blast
    have w: "digi_maps_wf ?cfg2" using g wf by (simp add: digi_guard_def digi_maps_wf_def hm.wf_remove)
    have g2: "digi_guard H now ?cfg2"
      by (rule guard_change [OF g w]) (simp_all add: digi_seen_def set_hm_remove)
    have "digi_guard H now (?cfg2\<lparr>dc_dedup_cache := hm_insert ?h now (dc_dedup_cache ?cfg2)\<rparr>)"
      by (rule guard_change [OF g2])
        (use w sub in \<open>auto simp: digi_maps_wf_def hm.wf_insert digi_seen_def hm.lookup_insert split: if_splits\<close>)
    with g2 have "digi_guard H now ?cfg2" "digi_guard H now (?cfg2\<lparr>dc_dedup_cache := hm_insert ?h now (dc_dedup_cache ?cfg2)\<rparr>)" .
    then show ?thesis using cancelled(5) by (simp add: Let_def)
  next
    case (candidate cfg1 m)
    have g1: "digi_guard H now cfg1" using guard_swept [OF assms candidate(1)] .
    from candidate(3) show ?thesis
    proof (cases rule: record_relay_cases)
      case (deferred cfg2)
      have g: "digi_guard H now cfg2" using guard_swept [OF g1 deferred(2)] .
      have wf1: "hm_wf (dc_dedup_cache cfg1)" using g1 by (simp add: digi_guard_def digi_maps_wf_def)
      have "digi_seen cfg2 ?h = Some s \<Longrightarrow> s + dc_dedup_ttl cfg2 \<le> now" for s
        using candidate(4) [of s] swept_cache(4) [OF deferred(2) wf1] swept_fields(6) [OF candidate(1)] swept_fields(6) [OF deferred(2)]
        by (auto simp: digi_seen_def fresh_iff)
      moreover have "?h = hash_packet_identity H m" using relay_candidate_hash [OF candidate(2)] by simp
      moreover have "dc_viscous_delay cfg2 \<noteq> 0" using deferred(3) swept_fields(7) [OF deferred(2)] by simp
      moreover have "digi_maps_wf cfg2" using g by (simp add: digi_guard_def)
      then have "digi_maps_wf cfg'" by (simp add: deferred(6) digi_maps_wf_def hm.wf_insert)
      moreover have "e = (?h, now, m) \<or> e \<in> set (dc_pending_viscous cfg2)" if "e \<in> set (dc_pending_viscous cfg')" for e
        using that set_hm_insert [of ?h "(now, m)" "dc_pending_viscous cfg2"] by (auto simp: deferred(6))
      moreover have "dc_viscous_delay cfg' = dc_viscous_delay cfg2" "dc_dedup_ttl cfg' = dc_dedup_ttl cfg2" "digi_seen cfg' = digi_seen cfg2"
        by (simp_all add: deferred(6) digi_seen_def fun_eq_iff)
      ultimately show ?thesis using g unfolding digi_guard_def by fastforce
    next
      case (stamped cfg2)
      have g: "digi_guard H now cfg2" using guard_swept [OF g1 stamped(2)] .
      moreover have "dc_pending_viscous cfg2 = []" using g stamped(3) swept_fields(7) [OF stamped(2)] by (simp add: digi_guard_def)
      ultimately show ?thesis unfolding stamped(6)
        by (intro guard_change [OF g]) (simp_all add: digi_guard_def digi_maps_wf_def hm.wf_insert)
    qed (use g1 guard_swept in blast)+
  qed (use assms guard_swept in blast)+
  then show ?thesis using eq by simp
qed

lemma drain_ready_viscous_results:
  assumes "hm_wf (dc_pending_viscous cfg)"
  shows "fst (drain_ready_viscous cfg now) = map (snd \<circ> snd) (ready_entries cfg now)"
    and "dc_pending_viscous (snd (drain_ready_viscous cfg now)) =
       hm_retain (\<lambda>k (t, p). \<not> interval_elapsed now (dc_viscous_delay cfg) t) (dc_pending_viscous cfg)"
  by (rule drain_ready_viscous_spec [OF assms, of now], simp add: hm_retain_def case_prod_unfold)+

lemma ready_split:
  assumes "hm_wf (dc_pending_viscous cfg)" "(k, v) \<in> set (ready_entries cfg now)"
  shows "(k, v') \<notin> set (filter (\<lambda>(k, t, p). \<not> interval_elapsed now (dc_viscous_delay cfg) t) (dc_pending_viscous cfg))"
proof
  assume m: "(k, v') \<in> set (filter (\<lambda>(k, t, p). \<not> interval_elapsed now (dc_viscous_delay cfg) t) (dc_pending_viscous cfg))"
  then have "v' = v" using pending_get [OF assms(1), of k v] pending_get [OF assms(1), of k v'] assms(2)
    by (auto simp: ready_entries_def)
  then show False using m assms(2) by (auto simp: ready_entries_def)
qed

lemma guard_drain:
  assumes "digi_guard H now cfg"
  shows "digi_guard H now (snd (drain_ready_viscous cfg now))"
proof -
  have wf: "hm_wf (dc_pending_viscous cfg)" using assms by (simp add: digi_guard_def digi_maps_wf_def)
  let ?rdy = "ready_entries cfg now"
  let ?rem = "filter (\<lambda>(k, t, p). \<not> interval_elapsed now (dc_viscous_delay cfg) t) (dc_pending_viscous cfg)"
  from wf obtain cfg1 where sw: "swept now cfg cfg1" and eq: "drain_ready_viscous cfg now =
      (map (snd \<circ> snd) ?rdy, cfg1\<lparr>dc_dedup_cache := (if dc_dedup_ttl cfg \<noteq> 0
          then fold (\<lambda>e. hm_insert (fst e) now) ?rdy (dc_dedup_cache cfg1) else dc_dedup_cache cfg1),
        dc_pending_viscous := ?rem\<rparr>)"
    by (rule drain_ready_viscous_spec)
  have g: "digi_guard H now cfg1" using guard_swept [OF assms sw] .
  have "digi_maps_wf cfg" using assms by (simp add: digi_guard_def)
  then have w: "digi_maps_wf (snd (drain_ready_viscous cfg now))" using keeps_drain by (simp add: keeps_def)
  have "k \<notin> fst ` set ?rdy" if "(k, v) \<in> set ?rem" for k v using ready_split [OF wf] that by force
  then show ?thesis
    by (intro guard_change [OF g w]) (auto simp: eq swept_fields [OF sw] digi_seen_def fold_insert_get split: if_splits)
qed

lemma guard_step: "digi_guard H now cfg \<Longrightarrow> now \<le> digi_at op \<Longrightarrow> digi_guard H (digi_at op) (digi_step H op cfg)"
  using guard_later [of H now cfg "digi_at op"] guard_process guard_drain by (cases op) auto

lemma out_ready:
  assumes "digi_guard H now cfg" "q \<in> set (digi_out H (OpDrain t) cfg)"
  obtains t' where "(hash_packet_identity H q, t', q) \<in> set (ready_entries cfg t)"
proof -
  have "hm_wf (dc_pending_viscous cfg)" using assms(1) by (simp add: digi_guard_def digi_maps_wf_def)
  then obtain k t' where e: "(k, t', q) \<in> set (ready_entries cfg t)"
    using assms(2) drain_ready_viscous_results(1) by fastforce
  then have "k = hash_packet_identity H q" using assms(1) by (auto simp: digi_guard_def ready_entries_def)
  then show thesis using e that by blast
qed

text \<open>A transmission is recorded, and what was recorded within the window is not transmitted.\<close>

lemma out_stamped:
  assumes "digi_guard H now cfg" "q \<in> set (digi_out H op cfg)" "dc_dedup_ttl cfg \<noteq> 0"
  shows "digi_seen (digi_step H op cfg) (hash_packet_identity H q) = Some (digi_at op)"
proof (cases op)
  case (OpProcess p t)
  obtain cfg' where eq: "DigipeaterConfig_process H cfg p t = (Relay q, cfg')"
    using assms(2) OpProcess by (cases "DigipeaterConfig_process H cfg p t") (auto split: DigiAction.splits)
  then show ?thesis using process_relay_stamps [OF eq] assms(3) relay_candidate_hash OpProcess by fastforce
next
  case (OpDrain t)
  obtain t' where r: "(hash_packet_identity H q, t', q) \<in> set (ready_entries cfg t)"
    using out_ready [OF assms(1)] assms(2) OpDrain by blast
  have "hm_wf (dc_pending_viscous cfg)" using assms(1) by (simp add: digi_guard_def digi_maps_wf_def)
  then show ?thesis
    by (rule drain_ready_viscous_spec [of cfg t]) (use OpDrain r assms(3) in \<open>force simp: digi_seen_def fold_insert_get\<close>)
qed

lemma out_not_fresh:
  assumes "digi_guard H now cfg" "now \<le> digi_at op" "q \<in> set (digi_out H op cfg)"
    "digi_seen cfg (hash_packet_identity H q) = Some s"
  shows "s + dc_dedup_ttl cfg \<le> digi_at op"
proof (cases op)
  case (OpProcess p t)
  obtain cfg' where eq: "DigipeaterConfig_process H cfg p t = (Relay q, cfg')"
    using assms(3) OpProcess by (cases "DigipeaterConfig_process H cfg p t") (auto split: DigiAction.splits)
  have "hash_packet_identity H q = hash_packet_identity H p"
    using relay_candidate_hash process_relay_stamps(1) [OF eq] by blast
  moreover have "digi_maps_wf cfg" using assms(1) by (simp add: digi_guard_def)
  ultimately have "\<not> fresh t (dc_dedup_ttl cfg) s" using process_fresh_duplicate [of cfg H p s t] assms(4) eq by auto
  then show ?thesis using OpProcess by (auto simp: fresh_iff)
next
  case (OpDrain t)
  obtain t' where r: "(hash_packet_identity H q, t', q) \<in> set (ready_entries cfg t)"
    using out_ready [OF assms(1)] assms(3) OpDrain by blast
  then have "s + dc_dedup_ttl cfg \<le> now" using assms(1,4) by (auto simp: digi_guard_def ready_entries_def)
  then show ?thesis using assms(2) by simp
qed

lemma digi_step_ttl: "digi_guard H now cfg \<Longrightarrow> dc_dedup_ttl (digi_step H op cfg) = dc_dedup_ttl cfg"
  using keeps_process [of cfg] keeps_drain [of cfg] by (cases op) (auto simp: digi_guard_def keeps_def)

lemma transmissions_after: "sorted (now # map digi_at ops) \<Longrightarrow> (t, q) \<in> set (transmissions H ops cfg) \<Longrightarrow> now \<le> t"
proof (induction ops arbitrary: cfg now)
  case (Cons op ops)
  have "now \<le> digi_at op" "sorted (digi_at op # map digi_at ops)" using Cons.prems(1) by auto
  then show ?case using Cons.IH [of "digi_at op" "digi_step H op cfg"] Cons.prems(2) by auto
qed simp

lemma window_respected:
  assumes "digi_guard H now cfg" "sorted (now # map digi_at ops)" "digi_seen cfg (hash_packet_identity H q) = Some s"
    "(t, q) \<in> set (transmissions H ops cfg)" "s \<le> now"
  shows "s + dc_dedup_ttl cfg \<le> t"
  using assms
proof (induction ops arbitrary: cfg now s)
  case (Cons op ops)
  let ?k = "hash_packet_identity H q" and ?c = "digi_step H op cfg"
  have now: "now \<le> digi_at op" "sorted (digi_at op # map digi_at ops)" using Cons.prems(2) by auto
  have t: "digi_at op \<le> t" using transmissions_after [OF Cons.prems(2), of t q H cfg] Cons.prems(4)
    transmissions_after [OF now(2), of t q H ?c] by auto
  show ?case
  proof (cases "s + dc_dedup_ttl cfg \<le> digi_at op")
    case False
    then have "q \<notin> set (digi_out H op cfg)" using out_not_fresh [OF Cons.prems(1) now(1) _ Cons.prems(3)] by blast
    then have tr: "(t, q) \<in> set (transmissions H ops ?c)" using Cons.prems(4) by auto
    have "digi_maps_wf cfg" using Cons.prems(1) by (simp add: digi_guard_def)
    then have "keeps (digi_at op) cfg ?c" by (cases op) (simp_all add: keeps_process keeps_drain)
    moreover have "fresh (digi_at op) (dc_dedup_ttl cfg) s" using False by (auto simp: fresh_iff)
    ultimately obtain s' where s': "digi_seen ?c ?k = Some s'" "s' = s \<or> s' = digi_at op"
      using Cons.prems(3) unfolding keeps_def by blast
    have "s' + dc_dedup_ttl ?c \<le> t"
      by (rule Cons.IH [OF guard_step [OF Cons.prems(1) now(1)] now(2) s'(1) tr]) (use s'(2) Cons.prems(5) now(1) in auto)
    then show ?thesis using s'(2) Cons.prems(5) now(1) digi_step_ttl [OF Cons.prems(1)] by auto
  qed (use t in simp)
qed simp

definition spaced :: "duration \<Rightarrow> instant \<times> Ax25Packet \<Rightarrow> instant \<times> Ax25Packet \<Rightarrow> bool" where
  "spaced ttl x y \<longleftrightarrow> packet_identity (snd x) = packet_identity (snd y) \<longrightarrow> fst x + ttl \<le> fst y"

lemma out_distinct:
  assumes "digi_guard H now cfg"
  shows "distinct (map (hash_packet_identity H) (digi_out H op cfg))"
proof (cases op)
  case (OpDrain t)
  have wf: "hm_wf (dc_pending_viscous cfg)" using assms by (simp add: digi_guard_def digi_maps_wf_def)
  have "map (hash_packet_identity H) (map (snd \<circ> snd) (ready_entries cfg t)) = map fst (ready_entries cfg t)"
    using assms by (auto simp: digi_guard_def ready_entries_def)
  then show ?thesis using wf OpDrain drain_ready_viscous_results(1) [OF wf, of t]
    by (simp add: ready_entries_def hm_wf_def distinct_map_filter del: map_map)
qed (simp split: DigiAction.splits)

lemma transmissions_spaced:
  assumes "digi_guard H now cfg" "sorted (now # map digi_at ops)"
  shows "sorted_wrt (spaced (dc_dedup_ttl cfg)) (transmissions H ops cfg)"
  using assms
proof (induction ops arbitrary: cfg now)
  case (Cons op ops)
  let ?c = "digi_step H op cfg" and ?o = "digi_out H op cfg"
  have now: "now \<le> digi_at op" "sorted (digi_at op # map digi_at ops)" using Cons.prems(2) by auto
  have g: "digi_guard H (digi_at op) ?c" using guard_step [OF Cons.prems(1) now(1)] .
  have ttl: "dc_dedup_ttl ?c = dc_dedup_ttl cfg" using digi_step_ttl [OF Cons.prems(1)] .
  have "sorted_wrt (spaced (dc_dedup_ttl cfg)) (map (Pair (digi_at op)) xs)"
    if "distinct (map (hash_packet_identity H) xs)" for xs
    using that
  proof (induction xs)
    case (Cons x xs)
    have "packet_identity x \<noteq> packet_identity y" if "y \<in> set xs" for y
      using Cons.prems that by (auto simp: hash_packet_identity_def image_iff)
    then show ?case using Cons by (auto simp: spaced_def)
  qed simp
  then have "sorted_wrt (spaced (dc_dedup_ttl cfg)) (map (Pair (digi_at op)) ?o)" using out_distinct [OF Cons.prems(1)] by blast
  moreover have "spaced (dc_dedup_ttl cfg) (digi_at op, x) (t, y)" if "x \<in> set ?o" "(t, y) \<in> set (transmissions H ops ?c)" for x t y
  proof (cases "dc_dedup_ttl cfg = 0 \<or> packet_identity x \<noteq> packet_identity y")
    case True
    then show ?thesis using transmissions_after [OF now(2) that(2)] by (auto simp: spaced_def)
  next
    case False
    then have "digi_seen ?c (hash_packet_identity H y) = Some (digi_at op)"
      using out_stamped [OF Cons.prems(1) that(1)] by (simp add: hash_packet_identity_def)
    from window_respected [OF g now(2) this that(2)] show ?thesis using ttl by (simp add: spaced_def)
  qed
  ultimately show ?case using Cons.IH [OF g now(2)] ttl by (auto simp: sorted_wrt_append)
qed simp

text \<open>C22. Transmitted once per window. Through any run of a station that starts without history, frames received
  and drains interleaved in any way at instants that do not go back, two frames handed out for
  transmission with the same source, destination and information, at once or after a viscous delay, are at
  least a duplicate window apart.\<close>

theorem digi_relays_once:
  assumes "dc_dedup_cache cfg = []" "dc_pending_viscous cfg = []" "sorted (map digi_at ops)"
    "i < j" "j < length (transmissions H ops cfg)"
    "packet_identity (snd (transmissions H ops cfg ! i)) = packet_identity (snd (transmissions H ops cfg ! j))"
  shows "fst (transmissions H ops cfg ! i) + dc_dedup_ttl cfg \<le> fst (transmissions H ops cfg ! j)"
proof -
  have "digi_guard H 0 cfg" using assms(1,2) by (simp add: digi_guard_def digi_maps_wf_def hm_wf_def)
  from transmissions_spaced [OF this] have "sorted_wrt (spaced (dc_dedup_ttl cfg)) (transmissions H ops cfg)"
    using assms(3) by simp
  then show ?thesis using assms(4-6) by (auto simp: sorted_wrt_iff_nth_less spaced_def)
qed

text \<open>A station with a delay of two nanoseconds and a window of ten: the frame is deferred, transmitted by the
  drain, refused when it comes back, and deferred and transmitted again after the window.\<close>

definition sample_viscous :: DigipeaterConfig where
  "sample_viscous = sample_digi\<lparr>dc_viscous_delay := 2, dc_dedup_ttl := 10\<rparr>"

definition sample_digi_run :: "digi_op list" where
  "sample_digi_run = [OpProcess sample_ui 0, OpDrain 3, OpProcess sample_ui 5, OpProcess sample_ui 13, OpDrain 15]"

lemma sample_transmissions:
  "transmissions (\<lambda>_. 0) sample_digi_run sample_viscous = [(3, sample_relayed), (15, sample_relayed)]"
  by (simp add: sample_digi_run_def sample_viscous_def DigipeaterConfig_process_def Let_def sample_digi_defs DigipeaterConfig_new_def
      Ax25Packet_unnumbered_information_def Ax25Packet_is_ui_def Ax25Control_is_ui_def own_callsign_already_relayed_def
      prune_dedup_def hm_retain_def hm_get_def is_used_digi_def alias_action_def apply_uidigipeat_def drain_ready_viscous_def
      record_relay_def has_dedup_capacity_def interval_elapsed_iff fresh_iff checked_duration_since_def
      hm_len_def hm_insert_def usize_saturating_add_def usize_max_def DigipeaterLimits_DEFAULT_def hash_packet_identity_def
      with_digipeaters_def)

theorem digi_relays_once_witness:
  "fst (transmissions (\<lambda>_. 0) sample_digi_run sample_viscous ! 0) + dc_dedup_ttl sample_viscous
     \<le> fst (transmissions (\<lambda>_. 0) sample_digi_run sample_viscous ! 1)"
  by (rule digi_relays_once [where H = "\<lambda>_. 0" and ops = sample_digi_run and cfg = sample_viscous and i = 0 and j = 1])
     (simp_all add: sample_transmissions, simp_all add: sample_digi_run_def sample_viscous_def sample_digi_def DigipeaterConfig_new_def)

text \<open>Bounded state. In every configuration reachable through the public operations, the
  duplicate identities and the deferred relays together fit \<open>dedup_entries\<close>, the deferred relays
  fit \<open>pending_relays\<close>, and every deferred frame is well-formed.\<close>

lemma digi_state_bounded:
  assumes "digi_reachable H cfg"
  shows "hm_len (dc_dedup_cache cfg) + hm_len (dc_pending_viscous cfg) \<le> dl_dedup_entries (dc_limits cfg) \<and>
    hm_len (dc_pending_viscous cfg) \<le> dl_pending_relays (dc_limits cfg) \<and>
    (\<forall>(k, t, p) \<in> set (dc_pending_viscous cfg). Ax25Packet_wf p)"
  using digi_reachable_inv [OF assms] by (simp add: DigipeaterConfig_inv_def)

text \<open>A frame passes from station to station when one relays it at once or defers it for a later
  drain.\<close>

inductive relay_step :: "(bytes \<Rightarrow> u64) \<Rightarrow> Ax25Packet \<Rightarrow> Ax25Packet \<Rightarrow> bool" for H where
  immediate: "DigipeaterConfig_process H cfg p now = (Relay q, cfg') \<Longrightarrow> relay_step H p q"
| deferred: "dc_viscous_delay cfg \<noteq> 0 \<Longrightarrow> DigipeaterConfig_process H cfg p now = (Drop, cfg') \<Longrightarrow>
    hm_get (dc_pending_viscous cfg') (hash_packet_identity H p) = Some (now, q) \<Longrightarrow> relay_step H p q"

lemma process_deferred:
  assumes "dc_viscous_delay cfg \<noteq> 0" and "DigipeaterConfig_process H cfg p now = (Drop, cfg')"
    and "hm_get (dc_pending_viscous cfg') (hash_packet_identity H p) = Some v"
  obtains q where "v = (now, q)" "relay_candidate cfg p q" "swept now cfg (cfg'\<lparr>dc_pending_viscous := dc_pending_viscous cfg\<rparr>)"
    "\<And>t. hm_wf (dc_dedup_cache cfg) \<Longrightarrow> hm_get (dc_dedup_cache cfg') (hash_packet_identity H p) = Some t \<Longrightarrow>
       \<not> fresh now (dc_dedup_ttl cfg) t"
  using assms(2)
proof (cases rule: process_cases)
  case (candidate cfg1 m)
  note sw1 = candidate(1)
  from candidate(3) show ?thesis
  proof (cases rule: record_relay_cases)
    case (deferred cfg2)
    have sw: "swept now cfg cfg2" using sw1 deferred(2) by (rule swept_trans)
    have "cfg'\<lparr>dc_pending_viscous := dc_pending_viscous cfg\<rparr> = cfg2"
      using deferred(6) swept_fields(8) [OF sw] by simp
    moreover have "\<not> fresh now (dc_dedup_ttl cfg) t"
      if "hm_wf (dc_dedup_cache cfg)" "hm_get (dc_dedup_cache cfg') (hash_packet_identity H p) = Some t" for t
    proof -
      have "hm_get (dc_dedup_cache cfg2) (hash_packet_identity H p) = Some t" using that(2) deferred(6) by simp
      with swept_cache(4) [OF deferred(2) swept_cache(1) [OF sw1 that(1)]] candidate(4) show ?thesis by blast
    qed
    ultimately show ?thesis
      using that [of m] sw candidate(2) assms(3) deferred(6) by (simp add: hm.lookup_insert)
  qed (use assms(1) swept_fields [OF sw1] in simp_all)
qed (use assms in simp_all)

lemma relay_step_budget:
  assumes "relay_step H p q"
  shows "hop_budget (path_of q) < hop_budget (path_of p)"
  using assms
proof (cases rule: relay_step.cases)
  case (immediate cfg now cfg')
  then show ?thesis by (intro relay_candidate_budget) (rule process_relay_stamps(1))
next
  case (deferred cfg now cfg')
  then show ?thesis by (rule process_deferred) (simp add: relay_candidate_budget)
qed

lemma hop_budget_wf: "Ax25Packet_wf p \<Longrightarrow> hop_budget (path_of p) \<le> 15 * length (path_of p)"
proof -
  have "\<forall>e \<in> set path. RouteEntry_wf e \<Longrightarrow> hop_budget path \<le> 15 * length path" for path
  proof (induction path)
    case (Cons e path)
    have "unat (Ssid_get (aa_ssid (re_address e))) \<le> 15"
      using Cons.prems by (auto simp: RouteEntry_wf_def Ax25Address_wf_def Ssid_wf_def word_le_nat_alt)
    then have "entry_hops e \<le> 15" by (simp add: entry_hops_def)
    with Cons show ?case by (simp add: hop_budget_def)
  qed (simp add: hop_budget_def)
  then show "Ax25Packet_wf p \<Longrightarrow> hop_budget (path_of p) \<le> 15 * length (path_of p)"
    by (simp add: Ax25Packet_wf_def Ax25Header_wf_def DigipeaterPath_wf_def)
qed

text \<open>C38. Flooding dies out. However many stations, however configured, pass a frame on, at once or
  through their deferral queues, it is transmitted at most as often as its path asks for: \<open>N\<close> times
  for an unused entry with SSID \<open>N\<close>, such as \<open>WIDE2-2\<close>, and once for an unused entry without SSID.
  (Any entry may be a flooding alias of some station.) A well-formed path of eight entries with
  SSIDs up to 15 allows 120 transmissions in a row.\<close>

theorem digi_flood_terminates:
  assumes "Ax25Packet_wf p" and "(relay_step H ^^ n) p q"
  shows "n + hop_budget (path_of q) \<le> hop_budget (path_of p) \<and> n \<le> 120"
proof -
  have "n + hop_budget (path_of q) \<le> hop_budget (path_of p)"
    using assms(2)
  proof (induction n arbitrary: q)
    case (Suc n)
    then obtain r where "(relay_step H ^^ n) p r" "relay_step H r q" by auto
    with Suc.IH [of r] relay_step_budget [of H r q] show ?case by simp
  qed simp
  moreover have "hop_budget (path_of p) \<le> 120"
    using hop_budget_wf [OF assms(1)] assms(1)
    by (simp add: Ax25Packet_wf_def Ax25Header_wf_def DigipeaterPath_wf_def MAX_DIGIPEATERS_def)
  ultimately show ?thesis by simp
qed

theorem digi_flood_terminates_witness:
  "1 + hop_budget (path_of sample_relayed) \<le> hop_budget (path_of sample_ui) \<and> (1::nat) \<le> 120"
proof -
  have "(relay_step (\<lambda>_. 0) ^^ Suc 0) sample_ui sample_relayed"
    by (rule relpowp_Suc_I [where P = "relay_step (\<lambda>_. 0)" and n = 0 and y = sample_ui])
       (simp, rule relay_step.immediate [OF sample_digi_process])
  from digi_flood_terminates [OF sample_ui_wf this] show ?thesis by simp
qed

lemma process_heard_again:
  assumes wf: "hm_wf (dc_dedup_cache cfg)" "hm_wf (dc_pending_viscous cfg)" and "dc_viscous_delay cfg \<noteq> 0"
    and pend: "hm_get (dc_pending_viscous cfg) (hash_packet_identity H p) \<noteq> None"
    and stale: "\<And>t. hm_get (dc_dedup_cache cfg) (hash_packet_identity H p) = Some t \<Longrightarrow> \<not> fresh now (dc_dedup_ttl cfg) t"
    and "Ax25Packet_is_ui p" "pk_protocol p = Some NoLayer3"
    and "\<not> own_callsign_already_relayed (dc_callsign cfg) (path_of p)"
  shows "fst (DigipeaterConfig_process H cfg p now) = Duplicate \<and>
    hm_get (dc_pending_viscous (snd (DigipeaterConfig_process H cfg p now))) (hash_packet_identity H p) = None"
proof -
  obtain a cfg' where eq: "DigipeaterConfig_process H cfg p now = (a, cfg')" by fastforce
  then show ?thesis
  proof (cases rule: process_cases)
    case (duplicate t)
    with stale swept_cache(4) [OF duplicate(2) wf(1)] show ?thesis by auto
  next
    case (cancelled cfg3)
    with eq show ?thesis
      using hm.lookup_remove [OF wf(2)] by (simp add: Let_def swept_fields(8) [OF cancelled(2)])
  next
    case not_ui
    with assms(6,7) show ?thesis by simp
  next
    case refused
    with assms(3) pend swept_fields(8) [OF refused(2)] show ?thesis by simp
  next
    case (candidate cfg1 m)
    with assms(3) pend show ?thesis by simp
  next
    case looped
    with assms(8) show ?thesis by simp
  qed
qed

text \<open>Viscous relaying. With a viscous delay, a frame deferred at \<open>t0\<close> is handed out by every
  drain from \<open>t0\<close> plus the delay on, and not before; if the same frame is heard again first (from
  another digipeater), it is reported as a duplicate and the deferred relay is withdrawn.\<close>

lemma digi_viscous_deferral:
  assumes "DigipeaterConfig_inv cfg" and "Ax25Packet_wf p" and "dc_viscous_delay cfg \<noteq> 0"
    and "DigipeaterConfig_process H cfg p t0 = (Drop, cfg1)"
    and "hm_get (dc_pending_viscous cfg1) (hash_packet_identity H p) = Some (t0, q)"
  shows "(t0 + dc_viscous_delay cfg \<le> t1 \<longrightarrow> q \<in> set (fst (drain_ready_viscous cfg1 t1))) \<and>
    (t1 < t0 + dc_viscous_delay cfg \<longrightarrow>
       hm_get (dc_pending_viscous (snd (drain_ready_viscous cfg1 t1))) (hash_packet_identity H p) = Some (t0, q)) \<and>
    (t0 \<le> t1 \<and> packet_identity p' = packet_identity p \<and> Ax25Packet_is_ui p' \<and> pk_protocol p' = Some NoLayer3 \<and>
     \<not> own_callsign_already_relayed (dc_callsign cfg) (path_of p') \<longrightarrow>
       fst (DigipeaterConfig_process H cfg1 p' t1) = Duplicate \<and>
       hm_get (dc_pending_viscous (snd (DigipeaterConfig_process H cfg1 p' t1))) (hash_packet_identity H p) = None)"
proof -
  let ?h = "hash_packet_identity H p"
  have inv1: "DigipeaterConfig_inv cfg1" using inv_process [OF assms(1,2,4)] .
  then have wf1: "hm_wf (dc_pending_viscous cfg1)" "hm_wf (dc_dedup_cache cfg1)"
    by (simp_all add: DigipeaterConfig_inv_def)
  have "hm_wf (dc_dedup_cache cfg)" using assms(1) by (simp add: DigipeaterConfig_inv_def)
  then have sw: "swept t0 cfg (cfg1\<lparr>dc_pending_viscous := dc_pending_viscous cfg\<rparr>)"
    and stale: "\<And>t. hm_get (dc_dedup_cache cfg1) ?h = Some t \<Longrightarrow> \<not> fresh t0 (dc_dedup_ttl cfg) t"
    by (auto intro: process_deferred [OF assms(3,4,5)])
  have flds: "dc_viscous_delay cfg1 = dc_viscous_delay cfg" "dc_dedup_ttl cfg1 = dc_dedup_ttl cfg"
    "dc_callsign cfg1 = dc_callsign cfg" using sw by (simp_all add: swept_def)
  have mem: "(?h, t0, q) \<in> set (dc_pending_viscous cfg1)"
    using assms(5) by (auto simp: hm_get_def dest: map_of_SomeD)
  note drain = drain_ready_viscous_results [OF wf1(1), of t1]
  have "t0 + dc_viscous_delay cfg \<le> t1 \<longrightarrow> q \<in> set (fst (drain_ready_viscous cfg1 t1))"
    using mem by (force simp: drain(1) ready_entries_def interval_elapsed_iff flds)
  moreover have "t1 < t0 + dc_viscous_delay cfg \<longrightarrow>
      hm_get (dc_pending_viscous (snd (drain_ready_viscous cfg1 t1))) ?h = Some (t0, q)"
    unfolding drain(2) by (intro impI hm.lookup_retain_keep [OF wf1(1) assms(5)]) (simp add: interval_elapsed_iff flds)
  moreover have "fst (DigipeaterConfig_process H cfg1 p' t1) = Duplicate \<and>
       hm_get (dc_pending_viscous (snd (DigipeaterConfig_process H cfg1 p' t1))) ?h = None"
    if heard: "t0 \<le> t1 \<and> packet_identity p' = packet_identity p \<and> Ax25Packet_is_ui p' \<and> pk_protocol p' = Some NoLayer3 \<and>
     \<not> own_callsign_already_relayed (dc_callsign cfg) (path_of p')"
  proof -
    have h: "hash_packet_identity H p' = ?h" using heard by (simp add: hash_packet_identity_def)
    have still: "\<not> fresh t1 (dc_dedup_ttl cfg) t" if "hm_get (dc_dedup_cache cfg1) ?h = Some t" for t
      using stale [OF that] heard by (auto simp: fresh_iff)
    show ?thesis
      using process_heard_again [OF wf1(2,1), of H p' t1] heard assms(3,5) flds h still by simp
  qed
  ultimately show ?thesis by blast
qed

end
