(* ===== verification/Aprs_Message.thy ===== *)
theory Aprs_Message
  imports Ax25_Frame Kiss_Frame
begin

unbundle bit_operations_syntax

text \<open>
  APRS messages: identifiers (\<open>aprs/src/units.rs\<close>), validated text fields (\<open>aprs/src/text.rs\<close>),
  the message parser with its identifier and reply-ack trailers and the bulletin classification
  (\<open>aprs/src/message.rs\<close>), and the builders that put a message into an AX.25 UI frame and a KISS
  data frame (\<open>aprs/src/build.rs\<close>). A \<open>str\<close> is its UTF-8 bytes.
\<close>

section \<open>Errors\<close>

datatype AprsTextField =
    TF_MessageAddressee | TF_MessageText | TF_BulletinText | TF_StatusText | TF_TimestampedStatusText
  | TF_WeatherComment | TF_PositionReportText | TF_CompressedPositionText | TF_MiceStatusText | TF_ObjectName
  | TF_ItemName | TF_QueryText

text \<open>\<open>NonAscii\<close> keeps the byte index of the offending character, not the decoded character.\<close>

datatype AprsTextError =
    TextEmpty AprsTextField
  | TextTooLong AprsTextField nat nat
  | TextNonAscii AprsTextField nat
  | TextNonPrintableAscii AprsTextField nat u8
  | TextReservedCharacter AprsTextField nat u8
  | TextAmbiguousAddresseePadding nat

datatype MessageIdError = IdLength nat | IdInvalidByte nat u8

datatype AprsWireTextField =
    WF_MessageAddressee | WF_MessageBody | WF_ObjectName | WF_ObjectTimestamp | WF_QueryBody | WF_StatusBody
  | WF_TelemetryBody | WF_PositionTimestamp | WF_UncompressedPositionComment | WF_CompressedPositionComment
  | WF_MiceComment | WF_WeatherTimestamp | WF_WeatherComment | WF_ThirdPartyHeader | WF_MaidenheadGrid
  | WF_NmeaSentence | WF_StationCapabilities

text \<open>The errors the message and messenger modules raise.\<close>

datatype AprsError =
    InvalidFormat
  | InvalidTextByte AprsWireTextField nat u8
  | MessageTooLong nat nat
  | InvalidMessageId MessageIdError
  | PendingMessageCapacity nat
  | IncomingMessageCapacity nat
  | InvalidMessengerInterval
  | UnknownPendingMessage
  | MessageRetryNotDue
  | MessageAttemptsExhausted

datatype MessageValueError =
    InvalidBulletinNumber u8
  | InvalidAnnouncementLetter u8
  | InvalidBulletinGroup
  | ExpectedDirectAddressee
  | ExpectedBulletinAddressee
  | AddresseeError AprsTextError
  | MissingMessageId

section \<open>String operations\<close>

text \<open>\<open>strip_prefix\<close>, \<open>starts_with\<close>, \<open>rfind\<close> and the left-justified \<open>{:<n}\<close>.\<close>

definition strip_prefix :: "bytes \<Rightarrow> bytes \<Rightarrow> bytes option" where
  "strip_prefix p s = (if take (length p) s = p then Some (drop (length p) s) else None)"

definition starts_with :: "bytes \<Rightarrow> bytes \<Rightarrow> bool" where
  "starts_with p s \<longleftrightarrow> take (length p) s = p"

definition rfind :: "('a \<Rightarrow> bool) \<Rightarrow> 'a list \<Rightarrow> nat option" where
  "rfind P xs = map_option (\<lambda>i. length xs - 1 - i) (position P (rev xs))"

definition left_pad :: "nat \<Rightarrow> bytes \<Rightarrow> bytes" where
  "left_pad n s = s @ replicate (n - length s) 0x20"

definition is_ascii_byte :: "u8 \<Rightarrow> bool" where
  "is_ascii_byte b \<longleftrightarrow> b < 0x80"

definition is_ascii_graphic :: "u8 \<Rightarrow> bool" where
  "is_ascii_graphic b \<longleftrightarrow> 0x21 \<le> b \<and> b \<le> 0x7E"

lemma strip_prefix_append [simp]: "strip_prefix p (p @ s) = Some s"
  by (simp add: strip_prefix_def)

lemma strip_prefix_SomeD: "strip_prefix p s = Some r \<Longrightarrow> s = p @ r"
  unfolding strip_prefix_def by (metis append_take_drop_id option.distinct(1) option.inject)

lemma rfind_None_iff: "rfind P xs = None \<longleftrightarrow> (\<forall>x \<in> set xs. \<not> P x)"
  by (simp add: rfind_def position_None_iff)

lemma rfind_append: "P c \<Longrightarrow> \<forall>x \<in> set s. \<not> P x \<Longrightarrow> rfind P (xs @ c # s) = Some (length xs)"
  using position_append_hit [of "rev s" P c "rev xs"] by (simp add: rfind_def)

section \<open>Message identifiers\<close>

datatype MessageId = MessageId (MessageId_as_str: bytes)

definition MessageId_MAX_LEN :: nat where "MessageId_MAX_LEN = 5"

definition MessageId_validate :: "bytes \<Rightarrow> AprsError + unit" where
  "MessageId_validate text =
     (if text = [] \<or> length text > MessageId_MAX_LEN then Err (InvalidMessageId (IdLength (length text)))
      else (case find_enumerate (\<lambda>byte. \<not> is_ascii_alphanumeric byte) text of
              Some (index, byte) \<Rightarrow> Err (InvalidMessageId (IdInvalidByte index byte))
            | None \<Rightarrow> Ok ()))"

definition MessageId_new :: "bytes \<Rightarrow> AprsError + MessageId" where
  "MessageId_new value = (case MessageId_validate value of Inl e \<Rightarrow> Err e | Inr _ \<Rightarrow> Ok (MessageId value))"

text \<open>The argument is a \<open>NonZeroU16\<close>.\<close>

definition MessageId_from_sequence_number :: "nat \<Rightarrow> MessageId" where
  "MessageId_from_sequence_number sequence = MessageId (display_nat sequence)"

definition MessageId_wf :: "MessageId \<Rightarrow> bool" where
  "MessageId_wf m \<longleftrightarrow> MessageId_as_str m \<noteq> [] \<and> length (MessageId_as_str m) \<le> 5 \<and>
     (\<forall>b \<in> set (MessageId_as_str m). is_ascii_alphanumeric b)"

lemma MessageId_new_Ok_iff: "MessageId_new v = Ok m \<longleftrightarrow> m = MessageId v \<and> MessageId_wf m"
  by (auto simp: MessageId_new_def MessageId_validate_def MessageId_wf_def MessageId_MAX_LEN_def
      find_enumerate_None_iff split: option.splits if_splits)
     (auto simp: find_enumerate_def position_Some_iff)

section \<open>Text fields\<close>

definition validate_printable_ascii :: "bytes \<Rightarrow> AprsTextField \<Rightarrow> nat \<Rightarrow> bool \<Rightarrow> AprsTextError + unit" where
  "validate_printable_ascii value field maximum allow_empty =
     (if \<not> allow_empty \<and> value = [] then Err (TextEmpty field)
      else (case position (\<lambda>b. \<not> is_ascii_byte b) value of
        Some index \<Rightarrow> Err (TextNonAscii field index)
      | None \<Rightarrow>
          (if length value > maximum then Err (TextTooLong field maximum (length value))
           else (case find_enumerate (\<lambda>b. \<not> is_printable_ascii b) value of
             Some (index, byte) \<Rightarrow> Err (TextNonPrintableAscii field index byte)
           | None \<Rightarrow> Ok ()))))"

definition validate_not_reserved :: "bytes \<Rightarrow> AprsTextField \<Rightarrow> bytes \<Rightarrow> AprsTextError + unit" where
  "validate_not_reserved value field reserved =
     (case find_enumerate (\<lambda>byte. byte \<in> set reserved) value of
        Some (index, byte) \<Rightarrow> Err (TextReservedCharacter field index byte)
      | None \<Rightarrow> Ok ())"

datatype MessageAddressee = MessageAddressee (MessageAddressee_as_str: bytes)

definition MessageAddressee_MAX_LEN :: nat where "MessageAddressee_MAX_LEN = 9"

definition validate_message_addressee :: "bytes \<Rightarrow> AprsTextError + unit" where
  "validate_message_addressee value =
     (case validate_printable_ascii value TF_MessageAddressee MessageAddressee_MAX_LEN False of
        Inl e \<Rightarrow> Err e
      | Inr _ \<Rightarrow>
          (case position (\<lambda>byte. byte = 0x20) value of
             Some index \<Rightarrow> Err (TextAmbiguousAddresseePadding index)
           | None \<Rightarrow> Ok ()))"

definition MessageAddressee_new :: "bytes \<Rightarrow> AprsTextError + MessageAddressee" where
  "MessageAddressee_new value =
     (case validate_message_addressee value of Inl e \<Rightarrow> Err e | Inr _ \<Rightarrow> Ok (MessageAddressee value))"

datatype MessageText = MessageText (MessageText_as_str: bytes)

definition MessageText_MAX_LEN :: nat where "MessageText_MAX_LEN = 67"

definition validate_message_text :: "bytes \<Rightarrow> AprsTextError + unit" where
  "validate_message_text value =
     (case validate_printable_ascii value TF_MessageText MessageText_MAX_LEN True of
        Inl e \<Rightarrow> Err e
      | Inr _ \<Rightarrow> validate_not_reserved value TF_MessageText [0x7C, 0x7E, 0x7B])"

definition MessageText_new :: "bytes \<Rightarrow> AprsTextError + MessageText" where
  "MessageText_new value =
     (case validate_message_text value of Inl e \<Rightarrow> Err e | Inr _ \<Rightarrow> Ok (MessageText value))"

definition MessageText_acknowledgement :: "MessageId \<Rightarrow> MessageText" where
  "MessageText_acknowledgement message_id = MessageText ([0x61, 0x63, 0x6B] @ MessageId_as_str message_id)"

definition MessageText_rejection :: "MessageId \<Rightarrow> MessageText" where
  "MessageText_rejection message_id = MessageText ([0x72, 0x65, 0x6A] @ MessageId_as_str message_id)"

datatype BulletinText = BulletinText (BulletinText_as_str: bytes)

definition BulletinText_MAX_LEN :: nat where "BulletinText_MAX_LEN = 67"

definition validate_bulletin_text :: "bytes \<Rightarrow> AprsTextError + unit" where
  "validate_bulletin_text value =
     (case validate_printable_ascii value TF_BulletinText BulletinText_MAX_LEN True of
        Inl e \<Rightarrow> Err e
      | Inr _ \<Rightarrow> validate_not_reserved value TF_BulletinText [0x7C, 0x7E])"

definition BulletinText_new :: "bytes \<Rightarrow> AprsTextError + BulletinText" where
  "BulletinText_new value =
     (case validate_bulletin_text value of Inl e \<Rightarrow> Err e | Inr _ \<Rightarrow> Ok (BulletinText value))"

definition decode_wire_ascii :: "AprsWireTextField \<Rightarrow> bytes \<Rightarrow> AprsError + bytes" where
  "decode_wire_ascii field bs =
     (case find_enumerate (\<lambda>byte. \<not> is_ascii_byte byte) bs of
        Some (index, byte) \<Rightarrow> Err (InvalidTextByte field index byte)
      | None \<Rightarrow> Ok bs)"

section \<open>Bulletins and destination roles\<close>

datatype BulletinNumber = BulletinNumber u8

definition BulletinNumber_new :: "u8 \<Rightarrow> MessageValueError + BulletinNumber" where
  "BulletinNumber_new value = (if value > 9 then Err (InvalidBulletinNumber value) else Ok (BulletinNumber value))"

text \<open>The letter is an ASCII character here: the only caller passes \<open>char::from(byte)\<close>.\<close>

datatype AnnouncementLetter = AnnouncementLetter u8

definition AnnouncementLetter_new :: "u8 \<Rightarrow> MessageValueError + AnnouncementLetter" where
  "AnnouncementLetter_new value =
     (if \<not> is_ascii_uppercase value then Err (InvalidAnnouncementLetter value) else Ok (AnnouncementLetter value))"

datatype BulletinGroup = BulletinGroup bytes

definition BulletinGroup_new :: "bytes \<Rightarrow> MessageValueError + BulletinGroup" where
  "BulletinGroup_new value =
     (if \<not> (1 \<le> length value \<and> length value \<le> 5) \<or> \<not> list_all is_ascii_graphic value
      then Err InvalidBulletinGroup else Ok (BulletinGroup value))"

datatype MessageKind =
    Direct
  | Bulletin BulletinNumber
  | GroupBulletin BulletinNumber BulletinGroup
  | Announcement AnnouncementLetter
  | NwsBulletin
  | AckRej

definition ok :: "'e + 'a \<Rightarrow> 'a option" where
  "ok r = (case r of Inl _ \<Rightarrow> None | Inr x \<Rightarrow> Some x)"

definition group_bulletin_kind :: "bytes \<Rightarrow> MessageKind option" where
  "group_bulletin_kind rest =
     (if 2 \<le> length rest \<and> length rest \<le> 6 then
        (case get 0 rest of
           None \<Rightarrow> None
         | Some first \<Rightarrow>
             (if first < 0x30 then None
              else (case ok (BulletinNumber_new (first - 0x30)) of
                      None \<Rightarrow> None
                    | Some number \<Rightarrow>
                        (case get_from 1 rest of
                           None \<Rightarrow> None
                         | Some g \<Rightarrow> map_option (GroupBulletin number) (ok (BulletinGroup_new g))))))
      else None)"

definition bulletin_kind_from_addressee :: "bytes \<Rightarrow> MessageKind option" where
  "bulletin_kind_from_addressee addr =
     (if starts_with [0x4E, 0x57, 0x53, 0x2D] addr \<or> starts_with [0x53, 0x4B, 0x59, 0x2D] addr
         \<or> starts_with [0x43, 0x57, 0x41, 0x2D] addr \<or> starts_with [0x42, 0x4F, 0x4D, 0x2D] addr
      then Some NwsBulletin
      else
        (case strip_prefix [0x42, 0x4C, 0x4E] addr of
           None \<Rightarrow> None
         | Some rest \<Rightarrow>
             (case rest of
                [byte] \<Rightarrow>
                  (if is_ascii_digit byte then map_option Bulletin (ok (BulletinNumber_new (byte - 0x30)))
                   else if is_ascii_uppercase byte then map_option Announcement (ok (AnnouncementLetter_new byte))
                   else group_bulletin_kind rest)
              | _ \<Rightarrow> group_bulletin_kind rest)))"

definition is_bulletin_addressee :: "bytes \<Rightarrow> bool" where
  "is_bulletin_addressee addressee \<longleftrightarrow> bulletin_kind_from_addressee addressee \<noteq> None"

datatype DirectMessageAddressee = DirectMessageAddressee (DirectMessageAddressee_addressee: MessageAddressee)

definition DirectMessageAddressee_as_str :: "DirectMessageAddressee \<Rightarrow> bytes" where
  "DirectMessageAddressee_as_str d = MessageAddressee_as_str (DirectMessageAddressee_addressee d)"

definition DirectMessageAddressee_try_from :: "MessageAddressee \<Rightarrow> MessageValueError + DirectMessageAddressee" where
  "DirectMessageAddressee_try_from value =
     (if is_bulletin_addressee (MessageAddressee_as_str value) then Err ExpectedDirectAddressee
      else Ok (DirectMessageAddressee value))"

definition DirectMessageAddressee_new :: "bytes \<Rightarrow> MessageValueError + DirectMessageAddressee" where
  "DirectMessageAddressee_new value =
     (case MessageAddressee_new value of
        Inl e \<Rightarrow> Err (AddresseeError e) | Inr a \<Rightarrow> DirectMessageAddressee_try_from a)"

datatype BulletinAddressee = BulletinAddressee (BulletinAddressee_addressee: MessageAddressee)

definition BulletinAddressee_try_from :: "MessageAddressee \<Rightarrow> MessageValueError + BulletinAddressee" where
  "BulletinAddressee_try_from value =
     (if \<not> is_bulletin_addressee (MessageAddressee_as_str value) then Err ExpectedBulletinAddressee
      else Ok (BulletinAddressee value))"

definition BulletinAddressee_new :: "bytes \<Rightarrow> MessageValueError + BulletinAddressee" where
  "BulletinAddressee_new value =
     (case MessageAddressee_new value of
        Inl e \<Rightarrow> Err (AddresseeError e) | Inr a \<Rightarrow> BulletinAddressee_try_from a)"

section \<open>Control frames and messages\<close>

datatype MessageControl = Acknowledgement MessageId | Rejection MessageId

definition MessageControl_from_text :: "bytes \<Rightarrow> MessageControl option" where
  "MessageControl_from_text text =
     (let trimmed = trim_end (\<lambda>b. b = 0x0D \<or> b = 0x0A \<or> b = 0x20) text
      in case strip_prefix [0x61, 0x63, 0x6B] trimmed of
           None \<Rightarrow>
             (case strip_prefix [0x72, 0x65, 0x6A] trimmed of
                None \<Rightarrow> None
              | Some i \<Rightarrow> map_option Rejection (ok (MessageId_new i)))
         | Some i \<Rightarrow> map_option Acknowledgement (ok (MessageId_new i)))"

fun MessageControl_message_id :: "MessageControl \<Rightarrow> MessageId" where
  "MessageControl_message_id (Acknowledgement i) = i"
| "MessageControl_message_id (Rejection i) = i"

fun MessageControl_is_ack :: "MessageControl \<Rightarrow> bool" where
  "MessageControl_is_ack (Acknowledgement i) = True"
| "MessageControl_is_ack (Rejection i) = False"

record AprsMessage =
  am_addressee :: MessageAddressee
  am_text :: bytes
  am_message_id :: "MessageId option"
  am_reply_ack :: "MessageId option"

definition AprsMessage_direct :: "DirectMessageAddressee \<Rightarrow> MessageText \<Rightarrow> MessageId option \<Rightarrow> AprsMessage" where
  "AprsMessage_direct addressee text message_id =
     \<lparr>am_addressee = DirectMessageAddressee_addressee addressee, am_text = MessageText_as_str text,
      am_message_id = message_id, am_reply_ack = None\<rparr>"

definition AprsMessage_bulletin :: "BulletinAddressee \<Rightarrow> BulletinText \<Rightarrow> AprsMessage" where
  "AprsMessage_bulletin addressee text =
     \<lparr>am_addressee = BulletinAddressee_addressee addressee, am_text = BulletinText_as_str text,
      am_message_id = None, am_reply_ack = None\<rparr>"

definition AprsMessage_with_reply_ack :: "AprsMessage \<Rightarrow> MessageId \<Rightarrow> MessageValueError + AprsMessage" where
  "AprsMessage_with_reply_ack m acknowledged =
     (if am_message_id m = None then Err MissingMessageId else Ok (m\<lparr>am_reply_ack := Some acknowledged\<rparr>))"

definition AprsMessage_kind :: "AprsMessage \<Rightarrow> MessageKind" where
  "AprsMessage_kind m =
     (case bulletin_kind_from_addressee (MessageAddressee_as_str (am_addressee m)) of
        Some kind \<Rightarrow> kind
      | None \<Rightarrow>
          (if am_message_id m = None \<and> am_reply_ack m = None \<and> MessageControl_from_text (am_text m) \<noteq> None
           then AckRej else Direct))"

section \<open>The parser\<close>

record ParsedMessageBody =
  pb_text :: bytes
  pb_message_id :: "bytes option"
  pb_reply_ack :: "bytes option"

definition id_shape :: "bytes \<Rightarrow> bool" where
  "id_shape s \<longleftrightarrow> 1 \<le> length s \<and> length s \<le> 5 \<and> list_all is_ascii_alphanumeric s"

definition parse_message_trailer :: "bytes \<Rightarrow> ParsedMessageBody" where
  "parse_message_trailer body =
     (let plain = \<lparr>pb_text = body, pb_message_id = None, pb_reply_ack = None\<rparr>
      in case rfind (\<lambda>b. b = 0x7B) body of
           None \<Rightarrow> plain
         | Some brace_idx \<Rightarrow>
        (case get_from (brace_idx + 1) body of
           None \<Rightarrow> plain
         | Some after_brace \<Rightarrow>
        (case get_range 0 brace_idx body of
           None \<Rightarrow> plain
         | Some prefix \<Rightarrow>
             let bare = (if id_shape after_brace
                         then \<lparr>pb_text = prefix, pb_message_id = Some after_brace, pb_reply_ack = None\<rparr>
                         else plain)
             in case position (\<lambda>b. b = 0x7D) after_brace of
                  None \<Rightarrow> bare
                | Some close_idx \<Rightarrow>
                    (let mm = (case get_range 0 close_idx after_brace of None \<Rightarrow> [] | Some s \<Rightarrow> s);
                         aa = (case get_from (close_idx + 1) after_brace of None \<Rightarrow> [] | Some s \<Rightarrow> s)
                     in if id_shape mm \<and> aa = []
                        then \<lparr>pb_text = prefix, pb_message_id = Some mm, pb_reply_ack = None\<rparr>
                        else if id_shape mm \<and> id_shape aa
                        then \<lparr>pb_text = prefix, pb_message_id = Some mm, pb_reply_ack = Some aa\<rparr>
                        else bare))))"

definition MAX_APRS_MESSAGE_TEXT_LEN :: nat where "MAX_APRS_MESSAGE_TEXT_LEN = 67"

text \<open>\<open>Option<&str>.map(MessageId::new).transpose()?\<close>\<close>

definition transpose_id :: "bytes option \<Rightarrow> AprsError + MessageId option" where
  "transpose_id v =
     (case v of
        None \<Rightarrow> Ok None
      | Some s \<Rightarrow> (case MessageId_new s of Inl e \<Rightarrow> Err e | Inr i \<Rightarrow> Ok (Some i)))"

text \<open>The second half of the parser: trailer, length limit and identifiers.\<close>

definition parse_message_body :: "MessageAddressee \<Rightarrow> bytes \<Rightarrow> AprsError + AprsMessage" where
  "parse_message_body addressee trimmed_body =
     (let a = MessageAddressee_as_str addressee;
          parsed = (if is_bulletin_addressee a
            then \<lparr>pb_text = trimmed_body, pb_message_id = None, pb_reply_ack = None\<rparr>
            else parse_message_trailer trimmed_body);
          is_weather_bulletin = (bulletin_kind_from_addressee a = Some NwsBulletin);
          maximum = (if \<not> is_bulletin_addressee a
              \<and> (starts_with [0x50, 0x41, 0x52, 0x4D, 0x2E] (pb_text parsed)
                 \<or> starts_with [0x55, 0x4E, 0x49, 0x54, 0x2E] (pb_text parsed))
            then 68 else MAX_APRS_MESSAGE_TEXT_LEN)
      in if \<not> is_weather_bulletin \<and> length (pb_text parsed) > maximum
         then Err (MessageTooLong (length (pb_text parsed)) maximum)
         else
           (case transpose_id (pb_message_id parsed) of
              Inl e \<Rightarrow> Err e
            | Inr message_id \<Rightarrow>
                (case transpose_id (pb_reply_ack parsed) of
                   Inl e \<Rightarrow> Err e
                 | Inr reply_ack \<Rightarrow>
                     Ok \<lparr>am_addressee = addressee, am_text = pb_text parsed,
                         am_message_id = message_id, am_reply_ack = reply_ack\<rparr>)))"

definition parse_aprs_message :: "bytes \<Rightarrow> AprsError + AprsMessage" where
  "parse_aprs_message info =
     (if get 0 info \<noteq> Some 0x3A then Err InvalidFormat
      else
     (case get_range 1 10 info of
        None \<Rightarrow> Err InvalidFormat
      | Some addressee_raw \<Rightarrow>
     (case decode_wire_ascii WF_MessageAddressee addressee_raw of
        Inl e \<Rightarrow> Err e
      | Inr addressee_str \<Rightarrow>
     (case MessageAddressee_new (trim_end (\<lambda>b. b = 0x20) addressee_str) of
        Inl _ \<Rightarrow> Err InvalidFormat
      | Inr addressee \<Rightarrow>
     (if get 10 info \<noteq> Some 0x3A then Err InvalidFormat
      else
        let body = (case get_from 11 info of None \<Rightarrow> [] | Some s \<Rightarrow> s)
        in case decode_wire_ascii WF_MessageBody body of
             Inl e \<Rightarrow> Err e
           | Inr body_str \<Rightarrow>
               (let trimmed_body = trim_end (\<lambda>b. b = 0x0D \<or> b = 0x0A) body_str
                in if list_ex (\<lambda>byte. \<not> is_printable_ascii byte) trimmed_body then Err InvalidFormat
                   else parse_message_body addressee trimmed_body))))))"

definition AprsMessage_from_bytes :: "bytes \<Rightarrow> AprsError + AprsMessage" where
  "AprsMessage_from_bytes info = parse_aprs_message info"

section \<open>The builders\<close>

datatype Tocall = Tocall (Tocall_callsign: Callsign)

record AprsFrameHeader =
  fh_source :: Ax25Address
  fh_tocall :: Tocall
  fh_path :: DigipeaterPath

definition ax25_ui_frame :: "Ax25Address \<Rightarrow> Ax25Address \<Rightarrow> DigipeaterPath \<Rightarrow> bytes \<Rightarrow> Ax25Packet" where
  "ax25_ui_frame source destination path info =
     Ax25Packet_unnumbered_information
       \<lparr>hd_source = source, hd_destination = destination, hd_digipeaters = path,
        hd_command_response = Command\<rparr> PfClear NoLayer3 info"

definition AprsFrameHeader_into_packet :: "AprsFrameHeader \<Rightarrow> bytes \<Rightarrow> Ax25Packet" where
  "AprsFrameHeader_into_packet h information =
     ax25_ui_frame (fh_source h) (Ax25Address_from_parts (Tocall_callsign (fh_tocall h)) Ssid_ZERO)
       (fh_path h) information"

definition ax25_to_kiss_wire :: "Ax25Packet \<Rightarrow> bytes" where
  "ax25_to_kiss_wire packet = KissFrame_to_bytes (KissFrame_data (Ax25Packet_to_bytes packet))"

definition message_packet_fields :: "AprsFrameHeader \<Rightarrow> MessageAddressee \<Rightarrow> bytes \<Rightarrow> bytes option \<Rightarrow> Ax25Packet" where
  "message_packet_fields h addressee text message_id =
     (let padded_addressee = left_pad 9 (MessageAddressee_as_str addressee);
          info = (case message_id of
                    None \<Rightarrow> [0x3A] @ padded_addressee @ [0x3A] @ text
                  | Some i \<Rightarrow> [0x3A] @ padded_addressee @ [0x3A] @ text @ [0x7B] @ i)
      in AprsFrameHeader_into_packet h info)"

definition message_packet ::
  "AprsFrameHeader \<Rightarrow> DirectMessageAddressee \<Rightarrow> MessageText \<Rightarrow> MessageId option \<Rightarrow> Ax25Packet" where
  "message_packet h addressee text message_id =
     message_packet_fields h (DirectMessageAddressee_addressee addressee) (MessageText_as_str text)
       (map_option MessageId_as_str message_id)"

definition AprsFrameHeader_message ::
  "AprsFrameHeader \<Rightarrow> DirectMessageAddressee \<Rightarrow> MessageText \<Rightarrow> MessageId option \<Rightarrow> bytes" where
  "AprsFrameHeader_message h addressee text message_id =
     ax25_to_kiss_wire (message_packet h addressee text message_id)"

definition bulletin_packet :: "AprsFrameHeader \<Rightarrow> BulletinAddressee \<Rightarrow> BulletinText \<Rightarrow> Ax25Packet" where
  "bulletin_packet h addressee text =
     message_packet_fields h (BulletinAddressee_addressee addressee) (BulletinText_as_str text) None"

definition AprsFrameHeader_bulletin :: "AprsFrameHeader \<Rightarrow> BulletinAddressee \<Rightarrow> BulletinText \<Rightarrow> bytes" where
  "AprsFrameHeader_bulletin h addressee text = ax25_to_kiss_wire (bulletin_packet h addressee text)"

section \<open>Well-formed values\<close>

definition visible :: "u8 \<Rightarrow> bool" where
  "visible b \<longleftrightarrow> is_printable_ascii b \<and> b \<noteq> 0x20"

definition MessageAddressee_wf :: "MessageAddressee \<Rightarrow> bool" where
  "MessageAddressee_wf a \<longleftrightarrow> MessageAddressee_as_str a \<noteq> [] \<and> length (MessageAddressee_as_str a) \<le> 9 \<and>
     (\<forall>b \<in> set (MessageAddressee_as_str a). visible b)"

definition DirectMessageAddressee_wf :: "DirectMessageAddressee \<Rightarrow> bool" where
  "DirectMessageAddressee_wf d \<longleftrightarrow> MessageAddressee_wf (DirectMessageAddressee_addressee d) \<and>
     \<not> is_bulletin_addressee (DirectMessageAddressee_as_str d)"

definition BulletinAddressee_wf :: "BulletinAddressee \<Rightarrow> bool" where
  "BulletinAddressee_wf d \<longleftrightarrow> MessageAddressee_wf (BulletinAddressee_addressee d) \<and>
     is_bulletin_addressee (MessageAddressee_as_str (BulletinAddressee_addressee d))"

definition MessageText_wf :: "MessageText \<Rightarrow> bool" where
  "MessageText_wf t \<longleftrightarrow> length (MessageText_as_str t) \<le> 67 \<and>
     (\<forall>b \<in> set (MessageText_as_str t). is_printable_ascii b \<and> b \<notin> {0x7C, 0x7E, 0x7B})"

definition BulletinText_wf :: "BulletinText \<Rightarrow> bool" where
  "BulletinText_wf t \<longleftrightarrow> length (BulletinText_as_str t) \<le> 67 \<and>
     (\<forall>b \<in> set (BulletinText_as_str t). is_printable_ascii b \<and> b \<notin> {0x7C, 0x7E})"

definition AprsFrameHeader_wf :: "AprsFrameHeader \<Rightarrow> bool" where
  "AprsFrameHeader_wf h \<longleftrightarrow> Ax25Address_wf (fh_source h) \<and> Callsign_wf (Tocall_callsign (fh_tocall h)) \<and>
     DigipeaterPath_wf (fh_path h)"

lemma printable_is_ascii: "is_printable_ascii b \<Longrightarrow> is_ascii_byte b"
  unfolding is_printable_ascii_def is_ascii_byte_def by unat_arith

lemma find_enumerate_SomeD: "find_enumerate P xs = Some (i, x) \<Longrightarrow> i < length xs \<and> P x \<and> x \<in> set xs"
  by (auto simp: find_enumerate_def position_Some_iff)

lemma validate_printable_Ok_iff:
  "validate_printable_ascii v f m e = Ok u \<longleftrightarrow>
     (e \<or> v \<noteq> []) \<and> length v \<le> m \<and> (\<forall>b \<in> set v. is_printable_ascii b)"
proof -
  have "(\<forall>b \<in> set v. is_printable_ascii b) \<Longrightarrow> position (\<lambda>b. \<not> is_ascii_byte b) v = None"
    using printable_is_ascii by (auto simp: position_None_iff)
  then show ?thesis
    by (auto simp: validate_printable_ascii_def find_enumerate_None_iff dest: find_enumerate_SomeD
        split: option.splits if_splits)
qed

lemma validate_not_reserved_Ok_iff: "validate_not_reserved v f r = Ok u \<longleftrightarrow> (\<forall>b \<in> set v. b \<notin> set r)"
  by (auto simp: validate_not_reserved_def find_enumerate_None_iff dest: find_enumerate_SomeD
      split: option.splits)

lemma MessageAddressee_new_Ok_iff:
  "MessageAddressee_new v = Ok a \<longleftrightarrow> a = MessageAddressee v \<and> MessageAddressee_wf a"
proof -
  have "validate_message_addressee v = Ok u \<longleftrightarrow> MessageAddressee_wf (MessageAddressee v)" for u
    using validate_printable_Ok_iff [of v TF_MessageAddressee MessageAddressee_MAX_LEN False "()"]
    by (auto simp: validate_message_addressee_def MessageAddressee_wf_def visible_def
        MessageAddressee_MAX_LEN_def position_None_iff position_Some_iff
        split: sum.splits option.splits)
       (metis nth_mem)
  then show ?thesis by (auto simp: MessageAddressee_new_def split: sum.splits)
qed

lemma MessageText_new_Ok_iff: "MessageText_new v = Ok t \<longleftrightarrow> t = MessageText v \<and> MessageText_wf t"
proof -
  have "validate_message_text v = Ok u \<longleftrightarrow> MessageText_wf (MessageText v)" for u
    using validate_printable_Ok_iff [of v TF_MessageText MessageText_MAX_LEN True "()"]
    by (auto simp: validate_message_text_def MessageText_wf_def validate_not_reserved_Ok_iff
        MessageText_MAX_LEN_def split: sum.splits)
  then show ?thesis by (auto simp: MessageText_new_def split: sum.splits)
qed

section \<open>Round trip of a message\<close>

lemma decode_wire_ascii_printable: "\<forall>b \<in> set bs. is_printable_ascii b \<Longrightarrow> decode_wire_ascii f bs = Ok bs"
  using printable_is_ascii by (auto simp: decode_wire_ascii_def find_enumerate_None_iff dest: find_enumerate_SomeD split: option.splits)

lemma printable_space: "is_printable_ascii 0x20" "is_printable_ascii 0x7B"
  by (simp_all add: is_printable_ascii_def)

lemma alphanumeric_printable:
  "is_ascii_alphanumeric b \<Longrightarrow> is_printable_ascii b \<and> b \<notin> {0x7C, 0x7E, 0x7B, 0x7D, 0x20, 0x0D, 0x0A}"
  unfolding ascii_defs by (auto; unat_arith)

lemma addressee_field:
  assumes "MessageAddressee_wf a"
  shows "length (left_pad 9 (MessageAddressee_as_str a)) = 9"
    and "\<forall>b \<in> set (left_pad 9 (MessageAddressee_as_str a)). is_printable_ascii b"
    and "trim_end (\<lambda>b. b = 0x20) (left_pad 9 (MessageAddressee_as_str a)) = MessageAddressee_as_str a"
proof -
  show "length (left_pad 9 (MessageAddressee_as_str a)) = 9"
    "\<forall>b \<in> set (left_pad 9 (MessageAddressee_as_str a)). is_printable_ascii b"
    using assms by (auto simp: left_pad_def MessageAddressee_wf_def visible_def printable_space)
  have "\<not> last (MessageAddressee_as_str a) = 0x20"
    using assms by (auto simp: MessageAddressee_wf_def visible_def)
  then show "trim_end (\<lambda>b. b = 0x20) (left_pad 9 (MessageAddressee_as_str a)) = MessageAddressee_as_str a"
    unfolding left_pad_def by (subst trim_end_pad) (simp_all add: trim_end_id)
qed

text \<open>The trailer the builder appends is the one the parser takes off.\<close>

lemma trailer_none: "\<forall>b \<in> set t. b \<noteq> 0x7B \<Longrightarrow>
    parse_message_trailer t = \<lparr>pb_text = t, pb_message_id = None, pb_reply_ack = None\<rparr>"
  using rfind_None_iff [of "\<lambda>b. b = 0x7B" t] by (simp add: parse_message_trailer_def Let_def)

lemma trailer_some:
  assumes "id_shape i"
  shows "parse_message_trailer (t @ 0x7B # i) = \<lparr>pb_text = t, pb_message_id = Some i, pb_reply_ack = None\<rparr>"
proof -
  have i: "\<forall>b \<in> set i. b \<noteq> 0x7B \<and> b \<noteq> 0x7D"
    using assms alphanumeric_printable by (auto simp: id_shape_def list_all_iff)
  then have "rfind (\<lambda>b. b = 0x7B) (t @ 0x7B # i) = Some (length t)" by (intro rfind_append) auto
  moreover have "position (\<lambda>b. b = 0x7D) i = None" using i by (auto simp: position_None_iff)
  ultimately show ?thesis
    using assms by (simp add: parse_message_trailer_def Let_def get_from_def get_range_def)
qed

lemma MessageId_wf_shape: "MessageId_wf m \<longleftrightarrow> id_shape (MessageId_as_str m)"
  by (auto simp: MessageId_wf_def id_shape_def list_all_iff Suc_le_eq)

lemma transpose_id_wf:
  assumes "\<forall>i. v = Some i \<longrightarrow> MessageId_wf i"
  shows "transpose_id (map_option MessageId_as_str v) = Ok v"
proof (cases v)
  case (Some i)
  then have "MessageId_new (MessageId_as_str i) = Ok i" using assms by (simp add: MessageId_new_Ok_iff)
  with Some show ?thesis by (simp add: transpose_id_def)
qed (simp add: transpose_id_def)

definition message_body :: "bytes \<Rightarrow> bytes option \<Rightarrow> bytes" where
  "message_body text message_id = (case message_id of None \<Rightarrow> text | Some i \<Rightarrow> text @ 0x7B # i)"

lemma message_info:
  "pk_information (message_packet_fields h a text mid) =
     0x3A # left_pad 9 (MessageAddressee_as_str a) @ 0x3A # message_body text mid"
  by (simp add: message_packet_fields_def Let_def AprsFrameHeader_into_packet_def ax25_ui_frame_def
      Ax25Packet_unnumbered_information_def message_body_def split: option.splits)

lemma parse_framed:
  assumes a: "MessageAddressee_wf a" and body: "\<forall>b \<in> set body. is_printable_ascii b"
  shows "parse_aprs_message (0x3A # left_pad 9 (MessageAddressee_as_str a) @ 0x3A # body) =
    parse_message_body a body"
proof -
  let ?f = "left_pad 9 (MessageAddressee_as_str a)"
  note fld = addressee_field [OF a]
  have "get_range (Suc 0) 10 (0x3A # ?f @ 0x3A # body) = Some ?f" using fld(1) by (simp add: get_range_def)
  moreover have "get 9 (?f @ 0x3A # body) = Some 0x3A"
    using fld(1) by (simp add: get_def nth_append)
  moreover have "get_from 11 (0x3A # ?f @ 0x3A # body) = Some body"
    using fld(1) by (simp add: get_from_def)
  moreover have "MessageAddressee_new (MessageAddressee_as_str a) = Ok a"
    using a by (simp add: MessageAddressee_new_Ok_iff)
  moreover have "trim_end (\<lambda>b. b = 0x0D \<or> b = 0x0A) body = body"
    using body by (intro trim_end_id) (auto simp: is_printable_ascii_def dest!: last_in_set)
  moreover have "\<not> list_ex (\<lambda>byte. \<not> is_printable_ascii byte) body" using body by (simp add: list_ex_iff)
  ultimately show ?thesis
    using decode_wire_ascii_printable [OF fld(2)] decode_wire_ascii_printable [OF body] fld(3)
    unfolding parse_aprs_message_def Let_def by simp
qed

lemma message_body_printable:
  assumes "MessageText_wf t" and "\<forall>i. mid = Some i \<longrightarrow> MessageId_wf i"
  shows "\<forall>b \<in> set (message_body (MessageText_as_str t) (map_option MessageId_as_str mid)). is_printable_ascii b"
  using assms alphanumeric_printable
  by (cases mid) (auto simp: message_body_def MessageText_wf_def MessageId_wf_def printable_space)

lemma direct_message_parses:
  assumes "DirectMessageAddressee_wf a" and t: "MessageText_wf t" and mid: "\<forall>i. mid = Some i \<longrightarrow> MessageId_wf i"
  shows "AprsMessage_from_bytes (pk_information (message_packet h a t mid)) = Ok (AprsMessage_direct a t mid)"
proof -
  let ?a = "DirectMessageAddressee_addressee a" and ?t = "MessageText_as_str t"
  have a: "MessageAddressee_wf ?a" "\<not> is_bulletin_addressee (MessageAddressee_as_str ?a)"
    using assms(1) by (simp_all add: DirectMessageAddressee_wf_def DirectMessageAddressee_as_str_def)
  have len: "length ?t \<le> 67" and brace: "\<forall>b \<in> set ?t. b \<noteq> 0x7B" using t by (auto simp: MessageText_wf_def)
  have "parse_message_trailer (message_body ?t (map_option MessageId_as_str mid)) =
      \<lparr>pb_text = ?t, pb_message_id = map_option MessageId_as_str mid, pb_reply_ack = None\<rparr>"
    using brace mid by (cases mid) (simp_all add: message_body_def trailer_none trailer_some MessageId_wf_shape)
  moreover have "transpose_id None = Ok None" by (simp add: transpose_id_def)
  moreover have "parse_aprs_message (0x3A # left_pad 9 (MessageAddressee_as_str ?a) @ 0x3A #
      message_body ?t (map_option MessageId_as_str mid)) =
      parse_message_body ?a (message_body ?t (map_option MessageId_as_str mid))"
    by (rule parse_framed [OF a(1) message_body_printable [OF t mid]])
  ultimately show ?thesis
    using a(2) len transpose_id_wf [OF mid]
    by (simp add: AprsMessage_from_bytes_def message_packet_def message_info parse_message_body_def
        MAX_APRS_MESSAGE_TEXT_LEN_def AprsMessage_direct_def Let_def)
qed

lemma bulletin_parses:
  assumes "BulletinAddressee_wf a" and t: "BulletinText_wf t"
  shows "AprsMessage_from_bytes (pk_information (bulletin_packet h a t)) = Ok (AprsMessage_bulletin a t)"
proof -
  let ?a = "BulletinAddressee_addressee a" and ?t = "BulletinText_as_str t"
  have "parse_aprs_message (0x3A # left_pad 9 (MessageAddressee_as_str ?a) @ 0x3A # ?t) = parse_message_body ?a ?t"
    by (rule parse_framed) (use assms in \<open>auto simp: BulletinAddressee_wf_def BulletinText_wf_def\<close>)
  with assms show ?thesis
    by (simp add: AprsMessage_from_bytes_def bulletin_packet_def message_info message_body_def
        parse_message_body_def MAX_APRS_MESSAGE_TEXT_LEN_def AprsMessage_bulletin_def Let_def
        BulletinAddressee_wf_def BulletinText_wf_def transpose_id_def)
qed

text \<open>The frame around it: UI, no layer 3, in a KISS data frame on port zero.\<close>

lemma into_packet_wf: "AprsFrameHeader_wf h \<Longrightarrow> Ax25Packet_wf (AprsFrameHeader_into_packet h info)"
  by (simp add: AprsFrameHeader_wf_def AprsFrameHeader_into_packet_def ax25_ui_frame_def
      Ax25Packet_unnumbered_information_def Ax25Packet_wf_def Ax25Header_wf_def Ax25Address_wf_def
      Ax25Address_from_parts_def Ssid_ZERO_def Ssid_wf_def validate_Ok_iff
      control_requires_protocol_def control_allows_information_def)

lemma kiss_wire_decodes:
  assumes "Ax25Packet_wf p"
  shows "\<exists>f. KissFrame_from_bytes (ax25_to_kiss_wire p) = Ok f \<and> kf_command f = KissData \<and>
    Ax25Packet_from_bytes (kf_data f) = Ok p"
proof -
  have "KissFrame_wf (KissFrame_data (Ax25Packet_to_bytes p))"
    by (simp add: KissFrame_wf_def KissFrame_data_def KissPort_wf_def KissPort_ZERO_def)
  then have "KissFrame_from_bytes (ax25_to_kiss_wire p) = Ok (KissFrame_data (Ax25Packet_to_bytes p))"
    using kiss.dec_enc by (simp add: ax25_to_kiss_wire_def KissFrame_wire_def KissFrame_data_def)
  with ax25.lossless [OF assms] show ?thesis by (simp add: KissFrame_data_def)
qed

text \<open>Identifiers made from sequence numbers.\<close>

fun digits_value :: "nat \<Rightarrow> bytes \<Rightarrow> nat" where
  "digits_value acc [] = acc"
| "digits_value acc (d # ds) = digits_value (acc * 10 + (unat d - 48)) ds"

lemma digits_value_append: "digits_value acc (xs @ [d]) = digits_value acc xs * 10 + (unat d - 48)"
  by (induction xs arbitrary: acc) simp_all

lemma unat_digit: "n < 10 \<Longrightarrow> unat (word_of_nat (48 + n) :: u8) = 48 + n"
  by (simp add: unat_of_nat del: of_nat_add)

declare display_nat.simps [simp del]

lemma display_nat_value: "digits_value 0 (display_nat n) = n"
proof (induction n rule: display_nat.induct)
  case (1 n)
  show ?case
  proof (cases "n < 10")
    case True
    then show ?thesis using unat_digit [of n] by (simp add: display_nat.simps)
  next
    case False
    with 1 unat_digit [of "n mod 10"] show ?thesis
      by (subst display_nat.simps) (simp add: digits_value_append)
  qed
qed

lemma display_nat_inj: "display_nat m = display_nat n \<Longrightarrow> m = n"
  using display_nat_value by metis

lemma display_nat_digits: "b \<in> set (display_nat n) \<Longrightarrow> is_ascii_alphanumeric b"
proof (induction n rule: display_nat.induct)
  case (1 n)
  have d: "is_ascii_alphanumeric (word_of_nat (48 + k) :: u8)" if "k < 10" for k
    using unat_digit [OF that] that
    by (simp add: is_ascii_alphanumeric_def is_ascii_digit_def word_le_nat_alt)
  show ?case
  proof (cases "n < 10")
    case True
    with "1.prems" d [of n] show ?thesis by (simp add: display_nat.simps)
  next
    case False
    with "1.prems" have "b \<in> set (display_nat (n div 10)) \<or> b = word_of_nat (48 + n mod 10)"
      by (subst (asm) display_nat.simps) auto
    with "1.IH" [OF False] d [of "n mod 10"] show ?thesis by auto
  qed
qed

lemma display_nat_length: "n < 10 ^ Suc k \<Longrightarrow> length (display_nat n) \<le> Suc k"
proof (induction k arbitrary: n)
  case 0
  then show ?case by (simp add: display_nat.simps)
next
  case (Suc k)
  have "n div 10 < 10 ^ Suc k" using Suc.prems by (simp add: less_mult_imp_div_less)
  then show ?case using Suc.IH [of "n div 10"] by (subst display_nat.simps) simp
qed

lemma display_nat_nonempty: "display_nat n \<noteq> []"
  by (subst display_nat.simps) simp

lemma sequence_id_wf: "n \<le> 65535 \<Longrightarrow> MessageId_wf (MessageId_from_sequence_number n)"
  using display_nat_length [of n 4] display_nat_digits [of _ n] display_nat_nonempty [of n]
  by (auto simp: MessageId_wf_def MessageId_from_sequence_number_def)

lemma sequence_id_inj: "MessageId_from_sequence_number m = MessageId_from_sequence_number n \<Longrightarrow> m = n"
  by (auto simp: MessageId_from_sequence_number_def dest: display_nat_inj)

section \<open>Properties\<close>

text \<open>A message over the air. A direct message with valid header, destination, text and optional
  identifier, framed for AX.25 and KISS, is recovered field for field by unwrapping KISS, decoding
  the AX.25 frame and parsing the information field; a bulletin likewise, with its braces kept as
  text.\<close>

lemma aprs_message_over_the_air:
  assumes "AprsFrameHeader_wf h" and "DirectMessageAddressee_wf a" and "MessageText_wf t"
    and "\<forall>i. mid = Some i \<longrightarrow> MessageId_wf i" and "BulletinAddressee_wf ba" and "BulletinText_wf bt"
  shows "(\<exists>f p. KissFrame_from_bytes (AprsFrameHeader_message h a t mid) = Ok f \<and> kf_command f = KissData \<and>
      Ax25Packet_from_bytes (kf_data f) = Ok p \<and> hd_source (pk_header p) = fh_source h \<and>
      AprsMessage_from_bytes (pk_information p) = Ok (AprsMessage_direct a t mid)) \<and>
    (\<exists>f p. KissFrame_from_bytes (AprsFrameHeader_bulletin h ba bt) = Ok f \<and> kf_command f = KissData \<and>
      Ax25Packet_from_bytes (kf_data f) = Ok p \<and> hd_source (pk_header p) = fh_source h \<and>
      AprsMessage_from_bytes (pk_information p) = Ok (AprsMessage_bulletin ba bt))"
proof -
  have src: "hd_source (pk_header (message_packet_fields h x y z)) = fh_source h"
    and wf: "Ax25Packet_wf (message_packet_fields h x y z)" for x y z
    using into_packet_wf [OF assms(1)]
    by (simp_all add: message_packet_fields_def Let_def AprsFrameHeader_into_packet_def ax25_ui_frame_def
        Ax25Packet_unnumbered_information_def)
  show ?thesis
    using kiss_wire_decodes [OF wf] direct_message_parses [OF assms(2-4), of h] bulletin_parses [OF assms(5,6), of h] src
    unfolding AprsFrameHeader_message_def AprsFrameHeader_bulletin_def message_packet_def bulletin_packet_def
    by metis
qed

definition sample_header :: AprsFrameHeader where
  "sample_header = \<lparr>fh_source = \<lparr>aa_callsign = Callsign [0x4E, 0x30, 0x43], aa_ssid = Ssid 7\<rparr>,
     fh_tocall = Tocall (Callsign [0x41, 0x50]), fh_path = []\<rparr>"

definition sample_addressee :: DirectMessageAddressee where
  "sample_addressee = DirectMessageAddressee (MessageAddressee [0x57, 0x31])"

lemma sample_header_wf: "AprsFrameHeader_wf sample_header"
  by (simp add: sample_header_def AprsFrameHeader_wf_def Ax25Address_wf_def Callsign_wf_def Ssid_wf_def
      DigipeaterPath_wf_def callsign_char_def ascii_defs)

lemma sample_addressee_wf: "DirectMessageAddressee_wf sample_addressee"
  by (simp add: sample_addressee_def DirectMessageAddressee_wf_def DirectMessageAddressee_as_str_def
      MessageAddressee_wf_def visible_def is_printable_ascii_def is_bulletin_addressee_def
      bulletin_kind_from_addressee_def starts_with_def strip_prefix_def)

end
