(* ===== verification/Aprs_Messenger.thy ===== *)
theory Aprs_Messenger
  imports Aprs_Message
begin

text \<open>
  The APRS message manager, \<open>aprs/src/messenger.rs\<close>: outbound messages with assigned identifiers,
  retries at an interval up to an attempt limit, acknowledgements honoured only from the addressee,
  and suppression of repeated incoming messages. A \<open>&mut self\<close> method returns the updated messenger
  beside its result.
\<close>

section \<open>Configuration\<close>

record MessengerConfig =
  mc_max_retries :: u8
  mc_retry_interval :: duration
  mc_incoming_dedup_window :: duration
  mc_max_pending :: nat
  mc_max_incoming :: nat

definition INCOMING_DEDUP_WINDOW :: duration where "INCOMING_DEDUP_WINDOW = from_mins 5"

definition MAX_RETRIES :: u8 where "MAX_RETRIES = 5"

definition RETRY_INTERVAL :: duration where "RETRY_INTERVAL = from_secs 30"

definition MessengerConfig_new :: "nat \<Rightarrow> MessengerConfig" where
  "MessengerConfig_new max_pending =
     \<lparr>mc_max_retries = MAX_RETRIES, mc_retry_interval = RETRY_INTERVAL,
      mc_incoming_dedup_window = INCOMING_DEDUP_WINDOW, mc_max_pending = max_pending,
      mc_max_incoming = 1024\<rparr>"

definition MessengerConfig_default :: MessengerConfig where
  "MessengerConfig_default = MessengerConfig_new 256"

definition with_retry_policy :: "MessengerConfig \<Rightarrow> u8 \<Rightarrow> duration \<Rightarrow> AprsError + MessengerConfig" where
  "with_retry_policy c max_retries retry_interval =
     (if retry_interval = 0 then Err InvalidMessengerInterval
      else Ok (c\<lparr>mc_max_retries := max_retries, mc_retry_interval := retry_interval\<rparr>))"

definition with_incoming_deduplication :: "MessengerConfig \<Rightarrow> duration \<Rightarrow> nat \<Rightarrow> AprsError + MessengerConfig" where
  "with_incoming_deduplication c window capacity =
     (if window = 0 then Err InvalidMessengerInterval
      else Ok (c\<lparr>mc_incoming_dedup_window := window, mc_max_incoming := capacity\<rparr>))"

text \<open>\<open>NonZeroU8\<close>, \<open>NonZeroU16\<close> and \<open>NonZeroUsize\<close> fields.\<close>

definition MessengerConfig_wf :: "MessengerConfig \<Rightarrow> bool" where
  "MessengerConfig_wf c \<longleftrightarrow> mc_max_retries c \<noteq> 0 \<and> 0 < mc_max_pending c \<and> mc_max_pending c \<le> 65535 \<and>
     0 < mc_max_incoming c \<and> mc_max_incoming c \<le> usize_max"

section \<open>State\<close>

record PendingMessage =
  pm_message_id :: MessageId
  pm_addressee :: DirectMessageAddressee
  pm_wire_frame :: bytes
  pm_attempts :: u8
  pm_last_sent :: "instant option"

record AprsMessenger =
  mg_my_callsign :: Ax25Address
  mg_digipeater_path :: DigipeaterPath
  mg_tocall :: Tocall
  mg_pending_messages :: "PendingMessage list"
  mg_next_message_id :: nat
  mg_incoming_seen :: "(Ax25Address \<times> MessageId, instant) hashmap"
  mg_config :: MessengerConfig

definition AprsMessenger_with_config :: "AprsFrameHeader \<Rightarrow> MessengerConfig \<Rightarrow> AprsMessenger" where
  "AprsMessenger_with_config header config =
     \<lparr>mg_my_callsign = fh_source header, mg_digipeater_path = fh_path header, mg_tocall = fh_tocall header,
      mg_pending_messages = [], mg_next_message_id = 1, mg_incoming_seen = [], mg_config = config\<rparr>"

definition AprsMessenger_new :: "AprsFrameHeader \<Rightarrow> AprsMessenger" where
  "AprsMessenger_new header = AprsMessenger_with_config header MessengerConfig_default"

definition messenger_frame_header :: "AprsMessenger \<Rightarrow> AprsFrameHeader" where
  "messenger_frame_header m =
     \<lparr>fh_source = mg_my_callsign m, fh_tocall = mg_tocall m, fh_path = mg_digipeater_path m\<rparr>"

section \<open>Outbound messages\<close>

text \<open>\<open>NonZeroU16::checked_add(1).unwrap_or(MIN)\<close>\<close>

definition next_sequence :: "nat \<Rightarrow> nat" where
  "next_sequence n = (if n = 65535 then 1 else n + 1)"

text \<open>The search loop \<open>for _ in 0..=occupied.len()\<close>.\<close>

fun find_available :: "nat \<Rightarrow> MessageId list \<Rightarrow> nat \<Rightarrow> MessageId option \<times> nat" where
  "find_available 0 occupied next_id = (None, next_id)"
| "find_available (Suc k) occupied next_id =
     (let candidate = MessageId_from_sequence_number next_id;
          next' = next_sequence next_id
      in if candidate \<notin> set occupied then (Some candidate, next')
         else find_available k occupied next')"

definition queue_message ::
  "AprsMessenger \<Rightarrow> DirectMessageAddressee \<Rightarrow> MessageText \<Rightarrow> (AprsError + MessageId) \<times> AprsMessenger" where
  "queue_message m addressee text =
     (let capacity = mc_max_pending (mg_config m)
      in if length (mg_pending_messages m) \<ge> capacity then (Err (PendingMessageCapacity capacity), m)
         else
           let occupied = remdups (map pm_message_id (mg_pending_messages m));
               (available, next') = find_available (Suc (length occupied)) occupied (mg_next_message_id m);
               m1 = m\<lparr>mg_next_message_id := next'\<rparr>
           in case available of
                None \<Rightarrow> (Err (PendingMessageCapacity capacity), m1)
              | Some message_id \<Rightarrow>
                  (let wire_frame = AprsFrameHeader_message (messenger_frame_header m1) addressee text (Some message_id)
                   in (Ok message_id,
                       m1\<lparr>mg_pending_messages := mg_pending_messages m1 @
                         [\<lparr>pm_message_id = message_id, pm_addressee = addressee, pm_wire_frame = wire_frame,
                           pm_attempts = 0, pm_last_sent = None\<rparr>]\<rparr>)))"

definition send_eligible :: "MessengerConfig \<Rightarrow> instant \<Rightarrow> PendingMessage \<Rightarrow> bool" where
  "send_eligible c now msg \<longleftrightarrow>
     is_none_or (pm_last_sent msg) (\<lambda>last. interval_elapsed now (mc_retry_interval c) last)"

definition record_attempt :: "instant \<Rightarrow> PendingMessage \<Rightarrow> PendingMessage" where
  "record_attempt now msg = msg\<lparr>pm_attempts := pm_attempts msg + 1, pm_last_sent := Some now\<rparr>"

fun next_frame_loop ::
  "MessengerConfig \<Rightarrow> instant \<Rightarrow> PendingMessage list \<Rightarrow> bytes option \<times> PendingMessage list" where
  "next_frame_loop c now [] = (None, [])"
| "next_frame_loop c now (msg # rest) =
     (if pm_attempts msg \<ge> mc_max_retries c then
        (let (r, rest') = next_frame_loop c now rest in (r, msg # rest'))
      else if send_eligible c now msg then (Some (pm_wire_frame msg), record_attempt now msg # rest)
      else (let (r, rest') = next_frame_loop c now rest in (r, msg # rest')))"

definition next_frame_to_send :: "AprsMessenger \<Rightarrow> instant \<Rightarrow> bytes option \<times> AprsMessenger" where
  "next_frame_to_send m now =
     (let (r, pending) = next_frame_loop (mg_config m) now (mg_pending_messages m)
      in (r, m\<lparr>mg_pending_messages := pending\<rparr>))"

definition peek_frame_to_send :: "AprsMessenger \<Rightarrow> instant \<Rightarrow> (MessageId \<times> bytes) option" where
  "peek_frame_to_send m now =
     map_option (\<lambda>msg. (pm_message_id msg, pm_wire_frame msg))
       (List.find (\<lambda>msg. pm_attempts msg < mc_max_retries (mg_config m) \<and> send_eligible (mg_config m) now msg)
          (mg_pending_messages m))"

definition commit_send :: "AprsMessenger \<Rightarrow> MessageId \<Rightarrow> instant \<Rightarrow> (AprsError + u8) \<times> AprsMessenger" where
  "commit_send m message_id now =
     (case position (\<lambda>p. pm_message_id p = message_id) (mg_pending_messages m) of
        None \<Rightarrow> (Err UnknownPendingMessage, m)
      | Some i \<Rightarrow>
          (let msg = mg_pending_messages m ! i
           in if pm_attempts msg \<ge> mc_max_retries (mg_config m) then (Err MessageAttemptsExhausted, m)
              else if is_some_and (pm_last_sent msg) (\<lambda>last. fresh now (mc_retry_interval (mg_config m)) last)
              then (Err MessageRetryNotDue, m)
              else
                let msg' = record_attempt now msg;
                    m' = m\<lparr>mg_pending_messages := (mg_pending_messages m)[i := msg']\<rparr>
                in if pm_attempts msg' = 0 then (Err MessageAttemptsExhausted, m')
                   else (Ok (pm_attempts msg'), m')))"

definition cleanup_condition :: "MessengerConfig \<Rightarrow> instant \<Rightarrow> PendingMessage \<Rightarrow> bool" where
  "cleanup_condition c now p \<longleftrightarrow> pm_attempts p \<ge> mc_max_retries c \<and>
     is_some_and (pm_last_sent p) (\<lambda>last. interval_elapsed now (mc_retry_interval c) last)"

definition cleanup_expired :: "AprsMessenger \<Rightarrow> instant \<Rightarrow> MessageId list \<times> AprsMessenger" where
  "cleanup_expired m now =
     (map pm_message_id (filter (cleanup_condition (mg_config m) now) (mg_pending_messages m)),
      m\<lparr>mg_pending_messages := filter (\<lambda>p. \<not> cleanup_condition (mg_config m) now p) (mg_pending_messages m)\<rparr>)"

section \<open>Incoming messages\<close>

definition is_duplicate_incoming :: "AprsMessenger \<Rightarrow> Ax25Address \<Rightarrow> AprsMessage \<Rightarrow> instant \<Rightarrow> bool" where
  "is_duplicate_incoming m source msg now =
     (case am_message_id msg of
        None \<Rightarrow> False
      | Some i \<Rightarrow> is_some_and (hm_get (mg_incoming_seen m) (source, i))
          (\<lambda>seen_at. fresh now (mc_incoming_dedup_window (mg_config m)) seen_at))"

definition check_incoming_capacity ::
  "AprsMessenger \<Rightarrow> Ax25Address \<Rightarrow> AprsMessage \<Rightarrow> instant \<Rightarrow> AprsError + unit" where
  "check_incoming_capacity m source msg now =
     (if am_message_id msg = None \<or> is_duplicate_incoming m source msg now then Ok ()
      else
        let retained = length (filter (\<lambda>(k, seen_at). fresh now (mc_incoming_dedup_window (mg_config m)) seen_at)
                                 (mg_incoming_seen m))
        in if retained \<ge> mc_max_incoming (mg_config m)
           then Err (IncomingMessageCapacity (mc_max_incoming (mg_config m)))
           else Ok ())"

definition mark_incoming_seen ::
  "AprsMessenger \<Rightarrow> Ax25Address \<Rightarrow> AprsMessage \<Rightarrow> instant \<Rightarrow> (AprsError + unit) \<times> AprsMessenger" where
  "mark_incoming_seen m source msg now =
     (case check_incoming_capacity m source msg now of
        Inl e \<Rightarrow> (Err e, m)
      | Inr _ \<Rightarrow>
          (let window = mc_incoming_dedup_window (mg_config m);
               seen = hm_retain (\<lambda>_ seen_at. fresh now window seen_at) (mg_incoming_seen m);
               seen' = (case am_message_id msg of
                          None \<Rightarrow> seen
                        | Some i \<Rightarrow>
                            (case hm_get seen (source, i) of
                               None \<Rightarrow> hm_insert (source, i) now seen
                             | Some seen_at \<Rightarrow>
                                 (if now > seen_at then hm_insert (source, i) now seen else seen)))
           in (Ok (), m\<lparr>mg_incoming_seen := seen'\<rparr>)))"

definition is_new_incoming ::
  "AprsMessenger \<Rightarrow> Ax25Address \<Rightarrow> AprsMessage \<Rightarrow> instant \<Rightarrow> (AprsError + bool) \<times> AprsMessenger" where
  "is_new_incoming m source msg now =
     (if is_duplicate_incoming m source msg now then (Ok False, m)
      else (case mark_incoming_seen m source msg now of
              (Inl e, m') \<Rightarrow> (Err e, m')
            | (Inr _, m') \<Rightarrow> (Ok True, m')))"

definition acked_by :: "bytes \<Rightarrow> MessageId \<Rightarrow> PendingMessage \<Rightarrow> bool" where
  "acked_by sender i p \<longleftrightarrow> pm_message_id p = i \<and>
     eq_ignore_ascii_case (DirectMessageAddressee_as_str (pm_addressee p)) sender"

definition process_incoming :: "AprsMessenger \<Rightarrow> Ax25Address \<Rightarrow> AprsMessage \<Rightarrow> bool \<times> AprsMessenger" where
  "process_incoming m source msg =
     (let kind = AprsMessage_kind msg
      in if \<not> eq_ignore_ascii_case (MessageAddressee_as_str (am_addressee msg)) (Ax25Address_display (mg_my_callsign m))
            \<or> \<not> (kind = Direct \<or> kind = AckRej)
         then (False, m)
         else
           let sender = Ax25Address_display source;
               before = length (mg_pending_messages m);
               p1 = (case (if kind = AckRej then MessageControl_from_text (am_text msg) else None) of
                       None \<Rightarrow> mg_pending_messages m
                     | Some control \<Rightarrow>
                         filter (\<lambda>p. \<not> acked_by sender (MessageControl_message_id control) p) (mg_pending_messages m));
               p2 = (case am_reply_ack msg of
                       None \<Rightarrow> p1
                     | Some acked \<Rightarrow> filter (\<lambda>p. \<not> acked_by sender acked p) p1)
           in (length p2 < before, m\<lparr>mg_pending_messages := p2\<rparr>))"

definition build_ack :: "AprsMessenger \<Rightarrow> DirectMessageAddressee \<Rightarrow> MessageId \<Rightarrow> bytes" where
  "build_ack m addressee message_id =
     AprsFrameHeader_message (messenger_frame_header m) addressee (MessageText_acknowledgement message_id) None"

definition build_rej :: "AprsMessenger \<Rightarrow> DirectMessageAddressee \<Rightarrow> MessageId \<Rightarrow> bytes" where
  "build_rej m addressee message_id =
     AprsFrameHeader_message (messenger_frame_header m) addressee (MessageText_rejection message_id) None"

section \<open>Allocation of identifiers\<close>

definition sequence_at :: "nat \<Rightarrow> nat \<Rightarrow> nat" where
  "sequence_at n i = Suc ((n - 1 + i) mod 65535)"

lemma sequence_at_0: "1 \<le> n \<Longrightarrow> n \<le> 65535 \<Longrightarrow> sequence_at n 0 = n"
  by (simp add: sequence_at_def)

lemma next_sequence_range: "1 \<le> n \<Longrightarrow> n \<le> 65535 \<Longrightarrow> 1 \<le> next_sequence n \<and> next_sequence n \<le> 65535"
  by (simp add: next_sequence_def)

lemma sequence_at_next: "1 \<le> n \<Longrightarrow> n \<le> 65535 \<Longrightarrow> sequence_at (next_sequence n) i = sequence_at n (Suc i)"
  by (cases "n = 65535") (simp_all add: sequence_at_def next_sequence_def)

lemma sequence_at_inj: "inj_on (sequence_at n) {..<65535}"
proof (rule linorder_inj_onI')
  fix i j :: nat
  assume ij: "i \<in> {..<65535}" "j \<in> {..<65535}" "i < j"
  show "sequence_at n i \<noteq> sequence_at n j"
  proof
    assume "sequence_at n i = sequence_at n j"
    then have "(n - 1 + j) mod 65535 = (n - 1 + i) mod 65535" by (simp add: sequence_at_def)
    then have "65535 dvd (n - 1 + j) - (n - 1 + i)" by (subst (asm) mod_eq_dvd_iff_nat) (use ij in auto)
    then show False using ij by (auto dest: dvd_imp_le)
  qed
qed

lemma find_available_None:
  assumes "1 \<le> n" "n \<le> 65535" and "fst (find_available k occ n) = None" and "i < k"
  shows "MessageId_from_sequence_number (sequence_at n i) \<in> set occ"
  using assms
proof (induction k occ n arbitrary: i rule: find_available.induct)
  case (2 k occ n)
  have occ: "MessageId_from_sequence_number n \<in> set occ"
    using "2.prems"(3) by (auto simp: Let_def split: if_splits)
  then have rest: "fst (find_available k occ (next_sequence n)) = None" using "2.prems"(3) by (simp add: Let_def)
  show ?case
  proof (cases i)
    case 0
    then show ?thesis using occ "2.prems"(1,2) by (simp add: sequence_at_0)
  next
    case (Suc j)
    have "MessageId_from_sequence_number (sequence_at (next_sequence n) j) \<in> set occ"
      by (rule "2.IH" [OF refl refl]) (use occ rest next_sequence_range "2.prems" Suc in auto)
    then show ?thesis using Suc sequence_at_next "2.prems"(1,2) by simp
  qed
qed simp

lemma find_available_Some:
  assumes "1 \<le> n" "n \<le> 65535" and "find_available k occ n = (Some i, n')"
  shows "i \<notin> set occ \<and> (\<exists>s. 1 \<le> s \<and> s \<le> 65535 \<and> i = MessageId_from_sequence_number s) \<and> 1 \<le> n' \<and> n' \<le> 65535"
  using assms
proof (induction k occ n rule: find_available.induct)
  case (2 k occ n)
  show ?case
  proof (cases "MessageId_from_sequence_number n \<in> set occ")
    case True
    with "2.prems" have "find_available k occ (next_sequence n) = (Some i, n')" by (simp add: Let_def)
    with True show ?thesis using "2.IH" [OF refl refl] next_sequence_range "2.prems"(1,2) by auto
  next
    case False
    with "2.prems" next_sequence_range [of n] show ?thesis by (auto simp: Let_def)
  qed
qed simp

text \<open>One search step more than there are identifiers in use always finds a free one.\<close>

lemma find_available_total:
  assumes "1 \<le> n" "n \<le> 65535" and "length occ < 65535" and "distinct occ"
  obtains i n' where "find_available (Suc (length occ)) occ n = (Some i, n')"
proof (cases "fst (find_available (Suc (length occ)) occ n)")
  case None
  let ?f = "\<lambda>i. MessageId_from_sequence_number (sequence_at n i)"
  have "?f ` {..length occ} \<subseteq> set occ"
    using find_available_None [OF assms(1,2) None] by (auto simp: less_Suc_eq_le)
  then have "card (?f ` {..length occ}) \<le> length occ"
    by (metis card_mono List.finite_set distinct_card assms(4))
  moreover have "inj_on ?f {..length occ}"
  proof (rule inj_onI)
    fix x y assume "x \<in> {..length occ}" "y \<in> {..length occ}" "?f x = ?f y"
    then show "x = y" using sequence_at_inj [of n] assms(3) by (auto dest!: sequence_id_inj inj_onD)
  qed
  then have "card (?f ` {..length occ}) = Suc (length occ)" by (simp add: card_image)
  ultimately show ?thesis by simp
next
  case (Some i)
  then show ?thesis using that by (metis prod.collapse)
qed

section \<open>The messenger invariant\<close>

definition pending_ok :: "AprsMessenger \<Rightarrow> PendingMessage \<Rightarrow> bool" where
  "pending_ok m p \<longleftrightarrow> MessageId_wf (pm_message_id p) \<and> DirectMessageAddressee_wf (pm_addressee p) \<and>
     pm_attempts p \<le> mc_max_retries (mg_config m) \<and>
     (\<exists>t. MessageText_wf t \<and> pm_wire_frame p =
        AprsFrameHeader_message (messenger_frame_header m) (pm_addressee p) t (Some (pm_message_id p)))"

definition messenger_inv :: "AprsMessenger \<Rightarrow> bool" where
  "messenger_inv m \<longleftrightarrow> MessengerConfig_wf (mg_config m) \<and> AprsFrameHeader_wf (messenger_frame_header m) \<and>
     distinct (map pm_message_id (mg_pending_messages m)) \<and>
     length (mg_pending_messages m) \<le> mc_max_pending (mg_config m) \<and>
     1 \<le> mg_next_message_id m \<and> mg_next_message_id m \<le> 65535 \<and>
     (\<forall>p \<in> set (mg_pending_messages m). pending_ok m p) \<and>
     hm_wf (mg_incoming_seen m) \<and> hm_len (mg_incoming_seen m) \<le> mc_max_incoming (mg_config m)"

lemma pending_ok_update [simp]:
  "pending_ok (m\<lparr>mg_pending_messages := ps\<rparr>) p = pending_ok m p"
  "pending_ok (m\<lparr>mg_next_message_id := n\<rparr>) p = pending_ok m p"
  "pending_ok (m\<lparr>mg_incoming_seen := s\<rparr>) p = pending_ok m p"
  by (simp_all add: pending_ok_def messenger_frame_header_def)

lemma frame_header_update [simp]:
  "messenger_frame_header (m\<lparr>mg_pending_messages := ps\<rparr>) = messenger_frame_header m"
  "messenger_frame_header (m\<lparr>mg_next_message_id := n\<rparr>) = messenger_frame_header m"
  "messenger_frame_header (m\<lparr>mg_incoming_seen := s\<rparr>) = messenger_frame_header m"
  by (simp_all add: messenger_frame_header_def)

lemma queue_message_full:
  "length (mg_pending_messages m) \<ge> mc_max_pending (mg_config m) \<Longrightarrow>
     queue_message m a t = (Err (PendingMessageCapacity (mc_max_pending (mg_config m))), m)"
  by (simp add: queue_message_def)

lemma queue_message_Ok:
  assumes inv: "messenger_inv m" and room: "length (mg_pending_messages m) < mc_max_pending (mg_config m)"
  obtains i n' where "i \<notin> set (map pm_message_id (mg_pending_messages m))" "MessageId_wf i" "1 \<le> n'" "n' \<le> 65535"
    "queue_message m a t = (Ok i, m\<lparr>mg_next_message_id := n',
       mg_pending_messages := mg_pending_messages m @
         [\<lparr>pm_message_id = i, pm_addressee = a,
           pm_wire_frame = AprsFrameHeader_message (messenger_frame_header m) a t (Some i),
           pm_attempts = 0, pm_last_sent = None\<rparr>]\<rparr>)"
proof -
  let ?occ = "remdups (map pm_message_id (mg_pending_messages m))"
  have n: "1 \<le> mg_next_message_id m" "mg_next_message_id m \<le> 65535"
    using inv by (simp_all add: messenger_inv_def)
  have "length ?occ < 65535"
    using room inv length_remdups_leq [of "map pm_message_id (mg_pending_messages m)"]
    by (simp add: messenger_inv_def MessengerConfig_wf_def)
  then obtain i n' where f: "find_available (Suc (length ?occ)) ?occ (mg_next_message_id m) = (Some i, n')"
    using find_available_total [OF n] by (metis distinct_remdups)
  from find_available_Some [OF n this] obtain s where
    "i \<notin> set (map pm_message_id (mg_pending_messages m))" "1 \<le> n'" "n' \<le> 65535"
    "s \<le> 65535" "i = MessageId_from_sequence_number s" by auto
  then show ?thesis
    using that sequence_id_wf room f by (simp add: queue_message_def Let_def)
qed

lemma inv_queue:
  assumes "messenger_inv m" and "DirectMessageAddressee_wf a" and "MessageText_wf t"
  shows "messenger_inv (snd (queue_message m a t))"
proof (cases "length (mg_pending_messages m) < mc_max_pending (mg_config m)")
  case True
  with assms(1) show ?thesis
  proof (rule queue_message_Ok [where a = a and t = t])
    fix i n'
    assume new: "i \<notin> set (map pm_message_id (mg_pending_messages m))" "MessageId_wf i" "1 \<le> n'" "n' \<le> 65535"
      "queue_message m a t = (Ok i, m\<lparr>mg_next_message_id := n',
       mg_pending_messages := mg_pending_messages m @
         [\<lparr>pm_message_id = i, pm_addressee = a,
           pm_wire_frame = AprsFrameHeader_message (messenger_frame_header m) a t (Some i),
           pm_attempts = 0, pm_last_sent = None\<rparr>]\<rparr>)"
    have "pending_ok m \<lparr>pm_message_id = i, pm_addressee = a,
           pm_wire_frame = AprsFrameHeader_message (messenger_frame_header m) a t (Some i),
           pm_attempts = 0, pm_last_sent = None\<rparr>"
      using new assms by (auto simp: pending_ok_def)
    with new True assms(1) show ?thesis by (auto simp: messenger_inv_def)
  qed
qed (use assms queue_message_full [of m a t] in \<open>simp add: not_less\<close>)

text \<open>Replacing one pending entry by its recorded attempt.\<close>

lemma attempts_Suc:
  "pm_attempts p < mc \<Longrightarrow> pm_attempts p + 1 \<le> (mc :: u8) \<and> pm_attempts p + 1 \<noteq> 0 \<and>
     unat (pm_attempts p + 1) = Suc (unat (pm_attempts p))"
proof -
  assume lt: "pm_attempts p < mc"
  then have "unat (pm_attempts p) < unat mc" "unat mc < 256"
    using unsigned_less [of mc] by (simp_all add: word_less_nat_alt)
  then have "unat (pm_attempts p + 1) = Suc (unat (pm_attempts p))"
    by (subst unat_add_lem [THEN iffD1]) simp_all
  with \<open>unat (pm_attempts p) < unat mc\<close> show ?thesis
    by (auto simp: word_le_nat_alt)
qed

lemma inv_record_attempt:
  assumes "messenger_inv m" and "i < length (mg_pending_messages m)"
    and "pm_attempts (mg_pending_messages m ! i) < mc_max_retries (mg_config m)"
  shows "messenger_inv (m\<lparr>mg_pending_messages := (mg_pending_messages m)[i := record_attempt now (mg_pending_messages m ! i)]\<rparr>)"
proof -
  let ?p = "mg_pending_messages m ! i"
  have "?p \<in> set (mg_pending_messages m)" using assms(2) by simp
  then have "pending_ok m (record_attempt now ?p)"
    using assms(1,3) attempts_Suc by (auto simp: messenger_inv_def pending_ok_def record_attempt_def)
  moreover have "map pm_message_id ((mg_pending_messages m)[i := record_attempt now ?p]) = map pm_message_id (mg_pending_messages m)"
    using assms(2) by (simp add: map_update record_attempt_def list_update_same_conv)
  ultimately show ?thesis
    using assms(1) by (auto simp: messenger_inv_def dest!: set_update_subset_insert [THEN subsetD])
qed

lemma next_frame_loop_position:
  "next_frame_loop c now ps =
     (case position (\<lambda>p. pm_attempts p < mc_max_retries c \<and> send_eligible c now p) ps of
        None \<Rightarrow> (None, ps)
      | Some i \<Rightarrow> (Some (pm_wire_frame (ps ! i)), ps[i := record_attempt now (ps ! i)]))"
  by (induction ps) (auto simp: not_less split: option.splits)

lemma find_position: "List.find P xs = map_option ((!) xs) (position P xs)"
  by (induction xs) (auto simp: option.map_comp o_def)

lemma next_frame_position:
  "next_frame_to_send m now =
     (case position (\<lambda>p. pm_attempts p < mc_max_retries (mg_config m) \<and> send_eligible (mg_config m) now p)
             (mg_pending_messages m) of
        None \<Rightarrow> (None, m)
      | Some i \<Rightarrow> (Some (pm_wire_frame (mg_pending_messages m ! i)),
          m\<lparr>mg_pending_messages := (mg_pending_messages m)[i := record_attempt now (mg_pending_messages m ! i)]\<rparr>))"
  by (auto simp: next_frame_to_send_def next_frame_loop_position split: option.splits)

lemma inv_next_frame: "messenger_inv m \<Longrightarrow> messenger_inv (snd (next_frame_to_send m now))"
  by (auto simp: next_frame_position position_Some_iff inv_record_attempt split: option.splits)

lemma inv_commit_send: "messenger_inv m \<Longrightarrow> messenger_inv (snd (commit_send m i now))"
  by (auto simp: commit_send_def Let_def position_Some_iff inv_record_attempt not_le split: option.splits)

lemma inv_filter: "messenger_inv m \<Longrightarrow> messenger_inv (m\<lparr>mg_pending_messages := filter P (mg_pending_messages m)\<rparr>)"
  by (auto simp: messenger_inv_def distinct_map_filter intro: le_trans [OF length_filter_le])

lemma inv_cleanup: "messenger_inv m \<Longrightarrow> messenger_inv (snd (cleanup_expired m now))"
  by (simp add: cleanup_expired_def inv_filter)

text \<open>The messages an incoming frame acknowledges.\<close>

definition acknowledges :: "AprsMessenger \<Rightarrow> Ax25Address \<Rightarrow> AprsMessage \<Rightarrow> PendingMessage \<Rightarrow> bool" where
  "acknowledges m source msg p \<longleftrightarrow>
     eq_ignore_ascii_case (MessageAddressee_as_str (am_addressee msg)) (Ax25Address_display (mg_my_callsign m)) \<and>
     (AprsMessage_kind msg = Direct \<or> AprsMessage_kind msg = AckRej) \<and>
     (AprsMessage_kind msg = AckRej \<and> is_some_and (MessageControl_from_text (am_text msg))
        (\<lambda>c. acked_by (Ax25Address_display source) (MessageControl_message_id c) p) \<or>
      is_some_and (am_reply_ack msg) (\<lambda>i. acked_by (Ax25Address_display source) i p))"

lemma process_incoming_filter:
  "process_incoming m source msg =
    (length (filter (\<lambda>p. \<not> acknowledges m source msg p) (mg_pending_messages m)) < length (mg_pending_messages m),
     m\<lparr>mg_pending_messages := filter (\<lambda>p. \<not> acknowledges m source msg p) (mg_pending_messages m)\<rparr>)"
  by (cases "MessageControl_from_text (am_text msg)"; cases "am_reply_ack msg")
     (auto simp: process_incoming_def acknowledges_def Let_def conj_commute)

lemma inv_process_incoming: "messenger_inv m \<Longrightarrow> messenger_inv (snd (process_incoming m source msg))"
  by (simp add: process_incoming_filter inv_filter)

section \<open>Incoming history\<close>

lemma mark_incoming_seen_cases:
  assumes "hm_wf (mg_incoming_seen m)"
  obtains (refused) e where "mark_incoming_seen m source msg now = (Err e, m)"
  | (marked) seen where "mark_incoming_seen m source msg now = (Ok (), m\<lparr>mg_incoming_seen := seen\<rparr>)"
      "hm_wf seen" "hm_len (mg_incoming_seen m) \<le> mc_max_incoming (mg_config m) \<Longrightarrow> hm_len seen \<le> mc_max_incoming (mg_config m)"
      "\<And>k t. hm_get (mg_incoming_seen m) k = Some t \<Longrightarrow> fresh now (mc_incoming_dedup_window (mg_config m)) t \<Longrightarrow>
         \<exists>t'. hm_get seen k = Some t' \<and> (t' = t \<or> t' = now)"
      "\<And>i. am_message_id msg = Some i \<Longrightarrow> \<exists>t'. hm_get seen (source, i) = Some t' \<and> now \<le> t'"
proof -
  let ?w = "mc_incoming_dedup_window (mg_config m)"
  let ?seen = "hm_retain (\<lambda>_ t. fresh now ?w t) (mg_incoming_seen m)"
  have wf: "hm_wf ?seen" by (rule hm.wf_retain [OF assms])
  have keep: "hm_get ?seen k = Some t" if "hm_get (mg_incoming_seen m) k = Some t" "fresh now ?w t" for k t
    using hm.lookup_retain_keep [OF assms that(1), of "\<lambda>_ t. fresh now ?w t"] that(2) by simp
  have len: "hm_len ?seen \<le> hm_len (mg_incoming_seen m)" by (rule hm.len_retain)
  have count: "hm_len ?seen = length (filter (\<lambda>(k, t). fresh now ?w t) (mg_incoming_seen m))"
    by (simp add: hm_len_def hm_retain_def)
  show ?thesis
  proof (cases "check_incoming_capacity m source msg now")
    case (Inl e)
    then show ?thesis using that(1) by (simp add: mark_incoming_seen_def)
  next
    case (Inr u)
    show ?thesis
    proof (cases "am_message_id msg")
      case None
      with Inr have "mark_incoming_seen m source msg now = (Ok (), m\<lparr>mg_incoming_seen := ?seen\<rparr>)"
        by (simp add: mark_incoming_seen_def Let_def)
      then show ?thesis using None len keep wf by (intro that(2) [of ?seen]) auto
    next
      case (Some i)
      define seen' where "seen' = (case hm_get ?seen (source, i) of
          None \<Rightarrow> hm_insert (source, i) now ?seen
        | Some t \<Rightarrow> if now > t then hm_insert (source, i) now ?seen else ?seen)"
      have eq: "mark_incoming_seen m source msg now = (Ok (), m\<lparr>mg_incoming_seen := seen'\<rparr>)"
        using Inr Some by (simp add: mark_incoming_seen_def Let_def seen'_def)
      have room: "hm_len ?seen < mc_max_incoming (mg_config m)" if "hm_get ?seen (source, i) = None"
      proof -
        have "\<not> is_duplicate_incoming m source msg now"
          using that keep Some by (fastforce simp: is_duplicate_incoming_def is_some_and_def split: option.splits)
        with Inr Some count show ?thesis by (simp add: check_incoming_capacity_def Let_def split: if_splits)
      qed
      have "hm_wf seen'" using wf by (auto simp: seen'_def hm.wf_insert split: option.splits)
      moreover have "hm_len seen' \<le> mc_max_incoming (mg_config m)"
        if "hm_len (mg_incoming_seen m) \<le> mc_max_incoming (mg_config m)"
        using room that len hm.len_insert [OF wf, of "(source, i)" now]
        by (auto simp: seen'_def split: option.splits)
      moreover have "\<exists>t'. hm_get seen' k = Some t' \<and> (t' = t \<or> t' = now)"
        if "hm_get (mg_incoming_seen m) k = Some t" "fresh now ?w t" for k t
        using keep [OF that] by (auto simp: seen'_def hm.lookup_insert split: option.splits)
      moreover have "\<exists>t'. hm_get seen' (source, i) = Some t' \<and> now \<le> t'"
        by (auto simp: seen'_def hm.lookup_insert split: option.splits)
      ultimately show ?thesis using eq Some by (intro that(2) [of seen']) auto
    qed
  qed
qed

lemma inv_mark_incoming:
  assumes "messenger_inv m"
  shows "messenger_inv (snd (mark_incoming_seen m source msg now))"
proof -
  have "hm_wf (mg_incoming_seen m)" using assms by (simp add: messenger_inv_def)
  then show ?thesis
    by (cases rule: mark_incoming_seen_cases [of m source msg now]) (use assms in \<open>auto simp: messenger_inv_def\<close>)
qed

lemma is_new_incoming_state:
  "snd (is_new_incoming m source msg now) =
     (if is_duplicate_incoming m source msg now then m else snd (mark_incoming_seen m source msg now))"
  by (auto simp: is_new_incoming_def split: sum.splits prod.splits)

section \<open>Steps of a messenger\<close>

text \<open>An event with the time it happens at.\<close>

datatype messenger_op =
    OpQueue DirectMessageAddressee MessageText
  | OpNextFrame
  | OpCommit MessageId
  | OpCleanup
  | OpIncoming Ax25Address AprsMessage
  | OpMark Ax25Address AprsMessage
  | OpIsNew Ax25Address AprsMessage

fun messenger_step :: "instant \<times> messenger_op \<Rightarrow> AprsMessenger \<Rightarrow> AprsMessenger" where
  "messenger_step (now, OpQueue a t) m = snd (queue_message m a t)"
| "messenger_step (now, OpNextFrame) m = snd (next_frame_to_send m now)"
| "messenger_step (now, OpCommit i) m = snd (commit_send m i now)"
| "messenger_step (now, OpCleanup) m = snd (cleanup_expired m now)"
| "messenger_step (now, OpIncoming source msg) m = snd (process_incoming m source msg)"
| "messenger_step (now, OpMark source msg) m = snd (mark_incoming_seen m source msg now)"
| "messenger_step (now, OpIsNew source msg) m = snd (is_new_incoming m source msg now)"

fun messenger_op_wf :: "messenger_op \<Rightarrow> bool" where
  "messenger_op_wf (OpQueue a t) \<longleftrightarrow> DirectMessageAddressee_wf a \<and> MessageText_wf t"
| "messenger_op_wf op \<longleftrightarrow> True"

lemma messenger_inv_new:
  "AprsFrameHeader_wf h \<Longrightarrow> MessengerConfig_wf c \<Longrightarrow> messenger_inv (AprsMessenger_with_config h c)"
  by (simp add: messenger_inv_def AprsMessenger_with_config_def messenger_frame_header_def hm_wf_def
      hm_len_def AprsFrameHeader_wf_def)

lemma messenger_inv_step:
  assumes "messenger_inv m" and "messenger_op_wf op"
  shows "messenger_inv (messenger_step (now, op) m)"
  using assms
  by (cases op) (simp_all add: inv_queue inv_next_frame inv_commit_send inv_cleanup inv_process_incoming
      inv_mark_incoming is_new_incoming_state)

lemma messenger_inv_run:
  "messenger_inv m \<Longrightarrow> \<forall>op \<in> set ops. messenger_op_wf (snd op) \<Longrightarrow> messenger_inv (fold messenger_step ops m)"
  by (induction ops arbitrary: m) (auto simp: messenger_inv_step)

text \<open>Only the two marking operations touch the incoming history.\<close>

lemma messenger_step_history:
  "mg_config (messenger_step op m) = mg_config m"
  "(\<forall>s g. snd op \<noteq> OpMark s g \<and> snd op \<noteq> OpIsNew s g) \<Longrightarrow> mg_incoming_seen (messenger_step op m) = mg_incoming_seen m"
proof -
  obtain now o' where op: "op = (now, o')" by (cases op)
  have mark: "mg_config (snd (mark_incoming_seen m s g now)) = mg_config m" for s g
    by (auto simp: mark_incoming_seen_def Let_def split: sum.splits)
  show "mg_config (messenger_step op m) = mg_config m"
    using mark unfolding op
    by (cases o') (auto simp: queue_message_def next_frame_position commit_send_def cleanup_expired_def
        process_incoming_filter is_new_incoming_state Let_def split: option.splits prod.splits)
  show "(\<forall>s g. snd op \<noteq> OpMark s g \<and> snd op \<noteq> OpIsNew s g) \<Longrightarrow> mg_incoming_seen (messenger_step op m) = mg_incoming_seen m"
    unfolding op
    by (cases o') (auto simp: queue_message_def next_frame_position commit_send_def cleanup_expired_def
        process_incoming_filter Let_def split: option.splits prod.splits)
qed

interpretation incoming_cache: ttl_cache "hm_get \<circ> mg_incoming_seen" "\<lambda>m. mc_incoming_dedup_window (mg_config m)"
  messenger_step fst "\<lambda>m. hm_wf (mg_incoming_seen m)"
proof unfold_locales
  fix op :: "instant \<times> messenger_op" and m k t
  obtain now o' where op: "op = (now, o')" by (cases op)
  show "mc_incoming_dedup_window (mg_config (messenger_step op m)) = mc_incoming_dedup_window (mg_config m)"
    by (simp add: messenger_step_history)
  assume wf: "hm_wf (mg_incoming_seen m)"
  have mark: "hm_wf (mg_incoming_seen (snd (mark_incoming_seen m s g now)))"
    "hm_get (mg_incoming_seen m) k = Some t \<Longrightarrow> fresh now (mc_incoming_dedup_window (mg_config m)) t \<Longrightarrow>
      \<exists>t'. hm_get (mg_incoming_seen (snd (mark_incoming_seen m s g now))) k = Some t' \<and> (t' = t \<or> t' = now)" for s g
    by (cases rule: mark_incoming_seen_cases [OF wf, of s g now]; use wf in simp)+
  consider (mark) s g where "o' = OpMark s g" | (new) s g where "o' = OpIsNew s g"
    | (other) "\<forall>s g. snd op \<noteq> OpMark s g \<and> snd op \<noteq> OpIsNew s g" using op by auto
  note kinds = this
  show "hm_wf (mg_incoming_seen (messenger_step op m))"
    by (cases rule: kinds) (use wf mark op in \<open>simp_all add: messenger_step_history(2) is_new_incoming_state\<close>)
  assume "(hm_get \<circ> mg_incoming_seen) m k = Some t" "fresh (fst op) (mc_incoming_dedup_window (mg_config m)) t"
  then have seen: "hm_get (mg_incoming_seen m) k = Some t" "fresh now (mc_incoming_dedup_window (mg_config m)) t"
    using op by simp_all
  show "\<exists>t'. (hm_get \<circ> mg_incoming_seen) (messenger_step op m) k = Some t' \<and> (t' = t \<or> t' = fst op)"
    by (cases rule: kinds)
       (use seen mark(2) [OF seen] op in \<open>simp_all add: messenger_step_history(2) is_new_incoming_state\<close>)
qed

section \<open>Two sample stations\<close>

definition sample_messenger :: AprsMessenger where
  "sample_messenger = AprsMessenger_new sample_header"

definition sample_peer :: AprsMessenger where
  "sample_peer = AprsMessenger_new (sample_header\<lparr>fh_source := \<lparr>aa_callsign = Callsign [0x57, 0x31], aa_ssid = Ssid 0\<rparr>\<rparr>)"

definition sample_reply_addressee :: DirectMessageAddressee where
  "sample_reply_addressee = DirectMessageAddressee (MessageAddressee [0x4E, 0x30, 0x43, 0x2D, 0x37])"

lemma default_config_wf: "MessengerConfig_wf MessengerConfig_default"
  by (simp add: MessengerConfig_wf_def MessengerConfig_default_def MessengerConfig_new_def MAX_RETRIES_def usize_max_def)

lemma sample_messenger_inv: "messenger_inv sample_messenger"
  unfolding sample_messenger_def AprsMessenger_new_def
  by (rule messenger_inv_new [OF sample_header_wf default_config_wf])

lemma sample_peer_inv: "messenger_inv sample_peer"
  unfolding sample_peer_def AprsMessenger_new_def
  by (rule messenger_inv_new [OF _ default_config_wf])
     (simp add: sample_header_def AprsFrameHeader_wf_def Ax25Address_wf_def Callsign_wf_def Ssid_wf_def
      DigipeaterPath_wf_def callsign_char_def ascii_defs)

lemma sample_reply_addressee_wf: "DirectMessageAddressee_wf sample_reply_addressee"
  by (simp add: sample_reply_addressee_def DirectMessageAddressee_wf_def DirectMessageAddressee_as_str_def
      MessageAddressee_wf_def visible_def is_printable_ascii_def is_bulletin_addressee_def
      bulletin_kind_from_addressee_def starts_with_def strip_prefix_def)

lemma sample_text_wf: "MessageText_wf (MessageText [0x68, 0x69])"
  by (simp add: MessageText_wf_def is_printable_ascii_def)

lemmas sample_messenger_defs = sample_messenger_def AprsMessenger_new_def AprsMessenger_with_config_def
  MessengerConfig_default_def MessengerConfig_new_def

text \<open>The sample station after queueing one message, identifier \<open>1\<close>.\<close>

definition sample_queued :: AprsMessenger where
  "sample_queued = snd (queue_message sample_messenger sample_addressee (MessageText [0x68, 0x69]))"

lemma sample_queue: "queue_message sample_messenger sample_addressee (MessageText [0x68, 0x69]) = (Ok (MessageId [0x31]), sample_queued)"
  by (simp add: sample_queued_def queue_message_def sample_messenger_defs Let_def next_sequence_def
      MessageId_from_sequence_number_def display_nat.simps)

section \<open>Properties\<close>

text \<open>C37. Messenger invariant. Whatever sequence of operations a messenger goes through, the
  identifiers of its pending messages are pairwise different, no message has more attempts recorded
  than the limit, the pending queue and the incoming history respect their capacities, and every
  stored frame is the encoding of its message.\<close>

theorem messenger_invariant:
  assumes "AprsFrameHeader_wf h" and "MessengerConfig_wf c" and "\<forall>op \<in> set ops. messenger_op_wf (snd op)"
    and "m = fold messenger_step ops (AprsMessenger_with_config h c)"
  shows "distinct (map pm_message_id (mg_pending_messages m)) \<and>
    length (mg_pending_messages m) \<le> mc_max_pending (mg_config m) \<and>
    hm_len (mg_incoming_seen m) \<le> mc_max_incoming (mg_config m) \<and>
    (\<forall>p \<in> set (mg_pending_messages m). pm_attempts p \<le> mc_max_retries (mg_config m) \<and>
       (\<exists>t. MessageText_wf t \<and> pm_wire_frame p =
          AprsFrameHeader_message (messenger_frame_header m) (pm_addressee p) t (Some (pm_message_id p))))"
  using messenger_inv_run [OF messenger_inv_new [OF assms(1,2)] assms(3)] assms(4)
  by (auto simp: messenger_inv_def pending_ok_def)

theorem messenger_invariant_witness:
  "distinct (map pm_message_id (mg_pending_messages (fold messenger_step
     [(0, OpQueue sample_addressee (MessageText [0x68, 0x69])), (1, OpNextFrame)]
     (AprsMessenger_with_config sample_header MessengerConfig_default))))"
  using messenger_invariant [OF sample_header_wf default_config_wf _ refl,
      of "[(0, OpQueue sample_addressee (MessageText [0x68, 0x69])), (1, OpNextFrame)]"]
    sample_addressee_wf sample_text_wf by (simp del: fold_simps)

text \<open>Queueing. Below capacity, queueing always succeeds (the bounded search for a free identifier
  cannot fail), with an identifier no pending message uses, and appends the message; at capacity it
  fails and changes nothing.\<close>

lemma messenger_queue_total:
  assumes "messenger_inv m"
  shows "if length (mg_pending_messages m) < mc_max_pending (mg_config m)
    then \<exists>i m'. queue_message m a t = (Ok i, m') \<and> i \<notin> pm_message_id ` set (mg_pending_messages m) \<and>
      mg_pending_messages m' = mg_pending_messages m @
        [\<lparr>pm_message_id = i, pm_addressee = a,
          pm_wire_frame = AprsFrameHeader_message (messenger_frame_header m) a t (Some i),
          pm_attempts = 0, pm_last_sent = None\<rparr>]
    else queue_message m a t = (Err (PendingMessageCapacity (mc_max_pending (mg_config m))), m)"
proof (cases "length (mg_pending_messages m) < mc_max_pending (mg_config m)")
  case True
  show ?thesis by (rule queue_message_Ok [OF assms True, of a t]) (use True in auto)
next
  case False
  then show ?thesis by (simp add: queue_message_full)
qed

text \<open>Peek and commit. Taking a frame with \<open>peek_frame_to_send\<close> and recording it with \<open>commit_send\<close>
  at the same time never fails and leaves the same messenger as the one-step \<open>next_frame_to_send\<close>;
  when there is nothing to peek, the one-step call sends nothing either.\<close>

lemma messenger_peek_commit:
  assumes "messenger_inv m"
  shows "case peek_frame_to_send m now of
      None \<Rightarrow> next_frame_to_send m now = (None, m)
    | Some (i, f) \<Rightarrow> \<exists>n m'. n \<noteq> 0 \<and> commit_send m i now = (Ok n, m') \<and> next_frame_to_send m now = (Some f, m')"
proof (cases "position (\<lambda>p. pm_attempts p < mc_max_retries (mg_config m) \<and> send_eligible (mg_config m) now p)
    (mg_pending_messages m)")
  case None
  then show ?thesis by (simp add: peek_frame_to_send_def find_position next_frame_position)
next
  case (Some k)
  let ?ps = "mg_pending_messages m"
  have k: "k < length ?ps" "pm_attempts (?ps ! k) < mc_max_retries (mg_config m)" "send_eligible (mg_config m) now (?ps ! k)"
    using Some by (simp_all add: position_Some_iff)
  have dist: "distinct (map pm_message_id ?ps)" using assms by (simp add: messenger_inv_def)
  have "position (\<lambda>p. pm_message_id p = pm_message_id (?ps ! k)) ?ps = Some k"
    using k(1) dist by (auto simp: position_Some_iff distinct_conv_nth)
  moreover have "\<not> is_some_and (pm_last_sent (?ps ! k)) (\<lambda>last. fresh now (mc_retry_interval (mg_config m)) last)"
    using k(3) by (cases "pm_last_sent (?ps ! k)") (simp_all add: send_eligible_def interval_elapsed_not_fresh)
  ultimately have "commit_send m (pm_message_id (?ps ! k)) now =
      (Ok (pm_attempts (?ps ! k) + 1), m\<lparr>mg_pending_messages := ?ps[k := record_attempt now (?ps ! k)]\<rparr>)"
    using k(2) attempts_Suc [OF k(2)] by (simp add: commit_send_def Let_def record_attempt_def not_le [symmetric])
  with Some attempts_Suc [OF k(2)] show ?thesis
    by (simp add: peek_frame_to_send_def find_position next_frame_position)
qed

text \<open>Transmission policy. A frame is handed out only for a message below the attempt limit that was
  never sent or whose retry interval has elapsed; the message's counter goes up by exactly one
  without wrapping and its time is set. When nothing is handed out, every pending message is
  exhausted or waiting.\<close>

lemma messenger_transmits_due:
  shows "case next_frame_to_send m now of
      (Some f, m') \<Rightarrow> \<exists>k < length (mg_pending_messages m). let p = mg_pending_messages m ! k in
        f = pm_wire_frame p \<and> pm_attempts p < mc_max_retries (mg_config m) \<and>
        (\<forall>t. pm_last_sent p = Some t \<longrightarrow> t + mc_retry_interval (mg_config m) \<le> now) \<and>
        mg_pending_messages m' = (mg_pending_messages m)[k := p\<lparr>pm_attempts := pm_attempts p + 1, pm_last_sent := Some now\<rparr>] \<and>
        unat (pm_attempts p + 1) = Suc (unat (pm_attempts p))
    | (None, m') \<Rightarrow> m' = m \<and> (\<forall>p \<in> set (mg_pending_messages m). mc_max_retries (mg_config m) \<le> pm_attempts p \<or>
        (\<exists>t. pm_last_sent p = Some t \<and> now < t + mc_retry_interval (mg_config m)))"
proof (cases "position (\<lambda>p. pm_attempts p < mc_max_retries (mg_config m) \<and> send_eligible (mg_config m) now p)
    (mg_pending_messages m)")
  case None
  then have "next_frame_to_send m now = (None, m)" by (simp add: next_frame_position)
  moreover have "mc_max_retries (mg_config m) \<le> pm_attempts p \<or>
      (\<exists>t. pm_last_sent p = Some t \<and> now < t + mc_retry_interval (mg_config m))"
    if "p \<in> set (mg_pending_messages m)" for p
    using None that by (cases "pm_last_sent p")
      (auto simp: position_None_iff send_eligible_def interval_elapsed_iff not_less not_le)
  ultimately show ?thesis by simp
next
  case (Some k)
  then have k: "k < length (mg_pending_messages m)" "pm_attempts (mg_pending_messages m ! k) < mc_max_retries (mg_config m)"
    "send_eligible (mg_config m) now (mg_pending_messages m ! k)" by (simp_all add: position_Some_iff)
  then show ?thesis using Some attempts_Suc [OF k(2)]
    by (auto simp: next_frame_position Let_def record_attempt_def send_eligible_def interval_elapsed_iff
        intro!: exI [of _ k])
qed

text \<open>Acknowledgement authenticity. Processing an incoming message removes exactly the pending
  messages it acknowledges: those with the acknowledged identifier whose addressee is the
  transmitting station, and only when the frame is addressed to this station and is no bulletin.
  It reports whether any was removed and changes nothing else.\<close>

lemma messenger_ack_authentic:
  "process_incoming m source msg =
    (\<exists>p \<in> set (mg_pending_messages m). acknowledges m source msg p,
     m\<lparr>mg_pending_messages := filter (\<lambda>p. \<not> acknowledges m source msg p) (mg_pending_messages m)\<rparr>) \<and>
   (acknowledges m source msg p \<longrightarrow>
      eq_ignore_ascii_case (MessageAddressee_as_str (am_addressee msg)) (Ax25Address_display (mg_my_callsign m)) \<and>
      eq_ignore_ascii_case (DirectMessageAddressee_as_str (pm_addressee p)) (Ax25Address_display source) \<and>
      \<not> is_bulletin_addressee (MessageAddressee_as_str (am_addressee msg)))"
proof -
  have "length (filter (\<lambda>p. \<not> acknowledges m source msg p) xs) < length xs \<longleftrightarrow> (\<exists>p \<in> set xs. acknowledges m source msg p)" for xs
    by (induction xs) (auto simp: less_Suc_eq_le le_Suc_eq intro: le_trans [OF length_filter_le])
  moreover have "\<not> is_bulletin_addressee (MessageAddressee_as_str (am_addressee msg))"
    if "AprsMessage_kind msg = Direct \<or> AprsMessage_kind msg = AckRej"
    using that by (auto simp: AprsMessage_kind_def is_bulletin_addressee_def bulletin_kind_from_addressee_def
        group_bulletin_kind_def ok_def split: option.splits if_splits list.splits sum.splits)
  ultimately show ?thesis
    by (auto simp: process_incoming_filter acknowledges_def acked_by_def is_some_and_def split: option.splits)
qed

text \<open>Delivered once. After an incoming numbered message was accepted as new at \<open>t0\<close>, every later
  copy from the same source with the same number inside the window is reported as a duplicate,
  whatever the messenger does in between.\<close>

lemma messenger_delivers_once:
  assumes "messenger_inv m" and "is_new_incoming m source msg t0 = (Ok True, m1)"
    and "am_message_id msg = Some i" and "am_message_id msg' = Some i"
    and "\<forall>op \<in> set ops. t0 \<le> fst op \<and> fst op < t0 + mc_incoming_dedup_window (mg_config m)"
    and "t0 \<le> now" and "now < t0 + mc_incoming_dedup_window (mg_config m)"
    and "m2 = fold messenger_step ops m1"
  shows "is_new_incoming m2 source msg' now = (Ok False, m2)"
proof -
  have wf: "hm_wf (mg_incoming_seen m)" using assms(1) by (simp add: messenger_inv_def)
  have m1: "mark_incoming_seen m source msg t0 = (Ok (), m1)"
    using assms(2) by (auto simp: is_new_incoming_def split: if_splits sum.splits prod.splits)
  from wf obtain t where t: "hm_get (mg_incoming_seen m1) (source, i) = Some t" "t0 \<le> t"
    and wf1: "hm_wf (mg_incoming_seen m1)" and cfg: "mg_config m1 = mg_config m"
    by (cases rule: mark_incoming_seen_cases [of m source msg t0]) (use m1 assms(3) in auto)
  obtain t' where t': "hm_get (mg_incoming_seen m2) (source, i) = Some t'" "t0 \<le> t'"
    using incoming_cache.remembered [of m1 "(source, i)" t t0 ops] t wf1 cfg assms(5,8) by auto
  have "mc_incoming_dedup_window (mg_config m2) = mc_incoming_dedup_window (mg_config m)"
    using incoming_cache.run_ttl [OF wf1, of ops] cfg assms(8) by simp
  moreover have "fresh now (mc_incoming_dedup_window (mg_config m)) t'"
    unfolding fresh_iff using t'(2) assms(6,7) by linarith
  ultimately show ?thesis using t'(1) assms(4) by (simp add: is_new_incoming_def is_duplicate_incoming_def)
qed

lemma ack_text_control:
  assumes "MessageId_wf i"
  shows "MessageControl_from_text (MessageText_as_str (MessageText_acknowledgement i)) = Some (Acknowledgement i)"
proof -
  let ?t = "[0x61, 0x63, 0x6B] @ MessageId_as_str i"
  have "last ?t \<in> set (MessageId_as_str i)" using assms by (simp add: MessageId_wf_def)
  then have "is_ascii_alphanumeric (last ?t)" using assms by (auto simp: MessageId_wf_def)
  then have "trim_end (\<lambda>b. b = 0x0D \<or> b = 0x0A \<or> b = 0x20) ?t = ?t"
    using alphanumeric_printable [of "last ?t"] by (intro trim_end_id) auto
  moreover have "strip_prefix [0x61, 0x63, 0x6B] ?t = Some (MessageId_as_str i)" by (simp add: strip_prefix_def)
  moreover have "MessageId_new (MessageId_as_str i) = Ok i" using assms by (simp add: MessageId_new_Ok_iff)
  ultimately show ?thesis by (simp add: MessageControl_from_text_def MessageText_acknowledgement_def ok_def)
qed

lemma ack_text_wf: "MessageId_wf i \<Longrightarrow> MessageText_wf (MessageText_acknowledgement i)"
  using alphanumeric_printable
  by (auto simp: MessageText_wf_def MessageText_acknowledgement_def MessageId_wf_def is_printable_ascii_def)

text \<open>C21. Acknowledged delivery. Station A queues a message for station B. B's acknowledgement of the
  assigned identifier, sent over KISS and AX.25 and decoded by A, clears exactly that message and
  leaves every other pending message of A as it was.\<close>

theorem messenger_handshake:
  assumes "messenger_inv ma" and "messenger_inv mb" and "DirectMessageAddressee_wf to_b" and "MessageText_wf t"
    and "DirectMessageAddressee_wf to_a"
    and "DirectMessageAddressee_as_str to_b = Ax25Address_display (mg_my_callsign mb)"
    and "DirectMessageAddressee_as_str to_a = Ax25Address_display (mg_my_callsign ma)"
    and "queue_message ma to_b t = (Ok i, ma')"
  shows "\<exists>f p msg. KissFrame_from_bytes (build_ack mb to_a i) = Ok f \<and> Ax25Packet_from_bytes (kf_data f) = Ok p \<and>
    AprsMessage_from_bytes (pk_information p) = Ok msg \<and>
    process_incoming ma' (hd_source (pk_header p)) msg = (True, ma'\<lparr>mg_pending_messages := mg_pending_messages ma\<rparr>)"
proof -
  have room: "length (mg_pending_messages ma) < mc_max_pending (mg_config ma)"
    using assms(8) queue_message_full [of ma to_b t] by (cases "length (mg_pending_messages ma) < mc_max_pending (mg_config ma)") auto
  let ?new = "\<lparr>pm_message_id = i, pm_addressee = to_b,
      pm_wire_frame = AprsFrameHeader_message (messenger_frame_header ma) to_b t (Some i),
      pm_attempts = 0, pm_last_sent = None\<rparr>"
  have new: "i \<notin> set (map pm_message_id (mg_pending_messages ma))" "MessageId_wf i"
    "mg_pending_messages ma' = mg_pending_messages ma @ [?new]" "mg_my_callsign ma' = mg_my_callsign ma"
    by (rule queue_message_Ok [OF assms(1) room, of to_b t]; use assms(8) in simp)+
  let ?h = "messenger_frame_header mb" and ?t = "MessageText_acknowledgement i"
  let ?p = "message_packet ?h to_a ?t None" and ?msg = "AprsMessage_direct to_a ?t None"
  have "Ax25Packet_wf ?p"
    using into_packet_wf assms(2) by (simp add: messenger_inv_def message_packet_def message_packet_fields_def Let_def)
  then obtain f where f: "KissFrame_from_bytes (build_ack mb to_a i) = Ok f" "Ax25Packet_from_bytes (kf_data f) = Ok ?p"
    using kiss_wire_decodes by (auto simp: build_ack_def AprsFrameHeader_message_def)
  have parsed: "AprsMessage_from_bytes (pk_information ?p) = Ok ?msg"
    by (rule direct_message_parses) (use assms(5) ack_text_wf [OF new(2)] in auto)
  have src: "hd_source (pk_header ?p) = mg_my_callsign mb"
    by (simp add: message_packet_def message_packet_fields_def Let_def AprsFrameHeader_into_packet_def
        ax25_ui_frame_def Ax25Packet_unnumbered_information_def messenger_frame_header_def)
  have "AprsMessage_kind ?msg = AckRej"
    using ack_text_control [OF new(2)] assms(5)
    by (simp add: AprsMessage_kind_def AprsMessage_direct_def DirectMessageAddressee_wf_def
        DirectMessageAddressee_as_str_def is_bulletin_addressee_def)
  then have ack: "acknowledges ma' (mg_my_callsign mb) ?msg q \<longleftrightarrow> acked_by (Ax25Address_display (mg_my_callsign mb)) i q" for q
    using ack_text_control [OF new(2)] assms(7) new(4)
    by (simp add: acknowledges_def AprsMessage_direct_def DirectMessageAddressee_as_str_def)
  have "filter (\<lambda>q. \<not> acknowledges ma' (mg_my_callsign mb) ?msg q) (mg_pending_messages ma') = mg_pending_messages ma"
    using new(1) assms(6) by (auto simp: new(3) ack acked_by_def filter_id_conv)
  then have "process_incoming ma' (mg_my_callsign mb) ?msg = (True, ma'\<lparr>mg_pending_messages := mg_pending_messages ma\<rparr>)"
    by (simp add: process_incoming_filter new(3))
  with f parsed src show ?thesis by metis
qed

theorem messenger_handshake_witness:
  "\<exists>f p msg. KissFrame_from_bytes (build_ack sample_peer sample_reply_addressee (MessageId [0x31])) = Ok f \<and>
    Ax25Packet_from_bytes (kf_data f) = Ok p \<and> AprsMessage_from_bytes (pk_information p) = Ok msg \<and>
    process_incoming sample_queued (hd_source (pk_header p)) msg =
      (True, sample_queued\<lparr>mg_pending_messages := mg_pending_messages sample_messenger\<rparr>)"
  by (rule messenger_handshake [OF sample_messenger_inv sample_peer_inv sample_addressee_wf sample_text_wf
        sample_reply_addressee_wf _ _ sample_queue])
     (simp_all add: sample_addressee_def sample_peer_def sample_reply_addressee_def sample_messenger_defs
      sample_header_def DirectMessageAddressee_as_str_def Ax25Address_display_def display_nat.simps DASH_def)

end
