(* ===== verification/Wire_Buffer.thy ===== *)
theory Wire_Buffer
  imports Crc
begin

unbundle bit_operations_syntax

text \<open>
  What the D-STAR codecs share: writes into a caller-supplied \<open>&mut [u8]\<close>
  (\<open>out.get_mut(a..b)\<close> followed by \<open>copy_from_slice\<close>, or a single byte store) and
  little-endian \<open>u16\<close> fields. A store that does not fit is skipped, as the
  \<open>if let Some(dst)\<close> of the sources does.
\<close>

section \<open>Stores into a buffer\<close>

definition put :: "nat \<Rightarrow> bytes \<Rightarrow> bytes \<Rightarrow> bytes" where
  "put i bs out =
     (if i + length bs \<le> length out then take i out @ bs @ drop (i + length bs) out else out)"

definition put_byte :: "nat \<Rightarrow> u8 \<Rightarrow> bytes \<Rightarrow> bytes" where
  "put_byte i b out = put i [b] out"

text \<open>\<open>region.fill(b)\<close> on \<open>out.get_mut(..n)\<close>.\<close>

definition fill_prefix :: "nat \<Rightarrow> u8 \<Rightarrow> bytes \<Rightarrow> bytes" where
  "fill_prefix n b out = put 0 (replicate n b) out"

lemma length_put [simp]: "length (put i bs out) = length out"
  by (simp add: put_def)

lemma length_put_byte [simp]: "length (put_byte i b out) = length out"
  by (simp add: put_byte_def)

lemma length_fill_prefix [simp]: "length (fill_prefix n b out) = length out"
  by (simp add: fill_prefix_def)

text \<open>Storing at the end of what has been written so far extends it: a sequence of
  contiguous stores is the concatenation of its parts.\<close>

lemma put_start: "length bs \<le> length out \<Longrightarrow> put 0 bs out = bs @ drop (length bs) out"
  by (simp add: put_def)

lemma put_next:
  "i = length p \<Longrightarrow> n = length p \<Longrightarrow> i + length bs \<le> length out \<Longrightarrow>
     put i bs (p @ drop n out) = (p @ bs) @ drop (n + length bs) out"
  by (simp add: put_def add.commute)

lemma put_byte_next:
  "i = length p \<Longrightarrow> n = length p \<Longrightarrow> i < length out \<Longrightarrow>
     put_byte i b (p @ drop n out) = (p @ [b]) @ drop (Suc n) out"
  unfolding put_byte_def by (subst put_next) simp_all

text \<open>A store inside the written part leaves the rest alone.\<close>

lemma put_inside: "i + length bs \<le> length p \<Longrightarrow> put i bs (p @ q) = put i bs p @ q"
  by (simp add: put_def)

lemma put_byte_inside: "i < length p \<Longrightarrow> put_byte i b (p @ q) = put_byte i b p @ q"
  unfolding put_byte_def by (rule put_inside) simp

lemma put_byte_Cons [simp]:
  "put_byte 0 b (x # xs) = b # xs"
  "put_byte (Suc i) b (x # xs) = x # put_byte i b xs"
  "put_byte (numeral k) b (x # xs) = x # put_byte (pred_numeral k) b xs"
  by (simp_all add: put_byte_def put_def numeral_eq_Suc)

section \<open>Little-endian fields\<close>

text \<open>\<open>u16::to_le_bytes\<close> and \<open>u16::from_le_bytes\<close>.\<close>

definition to_le_bytes :: "u16 \<Rightarrow> bytes" where
  "to_le_bytes w = [crc_lo w, crc_hi w]"

definition from_le_bytes :: "u8 \<Rightarrow> u8 \<Rightarrow> u16" where
  "from_le_bytes lo hi = ucast lo OR push_bit 8 (ucast hi)"

lemma length_to_le_bytes [simp]: "length (to_le_bytes w) = 2"
  by (simp add: to_le_bytes_def)

lemma from_to_le_bytes [simp]: "from_le_bytes (crc_lo w) (crc_hi w) = w"
proof (rule bit_eqI)
  fix n assume "possible_bit TYPE(u16) n"
  then show "bit (from_le_bytes (crc_lo w) (crc_hi w)) n = bit w n"
    by (auto simp: from_le_bytes_def crc_lo_def crc_hi_def bit_or_iff bit_push_bit_iff
        bit_unsigned_iff bit_drop_bit_eq)
qed

lemma to_from_le_bytes [simp]:
  "crc_lo (from_le_bytes lo hi) = lo" "crc_hi (from_le_bytes lo hi) = hi"
proof -
  show "crc_lo (from_le_bytes lo hi) = lo"
    by (rule bit_eqI) (auto simp: from_le_bytes_def crc_lo_def bit_or_iff bit_push_bit_iff
        bit_unsigned_iff)
  show "crc_hi (from_le_bytes lo hi) = hi"
    by (rule bit_eqI) (auto simp: from_le_bytes_def crc_hi_def bit_or_iff bit_push_bit_iff
        bit_unsigned_iff bit_drop_bit_eq dest: bit_imp_le_length)
qed

lemma to_from_le_bytes_list: "to_le_bytes (from_le_bytes lo hi) = [lo, hi]"
  by (simp add: to_le_bytes_def)

end
