(* ===== verification/Dstar_Types.thy ===== *)
theory Dstar_Types
  imports Wire_Buffer
begin

unbundle bit_operations_syntax

text \<open>
  The checked primitives of \<open>dstar-gateway-core/src/types/\<close> and the voice frame of
  \<open>voice.rs\<close>. A fixed array \<open>[u8; n]\<close> is a byte list of that length: the \<open>_wf\<close>
  predicates state the array length together with the invariant the private field of the
  source guarantees. A \<open>&str\<close> is its UTF-8 byte list and a \<open>char\<close> its code point.
\<close>

section \<open>Errors\<close>

datatype TextFieldError =
    TextEmpty
  | TextTooLong (got_len: nat) (max_len: nat)
  | TextNonPrintable (bad_offset: nat) (bad_byte: u8)

datatype TypeError =
    InvalidDcsReflector
  | InvalidRoutingCallsign
  | InvalidFrameSequence u8
  | InvalidModule nat
  | InvalidModuleLength nat
  | InvalidCallsign TextFieldError
  | InvalidSuffix TextFieldError
  | InvalidReflectorCallsign
  | InvalidBandLetter nat

datatype WireTextError = WireTextError (wire_index: nat) (wire_byte: u8)

datatype EncodeError = BufferTooSmall (need_bytes: nat) (have_bytes: nat)

section \<open>Text views of wire fields\<close>

text \<open>\<open>rposition(|byte| *byte != b' ')\<close> finds the last non-space byte; what precedes the
  padding boundary is the field without its trailing spaces.\<close>

definition trimmed_printable_ascii :: "bytes \<Rightarrow> WireTextError + bytes" where
  "trimmed_printable_ascii bs =
     (case find_enumerate (\<lambda>b. \<not> is_printable_ascii b) bs of
        Some (index, b) \<Rightarrow> Err (WireTextError index b)
      | None \<Rightarrow>
          (let end_idx = (case position (\<lambda>b. b \<noteq> 0x20) (rev bs) of
                            None \<Rightarrow> 0 | Some i \<Rightarrow> length bs - i)
           in Ok (take end_idx bs)))"

lemma take_to_last_nonspace:
  "take (case position (\<lambda>b. b \<noteq> 0x20) (rev bs) of None \<Rightarrow> 0 | Some i \<Rightarrow> length bs - i) bs =
     trim_end (\<lambda>b. b = (0x20::u8)) bs"
proof (induction bs rule: rev_induct)
  case (snoc b bs)
  then show ?case
    by (cases "b = 0x20"; cases "position (\<lambda>b. b \<noteq> 0x20) (rev bs)")
       (auto simp: trim_end_def dest: position_less)
qed (simp add: trim_end_def)

lemma trimmed_printable_ascii_eq:
  "trimmed_printable_ascii bs =
     (case find_enumerate (\<lambda>b. \<not> is_printable_ascii b) bs of
        Some (index, b) \<Rightarrow> Err (WireTextError index b)
      | None \<Rightarrow> Ok (trim_end (\<lambda>b. b = 0x20) bs))"
  unfolding trimmed_printable_ascii_def Let_def take_to_last_nonspace by (rule refl)

section \<open>Callsign\<close>

datatype DstarCallsign = DstarCallsign (callsign_bytes: bytes)

definition DstarCallsign_wf :: "DstarCallsign \<Rightarrow> bool" where
  "DstarCallsign_wf c \<longleftrightarrow> length (callsign_bytes c) = 8"

definition DstarCallsign_try_from_str :: "bytes \<Rightarrow> TypeError + DstarCallsign" where
  "DstarCallsign_try_from_str s =
     (let trimmed = trim_end (\<lambda>b. b = 0x20) s
      in if trimmed = [] then Err (InvalidCallsign TextEmpty)
         else if 8 < length trimmed then Err (InvalidCallsign (TextTooLong (length trimmed) 8))
         else case find_enumerate (\<lambda>b. \<not> is_printable_ascii b) trimmed of
                Some (off, b) \<Rightarrow> Err (InvalidCallsign (TextNonPrintable off b))
              | None \<Rightarrow> Ok (DstarCallsign (put 0 trimmed (replicate 8 0x20))))"

definition DstarCallsign_from_wire_bytes :: "bytes \<Rightarrow> DstarCallsign" where
  "DstarCallsign_from_wire_bytes bs = DstarCallsign bs"

definition DstarCallsign_text :: "DstarCallsign \<Rightarrow> WireTextError + bytes" where
  "DstarCallsign_text c = trimmed_printable_ascii (callsign_bytes c)"

section \<open>Suffix\<close>

datatype Suffix = Suffix (suffix_bytes: bytes)

definition Suffix_wf :: "Suffix \<Rightarrow> bool" where
  "Suffix_wf s \<longleftrightarrow> length (suffix_bytes s) = 4"

definition Suffix_EMPTY :: Suffix where
  "Suffix_EMPTY = Suffix [0x20, 0x20, 0x20, 0x20]"

definition Suffix_try_from_str :: "bytes \<Rightarrow> TypeError + Suffix" where
  "Suffix_try_from_str s =
     (let trimmed = trim_end (\<lambda>b. b = 0x20) s
      in if 4 < length trimmed then Err (InvalidSuffix (TextTooLong (length trimmed) 4))
         else case find_enumerate (\<lambda>b. \<not> is_printable_ascii b) trimmed of
                Some (off, b) \<Rightarrow> Err (InvalidSuffix (TextNonPrintable off b))
              | None \<Rightarrow> Ok (Suffix (put 0 trimmed (replicate 4 0x20))))"

definition Suffix_from_wire_bytes :: "bytes \<Rightarrow> Suffix" where
  "Suffix_from_wire_bytes bs = Suffix bs"

definition Suffix_text :: "Suffix \<Rightarrow> WireTextError + bytes" where
  "Suffix_text s = trimmed_printable_ascii (suffix_bytes s)"

section \<open>Module letters\<close>

datatype DstarModule = DstarModule (module_byte: u8)

definition Module_wf :: "DstarModule \<Rightarrow> bool" where
  "Module_wf m \<longleftrightarrow> is_ascii_uppercase (module_byte m)"

definition Module_try_from_char :: "nat \<Rightarrow> TypeError + DstarModule" where
  "Module_try_from_char c =
     (if 0x41 \<le> c \<and> c \<le> 0x5A then Ok (DstarModule (word_of_nat c)) else Err (InvalidModule c))"

definition Module_try_from_byte :: "u8 \<Rightarrow> TypeError + DstarModule" where
  "Module_try_from_byte b =
     (if is_ascii_uppercase b then Ok (DstarModule b) else Err (InvalidModule (unat b)))"

definition Module_as_char :: "DstarModule \<Rightarrow> nat" where
  "Module_as_char m = unat (module_byte m)"

definition Module_as_byte :: "DstarModule \<Rightarrow> u8" where
  "Module_as_byte m = module_byte m"

definition Module_from_str :: "bytes \<Rightarrow> TypeError + DstarModule" where
  "Module_from_str v =
     (if length v \<noteq> 1 then Err (InvalidModuleLength (length v))
      else case get 0 v of
             None \<Rightarrow> Err (InvalidModuleLength 0)
           | Some b \<Rightarrow> Module_try_from_byte b)"

text \<open>A module letter or the empty slot of a NAK or unlink reply.\<close>

datatype ModuleSlot = ModuleSlot_Module DstarModule | ModuleSlot_Empty

definition ModuleSlot_as_byte :: "ModuleSlot \<Rightarrow> u8" where
  "ModuleSlot_as_byte s =
     (case s of ModuleSlot_Module m \<Rightarrow> Module_as_byte m | ModuleSlot_Empty \<Rightarrow> 0x20)"

definition ModuleSlot_try_from :: "u8 \<Rightarrow> TypeError + ModuleSlot" where
  "ModuleSlot_try_from v =
     (if v = 0x20 then Ok ModuleSlot_Empty
      else map_sum id ModuleSlot_Module (Module_try_from_byte v))"

definition ModuleSlot_wf :: "ModuleSlot \<Rightarrow> bool" where
  "ModuleSlot_wf s \<longleftrightarrow> (case s of ModuleSlot_Module m \<Rightarrow> Module_wf m | ModuleSlot_Empty \<Rightarrow> True)"

section \<open>Routing callsigns\<close>

datatype RoutingCallsign = RoutingCallsign (routing_bytes: bytes)

text \<open>The loop of \<open>from_padded_bytes\<close> over the remaining bytes and the \<open>nonspace\<close> flag.\<close>

fun padded_scan :: "bytes \<Rightarrow> bool \<Rightarrow> bool option" where
  "padded_scan [] nonspace = Some nonspace"
| "padded_scan (b # tail) nonspace =
     (if b < 0x20 \<or> b > 0x7E then None else padded_scan tail (nonspace \<or> b \<noteq> 0x20))"

definition RoutingCallsign_from_padded_bytes :: "bytes \<Rightarrow> TypeError + RoutingCallsign" where
  "RoutingCallsign_from_padded_bytes bs =
     (case padded_scan bs False of
        Some True \<Rightarrow> Ok (RoutingCallsign bs)
      | _ \<Rightarrow> Err InvalidRoutingCallsign)"

definition RoutingCallsign_new :: "bytes \<Rightarrow> TypeError + RoutingCallsign" where
  "RoutingCallsign_new v =
     (let text = trim_end (\<lambda>b. b = 0x20) v
      in if text = [] \<or> 7 < length text \<or> \<not> list_all is_printable_ascii text
         then Err InvalidRoutingCallsign
         else Ok (RoutingCallsign (put 0 text (replicate 7 0x20))))"

definition RoutingCallsign_callsign :: "RoutingCallsign \<Rightarrow> DstarCallsign" where
  "RoutingCallsign_callsign r = DstarCallsign_from_wire_bytes (routing_bytes r @ [0x20])"

definition RoutingCallsign_try_from :: "DstarCallsign \<Rightarrow> TypeError + RoutingCallsign" where
  "RoutingCallsign_try_from c =
     (case DstarCallsign_text c of
        Err _ \<Rightarrow> Err InvalidRoutingCallsign
      | Ok text \<Rightarrow> RoutingCallsign_new text)"

definition RoutingCallsign_wf :: "RoutingCallsign \<Rightarrow> bool" where
  "RoutingCallsign_wf r \<longleftrightarrow>
     length (routing_bytes r) = 7 \<and> list_all is_printable_ascii (routing_bytes r) \<and>
     list_ex (\<lambda>b. b \<noteq> 0x20) (routing_bytes r)"

section \<open>Repeater identity\<close>

record RepeaterIdentity =
  ri_callsign :: RoutingCallsign
  ri_module :: DstarModule

definition RepeaterIdentity_wf :: "RepeaterIdentity \<Rightarrow> bool" where
  "RepeaterIdentity_wf i \<longleftrightarrow> RoutingCallsign_wf (ri_callsign i) \<and> Module_wf (ri_module i)"

definition RepeaterIdentity_to_callsign :: "RepeaterIdentity \<Rightarrow> DstarCallsign" where
  "RepeaterIdentity_to_callsign i =
     DstarCallsign_from_wire_bytes (routing_bytes (ri_callsign i) @ [Module_as_byte (ri_module i)])"

definition RepeaterIdentity_try_from :: "DstarCallsign \<Rightarrow> TypeError + RepeaterIdentity" where
  "RepeaterIdentity_try_from v =
     (case RoutingCallsign_from_padded_bytes (take 7 (callsign_bytes v)) of
        Err e \<Rightarrow> Err e
      | Ok c \<Rightarrow>
          (case Module_try_from_byte (callsign_bytes v ! 7) of
             Err e \<Rightarrow> Err e
           | Ok m \<Rightarrow> Ok \<lparr>ri_callsign = c, ri_module = m\<rparr>))"

section \<open>Sequence numbers, stream identifiers and voice frames\<close>

datatype FrameSequence = FrameSequence (sequence_index: u8)

definition FrameSequence_ZERO :: FrameSequence where "FrameSequence_ZERO = FrameSequence 0"

definition FrameSequence_new :: "u8 \<Rightarrow> FrameSequence option" where
  "FrameSequence_new index = (if index \<le> 20 then Some (FrameSequence index) else None)"

definition FrameSequence_next :: "FrameSequence \<Rightarrow> FrameSequence" where
  "FrameSequence_next s =
     (if sequence_index s = 20 then FrameSequence_ZERO else FrameSequence (sequence_index s + 1))"

definition FrameSequence_try_from :: "u8 \<Rightarrow> TypeError + FrameSequence" where
  "FrameSequence_try_from index = ok_or (FrameSequence_new index) (InvalidFrameSequence index)"

definition FrameSequence_wf :: "FrameSequence \<Rightarrow> bool" where
  "FrameSequence_wf s \<longleftrightarrow> sequence_index s \<le> 20"

datatype StreamId = StreamId (stream_raw: u16)

definition StreamId_new :: "u16 \<Rightarrow> StreamId option" where
  "StreamId_new n = (if n = 0 then None else Some (StreamId n))"

definition StreamId_from_seed :: "u16 \<Rightarrow> StreamId" where
  "StreamId_from_seed seed = (if seed = 0 then StreamId 1 else StreamId seed)"

definition StreamId_wf :: "StreamId \<Rightarrow> bool" where
  "StreamId_wf s \<longleftrightarrow> stream_raw s \<noteq> 0"

definition AMBE_SILENCE :: bytes where
  "AMBE_SILENCE = [0x9E, 0x8D, 0x32, 0x88, 0x26, 0x1A, 0x3F, 0x61, 0xE8]"

definition DSTAR_SYNC_BYTES :: bytes where "DSTAR_SYNC_BYTES = [0x55, 0x2D, 0x16]"

definition DSTAR_NULL_SLOW_DATA_BYTES :: bytes where
  "DSTAR_NULL_SLOW_DATA_BYTES = [0x16, 0x29, 0xF5]"

record VoiceFrame =
  ambe :: bytes
  slow_data :: bytes

definition VoiceFrame_silence :: VoiceFrame where
  "VoiceFrame_silence = \<lparr>ambe = AMBE_SILENCE, slow_data = DSTAR_SYNC_BYTES\<rparr>"

definition VoiceFrame_wf :: "VoiceFrame \<Rightarrow> bool" where
  "VoiceFrame_wf f \<longleftrightarrow> length (ambe f) = 9 \<and> length (slow_data f) = 3"

section \<open>Protocols and reflector callsigns\<close>

datatype ProtocolKind = PK_DPlus | PK_DExtra | PK_Dcs

definition ProtocolKind_default_port :: "ProtocolKind \<Rightarrow> u16" where
  "ProtocolKind_default_port p = (case p of PK_DPlus \<Rightarrow> 20001 | PK_DExtra \<Rightarrow> 30001 | PK_Dcs \<Rightarrow> 30051)"

definition ProtocolKind_from_port :: "u16 \<Rightarrow> ProtocolKind option" where
  "ProtocolKind_from_port port =
     (if port = 20001 then Some PK_DPlus else if port = 30001 then Some PK_DExtra
      else if port = 30051 then Some PK_Dcs else None)"

definition ProtocolKind_needs_auth :: "ProtocolKind \<Rightarrow> bool" where
  "ProtocolKind_needs_auth p \<longleftrightarrow> p = PK_DPlus"

definition ProtocolKind_from_reflector_prefix :: "bytes \<Rightarrow> ProtocolKind option" where
  "ProtocolKind_from_reflector_prefix bs =
     (if length bs < 3 then None
      else let prefix = map to_ascii_uppercase (take 3 bs)
           in if prefix = [0x58, 0x52, 0x46] \<or> prefix = [0x58, 0x4C, 0x58] then Some PK_DExtra
              else if prefix = [0x52, 0x45, 0x46] then Some PK_DPlus
              else if prefix = [0x44, 0x43, 0x53] then Some PK_Dcs
              else None)"

record ReflectorCallsign =
  rc_callsign :: DstarCallsign
  rc_protocol :: ProtocolKind

definition ReflectorCallsign_try_from_str :: "bytes \<Rightarrow> TypeError + ReflectorCallsign" where
  "ReflectorCallsign_try_from_str s =
     (case DstarCallsign_try_from_str s of
        Err e \<Rightarrow> Err e
      | Ok callsign \<Rightarrow>
          (case ProtocolKind_from_reflector_prefix s of
             None \<Rightarrow> Err InvalidReflectorCallsign
           | Some protocol \<Rightarrow> Ok \<lparr>rc_callsign = callsign, rc_protocol = protocol\<rparr>))"

datatype DcsReflector = DcsReflector (dcs_routing: RoutingCallsign)

definition DcsReflector_try_from_routing :: "RoutingCallsign \<Rightarrow> TypeError + DcsReflector" where
  "DcsReflector_try_from_routing v =
     (if take 3 (routing_bytes v) = [0x44, 0x43, 0x53] then Ok (DcsReflector v)
      else Err InvalidDcsReflector)"

definition DcsReflector_new :: "bytes \<Rightarrow> TypeError + DcsReflector" where
  "DcsReflector_new v =
     (case RoutingCallsign_new (map to_ascii_uppercase v) of
        Err e \<Rightarrow> Err e
      | Ok r \<Rightarrow> DcsReflector_try_from_routing r)"

definition DcsReflector_callsign :: "DcsReflector \<Rightarrow> DstarCallsign" where
  "DcsReflector_callsign r = RoutingCallsign_callsign (dcs_routing r)"

definition DcsReflector_try_from :: "DstarCallsign \<Rightarrow> TypeError + DcsReflector" where
  "DcsReflector_try_from c =
     (case DstarCallsign_text c of Err _ \<Rightarrow> Err InvalidDcsReflector | Ok text \<Rightarrow> DcsReflector_new text)"

section \<open>URCALL actions\<close>

datatype UrCallAction =
    UrCq
  | UrEcho
  | UrUnlink
  | UrInfo
  | UrLink (link_reflector: ReflectorCallsign) (link_module: DstarModule)
  | UrCallsign DstarCallsign

text \<open>The loop of \<open>is_right_padded_reflector_name\<close> with its \<open>reached_padding\<close> flag.\<close>

fun right_padded_scan :: "bytes \<Rightarrow> bool \<Rightarrow> bool" where
  "right_padded_scan [] reached_padding = True"
| "right_padded_scan (b # tail) reached_padding =
     (if b = 0x20 then right_padded_scan tail True
      else if reached_padding \<or> \<not> is_ascii_alphanumeric b then False
      else right_padded_scan tail reached_padding)"

definition is_right_padded_reflector_name :: "bytes \<Rightarrow> bool" where
  "is_right_padded_reflector_name bs = right_padded_scan bs False"

text \<open>\<open>str::from_utf8\<close> cannot fail here: the name check admitted ASCII bytes only.\<close>

definition classify_link :: "bytes \<Rightarrow> UrCallAction option" where
  "classify_link bs =
     (let reflector_bytes = take 7 bs;
          module_b = bs ! 7;
          prefix = take 3 reflector_bytes;
          known_prefix = (prefix = [0x52, 0x45, 0x46] \<or> prefix = [0x58, 0x52, 0x46] \<or>
                          prefix = [0x44, 0x43, 0x53] \<or> prefix = [0x58, 0x4C, 0x58])
      in if \<not> known_prefix \<or> \<not> is_right_padded_reflector_name reflector_bytes then None
         else case Module_try_from_byte module_b of
                Err _ \<Rightarrow> None
              | Ok m \<Rightarrow>
                  (case ReflectorCallsign_try_from_str (trim_end (\<lambda>b. b = 0x20) reflector_bytes) of
                     Err _ \<Rightarrow> None
                   | Ok r \<Rightarrow> Some (UrLink r m)))"

definition classify_wire_bytes :: "bytes \<Rightarrow> UrCallAction" where
  "classify_wire_bytes bs =
     (if bs = [0x43, 0x51, 0x43, 0x51, 0x43, 0x51, 0x20, 0x20] then UrCq
      else if bs = replicate 7 0x20 @ [0x45] then UrEcho
      else if bs = replicate 7 0x20 @ [0x55] then UrUnlink
      else if bs = replicate 7 0x20 @ [0x49] then UrInfo
      else case classify_link bs of
             Some a \<Rightarrow> a
           | None \<Rightarrow> UrCallsign (DstarCallsign_from_wire_bytes bs))"

definition UrCallAction_classify :: "DstarCallsign \<Rightarrow> UrCallAction" where
  "UrCallAction_classify c = classify_wire_bytes (callsign_bytes c)"

section \<open>Checked constructors\<close>

lemma put_spaces: "length t \<le> n \<Longrightarrow> put 0 t (replicate n 0x20) = space_padded n t"
  by (simp add: put_def space_padded_def)

lemma padded_scan_iff:
  "padded_scan bs f =
     (if list_all is_printable_ascii bs then Some (f \<or> list_ex (\<lambda>b. b \<noteq> 0x20) bs) else None)"
  by (induction bs arbitrary: f) (auto simp: is_printable_ascii_def not_le)

lemma RoutingCallsign_from_padded_bytes_iff:
  "RoutingCallsign_from_padded_bytes bs = Ok r \<longleftrightarrow>
     r = RoutingCallsign bs \<and> list_all is_printable_ascii bs \<and> list_ex (\<lambda>b. b \<noteq> 0x20) bs"
  by (auto simp: RoutingCallsign_from_padded_bytes_def padded_scan_iff split: if_splits bool.splits)

lemma trim_end_empty_iff: "trim_end P xs = [] \<longleftrightarrow> list_all P xs"
  by (simp add: trim_end_def dropWhile_eq_Nil_conv list_all_iff)

lemma space_padded_all:
  "P 0x20 \<Longrightarrow> list_all P (space_padded n t) = list_all P t"
  by (auto simp: space_padded_def list_all_iff)

lemma is_printable_space [simp]: "is_printable_ascii 0x20"
  by (simp add: is_printable_ascii_def)

lemma RoutingCallsign_new_wf:
  assumes "RoutingCallsign_new v = Ok r"
  shows "RoutingCallsign_wf r" "routing_bytes r = space_padded 7 (trim_end (\<lambda>b. b = 0x20) v)"
proof -
  let ?t = "trim_end (\<lambda>b. b = 0x20) v"
  have t: "?t \<noteq> []" "length ?t \<le> 7" "list_all is_printable_ascii ?t" "r = RoutingCallsign (space_padded 7 ?t)"
    using assms by (auto simp: RoutingCallsign_new_def Let_def put_spaces split: if_splits)
  have "last ?t \<in> set ?t \<and> last ?t \<noteq> 0x20"
    using t(1) trim_end_last [of "\<lambda>b. b = 0x20" v] by auto
  then have "list_ex (\<lambda>b. b \<noteq> 0x20) (space_padded 7 ?t)"
    by (auto simp: space_padded_def list_ex_iff)
  then show "RoutingCallsign_wf r" using t by (simp add: RoutingCallsign_wf_def space_padded_all)
  show "routing_bytes r = space_padded 7 ?t" using t by simp
qed

lemma DstarCallsign_try_from_str_iff:
  "DstarCallsign_try_from_str s = Ok c \<longleftrightarrow>
     (let t = trim_end (\<lambda>b. b = 0x20) s
      in t \<noteq> [] \<and> length t \<le> 8 \<and> list_all is_printable_ascii t \<and> c = DstarCallsign (space_padded 8 t))"
proof -
  let ?t = "trim_end (\<lambda>b. b = 0x20) s"
  have "find_enumerate (\<lambda>b. \<not> is_printable_ascii b) ?t = None \<longleftrightarrow> list_all is_printable_ascii ?t"
    by (simp add: find_enumerate_None_iff list_all_iff)
  then show ?thesis
    by (cases "find_enumerate (\<lambda>b. \<not> is_printable_ascii b) ?t")
       (auto simp: DstarCallsign_try_from_str_def Let_def put_spaces)
qed

lemma trimmed_printable_ascii_iff:
  "trimmed_printable_ascii bs = Ok t \<longleftrightarrow>
     list_all is_printable_ascii bs \<and> t = trim_end (\<lambda>b. b = 0x20) bs"
proof -
  have "find_enumerate (\<lambda>b. \<not> is_printable_ascii b) bs = None \<longleftrightarrow> list_all is_printable_ascii bs"
    by (simp add: find_enumerate_None_iff list_all_iff)
  then show ?thesis
    by (cases "find_enumerate (\<lambda>b. \<not> is_printable_ascii b) bs")
       (auto simp: trimmed_printable_ascii_eq)
qed

lemma Module_try_from_byte_iff [simp]:
  "Module_try_from_byte b = Ok m \<longleftrightarrow> is_ascii_uppercase b \<and> m = DstarModule b"
  by (auto simp: Module_try_from_byte_def)

lemma Module_try_from_as_byte [simp]: "Module_wf m \<Longrightarrow> Module_try_from_byte (Module_as_byte m) = Ok m"
  by (simp add: Module_wf_def Module_as_byte_def)

lemma Module_byte_not_space: "Module_wf m \<Longrightarrow> Module_as_byte m \<noteq> 0x20"
  by (auto simp: Module_wf_def Module_as_byte_def is_ascii_uppercase_def)

lemma ModuleSlot_try_from_as_byte [simp]:
  "ModuleSlot_wf s \<Longrightarrow> ModuleSlot_try_from (ModuleSlot_as_byte s) = Ok s"
  by (cases s) (auto simp: ModuleSlot_try_from_def ModuleSlot_as_byte_def ModuleSlot_wf_def Module_byte_not_space)

lemma ModuleSlot_try_from_Ok:
  "ModuleSlot_try_from b = Ok s \<Longrightarrow> ModuleSlot_wf s \<and> ModuleSlot_as_byte s = b"
  by (auto simp: ModuleSlot_try_from_def ModuleSlot_wf_def ModuleSlot_as_byte_def Module_wf_def
        Module_as_byte_def Module_try_from_byte_def split: if_splits)

text \<open>The stream of transmit indices is the cycle of length 21.\<close>

lemma FrameSequence_next_mod:
  assumes "FrameSequence_wf s"
  shows "FrameSequence_wf (FrameSequence_next s)"
    and "unat (sequence_index (FrameSequence_next s)) = Suc (unat (sequence_index s)) mod 21"
proof -
  obtain i where s: "s = FrameSequence i" by (cases s)
  have i: "unat i \<le> 20" using assms s by (simp add: FrameSequence_wf_def word_le_nat_alt)
  have "i = 20 \<longleftrightarrow> unat i = 20" by (simp add: word_unat_eq_iff)
  moreover have "unat (i + 1) = Suc (unat i)" using i by (subst unat_word_ariths) simp
  ultimately show "FrameSequence_wf (FrameSequence_next s)"
    "unat (sequence_index (FrameSequence_next s)) = Suc (unat (sequence_index s)) mod 21"
    using i s by (auto simp: FrameSequence_wf_def FrameSequence_next_def FrameSequence_ZERO_def word_le_nat_alt)
qed

section \<open>Classifying URCALL loses nothing\<close>

text \<open>What an action stands for on the wire.\<close>

definition UrCallAction_wire :: "UrCallAction \<Rightarrow> bytes" where
  "UrCallAction_wire a =
     (case a of
        UrCq \<Rightarrow> [0x43, 0x51, 0x43, 0x51, 0x43, 0x51, 0x20, 0x20]
      | UrEcho \<Rightarrow> replicate 7 0x20 @ [0x45]
      | UrUnlink \<Rightarrow> replicate 7 0x20 @ [0x55]
      | UrInfo \<Rightarrow> replicate 7 0x20 @ [0x49]
      | UrLink r m \<Rightarrow> take 7 (callsign_bytes (rc_callsign r)) @ [Module_as_byte m]
      | UrCallsign c \<Rightarrow> callsign_bytes c)"

lemma take_space_padded: "length t \<le> n \<Longrightarrow> n \<le> k \<Longrightarrow> take n (space_padded k t) = space_padded n t"
  by (simp add: space_padded_def)

lemma ReflectorCallsign_try_from_str_Ok:
  assumes "ReflectorCallsign_try_from_str s = Ok r"
  shows "DstarCallsign_try_from_str s = Ok (rc_callsign r)"
    and "ProtocolKind_from_reflector_prefix s = Some (rc_protocol r)"
  using assms by (auto simp: ReflectorCallsign_try_from_str_def split: sum.splits option.splits)

lemma classify_link_Some:
  assumes len: "length bs = 8" and cl: "classify_link bs = Some a"
  obtains r m where "a = UrLink r m" "Module_wf m" "bs ! 7 = Module_as_byte m"
    "take 7 (callsign_bytes (rc_callsign r)) = take 7 bs"
    "ProtocolKind_from_reflector_prefix (trim_end (\<lambda>b. b = 0x20) (take 7 bs)) = Some (rc_protocol r)"
proof -
  let ?n = "take 7 bs"
  let ?t = "trim_end (\<lambda>b. b = 0x20) ?n"
  obtain r m where a: "a = UrLink r m" and m: "Module_try_from_byte (bs ! 7) = Ok m"
    and r: "ReflectorCallsign_try_from_str ?t = Ok r"
    using cl by (auto simp: classify_link_def Let_def split: if_splits sum.splits)
  note r' = ReflectorCallsign_try_from_str_Ok [OF r]
  have "callsign_bytes (rc_callsign r) = space_padded 8 ?t"
    using r'(1) by (auto simp: DstarCallsign_try_from_str_iff Let_def)
  moreover have "length ?t \<le> 7" using trim_end_length [of _ ?n] by (simp add: order_trans)
  ultimately have "take 7 (callsign_bytes (rc_callsign r)) = ?n"
    using space_padded_trim [of ?n] len by (simp add: take_space_padded)
  moreover have "Module_wf m" "bs ! 7 = Module_as_byte m"
    using m by (auto simp: Module_wf_def Module_as_byte_def)
  ultimately show thesis using a r'(2) that by blast
qed

lemma take_7_nth: "length bs = 8 \<Longrightarrow> take 7 bs @ [bs ! 7] = bs"
  by (simp add: take_Suc_conv_app_nth [symmetric])

text \<open>Lossless URCALL. Classifying an eight-byte destination field keeps all of it: the
  field can be read back from the action, byte for byte, whether it was a command, a link
  request or an arbitrary (also malformed) destination; and a link request carries a module
  letter from A to Z and the protocol that the reflector's prefix names.\<close>

lemma urcall_lossless:
  assumes "length bs = 8"
  shows "UrCallAction_wire (classify_wire_bytes bs) = bs \<and>
    (\<forall>r m. classify_wire_bytes bs = UrLink r m \<longrightarrow>
       Module_wf m \<and>
       ProtocolKind_from_reflector_prefix (trim_end (\<lambda>b. b = 0x20) (take 7 bs)) = Some (rc_protocol r))"
proof (cases "classify_link bs")
  case None
  then show ?thesis
    by (auto simp: classify_wire_bytes_def UrCallAction_wire_def DstarCallsign_from_wire_bytes_def)
next
  case (Some a)
  show ?thesis
  proof (rule classify_link_Some [OF assms Some])
    fix r m assume "a = UrLink r m" "Module_wf m" "bs ! 7 = Module_as_byte m"
      "take 7 (callsign_bytes (rc_callsign r)) = take 7 bs"
      "ProtocolKind_from_reflector_prefix (trim_end (\<lambda>b. b = 0x20) (take 7 bs)) = Some (rc_protocol r)"
    then show ?thesis
      using Some take_7_nth [OF assms] by (auto simp: classify_wire_bytes_def UrCallAction_wire_def)
  qed
qed

text \<open>\<open>REF030 C\<close> links to module C of REF030.\<close>

end
