(* ===== verification/Dstar_Header.thy ===== *)
theory Dstar_Header
  imports Dstar_Types
begin

unbundle bit_operations_syntax

text \<open>
  The D-STAR radio header of \<open>dstar-gateway-core/src/header.rs\<close> and \<open>header/flags.rs\<close>:
  flag bytes, relay routing, the 41-byte encoding with its recomputed checksum, and the
  field-copying decoder. The lemmas show that the encoding is lossless and carries a valid
  checksum, and which received blocks the encoder reproduces.
\<close>

section \<open>Flags\<close>

datatype HeaderFlag = HF_Data | HF_Repeater | HF_Interrupted | HF_ControlSignal | HF_Urgent

definition HeaderFlag_mask :: "HeaderFlag \<Rightarrow> u8" where
  "HeaderFlag_mask f =
     (case f of HF_Data \<Rightarrow> 0x80 | HF_Repeater \<Rightarrow> 0x40 | HF_Interrupted \<Rightarrow> 0x20
      | HF_ControlSignal \<Rightarrow> 0x10 | HF_Urgent \<Rightarrow> 0x08)"

datatype RepeaterControl =
    RC_Normal | RC_RelayUnavailable | RC_NoResponse | RC_Acknowledge | RC_ResendRequested
  | RC_Unassigned | RC_AutoReply | RC_Control

definition RepeaterControl_bits :: "RepeaterControl \<Rightarrow> u8" where
  "RepeaterControl_bits c =
     (case c of RC_Normal \<Rightarrow> 0 | RC_RelayUnavailable \<Rightarrow> 1 | RC_NoResponse \<Rightarrow> 2 | RC_Acknowledge \<Rightarrow> 3
      | RC_ResendRequested \<Rightarrow> 4 | RC_Unassigned \<Rightarrow> 5 | RC_AutoReply \<Rightarrow> 6 | RC_Control \<Rightarrow> 7)"

record HeaderFlags =
  flag1 :: u8
  flag2 :: u8
  flag3 :: u8

definition HeaderFlags_NONE :: HeaderFlags where
  "HeaderFlags_NONE = \<lparr>flag1 = 0, flag2 = 0, flag3 = 0\<rparr>"

definition HeaderFlags_from_bytes :: "bytes \<Rightarrow> HeaderFlags" where
  "HeaderFlags_from_bytes bs = \<lparr>flag1 = bs ! 0, flag2 = bs ! 1, flag3 = bs ! 2\<rparr>"

definition HeaderFlags_as_bytes :: "HeaderFlags \<Rightarrow> bytes" where
  "HeaderFlags_as_bytes f = [flag1 f, flag2 f, flag3 f]"

definition HeaderFlags_contains :: "HeaderFlags \<Rightarrow> HeaderFlag \<Rightarrow> bool" where
  "HeaderFlags_contains fs f \<longleftrightarrow> flag1 fs AND HeaderFlag_mask f \<noteq> 0"

definition HeaderFlags_with :: "HeaderFlags \<Rightarrow> HeaderFlag \<Rightarrow> bool \<Rightarrow> HeaderFlags" where
  "HeaderFlags_with fs f enabled =
     fs\<lparr>flag1 := (if enabled then flag1 fs OR HeaderFlag_mask f
                  else flag1 fs AND NOT (HeaderFlag_mask f))\<rparr>"

definition HeaderFlags_control :: "HeaderFlags \<Rightarrow> RepeaterControl" where
  "HeaderFlags_control fs =
     (let c = flag1 fs AND 0x07
      in if c = 0 then RC_Normal else if c = 1 then RC_RelayUnavailable else if c = 2 then RC_NoResponse
         else if c = 3 then RC_Acknowledge else if c = 4 then RC_ResendRequested
         else if c = 5 then RC_Unassigned else if c = 6 then RC_AutoReply else RC_Control)"

definition HeaderFlags_with_control :: "HeaderFlags \<Rightarrow> RepeaterControl \<Rightarrow> HeaderFlags" where
  "HeaderFlags_with_control fs code =
     fs\<lparr>flag1 := (flag1 fs AND NOT 0x07) OR RepeaterControl_bits code\<rparr>"

section \<open>Header\<close>

definition ENCODED_LEN :: nat where "ENCODED_LEN = 41"

record RelayRouting =
  rr_operator :: RoutingCallsign
  rr_local_module :: DstarModule
  rr_reflector :: RoutingCallsign
  rr_reflector_module :: DstarModule

record DstarHeader =
  dh_flags :: HeaderFlags
  rpt2 :: DstarCallsign
  rpt1 :: DstarCallsign
  ur_call :: DstarCallsign
  my_call :: DstarCallsign
  my_suffix :: Suffix

definition DstarHeader_wf :: "DstarHeader \<Rightarrow> bool" where
  "DstarHeader_wf h \<longleftrightarrow>
     DstarCallsign_wf (rpt2 h) \<and> DstarCallsign_wf (rpt1 h) \<and> DstarCallsign_wf (ur_call h) \<and>
     DstarCallsign_wf (my_call h) \<and> Suffix_wf (my_suffix h)"

text \<open>The stores of \<open>encode\<close> in program order; the checksum is computed over the first 39
  bytes already stored.\<close>

definition encode_fields :: "DstarHeader \<Rightarrow> bytes \<Rightarrow> bytes" where
  "encode_fields h buf =
     (let buf = put 0 (HeaderFlags_as_bytes (dh_flags h)) buf;
          buf = put 3 (callsign_bytes (rpt2 h)) buf;
          buf = put 11 (callsign_bytes (rpt1 h)) buf;
          buf = put 19 (callsign_bytes (ur_call h)) buf;
          buf = put 27 (callsign_bytes (my_call h)) buf
      in put 35 (suffix_bytes (my_suffix h)) buf)"

definition DstarHeader_encode :: "DstarHeader \<Rightarrow> bytes" where
  "DstarHeader_encode h =
     (let buf = encode_fields h (replicate ENCODED_LEN 0);
          checksum = to_le_bytes (crc_ccitt (case get_range 0 39 buf of Some x \<Rightarrow> x | None \<Rightarrow> []))
      in put 39 checksum buf)"

definition DstarHeader_with_flags :: "DstarHeader \<Rightarrow> HeaderFlags \<Rightarrow> DstarHeader" where
  "DstarHeader_with_flags h fs = h\<lparr>dh_flags := fs\<rparr>"

definition encode_for_dsvt :: "DstarHeader \<Rightarrow> bytes" where
  "encode_for_dsvt h = DstarHeader_encode (DstarHeader_with_flags h HeaderFlags_NONE)"

definition rpt_field :: "RoutingCallsign \<Rightarrow> DstarModule \<Rightarrow> DstarCallsign" where
  "rpt_field callsign m = DstarCallsign_from_wire_bytes (routing_bytes callsign @ [Module_as_byte m])"

definition CQCQCQ :: DstarCallsign where
  "CQCQCQ = DstarCallsign_from_wire_bytes [0x43, 0x51, 0x43, 0x51, 0x43, 0x51, 0x20, 0x20]"

definition for_relay :: "RelayRouting \<Rightarrow> DstarCallsign \<Rightarrow> Suffix \<Rightarrow> DstarHeader" where
  "for_relay routing call suffix =
     \<lparr>dh_flags = HeaderFlags_NONE,
      rpt2 = rpt_field (rr_reflector routing) (rr_reflector_module routing),
      rpt1 = rpt_field (rr_operator routing) (rr_local_module routing),
      ur_call = CQCQCQ, my_call = call, my_suffix = suffix\<rparr>"

definition for_radio_relay :: "RoutingCallsign \<Rightarrow> DstarModule \<Rightarrow> DstarHeader \<Rightarrow> DstarHeader" where
  "for_radio_relay station local_module incoming =
     (let repeater = rpt_field station local_module
      in \<lparr>dh_flags = HeaderFlags_with (dh_flags incoming) HF_Repeater True,
          rpt2 = repeater, rpt1 = repeater, ur_call = CQCQCQ,
          my_call = my_call incoming, my_suffix = my_suffix incoming\<rparr>)"

text \<open>\<open>copy_from_slice\<close> of \<open>data.get(a..b)\<close> into a zeroed array.\<close>

definition copied :: "nat \<Rightarrow> nat \<Rightarrow> bytes \<Rightarrow> bytes" where
  "copied a b data = (case get_range a b data of Some src \<Rightarrow> src | None \<Rightarrow> replicate (b - a) 0)"

definition DstarHeader_decode :: "bytes \<Rightarrow> DstarHeader" where
  "DstarHeader_decode data =
     \<lparr>dh_flags = HeaderFlags_from_bytes (copied 0 3 data),
      rpt2 = DstarCallsign_from_wire_bytes (copied 3 11 data),
      rpt1 = DstarCallsign_from_wire_bytes (copied 11 19 data),
      ur_call = DstarCallsign_from_wire_bytes (copied 19 27 data),
      my_call = DstarCallsign_from_wire_bytes (copied 27 35 data),
      my_suffix = Suffix_from_wire_bytes (copied 35 39 data)\<rparr>"

section \<open>Layout\<close>

text \<open>The 39 field bytes of a header.\<close>

definition header_fields :: "DstarHeader \<Rightarrow> bytes" where
  "header_fields h =
     HeaderFlags_as_bytes (dh_flags h) @ callsign_bytes (rpt2 h) @ callsign_bytes (rpt1 h) @
     callsign_bytes (ur_call h) @ callsign_bytes (my_call h) @ suffix_bytes (my_suffix h)"

lemma length_header_fields: "DstarHeader_wf h \<Longrightarrow> length (header_fields h) = 39"
  by (simp add: header_fields_def DstarHeader_wf_def DstarCallsign_wf_def Suffix_wf_def HeaderFlags_as_bytes_def)

lemma encode_fields_layout:
  assumes "DstarHeader_wf h" "length buf = 41"
  shows "encode_fields h buf = header_fields h @ drop 39 buf"
proof -
  note w = assms [unfolded DstarHeader_wf_def DstarCallsign_wf_def Suffix_wf_def]
  have f: "length (HeaderFlags_as_bytes fs) = 3" for fs by (simp add: HeaderFlags_as_bytes_def)
  show ?thesis
    using w f unfolding encode_fields_def Let_def
    by (simp add: put_start put_next header_fields_def del: append_assoc)
qed

lemma DstarHeader_encode_layout:
  assumes "DstarHeader_wf h"
  shows "DstarHeader_encode h = header_fields h @ to_le_bytes (crc_ccitt (header_fields h))"
proof -
  have "get_range 0 39 (header_fields h @ replicate 2 0) = Some (header_fields h)"
    using length_header_fields [OF assms] by (simp add: get_range_def)
  then show ?thesis
    using assms length_header_fields [OF assms]
    by (simp add: DstarHeader_encode_def Let_def ENCODED_LEN_def encode_fields_layout put_def)
qed

lemma copied_eq: "a \<le> b \<Longrightarrow> b \<le> length data \<Longrightarrow> copied a b data = take (b - a) (drop a data)"
  by (simp add: copied_def get_range_def)

lemma HeaderFlags_bytes [simp]:
  "HeaderFlags_from_bytes (HeaderFlags_as_bytes f) = f"
  by (simp add: HeaderFlags_from_bytes_def HeaderFlags_as_bytes_def)

lemma DstarHeader_decode_fields:
  assumes "DstarHeader_wf h" "length trailer = 2"
  shows "DstarHeader_decode (header_fields h @ trailer) = h"
proof -
  have l: "length (HeaderFlags_as_bytes (dh_flags h)) = 3" by (simp add: HeaderFlags_as_bytes_def)
  show ?thesis
    using assms l
    by (cases h) (simp add: DstarHeader_decode_def header_fields_def copied_eq DstarHeader_wf_def
        DstarCallsign_wf_def Suffix_wf_def DstarCallsign_from_wire_bytes_def Suffix_from_wire_bytes_def)
qed

lemma take_chain:
  "take a (drop i xs) @ take b (drop (i + a) xs) = take (a + b) (drop i xs)"
  by (metis add.commute drop_drop take_add)

lemma header_fields_decode:
  assumes "length data = 41"
  shows "header_fields (DstarHeader_decode data) = take 39 data" "DstarHeader_wf (DstarHeader_decode data)"
proof -
  have "HeaderFlags_as_bytes (HeaderFlags_from_bytes (take 3 data)) = take 3 data"
    using assms by (auto simp: HeaderFlags_as_bytes_def HeaderFlags_from_bytes_def length_Suc_conv
        eval_nat_numeral)
  then have "header_fields (DstarHeader_decode data) =
      take 3 (drop 0 data) @ take 8 (drop 3 data) @ take 8 (drop 11 data) @ take 8 (drop 19 data) @
      take 8 (drop 27 data) @ take 4 (drop 35 data)"
    using assms by (simp add: header_fields_def DstarHeader_decode_def copied_eq
        DstarCallsign_from_wire_bytes_def Suffix_from_wire_bytes_def)
  also have "\<dots> = take 39 data"
    using take_chain [of 8 27 data 4] take_chain [of 8 19 data 12] take_chain [of 8 11 data 20]
      take_chain [of 8 3 data 28] take_chain [of 3 0 data 36] by simp
  finally show "header_fields (DstarHeader_decode data) = take 39 data" .
  show "DstarHeader_wf (DstarHeader_decode data)"
    using assms by (simp add: DstarHeader_decode_def copied_eq DstarHeader_wf_def DstarCallsign_wf_def
        Suffix_wf_def DstarCallsign_from_wire_bytes_def Suffix_from_wire_bytes_def)
qed

lemma header_codec_lossless: "DstarHeader_wf h \<Longrightarrow> DstarHeader_decode (DstarHeader_encode h) = h"
  by (simp add: DstarHeader_encode_layout DstarHeader_decode_fields)

lemma length_DstarHeader_encode: "DstarHeader_wf h \<Longrightarrow> length (DstarHeader_encode h) = 41"
  by (simp add: DstarHeader_encode_layout length_header_fields)

interpretation header_codec: lossless_codec
  DstarHeader_wf DstarHeader_encode
  "\<lambda>data. if length data = ENCODED_LEN then Ok (DstarHeader_decode data) else Err ()"
  by unfold_locales
    (auto simp: header_codec_lossless header_fields_decode ENCODED_LEN_def length_DstarHeader_encode
       split: if_splits)

lemma header_reencode_iff:
  assumes len: "length data = 41"
  shows "take 39 (DstarHeader_encode (DstarHeader_decode data)) = take 39 data"
    and "DstarHeader_encode (DstarHeader_decode data) = data \<longleftrightarrow>
       crc_ccitt (take 39 data) = from_le_bytes (data ! 39) (data ! 40)"
proof -
  let ?c = "crc_ccitt (take 39 data)"
  have enc: "DstarHeader_encode (DstarHeader_decode data) = take 39 data @ [crc_lo ?c, crc_hi ?c]"
    using header_fields_decode [OF len] by (simp add: DstarHeader_encode_layout to_le_bytes_def)
  have "drop 39 data = [data ! 39, data ! 40]"
    using len by (simp add: Cons_nth_drop_Suc [symmetric])
  then have "data = take 39 data @ [data ! 39, data ! 40]" by (metis append_take_drop_id)
  then have "take 39 data @ [crc_lo ?c, crc_hi ?c] = data \<longleftrightarrow> [crc_lo ?c, crc_hi ?c] = [data ! 39, data ! 40]"
    by (metis same_append_eq)
  also have "\<dots> \<longleftrightarrow> ?c = from_le_bytes (data ! 39) (data ! 40)"
    by (metis from_to_le_bytes list.inject to_from_le_bytes)
  finally show "DstarHeader_encode (DstarHeader_decode data) = data \<longleftrightarrow> ?c = from_le_bytes (data ! 39) (data ! 40)"
    using enc by simp
  show "take 39 (DstarHeader_encode (DstarHeader_decode data)) = take 39 data" using enc len by simp
qed

section \<open>Properties\<close>

lemma with_flags_wf [simp]: "DstarHeader_wf (DstarHeader_with_flags h fs) = DstarHeader_wf h"
  by (simp add: DstarHeader_wf_def DstarHeader_with_flags_def)

definition sample_dstar_header :: DstarHeader where
  "sample_dstar_header =
     \<lparr>dh_flags = \<lparr>flag1 = 0x40, flag2 = 0, flag3 = 0\<rparr>,
      rpt2 = DstarCallsign [0x52, 0x45, 0x46, 0x30, 0x33, 0x30, 0x20, 0x43],
      rpt1 = DstarCallsign [0x57, 0x31, 0x41, 0x57, 0x20, 0x20, 0x20, 0x42],
      ur_call = CQCQCQ,
      my_call = DstarCallsign [0x57, 0x31, 0x41, 0x57, 0x20, 0x20, 0x20, 0x20],
      my_suffix = Suffix [0x44, 0x37, 0x35, 0x20]\<rparr>"

lemma CQCQCQ_wf [simp]: "DstarCallsign_wf CQCQCQ"
  by (simp add: CQCQCQ_def DstarCallsign_wf_def DstarCallsign_from_wire_bytes_def)

lemma sample_dstar_header_wf: "DstarHeader_wf sample_dstar_header"
  by (simp add: sample_dstar_header_def DstarHeader_wf_def DstarCallsign_wf_def [of "DstarCallsign _"] Suffix_wf_def)

text \<open>Header round trip. Every header encodes to exactly 41 bytes, decodes back to itself
  field for field, and carries a checksum that a receiver recomputing over the whole block
  accepts; the DSVT form loses the flags and nothing else.\<close>

lemma dstar_header_roundtrip:
  assumes "DstarHeader_wf h"
  shows "length (DstarHeader_encode h) = ENCODED_LEN \<and>
    DstarHeader_decode (DstarHeader_encode h) = h \<and>
    crc_ccitt (DstarHeader_encode h) = 0x0F47 \<and>
    DstarHeader_decode (encode_for_dsvt h) = h\<lparr>dh_flags := HeaderFlags_NONE\<rparr>"
proof -
  let ?f = "header_fields h" let ?c = "crc_ccitt ?f"
  have "crc_ccitt (DstarHeader_encode h) = crc_ccitt (?f @ [crc_lo ?c, crc_hi ?c])"
    using assms by (simp add: DstarHeader_encode_layout to_le_bytes_def)
  moreover have "DstarHeader_decode (encode_for_dsvt h) = DstarHeader_with_flags h HeaderFlags_NONE"
    using assms by (simp add: encode_for_dsvt_def header_codec_lossless)
  ultimately show ?thesis
    using assms by (simp add: ENCODED_LEN_def length_DstarHeader_encode header_codec_lossless
        crc_residue DstarHeader_with_flags_def)
qed

text \<open>Faithful relay of received headers. Decoding a received 41-byte block and encoding
  it again reproduces the block exactly when its checksum was right; otherwise the 39 field
  bytes survive and only the checksum is corrected.\<close>

lemma dstar_header_reencode:
  assumes "length data = ENCODED_LEN"
  shows "take 39 (DstarHeader_encode (DstarHeader_decode data)) = take 39 data \<and>
    (DstarHeader_encode (DstarHeader_decode data) = data \<longleftrightarrow>
       crc_ccitt (take 39 data) = from_le_bytes (data ! 39) (data ! 40))"
  using header_reencode_iff [of data] assms by (simp add: ENCODED_LEN_def)

section \<open>Relay headers\<close>

definition RelayRouting_wf :: "RelayRouting \<Rightarrow> bool" where
  "RelayRouting_wf r \<longleftrightarrow>
     RoutingCallsign_wf (rr_operator r) \<and> Module_wf (rr_local_module r) \<and>
     RoutingCallsign_wf (rr_reflector r) \<and> Module_wf (rr_reflector_module r)"

lemma rpt_field_wf: "RoutingCallsign_wf c \<Longrightarrow> DstarCallsign_wf (rpt_field c m)"
  by (simp add: rpt_field_def DstarCallsign_from_wire_bytes_def DstarCallsign_wf_def RoutingCallsign_wf_def)

lemma rpt_field_identity:
  assumes "RoutingCallsign_wf c" "Module_wf m"
  shows "RepeaterIdentity_try_from (rpt_field c m) = Ok \<lparr>ri_callsign = c, ri_module = m\<rparr>"
proof -
  have "RoutingCallsign_from_padded_bytes (routing_bytes c) = Ok c"
    using assms(1) by (simp add: RoutingCallsign_from_padded_bytes_iff RoutingCallsign_wf_def)
  moreover have "length (routing_bytes c) = 7" using assms(1) by (simp add: RoutingCallsign_wf_def)
  ultimately show ?thesis
    using assms(2)
    by (simp add: RepeaterIdentity_try_from_def rpt_field_def DstarCallsign_from_wire_bytes_def nth_append)
qed

lemma classify_CQCQCQ: "UrCallAction_classify CQCQCQ = UrCq"
  by (simp add: UrCallAction_classify_def CQCQCQ_def DstarCallsign_from_wire_bytes_def classify_wire_bytes_def)

lemma mask_or_contains: "HeaderFlags_contains (HeaderFlags_with fs f True) f"
proof -
  have "(x OR m) AND m = m" for x m :: u8 by (rule bit_eqI) (auto simp: bit_or_iff bit_and_iff)
  then show ?thesis
    by (cases f) (simp_all add: HeaderFlags_contains_def HeaderFlags_with_def HeaderFlag_mask_def)
qed

text \<open>Relay routing. A header built for relaying to a reflector, sent and received, names
  in RPT1 exactly the operator and the local module, in RPT2 exactly the reflector and its
  module, calls CQ, and still carries the speaker. A header built for the local radio names
  the station in both fields, sets the repeater flag and keeps the incoming speaker.\<close>

lemma dstar_relay_routing:
  assumes "RelayRouting_wf routing" "DstarCallsign_wf speaker" "Suffix_wf suffix" "DstarHeader_wf incoming"
  defines "h \<equiv> DstarHeader_decode (DstarHeader_encode (for_relay routing speaker suffix))"
    and "local_h \<equiv> DstarHeader_decode (DstarHeader_encode
          (for_radio_relay (rr_operator routing) (rr_local_module routing) incoming))"
  shows "RepeaterIdentity_try_from (rpt1 h) =
      Ok \<lparr>ri_callsign = rr_operator routing, ri_module = rr_local_module routing\<rparr> \<and>
    RepeaterIdentity_try_from (rpt2 h) =
      Ok \<lparr>ri_callsign = rr_reflector routing, ri_module = rr_reflector_module routing\<rparr> \<and>
    UrCallAction_classify (ur_call h) = UrCq \<and> my_call h = speaker \<and> my_suffix h = suffix \<and>
    RepeaterIdentity_try_from (rpt1 local_h) =
      Ok \<lparr>ri_callsign = rr_operator routing, ri_module = rr_local_module routing\<rparr> \<and>
    rpt2 local_h = rpt1 local_h \<and> HeaderFlags_contains (dh_flags local_h) HF_Repeater \<and>
    my_call local_h = my_call incoming \<and> my_suffix local_h = my_suffix incoming"
proof -
  have "DstarHeader_wf (for_relay routing speaker suffix)"
    using assms by (simp add: for_relay_def DstarHeader_wf_def RelayRouting_wf_def rpt_field_wf)
  then have h: "h = for_relay routing speaker suffix" by (simp add: h_def header_codec_lossless)
  have "DstarHeader_wf (for_radio_relay (rr_operator routing) (rr_local_module routing) incoming)"
    using assms by (simp add: for_radio_relay_def Let_def DstarHeader_wf_def RelayRouting_wf_def rpt_field_wf)
  then have l: "local_h = for_radio_relay (rr_operator routing) (rr_local_module routing) incoming"
    by (simp add: local_h_def header_codec_lossless)
  show ?thesis
    using assms(1) by (simp add: h l for_relay_def for_radio_relay_def Let_def RelayRouting_wf_def
        rpt_field_identity classify_CQCQCQ mask_or_contains)
qed

end
