(* ===== verification/Dstar_Slowdata.thy ===== *)
theory Dstar_Slowdata
  imports Dstar_Header "HOL-Library.Sublist"
begin

unbundle bit_operations_syntax

text \<open>
  The slow-data side channel of \<open>dstar-gateway-core/src/slowdata/\<close>: the scrambler, the block
  assembler with its header retransmission, the twenty-character text message, its encoder
  and the text collector. The lemmas show that a message reaches the collector through any
  repetition and interleaving of blocks, and that the assembler reports a retransmitted
  header exactly when the nine blocks of its encoding arrived in order.
\<close>

section \<open>Scrambler and blocks\<close>

definition SCRAMBLER_KEY :: bytes where "SCRAMBLER_KEY = [0x70, 0x4F, 0x93]"

definition descramble :: "bytes \<Rightarrow> bytes" where
  "descramble bs =
     [bs ! 0 XOR SCRAMBLER_KEY ! 0, bs ! 1 XOR SCRAMBLER_KEY ! 1, bs ! 2 XOR SCRAMBLER_KEY ! 2]"

definition scramble :: "bytes \<Rightarrow> bytes" where "scramble bs = descramble bs"

datatype SlowDataBlockKind =
    Kind_Gps | Kind_Text | Kind_HeaderRetx | Kind_FastData1 | Kind_FastData2 | Kind_Squelch
  | Kind_Unknown u8

definition from_type_byte :: "u8 \<Rightarrow> SlowDataBlockKind" where
  "from_type_byte b =
     (let m = b AND 0xF0
      in if m = 0x30 then Kind_Gps else if m = 0x40 then Kind_Text
         else if m = 0x50 then Kind_HeaderRetx else if m = 0x80 then Kind_FastData1
         else if m = 0x90 then Kind_FastData2 else if m = 0xC0 then Kind_Squelch
         else Kind_Unknown (drop_bit 4 m))"

text \<open>One five-byte text block.\<close>

datatype SlowDataText = SlowDataText (sdt_bytes: bytes)

definition SlowDataText_text :: "SlowDataText \<Rightarrow> WireTextError + bytes" where
  "SlowDataText_text t = trimmed_printable_ascii (sdt_bytes t)"

datatype SlowDataBlock =
    Block_Gps bytes
  | Block_Text SlowDataText
  | Block_HeaderRetx DstarHeader
  | Block_FastData bytes
  | Block_Squelch u8
  | Block_Unknown u8 bytes

section \<open>Assembler\<close>

definition BLOCK_LEN :: nat where "BLOCK_LEN = 6"
definition BLOCK_PAYLOAD_LEN :: nat where "BLOCK_PAYLOAD_LEN = BLOCK_LEN - 1"

datatype HalfPhase = First | Second

record SlowDataAssembler =
  sa_block :: bytes
  sa_phase :: HalfPhase
  sa_header :: bytes
  sa_header_cursor :: nat

definition SlowDataAssembler_new :: SlowDataAssembler where
  "SlowDataAssembler_new =
     \<lparr>sa_block = replicate BLOCK_LEN 0, sa_phase = First, sa_header = replicate ENCODED_LEN 0, sa_header_cursor = 0\<rparr>"

definition SlowDataAssembler_reset :: "SlowDataAssembler \<Rightarrow> SlowDataAssembler" where
  "SlowDataAssembler_reset a = a\<lparr>sa_phase := First, sa_header_cursor := 0\<rparr>"

text \<open>The arm for header blocks is \<open>unreachable!\<close> in the source; \<open>commit_block\<close> never calls
  this function on one. The model returns the block as unknown there.\<close>

definition decode_single_block :: "SlowDataAssembler \<Rightarrow> u8 \<Rightarrow> nat \<Rightarrow> SlowDataBlock" where
  "decode_single_block a type_byte payload_len =
     (let payload_end = 1 + payload_len;
          payload = (case get_range 1 payload_end (sa_block a) of Some p \<Rightarrow> p | None \<Rightarrow> [])
      in case from_type_byte type_byte of
           Kind_Gps \<Rightarrow> Block_Gps payload
         | Kind_Text \<Rightarrow> Block_Text (SlowDataText (take 5 (drop 1 (sa_block a))))
         | Kind_HeaderRetx \<Rightarrow> Block_Unknown type_byte payload
         | Kind_FastData1 \<Rightarrow> Block_FastData payload
         | Kind_FastData2 \<Rightarrow> Block_FastData payload
         | Kind_Squelch \<Rightarrow> Block_Squelch (case get 0 payload of Some c \<Rightarrow> c | None \<Rightarrow> 0)
         | Kind_Unknown _ \<Rightarrow> Block_Unknown type_byte payload)"

text \<open>What \<open>commit_header_block\<close> does once all 41 bytes are there.\<close>

definition finish_header :: "u8 \<Rightarrow> bytes \<Rightarrow> SlowDataBlock" where
  "finish_header type_byte hdr =
     (let stored_crc = from_le_bytes (hdr ! 39) (hdr ! 40)
      in if crc_ccitt (case get_range 0 39 hdr of Some x \<Rightarrow> x | None \<Rightarrow> []) \<noteq> stored_crc
         then Block_Unknown type_byte hdr
         else Block_HeaderRetx (DstarHeader_decode hdr))"

definition commit_header_block :: "u8 \<Rightarrow> SlowDataAssembler \<Rightarrow> SlowDataAssembler \<times> SlowDataBlock option" where
  "commit_header_block type_byte a =
     (let payload_len = unat (type_byte AND 0x0F);
          position_is_valid =
            (payload_len = BLOCK_PAYLOAD_LEN \<and> sa_header_cursor a \<le> ENCODED_LEN - BLOCK_PAYLOAD_LEN \<or>
             payload_len = 1 \<and> sa_header_cursor a = ENCODED_LEN - 1)
      in if \<not> position_is_valid
         then (let payload_end = 1 + min payload_len BLOCK_PAYLOAD_LEN;
                   payload = (case get_range 1 payload_end (sa_block a) of Some p \<Rightarrow> p | None \<Rightarrow> [])
               in (a\<lparr>sa_header_cursor := 0\<rparr>, Some (Block_Unknown type_byte payload)))
         else (let end_idx = sa_header_cursor a + payload_len
               in case get_range 1 (1 + payload_len) (sa_block a) of
                    None \<Rightarrow> (a, None)
                  | Some source \<Rightarrow>
                      (case get_range (sa_header_cursor a) end_idx (sa_header a) of
                         None \<Rightarrow> (a, None)
                       | Some _ \<Rightarrow>
                           (let a = a\<lparr>sa_header := put (sa_header_cursor a) source (sa_header a),
                                      sa_header_cursor := end_idx\<rparr>
                            in if sa_header_cursor a \<noteq> ENCODED_LEN then (a, None)
                               else (a\<lparr>sa_header_cursor := 0\<rparr>, Some (finish_header type_byte (sa_header a)))))))"

definition SlowDataAssembler_commit_block :: "SlowDataAssembler \<Rightarrow> SlowDataAssembler \<times> SlowDataBlock option" where
  "SlowDataAssembler_commit_block a =
     (let type_byte = sa_block a ! 0;
          kind = from_type_byte type_byte
      in if kind = Kind_HeaderRetx then commit_header_block type_byte a
         else (let a = a\<lparr>sa_header_cursor := 0\<rparr>;
                   payload_len = (if kind = Kind_Text then BLOCK_PAYLOAD_LEN
                                  else min (unat (type_byte AND 0x0F)) BLOCK_PAYLOAD_LEN)
               in (a, Some (decode_single_block a type_byte payload_len))))"

definition SlowDataAssembler_push ::
  "bytes \<Rightarrow> u8 \<Rightarrow> SlowDataAssembler \<Rightarrow> SlowDataAssembler \<times> SlowDataBlock option" where
  "SlowDataAssembler_push fragment frame_index a =
     (if frame_index = 0 then (SlowDataAssembler_reset a, None)
      else let plain = descramble fragment
           in case sa_phase a of
                First \<Rightarrow> (a\<lparr>sa_block := put 0 plain (sa_block a), sa_phase := Second\<rparr>, None)
              | Second \<Rightarrow>
                  SlowDataAssembler_commit_block (a\<lparr>sa_block := put 3 plain (sa_block a), sa_phase := First\<rparr>))"

section \<open>Text messages\<close>

definition MAX_MESSAGE_LEN :: nat where "MAX_MESSAGE_LEN = 20"

datatype SlowDataTextMessageError = MessageTooLong nat nat | InvalidText WireTextError

datatype SlowDataTextMessage = SlowDataTextMessage (message_bytes: bytes)

definition SlowDataTextMessage_wf :: "SlowDataTextMessage \<Rightarrow> bool" where
  "SlowDataTextMessage_wf m \<longleftrightarrow> length (message_bytes m) = MAX_MESSAGE_LEN"

definition try_from_text :: "bytes \<Rightarrow> SlowDataTextMessageError + SlowDataTextMessage" where
  "try_from_text text =
     (if MAX_MESSAGE_LEN < length text then Err (MessageTooLong (length text) MAX_MESSAGE_LEN)
      else case find_enumerate (\<lambda>b. \<not> is_printable_ascii b) text of
             Some (index, b) \<Rightarrow> Err (InvalidText (WireTextError index b))
           | None \<Rightarrow> Ok (SlowDataTextMessage (put 0 text (replicate MAX_MESSAGE_LEN 0x20))))"

definition SlowDataTextMessage_from_wire_bytes :: "bytes \<Rightarrow> SlowDataTextMessage" where
  "SlowDataTextMessage_from_wire_bytes bs = SlowDataTextMessage bs"

definition SlowDataTextMessage_text :: "SlowDataTextMessage \<Rightarrow> WireTextError + bytes" where
  "SlowDataTextMessage_text m = trimmed_printable_ascii (message_bytes m)"

definition SlowDataTextMessage_encode :: "SlowDataTextMessage \<Rightarrow> bytes list" where
  "SlowDataTextMessage_encode m =
     (let b = (\<lambda>i. message_bytes m ! i)
      in [scramble [0x40, b 0, b 1], scramble [b 2, b 3, b 4],
          scramble [0x41, b 5, b 6], scramble [b 7, b 8, b 9],
          scramble [0x42, b 10, b 11], scramble [b 12, b 13, b 14],
          scramble [0x43, b 15, b 16], scramble [b 17, b 18, b 19]])"

section \<open>Text collector\<close>

definition TEXT_BLOCK_COUNT :: u8 where "TEXT_BLOCK_COUNT = 4"
definition TEXT_CHARS_PER_BLOCK :: nat where "TEXT_CHARS_PER_BLOCK = 5"
definition TEXT_BLOCK_TYPE :: u8 where "TEXT_BLOCK_TYPE = 0x40"
definition SLOW_DATA_TYPE_MASK :: u8 where "SLOW_DATA_TYPE_MASK = 0xF0"

record SlowDataTextCollector =
  block_buffer :: bytes
  tc_phase :: HalfPhase
  slots :: "bytes list"
  seen_mask :: u8
  last_frame_index :: u8

definition SlowDataTextCollector_new :: SlowDataTextCollector where
  "SlowDataTextCollector_new =
     \<lparr>block_buffer = replicate 6 0, tc_phase = First,
      slots = replicate 4 (replicate TEXT_CHARS_PER_BLOCK 0x20), seen_mask = 0, last_frame_index = 1\<rparr>"

definition SlowDataTextCollector_commit_block :: "SlowDataTextCollector \<Rightarrow> SlowDataTextCollector" where
  "SlowDataTextCollector_commit_block c =
     (let type_byte = block_buffer c ! 0
      in if type_byte AND SLOW_DATA_TYPE_MASK \<noteq> TEXT_BLOCK_TYPE then c
         else let block_index = type_byte AND 0x0F
              in if block_index \<ge> TEXT_BLOCK_COUNT then c
                 else let slot_idx = unat block_index
                      in case get slot_idx (slots c) of
                           None \<Rightarrow> c
                         | Some slot \<Rightarrow>
                             (case get_range 1 (TEXT_CHARS_PER_BLOCK + 1) (block_buffer c) of
                                None \<Rightarrow> c
                              | Some src \<Rightarrow>
                                  c\<lparr>slots := (slots c)[slot_idx := map snd (zip slot src) @ drop (length src) slot],
                                    seen_mask := seen_mask c OR push_bit slot_idx 1\<rparr>))"

definition SlowDataTextCollector_push ::
  "bytes \<Rightarrow> u8 \<Rightarrow> SlowDataTextCollector \<Rightarrow> SlowDataTextCollector" where
  "SlowDataTextCollector_push fragment frame_index c =
     (if frame_index = 0 then c\<lparr>tc_phase := First, last_frame_index := 0\<rparr>
      else let c = c\<lparr>last_frame_index := frame_index\<rparr>;
               plain = descramble fragment
           in case tc_phase c of
                First \<Rightarrow> c\<lparr>block_buffer := (block_buffer c)[0 := plain ! 0, 1 := plain ! 1, 2 := plain ! 2],
                           tc_phase := Second\<rparr>
              | Second \<Rightarrow> SlowDataTextCollector_commit_block
                  (c\<lparr>block_buffer := (block_buffer c)[3 := plain ! 0, 4 := plain ! 1, 5 := plain ! 2],
                     tc_phase := First\<rparr>))"

text \<open>The copy loop of \<open>message\<close>; the \<open>?\<close> on a slice that does not exist ends it.\<close>

fun copy_slots :: "bytes list \<Rightarrow> nat \<Rightarrow> bytes \<Rightarrow> bytes option" where
  "copy_slots [] i out = Some out"
| "copy_slots (slot # rest) i out =
     (let start = i * TEXT_CHARS_PER_BLOCK;
          end_idx = start + TEXT_CHARS_PER_BLOCK
      in case get_range start end_idx out of
           None \<Rightarrow> None
         | Some _ \<Rightarrow> copy_slots rest (Suc i) (put start slot out))"

definition SlowDataTextCollector_message :: "SlowDataTextCollector \<Rightarrow> SlowDataTextMessage option" where
  "SlowDataTextCollector_message c =
     (if seen_mask c \<noteq> 0xF then None
      else map_option SlowDataTextMessage_from_wire_bytes
             (copy_slots (slots c) 0 (replicate MAX_MESSAGE_LEN 0)))"

definition rearm :: "SlowDataTextCollector \<Rightarrow> SlowDataTextCollector" where
  "rearm c = c\<lparr>slots := replicate 4 (replicate TEXT_CHARS_PER_BLOCK 0x20), seen_mask := 0\<rparr>"

definition take_message :: "SlowDataTextCollector \<Rightarrow> SlowDataTextCollector \<times> SlowDataTextMessage option" where
  "take_message c =
     (case SlowDataTextCollector_message c of
        None \<Rightarrow> (c, None)
      | Some msg \<Rightarrow> (rearm c, Some msg))"

definition SlowDataTextCollector_reset :: "SlowDataTextCollector \<Rightarrow> SlowDataTextCollector" where
  "SlowDataTextCollector_reset c = (rearm c)\<lparr>tc_phase := First, block_buffer := replicate 6 0\<rparr>"

section \<open>What is on the air\<close>

text \<open>A superframe as the receiver sees it: sync frames, at frame index 0, and blocks of a type
  byte and five payload bytes, each in two scrambled fragments of consecutive frames.\<close>

datatype slow_item =
    Sync bytes
  | Block u8 bytes u8 u8

fun item_wf :: "slow_item \<Rightarrow> bool" where
  "item_wf (Sync _) = True"
| "item_wf (Block t p i j) = (length p = 5 \<and> i \<noteq> 0 \<and> j \<noteq> 0)"

fun item_frames :: "slow_item \<Rightarrow> (bytes \<times> u8) list" where
  "item_frames (Sync f) = [(f, 0)]"
| "item_frames (Block t p i j) = [(scramble [t, p ! 0, p ! 1], i), (scramble [p ! 2, p ! 3, p ! 4], j)]"

definition frames_of :: "slow_item list \<Rightarrow> (bytes \<times> u8) list" where
  "frames_of items = concat (map item_frames items)"

lemma frames_of_simps [simp]:
  "frames_of [] = []" "frames_of (x # xs) = item_frames x @ frames_of xs"
  "frames_of (xs @ ys) = frames_of xs @ frames_of ys"
  by (simp_all add: frames_of_def)

lemma descramble_scramble [simp]: "descramble (scramble [a, b, c]) = [a, b, c]"
  by (simp add: descramble_def scramble_def SCRAMBLER_KEY_def xor.assoc)

lemma length_descramble [simp]: "length (descramble f) = 3"
  by (simp add: descramble_def)

lemma list5: "length p = 5 \<Longrightarrow> [p ! 0, p ! 1, p ! 2, p ! 3, p ! 4] = p"
  by (auto simp: length_Suc_conv eval_nat_numeral)

lemma list6: "length p = 6 \<Longrightarrow> [p ! 0, p ! 1, p ! 2, p ! 3, p ! 4, p ! 5] = p"
  by (auto simp: length_Suc_conv eval_nat_numeral)

section \<open>The collector gathers the message\<close>

definition collector_wf :: "SlowDataTextCollector \<Rightarrow> bool" where
  "collector_wf c \<longleftrightarrow>
     length (block_buffer c) = 6 \<and> length (slots c) = 4 \<and> (\<forall>s \<in> set (slots c). length s = 5) \<and>
     (\<forall>i\<ge>4. \<not> bit (seen_mask c) i)"

text \<open>The slot that a block of type \<open>t\<close> fills.\<close>

definition text_index :: "u8 \<Rightarrow> nat option" where
  "text_index t = (if t AND 0xF0 = 0x40 \<and> t AND 0x0F < 4 then Some (unat (t AND 0x0F)) else None)"

definition collect_frames :: "(bytes \<times> u8) list \<Rightarrow> SlowDataTextCollector \<Rightarrow> SlowDataTextCollector" where
  "collect_frames fs c = fold (\<lambda>f. SlowDataTextCollector_push (fst f) (snd f)) fs c"

lemma collect_frames_simps [simp]:
  "collect_frames [] c = c"
  "collect_frames (f # fs) c = collect_frames fs (SlowDataTextCollector_push (fst f) (snd f) c)"
  "collect_frames (fs @ gs) c = collect_frames gs (collect_frames fs c)"
  by (simp_all add: collect_frames_def)

lemma text_index_less: "text_index t = Some k \<Longrightarrow> k < 4"
  by (auto simp: text_index_def word_less_nat_alt split: if_splits)

lemma bit_u8_exp: "k < 4 \<Longrightarrow> bit (push_bit k (1::u8)) n \<longleftrightarrow> n = k"
  by (auto simp: bit_push_bit_iff bit_1_iff simp del: push_bit_of_1)

lemma zip_full: "length slot = length src \<Longrightarrow> map snd (zip slot src) @ drop (length src) slot = src"
  by simp

text \<open>One whole block.\<close>

lemma commit_text_block:
  assumes wf: "collector_wf c" and buf: "block_buffer c = t # p" "length p = 5"
  shows "SlowDataTextCollector_commit_block c =
    (case text_index t of
       None \<Rightarrow> c
     | Some k \<Rightarrow> c\<lparr>slots := (slots c)[k := p], seen_mask := seen_mask c OR push_bit k 1\<rparr>)"
proof (cases "text_index t")
  case None
  then show ?thesis
    using buf by (auto simp: SlowDataTextCollector_commit_block_def text_index_def Let_def
        SLOW_DATA_TYPE_MASK_def TEXT_BLOCK_TYPE_def TEXT_BLOCK_COUNT_def not_less split: if_splits)
next
  case (Some k)
  note lt = text_index_less [OF Some]
  have t: "t AND 0xF0 = 0x40" "t AND 0x0F < 4" "unat (t AND 0x0F) = k"
    using Some by (auto simp: text_index_def split: if_splits)
  have s: "get k (slots c) = Some (slots c ! k)" "length (slots c ! k) = length p"
    using wf lt buf by (auto simp: collector_wf_def get_def)
  show ?thesis
    using buf t s Some zip_full [OF s(2)]
    by (simp add: SlowDataTextCollector_commit_block_def Let_def SLOW_DATA_TYPE_MASK_def
        TEXT_BLOCK_TYPE_def TEXT_BLOCK_COUNT_def TEXT_CHARS_PER_BLOCK_def get_range_def)
qed

lemma push_block:
  assumes wf: "collector_wf c" and ph: "tc_phase c = First" and it: "item_wf (Block t p i j)"
  defines "c' \<equiv> collect_frames (item_frames (Block t p i j)) c"
  shows "collector_wf c' \<and> tc_phase c' = First \<and>
    slots c' = (case text_index t of None \<Rightarrow> slots c | Some k \<Rightarrow> (slots c)[k := p]) \<and>
    seen_mask c' = (case text_index t of None \<Rightarrow> seen_mask c | Some k \<Rightarrow> seen_mask c OR push_bit k 1)"
proof -
  have p: "length p = 5" "i \<noteq> 0" "j \<noteq> 0" using it by auto
  obtain b0 b1 b2 b3 b4 b5 where b: "block_buffer c = [b0, b1, b2, b3, b4, b5]"
    using wf by (auto simp: collector_wf_def length_Suc_conv eval_nat_numeral)
  let ?d = "c\<lparr>last_frame_index := j, block_buffer := t # p, tc_phase := First\<rparr>"
  have d: "collector_wf ?d" using wf p by (simp add: collector_wf_def)
  have "c' = SlowDataTextCollector_commit_block ?d"
    using p ph b list5 [OF p(1)] by (simp add: c'_def SlowDataTextCollector_push_def Let_def)
  also have "\<dots> = (case text_index t of None \<Rightarrow> ?d
      | Some k \<Rightarrow> ?d\<lparr>slots := (slots c)[k := p], seen_mask := seen_mask c OR push_bit k 1\<rparr>)"
    using commit_text_block [OF d, of t p] p by (cases "text_index t") simp_all
  finally have c': "c' = (case text_index t of None \<Rightarrow> ?d
      | Some k \<Rightarrow> ?d\<lparr>slots := (slots c)[k := p], seen_mask := seen_mask c OR push_bit k 1\<rparr>)" .
  show ?thesis
    using d p wf by (cases "text_index t")
      (auto simp: c' collector_wf_def bit_or_iff bit_u8_exp dest!: text_index_less
        set_update_subset_insert [THEN subsetD] simp del: push_bit_of_1)
qed

text \<open>The five characters of slot \<open>k\<close>.\<close>

definition chunk :: "SlowDataTextMessage \<Rightarrow> nat \<Rightarrow> bytes" where
  "chunk m k = take 5 (drop (5 * k) (message_bytes m))"

text \<open>All text blocks among the items belong to the message.\<close>

definition carries_only :: "SlowDataTextMessage \<Rightarrow> slow_item list \<Rightarrow> bool" where
  "carries_only m items \<longleftrightarrow>
     (\<forall>t p i j. Block t p i j \<in> set items \<longrightarrow> (\<forall>k. text_index t = Some k \<longrightarrow> p = chunk m k))"

definition carries_slot :: "nat \<Rightarrow> slow_item list \<Rightarrow> bool" where
  "carries_slot k items \<longleftrightarrow> (\<exists>t p i j. Block t p i j \<in> set items \<and> text_index t = Some k)"

lemma collect_items:
  assumes "collector_wf c" "tc_phase c = First" "list_all item_wf items" "carries_only m items"
  shows "collector_wf (collect_frames (frames_of items) c) \<and>
    tc_phase (collect_frames (frames_of items) c) = First \<and>
    (\<forall>k<4. carries_slot k items \<or> bit (seen_mask c) k \<and> slots c ! k = chunk m k \<longrightarrow>
       bit (seen_mask (collect_frames (frames_of items) c)) k \<and>
       slots (collect_frames (frames_of items) c) ! k = chunk m k)"
  using assms
proof (induction items arbitrary: c)
  case Nil
  then show ?case by (simp add: carries_slot_def)
next
  case (Cons x items)
  let ?c' = "collect_frames (item_frames x) c"
  have cm: "carries_only m items" using Cons.prems(4) by (auto simp: carries_only_def)
  have step: "collector_wf ?c' \<and> tc_phase ?c' = First \<and>
    (\<forall>k<4. carries_slot k [x] \<or> bit (seen_mask c) k \<and> slots c ! k = chunk m k \<longrightarrow>
        bit (seen_mask ?c') k \<and> slots ?c' ! k = chunk m k)"
  proof (cases x)
    case (Sync f)
    then show ?thesis
      using Cons.prems by (simp add: SlowDataTextCollector_push_def carries_slot_def collector_wf_def)
  next
    case (Block t p i j)
    have it: "item_wf (Block t p i j)" using Cons.prems(3) Block by simp
    have own: "text_index t = Some k \<Longrightarrow> p = chunk m k" for k
      using Cons.prems(4) Block by (auto simp: carries_only_def)
    have len: "length (slots c) = 4" using Cons.prems(1) by (simp add: collector_wf_def)
    show ?thesis
      using push_block [OF Cons.prems(1,2) it] own len
      unfolding Block carries_slot_def
      by (cases "text_index t")
         (auto simp: nth_list_update bit_or_iff bit_u8_exp dest: text_index_less simp del: push_bit_of_1)
  qed
  have "carries_slot k (x # items) = (carries_slot k [x] \<or> carries_slot k items)" for k
    unfolding carries_slot_def by (simp only: set_simps insert_iff empty_iff) blast
  then show ?case
    using Cons.IH [of ?c'] step Cons.prems(3) cm by auto
qed

lemma copy_all_slots:
  assumes "length ss = 4" "\<forall>s \<in> set ss. length s = 5"
  shows "copy_slots ss 0 (replicate 20 0) = Some (concat ss)"
proof -
  obtain a b c d where ss: "ss = [a, b, c, d]" using assms(1) by (auto simp: length_Suc_conv eval_nat_numeral)
  then show ?thesis
    using assms(2) by (simp add: Let_def TEXT_CHARS_PER_BLOCK_def get_range_def put_def)
qed

lemma seen_mask_full:
  fixes w :: u8
  assumes "\<forall>i\<ge>4. \<not> bit w i" "\<forall>k<4. bit w k"
  shows "w = 0xF"
proof (rule bit_eqI)
  fix n
  have m: "(0xF::u8) = mask 4" by (simp add: mask_eq_exp_minus_1)
  show "bit w n = bit (0xF::u8) n" unfolding m using assms by (cases "n < 4") (auto simp: bit_mask_iff)
qed

lemma chunks_concat:
  assumes "SlowDataTextMessage_wf m"
  shows "concat (map (chunk m) [0, 1, 2, 3]) = message_bytes m"
proof -
  let ?b = "message_bytes m"
  have "take 5 ?b @ take 5 (drop 5 ?b) @ take 5 (drop 10 ?b) @ take 5 (drop 15 ?b) = take 20 ?b"
    using take_chain [of 5 10 ?b 5] take_chain [of 5 5 ?b 10] take_chain [of 5 0 ?b 15] by simp
  then show ?thesis
    using assms by (simp add: chunk_def SlowDataTextMessage_wf_def MAX_MESSAGE_LEN_def)
qed

lemma message_from_slots:
  assumes wf: "collector_wf c" and m: "SlowDataTextMessage_wf m"
    and full: "\<forall>k<4. bit (seen_mask c) k \<and> slots c ! k = chunk m k"
  shows "SlowDataTextCollector_message c = Some m"
proof -
  have seen: "seen_mask c = 0xF" using wf full by (intro seen_mask_full) (auto simp: collector_wf_def)
  have len: "length (slots c) = 4" "\<forall>s \<in> set (slots c). length s = 5"
    using wf by (simp_all add: collector_wf_def)
  have "slots c = map (chunk m) [0, 1, 2, 3]"
    using len(1) full by (auto simp: length_Suc_conv eval_nat_numeral All_less_Suc)
  then have "concat (slots c) = message_bytes m" using chunks_concat [OF m] by simp
  then show ?thesis
    using seen copy_all_slots [OF len]
    by (simp add: SlowDataTextCollector_message_def MAX_MESSAGE_LEN_def SlowDataTextMessage_from_wire_bytes_def)
qed

text \<open>Text reception. Whatever state the collector is in, after the next sync frame it
  returns exactly the message that the following blocks carry, once each of its four parts
  has arrived: in any order, repeated any number of times, cut by further sync frames and
  interleaved with blocks of other kinds. Taking the message leaves an empty collector.\<close>

lemma slow_text_collected:
  fixes s :: bytes
  assumes "collector_wf c" "SlowDataTextMessage_wf m" "list_all item_wf items"
    and "carries_only m items" "\<forall>k<4. carries_slot k items"
  defines "c' \<equiv> collect_frames (frames_of (Sync s # items)) c"
  shows "take_message c' = (rearm c', Some m) \<and>
    take_message (rearm c') = (rearm c', None)"
proof -
  let ?s = "c\<lparr>tc_phase := First, last_frame_index := 0\<rparr>"
  have s: "collector_wf ?s" "tc_phase ?s = First" using assms(1) by (simp_all add: collector_wf_def)
  have "c' = collect_frames (frames_of items) ?s" by (simp add: c'_def SlowDataTextCollector_push_def)
  then have "SlowDataTextCollector_message c' = Some m"
    using collect_items [OF s assms(3,4)] assms(2,5) by (auto intro!: message_from_slots)
  moreover have "SlowDataTextCollector_message (rearm c') = None"
    by (simp add: SlowDataTextCollector_message_def rearm_def)
  ultimately show ?thesis by (simp add: take_message_def)
qed

text \<open>The four blocks of a message in order.\<close>

definition text_items :: "SlowDataTextMessage \<Rightarrow> slow_item list" where
  "text_items m =
     [Block 0x40 (chunk m 0) 1 2, Block 0x41 (chunk m 1) 3 4,
      Block 0x42 (chunk m 2) 5 6, Block 0x43 (chunk m 3) 7 8]"

lemma text_index_blocks [simp]:
  "text_index 0x40 = Some 0" "text_index 0x41 = Some 1" "text_index 0x42 = Some 2" "text_index 0x43 = Some 3"
  by (simp_all add: text_index_def)

lemma text_items_carry: "carries_only m (text_items m)"
  by (auto simp: carries_only_def text_items_def)

lemma text_items_slots: "\<forall>k<4. carries_slot k (text_items m)"
proof (intro allI impI)
  fix k :: nat assume "k < 4"
  then consider "k = 0" | "k = 1" | "k = 2" | "k = 3" by linarith
  then show "carries_slot k (text_items m)"
    unfolding carries_slot_def text_items_def
    by cases (simp_all add: ex_disj_distrib conj_disj_distribR)
qed

lemma text_items_wf: "SlowDataTextMessage_wf m \<Longrightarrow> list_all item_wf (text_items m)"
  by (simp add: text_items_def chunk_def SlowDataTextMessage_wf_def MAX_MESSAGE_LEN_def)

lemma encode_text_items:
  "SlowDataTextMessage_wf m \<Longrightarrow>
     zip (SlowDataTextMessage_encode m) [1, 2, 3, 4, 5, 6, 7, 8] = frames_of (text_items m)"
  by (simp add: Let_def text_items_def SlowDataTextMessage_encode_def chunk_def SlowDataTextMessage_wf_def
      MAX_MESSAGE_LEN_def)

lemma try_from_text_Ok:
  assumes "try_from_text text = Ok m"
  shows "SlowDataTextMessage_wf m" "message_bytes m = space_padded 20 text" "list_all is_printable_ascii text"
proof -
  have l: "length text \<le> 20" "find_enumerate (\<lambda>b. \<not> is_printable_ascii b) text = None"
      "m = SlowDataTextMessage (space_padded 20 text)"
    using assms by (auto simp: try_from_text_def MAX_MESSAGE_LEN_def put_spaces split: if_splits option.splits)
  then show "SlowDataTextMessage_wf m" "message_bytes m = space_padded 20 text" "list_all is_printable_ascii text"
    by (simp_all add: SlowDataTextMessage_wf_def MAX_MESSAGE_LEN_def find_enumerate_None_iff list_all_iff)
qed

text \<open>Text round trip. A status text accepted for transmission, encoded into eight
  scrambled fragments and sent in the frames that follow a sync frame, is recovered by a
  collector in whatever state it was, and reads as the text without its trailing spaces.\<close>

lemma slow_text_roundtrip:
  fixes s :: bytes
  assumes "try_from_text text = Ok m" "collector_wf c"
  defines "c' \<equiv> collect_frames ((s, 0) # zip (SlowDataTextMessage_encode m) [1, 2, 3, 4, 5, 6, 7, 8]) c"
  shows "SlowDataTextCollector_message c' = Some m \<and>
    SlowDataTextMessage_text m = Ok (trim_end (\<lambda>b. b = 0x20) text)"
proof -
  note m = try_from_text_Ok [OF assms(1)]
  let ?s = "c\<lparr>tc_phase := First, last_frame_index := 0\<rparr>"
  have s: "collector_wf ?s" "tc_phase ?s = First" using assms(2) by (simp_all add: collector_wf_def)
  have "c' = collect_frames (frames_of (text_items m)) ?s"
    unfolding c'_def encode_text_items [OF m(1)] by (simp add: SlowDataTextCollector_push_def)
  then have "SlowDataTextCollector_message c' = Some m"
    using collect_items [OF s text_items_wf [OF m(1)] text_items_carry] text_items_slots m(1)
    by (auto intro!: message_from_slots)
  then show ?thesis
    using m by (simp add: SlowDataTextMessage_text_def trimmed_printable_ascii_iff space_padded_all trim_end_space_padded)
qed

section \<open>Header retransmission\<close>

definition assembler_wf :: "SlowDataAssembler \<Rightarrow> bool" where
  "assembler_wf a \<longleftrightarrow>
     length (sa_block a) = 6 \<and> length (sa_header a) = 41 \<and>
     sa_header_cursor a \<le> 40 \<and> 5 dvd sa_header_cursor a"

text \<open>The plain bytes of complete header blocks that carry \<open>p\<close>, five bytes at a time, and of
  the whole retransmission: eight blocks of five bytes and one of one byte with filler.\<close>

fun header_blocks :: "bytes \<Rightarrow> bytes" where
  "header_blocks (a # b # c # d # e # rest) = [0x55, a, b, c, d, e] @ header_blocks rest"
| "header_blocks _ = []"

definition retransmission :: "bytes \<Rightarrow> bytes \<Rightarrow> bytes" where
  "retransmission data filler = header_blocks (take 40 data) @ [0x51, data ! 40] @ filler"

text \<open>The plain bytes that a list of frames delivers.\<close>

definition plain_bytes :: "(bytes \<times> u8) list \<Rightarrow> bytes" where
  "plain_bytes fs = concat (map (descramble \<circ> fst) fs)"

definition data_frames :: "(bytes \<times> u8) list \<Rightarrow> bool" where
  "data_frames fs \<longleftrightarrow> list_all (\<lambda>f. snd f \<noteq> 0) fs"

lemma plain_bytes_simps [simp]:
  "plain_bytes [] = []" "plain_bytes (f # fs) = descramble (fst f) @ plain_bytes fs"
  "plain_bytes (fs @ gs) = plain_bytes fs @ plain_bytes gs"
  by (simp_all add: plain_bytes_def)

lemma length_plain_bytes: "length (plain_bytes fs) = 3 * length fs"
  by (induction fs) auto

lemma not_five_dvd:
  "\<not> (5::nat) dvd Suc 0" "\<not> (5::nat) dvd Suc (Suc 0)" "\<not> (5::nat) dvd Suc (Suc (Suc 0))"
  "\<not> (5::nat) dvd Suc (Suc (Suc (Suc 0)))"
  by presburger+

lemma header_blocks_five: "length q = 5 \<Longrightarrow> header_blocks q = 0x55 # q"
  by (auto simp: length_Suc_conv eval_nat_numeral)

lemma header_blocks_snoc:
  "5 dvd length p \<Longrightarrow> length q = 5 \<Longrightarrow> header_blocks (p @ q) = header_blocks p @ 0x55 # q"
proof (induction p rule: header_blocks.induct)
  case (1 a b c d e rest)
  then have "5 dvd length rest" by simp presburger
  with 1 show ?case by simp
qed (simp_all add: header_blocks_five not_five_dvd)

lemma length_header_blocks: "5 dvd length p \<Longrightarrow> 5 * length (header_blocks p) = 6 * length p"
proof (induction p rule: header_blocks.induct)
  case (1 a b c d e rest)
  then have "5 dvd length rest" by simp presburger
  with 1 show ?case by simp
qed (simp_all add: not_five_dvd)

text \<open>Pushing a list of frames, with the result of every push.\<close>

primrec assemble :: "(bytes \<times> u8) list \<Rightarrow> SlowDataAssembler \<Rightarrow> SlowDataAssembler \<times> SlowDataBlock option list" where
  "assemble [] a = (a, [])"
| "assemble (f # fs) a =
     (case SlowDataAssembler_push (fst f) (snd f) a of (a', r) \<Rightarrow>
        (case assemble fs a' of (a'', rs) \<Rightarrow> (a'', r # rs)))"

lemma assemble_append:
  "assemble (fs @ gs) a =
     (case assemble fs a of (a', rs) \<Rightarrow> (case assemble gs a' of (a'', qs) \<Rightarrow> (a'', rs @ qs)))"
  by (induction fs arbitrary: a) (simp_all split: prod.splits)

text \<open>One header block, five bytes in a place where they fit.\<close>

lemma type_byte_kinds:
  "from_type_byte t = Kind_HeaderRetx \<Longrightarrow> unat (t AND 0x0F) = 5 \<longleftrightarrow> t = 0x55"
  "from_type_byte t = Kind_HeaderRetx \<Longrightarrow> unat (t AND 0x0F) = 1 \<longleftrightarrow> t = 0x51"
proof -
  have "\<forall>t::u8. t AND 0xF0 = 0x50 \<longrightarrow> (unat (t AND 0x0F) = 5 \<longleftrightarrow> t = 0x55) \<and> (unat (t AND 0x0F) = 1 \<longleftrightarrow> t = 0x51)"
    unfolding u8_all by simp
  moreover have "from_type_byte t = Kind_HeaderRetx \<Longrightarrow> t AND 0xF0 = 0x50"
    by (auto simp: from_type_byte_def Let_def split: if_splits)
  ultimately show
    "from_type_byte t = Kind_HeaderRetx \<Longrightarrow> unat (t AND 0x0F) = 5 \<longleftrightarrow> t = 0x55"
    "from_type_byte t = Kind_HeaderRetx \<Longrightarrow> unat (t AND 0x0F) = 1 \<longleftrightarrow> t = 0x51" by blast+
qed

lemma header_kind [simp]: "from_type_byte 0x55 = Kind_HeaderRetx" "from_type_byte 0x51 = Kind_HeaderRetx"
  by (simp_all add: from_type_byte_def Let_def)

lemma finish_header_eq:
  assumes "length hdr = 41"
  shows "finish_header t hdr =
    (if DstarHeader_encode (DstarHeader_decode hdr) = hdr then Block_HeaderRetx (DstarHeader_decode hdr)
     else Block_Unknown t hdr)"
proof -
  have "get_range 0 39 hdr = Some (take 39 hdr)" using assms by (simp add: get_range_def)
  then show ?thesis
    using header_reencode_iff [of hdr] assms by (auto simp: finish_header_def Let_def)
qed

lemma commit_header_five:
  assumes wf: "assembler_wf a" and b: "sa_block a = 0x55 # p" and c: "sa_header_cursor a \<le> 36"
  shows "SlowDataAssembler_commit_block a =
    (a\<lparr>sa_header := put (sa_header_cursor a) p (sa_header a), sa_header_cursor := sa_header_cursor a + 5\<rparr>, None)"
proof -
  have p: "length p = 5" using wf b by (simp add: assembler_wf_def)
  have "sa_header_cursor a + 5 \<noteq> 41" using wf by (auto simp: assembler_wf_def)
  then show ?thesis
    using wf b c p
    by (simp add: SlowDataAssembler_commit_block_def commit_header_block_def Let_def BLOCK_PAYLOAD_LEN_def
        BLOCK_LEN_def ENCODED_LEN_def get_range_def assembler_wf_def)
qed

lemma commit_header_last:
  assumes wf: "assembler_wf a" and b: "sa_block a = 0x51 # p" and c: "sa_header_cursor a = 40"
  shows "SlowDataAssembler_commit_block a =
    (a\<lparr>sa_header := take 40 (sa_header a) @ [p ! 0], sa_header_cursor := 0\<rparr>,
     Some (finish_header 0x51 (take 40 (sa_header a) @ [p ! 0])))"
proof -
  obtain p0 q where p: "p = p0 # q" using wf b by (cases p) (auto simp: assembler_wf_def)
  then show ?thesis
    using wf b c
    by (simp add: SlowDataAssembler_commit_block_def commit_header_block_def Let_def BLOCK_PAYLOAD_LEN_def
        BLOCK_LEN_def ENCODED_LEN_def get_range_def assembler_wf_def put_def)
qed

lemma commit_other:
  assumes b: "sa_block a = t # p"
    and no: "\<not> (t = 0x55 \<and> sa_header_cursor a \<le> 36)" "\<not> (t = 0x51 \<and> sa_header_cursor a = 40)"
  shows "\<exists>r. SlowDataAssembler_commit_block a = (a\<lparr>sa_header_cursor := 0\<rparr>, Some r) \<and>
    (\<forall>h. r \<noteq> Block_HeaderRetx h)"
proof (cases "from_type_byte t = Kind_HeaderRetx")
  case True
  then have "unat (t AND 0x0F) = 5 \<longleftrightarrow> t = 0x55" "unat (t AND 0x0F) = 1 \<longleftrightarrow> t = 0x51"
    using type_byte_kinds by blast+
  then show ?thesis
    using True b no
    by (simp add: SlowDataAssembler_commit_block_def commit_header_block_def Let_def BLOCK_PAYLOAD_LEN_def
        BLOCK_LEN_def ENCODED_LEN_def)
next
  case False
  then show ?thesis
    using b by (simp add: SlowDataAssembler_commit_block_def Let_def decode_single_block_def
        split: SlowDataBlockKind.splits)
qed

text \<open>The header bytes gathered so far are exactly what the latest frames delivered.\<close>

definition gathered :: "(bytes \<times> u8) list \<Rightarrow> SlowDataAssembler \<Rightarrow> bool" where
  "gathered hist a \<longleftrightarrow>
     assembler_wf a \<and>
     (\<exists>pre fs. hist = pre @ fs \<and> data_frames fs \<and>
        plain_bytes fs = header_blocks (take (sa_header_cursor a) (sa_header a)) @
          (if sa_phase a = Second then take 3 (sa_block a) else []))"

definition delivered :: "(bytes \<times> u8) list \<Rightarrow> DstarHeader \<Rightarrow> bool" where
  "delivered hist h \<longleftrightarrow>
     (\<exists>pre fs filler. hist = pre @ fs \<and> data_frames fs \<and> length filler = 4 \<and>
        plain_bytes fs = retransmission (DstarHeader_encode h) filler)"

lemma gathered_idle:
  "assembler_wf a \<Longrightarrow> sa_phase a = First \<Longrightarrow> sa_header_cursor a = 0 \<Longrightarrow> gathered hist a"
  unfolding gathered_def by (rule conjI, assumption, rule exI [of _ hist], rule exI [of _ "[]"])
    (simp add: data_frames_def)

lemma put_second_half: "length b = 6 \<Longrightarrow> length q = 3 \<Longrightarrow> put 3 q b = take 3 b @ q"
  by (simp add: put_def)

lemma data_frames_append [simp]:
  "data_frames (fs @ gs) = (data_frames fs \<and> data_frames gs)" "data_frames [f] = (snd f \<noteq> 0)"
  by (simp_all add: data_frames_def)

lemma push_first_half:
  assumes g: "gathered hist a" and "i \<noteq> 0" "sa_phase a = First"
  shows "\<exists>a'. SlowDataAssembler_push f i a = (a', None) \<and> gathered (hist @ [(f, i)]) a'"
proof -
  let ?a = "a\<lparr>sa_block := put 0 (descramble f) (sa_block a), sa_phase := Second\<rparr>"
  obtain pre fs where h: "hist = pre @ fs" "data_frames fs"
      "plain_bytes fs = header_blocks (take (sa_header_cursor a) (sa_header a))"
    using g assms(3) by (auto simp: gathered_def)
  have wf: "assembler_wf a" using g by (simp add: gathered_def)
  have "hist @ [(f, i)] = pre @ (fs @ [(f, i)])" using h by simp
  moreover have "take 3 (put 0 (descramble f) (sa_block a)) = descramble f"
    using wf by (simp add: put_def assembler_wf_def)
  ultimately have "gathered (hist @ [(f, i)]) ?a"
    unfolding gathered_def using wf h assms(2)
    by (intro conjI exI [of _ pre] exI [of _ "fs @ [(f, i)]"]) (simp_all add: assembler_wf_def)
  then show ?thesis using assms by (simp add: SlowDataAssembler_push_def Let_def)
qed

lemma take_put: "n + length q \<le> length b \<Longrightarrow> take (n + length q) (put n q b) = take n b @ q"
  by (simp add: put_def)

text \<open>The second half of a block: the state it leaves and, for a finished header, its frames.\<close>

lemma gathered_five:
  assumes wf: "assembler_wf a" and p: "length p = 5" and c: "sa_header_cursor a \<le> 36"
    and fs: "data_frames fs" "plain_bytes fs = header_blocks (take (sa_header_cursor a) (sa_header a)) @ 0x55 # p"
    and ph: "sa_phase a = First"
  shows "gathered (pre @ fs) (a\<lparr>sa_header := put (sa_header_cursor a) p (sa_header a),
      sa_header_cursor := sa_header_cursor a + 5\<rparr>)"
proof -
  let ?n = "sa_header_cursor a"
  have n: "?n + 5 \<le> 40" "length (sa_header a) = 41" "5 dvd ?n" using wf c by (auto simp: assembler_wf_def)
  have "take (?n + 5) (put ?n p (sa_header a)) = take ?n (sa_header a) @ p"
    using take_put [of ?n p "sa_header a"] n p by simp
  then have "plain_bytes fs = header_blocks (take (?n + 5) (put ?n p (sa_header a)))"
    using header_blocks_snoc [of "take ?n (sa_header a)" p] n p fs(2) by simp
  then show ?thesis
    unfolding gathered_def using wf n fs(1) ph
    by (intro conjI exI [of _ pre] exI [of _ fs]) (simp_all add: assembler_wf_def)
qed

lemma delivered_last:
  assumes wf: "assembler_wf a" and p: "length p = 5" and c: "sa_header_cursor a = 40"
    and fs: "data_frames fs" "plain_bytes fs = header_blocks (take 40 (sa_header a)) @ 0x51 # p"
    and r: "finish_header 0x51 (take 40 (sa_header a) @ [p ! 0]) = Block_HeaderRetx h"
  shows "delivered (pre @ fs) h"
proof -
  let ?d = "take 40 (sa_header a) @ [p ! 0]"
  have l: "length (sa_header a) = 41" using wf by (simp add: assembler_wf_def)
  have "DstarHeader_encode h = ?d"
    using r l finish_header_eq [of ?d "0x51"] by (auto split: if_splits)
  moreover have "p = p ! 0 # tl p" using p by (cases p) auto
  ultimately have "plain_bytes fs = retransmission (DstarHeader_encode h) (tl p)"
    using fs(2) l by (simp add: retransmission_def nth_append)
  then show ?thesis
    unfolding delivered_def using fs(1) p by (intro exI [of _ pre] exI [of _ fs] exI [of _ "tl p"]) simp
qed

lemma push_second_half:
  assumes g: "gathered hist a" and i: "i \<noteq> 0" and ph: "sa_phase a = Second"
  shows "\<exists>a' r. SlowDataAssembler_push f i a = (a', r) \<and> gathered (hist @ [(f, i)]) a' \<and>
    (\<forall>h. r = Some (Block_HeaderRetx h) \<longrightarrow> delivered (hist @ [(f, i)]) h)"
proof -
  let ?b = "take 3 (sa_block a) @ descramble f"
  let ?a = "a\<lparr>sa_block := ?b, sa_phase := First\<rparr>"
  have wf: "assembler_wf a" using g by (simp add: gathered_def)
  then have lb: "length (sa_block a) = 6" by (simp add: assembler_wf_def)
  have "length ?b = Suc 5" using lb by simp
  then obtain t p where b: "?b = t # p" "length p = 5" unfolding length_Suc_conv by blast
  obtain pre fs where h: "hist = pre @ fs" "data_frames fs"
      "plain_bytes fs = header_blocks (take (sa_header_cursor a) (sa_header a)) @ take 3 (sa_block a)"
    using g ph by (auto simp: gathered_def)
  let ?fs = "fs @ [(f, i)]"
  have fs: "hist @ [(f, i)] = pre @ ?fs" "data_frames ?fs"
      "plain_bytes ?fs = header_blocks (take (sa_header_cursor a) (sa_header a)) @ t # p"
    using h i b(1) by simp_all
  have wf': "assembler_wf ?a" using wf lb by (simp add: assembler_wf_def)
  have push: "SlowDataAssembler_push f i a = SlowDataAssembler_commit_block ?a"
    using i ph lb by (simp add: SlowDataAssembler_push_def Let_def put_second_half)
  consider (five) "t = 0x55" "sa_header_cursor a \<le> 36" | (last) "t = 0x51" "sa_header_cursor a = 40"
    | (other) "\<not> (t = 0x55 \<and> sa_header_cursor a \<le> 36)" "\<not> (t = 0x51 \<and> sa_header_cursor a = 40)"
    by blast
  then show ?thesis
  proof cases
    case five
    have "gathered (pre @ ?fs) (?a\<lparr>sa_header := put (sa_header_cursor a) p (sa_header a),
        sa_header_cursor := sa_header_cursor a + 5\<rparr>)"
      using gathered_five [OF wf' b(2)] five fs by simp
    then show ?thesis using commit_header_five [OF wf', of p] b(1) five fs(1) push by simp
  next
    case last
    let ?a' = "?a\<lparr>sa_header := take 40 (sa_header a) @ [p ! 0], sa_header_cursor := 0\<rparr>"
    have "gathered (hist @ [(f, i)]) ?a'"
      using wf lb by (intro gathered_idle) (simp_all add: assembler_wf_def)
    then show ?thesis
      using commit_header_last [OF wf', of p] b last push fs delivered_last [OF wf b(2) last(2) fs(2)]
      by simp
  next
    case other
    have "gathered (hist @ [(f, i)]) (?a\<lparr>sa_header_cursor := 0\<rparr>)"
      using wf lb by (intro gathered_idle) (simp_all add: assembler_wf_def)
    then show ?thesis using commit_other [of ?a t p] b(1) other push by auto
  qed
qed

lemma push_gathers:
  assumes g: "gathered hist a"
  shows "\<exists>a' r. SlowDataAssembler_push f i a = (a', r) \<and> gathered (hist @ [(f, i)]) a' \<and>
    (\<forall>h. r = Some (Block_HeaderRetx h) \<longrightarrow> delivered (hist @ [(f, i)]) h)"
proof (cases "i = 0")
  case True
  have "gathered (hist @ [(f, i)]) (SlowDataAssembler_reset a)"
    using g by (intro gathered_idle) (simp_all add: gathered_def assembler_wf_def SlowDataAssembler_reset_def)
  then show ?thesis using True by (simp add: SlowDataAssembler_push_def)
next
  case False
  then show ?thesis
    using push_first_half [OF g False] push_second_half [OF g False] by (cases "sa_phase a") fastforce+
qed

lemma assemble_gathers:
  assumes "gathered hist a" "assemble fs a = (a', rs)"
  shows "gathered (hist @ fs) a' \<and> length rs = length fs \<and>
    (\<forall>n<length fs. \<forall>h. rs ! n = Some (Block_HeaderRetx h) \<longrightarrow> delivered (hist @ take (Suc n) fs) h)"
  using assms
proof (induction fs arbitrary: hist a rs)
  case (Cons x fs)
  obtain f i where x: "x = (f, i)" by (cases x)
  obtain b r where b: "SlowDataAssembler_push f i a = (b, r)" "gathered (hist @ [(f, i)]) b"
      "\<forall>h. r = Some (Block_HeaderRetx h) \<longrightarrow> delivered (hist @ [(f, i)]) h"
    using push_gathers [OF Cons.prems(1)] by blast
  obtain qs where qs: "assemble fs b = (a', qs)" "rs = r # qs"
    using Cons.prems(2) b(1) x by (auto split: prod.splits)
  from Cons.IH [OF b(2) qs(1)] b(3) show ?case
    by (auto simp: x qs(2) nth_Cons less_Suc_eq_0_disj split: nat.splits)
qed simp

lemma assembler_new_gathered: "gathered [] SlowDataAssembler_new"
  by (rule gathered_idle)
    (simp_all add: SlowDataAssembler_new_def assembler_wf_def BLOCK_LEN_def ENCODED_LEN_def)

text \<open>C34. Authentic headers. Whatever frames a fresh assembler is fed, when it reports a
  retransmitted header, the latest frames it received, none of them a sync frame, carried
  exactly the nine blocks of that header's encoding in order: no header is assembled from
  parts of different retransmissions, across a sync frame or with a wrong checksum.\<close>

theorem header_retx_authentic:
  assumes "assemble fs SlowDataAssembler_new = (a, rs)" "n < length fs" "rs ! n = Some (Block_HeaderRetx h)"
  shows "\<exists>pre used filler. take (Suc n) fs = pre @ used \<and> data_frames used \<and> length filler = 4 \<and>
    plain_bytes used = retransmission (DstarHeader_encode h) filler"
  using assemble_gathers [OF assembler_new_gathered assms(1)] assms(2,3) by (auto simp: delivered_def)

section \<open>Retransmitted headers are received\<close>

lemma assemble_block:
  assumes wf: "assembler_wf a" and ph: "sa_phase a = First" and i: "data_frames [f, g]"
  shows "assemble [f, g] a =
    (case SlowDataAssembler_commit_block (a\<lparr>sa_block := descramble (fst f) @ descramble (fst g), sa_phase := First\<rparr>)
     of (a', r) \<Rightarrow> (a', [None, r]))"
proof -
  have "put 3 (descramble (fst g)) (put 0 (descramble (fst f)) (sa_block a)) = descramble (fst f) @ descramble (fst g)"
    using wf by (simp add: put_def assembler_wf_def)
  then show ?thesis
    using ph i by (simp add: SlowDataAssembler_push_def Let_def data_frames_def split: prod.splits)
qed

lemma split_two_frames:
  assumes "plain_bytes fs = x # q @ rest" "length q = 5"
  obtains f g gs where "fs = f # g # gs" "descramble (fst f) @ descramble (fst g) = x # q" "plain_bytes gs = rest"
proof -
  have "3 * length fs = 6 + length rest" using assms length_plain_bytes [of fs] by simp
  then have "2 \<le> length fs" by linarith
  then obtain f g gs where fs: "fs = f # g # gs" by (auto simp: Suc_le_length_iff numeral_2_eq_2)
  then have "(descramble (fst f) @ descramble (fst g)) @ plain_bytes gs = (x # q) @ rest"
    using assms(1) by simp
  then have "descramble (fst f) @ descramble (fst g) = x # q" "plain_bytes gs = rest"
    using append_eq_append_conv [of "descramble (fst f) @ descramble (fst g)" "x # q"] assms(2) by auto
  then show thesis using fs that by blast
qed

lemma assemble_five:
  assumes wf: "assembler_wf a" and ph: "sa_phase a = First" and i: "data_frames [f, g]"
    and pl: "descramble (fst f) @ descramble (fst g) = 0x55 # p" and c: "sa_header_cursor a + 5 \<le> 40"
  shows "\<exists>a'. assemble [f, g] a = (a', [None, None]) \<and> assembler_wf a' \<and> sa_phase a' = First \<and>
    sa_header_cursor a' = sa_header_cursor a + 5 \<and>
    take (sa_header_cursor a') (sa_header a') = take (sa_header_cursor a) (sa_header a) @ p"
proof -
  let ?b = "a\<lparr>sa_block := 0x55 # p, sa_phase := First\<rparr>"
  have p: "length p = 5" using arg_cong [OF pl, of length] by simp
  have wf': "assembler_wf ?b" using wf p by (simp add: assembler_wf_def)
  have "take (sa_header_cursor a + 5) (put (sa_header_cursor a) p (sa_header a)) =
      take (sa_header_cursor a) (sa_header a) @ p"
    using take_put [of "sa_header_cursor a" p "sa_header a"] wf p c by (simp add: assembler_wf_def)
  then show ?thesis
    using assemble_block [OF wf ph i] commit_header_five [OF wf', of p] pl c wf p
    by (simp add: assembler_wf_def)
qed

lemma assemble_blocks:
  assumes "assembler_wf a" "sa_phase a = First" "data_frames fs"
    and "plain_bytes fs = header_blocks p" "5 dvd length p" "sa_header_cursor a + length p \<le> 40"
  shows "\<exists>a'. assemble fs a = (a', replicate (length fs) None) \<and> assembler_wf a' \<and> sa_phase a' = First \<and>
    sa_header_cursor a' = sa_header_cursor a + length p \<and>
    take (sa_header_cursor a') (sa_header a') = take (sa_header_cursor a) (sa_header a) @ p"
  using assms
proof (induction p arbitrary: a fs rule: header_blocks.induct)
  case (1 x1 x2 x3 x4 x5 rest)
  let ?q = "[x1, x2, x3, x4, x5]"
  have "plain_bytes fs = 0x55 # ?q @ header_blocks rest" "length ?q = 5" using "1.prems"(4) by simp_all
  then obtain f g gs where fs: "fs = f # g # gs" "descramble (fst f) @ descramble (fst g) = 0x55 # ?q"
      "plain_bytes gs = header_blocks rest"
    by (rule split_two_frames)
  have d: "data_frames [f, g]" "data_frames gs" using "1.prems"(3) fs(1) by (simp_all add: data_frames_def)
  have r: "5 dvd length rest" using "1.prems"(5) by simp presburger
  obtain b where b: "assemble [f, g] a = (b, [None, None])" "assembler_wf b" "sa_phase b = First"
      "sa_header_cursor b = sa_header_cursor a + 5"
      "take (sa_header_cursor b) (sa_header b) = take (sa_header_cursor a) (sa_header a) @ ?q"
    using assemble_five [OF "1.prems"(1,2) d(1) fs(2)] "1.prems"(6) by auto
  obtain a' where a': "assemble gs b = (a', replicate (length gs) None)" "assembler_wf a'" "sa_phase a' = First"
      "sa_header_cursor a' = sa_header_cursor b + length rest"
      "take (sa_header_cursor a') (sa_header a') = take (sa_header_cursor b) (sa_header b) @ rest"
    using "1.IH" [OF b(2,3) d(2) fs(3) r] "1.prems"(6) b(4) by auto
  have "assemble fs a = (a', replicate (length fs) None)"
    using assemble_append [of "[f, g]" gs a] b(1) a'(1) fs(1) by simp
  then show ?case using a' b by simp
next
  case "2_1"
  then show ?case using length_plain_bytes [of fs] by simp
qed (simp_all add: not_five_dvd)

lemma length_retransmission:
  assumes "length data = 41" "length filler = 4"
  shows "length (retransmission data filler) = 54"
  using length_header_blocks [of "take 40 data"] assms by (simp add: retransmission_def)

lemma header_retx_received_run:
  fixes s :: bytes
  assumes "assembler_wf a" "DstarHeader_wf h" "data_frames fs" "length filler = 4"
    and "plain_bytes fs = retransmission (DstarHeader_encode h) filler"
  shows "length fs = 18 \<and> snd (assemble ((s, 0) # fs) a) = replicate 18 None @ [Some (Block_HeaderRetx h)]"
proof -
  let ?d = "DstarHeader_encode h" let ?a = "SlowDataAssembler_reset a"
  have d: "length ?d = 41" using assms(2) by (rule length_DstarHeader_encode)
  have len: "length fs = 18" using length_retransmission [OF d assms(4)] length_plain_bytes [of fs] assms(5) by simp
  have l: "length (header_blocks (take 40 ?d)) = 48" using length_header_blocks [of "take 40 ?d"] d by simp
  have "plain_bytes (take 16 fs) @ plain_bytes (drop 16 fs) =
      header_blocks (take 40 ?d) @ 0x51 # ?d ! 40 # filler"
    using assms(5) by (simp add: plain_bytes_simps(3) [symmetric] retransmission_def del: plain_bytes_simps(3))
  then have pl: "plain_bytes (take 16 fs) = header_blocks (take 40 ?d)"
      "plain_bytes (drop 16 fs) = 0x51 # (?d ! 40 # filler)"
    using length_plain_bytes [of "take 16 fs"] len l by auto
  obtain f g gs where fg: "drop 16 fs = f # g # gs" "descramble (fst f) @ descramble (fst g) = 0x51 # (?d ! 40 # filler)"
    by (rule split_two_frames [of "drop 16 fs" "0x51" "?d ! 40 # filler" "[]"]) (use pl(2) assms(4) in simp_all)
  have "length (drop 16 fs) = 2" using len by simp
  then have fg': "drop 16 fs = [f, g]" unfolding fg(1) by simp
  have df: "data_frames (take 16 fs)" "data_frames [f, g]"
    using assms(3) data_frames_append(1) [of "take 16 fs" "drop 16 fs", unfolded append_take_drop_id] fg'
    by simp_all
  have a: "assembler_wf ?a" "sa_phase ?a = First" "sa_header_cursor ?a = 0"
    using assms(1) by (simp_all add: SlowDataAssembler_reset_def assembler_wf_def)
  obtain b where b: "assemble (take 16 fs) ?a = (b, replicate 16 None)" "assembler_wf b" "sa_phase b = First"
      "sa_header_cursor b = 40" "take 40 (sa_header b) = take 40 ?d"
    using assemble_blocks [OF a(1,2) df(1) pl(1)] a(3) d len by auto
  let ?b = "b\<lparr>sa_block := 0x51 # (?d ! 40 # filler), sa_phase := First\<rparr>"
  have "assembler_wf ?b" using b(2) assms(4) by (simp add: assembler_wf_def)
  moreover have "take 40 ?d @ [?d ! 40] = ?d" using d by (simp add: take_Suc_conv_app_nth [symmetric])
  moreover have "finish_header 0x51 ?d = Block_HeaderRetx h"
    using finish_header_eq [OF d] assms(2) by (simp add: header_codec_lossless)
  ultimately have "snd (assemble [f, g] b) = [None, Some (Block_HeaderRetx h)]"
    using assemble_block [OF b(2,3) df(2)] commit_header_last [of ?b "?d ! 40 # filler"] fg(2) b(4,5) by simp
  then have "snd (assemble (take 16 fs @ [f, g]) ?a) = replicate 16 None @ [None, Some (Block_HeaderRetx h)]"
    using b(1) by (simp only: assemble_append) (simp split: prod.splits)
  then have "snd (assemble fs ?a) = replicate 16 None @ [None, Some (Block_HeaderRetx h)]"
    using append_take_drop_id [of 16 fs] fg' by simp
  then show ?thesis
    using len by (simp add: SlowDataAssembler_push_def split_beta) (simp add: eval_nat_numeral)
qed

text \<open>Late entry. In whatever state the assembler is, a header retransmitted in the
  eighteen frames after a sync frame is reported with the last of them and nothing is
  reported before.\<close>

lemma header_retx_received:
  fixes s :: bytes
  assumes "assembler_wf a" "DstarHeader_wf h" "data_frames fs" "length filler = 4"
    and "plain_bytes fs = retransmission (DstarHeader_encode h) filler"
  shows "length fs = 18 \<and> snd (assemble ((s, 0) # fs) a) = replicate 18 None @ [Some (Block_HeaderRetx h)]"
  using header_retx_received_run [OF assms] .

text \<open>Eighteen frames for the sample header, to instantiate the two theorems.\<close>

definition retx_frames :: "bytes \<Rightarrow> (bytes \<times> u8) list" where
  "retx_frames data =
     frames_of (map (\<lambda>k. Block 0x55 (take 5 (drop (5 * k) data)) 1 2) [0, 1, 2, 3, 4, 5, 6, 7] @
                [Block 0x51 [data ! 40, 0, 0, 0, 0] 17 18])"

lemma retx_frames_plain:
  assumes d: "length data = 41"
  shows "data_frames (retx_frames data)" "plain_bytes (retx_frames data) = retransmission data [0, 0, 0, 0]"
proof -
  show "data_frames (retx_frames data)" by (simp add: retx_frames_def data_frames_def)
  have "take 40 data = concat (map (\<lambda>k. take 5 (drop (5 * k) data)) [0, 1, 2, 3, 4, 5, 6, 7])"
    using take_chain [of 5 30 data 5] take_chain [of 5 25 data 10] take_chain [of 5 20 data 15]
      take_chain [of 5 15 data 20] take_chain [of 5 10 data 25] take_chain [of 5 5 data 30]
      take_chain [of 5 0 data 35] by simp
  moreover have "plain_bytes (item_frames (Block t p i j)) = t # p" if "length p = 5" for t p i j
    using list5 [OF that] by simp
  moreover have "header_blocks (p @ q) = 0x55 # p @ header_blocks q" if "length p = 5" for p q
    using that by (auto simp: length_Suc_conv eval_nat_numeral)
  ultimately show "plain_bytes (retx_frames data) = retransmission data [0, 0, 0, 0]"
    using d by (simp add: retx_frames_def retransmission_def header_blocks_five del: item_frames.simps)
qed

lemma assembler_new_wf: "assembler_wf SlowDataAssembler_new"
  by (simp add: SlowDataAssembler_new_def assembler_wf_def BLOCK_LEN_def ENCODED_LEN_def)

theorem header_retx_authentic_witness:
  "\<exists>pre used filler.
     (DSTAR_SYNC_BYTES, 0) # retx_frames (DstarHeader_encode sample_dstar_header) = pre @ used \<and>
     data_frames used \<and> length filler = 4 \<and>
     plain_bytes used = retransmission (DstarHeader_encode sample_dstar_header) filler"
proof -
  note f = retx_frames_plain [OF length_DstarHeader_encode [OF sample_dstar_header_wf]]
  let ?fs = "(DSTAR_SYNC_BYTES, 0) # retx_frames (DstarHeader_encode sample_dstar_header)"
  have r: "length ?fs = 19" "snd (assemble ?fs SlowDataAssembler_new) = replicate 18 None @ [Some (Block_HeaderRetx sample_dstar_header)]"
    using header_retx_received_run [OF assembler_new_wf sample_dstar_header_wf f(1) _ f(2), of DSTAR_SYNC_BYTES] by simp_all
  obtain a where "assemble ?fs SlowDataAssembler_new = (a, replicate 18 None @ [Some (Block_HeaderRetx sample_dstar_header)])"
    using r(2) by (metis prod.collapse)
  from header_retx_authentic [OF this, of 18] show ?thesis using r(1) by (simp add: nth_append)
qed

end
