(* ===== verification/Dstar_Codec.thy ===== *)
theory Dstar_Codec
  imports Dstar_Header
begin

unbundle bit_operations_syntax

text \<open>
  What the three reflector codecs of \<open>dstar-gateway-core/src/codec/\<close> share: the diagnostics of
  \<open>validator/diagnostic.rs\<close> with the \<open>VecSink\<close> of \<open>validator/sink.rs\<close> (a list that grows at
  its end), endpoint addresses, the reading of fixed fields, and the contract of a datagram
  codec. An encoder returns its result and the buffer it leaves; the contract says that it
  writes exactly the wire image at the front of a buffer that can hold it and otherwise
  touches nothing, and that the peer's decoder recovers what was sent.
\<close>

section \<open>Addresses and diagnostics\<close>

datatype IpAddr = IpV4 u8 u8 u8 u8 | IpV6 "u16 list"

datatype SocketAddr = SocketAddr (sa_ip: IpAddr) (sa_port: u16)

datatype CallsignField = CF_Rpt2 | CF_Rpt1 | CF_Ur | CF_My | CF_MySuffix | CF_Authenticate | CF_LinkRequest

datatype AuthHostSkipReason =
    MalformedCallsign | Inactive | XrfPrefix | EmptyIp | EmptyCallsign | MalformedIp

datatype Diagnostic =
    HeaderCrcMismatch ProtocolKind u16 u16 DstarCallsign
  | HeaderFlagsNonZero ProtocolKind u8 u8 u8
  | CallsignNonPrintable ProtocolKind CallsignField u8 u8
  | StreamIdSwitchWithoutEot ProtocolKind StreamId StreamId duration
  | VoiceSeqOutOfRange ProtocolKind StreamId u8
  | VoiceEotBitMismatch ProtocolKind nat u8
  | VoiceEotTrailerMismatch ProtocolKind bytes
  | DuplicateLink1Ack SocketAddr
  | UnknownLink2Reply bytes
  | AuthHostSkipped nat AuthHostSkipReason
  | AuthChunkTrailingBytes nat nat

type_synonym diagnostics = "Diagnostic list"

definition sink_record :: "Diagnostic \<Rightarrow> diagnostics \<Rightarrow> diagnostics" where
  "sink_record d sink = sink @ [d]"

section \<open>Reading fixed fields\<close>

text \<open>\<open>bytes.get(i).copied().unwrap_or(0)\<close>, and \<open>copy_from_slice\<close> of a range into an array
  that was filled with spaces.\<close>

definition byte_at :: "nat \<Rightarrow> bytes \<Rightarrow> u8" where
  "byte_at i bs = (case get i bs of Some b \<Rightarrow> b | None \<Rightarrow> 0)"

definition copied_spaces :: "nat \<Rightarrow> nat \<Rightarrow> bytes \<Rightarrow> bytes" where
  "copied_spaces a b bs = (case get_range a b bs of Some src \<Rightarrow> src | None \<Rightarrow> replicate (b - a) 0x20)"

lemma byte_at_simps [simp]:
  "byte_at 0 (x # xs) = x" "byte_at (Suc i) (x # xs) = byte_at i xs"
  "byte_at (numeral k) (x # xs) = byte_at (pred_numeral k) xs"
  by (simp_all add: byte_at_def)

lemma byte_at_append:
  "byte_at i (xs @ ys) = (if i < length xs then byte_at i xs else byte_at (i - length xs) ys)"
  by (simp add: byte_at_def get_append)

lemma copied_spaces_eq:
  "a \<le> b \<Longrightarrow> b \<le> length bs \<Longrightarrow> copied_spaces a b bs = take (b - a) (drop a bs)"
  by (simp add: copied_spaces_def get_range_def)

section \<open>Stores past a known prefix\<close>

lemma put_byte_append:
  "put_byte i b (p @ q) = (if i < length p then put_byte i b p @ q else p @ put_byte (i - length p) b q)"
  by (auto simp: put_byte_def put_def Suc_diff_le)

lemma put_append: "length p \<le> i \<Longrightarrow> put i bs (p @ q) = p @ put (i - length p) bs q"
  by (auto simp: put_def)

lemma put_Cons [simp]:
  "put (Suc i) bs (x # xs) = x # put i bs xs"
  "put (numeral k) bs (x # xs) = x # put (pred_numeral k) bs xs"
  by (simp_all add: put_def numeral_eq_Suc)

lemma put_whole: "length bs = length p \<Longrightarrow> put 0 bs (p @ q) = bs @ q"
  by (simp add: put_def)

lemma fill_prefix_eq: "n \<le> length out \<Longrightarrow> fill_prefix n b out = replicate n b @ drop n out"
  by (simp add: fill_prefix_def put_def)

section \<open>The datagram contract\<close>

locale datagram =
  fixes wf :: "'p \<Rightarrow> bool"
    and encode :: "'p \<Rightarrow> bytes \<Rightarrow> (EncodeError + nat) \<times> bytes"
    and wire :: "'p \<Rightarrow> bytes"
  assumes encode_fits: "wf p \<Longrightarrow> length (wire p) \<le> length out \<Longrightarrow>
      encode p out = (Ok (length (wire p)), wire p @ drop (length (wire p)) out)"
    and encode_small: "wf p \<Longrightarrow> length out < length (wire p) \<Longrightarrow>
      encode p out = (Err (BufferTooSmall (length (wire p)) (length out)), out)"
begin

text \<open>The bytes a caller sends are the wire image; the rest of the buffer is untouched.\<close>

lemma sent:
  assumes "wf p" "encode p out = (Ok n, out')"
  shows "take n out' = wire p" "n = length (wire p)" "drop n out' = drop n out" "length out' = length out"
proof -
  have "length (wire p) \<le> length out"
    using assms encode_small [of p out] by (cases "length out < length (wire p)") auto
  then show "take n out' = wire p" "n = length (wire p)" "drop n out' = drop n out" "length out' = length out"
    using encode_fits [OF assms(1), of out] assms(2) by auto
qed

lemma encode_total:
  assumes "wf p" "length (wire p) \<le> length out"
  obtains out' where "encode p out = (Ok (length (wire p)), out')" "take (length (wire p)) out' = wire p"
  using encode_fits [OF assms] by simp

end

text \<open>A link between two hosts: the decoder of the receiver belongs to the contract.\<close>

locale datagram_link = datagram wf encode wire
  for wf :: "'p \<Rightarrow> bool"
    and encode :: "'p \<Rightarrow> bytes \<Rightarrow> (EncodeError + nat) \<times> bytes"
    and wire :: "'p \<Rightarrow> bytes" +
  fixes dec :: "bytes \<Rightarrow> diagnostics \<Rightarrow> ('e + 'r) \<times> diagnostics"
    and received :: "'p \<Rightarrow> 'r"
    and remarks :: "'p \<Rightarrow> diagnostics"
  assumes dec_wire: "wf p \<Longrightarrow> dec (wire p) sink = (Ok (received p), sink @ remarks p)"
begin

lemma delivered:
  assumes "wf p" "encode p out = (Ok n, out')"
  shows "dec (take n out') sink = (Ok (received p), sink @ remarks p)"
  using dec_wire sent(1) assms by simp

end

section \<open>The DSVT voice fields\<close>

text \<open>Both DSVT codecs store the stream identifier little-endian; the decoders read it back
  byte by byte and refuse zero.\<close>

definition stream_le :: "StreamId \<Rightarrow> bytes" where
  "stream_le s = to_le_bytes (stream_raw s)"

lemma stream_le_bytes: "stream_le s = [crc_lo (stream_raw s), crc_hi (stream_raw s)]"
  by (simp add: stream_le_def to_le_bytes_def)

lemma StreamId_new_raw [simp]: "StreamId_wf s \<Longrightarrow> StreamId_new (stream_raw s) = Some s"
  by (cases s) (simp add: StreamId_new_def StreamId_wf_def)

lemma StreamId_new_wf: "StreamId_new w = Some s \<Longrightarrow> StreamId_wf s"
  by (auto simp: StreamId_new_def StreamId_wf_def split: if_splits)

lemma sequence_no_eot: "FrameSequence_wf s \<Longrightarrow> sequence_index s AND 0x40 = 0"
proof -
  have "\<forall>b::u8. b \<le> 20 \<longrightarrow> b AND 0x40 = 0" unfolding u8_all by simp
  then show "FrameSequence_wf s \<Longrightarrow> sequence_index s AND 0x40 = 0" by (simp add: FrameSequence_wf_def)
qed

lemma sequence_eot: "(b OR 0x40) AND 0x40 \<noteq> (0::u8)"
proof -
  have "(b OR 0x40) AND 0x40 = (0x40::u8)" by (rule bit_eqI) (auto simp: bit_or_iff bit_and_iff)
  then show ?thesis by simp
qed

lemma length_encode_for_dsvt: "DstarHeader_wf h \<Longrightarrow> length (encode_for_dsvt h) = 41"
  by (simp add: encode_for_dsvt_def length_DstarHeader_encode)

lemma decode_encode_for_dsvt:
  "DstarHeader_wf h \<Longrightarrow> DstarHeader_decode (encode_for_dsvt h) = DstarHeader_with_flags h HeaderFlags_NONE"
  by (simp add: encode_for_dsvt_def header_codec_lossless)

lemma with_flags_NONE [simp]: "dh_flags (DstarHeader_with_flags h fs) = fs"
  by (simp add: DstarHeader_with_flags_def)

definition DSVT_MAGIC :: bytes where "DSVT_MAGIC = [0x44, 0x53, 0x56, 0x54]"

definition dsvt_prefix :: "u8 \<Rightarrow> StreamId \<Rightarrow> u8 \<Rightarrow> bytes" where
  "dsvt_prefix kind s seq = DSVT_MAGIC @ [kind, 0, 0, 0, 0x20, 0, 1, 2] @ stream_le s @ [seq]"

lemma length_dsvt_prefix [simp]: "length (dsvt_prefix k s q) = 15"
  by (simp add: dsvt_prefix_def DSVT_MAGIC_def stream_le_bytes)

lemma list7: "length (p::'a list) = 7 \<Longrightarrow> \<exists>a b c d e f g. p = [a, b, c, d, e, f, g]"
  by (auto simp: length_Suc_conv eval_nat_numeral)

lemma list3: "length (p::'a list) = 3 \<Longrightarrow> \<exists>a b c. p = [a, b, c]"
  by (auto simp: length_Suc_conv eval_nat_numeral)

text \<open>The stores of a DSVT prefix, on a buffer that has room for it.\<close>

lemma dsvt_prefix_stores:
  assumes "15 \<le> length out"
  shows "put_byte 14 q (put_byte 13 (to_le_bytes (stream_raw s) ! 1) (put_byte 12 (to_le_bytes (stream_raw s) ! 0)
    (put_byte 11 0x02 (put_byte 10 0x01 (put_byte 9 0x00 (put_byte 8 0x20 (put_byte 7 0x00 (put_byte 6 0x00
    (put_byte 5 0x00 (put_byte 4 k (put 0 DSVT_MAGIC out))))))))))) = dsvt_prefix k s q @ drop 15 out"
proof -
  obtain p r where out: "out = p @ r" "length p = 15"
    using assms by (metis append_take_drop_id length_take min.absorb2)
  obtain a b c d e f g h i j x l m n o' where p: "p = [a, b, c, d, e, f, g, h, i, j, x, l, m, n, o']"
    using out(2) by (auto simp: length_Suc_conv eval_nat_numeral)
  show ?thesis
    by (simp add: out(1) p dsvt_prefix_def DSVT_MAGIC_def stream_le_bytes to_le_bytes_def put_def)
qed

lemma put_two:
  "length p = n \<Longrightarrow> length a = 9 \<Longrightarrow> length b = k \<Longrightarrow> n + 9 + k \<le> length out \<Longrightarrow>
     put (n + 9) b (put n a (p @ drop n out)) = (p @ a @ b) @ drop (n + 9 + k) out"
  by (simp add: put_append put_def algebra_simps)

lemma length_silence_sync [simp]: "length AMBE_SILENCE = 9" "length DSTAR_SYNC_BYTES = 3"
  by (simp_all add: AMBE_SILENCE_def DSTAR_SYNC_BYTES_def)

lemma ModuleSlot_roundtrip: "ModuleSlot_wf m \<Longrightarrow> ModuleSlot_try_from (ModuleSlot_as_byte m) = Ok m"
  by (cases m) (simp_all add: ModuleSlot_wf_def ModuleSlot_try_from_def ModuleSlot_as_byte_def Module_byte_not_space)

lemma identity_routing: "RepeaterIdentity_wf i \<Longrightarrow> length (routing_bytes (ri_callsign i)) = 7"
  by (simp add: RepeaterIdentity_wf_def RoutingCallsign_wf_def)

text \<open>The stores of a connect request and of a connect reply, which DExtra and DCS share.\<close>

lemma connect_stores:
  assumes "length r = 7" "11 \<le> length out"
  shows "put_byte 10 0 (put_byte 9 s (put_byte 8 m (put 0 r (fill_prefix 11 0x20 out)))) = r @ [0x20, m, s, 0] @ drop 11 out"
proof -
  obtain a b c d e f g where r: "r = [a, b, c, d, e, f, g]" using list7 [OF assms(1)] by blast
  have sp: "replicate 11 x = [x, x, x, x, x, x, x, x, x, x, x]" for x :: u8
    by (simp add: eval_nat_numeral)
  have "put 0 [a, b, c, d, e, f, g] (replicate 11 0x20 @ drop 11 out) =
      [a, b, c, d, e, f, g, 0x20, 0x20, 0x20, 0x20] @ drop 11 out"
    by (simp add: sp put_def)
  then show ?thesis using assms(2) by (simp add: fill_prefix_eq r)
qed

lemma reply_stores:
  assumes "length r = 7" "length tag = 3" "14 \<le> length out"
  shows "put_byte 13 0 (put 10 tag (put_byte 9 s (put_byte 8 m (put 0 r (fill_prefix 14 0x20 out))))) =
    r @ [0x20, m, s] @ tag @ [0] @ drop 14 out"
proof -
  obtain a b c d e f g where r: "r = [a, b, c, d, e, f, g]" using list7 [OF assms(1)] by blast
  obtain x y z where t: "tag = [x, y, z]" using list3 [OF assms(2)] by blast
  have sp: "replicate 14 x = [x, x, x, x, x, x, x, x, x, x, x, x, x, x]" for x :: u8
    by (simp add: eval_nat_numeral)
  have "put 0 [a, b, c, d, e, f, g] (replicate 14 0x20 @ drop 14 out) =
      [a, b, c, d, e, f, g, 0x20, 0x20, 0x20, 0x20, 0x20, 0x20, 0x20] @ drop 14 out"
    by (simp add: sp put_def)
  moreover have "put 0 [x, y, z] (u # v # w # l) = x # y # z # l" for u v w l
    by (simp add: put_def)
  ultimately show ?thesis using assms(3) by (simp add: fill_prefix_eq r t)
qed

end
