(* ===== verification/Dstar_Dplus.thy ===== *)
theory Dstar_Dplus
  imports Dstar_Codec
begin

unbundle bit_operations_syntax

text \<open>
  The DPlus codec (\<open>dstar-gateway-core/src/codec/dplus/\<close>): the two-step login, its replies,
  unlink and poll packets, and DSVT voice packets with their two-byte length prefix, in both
  directions. As for DExtra, the interpretations of \<open>datagram_link\<close> show that each side
  recovers what the other sends; a login callsign travels with trailing spaces replaced by NUL
  and comes back with every NUL read as a space.
\<close>

section \<open>Constants, errors and packets\<close>

definition DPLUS_KEEPALIVE_INTERVAL :: duration where "DPLUS_KEEPALIVE_INTERVAL = from_secs 1"
definition DPLUS_KEEPALIVE_INACTIVITY_TIMEOUT :: duration where "DPLUS_KEEPALIVE_INACTIVITY_TIMEOUT = from_secs 30"
definition DPLUS_VOICE_INACTIVITY_TIMEOUT :: duration where "DPLUS_VOICE_INACTIVITY_TIMEOUT = from_secs 2"
definition DPLUS_DISCONNECT_TIMEOUT :: duration where "DPLUS_DISCONNECT_TIMEOUT = from_secs 2"

definition LINK1_BYTES :: bytes where "LINK1_BYTES = [0x05, 0x00, 0x18, 0x00, 0x01]"
definition UNLINK_BYTES :: bytes where "UNLINK_BYTES = [0x05, 0x00, 0x18, 0x00, 0x00]"
definition POLL_BYTES :: bytes where "POLL_BYTES = [0x03, 0x60, 0x00]"
definition LINK1_ACK_BYTES :: bytes where "LINK1_ACK_BYTES = LINK1_BYTES"
definition UNLINK_ACK_BYTES :: bytes where "UNLINK_ACK_BYTES = UNLINK_BYTES"
definition POLL_ECHO_BYTES :: bytes where "POLL_ECHO_BYTES = POLL_BYTES"
definition LINK2_ACCEPT_TAG :: bytes where "LINK2_ACCEPT_TAG = [0x4F, 0x4B, 0x52, 0x57]"
definition LINK2_BUSY_TAG :: bytes where "LINK2_BUSY_TAG = [0x42, 0x55, 0x53, 0x59]"
definition LINK2_REPLY_PREFIX :: bytes where "LINK2_REPLY_PREFIX = [0x08, 0xC0, 0x04, 0x00]"
definition LINK2_HEADER :: bytes where "LINK2_HEADER = [0x1C, 0xC0, 0x04, 0x00]"
definition DV_CLIENT_ID :: bytes where "DV_CLIENT_ID = [0x44, 0x56, 0x30, 0x31, 0x39, 0x39, 0x39, 0x39]"
definition VOICE_HEADER_PREFIX :: u8 where "VOICE_HEADER_PREFIX = 0x3A"
definition VOICE_DATA_PREFIX :: u8 where "VOICE_DATA_PREFIX = 0x1D"
definition VOICE_EOT_PREFIX :: u8 where "VOICE_EOT_PREFIX = 0x20"
definition DSVT_TYPE :: u8 where "DSVT_TYPE = 0x80"
definition VOICE_EOT_TRAILER :: bytes where "VOICE_EOT_TRAILER = [0x55, 0x55, 0x55, 0x55, 0xC8, 0x7A]"

lemmas dplus_consts = LINK1_BYTES_def UNLINK_BYTES_def POLL_BYTES_def LINK1_ACK_BYTES_def UNLINK_ACK_BYTES_def
  POLL_ECHO_BYTES_def LINK2_ACCEPT_TAG_def LINK2_BUSY_TAG_def LINK2_REPLY_PREFIX_def LINK2_HEADER_def DV_CLIENT_ID_def
  VOICE_HEADER_PREFIX_def VOICE_DATA_PREFIX_def VOICE_EOT_PREFIX_def DSVT_TYPE_def

datatype DPlusError =
    DPlus_UnknownPacketLength nat
  | DPlus_DsvtMagicMissing bytes
  | DPlus_StreamIdZero
  | DPlus_InvalidShortControlByte u8
  | DPlus_AuthChunkTruncated nat nat nat
  | DPlus_AuthChunkFlagsInvalid nat u8
  | DPlus_AuthChunkTypeInvalid nat u8
  | DPlus_AuthChunkUndersized nat nat
  | DPlus_CallsignFieldInvalid CallsignField
  | DPlus_EncodeBufferTooSmall nat nat

definition DPlusError_from :: "EncodeError \<Rightarrow> DPlusError" where
  "DPlusError_from e = (case e of BufferTooSmall need_b have_b \<Rightarrow> DPlus_EncodeBufferTooSmall need_b have_b)"

datatype Link2Result = Link2_Accept | Link2_Busy | Link2_Unknown bytes

datatype DPlusClientPacket =
    DPlusC_Link1
  | DPlusC_Link2 DstarCallsign
  | DPlusC_Unlink
  | DPlusC_Poll
  | DPlusC_VoiceHeader StreamId DstarHeader
  | DPlusC_VoiceData StreamId u8 VoiceFrame
  | DPlusC_VoiceEot StreamId u8

datatype DPlusServerPacket =
    DPlusS_Link1Ack
  | DPlusS_Link2Reply Link2Result
  | DPlusS_Link2Echo DstarCallsign
  | DPlusS_UnlinkAck
  | DPlusS_PollEcho
  | DPlusS_VoiceHeader StreamId DstarHeader
  | DPlusS_VoiceData StreamId u8 VoiceFrame
  | DPlusS_VoiceEot StreamId u8

section \<open>Encoders\<close>

definition dplus_write_fixed :: "bytes \<Rightarrow> bytes \<Rightarrow> (EncodeError + nat) \<times> bytes" where
  "dplus_write_fixed out src =
     (if length out < length src then (Err (BufferTooSmall (length src) (length out)), out)
      else (Ok (length src), put 0 src out))"

definition dplus_encode_link1 :: "bytes \<Rightarrow> (EncodeError + nat) \<times> bytes" where
  "dplus_encode_link1 out = dplus_write_fixed out LINK1_BYTES"

definition dplus_encode_unlink :: "bytes \<Rightarrow> (EncodeError + nat) \<times> bytes" where
  "dplus_encode_unlink out = dplus_write_fixed out UNLINK_BYTES"

definition dplus_encode_poll :: "bytes \<Rightarrow> (EncodeError + nat) \<times> bytes" where
  "dplus_encode_poll out = dplus_write_fixed out POLL_BYTES"

definition dplus_encode_link1_ack :: "bytes \<Rightarrow> (EncodeError + nat) \<times> bytes" where
  "dplus_encode_link1_ack out = dplus_write_fixed out LINK1_ACK_BYTES"

definition dplus_encode_unlink_ack :: "bytes \<Rightarrow> (EncodeError + nat) \<times> bytes" where
  "dplus_encode_unlink_ack out = dplus_write_fixed out UNLINK_ACK_BYTES"

definition dplus_encode_poll_echo :: "bytes \<Rightarrow> (EncodeError + nat) \<times> bytes" where
  "dplus_encode_poll_echo out = dplus_write_fixed out POLL_ECHO_BYTES"

text \<open>\<open>bytes.iter().rposition(|&b| b != b' ').map_or(0, |p| p + 1)\<close>.\<close>

definition dplus_trimmed_len :: "bytes \<Rightarrow> nat" where
  "dplus_trimmed_len bs = length (dropWhile (\<lambda>b. b = 0x20) (rev bs))"

definition dplus_encode_link2 :: "bytes \<Rightarrow> DstarCallsign \<Rightarrow> (EncodeError + nat) \<times> bytes" where
  "dplus_encode_link2 out callsign =
     (if length out < 28 then (Err (BufferTooSmall 28 (length out)), out)
      else let out = fill_prefix 28 0 out;
               out = put 0 LINK2_HEADER out;
               bs = callsign_bytes callsign;
               trimmed_len = dplus_trimmed_len bs;
               out = put 4 (take trimmed_len bs) out;
               out = put 20 DV_CLIENT_ID out
           in (Ok 28, out))"

definition dplus_encode_link2_reply :: "bytes \<Rightarrow> Link2Result \<Rightarrow> (EncodeError + nat) \<times> bytes" where
  "dplus_encode_link2_reply out result =
     (if length out < 8 then (Err (BufferTooSmall 8 (length out)), out)
      else let out = put 0 LINK2_REPLY_PREFIX out;
               tag = (case result of
                        Link2_Accept \<Rightarrow> LINK2_ACCEPT_TAG
                      | Link2_Busy \<Rightarrow> LINK2_BUSY_TAG
                      | Link2_Unknown reply \<Rightarrow> reply);
               out = put 4 tag out
           in (Ok 8, out))"

definition dplus_encode_voice_header ::
  "bytes \<Rightarrow> StreamId \<Rightarrow> DstarHeader \<Rightarrow> (EncodeError + nat) \<times> bytes" where
  "dplus_encode_voice_header out stream_id header =
     (if length out < 58 then (Err (BufferTooSmall 58 (length out)), out)
      else let out = put_byte 0 VOICE_HEADER_PREFIX out; out = put_byte 1 DSVT_TYPE out;
               out = put 2 DSVT_MAGIC out;
               out = put_byte 6 0x10 out; out = put_byte 7 0x00 out; out = put_byte 8 0x00 out;
               out = put_byte 9 0x00 out; out = put_byte 10 0x20 out; out = put_byte 11 0x00 out;
               out = put_byte 12 0x01 out; out = put_byte 13 0x02 out;
               sid = to_le_bytes (stream_raw stream_id);
               out = put_byte 14 (sid ! 0) out; out = put_byte 15 (sid ! 1) out;
               out = put_byte 16 0x80 out;
               out = put 17 (encode_for_dsvt header) out
           in (Ok 58, out))"

definition dplus_write_voice_prefix :: "bytes \<Rightarrow> u8 \<Rightarrow> StreamId \<Rightarrow> u8 \<Rightarrow> bytes" where
  "dplus_write_voice_prefix out prefix stream_id seq =
     (let out = put_byte 0 prefix out; out = put_byte 1 DSVT_TYPE out;
          out = put 2 DSVT_MAGIC out;
          out = put_byte 6 0x20 out; out = put_byte 7 0x00 out; out = put_byte 8 0x00 out;
          out = put_byte 9 0x00 out; out = put_byte 10 0x20 out; out = put_byte 11 0x00 out;
          out = put_byte 12 0x01 out; out = put_byte 13 0x02 out;
          sid = to_le_bytes (stream_raw stream_id);
          out = put_byte 14 (sid ! 0) out; out = put_byte 15 (sid ! 1) out
      in put_byte 16 seq out)"

definition dplus_encode_voice_data ::
  "bytes \<Rightarrow> StreamId \<Rightarrow> FrameSequence \<Rightarrow> VoiceFrame \<Rightarrow> (EncodeError + nat) \<times> bytes" where
  "dplus_encode_voice_data out stream_id seq frame =
     (if length out < 29 then (Err (BufferTooSmall 29 (length out)), out)
      else let out = dplus_write_voice_prefix out VOICE_DATA_PREFIX stream_id (sequence_index seq);
               out = put 17 (ambe frame) out;
               out = put 26 (slow_data frame) out
           in (Ok 29, out))"

definition dplus_encode_voice_eot ::
  "bytes \<Rightarrow> StreamId \<Rightarrow> FrameSequence \<Rightarrow> (EncodeError + nat) \<times> bytes" where
  "dplus_encode_voice_eot out stream_id seq =
     (if length out < 32 then (Err (BufferTooSmall 32 (length out)), out)
      else let out = dplus_write_voice_prefix out VOICE_EOT_PREFIX stream_id (sequence_index seq OR 0x40);
               out = put 17 AMBE_SILENCE out;
               out = put 26 VOICE_EOT_TRAILER out
           in (Ok 32, out))"

section \<open>Decoders\<close>

definition dplus_is_dsvt :: "bytes \<Rightarrow> bool" where
  "dplus_is_dsvt bs \<longleftrightarrow> 6 \<le> length bs \<and> get_range 2 6 bs = Some DSVT_MAGIC"

text \<open>The callsign of a login packet: copied into a field of spaces, NUL bytes read as spaces.\<close>

definition dplus_link2_callsign :: "bytes \<Rightarrow> DstarCallsign" where
  "dplus_link2_callsign bs =
     (let cs_bytes = (case get_range 4 12 bs of Some src \<Rightarrow> src | None \<Rightarrow> []);
          copy_len = min (length cs_bytes) 8;
          cs = put 0 (take copy_len cs_bytes) (replicate 8 0x20)
      in DstarCallsign_from_wire_bytes (map (\<lambda>b. if b = 0 then 0x20 else b) cs))"

definition parse_dsvt_common ::
  "bytes \<Rightarrow> diagnostics \<Rightarrow>
     (DPlusError + (StreamId \<times> DstarHeader option \<times> VoiceFrame option \<times> bool \<times> bool \<times> nat)) \<times> diagnostics" where
  "parse_dsvt_common bs sink =
     (let len = length bs
      in if len \<noteq> 58 \<and> len \<noteq> 29 \<and> len \<noteq> 32 then (Err (DPlus_UnknownPacketLength len), sink)
         else case ok_or (StreamId_new (from_le_bytes (byte_at 14 bs) (byte_at 15 bs))) DPlus_StreamIdZero of
                Err e \<Rightarrow> (Err e, sink)
              | Ok stream_id \<Rightarrow>
                  (let is_header = (len = 58 \<and> get 6 bs = Some 0x10);
                       is_eot = (len = 32 \<and> get 6 bs = Some 0x20);
                       is_voice = (len = 29 \<and> get 6 bs = Some 0x20)
                   in if \<not> is_header \<and> \<not> is_eot \<and> \<not> is_voice then (Err (DPlus_UnknownPacketLength len), sink)
                      else if is_header
                      then (case get_range 17 58 bs of
                              None \<Rightarrow> (Err (DPlus_UnknownPacketLength len), sink)
                            | Some arr \<Rightarrow>
                                (let decoded = DstarHeader_decode arr;
                                     fs = dh_flags decoded;
                                     sink = (if fs \<noteq> HeaderFlags_NONE
                                             then sink_record (HeaderFlagsNonZero PK_DPlus (flag1 fs) (flag2 fs) (flag3 fs)) sink
                                             else sink)
                                 in (Ok (stream_id, Some decoded, None, is_header, is_eot, len), sink)))
                      else (let frame = (if is_voice
                                         then Some \<lparr>ambe = copied 17 26 bs, slow_data = copied 26 29 bs\<rparr>
                                         else None)
                            in (Ok (stream_id, None, frame, is_header, is_eot, len), sink))))"

definition decode_dsvt_server :: "bytes \<Rightarrow> diagnostics \<Rightarrow> (DPlusError + DPlusServerPacket) \<times> diagnostics" where
  "decode_dsvt_server bs sink =
     (case parse_dsvt_common bs sink of
        (Err e, sink) \<Rightarrow> (Err e, sink)
      | (Ok (stream_id, header, frame_bytes, is_header, is_eot, len), sink) \<Rightarrow>
          (if is_header
           then (case header of None \<Rightarrow> Err (DPlus_UnknownPacketLength len) | Some hdr \<Rightarrow> Ok (DPlusS_VoiceHeader stream_id hdr))
           else if is_eot then Ok (DPlusS_VoiceEot stream_id (byte_at 16 bs))
           else (case frame_bytes of
                   None \<Rightarrow> Err (DPlus_UnknownPacketLength len)
                 | Some frame \<Rightarrow> Ok (DPlusS_VoiceData stream_id (byte_at 16 bs) frame)), sink))"

definition decode_dsvt_client :: "bytes \<Rightarrow> diagnostics \<Rightarrow> (DPlusError + DPlusClientPacket) \<times> diagnostics" where
  "decode_dsvt_client bs sink =
     (case parse_dsvt_common bs sink of
        (Err e, sink) \<Rightarrow> (Err e, sink)
      | (Ok (stream_id, header, frame_bytes, is_header, is_eot, len), sink) \<Rightarrow>
          (if is_header
           then (case header of None \<Rightarrow> Err (DPlus_UnknownPacketLength len) | Some hdr \<Rightarrow> Ok (DPlusC_VoiceHeader stream_id hdr))
           else if is_eot then Ok (DPlusC_VoiceEot stream_id (byte_at 16 bs))
           else (case frame_bytes of
                   None \<Rightarrow> Err (DPlus_UnknownPacketLength len)
                 | Some frame \<Rightarrow> Ok (DPlusC_VoiceData stream_id (byte_at 16 bs) frame)), sink))"

definition dplus_decode_server_to_client ::
  "bytes \<Rightarrow> diagnostics \<Rightarrow> (DPlusError + DPlusServerPacket) \<times> diagnostics" where
  "dplus_decode_server_to_client bs sink =
     (let len = length bs
      in if \<not> dplus_is_dsvt bs
         then (if len = 3 then (Ok DPlusS_PollEcho, sink)
               else if len = 5
               then (let ctrl = byte_at 4 bs
                     in if ctrl = 0x01 then (Ok DPlusS_Link1Ack, sink)
                        else if ctrl = 0x00 then (Ok DPlusS_UnlinkAck, sink)
                        else (Err (DPlus_InvalidShortControlByte ctrl), sink))
               else if len = 8
               then (let tag = (case get_range 4 8 bs of Some t \<Rightarrow> t | None \<Rightarrow> [])
                     in if tag = LINK2_ACCEPT_TAG then (Ok (DPlusS_Link2Reply Link2_Accept), sink)
                        else if tag = LINK2_BUSY_TAG then (Ok (DPlusS_Link2Reply Link2_Busy), sink)
                        else (Ok (DPlusS_Link2Reply (Link2_Unknown tag)), sink_record (UnknownLink2Reply tag) sink))
               else if len = 28 then (Ok (DPlusS_Link2Echo (dplus_link2_callsign bs)), sink)
               else (Err (DPlus_UnknownPacketLength len), sink))
         else decode_dsvt_server bs sink)"

definition dplus_decode_client_to_server ::
  "bytes \<Rightarrow> diagnostics \<Rightarrow> (DPlusError + DPlusClientPacket) \<times> diagnostics" where
  "dplus_decode_client_to_server bs sink =
     (let len = length bs
      in if \<not> dplus_is_dsvt bs
         then (if len = 3 then (Ok DPlusC_Poll, sink)
               else if len = 5
               then (let ctrl = byte_at 4 bs
                     in if ctrl = 0x01 then (Ok DPlusC_Link1, sink)
                        else if ctrl = 0x00 then (Ok DPlusC_Unlink, sink)
                        else (Err (DPlus_InvalidShortControlByte ctrl), sink))
               else if len = 28 then (Ok (DPlusC_Link2 (dplus_link2_callsign bs)), sink)
               else (Err (DPlus_UnknownPacketLength len), sink))
         else decode_dsvt_client bs sink)"

section \<open>Wire images\<close>

text \<open>What is left of a callsign that travelled in a NUL-padded field.\<close>

definition nul_to_space :: "DstarCallsign \<Rightarrow> DstarCallsign" where
  "nul_to_space c = DstarCallsign (map (\<lambda>b. if b = 0 then 0x20 else b) (callsign_bytes c))"

definition dplus_link2_wire :: "DstarCallsign \<Rightarrow> bytes" where
  "dplus_link2_wire c =
     (let n = dplus_trimmed_len (callsign_bytes c)
      in LINK2_HEADER @ take n (callsign_bytes c) @ replicate (16 - n) 0 @ DV_CLIENT_ID)"

definition link2_tag :: "Link2Result \<Rightarrow> bytes" where
  "link2_tag r = (case r of
     Link2_Accept \<Rightarrow> LINK2_ACCEPT_TAG | Link2_Busy \<Rightarrow> LINK2_BUSY_TAG | Link2_Unknown reply \<Rightarrow> reply)"

definition dplus_prefix :: "u8 \<Rightarrow> u8 \<Rightarrow> StreamId \<Rightarrow> u8 \<Rightarrow> bytes" where
  "dplus_prefix b kind s seq = [b, DSVT_TYPE] @ dsvt_prefix kind s seq"

lemma length_dplus_prefix [simp]: "length (dplus_prefix b k s q) = 17"
  by (simp add: dplus_prefix_def)

lemma length_dplus_consts [simp]:
  "length LINK2_HEADER = 4" "length DV_CLIENT_ID = 8" "length LINK2_REPLY_PREFIX = 4"
  "length LINK1_BYTES = 5" "length UNLINK_BYTES = 5" "length POLL_BYTES = 3" "length VOICE_EOT_TRAILER = 6"
  "length LINK2_ACCEPT_TAG = 4" "length LINK2_BUSY_TAG = 4"
  by (simp_all add: dplus_consts VOICE_EOT_TRAILER_def)

lemma dplus_trimmed_len_le: "dplus_trimmed_len bs \<le> length bs"
  unfolding dplus_trimmed_len_def by (metis length_dropWhile_le length_rev)

lemma dplus_trimmed_spaces:
  "take (dplus_trimmed_len bs) bs @ replicate (length bs - dplus_trimmed_len bs) 0x20 = bs"
proof -
  let ?P = "\<lambda>b::u8. b = 0x20"
  have split: "bs = rev (dropWhile ?P (rev bs)) @ rev (takeWhile ?P (rev bs))"
    by (metis rev_append rev_rev_ident takeWhile_dropWhile_id)
  have "rev (takeWhile ?P (rev bs)) = replicate (length (takeWhile ?P (rev bs))) 0x20"
    by (rule replicate_eqI) (auto dest: set_takeWhileD)
  moreover have "length (takeWhile ?P (rev bs)) = length bs - dplus_trimmed_len bs"
    unfolding dplus_trimmed_len_def by (metis add_diff_cancel_right' length_append length_rev takeWhile_dropWhile_id)
  moreover have "take (dplus_trimmed_len bs) bs = rev (dropWhile ?P (rev bs))"
    unfolding dplus_trimmed_len_def by (subst split) simp
  ultimately show ?thesis using split by simp
qed

lemma length_dplus_link2_wire: "DstarCallsign_wf c \<Longrightarrow> length (dplus_link2_wire c) = 28"
  using dplus_trimmed_len_le [of "callsign_bytes c"]
  by (simp add: dplus_link2_wire_def Let_def DstarCallsign_wf_def)

lemma dplus_write_fixed_eq:
  "dplus_write_fixed out src =
    (if length out < length src then (Err (BufferTooSmall (length src) (length out)), out)
     else (Ok (length src), src @ drop (length src) out))"
  by (simp add: dplus_write_fixed_def put_start)

lemma dplus_encode_link2_eq:
  assumes "DstarCallsign_wf c"
  shows "dplus_encode_link2 out c =
    (if length out < 28 then (Err (BufferTooSmall 28 (length out)), out)
     else (Ok 28, dplus_link2_wire c @ drop 28 out))"
proof -
  define n where "n = dplus_trimmed_len (callsign_bytes c)"
  have n: "n \<le> 8" "length (take n (callsign_bytes c)) = n"
    using assms dplus_trimmed_len_le [of "callsign_bytes c"] by (simp_all add: n_def DstarCallsign_wf_def)
  have "replicate 28 (0::u8) = replicate 4 0 @ replicate n 0 @ replicate (16 - n) 0 @ replicate 8 0"
    using n(1) by (simp flip: replicate_add)
  then have zeros: "put 0 LINK2_HEADER (replicate 28 0 @ r) =
      LINK2_HEADER @ replicate n 0 @ replicate (16 - n) 0 @ replicate 8 0 @ r" for r
    by (simp add: put_def)
  have call: "put 4 (take n (callsign_bytes c)) (LINK2_HEADER @ replicate n 0 @ r) =
      LINK2_HEADER @ take n (callsign_bytes c) @ r" for r
    using n by (simp add: put_append put_whole)
  have id: "put 20 DV_CLIENT_ID (LINK2_HEADER @ take n (callsign_bytes c) @ replicate (16 - n) 0 @ replicate 8 0 @ r) =
      dplus_link2_wire c @ r" for r
  proof -
    have "length (LINK2_HEADER @ take n (callsign_bytes c) @ replicate (16 - n) (0::u8)) = 20" using n by simp
    then have "put 20 DV_CLIENT_ID ((LINK2_HEADER @ take n (callsign_bytes c) @ replicate (16 - n) 0) @ replicate 8 0 @ r) =
        (LINK2_HEADER @ take n (callsign_bytes c) @ replicate (16 - n) 0) @ DV_CLIENT_ID @ r"
      by (subst put_append) (simp_all add: put_whole)
    then show ?thesis by (simp add: dplus_link2_wire_def Let_def n_def)
  qed
  show ?thesis
    by (simp add: dplus_encode_link2_def Let_def fill_prefix_eq zeros call id flip: n_def)
qed

lemma dplus_link2_callsign_wire:
  assumes "DstarCallsign_wf c"
  shows "dplus_link2_callsign (dplus_link2_wire c) = nul_to_space c"
proof -
  define n where "n = dplus_trimmed_len (callsign_bytes c)"
  have n: "n \<le> 8" "length (callsign_bytes c) = 8"
    using assms dplus_trimmed_len_le [of "callsign_bytes c"] by (simp_all add: n_def DstarCallsign_wf_def)
  have "get_range 4 12 (dplus_link2_wire c) = Some (take n (callsign_bytes c) @ replicate (8 - n) 0)"
    using n by (simp add: get_range_def dplus_link2_wire_def Let_def flip: n_def)
  moreover have "map f (callsign_bytes c) = map f (take n (callsign_bytes c) @ replicate (8 - n) 0x20)" for f :: "u8 \<Rightarrow> u8"
    using arg_cong [OF dplus_trimmed_spaces [of "callsign_bytes c"], of "map f"] n(2) by (simp only: n_def)
  ultimately show ?thesis
    using n by (simp add: dplus_link2_callsign_def nul_to_space_def DstarCallsign_from_wire_bytes_def put_def
        min_def del: take_map)
qed

lemma dplus_encode_link2_reply_eq:
  assumes "length (link2_tag r) = 4"
  shows "dplus_encode_link2_reply out r =
    (if length out < 8 then (Err (BufferTooSmall 8 (length out)), out)
     else (Ok 8, (LINK2_REPLY_PREFIX @ link2_tag r) @ drop 8 out))"
proof -
  have "put 4 (link2_tag r) (LINK2_REPLY_PREFIX @ drop 4 out) = (LINK2_REPLY_PREFIX @ link2_tag r) @ drop 8 out"
    if "\<not> length out < 8"
    using that assms by (simp add: put_append put_def)
  then show ?thesis
    by (simp add: dplus_encode_link2_reply_def Let_def put_start flip: link2_tag_def)
qed

lemma dplus_prefix_stores:
  assumes "17 \<le> length out"
  shows "put_byte 16 q (put_byte 15 (to_le_bytes (stream_raw s) ! 1) (put_byte 14 (to_le_bytes (stream_raw s) ! 0)
    (put_byte 13 0x02 (put_byte 12 0x01 (put_byte 11 0x00 (put_byte 10 0x20 (put_byte 9 0x00 (put_byte 8 0x00
    (put_byte 7 0x00 (put_byte 6 k (put 2 DSVT_MAGIC (put_byte 1 DSVT_TYPE (put_byte 0 b out)))))))))))))
    = dplus_prefix b k s q @ drop 17 out"
proof -
  obtain x y r where out: "out = x # y # r" "15 \<le> length r"
    using assms by (auto simp: Suc_le_length_iff numeral_eq_Suc)
  have "put_byte (Suc (Suc i)) c (x' # y' # l) = x' # y' # put_byte i c l" for i c x' y' l by simp
  then show ?thesis
    using dsvt_prefix_stores [OF out(2), of q s k]
    by (simp add: out(1) dplus_prefix_def)
qed

lemma dplus_write_voice_prefix_eq:
  "17 \<le> length out \<Longrightarrow> dplus_write_voice_prefix out b s q = dplus_prefix b 0x20 s q @ drop 17 out"
  unfolding dplus_write_voice_prefix_def Let_def by (rule dplus_prefix_stores)

lemma dplus_encode_voice_header_eq:
  assumes "DstarHeader_wf h"
  shows "dplus_encode_voice_header out s h =
    (if length out < 58 then (Err (BufferTooSmall 58 (length out)), out)
     else (Ok 58, (dplus_prefix VOICE_HEADER_PREFIX 0x10 s 0x80 @ encode_for_dsvt h) @ drop 58 out))"
proof (cases "length out < 58")
  case False
  have "put 17 (encode_for_dsvt h) (dplus_prefix VOICE_HEADER_PREFIX 0x10 s 0x80 @ drop 17 out) =
      (dplus_prefix VOICE_HEADER_PREFIX 0x10 s 0x80 @ encode_for_dsvt h) @ drop 58 out"
    using False length_encode_for_dsvt [OF assms] by (simp add: put_append put_def)
  moreover have "17 \<le> length out" using False by simp
  ultimately show ?thesis
    unfolding dplus_encode_voice_header_def Let_def dplus_prefix_stores [OF \<open>17 \<le> length out\<close>]
    using False by simp
qed (simp add: dplus_encode_voice_header_def)

lemma dplus_encode_voice_data_eq:
  assumes "VoiceFrame_wf f"
  shows "dplus_encode_voice_data out s q f =
    (if length out < 29 then (Err (BufferTooSmall 29 (length out)), out)
     else (Ok 29, (dplus_prefix VOICE_DATA_PREFIX 0x20 s (sequence_index q) @ ambe f @ slow_data f) @ drop 29 out))"
  using assms put_two [of "dplus_prefix VOICE_DATA_PREFIX 0x20 s (sequence_index q)" 17 "ambe f" "slow_data f" 3 out]
  by (simp add: dplus_encode_voice_data_def Let_def dplus_write_voice_prefix_eq VoiceFrame_wf_def)

lemma dplus_encode_voice_eot_eq:
  "dplus_encode_voice_eot out s q =
    (if length out < 32 then (Err (BufferTooSmall 32 (length out)), out)
     else (Ok 32, (dplus_prefix VOICE_EOT_PREFIX 0x20 s (sequence_index q OR 0x40) @ AMBE_SILENCE @ VOICE_EOT_TRAILER) @
       drop 32 out))"
  using put_two [of "dplus_prefix VOICE_EOT_PREFIX 0x20 s (sequence_index q OR 0x40)" 17 AMBE_SILENCE VOICE_EOT_TRAILER 6 out]
  by (simp add: dplus_encode_voice_eot_def Let_def dplus_write_voice_prefix_eq)

section \<open>What each side sends and the other receives\<close>

datatype dplus_client_tx =
    DpLink1
  | DpLink2 DstarCallsign
  | DpUnlink
  | DpPoll
  | DpHeader StreamId DstarHeader
  | DpVoice StreamId FrameSequence VoiceFrame
  | DpEot StreamId FrameSequence

fun dplus_client_encode :: "dplus_client_tx \<Rightarrow> bytes \<Rightarrow> (EncodeError + nat) \<times> bytes" where
  "dplus_client_encode DpLink1 out = dplus_encode_link1 out"
| "dplus_client_encode (DpLink2 c) out = dplus_encode_link2 out c"
| "dplus_client_encode DpUnlink out = dplus_encode_unlink out"
| "dplus_client_encode DpPoll out = dplus_encode_poll out"
| "dplus_client_encode (DpHeader s h) out = dplus_encode_voice_header out s h"
| "dplus_client_encode (DpVoice s q f) out = dplus_encode_voice_data out s q f"
| "dplus_client_encode (DpEot s q) out = dplus_encode_voice_eot out s q"

fun dplus_client_wf :: "dplus_client_tx \<Rightarrow> bool" where
  "dplus_client_wf (DpLink2 c) = DstarCallsign_wf c"
| "dplus_client_wf (DpHeader s h) = (StreamId_wf s \<and> DstarHeader_wf h)"
| "dplus_client_wf (DpVoice s q f) = (StreamId_wf s \<and> FrameSequence_wf q \<and> VoiceFrame_wf f)"
| "dplus_client_wf (DpEot s q) = (StreamId_wf s \<and> FrameSequence_wf q)"
| "dplus_client_wf _ = True"

fun dplus_client_wire :: "dplus_client_tx \<Rightarrow> bytes" where
  "dplus_client_wire DpLink1 = LINK1_BYTES"
| "dplus_client_wire (DpLink2 c) = dplus_link2_wire c"
| "dplus_client_wire DpUnlink = UNLINK_BYTES"
| "dplus_client_wire DpPoll = POLL_BYTES"
| "dplus_client_wire (DpHeader s h) = dplus_prefix VOICE_HEADER_PREFIX 0x10 s 0x80 @ encode_for_dsvt h"
| "dplus_client_wire (DpVoice s q f) = dplus_prefix VOICE_DATA_PREFIX 0x20 s (sequence_index q) @ ambe f @ slow_data f"
| "dplus_client_wire (DpEot s q) =
     dplus_prefix VOICE_EOT_PREFIX 0x20 s (sequence_index q OR 0x40) @ AMBE_SILENCE @ VOICE_EOT_TRAILER"

fun dplus_client_received :: "dplus_client_tx \<Rightarrow> DPlusClientPacket" where
  "dplus_client_received DpLink1 = DPlusC_Link1"
| "dplus_client_received (DpLink2 c) = DPlusC_Link2 (nul_to_space c)"
| "dplus_client_received DpUnlink = DPlusC_Unlink"
| "dplus_client_received DpPoll = DPlusC_Poll"
| "dplus_client_received (DpHeader s h) = DPlusC_VoiceHeader s (DstarHeader_with_flags h HeaderFlags_NONE)"
| "dplus_client_received (DpVoice s q f) = DPlusC_VoiceData s (sequence_index q) f"
| "dplus_client_received (DpEot s q) = DPlusC_VoiceEot s (sequence_index q OR 0x40)"

datatype dplus_server_tx =
    DpLink1Ack
  | DpLink2Reply Link2Result
  | DpUnlinkAck
  | DpPollEcho
  | DpFwdHeader StreamId DstarHeader
  | DpFwdVoice StreamId FrameSequence VoiceFrame
  | DpFwdEot StreamId FrameSequence

fun dplus_server_encode :: "dplus_server_tx \<Rightarrow> bytes \<Rightarrow> (EncodeError + nat) \<times> bytes" where
  "dplus_server_encode DpLink1Ack out = dplus_encode_link1_ack out"
| "dplus_server_encode (DpLink2Reply r) out = dplus_encode_link2_reply out r"
| "dplus_server_encode DpUnlinkAck out = dplus_encode_unlink_ack out"
| "dplus_server_encode DpPollEcho out = dplus_encode_poll_echo out"
| "dplus_server_encode (DpFwdHeader s h) out = dplus_encode_voice_header out s h"
| "dplus_server_encode (DpFwdVoice s q f) out = dplus_encode_voice_data out s q f"
| "dplus_server_encode (DpFwdEot s q) out = dplus_encode_voice_eot out s q"

fun dplus_server_wf :: "dplus_server_tx \<Rightarrow> bool" where
  "dplus_server_wf (DpLink2Reply r) = (length (link2_tag r) = 4)"
| "dplus_server_wf (DpFwdHeader s h) = (StreamId_wf s \<and> DstarHeader_wf h)"
| "dplus_server_wf (DpFwdVoice s q f) = (StreamId_wf s \<and> FrameSequence_wf q \<and> VoiceFrame_wf f)"
| "dplus_server_wf (DpFwdEot s q) = (StreamId_wf s \<and> FrameSequence_wf q)"
| "dplus_server_wf _ = True"

fun dplus_server_wire :: "dplus_server_tx \<Rightarrow> bytes" where
  "dplus_server_wire DpLink1Ack = LINK1_BYTES"
| "dplus_server_wire (DpLink2Reply r) = LINK2_REPLY_PREFIX @ link2_tag r"
| "dplus_server_wire DpUnlinkAck = UNLINK_BYTES"
| "dplus_server_wire DpPollEcho = POLL_BYTES"
| "dplus_server_wire (DpFwdHeader s h) = dplus_prefix VOICE_HEADER_PREFIX 0x10 s 0x80 @ encode_for_dsvt h"
| "dplus_server_wire (DpFwdVoice s q f) = dplus_prefix VOICE_DATA_PREFIX 0x20 s (sequence_index q) @ ambe f @ slow_data f"
| "dplus_server_wire (DpFwdEot s q) =
     dplus_prefix VOICE_EOT_PREFIX 0x20 s (sequence_index q OR 0x40) @ AMBE_SILENCE @ VOICE_EOT_TRAILER"

text \<open>A reply is read by its tag: the two known tags always mean acceptance and refusal, and any
  other one is reported.\<close>

definition link2_of_tag :: "bytes \<Rightarrow> Link2Result" where
  "link2_of_tag t =
     (if t = LINK2_ACCEPT_TAG then Link2_Accept else if t = LINK2_BUSY_TAG then Link2_Busy else Link2_Unknown t)"

fun dplus_server_received :: "dplus_server_tx \<Rightarrow> DPlusServerPacket" where
  "dplus_server_received DpLink1Ack = DPlusS_Link1Ack"
| "dplus_server_received (DpLink2Reply r) = DPlusS_Link2Reply (link2_of_tag (link2_tag r))"
| "dplus_server_received DpUnlinkAck = DPlusS_UnlinkAck"
| "dplus_server_received DpPollEcho = DPlusS_PollEcho"
| "dplus_server_received (DpFwdHeader s h) = DPlusS_VoiceHeader s (DstarHeader_with_flags h HeaderFlags_NONE)"
| "dplus_server_received (DpFwdVoice s q f) = DPlusS_VoiceData s (sequence_index q) f"
| "dplus_server_received (DpFwdEot s q) = DPlusS_VoiceEot s (sequence_index q OR 0x40)"

fun dplus_server_remarks :: "dplus_server_tx \<Rightarrow> diagnostics" where
  "dplus_server_remarks (DpLink2Reply r) =
     (case link2_of_tag (link2_tag r) of Link2_Unknown t \<Rightarrow> [UnknownLink2Reply t] | _ \<Rightarrow> [])"
| "dplus_server_remarks _ = []"

section \<open>The two directions of a DPlus link\<close>

lemmas dplus_encode_eqs = dplus_encode_link1_def dplus_encode_unlink_def dplus_encode_poll_def
  dplus_encode_link1_ack_def dplus_encode_unlink_ack_def dplus_encode_poll_echo_def dplus_write_fixed_eq
  LINK1_ACK_BYTES_def UNLINK_ACK_BYTES_def POLL_ECHO_BYTES_def
  dplus_encode_link2_eq dplus_encode_link2_reply_eq dplus_encode_voice_header_eq dplus_encode_voice_data_eq
  dplus_encode_voice_eot_eq

lemmas dplus_wire_lens = length_dplus_link2_wire length_encode_for_dsvt VoiceFrame_wf_def

lemma dplus_client_datagram: "datagram dplus_client_wf dplus_client_encode dplus_client_wire"
proof
  fix p and out :: bytes assume "dplus_client_wf p" "length (dplus_client_wire p) \<le> length out"
  then show "dplus_client_encode p out =
      (Ok (length (dplus_client_wire p)), dplus_client_wire p @ drop (length (dplus_client_wire p)) out)"
    by (cases p) (auto simp: dplus_encode_eqs dplus_wire_lens)
next
  fix p and out :: bytes assume "dplus_client_wf p" "length out < length (dplus_client_wire p)"
  then show "dplus_client_encode p out =
      (Err (BufferTooSmall (length (dplus_client_wire p)) (length out)), out)"
    by (cases p) (auto simp: dplus_encode_eqs dplus_wire_lens)
qed

lemma dplus_server_datagram: "datagram dplus_server_wf dplus_server_encode dplus_server_wire"
proof
  fix p and out :: bytes assume "dplus_server_wf p" "length (dplus_server_wire p) \<le> length out"
  then show "dplus_server_encode p out =
      (Ok (length (dplus_server_wire p)), dplus_server_wire p @ drop (length (dplus_server_wire p)) out)"
    by (cases p) (auto simp: dplus_encode_eqs dplus_wire_lens)
next
  fix p and out :: bytes assume "dplus_server_wf p" "length out < length (dplus_server_wire p)"
  then show "dplus_server_encode p out =
      (Err (BufferTooSmall (length (dplus_server_wire p)) (length out)), out)"
    by (cases p) (auto simp: dplus_encode_eqs dplus_wire_lens)
qed

lemma dplus_parse_header_wire:
  assumes "StreamId_wf s" "DstarHeader_wf h"
  shows "parse_dsvt_common (dplus_prefix b 0x10 s q @ encode_for_dsvt h) sink =
    (Ok (s, Some (DstarHeader_with_flags h HeaderFlags_NONE), None, True, False, 58), sink)"
proof -
  let ?w = "dplus_prefix b 0x10 s q @ encode_for_dsvt h"
  have "length ?w = 58" using assms by (simp add: length_encode_for_dsvt)
  moreover have "get_range 17 58 ?w = Some (encode_for_dsvt h)"
    using assms by (simp add: get_range_def length_encode_for_dsvt)
  moreover have "get 6 ?w = Some 0x10" "byte_at 14 ?w = crc_lo (stream_raw s)" "byte_at 15 ?w = crc_hi (stream_raw s)"
    by (simp_all add: dplus_prefix_def dsvt_prefix_def DSVT_MAGIC_def stream_le_bytes)
  ultimately show ?thesis
    using assms by (simp add: parse_dsvt_common_def ok_or_def decode_encode_for_dsvt)
qed

lemma dplus_voice_wire_reads:
  "get 6 (dplus_prefix b k s q @ w) = Some k"
  "byte_at 14 (dplus_prefix b k s q @ w) = crc_lo (stream_raw s)"
  "byte_at 15 (dplus_prefix b k s q @ w) = crc_hi (stream_raw s)"
  "byte_at 16 (dplus_prefix b k s q @ w) = q"
  "dplus_is_dsvt (dplus_prefix b k s q @ w)"
  by (simp_all add: dplus_prefix_def dsvt_prefix_def DSVT_MAGIC_def stream_le_bytes dplus_is_dsvt_def get_range_def)

lemma dplus_parse_voice_wire:
  assumes "StreamId_wf s" "length a = 9" "length d = 3"
  shows "parse_dsvt_common (dplus_prefix b 0x20 s q @ a @ d) sink =
    (Ok (s, None, Some \<lparr>ambe = a, slow_data = d\<rparr>, False, False, 29), sink)"
  using assms by (simp add: parse_dsvt_common_def ok_or_def dplus_voice_wire_reads copied_eq)

lemma dplus_parse_eot_wire:
  assumes "StreamId_wf s" "length a = 9" "length d = 6"
  shows "parse_dsvt_common (dplus_prefix b 0x20 s q @ a @ d) sink = (Ok (s, None, None, False, True, 32), sink)"
  using assms by (simp add: parse_dsvt_common_def ok_or_def dplus_voice_wire_reads)

lemma dplus_not_dsvt:
  "\<not> dplus_is_dsvt LINK1_BYTES" "\<not> dplus_is_dsvt UNLINK_BYTES" "\<not> dplus_is_dsvt POLL_BYTES"
  "\<not> dplus_is_dsvt (LINK2_REPLY_PREFIX @ t)" "\<not> dplus_is_dsvt (dplus_link2_wire c)"
  by (simp_all add: dplus_is_dsvt_def dplus_consts dplus_link2_wire_def Let_def get_range_def DSVT_MAGIC_def)

lemma dplus_short_bytes: "byte_at 4 LINK1_BYTES = 1" "byte_at 4 UNLINK_BYTES = 0"
  by (simp_all add: dplus_consts)

lemmas dplus_decode_eqs = dplus_parse_header_wire dplus_parse_voice_wire dplus_parse_eot_wire dplus_voice_wire_reads
  dplus_not_dsvt dplus_short_bytes dplus_link2_callsign_wire

interpretation dplus_up: datagram_link dplus_client_wf dplus_client_encode dplus_client_wire
  dplus_decode_client_to_server dplus_client_received "\<lambda>_. []"
proof (intro datagram_link.intro dplus_client_datagram, unfold_locales)
  fix p sink assume "dplus_client_wf p"
  then show "dplus_decode_client_to_server (dplus_client_wire p) sink = (Ok (dplus_client_received p), sink @ [])"
    by (cases p) (simp_all add: dplus_decode_client_to_server_def decode_dsvt_client_def dplus_wire_lens dplus_decode_eqs)
qed

lemma dplus_decode_reply_wire:
  assumes "length (link2_tag r) = 4"
  shows "dplus_decode_server_to_client (LINK2_REPLY_PREFIX @ link2_tag r) sink =
    (Ok (dplus_server_received (DpLink2Reply r)), sink @ dplus_server_remarks (DpLink2Reply r))"
proof -
  have "LINK2_BUSY_TAG \<noteq> LINK2_ACCEPT_TAG" by (simp add: dplus_consts)
  then show ?thesis
    using assms by (simp add: dplus_decode_server_to_client_def Let_def dplus_not_dsvt get_range_def link2_of_tag_def
        sink_record_def)
qed

interpretation dplus_down: datagram_link dplus_server_wf dplus_server_encode dplus_server_wire
  dplus_decode_server_to_client dplus_server_received dplus_server_remarks
proof (intro datagram_link.intro dplus_server_datagram, unfold_locales)
  fix p sink assume wf: "dplus_server_wf p"
  show "dplus_decode_server_to_client (dplus_server_wire p) sink = (Ok (dplus_server_received p), sink @ dplus_server_remarks p)"
  proof (cases p)
    case (DpLink2Reply r)
    then show ?thesis using wf dplus_decode_reply_wire [of r sink] by simp
  qed (use wf in \<open>simp_all add: dplus_decode_server_to_client_def decode_dsvt_server_def dplus_wire_lens dplus_decode_eqs\<close>)
qed

text \<open>A DPlus link is faithful in both directions: every packet either side encodes into a
  buffer of 58 bytes or more is written as its wire image only, and the other side's decoder
  recovers it. A login callsign arrives with its NUL bytes read as spaces, a login reply is read
  by its tag, and the only diagnostic a correct peer can cause is the one that reports an unknown
  tag.\<close>

lemma dplus_link_faithful:
  assumes "dplus_client_wf p" "dplus_server_wf r" "58 \<le> length out"
  shows "(\<exists>n out'. dplus_client_encode p out = (Ok n, out') \<and> drop n out' = drop n out \<and>
      dplus_decode_client_to_server (take n out') sink = (Ok (dplus_client_received p), sink)) \<and>
    (\<exists>n out'. dplus_server_encode r out = (Ok n, out') \<and> drop n out' = drop n out \<and>
      dplus_decode_server_to_client (take n out') sink =
        (Ok (dplus_server_received r), sink @ dplus_server_remarks r))"
proof
  have "length (dplus_client_wire p) \<le> length out"
    using assms(1,3) by (cases p) (simp_all add: dplus_wire_lens)
  then show "\<exists>n out'. dplus_client_encode p out = (Ok n, out') \<and> drop n out' = drop n out \<and>
      dplus_decode_client_to_server (take n out') sink = (Ok (dplus_client_received p), sink)"
    using dplus_up.encode_fits [OF assms(1)] dplus_up.dec_wire [OF assms(1)] by simp
  have "length (dplus_server_wire r) \<le> length out"
    using assms(2,3) by (cases r) (simp_all add: dplus_wire_lens)
  then show "\<exists>n out'. dplus_server_encode r out = (Ok n, out') \<and> drop n out' = drop n out \<and>
      dplus_decode_server_to_client (take n out') sink =
        (Ok (dplus_server_received r), sink @ dplus_server_remarks r)"
    using dplus_down.encode_fits [OF assms(2)] dplus_down.dec_wire [OF assms(2)] by simp
qed

end
