(* ===== verification/Dstar_Dextra.thy ===== *)
theory Dstar_Dextra
  imports Dstar_Codec
begin

unbundle bit_operations_syntax

text \<open>
  The DExtra codec (\<open>dstar-gateway-core/src/codec/dextra/\<close>): connect and unlink requests and
  their replies, polls, and DSVT voice packets without length prefix, in both directions. The
  two interpretations at the end show that each packet a host can send is recovered by the
  other side.
\<close>

section \<open>Constants, errors and packets\<close>

definition DEXTRA_KEEPALIVE_INTERVAL :: duration where "DEXTRA_KEEPALIVE_INTERVAL = from_secs 10"
definition DEXTRA_KEEPALIVE_INACTIVITY_TIMEOUT :: duration where "DEXTRA_KEEPALIVE_INACTIVITY_TIMEOUT = from_secs 60"
definition DEXTRA_VOICE_INACTIVITY_TIMEOUT :: duration where "DEXTRA_VOICE_INACTIVITY_TIMEOUT = from_secs 2"
definition DEXTRA_DISCONNECT_TIMEOUT :: duration where "DEXTRA_DISCONNECT_TIMEOUT = from_secs 2"

definition DEXTRA_CONNECT_LEN :: nat where "DEXTRA_CONNECT_LEN = 11"
definition DEXTRA_CONNECT_REPLY_LEN :: nat where "DEXTRA_CONNECT_REPLY_LEN = 14"
definition DEXTRA_POLL_LEN :: nat where "DEXTRA_POLL_LEN = 9"
definition DEXTRA_VOICE_HEADER_LEN :: nat where "DEXTRA_VOICE_HEADER_LEN = 56"
definition DEXTRA_VOICE_DATA_LEN :: nat where "DEXTRA_VOICE_DATA_LEN = 27"
definition DEXTRA_VOICE_EOT_LEN :: nat where "DEXTRA_VOICE_EOT_LEN = 27"
definition CONNECT_ACK_TAG :: bytes where "CONNECT_ACK_TAG = [0x41, 0x43, 0x4B]"
definition CONNECT_NAK_TAG :: bytes where "CONNECT_NAK_TAG = [0x4E, 0x41, 0x4B]"

lemmas dextra_lens = DEXTRA_CONNECT_LEN_def DEXTRA_CONNECT_REPLY_LEN_def DEXTRA_POLL_LEN_def
  DEXTRA_VOICE_HEADER_LEN_def DEXTRA_VOICE_DATA_LEN_def DEXTRA_VOICE_EOT_LEN_def

datatype DExtraError =
    DExtra_UnknownPacketLength nat
  | DExtra_DsvtMagicMissing bytes
  | DExtra_StreamIdZero
  | DExtra_InvalidModuleByte nat u8
  | DExtra_UnknownConnectTag bytes
  | DExtra_EncodeBufferTooSmall nat nat

definition DExtraError_from :: "EncodeError \<Rightarrow> DExtraError" where
  "DExtraError_from e = (case e of BufferTooSmall need_b have_b \<Rightarrow> DExtra_EncodeBufferTooSmall need_b have_b)"

datatype DExtraClientPacket =
    DExtraC_Link (dxl_callsign: DstarCallsign) (dxl_reflector_module: DstarModule) (dxl_client_module: DstarModule)
  | DExtraC_Unlink DstarCallsign DstarModule
  | DExtraC_Poll DstarCallsign
  | DExtraC_VoiceHeader StreamId DstarHeader
  | DExtraC_VoiceData StreamId u8 VoiceFrame
  | DExtraC_VoiceEot StreamId u8

datatype DExtraServerPacket =
    DExtraS_ConnectAck DstarCallsign DstarModule DstarModule
  | DExtraS_ConnectNak DstarCallsign DstarModule ModuleSlot
  | DExtraS_PollEcho DstarCallsign
  | DExtraS_VoiceHeader StreamId DstarHeader
  | DExtraS_VoiceData StreamId u8 VoiceFrame
  | DExtraS_VoiceEot StreamId u8

section \<open>Encoders\<close>

definition dextra_write_connect_common ::
  "bytes \<Rightarrow> RepeaterIdentity \<Rightarrow> ModuleSlot \<Rightarrow> (EncodeError + unit) \<times> bytes" where
  "dextra_write_connect_common out identity reflector_module =
     (if length out < DEXTRA_CONNECT_LEN then (Err (BufferTooSmall DEXTRA_CONNECT_LEN (length out)), out)
      else let out = fill_prefix DEXTRA_CONNECT_LEN 0x20 out;
               out = put 0 (routing_bytes (ri_callsign identity)) out;
               out = put_byte 8 (Module_as_byte (ri_module identity)) out;
               out = put_byte 9 (ModuleSlot_as_byte reflector_module) out;
               out = put_byte 10 0x00 out
           in (Ok (), out))"

definition dextra_write_connect_reply ::
  "bytes \<Rightarrow> RepeaterIdentity \<Rightarrow> ModuleSlot \<Rightarrow> bytes \<Rightarrow> (EncodeError + unit) \<times> bytes" where
  "dextra_write_connect_reply out identity reflector_module tag =
     (if length out < DEXTRA_CONNECT_REPLY_LEN
      then (Err (BufferTooSmall DEXTRA_CONNECT_REPLY_LEN (length out)), out)
      else let out = fill_prefix DEXTRA_CONNECT_REPLY_LEN 0x20 out;
               out = put 0 (routing_bytes (ri_callsign identity)) out;
               out = put_byte 8 (Module_as_byte (ri_module identity)) out;
               out = put_byte 9 (ModuleSlot_as_byte reflector_module) out;
               out = put 10 tag out;
               out = put_byte 13 0x00 out
           in (Ok (), out))"

definition dextra_encode_connect_link ::
  "bytes \<Rightarrow> RepeaterIdentity \<Rightarrow> DstarModule \<Rightarrow> (EncodeError + nat) \<times> bytes" where
  "dextra_encode_connect_link out identity reflector_module =
     (case dextra_write_connect_common out identity (ModuleSlot_Module reflector_module) of
        (Err e, out) \<Rightarrow> (Err e, out)
      | (Ok _, out) \<Rightarrow> (Ok DEXTRA_CONNECT_LEN, out))"

definition dextra_encode_unlink :: "bytes \<Rightarrow> RepeaterIdentity \<Rightarrow> (EncodeError + nat) \<times> bytes" where
  "dextra_encode_unlink out identity =
     (case dextra_write_connect_common out identity ModuleSlot_Empty of
        (Err e, out) \<Rightarrow> (Err e, out)
      | (Ok _, out) \<Rightarrow> (Ok DEXTRA_CONNECT_LEN, out))"

definition dextra_encode_connect_ack ::
  "bytes \<Rightarrow> RepeaterIdentity \<Rightarrow> DstarModule \<Rightarrow> (EncodeError + nat) \<times> bytes" where
  "dextra_encode_connect_ack out identity reflector_module =
     (case dextra_write_connect_reply out identity (ModuleSlot_Module reflector_module) CONNECT_ACK_TAG of
        (Err e, out) \<Rightarrow> (Err e, out)
      | (Ok _, out) \<Rightarrow> (Ok DEXTRA_CONNECT_REPLY_LEN, out))"

definition dextra_encode_connect_nak ::
  "bytes \<Rightarrow> RepeaterIdentity \<Rightarrow> ModuleSlot \<Rightarrow> (EncodeError + nat) \<times> bytes" where
  "dextra_encode_connect_nak out identity reflector_module =
     (case dextra_write_connect_reply out identity reflector_module CONNECT_NAK_TAG of
        (Err e, out) \<Rightarrow> (Err e, out)
      | (Ok _, out) \<Rightarrow> (Ok DEXTRA_CONNECT_REPLY_LEN, out))"

definition dextra_encode_poll :: "bytes \<Rightarrow> DstarCallsign \<Rightarrow> (EncodeError + nat) \<times> bytes" where
  "dextra_encode_poll out callsign =
     (if length out < DEXTRA_POLL_LEN then (Err (BufferTooSmall DEXTRA_POLL_LEN (length out)), out)
      else let out = put 0 (callsign_bytes callsign) out;
               out = put_byte 8 0x00 out
           in (Ok DEXTRA_POLL_LEN, out))"

definition dextra_encode_poll_echo :: "bytes \<Rightarrow> DstarCallsign \<Rightarrow> (EncodeError + nat) \<times> bytes" where
  "dextra_encode_poll_echo out callsign = dextra_encode_poll out callsign"

definition dextra_encode_voice_header ::
  "bytes \<Rightarrow> StreamId \<Rightarrow> DstarHeader \<Rightarrow> (EncodeError + nat) \<times> bytes" where
  "dextra_encode_voice_header out stream_id header =
     (if length out < DEXTRA_VOICE_HEADER_LEN
      then (Err (BufferTooSmall DEXTRA_VOICE_HEADER_LEN (length out)), out)
      else let out = put 0 DSVT_MAGIC out;
               out = put_byte 4 0x10 out; out = put_byte 5 0x00 out; out = put_byte 6 0x00 out;
               out = put_byte 7 0x00 out; out = put_byte 8 0x20 out; out = put_byte 9 0x00 out;
               out = put_byte 10 0x01 out; out = put_byte 11 0x02 out;
               sid = to_le_bytes (stream_raw stream_id);
               out = put_byte 12 (sid ! 0) out; out = put_byte 13 (sid ! 1) out;
               out = put_byte 14 0x80 out;
               out = put 15 (encode_for_dsvt header) out
           in (Ok DEXTRA_VOICE_HEADER_LEN, out))"

definition dextra_write_voice_prefix :: "bytes \<Rightarrow> StreamId \<Rightarrow> u8 \<Rightarrow> bytes" where
  "dextra_write_voice_prefix out stream_id seq =
     (let out = put 0 DSVT_MAGIC out;
          out = put_byte 4 0x20 out; out = put_byte 5 0x00 out; out = put_byte 6 0x00 out;
          out = put_byte 7 0x00 out; out = put_byte 8 0x20 out; out = put_byte 9 0x00 out;
          out = put_byte 10 0x01 out; out = put_byte 11 0x02 out;
          sid = to_le_bytes (stream_raw stream_id);
          out = put_byte 12 (sid ! 0) out; out = put_byte 13 (sid ! 1) out
      in put_byte 14 seq out)"

definition dextra_encode_voice_data ::
  "bytes \<Rightarrow> StreamId \<Rightarrow> FrameSequence \<Rightarrow> VoiceFrame \<Rightarrow> (EncodeError + nat) \<times> bytes" where
  "dextra_encode_voice_data out stream_id seq frame =
     (if length out < DEXTRA_VOICE_DATA_LEN
      then (Err (BufferTooSmall DEXTRA_VOICE_DATA_LEN (length out)), out)
      else let out = dextra_write_voice_prefix out stream_id (sequence_index seq);
               out = put 15 (ambe frame) out;
               out = put 24 (slow_data frame) out
           in (Ok DEXTRA_VOICE_DATA_LEN, out))"

definition dextra_encode_voice_eot ::
  "bytes \<Rightarrow> StreamId \<Rightarrow> FrameSequence \<Rightarrow> (EncodeError + nat) \<times> bytes" where
  "dextra_encode_voice_eot out stream_id seq =
     (if length out < DEXTRA_VOICE_EOT_LEN
      then (Err (BufferTooSmall DEXTRA_VOICE_EOT_LEN (length out)), out)
      else let out = dextra_write_voice_prefix out stream_id (sequence_index seq OR 0x40);
               out = put 15 AMBE_SILENCE out;
               out = put 24 DSTAR_SYNC_BYTES out
           in (Ok DEXTRA_VOICE_EOT_LEN, out))"

section \<open>Decoders\<close>

definition dextra_extract_callsign :: "bytes \<Rightarrow> DstarCallsign" where
  "dextra_extract_callsign bs = DstarCallsign_from_wire_bytes (copied_spaces 0 8 bs)"

definition dextra_module_at :: "nat \<Rightarrow> u8 \<Rightarrow> DExtraError + DstarModule" where
  "dextra_module_at off b =
     (case Module_try_from_byte b of Err _ \<Rightarrow> Err (DExtra_InvalidModuleByte off b) | Ok m \<Rightarrow> Ok m)"

definition dextra_decode_client_connect :: "bytes \<Rightarrow> DExtraError + DExtraClientPacket" where
  "dextra_decode_client_connect bs =
     (let cs = dextra_extract_callsign bs
      in case dextra_module_at 8 (byte_at 8 bs) of
           Err e \<Rightarrow> Err e
         | Ok client_module \<Rightarrow>
             (let reflector_byte = byte_at 9 bs
              in if reflector_byte = 0x20 then Ok (DExtraC_Unlink cs client_module)
                 else case dextra_module_at 9 reflector_byte of
                        Err e \<Rightarrow> Err e
                      | Ok reflector_module \<Rightarrow> Ok (DExtraC_Link cs reflector_module client_module)))"

definition dextra_decode_server_connect_reply :: "bytes \<Rightarrow> DExtraError + DExtraServerPacket" where
  "dextra_decode_server_connect_reply bs =
     (let cs = dextra_extract_callsign bs
      in case dextra_module_at 8 (byte_at 8 bs) of
           Err e \<Rightarrow> Err e
         | Ok client_module \<Rightarrow>
             (let b = byte_at 9 bs;
                  tag = copied 10 13 bs
              in if tag = CONNECT_ACK_TAG
                 then (case dextra_module_at 9 b of
                         Err e \<Rightarrow> Err e
                       | Ok reflector_module \<Rightarrow> Ok (DExtraS_ConnectAck cs client_module reflector_module))
                 else if tag = CONNECT_NAK_TAG
                 then (case ModuleSlot_try_from b of
                         Err _ \<Rightarrow> Err (DExtra_InvalidModuleByte 9 b)
                       | Ok slot \<Rightarrow> Ok (DExtraS_ConnectNak cs client_module slot))
                 else Err (DExtra_UnknownConnectTag tag)))"

definition dextra_check_dsvt_magic :: "bytes \<Rightarrow> DExtraError + unit" where
  "dextra_check_dsvt_magic bs =
     (case get_range 0 4 bs of
        None \<Rightarrow> Err (DExtra_UnknownPacketLength (length bs))
      | Some got \<Rightarrow> (if got = DSVT_MAGIC then Ok () else Err (DExtra_DsvtMagicMissing got)))"

definition dextra_extract_stream_id :: "bytes \<Rightarrow> DExtraError + StreamId" where
  "dextra_extract_stream_id bs =
     ok_or (StreamId_new (from_le_bytes (byte_at 12 bs) (byte_at 13 bs))) DExtra_StreamIdZero"

definition dextra_parse_dsvt_voice :: "bytes \<Rightarrow> DExtraError + (StreamId \<times> u8 \<times> VoiceFrame)" where
  "dextra_parse_dsvt_voice bs =
     (case dextra_check_dsvt_magic bs of
        Err e \<Rightarrow> Err e
      | Ok _ \<Rightarrow>
          (if get 4 bs \<noteq> Some 0x20 then Err (DExtra_UnknownPacketLength (length bs))
           else case dextra_extract_stream_id bs of
                  Err e \<Rightarrow> Err e
                | Ok stream_id \<Rightarrow>
                    Ok (stream_id, byte_at 14 bs, \<lparr>ambe = copied 15 24 bs, slow_data = copied 24 27 bs\<rparr>)))"

definition dextra_parse_dsvt_header ::
  "bytes \<Rightarrow> diagnostics \<Rightarrow> (DExtraError + (StreamId \<times> DstarHeader)) \<times> diagnostics" where
  "dextra_parse_dsvt_header bs sink =
     (case dextra_check_dsvt_magic bs of
        Err e \<Rightarrow> (Err e, sink)
      | Ok _ \<Rightarrow>
          (if get 4 bs \<noteq> Some 0x10 then (Err (DExtra_UnknownPacketLength (length bs)), sink)
           else case dextra_extract_stream_id bs of
                  Err e \<Rightarrow> (Err e, sink)
                | Ok stream_id \<Rightarrow>
                    (case get_range 15 56 bs of
                       None \<Rightarrow> (Err (DExtra_UnknownPacketLength (length bs)), sink)
                     | Some arr \<Rightarrow>
                         (let decoded = DstarHeader_decode arr;
                              fs = dh_flags decoded;
                              sink = (if fs \<noteq> HeaderFlags_NONE
                                      then sink_record (HeaderFlagsNonZero PK_DExtra (flag1 fs) (flag2 fs) (flag3 fs)) sink
                                      else sink)
                          in (Ok (stream_id, decoded), sink)))))"

definition dextra_decode_client_to_server ::
  "bytes \<Rightarrow> diagnostics \<Rightarrow> (DExtraError + DExtraClientPacket) \<times> diagnostics" where
  "dextra_decode_client_to_server bs sink =
     (let len = length bs
      in if len = DEXTRA_POLL_LEN then (Ok (DExtraC_Poll (dextra_extract_callsign bs)), sink)
         else if len = DEXTRA_CONNECT_LEN then (dextra_decode_client_connect bs, sink)
         else if len = DEXTRA_VOICE_DATA_LEN
         then (case dextra_parse_dsvt_voice bs of
                 Err e \<Rightarrow> Err e
               | Ok (stream_id, seq, frame) \<Rightarrow>
                   (if seq AND 0x40 \<noteq> 0 then Ok (DExtraC_VoiceEot stream_id seq)
                    else Ok (DExtraC_VoiceData stream_id seq frame)), sink)
         else if len = DEXTRA_VOICE_HEADER_LEN
         then (case dextra_parse_dsvt_header bs sink of
                 (Err e, sink) \<Rightarrow> (Err e, sink)
               | (Ok (stream_id, header), sink) \<Rightarrow> (Ok (DExtraC_VoiceHeader stream_id header), sink))
         else (Err (DExtra_UnknownPacketLength len), sink))"

definition dextra_decode_server_to_client ::
  "bytes \<Rightarrow> diagnostics \<Rightarrow> (DExtraError + DExtraServerPacket) \<times> diagnostics" where
  "dextra_decode_server_to_client bs sink =
     (let len = length bs
      in if len = DEXTRA_POLL_LEN then (Ok (DExtraS_PollEcho (dextra_extract_callsign bs)), sink)
         else if len = DEXTRA_CONNECT_REPLY_LEN then (dextra_decode_server_connect_reply bs, sink)
         else if len = DEXTRA_VOICE_DATA_LEN
         then (case dextra_parse_dsvt_voice bs of
                 Err e \<Rightarrow> Err e
               | Ok (stream_id, seq, frame) \<Rightarrow>
                   (if seq AND 0x40 \<noteq> 0 then Ok (DExtraS_VoiceEot stream_id seq)
                    else Ok (DExtraS_VoiceData stream_id seq frame)), sink)
         else if len = DEXTRA_VOICE_HEADER_LEN
         then (case dextra_parse_dsvt_header bs sink of
                 (Err e, sink) \<Rightarrow> (Err e, sink)
               | (Ok (stream_id, header), sink) \<Rightarrow> (Ok (DExtraS_VoiceHeader stream_id header), sink))
         else (Err (DExtra_UnknownPacketLength len), sink))"

section \<open>Wire images\<close>

definition dextra_connect_wire :: "RepeaterIdentity \<Rightarrow> ModuleSlot \<Rightarrow> bytes" where
  "dextra_connect_wire i slot =
     routing_bytes (ri_callsign i) @ [0x20, Module_as_byte (ri_module i), ModuleSlot_as_byte slot, 0x00]"

definition dextra_reply_wire :: "RepeaterIdentity \<Rightarrow> ModuleSlot \<Rightarrow> bytes \<Rightarrow> bytes" where
  "dextra_reply_wire i slot tag =
     routing_bytes (ri_callsign i) @ [0x20, Module_as_byte (ri_module i), ModuleSlot_as_byte slot] @ tag @ [0x00]"

lemma dextra_write_connect_common_eq:
  assumes "RepeaterIdentity_wf i"
  shows "dextra_write_connect_common out i slot =
    (if length out < 11 then (Err (BufferTooSmall 11 (length out)), out)
     else (Ok (), dextra_connect_wire i slot @ drop 11 out))"
  using connect_stores [OF identity_routing [OF assms]]
  by (simp add: dextra_write_connect_common_def Let_def dextra_lens dextra_connect_wire_def)

lemma dextra_write_connect_reply_eq:
  assumes "RepeaterIdentity_wf i" "length tag = 3"
  shows "dextra_write_connect_reply out i slot tag =
    (if length out < 14 then (Err (BufferTooSmall 14 (length out)), out)
     else (Ok (), dextra_reply_wire i slot tag @ drop 14 out))"
  using reply_stores [OF identity_routing [OF assms(1)] assms(2)]
  by (simp add: dextra_write_connect_reply_def Let_def dextra_lens dextra_reply_wire_def)

lemma dextra_write_voice_prefix_eq:
  "15 \<le> length out \<Longrightarrow> dextra_write_voice_prefix out s q = dsvt_prefix 0x20 s q @ drop 15 out"
  unfolding dextra_write_voice_prefix_def Let_def by (rule dsvt_prefix_stores)

section \<open>Encoders write their wire image\<close>

lemma dextra_encode_voice_header_eq:
  assumes "DstarHeader_wf h"
  shows "dextra_encode_voice_header out s h =
    (if length out < 56 then (Err (BufferTooSmall 56 (length out)), out)
     else (Ok 56, (dsvt_prefix 0x10 s 0x80 @ encode_for_dsvt h) @ drop 56 out))"
proof (cases "length out < 56")
  case False
  have "put 15 (encode_for_dsvt h) (dsvt_prefix 0x10 s 0x80 @ drop 15 out) =
      (dsvt_prefix 0x10 s 0x80 @ encode_for_dsvt h) @ drop 56 out"
    using False length_encode_for_dsvt [OF assms] by (simp add: put_append put_def)
  moreover have "15 \<le> length out" using False by simp
  ultimately show ?thesis
    unfolding dextra_encode_voice_header_def Let_def dextra_lens dsvt_prefix_stores [OF \<open>15 \<le> length out\<close>]
    using False by simp
qed (simp add: dextra_encode_voice_header_def dextra_lens)

lemma dextra_encode_voice_data_eq:
  assumes "VoiceFrame_wf f"
  shows "dextra_encode_voice_data out s q f =
    (if length out < 27 then (Err (BufferTooSmall 27 (length out)), out)
     else (Ok 27, (dsvt_prefix 0x20 s (sequence_index q) @ ambe f @ slow_data f) @ drop 27 out))"
  using assms put_two [of "dsvt_prefix 0x20 s (sequence_index q)" 15 "ambe f" "slow_data f" 3 out]
  by (simp add: dextra_encode_voice_data_def Let_def dextra_lens dextra_write_voice_prefix_eq VoiceFrame_wf_def)

lemma dextra_encode_voice_eot_eq:
  "dextra_encode_voice_eot out s q =
    (if length out < 27 then (Err (BufferTooSmall 27 (length out)), out)
     else (Ok 27, (dsvt_prefix 0x20 s (sequence_index q OR 0x40) @ AMBE_SILENCE @ DSTAR_SYNC_BYTES) @ drop 27 out))"
  using put_two [of "dsvt_prefix 0x20 s (sequence_index q OR 0x40)" 15 AMBE_SILENCE DSTAR_SYNC_BYTES 3 out]
  by (simp add: dextra_encode_voice_eot_def Let_def dextra_lens dextra_write_voice_prefix_eq AMBE_SILENCE_def
      DSTAR_SYNC_BYTES_def)

lemma dextra_encode_poll_eq:
  assumes "DstarCallsign_wf c"
  shows "dextra_encode_poll out c =
    (if length out < 9 then (Err (BufferTooSmall 9 (length out)), out)
     else (Ok 9, (callsign_bytes c @ [0]) @ drop 9 out))"
proof (cases "length out < 9")
  case False
  have len: "length (callsign_bytes c) = 8" using assms by (simp add: DstarCallsign_wf_def)
  have "put 0 (callsign_bytes c) out = callsign_bytes c @ drop 8 out"
    using False len by (simp add: put_start)
  moreover have "put_byte 8 0 (callsign_bytes c @ drop 8 out) = (callsign_bytes c @ [0]) @ drop (Suc 8) out"
    by (rule put_byte_next) (use False len in simp_all)
  moreover have "Suc 8 = 9" by simp
  ultimately show ?thesis
    unfolding dextra_encode_poll_def Let_def dextra_lens using False by (simp only: if_False)
qed (simp add: dextra_encode_poll_def dextra_lens)

section \<open>What each side sends and the other receives\<close>

datatype dextra_client_tx =
    DxLink RepeaterIdentity DstarModule
  | DxUnlink RepeaterIdentity
  | DxPoll DstarCallsign
  | DxHeader StreamId DstarHeader
  | DxVoice StreamId FrameSequence VoiceFrame
  | DxEot StreamId FrameSequence

fun dextra_client_encode :: "dextra_client_tx \<Rightarrow> bytes \<Rightarrow> (EncodeError + nat) \<times> bytes" where
  "dextra_client_encode (DxLink i m) out = dextra_encode_connect_link out i m"
| "dextra_client_encode (DxUnlink i) out = dextra_encode_unlink out i"
| "dextra_client_encode (DxPoll c) out = dextra_encode_poll out c"
| "dextra_client_encode (DxHeader s h) out = dextra_encode_voice_header out s h"
| "dextra_client_encode (DxVoice s q f) out = dextra_encode_voice_data out s q f"
| "dextra_client_encode (DxEot s q) out = dextra_encode_voice_eot out s q"

fun dextra_client_wf :: "dextra_client_tx \<Rightarrow> bool" where
  "dextra_client_wf (DxLink i m) = (RepeaterIdentity_wf i \<and> Module_wf m)"
| "dextra_client_wf (DxUnlink i) = RepeaterIdentity_wf i"
| "dextra_client_wf (DxPoll c) = DstarCallsign_wf c"
| "dextra_client_wf (DxHeader s h) = (StreamId_wf s \<and> DstarHeader_wf h)"
| "dextra_client_wf (DxVoice s q f) = (StreamId_wf s \<and> FrameSequence_wf q \<and> VoiceFrame_wf f)"
| "dextra_client_wf (DxEot s q) = (StreamId_wf s \<and> FrameSequence_wf q)"

fun dextra_client_wire :: "dextra_client_tx \<Rightarrow> bytes" where
  "dextra_client_wire (DxLink i m) = dextra_connect_wire i (ModuleSlot_Module m)"
| "dextra_client_wire (DxUnlink i) = dextra_connect_wire i ModuleSlot_Empty"
| "dextra_client_wire (DxPoll c) = callsign_bytes c @ [0]"
| "dextra_client_wire (DxHeader s h) = dsvt_prefix 0x10 s 0x80 @ encode_for_dsvt h"
| "dextra_client_wire (DxVoice s q f) = dsvt_prefix 0x20 s (sequence_index q) @ ambe f @ slow_data f"
| "dextra_client_wire (DxEot s q) = dsvt_prefix 0x20 s (sequence_index q OR 0x40) @ AMBE_SILENCE @ DSTAR_SYNC_BYTES"

fun dextra_client_received :: "dextra_client_tx \<Rightarrow> DExtraClientPacket" where
  "dextra_client_received (DxLink i m) = DExtraC_Link (RoutingCallsign_callsign (ri_callsign i)) m (ri_module i)"
| "dextra_client_received (DxUnlink i) = DExtraC_Unlink (RoutingCallsign_callsign (ri_callsign i)) (ri_module i)"
| "dextra_client_received (DxPoll c) = DExtraC_Poll c"
| "dextra_client_received (DxHeader s h) = DExtraC_VoiceHeader s (DstarHeader_with_flags h HeaderFlags_NONE)"
| "dextra_client_received (DxVoice s q f) = DExtraC_VoiceData s (sequence_index q) f"
| "dextra_client_received (DxEot s q) = DExtraC_VoiceEot s (sequence_index q OR 0x40)"

datatype dextra_server_tx =
    DxAck RepeaterIdentity DstarModule
  | DxNak RepeaterIdentity ModuleSlot
  | DxPollEcho DstarCallsign
  | DxFwdHeader StreamId DstarHeader
  | DxFwdVoice StreamId FrameSequence VoiceFrame
  | DxFwdEot StreamId FrameSequence

fun dextra_server_encode :: "dextra_server_tx \<Rightarrow> bytes \<Rightarrow> (EncodeError + nat) \<times> bytes" where
  "dextra_server_encode (DxAck i m) out = dextra_encode_connect_ack out i m"
| "dextra_server_encode (DxNak i m) out = dextra_encode_connect_nak out i m"
| "dextra_server_encode (DxPollEcho c) out = dextra_encode_poll_echo out c"
| "dextra_server_encode (DxFwdHeader s h) out = dextra_encode_voice_header out s h"
| "dextra_server_encode (DxFwdVoice s q f) out = dextra_encode_voice_data out s q f"
| "dextra_server_encode (DxFwdEot s q) out = dextra_encode_voice_eot out s q"

fun dextra_server_wf :: "dextra_server_tx \<Rightarrow> bool" where
  "dextra_server_wf (DxAck i m) = (RepeaterIdentity_wf i \<and> Module_wf m)"
| "dextra_server_wf (DxNak i m) = (RepeaterIdentity_wf i \<and> ModuleSlot_wf m)"
| "dextra_server_wf (DxPollEcho c) = DstarCallsign_wf c"
| "dextra_server_wf (DxFwdHeader s h) = (StreamId_wf s \<and> DstarHeader_wf h)"
| "dextra_server_wf (DxFwdVoice s q f) = (StreamId_wf s \<and> FrameSequence_wf q \<and> VoiceFrame_wf f)"
| "dextra_server_wf (DxFwdEot s q) = (StreamId_wf s \<and> FrameSequence_wf q)"

fun dextra_server_wire :: "dextra_server_tx \<Rightarrow> bytes" where
  "dextra_server_wire (DxAck i m) = dextra_reply_wire i (ModuleSlot_Module m) CONNECT_ACK_TAG"
| "dextra_server_wire (DxNak i m) = dextra_reply_wire i m CONNECT_NAK_TAG"
| "dextra_server_wire (DxPollEcho c) = callsign_bytes c @ [0]"
| "dextra_server_wire (DxFwdHeader s h) = dsvt_prefix 0x10 s 0x80 @ encode_for_dsvt h"
| "dextra_server_wire (DxFwdVoice s q f) = dsvt_prefix 0x20 s (sequence_index q) @ ambe f @ slow_data f"
| "dextra_server_wire (DxFwdEot s q) = dsvt_prefix 0x20 s (sequence_index q OR 0x40) @ AMBE_SILENCE @ DSTAR_SYNC_BYTES"

fun dextra_server_received :: "dextra_server_tx \<Rightarrow> DExtraServerPacket" where
  "dextra_server_received (DxAck i m) = DExtraS_ConnectAck (RoutingCallsign_callsign (ri_callsign i)) (ri_module i) m"
| "dextra_server_received (DxNak i m) = DExtraS_ConnectNak (RoutingCallsign_callsign (ri_callsign i)) (ri_module i) m"
| "dextra_server_received (DxPollEcho c) = DExtraS_PollEcho c"
| "dextra_server_received (DxFwdHeader s h) = DExtraS_VoiceHeader s (DstarHeader_with_flags h HeaderFlags_NONE)"
| "dextra_server_received (DxFwdVoice s q f) = DExtraS_VoiceData s (sequence_index q) f"
| "dextra_server_received (DxFwdEot s q) = DExtraS_VoiceEot s (sequence_index q OR 0x40)"

section \<open>The two directions of a DExtra link\<close>

lemmas dextra_encode_eqs = dextra_encode_connect_link_def dextra_encode_unlink_def dextra_encode_connect_ack_def
  dextra_encode_connect_nak_def dextra_encode_poll_echo_def dextra_encode_poll_eq dextra_encode_voice_header_eq
  dextra_encode_voice_data_eq dextra_encode_voice_eot_eq dextra_write_connect_common_eq
  dextra_write_connect_reply_eq

lemma length_dextra_connect_wire: "RepeaterIdentity_wf i \<Longrightarrow> length (dextra_connect_wire i slot) = 11"
  by (simp add: dextra_connect_wire_def identity_routing)

lemma length_dextra_reply_wire:
  "RepeaterIdentity_wf i \<Longrightarrow> length tag = 3 \<Longrightarrow> length (dextra_reply_wire i slot tag) = 14"
  by (simp add: dextra_reply_wire_def identity_routing)

lemma length_dextra_tags [simp]: "length CONNECT_ACK_TAG = 3" "length CONNECT_NAK_TAG = 3"
  by (simp_all add: CONNECT_ACK_TAG_def CONNECT_NAK_TAG_def)

lemmas dextra_wire_lens = length_dextra_connect_wire length_dextra_reply_wire length_encode_for_dsvt
  DstarCallsign_wf_def VoiceFrame_wf_def dextra_lens

lemma dextra_client_datagram: "datagram dextra_client_wf dextra_client_encode dextra_client_wire"
proof
  fix p and out :: bytes assume "dextra_client_wf p" "length (dextra_client_wire p) \<le> length out"
  then show "dextra_client_encode p out =
      (Ok (length (dextra_client_wire p)), dextra_client_wire p @ drop (length (dextra_client_wire p)) out)"
    by (cases p) (auto simp: dextra_encode_eqs dextra_wire_lens)
next
  fix p and out :: bytes assume "dextra_client_wf p" "length out < length (dextra_client_wire p)"
  then show "dextra_client_encode p out =
      (Err (BufferTooSmall (length (dextra_client_wire p)) (length out)), out)"
    by (cases p) (auto simp: dextra_encode_eqs dextra_wire_lens)
qed

lemma dextra_server_datagram: "datagram dextra_server_wf dextra_server_encode dextra_server_wire"
proof
  fix p and out :: bytes assume "dextra_server_wf p" "length (dextra_server_wire p) \<le> length out"
  then show "dextra_server_encode p out =
      (Ok (length (dextra_server_wire p)), dextra_server_wire p @ drop (length (dextra_server_wire p)) out)"
    by (cases p) (auto simp: dextra_encode_eqs dextra_wire_lens)
next
  fix p and out :: bytes assume "dextra_server_wf p" "length out < length (dextra_server_wire p)"
  then show "dextra_server_encode p out =
      (Err (BufferTooSmall (length (dextra_server_wire p)) (length out)), out)"
    by (cases p) (auto simp: dextra_encode_eqs dextra_wire_lens)
qed

text \<open>The decoders on the wire images.\<close>

lemma dextra_module_at_ok: "Module_wf m \<Longrightarrow> dextra_module_at off (Module_as_byte m) = Ok m"
  by (simp add: dextra_module_at_def)

lemma dextra_decode_connect_wire:
  assumes "RepeaterIdentity_wf i" "ModuleSlot_wf slot"
  shows "dextra_decode_client_connect (dextra_connect_wire i slot) =
    Ok (case slot of
          ModuleSlot_Module m \<Rightarrow> DExtraC_Link (RoutingCallsign_callsign (ri_callsign i)) m (ri_module i)
        | ModuleSlot_Empty \<Rightarrow> DExtraC_Unlink (RoutingCallsign_callsign (ri_callsign i)) (ri_module i))"
proof -
  obtain a b c d e f g where r: "routing_bytes (ri_callsign i) = [a, b, c, d, e, f, g]"
    using list7 [OF identity_routing [OF assms(1)]] by blast
  show ?thesis
    using assms Module_byte_not_space
    by (cases slot) (simp_all add: dextra_decode_client_connect_def dextra_connect_wire_def r dextra_extract_callsign_def
        copied_spaces_eq RoutingCallsign_callsign_def ModuleSlot_as_byte_def ModuleSlot_wf_def RepeaterIdentity_wf_def
        dextra_module_at_ok)
qed

lemma dextra_decode_reply_wire:
  assumes "RepeaterIdentity_wf i" "ModuleSlot_wf slot"
  shows "dextra_decode_server_connect_reply (dextra_reply_wire i slot CONNECT_NAK_TAG) =
      Ok (DExtraS_ConnectNak (RoutingCallsign_callsign (ri_callsign i)) (ri_module i) slot)"
    and "slot = ModuleSlot_Module m \<Longrightarrow>
      dextra_decode_server_connect_reply (dextra_reply_wire i slot CONNECT_ACK_TAG) =
      Ok (DExtraS_ConnectAck (RoutingCallsign_callsign (ri_callsign i)) (ri_module i) m)"
proof -
  obtain a b c d e f g where r: "routing_bytes (ri_callsign i) = [a, b, c, d, e, f, g]"
    using list7 [OF identity_routing [OF assms(1)]] by blast
  note defs = dextra_decode_server_connect_reply_def dextra_reply_wire_def r dextra_extract_callsign_def
    copied_spaces_eq copied_eq RoutingCallsign_callsign_def RepeaterIdentity_wf_def CONNECT_ACK_TAG_def
    CONNECT_NAK_TAG_def
  show "dextra_decode_server_connect_reply (dextra_reply_wire i slot CONNECT_NAK_TAG) =
      Ok (DExtraS_ConnectNak (RoutingCallsign_callsign (ri_callsign i)) (ri_module i) slot)"
    using assms by (simp add: defs ModuleSlot_roundtrip dextra_module_at_ok)
  show "slot = ModuleSlot_Module m \<Longrightarrow>
      dextra_decode_server_connect_reply (dextra_reply_wire i slot CONNECT_ACK_TAG) =
      Ok (DExtraS_ConnectAck (RoutingCallsign_callsign (ri_callsign i)) (ri_module i) m)"
    using assms by (simp add: defs dextra_module_at_ok ModuleSlot_as_byte_def ModuleSlot_wf_def)
qed

lemma dextra_parse_voice_wire:
  assumes "StreamId_wf s" "length a = 9" "length d = 3"
  shows "dextra_parse_dsvt_voice (dsvt_prefix 0x20 s q @ a @ d) = Ok (s, q, \<lparr>ambe = a, slow_data = d\<rparr>)"
  using assms
  by (simp add: dextra_parse_dsvt_voice_def dextra_check_dsvt_magic_def dextra_extract_stream_id_def dsvt_prefix_def
      DSVT_MAGIC_def stream_le_bytes get_range_def copied_eq ok_or_def)

lemma dextra_parse_header_wire:
  assumes "StreamId_wf s" "DstarHeader_wf h"
  shows "dextra_parse_dsvt_header (dsvt_prefix 0x10 s q @ encode_for_dsvt h) sink =
    (Ok (s, DstarHeader_with_flags h HeaderFlags_NONE), sink)"
  using assms
  by (simp add: dextra_parse_dsvt_header_def dextra_check_dsvt_magic_def dextra_extract_stream_id_def dsvt_prefix_def
      DSVT_MAGIC_def stream_le_bytes get_range_def ok_or_def length_encode_for_dsvt decode_encode_for_dsvt)

lemma dextra_extract_callsign_wire: "DstarCallsign_wf c \<Longrightarrow> dextra_extract_callsign (callsign_bytes c @ xs) = c"
  by (cases c) (simp add: dextra_extract_callsign_def copied_spaces_eq DstarCallsign_wf_def
      DstarCallsign_from_wire_bytes_def)

lemmas dextra_decode_eqs = dextra_decode_connect_wire dextra_decode_reply_wire dextra_parse_voice_wire
  dextra_parse_header_wire dextra_extract_callsign_wire sequence_no_eot sequence_eot

interpretation dextra_up: datagram_link dextra_client_wf dextra_client_encode dextra_client_wire
  dextra_decode_client_to_server dextra_client_received "\<lambda>_. []"
proof (intro datagram_link.intro dextra_client_datagram, unfold_locales)
  fix p sink assume "dextra_client_wf p"
  then show "dextra_decode_client_to_server (dextra_client_wire p) sink = (Ok (dextra_client_received p), sink @ [])"
    by (cases p) (simp_all add: dextra_decode_client_to_server_def dextra_wire_lens dextra_decode_eqs ModuleSlot_wf_def)
qed

interpretation dextra_down: datagram_link dextra_server_wf dextra_server_encode dextra_server_wire
  dextra_decode_server_to_client dextra_server_received "\<lambda>_. []"
proof (intro datagram_link.intro dextra_server_datagram, unfold_locales)
  fix p sink assume "dextra_server_wf p"
  then show "dextra_decode_server_to_client (dextra_server_wire p) sink = (Ok (dextra_server_received p), sink @ [])"
    by (cases p) (simp_all add: dextra_decode_server_to_client_def dextra_wire_lens dextra_decode_eqs ModuleSlot_wf_def)
qed

text \<open>A DExtra link is faithful in both directions: whatever a client or a reflector encodes
  into a buffer that can hold the longest packet, exactly the wire image is written and the rest
  of the buffer is untouched, and the other side's decoder recovers the packet that was sent,
  without any diagnostic; only the three header flags are cleared, as the DSVT encoding does.\<close>

lemma dextra_link_faithful:
  assumes "dextra_client_wf p" "dextra_server_wf r" "56 \<le> length out"
  shows "(\<exists>n out'. dextra_client_encode p out = (Ok n, out') \<and> drop n out' = drop n out \<and>
      dextra_decode_client_to_server (take n out') sink = (Ok (dextra_client_received p), sink)) \<and>
    (\<exists>n out'. dextra_server_encode r out = (Ok n, out') \<and> drop n out' = drop n out \<and>
      dextra_decode_server_to_client (take n out') sink = (Ok (dextra_server_received r), sink))"
proof
  have "length (dextra_client_wire p) \<le> length out"
    using assms(1,3) by (cases p) (simp_all add: dextra_wire_lens)
  then show "\<exists>n out'. dextra_client_encode p out = (Ok n, out') \<and> drop n out' = drop n out \<and>
      dextra_decode_client_to_server (take n out') sink = (Ok (dextra_client_received p), sink)"
    using dextra_up.encode_fits [OF assms(1)] dextra_up.dec_wire [OF assms(1)] by simp
  have "length (dextra_server_wire r) \<le> length out"
    using assms(2,3) by (cases r) (simp_all add: dextra_wire_lens)
  then show "\<exists>n out'. dextra_server_encode r out = (Ok n, out') \<and> drop n out' = drop n out \<and>
      dextra_decode_server_to_client (take n out') sink = (Ok (dextra_server_received r), sink)"
    using dextra_down.encode_fits [OF assms(2)] dextra_down.dec_wire [OF assms(2)] by simp
qed

definition sample_identity :: RepeaterIdentity where
  "sample_identity = \<lparr>ri_callsign = RoutingCallsign [0x57, 0x31, 0x41, 0x57, 0x20, 0x20, 0x20], ri_module = DstarModule 0x42\<rparr>"

end
