(* ===== verification/Dstar_Dcs.thy ===== *)
theory Dstar_Dcs
  imports Dstar_Codec
begin

unbundle bit_operations_syntax

text \<open>
  The DCS codec (\<open>dstar-gateway-core/src/codec/dcs/\<close>): link requests with their HTML banner,
  unlink requests, connect replies, polls, and 100-byte voice packets that carry the header with
  every frame. Either the sequence bit 0x40 or the sentinel 55 55 55 in the slow data ends a
  transmission.
\<close>

section \<open>Constants, errors and packets\<close>

definition DCS_KEEPALIVE_INTERVAL :: duration where "DCS_KEEPALIVE_INTERVAL = from_secs 5"
definition DCS_KEEPALIVE_INACTIVITY_TIMEOUT :: duration where "DCS_KEEPALIVE_INACTIVITY_TIMEOUT = from_secs 60"
definition DCS_VOICE_INACTIVITY_TIMEOUT :: duration where "DCS_VOICE_INACTIVITY_TIMEOUT = from_secs 2"
definition DCS_DISCONNECT_TIMEOUT :: duration where "DCS_DISCONNECT_TIMEOUT = from_secs 2"

definition DCS_LINK_LEN :: nat where "DCS_LINK_LEN = 519"
definition DCS_UNLINK_LEN :: nat where "DCS_UNLINK_LEN = 19"
definition DCS_CONNECT_REPLY_LEN :: nat where "DCS_CONNECT_REPLY_LEN = 14"
definition DCS_POLL_LEN :: nat where "DCS_POLL_LEN = 17"
definition DCS_VOICE_LEN :: nat where "DCS_VOICE_LEN = 100"
definition DCS_VOICE_MAGIC :: bytes where "DCS_VOICE_MAGIC = [0x30, 0x30, 0x30, 0x31]"
definition DCS_CONNECT_ACK_TAG :: bytes where "DCS_CONNECT_ACK_TAG = [0x41, 0x43, 0x4B]"
definition DCS_CONNECT_NAK_TAG :: bytes where "DCS_CONNECT_NAK_TAG = [0x4E, 0x41, 0x4B]"
definition DCS_VOICE_EOT_MARKER :: bytes where "DCS_VOICE_EOT_MARKER = [0x55, 0x55, 0x55]"

lemmas dcs_lens = DCS_LINK_LEN_def DCS_UNLINK_LEN_def DCS_CONNECT_REPLY_LEN_def DCS_POLL_LEN_def DCS_VOICE_LEN_def

definition LINK_HTML_REPEATER :: bytes where
  \<open>LINK_HTML_REPEATER = map of_char ''<table border="0" width="95%"><tr><td>REPEATER</td></tr></table>''\<close>

definition LINK_HTML_HOTSPOT :: bytes where
  \<open>LINK_HTML_HOTSPOT = map of_char ''<table border="0" width="95%"><tr><td>HOTSPOT</td></tr></table>''\<close>

definition LINK_HTML_DONGLE :: bytes where
  \<open>LINK_HTML_DONGLE = map of_char ''<table border="0" width="95%"><tr><td>DONGLE</td></tr></table>''\<close>

definition LINK_HTML_STARNET :: bytes where
  \<open>LINK_HTML_STARNET = map of_char ''<table border="0" width="95%"><tr><td>STARNET</td></tr></table>''\<close>

datatype DcsError =
    Dcs_UnknownPacketLength nat
  | Dcs_VoiceMagicMissing bytes
  | Dcs_StreamIdZero
  | Dcs_UnknownConnectTag bytes
  | Dcs_UnlinkModuleByteInvalid u8
  | Dcs_InvalidModuleByte nat u8
  | Dcs_EncodeBufferTooSmall nat nat
  | Dcs_NoTxHeader

definition DcsError_from :: "EncodeError \<Rightarrow> DcsError" where
  "DcsError_from e = (case e of BufferTooSmall need_b have_b \<Rightarrow> Dcs_EncodeBufferTooSmall need_b have_b)"

datatype GatewayType = GT_Repeater | GT_Hotspot | GT_Dongle | GT_StarNet

datatype DcsClientPacket =
    DcsC_Link DstarCallsign DstarModule DstarModule DstarCallsign GatewayType
  | DcsC_Unlink DstarCallsign DstarModule DstarCallsign
  | DcsC_Poll DstarCallsign DstarCallsign
  | DcsC_Voice DstarHeader StreamId u8 VoiceFrame bool

datatype DcsServerPacket =
    DcsS_ConnectAck DstarCallsign DstarModule DstarModule
  | DcsS_ConnectNak DstarCallsign DstarModule ModuleSlot
  | DcsS_PollEcho DstarCallsign DstarCallsign
  | DcsS_Voice DstarHeader StreamId u8 VoiceFrame bool

section \<open>Encoders\<close>

definition html_for :: "GatewayType \<Rightarrow> bytes" where
  "html_for g = (case g of
      GT_Repeater \<Rightarrow> LINK_HTML_REPEATER
    | GT_Hotspot \<Rightarrow> LINK_HTML_HOTSPOT
    | GT_Dongle \<Rightarrow> LINK_HTML_DONGLE
    | GT_StarNet \<Rightarrow> LINK_HTML_STARNET)"

definition dcs_write_connect_prefix :: "bytes \<Rightarrow> RepeaterIdentity \<Rightarrow> ModuleSlot \<Rightarrow> bytes" where
  "dcs_write_connect_prefix out identity reflector_module =
     (let out = fill_prefix 11 0x20 out;
          out = put 0 (routing_bytes (ri_callsign identity)) out;
          out = put_byte 8 (Module_as_byte (ri_module identity)) out;
          out = put_byte 9 (ModuleSlot_as_byte reflector_module) out
      in put_byte 10 0x00 out)"

definition dcs_write_connect_reply ::
  "bytes \<Rightarrow> RepeaterIdentity \<Rightarrow> ModuleSlot \<Rightarrow> bytes \<Rightarrow> (EncodeError + unit) \<times> bytes" where
  "dcs_write_connect_reply out identity reflector_module tag =
     (if length out < DCS_CONNECT_REPLY_LEN
      then (Err (BufferTooSmall DCS_CONNECT_REPLY_LEN (length out)), out)
      else let out = fill_prefix DCS_CONNECT_REPLY_LEN 0x20 out;
               out = put 0 (routing_bytes (ri_callsign identity)) out;
               out = put_byte 8 (Module_as_byte (ri_module identity)) out;
               out = put_byte 9 (ModuleSlot_as_byte reflector_module) out;
               out = put 10 tag out;
               out = put_byte 13 0x00 out
           in (Ok (), out))"

definition dcs_write_poll :: "bytes \<Rightarrow> DstarCallsign \<Rightarrow> DstarCallsign \<Rightarrow> (EncodeError + unit) \<times> bytes" where
  "dcs_write_poll out callsign reflector_callsign =
     (if length out < DCS_POLL_LEN then (Err (BufferTooSmall DCS_POLL_LEN (length out)), out)
      else let out = put 0 (callsign_bytes callsign) out;
               out = put_byte 8 0x00 out;
               out = put 9 (callsign_bytes reflector_callsign) out
           in (Ok (), out))"

definition dcs_encode_connect_link ::
  "bytes \<Rightarrow> RepeaterIdentity \<Rightarrow> DstarModule \<Rightarrow> DcsReflector \<Rightarrow> GatewayType \<Rightarrow> (EncodeError + nat) \<times> bytes" where
  "dcs_encode_connect_link out identity reflector_module reflector gateway_type =
     (if length out < DCS_LINK_LEN then (Err (BufferTooSmall DCS_LINK_LEN (length out)), out)
      else let out = fill_prefix DCS_LINK_LEN 0x00 out;
               out = dcs_write_connect_prefix out identity (ModuleSlot_Module reflector_module);
               out = put 11 (replicate 8 0x20) out;
               out = put 11 (routing_bytes (dcs_routing reflector)) out;
               html = html_for gateway_type;
               copy_len = min (length html) (DCS_LINK_LEN - 19);
               out = put 19 (take copy_len html) out
           in (Ok DCS_LINK_LEN, out))"

definition dcs_encode_connect_unlink ::
  "bytes \<Rightarrow> RepeaterIdentity \<Rightarrow> DcsReflector \<Rightarrow> (EncodeError + nat) \<times> bytes" where
  "dcs_encode_connect_unlink out identity reflector =
     (if length out < DCS_UNLINK_LEN then (Err (BufferTooSmall DCS_UNLINK_LEN (length out)), out)
      else let out = dcs_write_connect_prefix out identity ModuleSlot_Empty;
               out = put 11 (replicate 8 0x20) out;
               out = put 11 (routing_bytes (dcs_routing reflector)) out
           in (Ok DCS_UNLINK_LEN, out))"

definition dcs_encode_connect_ack ::
  "bytes \<Rightarrow> RepeaterIdentity \<Rightarrow> DstarModule \<Rightarrow> (EncodeError + nat) \<times> bytes" where
  "dcs_encode_connect_ack out identity reflector_module =
     (case dcs_write_connect_reply out identity (ModuleSlot_Module reflector_module) DCS_CONNECT_ACK_TAG of
        (Err e, out) \<Rightarrow> (Err e, out)
      | (Ok _, out) \<Rightarrow> (Ok DCS_CONNECT_REPLY_LEN, out))"

definition dcs_encode_connect_nak ::
  "bytes \<Rightarrow> RepeaterIdentity \<Rightarrow> ModuleSlot \<Rightarrow> (EncodeError + nat) \<times> bytes" where
  "dcs_encode_connect_nak out identity reflector_module =
     (case dcs_write_connect_reply out identity reflector_module DCS_CONNECT_NAK_TAG of
        (Err e, out) \<Rightarrow> (Err e, out)
      | (Ok _, out) \<Rightarrow> (Ok DCS_CONNECT_REPLY_LEN, out))"

definition dcs_encode_poll_request ::
  "bytes \<Rightarrow> RoutingCallsign \<Rightarrow> DcsReflector \<Rightarrow> (EncodeError + nat) \<times> bytes" where
  "dcs_encode_poll_request out callsign reflector =
     (case dcs_write_poll out (RoutingCallsign_callsign callsign) (DcsReflector_callsign reflector) of
        (Err e, out) \<Rightarrow> (Err e, out)
      | (Ok _, out) \<Rightarrow> (Ok DCS_POLL_LEN, out))"

definition dcs_encode_poll_reply ::
  "bytes \<Rightarrow> DstarCallsign \<Rightarrow> DstarCallsign \<Rightarrow> (EncodeError + nat) \<times> bytes" where
  "dcs_encode_poll_reply out callsign reflector_callsign =
     (case dcs_write_poll out callsign reflector_callsign of
        (Err e, out) \<Rightarrow> (Err e, out)
      | (Ok _, out) \<Rightarrow> (Ok DCS_POLL_LEN, out))"

definition dcs_encode_voice ::
  "bytes \<Rightarrow> DstarHeader \<Rightarrow> StreamId \<Rightarrow> FrameSequence \<Rightarrow> VoiceFrame \<Rightarrow> bool \<Rightarrow> (EncodeError + nat) \<times> bytes" where
  "dcs_encode_voice out header stream_id seq frame is_end =
     (if length out < DCS_VOICE_LEN then (Err (BufferTooSmall DCS_VOICE_LEN (length out)), out)
      else let out = fill_prefix DCS_VOICE_LEN 0x00 out;
               out = put 0 DCS_VOICE_MAGIC out;
               out = put 4 (HeaderFlags_as_bytes (dh_flags header)) out;
               out = put 7 (callsign_bytes (rpt2 header)) out;
               out = put 15 (callsign_bytes (rpt1 header)) out;
               out = put 23 (callsign_bytes (ur_call header)) out;
               out = put 31 (callsign_bytes (my_call header)) out;
               out = put 39 (suffix_bytes (my_suffix header)) out;
               sid = to_le_bytes (stream_raw stream_id);
               out = put_byte 43 (sid ! 0) out;
               out = put_byte 44 (sid ! 1) out;
               seq_byte = (if is_end then sequence_index seq OR 0x40 else sequence_index seq);
               out = put_byte 45 seq_byte out;
               out = put 46 (ambe frame) out;
               out = (if is_end then put 55 DCS_VOICE_EOT_MARKER out else put 55 (slow_data frame) out);
               out = put_byte 61 0x01 out;
               out = put_byte 62 0x00 out;
               out = put_byte 63 0x21 out
           in (Ok DCS_VOICE_LEN, out))"

section \<open>Decoders\<close>

definition dcs_extract_callsign :: "bytes \<Rightarrow> DstarCallsign" where
  "dcs_extract_callsign src = DstarCallsign_from_wire_bytes (put 0 (take (min (length src) 8) src) (replicate 8 0x20))"

definition dcs_slice :: "nat \<Rightarrow> nat \<Rightarrow> bytes \<Rightarrow> bytes" where
  "dcs_slice a b bs = (case get_range a b bs of Some s \<Rightarrow> s | None \<Rightarrow> [])"

definition dcs_module_at :: "nat \<Rightarrow> u8 \<Rightarrow> DcsError + DstarModule" where
  "dcs_module_at off b =
     (case Module_try_from_byte b of Err _ \<Rightarrow> Err (Dcs_InvalidModuleByte off b) | Ok m \<Rightarrow> Ok m)"

definition dcs_decode_client_link :: "bytes \<Rightarrow> DcsError + DcsClientPacket" where
  "dcs_decode_client_link bs =
     (let callsign = dcs_extract_callsign (dcs_slice 0 8 bs)
      in case dcs_module_at 8 (byte_at 8 bs) of
           Err e \<Rightarrow> Err e
         | Ok client_module \<Rightarrow>
             (case dcs_module_at 9 (byte_at 9 bs) of
                Err e \<Rightarrow> Err e
              | Ok reflector_module \<Rightarrow>
                  Ok (DcsC_Link callsign client_module reflector_module
                        (dcs_extract_callsign (dcs_slice 11 19 bs)) GT_Repeater)))"

definition dcs_decode_client_unlink :: "bytes \<Rightarrow> DcsError + DcsClientPacket" where
  "dcs_decode_client_unlink bs =
     (let callsign = dcs_extract_callsign (dcs_slice 0 8 bs)
      in case dcs_module_at 8 (byte_at 8 bs) of
           Err e \<Rightarrow> Err e
         | Ok client_module \<Rightarrow>
             (let marker = byte_at 9 bs
              in if marker \<noteq> 0x20 then Err (Dcs_UnlinkModuleByteInvalid marker)
                 else Ok (DcsC_Unlink callsign client_module (dcs_extract_callsign (dcs_slice 11 19 bs)))))"

definition dcs_decode_client_poll :: "bytes \<Rightarrow> DcsClientPacket" where
  "dcs_decode_client_poll bs =
     DcsC_Poll (dcs_extract_callsign (dcs_slice 0 8 bs)) (dcs_extract_callsign (dcs_slice 9 17 bs))"

definition dcs_decode_server_poll :: "bytes \<Rightarrow> DcsServerPacket" where
  "dcs_decode_server_poll bs =
     DcsS_PollEcho (dcs_extract_callsign (dcs_slice 0 8 bs)) (dcs_extract_callsign (dcs_slice 9 17 bs))"

definition dcs_decode_server_connect_reply :: "bytes \<Rightarrow> DcsError + DcsServerPacket" where
  "dcs_decode_server_connect_reply bs =
     (let callsign = dcs_extract_callsign (dcs_slice 0 8 bs)
      in case dcs_module_at 8 (byte_at 8 bs) of
           Err e \<Rightarrow> Err e
         | Ok client_module \<Rightarrow>
             (let module_byte = byte_at 9 bs;
                  tag = copied 10 13 bs
              in if tag = DCS_CONNECT_ACK_TAG
                 then (case dcs_module_at 9 module_byte of
                         Err e \<Rightarrow> Err e
                       | Ok reflector_module \<Rightarrow> Ok (DcsS_ConnectAck callsign client_module reflector_module))
                 else if tag = DCS_CONNECT_NAK_TAG
                 then (case ModuleSlot_try_from module_byte of
                         Err _ \<Rightarrow> Err (Dcs_InvalidModuleByte 9 module_byte)
                       | Ok slot \<Rightarrow> Ok (DcsS_ConnectNak callsign client_module slot))
                 else Err (Dcs_UnknownConnectTag tag)))"

definition decode_dcs_header_from_voice :: "bytes \<Rightarrow> DstarHeader" where
  "decode_dcs_header_from_voice bs =
     \<lparr>dh_flags = HeaderFlags_from_bytes [byte_at 4 bs, byte_at 5 bs, byte_at 6 bs],
      rpt2 = DstarCallsign_from_wire_bytes (copied_spaces 7 15 bs),
      rpt1 = DstarCallsign_from_wire_bytes (copied_spaces 15 23 bs),
      ur_call = DstarCallsign_from_wire_bytes (copied_spaces 23 31 bs),
      my_call = DstarCallsign_from_wire_bytes (copied_spaces 31 39 bs),
      my_suffix = Suffix_from_wire_bytes (copied_spaces 39 43 bs)\<rparr>"

definition dcs_parse_voice ::
  "bytes \<Rightarrow> diagnostics \<Rightarrow>
     (DcsError + (DstarHeader \<times> StreamId \<times> u8 \<times> VoiceFrame \<times> bool)) \<times> diagnostics" where
  "dcs_parse_voice bs sink =
     (case get_range 0 4 bs of
        None \<Rightarrow> (Err (Dcs_UnknownPacketLength (length bs)), sink)
      | Some magic \<Rightarrow>
          (if magic \<noteq> DCS_VOICE_MAGIC then (Err (Dcs_VoiceMagicMissing magic), sink)
           else case ok_or (StreamId_new (from_le_bytes (byte_at 43 bs) (byte_at 44 bs))) Dcs_StreamIdZero of
                  Err e \<Rightarrow> (Err e, sink)
                | Ok stream_id \<Rightarrow>
                    (let seq = byte_at 45 bs;
                         eot_bit = (seq AND 0x40 \<noteq> 0);
                         sink = (if seq AND NOT 0x40 > 20
                                 then sink_record (VoiceSeqOutOfRange PK_Dcs stream_id (seq AND NOT 0x40)) sink
                                 else sink);
                         ambe = copied 46 55 bs;
                         slow = copied 55 58 bs;
                         eot_marker = (slow = [0x55, 0x55, 0x55]);
                         is_end = (eot_bit \<or> eot_marker);
                         frame = \<lparr>ambe = ambe, slow_data = slow\<rparr>;
                         header = decode_dcs_header_from_voice bs;
                         fs = dh_flags header;
                         sink = (if fs \<noteq> HeaderFlags_NONE
                                 then sink_record (HeaderFlagsNonZero PK_Dcs (flag1 fs) (flag2 fs) (flag3 fs)) sink
                                 else sink)
                     in (Ok (header, stream_id, seq, frame, is_end), sink))))"

definition dcs_decode_client_voice ::
  "bytes \<Rightarrow> diagnostics \<Rightarrow> (DcsError + DcsClientPacket) \<times> diagnostics" where
  "dcs_decode_client_voice bs sink =
     (case dcs_parse_voice bs sink of
        (Err e, sink) \<Rightarrow> (Err e, sink)
      | (Ok (header, stream_id, seq, frame, is_end), sink) \<Rightarrow> (Ok (DcsC_Voice header stream_id seq frame is_end), sink))"

definition dcs_decode_server_voice ::
  "bytes \<Rightarrow> diagnostics \<Rightarrow> (DcsError + DcsServerPacket) \<times> diagnostics" where
  "dcs_decode_server_voice bs sink =
     (case dcs_parse_voice bs sink of
        (Err e, sink) \<Rightarrow> (Err e, sink)
      | (Ok (header, stream_id, seq, frame, is_end), sink) \<Rightarrow> (Ok (DcsS_Voice header stream_id seq frame is_end), sink))"

definition dcs_decode_client_to_server ::
  "bytes \<Rightarrow> diagnostics \<Rightarrow> (DcsError + DcsClientPacket) \<times> diagnostics" where
  "dcs_decode_client_to_server bs sink =
     (let len = length bs
      in if len = DCS_POLL_LEN then (Ok (dcs_decode_client_poll bs), sink)
         else if len = DCS_UNLINK_LEN then (dcs_decode_client_unlink bs, sink)
         else if len = DCS_LINK_LEN then (dcs_decode_client_link bs, sink)
         else if len = DCS_VOICE_LEN then dcs_decode_client_voice bs sink
         else (Err (Dcs_UnknownPacketLength len), sink))"

definition dcs_decode_server_to_client ::
  "bytes \<Rightarrow> diagnostics \<Rightarrow> (DcsError + DcsServerPacket) \<times> diagnostics" where
  "dcs_decode_server_to_client bs sink =
     (let len = length bs
      in if len = DCS_POLL_LEN then (Ok (dcs_decode_server_poll bs), sink)
         else if len = DCS_CONNECT_REPLY_LEN then (dcs_decode_server_connect_reply bs, sink)
         else if len = DCS_VOICE_LEN then dcs_decode_server_voice bs sink
         else (Err (Dcs_UnknownPacketLength len), sink))"

section \<open>Wire images\<close>

definition dcs_connect_wire :: "RepeaterIdentity \<Rightarrow> ModuleSlot \<Rightarrow> DcsReflector \<Rightarrow> bytes" where
  "dcs_connect_wire i slot r =
     routing_bytes (ri_callsign i) @ [0x20, Module_as_byte (ri_module i), ModuleSlot_as_byte slot, 0x00] @
     routing_bytes (dcs_routing r) @ [0x20]"

definition dcs_link_wire :: "RepeaterIdentity \<Rightarrow> DstarModule \<Rightarrow> DcsReflector \<Rightarrow> GatewayType \<Rightarrow> bytes" where
  "dcs_link_wire i m r g =
     dcs_connect_wire i (ModuleSlot_Module m) r @ html_for g @ replicate (500 - length (html_for g)) 0"

definition dcs_reply_wire :: "RepeaterIdentity \<Rightarrow> ModuleSlot \<Rightarrow> bytes \<Rightarrow> bytes" where
  "dcs_reply_wire i slot tag =
     routing_bytes (ri_callsign i) @ [0x20, Module_as_byte (ri_module i), ModuleSlot_as_byte slot] @ tag @ [0x00]"

definition dcs_poll_wire :: "DstarCallsign \<Rightarrow> DstarCallsign \<Rightarrow> bytes" where
  "dcs_poll_wire c r = callsign_bytes c @ [0] @ callsign_bytes r"

definition dcs_voice_wire :: "DstarHeader \<Rightarrow> StreamId \<Rightarrow> u8 \<Rightarrow> bytes \<Rightarrow> bytes \<Rightarrow> bytes" where
  "dcs_voice_wire h s q a slow =
     DCS_VOICE_MAGIC @ header_fields h @ stream_le s @ [q] @ a @ slow @ [0, 0, 0, 1, 0, 0x21] @ replicate 36 0"

definition DcsReflector_wf :: "DcsReflector \<Rightarrow> bool" where
  "DcsReflector_wf r \<longleftrightarrow> RoutingCallsign_wf (dcs_routing r)"

lemma dcs_routing_length: "DcsReflector_wf r \<Longrightarrow> length (routing_bytes (dcs_routing r)) = 7"
  by (simp add: DcsReflector_wf_def RoutingCallsign_wf_def)

lemma length_html_for: "length (html_for g) \<le> 500"
  by (cases g) (simp_all add: html_for_def LINK_HTML_REPEATER_def LINK_HTML_HOTSPOT_def LINK_HTML_DONGLE_def
      LINK_HTML_STARNET_def)

lemma length_dcs_consts [simp]:
  "length DCS_VOICE_MAGIC = 4" "length DCS_CONNECT_ACK_TAG = 3" "length DCS_CONNECT_NAK_TAG = 3"
  "length DCS_VOICE_EOT_MARKER = 3"
  by (simp_all add: DCS_VOICE_MAGIC_def DCS_CONNECT_ACK_TAG_def DCS_CONNECT_NAK_TAG_def DCS_VOICE_EOT_MARKER_def)

lemma length_dcs_wires:
  "RepeaterIdentity_wf i \<Longrightarrow> DcsReflector_wf r \<Longrightarrow> length (dcs_connect_wire i slot r) = 19"
  "RepeaterIdentity_wf i \<Longrightarrow> DcsReflector_wf r \<Longrightarrow> length (dcs_link_wire i m r g) = 519"
  "RepeaterIdentity_wf i \<Longrightarrow> length tag = 3 \<Longrightarrow> length (dcs_reply_wire i slot tag) = 14"
  "DstarCallsign_wf c \<Longrightarrow> DstarCallsign_wf d \<Longrightarrow> length (dcs_poll_wire c d) = 17"
  "DstarHeader_wf h \<Longrightarrow> length a = 9 \<Longrightarrow> length slow = 3 \<Longrightarrow> length (dcs_voice_wire h s q a slow) = 100"
  using length_html_for [of g]
  by (simp_all add: dcs_link_wire_def dcs_connect_wire_def dcs_reply_wire_def dcs_poll_wire_def dcs_voice_wire_def
      identity_routing dcs_routing_length DstarCallsign_wf_def length_header_fields stream_le_bytes)

lemma dcs_write_connect_prefix_eq:
  "RepeaterIdentity_wf i \<Longrightarrow> 11 \<le> length out \<Longrightarrow> dcs_write_connect_prefix out i slot =
     routing_bytes (ri_callsign i) @ [0x20, Module_as_byte (ri_module i), ModuleSlot_as_byte slot, 0x00] @ drop 11 out"
  unfolding dcs_write_connect_prefix_def Let_def by (rule connect_stores [OF identity_routing])

text \<open>The request prefix followed by the reflector field, on a buffer that can hold both.\<close>

lemma dcs_connect_stores:
  assumes "RepeaterIdentity_wf i" "DcsReflector_wf r" "19 \<le> length out"
  shows "put 11 (routing_bytes (dcs_routing r)) (put 11 (replicate 8 0x20) (dcs_write_connect_prefix out i slot)) =
    dcs_connect_wire i slot r @ drop 19 out"
proof -
  define p where "p = routing_bytes (ri_callsign i) @ [0x20, Module_as_byte (ri_module i), ModuleSlot_as_byte slot, 0x00]"
  have p: "length p = 11" using assms(1) by (simp add: p_def identity_routing)
  have "dcs_write_connect_prefix out i slot = p @ drop 11 out"
    using assms by (simp add: dcs_write_connect_prefix_eq p_def)
  moreover have "put 11 (replicate 8 0x20) (p @ drop 11 out) = p @ replicate 8 0x20 @ drop 19 out"
    using p assms(3) by (simp add: put_append put_start)
  moreover have "replicate 8 0x20 = replicate 7 0x20 @ [0x20::u8]"
    by (simp add: eval_nat_numeral)
  ultimately show ?thesis
    using p dcs_routing_length [OF assms(2)]
    by (simp add: put_append put_whole dcs_connect_wire_def p_def del: replicate.simps)
qed

section \<open>Encoders write their wire image\<close>

lemma dcs_encode_connect_unlink_eq:
  assumes "RepeaterIdentity_wf i" "DcsReflector_wf r"
  shows "dcs_encode_connect_unlink out i r =
    (if length out < 19 then (Err (BufferTooSmall 19 (length out)), out)
     else (Ok 19, dcs_connect_wire i ModuleSlot_Empty r @ drop 19 out))"
  using dcs_connect_stores [OF assms, of out ModuleSlot_Empty]
  by (simp add: dcs_encode_connect_unlink_def Let_def dcs_lens)

lemma dcs_encode_connect_link_eq:
  assumes "RepeaterIdentity_wf i" "DcsReflector_wf r"
  shows "dcs_encode_connect_link out i m r g =
    (if length out < 519 then (Err (BufferTooSmall 519 (length out)), out)
     else (Ok 519, dcs_link_wire i m r g @ drop 519 out))"
proof (cases "length out < 519")
  case False
  let ?w = "dcs_connect_wire i (ModuleSlot_Module m) r" and ?h = "html_for g"
  have "drop 19 (replicate 519 (0::u8) @ drop 519 out) =
      replicate (length ?h) 0 @ replicate (500 - length ?h) 0 @ drop 519 out"
    using length_html_for [of g] by (simp flip: replicate_add append_assoc)
  then have stored: "put 11 (routing_bytes (dcs_routing r)) (put 11 (replicate 8 0x20)
      (dcs_write_connect_prefix (fill_prefix 519 0 out) i (ModuleSlot_Module m))) =
      ?w @ replicate (length ?h) 0 @ replicate (500 - length ?h) 0 @ drop 519 out"
    using False dcs_connect_stores [OF assms, of "replicate 519 0 @ drop 519 out" "ModuleSlot_Module m"]
    by (simp add: fill_prefix_eq)
  have html: "put 19 ?h (?w @ replicate (length ?h) 0 @ q) = ?w @ ?h @ q" for q
    using length_dcs_wires(1) [OF assms, of "ModuleSlot_Module m"] by (simp add: put_append put_whole)
  have len: "take (min (length ?h) 500) ?h = ?h" using length_html_for [of g] by simp
  show ?thesis
    using False stored html len
    by (simp add: dcs_encode_connect_link_def Let_def dcs_lens dcs_link_wire_def)
qed (simp add: dcs_encode_connect_link_def dcs_lens)

lemma dcs_write_connect_reply_eq:
  assumes "RepeaterIdentity_wf i" "length tag = 3"
  shows "dcs_write_connect_reply out i slot tag =
    (if length out < 14 then (Err (BufferTooSmall 14 (length out)), out)
     else (Ok (), dcs_reply_wire i slot tag @ drop 14 out))"
  using reply_stores [OF identity_routing [OF assms(1)] assms(2)]
  by (simp add: dcs_write_connect_reply_def Let_def dcs_lens dcs_reply_wire_def)

lemma dcs_write_poll_eq:
  assumes "DstarCallsign_wf c" "DstarCallsign_wf d"
  shows "dcs_write_poll out c d =
    (if length out < 17 then (Err (BufferTooSmall 17 (length out)), out)
     else (Ok (), dcs_poll_wire c d @ drop 17 out))"
proof (cases "length out < 17")
  case False
  have l: "length (callsign_bytes c) = 8" "length (callsign_bytes d) = 8"
    using assms by (simp_all add: DstarCallsign_wf_def)
  have "put 0 (callsign_bytes c) out = callsign_bytes c @ drop 8 out"
    using False l by (simp add: put_start)
  moreover have "put_byte 8 0 (callsign_bytes c @ drop 8 out) = (callsign_bytes c @ [0]) @ drop (Suc 8) out"
    by (rule put_byte_next) (use False l in simp_all)
  moreover have "put 9 (callsign_bytes d) ((callsign_bytes c @ [0]) @ drop (Suc 8) out) =
      ((callsign_bytes c @ [0]) @ callsign_bytes d) @ drop (Suc 8 + length (callsign_bytes d)) out"
    by (rule put_next) (use False l in simp_all)
  ultimately show ?thesis
    using False l by (simp add: dcs_write_poll_def Let_def dcs_lens dcs_poll_wire_def)
qed (simp add: dcs_write_poll_def dcs_lens)

lemma dcs_encode_voice_eq:
  assumes "DstarHeader_wf h" "VoiceFrame_wf f"
  shows "dcs_encode_voice out h s q f e =
    (if length out < 100 then (Err (BufferTooSmall 100 (length out)), out)
     else (Ok 100, dcs_voice_wire h s (if e then sequence_index q OR 0x40 else sequence_index q) (ambe f)
             (if e then DCS_VOICE_EOT_MARKER else slow_data f) @ drop 100 out))"
proof (cases "length out < 100")
  case False
  have zeros: "replicate 100 (0::u8) = replicate 4 0 @ replicate 3 0 @ replicate 8 0 @ replicate 8 0 @ replicate 8 0 @
      replicate 8 0 @ replicate 4 0 @ [0, 0, 0] @ replicate 9 0 @ replicate 3 0 @ [0, 0, 0, 0, 0, 0] @ replicate 36 0"
    by (simp add: eval_nat_numeral)
  have l: "length (callsign_bytes (rpt2 h)) = 8" "length (callsign_bytes (rpt1 h)) = 8"
    "length (callsign_bytes (ur_call h)) = 8" "length (callsign_bytes (my_call h)) = 8"
    "length (suffix_bytes (my_suffix h)) = 4" "length (ambe f) = 9" "length (slow_data f) = 3"
    "length (HeaderFlags_as_bytes (dh_flags h)) = 3"
    using assms by (simp_all add: DstarHeader_wf_def DstarCallsign_wf_def Suffix_wf_def VoiceFrame_wf_def
        HeaderFlags_as_bytes_def)
  show ?thesis
    using False l
    by (simp add: dcs_encode_voice_def Let_def dcs_lens fill_prefix_eq zeros put_append put_byte_append put_whole
        to_le_bytes_def stream_le_bytes dcs_voice_wire_def header_fields_def)
qed (simp add: dcs_encode_voice_def dcs_lens)

section \<open>What each side sends and the other receives\<close>

datatype dcs_client_tx =
    DcLink RepeaterIdentity DstarModule DcsReflector GatewayType
  | DcUnlink RepeaterIdentity DcsReflector
  | DcPoll RoutingCallsign DcsReflector
  | DcVoice DstarHeader StreamId FrameSequence VoiceFrame bool

definition dcs_voice_wf :: "DstarHeader \<Rightarrow> StreamId \<Rightarrow> FrameSequence \<Rightarrow> VoiceFrame \<Rightarrow> bool \<Rightarrow> bool" where
  "dcs_voice_wf h s q f e \<longleftrightarrow> DstarHeader_wf h \<and> StreamId_wf s \<and> FrameSequence_wf q \<and> VoiceFrame_wf f"

definition dcs_voice_seq :: "FrameSequence \<Rightarrow> bool \<Rightarrow> u8" where
  "dcs_voice_seq q e = (if e then sequence_index q OR 0x40 else sequence_index q)"

definition dcs_voice_slow :: "VoiceFrame \<Rightarrow> bool \<Rightarrow> bytes" where
  "dcs_voice_slow f e = (if e then DCS_VOICE_EOT_MARKER else slow_data f)"

text \<open>The decoder takes the sentinel for the end of the stream whether or not the sender meant it: a
  frame that is not the last one but has 55 55 55 as its slow data is read as the last.\<close>

definition dcs_voice_ends :: "VoiceFrame \<Rightarrow> bool \<Rightarrow> bool" where
  "dcs_voice_ends f e \<longleftrightarrow> e \<or> slow_data f = DCS_VOICE_EOT_MARKER"

definition dcs_voice_remarks :: "DstarHeader \<Rightarrow> diagnostics" where
  "dcs_voice_remarks h =
     (let fs = dh_flags h
      in if fs \<noteq> HeaderFlags_NONE then [HeaderFlagsNonZero PK_Dcs (flag1 fs) (flag2 fs) (flag3 fs)] else [])"

fun dcs_client_encode :: "dcs_client_tx \<Rightarrow> bytes \<Rightarrow> (EncodeError + nat) \<times> bytes" where
  "dcs_client_encode (DcLink i m r g) out = dcs_encode_connect_link out i m r g"
| "dcs_client_encode (DcUnlink i r) out = dcs_encode_connect_unlink out i r"
| "dcs_client_encode (DcPoll c r) out = dcs_encode_poll_request out c r"
| "dcs_client_encode (DcVoice h s q f e) out = dcs_encode_voice out h s q f e"

fun dcs_client_wf :: "dcs_client_tx \<Rightarrow> bool" where
  "dcs_client_wf (DcLink i m r g) = (RepeaterIdentity_wf i \<and> Module_wf m \<and> DcsReflector_wf r)"
| "dcs_client_wf (DcUnlink i r) = (RepeaterIdentity_wf i \<and> DcsReflector_wf r)"
| "dcs_client_wf (DcPoll c r) = (RoutingCallsign_wf c \<and> DcsReflector_wf r)"
| "dcs_client_wf (DcVoice h s q f e) = dcs_voice_wf h s q f e"

fun dcs_client_wire :: "dcs_client_tx \<Rightarrow> bytes" where
  "dcs_client_wire (DcLink i m r g) = dcs_link_wire i m r g"
| "dcs_client_wire (DcUnlink i r) = dcs_connect_wire i ModuleSlot_Empty r"
| "dcs_client_wire (DcPoll c r) = dcs_poll_wire (RoutingCallsign_callsign c) (DcsReflector_callsign r)"
| "dcs_client_wire (DcVoice h s q f e) = dcs_voice_wire h s (dcs_voice_seq q e) (ambe f) (dcs_voice_slow f e)"

fun dcs_client_received :: "dcs_client_tx \<Rightarrow> DcsClientPacket" where
  "dcs_client_received (DcLink i m r g) =
     DcsC_Link (RoutingCallsign_callsign (ri_callsign i)) (ri_module i) m (DcsReflector_callsign r) GT_Repeater"
| "dcs_client_received (DcUnlink i r) =
     DcsC_Unlink (RoutingCallsign_callsign (ri_callsign i)) (ri_module i) (DcsReflector_callsign r)"
| "dcs_client_received (DcPoll c r) = DcsC_Poll (RoutingCallsign_callsign c) (DcsReflector_callsign r)"
| "dcs_client_received (DcVoice h s q f e) =
     DcsC_Voice h s (dcs_voice_seq q e) (f\<lparr>slow_data := dcs_voice_slow f e\<rparr>) (dcs_voice_ends f e)"

fun dcs_client_remarks :: "dcs_client_tx \<Rightarrow> diagnostics" where
  "dcs_client_remarks (DcVoice h s q f e) = dcs_voice_remarks h"
| "dcs_client_remarks _ = []"

datatype dcs_server_tx =
    DcAck RepeaterIdentity DstarModule
  | DcNak RepeaterIdentity ModuleSlot
  | DcPollReply DstarCallsign DstarCallsign
  | DcFwdVoice DstarHeader StreamId FrameSequence VoiceFrame bool

fun dcs_server_encode :: "dcs_server_tx \<Rightarrow> bytes \<Rightarrow> (EncodeError + nat) \<times> bytes" where
  "dcs_server_encode (DcAck i m) out = dcs_encode_connect_ack out i m"
| "dcs_server_encode (DcNak i m) out = dcs_encode_connect_nak out i m"
| "dcs_server_encode (DcPollReply c r) out = dcs_encode_poll_reply out c r"
| "dcs_server_encode (DcFwdVoice h s q f e) out = dcs_encode_voice out h s q f e"

fun dcs_server_wf :: "dcs_server_tx \<Rightarrow> bool" where
  "dcs_server_wf (DcAck i m) = (RepeaterIdentity_wf i \<and> Module_wf m)"
| "dcs_server_wf (DcNak i m) = (RepeaterIdentity_wf i \<and> ModuleSlot_wf m)"
| "dcs_server_wf (DcPollReply c r) = (DstarCallsign_wf c \<and> DstarCallsign_wf r)"
| "dcs_server_wf (DcFwdVoice h s q f e) = dcs_voice_wf h s q f e"

fun dcs_server_wire :: "dcs_server_tx \<Rightarrow> bytes" where
  "dcs_server_wire (DcAck i m) = dcs_reply_wire i (ModuleSlot_Module m) DCS_CONNECT_ACK_TAG"
| "dcs_server_wire (DcNak i m) = dcs_reply_wire i m DCS_CONNECT_NAK_TAG"
| "dcs_server_wire (DcPollReply c r) = dcs_poll_wire c r"
| "dcs_server_wire (DcFwdVoice h s q f e) = dcs_voice_wire h s (dcs_voice_seq q e) (ambe f) (dcs_voice_slow f e)"

fun dcs_server_received :: "dcs_server_tx \<Rightarrow> DcsServerPacket" where
  "dcs_server_received (DcAck i m) = DcsS_ConnectAck (RoutingCallsign_callsign (ri_callsign i)) (ri_module i) m"
| "dcs_server_received (DcNak i m) = DcsS_ConnectNak (RoutingCallsign_callsign (ri_callsign i)) (ri_module i) m"
| "dcs_server_received (DcPollReply c r) = DcsS_PollEcho c r"
| "dcs_server_received (DcFwdVoice h s q f e) =
     DcsS_Voice h s (dcs_voice_seq q e) (f\<lparr>slow_data := dcs_voice_slow f e\<rparr>) (dcs_voice_ends f e)"

fun dcs_server_remarks :: "dcs_server_tx \<Rightarrow> diagnostics" where
  "dcs_server_remarks (DcFwdVoice h s q f e) = dcs_voice_remarks h"
| "dcs_server_remarks _ = []"

section \<open>The two directions of a DCS link\<close>

lemma routing_callsign_wf: "RoutingCallsign_wf c \<Longrightarrow> DstarCallsign_wf (RoutingCallsign_callsign c)"
  by (simp add: RoutingCallsign_wf_def DstarCallsign_wf_def RoutingCallsign_callsign_def DstarCallsign_from_wire_bytes_def)

lemma dcs_reflector_callsign_wf: "DcsReflector_wf r \<Longrightarrow> DstarCallsign_wf (DcsReflector_callsign r)"
  by (simp add: DcsReflector_wf_def DcsReflector_callsign_def routing_callsign_wf)

lemma length_dcs_voice_slow: "VoiceFrame_wf f \<Longrightarrow> length (dcs_voice_slow f e) = 3"
  by (simp add: dcs_voice_slow_def VoiceFrame_wf_def)

lemma frame_lengths: "VoiceFrame_wf f \<Longrightarrow> length (ambe f) = 9" "VoiceFrame_wf f \<Longrightarrow> length (slow_data f) = 3"
  by (simp_all add: VoiceFrame_wf_def)

lemmas dcs_encode_eqs = dcs_encode_connect_link_eq dcs_encode_connect_unlink_eq dcs_encode_connect_ack_def
  dcs_encode_connect_nak_def dcs_write_connect_reply_eq dcs_encode_poll_request_def dcs_encode_poll_reply_def
  dcs_write_poll_eq dcs_encode_voice_eq dcs_lens routing_callsign_wf dcs_reflector_callsign_wf

lemmas dcs_wire_lens = length_dcs_wires routing_callsign_wf dcs_reflector_callsign_wf length_dcs_voice_slow frame_lengths
  dcs_voice_wf_def

lemma dcs_client_datagram: "datagram dcs_client_wf dcs_client_encode dcs_client_wire"
proof
  fix p and out :: bytes assume "dcs_client_wf p" "length (dcs_client_wire p) \<le> length out"
  then show "dcs_client_encode p out =
      (Ok (length (dcs_client_wire p)), dcs_client_wire p @ drop (length (dcs_client_wire p)) out)"
    by (cases p) (auto simp: dcs_encode_eqs dcs_wire_lens dcs_voice_seq_def dcs_voice_slow_def)
next
  fix p and out :: bytes assume "dcs_client_wf p" "length out < length (dcs_client_wire p)"
  then show "dcs_client_encode p out = (Err (BufferTooSmall (length (dcs_client_wire p)) (length out)), out)"
    by (cases p) (auto simp: dcs_encode_eqs dcs_wire_lens)
qed

lemma dcs_server_datagram: "datagram dcs_server_wf dcs_server_encode dcs_server_wire"
proof
  fix p and out :: bytes assume "dcs_server_wf p" "length (dcs_server_wire p) \<le> length out"
  then show "dcs_server_encode p out =
      (Ok (length (dcs_server_wire p)), dcs_server_wire p @ drop (length (dcs_server_wire p)) out)"
    by (cases p) (auto simp: dcs_encode_eqs dcs_wire_lens dcs_voice_seq_def dcs_voice_slow_def)
next
  fix p and out :: bytes assume "dcs_server_wf p" "length out < length (dcs_server_wire p)"
  then show "dcs_server_encode p out = (Err (BufferTooSmall (length (dcs_server_wire p)) (length out)), out)"
    by (cases p) (auto simp: dcs_encode_eqs dcs_wire_lens)
qed

text \<open>The decoders on the wire images.\<close>

lemma dcs_extract_callsign_id: "length bs = 8 \<Longrightarrow> dcs_extract_callsign bs = DstarCallsign bs"
  by (simp add: dcs_extract_callsign_def put_def DstarCallsign_from_wire_bytes_def)

lemma dcs_connect_wire_reads:
  assumes "RepeaterIdentity_wf i" "DcsReflector_wf r"
  shows "dcs_extract_callsign (dcs_slice 0 8 (dcs_connect_wire i slot r @ x)) = RoutingCallsign_callsign (ri_callsign i)"
    and "byte_at 8 (dcs_connect_wire i slot r @ x) = Module_as_byte (ri_module i)"
    and "byte_at 9 (dcs_connect_wire i slot r @ x) = ModuleSlot_as_byte slot"
    and "dcs_extract_callsign (dcs_slice 11 19 (dcs_connect_wire i slot r @ x)) = DcsReflector_callsign r"
  using identity_routing [OF assms(1)] dcs_routing_length [OF assms(2)]
  by (simp_all add: dcs_connect_wire_def dcs_slice_def get_range_def dcs_extract_callsign_id byte_at_append
      RoutingCallsign_callsign_def DcsReflector_callsign_def DstarCallsign_from_wire_bytes_def)

lemma dcs_module_at_ok: "Module_wf m \<Longrightarrow> dcs_module_at off (Module_as_byte m) = Ok m"
  by (simp add: dcs_module_at_def)

lemma dcs_decode_link_wire:
  assumes "RepeaterIdentity_wf i" "DcsReflector_wf r" "Module_wf m"
  shows "dcs_decode_client_link (dcs_link_wire i m r g) = Ok (dcs_client_received (DcLink i m r g))"
  using assms
  by (simp add: dcs_decode_client_link_def dcs_link_wire_def dcs_connect_wire_reads ModuleSlot_as_byte_def
      RepeaterIdentity_wf_def dcs_module_at_ok)

lemma dcs_decode_unlink_wire:
  assumes "RepeaterIdentity_wf i" "DcsReflector_wf r"
  shows "dcs_decode_client_unlink (dcs_connect_wire i ModuleSlot_Empty r) = Ok (dcs_client_received (DcUnlink i r))"
  using assms dcs_connect_wire_reads [OF assms, of ModuleSlot_Empty "[]"]
  by (simp add: dcs_decode_client_unlink_def ModuleSlot_as_byte_def RepeaterIdentity_wf_def dcs_module_at_ok)

lemma dcs_poll_wire_reads:
  assumes "DstarCallsign_wf c" "DstarCallsign_wf d"
  shows "dcs_extract_callsign (dcs_slice 0 8 (dcs_poll_wire c d)) = c"
    and "dcs_extract_callsign (dcs_slice 9 17 (dcs_poll_wire c d)) = d"
  using assms by (simp_all add: dcs_poll_wire_def dcs_slice_def get_range_def DstarCallsign_wf_def dcs_extract_callsign_id)

lemma dcs_decode_reply_wire:
  assumes "RepeaterIdentity_wf i" "ModuleSlot_wf slot"
  shows "dcs_decode_server_connect_reply (dcs_reply_wire i slot DCS_CONNECT_NAK_TAG) =
      Ok (DcsS_ConnectNak (RoutingCallsign_callsign (ri_callsign i)) (ri_module i) slot)"
    and "slot = ModuleSlot_Module m \<Longrightarrow>
      dcs_decode_server_connect_reply (dcs_reply_wire i slot DCS_CONNECT_ACK_TAG) =
      Ok (DcsS_ConnectAck (RoutingCallsign_callsign (ri_callsign i)) (ri_module i) m)"
proof -
  have r: "length (routing_bytes (ri_callsign i)) = 7" using assms(1) by (rule identity_routing)
  have tags: "DCS_CONNECT_NAK_TAG \<noteq> DCS_CONNECT_ACK_TAG"
    by (simp add: DCS_CONNECT_NAK_TAG_def DCS_CONNECT_ACK_TAG_def)
  have reads: "dcs_extract_callsign (dcs_slice 0 8 (dcs_reply_wire i slot t)) = RoutingCallsign_callsign (ri_callsign i)"
    "byte_at 8 (dcs_reply_wire i slot t) = Module_as_byte (ri_module i)"
    "byte_at 9 (dcs_reply_wire i slot t) = ModuleSlot_as_byte slot"
    "length t = 3 \<Longrightarrow> copied 10 13 (dcs_reply_wire i slot t) = t" for t slot
    using r by (simp_all add: dcs_reply_wire_def dcs_slice_def get_range_def dcs_extract_callsign_id byte_at_append
        RoutingCallsign_callsign_def DstarCallsign_from_wire_bytes_def copied_eq)
  show "dcs_decode_server_connect_reply (dcs_reply_wire i slot DCS_CONNECT_NAK_TAG) =
      Ok (DcsS_ConnectNak (RoutingCallsign_callsign (ri_callsign i)) (ri_module i) slot)"
    using assms tags
    by (simp add: dcs_decode_server_connect_reply_def reads dcs_module_at_ok RepeaterIdentity_wf_def ModuleSlot_roundtrip)
  show "slot = ModuleSlot_Module m \<Longrightarrow>
      dcs_decode_server_connect_reply (dcs_reply_wire i slot DCS_CONNECT_ACK_TAG) =
      Ok (DcsS_ConnectAck (RoutingCallsign_callsign (ri_callsign i)) (ri_module i) m)"
    using assms
    by (simp add: dcs_decode_server_connect_reply_def reads dcs_module_at_ok RepeaterIdentity_wf_def ModuleSlot_as_byte_def
        ModuleSlot_wf_def)
qed

lemma dcs_seq_in_range:
  assumes "FrameSequence_wf q"
  shows "\<not> dcs_voice_seq q e AND NOT 0x40 > 20" "(dcs_voice_seq q e AND 0x40 \<noteq> 0) = e"
proof -
  have "\<forall>b::u8. b \<le> 20 \<longrightarrow> \<not> b AND NOT 0x40 > 20 \<and> \<not> (b OR 0x40) AND NOT 0x40 > 20"
    unfolding u8_all by simp
  then show "\<not> dcs_voice_seq q e AND NOT 0x40 > 20"
    using assms by (simp add: dcs_voice_seq_def FrameSequence_wf_def)
  show "(dcs_voice_seq q e AND 0x40 \<noteq> 0) = e"
    using sequence_no_eot [OF assms] sequence_eot by (simp add: dcs_voice_seq_def)
qed

lemma dcs_header_wire:
  assumes "DstarHeader_wf h"
  shows "decode_dcs_header_from_voice (DCS_VOICE_MAGIC @ header_fields h @ x) = h"
  using assms
  by (cases h) (simp add: decode_dcs_header_from_voice_def header_fields_def DstarHeader_wf_def DstarCallsign_wf_def
      Suffix_wf_def copied_spaces_eq byte_at_append HeaderFlags_as_bytes_def HeaderFlags_from_bytes_def
      DstarCallsign_from_wire_bytes_def Suffix_from_wire_bytes_def)

lemma dcs_parse_voice_wire:
  assumes "dcs_voice_wf h s q f e"
  shows "dcs_parse_voice (dcs_voice_wire h s (dcs_voice_seq q e) (ambe f) (dcs_voice_slow f e)) sink =
    (Ok (h, s, dcs_voice_seq q e, f\<lparr>slow_data := dcs_voice_slow f e\<rparr>, dcs_voice_ends f e), sink @ dcs_voice_remarks h)"
proof -
  let ?q = "dcs_voice_seq q e" and ?slow = "dcs_voice_slow f e"
  let ?w = "dcs_voice_wire h s ?q (ambe f) ?slow"
  note wf = assms [unfolded dcs_voice_wf_def]
  note lens = length_header_fields [of h] frame_lengths [of f] length_dcs_voice_slow [of f e]
  have "get_range 0 4 ?w = Some DCS_VOICE_MAGIC" by (simp add: dcs_voice_wire_def get_range_def)
  moreover have "byte_at 43 ?w = crc_lo (stream_raw s)" "byte_at 44 ?w = crc_hi (stream_raw s)" "byte_at 45 ?w = ?q"
    using wf lens by (simp_all add: dcs_voice_wire_def byte_at_append stream_le_bytes)
  moreover have "copied 46 55 ?w = ambe f" "copied 55 58 ?w = ?slow"
    using wf lens by (simp_all add: dcs_voice_wire_def copied_eq stream_le_bytes)
  moreover have "decode_dcs_header_from_voice ?w = h" using wf by (simp add: dcs_voice_wire_def dcs_header_wire)
  moreover have "e \<or> ?slow = [0x55, 0x55, 0x55] \<longleftrightarrow> dcs_voice_ends f e"
    by (auto simp: dcs_voice_slow_def dcs_voice_ends_def DCS_VOICE_EOT_MARKER_def)
  moreover have "\<lparr>ambe = ambe f, slow_data = ?slow\<rparr> = f\<lparr>slow_data := ?slow\<rparr>" by simp
  ultimately show ?thesis
    using wf dcs_seq_in_range [of q e]
    by (simp add: dcs_parse_voice_def Let_def ok_or_def dcs_voice_remarks_def sink_record_def) blast
qed

lemma length_dcs_voice:
  "dcs_voice_wf h s q f e \<Longrightarrow> length (dcs_voice_wire h s (dcs_voice_seq q e) (ambe f) (dcs_voice_slow f e)) = 100"
  by (simp add: dcs_wire_lens)

lemmas dcs_decode_eqs = dcs_decode_link_wire dcs_decode_unlink_wire dcs_poll_wire_reads dcs_decode_reply_wire
  dcs_parse_voice_wire dcs_decode_client_voice_def dcs_decode_server_voice_def dcs_decode_client_poll_def
  dcs_decode_server_poll_def dcs_lens

interpretation dcs_up: datagram_link dcs_client_wf dcs_client_encode dcs_client_wire
  dcs_decode_client_to_server dcs_client_received dcs_client_remarks
proof (intro datagram_link.intro dcs_client_datagram, unfold_locales)
  fix p sink assume wf: "dcs_client_wf p"
  show "dcs_decode_client_to_server (dcs_client_wire p) sink = (Ok (dcs_client_received p), sink @ dcs_client_remarks p)"
  proof (cases p)
    case (DcVoice h s q f e)
    then show ?thesis
      using wf by (simp add: dcs_decode_client_to_server_def dcs_decode_eqs length_dcs_voice)
  qed (use wf in \<open>simp_all add: dcs_decode_client_to_server_def dcs_wire_lens dcs_decode_eqs\<close>)
qed

interpretation dcs_down: datagram_link dcs_server_wf dcs_server_encode dcs_server_wire
  dcs_decode_server_to_client dcs_server_received dcs_server_remarks
proof (intro datagram_link.intro dcs_server_datagram, unfold_locales)
  fix p sink assume wf: "dcs_server_wf p"
  show "dcs_decode_server_to_client (dcs_server_wire p) sink = (Ok (dcs_server_received p), sink @ dcs_server_remarks p)"
  proof (cases p)
    case (DcFwdVoice h s q f e)
    then show ?thesis
      using wf by (simp add: dcs_decode_server_to_client_def dcs_decode_eqs length_dcs_voice)
  qed (use wf in \<open>simp_all add: dcs_decode_server_to_client_def dcs_wire_lens dcs_decode_eqs ModuleSlot_wf_def\<close>)
qed

text \<open>C36. What each side of a DCS link reads from what the other side sends, for every packet that
  can be encoded: the encoder writes its wire image and nothing beyond it into a buffer of 519
  bytes or more, and the other side's decoder reads back the packet, voice with its complete header
  and flags, with three exceptions that the statement spells out. A link request is read as coming
  from a repeater, whatever its banner. The last frame of a stream arrives with the sequence bit
  0x40 and with the sentinel 55 55 55 in place of its slow data. A frame that is not the last one
  but carries 55 55 55 as its slow data is read as the end of the stream. The only diagnostic
  reports header flags.\<close>

theorem dcs_link_faithful:
  assumes "dcs_client_wf p" "dcs_server_wf r" "519 \<le> length out"
  shows "(\<exists>n out'. dcs_client_encode p out = (Ok n, out') \<and> drop n out' = drop n out \<and>
      dcs_decode_client_to_server (take n out') sink = (Ok (case p of
          DcLink i m rf g \<Rightarrow> DcsC_Link (RoutingCallsign_callsign (ri_callsign i)) (ri_module i) m (DcsReflector_callsign rf) GT_Repeater
        | DcUnlink i rf \<Rightarrow> DcsC_Unlink (RoutingCallsign_callsign (ri_callsign i)) (ri_module i) (DcsReflector_callsign rf)
        | DcPoll c rf \<Rightarrow> DcsC_Poll (RoutingCallsign_callsign c) (DcsReflector_callsign rf)
        | DcVoice h s q f e \<Rightarrow>
            if e then DcsC_Voice h s (sequence_index q OR 0x40) (f\<lparr>slow_data := [0x55, 0x55, 0x55]\<rparr>) True
            else DcsC_Voice h s (sequence_index q) f (slow_data f = [0x55, 0x55, 0x55])), sink @ dcs_client_remarks p)) \<and>
    (\<exists>n out'. dcs_server_encode r out = (Ok n, out') \<and> drop n out' = drop n out \<and>
      dcs_decode_server_to_client (take n out') sink = (Ok (case r of
          DcAck i m \<Rightarrow> DcsS_ConnectAck (RoutingCallsign_callsign (ri_callsign i)) (ri_module i) m
        | DcNak i slot \<Rightarrow> DcsS_ConnectNak (RoutingCallsign_callsign (ri_callsign i)) (ri_module i) slot
        | DcPollReply c d \<Rightarrow> DcsS_PollEcho c d
        | DcFwdVoice h s q f e \<Rightarrow>
            if e then DcsS_Voice h s (sequence_index q OR 0x40) (f\<lparr>slow_data := [0x55, 0x55, 0x55]\<rparr>) True
            else DcsS_Voice h s (sequence_index q) f (slow_data f = [0x55, 0x55, 0x55])), sink @ dcs_server_remarks r))"
proof
  have same: "slow_data_update (\<lambda>_. slow_data f) f = f" for f :: VoiceFrame by simp
  note reads = dcs_voice_seq_def dcs_voice_slow_def dcs_voice_ends_def DCS_VOICE_EOT_MARKER_def
  have "length (dcs_client_wire p) \<le> length out"
    using assms(1,3) by (cases p) (simp_all add: dcs_wire_lens)
  then have "\<exists>n out'. dcs_client_encode p out = (Ok n, out') \<and> drop n out' = drop n out \<and>
      dcs_decode_client_to_server (take n out') sink = (Ok (dcs_client_received p), sink @ dcs_client_remarks p)"
    using dcs_up.encode_fits [OF assms(1)] dcs_up.dec_wire [OF assms(1)] by simp
  then show "\<exists>n out'. dcs_client_encode p out = (Ok n, out') \<and> drop n out' = drop n out \<and>
      dcs_decode_client_to_server (take n out') sink = (Ok (case p of
          DcLink i m rf g \<Rightarrow> DcsC_Link (RoutingCallsign_callsign (ri_callsign i)) (ri_module i) m (DcsReflector_callsign rf) GT_Repeater
        | DcUnlink i rf \<Rightarrow> DcsC_Unlink (RoutingCallsign_callsign (ri_callsign i)) (ri_module i) (DcsReflector_callsign rf)
        | DcPoll c rf \<Rightarrow> DcsC_Poll (RoutingCallsign_callsign c) (DcsReflector_callsign rf)
        | DcVoice h s q f e \<Rightarrow>
            if e then DcsC_Voice h s (sequence_index q OR 0x40) (f\<lparr>slow_data := [0x55, 0x55, 0x55]\<rparr>) True
            else DcsC_Voice h s (sequence_index q) f (slow_data f = [0x55, 0x55, 0x55])), sink @ dcs_client_remarks p)"
    by (cases p) (auto simp: reads same)
  have "length (dcs_server_wire r) \<le> length out"
    using assms(2,3) by (cases r) (simp_all add: dcs_wire_lens)
  then have "\<exists>n out'. dcs_server_encode r out = (Ok n, out') \<and> drop n out' = drop n out \<and>
      dcs_decode_server_to_client (take n out') sink = (Ok (dcs_server_received r), sink @ dcs_server_remarks r)"
    using dcs_down.encode_fits [OF assms(2)] dcs_down.dec_wire [OF assms(2)] by simp
  then show "\<exists>n out'. dcs_server_encode r out = (Ok n, out') \<and> drop n out' = drop n out \<and>
      dcs_decode_server_to_client (take n out') sink = (Ok (case r of
          DcAck i m \<Rightarrow> DcsS_ConnectAck (RoutingCallsign_callsign (ri_callsign i)) (ri_module i) m
        | DcNak i slot \<Rightarrow> DcsS_ConnectNak (RoutingCallsign_callsign (ri_callsign i)) (ri_module i) slot
        | DcPollReply c d \<Rightarrow> DcsS_PollEcho c d
        | DcFwdVoice h s q f e \<Rightarrow>
            if e then DcsS_Voice h s (sequence_index q OR 0x40) (f\<lparr>slow_data := [0x55, 0x55, 0x55]\<rparr>) True
            else DcsS_Voice h s (sequence_index q) f (slow_data f = [0x55, 0x55, 0x55])), sink @ dcs_server_remarks r)"
    by (cases r) (auto simp: reads same)
qed

text \<open>A frame in the middle of a stream whose slow data happens to be the sentinel.\<close>

definition sample_dcs_voice :: dcs_client_tx where
  "sample_dcs_voice =
     DcVoice \<lparr>dh_flags = \<lparr>flag1 = 0x40, flag2 = 0, flag3 = 0\<rparr>, rpt2 = CQCQCQ, rpt1 = CQCQCQ, ur_call = CQCQCQ,
              my_call = CQCQCQ, my_suffix = Suffix [0x20, 0x20, 0x20, 0x20]\<rparr>
       (StreamId 0x1234) (FrameSequence 3) \<lparr>ambe = AMBE_SILENCE, slow_data = [0x55, 0x55, 0x55]\<rparr> False"

theorem dcs_link_faithful_witness:
  "(\<exists>n out' h. dcs_client_encode sample_dcs_voice (replicate 519 7) = (Ok n, out') \<and>
     drop n out' = drop n (replicate 519 7) \<and>
     dcs_decode_client_to_server (take n out') [] =
       (Ok (DcsC_Voice h (StreamId 0x1234) 3 \<lparr>ambe = AMBE_SILENCE, slow_data = [0x55, 0x55, 0x55]\<rparr> True),
        [HeaderFlagsNonZero PK_Dcs 0x40 0 0])) \<and>
   (\<exists>n out'. dcs_server_encode (DcPollReply CQCQCQ CQCQCQ) (replicate 519 7) = (Ok n, out') \<and>
     drop n out' = drop n (replicate 519 7) \<and>
     dcs_decode_server_to_client (take n out') [] = (Ok (DcsS_PollEcho CQCQCQ CQCQCQ), []))"
proof -
  have wf: "dcs_client_wf sample_dcs_voice" "dcs_server_wf (DcPollReply CQCQCQ CQCQCQ)"
      "519 \<le> length (replicate 519 (7::u8))"
    by (simp_all add: sample_dcs_voice_def dcs_voice_wf_def DstarHeader_wf_def DstarCallsign_wf_def Suffix_wf_def
        StreamId_wf_def FrameSequence_wf_def VoiceFrame_wf_def CQCQCQ_def DstarCallsign_from_wire_bytes_def)
  have rmk: "dcs_client_remarks sample_dcs_voice = [HeaderFlagsNonZero PK_Dcs 0x40 0 0]"
    by (simp add: sample_dcs_voice_def dcs_voice_remarks_def HeaderFlags_NONE_def)
  show ?thesis
    using dcs_link_faithful [OF wf, of "[]"] by (simp add: rmk) (auto simp: sample_dcs_voice_def)
qed

end
