(* ===== verification/Dstar_Session.thy ===== *)
theory Dstar_Session
  imports Dstar_Dplus Dstar_Dextra Dstar_Dcs "HOL-Library.Multiset"
begin

text \<open>
  What every sans-I/O session of \<open>dstar-gateway-core/src/session/\<close> keeps: the outbox
  (\<open>outbox.rs\<close>), a \<open>BTreeMap\<close> from release instants to FIFO queues, and the timer wheel
  (\<open>timer_wheel.rs\<close>) with its four named deadlines. The map is a list of its entries in key
  order. The outbox is shown to refine a priority queue that is first-in first-out among equal
  deadlines; the contract is the locale \<open>delay_queue\<close>.
\<close>

section \<open>Clock arithmetic\<close>

text \<open>An \<open>Instant\<close> of a 64-bit Unix platform holds signed 64-bit seconds and nanoseconds below
  \<open>10^9\<close>; \<open>checked_add\<close> fails beyond that range.\<close>

definition instant_max :: instant where
  "instant_max = (2 ^ 63 - 1) * 1000000000 + 999999999"

definition checked_add :: "instant \<Rightarrow> duration \<Rightarrow> instant option" where
  "checked_add now d = (if now + d \<le> instant_max then Some (now + d) else None)"

definition saturating_duration_since :: "instant \<Rightarrow> instant \<Rightarrow> duration" where
  "saturating_duration_since now earlier = now - earlier"

section \<open>Outbox\<close>

record OutboundPacket =
  op_dst :: SocketAddr
  op_payload :: bytes
  op_not_before :: instant

type_synonym Outbox = "(instant \<times> OutboundPacket list) list"

definition Outbox_new :: Outbox where
  "Outbox_new = []"

text \<open>\<open>queue.entry(k).or_default().push_back(p)\<close>\<close>

fun Outbox_push :: "instant \<Rightarrow> OutboundPacket \<Rightarrow> Outbox \<Rightarrow> Outbox" where
  "Outbox_push k p [] = [(k, [p])]"
| "Outbox_push k p ((k', ps) # q) =
     (if k < k' then (k, [p]) # (k', ps) # q
      else if k = k' then (k', ps @ [p]) # q
      else (k', ps) # Outbox_push k p q)"

definition Outbox_enqueue :: "OutboundPacket \<Rightarrow> Outbox \<Rightarrow> Outbox" where
  "Outbox_enqueue p q = Outbox_push (op_not_before p) p q"

definition Outbox_pop_ready :: "instant \<Rightarrow> Outbox \<Rightarrow> OutboundPacket option \<times> Outbox" where
  "Outbox_pop_ready now q =
     (case q of
        [] \<Rightarrow> (None, q)
      | (k, ps) # rest \<Rightarrow>
          (if k > now then (None, q)
           else case ps of
                  [] \<Rightarrow> (None, rest)
                | p # ps' \<Rightarrow> (Some p, if ps' = [] then rest else (k, ps') # rest)))"

definition Outbox_peek_next_deadline :: "Outbox \<Rightarrow> instant option" where
  "Outbox_peek_next_deadline q = map_option fst (get 0 q)"

text \<open>The map invariant: keys ascend, no queue is empty, every packet sits under its own instant.\<close>

definition outbox_wf :: "Outbox \<Rightarrow> bool" where
  "outbox_wf q \<longleftrightarrow> sorted_wrt (<) (map fst q) \<and>
     list_all (\<lambda>(k, ps). ps \<noteq> [] \<and> list_all (\<lambda>p. op_not_before p = k) ps) q"

text \<open>The packets in the order they will leave.\<close>

definition waiting :: "Outbox \<Rightarrow> OutboundPacket list" where
  "waiting q = concat (map snd q)"

section \<open>The contract of a delay queue\<close>

text \<open>Filling a queue, and draining it at an instant: pop until nothing is ready, as the shells do.\<close>

definition enq_all :: "('p \<Rightarrow> 'q \<Rightarrow> 'q) \<Rightarrow> 'p list \<Rightarrow> 'q \<Rightarrow> 'q" where
  "enq_all enq ps q = foldl (\<lambda>q p. enq p q) q ps"

fun pop_all :: "(instant \<Rightarrow> 'q \<Rightarrow> 'p option \<times> 'q) \<Rightarrow> nat \<Rightarrow> instant \<Rightarrow> 'q \<Rightarrow> 'p list \<times> 'q" where
  "pop_all pop 0 now q = ([], q)"
| "pop_all pop (Suc n) now q =
     (case pop now q of
        (None, q') \<Rightarrow> ([], q')
      | (Some p, q') \<Rightarrow> (case pop_all pop n now q' of (ps, q'') \<Rightarrow> (p # ps, q'')))"

text \<open>The specification: packets kept by release instant, arrivals behind their equals.\<close>

datatype 'p queue_op = Enqueue 'p | PopReady instant

fun spec_step :: "('p \<Rightarrow> instant) \<Rightarrow> 'p queue_op \<Rightarrow> 'p list \<Rightarrow> 'p option \<times> 'p list" where
  "spec_step due (Enqueue p) xs =
     (None, takeWhile (\<lambda>x. due x \<le> due p) xs @ p # dropWhile (\<lambda>x. due x \<le> due p) xs)"
| "spec_step due (PopReady now) [] = (None, [])"
| "spec_step due (PopReady now) (p # ps) = (if due p \<le> now then (Some p, ps) else (None, p # ps))"

fun queue_step :: "('p \<Rightarrow> 'q \<Rightarrow> 'q) \<Rightarrow> (instant \<Rightarrow> 'q \<Rightarrow> 'p option \<times> 'q) \<Rightarrow> 'p queue_op \<Rightarrow> 'q \<Rightarrow> 'p option \<times> 'q" where
  "queue_step enq pop (Enqueue p) q = (None, enq p q)"
| "queue_step enq pop (PopReady now) q = pop now q"

fun run_steps :: "('op \<Rightarrow> 's \<Rightarrow> 'o \<times> 's) \<Rightarrow> 'op list \<Rightarrow> 's \<Rightarrow> 'o list \<times> 's" where
  "run_steps f [] s = ([], s)"
| "run_steps f (x # xs) s = (case f x s of (y, s') \<Rightarrow> (case run_steps f xs s' of (ys, s'') \<Rightarrow> (y # ys, s'')))"

locale delay_queue =
  fixes inv :: "'q \<Rightarrow> bool"
    and contents :: "'q \<Rightarrow> 'p list"
    and due :: "'p \<Rightarrow> instant"
    and new :: 'q
    and enq :: "'p \<Rightarrow> 'q \<Rightarrow> 'q"
    and pop :: "instant \<Rightarrow> 'q \<Rightarrow> 'p option \<times> 'q"
    and peek :: "'q \<Rightarrow> instant option"
  assumes new_inv: "inv new" and new_contents: "contents new = []"
    and enq_inv: "inv q \<Longrightarrow> inv (enq p q)"
    and pop_inv: "inv q \<Longrightarrow> inv (snd (pop now q))"
    and contents_sorted: "inv q \<Longrightarrow> sorted (map due (contents q))"
    and enq_contents: "inv q \<Longrightarrow> contents (enq p q) =
      takeWhile (\<lambda>x. due x \<le> due p) (contents q) @ p # dropWhile (\<lambda>x. due x \<le> due p) (contents q)"
    and pop_contents: "inv q \<Longrightarrow> pop now q = (r, q') \<Longrightarrow>
      (case contents q of
         [] \<Rightarrow> r = None \<and> contents q' = []
       | p # ps \<Rightarrow> if due p \<le> now then r = Some p \<and> contents q' = ps
                   else r = None \<and> contents q' = p # ps)"
    and peek_contents: "inv q \<Longrightarrow> peek q = map_option due (get 0 (contents q))"
begin

lemma stable_insert:
  "sorted (map due xs) \<Longrightarrow> sort_key due xs = xs \<Longrightarrow>
     sort_key due (xs @ [p]) = takeWhile (\<lambda>x. due x \<le> due p) xs @ p # dropWhile (\<lambda>x. due x \<le> due p) xs"
proof (induction xs)
  case (Cons x xs)
  then have s: "sorted (map due xs)" "sort_key due xs = xs" by (auto simp: sort_key_id_if_sorted)
  let ?ys = "takeWhile (\<lambda>x. due x \<le> due p) xs @ p # dropWhile (\<lambda>x. due x \<le> due p) xs"
  have IH: "sort_key due (xs @ [p]) = ?ys" using Cons.IH s by blast
  have head: "due x \<le> due y" if "y \<in> set xs" for y using Cons.prems(1) that by auto
  show ?case
  proof (cases "due x \<le> due p")
    case True
    have "insort_key due x ?ys = x # ?ys"
      by (rule insort_is_Cons) (use head True in \<open>auto dest: set_takeWhileD set_dropWhileD\<close>)
    then show ?thesis using IH True by simp
  next
    case False
    then have tw: "takeWhile (\<lambda>x. due x \<le> due p) xs = []" "dropWhile (\<lambda>x. due x \<le> due p) xs = xs"
      using head by (cases xs; force)+
    have "insort_key due x xs = x # xs" by (rule insort_is_Cons) (use head in auto)
    then show ?thesis using IH False by (simp add: tw)
  qed
qed simp

lemma enq_all_inv: "inv (enq_all enq ps new)"
proof -
  have "inv q \<Longrightarrow> inv (foldl (\<lambda>q p. enq p q) q ps)" for q
    by (induction ps arbitrary: q) (auto intro: enq_inv)
  then show ?thesis by (simp add: enq_all_def new_inv)
qed

lemma enq_all_contents: "contents (enq_all enq ps new) = sort_key due ps"
proof (induction ps rule: rev_induct)
  case (snoc p ps)
  have s: "sorted (map due (sort_key due ps))" by simp
  have "contents (enq_all enq (ps @ [p]) new) = contents (enq p (enq_all enq ps new))" by (simp add: enq_all_def)
  also have "\<dots> = sort_key due (sort_key due ps @ [p])"
    using enq_contents [OF enq_all_inv] snoc.IH stable_insert [OF s] by (simp add: sort_key_id_if_sorted)
  also have "\<dots> = sort_key due (ps @ [p])"
  proof (rule properties_for_sort_key [symmetric])
    fix k
    have "filter (\<lambda>x. due k = due x) (sort_key due xs) = filter (\<lambda>x. due k = due x) xs" for xs
      using sort_key_stable [of due "due k" xs] by (simp add: eq_commute [of "due k"])
    then show "filter (\<lambda>x. due k = due x) (sort_key due (sort_key due ps @ [p])) = filter (\<lambda>x. due k = due x) (ps @ [p])"
      by simp
  qed simp_all
  finally show ?case .
qed (simp add: enq_all_def new_contents)

text \<open>Draining returns exactly the packets that are due, earliest first and first come first
  served among equals, and leaves the others.\<close>

lemma pop_all_contents:
  assumes "inv q" "pop_all pop n now q = (out, q')" "length (contents q) \<le> n"
  shows "out = filter (\<lambda>p. due p \<le> now) (contents q)" "contents q' = filter (\<lambda>p. \<not> due p \<le> now) (contents q)" "inv q'"
proof -
  have "out = filter (\<lambda>p. due p \<le> now) (contents q) \<and> contents q' = filter (\<lambda>p. \<not> due p \<le> now) (contents q) \<and> inv q'"
    using assms
  proof (induction n arbitrary: q out q')
    case (Suc n)
    obtain r q1 where pop: "pop now q = (r, q1)" by (cases "pop now q")
    note step = pop_contents [OF Suc.prems(1) pop] and inv1 = pop_inv [OF Suc.prems(1), of now, unfolded pop snd_conv]
    show ?case
    proof (cases "contents q")
      case (Cons p ps)
      show ?thesis
      proof (cases "due p \<le> now")
        case True
        then have r: "r = Some p" "contents q1 = ps" using step Cons by simp_all
        obtain out1 q2 where d: "pop_all pop n now q1 = (out1, q2)" by (cases "pop_all pop n now q1")
        have "out1 = filter (\<lambda>p. due p \<le> now) ps \<and> contents q2 = filter (\<lambda>p. \<not> due p \<le> now) ps \<and> inv q2"
          using Suc.IH [OF inv1 d] Suc.prems(3) r Cons by simp
        then show ?thesis using Suc.prems(2) pop r d Cons True by auto
      next
        case False
        have "\<not> due x \<le> now" if "x \<in> set (p # ps)" for x
          using contents_sorted [OF Suc.prems(1)] Cons False that by fastforce
        then show ?thesis
          using step Suc.prems(2) pop Cons False inv1 by (auto simp: filter_empty_conv)
      qed
    qed (use step Suc.prems(2) pop inv1 in auto)
  qed auto
  then show "out = filter (\<lambda>p. due p \<le> now) (contents q)" "contents q' = filter (\<lambda>p. \<not> due p \<le> now) (contents q)" "inv q'"
    by simp_all
qed

lemma enq_pop_all:
  assumes "pop_all pop n now (enq_all enq ps new) = (out, q')" "length ps \<le> n"
  shows "out = sort_key due (filter (\<lambda>p. due p \<le> now) ps)"
    "contents q' = sort_key due (filter (\<lambda>p. \<not> due p \<le> now) ps)"
  using pop_all_contents [OF enq_all_inv assms(1)] assms(2) by (simp_all add: enq_all_contents filter_sort)

lemma step_refines:
  assumes "inv q"
  shows "queue_step enq pop op q = (r, q') \<Longrightarrow> inv q' \<and> spec_step due op (contents q) = (r, contents q')"
proof (cases op)
  case (PopReady now)
  show "queue_step enq pop op q = (r, q') \<Longrightarrow> inv q' \<and> spec_step due op (contents q) = (r, contents q')"
    using pop_contents [OF assms, of now r q'] pop_inv [OF assms, of now] PopReady
    by (cases "contents q") (auto split: if_splits)
qed (use assms in \<open>auto simp: enq_inv enq_contents\<close>)

lemma run_refines:
  "inv q \<Longrightarrow> run_steps (queue_step enq pop) ops q = (rs, q') \<Longrightarrow>
     inv q' \<and> run_steps (spec_step due) ops (contents q) = (rs, contents q')"
proof (induction ops arbitrary: q rs q')
  case (Cons op ops)
  obtain r q1 where s: "queue_step enq pop op q = (r, q1)" by (cases "queue_step enq pop op q")
  obtain rs1 q2 where r: "run_steps (queue_step enq pop) ops q1 = (rs1, q2)"
    by (cases "run_steps (queue_step enq pop) ops q1")
  show ?case
    using step_refines [OF Cons.prems(1) s] Cons.IH [of q1 rs1 q2] Cons.prems(2) s r by auto
qed auto

lemma peek_next: "inv q \<Longrightarrow> peek q = Some t \<Longrightarrow> p \<in> set (contents q) \<Longrightarrow> t \<le> due p"
  using contents_sorted [of q] peek_contents [of q] by (cases "contents q") auto

end

section \<open>The outbox is a delay queue\<close>

lemma outbox_wf_Nil [simp]: "outbox_wf []"
  by (simp add: outbox_wf_def)

lemma outbox_wf_Cons:
  "outbox_wf ((k, ps) # q) \<longleftrightarrow>
     ps \<noteq> [] \<and> list_all (\<lambda>p. op_not_before p = k) ps \<and> list_all (\<lambda>(k', _). k < k') q \<and> outbox_wf q"
  by (auto simp: outbox_wf_def list_all_iff)

lemma waiting_simps [simp]: "waiting [] = []" "waiting ((k, ps) # q) = ps @ waiting q"
  by (simp_all add: waiting_def)

lemma waiting_later: "outbox_wf q \<Longrightarrow> list_all (\<lambda>(k', _). k < k') q \<Longrightarrow> p \<in> set (waiting q) \<Longrightarrow> k < op_not_before p"
  by (induction q) (auto simp: outbox_wf_Cons list_all_iff)

lemma Outbox_push_keys:
  "list_all (\<lambda>(k', _). j < k') q \<Longrightarrow> j < k \<Longrightarrow> list_all (\<lambda>(k', _). j < k') (Outbox_push k p q)"
  by (induction k p q rule: Outbox_push.induct) auto

lemma Outbox_push_wf: "outbox_wf q \<Longrightarrow> op_not_before p = k \<Longrightarrow> outbox_wf (Outbox_push k p q)"
proof (induction k p q rule: Outbox_push.induct)
  case (2 k p k' ps q)
  then show ?case
    using Outbox_push_keys [of k' q k p]
    by (auto simp: outbox_wf_Cons list_all_iff)
qed (simp add: outbox_wf_def)

lemma takeWhile_same: "list_all P xs \<Longrightarrow> takeWhile P (xs @ ys) = xs @ takeWhile P ys"
  by (induction xs) auto

lemma dropWhile_same: "list_all P xs \<Longrightarrow> dropWhile P (xs @ ys) = dropWhile P ys"
  by (induction xs) auto

lemma takeWhile_none: "(\<And>y. y \<in> set ys \<Longrightarrow> \<not> P y) \<Longrightarrow> takeWhile P ys = []"
  by (cases ys) auto

lemma dropWhile_none: "(\<And>y. y \<in> set ys \<Longrightarrow> \<not> P y) \<Longrightarrow> dropWhile P ys = ys"
  by (cases ys) auto

lemma Outbox_push_waiting:
  "outbox_wf q \<Longrightarrow> op_not_before p = k \<Longrightarrow>
     waiting (Outbox_push k p q) =
       takeWhile (\<lambda>x. op_not_before x \<le> k) (waiting q) @ p # dropWhile (\<lambda>x. op_not_before x \<le> k) (waiting q)"
proof (induction k p q rule: Outbox_push.induct)
  case (2 k p k' ps q)
  have wf: "ps \<noteq> []" "list_all (\<lambda>p. op_not_before p = k') ps" "outbox_wf q" "list_all (\<lambda>(j, _). k' < j) q"
    using 2(2) by (simp_all add: outbox_wf_Cons)
  have later: "k' < op_not_before y" if "y \<in> set (waiting q)" for y
    using waiting_later [OF wf(3,4) that] .
  consider "k < k'" | "k = k'" | "k' < k" by linarith
  then show ?case
  proof cases
    case 1
    then have "\<not> op_not_before y \<le> k" if "y \<in> set (ps @ waiting q)" for y
      using that later [of y] wf(2) by (auto simp: list_all_iff)
    then show ?thesis
      using 1 by (simp add: takeWhile_none dropWhile_none del: set_append flip: append_assoc)
  next
    case 2
    have "list_all (\<lambda>x. op_not_before x \<le> k) ps" using wf(2) 2 by (simp add: list_all_iff)
    moreover have "\<not> op_not_before y \<le> k" if "y \<in> set (waiting q)" for y using later [OF that] 2 by simp
    ultimately show ?thesis
      using 2 by (simp add: takeWhile_same dropWhile_same takeWhile_none dropWhile_none)
  next
    case 3
    have "list_all (\<lambda>x. op_not_before x \<le> k) ps" using wf(2) 3 by (auto simp: list_all_iff)
    then show ?thesis
      using 3 2(1) 2(3) wf(3) by (simp add: takeWhile_same dropWhile_same)
  qed
qed simp

lemma Outbox_pop_ready_waiting:
  assumes "outbox_wf q" "Outbox_pop_ready now q = (r, q')"
  shows "outbox_wf q' \<and>
    (case waiting q of
       [] \<Rightarrow> r = None \<and> waiting q' = []
     | p # ps \<Rightarrow> if op_not_before p \<le> now then r = Some p \<and> waiting q' = ps
                 else r = None \<and> waiting q' = p # ps)"
proof (cases q)
  case (Cons e rest)
  obtain k ps where e: "e = (k, ps)" by (cases e)
  obtain p ps' where ps: "ps = p # ps'" using assms(1) Cons e by (cases ps) (auto simp: outbox_wf_Cons)
  have "op_not_before p = k" using assms(1) Cons e ps by (simp add: outbox_wf_Cons)
  then show ?thesis
    using assms Cons e ps by (auto simp: Outbox_pop_ready_def outbox_wf_Cons split: if_splits)
qed (use assms in \<open>simp add: Outbox_pop_ready_def\<close>)

lemma waiting_sorted: "outbox_wf q \<Longrightarrow> sorted (map op_not_before (waiting q))"
proof (induction q)
  case (Cons e q)
  obtain k ps where e: "e = (k, ps)" by (cases e)
  have "list_all (\<lambda>p. op_not_before p = k) ps" "\<forall>p\<in>set (waiting q). k < op_not_before p"
    using Cons.prems e waiting_later [of q k] by (auto simp: outbox_wf_Cons)
  moreover have "sorted (map op_not_before ps)"
    by (rule sorted_wrt_mono_rel [of _ "\<lambda>_ _. True", THEN iffD1 [OF sorted_map [symmetric]]])
       (use Cons.prems e in \<open>auto simp: outbox_wf_Cons list_all_iff\<close>)
  ultimately show ?case
    using Cons e by (auto simp: sorted_append outbox_wf_Cons list_all_iff less_imp_le)
qed simp

interpretation outbox: delay_queue outbox_wf waiting op_not_before Outbox_new Outbox_enqueue Outbox_pop_ready
  Outbox_peek_next_deadline
proof
  show "outbox_wf Outbox_new" "waiting Outbox_new = []" by (simp_all add: Outbox_new_def)
next
  fix q p assume wf: "outbox_wf q"
  show "outbox_wf (Outbox_enqueue p q)"
    unfolding Outbox_enqueue_def by (rule Outbox_push_wf [OF wf refl])
  show "waiting (Outbox_enqueue p q) =
      takeWhile (\<lambda>x. op_not_before x \<le> op_not_before p) (waiting q) @ p #
      dropWhile (\<lambda>x. op_not_before x \<le> op_not_before p) (waiting q)"
    unfolding Outbox_enqueue_def by (rule Outbox_push_waiting [OF wf refl])
  show "sorted (map op_not_before (waiting q))" using wf by (rule waiting_sorted)
  show "Outbox_peek_next_deadline q = map_option op_not_before (get 0 (waiting q))"
  proof (cases q)
    case (Cons e rest)
    then obtain k p ps where "q = (k, p # ps) # rest" "op_not_before p = k"
      using wf by (cases e; cases "snd e") (auto simp: outbox_wf_Cons)
    then show ?thesis by (simp add: Outbox_peek_next_deadline_def)
  qed (simp add: Outbox_peek_next_deadline_def)
next
  fix q now assume "outbox_wf q"
  then show "outbox_wf (snd (Outbox_pop_ready now q))"
    using Outbox_pop_ready_waiting [of q now "fst (Outbox_pop_ready now q)" "snd (Outbox_pop_ready now q)"] by simp
next
  fix q now r q' assume "outbox_wf q" "Outbox_pop_ready now q = (r, q')"
  then show "case waiting q of
      [] \<Rightarrow> r = None \<and> waiting q' = []
    | p # ps \<Rightarrow> if op_not_before p \<le> now then r = Some p \<and> waiting q' = ps else r = None \<and> waiting q' = p # ps"
    using Outbox_pop_ready_waiting [of q now r q'] by simp
qed

text \<open>C23. The outbox implements a delay queue: along every sequence of enqueue and pop operations
  it returns exactly what the specification returns (never a packet before its instant, the
  earliest instant first, first come first served among equals, nothing lost or repeated), its
  entries read in key order are the specification's state at the end, and the next deadline it
  reports is the instant of the first packet there.\<close>

theorem outbox_refines_delay_queue:
  "run_steps (queue_step Outbox_enqueue Outbox_pop_ready) ops Outbox_new = (rs, q) \<Longrightarrow>
     run_steps (spec_step op_not_before) ops [] = (rs, waiting q) \<and>
     Outbox_peek_next_deadline q = map_option op_not_before (get 0 (waiting q))"
  using outbox.run_refines [OF outbox.new_inv] outbox.peek_contents by (simp add: outbox.new_contents)

definition sample_packet :: "u8 \<Rightarrow> instant \<Rightarrow> OutboundPacket" where
  "sample_packet b t = \<lparr>op_dst = SocketAddr (IpV4 127 0 0 1) 30001, op_payload = [b], op_not_before = t\<rparr>"

theorem outbox_refines_delay_queue_witness:
  "\<exists>q. run_steps (queue_step Outbox_enqueue Outbox_pop_ready)
       [Enqueue (sample_packet 1 9), Enqueue (sample_packet 2 5), Enqueue (sample_packet 3 5), PopReady 6, PopReady 6, PopReady 6]
       Outbox_new = ([None, None, None, Some (sample_packet 2 5), Some (sample_packet 3 5), None], q) \<and>
     waiting q = [sample_packet 1 9] \<and> Outbox_peek_next_deadline q = Some 9"
proof -
  let ?ops = "[Enqueue (sample_packet 1 9), Enqueue (sample_packet 2 5), Enqueue (sample_packet 3 5),
    PopReady 6, PopReady 6, PopReady 6]"
  have nb: "op_not_before (sample_packet b t) = t" for b t by (simp add: sample_packet_def)
  obtain rs q where run: "run_steps (queue_step Outbox_enqueue Outbox_pop_ready) ?ops Outbox_new = (rs, q)"
    by (cases "run_steps (queue_step Outbox_enqueue Outbox_pop_ready) ?ops Outbox_new")
  have "run_steps (spec_step op_not_before) ?ops [] =
      ([None, None, None, Some (sample_packet 2 5), Some (sample_packet 3 5), None], [sample_packet 1 9])"
    by (simp add: nb)
  then have q: "rs = [None, None, None, Some (sample_packet 2 5), Some (sample_packet 3 5), None]"
      "waiting q = [sample_packet 1 9]" "Outbox_peek_next_deadline q = map_option op_not_before (get 0 (waiting q))"
    using outbox_refines_delay_queue [OF run] by simp_all
  then have "Outbox_peek_next_deadline q = Some 9" by (simp add: nb)
  with run q(1,2) show ?thesis by blast
qed

section \<open>Timer wheel\<close>

datatype TimerId = Keepalive | KeepaliveInactivity | DisconnectDeadline | VoiceInactivity

record TimerWheel =
  tw_keepalive :: "instant option"
  tw_keepalive_inactivity :: "instant option"
  tw_disconnect_deadline :: "instant option"
  tw_voice_inactivity :: "instant option"

definition TimerWheel_new :: TimerWheel where
  "TimerWheel_new = \<lparr>tw_keepalive = None, tw_keepalive_inactivity = None, tw_disconnect_deadline = None,
     tw_voice_inactivity = None\<rparr>"

fun TimerWheel_timer :: "TimerWheel \<Rightarrow> TimerId \<Rightarrow> instant option" where
  "TimerWheel_timer w Keepalive = tw_keepalive w"
| "TimerWheel_timer w KeepaliveInactivity = tw_keepalive_inactivity w"
| "TimerWheel_timer w DisconnectDeadline = tw_disconnect_deadline w"
| "TimerWheel_timer w VoiceInactivity = tw_voice_inactivity w"

text \<open>A store through \<open>timer_mut\<close>.\<close>

fun TimerWheel_store :: "TimerId \<Rightarrow> instant option \<Rightarrow> TimerWheel \<Rightarrow> TimerWheel" where
  "TimerWheel_store Keepalive d w = w\<lparr>tw_keepalive := d\<rparr>"
| "TimerWheel_store KeepaliveInactivity d w = w\<lparr>tw_keepalive_inactivity := d\<rparr>"
| "TimerWheel_store DisconnectDeadline d w = w\<lparr>tw_disconnect_deadline := d\<rparr>"
| "TimerWheel_store VoiceInactivity d w = w\<lparr>tw_voice_inactivity := d\<rparr>"

definition TimerWheel_set :: "TimerId \<Rightarrow> instant \<Rightarrow> TimerWheel \<Rightarrow> TimerWheel" where
  "TimerWheel_set t deadline w = TimerWheel_store t (Some deadline) w"

definition TimerWheel_clear :: "TimerId \<Rightarrow> TimerWheel \<Rightarrow> TimerWheel" where
  "TimerWheel_clear t w = TimerWheel_store t None w"

definition TimerWheel_is_expired :: "TimerWheel \<Rightarrow> TimerId \<Rightarrow> instant \<Rightarrow> bool" where
  "TimerWheel_is_expired w t now = is_some_and (TimerWheel_timer w t) (\<lambda>deadline. deadline \<le> now)"

definition TimerWheel_next_deadline :: "TimerWheel \<Rightarrow> instant option" where
  "TimerWheel_next_deadline w =
     (case List.map_filter id [tw_keepalive w, tw_keepalive_inactivity w, tw_disconnect_deadline w, tw_voice_inactivity w] of
        [] \<Rightarrow> None
      | d # ds \<Rightarrow> Some (fold min ds d))"

lemma timer_store [simp]:
  "TimerWheel_timer (TimerWheel_store t d w) t' = (if t' = t then d else TimerWheel_timer w t')"
  by (cases t; cases t') simp_all

lemma timer_set_clear [simp]:
  "TimerWheel_timer (TimerWheel_set t d w) t' = (if t' = t then Some d else TimerWheel_timer w t')"
  "TimerWheel_timer (TimerWheel_clear t w) t' = (if t' = t then None else TimerWheel_timer w t')"
  by (simp_all add: TimerWheel_set_def TimerWheel_clear_def)

lemma fold_min_le: "fold min ds d \<le> (d::nat)"
proof (induction ds arbitrary: d)
  case (Cons y ds)
  show ?case using Cons.IH [of "min y d"] by simp
qed simp

lemma fold_min_le_set: "x \<in> set ds \<Longrightarrow> fold min ds d \<le> (x::nat)"
proof (induction ds arbitrary: d)
  case (Cons y ds)
  then show ?case using fold_min_le [of ds "min y d"] by auto
qed simp

text \<open>The next deadline is the earliest armed one.\<close>

lemma next_deadline_None: "TimerWheel_next_deadline w = None \<longleftrightarrow> (\<forall>t. TimerWheel_timer w t = None)"
proof -
  have "(\<forall>t. TimerWheel_timer w t = None) \<longleftrightarrow>
      tw_keepalive w = None \<and> tw_keepalive_inactivity w = None \<and> tw_disconnect_deadline w = None \<and> tw_voice_inactivity w = None"
    by (metis TimerId.exhaust TimerWheel_timer.simps)
  then show ?thesis
    by (auto simp: TimerWheel_next_deadline_def map_filter_simps split: option.splits)
qed

lemma next_deadline_le: "TimerWheel_timer w t = Some d \<Longrightarrow> \<exists>m\<le>d. TimerWheel_next_deadline w = Some m"
proof -
  let ?l = "List.map_filter id [tw_keepalive w, tw_keepalive_inactivity w, tw_disconnect_deadline w, tw_voice_inactivity w]"
  assume "TimerWheel_timer w t = Some d"
  then have "d \<in> set ?l" by (cases t) (auto simp: map_filter_simps split: option.splits)
  then show ?thesis
    using fold_min_le fold_min_le_set by (cases ?l) (auto simp: TimerWheel_next_deadline_def)
qed

end
