(* ===== verification/Dstar_Client.thy ===== *)
theory Dstar_Client
  imports Dstar_Session
begin

text \<open>
  The client session core of \<open>dstar-gateway-core/src/session/client/core.rs\<close>: one state record,
  one function per method, explicit state passing. Every method that can fail returns its result
  and the state it leaves. The \<open>unreachable!()\<close> of \<open>dcs_reflector_callsign\<close> is the error
  value \<open>Error_Unreachable\<close>, so that its absence is something to prove. Logging is left out.
\<close>

section \<open>Errors\<close>

datatype ClientStateKind =
  CS_Configured | CS_Authenticated | CS_Connecting | CS_Connected | CS_Disconnecting | CS_Closed

datatype StateOperation =
    SO_AttachHostList | SO_Connect | SO_Disconnect | SO_SendHeader | SO_SendVoice | SO_SendEot | SO_Promote

datatype StateError =
    DeadlineOverflow
  | StreamAlreadyActive StreamId StreamId
  | SE_VoiceSeqOutOfRange u8
  | UnknownStreamId StreamId
  | WrongState StateOperation ClientStateKind ProtocolKind

datatype ProtocolError = PE_DPlus DPlusError | PE_DExtra DExtraError | PE_Dcs DcsError

datatype Error = Error_Type TypeError | Error_Protocol ProtocolError | Error_State StateError | Error_Unreachable

section \<open>Configuration, events and state\<close>

datatype ClientProtocol = CP_DPlus | CP_DExtra | CP_Dcs DcsReflector

definition ClientProtocol_kind :: "ClientProtocol \<Rightarrow> ProtocolKind" where
  "ClientProtocol_kind p = (case p of CP_DPlus \<Rightarrow> PK_DPlus | CP_DExtra \<Rightarrow> PK_DExtra | CP_Dcs _ \<Rightarrow> PK_Dcs)"

record SessionConfig =
  cfg_protocol :: ClientProtocol
  cfg_callsign :: RoutingCallsign
  cfg_local_module :: DstarModule
  cfg_reflector_module :: DstarModule
  cfg_peer :: SocketAddr

datatype DisconnectReason =
  ClockRange | Rejected | UnlinkAcked | DR_KeepaliveInactivity | DisconnectTimeout

datatype VoiceEndReason = VE_Eot | VE_Inactivity

datatype RawEvent =
    Raw_Connected SocketAddr
  | Raw_Disconnected DisconnectReason
  | Raw_PollEcho SocketAddr
  | Raw_VoiceStart StreamId DstarHeader
  | Raw_VoiceFrame StreamId u8 VoiceFrame
  | Raw_VoiceEnd StreamId VoiceEndReason

datatype Event =
    Ev_Connected SocketAddr
  | Ev_Disconnected DisconnectReason
  | Ev_PollEcho SocketAddr
  | Ev_VoiceStart StreamId DstarHeader diagnostics
  | Ev_VoiceFrame StreamId u8 VoiceFrame
  | Ev_VoiceEnd StreamId VoiceEndReason

datatype HostName = HostName (host_name: bytes)

record DPlusHost =
  host_callsign :: HostName
  host_address :: IpAddr

type_synonym HostList = "DPlusHost list"

record SessionCore =
  sc_kind :: ProtocolKind
  sc_callsign :: RoutingCallsign
  sc_local_module :: DstarModule
  sc_reflector_module :: DstarModule
  sc_protocol :: ClientProtocol
  sc_peer :: SocketAddr
  sc_state :: ClientStateKind
  sc_outbox :: Outbox
  sc_timers :: TimerWheel
  sc_current_tx :: "OutboundPacket option"
  sc_events :: "RawEvent list"
  sc_host_list :: "HostList option"
  sc_cached_tx_header :: "DstarHeader option"
  sc_active_rx_stream :: "StreamId option"
  sc_last_voice_activity_at :: "instant option"
  sc_diagnostics :: diagnostics

definition STREAM_TAKEOVER_THRESHOLD :: duration where "STREAM_TAKEOVER_THRESHOLD = from_millis 500"

definition SessionCore_new :: "SessionConfig \<Rightarrow> SessionCore" where
  "SessionCore_new config =
     \<lparr>sc_kind = ClientProtocol_kind (cfg_protocol config), sc_callsign = cfg_callsign config,
      sc_local_module = cfg_local_module config, sc_reflector_module = cfg_reflector_module config,
      sc_protocol = cfg_protocol config, sc_peer = cfg_peer config, sc_state = CS_Configured,
      sc_outbox = Outbox_new, sc_timers = TimerWheel_new, sc_current_tx = None, sc_events = [],
      sc_host_list = None, sc_cached_tx_header = None, sc_active_rx_stream = None,
      sc_last_voice_activity_at = None, sc_diagnostics = []\<rparr>"

section \<open>Internal helpers\<close>

text \<open>\<open>events.push_back\<close> and \<open>outbox.enqueue\<close> of a packet for the peer.\<close>

definition push_event :: "RawEvent \<Rightarrow> SessionCore \<Rightarrow> SessionCore" where
  "push_event e c = c\<lparr>sc_events := sc_events c @ [e]\<rparr>"

definition enqueue_packet :: "instant \<Rightarrow> bytes \<Rightarrow> SessionCore \<Rightarrow> SessionCore" where
  "enqueue_packet now payload c =
     c\<lparr>sc_outbox := Outbox_enqueue \<lparr>op_dst = sc_peer c, op_payload = payload, op_not_before = now\<rparr> (sc_outbox c)\<rparr>"

definition set_timer :: "TimerId \<Rightarrow> instant \<Rightarrow> SessionCore \<Rightarrow> SessionCore" where
  "set_timer t d c = c\<lparr>sc_timers := TimerWheel_set t d (sc_timers c)\<rparr>"

definition clear_timer :: "TimerId \<Rightarrow> SessionCore \<Rightarrow> SessionCore" where
  "clear_timer t c = c\<lparr>sc_timers := TimerWheel_clear t (sc_timers c)\<rparr>"

definition timer_deadline :: "instant \<Rightarrow> duration \<Rightarrow> instant" where
  "timer_deadline now d = (case checked_add now d of Some t \<Rightarrow> t | None \<Rightarrow> now)"

definition keepalive_interval :: "SessionCore \<Rightarrow> duration" where
  "keepalive_interval c = (case sc_kind c of
      PK_DPlus \<Rightarrow> DPLUS_KEEPALIVE_INTERVAL
    | PK_DExtra \<Rightarrow> DEXTRA_KEEPALIVE_INTERVAL
    | PK_Dcs \<Rightarrow> DCS_KEEPALIVE_INTERVAL)"

definition keepalive_inactivity_timeout :: "SessionCore \<Rightarrow> duration" where
  "keepalive_inactivity_timeout c = (case sc_kind c of
      PK_DPlus \<Rightarrow> DPLUS_KEEPALIVE_INACTIVITY_TIMEOUT
    | PK_DExtra \<Rightarrow> DEXTRA_KEEPALIVE_INACTIVITY_TIMEOUT
    | PK_Dcs \<Rightarrow> DCS_KEEPALIVE_INACTIVITY_TIMEOUT)"

definition voice_inactivity_timeout :: "SessionCore \<Rightarrow> duration" where
  "voice_inactivity_timeout c = (case sc_kind c of
      PK_DPlus \<Rightarrow> DPLUS_VOICE_INACTIVITY_TIMEOUT
    | PK_DExtra \<Rightarrow> DEXTRA_VOICE_INACTIVITY_TIMEOUT
    | PK_Dcs \<Rightarrow> DCS_VOICE_INACTIVITY_TIMEOUT)"

definition disconnect_timeout :: "SessionCore \<Rightarrow> duration" where
  "disconnect_timeout c = (case sc_kind c of
      PK_DPlus \<Rightarrow> DPLUS_DISCONNECT_TIMEOUT
    | PK_DExtra \<Rightarrow> DEXTRA_DISCONNECT_TIMEOUT
    | PK_Dcs \<Rightarrow> DCS_DISCONNECT_TIMEOUT)"

definition longest_span :: "SessionCore \<Rightarrow> duration" where
  "longest_span c =
     max (max (max (keepalive_interval c) (keepalive_inactivity_timeout c)) (voice_inactivity_timeout c))
         (disconnect_timeout c)"

definition validate_time :: "SessionCore \<Rightarrow> instant \<Rightarrow> Error + unit" where
  "validate_time c now =
     (case checked_add now (longest_span c) of
        None \<Rightarrow> Err (Error_State DeadlineOverflow)
      | Some _ \<Rightarrow> Ok ())"

definition arm_keepalive_inactivity :: "instant \<Rightarrow> SessionCore \<Rightarrow> SessionCore" where
  "arm_keepalive_inactivity now c =
     set_timer KeepaliveInactivity (timer_deadline now (keepalive_inactivity_timeout c)) c"

definition arm_voice_inactivity :: "instant \<Rightarrow> SessionCore \<Rightarrow> SessionCore" where
  "arm_voice_inactivity now c = set_timer VoiceInactivity (timer_deadline now (voice_inactivity_timeout c)) c"

definition arm_disconnect_deadline :: "instant \<Rightarrow> SessionCore \<Rightarrow> SessionCore" where
  "arm_disconnect_deadline now c = set_timer DisconnectDeadline (timer_deadline now (disconnect_timeout c)) c"

definition clear_timers :: "SessionCore \<Rightarrow> SessionCore" where
  "clear_timers c =
     clear_timer VoiceInactivity (clear_timer DisconnectDeadline (clear_timer KeepaliveInactivity (clear_timer Keepalive c)))"

definition dcs_reflector_callsign :: "SessionCore \<Rightarrow> Error + DcsReflector" where
  "dcs_reflector_callsign c = (case sc_protocol c of CP_Dcs target \<Rightarrow> Ok target | _ \<Rightarrow> Err Error_Unreachable)"

definition local_identity :: "SessionCore \<Rightarrow> RepeaterIdentity" where
  "local_identity c = \<lparr>ri_callsign = sc_callsign c, ri_module = sc_local_module c\<rparr>"

definition SessionCore_callsign :: "SessionCore \<Rightarrow> DstarCallsign" where
  "SessionCore_callsign c = RoutingCallsign_callsign (sc_callsign c)"

definition finalize_connected :: "SocketAddr \<Rightarrow> instant \<Rightarrow> SessionCore \<Rightarrow> SessionCore" where
  "finalize_connected peer now c =
     (let c = c\<lparr>sc_state := CS_Connected\<rparr>;
          c = set_timer Keepalive (timer_deadline now (keepalive_interval c)) c;
          c = arm_keepalive_inactivity now c
      in push_event (Raw_Connected peer) c)"

definition finalize_rejected :: "SessionCore \<Rightarrow> SessionCore" where
  "finalize_rejected c =
     push_event (Raw_Disconnected Rejected) (clear_timers (c\<lparr>sc_state := CS_Closed\<rparr>))"

definition finalize_disconnect :: "DisconnectReason \<Rightarrow> SessionCore \<Rightarrow> SessionCore" where
  "finalize_disconnect reason c =
     push_event (Raw_Disconnected reason) (clear_timers (c\<lparr>sc_state := CS_Closed\<rparr>))"

section \<open>Encoding into a scratch buffer\<close>

text \<open>\<open>let mut buf = [0u8; n]; let n = encode(&mut buf)?; buf.get(..n).unwrap_or(&[]).to_vec()\<close>,
  and the variant of \<open>enqueue_connect\<close> that truncates a \<open>Vec\<close>.\<close>

definition encoded :: "nat \<Rightarrow> (bytes \<Rightarrow> (EncodeError + nat) \<times> bytes) \<Rightarrow> EncodeError + bytes" where
  "encoded cap enc =
     (case enc (replicate cap 0) of
        (Err e, _) \<Rightarrow> Err e
      | (Ok n, buf) \<Rightarrow> Ok (case get_range 0 n buf of Some p \<Rightarrow> p | None \<Rightarrow> []))"

definition encoded_vec :: "nat \<Rightarrow> (bytes \<Rightarrow> (EncodeError + nat) \<times> bytes) \<Rightarrow> EncodeError + bytes" where
  "encoded_vec cap enc =
     (case enc (replicate cap 0) of (Err e, _) \<Rightarrow> Err e | (Ok n, buf) \<Rightarrow> Ok (take n buf))"

definition dplus_err :: "EncodeError + 'a \<Rightarrow> Error + 'a" where
  "dplus_err r = map_sum (\<lambda>e. Error_Protocol (PE_DPlus (DPlusError_from e))) id r"

definition dextra_err :: "EncodeError + 'a \<Rightarrow> Error + 'a" where
  "dextra_err r = map_sum (\<lambda>e. Error_Protocol (PE_DExtra (DExtraError_from e))) id r"

definition dcs_err :: "EncodeError + 'a \<Rightarrow> Error + 'a" where
  "dcs_err r = map_sum (\<lambda>e. Error_Protocol (PE_Dcs (DcsError_from e))) id r"

section \<open>Stream bookkeeping\<close>

definition start_stream :: "instant \<Rightarrow> StreamId \<Rightarrow> DstarHeader \<Rightarrow> SessionCore \<Rightarrow> SessionCore" where
  "start_stream now stream_id header c =
     (let c = c\<lparr>sc_active_rx_stream := Some stream_id\<rparr>;
          c = push_event (Raw_VoiceStart stream_id header) c;
          c = arm_voice_inactivity now c
      in c\<lparr>sc_last_voice_activity_at := Some now\<rparr>)"

definition emit_voice_start_if_new :: "instant \<Rightarrow> StreamId \<Rightarrow> DstarHeader \<Rightarrow> SessionCore \<Rightarrow> SessionCore" where
  "emit_voice_start_if_new now stream_id header c =
     (case sc_active_rx_stream c of
        Some old_sid \<Rightarrow>
          (if old_sid = stream_id then c
           else let active_stale = is_none_or (sc_last_voice_activity_at c)
                      (\<lambda>t. STREAM_TAKEOVER_THRESHOLD \<le> saturating_duration_since now t)
                in if \<not> active_stale then c
                   else start_stream now stream_id header (push_event (Raw_VoiceEnd old_sid VE_Inactivity) c))
      | None \<Rightarrow> start_stream now stream_id header c)"

definition emit_voice_end :: "StreamId \<Rightarrow> VoiceEndReason \<Rightarrow> SessionCore \<Rightarrow> SessionCore" where
  "emit_voice_end stream_id reason c =
     (if sc_active_rx_stream c \<noteq> Some stream_id then c
      else let c = c\<lparr>sc_active_rx_stream := None, sc_last_voice_activity_at := None\<rparr>;
               c = clear_timer VoiceInactivity c
           in push_event (Raw_VoiceEnd stream_id reason) c)"

definition emit_voice_frame :: "instant \<Rightarrow> StreamId \<Rightarrow> u8 \<Rightarrow> VoiceFrame \<Rightarrow> SessionCore \<Rightarrow> SessionCore" where
  "emit_voice_frame now stream_id seq frame c =
     (if sc_active_rx_stream c = Some stream_id
      then let c = push_event (Raw_VoiceFrame stream_id seq frame) c;
               c = arm_voice_inactivity now c
           in c\<lparr>sc_last_voice_activity_at := Some now\<rparr>
      else c)"

section \<open>Connect, disconnect and voice transmission\<close>

definition wrong_state :: "StateOperation \<Rightarrow> SessionCore \<Rightarrow> Error" where
  "wrong_state oper c = Error_State (WrongState oper (sc_state c) (sc_kind c))"

definition attach_host_list :: "HostList \<Rightarrow> SessionCore \<Rightarrow> (Error + unit) \<times> SessionCore" where
  "attach_host_list hosts c =
     (if sc_kind c \<noteq> PK_DPlus \<or> sc_state c \<noteq> CS_Configured then (Err (wrong_state SO_AttachHostList c), c)
      else (Ok (), c\<lparr>sc_host_list := Some hosts, sc_state := CS_Authenticated\<rparr>))"

definition connect_payload :: "SessionCore \<Rightarrow> Error + bytes" where
  "connect_payload c =
     (case sc_kind c of
        PK_DPlus \<Rightarrow> dplus_err (encoded 32 dplus_encode_link1)
      | PK_DExtra \<Rightarrow>
          dextra_err (encoded 16 (\<lambda>buf. dextra_encode_connect_link buf (local_identity c) (sc_reflector_module c)))
      | PK_Dcs \<Rightarrow>
          (case dcs_reflector_callsign c of
             Err e \<Rightarrow> Err e
           | Ok target \<Rightarrow>
               dcs_err (encoded_vec 600 (\<lambda>buf.
                 dcs_encode_connect_link buf (local_identity c) (sc_reflector_module c) target GT_Dongle))))"

definition enqueue_connect :: "instant \<Rightarrow> SessionCore \<Rightarrow> (Error + unit) \<times> SessionCore" where
  "enqueue_connect now c =
     (case validate_time c now of
        Err e \<Rightarrow> (Err e, c)
      | Ok _ \<Rightarrow>
          (let expected = (if sc_kind c = PK_DPlus then CS_Authenticated else CS_Configured)
           in if sc_state c \<noteq> expected then (Err (wrong_state SO_Connect c), c)
              else case connect_payload c of
                     Err e \<Rightarrow> (Err e, c)
                   | Ok payload \<Rightarrow>
                       (let c = enqueue_packet now payload c;
                            c = c\<lparr>sc_state := CS_Connecting\<rparr>
                        in (Ok (), arm_keepalive_inactivity now c))))"

definition disconnect_payload :: "SessionCore \<Rightarrow> Error + bytes" where
  "disconnect_payload c =
     (case sc_kind c of
        PK_DPlus \<Rightarrow> dplus_err (encoded 16 dplus_encode_unlink)
      | PK_DExtra \<Rightarrow> dextra_err (encoded 16 (\<lambda>buf. dextra_encode_unlink buf (local_identity c)))
      | PK_Dcs \<Rightarrow>
          (case dcs_reflector_callsign c of
             Err e \<Rightarrow> Err e
           | Ok target \<Rightarrow> dcs_err (encoded 32 (\<lambda>buf. dcs_encode_connect_unlink buf (local_identity c) target))))"

definition enqueue_disconnect :: "instant \<Rightarrow> SessionCore \<Rightarrow> (Error + unit) \<times> SessionCore" where
  "enqueue_disconnect now c =
     (case validate_time c now of
        Err e \<Rightarrow> (Err e, c)
      | Ok _ \<Rightarrow>
          (if sc_state c \<noteq> CS_Connecting \<and> sc_state c \<noteq> CS_Connected then (Err (wrong_state SO_Disconnect c), c)
           else case disconnect_payload c of
                  Err e \<Rightarrow> (Err e, c)
                | Ok payload \<Rightarrow>
                    (let c = enqueue_packet now payload c;
                         c = c\<lparr>sc_state := CS_Disconnecting\<rparr>
                     in (Ok (), arm_disconnect_deadline now c))))"

definition enqueue_send_header ::
  "instant \<Rightarrow> DstarHeader \<Rightarrow> StreamId \<Rightarrow> SessionCore \<Rightarrow> (Error + unit) \<times> SessionCore" where
  "enqueue_send_header now header stream_id c =
     (if sc_state c \<noteq> CS_Connected then (Err (wrong_state SO_SendHeader c), c)
      else let c = c\<lparr>sc_cached_tx_header := Some header\<rparr>
           in case (case sc_kind c of
                      PK_DPlus \<Rightarrow> dplus_err (encoded 256 (\<lambda>buf. dplus_encode_voice_header buf stream_id header))
                    | PK_DExtra \<Rightarrow> dextra_err (encoded 256 (\<lambda>buf. dextra_encode_voice_header buf stream_id header))
                    | PK_Dcs \<Rightarrow>
                        dcs_err (encoded 256 (\<lambda>buf.
                          dcs_encode_voice buf header stream_id FrameSequence_ZERO VoiceFrame_silence False))) of
                Err e \<Rightarrow> (Err e, c)
              | Ok payload \<Rightarrow> (Ok (), enqueue_packet now payload c))"

definition enqueue_send_voice ::
  "instant \<Rightarrow> StreamId \<Rightarrow> FrameSequence \<Rightarrow> VoiceFrame \<Rightarrow> SessionCore \<Rightarrow> (Error + unit) \<times> SessionCore" where
  "enqueue_send_voice now stream_id seq frame c =
     (if sc_state c \<noteq> CS_Connected then (Err (wrong_state SO_SendVoice c), c)
      else case (case sc_kind c of
                   PK_DPlus \<Rightarrow> dplus_err (encoded 256 (\<lambda>buf. dplus_encode_voice_data buf stream_id seq frame))
                 | PK_DExtra \<Rightarrow> dextra_err (encoded 256 (\<lambda>buf. dextra_encode_voice_data buf stream_id seq frame))
                 | PK_Dcs \<Rightarrow>
                     (case sc_cached_tx_header c of
                        None \<Rightarrow> Err (Error_Protocol (PE_Dcs Dcs_NoTxHeader))
                      | Some header \<Rightarrow>
                          dcs_err (encoded 256 (\<lambda>buf. dcs_encode_voice buf header stream_id seq frame False)))) of
             Err e \<Rightarrow> (Err e, c)
           | Ok payload \<Rightarrow> (Ok (), enqueue_packet now payload c))"

definition enqueue_send_eot ::
  "instant \<Rightarrow> StreamId \<Rightarrow> FrameSequence \<Rightarrow> SessionCore \<Rightarrow> (Error + unit) \<times> SessionCore" where
  "enqueue_send_eot now stream_id seq c =
     (if sc_state c \<noteq> CS_Connected then (Err (wrong_state SO_SendEot c), c)
      else case (case sc_kind c of
                   PK_DPlus \<Rightarrow> dplus_err (encoded 256 (\<lambda>buf. dplus_encode_voice_eot buf stream_id seq))
                 | PK_DExtra \<Rightarrow> dextra_err (encoded 256 (\<lambda>buf. dextra_encode_voice_eot buf stream_id seq))
                 | PK_Dcs \<Rightarrow>
                     (case sc_cached_tx_header c of
                        None \<Rightarrow> Err (Error_Protocol (PE_Dcs Dcs_NoTxHeader))
                      | Some header \<Rightarrow>
                          dcs_err (encoded 256 (\<lambda>buf.
                            dcs_encode_voice buf header stream_id seq VoiceFrame_silence True)))) of
             Err e \<Rightarrow> (Err e, c)
           | Ok payload \<Rightarrow> (Ok (), enqueue_packet now payload c))"

section \<open>Input dispatch\<close>

definition dplus_needs_link :: "DPlusServerPacket \<Rightarrow> bool" where
  "dplus_needs_link pkt = (case pkt of
      DPlusS_PollEcho \<Rightarrow> True
    | DPlusS_VoiceHeader _ _ \<Rightarrow> True
    | DPlusS_VoiceData _ _ _ \<Rightarrow> True
    | DPlusS_VoiceEot _ _ \<Rightarrow> True
    | _ \<Rightarrow> False)"

definition dplus_dispatch ::
  "instant \<Rightarrow> SocketAddr \<Rightarrow> DPlusServerPacket \<Rightarrow> SessionCore \<Rightarrow> (Error + unit) \<times> SessionCore" where
  "dplus_dispatch now peer pkt c =
     (case pkt of
        DPlusS_Link1Ack \<Rightarrow>
          (if sc_state c = CS_Connecting
           then (case dplus_err (encoded 32 (\<lambda>buf. dplus_encode_link2 buf (SessionCore_callsign c))) of
                   Err e \<Rightarrow> (Err e, c)
                 | Ok payload \<Rightarrow> (Ok (), arm_keepalive_inactivity now (enqueue_packet now payload c)))
           else if sc_state c = CS_Disconnecting then (Ok (), finalize_disconnect UnlinkAcked c)
           else (Ok (), c))
      | DPlusS_Link2Reply result \<Rightarrow>
          (if sc_state c = CS_Connecting
           then (case result of
                   Link2_Accept \<Rightarrow> (Ok (), finalize_connected peer now c)
                 | Link2_Busy \<Rightarrow> (Ok (), finalize_rejected c)
                 | Link2_Unknown _ \<Rightarrow> (Ok (), finalize_rejected c))
           else (Ok (), c))
      | DPlusS_Link2Echo callsign \<Rightarrow>
          (if sc_state c = CS_Connecting \<and> callsign = SessionCore_callsign c
           then (Ok (), finalize_connected peer now c) else (Ok (), c))
      | DPlusS_UnlinkAck \<Rightarrow>
          (if sc_state c = CS_Disconnecting then (Ok (), finalize_disconnect UnlinkAcked c) else (Ok (), c))
      | DPlusS_PollEcho \<Rightarrow> (Ok (), push_event (Raw_PollEcho peer) (arm_keepalive_inactivity now c))
      | DPlusS_VoiceHeader stream_id header \<Rightarrow>
          (Ok (), emit_voice_start_if_new now stream_id header (arm_keepalive_inactivity now c))
      | DPlusS_VoiceData stream_id seq frame \<Rightarrow>
          (Ok (), emit_voice_frame now stream_id seq frame (arm_keepalive_inactivity now c))
      | DPlusS_VoiceEot stream_id _ \<Rightarrow>
          (Ok (), emit_voice_end stream_id VE_Eot (arm_keepalive_inactivity now c)))"

definition handle_dplus_input ::
  "instant \<Rightarrow> SocketAddr \<Rightarrow> bytes \<Rightarrow> SessionCore \<Rightarrow> (Error + unit) \<times> SessionCore" where
  "handle_dplus_input now peer bs c =
     (case dplus_decode_server_to_client bs (sc_diagnostics c) of
        (Err _, diags) \<Rightarrow> (Ok (), c\<lparr>sc_diagnostics := diags\<rparr>)
      | (Ok pkt, diags) \<Rightarrow>
          (let c = c\<lparr>sc_diagnostics := diags\<rparr>
           in if sc_state c \<noteq> CS_Connected \<and> dplus_needs_link pkt then (Ok (), c)
              else dplus_dispatch now peer pkt c))"

definition dextra_needs_link :: "DExtraServerPacket \<Rightarrow> bool" where
  "dextra_needs_link pkt = (case pkt of
      DExtraS_PollEcho _ \<Rightarrow> True
    | DExtraS_VoiceHeader _ _ \<Rightarrow> True
    | DExtraS_VoiceData _ _ _ \<Rightarrow> True
    | DExtraS_VoiceEot _ _ \<Rightarrow> True
    | _ \<Rightarrow> False)"

text \<open>The connect replies of DExtra and DCS are handled alike.\<close>

definition on_connect_ack ::
  "instant \<Rightarrow> SocketAddr \<Rightarrow> DstarCallsign \<Rightarrow> DstarModule \<Rightarrow> DstarModule \<Rightarrow> SessionCore \<Rightarrow> SessionCore" where
  "on_connect_ack now peer callsign client_module reflector_module c =
     (if callsign = SessionCore_callsign c \<and> client_module = sc_local_module c \<and>
         reflector_module = sc_reflector_module c \<and> sc_state c = CS_Connecting
      then finalize_connected peer now c else c)"

definition on_connect_nak ::
  "DstarCallsign \<Rightarrow> DstarModule \<Rightarrow> ModuleSlot \<Rightarrow> SessionCore \<Rightarrow> SessionCore" where
  "on_connect_nak callsign client_module reflector_module c =
     (if callsign \<noteq> SessionCore_callsign c \<or> client_module \<noteq> sc_local_module c \<or>
         (reflector_module \<noteq> ModuleSlot_Empty \<and> reflector_module \<noteq> ModuleSlot_Module (sc_reflector_module c))
      then c
      else if sc_state c = CS_Connecting then finalize_rejected c
      else if sc_state c = CS_Disconnecting \<and> reflector_module = ModuleSlot_Empty
      then finalize_disconnect UnlinkAcked c
      else c)"

definition dextra_dispatch :: "instant \<Rightarrow> SocketAddr \<Rightarrow> DExtraServerPacket \<Rightarrow> SessionCore \<Rightarrow> SessionCore" where
  "dextra_dispatch now peer pkt c =
     (case pkt of
        DExtraS_ConnectAck callsign client_module reflector_module \<Rightarrow>
          on_connect_ack now peer callsign client_module reflector_module c
      | DExtraS_ConnectNak callsign client_module reflector_module \<Rightarrow>
          on_connect_nak callsign client_module reflector_module c
      | DExtraS_PollEcho _ \<Rightarrow> push_event (Raw_PollEcho peer) (arm_keepalive_inactivity now c)
      | DExtraS_VoiceHeader stream_id header \<Rightarrow>
          emit_voice_start_if_new now stream_id header (arm_keepalive_inactivity now c)
      | DExtraS_VoiceData stream_id seq frame \<Rightarrow>
          emit_voice_frame now stream_id seq frame (arm_keepalive_inactivity now c)
      | DExtraS_VoiceEot stream_id _ \<Rightarrow> emit_voice_end stream_id VE_Eot (arm_keepalive_inactivity now c))"

definition handle_dextra_input ::
  "instant \<Rightarrow> SocketAddr \<Rightarrow> bytes \<Rightarrow> SessionCore \<Rightarrow> (Error + unit) \<times> SessionCore" where
  "handle_dextra_input now peer bs c =
     (case dextra_decode_server_to_client bs (sc_diagnostics c) of
        (Err _, diags) \<Rightarrow> (Ok (), c\<lparr>sc_diagnostics := diags\<rparr>)
      | (Ok pkt, diags) \<Rightarrow>
          (let c = c\<lparr>sc_diagnostics := diags\<rparr>
           in if sc_state c \<noteq> CS_Connected \<and> dextra_needs_link pkt then (Ok (), c)
              else (Ok (), dextra_dispatch now peer pkt c)))"

definition dcs_needs_link :: "DcsServerPacket \<Rightarrow> bool" where
  "dcs_needs_link pkt = (case pkt of DcsS_PollEcho _ _ \<Rightarrow> True | DcsS_Voice _ _ _ _ _ \<Rightarrow> True | _ \<Rightarrow> False)"

definition dcs_dispatch :: "instant \<Rightarrow> SocketAddr \<Rightarrow> DcsServerPacket \<Rightarrow> SessionCore \<Rightarrow> SessionCore" where
  "dcs_dispatch now peer pkt c =
     (case pkt of
        DcsS_ConnectAck callsign client_module reflector_module \<Rightarrow>
          on_connect_ack now peer callsign client_module reflector_module c
      | DcsS_ConnectNak callsign client_module reflector_module \<Rightarrow>
          on_connect_nak callsign client_module reflector_module c
      | DcsS_PollEcho _ _ \<Rightarrow> push_event (Raw_PollEcho peer) (arm_keepalive_inactivity now c)
      | DcsS_Voice header stream_id seq frame is_end \<Rightarrow>
          (let c = arm_keepalive_inactivity now c
           in if is_end then emit_voice_end stream_id VE_Eot c
              else emit_voice_frame now stream_id seq frame (emit_voice_start_if_new now stream_id header c)))"

definition handle_dcs_input ::
  "instant \<Rightarrow> SocketAddr \<Rightarrow> bytes \<Rightarrow> SessionCore \<Rightarrow> (Error + unit) \<times> SessionCore" where
  "handle_dcs_input now peer bs c =
     (case dcs_decode_server_to_client bs (sc_diagnostics c) of
        (Err _, diags) \<Rightarrow> (Ok (), c\<lparr>sc_diagnostics := diags\<rparr>)
      | (Ok pkt, diags) \<Rightarrow>
          (let c = c\<lparr>sc_diagnostics := diags\<rparr>
           in if sc_state c \<noteq> CS_Connected \<and> dcs_needs_link pkt then (Ok (), c)
              else (Ok (), dcs_dispatch now peer pkt c)))"

definition handle_input ::
  "instant \<Rightarrow> SocketAddr \<Rightarrow> bytes \<Rightarrow> SessionCore \<Rightarrow> (Error + unit) \<times> SessionCore" where
  "handle_input now peer bs c =
     (if peer \<noteq> sc_peer c \<or> sc_state c = CS_Closed then (Ok (), c)
      else case validate_time c now of
             Err e \<Rightarrow> (Err e, c)
           | Ok _ \<Rightarrow>
               (case sc_kind c of
                  PK_DPlus \<Rightarrow> handle_dplus_input now peer bs c
                | PK_DExtra \<Rightarrow> handle_dextra_input now peer bs c
                | PK_Dcs \<Rightarrow> handle_dcs_input now peer bs c))"

section \<open>Timers\<close>

definition poll_payload :: "SessionCore \<Rightarrow> Error + bytes option" where
  "poll_payload c =
     (case sc_kind c of
        PK_DPlus \<Rightarrow> Ok (case dplus_encode_poll (replicate 8 0) of (Err _, _) \<Rightarrow> None | (Ok n, buf) \<Rightarrow> get_range 0 n buf)
      | PK_DExtra \<Rightarrow>
          Ok (case dextra_encode_poll (replicate 16 0) (SessionCore_callsign c) of
                (Err _, _) \<Rightarrow> None | (Ok n, buf) \<Rightarrow> get_range 0 n buf)
      | PK_Dcs \<Rightarrow>
          (case dcs_reflector_callsign c of
             Err e \<Rightarrow> Err e
           | Ok target \<Rightarrow>
               Ok (case dcs_encode_poll_request (replicate 32 0) (sc_callsign c) target of
                     (Err _, _) \<Rightarrow> None | (Ok n, buf) \<Rightarrow> get_range 0 n buf)))"

definition enqueue_poll :: "instant \<Rightarrow> SessionCore \<Rightarrow> (Error + unit) \<times> SessionCore" where
  "enqueue_poll now c =
     (case poll_payload c of
        Err e \<Rightarrow> (Err e, c)
      | Ok None \<Rightarrow> (Ok (), c)
      | Ok (Some payload) \<Rightarrow> (Ok (), enqueue_packet now payload c))"

definition expired :: "SessionCore \<Rightarrow> TimerId \<Rightarrow> instant \<Rightarrow> bool" where
  "expired c t now = TimerWheel_is_expired (sc_timers c) t now"

definition timeout_keepalive :: "instant \<Rightarrow> SessionCore \<Rightarrow> (Error + unit) \<times> SessionCore" where
  "timeout_keepalive now c =
     (if sc_state c = CS_Connected \<and> expired c Keepalive now
      then (case enqueue_poll now c of
              (Err e, c) \<Rightarrow> (Err e, c)
            | (Ok _, c) \<Rightarrow> (Ok (), set_timer Keepalive (timer_deadline now (keepalive_interval c)) c))
      else (Ok (), c))"

definition timeout_voice :: "instant \<Rightarrow> SessionCore \<Rightarrow> SessionCore" where
  "timeout_voice now c =
     (if sc_state c = CS_Connected \<and> expired c VoiceInactivity now
      then (case sc_active_rx_stream c of
              Some stream_id \<Rightarrow> emit_voice_end stream_id VE_Inactivity c
            | None \<Rightarrow> clear_timer VoiceInactivity c)
      else c)"

definition timeout_link :: "instant \<Rightarrow> SessionCore \<Rightarrow> SessionCore" where
  "timeout_link now c =
     (if (sc_state c = CS_Connecting \<or> sc_state c = CS_Connected) \<and> expired c KeepaliveInactivity now
      then finalize_disconnect DR_KeepaliveInactivity c
      else if sc_state c = CS_Disconnecting \<and> expired c DisconnectDeadline now
      then finalize_disconnect DisconnectTimeout c
      else c)"

definition handle_timeout :: "instant \<Rightarrow> SessionCore \<Rightarrow> (Error + unit) \<times> SessionCore" where
  "handle_timeout now c =
     (case validate_time c now of
        Err _ \<Rightarrow>
          (Ok (), if sc_state c \<noteq> CS_Closed
                  then finalize_disconnect ClockRange
                    (c\<lparr>sc_outbox := Outbox_new, sc_active_rx_stream := None, sc_last_voice_activity_at := None\<rparr>)
                  else c)
      | Ok _ \<Rightarrow>
          (case timeout_keepalive now c of
             (Err e, c) \<Rightarrow> (Err e, c)
           | (Ok _, c) \<Rightarrow> (Ok (), timeout_link now (timeout_voice now c))))"

section \<open>Polling\<close>

record Transmit =
  tx_dst :: SocketAddr
  tx_payload :: bytes

definition pop_transmit :: "instant \<Rightarrow> SessionCore \<Rightarrow> Transmit option \<times> SessionCore" where
  "pop_transmit now c =
     (case Outbox_pop_ready now (sc_outbox c) of
        (None, q) \<Rightarrow> (None, c\<lparr>sc_outbox := q\<rparr>)
      | (Some next, q) \<Rightarrow>
          (Some \<lparr>tx_dst = op_dst next, tx_payload = op_payload next\<rparr>, c\<lparr>sc_outbox := q, sc_current_tx := Some next\<rparr>))"

definition Event_of_raw :: "RawEvent \<Rightarrow> Event" where
  "Event_of_raw raw = (case raw of
      Raw_Connected peer \<Rightarrow> Ev_Connected peer
    | Raw_Disconnected reason \<Rightarrow> Ev_Disconnected reason
    | Raw_PollEcho peer \<Rightarrow> Ev_PollEcho peer
    | Raw_VoiceStart stream_id header \<Rightarrow> Ev_VoiceStart stream_id header []
    | Raw_VoiceFrame stream_id seq frame \<Rightarrow> Ev_VoiceFrame stream_id seq frame
    | Raw_VoiceEnd stream_id reason \<Rightarrow> Ev_VoiceEnd stream_id reason)"

definition pop_event :: "ProtocolKind \<Rightarrow> SessionCore \<Rightarrow> Event option \<times> SessionCore" where
  "pop_event kind c =
     (if kind \<noteq> sc_kind c then (None, c)
      else case sc_events c of
             [] \<Rightarrow> (None, c)
           | raw # rest \<Rightarrow> (Some (Event_of_raw raw), c\<lparr>sc_events := rest\<rparr>))"

definition SessionCore_next_deadline :: "SessionCore \<Rightarrow> instant option" where
  "SessionCore_next_deadline c =
     (case (Outbox_peek_next_deadline (sc_outbox c), TimerWheel_next_deadline (sc_timers c)) of
        (None, None) \<Rightarrow> None
      | (Some d, None) \<Rightarrow> Some d
      | (None, Some t) \<Rightarrow> Some t
      | (Some d, Some t) \<Rightarrow> Some (min d t))"

definition drain_diagnostics :: "SessionCore \<Rightarrow> diagnostics \<times> SessionCore" where
  "drain_diagnostics c = (sc_diagnostics c, c\<lparr>sc_diagnostics := []\<rparr>)"

end
