(* ===== verification/Dstar_Server.thy ===== *)
theory Dstar_Server
  imports Dstar_Client
begin

text \<open>
  The reflector side of a link, \<open>dstar-gateway-core/src/session/server\<close>: the session core that
  \<open>core.rs\<close> keeps for one client, one function per handler with explicit state passing, the events
  of \<open>event.rs\<close>, the observable states of \<open>state.rs\<close> and the frames of \<open>forwardable.rs\<close>. The scratch
  buffers, the error type and the outbox are those of the client side. Logging is left out.
\<close>

section \<open>States and events\<close>

datatype ServerStateKind = SK_Unknown | SK_Linked | SK_Streaming | SK_Unlinking | SK_Closed

datatype InternalState = SI_Unknown | SI_Link1Received | SI_Linked | SI_Streaming | SI_Unlinking | SI_Closed

definition InternalState_kind :: "InternalState \<Rightarrow> ServerStateKind" where
  "InternalState_kind st = (case st of
      SI_Unknown \<Rightarrow> SK_Unknown
    | SI_Link1Received \<Rightarrow> SK_Unknown
    | SI_Linked \<Rightarrow> SK_Linked
    | SI_Streaming \<Rightarrow> SK_Streaming
    | SI_Unlinking \<Rightarrow> SK_Unlinking
    | SI_Closed \<Rightarrow> SK_Closed)"

datatype RawServerEvent =
    RawS_Linked SocketAddr DstarCallsign DstarModule
  | RawS_Unlinked SocketAddr
  | RawS_StreamStarted SocketAddr StreamId DstarHeader
  | RawS_StreamFrame SocketAddr StreamId u8 VoiceFrame
  | RawS_StreamEnded SocketAddr StreamId

datatype ClientRejectedReason =
    CR_Busy
  | CR_Banned string
  | CR_UnknownModule
  | CR_MaxClients
  | CR_Custom u8 string

datatype ServerEvent =
    ClientLinked SocketAddr DstarCallsign DstarModule
  | ClientUnlinked SocketAddr
  | ClientStreamStarted SocketAddr StreamId DstarHeader
  | ClientStreamFrame SocketAddr StreamId u8 VoiceFrame
  | ClientStreamEnded SocketAddr StreamId
  | ClientRejected SocketAddr ClientRejectedReason
  | VoiceFromReadOnlyDropped SocketAddr StreamId
  | ClientEvicted SocketAddr string

datatype ForwardableFrame =
    Fwd_Header ProtocolKind StreamId bytes
  | Fwd_Data ProtocolKind StreamId u8 bytes
  | Fwd_Eot ProtocolKind StreamId u8 bytes

fun ForwardableFrame_protocol :: "ForwardableFrame \<Rightarrow> ProtocolKind" where
  "ForwardableFrame_protocol (Fwd_Header k _ _) = k"
| "ForwardableFrame_protocol (Fwd_Data k _ _ _) = k"
| "ForwardableFrame_protocol (Fwd_Eot k _ _ _) = k"

fun ForwardableFrame_stream_id :: "ForwardableFrame \<Rightarrow> StreamId" where
  "ForwardableFrame_stream_id (Fwd_Header _ s _) = s"
| "ForwardableFrame_stream_id (Fwd_Data _ s _ _) = s"
| "ForwardableFrame_stream_id (Fwd_Eot _ s _ _) = s"

fun ForwardableFrame_bytes :: "ForwardableFrame \<Rightarrow> bytes" where
  "ForwardableFrame_bytes (Fwd_Header _ _ bs) = bs"
| "ForwardableFrame_bytes (Fwd_Data _ _ _ bs) = bs"
| "ForwardableFrame_bytes (Fwd_Eot _ _ _ bs) = bs"

section \<open>The session record\<close>

record ServerSessionCore =
  ss_kind :: ProtocolKind
  ss_peer :: SocketAddr
  ss_reflector_module :: DstarModule
  ss_state :: InternalState
  ss_client_callsign :: "DstarCallsign option"
  ss_client_module :: "DstarModule option"
  ss_last_stream_id :: "StreamId option"
  ss_outbox :: Outbox
  ss_events :: "RawServerEvent list"
  ss_diagnostics :: diagnostics
  ss_current_tx :: "OutboundPacket option"

definition ServerSessionCore_new :: "ProtocolKind \<Rightarrow> SocketAddr \<Rightarrow> DstarModule \<Rightarrow> ServerSessionCore" where
  "ServerSessionCore_new kind peer reflector_module =
     \<lparr>ss_kind = kind, ss_peer = peer, ss_reflector_module = reflector_module, ss_state = SI_Unknown,
      ss_client_callsign = None, ss_client_module = None, ss_last_stream_id = None,
      ss_outbox = Outbox_new, ss_events = [], ss_diagnostics = [], ss_current_tx = None\<rparr>"

definition state_kind :: "ServerSessionCore \<Rightarrow> ServerStateKind" where
  "state_kind s = InternalState_kind (ss_state s)"

text \<open>\<open>events.push_back\<close> and \<open>outbox.enqueue\<close> of a reply for the peer; \<open>is_some_and\<close> of a remembered
  value that differs.\<close>

definition emit :: "RawServerEvent \<Rightarrow> ServerSessionCore \<Rightarrow> ServerSessionCore" where
  "emit e s = s\<lparr>ss_events := ss_events s @ [e]\<rparr>"

definition reply :: "instant \<Rightarrow> bytes \<Rightarrow> ServerSessionCore \<Rightarrow> ServerSessionCore" where
  "reply now payload s =
     s\<lparr>ss_outbox := Outbox_enqueue \<lparr>op_dst = ss_peer s, op_payload = payload, op_not_before = now\<rparr> (ss_outbox s)\<rparr>"

definition reply_with :: "instant \<Rightarrow> Error + bytes \<Rightarrow> ServerSessionCore \<Rightarrow> (Error + unit) \<times> ServerSessionCore" where
  "reply_with now payload s = (case payload of Err e \<Rightarrow> (Err e, s) | Ok p \<Rightarrow> (Ok (), reply now p s))"

definition differs :: "'a option \<Rightarrow> 'a \<Rightarrow> bool" where
  "differs remembered v = (case remembered of None \<Rightarrow> False | Some existing \<Rightarrow> existing \<noteq> v)"

section \<open>DExtra\<close>

definition on_dextra_link ::
  "instant \<Rightarrow> DstarCallsign \<Rightarrow> DstarModule \<Rightarrow> DstarModule \<Rightarrow> ServerSessionCore \<Rightarrow> (Error + unit) \<times> ServerSessionCore" where
  "on_dextra_link now callsign reflector_module client_module s =
     (if \<not> (ss_state s = SI_Unknown \<or> ss_state s = SI_Linked \<or> ss_state s = SI_Streaming) \<or>
         reflector_module \<noteq> ss_reflector_module s \<or>
         differs (ss_client_callsign s) callsign \<or> differs (ss_client_module s) client_module
      then (Ok (), s)
      else case RoutingCallsign_try_from callsign of
             Err e \<Rightarrow> (Err (Error_Type e), s)
           | Ok routing \<Rightarrow>
               (let identity = \<lparr>ri_callsign = routing, ri_module = client_module\<rparr>;
                    s = s\<lparr>ss_client_callsign := Some callsign, ss_client_module := Some client_module\<rparr>;
                    s = (if ss_state s \<noteq> SI_Streaming then s\<lparr>ss_state := SI_Linked\<rparr> else s);
                    s = emit (RawS_Linked (ss_peer s) callsign reflector_module) s
                in reply_with now
                     (dextra_err (encoded 32 (\<lambda>buf. dextra_encode_connect_ack buf identity reflector_module))) s))"

definition on_dextra_unlink :: "DstarCallsign \<Rightarrow> DstarModule \<Rightarrow> ServerSessionCore \<Rightarrow> ServerSessionCore" where
  "on_dextra_unlink callsign client_module s =
     (if ss_client_callsign s \<noteq> Some callsign \<or> ss_client_module s \<noteq> Some client_module then s
      else let s = s\<lparr>ss_state := SI_Unlinking\<rparr>;
               s = emit (RawS_Unlinked (ss_peer s)) s
           in s\<lparr>ss_state := SI_Closed, ss_last_stream_id := None\<rparr>)"

definition on_dextra_poll :: "instant \<Rightarrow> DstarCallsign \<Rightarrow> ServerSessionCore \<Rightarrow> (Error + unit) \<times> ServerSessionCore" where
  "on_dextra_poll now callsign s =
     (if ss_client_callsign s \<noteq> Some callsign then (Ok (), s)
      else reply_with now (dextra_err (encoded 16 (\<lambda>buf. dextra_encode_poll_echo buf callsign))) s)"

definition on_dextra_voice_header :: "StreamId \<Rightarrow> DstarHeader \<Rightarrow> ServerSessionCore \<Rightarrow> ServerSessionCore" where
  "on_dextra_voice_header stream_id header s =
     (if ss_state s \<noteq> SI_Linked then s
      else emit (RawS_StreamStarted (ss_peer s) stream_id header)
             (s\<lparr>ss_state := SI_Streaming, ss_last_stream_id := Some stream_id\<rparr>))"

definition on_dextra_voice_data :: "StreamId \<Rightarrow> u8 \<Rightarrow> VoiceFrame \<Rightarrow> ServerSessionCore \<Rightarrow> ServerSessionCore" where
  "on_dextra_voice_data stream_id seq frame s =
     (if ss_state s \<noteq> SI_Streaming \<or> ss_last_stream_id s \<noteq> Some stream_id then s
      else emit (RawS_StreamFrame (ss_peer s) stream_id seq frame) s)"

definition on_dextra_voice_eot :: "StreamId \<Rightarrow> ServerSessionCore \<Rightarrow> ServerSessionCore" where
  "on_dextra_voice_eot stream_id s =
     (if ss_state s \<noteq> SI_Streaming \<or> ss_last_stream_id s \<noteq> Some stream_id then s
      else emit (RawS_StreamEnded (ss_peer s) stream_id)
             (s\<lparr>ss_state := SI_Linked, ss_last_stream_id := None\<rparr>))"

definition server_dextra_dispatch ::
  "instant \<Rightarrow> DExtraClientPacket \<Rightarrow> ServerSessionCore \<Rightarrow> (Error + unit) \<times> ServerSessionCore" where
  "server_dextra_dispatch now packet s =
     (case packet of
        DExtraC_Link callsign reflector_module client_module \<Rightarrow>
          on_dextra_link now callsign reflector_module client_module s
      | DExtraC_Unlink callsign client_module \<Rightarrow> (Ok (), on_dextra_unlink callsign client_module s)
      | DExtraC_Poll callsign \<Rightarrow> on_dextra_poll now callsign s
      | DExtraC_VoiceHeader stream_id header \<Rightarrow> (Ok (), on_dextra_voice_header stream_id header s)
      | DExtraC_VoiceData stream_id seq frame \<Rightarrow> (Ok (), on_dextra_voice_data stream_id seq frame s)
      | DExtraC_VoiceEot stream_id _ \<Rightarrow> (Ok (), on_dextra_voice_eot stream_id s))"

definition server_dextra_input ::
  "instant \<Rightarrow> bytes \<Rightarrow> ServerSessionCore \<Rightarrow> (Error + unit) \<times> ServerSessionCore" where
  "server_dextra_input now bs s =
     (case dextra_decode_client_to_server bs (ss_diagnostics s) of
        (Err e, diags) \<Rightarrow> (Err (Error_Protocol (PE_DExtra e)), s\<lparr>ss_diagnostics := diags\<rparr>)
      | (Ok packet, diags) \<Rightarrow> server_dextra_dispatch now packet (s\<lparr>ss_diagnostics := diags\<rparr>))"

section \<open>DPlus\<close>

definition on_dplus_link1 :: "instant \<Rightarrow> ServerSessionCore \<Rightarrow> (Error + unit) \<times> ServerSessionCore" where
  "on_dplus_link1 now s =
     (let ack = dplus_err (encoded 8 dplus_encode_link1_ack)
      in case ss_state s of
           SI_Unknown \<Rightarrow> reply_with now ack (s\<lparr>ss_state := SI_Link1Received\<rparr>)
         | SI_Link1Received \<Rightarrow> reply_with now ack s
         | SI_Linked \<Rightarrow> reply_with now ack s
         | _ \<Rightarrow> (Ok (), s))"

definition enqueue_dplus_link2_reply ::
  "instant \<Rightarrow> Link2Result \<Rightarrow> ServerSessionCore \<Rightarrow> (Error + unit) \<times> ServerSessionCore" where
  "enqueue_dplus_link2_reply now result s =
     reply_with now (dplus_err (encoded 16 (\<lambda>buf. dplus_encode_link2_reply buf result))) s"

definition on_dplus_link2 :: "instant \<Rightarrow> DstarCallsign \<Rightarrow> ServerSessionCore \<Rightarrow> (Error + unit) \<times> ServerSessionCore" where
  "on_dplus_link2 now callsign s =
     (if ss_state s = SI_Link1Received
      then let s = s\<lparr>ss_client_callsign := Some callsign, ss_client_module := Some (ss_reflector_module s),
                     ss_state := SI_Linked\<rparr>;
               s = emit (RawS_Linked (ss_peer s) callsign (ss_reflector_module s)) s
           in enqueue_dplus_link2_reply now Link2_Accept s
      else if ss_state s = SI_Linked \<or> ss_state s = SI_Streaming
      then (if ss_client_callsign s = Some callsign then enqueue_dplus_link2_reply now Link2_Accept s
            else enqueue_dplus_link2_reply now Link2_Busy s)
      else (Ok (), s))"

definition on_dplus_unlink :: "instant \<Rightarrow> ServerSessionCore \<Rightarrow> (Error + unit) \<times> ServerSessionCore" where
  "on_dplus_unlink now s =
     (if \<not> (ss_state s = SI_Linked \<or> ss_state s = SI_Streaming \<or> ss_state s = SI_Link1Received) then (Ok (), s)
      else case dplus_err (encoded 8 dplus_encode_unlink_ack) of
             Err e \<Rightarrow> (Err e, s)
           | Ok payload \<Rightarrow>
               (let s = reply now payload s;
                    s = emit (RawS_Unlinked (ss_peer s)) s
                in (Ok (), s\<lparr>ss_state := SI_Closed, ss_last_stream_id := None\<rparr>)))"

definition on_dplus_poll :: "instant \<Rightarrow> ServerSessionCore \<Rightarrow> (Error + unit) \<times> ServerSessionCore" where
  "on_dplus_poll now s =
     (if \<not> (ss_state s = SI_Linked \<or> ss_state s = SI_Streaming) then (Ok (), s)
      else reply_with now (dplus_err (encoded 8 dplus_encode_poll_echo)) s)"

definition on_dplus_voice_header :: "StreamId \<Rightarrow> DstarHeader \<Rightarrow> ServerSessionCore \<Rightarrow> ServerSessionCore" where
  "on_dplus_voice_header stream_id header s =
     (if ss_state s \<noteq> SI_Linked then s
      else emit (RawS_StreamStarted (ss_peer s) stream_id header)
             (s\<lparr>ss_state := SI_Streaming, ss_last_stream_id := Some stream_id\<rparr>))"

definition on_dplus_voice_data :: "StreamId \<Rightarrow> u8 \<Rightarrow> VoiceFrame \<Rightarrow> ServerSessionCore \<Rightarrow> ServerSessionCore" where
  "on_dplus_voice_data stream_id seq frame s =
     (if ss_state s \<noteq> SI_Streaming \<or> ss_last_stream_id s \<noteq> Some stream_id then s
      else emit (RawS_StreamFrame (ss_peer s) stream_id seq frame) s)"

definition on_dplus_voice_eot :: "StreamId \<Rightarrow> ServerSessionCore \<Rightarrow> ServerSessionCore" where
  "on_dplus_voice_eot stream_id s =
     (if ss_state s \<noteq> SI_Streaming \<or> ss_last_stream_id s \<noteq> Some stream_id then s
      else emit (RawS_StreamEnded (ss_peer s) stream_id)
             (s\<lparr>ss_state := SI_Linked, ss_last_stream_id := None\<rparr>))"

definition server_dplus_dispatch ::
  "instant \<Rightarrow> DPlusClientPacket \<Rightarrow> ServerSessionCore \<Rightarrow> (Error + unit) \<times> ServerSessionCore" where
  "server_dplus_dispatch now packet s =
     (case packet of
        DPlusC_Link1 \<Rightarrow> on_dplus_link1 now s
      | DPlusC_Link2 callsign \<Rightarrow> on_dplus_link2 now callsign s
      | DPlusC_Unlink \<Rightarrow> on_dplus_unlink now s
      | DPlusC_Poll \<Rightarrow> on_dplus_poll now s
      | DPlusC_VoiceHeader stream_id header \<Rightarrow> (Ok (), on_dplus_voice_header stream_id header s)
      | DPlusC_VoiceData stream_id seq frame \<Rightarrow> (Ok (), on_dplus_voice_data stream_id seq frame s)
      | DPlusC_VoiceEot stream_id _ \<Rightarrow> (Ok (), on_dplus_voice_eot stream_id s))"

definition server_dplus_input ::
  "instant \<Rightarrow> bytes \<Rightarrow> ServerSessionCore \<Rightarrow> (Error + unit) \<times> ServerSessionCore" where
  "server_dplus_input now bs s =
     (case dplus_decode_client_to_server bs (ss_diagnostics s) of
        (Err e, diags) \<Rightarrow> (Err (Error_Protocol (PE_DPlus e)), s\<lparr>ss_diagnostics := diags\<rparr>)
      | (Ok packet, diags) \<Rightarrow> server_dplus_dispatch now packet (s\<lparr>ss_diagnostics := diags\<rparr>))"

section \<open>DCS\<close>

definition on_dcs_link ::
  "instant \<Rightarrow> DstarCallsign \<Rightarrow> DstarModule \<Rightarrow> DstarModule \<Rightarrow> ServerSessionCore \<Rightarrow> (Error + unit) \<times> ServerSessionCore" where
  "on_dcs_link now callsign client_module reflector_module s =
     (if \<not> (ss_state s = SI_Unknown \<or> ss_state s = SI_Linked \<or> ss_state s = SI_Streaming) \<or>
         reflector_module \<noteq> ss_reflector_module s \<or>
         differs (ss_client_callsign s) callsign \<or> differs (ss_client_module s) client_module
      then (Ok (), s)
      else case RoutingCallsign_try_from callsign of
             Err e \<Rightarrow> (Err (Error_Type e), s)
           | Ok routing \<Rightarrow>
               (let identity = \<lparr>ri_callsign = routing, ri_module = client_module\<rparr>;
                    s = s\<lparr>ss_client_callsign := Some callsign, ss_client_module := Some client_module\<rparr>;
                    s = (if ss_state s \<noteq> SI_Streaming then s\<lparr>ss_state := SI_Linked\<rparr> else s);
                    s = emit (RawS_Linked (ss_peer s) callsign reflector_module) s
                in reply_with now
                     (dcs_err (encoded 32 (\<lambda>buf. dcs_encode_connect_ack buf identity reflector_module))) s))"

definition on_dcs_unlink ::
  "instant \<Rightarrow> DstarCallsign \<Rightarrow> DstarModule \<Rightarrow> ServerSessionCore \<Rightarrow> (Error + unit) \<times> ServerSessionCore" where
  "on_dcs_unlink now callsign client_module s =
     (if ss_client_callsign s \<noteq> Some callsign \<or> ss_client_module s \<noteq> Some client_module then (Ok (), s)
      else case RoutingCallsign_try_from callsign of
             Err e \<Rightarrow> (Err (Error_Type e), s)
           | Ok routing \<Rightarrow>
               (let identity = \<lparr>ri_callsign = routing, ri_module = client_module\<rparr>
                in case dcs_err (encoded 14 (\<lambda>buf. dcs_encode_connect_nak buf identity ModuleSlot_Empty)) of
                     Err e \<Rightarrow> (Err e, s)
                   | Ok payload \<Rightarrow>
                       (let s = reply now payload s;
                            s = emit (RawS_Unlinked (ss_peer s)) s
                        in (Ok (), s\<lparr>ss_state := SI_Closed, ss_last_stream_id := None\<rparr>))))"

definition on_dcs_poll ::
  "instant \<Rightarrow> DstarCallsign \<Rightarrow> DstarCallsign \<Rightarrow> ServerSessionCore \<Rightarrow> (Error + unit) \<times> ServerSessionCore" where
  "on_dcs_poll now callsign reflector_callsign s =
     (if \<not> (ss_state s = SI_Linked \<or> ss_state s = SI_Streaming) then (Ok (), s)
      else if ss_client_callsign s \<noteq> Some callsign then (Ok (), s)
      else reply_with now (dcs_err (encoded 32 (\<lambda>buf. dcs_encode_poll_reply buf callsign reflector_callsign))) s)"

definition on_dcs_voice ::
  "DstarHeader \<Rightarrow> StreamId \<Rightarrow> u8 \<Rightarrow> VoiceFrame \<Rightarrow> bool \<Rightarrow> ServerSessionCore \<Rightarrow> ServerSessionCore" where
  "on_dcs_voice header stream_id seq frame is_end s =
     (if \<not> (ss_state s = SI_Linked \<or> ss_state s = SI_Streaming) then s
      else if differs (ss_last_stream_id s) stream_id then s
      else let is_new_stream = (ss_last_stream_id s \<noteq> Some stream_id);
               s = (if is_new_stream
                    then emit (RawS_StreamStarted (ss_peer s) stream_id header)
                           (s\<lparr>ss_state := SI_Streaming, ss_last_stream_id := Some stream_id\<rparr>)
                    else s);
               s = emit (RawS_StreamFrame (ss_peer s) stream_id seq frame) s
           in if is_end
              then emit (RawS_StreamEnded (ss_peer s) stream_id)
                     (s\<lparr>ss_state := SI_Linked, ss_last_stream_id := None\<rparr>)
              else s)"

definition server_dcs_dispatch ::
  "instant \<Rightarrow> DcsClientPacket \<Rightarrow> ServerSessionCore \<Rightarrow> (Error + unit) \<times> ServerSessionCore" where
  "server_dcs_dispatch now packet s =
     (case packet of
        DcsC_Link callsign client_module reflector_module _ _ \<Rightarrow>
          on_dcs_link now callsign client_module reflector_module s
      | DcsC_Unlink callsign client_module _ \<Rightarrow> on_dcs_unlink now callsign client_module s
      | DcsC_Poll callsign reflector_callsign \<Rightarrow> on_dcs_poll now callsign reflector_callsign s
      | DcsC_Voice header stream_id seq frame is_end \<Rightarrow> (Ok (), on_dcs_voice header stream_id seq frame is_end s))"

definition server_dcs_input ::
  "instant \<Rightarrow> bytes \<Rightarrow> ServerSessionCore \<Rightarrow> (Error + unit) \<times> ServerSessionCore" where
  "server_dcs_input now bs s =
     (case dcs_decode_client_to_server bs (ss_diagnostics s) of
        (Err e, diags) \<Rightarrow> (Err (Error_Protocol (PE_Dcs e)), s\<lparr>ss_diagnostics := diags\<rparr>)
      | (Ok packet, diags) \<Rightarrow> server_dcs_dispatch now packet (s\<lparr>ss_diagnostics := diags\<rparr>))"

section \<open>Input and polling\<close>

fun is_unknown_length :: "Error \<Rightarrow> bool" where
  "is_unknown_length (Error_Protocol (PE_DExtra (DExtra_UnknownPacketLength _))) = True"
| "is_unknown_length (Error_Protocol (PE_DPlus (DPlus_UnknownPacketLength _))) = True"
| "is_unknown_length (Error_Protocol (PE_Dcs (Dcs_UnknownPacketLength _))) = True"
| "is_unknown_length _ = False"

definition server_kind_input :: "instant \<Rightarrow> bytes \<Rightarrow> ServerSessionCore \<Rightarrow> (Error + unit) \<times> ServerSessionCore" where
  "server_kind_input now bs s = (case ss_kind s of
      PK_DExtra \<Rightarrow> server_dextra_input now bs s
    | PK_DPlus \<Rightarrow> server_dplus_input now bs s
    | PK_Dcs \<Rightarrow> server_dcs_input now bs s)"

definition server_handle_input ::
  "instant \<Rightarrow> bytes \<Rightarrow> ServerSessionCore \<Rightarrow> (Error + unit) \<times> ServerSessionCore" where
  "server_handle_input now bs s =
     (if ss_state s = SI_Closed then (Ok (), s)
      else case server_kind_input now bs s of
             (Err e, s) \<Rightarrow> (if is_unknown_length e then (Ok (), s) else (Err e, s))
           | (Ok u, s) \<Rightarrow> (Ok u, s))"

definition server_pop_transmit :: "instant \<Rightarrow> ServerSessionCore \<Rightarrow> Transmit option \<times> ServerSessionCore" where
  "server_pop_transmit now s =
     (case Outbox_pop_ready now (ss_outbox s) of
        (None, q) \<Rightarrow> (None, s\<lparr>ss_outbox := q\<rparr>)
      | (Some next, q) \<Rightarrow>
          (Some \<lparr>tx_dst = op_dst next, tx_payload = op_payload next\<rparr>, s\<lparr>ss_outbox := q, ss_current_tx := Some next\<rparr>))"

definition ServerEvent_of_raw :: "RawServerEvent \<Rightarrow> ServerEvent" where
  "ServerEvent_of_raw raw = (case raw of
      RawS_Linked peer callsign module \<Rightarrow> ClientLinked peer callsign module
    | RawS_Unlinked peer \<Rightarrow> ClientUnlinked peer
    | RawS_StreamStarted peer stream_id header \<Rightarrow> ClientStreamStarted peer stream_id header
    | RawS_StreamFrame peer stream_id seq frame \<Rightarrow> ClientStreamFrame peer stream_id seq frame
    | RawS_StreamEnded peer stream_id \<Rightarrow> ClientStreamEnded peer stream_id)"

definition server_pop_event :: "ProtocolKind \<Rightarrow> ServerSessionCore \<Rightarrow> ServerEvent option \<times> ServerSessionCore" where
  "server_pop_event kind s =
     (if kind \<noteq> ss_kind s then (None, s)
      else case ss_events s of
             [] \<Rightarrow> (None, s)
           | raw # rest \<Rightarrow> (Some (ServerEvent_of_raw raw), s\<lparr>ss_events := rest\<rparr>))"

definition server_next_deadline :: "ServerSessionCore \<Rightarrow> instant option" where
  "server_next_deadline s = Outbox_peek_next_deadline (ss_outbox s)"

definition server_drain_diagnostics :: "ServerSessionCore \<Rightarrow> diagnostics \<times> ServerSessionCore" where
  "server_drain_diagnostics s = (ss_diagnostics s, s\<lparr>ss_diagnostics := []\<rparr>)"

end
