(* ===== verification/Event_Source.thy ===== *)
theory Event_Source
  imports Dstar_Session
begin

text \<open>
  The contract of a session that queues events for a consumer. A step either hands out the front
  of the queue or appends events to it; an automaton over the events follows along. What a
  consumer has received, followed by what is still queued, is then a run of the automaton. The
  client and the server session both interpret the locale.
\<close>

fun follow :: "('e \<Rightarrow> 'ph \<Rightarrow> 'ph option) \<Rightarrow> 'e list \<Rightarrow> 'ph \<Rightarrow> 'ph option" where
  "follow observe [] ph = Some ph"
| "follow observe (e # es) ph = (case observe e ph of None \<Rightarrow> None | Some ph' \<Rightarrow> follow observe es ph')"

lemma follow_append:
  "follow observe (es @ fs) ph = (case follow observe es ph of None \<Rightarrow> None | Some ph' \<Rightarrow> follow observe fs ph')"
  by (induction es arbitrary: ph) (auto split: option.splits)

text \<open>The events handed out by a sequence of steps.\<close>

fun handed_out :: "('o \<Rightarrow> 'e option) \<Rightarrow> 'o list \<Rightarrow> 'e list" where
  "handed_out event [] = []"
| "handed_out event (x # xs) = (case event x of None \<Rightarrow> handed_out event xs | Some e \<Rightarrow> e # handed_out event xs)"

locale event_source =
  fixes step :: "'op \<Rightarrow> 's \<Rightarrow> 'o \<times> 's"
    and event :: "'o \<Rightarrow> 'e option"
    and queued :: "'s \<Rightarrow> 'e list"
    and observe :: "'e \<Rightarrow> 'ph \<Rightarrow> 'ph option"
    and phase :: "'s \<Rightarrow> 'ph \<Rightarrow> bool"
  assumes hands_out: "step op s = (x, s') \<Longrightarrow> event x = Some e \<Longrightarrow> phase s ph \<Longrightarrow>
      queued s = e # queued s' \<and> phase s' ph"
    and appends: "step op s = (x, s') \<Longrightarrow> event x = None \<Longrightarrow> phase s ph \<Longrightarrow>
      \<exists>es ph'. queued s' = queued s @ es \<and> follow observe es ph = Some ph' \<and> phase s' ph'"
begin

lemma step_follows:
  assumes "step op s = (x, s')" "follow observe (seen @ queued s) start = Some ph" "phase s ph"
  shows "\<exists>ph'. follow observe (seen @ handed_out event [x] @ queued s') start = Some ph' \<and> phase s' ph'"
proof (cases "event x")
  case None
  then obtain es ph' where "queued s' = queued s @ es" "follow observe es ph = Some ph'" "phase s' ph'"
    using appends [OF assms(1) _ assms(3)] by blast
  then show ?thesis using assms(2) None by (auto simp: follow_append split: option.splits)
next
  case (Some e)
  then show ?thesis using hands_out [OF assms(1) _ assms(3)] assms(2) by auto
qed

lemma run_follows:
  assumes "run_steps step ops s = (xs, s')" "follow observe (seen @ queued s) start = Some ph" "phase s ph"
  shows "\<exists>ph'. follow observe (seen @ handed_out event xs @ queued s') start = Some ph' \<and> phase s' ph'"
  using assms
proof (induction ops arbitrary: s xs s' seen ph)
  case (Cons op ops)
  obtain x s1 where s: "step op s = (x, s1)" by (cases "step op s")
  obtain ys s2 where r: "run_steps step ops s1 = (ys, s2)" by (cases "run_steps step ops s1")
  obtain ph1 where "follow observe ((seen @ handed_out event [x]) @ queued s1) start = Some ph1" "phase s1 ph1"
    using step_follows [OF s Cons.prems(2,3)] by auto
  from Cons.IH [OF r this]
  have "\<exists>ph'. follow observe (seen @ handed_out event (x # ys) @ queued s2) start = Some ph' \<and> phase s2 ph'"
    by (cases "event x") simp_all
  then show ?case using Cons.prems(1) s r by auto
qed auto

lemma run_from_start:
  assumes "run_steps step ops s = (xs, s')" "queued s = []" "phase s start"
  shows "\<exists>ph. follow observe (handed_out event xs @ queued s') start = Some ph \<and> phase s' ph"
  using run_follows [OF assms(1), of "[]" start start] assms(2,3) by simp

end

end
