(* ===== verification/Dstar_Client_Runs.thy ===== *)
theory Dstar_Client_Runs
  imports Dstar_Client Event_Source
begin

text \<open>
  Runs of the client session core. A run is a sequence of calls on a fresh session, in any order
  and at any instants. The events a consumer receives, together with those still queued, are
  shown to be a word of a small automaton (link up, streams that open and close one at a time,
  one final disconnect), which is the contract the shells and the applications rely on. The
  second half is the state invariant: no panic, every queued datagram addressed to the reflector
  and readable by it, and armed timers that end every open session.
\<close>

section \<open>Calls and runs\<close>

datatype client_op =
    AttachHosts HostList
  | Connect instant
  | Disconnect instant
  | SendHeader instant DstarHeader StreamId
  | SendVoice instant StreamId FrameSequence VoiceFrame
  | SendEot instant StreamId FrameSequence
  | Input instant SocketAddr bytes
  | Timeout instant
  | PollTransmit instant
  | PollEvent ProtocolKind
  | DrainDiagnostics

datatype client_output =
    Returned "Error + unit"
  | Sent "Transmit option"
  | Happened "Event option"
  | Diagnosed diagnostics

fun client_step :: "client_op \<Rightarrow> SessionCore \<Rightarrow> client_output \<times> SessionCore" where
  "client_step (AttachHosts l) c = apfst Returned (attach_host_list l c)"
| "client_step (Connect t) c = apfst Returned (enqueue_connect t c)"
| "client_step (Disconnect t) c = apfst Returned (enqueue_disconnect t c)"
| "client_step (SendHeader t h s) c = apfst Returned (enqueue_send_header t h s c)"
| "client_step (SendVoice t s q f) c = apfst Returned (enqueue_send_voice t s q f c)"
| "client_step (SendEot t s q) c = apfst Returned (enqueue_send_eot t s q c)"
| "client_step (Input t a bs) c = apfst Returned (handle_input t a bs c)"
| "client_step (Timeout t) c = apfst Returned (handle_timeout t c)"
| "client_step (PollTransmit t) c = apfst Sent (pop_transmit t c)"
| "client_step (PollEvent k) c = apfst Happened (pop_event k c)"
| "client_step DrainDiagnostics c = apfst Diagnosed (drain_diagnostics c)"

fun output_event :: "client_output \<Rightarrow> Event option" where
  "output_event (Happened e) = e"
| "output_event _ = None"

abbreviation delivered :: "client_output list \<Rightarrow> Event list" where
  "delivered \<equiv> handed_out output_event"

section \<open>The event automaton\<close>

datatype link_phase = Idle | Linked "StreamId option" | Finished

fun observe :: "Event \<Rightarrow> link_phase \<Rightarrow> link_phase option" where
  "observe (Ev_Connected _) Idle = Some (Linked None)"
| "observe (Ev_Disconnected _) Idle = Some Finished"
| "observe (Ev_Disconnected _) (Linked _) = Some Finished"
| "observe (Ev_PollEcho _) (Linked s) = Some (Linked s)"
| "observe (Ev_VoiceStart s _ _) (Linked None) = Some (Linked (Some s))"
| "observe (Ev_VoiceFrame s _ _) (Linked (Some s')) = (if s = s' then Some (Linked (Some s')) else None)"
| "observe (Ev_VoiceEnd s _) (Linked (Some s')) = (if s = s' then Some (Linked None) else None)"
| "observe _ _ = None"

abbreviation observe_all :: "Event list \<Rightarrow> link_phase \<Rightarrow> link_phase option" where
  "observe_all \<equiv> follow observe"

text \<open>The phase a consumer may have seen, by the state of the session.\<close>

definition in_phase :: "SessionCore \<Rightarrow> link_phase \<Rightarrow> bool" where
  "in_phase c ph = (case sc_state c of
      CS_Configured \<Rightarrow> ph = Idle \<and> sc_active_rx_stream c = None
    | CS_Authenticated \<Rightarrow> ph = Idle \<and> sc_active_rx_stream c = None
    | CS_Connecting \<Rightarrow> ph = Idle \<and> sc_active_rx_stream c = None
    | CS_Connected \<Rightarrow> ph = Linked (sc_active_rx_stream c)
    | CS_Disconnecting \<Rightarrow> ph \<noteq> Finished
    | CS_Closed \<Rightarrow> ph = Finished)"

lemma in_phase_alt:
  "in_phase c ph \<longleftrightarrow>
     (sc_state c = CS_Configured \<or> sc_state c = CS_Authenticated \<or> sc_state c = CS_Connecting \<longrightarrow>
        ph = Idle \<and> sc_active_rx_stream c = None) \<and>
     (sc_state c = CS_Connected \<longrightarrow> ph = Linked (sc_active_rx_stream c)) \<and>
     (sc_state c = CS_Disconnecting \<longrightarrow> ph \<noteq> Finished) \<and> (sc_state c = CS_Closed \<longrightarrow> ph = Finished)"
  by (cases "sc_state c") (simp_all add: in_phase_def)

definition advances :: "SessionCore \<Rightarrow> SessionCore \<Rightarrow> bool" where
  "advances c c' \<longleftrightarrow> (\<exists>evs. sc_events c' = sc_events c @ evs \<and>
     (\<forall>ph. in_phase c ph \<longrightarrow> (\<exists>ph'. observe_all (map Event_of_raw evs) ph = Some ph' \<and> in_phase c' ph')))"

lemma advances_refl [simp]: "advances c c"
  unfolding advances_def by (rule exI [of _ "[]"]) simp

lemma advances_trans [trans]:
  assumes "advances a b" "advances b c"
  shows "advances a c"
proof -
  obtain es where es: "sc_events b = sc_events a @ es"
    "\<And>ph. in_phase a ph \<Longrightarrow> \<exists>ph'. observe_all (map Event_of_raw es) ph = Some ph' \<and> in_phase b ph'"
    using assms(1) unfolding advances_def by blast
  obtain fs where fs: "sc_events c = sc_events b @ fs"
    "\<And>ph. in_phase b ph \<Longrightarrow> \<exists>ph'. observe_all (map Event_of_raw fs) ph = Some ph' \<and> in_phase c ph'"
    using assms(2) unfolding advances_def by blast
  show ?thesis
    unfolding advances_def
  proof (intro exI [of _ "es @ fs"] conjI allI impI)
    fix ph assume "in_phase a ph"
    then obtain ph1 where "observe_all (map Event_of_raw es) ph = Some ph1" "in_phase b ph1" using es(2) by blast
    then show "\<exists>ph'. observe_all (map Event_of_raw (es @ fs)) ph = Some ph' \<and> in_phase c ph'"
      using fs(2) [of ph1] by (simp add: follow_append)
  qed (simp add: es(1) fs(1))
qed

text \<open>Calls that neither emit events nor touch the state and the stream.\<close>

lemma advances_quiet:
  "sc_events c' = sc_events c \<Longrightarrow> sc_state c' = sc_state c \<Longrightarrow> sc_active_rx_stream c' = sc_active_rx_stream c \<Longrightarrow>
     advances c c'"
  unfolding advances_def in_phase_def by (rule exI [of _ "[]"]) (cases "sc_state c"; simp)

lemma advances_event:
  assumes "sc_events c' = sc_events c @ [e]"
    "\<And>ph. in_phase c ph \<Longrightarrow> \<exists>ph'. observe (Event_of_raw e) ph = Some ph' \<and> in_phase c' ph'"
  shows "advances c c'"
  unfolding advances_def by (rule exI [of _ "[e]"]) (use assms in \<open>force\<close>)

lemmas quiet_defs = push_event_def enqueue_packet_def set_timer_def clear_timer_def arm_keepalive_inactivity_def
  arm_voice_inactivity_def arm_disconnect_deadline_def clear_timers_def

section \<open>Every call advances the automaton\<close>

lemma advances_arm [simp]: "advances c (arm_keepalive_inactivity now c)"
  by (rule advances_quiet) (simp_all add: quiet_defs)

lemma armed_fields [simp]:
  "sc_state (arm_keepalive_inactivity now c) = sc_state c"
  "sc_active_rx_stream (arm_keepalive_inactivity now c) = sc_active_rx_stream c"
  by (simp_all add: quiet_defs)

lemma advances_start:
  assumes "sc_state c = CS_Connected" "sc_active_rx_stream c = None"
  shows "advances c (start_stream now s h c)"
  by (rule advances_event [where e = "Raw_VoiceStart s h"])
     (use assms in \<open>simp_all add: start_stream_def quiet_defs in_phase_def Event_of_raw_def Let_def\<close>)

lemma advances_voice_start:
  assumes "sc_state c = CS_Connected"
  shows "advances c (emit_voice_start_if_new now s h c)"
proof (cases "sc_active_rx_stream c")
  case None
  then show ?thesis using advances_start [OF assms None] by (simp add: emit_voice_start_if_new_def)
next
  case (Some old)
  have "advances c (start_stream now s h (push_event (Raw_VoiceEnd old VE_Inactivity) c))"
    unfolding advances_def
    by (rule exI [of _ "[Raw_VoiceEnd old VE_Inactivity, Raw_VoiceStart s h]"])
       (use assms Some in \<open>simp add: start_stream_def quiet_defs in_phase_def Event_of_raw_def Let_def\<close>)
  then show ?thesis by (simp add: emit_voice_start_if_new_def Some Let_def)
qed

lemma advances_voice_frame:
  assumes "sc_state c = CS_Connected"
  shows "advances c (emit_voice_frame now s q f c)"
proof (cases "sc_active_rx_stream c = Some s")
  case True
  show ?thesis
    by (rule advances_event [where e = "Raw_VoiceFrame s q f"])
       (use assms True in \<open>simp_all add: emit_voice_frame_def quiet_defs in_phase_def Event_of_raw_def Let_def\<close>)
qed (simp add: emit_voice_frame_def)

lemma advances_voice_end:
  assumes "sc_state c = CS_Connected"
  shows "advances c (emit_voice_end s r c)"
proof (cases "sc_active_rx_stream c = Some s")
  case True
  show ?thesis
    by (rule advances_event [where e = "Raw_VoiceEnd s r"])
       (use assms True in \<open>simp_all add: emit_voice_end_def quiet_defs in_phase_def Event_of_raw_def Let_def\<close>)
qed (simp add: emit_voice_end_def)

lemma emit_state [simp]:
  "sc_state (emit_voice_start_if_new now s h c) = sc_state c"
  "sc_state (emit_voice_frame now s q f c) = sc_state c"
  "sc_state (emit_voice_end s r c) = sc_state c"
  by (simp_all add: emit_voice_start_if_new_def emit_voice_frame_def emit_voice_end_def start_stream_def quiet_defs Let_def
      split: option.splits)

lemma advances_poll_echo:
  "sc_state c = CS_Connected \<Longrightarrow> advances c (push_event (Raw_PollEcho peer) (arm_keepalive_inactivity now c))"
  by (rule advances_event [where e = "Raw_PollEcho peer"])
     (simp_all add: quiet_defs in_phase_def Event_of_raw_def)

lemma advances_connected: "sc_state c = CS_Connecting \<Longrightarrow> advances c (finalize_connected peer now c)"
  by (rule advances_event [where e = "Raw_Connected peer"])
     (simp_all add: finalize_connected_def quiet_defs in_phase_def Event_of_raw_def Let_def)

lemma observe_disconnect: "ph \<noteq> Finished \<Longrightarrow> observe (Ev_Disconnected r) ph = Some Finished"
  by (cases ph) simp_all

lemma in_phase_open: "in_phase c ph \<Longrightarrow> sc_state c \<noteq> CS_Closed \<Longrightarrow> ph \<noteq> Finished"
  by (cases "sc_state c") (simp_all add: in_phase_def)

lemma finalize_rejected_eq: "finalize_rejected c = finalize_disconnect Rejected c"
  by (simp add: finalize_rejected_def finalize_disconnect_def)

lemma advances_closed: "sc_state c \<noteq> CS_Closed \<Longrightarrow> advances c (finalize_disconnect r c)"
  by (rule advances_event [where e = "Raw_Disconnected r"])
     (auto simp: finalize_disconnect_def quiet_defs Event_of_raw_def in_phase_def [of "_\<lparr>sc_events := _\<rparr>"]
       dest!: in_phase_open observe_disconnect)

lemma advances_ack: "advances c (on_connect_ack now peer cs m r c)"
  by (simp add: on_connect_ack_def advances_connected)

lemma advances_nak: "advances c (on_connect_nak cs m r c)"
  by (simp add: on_connect_nak_def finalize_rejected_eq advances_closed)

lemma advances_voice:
  assumes "sc_state c = CS_Connected"
  shows "advances c (emit_voice_start_if_new now s h (arm_keepalive_inactivity now c))"
    and "advances c (emit_voice_frame now s q f (arm_keepalive_inactivity now c))"
    and "advances c (emit_voice_end s r (arm_keepalive_inactivity now c))"
    and "advances c (emit_voice_frame now s q f (emit_voice_start_if_new now s h (arm_keepalive_inactivity now c)))"
proof -
  let ?a = "arm_keepalive_inactivity now c"
  have a: "sc_state ?a = CS_Connected" using assms by simp
  show "advances c (emit_voice_start_if_new now s h ?a)" "advances c (emit_voice_frame now s q f ?a)"
    "advances c (emit_voice_end s r ?a)"
    by (rule advances_trans [OF advances_arm advances_voice_start [OF a]]
        advances_trans [OF advances_arm advances_voice_frame [OF a]]
        advances_trans [OF advances_arm advances_voice_end [OF a]])+
  have "advances c (emit_voice_start_if_new now s h ?a)"
    by (rule advances_trans [OF advances_arm advances_voice_start [OF a]])
  then show "advances c (emit_voice_frame now s q f (emit_voice_start_if_new now s h ?a))"
    by (rule advances_trans) (rule advances_voice_frame, simp add: assms)
qed

lemma advances_dispatch:
  shows "sc_state c = CS_Connected \<or> \<not> dextra_needs_link p \<Longrightarrow> advances c (dextra_dispatch now peer p c)"
    and "sc_state c = CS_Connected \<or> \<not> dcs_needs_link r \<Longrightarrow> advances c (dcs_dispatch now peer r c)"
    and "sc_state c = CS_Connected \<or> \<not> dplus_needs_link d \<Longrightarrow> advances c (snd (dplus_dispatch now peer d c))"
proof -
  show "sc_state c = CS_Connected \<or> \<not> dextra_needs_link p \<Longrightarrow> advances c (dextra_dispatch now peer p c)"
    by (cases p) (auto simp: dextra_dispatch_def dextra_needs_link_def advances_ack advances_nak advances_poll_echo advances_voice)
  show "sc_state c = CS_Connected \<or> \<not> dcs_needs_link r \<Longrightarrow> advances c (dcs_dispatch now peer r c)"
    by (cases r) (auto simp: dcs_dispatch_def dcs_needs_link_def advances_ack advances_nak advances_poll_echo advances_voice Let_def)
  have link1: "advances c (arm_keepalive_inactivity now (enqueue_packet now pl c))" for pl
    by (rule advances_quiet) (simp_all add: quiet_defs)
  show "sc_state c = CS_Connected \<or> \<not> dplus_needs_link d \<Longrightarrow> advances c (snd (dplus_dispatch now peer d c))"
    by (cases d) (auto simp: dplus_dispatch_def dplus_needs_link_def advances_poll_echo advances_voice link1 advances_connected
        advances_closed finalize_rejected_eq split: sum.split Link2Result.split)
qed

lemma advances_diagnostics: "advances (c\<lparr>sc_diagnostics := d\<rparr>) c' \<Longrightarrow> advances c c'"
  using advances_trans [OF advances_quiet [of "c\<lparr>sc_diagnostics := d\<rparr>" c]] by simp

lemma advances_input: "advances c (snd (handle_input now peer bs c))"
proof -
  have d: "advances c (c\<lparr>sc_diagnostics := d\<rparr>)" for d by (rule advances_quiet) simp_all
  have disp:
    "sc_state c = CS_Connected \<or> \<not> dplus_needs_link p \<Longrightarrow> advances c (snd (dplus_dispatch now peer p (c\<lparr>sc_diagnostics := d\<rparr>)))"
    "sc_state c = CS_Connected \<or> \<not> dextra_needs_link q \<Longrightarrow> advances c (dextra_dispatch now peer q (c\<lparr>sc_diagnostics := d\<rparr>))"
    "sc_state c = CS_Connected \<or> \<not> dcs_needs_link r \<Longrightarrow> advances c (dcs_dispatch now peer r (c\<lparr>sc_diagnostics := d\<rparr>))"
    for p q r d
    by (rule advances_diagnostics [of _ c], rule advances_dispatch, simp)+
  have "advances c (snd (handle_dplus_input now peer bs c))"
    by (auto simp: handle_dplus_input_def Let_def d disp split: prod.splits sum.splits)
  moreover have "advances c (snd (handle_dextra_input now peer bs c))"
    by (auto simp: handle_dextra_input_def Let_def d disp split: prod.splits sum.splits)
  moreover have "advances c (snd (handle_dcs_input now peer bs c))"
    by (auto simp: handle_dcs_input_def Let_def d disp split: prod.splits sum.splits)
  ultimately show ?thesis
    by (auto simp: handle_input_def split: sum.split ProtocolKind.split)
qed

lemma advances_calls:
  "advances c (snd (attach_host_list l c))" "advances c (snd (enqueue_connect now c))"
  "advances c (snd (enqueue_disconnect now c))" "advances c (snd (enqueue_send_header now h s c))"
  "advances c (snd (enqueue_send_voice now s q f c))" "advances c (snd (enqueue_send_eot now s q c))"
proof -
  have phase: "advances c c'"
    if "sc_events c' = sc_events c" "sc_active_rx_stream c' = sc_active_rx_stream c"
      "\<And>ph. in_phase c ph \<Longrightarrow> in_phase c' ph" for c'
    unfolding advances_def by (rule exI [of _ "[]"]) (use that in simp)
  show "advances c (snd (attach_host_list l c))"
    by (rule phase) (auto simp: attach_host_list_def in_phase_alt)
  show "advances c (snd (enqueue_connect now c))"
    by (rule phase) (auto simp: enqueue_connect_def in_phase_alt Let_def quiet_defs split: sum.splits if_splits)
  show "advances c (snd (enqueue_disconnect now c))"
    by (rule phase) (auto simp: enqueue_disconnect_def in_phase_alt Let_def quiet_defs split: sum.splits)
  show "advances c (snd (enqueue_send_header now h s c))"
    by (rule advances_quiet) (auto simp: enqueue_send_header_def Let_def quiet_defs split: sum.splits)
  show "advances c (snd (enqueue_send_voice now s q f c))"
    by (rule advances_quiet) (auto simp: enqueue_send_voice_def Let_def quiet_defs split: sum.splits)
  show "advances c (snd (enqueue_send_eot now s q c))"
    by (rule advances_quiet) (auto simp: enqueue_send_eot_def Let_def quiet_defs split: sum.splits)
qed

lemma advances_timeout: "advances c (snd (handle_timeout now c))"
proof -
  have keep: "advances c c'" if "timeout_keepalive now c = (r, c')" for r c'
    by (rule advances_quiet)
       (use that in \<open>auto simp: timeout_keepalive_def enqueue_poll_def quiet_defs split: if_splits prod.splits sum.splits option.splits\<close>)
  have voice: "advances d (timeout_voice now d)" for d
    by (auto simp: timeout_voice_def advances_voice_end split: option.split intro: advances_quiet)
       (rule advances_quiet; simp add: quiet_defs)
  have link: "advances d (timeout_link now d)" for d
    by (auto simp: timeout_link_def advances_closed)
  have range: "advances c (finalize_disconnect ClockRange
      (c\<lparr>sc_outbox := Outbox_new, sc_active_rx_stream := None, sc_last_voice_activity_at := None\<rparr>))"
    if "sc_state c \<noteq> CS_Closed"
    by (rule advances_event [where e = "Raw_Disconnected ClockRange"])
       (use that in \<open>auto simp: finalize_disconnect_def quiet_defs Event_of_raw_def in_phase_def [of "_\<lparr>sc_events := _\<rparr>"]
         dest!: in_phase_open observe_disconnect\<close>)
  show ?thesis
    by (auto simp: handle_timeout_def range split: sum.split prod.split intro: advances_trans [OF keep] advances_trans [OF voice link])
qed

section \<open>What a consumer observes\<close>

lemma client_step_advances:
  assumes "client_step op c = (x, c')" "\<And>k. op \<noteq> PollEvent k"
  shows "advances c c'" "output_event x = None"
proof -
  have c': "c' = snd (client_step op c)" "x = fst (client_step op c)" using assms(1) by simp_all
  have "advances c (snd (pop_transmit t c))" for t
    by (auto simp: pop_transmit_def split: prod.splits option.splits intro!: advances_quiet)
  moreover have "advances c (snd (drain_diagnostics c))"
    by (auto simp: drain_diagnostics_def intro!: advances_quiet)
  ultimately show "advances c c'"
    using assms(2) unfolding c' by (cases op) (auto simp: advances_input advances_timeout advances_calls)
  show "output_event x = None"
    using assms(2) unfolding c' by (cases op) auto
qed

definition queued_events :: "SessionCore \<Rightarrow> Event list" where
  "queued_events c = map Event_of_raw (sc_events c)"

lemma pop_event_cases:
  "pop_event k c = (None, c) \<or>
     (\<exists>raw rest. sc_events c = raw # rest \<and> pop_event k c = (Some (Event_of_raw raw), c\<lparr>sc_events := rest\<rparr>))"
  by (cases "sc_events c") (simp_all add: pop_event_def)

interpretation client_events: event_source client_step output_event queued_events observe in_phase
proof
  fix op c x c' e ph assume s: "client_step op c = (x, c')" "output_event x = Some e" "in_phase c ph"
  then obtain k where op: "op = PollEvent k" using client_step_advances(2) by fastforce
  then show "queued_events c = e # queued_events c' \<and> in_phase c' ph"
    using s pop_event_cases [of k c] by (auto simp: queued_events_def in_phase_alt)
next
  fix op c x c' ph assume s: "client_step op c = (x, c')" "output_event x = None" "in_phase c ph"
  have "advances c c'"
  proof (cases "\<exists>k. op = PollEvent k")
    case True
    then obtain k where "op = PollEvent k" by blast
    then show ?thesis using s pop_event_cases [of k c] by auto
  qed (use client_step_advances [OF s(1)] in blast)
  then obtain evs ph' where "sc_events c' = sc_events c @ evs" "observe_all (map Event_of_raw evs) ph = Some ph'" "in_phase c' ph'"
    using s(3) unfolding advances_def by blast
  then show "\<exists>es ph'. queued_events c' = queued_events c @ es \<and> observe_all es ph = Some ph' \<and> in_phase c' ph'"
    by (auto simp: queued_events_def)
qed

lemma new_in_phase: "in_phase (SessionCore_new cfg) Idle"
  by (simp add: in_phase_def SessionCore_new_def)

text \<open>C1. Whatever sequence of calls a driver makes on a session, the events its consumer has
  received, followed by those still queued, form a run of the event automaton: the link comes up
  at most once, voice streams open one at a time, every voice frame and every stream end belongs
  to the stream that is open, nothing but the final disconnect follows a disconnect, and the
  automaton is where the state of the session says it is. All three protocols, duplicated,
  reordered, foreign and malformed datagrams, and clocks that run backwards are covered.\<close>

theorem client_event_protocol:
  assumes "run_steps client_step ops (SessionCore_new cfg) = (outs, c)"
  shows "\<exists>ph. observe_all (delivered outs @ map Event_of_raw (sc_events c)) Idle = Some ph \<and> in_phase c ph"
  using client_events.run_from_start [OF assms, of Idle] new_in_phase [of cfg]
  by (simp add: queued_events_def SessionCore_new_def)

section \<open>The state invariant\<close>

text \<open>What the reflector's decoder makes of a datagram.\<close>

definition decodable :: "ProtocolKind \<Rightarrow> bytes \<Rightarrow> bool" where
  "decodable k bs \<longleftrightarrow> (case k of
      PK_DPlus \<Rightarrow> \<not> isl (fst (dplus_decode_client_to_server bs []))
    | PK_DExtra \<Rightarrow> \<not> isl (fst (dextra_decode_client_to_server bs []))
    | PK_Dcs \<Rightarrow> \<not> isl (fst (dcs_decode_client_to_server bs [])))"

definition config_wf :: "SessionConfig \<Rightarrow> bool" where
  "config_wf cfg \<longleftrightarrow> RoutingCallsign_wf (cfg_callsign cfg) \<and> Module_wf (cfg_local_module cfg) \<and>
     Module_wf (cfg_reflector_module cfg) \<and>
     (case cfg_protocol cfg of CP_Dcs r \<Rightarrow> DcsReflector_wf r | _ \<Rightarrow> True)"

definition identity_ok :: "SessionCore \<Rightarrow> bool" where
  "identity_ok c \<longleftrightarrow> sc_kind c = ClientProtocol_kind (sc_protocol c) \<and> RoutingCallsign_wf (sc_callsign c) \<and>
     Module_wf (sc_local_module c) \<and> Module_wf (sc_reflector_module c) \<and>
     (case sc_protocol c of CP_Dcs r \<Rightarrow> DcsReflector_wf r | _ \<Rightarrow> True) \<and>
     (case sc_cached_tx_header c of Some h \<Rightarrow> DstarHeader_wf h | None \<Rightarrow> True)"

definition outbox_ok :: "SessionCore \<Rightarrow> bool" where
  "outbox_ok c \<longleftrightarrow> outbox_wf (sc_outbox c) \<and>
     list_all (\<lambda>p. op_dst p = sc_peer c \<and> decodable (sc_kind c) (op_payload p)) (waiting (sc_outbox c))"

definition armed :: "SessionCore \<Rightarrow> TimerId \<Rightarrow> bool" where
  "armed c t \<longleftrightarrow> TimerWheel_timer (sc_timers c) t \<noteq> None"

definition timers_ok :: "SessionCore \<Rightarrow> bool" where
  "timers_ok c \<longleftrightarrow>
     (sc_state c = CS_Configured \<or> sc_state c = CS_Authenticated \<or> sc_state c = CS_Closed \<longrightarrow>
        \<not> armed c Keepalive \<and> \<not> armed c KeepaliveInactivity \<and> \<not> armed c DisconnectDeadline \<and> \<not> armed c VoiceInactivity) \<and>
     (sc_state c = CS_Configured \<or> sc_state c = CS_Authenticated \<or> sc_state c = CS_Connecting \<longrightarrow>
        sc_active_rx_stream c = None) \<and>
     (sc_state c = CS_Connecting \<longrightarrow> armed c KeepaliveInactivity) \<and>
     (sc_state c = CS_Connected \<longrightarrow> armed c Keepalive \<and> armed c KeepaliveInactivity \<and>
        (sc_active_rx_stream c \<noteq> None \<longrightarrow> armed c VoiceInactivity)) \<and>
     (sc_state c = CS_Disconnecting \<longrightarrow> armed c DisconnectDeadline)"

definition client_inv :: "SessionCore \<Rightarrow> bool" where
  "client_inv c \<longleftrightarrow> identity_ok c \<and> outbox_ok c \<and> timers_ok c"

section \<open>Scratch buffers are large enough\<close>

context datagram
begin

lemma encoded_wire: "wf p \<Longrightarrow> length (wire p) \<le> cap \<Longrightarrow> encoded cap (encode p) = Ok (wire p)"
  using encode_fits [of p "replicate cap 0"] by (simp add: encoded_def get_range_def)

lemma encoded_vec_wire: "wf p \<Longrightarrow> length (wire p) \<le> cap \<Longrightarrow> encoded_vec cap (encode p) = Ok (wire p)"
  using encode_fits [of p "replicate cap 0"] by (simp add: encoded_vec_def)

end

lemma decodable_wire:
  "dplus_client_wf p \<Longrightarrow> decodable PK_DPlus (dplus_client_wire p)"
  "dextra_client_wf q \<Longrightarrow> decodable PK_DExtra (dextra_client_wire q)"
  "dcs_client_wf r \<Longrightarrow> decodable PK_Dcs (dcs_client_wire r)"
  by (simp_all add: decodable_def dplus_up.dec_wire dextra_up.dec_wire dcs_up.dec_wire)

text \<open>A DCS voice packet is readable whatever its slow data holds.\<close>

lemma decodable_dcs_voice:
  assumes "DstarHeader_wf h" "StreamId_wf s" "length a = 9" "length slow = 3"
  shows "decodable PK_Dcs (dcs_voice_wire h s q a slow)"
proof -
  let ?w = "dcs_voice_wire h s q a slow"
  have "get_range 0 4 ?w = Some DCS_VOICE_MAGIC" by (simp add: dcs_voice_wire_def get_range_def)
  moreover have "byte_at 43 ?w = crc_lo (stream_raw s)" "byte_at 44 ?w = crc_hi (stream_raw s)"
    using assms length_header_fields [of h] by (simp_all add: dcs_voice_wire_def byte_at_append stream_le_bytes)
  ultimately have "\<not> isl (fst (dcs_parse_voice ?w []))"
    using assms by (simp add: dcs_parse_voice_def Let_def ok_or_def)
  then have "\<not> isl (fst (dcs_decode_client_voice ?w []))"
    by (auto simp: dcs_decode_client_voice_def split: prod.splits sum.splits)
  then show ?thesis
    using assms by (simp add: decodable_def dcs_decode_client_to_server_def length_dcs_wires dcs_lens)
qed

lemma dcs_encoded_voice:
  assumes "DstarHeader_wf h" "StreamId_wf s" "VoiceFrame_wf f"
  shows "\<exists>bs. encoded 256 (\<lambda>buf. dcs_encode_voice buf h s q f e) = Ok bs \<and> decodable PK_Dcs bs"
proof -
  let ?w = "dcs_voice_wire h s (dcs_voice_seq q e) (ambe f) (dcs_voice_slow f e)"
  have "length ?w = 100" using assms by (simp add: dcs_wire_lens)
  then have "encoded 256 (\<lambda>buf. dcs_encode_voice buf h s q f e) = Ok ?w"
    using assms by (simp add: encoded_def dcs_encode_voice_eq get_range_def dcs_voice_seq_def dcs_voice_slow_def)
  then show ?thesis using assms by (simp add: decodable_dcs_voice dcs_wire_lens)
qed

lemma silence_wf: "VoiceFrame_wf VoiceFrame_silence"
  by (simp add: VoiceFrame_wf_def VoiceFrame_silence_def)

lemma client_encode_fun [simp]:
  "dplus_client_encode DpLink1 = dplus_encode_link1" "dplus_client_encode DpUnlink = dplus_encode_unlink"
  "dplus_client_encode (DpLink2 c) = (\<lambda>buf. dplus_encode_link2 buf c)"
  "dextra_client_encode (DxLink i m) = (\<lambda>buf. dextra_encode_connect_link buf i m)"
  "dextra_client_encode (DxUnlink i) = (\<lambda>buf. dextra_encode_unlink buf i)"
  "dcs_client_encode (DcLink i m r g) = (\<lambda>buf. dcs_encode_connect_link buf i m r g)"
  "dcs_client_encode (DcUnlink i r) = (\<lambda>buf. dcs_encode_connect_unlink buf i r)"
  "dplus_client_encode (DpHeader s h) = (\<lambda>buf. dplus_encode_voice_header buf s h)"
  "dplus_client_encode (DpVoice s q f) = (\<lambda>buf. dplus_encode_voice_data buf s q f)"
  "dplus_client_encode (DpEot s q) = (\<lambda>buf. dplus_encode_voice_eot buf s q)"
  "dextra_client_encode (DxHeader s h) = (\<lambda>buf. dextra_encode_voice_header buf s h)"
  "dextra_client_encode (DxVoice s q f) = (\<lambda>buf. dextra_encode_voice_data buf s q f)"
  "dextra_client_encode (DxEot s q) = (\<lambda>buf. dextra_encode_voice_eot buf s q)"
  by (rule ext, simp)+

text \<open>Every payload the session builds exists and can be read by the reflector.\<close>

lemma session_payloads:
  assumes "identity_ok c"
  shows "\<exists>bs. connect_payload c = Ok bs \<and> decodable (sc_kind c) bs"
    and "\<exists>bs. disconnect_payload c = Ok bs \<and> decodable (sc_kind c) bs"
    and "\<exists>bs. poll_payload c = Ok (Some bs) \<and> decodable (sc_kind c) bs"
proof -
  have id: "RepeaterIdentity_wf (local_identity c)" "Module_wf (sc_reflector_module c)" "RoutingCallsign_wf (sc_callsign c)"
    using assms by (simp_all add: identity_ok_def RepeaterIdentity_wf_def local_identity_def)
  have call: "DstarCallsign_wf (SessionCore_callsign c)" using id by (simp add: SessionCore_callsign_def routing_callsign_wf)
  have dcs: "\<exists>r. dcs_reflector_callsign c = Ok r \<and> DcsReflector_wf r" if "sc_kind c = PK_Dcs"
    using assms that by (cases "sc_protocol c") (simp_all add: identity_ok_def ClientProtocol_kind_def dcs_reflector_callsign_def)
  note wires = dplus_up.encoded_wire [of DpLink1 32, simplified] dplus_up.encoded_wire [of DpUnlink 16, simplified]
    dextra_up.encoded_wire [of "DxLink (local_identity c) (sc_reflector_module c)" 16, simplified]
    dextra_up.encoded_wire [of "DxUnlink (local_identity c)" 16, simplified]
  show "\<exists>bs. connect_payload c = Ok bs \<and> decodable (sc_kind c) bs"
  proof (cases "sc_kind c")
    case PK_DPlus
    then show ?thesis using wires(1) decodable_wire(1) [of DpLink1] by (simp add: connect_payload_def dplus_err_def)
  next
    case PK_DExtra
    then show ?thesis
      using wires(3) id decodable_wire(2) [of "DxLink (local_identity c) (sc_reflector_module c)"]
      by (simp add: connect_payload_def dextra_err_def length_dextra_connect_wire)
  next
    case PK_Dcs
    then obtain r where r: "dcs_reflector_callsign c = Ok r" "DcsReflector_wf r" using dcs by blast
    let ?p = "DcLink (local_identity c) (sc_reflector_module c) r GT_Dongle"
    have "encoded_vec 600 (dcs_client_encode ?p) = Ok (dcs_client_wire ?p)"
      by (rule dcs_up.encoded_vec_wire) (use id r in \<open>simp_all add: length_dcs_wires\<close>)
    then show ?thesis
      using PK_Dcs r id decodable_wire(3) [of ?p] by (simp add: connect_payload_def dcs_err_def)
  qed
  show "\<exists>bs. disconnect_payload c = Ok bs \<and> decodable (sc_kind c) bs"
  proof (cases "sc_kind c")
    case PK_DPlus
    then show ?thesis using wires(2) decodable_wire(1) [of DpUnlink] by (simp add: disconnect_payload_def dplus_err_def)
  next
    case PK_DExtra
    then show ?thesis
      using wires(4) id decodable_wire(2) [of "DxUnlink (local_identity c)"]
      by (simp add: disconnect_payload_def dextra_err_def length_dextra_connect_wire)
  next
    case PK_Dcs
    then obtain r where r: "dcs_reflector_callsign c = Ok r" "DcsReflector_wf r" using dcs by blast
    have "encoded 32 (dcs_client_encode (DcUnlink (local_identity c) r)) = Ok (dcs_client_wire (DcUnlink (local_identity c) r))"
      by (rule dcs_up.encoded_wire) (use id r in \<open>simp_all add: length_dcs_wires\<close>)
    then show ?thesis
      using PK_Dcs r id decodable_wire(3) [of "DcUnlink (local_identity c) r"] by (simp add: disconnect_payload_def dcs_err_def)
  qed
  show "\<exists>bs. poll_payload c = Ok (Some bs) \<and> decodable (sc_kind c) bs"
  proof (cases "sc_kind c")
    case PK_DPlus
    then show ?thesis
      using decodable_wire(1) [of DpPoll]
      by (simp add: poll_payload_def dplus_encode_poll_def dplus_write_fixed_eq get_range_def)
  next
    case PK_DExtra
    then show ?thesis
      using call decodable_wire(2) [of "DxPoll (SessionCore_callsign c)"]
      by (simp add: poll_payload_def dextra_encode_poll_eq get_range_def DstarCallsign_wf_def)
  next
    case PK_Dcs
    then obtain r where r: "dcs_reflector_callsign c = Ok r" "DcsReflector_wf r" using dcs by blast
    then show ?thesis
      using PK_Dcs id call decodable_wire(3) [of "DcPoll (sc_callsign c) r"]
      by (simp add: poll_payload_def dcs_encode_eqs get_range_def length_dcs_wires)
  qed
qed

section \<open>Every call keeps the invariant\<close>

lemma armed_simps [simp]:
  "armed (set_timer t d c) t' \<longleftrightarrow> t' = t \<or> armed c t'"
  "armed (clear_timer t c) t' \<longleftrightarrow> t' \<noteq> t \<and> armed c t'"
  "armed (push_event e c) t = armed c t" "armed (enqueue_packet now bs c) t = armed c t"
  "armed (c\<lparr>sc_state := s\<rparr>) t = armed c t" "armed (c\<lparr>sc_active_rx_stream := a\<rparr>) t = armed c t"
  "armed (c\<lparr>sc_last_voice_activity_at := l\<rparr>) t = armed c t" "armed (c\<lparr>sc_outbox := q\<rparr>) t = armed c t"
  "armed (c\<lparr>sc_diagnostics := g\<rparr>) t = armed c t" "armed (c\<lparr>sc_host_list := hl\<rparr>) t = armed c t"
  "armed (c\<lparr>sc_cached_tx_header := ch\<rparr>) t = armed c t" "armed (c\<lparr>sc_events := ev\<rparr>) t = armed c t"
  "armed (c\<lparr>sc_current_tx := ct\<rparr>) t = armed c t"
  by (simp_all add: armed_def quiet_defs)

lemma helper_fields [simp]:
  "sc_state (set_timer t d c) = sc_state c" "sc_state (clear_timer t c) = sc_state c"
  "sc_state (push_event e c) = sc_state c" "sc_state (enqueue_packet now bs c) = sc_state c"
  "sc_active_rx_stream (set_timer t d c) = sc_active_rx_stream c" "sc_active_rx_stream (clear_timer t c) = sc_active_rx_stream c"
  "sc_active_rx_stream (push_event e c) = sc_active_rx_stream c"
  "sc_active_rx_stream (enqueue_packet now bs c) = sc_active_rx_stream c"
  "sc_kind (enqueue_packet now bs c) = sc_kind c"
  by (simp_all add: quiet_defs)

text \<open>Identity and outbox depend on neither timers, events, state nor the received stream.\<close>

definition static_part :: "SessionCore \<Rightarrow> SessionCore \<Rightarrow> bool" where
  "static_part c c' \<longleftrightarrow> sc_kind c' = sc_kind c \<and> sc_callsign c' = sc_callsign c \<and> sc_local_module c' = sc_local_module c \<and>
     sc_reflector_module c' = sc_reflector_module c \<and> sc_protocol c' = sc_protocol c \<and> sc_peer c' = sc_peer c \<and>
     sc_cached_tx_header c' = sc_cached_tx_header c \<and> sc_outbox c' = sc_outbox c"

lemma static_part_inv: "static_part c c' \<Longrightarrow> identity_ok c \<and> outbox_ok c \<Longrightarrow> identity_ok c' \<and> outbox_ok c'"
  by (auto simp: static_part_def identity_ok_def outbox_ok_def list_all_iff)

lemma static_parts [simp]:
  "static_part c (finalize_connected peer now c)" "static_part c (finalize_disconnect r c)"
  "static_part c (emit_voice_start_if_new now s h (arm_keepalive_inactivity now c))"
  "static_part c (emit_voice_frame now s q f (arm_keepalive_inactivity now c))"
  "static_part c (emit_voice_frame now s q f (emit_voice_start_if_new now s h (arm_keepalive_inactivity now c)))"
  "static_part c (emit_voice_end s ve (arm_keepalive_inactivity now c))" "static_part c (emit_voice_end s ve c)"
  "static_part c (push_event e (arm_keepalive_inactivity now c))" "static_part c (clear_timer t c)"
  "static_part c (c\<lparr>sc_diagnostics := d\<rparr>)"
  by (simp_all add: static_part_def finalize_connected_def finalize_disconnect_def emit_voice_start_if_new_def
      emit_voice_frame_def emit_voice_end_def start_stream_def quiet_defs Let_def split: option.splits)

lemma timers_finalize [simp]: "timers_ok (finalize_disconnect r c)"
  by (simp add: timers_ok_def finalize_disconnect_def clear_timers_def)

lemma timers_connected:
  "sc_state c = CS_Connecting \<Longrightarrow> sc_active_rx_stream c = None \<Longrightarrow> timers_ok (finalize_connected peer now c)"
  by (simp add: timers_ok_def finalize_connected_def arm_keepalive_inactivity_def Let_def)

lemma timers_voice:
  assumes "timers_ok c" "sc_state c = CS_Connected"
  shows "timers_ok (emit_voice_start_if_new now s h c)" "timers_ok (emit_voice_frame now s q f c)"
    "timers_ok (emit_voice_end s r c)" "timers_ok (push_event e c)" "timers_ok (arm_keepalive_inactivity now c)"
    "sc_active_rx_stream c = None \<Longrightarrow> timers_ok (clear_timer VoiceInactivity c)"
  using assms
  by (auto simp: timers_ok_def emit_voice_start_if_new_def emit_voice_frame_def emit_voice_end_def start_stream_def
      arm_voice_inactivity_def arm_keepalive_inactivity_def Let_def split: option.splits)

lemma client_inv_voice:
  assumes "client_inv c" "sc_state c = CS_Connected"
  shows "client_inv (emit_voice_start_if_new now s h (arm_keepalive_inactivity now c))"
    "client_inv (emit_voice_frame now s q f (arm_keepalive_inactivity now c))"
    "client_inv (emit_voice_frame now s q f (emit_voice_start_if_new now s h (arm_keepalive_inactivity now c)))"
    "client_inv (emit_voice_end s r (arm_keepalive_inactivity now c))" "client_inv (emit_voice_end s r c)"
    "client_inv (push_event e (arm_keepalive_inactivity now c))"
    "sc_active_rx_stream c = None \<Longrightarrow> client_inv (clear_timer VoiceInactivity c)"
  using assms static_part_inv [of c] timers_voice by (simp_all add: client_inv_def)

lemma client_inv_finalize: "client_inv c \<Longrightarrow> client_inv (finalize_disconnect r c)"
  using static_part_inv [of c "finalize_disconnect r c"] by (simp add: client_inv_def)

lemma client_inv_connected:
  "client_inv c \<Longrightarrow> sc_state c = CS_Connecting \<Longrightarrow> sc_active_rx_stream c = None \<Longrightarrow> client_inv (finalize_connected peer now c)"
  using static_part_inv [of c "finalize_connected peer now c"] by (simp add: client_inv_def timers_connected)

lemma outbox_ok_enqueue: "outbox_ok c \<Longrightarrow> decodable (sc_kind c) bs \<Longrightarrow> outbox_ok (enqueue_packet now bs c)"
  using outbox.enq_contents [of "sc_outbox c"]
  by (auto simp: outbox_ok_def enqueue_packet_def outbox.enq_inv list_all_iff dest: set_takeWhileD set_dropWhileD)

lemma client_inv_enqueue: "client_inv c \<Longrightarrow> decodable (sc_kind c) bs \<Longrightarrow> client_inv (enqueue_packet now bs c)"
  using outbox_ok_enqueue [of c bs now]
  by (auto simp: client_inv_def identity_ok_def timers_ok_def enqueue_packet_def armed_def)

definition op_wf :: "client_op \<Rightarrow> bool" where
  "op_wf op = (case op of
      SendHeader _ h s \<Rightarrow> DstarHeader_wf h \<and> StreamId_wf s
    | SendVoice _ s q f \<Rightarrow> StreamId_wf s \<and> FrameSequence_wf q \<and> VoiceFrame_wf f
    | SendEot _ s q \<Rightarrow> StreamId_wf s \<and> FrameSequence_wf q
    | _ \<Rightarrow> True)"

text \<open>No call panics, and each keeps the invariant.\<close>

definition keeps :: "(Error + unit) \<times> SessionCore \<Rightarrow> bool" where
  "keeps r \<longleftrightarrow> fst r \<noteq> Err Error_Unreachable \<and> client_inv (snd r)"

lemma wrong_state_reachable [simp]: "wrong_state oper c \<noteq> Error_Unreachable"
  by (simp add: wrong_state_def)

lemma validate_time_cases: "validate_time c now = Ok () \<or> validate_time c now = Err (Error_State DeadlineOverflow)"
  by (simp add: validate_time_def split: option.split)

lemma keeps_connect:
  assumes "client_inv c"
  shows "keeps (enqueue_connect now c)"
proof -
  obtain bs where bs: "connect_payload c = Ok bs" "decodable (sc_kind c) bs"
    using session_payloads(1) [of c] assms by (auto simp: client_inv_def)
  have "client_inv (arm_keepalive_inactivity now ((enqueue_packet now bs c)\<lparr>sc_state := CS_Connecting\<rparr>))"
    if "sc_state c = CS_Configured \<or> sc_state c = CS_Authenticated"
  proof -
    let ?d = "arm_keepalive_inactivity now ((enqueue_packet now bs c)\<lparr>sc_state := CS_Connecting\<rparr>)"
    have "static_part (enqueue_packet now bs c) ?d" by (simp add: static_part_def quiet_defs)
    moreover have "timers_ok ?d"
      using assms that by (auto simp: client_inv_def timers_ok_def arm_keepalive_inactivity_def)
    ultimately show ?thesis
      using client_inv_enqueue [OF assms bs(2), of now] static_part_inv by (auto simp: client_inv_def)
  qed
  then show ?thesis
    using assms bs validate_time_cases [of c now] by (auto simp: keeps_def enqueue_connect_def Let_def split: if_splits)
qed

lemma keeps_disconnect:
  assumes "client_inv c"
  shows "keeps (enqueue_disconnect now c)"
proof -
  obtain bs where bs: "disconnect_payload c = Ok bs" "decodable (sc_kind c) bs"
    using session_payloads(2) [of c] assms by (auto simp: client_inv_def)
  have "client_inv (arm_disconnect_deadline now ((enqueue_packet now bs c)\<lparr>sc_state := CS_Disconnecting\<rparr>))"
  proof -
    let ?d = "arm_disconnect_deadline now ((enqueue_packet now bs c)\<lparr>sc_state := CS_Disconnecting\<rparr>)"
    have "static_part (enqueue_packet now bs c) ?d" by (simp add: static_part_def quiet_defs)
    moreover have "timers_ok ?d" by (auto simp: timers_ok_def arm_disconnect_deadline_def)
    ultimately show ?thesis
      using client_inv_enqueue [OF assms bs(2), of now] static_part_inv by (auto simp: client_inv_def)
  qed
  then show ?thesis
    using assms bs validate_time_cases [of c now] by (auto simp: keeps_def enqueue_disconnect_def Let_def split: if_splits)
qed

lemma keeps_attach: "client_inv c \<Longrightarrow> keeps (attach_host_list l c)"
  by (auto simp: keeps_def attach_host_list_def client_inv_def identity_ok_def outbox_ok_def timers_ok_def)

text \<open>The three voice senders encode into a buffer that holds every voice packet.\<close>

lemma header_payloads:
  assumes "StreamId_wf s" "DstarHeader_wf h"
  shows "\<exists>bs. encoded 256 (\<lambda>buf. dplus_encode_voice_header buf s h) = Ok bs \<and> decodable PK_DPlus bs"
    "\<exists>bs. encoded 256 (\<lambda>buf. dextra_encode_voice_header buf s h) = Ok bs \<and> decodable PK_DExtra bs"
  using assms dplus_up.encoded_wire [of "DpHeader s h" 256] dextra_up.encoded_wire [of "DxHeader s h" 256]
    decodable_wire(1) [of "DpHeader s h"] decodable_wire(2) [of "DxHeader s h"]
  by (simp_all add: dplus_wire_lens)

lemma voice_payloads:
  assumes "StreamId_wf s" "FrameSequence_wf q" "VoiceFrame_wf f"
  shows "\<exists>bs. encoded 256 (\<lambda>buf. dplus_encode_voice_data buf s q f) = Ok bs \<and> decodable PK_DPlus bs"
    "\<exists>bs. encoded 256 (\<lambda>buf. dextra_encode_voice_data buf s q f) = Ok bs \<and> decodable PK_DExtra bs"
  using assms dplus_up.encoded_wire [of "DpVoice s q f" 256] dextra_up.encoded_wire [of "DxVoice s q f" 256]
    decodable_wire(1) [of "DpVoice s q f"] decodable_wire(2) [of "DxVoice s q f"]
  by (simp_all add: dplus_wire_lens)

lemma eot_payloads:
  assumes "StreamId_wf s" "FrameSequence_wf q"
  shows "\<exists>bs. encoded 256 (\<lambda>buf. dplus_encode_voice_eot buf s q) = Ok bs \<and> decodable PK_DPlus bs"
    "\<exists>bs. encoded 256 (\<lambda>buf. dextra_encode_voice_eot buf s q) = Ok bs \<and> decodable PK_DExtra bs"
  using assms dplus_up.encoded_wire [of "DpEot s q" 256] dextra_up.encoded_wire [of "DxEot s q" 256]
    decodable_wire(1) [of "DpEot s q"] decodable_wire(2) [of "DxEot s q"]
  by simp_all

lemma client_inv_cache: "client_inv c \<Longrightarrow> DstarHeader_wf h \<Longrightarrow> client_inv (c\<lparr>sc_cached_tx_header := Some h\<rparr>)"
  by (auto simp: client_inv_def identity_ok_def outbox_ok_def timers_ok_def)

lemma keeps_send_header:
  assumes "client_inv c" "StreamId_wf s" "DstarHeader_wf h"
  shows "keeps (enqueue_send_header now h s c)"
proof -
  let ?c = "c\<lparr>sc_cached_tx_header := Some h\<rparr>"
  have inv: "client_inv ?c" using client_inv_cache assms by blast
  obtain a b d where "encoded 256 (\<lambda>buf. dplus_encode_voice_header buf s h) = Ok a" "decodable PK_DPlus a"
    "encoded 256 (\<lambda>buf. dextra_encode_voice_header buf s h) = Ok b" "decodable PK_DExtra b"
    "encoded 256 (\<lambda>buf. dcs_encode_voice buf h s FrameSequence_ZERO VoiceFrame_silence False) = Ok d" "decodable PK_Dcs d"
    using header_payloads [OF assms(2,3)]
      dcs_encoded_voice [OF assms(3,2) silence_wf, of FrameSequence_ZERO False] by blast
  then show ?thesis
    using assms client_inv_enqueue [OF inv, of _ now]
    by (cases "sc_kind c") (auto simp: keeps_def enqueue_send_header_def Let_def dplus_err_def dextra_err_def dcs_err_def)
qed

lemma cached_header_wf: "client_inv c \<Longrightarrow> sc_cached_tx_header c = Some h \<Longrightarrow> DstarHeader_wf h"
  by (simp add: client_inv_def identity_ok_def)

lemma keeps_send_voice:
  assumes "client_inv c" "StreamId_wf s" "FrameSequence_wf q" "VoiceFrame_wf f"
  shows "keeps (enqueue_send_voice now s q f c)"
proof (cases "sc_kind c")
  case PK_Dcs
  then show ?thesis
    using assms(1) dcs_encoded_voice [OF cached_header_wf [OF assms(1)] assms(2,4), of _ q False]
      client_inv_enqueue [OF assms(1), of _ now]
    by (auto simp: keeps_def enqueue_send_voice_def dcs_err_def split: option.splits sum.splits)
next
  case PK_DPlus
  then show ?thesis
    using assms voice_payloads(1) [OF assms(2,3,4)] client_inv_enqueue [OF assms(1), of _ now]
    by (auto simp: keeps_def enqueue_send_voice_def dplus_err_def)
next
  case PK_DExtra
  then show ?thesis
    using assms voice_payloads(2) [OF assms(2,3,4)] client_inv_enqueue [OF assms(1), of _ now]
    by (auto simp: keeps_def enqueue_send_voice_def dextra_err_def)
qed

lemma keeps_send_eot:
  assumes "client_inv c" "StreamId_wf s" "FrameSequence_wf q"
  shows "keeps (enqueue_send_eot now s q c)"
proof (cases "sc_kind c")
  case PK_Dcs
  then show ?thesis
    using assms(1) dcs_encoded_voice [OF cached_header_wf [OF assms(1)] assms(2) silence_wf, of _ q True]
      client_inv_enqueue [OF assms(1), of _ now]
    by (auto simp: keeps_def enqueue_send_eot_def dcs_err_def split: option.splits sum.splits)
next
  case PK_DPlus
  then show ?thesis
    using assms eot_payloads(1) [OF assms(2,3)] client_inv_enqueue [OF assms(1), of _ now]
    by (auto simp: keeps_def enqueue_send_eot_def dplus_err_def)
next
  case PK_DExtra
  then show ?thesis
    using assms eot_payloads(2) [OF assms(2,3)] client_inv_enqueue [OF assms(1), of _ now]
    by (auto simp: keeps_def enqueue_send_eot_def dextra_err_def)
qed

text \<open>Received packets.\<close>

lemma connecting_no_stream: "client_inv c \<Longrightarrow> sc_state c = CS_Connecting \<Longrightarrow> sc_active_rx_stream c = None"
  by (simp add: client_inv_def timers_ok_def)

lemma client_inv_ack: "client_inv c \<Longrightarrow> client_inv (on_connect_ack now peer cs m r c)"
  by (simp add: on_connect_ack_def client_inv_connected connecting_no_stream)

lemma client_inv_nak: "client_inv c \<Longrightarrow> client_inv (on_connect_nak cs m r c)"
  by (simp add: on_connect_nak_def finalize_rejected_eq client_inv_finalize)

lemma client_inv_dispatch:
  assumes "client_inv c"
  shows "sc_state c = CS_Connected \<or> \<not> dextra_needs_link p \<Longrightarrow> client_inv (dextra_dispatch now peer p c)"
    and "sc_state c = CS_Connected \<or> \<not> dcs_needs_link r \<Longrightarrow> client_inv (dcs_dispatch now peer r c)"
proof -
  show "sc_state c = CS_Connected \<or> \<not> dextra_needs_link p \<Longrightarrow> client_inv (dextra_dispatch now peer p c)"
    using assms by (cases p) (auto simp: dextra_dispatch_def dextra_needs_link_def client_inv_ack client_inv_nak client_inv_voice)
  show "sc_state c = CS_Connected \<or> \<not> dcs_needs_link r \<Longrightarrow> client_inv (dcs_dispatch now peer r c)"
    using assms by (cases r) (auto simp: dcs_dispatch_def dcs_needs_link_def client_inv_ack client_inv_nak client_inv_voice Let_def)
qed

lemma client_inv_arm_connecting:
  "client_inv c \<Longrightarrow> sc_state c = CS_Connecting \<Longrightarrow> client_inv (arm_keepalive_inactivity now c)"
  using static_part_inv [of c "arm_keepalive_inactivity now c"]
  by (auto simp: client_inv_def static_part_def timers_ok_def arm_keepalive_inactivity_def) (simp_all add: quiet_defs)

lemma keeps_dplus_dispatch:
  assumes "client_inv c" "sc_kind c = PK_DPlus" "sc_state c = CS_Connected \<or> \<not> dplus_needs_link d"
  shows "keeps (dplus_dispatch now peer d c)"
proof -
  have "DstarCallsign_wf (SessionCore_callsign c)"
    using assms(1) by (simp add: client_inv_def identity_ok_def SessionCore_callsign_def routing_callsign_wf)
  then have "\<exists>bs. encoded 32 (\<lambda>buf. dplus_encode_link2 buf (SessionCore_callsign c)) = Ok bs \<and> decodable PK_DPlus bs"
    using dplus_up.encoded_wire [of "DpLink2 (SessionCore_callsign c)" 32] decodable_wire(1) [of "DpLink2 (SessionCore_callsign c)"]
    by (simp add: dplus_wire_lens)
  then obtain bs where bs: "encoded 32 (\<lambda>buf. dplus_encode_link2 buf (SessionCore_callsign c)) = Ok bs" "decodable PK_DPlus bs"
    by blast
  have link2: "client_inv (arm_keepalive_inactivity now (enqueue_packet now bs c))" if "sc_state c = CS_Connecting"
    by (rule client_inv_arm_connecting) (use client_inv_enqueue assms bs that in simp_all)
  show ?thesis
    using assms bs link2
    by (cases d) (auto simp: keeps_def dplus_dispatch_def dplus_needs_link_def dplus_err_def client_inv_voice client_inv_connected
        client_inv_finalize connecting_no_stream finalize_rejected_eq split: Link2Result.splits)
qed

lemma client_inv_diagnostics: "client_inv c \<Longrightarrow> client_inv (c\<lparr>sc_diagnostics := d\<rparr>)"
  using static_part_inv [of c "c\<lparr>sc_diagnostics := d\<rparr>"] by (simp add: client_inv_def timers_ok_def)

lemma keeps_input:
  assumes "client_inv c"
  shows "keeps (handle_input now peer bs c)"
proof -
  note inv = client_inv_diagnostics [OF assms]
  have "keeps (handle_dplus_input now peer bs c)" if "sc_kind c = PK_DPlus"
    using inv that keeps_dplus_dispatch [OF inv]
    by (auto simp: handle_dplus_input_def Let_def keeps_def split: prod.splits sum.splits)
  moreover have "keeps (handle_dextra_input now peer bs c)"
    using inv client_inv_dispatch(1) [OF inv]
    by (auto simp: handle_dextra_input_def Let_def keeps_def split: prod.splits sum.splits)
  moreover have "keeps (handle_dcs_input now peer bs c)"
    using inv client_inv_dispatch(2) [OF inv]
    by (auto simp: handle_dcs_input_def Let_def keeps_def split: prod.splits sum.splits)
  moreover have "keeps (Ok (), c)" "keeps (Err (Error_State DeadlineOverflow), c)" using assms by (simp_all add: keeps_def)
  ultimately show ?thesis
    using validate_time_cases [of c now] by (cases "sc_kind c") (auto simp: handle_input_def)
qed

lemma timeout_keepalive_inv:
  assumes "client_inv c"
  shows "\<exists>c'. timeout_keepalive now c = (Ok (), c') \<and> client_inv c' \<and> sc_state c' = sc_state c"
proof (cases "sc_state c = CS_Connected \<and> expired c Keepalive now")
  case True
  obtain bs where bs: "poll_payload c = Ok (Some bs)" "decodable (sc_kind c) bs"
    using session_payloads(3) [of c] assms by (auto simp: client_inv_def)
  let ?d = "enqueue_packet now bs c"
  let ?e = "set_timer Keepalive (timer_deadline now (keepalive_interval ?d)) ?d"
  have "static_part ?d ?e" by (simp add: static_part_def quiet_defs)
  moreover have "client_inv ?d" using client_inv_enqueue assms bs by blast
  ultimately have "client_inv ?e"
    using static_part_inv True by (auto simp: client_inv_def timers_ok_def)
  then show ?thesis using True bs by (simp add: timeout_keepalive_def enqueue_poll_def)
qed (use assms in \<open>auto simp: timeout_keepalive_def\<close>)

lemma timeout_voice_inv: "client_inv c \<Longrightarrow> client_inv (timeout_voice now c) \<and> sc_state (timeout_voice now c) = sc_state c"
  by (auto simp: timeout_voice_def client_inv_voice split: option.splits)

lemma timeout_link_inv: "client_inv c \<Longrightarrow> client_inv (timeout_link now c)"
  by (simp add: timeout_link_def client_inv_finalize)

lemma keeps_timeout:
  assumes "client_inv c"
  shows "keeps (handle_timeout now c)"
proof -
  obtain c' where k: "timeout_keepalive now c = (Ok (), c')" "client_inv c'" using timeout_keepalive_inv [OF assms] by blast
  let ?r = "c\<lparr>sc_outbox := Outbox_new, sc_active_rx_stream := None, sc_last_voice_activity_at := None\<rparr>"
  have "client_inv ?r"
    using assms by (auto simp: client_inv_def identity_ok_def outbox_ok_def timers_ok_def outbox.new_inv outbox.new_contents)
  then have "client_inv (finalize_disconnect ClockRange ?r)" by (rule client_inv_finalize)
  then show ?thesis
    using assms k timeout_link_inv timeout_voice_inv [of c' now] validate_time_cases [of c now]
    by (auto simp: keeps_def handle_timeout_def)
qed

lemma client_inv_transmit:
  assumes "client_inv c"
  shows "client_inv (snd (pop_transmit now c))"
proof -
  obtain r q where pop: "Outbox_pop_ready now (sc_outbox c) = (r, q)" by (cases "Outbox_pop_ready now (sc_outbox c)")
  have "outbox_wf q \<and> set (waiting q) \<subseteq> set (waiting (sc_outbox c))"
    using Outbox_pop_ready_waiting [OF _ pop] assms
    by (auto simp: client_inv_def outbox_ok_def split: list.splits if_splits)
  then have "outbox_ok (c\<lparr>sc_outbox := q\<rparr>)"
    using assms by (auto simp: client_inv_def outbox_ok_def list_all_iff)
  moreover have "identity_ok (c\<lparr>sc_outbox := q\<rparr>) = identity_ok c" "timers_ok (c\<lparr>sc_outbox := q\<rparr>) = timers_ok c"
    by (simp_all add: identity_ok_def timers_ok_def)
  ultimately have inv: "client_inv (c\<lparr>sc_outbox := q\<rparr>)" using assms by (simp add: client_inv_def)
  then have "client_inv (c\<lparr>sc_outbox := q, sc_current_tx := t\<rparr>)" for t
    using static_part_inv [of "c\<lparr>sc_outbox := q\<rparr>" "c\<lparr>sc_outbox := q, sc_current_tx := t\<rparr>"]
    by (simp add: client_inv_def static_part_def timers_ok_def)
  with inv show ?thesis using pop by (simp add: pop_transmit_def split: option.split)
qed

text \<open>The transmitted datagram is one that was queued.\<close>

lemma transmit_ok:
  assumes "client_inv c" "pop_transmit now c = (Some tx, c')"
  shows "tx_dst tx = sc_peer c \<and> decodable (sc_kind c) (tx_payload tx)"
proof -
  obtain p q where pop: "Outbox_pop_ready now (sc_outbox c) = (Some p, q)" "tx = \<lparr>tx_dst = op_dst p, tx_payload = op_payload p\<rparr>"
    using assms(2) by (auto simp: pop_transmit_def split: prod.splits option.splits)
  have "p \<in> set (waiting (sc_outbox c))"
    using Outbox_pop_ready_waiting [OF _ pop(1)] assms(1)
    by (auto simp: client_inv_def outbox_ok_def split: list.splits if_splits)
  then show ?thesis using assms(1) pop(2) by (simp add: client_inv_def outbox_ok_def list_all_iff)
qed

lemma client_step_inv:
  assumes "client_inv c" "op_wf op"
  shows "client_inv (snd (client_step op c))" "fst (client_step op c) \<noteq> Returned (Err Error_Unreachable)"
proof -
  have "client_inv (snd (pop_event k c))" for k
    using assms(1) static_part_inv [of c "c\<lparr>sc_events := e\<rparr>" for e]
    by (auto simp: pop_event_def client_inv_def static_part_def timers_ok_def split: list.splits)
  then show "client_inv (snd (client_step op c))"
    using assms keeps_attach keeps_connect keeps_disconnect keeps_send_header keeps_send_voice keeps_send_eot keeps_input
      keeps_timeout client_inv_transmit client_inv_diagnostics [of c "[]"]
    by (cases op) (simp_all add: keeps_def op_wf_def drain_diagnostics_def)
  show "fst (client_step op c) \<noteq> Returned (Err Error_Unreachable)"
    using assms keeps_attach keeps_connect keeps_disconnect keeps_send_header keeps_send_voice keeps_send_eot keeps_input
      keeps_timeout
    by (cases op) (simp_all add: keeps_def op_wf_def)
qed

lemma new_inv: "config_wf cfg \<Longrightarrow> client_inv (SessionCore_new cfg)"
  by (auto simp: client_inv_def config_wf_def SessionCore_new_def identity_ok_def outbox_ok_def timers_ok_def armed_def
      TimerWheel_new_def outbox.new_inv outbox.new_contents)

text \<open>Nothing ever changes the peer or the protocol.\<close>

definition same_link :: "SessionCore \<Rightarrow> SessionCore \<Rightarrow> bool" where
  "same_link c c' \<longleftrightarrow> sc_peer c' = sc_peer c \<and> sc_kind c' = sc_kind c"

lemma same_link_static: "static_part c c' \<Longrightarrow> same_link c c'"
  by (simp add: static_part_def same_link_def)

lemma same_link_dispatch:
  "same_link c (dextra_dispatch now peer p c)" "same_link c (dcs_dispatch now peer r c)"
  "same_link c (snd (dplus_dispatch now peer d c))"
proof -
  have refl: "same_link c c" by (simp add: same_link_def)
  have sl: "same_link c (on_connect_ack now peer cs m r c)" "same_link c (on_connect_nak cs m n c)"
    "same_link c (arm_keepalive_inactivity now (enqueue_packet now bs c))" for cs m r n bs
    by (simp_all add: on_connect_ack_def on_connect_nak_def finalize_rejected_eq refl same_link_static)
       (simp add: same_link_def quiet_defs)
  show "same_link c (dextra_dispatch now peer p c)"
    by (cases p) (simp_all add: dextra_dispatch_def sl same_link_static)
  show "same_link c (dcs_dispatch now peer r c)"
    by (cases r) (simp_all add: dcs_dispatch_def sl same_link_static Let_def)
  show "same_link c (snd (dplus_dispatch now peer d c))"
    by (cases d) (auto simp: dplus_dispatch_def sl refl same_link_static finalize_rejected_eq split: sum.splits Link2Result.splits)
qed

lemma same_link_input: "same_link c (snd (handle_input now peer bs c))"
proof -
  have "same_link c c'" if "same_link (c\<lparr>sc_diagnostics := d\<rparr>) c'" for c' d using that by (simp add: same_link_def)
  note disp = this [OF same_link_dispatch(1)] this [OF same_link_dispatch(2)] this [OF same_link_dispatch(3)]
  have diag: "same_link c (c\<lparr>sc_diagnostics := d\<rparr>)" "same_link c c" for d by (simp_all add: same_link_def)
  show ?thesis
    by (auto simp: handle_input_def handle_dplus_input_def handle_dextra_input_def handle_dcs_input_def Let_def disp diag
        split: prod.split sum.split ProtocolKind.split)
qed

lemma same_link_timeout: "same_link c (snd (handle_timeout now c))"
proof -
  have refl: "same_link a a" for a by (simp add: same_link_def)
  have trans: "same_link a b \<Longrightarrow> same_link b d \<Longrightarrow> same_link a d" for a b d by (simp add: same_link_def)
  have keep: "same_link c c'" if "timeout_keepalive now c = (r, c')" for r c'
    using that by (auto simp: same_link_def timeout_keepalive_def enqueue_poll_def quiet_defs
        split: if_splits prod.splits sum.splits option.splits)
  have rest: "same_link d (timeout_voice now d)" "same_link d (timeout_link now d)" for d
    by (auto simp: timeout_voice_def timeout_link_def refl same_link_static split: option.split)
  have range: "same_link c (finalize_disconnect ClockRange
      (c\<lparr>sc_outbox := Outbox_new, sc_active_rx_stream := None, sc_last_voice_activity_at := None\<rparr>))"
    by (simp add: same_link_def finalize_disconnect_def quiet_defs)
  show ?thesis
    by (auto simp: handle_timeout_def refl range split: sum.split prod.split intro: keep trans [OF keep trans [OF rest]])
qed

lemma client_step_fixed: "same_link c (snd (client_step op c))"
proof -
  have "same_link c (snd (attach_host_list l c))" "same_link c (snd (enqueue_connect now c))"
    "same_link c (snd (enqueue_disconnect now c))" "same_link c (snd (enqueue_send_header now h s c))"
    "same_link c (snd (enqueue_send_voice now s q f c))" "same_link c (snd (enqueue_send_eot now s q c))"
    "same_link c (snd (pop_transmit now c))" "same_link c (snd (pop_event k c))" "same_link c (snd (drain_diagnostics c))"
    for l now h s q f k
    by (auto simp: same_link_def attach_host_list_def enqueue_connect_def enqueue_disconnect_def enqueue_send_header_def
        enqueue_send_voice_def enqueue_send_eot_def pop_transmit_def pop_event_def drain_diagnostics_def quiet_defs Let_def
        split: sum.split option.split prod.split list.split)
  then show ?thesis by (cases op) (simp_all add: same_link_input same_link_timeout)
qed

lemma client_run_inv:
  assumes "run_steps client_step ops c = (outs, c')" "client_inv c" "list_all op_wf ops"
  shows "client_inv c' \<and> same_link c c' \<and> Returned (Err Error_Unreachable) \<notin> set outs \<and>
    (\<forall>tx. Sent (Some tx) \<in> set outs \<longrightarrow> tx_dst tx = sc_peer c \<and> decodable (sc_kind c) (tx_payload tx))"
  using assms
proof (induction ops arbitrary: c outs c')
  case (Cons op ops)
  obtain out c1 where s: "client_step op c = (out, c1)" by (cases "client_step op c")
  obtain os c2 where r: "run_steps client_step ops c1 = (os, c2)" by (cases "run_steps client_step ops c1")
  have c1: "client_inv c1" "out \<noteq> Returned (Err Error_Unreachable)" "same_link c c1"
    using client_step_inv [OF Cons.prems(2), of op] client_step_fixed [of c op] Cons.prems(3) s by auto
  have sent: "tx_dst tx = sc_peer c \<and> decodable (sc_kind c) (tx_payload tx)" if "out = Sent (Some tx)" for tx
    using that s transmit_ok [OF Cons.prems(2)] by (cases op) (auto simp: apfst_def map_prod_def split: prod.splits)
  show ?case
    using Cons.IH [OF r c1(1)] Cons.prems(1,3) s r c1(2,3) sent by (auto simp: same_link_def)
qed (auto simp: same_link_def)

section \<open>Open sessions end\<close>

lemma timer_deadline_of: "armed c t \<Longrightarrow> \<exists>d. TimerWheel_timer (sc_timers c) t = Some d"
  by (auto simp: armed_def)

lemma expired_iff: "expired c t now \<longleftrightarrow> (\<exists>d. TimerWheel_timer (sc_timers c) t = Some d \<and> d \<le> now)"
  by (auto simp: expired_def TimerWheel_is_expired_def is_some_and_def split: option.splits)

lemma timers_simps [simp]:
  "sc_timers (push_event e c) = sc_timers c" "sc_timers (enqueue_packet now bs c) = sc_timers c"
  "sc_timers (set_timer t d c) = TimerWheel_set t d (sc_timers c)" "sc_timers (clear_timer t c) = TimerWheel_clear t (sc_timers c)"
  by (simp_all add: quiet_defs)

lemma timeout_steps_timer:
  "timeout_keepalive now c = (r, c') \<Longrightarrow> t \<noteq> Keepalive \<Longrightarrow> TimerWheel_timer (sc_timers c') t = TimerWheel_timer (sc_timers c) t"
  "t \<noteq> VoiceInactivity \<Longrightarrow> TimerWheel_timer (sc_timers (timeout_voice now c)) t = TimerWheel_timer (sc_timers c) t"
  by (auto simp: timeout_keepalive_def enqueue_poll_def timeout_voice_def emit_voice_end_def Let_def
      split: if_splits prod.splits sum.splits option.splits)

lemma finalize_closed: "sc_state (finalize_disconnect r c) = CS_Closed"
  "sc_events (finalize_disconnect r c) = sc_events c @ [Raw_Disconnected r]"
  by (simp_all add: finalize_disconnect_def quiet_defs)

text \<open>The deadline that ends the session in its present state.\<close>

definition last_deadline :: "SessionCore \<Rightarrow> instant option" where
  "last_deadline c = TimerWheel_timer (sc_timers c)
     (if sc_state c = CS_Disconnecting then DisconnectDeadline else KeepaliveInactivity)"

lemma timeout_closes:
  assumes "client_inv c" "sc_state c \<in> {CS_Connecting, CS_Connected, CS_Disconnecting}" "last_deadline c = Some d" "d \<le> now"
  shows "sc_state (snd (handle_timeout now c)) = CS_Closed"
proof (cases "validate_time c now")
  case (Inl e)
  then show ?thesis using assms(2) by (auto simp: handle_timeout_def finalize_closed)
next
  case (Inr u)
  obtain c' where k: "timeout_keepalive now c = (Ok (), c')" "client_inv c'" "sc_state c' = sc_state c"
    using timeout_keepalive_inv [OF assms(1)] by blast
  let ?v = "timeout_voice now c'"
  have st: "sc_state ?v = sc_state c" using timeout_voice_inv [OF k(2)] k(3) by simp
  have "TimerWheel_timer (sc_timers ?v) t = TimerWheel_timer (sc_timers c) t" if "t \<noteq> Keepalive" "t \<noteq> VoiceInactivity" for t
    using that timeout_steps_timer(1) [OF k(1)] timeout_steps_timer(2) by simp
  then have "last_deadline ?v = Some d" using assms(3) st by (simp add: last_deadline_def)
  then have "sc_state (timeout_link now ?v) = CS_Closed"
    using assms(2,4) st by (auto simp: timeout_link_def last_deadline_def expired_iff finalize_closed)
  then show ?thesis using Inr k(1) by (simp add: handle_timeout_def)
qed

lemma next_deadline_bound: "TimerWheel_timer (sc_timers c) t = Some d \<Longrightarrow> \<exists>m\<le>d. SessionCore_next_deadline c = Some m"
  using next_deadline_le [of "sc_timers c" t d]
  by (cases "Outbox_peek_next_deadline (sc_outbox c)") (auto simp: SessionCore_next_deadline_def min_le_iff_disj)

lemma last_deadline_armed:
  "client_inv c \<Longrightarrow> sc_state c \<in> {CS_Connecting, CS_Connected, CS_Disconnecting} \<Longrightarrow> \<exists>d. last_deadline c = Some d"
  by (auto simp: client_inv_def timers_ok_def last_deadline_def dest!: timer_deadline_of)

lemma closed_is_final: "sc_state c = CS_Closed \<Longrightarrow> sc_state (snd (client_step op c)) = CS_Closed"
  by (cases op) (auto simp: attach_host_list_def enqueue_connect_def enqueue_disconnect_def enqueue_send_header_def
      enqueue_send_voice_def enqueue_send_eot_def handle_input_def handle_timeout_def timeout_keepalive_def timeout_voice_def
      timeout_link_def pop_transmit_def pop_event_def drain_diagnostics_def Let_def
      split: sum.split option.split prod.split list.split)

section \<open>Properties\<close>

text \<open>C31. No run of the session panics (the \<open>unreachable!()\<close> of the DCS target is never reached),
  and every datagram it hands to the socket is addressed to the configured reflector and is
  accepted by the reflector's decoder for the configured protocol.\<close>

theorem client_sends_readable:
  assumes "config_wf cfg" "list_all op_wf ops" "run_steps client_step ops (SessionCore_new cfg) = (outs, c)"
  shows "Returned (Err Error_Unreachable) \<notin> set outs \<and>
    (\<forall>tx. Sent (Some tx) \<in> set outs \<longrightarrow>
       tx_dst tx = cfg_peer cfg \<and> decodable (ClientProtocol_kind (cfg_protocol cfg)) (tx_payload tx))"
  using client_run_inv [OF assms(3) new_inv [OF assms(1)] assms(2)] by (simp add: SessionCore_new_def)

text \<open>C30. Every open session ends without the peer's help: in each state that follows a connect
  request and precedes closure, the deadline reported to the driver is not later than an armed
  deadline at which, or at any later instant, the timeout handler closes the session; and a
  closed session stays closed.\<close>

theorem client_session_ends:
  assumes "config_wf cfg" "list_all op_wf ops" "run_steps client_step ops (SessionCore_new cfg) = (outs, c)"
  shows "(sc_state c \<in> {CS_Connecting, CS_Connected, CS_Disconnecting} \<longrightarrow>
      (\<exists>m d. SessionCore_next_deadline c = Some m \<and> m \<le> d \<and>
        (\<forall>now\<ge>d. sc_state (snd (handle_timeout now c)) = CS_Closed))) \<and>
    (sc_state c = CS_Closed \<longrightarrow> sc_state (snd (client_step op c)) = CS_Closed)"
proof (intro conjI impI)
  have inv: "client_inv c" using client_run_inv [OF assms(3) new_inv [OF assms(1)] assms(2)] by simp
  assume st: "sc_state c \<in> {CS_Connecting, CS_Connected, CS_Disconnecting}"
  obtain d where d: "last_deadline c = Some d" using last_deadline_armed [OF inv st] by blast
  obtain m where "m \<le> d" "SessionCore_next_deadline c = Some m"
    using next_deadline_bound d unfolding last_deadline_def by blast
  then show "\<exists>m d. SessionCore_next_deadline c = Some m \<and> m \<le> d \<and> (\<forall>now\<ge>d. sc_state (snd (handle_timeout now c)) = CS_Closed)"
    using timeout_closes [OF inv st d] by blast
qed (rule closed_is_final)

text \<open>Handing out datagrams changes neither the state nor the timers.\<close>

lemma polls_keep:
  "run_steps client_step (map PollTransmit ts) c = (outs, c') \<Longrightarrow>
     sc_state c' = sc_state c \<and> sc_timers c' = sc_timers c \<and> sc_kind c' = sc_kind c"
proof (induction ts arbitrary: c outs)
  case (Cons t ts)
  have "sc_state (snd (pop_transmit t c)) = sc_state c \<and> sc_timers (snd (pop_transmit t c)) = sc_timers c \<and>
      sc_kind (snd (pop_transmit t c)) = sc_kind c"
    by (auto simp: pop_transmit_def split: prod.split option.split)
  moreover obtain xs where "run_steps client_step (map PollTransmit ts) (snd (pop_transmit t c)) = (xs, c')"
    using Cons.prems by (auto simp: apfst_def map_prod_def split: prod.splits)
  ultimately show ?case using Cons.IH by fastforce
qed simp

text \<open>C40. After an unlink request the keepalive deadline of the link stays armed although nothing
  serves it any more. When every datagram, the unlink request included, has been handed to the
  socket and the outbox asks for no wake-up, the keepalive timer is still set to the instant it had
  in the link; from that instant until the unlink deadline the timeout handler leaves the session
  exactly as it is, while the timers alone make it report a wake-up that is already due. A driver
  that serves due wake-ups before its socket, as the asynchronous shell does, gets no chance to
  read the acknowledgement in that time.\<close>

theorem client_unlink_overdue_wakeup:
  assumes "sc_state c = CS_Connected" "TimerWheel_timer (sc_timers c) Keepalive = Some k"
    and "enqueue_disconnect now c = (Ok (), c1)"
    and "run_steps client_step (map PollTransmit ts) c1 = (outs, c')" "Outbox_peek_next_deadline (sc_outbox c') = None"
    and "validate_time c' t = Ok ()" "k \<le> t" "t < timer_deadline now (disconnect_timeout c)"
  shows "TimerWheel_timer (sc_timers c') Keepalive = Some k \<and> handle_timeout t c' = (Ok (), c') \<and>
    (\<exists>m\<le>k. SessionCore_next_deadline c' = Some m \<and> TimerWheel_next_deadline (sc_timers c') = Some m)"
proof -
  obtain bs where c1: "c1 = arm_disconnect_deadline now ((enqueue_packet now bs c)\<lparr>sc_state := CS_Disconnecting\<rparr>)"
    using assms(3) by (auto simp: enqueue_disconnect_def Let_def split: sum.splits if_splits)
  have kind: "disconnect_timeout ((enqueue_packet now bs c)\<lparr>sc_state := CS_Disconnecting\<rparr>) = disconnect_timeout c"
    by (simp add: disconnect_timeout_def)
  have st: "sc_state c' = CS_Disconnecting" and keep: "TimerWheel_timer (sc_timers c') Keepalive = Some k"
    and dd: "TimerWheel_timer (sc_timers c') DisconnectDeadline = Some (timer_deadline now (disconnect_timeout c))"
    using polls_keep [OF assms(4)] assms(2) by (simp_all add: c1 arm_disconnect_deadline_def kind TimerWheel_set_def)
  have "handle_timeout t c' = (Ok (), c')"
    using assms(6,8) st dd by (simp add: handle_timeout_def timeout_keepalive_def timeout_voice_def timeout_link_def expired_iff)
  moreover have "SessionCore_next_deadline c' = TimerWheel_next_deadline (sc_timers c')"
    using assms(5) by (simp add: SessionCore_next_deadline_def split: option.split)
  ultimately show ?thesis using keep next_deadline_bound [OF keep] by auto
qed

section \<open>A sample session\<close>

text \<open>A DExtra session of W1AW B on module C: it connects, is accepted and polls its event.\<close>

definition sample_peer :: SocketAddr where
  "sample_peer = SocketAddr (IpV4 127 0 0 1) 30001"

definition sample_client_config :: SessionConfig where
  "sample_client_config = \<lparr>cfg_protocol = CP_DExtra, cfg_callsign = RoutingCallsign [0x57, 0x31, 0x41, 0x57, 0x20, 0x20, 0x20],
     cfg_local_module = DstarModule 0x42, cfg_reflector_module = DstarModule 0x43, cfg_peer = sample_peer\<rparr>"

definition sample_ack :: bytes where
  "sample_ack = [0x57, 0x31, 0x41, 0x57, 0x20, 0x20, 0x20, 0x20, 0x42, 0x43, 0x41, 0x43, 0x4B, 0]"

definition sample_calls :: "client_op list" where
  "sample_calls = [Connect 0, PollTransmit 0, Input 5 sample_peer sample_ack, PollEvent PK_DExtra]"

lemma validate_time_small: "now \<le> 1000000000000000000 \<Longrightarrow> validate_time c now = Ok ()"
  by (cases "sc_kind c") (simp_all add: validate_time_def checked_add_def instant_max_def longest_span_def
      keepalive_interval_def keepalive_inactivity_timeout_def voice_inactivity_timeout_def disconnect_timeout_def
      DPLUS_KEEPALIVE_INTERVAL_def DPLUS_KEEPALIVE_INACTIVITY_TIMEOUT_def DPLUS_VOICE_INACTIVITY_TIMEOUT_def
      DPLUS_DISCONNECT_TIMEOUT_def DEXTRA_KEEPALIVE_INTERVAL_def DEXTRA_KEEPALIVE_INACTIVITY_TIMEOUT_def
      DEXTRA_VOICE_INACTIVITY_TIMEOUT_def DEXTRA_DISCONNECT_TIMEOUT_def DCS_KEEPALIVE_INTERVAL_def
      DCS_KEEPALIVE_INACTIVITY_TIMEOUT_def DCS_VOICE_INACTIVITY_TIMEOUT_def DCS_DISCONNECT_TIMEOUT_def from_secs_def)

lemma sample_config_wf: "config_wf sample_client_config"
  by (simp add: config_wf_def sample_client_config_def RoutingCallsign_wf_def Module_wf_def is_printable_ascii_def
      is_ascii_uppercase_def)

lemma sample_calls_wf: "list_all op_wf sample_calls"
  by (simp add: sample_calls_def op_wf_def)

lemma sample_ack_decoded:
  "dextra_decode_server_to_client sample_ack sink =
     (Ok (DExtraS_ConnectAck (RoutingCallsign_callsign (cfg_callsign sample_client_config)) (DstarModule 0x42) (DstarModule 0x43)), sink)"
proof -
  let ?i = "\<lparr>ri_callsign = cfg_callsign sample_client_config, ri_module = DstarModule 0x42\<rparr>"
  have "dextra_server_wire (DxAck ?i (DstarModule 0x43)) = sample_ack"
    by (simp add: dextra_reply_wire_def sample_client_config_def sample_ack_def Module_as_byte_def ModuleSlot_as_byte_def
        CONNECT_ACK_TAG_def)
  moreover have "dextra_server_wf (DxAck ?i (DstarModule 0x43))"
    using sample_config_wf by (simp add: config_wf_def RepeaterIdentity_wf_def sample_client_config_def)
  ultimately show ?thesis using dextra_down.dec_wire [of "DxAck ?i (DstarModule 0x43)" sink] by simp
qed

lemma sample_run:
  "\<exists>outs c tx. run_steps client_step sample_calls (SessionCore_new sample_client_config) = (outs, c) \<and>
     delivered outs = [Ev_Connected sample_peer] \<and> Sent (Some tx) \<in> set outs \<and> sc_state c = CS_Connected \<and> sc_events c = [] \<and>
     sc_active_rx_stream c = None"
proof -
  let ?c = "SessionCore_new sample_client_config"
  obtain bs where bs: "connect_payload ?c = Ok bs"
    using session_payloads(1) [of ?c] new_inv [OF sample_config_wf] by (auto simp: client_inv_def)
  have k: "sc_kind ?c = PK_DExtra" "sc_state ?c = CS_Configured"
    by (simp_all add: SessionCore_new_def sample_client_config_def ClientProtocol_kind_def)
  let ?p = "\<lparr>op_dst = sample_peer, op_payload = bs, op_not_before = 0\<rparr>"
  have c1: "enqueue_connect 0 ?c = (Ok (), arm_keepalive_inactivity 0 (?c\<lparr>sc_outbox := [(0, [?p])], sc_state := CS_Connecting\<rparr>))"
    by (simp add: enqueue_connect_def validate_time_small k bs Let_def enqueue_packet_def Outbox_enqueue_def)
       (simp add: SessionCore_new_def Outbox_new_def sample_client_config_def)
  let ?c1 = "arm_keepalive_inactivity 0 (?c\<lparr>sc_outbox := [(0, [?p])], sc_state := CS_Connecting\<rparr>)"
  let ?tx = "\<lparr>tx_dst = sample_peer, tx_payload = bs\<rparr>"
  let ?c2 = "?c1\<lparr>sc_outbox := [], sc_current_tx := Some ?p\<rparr>"
  have c2: "pop_transmit 0 ?c1 = (Some ?tx, ?c2)"
    by (simp add: pop_transmit_def quiet_defs Outbox_pop_ready_def)
  have "handle_input 5 sample_peer sample_ack ?c2 = (Ok (), finalize_connected sample_peer 5 (?c2\<lparr>sc_diagnostics := []\<rparr>))"
    by (simp add: handle_input_def validate_time_small quiet_defs SessionCore_new_def sample_client_config_def ClientProtocol_kind_def)
       (simp add: handle_dextra_input_def sample_ack_decoded Let_def dextra_needs_link_def dextra_dispatch_def on_connect_ack_def
         SessionCore_callsign_def sample_client_config_def)
  moreover have "sc_kind (finalize_connected sample_peer 5 d) = sc_kind d"
    "sc_events (finalize_connected sample_peer 5 d) = sc_events d @ [Raw_Connected sample_peer]"
    "sc_state (finalize_connected sample_peer 5 d) = CS_Connected"
    "sc_active_rx_stream (finalize_connected sample_peer 5 d) = sc_active_rx_stream d" for d
    by (simp_all add: finalize_connected_def quiet_defs Let_def)
  moreover have "sc_kind ?c2 = PK_DExtra" "sc_events ?c2 = []" "sc_active_rx_stream ?c2 = None"
    by (simp_all add: quiet_defs SessionCore_new_def sample_client_config_def ClientProtocol_kind_def)
  ultimately show ?thesis
    using c1 c2 by (simp add: sample_calls_def pop_event_def Event_of_raw_def)
qed

theorem client_event_protocol_witness:
  "\<exists>outs c. run_steps client_step sample_calls (SessionCore_new sample_client_config) = (outs, c) \<and>
     observe_all (delivered outs @ map Event_of_raw (sc_events c)) Idle = Some (Linked None)"
proof -
  obtain outs c where r: "run_steps client_step sample_calls (SessionCore_new sample_client_config) = (outs, c)"
    "sc_state c = CS_Connected" "sc_active_rx_stream c = None"
    using sample_run by blast
  then show ?thesis using client_event_protocol [OF r(1)] by (auto simp: in_phase_def)
qed

theorem client_sends_readable_witness:
  "\<exists>outs c tx. run_steps client_step sample_calls (SessionCore_new sample_client_config) = (outs, c) \<and>
     Sent (Some tx) \<in> set outs \<and> tx_dst tx = sample_peer \<and> decodable PK_DExtra (tx_payload tx)"
proof -
  obtain outs c tx where r: "run_steps client_step sample_calls (SessionCore_new sample_client_config) = (outs, c)"
    "Sent (Some tx) \<in> set outs"
    using sample_run by blast
  then show ?thesis
    using client_sends_readable [OF sample_config_wf sample_calls_wf r(1)]
    by (auto simp: sample_client_config_def ClientProtocol_kind_def)
qed

theorem client_session_ends_witness:
  "\<exists>outs c m d. run_steps client_step sample_calls (SessionCore_new sample_client_config) = (outs, c) \<and>
     SessionCore_next_deadline c = Some m \<and> m \<le> d \<and> (\<forall>now\<ge>d. sc_state (snd (handle_timeout now c)) = CS_Closed)"
proof -
  obtain outs c where r: "run_steps client_step sample_calls (SessionCore_new sample_client_config) = (outs, c)"
    "sc_state c = CS_Connected"
    using sample_run by blast
  then show ?thesis
    using client_session_ends [OF sample_config_wf sample_calls_wf r(1)] by auto
qed

theorem client_unlink_overdue_wakeup_witness:
  "\<exists>c c1 outs c'. sc_state c = CS_Connected \<and> enqueue_disconnect 9000000000 c = (Ok (), c1) \<and>
     run_steps client_step (map PollTransmit [9000000000]) c1 = (outs, c') \<and>
     TimerWheel_timer (sc_timers c') Keepalive = Some 10000000000 \<and> handle_timeout 10500000000 c' = (Ok (), c') \<and>
     (\<exists>m\<le>10000000000. SessionCore_next_deadline c' = Some m \<and> TimerWheel_next_deadline (sc_timers c') = Some m)"
proof -
  let ?c = "finalize_connected sample_peer 0 (SessionCore_new sample_client_config)"
  have k: "sc_state ?c = CS_Connected" "sc_kind ?c = PK_DExtra" "sc_outbox ?c = Outbox_new"
    by (simp_all add: finalize_connected_def quiet_defs Let_def SessionCore_new_def sample_client_config_def ClientProtocol_kind_def)
  have deadline: "timer_deadline now d = now + d" if "now + d \<le> 1000000000000000000" for now d
    using that by (simp add: timer_deadline_def checked_add_def instant_max_def)
  have timer: "TimerWheel_timer (sc_timers ?c) Keepalive = Some 10000000000"
    by (simp add: finalize_connected_def arm_keepalive_inactivity_def Let_def keepalive_interval_def SessionCore_new_def
        sample_client_config_def ClientProtocol_kind_def DEXTRA_KEEPALIVE_INTERVAL_def from_secs_def deadline TimerWheel_set_def)
  have "identity_ok ?c"
    using new_inv [OF sample_config_wf] static_part_inv [of "SessionCore_new sample_client_config" ?c] by (simp add: client_inv_def)
  then obtain bs where "disconnect_payload ?c = Ok bs" using session_payloads(2) by blast
  then obtain c1 where c1: "enqueue_disconnect 9000000000 ?c = (Ok (), c1)"
      "c1 = arm_disconnect_deadline 9000000000 ((enqueue_packet 9000000000 bs ?c)\<lparr>sc_state := CS_Disconnecting\<rparr>)"
    using k(1) by (simp add: enqueue_disconnect_def validate_time_small Let_def)
  obtain outs c' where r: "run_steps client_step (map PollTransmit [9000000000]) c1 = (outs, c')" by (cases "run_steps client_step (map PollTransmit [9000000000]) c1")
  have "Outbox_peek_next_deadline (sc_outbox c') = None"
    using r k(3) by (auto simp: c1(2) quiet_defs pop_transmit_def Outbox_new_def Outbox_enqueue_def Outbox_pop_ready_def
        Outbox_peek_next_deadline_def get_def split: prod.splits)
  moreover have "(10500000000::nat) < timer_deadline 9000000000 (disconnect_timeout ?c)"
    by (simp add: disconnect_timeout_def k DEXTRA_DISCONNECT_TIMEOUT_def from_secs_def deadline)
  ultimately show ?thesis
    using client_unlink_overdue_wakeup [OF k(1) timer c1(1) r, of 10500000000] k(1) c1(1) r validate_time_small by fastforce
qed

end
