(* ===== verification/Dstar_Server_Runs.thy ===== *)
theory Dstar_Server_Runs
  imports Dstar_Server Dstar_Client_Runs
begin

text \<open>
  Runs of the server session core: datagrams from one peer at any instants, interleaved with the
  shell's polling. The events are a run of an automaton in which the peer keeps the callsign it
  linked with and streams one transmission at a time; replies are addressed to the peer and
  readable by a client; a rejected datagram leaves the session as it was.
\<close>

section \<open>Calls and the event automaton\<close>

datatype server_op =
    ServerInput instant bytes
  | ServerPollTransmit instant
  | ServerPollEvent ProtocolKind
  | ServerDrainDiagnostics

datatype server_output =
    SrvReturned "Error + unit"
  | SrvSent "Transmit option"
  | SrvHappened "ServerEvent option"
  | SrvDiagnosed diagnostics

fun server_step :: "server_op \<Rightarrow> ServerSessionCore \<Rightarrow> server_output \<times> ServerSessionCore" where
  "server_step (ServerInput t bs) s = apfst SrvReturned (server_handle_input t bs s)"
| "server_step (ServerPollTransmit t) s = apfst SrvSent (server_pop_transmit t s)"
| "server_step (ServerPollEvent k) s = apfst SrvHappened (server_pop_event k s)"
| "server_step ServerDrainDiagnostics s = apfst SrvDiagnosed (server_drain_diagnostics s)"

fun server_output_event :: "server_output \<Rightarrow> ServerEvent option" where
  "server_output_event (SrvHappened e) = e"
| "server_output_event _ = None"

datatype peer_phase = Absent | Present DstarCallsign "StreamId option" | Gone

text \<open>The parameters are the peer's address and the module the reflector endpoint serves. A DPlus
  peer may unlink after the first half of its handshake, before it was announced.\<close>

fun server_observe :: "SocketAddr \<Rightarrow> DstarModule \<Rightarrow> ServerEvent \<Rightarrow> peer_phase \<Rightarrow> peer_phase option" where
  "server_observe a m (ClientLinked p c m') Absent = (if p = a \<and> m' = m then Some (Present c None) else None)"
| "server_observe a m (ClientLinked p c m') (Present c' st) =
     (if p = a \<and> m' = m \<and> c = c' then Some (Present c' st) else None)"
| "server_observe a m (ClientUnlinked p) Absent = (if p = a then Some Gone else None)"
| "server_observe a m (ClientUnlinked p) (Present _ _) = (if p = a then Some Gone else None)"
| "server_observe a m (ClientStreamStarted p s _) (Present c None) = (if p = a then Some (Present c (Some s)) else None)"
| "server_observe a m (ClientStreamFrame p s _ _) (Present c (Some s')) =
     (if p = a \<and> s = s' then Some (Present c (Some s')) else None)"
| "server_observe a m (ClientStreamEnded p s) (Present c (Some s')) =
     (if p = a \<and> s = s' then Some (Present c None) else None)"
| "server_observe _ _ _ _ = None"

definition server_phase :: "SocketAddr \<Rightarrow> DstarModule \<Rightarrow> ServerSessionCore \<Rightarrow> peer_phase \<Rightarrow> bool" where
  "server_phase a m s ph \<longleftrightarrow> ss_peer s = a \<and> ss_reflector_module s = m \<and>
     (case ph of
        Absent \<Rightarrow> (ss_state s = SI_Unknown \<or> ss_state s = SI_Link1Received) \<and>
          ss_client_callsign s = None \<and> ss_client_module s = None \<and> ss_last_stream_id s = None
      | Present c None \<Rightarrow> ss_state s = SI_Linked \<and> ss_client_callsign s = Some c \<and> ss_last_stream_id s = None
      | Present c (Some sid) \<Rightarrow> ss_state s = SI_Streaming \<and> ss_client_callsign s = Some c \<and> ss_last_stream_id s = Some sid
      | Gone \<Rightarrow> ss_state s = SI_Closed)"

definition queued_server_events :: "ServerSessionCore \<Rightarrow> ServerEvent list" where
  "queued_server_events s = map ServerEvent_of_raw (ss_events s)"

section \<open>Every datagram advances the automaton\<close>

definition follows :: "ServerSessionCore \<Rightarrow> ServerSessionCore \<Rightarrow> bool" where
  "follows s s' \<longleftrightarrow> (\<forall>a m ph. server_phase a m s ph \<longrightarrow>
     (\<exists>es ph'. queued_server_events s' = queued_server_events s @ es \<and>
        follow (server_observe a m) es ph = Some ph' \<and> server_phase a m s' ph'))"

lemma follows_refl [simp]: "follows s s"
  unfolding follows_def by (metis append_Nil2 follow.simps(1))

lemma follows_trans:
  assumes "follows r s" "follows s t" shows "follows r t"
  unfolding follows_def
proof (intro allI impI)
  fix a m ph assume "server_phase a m r ph"
  then obtain es ph1 where es: "queued_server_events s = queued_server_events r @ es"
      "follow (server_observe a m) es ph = Some ph1" "server_phase a m s ph1"
    using assms(1) unfolding follows_def by blast
  then obtain fs ph2 where "queued_server_events t = queued_server_events s @ fs"
      "follow (server_observe a m) fs ph1 = Some ph2" "server_phase a m t ph2"
    using assms(2) unfolding follows_def by blast
  then show "\<exists>es ph'. queued_server_events t = queued_server_events r @ es \<and>
      follow (server_observe a m) es ph = Some ph' \<and> server_phase a m t ph'"
    using es by (intro exI [of _ "es @ fs"] exI [of _ ph2]) (simp add: follow_append)
qed

text \<open>A step without an event, and one with exactly one.\<close>

lemma follows_quiet:
  assumes "ss_events s' = ss_events s" "\<And>a m ph. server_phase a m s ph \<Longrightarrow> server_phase a m s' ph"
  shows "follows s s'"
  unfolding follows_def using assms by (force simp: queued_server_events_def intro: exI [of _ "[]"])

lemma follows_event:
  assumes "ss_events s' = ss_events s @ [e]"
    "\<And>a m ph. server_phase a m s ph \<Longrightarrow>
       \<exists>ph'. server_observe a m (ServerEvent_of_raw e) ph = Some ph' \<and> server_phase a m s' ph'"
  shows "follows s s'"
  unfolding follows_def
proof (intro allI impI)
  fix a m ph assume "server_phase a m s ph"
  then obtain ph' where "server_observe a m (ServerEvent_of_raw e) ph = Some ph'" "server_phase a m s' ph'"
    using assms(2) by blast
  then show "\<exists>es ph'. queued_server_events s' = queued_server_events s @ es \<and>
      follow (server_observe a m) es ph = Some ph' \<and> server_phase a m s' ph'"
    using assms(1)
    by (intro exI [of _ "[ServerEvent_of_raw e]"] exI [of _ ph']) (simp add: queued_server_events_def)
qed

lemma emit_fields [simp]:
  "ss_events (emit e s) = ss_events s @ [e]" "ss_kind (emit e s) = ss_kind s" "ss_peer (emit e s) = ss_peer s"
  "ss_reflector_module (emit e s) = ss_reflector_module s" "ss_state (emit e s) = ss_state s"
  "ss_client_callsign (emit e s) = ss_client_callsign s" "ss_client_module (emit e s) = ss_client_module s"
  "ss_last_stream_id (emit e s) = ss_last_stream_id s" "ss_outbox (emit e s) = ss_outbox s"
  "ss_diagnostics (emit e s) = ss_diagnostics s"
  by (simp_all add: emit_def)

lemma reply_fields [simp]:
  "ss_events (reply t b s) = ss_events s" "ss_kind (reply t b s) = ss_kind s" "ss_peer (reply t b s) = ss_peer s"
  "ss_reflector_module (reply t b s) = ss_reflector_module s" "ss_state (reply t b s) = ss_state s"
  "ss_client_callsign (reply t b s) = ss_client_callsign s" "ss_client_module (reply t b s) = ss_client_module s"
  "ss_last_stream_id (reply t b s) = ss_last_stream_id s" "ss_diagnostics (reply t b s) = ss_diagnostics s"
  by (simp_all add: reply_def)

lemma server_phase_cases:
  "server_phase a m s ph \<longleftrightarrow> ss_peer s = a \<and> ss_reflector_module s = m \<and>
     (ph = Absent \<and> (ss_state s = SI_Unknown \<or> ss_state s = SI_Link1Received) \<and>
        ss_client_callsign s = None \<and> ss_client_module s = None \<and> ss_last_stream_id s = None \<or>
      (\<exists>c. ph = Present c None \<and> ss_state s = SI_Linked \<and> ss_client_callsign s = Some c \<and> ss_last_stream_id s = None) \<or>
      (\<exists>c sid. ph = Present c (Some sid) \<and> ss_state s = SI_Streaming \<and> ss_client_callsign s = Some c \<and>
        ss_last_stream_id s = Some sid) \<or>
      ph = Gone \<and> ss_state s = SI_Closed)"
  by (cases ph) (auto simp: server_phase_def split: option.splits)

lemma follows_reply: "follows s (snd (reply_with now p s))"
  by (cases p) (auto intro!: follows_quiet simp: reply_with_def server_phase_cases)

lemma follows_set_diagnostics: "follows s (s\<lparr>ss_diagnostics := d\<rparr>)"
  by (rule follows_quiet) (simp_all add: server_phase_cases)

text \<open>The voice handlers of DPlus and DExtra are alike.\<close>

lemma dplus_voice_alike:
  "on_dplus_voice_header = on_dextra_voice_header" "on_dplus_voice_data = on_dextra_voice_data"
  "on_dplus_voice_eot = on_dextra_voice_eot"
  by (intro ext, simp add: on_dplus_voice_header_def on_dextra_voice_header_def on_dplus_voice_data_def
      on_dextra_voice_data_def on_dplus_voice_eot_def on_dextra_voice_eot_def)+

lemma follows_voice:
  "follows s (on_dextra_voice_header sid h s)"
  "follows s (on_dextra_voice_data sid q f s)"
  "follows s (on_dextra_voice_eot sid s)"
proof -
  show "follows s (on_dextra_voice_header sid h s)"
    by (cases "ss_state s = SI_Linked")
      (auto simp: on_dextra_voice_header_def server_phase_cases ServerEvent_of_raw_def
        intro!: follows_event [of _ _ "RawS_StreamStarted (ss_peer s) sid h"])
  show "follows s (on_dextra_voice_data sid q f s)"
    by (cases "ss_state s = SI_Streaming \<and> ss_last_stream_id s = Some sid")
      (auto simp: on_dextra_voice_data_def server_phase_cases ServerEvent_of_raw_def
        intro!: follows_event [of _ _ "RawS_StreamFrame (ss_peer s) sid q f"])
  show "follows s (on_dextra_voice_eot sid s)"
    by (cases "ss_state s = SI_Streaming \<and> ss_last_stream_id s = Some sid")
      (auto simp: on_dextra_voice_eot_def server_phase_cases ServerEvent_of_raw_def
        intro!: follows_event [of _ _ "RawS_StreamEnded (ss_peer s) sid"])
qed

text \<open>A link request of DExtra or DCS is ignored, refused because the callsign cannot be routed, or
  admits the peer.\<close>

definition admitted :: "DstarCallsign \<Rightarrow> DstarModule \<Rightarrow> ServerSessionCore \<Rightarrow> ServerSessionCore" where
  "admitted callsign client_module s =
     emit (RawS_Linked (ss_peer s) callsign (ss_reflector_module s))
       (let s1 = s\<lparr>ss_client_callsign := Some callsign, ss_client_module := Some client_module\<rparr>
        in if ss_state s1 \<noteq> SI_Streaming then s1\<lparr>ss_state := SI_Linked\<rparr> else s1)"

definition link_allowed :: "DstarCallsign \<Rightarrow> DstarModule \<Rightarrow> DstarModule \<Rightarrow> ServerSessionCore \<Rightarrow> bool" where
  "link_allowed callsign client_module reflector_module s \<longleftrightarrow>
     (ss_state s = SI_Unknown \<or> ss_state s = SI_Linked \<or> ss_state s = SI_Streaming) \<and>
     reflector_module = ss_reflector_module s \<and>
     \<not> differs (ss_client_callsign s) callsign \<and> \<not> differs (ss_client_module s) client_module"

lemma on_link_eq:
  "on_dextra_link now c r m s =
     (if \<not> link_allowed c m r s then (Ok (), s)
      else case RoutingCallsign_try_from c of
             Err e \<Rightarrow> (Err (Error_Type e), s)
           | Ok routing \<Rightarrow> reply_with now (dextra_err (encoded 32 (\<lambda>buf.
               dextra_encode_connect_ack buf \<lparr>ri_callsign = routing, ri_module = m\<rparr> r))) (admitted c m s))"
  "on_dcs_link now c m r s =
     (if \<not> link_allowed c m r s then (Ok (), s)
      else case RoutingCallsign_try_from c of
             Err e \<Rightarrow> (Err (Error_Type e), s)
           | Ok routing \<Rightarrow> reply_with now (dcs_err (encoded 32 (\<lambda>buf.
               dcs_encode_connect_ack buf \<lparr>ri_callsign = routing, ri_module = m\<rparr> r))) (admitted c m s))"
  by (auto simp: on_dextra_link_def on_dcs_link_def link_allowed_def admitted_def Let_def split: sum.split)

lemma follows_admitted: "link_allowed c m r s \<Longrightarrow> follows s (admitted c m s)"
  by (rule follows_event [of _ _ "RawS_Linked (ss_peer s) c (ss_reflector_module s)"])
    (auto simp: admitted_def Let_def link_allowed_def differs_def server_phase_cases ServerEvent_of_raw_def split: option.splits)

lemma follows_link:
  "follows s (snd (on_dextra_link now c r m s))" "follows s (snd (on_dcs_link now c m r s))"
  using follows_trans [OF follows_admitted follows_reply]
  by (auto simp: on_link_eq split: sum.split)

text \<open>Every unlink handler closes the session in the same way.\<close>

definition departed :: "ServerSessionCore \<Rightarrow> ServerSessionCore" where
  "departed s = (emit (RawS_Unlinked (ss_peer s)) s)\<lparr>ss_state := SI_Closed, ss_last_stream_id := None\<rparr>"

lemma follows_departed: "ss_state s \<noteq> SI_Closed \<Longrightarrow> follows s (departed s)"
  by (rule follows_event [of _ _ "RawS_Unlinked (ss_peer s)"])
    (auto simp: departed_def server_phase_cases ServerEvent_of_raw_def)

lemma follows_replied_departed: "ss_state s \<noteq> SI_Closed \<Longrightarrow> follows s (departed (reply now p s))"
  using follows_trans [OF follows_reply [of s now "Ok p", unfolded reply_with_def, simplified] follows_departed [of "reply now p s"]]
  by simp

lemma on_dextra_unlink_eq:
  "on_dextra_unlink c m s =
     (if ss_client_callsign s \<noteq> Some c \<or> ss_client_module s \<noteq> Some m then s else departed s)"
  by (simp add: on_dextra_unlink_def departed_def emit_def Let_def)

lemma follows_unlink:
  assumes "ss_state s \<noteq> SI_Closed"
  shows "follows s (on_dextra_unlink c m s)" "follows s (snd (on_dplus_unlink now s))"
    "follows s (snd (on_dcs_unlink now c m s))"
  using follows_departed [OF assms] follows_replied_departed [OF assms]
  by (auto simp: on_dextra_unlink_eq on_dplus_unlink_def on_dcs_unlink_def departed_def Let_def split: sum.split)

lemma follows_link1: "follows s (snd (on_dplus_link1 now s))"
proof -
  have "follows s (s\<lparr>ss_state := SI_Link1Received\<rparr>)" if "ss_state s = SI_Unknown"
    by (rule follows_quiet) (use that in \<open>auto simp: server_phase_cases\<close>)
  then show ?thesis
    using follows_trans [OF _ follows_reply] by (auto simp: on_dplus_link1_def Let_def follows_reply split: InternalState.split)
qed

lemma on_dplus_link2_first:
  "ss_state s = SI_Link1Received \<Longrightarrow>
     on_dplus_link2 now c s = enqueue_dplus_link2_reply now Link2_Accept (admitted c (ss_reflector_module s) s)"
  by (simp add: on_dplus_link2_def admitted_def Let_def emit_def)

lemma follows_link2: "follows s (snd (on_dplus_link2 now c s))"
proof (cases "ss_state s = SI_Link1Received")
  case True
  have "follows s (admitted c (ss_reflector_module s) s)"
    by (rule follows_event [of _ _ "RawS_Linked (ss_peer s) c (ss_reflector_module s)"])
      (use True in \<open>auto simp: admitted_def Let_def server_phase_cases ServerEvent_of_raw_def\<close>)
  from follows_trans [OF this follows_reply] show ?thesis
    using True by (simp add: on_dplus_link2_first enqueue_dplus_link2_reply_def)
qed (auto simp: on_dplus_link2_def enqueue_dplus_link2_reply_def follows_reply)

text \<open>A DCS packet is a header, a frame and possibly an end in one.\<close>

lemma on_dcs_voice_eq:
  "on_dcs_voice h sid q f is_end s =
     (if (ss_state s = SI_Linked \<or> ss_state s = SI_Streaming) \<and> \<not> differs (ss_last_stream_id s) sid
      then let s1 = (if ss_last_stream_id s = None
                     then emit (RawS_StreamStarted (ss_peer s) sid h) (s\<lparr>ss_state := SI_Streaming, ss_last_stream_id := Some sid\<rparr>)
                     else s);
               s2 = emit (RawS_StreamFrame (ss_peer s1) sid q f) s1
           in if is_end
              then emit (RawS_StreamEnded (ss_peer s2) sid) (s2\<lparr>ss_state := SI_Linked, ss_last_stream_id := None\<rparr>)
              else s2
      else s)"
  by (auto simp: on_dcs_voice_def Let_def differs_def split: option.splits)

lemma dcs_voice_as_dextra:
  assumes "ss_state s = SI_Linked \<and> ss_last_stream_id s = None \<or> ss_state s = SI_Streaming \<and> ss_last_stream_id s = Some sid"
  shows "on_dcs_voice h sid q f is_end s =
     (let s2 = on_dextra_voice_data sid q f (on_dextra_voice_header sid h s)
      in if is_end then on_dextra_voice_eot sid s2 else s2)"
  using assms
proof
  assume "ss_state s = SI_Linked \<and> ss_last_stream_id s = None"
  then show ?thesis
    by (simp add: on_dcs_voice_eq Let_def differs_def on_dextra_voice_header_def on_dextra_voice_data_def on_dextra_voice_eot_def)
next
  assume "ss_state s = SI_Streaming \<and> ss_last_stream_id s = Some sid"
  then show ?thesis
    by (simp add: on_dcs_voice_eq Let_def differs_def on_dextra_voice_header_def on_dextra_voice_data_def on_dextra_voice_eot_def)
qed

lemma follows_dcs_voice: "follows s (on_dcs_voice h sid q f is_end s)"
proof (cases "ss_state s = SI_Linked \<and> ss_last_stream_id s = None \<or> ss_state s = SI_Streaming \<and> ss_last_stream_id s = Some sid")
  case True
  have "follows s (on_dextra_voice_data sid q f (on_dextra_voice_header sid h s))"
    using follows_trans [OF follows_voice(1) follows_voice(2)] by simp
  then show ?thesis
    using follows_trans [OF _ follows_voice(3)] by (simp add: dcs_voice_as_dextra [OF True] Let_def)
next
  case False
  have "on_dcs_voice h sid q f is_end s = s" if "server_phase a m s ph" for a m ph
    using False that by (auto simp: on_dcs_voice_def differs_def server_phase_cases)
  then show ?thesis
    using follows_refl [of s] unfolding follows_def by metis
qed

section \<open>The contract of a server session\<close>

lemma follows_dispatch:
  assumes "ss_state s \<noteq> SI_Closed"
  shows "follows s (snd (server_dextra_dispatch now p s))" "follows s (snd (server_dplus_dispatch now q s))"
    "follows s (snd (server_dcs_dispatch now r s))"
proof -
  show "follows s (snd (server_dextra_dispatch now p s))"
    using assms by (cases p)
      (auto simp: server_dextra_dispatch_def follows_link follows_unlink follows_voice on_dextra_poll_def follows_reply)
  show "follows s (snd (server_dplus_dispatch now q s))"
    using assms by (cases q) (auto simp: server_dplus_dispatch_def follows_link1 follows_link2 follows_unlink follows_voice
        dplus_voice_alike on_dplus_poll_def follows_reply)
  show "follows s (snd (server_dcs_dispatch now r s))"
    using assms by (cases r)
      (auto simp: server_dcs_dispatch_def follows_link follows_unlink follows_dcs_voice on_dcs_poll_def follows_reply)
qed

lemma server_handle_input_snd:
  "snd (server_handle_input now bs s) = (if ss_state s = SI_Closed then s else snd (server_kind_input now bs s))"
  by (auto simp: server_handle_input_def split: prod.split sum.split)

lemma follows_input: "follows s (snd (server_handle_input now bs s))"
proof (cases "ss_state s = SI_Closed")
  case False
  then have open_d: "ss_state (s\<lparr>ss_diagnostics := d\<rparr>) \<noteq> SI_Closed" for d by simp
  note step = follows_trans [OF follows_set_diagnostics follows_dispatch(1) [OF open_d]]
    follows_trans [OF follows_set_diagnostics follows_dispatch(2) [OF open_d]]
    follows_trans [OF follows_set_diagnostics follows_dispatch(3) [OF open_d]]
  show ?thesis
    using False by (cases "ss_kind s")
      (auto simp: server_handle_input_snd server_kind_input_def server_dextra_input_def server_dplus_input_def
        server_dcs_input_def follows_set_diagnostics step split: prod.split sum.split)
qed (simp add: server_handle_input_snd)

lemma server_step_follows:
  assumes "server_step op s = (x, s')" "\<And>k. op \<noteq> ServerPollEvent k"
  shows "follows s s'" "server_output_event x = None"
proof -
  have s': "s' = snd (server_step op s)" "x = fst (server_step op s)" using assms(1) by simp_all
  have "follows s (snd (server_pop_transmit t s))" for t
    by (auto simp: server_pop_transmit_def server_phase_cases split: prod.splits option.splits intro!: follows_quiet)
  moreover have "follows s (snd (server_drain_diagnostics s))"
    by (simp add: server_drain_diagnostics_def follows_set_diagnostics)
  ultimately show "follows s s'" using assms(2) unfolding s' by (cases op) (auto simp: follows_input)
  show "server_output_event x = None" using assms(2) unfolding s' by (cases op) auto
qed

lemma server_pop_event_cases:
  "server_pop_event k s = (None, s) \<or>
     (\<exists>raw rest. ss_events s = raw # rest \<and> server_pop_event k s = (Some (ServerEvent_of_raw raw), s\<lparr>ss_events := rest\<rparr>))"
  by (cases "ss_events s") (simp_all add: server_pop_event_def)

interpretation server_events: event_source server_step server_output_event queued_server_events "server_observe a m" "server_phase a m"
  for a m
proof
  fix op s x s' e ph assume s: "server_step op s = (x, s')" "server_output_event x = Some e" "server_phase a m s ph"
  then obtain k where op: "op = ServerPollEvent k" using server_step_follows(2) by fastforce
  then show "queued_server_events s = e # queued_server_events s' \<and> server_phase a m s' ph"
    using s server_pop_event_cases [of k s] by (auto simp: queued_server_events_def server_phase_cases)
next
  fix op s x s' ph assume s: "server_step op s = (x, s')" "server_output_event x = None" "server_phase a m s ph"
  have "follows s s'"
  proof (cases "\<exists>k. op = ServerPollEvent k")
    case True
    then obtain k where "op = ServerPollEvent k" by blast
    then show ?thesis using s server_pop_event_cases [of k s] by auto
  qed (use server_step_follows [OF s(1)] in blast)
  then show "\<exists>es ph'. queued_server_events s' = queued_server_events s @ es \<and>
      follow (server_observe a m) es ph = Some ph' \<and> server_phase a m s' ph'"
    using s(3) unfolding follows_def by blast
qed

lemma new_server_phase: "server_phase peer module (ServerSessionCore_new kind peer module) Absent"
  by (simp add: server_phase_def ServerSessionCore_new_def)

text \<open>C3. Whatever datagrams a peer sends to its server session, of any protocol, at any instants and
  interleaved with any polling, the events the shell has received, followed by those still queued,
  form a run of the automaton \<open>server_observe\<close>: all carry the peer's address; the peer is announced
  with one callsign, the reflector's own module, and every later announcement repeats that callsign;
  streams start only while none is open; frames and stream ends belong to the open stream; nothing
  follows the unlink event. The automaton is where the state of the session says it is.\<close>

theorem server_event_protocol:
  assumes "run_steps server_step ops (ServerSessionCore_new kind peer module) = (outs, s)"
  shows "\<exists>ph. follow (server_observe peer module)
      (handed_out server_output_event outs @ map ServerEvent_of_raw (ss_events s)) Absent = Some ph \<and>
    server_phase peer module s ph"
  using server_events.run_from_start [OF assms _ new_server_phase]
  by (simp add: queued_server_events_def ServerSessionCore_new_def)

section \<open>Replies\<close>

lemma server_encode_fun [simp]:
  "dextra_server_encode (DxAck i m) = (\<lambda>buf. dextra_encode_connect_ack buf i m)"
  "dextra_server_encode (DxPollEcho c) = (\<lambda>buf. dextra_encode_poll_echo buf c)"
  "dplus_server_encode DpLink1Ack = dplus_encode_link1_ack" "dplus_server_encode DpUnlinkAck = dplus_encode_unlink_ack"
  "dplus_server_encode DpPollEcho = dplus_encode_poll_echo"
  "dplus_server_encode (DpLink2Reply r) = (\<lambda>buf. dplus_encode_link2_reply buf r)"
  "dcs_server_encode (DcAck i m) = (\<lambda>buf. dcs_encode_connect_ack buf i m)"
  "dcs_server_encode (DcNak i sl) = (\<lambda>buf. dcs_encode_connect_nak buf i sl)"
  "dcs_server_encode (DcPollReply c d) = (\<lambda>buf. dcs_encode_poll_reply buf c d)"
  by (rule ext, simp)+

text \<open>No scratch buffer is too small.\<close>

lemma dextra_replies:
  "RepeaterIdentity_wf i \<Longrightarrow> Module_wf m \<Longrightarrow>
     dextra_err (encoded 32 (\<lambda>buf. dextra_encode_connect_ack buf i m)) = Ok (dextra_server_wire (DxAck i m))"
  "DstarCallsign_wf c \<Longrightarrow>
     dextra_err (encoded 16 (\<lambda>buf. dextra_encode_poll_echo buf c)) = Ok (dextra_server_wire (DxPollEcho c))"
  using dextra_down.encoded_wire [of "DxAck i m" 32] dextra_down.encoded_wire [of "DxPollEcho c" 16]
  by (simp_all add: dextra_err_def dextra_wire_lens DstarCallsign_wf_def)

lemma dplus_replies:
  "dplus_err (encoded 8 dplus_encode_link1_ack) = Ok (dplus_server_wire DpLink1Ack)"
  "dplus_err (encoded 8 dplus_encode_unlink_ack) = Ok (dplus_server_wire DpUnlinkAck)"
  "dplus_err (encoded 8 dplus_encode_poll_echo) = Ok (dplus_server_wire DpPollEcho)"
  "length (link2_tag r) = 4 \<Longrightarrow>
     dplus_err (encoded 16 (\<lambda>buf. dplus_encode_link2_reply buf r)) = Ok (dplus_server_wire (DpLink2Reply r))"
  using dplus_down.encoded_wire [of DpLink1Ack 8] dplus_down.encoded_wire [of DpUnlinkAck 8]
    dplus_down.encoded_wire [of DpPollEcho 8] dplus_down.encoded_wire [of "DpLink2Reply r" 16]
  by (simp_all add: dplus_err_def dplus_consts)

lemma dcs_replies:
  "RepeaterIdentity_wf i \<Longrightarrow> Module_wf m \<Longrightarrow>
     dcs_err (encoded 32 (\<lambda>buf. dcs_encode_connect_ack buf i m)) = Ok (dcs_server_wire (DcAck i m))"
  "RepeaterIdentity_wf i \<Longrightarrow>
     dcs_err (encoded 14 (\<lambda>buf. dcs_encode_connect_nak buf i ModuleSlot_Empty)) = Ok (dcs_server_wire (DcNak i ModuleSlot_Empty))"
  "DstarCallsign_wf c \<Longrightarrow> DstarCallsign_wf r \<Longrightarrow>
     dcs_err (encoded 32 (\<lambda>buf. dcs_encode_poll_reply buf c r)) = Ok (dcs_server_wire (DcPollReply c r))"
  using dcs_down.encoded_wire [of "DcAck i m" 32] dcs_down.encoded_wire [of "DcNak i ModuleSlot_Empty" 14]
    dcs_down.encoded_wire [of "DcPollReply c r" 32]
  by (simp_all add: dcs_err_def length_dcs_wires ModuleSlot_wf_def)

text \<open>What a client's decoder makes of a datagram.\<close>

definition readable :: "ProtocolKind \<Rightarrow> bytes \<Rightarrow> bool" where
  "readable k bs \<longleftrightarrow> (case k of
      PK_DPlus \<Rightarrow> \<not> isl (fst (dplus_decode_server_to_client bs []))
    | PK_DExtra \<Rightarrow> \<not> isl (fst (dextra_decode_server_to_client bs []))
    | PK_Dcs \<Rightarrow> \<not> isl (fst (dcs_decode_server_to_client bs [])))"

lemma readable_wire:
  "dplus_server_wf p \<Longrightarrow> readable PK_DPlus (dplus_server_wire p)"
  "dextra_server_wf q \<Longrightarrow> readable PK_DExtra (dextra_server_wire q)"
  "dcs_server_wf r \<Longrightarrow> readable PK_Dcs (dcs_server_wire r)"
  by (simp_all add: readable_def dplus_down.dec_wire dextra_down.dec_wire dcs_down.dec_wire)

section \<open>What the decoders hand to the handlers\<close>

lemma wire_callsigns_wf [simp]:
  "DstarCallsign_wf (dextra_extract_callsign bs)" "DstarCallsign_wf (dcs_extract_callsign bs)"
  by (auto simp: dextra_extract_callsign_def dcs_extract_callsign_def DstarCallsign_wf_def
      DstarCallsign_from_wire_bytes_def copied_spaces_def get_range_def put_def split: option.splits)

lemma module_at_wf:
  "dextra_module_at off b = Ok m \<Longrightarrow> Module_wf m" "dcs_module_at off b = Ok m \<Longrightarrow> Module_wf m"
  by (auto simp: dextra_module_at_def dcs_module_at_def Module_wf_def Module_try_from_byte_def split: if_splits)

fun dextra_packet_wf :: "DExtraClientPacket \<Rightarrow> bool" where
  "dextra_packet_wf (DExtraC_Link c r m) = (DstarCallsign_wf c \<and> Module_wf r \<and> Module_wf m)"
| "dextra_packet_wf (DExtraC_Poll c) = DstarCallsign_wf c"
| "dextra_packet_wf _ = True"

fun dcs_packet_wf :: "DcsClientPacket \<Rightarrow> bool" where
  "dcs_packet_wf (DcsC_Link c m r _ _) = (DstarCallsign_wf c \<and> Module_wf r \<and> Module_wf m)"
| "dcs_packet_wf (DcsC_Unlink c m _) = (DstarCallsign_wf c \<and> Module_wf m)"
| "dcs_packet_wf (DcsC_Poll c r) = (DstarCallsign_wf c \<and> DstarCallsign_wf r)"
| "dcs_packet_wf _ = True"

lemma decoded_packet_wf:
  "dextra_decode_client_to_server bs d = (Ok p, d') \<Longrightarrow> dextra_packet_wf p"
  "dcs_decode_client_to_server bs d = (Ok q, d') \<Longrightarrow> dcs_packet_wf q"
proof -
  show "dextra_decode_client_to_server bs d = (Ok p, d') \<Longrightarrow> dextra_packet_wf p"
    by (auto simp: dextra_decode_client_to_server_def dextra_decode_client_connect_def Let_def module_at_wf
        split: if_splits sum.splits prod.splits)
  show "dcs_decode_client_to_server bs d = (Ok q, d') \<Longrightarrow> dcs_packet_wf q"
    by (auto simp: dcs_decode_client_to_server_def dcs_decode_client_poll_def dcs_decode_client_link_def
        dcs_decode_client_unlink_def dcs_decode_client_voice_def Let_def module_at_wf split: if_splits sum.splits prod.splits)
qed

lemma routing_wf: "RoutingCallsign_try_from c = Ok r \<Longrightarrow> RoutingCallsign_wf r"
  by (auto simp: RoutingCallsign_try_from_def intro: RoutingCallsign_new_wf split: sum.splits)

lemma routing_error: "RoutingCallsign_try_from c = Err e \<Longrightarrow> e = InvalidRoutingCallsign"
  by (auto simp: RoutingCallsign_try_from_def RoutingCallsign_new_def Let_def split: sum.splits if_splits)

section \<open>The state invariant\<close>

definition server_inv :: "ServerSessionCore \<Rightarrow> bool" where
  "server_inv s \<longleftrightarrow> Module_wf (ss_reflector_module s) \<and> outbox_wf (ss_outbox s) \<and>
     list_all (\<lambda>p. op_dst p = ss_peer s \<and> readable (ss_kind s) (op_payload p)) (waiting (ss_outbox s))"

lemma server_inv_cong:
  "ss_reflector_module s' = ss_reflector_module s \<Longrightarrow> ss_outbox s' = ss_outbox s \<Longrightarrow> ss_peer s' = ss_peer s \<Longrightarrow>
     ss_kind s' = ss_kind s \<Longrightarrow> server_inv s' = server_inv s"
  by (simp add: server_inv_def)

lemma server_inv_reply: "server_inv s \<Longrightarrow> readable (ss_kind s) bs \<Longrightarrow> server_inv (reply now bs s)"
  using outbox.enq_contents [of "ss_outbox s" "\<lparr>op_dst = ss_peer s, op_payload = bs, op_not_before = now\<rparr>"]
    outbox.enq_inv [of "ss_outbox s" "\<lparr>op_dst = ss_peer s, op_payload = bs, op_not_before = now\<rparr>"]
  by (auto simp: server_inv_def reply_def list_all_iff dest: set_takeWhileD set_dropWhileD)

text \<open>A handler keeps the invariant and the link, and fails only before it has changed anything.\<close>

definition sound :: "ServerSessionCore \<Rightarrow> (Error + unit) \<times> ServerSessionCore \<Rightarrow> bool" where
  "sound s res \<longleftrightarrow> server_inv (snd res) \<and> ss_peer (snd res) = ss_peer s \<and> ss_kind (snd res) = ss_kind s \<and>
     (isl (fst res) \<longrightarrow> res = (Err (Error_Type InvalidRoutingCallsign), s))"

lemma sound_idle: "server_inv s \<Longrightarrow> sound s (Ok (), s)"
  by (simp add: sound_def)

lemma sound_quiet:
  "server_inv s \<Longrightarrow> ss_reflector_module s' = ss_reflector_module s \<Longrightarrow> ss_outbox s' = ss_outbox s \<Longrightarrow>
     ss_peer s' = ss_peer s \<Longrightarrow> ss_kind s' = ss_kind s \<Longrightarrow> sound s (Ok (), s')"
  using server_inv_cong [of s' s] by (simp add: sound_def)

lemma sound_reply:
  assumes "server_inv s" "ss_reflector_module s' = ss_reflector_module s" "ss_outbox s' = ss_outbox s"
    "ss_peer s' = ss_peer s" "ss_kind s' = ss_kind s" "p = Ok bs" "readable (ss_kind s) bs"
  shows "sound s (reply_with now p s')"
  using server_inv_reply [of s' bs now] server_inv_cong [of s' s] assms by (simp add: sound_def reply_with_def)

lemma quiet_fields [simp]:
  "ss_reflector_module (admitted c m s) = ss_reflector_module s" "ss_outbox (admitted c m s) = ss_outbox s"
  "ss_peer (admitted c m s) = ss_peer s" "ss_kind (admitted c m s) = ss_kind s"
  "ss_reflector_module (departed s) = ss_reflector_module s" "ss_outbox (departed s) = ss_outbox s"
  "ss_peer (departed s) = ss_peer s" "ss_kind (departed s) = ss_kind s"
  by (simp_all add: admitted_def departed_def Let_def)

lemma sound_dextra_dispatch:
  assumes "server_inv s" "ss_kind s = PK_DExtra" "dextra_packet_wf p"
  shows "sound s (server_dextra_dispatch now p s)"
proof (cases p)
  case (DExtraC_Link c r m)
  show ?thesis
  proof (cases "RoutingCallsign_try_from c")
    case (Inl e)
    then show ?thesis
      using assms(1) routing_error [OF Inl] DExtraC_Link by (simp add: server_dextra_dispatch_def on_link_eq sound_def)
  next
    case (Inr routing)
    let ?i = "\<lparr>ri_callsign = routing, ri_module = m\<rparr>"
    have "RepeaterIdentity_wf ?i" "Module_wf r"
      using assms DExtraC_Link routing_wf [OF Inr] by (simp_all add: RepeaterIdentity_wf_def)
    then show ?thesis
      using assms(1,2) DExtraC_Link Inr dextra_replies(1) [of ?i r] readable_wire(2) [of "DxAck ?i r"]
      by (auto simp: server_dextra_dispatch_def on_link_eq sound_idle intro!: sound_reply)
  qed
next
  case (DExtraC_Poll c)
  then show ?thesis
    using assms readable_wire(2) [of "DxPollEcho c"]
    by (auto simp: server_dextra_dispatch_def on_dextra_poll_def sound_idle dextra_replies intro!: sound_reply)
qed (use assms in \<open>auto simp: server_dextra_dispatch_def on_dextra_unlink_eq on_dextra_voice_header_def
       on_dextra_voice_data_def on_dextra_voice_eot_def sound_idle intro!: sound_quiet\<close>)

lemma link2_tags [simp]: "length (link2_tag Link2_Accept) = 4" "length (link2_tag Link2_Busy) = 4"
  by (simp_all add: link2_tag_def dplus_consts)

lemma sound_departed:
  assumes "server_inv s" "readable (ss_kind s) bs"
  shows "sound s (Ok (), departed (reply now bs s))"
  using server_inv_cong [of "departed (reply now bs s)" "reply now bs s"] server_inv_reply [OF assms]
  by (simp add: sound_def)

lemma sound_dplus_dispatch:
  assumes "server_inv s" "ss_kind s = PK_DPlus"
  shows "sound s (server_dplus_dispatch now p s)"
proof -
  have wire: "readable PK_DPlus (dplus_server_wire q)" if "q \<in> {DpLink1Ack, DpUnlinkAck, DpPollEcho,
      DpLink2Reply Link2_Accept, DpLink2Reply Link2_Busy}" for q
    using that readable_wire(1) [of q] by auto
  have "sound s (on_dplus_link1 now s)"
    using assms wire [of DpLink1Ack]
    by (auto simp: on_dplus_link1_def dplus_replies sound_idle Let_def split: InternalState.split intro!: sound_reply)
  moreover have "sound s (on_dplus_link2 now c s)" for c
    using assms wire [of "DpLink2Reply Link2_Accept"] wire [of "DpLink2Reply Link2_Busy"]
    by (auto simp: on_dplus_link2_def enqueue_dplus_link2_reply_def dplus_replies sound_idle Let_def intro!: sound_reply)
  moreover have "sound s (on_dplus_unlink now s)"
    using assms wire [of DpUnlinkAck] sound_departed [of s LINK1_BYTES]
    by (auto simp: on_dplus_unlink_def dplus_replies sound_idle Let_def departed_def [symmetric]
        intro: sound_departed)
  moreover have "sound s (on_dplus_poll now s)"
    using assms wire [of DpPollEcho] by (auto simp: on_dplus_poll_def dplus_replies sound_idle intro!: sound_reply)
  moreover have "sound s (Ok (), on_dextra_voice_header i h s)" "sound s (Ok (), on_dextra_voice_data i q f s)"
    "sound s (Ok (), on_dextra_voice_eot i s)" for i h q f
    using assms by (auto simp: on_dextra_voice_header_def on_dextra_voice_data_def on_dextra_voice_eot_def intro!: sound_quiet)
  ultimately show ?thesis by (cases p) (simp_all add: server_dplus_dispatch_def dplus_voice_alike)
qed

lemma sound_dcs_dispatch:
  assumes "server_inv s" "ss_kind s = PK_Dcs" "dcs_packet_wf p"
  shows "sound s (server_dcs_dispatch now p s)"
proof (cases p)
  case (DcsC_Link c m r t g)
  show ?thesis
  proof (cases "RoutingCallsign_try_from c")
    case (Inl e)
    then show ?thesis
      using assms(1) routing_error [OF Inl] DcsC_Link by (simp add: server_dcs_dispatch_def on_link_eq sound_def)
  next
    case (Inr routing)
    let ?i = "\<lparr>ri_callsign = routing, ri_module = m\<rparr>"
    have "RepeaterIdentity_wf ?i" "Module_wf r"
      using assms DcsC_Link routing_wf [OF Inr] by (simp_all add: RepeaterIdentity_wf_def)
    then show ?thesis
      using assms(1,2) DcsC_Link Inr dcs_replies(1) [of ?i r] readable_wire(3) [of "DcAck ?i r"]
      by (auto simp: server_dcs_dispatch_def on_link_eq sound_idle intro!: sound_reply)
  qed
next
  case (DcsC_Unlink c m t)
  show ?thesis
  proof (cases "RoutingCallsign_try_from c")
    case (Inl e)
    then show ?thesis
      using assms(1) routing_error [OF Inl] DcsC_Unlink by (simp add: server_dcs_dispatch_def on_dcs_unlink_def sound_def)
  next
    case (Inr routing)
    let ?i = "\<lparr>ri_callsign = routing, ri_module = m\<rparr>"
    have "RepeaterIdentity_wf ?i" using assms DcsC_Unlink routing_wf [OF Inr] by (simp add: RepeaterIdentity_wf_def)
    then show ?thesis
      using assms DcsC_Unlink Inr readable_wire(3) [of "DcNak ?i ModuleSlot_Empty"]
      by (auto simp: server_dcs_dispatch_def on_dcs_unlink_def dcs_replies sound_idle Let_def departed_def [symmetric]
          ModuleSlot_wf_def intro: sound_departed)
  qed
next
  case (DcsC_Poll c r)
  then show ?thesis
    using assms readable_wire(3) [of "DcPollReply c r"]
    by (auto simp: server_dcs_dispatch_def on_dcs_poll_def sound_idle dcs_replies intro!: sound_reply)
next
  case (DcsC_Voice h i q f e)
  then show ?thesis
    using assms by (auto simp: server_dcs_dispatch_def on_dcs_voice_def Let_def intro!: sound_quiet)
qed

text \<open>What arrives of a client's datagram.\<close>

lemma server_receives:
  assumes "ss_state s \<noteq> SI_Closed"
  shows "ss_kind s = PK_DPlus \<Longrightarrow> dplus_client_wf p \<Longrightarrow>
      snd (server_handle_input now (dplus_client_wire p) s) = snd (server_dplus_dispatch now (dplus_client_received p) s)"
    "ss_kind s = PK_DExtra \<Longrightarrow> dextra_client_wf q \<Longrightarrow>
      snd (server_handle_input now (dextra_client_wire q) s) = snd (server_dextra_dispatch now (dextra_client_received q) s)"
    "ss_kind s = PK_Dcs \<Longrightarrow> dcs_client_wf r \<Longrightarrow>
      snd (server_handle_input now (dcs_client_wire r) s) =
      snd (server_dcs_dispatch now (dcs_client_received r) (s\<lparr>ss_diagnostics := ss_diagnostics s @ dcs_client_remarks r\<rparr>))"
  using assms dplus_up.dec_wire [of p] dextra_up.dec_wire [of q] dcs_up.dec_wire [of r]
  by (simp_all add: server_handle_input_snd server_kind_input_def server_dplus_input_def server_dextra_input_def
      server_dcs_input_def)

section \<open>What a peer can cause\<close>

text \<open>The error that the decoder of the session's protocol reports for a datagram.\<close>

definition decode_error :: "ServerSessionCore \<Rightarrow> bytes \<Rightarrow> Error option" where
  "decode_error s bs = (case ss_kind s of
      PK_DPlus \<Rightarrow> (case fst (dplus_decode_client_to_server bs (ss_diagnostics s)) of
        Err e \<Rightarrow> Some (Error_Protocol (PE_DPlus e)) | Ok _ \<Rightarrow> None)
    | PK_DExtra \<Rightarrow> (case fst (dextra_decode_client_to_server bs (ss_diagnostics s)) of
        Err e \<Rightarrow> Some (Error_Protocol (PE_DExtra e)) | Ok _ \<Rightarrow> None)
    | PK_Dcs \<Rightarrow> (case fst (dcs_decode_client_to_server bs (ss_diagnostics s)) of
        Err e \<Rightarrow> Some (Error_Protocol (PE_Dcs e)) | Ok _ \<Rightarrow> None))"

lemma kind_input_cases:
  assumes "server_inv s"
  shows "(\<exists>e d. decode_error s bs = Some e \<and> server_kind_input now bs s = (Err e, s\<lparr>ss_diagnostics := d\<rparr>)) \<or>
    (\<exists>d. sound (s\<lparr>ss_diagnostics := d\<rparr>) (server_kind_input now bs s))"
proof -
  have inv: "server_inv (s\<lparr>ss_diagnostics := d\<rparr>)" for d using assms server_inv_cong [of "s\<lparr>ss_diagnostics := d\<rparr>" s] by simp
  show ?thesis
  proof (cases "ss_kind s")
    case PK_DPlus
    obtain r d where r: "dplus_decode_client_to_server bs (ss_diagnostics s) = (r, d)" by fastforce
    show ?thesis
    proof (cases r)
      case (Inr p)
      then have "server_kind_input now bs s = server_dplus_dispatch now p (s\<lparr>ss_diagnostics := d\<rparr>)"
        using PK_DPlus r by (simp add: server_kind_input_def server_dplus_input_def)
      then show ?thesis using sound_dplus_dispatch [OF inv, of d now p] PK_DPlus by auto
    qed (use PK_DPlus r in \<open>auto simp: decode_error_def server_kind_input_def server_dplus_input_def\<close>)
  next
    case PK_DExtra
    obtain r d where r: "dextra_decode_client_to_server bs (ss_diagnostics s) = (r, d)" by fastforce
    show ?thesis
    proof (cases r)
      case (Inr p)
      then have "server_kind_input now bs s = server_dextra_dispatch now p (s\<lparr>ss_diagnostics := d\<rparr>)"
        using PK_DExtra r by (simp add: server_kind_input_def server_dextra_input_def)
      then show ?thesis
        using sound_dextra_dispatch [OF inv _ decoded_packet_wf(1) [OF r [unfolded Inr]], of d now] PK_DExtra by auto
    qed (use PK_DExtra r in \<open>auto simp: decode_error_def server_kind_input_def server_dextra_input_def\<close>)
  next
    case PK_Dcs
    obtain r d where r: "dcs_decode_client_to_server bs (ss_diagnostics s) = (r, d)" by fastforce
    show ?thesis
    proof (cases r)
      case (Inr p)
      then have "server_kind_input now bs s = server_dcs_dispatch now p (s\<lparr>ss_diagnostics := d\<rparr>)"
        using PK_Dcs r by (simp add: server_kind_input_def server_dcs_input_def)
      then show ?thesis
        using sound_dcs_dispatch [OF inv _ decoded_packet_wf(2) [OF r [unfolded Inr]], of d now] PK_Dcs by auto
    qed (use PK_Dcs r in \<open>auto simp: decode_error_def server_kind_input_def server_dcs_input_def\<close>)
  qed
qed

definition link_kept :: "ServerSessionCore \<Rightarrow> ServerSessionCore \<Rightarrow> bool" where
  "link_kept s s' \<longleftrightarrow> server_inv s' \<and> ss_peer s' = ss_peer s \<and> ss_kind s' = ss_kind s"

lemma link_kept_cong:
  "server_inv s \<Longrightarrow> ss_reflector_module s' = ss_reflector_module s \<Longrightarrow> ss_outbox s' = ss_outbox s \<Longrightarrow>
     ss_peer s' = ss_peer s \<Longrightarrow> ss_kind s' = ss_kind s \<Longrightarrow> link_kept s s'"
  using server_inv_cong [of s' s] by (simp add: link_kept_def)

lemma server_input_sound:
  assumes "server_inv s"
  shows "link_kept s (snd (server_handle_input now bs s))"
proof (cases "ss_state s = SI_Closed")
  case False
  from kind_input_cases [OF assms, of bs now] show ?thesis
  proof (elim disjE exE conjE)
    fix e d assume "server_kind_input now bs s = (Err e, s\<lparr>ss_diagnostics := d\<rparr>)"
    then show ?thesis using False link_kept_cong [OF assms, of "s\<lparr>ss_diagnostics := d\<rparr>"] by (simp add: server_handle_input_snd)
  next
    fix d assume "sound (s\<lparr>ss_diagnostics := d\<rparr>) (server_kind_input now bs s)"
    then show ?thesis using False by (simp add: server_handle_input_snd sound_def link_kept_def)
  qed
qed (use assms in \<open>simp add: server_handle_input_snd link_kept_def\<close>)

lemma server_input_errors:
  assumes "server_inv s" "server_handle_input now bs s = (Err e, s')"
  shows "s' = s\<lparr>ss_diagnostics := ss_diagnostics s'\<rparr> \<and> \<not> is_unknown_length e \<and>
    (e = Error_Type InvalidRoutingCallsign \<or> decode_error s bs = Some e)"
proof -
  have k: "server_kind_input now bs s = (Err e, s')" "\<not> is_unknown_length e"
    using assms(2) by (auto simp: server_handle_input_def split: if_splits prod.splits sum.splits)
  from kind_input_cases [OF assms(1), of bs now] show ?thesis
  proof (elim disjE exE conjE)
    fix e' d assume "decode_error s bs = Some e'" "server_kind_input now bs s = (Err e', s\<lparr>ss_diagnostics := d\<rparr>)"
    then show ?thesis using k by auto
  next
    fix d assume "sound (s\<lparr>ss_diagnostics := d\<rparr>) (server_kind_input now bs s)"
    then show ?thesis using k by (auto simp: sound_def)
  qed
qed

lemma server_transmit_sound:
  assumes "server_inv s" "server_pop_transmit now s = (r, s')"
  shows "link_kept s s'"
    "r = Some tx \<Longrightarrow> tx_dst tx = ss_peer s \<and> readable (ss_kind s) (tx_payload tx)"
proof -
  obtain p q where pop: "Outbox_pop_ready now (ss_outbox s) = (p, q)" by (cases "Outbox_pop_ready now (ss_outbox s)")
  have q: "outbox_wf q" "set (waiting q) \<subseteq> set (waiting (ss_outbox s))"
    and front: "\<And>x. p = Some x \<Longrightarrow> x \<in> set (waiting (ss_outbox s))"
    using Outbox_pop_ready_waiting [OF _ pop] assms(1) by (auto simp: server_inv_def split: list.splits if_splits)
  show "link_kept s s'"
    using assms pop q by (cases p) (auto simp: link_kept_def server_pop_transmit_def server_inv_def list_all_iff)
  show "tx_dst tx = ss_peer s \<and> readable (ss_kind s) (tx_payload tx)" if "r = Some tx"
    using assms pop front that by (cases p) (auto simp: server_pop_transmit_def server_inv_def list_all_iff)
qed

lemma server_step_sound:
  assumes "server_inv s" "server_step op s = (x, s')"
  shows "link_kept s s'"
    "x = SrvSent (Some tx) \<Longrightarrow> tx_dst tx = ss_peer s \<and> readable (ss_kind s) (tx_payload tx)"
proof -
  have s': "s' = snd (server_step op s)" using assms(2) by simp
  show "link_kept s s'"
  proof (cases op)
    case (ServerInput t bs)
    then show ?thesis using server_input_sound [OF assms(1), of t bs] s' by simp
  next
    case (ServerPollTransmit t)
    then show ?thesis using server_transmit_sound(1) [OF assms(1), of t] s' by (simp add: prod_eq_iff)
  qed (use assms(1) s' in \<open>auto simp: server_pop_event_def server_drain_diagnostics_def split: list.split
        intro!: link_kept_cong\<close>)
  show "x = SrvSent (Some tx) \<Longrightarrow> tx_dst tx = ss_peer s \<and> readable (ss_kind s) (tx_payload tx)"
    using assms(2) server_transmit_sound(2) [OF assms(1)]
    by (cases op) (auto simp: apfst_def map_prod_def split: prod.splits)
qed

lemma server_run_sound:
  assumes "run_steps server_step ops s = (outs, s')" "server_inv s"
  shows "link_kept s s' \<and>
    (\<forall>tx. SrvSent (Some tx) \<in> set outs \<longrightarrow> tx_dst tx = ss_peer s \<and> readable (ss_kind s) (tx_payload tx))"
  using assms
proof (induction ops arbitrary: s outs s')
  case (Cons op ops)
  obtain x s1 where s: "server_step op s = (x, s1)" by (cases "server_step op s")
  obtain xs s2 where r: "run_steps server_step ops s1 = (xs, s2)" by (cases "run_steps server_step ops s1")
  have "link_kept s s1" by (rule server_step_sound(1) [OF Cons.prems(2) s])
  then show ?case
    using Cons.IH [OF r] Cons.prems s r server_step_sound(2) [OF Cons.prems(2) s] by (auto simp: link_kept_def)
qed (auto simp: link_kept_def)

lemma new_server_inv: "Module_wf m \<Longrightarrow> server_inv (ServerSessionCore_new k a m)"
  by (simp add: server_inv_def ServerSessionCore_new_def outbox.new_inv outbox.new_contents)

text \<open>C32. Whatever a peer sends, every datagram its server session transmits is addressed to that
  peer and is one that the client's decoder for the session's protocol accepts.\<close>

theorem server_replies_readable:
  assumes "Module_wf module" "run_steps server_step ops (ServerSessionCore_new kind peer module) = (outs, s)"
    "SrvSent (Some tx) \<in> set outs"
  shows "tx_dst tx = peer \<and> readable kind (tx_payload tx)"
  using server_run_sound [OF assms(2) new_server_inv [OF assms(1)]] assms(3) by (simp add: ServerSessionCore_new_def)

text \<open>C33. A datagram that the server session answers with an error has changed nothing but the
  diagnostics: no event, no reply, no state. The error is the one the protocol's decoder reports
  or says that the callsign cannot be routed; an unknown packet length is never reported, and no
  reply ever fails to fit its buffer. This holds after any run.\<close>

theorem server_errors_leave_session:
  assumes "Module_wf module" "run_steps server_step ops (ServerSessionCore_new kind peer module) = (outs, s)"
    "server_handle_input now bs s = (Err e, s')"
  shows "s' = s\<lparr>ss_diagnostics := ss_diagnostics s'\<rparr> \<and> \<not> is_unknown_length e \<and>
    (e = Error_Type InvalidRoutingCallsign \<or> decode_error s bs = Some e)"
  using server_input_errors [OF _ assms(3)] server_run_sound [OF assms(2) new_server_inv [OF assms(1)]]
  by (simp add: link_kept_def)

section \<open>Witnesses\<close>

definition sample_server :: ServerSessionCore where
  "sample_server = ServerSessionCore_new PK_DPlus sample_peer (DstarModule 0x43)"

definition sample_callsign :: DstarCallsign where
  "sample_callsign = DstarCallsign [0x57, 0x31, 0x41, 0x57, 0x20, 0x20, 0x20, 0x20]"

lemma sample_module: "Module_wf (DstarModule 0x43)"
  by (simp add: Module_wf_def is_ascii_uppercase_def)

lemma sample_link1:
  "server_handle_input 0 LINK1_BYTES sample_server =
     (Ok (), sample_server\<lparr>ss_state := SI_Link1Received,
        ss_outbox := [(0, [\<lparr>op_dst = sample_peer, op_payload = LINK1_BYTES, op_not_before = 0\<rparr>])]\<rparr>)"
proof -
  have "dplus_decode_client_to_server LINK1_BYTES d = (Ok DPlusC_Link1, d)" for d
    using dplus_up.dec_wire [of DpLink1 d] by simp
  then show ?thesis
    using dplus_replies(1)
    by (simp add: server_handle_input_def server_kind_input_def server_dplus_input_def server_dplus_dispatch_def on_dplus_link1_def
        sample_server_def ServerSessionCore_new_def reply_with_def reply_def Outbox_enqueue_def Outbox_new_def)
qed

lemma sample_login:
  assumes "ss_state s = SI_Link1Received" "ss_kind s = PK_DPlus"
  shows "snd (server_handle_input t (dplus_client_wire (DpLink2 sample_callsign)) s) =
    reply t (dplus_server_wire (DpLink2Reply Link2_Accept)) (admitted sample_callsign (ss_reflector_module s) s)"
  using server_receives(1) [of s "DpLink2 sample_callsign" t] assms dplus_replies(4) [of Link2_Accept]
  by (simp add: server_dplus_dispatch_def on_dplus_link2_first enqueue_dplus_link2_reply_def reply_with_def DstarCallsign_wf_def
      sample_callsign_def nul_to_space_def)

theorem server_event_protocol_witness:
  "\<exists>outs s. run_steps server_step [ServerInput 0 LINK1_BYTES, ServerInput 1 (dplus_client_wire (DpLink2 sample_callsign)), ServerPollEvent PK_DPlus]
      sample_server = (outs, s) \<and>
    handed_out server_output_event outs = [ClientLinked sample_peer sample_callsign (DstarModule 0x43)] \<and>
    server_phase sample_peer (DstarModule 0x43) s (Present sample_callsign None)"
proof -
  let ?ops = "[ServerInput 0 LINK1_BYTES, ServerInput 1 (dplus_client_wire (DpLink2 sample_callsign)), ServerPollEvent PK_DPlus]"
  obtain outs s where run: "run_steps server_step ?ops sample_server = (outs, s)" by fastforce
  define s1 where "s1 = snd (server_handle_input 0 LINK1_BYTES sample_server)"
  define s2 where "s2 = snd (server_handle_input 1 (dplus_client_wire (DpLink2 sample_callsign)) s1)"
  have s1: "ss_state s1 = SI_Link1Received" "ss_kind s1 = PK_DPlus" "ss_peer s1 = sample_peer" "ss_events s1 = []"
      "ss_reflector_module s1 = DstarModule 0x43"
    using sample_link1 by (simp_all add: s1_def sample_server_def ServerSessionCore_new_def)
  have s2: "ss_kind s2 = PK_DPlus" "ss_events s2 = [RawS_Linked sample_peer sample_callsign (DstarModule 0x43)]"
    using sample_login [OF s1(1,2), of 1] s1 by (simp_all add: s2_def) (simp add: admitted_def Let_def)
  have "handed_out server_output_event outs = [ClientLinked sample_peer sample_callsign (DstarModule 0x43)] \<and> ss_events s = []"
    using run s2 by (auto simp: s1_def s2_def server_pop_event_def ServerEvent_of_raw_def apfst_def map_prod_def split: prod.splits)
  moreover from this have "server_phase sample_peer (DstarModule 0x43) s (Present sample_callsign None)"
    using server_event_protocol [of ?ops PK_DPlus sample_peer "DstarModule 0x43" outs s] run by (simp add: sample_server_def)
  ultimately show ?thesis using run by blast
qed

theorem server_replies_readable_witness:
  "\<exists>outs s. run_steps server_step [ServerInput 0 LINK1_BYTES, ServerPollTransmit 0] sample_server = (outs, s) \<and>
    SrvSent (Some \<lparr>tx_dst = sample_peer, tx_payload = LINK1_BYTES\<rparr>) \<in> set outs \<and> readable PK_DPlus LINK1_BYTES"
proof -
  obtain outs s where run: "run_steps server_step [ServerInput 0 LINK1_BYTES, ServerPollTransmit 0] sample_server = (outs, s)" by fastforce
  then have sent: "SrvSent (Some \<lparr>tx_dst = sample_peer, tx_payload = LINK1_BYTES\<rparr>) \<in> set outs"
    by (auto simp: sample_link1 server_pop_transmit_def Outbox_pop_ready_def)
  then show ?thesis
    using server_replies_readable [OF sample_module run [unfolded sample_server_def] sent] run by auto
qed

theorem server_errors_leave_session_witness:
  "\<exists>s'. server_handle_input 0 [5, 0, 0x18, 0, 7] sample_server = (Err (Error_Protocol (PE_DPlus (DPlus_InvalidShortControlByte 7))), s') \<and>
    s' = sample_server\<lparr>ss_diagnostics := ss_diagnostics s'\<rparr>"
proof -
  have dec: "dplus_decode_client_to_server [5, 0, 0x18, 0, 7] d = (Err (DPlus_InvalidShortControlByte 7), d)" for d
    by (simp add: dplus_decode_client_to_server_def dplus_is_dsvt_def get_range_def DSVT_MAGIC_def)
  then have "server_handle_input 0 [5, 0, 0x18, 0, 7] sample_server =
      (Err (Error_Protocol (PE_DPlus (DPlus_InvalidShortControlByte 7))), sample_server)"
    by (simp add: server_handle_input_def server_kind_input_def server_dplus_input_def sample_server_def ServerSessionCore_new_def)
  then show ?thesis
    using server_errors_leave_session [OF sample_module, of "[]" PK_DPlus sample_peer "[]" sample_server] by (auto simp: sample_server_def)
qed

end
