(* ===== verification/Dstar_Link.thy ===== *)
theory Dstar_Link
  imports Dstar_Server_Runs
begin

text \<open>
  A client session and a server session joined by a network that delivers one datagram at a time:
  the handshake of each protocol, a transmission from the client, and the unlink, composed from the
  session cores and the codecs between them.
\<close>

section \<open>The network\<close>

text \<open>One datagram from the client to the reflector, and one back.\<close>

definition relay_up :: "instant \<Rightarrow> SessionCore \<times> ServerSessionCore \<Rightarrow> SessionCore \<times> ServerSessionCore" where
  "relay_up now l =
     (case pop_transmit now (fst l) of
        (None, c) \<Rightarrow> (c, snd l)
      | (Some tx, c) \<Rightarrow> (c, snd (server_handle_input now (tx_payload tx) (snd l))))"

definition relay_down :: "instant \<Rightarrow> SessionCore \<times> ServerSessionCore \<Rightarrow> SessionCore \<times> ServerSessionCore" where
  "relay_down now l =
     (case server_pop_transmit now (snd l) of
        (None, s) \<Rightarrow> (fst l, s)
      | (Some tx, s) \<Rightarrow> (snd (handle_input now (sc_peer (fst l)) (tx_payload tx) (fst l)), s))"

definition round_trip :: "instant \<Rightarrow> SessionCore \<times> ServerSessionCore \<Rightarrow> SessionCore \<times> ServerSessionCore" where
  "round_trip now l = relay_down now (relay_up now l)"

lemma outbox_one:
  "Outbox_pop_ready now Outbox_new = (None, Outbox_new)"
  "op_not_before p = now \<Longrightarrow> Outbox_pop_ready now (Outbox_enqueue p Outbox_new) = (Some p, Outbox_new)"
  by (simp_all add: Outbox_pop_ready_def Outbox_new_def Outbox_enqueue_def)

definition packet_for :: "SocketAddr \<Rightarrow> bytes \<Rightarrow> instant \<Rightarrow> OutboundPacket" where
  "packet_for a bs now = \<lparr>op_dst = a, op_payload = bs, op_not_before = now\<rparr>"

lemma relay_up_idle: "sc_outbox c = Outbox_new \<Longrightarrow> relay_up now (c, s) = (c, s)"
  by (simp add: relay_up_def pop_transmit_def outbox_one)

lemma relay_down_idle: "ss_outbox s = Outbox_new \<Longrightarrow> relay_down now (c, s) = (c, s)"
  by (simp add: relay_down_def server_pop_transmit_def outbox_one)

lemma relay_up_one:
  assumes "sc_outbox c = Outbox_enqueue (packet_for a bs now) Outbox_new"
  shows "relay_up now (c, s) =
    (c\<lparr>sc_outbox := Outbox_new, sc_current_tx := Some (packet_for a bs now)\<rparr>, snd (server_handle_input now bs s))"
  using assms by (simp add: relay_up_def pop_transmit_def outbox_one packet_for_def)

lemma relay_down_one:
  assumes "ss_outbox s = Outbox_enqueue (packet_for a bs now) Outbox_new"
  shows "relay_down now (c, s) =
    (snd (handle_input now (sc_peer c) bs c), s\<lparr>ss_outbox := Outbox_new, ss_current_tx := Some (packet_for a bs now)\<rparr>)"
  using assms by (simp add: relay_down_def server_pop_transmit_def outbox_one packet_for_def)

section \<open>What arrives\<close>

lemma client_receives:
  assumes "sc_state c \<noteq> CS_Closed" "validate_time c now = Ok ()"
  shows "sc_kind c = PK_DPlus \<Longrightarrow> dplus_server_wf p \<Longrightarrow> \<not> dplus_needs_link (dplus_server_received p) \<Longrightarrow>
      dplus_server_remarks p = [] \<Longrightarrow>
      snd (handle_input now (sc_peer c) (dplus_server_wire p) c) = snd (dplus_dispatch now (sc_peer c) (dplus_server_received p) c)"
    "sc_kind c = PK_DExtra \<Longrightarrow> dextra_server_wf q \<Longrightarrow> \<not> dextra_needs_link (dextra_server_received q) \<Longrightarrow>
      snd (handle_input now (sc_peer c) (dextra_server_wire q) c) = dextra_dispatch now (sc_peer c) (dextra_server_received q) c"
    "sc_kind c = PK_Dcs \<Longrightarrow> dcs_server_wf r \<Longrightarrow> \<not> dcs_needs_link (dcs_server_received r) \<Longrightarrow> dcs_server_remarks r = [] \<Longrightarrow>
      snd (handle_input now (sc_peer c) (dcs_server_wire r) c) = dcs_dispatch now (sc_peer c) (dcs_server_received r) c"
  using assms dplus_down.dec_wire [of p] dextra_down.dec_wire [of q] dcs_down.dec_wire [of r]
  by (simp_all add: handle_input_def handle_dplus_input_def handle_dextra_input_def handle_dcs_input_def)

text \<open>A routing callsign survives the eight-byte field.\<close>

lemma trim_end_append_space: "trim_end (\<lambda>b. b = 0x20) (bs @ [0x20]) = trim_end (\<lambda>b. b = (0x20::u8)) bs"
  by (simp add: trim_end_def)

lemma routing_round_trip:
  assumes "RoutingCallsign_wf r"
  shows "RoutingCallsign_try_from (RoutingCallsign_callsign r) = Ok r"
proof -
  let ?b = "routing_bytes r"
  have b: "length ?b = 7" "list_all is_printable_ascii ?b" "list_ex (\<lambda>b. b \<noteq> 0x20) ?b"
    using assms by (simp_all add: RoutingCallsign_wf_def)
  have shown: "DstarCallsign_text (RoutingCallsign_callsign r) = Ok (trim_end (\<lambda>b. b = 0x20) ?b)"
    using b by (simp add: DstarCallsign_text_def RoutingCallsign_callsign_def DstarCallsign_from_wire_bytes_def
        trimmed_printable_ascii_iff trim_end_append_space)
  have "trim_end (\<lambda>b. b = 0x20) ?b \<noteq> []" using b(3) by (auto simp: trim_end_empty_iff list_all_iff list_ex_iff)
  moreover have "length (trim_end (\<lambda>b. b = 0x20) ?b) \<le> 7" "list_all is_printable_ascii (trim_end (\<lambda>b. b = 0x20) ?b)"
    using b by (auto simp: trim_end_def list_all_iff dest: set_dropWhileD intro: order_trans [OF length_dropWhile_le])
  moreover have "space_padded 7 (trim_end (\<lambda>b. b = 0x20) ?b) = ?b" using space_padded_trim [of ?b] b(1) by simp
  moreover have "trim_end P (trim_end P xs) = trim_end P xs" for P and xs :: bytes by (simp add: trim_end_def)
  ultimately show ?thesis
    by (simp add: RoutingCallsign_try_from_def shown RoutingCallsign_new_def Let_def put_spaces)
qed

lemma routing_no_nul:
  assumes "RoutingCallsign_wf r"
  shows "nul_to_space (RoutingCallsign_callsign r) = RoutingCallsign_callsign r"
proof -
  have "b \<noteq> 0" if "b \<in> set (callsign_bytes (RoutingCallsign_callsign r))" for b
    using assms that by (auto simp: RoutingCallsign_wf_def RoutingCallsign_callsign_def DstarCallsign_from_wire_bytes_def
        list_all_iff is_printable_ascii_def)
  then have "map (\<lambda>b. if b = 0 then 0x20 else b) (callsign_bytes (RoutingCallsign_callsign r)) =
      callsign_bytes (RoutingCallsign_callsign r)"
    by (intro map_idI) auto
  then show ?thesis by (simp add: nul_to_space_def)
qed

section \<open>What the client sends\<close>

lemma identity_parts:
  assumes "identity_ok c"
  shows "RepeaterIdentity_wf (local_identity c)" "Module_wf (sc_reflector_module c)" "Module_wf (sc_local_module c)"
    "RoutingCallsign_wf (sc_callsign c)" "DstarCallsign_wf (SessionCore_callsign c)"
    "RoutingCallsign_callsign (ri_callsign (local_identity c)) = SessionCore_callsign c"
    "ri_module (local_identity c) = sc_local_module c" "ri_callsign (local_identity c) = sc_callsign c"
  using assms by (simp_all add: identity_ok_def RepeaterIdentity_wf_def local_identity_def SessionCore_callsign_def routing_callsign_wf)

lemma sends_dplus:
  assumes "sc_kind c = PK_DPlus"
  shows "connect_payload c = Ok (dplus_client_wire DpLink1)" "disconnect_payload c = Ok (dplus_client_wire DpUnlink)"
    "identity_ok c \<Longrightarrow> dplus_err (encoded 32 (\<lambda>buf. dplus_encode_link2 buf (SessionCore_callsign c))) =
       Ok (dplus_client_wire (DpLink2 (SessionCore_callsign c)))"
  using assms dplus_up.encoded_wire [of DpLink1 32] dplus_up.encoded_wire [of DpUnlink 16]
    dplus_up.encoded_wire [of "DpLink2 (SessionCore_callsign c)" 32] identity_parts [of c]
  by (simp_all add: connect_payload_def disconnect_payload_def dplus_err_def dplus_wire_lens)

lemma sends_dextra:
  assumes "sc_kind c = PK_DExtra" "identity_ok c"
  shows "connect_payload c = Ok (dextra_client_wire (DxLink (local_identity c) (sc_reflector_module c)))"
    "disconnect_payload c = Ok (dextra_client_wire (DxUnlink (local_identity c)))"
  using assms identity_parts [OF assms(2)] dextra_up.encoded_wire [of "DxUnlink (local_identity c)" 16]
    dextra_up.encoded_wire [of "DxLink (local_identity c) (sc_reflector_module c)" 16]
  by (simp_all add: connect_payload_def disconnect_payload_def dextra_err_def dextra_wire_lens)

lemma sends_dcs:
  assumes "sc_kind c = PK_Dcs" "identity_ok c" "sc_protocol c = CP_Dcs r"
  shows "connect_payload c = Ok (dcs_client_wire (DcLink (local_identity c) (sc_reflector_module c) r GT_Dongle))"
    "disconnect_payload c = Ok (dcs_client_wire (DcUnlink (local_identity c) r))" "DcsReflector_wf r"
proof -
  show r: "DcsReflector_wf r" using assms by (simp add: identity_ok_def)
  show "connect_payload c = Ok (dcs_client_wire (DcLink (local_identity c) (sc_reflector_module c) r GT_Dongle))"
    "disconnect_payload c = Ok (dcs_client_wire (DcUnlink (local_identity c) r))"
    using assms r identity_parts [OF assms(2)] dcs_up.encoded_wire [of "DcUnlink (local_identity c) r" 32]
      dcs_up.encoded_vec_wire [of "DcLink (local_identity c) (sc_reflector_module c) r GT_Dongle" 600]
    by (simp_all add: connect_payload_def disconnect_payload_def dcs_err_def length_dcs_wires dcs_reflector_callsign_def)
qed

section \<open>The handshake\<close>

definition ready_client :: "SessionConfig \<Rightarrow> HostList \<Rightarrow> SessionCore" where
  "ready_client cfg hosts =
     (if ClientProtocol_kind (cfg_protocol cfg) = PK_DPlus then snd (attach_host_list hosts (SessionCore_new cfg))
      else SessionCore_new cfg)"

text \<open>Both sides agree on who is linked to what, and nothing is under way.\<close>

definition linked_pair :: "SessionCore \<Rightarrow> ServerSessionCore \<Rightarrow> bool" where
  "linked_pair c s \<longleftrightarrow> identity_ok c \<and> sc_state c = CS_Connected \<and> ss_state s = SI_Linked \<and>
     ss_kind s = sc_kind c \<and> ss_reflector_module s = sc_reflector_module c \<and>
     ss_client_callsign s = Some (SessionCore_callsign c) \<and>
     ss_client_module s = Some (if sc_kind c = PK_DPlus then sc_reflector_module c else sc_local_module c) \<and>
     ss_last_stream_id s = None \<and> sc_outbox c = Outbox_new \<and> ss_outbox s = Outbox_new"

definition fresh :: "SessionCore \<Rightarrow> bool" where
  "fresh c \<longleftrightarrow> identity_ok c \<and> sc_state c = (if sc_kind c = PK_DPlus then CS_Authenticated else CS_Configured) \<and>
     sc_outbox c = Outbox_new \<and> sc_events c = []"

lemma ready_fresh: "config_wf cfg \<Longrightarrow> fresh (ready_client cfg hosts)"
  by (auto simp: fresh_def ready_client_def attach_host_list_def SessionCore_new_def config_wf_def identity_ok_def)

lemma validate_time_kind: "sc_kind c' = sc_kind c \<Longrightarrow> validate_time c' now = validate_time c now"
  by (simp add: validate_time_def longest_span_def keepalive_interval_def keepalive_inactivity_timeout_def
      voice_inactivity_timeout_def disconnect_timeout_def)

lemma fresh_connects:
  assumes "fresh c" "validate_time c now = Ok ()" "connect_payload c = Ok bs"
  shows "enqueue_connect now c =
    (Ok (), arm_keepalive_inactivity now (c\<lparr>sc_outbox := Outbox_enqueue (packet_for (sc_peer c) bs now) Outbox_new, sc_state := CS_Connecting\<rparr>))"
  using assms by (simp add: fresh_def enqueue_connect_def enqueue_packet_def packet_for_def Let_def)

text \<open>What a completed handshake leaves: a linked pair, announced once on each side.\<close>

definition linked_up :: "SessionCore \<Rightarrow> SocketAddr \<Rightarrow> SessionCore \<times> ServerSessionCore \<Rightarrow> bool" where
  "linked_up c a l \<longleftrightarrow> linked_pair (fst l) (snd l) \<and> sc_kind (fst l) = sc_kind c \<and> sc_peer (fst l) = sc_peer c \<and>
     ss_peer (snd l) = a \<and> SessionCore_callsign (fst l) = SessionCore_callsign c \<and> sc_reflector_module (fst l) = sc_reflector_module c \<and>
     sc_events (fst l) = [Raw_Connected (sc_peer c)] \<and>
     ss_events (snd l) = [RawS_Linked a (SessionCore_callsign c) (sc_reflector_module c)]"

text \<open>DExtra and DCS: one request and one acknowledgement.\<close>

lemma ack_handshake:
  assumes "fresh c" "sc_kind c \<noteq> PK_DPlus" "validate_time c now = Ok ()" "connect_payload c = Ok up"
    and s0: "s0 = ServerSessionCore_new (sc_kind c) a (sc_reflector_module c)"
    and server: "snd (server_handle_input now up s0) = reply now down (admitted (SessionCore_callsign c) (sc_local_module c) s0)"
    and client: "\<And>c2. sc_state c2 = CS_Connecting \<Longrightarrow> sc_kind c2 = sc_kind c \<Longrightarrow> snd (handle_input now (sc_peer c2) down c2) =
      on_connect_ack now (sc_peer c2) (SessionCore_callsign c) (sc_local_module c) (sc_reflector_module c) c2"
  shows "linked_up c a (round_trip now (round_trip now (snd (enqueue_connect now c), s0)))"
proof -
  define p where "p = packet_for (sc_peer c) up now"
  define c1 where "c1 = arm_keepalive_inactivity now (c\<lparr>sc_outbox := Outbox_enqueue p Outbox_new, sc_state := CS_Connecting\<rparr>)"
  define c2 where "c2 = c1\<lparr>sc_outbox := Outbox_new, sc_current_tx := Some p\<rparr>"
  define c3 where "c3 = finalize_connected (sc_peer c) now c2"
  define s1 where "s1 = reply now down (admitted (SessionCore_callsign c) (sc_local_module c) s0)"
  define s2 where "s2 = s1\<lparr>ss_outbox := Outbox_new, ss_current_tx := Some (packet_for a down now)\<rparr>"
  have up: "relay_up now (c1, s0) = (c2, s1)"
    using relay_up_one [of c1 "sc_peer c" up now s0] server by (simp add: c1_def c2_def p_def s1_def quiet_defs)
  have "snd (handle_input now (sc_peer c2) down c2) = c3"
    using client [of c2] by (simp add: c3_def c2_def c1_def quiet_defs on_connect_ack_def SessionCore_callsign_def)
  moreover have "ss_outbox s1 = Outbox_enqueue (packet_for a down now) Outbox_new"
    by (simp add: s1_def reply_def s0 packet_for_def ServerSessionCore_new_def admitted_def Let_def)
  ultimately have down: "relay_down now (c2, s1) = (c3, s2)"
    using relay_down_one [of s1 a down now c2] by (simp add: s2_def)
  have "round_trip now (snd (enqueue_connect now c), s0) = (c3, s2)"
    using fresh_connects [OF assms(1,3,4)] up down by (simp add: round_trip_def c1_def p_def)
  moreover have "sc_outbox c3 = Outbox_new" "ss_outbox s2 = Outbox_new"
    by (simp_all add: c3_def c2_def s2_def finalize_connected_def quiet_defs Let_def)
  ultimately have "round_trip now (round_trip now (snd (enqueue_connect now c), s0)) = (c3, s2)"
    by (simp add: round_trip_def relay_up_idle relay_down_idle)
  then show ?thesis
    using assms(1,2)
    by (auto simp: linked_up_def linked_pair_def fresh_def c3_def c2_def c1_def s2_def s1_def s0 admitted_def
        finalize_connected_def quiet_defs identity_ok_def SessionCore_callsign_def ServerSessionCore_new_def reply_def emit_def Let_def)
qed

lemma dextra_handshake:
  assumes "fresh c" "sc_kind c = PK_DExtra" "validate_time c now = Ok ()"
    and s0: "s0 = ServerSessionCore_new (sc_kind c) a (sc_reflector_module c)"
  shows "linked_up c a (round_trip now (round_trip now (snd (enqueue_connect now c), s0)))"
proof -
  have id: "identity_ok c" using assms(1) by (simp add: fresh_def)
  let ?i = "local_identity c" let ?m = "sc_reflector_module c"
  show ?thesis
  proof (rule ack_handshake [OF assms(1) _ assms(3) sends_dextra(1) [OF assms(2) id] s0])
    have "snd (server_handle_input now (dextra_client_wire (DxLink ?i ?m)) s0) =
        snd (on_dextra_link now (SessionCore_callsign c) ?m (sc_local_module c) s0)"
      using server_receives(2) [of s0 "DxLink ?i ?m" now] identity_parts [OF id] assms(2)
      by (simp add: s0 ServerSessionCore_new_def server_dextra_dispatch_def)
    also have "\<dots> = reply now (dextra_server_wire (DxAck ?i ?m)) (admitted (SessionCore_callsign c) (sc_local_module c) s0)"
      using identity_parts [OF id] routing_round_trip [of "sc_callsign c"] dextra_replies(1) [of ?i ?m]
      by (simp add: on_link_eq link_allowed_def s0 ServerSessionCore_new_def differs_def SessionCore_callsign_def reply_with_def
          local_identity_def)
    finally show "snd (server_handle_input now (dextra_client_wire (DxLink ?i ?m)) s0) =
        reply now (dextra_server_wire (DxAck ?i ?m)) (admitted (SessionCore_callsign c) (sc_local_module c) s0)" .
    fix c2 :: SessionCore assume "sc_state c2 = CS_Connecting" "sc_kind c2 = sc_kind c"
    then show "snd (handle_input now (sc_peer c2) (dextra_server_wire (DxAck ?i ?m)) c2) =
        on_connect_ack now (sc_peer c2) (SessionCore_callsign c) (sc_local_module c) ?m c2"
      using client_receives(2) [of c2 now "DxAck ?i ?m"] identity_parts [OF id] assms(2,3) validate_time_kind [of c2 c now]
      by (simp add: dextra_needs_link_def dextra_dispatch_def)
  qed (simp add: assms(2))
qed

lemma dcs_handshake:
  assumes "fresh c" "sc_kind c = PK_Dcs" "validate_time c now = Ok ()"
    and s0: "s0 = ServerSessionCore_new (sc_kind c) a (sc_reflector_module c)"
  shows "linked_up c a (round_trip now (round_trip now (snd (enqueue_connect now c), s0)))"
proof -
  have id: "identity_ok c" using assms(1) by (simp add: fresh_def)
  obtain r where r: "sc_protocol c = CP_Dcs r"
    using id assms(2) by (cases "sc_protocol c") (simp_all add: identity_ok_def ClientProtocol_kind_def)
  let ?i = "local_identity c" let ?m = "sc_reflector_module c"
  let ?link = "DcLink ?i ?m r GT_Dongle"
  show ?thesis
  proof (rule ack_handshake [OF assms(1) _ assms(3) sends_dcs(1) [OF assms(2) id r] s0])
    have "snd (server_handle_input now (dcs_client_wire ?link) s0) =
        snd (on_dcs_link now (SessionCore_callsign c) (sc_local_module c) ?m s0)"
      using server_receives(3) [of s0 ?link now] identity_parts [OF id] assms(2) sends_dcs(3) [OF assms(2) id r]
      by (simp add: s0 ServerSessionCore_new_def server_dcs_dispatch_def)
    also have "\<dots> = reply now (dcs_server_wire (DcAck ?i ?m)) (admitted (SessionCore_callsign c) (sc_local_module c) s0)"
      using identity_parts [OF id] routing_round_trip [of "sc_callsign c"] dcs_replies(1) [of ?i ?m]
      by (simp add: on_link_eq link_allowed_def s0 ServerSessionCore_new_def differs_def SessionCore_callsign_def reply_with_def
          local_identity_def)
    finally show "snd (server_handle_input now (dcs_client_wire ?link) s0) =
        reply now (dcs_server_wire (DcAck ?i ?m)) (admitted (SessionCore_callsign c) (sc_local_module c) s0)" .
    fix c2 :: SessionCore assume "sc_state c2 = CS_Connecting" "sc_kind c2 = sc_kind c"
    then show "snd (handle_input now (sc_peer c2) (dcs_server_wire (DcAck ?i ?m)) c2) =
        on_connect_ack now (sc_peer c2) (SessionCore_callsign c) (sc_local_module c) ?m c2"
      using client_receives(3) [of c2 now "DcAck ?i ?m"] identity_parts [OF id] assms(2,3) validate_time_kind [of c2 c now]
      by (simp add: dcs_needs_link_def dcs_dispatch_def)
  qed (simp add: assms(2))
qed

text \<open>DPlus: the link request is echoed, then the login is accepted.\<close>

lemma dplus_first_trip:
  assumes "fresh c" "sc_kind c = PK_DPlus" "validate_time c now = Ok ()"
    and s0: "s0 = ServerSessionCore_new (sc_kind c) a (sc_reflector_module c)"
    and round: "round_trip now (snd (enqueue_connect now c), s0) = (c1, s1)"
  shows "sc_state c1 = CS_Connecting" "static_part (c\<lparr>sc_outbox := sc_outbox c1\<rparr>) c1" "sc_events c1 = []"
    "sc_outbox c1 = Outbox_enqueue (packet_for (sc_peer c) (dplus_client_wire (DpLink2 (SessionCore_callsign c))) now) Outbox_new"
    "ss_state s1 = SI_Link1Received" "ss_kind s1 = PK_DPlus" "ss_peer s1 = a" "ss_reflector_module s1 = sc_reflector_module c"
    "ss_events s1 = []" "ss_outbox s1 = Outbox_new" "ss_last_stream_id s1 = None"
proof -
  have id: "identity_ok c" using assms(1) by (simp add: fresh_def)
  define p where "p = packet_for (sc_peer c) (dplus_client_wire DpLink1) now"
  define c2 where "c2 = arm_keepalive_inactivity now (c\<lparr>sc_outbox := Outbox_enqueue p Outbox_new, sc_state := CS_Connecting\<rparr>)"
  define c3 where "c3 = c2\<lparr>sc_outbox := Outbox_new, sc_current_tx := Some p\<rparr>"
  define s2 where "s2 = reply now (dplus_server_wire DpLink1Ack) (s0\<lparr>ss_state := SI_Link1Received\<rparr>)"
  have connect: "snd (enqueue_connect now c) = c2"
    using fresh_connects [OF assms(1,3) sends_dplus(1) [OF assms(2)]] by (simp add: c2_def p_def)
  have "snd (server_handle_input now (dplus_client_wire DpLink1) s0) = s2"
    using server_receives(1) [of s0 DpLink1 now] assms(2) dplus_replies(1)
    by (simp add: s0 s2_def ServerSessionCore_new_def server_dplus_dispatch_def on_dplus_link1_def reply_with_def)
  then have up: "relay_up now (c2, s0) = (c3, s2)"
    using relay_up_one [of c2 "sc_peer c" "dplus_client_wire DpLink1" now s0] by (simp add: c3_def c2_def p_def quiet_defs)
  have c3: "sc_state c3 = CS_Connecting" "sc_kind c3 = sc_kind c" "identity_ok c3" "SessionCore_callsign c3 = SessionCore_callsign c"
    "sc_peer c3 = sc_peer c" "sc_events c3 = []" "sc_outbox c3 = Outbox_new"
    using assms(1) id by (simp_all add: c3_def c2_def quiet_defs identity_ok_def SessionCore_callsign_def fresh_def)
  have "snd (handle_input now (sc_peer c3) (dplus_server_wire DpLink1Ack) c3) =
      arm_keepalive_inactivity now (enqueue_packet now (dplus_client_wire (DpLink2 (SessionCore_callsign c))) c3)"
    using client_receives(1) [of c3 now DpLink1Ack] c3 assms(2,3) validate_time_kind [of c3 c now] sends_dplus(3) [of c3]
    by (simp add: dplus_needs_link_def dplus_dispatch_def)
  moreover have "ss_outbox s2 = Outbox_enqueue (packet_for a (dplus_server_wire DpLink1Ack) now) Outbox_new"
    by (simp add: s2_def reply_def s0 packet_for_def ServerSessionCore_new_def)
  ultimately have "(c1, s1) = (arm_keepalive_inactivity now (enqueue_packet now (dplus_client_wire (DpLink2 (SessionCore_callsign c))) c3),
      s2\<lparr>ss_outbox := Outbox_new, ss_current_tx := Some (packet_for a (dplus_server_wire DpLink1Ack) now)\<rparr>)"
    using relay_down_one [of s2 a "dplus_server_wire DpLink1Ack" now c3] round up connect by (simp add: round_trip_def)
  then show "sc_state c1 = CS_Connecting" "static_part (c\<lparr>sc_outbox := sc_outbox c1\<rparr>) c1" "sc_events c1 = []"
    "sc_outbox c1 = Outbox_enqueue (packet_for (sc_peer c) (dplus_client_wire (DpLink2 (SessionCore_callsign c))) now) Outbox_new"
    "ss_state s1 = SI_Link1Received" "ss_kind s1 = PK_DPlus" "ss_peer s1 = a" "ss_reflector_module s1 = sc_reflector_module c"
    "ss_events s1 = []" "ss_outbox s1 = Outbox_new" "ss_last_stream_id s1 = None"
    using c3 assms(2) by (simp_all add: quiet_defs static_part_def packet_for_def s2_def s0 ServerSessionCore_new_def)
      (simp_all add: c3_def c2_def quiet_defs)
qed

lemma dplus_handshake:
  assumes "fresh c" "sc_kind c = PK_DPlus" "validate_time c now = Ok ()"
    and s0: "s0 = ServerSessionCore_new (sc_kind c) a (sc_reflector_module c)"
  shows "linked_up c a (round_trip now (round_trip now (snd (enqueue_connect now c), s0)))"
proof -
  have id: "identity_ok c" using assms(1) by (simp add: fresh_def)
  let ?cs = "SessionCore_callsign c" let ?m = "sc_reflector_module c"
  let ?reply = "dplus_server_wire (DpLink2Reply Link2_Accept)"
  obtain c1 s1 where round: "round_trip now (snd (enqueue_connect now c), s0) = (c1, s1)" by fastforce
  note first = dplus_first_trip [OF assms(1,2,3) s0 round]
  have stat: "sc_kind c1 = PK_DPlus" "SessionCore_callsign c1 = ?cs" "sc_peer c1 = sc_peer c" "sc_reflector_module c1 = ?m" "identity_ok c1"
    using first(2) assms(2) id by (auto simp: static_part_def SessionCore_callsign_def identity_ok_def)
  define c2 where "c2 = c1\<lparr>sc_outbox := Outbox_new,
      sc_current_tx := Some (packet_for (sc_peer c) (dplus_client_wire (DpLink2 ?cs)) now)\<rparr>"
  define s2 where "s2 = reply now ?reply (admitted ?cs ?m s1)"
  have "snd (server_handle_input now (dplus_client_wire (DpLink2 ?cs)) s1) = s2"
    using server_receives(1) [of s1 "DpLink2 ?cs" now] first identity_parts [OF id] routing_no_nul [of "sc_callsign c"]
      dplus_replies(4) [of Link2_Accept]
    by (simp add: s2_def server_dplus_dispatch_def on_dplus_link2_first enqueue_dplus_link2_reply_def reply_with_def
        SessionCore_callsign_def)
  then have up: "relay_up now (c1, s1) = (c2, s2)"
    using relay_up_one [OF first(4)] by (simp add: c2_def)
  have c2: "sc_state c2 = CS_Connecting" "sc_kind c2 = PK_DPlus" "sc_peer c2 = sc_peer c"
    using first(1) stat by (simp_all add: c2_def)
  have "snd (handle_input now (sc_peer c2) ?reply c2) = finalize_connected (sc_peer c2) now c2"
    using client_receives(1) [of c2 now "DpLink2Reply Link2_Accept"] c2 assms(2,3) validate_time_kind [of c2 c now]
    by (simp add: dplus_needs_link_def dplus_dispatch_def link2_of_tag_def link2_tag_def)
  moreover have "ss_outbox s2 = Outbox_enqueue (packet_for a ?reply now) Outbox_new"
    using first by (simp add: s2_def reply_def packet_for_def)
  ultimately have "relay_down now (c2, s2) = (finalize_connected (sc_peer c2) now c2,
      s2\<lparr>ss_outbox := Outbox_new, ss_current_tx := Some (packet_for a ?reply now)\<rparr>)"
    using relay_down_one [of s2 a ?reply now c2] by simp
  then have "round_trip now (round_trip now (snd (enqueue_connect now c), s0)) = (finalize_connected (sc_peer c2) now c2,
      s2\<lparr>ss_outbox := Outbox_new, ss_current_tx := Some (packet_for a ?reply now)\<rparr>)"
    using round up by (simp add: round_trip_def)
  then show ?thesis
    using first stat assms(2)
    by (auto simp: linked_up_def linked_pair_def c2_def s2_def admitted_def finalize_connected_def quiet_defs identity_ok_def
        SessionCore_callsign_def reply_def emit_def Let_def)
qed

text \<open>All three: linked after at most two round trips, announced once on each side, with nothing left
  over. The DPlus client has attached its host list before; the clock is far enough from the end of
  its range to arm the timers.\<close>

lemma handshake_links:
  assumes "config_wf cfg" "validate_time (ready_client cfg hosts) now = Ok ()"
  shows "linked_up (ready_client cfg hosts) addr
    (round_trip now (round_trip now
      (snd (enqueue_connect now (ready_client cfg hosts)),
       ServerSessionCore_new (ClientProtocol_kind (cfg_protocol cfg)) addr (cfg_reflector_module cfg))))"
proof -
  let ?c = "ready_client cfg hosts"
  have "fresh ?c" by (rule ready_fresh [OF assms(1)])
  moreover have "sc_kind ?c = ClientProtocol_kind (cfg_protocol cfg)" "sc_reflector_module ?c = cfg_reflector_module cfg"
    by (simp_all add: ready_client_def attach_host_list_def SessionCore_new_def)
  ultimately show ?thesis
    using dplus_handshake [of ?c now] dextra_handshake [of ?c now] dcs_handshake [of ?c now] assms(2)
    by (cases "sc_kind ?c") simp_all
qed

section \<open>A transmission\<close>

text \<open>What a client says on one stream: a header, frames, and an end, each at its own instant and
  carried to the reflector before the next one.\<close>

datatype utterance = SayHeader DstarHeader | SayFrame FrameSequence VoiceFrame | SayEnd FrameSequence

fun utter :: "instant \<Rightarrow> StreamId \<Rightarrow> utterance \<Rightarrow> SessionCore \<Rightarrow> (Error + unit) \<times> SessionCore" where
  "utter now sid (SayHeader h) c = enqueue_send_header now h sid c"
| "utter now sid (SayFrame q f) c = enqueue_send_voice now sid q f c"
| "utter now sid (SayEnd q) c = enqueue_send_eot now sid q c"

definition say :: "StreamId \<Rightarrow> instant \<times> utterance \<Rightarrow> SessionCore \<times> ServerSessionCore \<Rightarrow> SessionCore \<times> ServerSessionCore" where
  "say sid tu l = relay_up (fst tu) (snd (utter (fst tu) sid (snd tu) (fst l)), snd l)"

definition say_all :: "StreamId \<Rightarrow> (instant \<times> utterance) list \<Rightarrow> SessionCore \<times> ServerSessionCore \<Rightarrow> SessionCore \<times> ServerSessionCore" where
  "say_all sid us l = fold (say sid) us l"

text \<open>The events the reflector makes of it, given whether it has the stream open. DPlus and DExtra
  clear the flags of the header. A DCS packet carries the header and a frame: the header arrives
  with a silent frame numbered 0, the end with a silent frame that has the sequence bit 0x40 and the
  sentinel 55 55 55. A DCS frame whose own slow data is the sentinel also closes the stream, and the
  next packet then opens it anew with the same header.\<close>

definition closes_dcs :: "VoiceFrame \<Rightarrow> bool" where
  "closes_dcs f \<longleftrightarrow> slow_data f = [0x55, 0x55, 0x55]"

fun heard :: "ProtocolKind \<Rightarrow> SocketAddr \<Rightarrow> StreamId \<Rightarrow> DstarHeader \<Rightarrow> bool \<Rightarrow> utterance \<Rightarrow> RawServerEvent list" where
  "heard k a sid h opened (SayHeader _) =
     (if k = PK_Dcs then [RawS_StreamStarted a sid h, RawS_StreamFrame a sid 0 VoiceFrame_silence]
      else [RawS_StreamStarted a sid (DstarHeader_with_flags h HeaderFlags_NONE)])"
| "heard k a sid h opened (SayFrame q f) =
     (if opened then [] else [RawS_StreamStarted a sid h]) @ [RawS_StreamFrame a sid (sequence_index q) f] @
     (if k = PK_Dcs \<and> closes_dcs f then [RawS_StreamEnded a sid] else [])"
| "heard k a sid h opened (SayEnd q) =
     (if opened then [] else [RawS_StreamStarted a sid h]) @
     (if k = PK_Dcs
      then [RawS_StreamFrame a sid (sequence_index q OR 0x40) (VoiceFrame_silence\<lparr>slow_data := [0x55, 0x55, 0x55]\<rparr>)]
      else []) @ [RawS_StreamEnded a sid]"

fun open_after :: "ProtocolKind \<Rightarrow> utterance \<Rightarrow> bool" where
  "open_after k (SayHeader _) = True"
| "open_after k (SayFrame q f) = (\<not> (k = PK_Dcs \<and> closes_dcs f))"
| "open_after k (SayEnd _) = False"

fun utterance_wf :: "utterance \<Rightarrow> bool" where
  "utterance_wf (SayHeader h) = DstarHeader_wf h"
| "utterance_wf (SayFrame q f) = (FrameSequence_wf q \<and> VoiceFrame_wf f)"
| "utterance_wf (SayEnd q) = FrameSequence_wf q"

text \<open>The datagram that carries an utterance.\<close>

fun carried_dplus :: "StreamId \<Rightarrow> utterance \<Rightarrow> dplus_client_tx" where
  "carried_dplus sid (SayHeader h) = DpHeader sid h"
| "carried_dplus sid (SayFrame q f) = DpVoice sid q f"
| "carried_dplus sid (SayEnd q) = DpEot sid q"

fun carried_dextra :: "StreamId \<Rightarrow> utterance \<Rightarrow> dextra_client_tx" where
  "carried_dextra sid (SayHeader h) = DxHeader sid h"
| "carried_dextra sid (SayFrame q f) = DxVoice sid q f"
| "carried_dextra sid (SayEnd q) = DxEot sid q"

fun carried_dcs :: "DstarHeader \<Rightarrow> StreamId \<Rightarrow> utterance \<Rightarrow> dcs_client_tx" where
  "carried_dcs h sid (SayHeader _) = DcVoice h sid FrameSequence_ZERO VoiceFrame_silence False"
| "carried_dcs h sid (SayFrame q f) = DcVoice h sid q f False"
| "carried_dcs h sid (SayEnd q) = DcVoice h sid q VoiceFrame_silence True"

definition carried :: "ProtocolKind \<Rightarrow> DstarHeader \<Rightarrow> StreamId \<Rightarrow> utterance \<Rightarrow> bytes" where
  "carried k h sid u = (case k of
      PK_DPlus \<Rightarrow> dplus_client_wire (carried_dplus sid u)
    | PK_DExtra \<Rightarrow> dextra_client_wire (carried_dextra sid u)
    | PK_Dcs \<Rightarrow> dcs_client_wire (carried_dcs h sid u))"

text \<open>The client has a header in force, which an utterance may replace.\<close>

fun header_after :: "utterance \<Rightarrow> DstarHeader option \<Rightarrow> DstarHeader option" where
  "header_after (SayHeader h) _ = Some h"
| "header_after _ ho = ho"

lemma silence_parts: "VoiceFrame_wf VoiceFrame_silence" "FrameSequence_wf FrameSequence_ZERO"
  "slow_data VoiceFrame_silence \<noteq> [0x55, 0x55, 0x55]"
  by (simp_all add: silence_wf) (simp_all add: VoiceFrame_silence_def FrameSequence_wf_def FrameSequence_ZERO_def DSTAR_SYNC_BYTES_def)

lemma carried_wf:
  assumes "utterance_wf u" "StreamId_wf sid"
  shows "dplus_client_wf (carried_dplus sid u) \<and> length (dplus_client_wire (carried_dplus sid u)) \<le> 256"
    "dextra_client_wf (carried_dextra sid u) \<and> length (dextra_client_wire (carried_dextra sid u)) \<le> 256"
    "DstarHeader_wf h \<Longrightarrow> dcs_client_wf (carried_dcs h sid u) \<and> length (dcs_client_wire (carried_dcs h sid u)) \<le> 256"
proof -
  show "dplus_client_wf (carried_dplus sid u) \<and> length (dplus_client_wire (carried_dplus sid u)) \<le> 256"
    using assms by (cases u) (simp_all add: dplus_wire_lens)
  show "dextra_client_wf (carried_dextra sid u) \<and> length (dextra_client_wire (carried_dextra sid u)) \<le> 256"
    using assms by (cases u) (simp_all add: dextra_wire_lens)
  show "dcs_client_wf (carried_dcs h sid u) \<and> length (dcs_client_wire (carried_dcs h sid u)) \<le> 256" if "DstarHeader_wf h"
    using assms silence_parts that by (cases u) (simp_all add: dcs_wire_lens)
qed

lemma utter_sends:
  assumes "sc_state c = CS_Connected" "utterance_wf u" "StreamId_wf sid"
    "header_after u (sc_cached_tx_header c) = Some h" "DstarHeader_wf h"
  shows "utter now sid u c = (Ok (), enqueue_packet now (carried (sc_kind c) h sid u) (c\<lparr>sc_cached_tx_header := Some h\<rparr>))"
proof -
  have same: "c\<lparr>sc_cached_tx_header := Some h\<rparr> = c" if "sc_cached_tx_header c = Some h"
    using that by simp
  show ?thesis
  proof (cases "sc_kind c")
    case PK_DPlus
    then show ?thesis
      using assms carried_wf(1) [OF assms(2,3)] dplus_up.encoded_wire [of "carried_dplus sid u" 256]
      by (cases u) (simp_all add: enqueue_send_header_def enqueue_send_voice_def enqueue_send_eot_def dplus_err_def carried_def same)
  next
    case PK_DExtra
    then show ?thesis
      using assms carried_wf(2) [OF assms(2,3)] dextra_up.encoded_wire [of "carried_dextra sid u" 256]
      by (cases u) (simp_all add: enqueue_send_header_def enqueue_send_voice_def enqueue_send_eot_def dextra_err_def carried_def same)
  next
    case PK_Dcs
    have enc: "dcs_client_encode (DcVoice h' s q f e) = (\<lambda>buf. dcs_encode_voice buf h' s q f e)" for h' s q f e
      by (rule ext) simp
    show ?thesis
      using PK_Dcs assms carried_wf(3) [OF assms(2,3)] dcs_up.encoded_wire [of "carried_dcs h sid u" 256]
      by (cases u) (simp_all add: enqueue_send_header_def enqueue_send_voice_def enqueue_send_eot_def dcs_err_def carried_def enc same)
  qed
qed

text \<open>What the reflector makes of each datagram.\<close>

definition server_same :: "ServerSessionCore \<Rightarrow> ServerSessionCore \<Rightarrow> bool" where
  "server_same s s' \<longleftrightarrow> ss_kind s' = ss_kind s \<and> ss_peer s' = ss_peer s \<and> ss_reflector_module s' = ss_reflector_module s \<and>
     ss_client_callsign s' = ss_client_callsign s \<and> ss_client_module s' = ss_client_module s \<and> ss_outbox s' = ss_outbox s"

text \<open>The session between two datagrams: in the stream, or linked and idle.\<close>

definition stream_state :: "StreamId \<Rightarrow> bool \<Rightarrow> ServerSessionCore \<Rightarrow> bool" where
  "stream_state sid opened s \<longleftrightarrow>
     (if opened then ss_state s = SI_Streaming \<and> ss_last_stream_id s = Some sid
      else ss_state s = SI_Linked \<and> ss_last_stream_id s = None)"

definition expects :: "StreamId \<Rightarrow> DstarHeader \<Rightarrow> bool \<Rightarrow> utterance \<Rightarrow> ServerSessionCore \<Rightarrow> bool" where
  "expects sid h opened u s \<longleftrightarrow> stream_state sid opened s \<and>
     (case u of SayHeader h' \<Rightarrow> h' = h \<and> \<not> opened | _ \<Rightarrow> opened \<or> ss_kind s = PK_Dcs)"

definition took :: "StreamId \<Rightarrow> DstarHeader \<Rightarrow> bool \<Rightarrow> utterance \<Rightarrow> ServerSessionCore \<Rightarrow> ServerSessionCore \<Rightarrow> bool" where
  "took sid h opened u s s' \<longleftrightarrow> server_same s s' \<and>
     ss_events s' = ss_events s @ heard (ss_kind s) (ss_peer s) sid h opened u \<and> stream_state sid (open_after (ss_kind s) u) s'"

lemma took_dsvt:
  assumes "expects sid h opened u s" "ss_kind s \<noteq> PK_Dcs"
  shows "u = SayHeader h \<Longrightarrow> took sid h opened u s (on_dextra_voice_header sid (DstarHeader_with_flags h HeaderFlags_NONE) s)"
    "u = SayFrame q f \<Longrightarrow> took sid h opened u s (on_dextra_voice_data sid (sequence_index q) f s)"
    "u = SayEnd q \<Longrightarrow> took sid h opened u s (on_dextra_voice_eot sid s)"
  using assms
  by (auto simp: expects_def stream_state_def took_def server_same_def on_dextra_voice_header_def on_dextra_voice_data_def
      on_dextra_voice_eot_def)

lemma took_dcs:
  assumes "expects sid h opened u s" "ss_kind s = PK_Dcs" "dcs_client_received (carried_dcs h sid u) = DcsC_Voice h' sid' q f e"
  shows "took sid h opened u s (on_dcs_voice h' sid' q f e s)"
proof -
  have v: "slow_data_update (\<lambda>_. slow_data f) f = f" for f :: VoiceFrame by simp
  have m: "slow_data VoiceFrame_silence \<noteq> DCS_VOICE_EOT_MARKER" "DCS_VOICE_EOT_MARKER = [0x55, 0x55, 0x55]"
    using silence_parts(3) by (simp_all add: DCS_VOICE_EOT_MARKER_def)
  show ?thesis
    using assms m(1)
    by (cases u; cases opened) (auto simp: expects_def stream_state_def took_def server_same_def on_dcs_voice_def Let_def differs_def
        dcs_voice_seq_def dcs_voice_slow_def dcs_voice_ends_def closes_dcs_def FrameSequence_ZERO_def v m(2))
qed

lemma server_takes:
  assumes "expects sid h opened u s" "utterance_wf u" "StreamId_wf sid" "DstarHeader_wf h"
  shows "took sid h opened u s (snd (server_handle_input now (carried (ss_kind s) h sid u) s))"
proof -
  have live: "ss_state s \<noteq> SI_Closed" using assms(1) by (auto simp: expects_def stream_state_def split: if_splits)
  show ?thesis
  proof (cases "ss_kind s")
    case PK_DPlus
    then show ?thesis
      using server_receives(1) [OF live PK_DPlus, of "carried_dplus sid u" now] carried_wf(1) [OF assms(2,3)] took_dsvt [OF assms(1)] assms(1)
      by (cases u) (auto simp: expects_def carried_def server_dplus_dispatch_def dplus_voice_alike)
  next
    case PK_DExtra
    then show ?thesis
      using server_receives(2) [OF live PK_DExtra, of "carried_dextra sid u" now] carried_wf(2) [OF assms(2,3)] took_dsvt [OF assms(1)] assms(1)
      by (cases u) (auto simp: expects_def carried_def server_dextra_dispatch_def)
  next
    case PK_Dcs
    let ?s = "s\<lparr>ss_diagnostics := ss_diagnostics s @ dcs_client_remarks (carried_dcs h sid u)\<rparr>"
    have wf: "dcs_client_wf (carried_dcs h sid u)" using carried_wf(3) [OF assms(2,3,4)] by simp
    have ex: "expects sid h opened u ?s" using assms(1) by (cases u) (simp_all add: expects_def stream_state_def)
    have "\<exists>h' sid' q f e. dcs_client_received (carried_dcs h sid u) = DcsC_Voice h' sid' q f e" by (cases u) auto
    then obtain h' sid' q f e where pkt: "dcs_client_received (carried_dcs h sid u) = DcsC_Voice h' sid' q f e" by blast
    have "took sid h opened u ?s (on_dcs_voice h' sid' q f e ?s)" by (rule took_dcs [OF ex _ pkt]) (simp add: PK_Dcs)
    then show ?thesis
      using server_receives(3) [OF live PK_Dcs wf, of now] pkt PK_Dcs
      by (simp add: carried_def server_dcs_dispatch_def took_def server_same_def stream_state_def)
  qed
qed

text \<open>One utterance end to end.\<close>

definition client_same :: "SessionCore \<Rightarrow> SessionCore \<Rightarrow> bool" where
  "client_same c c' \<longleftrightarrow> sc_kind c' = sc_kind c \<and> sc_callsign c' = sc_callsign c \<and> sc_local_module c' = sc_local_module c \<and>
     sc_reflector_module c' = sc_reflector_module c \<and> sc_protocol c' = sc_protocol c \<and> sc_peer c' = sc_peer c \<and>
     sc_state c' = sc_state c \<and> sc_events c' = sc_events c"

lemma say_relays:
  assumes "sc_state c = CS_Connected" "sc_outbox c = Outbox_new" "ss_kind s = sc_kind c" "utterance_wf u" "StreamId_wf sid"
    "header_after u (sc_cached_tx_header c) = Some h" "DstarHeader_wf h" "expects sid h opened u s"
  obtains c' s' where "say sid (now, u) (c, s) = (c', s')" "client_same c c'" "sc_outbox c' = Outbox_new"
    "sc_cached_tx_header c' = Some h" "took sid h opened u s s'"
proof -
  let ?bs = "carried (sc_kind c) h sid u"
  define c1 where "c1 = enqueue_packet now ?bs (c\<lparr>sc_cached_tx_header := Some h\<rparr>)"
  have "sc_outbox c1 = Outbox_enqueue (packet_for (sc_peer c) ?bs now) Outbox_new"
    using assms(2) by (simp add: c1_def enqueue_packet_def packet_for_def)
  then have "say sid (now, u) (c, s) = (c1\<lparr>sc_outbox := Outbox_new, sc_current_tx := Some (packet_for (sc_peer c) ?bs now)\<rparr>,
      snd (server_handle_input now ?bs s))"
    using utter_sends [OF assms(1,4,5,6,7), of now] relay_up_one [of c1 "sc_peer c" ?bs now s] by (simp add: say_def c1_def)
  then show thesis
  proof (rule that)
    show "took sid h opened u s (snd (server_handle_input now ?bs s))"
      using server_takes [of sid h opened u s now] assms by simp
  qed (simp_all add: client_same_def c1_def enqueue_packet_def)
qed

text \<open>A whole transmission.\<close>

definition transmission ::
  "instant \<times> DstarHeader \<Rightarrow> (instant \<times> FrameSequence \<times> VoiceFrame) list \<Rightarrow> instant \<times> FrameSequence \<Rightarrow> (instant \<times> utterance) list" where
  "transmission th fs tq =
     (fst th, SayHeader (snd th)) # map (\<lambda>(t, q, f). (t, SayFrame q f)) fs @ [(fst tq, SayEnd (snd tq))]"

fun heard_all ::
  "ProtocolKind \<Rightarrow> SocketAddr \<Rightarrow> StreamId \<Rightarrow> DstarHeader \<Rightarrow> bool \<Rightarrow> (instant \<times> utterance) list \<Rightarrow> RawServerEvent list" where
  "heard_all k a sid h opened [] = []"
| "heard_all k a sid h opened (tu # us) = heard k a sid h opened (snd tu) @ heard_all k a sid h (open_after k (snd tu)) us"

fun open_after_all :: "ProtocolKind \<Rightarrow> bool \<Rightarrow> (instant \<times> utterance) list \<Rightarrow> bool" where
  "open_after_all k opened [] = opened"
| "open_after_all k opened (tu # us) = open_after_all k (open_after k (snd tu)) us"

lemma heard_all_append:
  "heard_all k a sid h opened (us @ vs) = heard_all k a sid h opened us @ heard_all k a sid h (open_after_all k opened us) vs"
  by (induction us arbitrary: opened) auto

lemma say_all_append: "say_all sid (us @ vs) l = say_all sid vs (say_all sid us l)"
  by (simp add: say_all_def)

lemma client_same_trans: "client_same a b \<Longrightarrow> client_same b c \<Longrightarrow> client_same a c"
  by (simp add: client_same_def)

lemma server_same_trans: "server_same a b \<Longrightarrow> server_same b c \<Longrightarrow> server_same a c"
  by (simp add: server_same_def)

text \<open>The two sides in the middle of a transmission.\<close>

definition on_air :: "StreamId \<Rightarrow> DstarHeader \<Rightarrow> bool \<Rightarrow> SessionCore \<Rightarrow> ServerSessionCore \<Rightarrow> bool" where
  "on_air sid h opened c s \<longleftrightarrow> sc_state c = CS_Connected \<and> sc_outbox c = Outbox_new \<and> ss_kind s = sc_kind c \<and>
     sc_cached_tx_header c = Some h \<and> stream_state sid opened s \<and> (opened \<or> ss_kind s = PK_Dcs)"

lemma on_air_expects: "on_air sid h opened c s \<Longrightarrow> (\<forall>h'. u \<noteq> SayHeader h') \<Longrightarrow> expects sid h opened u s"
  by (cases u) (auto simp: on_air_def expects_def)

lemma say_frames:
  assumes "on_air sid h opened c s" "DstarHeader_wf h" "StreamId_wf sid"
    "\<forall>tu\<in>set us. utterance_wf (snd tu) \<and> (\<exists>q f. snd tu = SayFrame q f)"
  shows "\<exists>c' s'. say_all sid us (c, s) = (c', s') \<and> on_air sid h (open_after_all (ss_kind s) opened us) c' s' \<and>
    client_same c c' \<and> server_same s s' \<and> ss_events s' = ss_events s @ heard_all (ss_kind s) (ss_peer s) sid h opened us"
  using assms
proof (induction us arbitrary: c s opened)
  case Nil
  then show ?case by (simp add: say_all_def client_same_def server_same_def)
next
  case (Cons tu us)
  obtain t q f where tu: "tu = (t, SayFrame q f)" using Cons.prems(4) by (cases tu) auto
  let ?o = "open_after (ss_kind s) (SayFrame q f)"
  have ex: "expects sid h opened (SayFrame q f) s" using on_air_expects [OF Cons.prems(1)] by simp
  obtain c1 s1 where one: "say sid tu (c, s) = (c1, s1)" "client_same c c1" "sc_outbox c1 = Outbox_new"
      "sc_cached_tx_header c1 = Some h" "took sid h opened (SayFrame q f) s s1"
    using say_relays [OF _ _ _ _ Cons.prems(3) _ Cons.prems(2) ex, of c t] Cons.prems tu by (auto simp: on_air_def)
  have k1: "ss_kind s1 = ss_kind s" "ss_peer s1 = ss_peer s" using one(5) by (simp_all add: took_def server_same_def)
  have air: "on_air sid h ?o c1 s1"
    using one Cons.prems(1) by (auto simp: on_air_def took_def client_same_def server_same_def)
  have "\<forall>tu\<in>set us. utterance_wf (snd tu) \<and> (\<exists>q f. snd tu = SayFrame q f)" using Cons.prems(4) by simp
  from Cons.IH [OF air Cons.prems(2,3) this] obtain c2 s2 where two: "say_all sid us (c1, s1) = (c2, s2)"
      "on_air sid h (open_after_all (ss_kind s) opened (tu # us)) c2 s2" "client_same c1 c2" "server_same s1 s2"
      "ss_events s2 = ss_events s1 @ heard_all (ss_kind s) (ss_peer s) sid h ?o us"
    using k1 tu by auto
  have "say_all sid (tu # us) (c, s) = (c2, s2)" using one(1) two(1) by (simp add: say_all_def)
  moreover have "ss_events s2 = ss_events s @ heard_all (ss_kind s) (ss_peer s) sid h opened (tu # us)"
    using one(5) two(5) tu by (simp add: took_def)
  moreover have "server_same s s1" using one(5) by (simp add: took_def)
  ultimately show ?case
    using two client_same_trans [OF one(2) two(3)] server_same_trans [OF _ two(4)] by blast
qed

lemma transmission_heard:
  assumes "linked_pair c s" "DstarHeader_wf h" "StreamId_wf sid" "FrameSequence_wf q"
    "\<forall>(t, q, f)\<in>set fs. FrameSequence_wf q \<and> VoiceFrame_wf f"
  shows "\<exists>c' s'. say_all sid (transmission (t0, h) fs (t1, q)) (c, s) = (c', s') \<and> linked_pair c' s' \<and> client_same c c' \<and>
    server_same s s' \<and> ss_events s' = ss_events s @ heard_all (sc_kind c) (ss_peer s) sid h False (transmission (t0, h) fs (t1, q))"
proof -
  let ?fs = "map (\<lambda>(t, q, f). (t, SayFrame q f)) fs"
  have ex: "expects sid h False (SayHeader h) s" using assms(1) by (simp add: linked_pair_def expects_def stream_state_def)
  obtain c1 s1 where one: "say sid (t0, SayHeader h) (c, s) = (c1, s1)" "client_same c c1" "sc_outbox c1 = Outbox_new"
      "sc_cached_tx_header c1 = Some h" "took sid h False (SayHeader h) s s1"
    using say_relays [OF _ _ _ _ assms(3) _ assms(2) ex, of c t0] assms by (auto simp: linked_pair_def)
  have k1: "ss_kind s1 = ss_kind s" "ss_peer s1 = ss_peer s" "ss_kind s = sc_kind c"
    using one(5) assms(1) by (simp_all add: took_def server_same_def linked_pair_def)
  have air: "on_air sid h True c1 s1"
    using one assms(1) by (simp add: on_air_def took_def client_same_def server_same_def linked_pair_def)
  have "\<forall>tu\<in>set ?fs. utterance_wf (snd tu) \<and> (\<exists>q f. snd tu = SayFrame q f)" using assms(5) by auto
  from say_frames [OF air assms(2,3) this] obtain c2 s2 where two: "say_all sid ?fs (c1, s1) = (c2, s2)"
      "on_air sid h (open_after_all (sc_kind c) True ?fs) c2 s2" "client_same c1 c2" "server_same s1 s2"
      "ss_events s2 = ss_events s1 @ heard_all (sc_kind c) (ss_peer s) sid h True ?fs"
    using k1 by auto
  let ?o = "open_after_all (sc_kind c) True ?fs"
  have ex2: "expects sid h ?o (SayEnd q) s2" using on_air_expects [OF two(2)] by simp
  obtain c3 s3 where three: "say sid (t1, SayEnd q) (c2, s2) = (c3, s3)" "client_same c2 c3" "sc_outbox c3 = Outbox_new"
      "sc_cached_tx_header c3 = Some h" "took sid h ?o (SayEnd q) s2 s3"
    using say_relays [OF _ _ _ _ assms(3) _ assms(2) ex2, of c2 t1] two(2) assms by (auto simp: on_air_def)
  have c: "client_same c c3" using client_same_trans [OF client_same_trans [OF one(2) two(3)] three(2)] .
  have s: "server_same s s3" using one(5) two(4) three(5) by (simp add: took_def server_same_def)
  have "say_all sid (transmission (t0, h) fs (t1, q)) (c, s) = (c3, s3)"
    using one(1) two(1) three(1) by (simp add: transmission_def say_all_def)
  moreover have "linked_pair c3 s3"
    using assms(1,2) c s three(3,4,5)
    by (auto simp: linked_pair_def client_same_def server_same_def took_def stream_state_def identity_ok_def SessionCore_callsign_def)
  moreover have "ss_events s3 = ss_events s @ heard_all (sc_kind c) (ss_peer s) sid h False (transmission (t0, h) fs (t1, q))"
    using one(5) two(4,5) three(5) assms(1)
    by (simp add: took_def transmission_def heard_all_append server_same_def linked_pair_def)
  ultimately show ?thesis using c s by blast
qed

section \<open>Unlinking\<close>

definition hang_up :: "instant \<Rightarrow> SessionCore \<times> ServerSessionCore \<Rightarrow> SessionCore \<times> ServerSessionCore" where
  "hang_up now l = round_trip now (snd (enqueue_disconnect now (fst l)), snd l)"

text \<open>The pair after an unlink: the reflector has closed; the client has been told so, except in DExtra,
  which has no reply and leaves the client to its disconnect timer.\<close>

definition unlinked_from :: "SessionCore \<Rightarrow> ServerSessionCore \<Rightarrow> SessionCore \<times> ServerSessionCore \<Rightarrow> bool" where
  "unlinked_from c s l \<longleftrightarrow> ss_state (snd l) = SI_Closed \<and> ss_peer (snd l) = ss_peer s \<and>
     ss_events (snd l) = ss_events s @ [RawS_Unlinked (ss_peer s)] \<and>
     (if sc_kind c = PK_DExtra
      then sc_state (fst l) = CS_Disconnecting \<and> sc_events (fst l) = sc_events c
      else sc_state (fst l) = CS_Closed \<and> sc_events (fst l) = sc_events c @ [Raw_Disconnected UnlinkAcked])"

lemma disconnecting:
  assumes "sc_state c = CS_Connected" "sc_outbox c = Outbox_new" "validate_time c now = Ok ()" "disconnect_payload c = Ok bs"
  defines "c1 \<equiv> snd (enqueue_disconnect now c)"
  shows "relay_up now (c1, s) =
      (c1\<lparr>sc_outbox := Outbox_new, sc_current_tx := Some (packet_for (sc_peer c) bs now)\<rparr>, snd (server_handle_input now bs s))"
    "sc_state c1 = CS_Disconnecting" "sc_kind c1 = sc_kind c" "sc_peer c1 = sc_peer c" "sc_events c1 = sc_events c"
    "SessionCore_callsign c1 = SessionCore_callsign c" "sc_local_module c1 = sc_local_module c"
proof -
  have c1: "c1 = arm_disconnect_deadline now ((enqueue_packet now bs c)\<lparr>sc_state := CS_Disconnecting\<rparr>)"
    using assms by (simp add: c1_def enqueue_disconnect_def)
  then have "sc_outbox c1 = Outbox_enqueue (packet_for (sc_peer c) bs now) Outbox_new"
    using assms(2) by (simp add: quiet_defs packet_for_def)
  then show "relay_up now (c1, s) =
      (c1\<lparr>sc_outbox := Outbox_new, sc_current_tx := Some (packet_for (sc_peer c) bs now)\<rparr>, snd (server_handle_input now bs s))"
    by (rule relay_up_one)
  show "sc_state c1 = CS_Disconnecting" "sc_kind c1 = sc_kind c" "sc_peer c1 = sc_peer c" "sc_events c1 = sc_events c"
    "SessionCore_callsign c1 = SessionCore_callsign c" "sc_local_module c1 = sc_local_module c"
    by (simp_all add: c1 quiet_defs SessionCore_callsign_def)
qed

lemma acked_hang_up:
  assumes "linked_pair c s" "validate_time c now = Ok ()" "sc_kind c \<noteq> PK_DExtra" "disconnect_payload c = Ok up"
    and server: "snd (server_handle_input now up s) = departed (reply now down s)"
    and client: "\<And>c2. sc_state c2 = CS_Disconnecting \<Longrightarrow> sc_kind c2 = sc_kind c \<Longrightarrow>
      SessionCore_callsign c2 = SessionCore_callsign c \<Longrightarrow> sc_local_module c2 = sc_local_module c \<Longrightarrow>
      snd (handle_input now (sc_peer c2) down c2) = finalize_disconnect UnlinkAcked c2"
  shows "unlinked_from c s (hang_up now (c, s))"
proof -
  have st: "sc_state c = CS_Connected" "sc_outbox c = Outbox_new" "ss_outbox s = Outbox_new"
    using assms(1) by (simp_all add: linked_pair_def)
  define c1 where "c1 = snd (enqueue_disconnect now c)"
  define c2 where "c2 = c1\<lparr>sc_outbox := Outbox_new, sc_current_tx := Some (packet_for (sc_peer c) up now)\<rparr>"
  note dis = disconnecting [OF st(1,2) assms(2,4), folded c1_def]
  have "relay_up now (c1, s) = (c2, departed (reply now down s))" using dis(1) server by (simp add: c2_def)
  moreover have "ss_outbox (departed (reply now down s)) = Outbox_enqueue (packet_for (ss_peer s) down now) Outbox_new"
    using st by (simp add: reply_def packet_for_def)
  moreover have c2: "sc_state c2 = CS_Disconnecting" "sc_kind c2 = sc_kind c" "SessionCore_callsign c2 = SessionCore_callsign c"
      "sc_local_module c2 = sc_local_module c" "sc_events c2 = sc_events c"
    using dis by (simp_all add: c2_def SessionCore_callsign_def)
  moreover have "snd (handle_input now (sc_peer c2) down c2) = finalize_disconnect UnlinkAcked c2"
    using client c2 by blast
  ultimately have "hang_up now (c, s) = (finalize_disconnect UnlinkAcked c2,
      (departed (reply now down s))\<lparr>ss_outbox := Outbox_new, ss_current_tx := Some (packet_for (ss_peer s) down now)\<rparr>)"
    using relay_down_one [of "departed (reply now down s)" "ss_peer s" down now c2] by (simp add: hang_up_def round_trip_def c1_def)
  then show ?thesis
    using c2 assms(3) by (simp add: unlinked_from_def finalize_closed departed_def)
qed

lemma dplus_hang_up:
  assumes "linked_pair c s" "validate_time c now = Ok ()" "sc_kind c = PK_DPlus"
  shows "unlinked_from c s (hang_up now (c, s))"
proof (rule acked_hang_up [OF assms(1,2) _ sends_dplus(2) [OF assms(3)]])
  show "snd (server_handle_input now (dplus_client_wire DpUnlink) s) = departed (reply now (dplus_server_wire DpUnlinkAck) s)"
    using server_receives(1) [of s DpUnlink now] assms(1,3) dplus_replies(2)
    by (simp add: linked_pair_def server_dplus_dispatch_def on_dplus_unlink_def departed_def Let_def)
  fix c2 :: SessionCore assume "sc_state c2 = CS_Disconnecting" "sc_kind c2 = sc_kind c"
  then show "snd (handle_input now (sc_peer c2) (dplus_server_wire DpUnlinkAck) c2) = finalize_disconnect UnlinkAcked c2"
    using client_receives(1) [of c2 now DpUnlinkAck] assms(2,3) validate_time_kind [of c2 c now]
    by (simp add: dplus_needs_link_def dplus_dispatch_def)
qed (simp add: assms(3))

lemma dcs_hang_up:
  assumes "linked_pair c s" "validate_time c now = Ok ()" "sc_kind c = PK_Dcs"
  shows "unlinked_from c s (hang_up now (c, s))"
proof -
  have id: "identity_ok c" using assms(1) by (simp add: linked_pair_def)
  obtain r where r: "sc_protocol c = CP_Dcs r"
    using id assms(3) by (cases "sc_protocol c") (simp_all add: identity_ok_def ClientProtocol_kind_def)
  let ?i = "local_identity c"
  let ?nak = "DcNak ?i ModuleSlot_Empty"
  show ?thesis
  proof (rule acked_hang_up [OF assms(1,2) _ sends_dcs(2) [OF assms(3) id r]])
    show "snd (server_handle_input now (dcs_client_wire (DcUnlink ?i r)) s) = departed (reply now (dcs_server_wire ?nak) s)"
      using server_receives(3) [of s "DcUnlink ?i r" now] assms(1,3) identity_parts [OF id] sends_dcs(3) [OF assms(3) id r]
        dcs_replies(2) [of ?i] routing_round_trip [of "sc_callsign c"]
      by (simp add: linked_pair_def server_dcs_dispatch_def on_dcs_unlink_def departed_def Let_def SessionCore_callsign_def
          local_identity_def)
    fix c2 :: SessionCore assume "sc_state c2 = CS_Disconnecting" "sc_kind c2 = sc_kind c"
      "SessionCore_callsign c2 = SessionCore_callsign c" "sc_local_module c2 = sc_local_module c"
    then show "snd (handle_input now (sc_peer c2) (dcs_server_wire ?nak) c2) = finalize_disconnect UnlinkAcked c2"
      using client_receives(3) [of c2 now ?nak] assms(2,3) identity_parts [OF id] validate_time_kind [of c2 c now]
      by (simp add: dcs_needs_link_def dcs_dispatch_def on_connect_nak_def ModuleSlot_wf_def)
  qed (simp add: assms(3))
qed

lemma dextra_hang_up:
  assumes "linked_pair c s" "validate_time c now = Ok ()" "sc_kind c = PK_DExtra"
  shows "unlinked_from c s (hang_up now (c, s))"
proof -
  have id: "identity_ok c" and st: "sc_state c = CS_Connected" "sc_outbox c = Outbox_new" "ss_outbox s = Outbox_new"
    using assms(1) by (simp_all add: linked_pair_def)
  note dis = disconnecting [OF st(1,2) assms(2) sends_dextra(2) [OF assms(3) id]]
  have "snd (server_handle_input now (dextra_client_wire (DxUnlink (local_identity c))) s) = departed s"
    using server_receives(2) [of s "DxUnlink (local_identity c)" now] assms(1,3) identity_parts [OF id]
    by (simp add: linked_pair_def server_dextra_dispatch_def on_dextra_unlink_eq)
  then show ?thesis
    using dis st assms(3) by (simp add: hang_up_def round_trip_def relay_down_idle unlinked_from_def) (simp add: departed_def)
qed

lemma hang_up_unlinks:
  "linked_pair c s \<Longrightarrow> validate_time c now = Ok () \<Longrightarrow> unlinked_from c s (hang_up now (c, s))"
  using dplus_hang_up dextra_hang_up dcs_hang_up by (cases "sc_kind c") blast+

section \<open>A call from start to end\<close>

text \<open>Connect, transmit once, disconnect.\<close>

definition dstar_call ::
  "SessionConfig \<Rightarrow> HostList \<Rightarrow> SocketAddr \<Rightarrow> instant \<Rightarrow> StreamId \<Rightarrow> (instant \<times> utterance) list \<Rightarrow> instant \<Rightarrow>
     SessionCore \<times> ServerSessionCore" where
  "dstar_call cfg hosts addr t0 sid us t1 =
     hang_up t1 (say_all sid us (round_trip t0 (round_trip t0
       (snd (enqueue_connect t0 (ready_client cfg hosts)),
        ServerSessionCore_new (ClientProtocol_kind (cfg_protocol cfg)) addr (cfg_reflector_module cfg)))))"

text \<open>C2. A call over any of the three protocols, from the configured client to the reflector's closed
  session and through the bytes of every datagram. The reflector reports the link with the client's
  callsign and module, then what it makes of the transmission, then the unlink, and nothing else;
  the client ends closed, or in DExtra waiting only for its disconnect timer. Over DPlus and DExtra
  the transmission is one start with the header, its flags cleared, the frames with their sequence
  numbers in order, and one end. Over DCS the header keeps its flags and comes with a silent frame
  numbered 0, and the end with a silent frame that has the sequence bit 0x40 and the slow data 55 55
  55; a frame whose own slow data is 55 55 55 ends the stream there too, and the next packet starts
  it again with the same header.\<close>

theorem dstar_call_end_to_end:
  assumes "config_wf cfg" "validate_time (ready_client cfg hosts) t0 = Ok ()" "validate_time (ready_client cfg hosts) t1 = Ok ()"
    and "DstarHeader_wf h" "StreamId_wf sid" "FrameSequence_wf q"
    and "\<forall>(t, q, f)\<in>set fs. FrameSequence_wf q \<and> VoiceFrame_wf f"
    and "us = transmission (th, h) fs (tq, q)"
    and "dstar_call cfg hosts addr t0 sid us t1 = (c, s)"
  shows "ss_events s =
      RawS_Linked addr (RoutingCallsign_callsign (cfg_callsign cfg)) (cfg_reflector_module cfg) #
      heard_all (ClientProtocol_kind (cfg_protocol cfg)) addr sid h False us @ [RawS_Unlinked addr] \<and>
    state_kind s = SK_Closed \<and>
    sc_state c = (if ClientProtocol_kind (cfg_protocol cfg) = PK_DExtra then CS_Disconnecting else CS_Closed)"
proof -
  let ?c0 = "ready_client cfg hosts" let ?k = "ClientProtocol_kind (cfg_protocol cfg)"
  have c0: "sc_kind ?c0 = ?k" "sc_reflector_module ?c0 = cfg_reflector_module cfg" "fresh ?c0"
      "SessionCore_callsign ?c0 = RoutingCallsign_callsign (cfg_callsign cfg)"
    using ready_fresh [OF assms(1)] by (simp_all add: ready_client_def attach_host_list_def SessionCore_new_def SessionCore_callsign_def)
  obtain c1 s1 where l1: "round_trip t0 (round_trip t0 (snd (enqueue_connect t0 ?c0), ServerSessionCore_new ?k addr (cfg_reflector_module cfg))) = (c1, s1)"
    by fastforce
  have "linked_up ?c0 addr (c1, s1)"
    using handshake_links [OF assms(1,2), of addr] l1 by simp
  then have one: "linked_pair c1 s1" "sc_kind c1 = ?k" "ss_peer s1 = addr"
      "ss_events s1 = [RawS_Linked addr (RoutingCallsign_callsign (cfg_callsign cfg)) (cfg_reflector_module cfg)]"
    using c0 by (simp_all add: linked_up_def)
  obtain c2 s2 where two: "say_all sid us (c1, s1) = (c2, s2)" "linked_pair c2 s2" "client_same c1 c2" "server_same s1 s2"
      "ss_events s2 = ss_events s1 @ heard_all ?k addr sid h False us"
    using transmission_heard [OF one(1) assms(4,5,6), of fs th tq] assms(7,8) one(2,3) by auto
  have k2: "sc_kind c2 = ?k" "ss_peer s2 = addr" using two one by (simp_all add: client_same_def server_same_def)
  have "unlinked_from c2 s2 (c, s)"
    using hang_up_unlinks [OF two(2), of t1] assms(3,9) validate_time_kind [of c2 ?c0 t1] k2 c0(1) l1 two(1)
    by (simp add: dstar_call_def)
  then show ?thesis
    using two(5) one(4) k2 by (auto simp: unlinked_from_def state_kind_def InternalState_kind_def split: if_splits)
qed

theorem dstar_call_end_to_end_witness:
  "\<exists>c s. dstar_call sample_client_config [] sample_peer 0 (StreamId 7)
      (transmission (3, sample_dstar_header) [(4, FrameSequence 1, VoiceFrame_silence)] (5, FrameSequence 2)) 9 = (c, s) \<and>
    ss_events s = [RawS_Linked sample_peer (RoutingCallsign_callsign (cfg_callsign sample_client_config)) (DstarModule 0x43),
      RawS_StreamStarted sample_peer (StreamId 7) (DstarHeader_with_flags sample_dstar_header HeaderFlags_NONE),
      RawS_StreamFrame sample_peer (StreamId 7) 1 VoiceFrame_silence, RawS_StreamEnded sample_peer (StreamId 7),
      RawS_Unlinked sample_peer] \<and> state_kind s = SK_Closed"
proof -
  let ?us = "transmission (3, sample_dstar_header) [(4, FrameSequence 1, VoiceFrame_silence)] (5, FrameSequence 2)"
  obtain c s where run: "dstar_call sample_client_config [] sample_peer 0 (StreamId 7) ?us 9 = (c, s)" by fastforce
  have k: "ClientProtocol_kind (cfg_protocol sample_client_config) = PK_DExtra" "cfg_reflector_module sample_client_config = DstarModule 0x43"
    by (simp_all add: sample_client_config_def ClientProtocol_kind_def)
  have wf: "StreamId_wf (StreamId 7)" "FrameSequence_wf (FrameSequence 2)"
      "FrameSequence_wf (FrameSequence 1)"
    by (simp_all add: StreamId_wf_def FrameSequence_wf_def)
  show ?thesis
    using dstar_call_end_to_end [OF sample_config_wf validate_time_small validate_time_small sample_dstar_header_wf wf(1,2) _ refl run] run k wf(3) silence_parts(1)
    by (auto simp: transmission_def)
qed

end
