(* ===== verification/Reflector_Pool.thy ===== *)
theory Reflector_Pool
  imports Dstar_Server_Runs
begin

text \<open>
  The data an endpoint of the reflector keeps, from \<open>dstar-gateway-server/src\<close>: the stream cache
  (\<open>reflector/stream_cache.rs\<close>), access decisions (\<open>reflector/authorizer.rs\<close>), recipient budgets
  (\<open>client_pool/rate.rs\<close>, \<open>handle.rs\<close>) and the client pool with its module index (\<open>pool.rs\<close>).
  Arithmetic on \<open>f64\<close> is an argument (the record \<open>F64\<close>): no theorem depends on its rounding. The
  pool's asynchronous lock makes each method one transaction, so each is one function on the
  pool's state. The locale \<open>client_registry\<close> is what the endpoint relies on.
\<close>

section \<open>Stream cache\<close>

record StreamSource =
  src_protocol :: ProtocolKind
  src_peer :: SocketAddr

record StreamCache =
  sc_stream_id :: StreamId
  sc_header :: DstarHeader
  sc_header_bytes :: bytes
  sc_seq_counter :: nat
  sc_started_at :: instant
  sc_last_activity :: instant
  sc_source :: StreamSource

definition StreamCache_new_with_bytes ::
  "StreamId \<Rightarrow> DstarHeader \<Rightarrow> bytes \<Rightarrow> StreamSource \<Rightarrow> instant \<Rightarrow> StreamCache" where
  "StreamCache_new_with_bytes stream_id header header_bytes source now =
     \<lparr>sc_stream_id = stream_id, sc_header = header, sc_header_bytes = header_bytes, sc_seq_counter = 0,
      sc_started_at = now, sc_last_activity = now, sc_source = source\<rparr>"

definition StreamCache_new :: "StreamId \<Rightarrow> DstarHeader \<Rightarrow> StreamSource \<Rightarrow> instant \<Rightarrow> StreamCache" where
  "StreamCache_new stream_id header source now =
     \<lparr>sc_stream_id = stream_id, sc_header = header, sc_header_bytes = [], sc_seq_counter = 0,
      sc_started_at = now, sc_last_activity = now, sc_source = source\<rparr>"

definition record_frame :: "instant \<Rightarrow> StreamCache \<Rightarrow> StreamCache" where
  "record_frame now c =
     c\<lparr>sc_seq_counter := (sc_seq_counter c + 1) mod 21, sc_last_activity := max (sc_last_activity c) now\<rparr>"

definition should_rebroadcast_header :: "StreamCache \<Rightarrow> bool" where
  "should_rebroadcast_header c \<longleftrightarrow> ((sc_seq_counter c + 1) mod 2 ^ 32) mod 21 = 0"

definition should_evict :: "instant \<Rightarrow> duration \<Rightarrow> StreamCache \<Rightarrow> bool" where
  "should_evict now timeout c \<longleftrightarrow> timeout \<le> saturating_duration_since now (sc_last_activity c)"

definition cache_matches :: "StreamSource \<Rightarrow> StreamId \<Rightarrow> StreamCache \<Rightarrow> bool" where
  "cache_matches source stream_id c \<longleftrightarrow> sc_source c = source \<and> sc_stream_id c = stream_id"

section \<open>Access decisions\<close>

record LinkAttempt =
  la_protocol :: ProtocolKind
  la_callsign :: DstarCallsign
  la_peer :: SocketAddr
  la_module :: DstarModule

datatype AccessPolicy = ReadWrite | ReadOnly

datatype RejectReason =
    RR_Busy
  | RR_Banned string
  | RR_UnknownModule
  | RR_MaxClients
  | RR_Custom u8 string

fun ClientRejectedReason_from :: "RejectReason \<Rightarrow> ClientRejectedReason" where
  "ClientRejectedReason_from RR_Busy = CR_Busy"
| "ClientRejectedReason_from (RR_Banned reason) = CR_Banned reason"
| "ClientRejectedReason_from RR_UnknownModule = CR_UnknownModule"
| "ClientRejectedReason_from RR_MaxClients = CR_MaxClients"
| "ClientRejectedReason_from (RR_Custom code message) = CR_Custom code message"

type_synonym ClientAuthorizer = "LinkAttempt \<Rightarrow> RejectReason + AccessPolicy"

definition AllowAllAuthorizer :: ClientAuthorizer where
  "AllowAllAuthorizer request = Ok ReadWrite"

definition DenyAllAuthorizer :: ClientAuthorizer where
  "DenyAllAuthorizer request = Err (RR_Banned ''deny-all authorizer'')"

definition ReadOnlyAuthorizer :: ClientAuthorizer where
  "ReadOnlyAuthorizer request = Ok ReadOnly"

section \<open>Recipient budgets\<close>

record 'f F64 =
  f_of_u32 :: "nat \<Rightarrow> 'f"
  f_secs :: "duration \<Rightarrow> 'f"
  f_finite :: "'f \<Rightarrow> bool"
  f_less :: "'f \<Rightarrow> 'f \<Rightarrow> bool"
  f_le :: "'f \<Rightarrow> 'f \<Rightarrow> bool"
  f_add :: "'f \<Rightarrow> 'f \<Rightarrow> 'f"
  f_sub :: "'f \<Rightarrow> 'f \<Rightarrow> 'f"
  f_mul :: "'f \<Rightarrow> 'f \<Rightarrow> 'f"
  f_min :: "'f \<Rightarrow> 'f \<Rightarrow> 'f"
  f_max :: "'f \<Rightarrow> 'f \<Rightarrow> 'f"

datatype 'f FrameRate = FrameRate (rate_get: 'f)

datatype 'f FrameRateError = FrameRateError 'f

definition MAXIMUM_RATE :: "'f F64 \<Rightarrow> 'f" where "MAXIMUM_RATE fl = f_of_u32 fl 4294967295"

definition FrameRate_new :: "'f F64 \<Rightarrow> 'f \<Rightarrow> 'f FrameRateError + 'f FrameRate" where
  "FrameRate_new fl v =
     (if \<not> f_finite fl v \<or> f_le fl v (f_of_u32 fl 0) \<or> f_less fl (MAXIMUM_RATE fl) v
      then Err (FrameRateError v) else Ok (FrameRate v))"

record 'f TokenBucket =
  tb_tokens :: 'f
  tb_max_tokens :: 'f
  tb_refill_rate :: "'f FrameRate"
  tb_last_refill :: instant

definition DEFAULT_TX_BUDGET_MAX_TOKENS :: nat where "DEFAULT_TX_BUDGET_MAX_TOKENS = 60"

definition DEFAULT_TX_BUDGET_REFILL_PER_SEC :: "'f F64 \<Rightarrow> 'f FrameRate" where
  "DEFAULT_TX_BUDGET_REFILL_PER_SEC fl = FrameRate (f_of_u32 fl 60)"

definition TokenBucket_new :: "'f F64 \<Rightarrow> nat \<Rightarrow> 'f FrameRate \<Rightarrow> instant \<Rightarrow> 'f TokenBucket" where
  "TokenBucket_new fl max_tokens rate now =
     \<lparr>tb_tokens = f_of_u32 fl max_tokens, tb_max_tokens = f_of_u32 fl max_tokens, tb_refill_rate = rate,
      tb_last_refill = now\<rparr>"

definition try_consume :: "'f F64 \<Rightarrow> instant \<Rightarrow> nat \<Rightarrow> 'f TokenBucket \<Rightarrow> bool \<times> 'f TokenBucket" where
  "try_consume fl now tokens b =
     (let b = (if tb_last_refill b < now
               then let elapsed = f_secs fl (now - tb_last_refill b);
                        refill = f_mul fl elapsed (rate_get (tb_refill_rate b))
                    in b\<lparr>tb_tokens := f_min fl (f_add fl (tb_tokens b) refill) (tb_max_tokens b),
                         tb_last_refill := now\<rparr>
               else b);
          cost = f_of_u32 fl tokens
      in if f_less fl (tb_tokens b) cost then (False, b)
         else (True, b\<lparr>tb_tokens := f_sub fl (tb_tokens b) cost\<rparr>))"

definition TokenBucket_from_rate :: "'f F64 \<Rightarrow> 'f FrameRate \<Rightarrow> instant \<Rightarrow> 'f TokenBucket" where
  "TokenBucket_from_rate fl rate now =
     (let max_tokens = f_max fl (rate_get rate) (f_of_u32 fl 1)
      in \<lparr>tb_tokens = max_tokens, tb_max_tokens = max_tokens, tb_refill_rate = rate, tb_last_refill = now\<rparr>)"

section \<open>Client handles\<close>

record 'f ClientHandle =
  ch_session :: ServerSessionCore
  ch_module :: "DstarModule option"
  ch_last_heard :: instant
  ch_access :: AccessPolicy
  ch_send_failure_count :: nat
  ch_tx_budget :: "'f TokenBucket"

definition ClientHandle_new ::
  "'f F64 \<Rightarrow> ProtocolKind \<Rightarrow> SocketAddr \<Rightarrow> DstarModule \<Rightarrow> AccessPolicy \<Rightarrow> instant \<Rightarrow> 'f ClientHandle" where
  "ClientHandle_new fl kind peer default_module access now =
     \<lparr>ch_session = ServerSessionCore_new kind peer default_module, ch_module = None, ch_last_heard = now,
      ch_access = access, ch_send_failure_count = 0,
      ch_tx_budget = TokenBucket_new fl DEFAULT_TX_BUDGET_MAX_TOKENS (DEFAULT_TX_BUDGET_REFILL_PER_SEC fl) now\<rparr>"

definition with_tx_budget :: "'f TokenBucket \<Rightarrow> 'f ClientHandle \<Rightarrow> 'f ClientHandle" where
  "with_tx_budget budget h = h\<lparr>ch_tx_budget := budget\<rparr>"

section \<open>The pool\<close>

text \<open>A \<open>HashSet\<close> is a list without repetitions; like the maps it is iterated in list order.\<close>

record 'f PoolState =
  ps_clients :: "(SocketAddr, 'f ClientHandle) hashmap"
  ps_by_module :: "(DstarModule, SocketAddr list) hashmap"

definition ClientPool_new :: "'f PoolState" where
  "ClientPool_new = \<lparr>ps_clients = [], ps_by_module = []\<rparr>"

definition remove_membership :: "SocketAddr \<Rightarrow> DstarModule option \<Rightarrow> 'f PoolState \<Rightarrow> 'f PoolState" where
  "remove_membership peer module st =
     (case module of
        None \<Rightarrow> st
      | Some m \<Rightarrow>
          (case hm_get (ps_by_module st) m of
             None \<Rightarrow> st
           | Some members \<Rightarrow>
               (let members = removeAll peer members
                in st\<lparr>ps_by_module := (if members = [] then hm_remove m (ps_by_module st)
                                        else hm_insert m members (ps_by_module st))\<rparr>)))"

definition add_membership :: "SocketAddr \<Rightarrow> DstarModule option \<Rightarrow> 'f PoolState \<Rightarrow> 'f PoolState" where
  "add_membership peer module st =
     (case module of
        None \<Rightarrow> st
      | Some m \<Rightarrow>
          (let members = (case hm_get (ps_by_module st) m of None \<Rightarrow> [] | Some ms \<Rightarrow> ms)
           in st\<lparr>ps_by_module := hm_insert m (List.insert peer members) (ps_by_module st)\<rparr>))"

definition pool_remove :: "SocketAddr \<Rightarrow> 'f PoolState \<Rightarrow> 'f ClientHandle option \<times> 'f PoolState" where
  "pool_remove peer st =
     (case hm_get (ps_clients st) peer of
        None \<Rightarrow> (None, st)
      | Some handle \<Rightarrow>
          (Some handle, remove_membership peer (ch_module handle) (st\<lparr>ps_clients := hm_remove peer (ps_clients st)\<rparr>)))"

definition members_of_module :: "DstarModule \<Rightarrow> 'f PoolState \<Rightarrow> SocketAddr list" where
  "members_of_module m st = (case hm_get (ps_by_module st) m of None \<Rightarrow> [] | Some members \<Rightarrow> members)"

definition pool_len :: "'f PoolState \<Rightarrow> nat" where
  "pool_len st = hm_len (ps_clients st)"

definition pool_contains :: "SocketAddr \<Rightarrow> 'f PoolState \<Rightarrow> bool" where
  "pool_contains peer st \<longleftrightarrow> hm_get (ps_clients st) peer \<noteq> None"

definition DEFAULT_UNHEALTHY_THRESHOLD :: nat where "DEFAULT_UNHEALTHY_THRESHOLD = 5"

datatype UnhealthyOutcome = StillHealthy nat | ShouldEvict nat

text \<open>\<open>get_mut\<close> and an update in place; \<open>saturating_add\<close> of a 32-bit count.\<close>

definition update_handle :: "SocketAddr \<Rightarrow> ('f ClientHandle \<Rightarrow> 'f ClientHandle) \<Rightarrow> 'f PoolState \<Rightarrow> 'f PoolState" where
  "update_handle peer f st =
     (case hm_get (ps_clients st) peer of
        None \<Rightarrow> st
      | Some handle \<Rightarrow> st\<lparr>ps_clients := hm_insert peer (f handle) (ps_clients st)\<rparr>)"

definition count_failure :: "'f ClientHandle \<Rightarrow> 'f ClientHandle" where
  "count_failure h = h\<lparr>ch_send_failure_count := min (ch_send_failure_count h + 1) (2 ^ 32 - 1)\<rparr>"

definition mark_unhealthy :: "SocketAddr \<Rightarrow> 'f PoolState \<Rightarrow> UnhealthyOutcome \<times> 'f PoolState" where
  "mark_unhealthy peer st =
     (let st = update_handle peer count_failure st;
          count = (case hm_get (ps_clients st) peer of None \<Rightarrow> 0 | Some h \<Rightarrow> ch_send_failure_count h)
      in (if DEFAULT_UNHEALTHY_THRESHOLD \<le> count then ShouldEvict count else StillHealthy count, st))"

definition record_send_success :: "SocketAddr \<Rightarrow> 'f PoolState \<Rightarrow> 'f PoolState" where
  "record_send_success peer st = update_handle peer (\<lambda>h. h\<lparr>ch_send_failure_count := 0\<rparr>) st"

definition record_last_heard :: "SocketAddr \<Rightarrow> instant \<Rightarrow> 'f PoolState \<Rightarrow> 'f PoolState" where
  "record_last_heard peer now st = update_handle peer (\<lambda>h. h\<lparr>ch_last_heard := max (ch_last_heard h) now\<rparr>) st"

definition module_of :: "SocketAddr \<Rightarrow> 'f PoolState \<Rightarrow> DstarModule option" where
  "module_of peer st = Option.bind (hm_get (ps_clients st) peer) ch_module"

definition access_of :: "SocketAddr \<Rightarrow> 'f PoolState \<Rightarrow> AccessPolicy option" where
  "access_of peer st = map_option ch_access (hm_get (ps_clients st) peer)"

definition try_consume_tx_token :: "'f F64 \<Rightarrow> SocketAddr \<Rightarrow> instant \<Rightarrow> 'f PoolState \<Rightarrow> bool \<times> 'f PoolState" where
  "try_consume_tx_token fl peer now st =
     (case hm_get (ps_clients st) peer of
        None \<Rightarrow> (False, st)
      | Some h \<Rightarrow>
          (let (granted, budget) = try_consume fl now 1 (ch_tx_budget h)
           in (granted, st\<lparr>ps_clients := hm_insert peer (h\<lparr>ch_tx_budget := budget\<rparr>) (ps_clients st)\<rparr>)))"

record ClientSnapshot =
  cs_peer :: SocketAddr
  cs_last_heard :: instant
  cs_module :: "DstarModule option"
  cs_client_callsign :: "DstarCallsign option"
  cs_client_module :: "DstarModule option"
  cs_access :: AccessPolicy
  cs_send_failure_count :: nat

definition sweep_snapshot :: "'f PoolState \<Rightarrow> ClientSnapshot list" where
  "sweep_snapshot st =
     map (\<lambda>(peer, h).
       \<lparr>cs_peer = peer, cs_last_heard = ch_last_heard h, cs_module = ch_module h,
        cs_client_callsign = ss_client_callsign (ch_session h), cs_client_module = ss_client_module (ch_session h),
        cs_access = ch_access h, cs_send_failure_count = ch_send_failure_count h\<rparr>) (ps_clients st)"

definition get_or_try_update ::
  "SocketAddr \<Rightarrow> 'f ClientHandle \<Rightarrow> ('f ClientHandle \<Rightarrow> ('e + 'r) \<times> 'f ClientHandle) \<Rightarrow> 'f PoolState \<Rightarrow>
     ('e + 'r) \<times> 'f PoolState" where
  "get_or_try_update peer new_handle operation st =
     (let created = (hm_get (ps_clients st) peer = None);
          handle = (case hm_get (ps_clients st) peer of None \<Rightarrow> new_handle | Some h \<Rightarrow> h);
          previous = ch_module handle;
          (result, handle) = operation handle;
          st = st\<lparr>ps_clients := hm_insert peer handle (ps_clients st)\<rparr>;
          current = ch_module handle;
          closed = (state_kind (ch_session handle) = SK_Closed)
      in if closed \<or> (created \<and> isl result)
         then (result, remove_membership peer previous (st\<lparr>ps_clients := hm_remove peer (ps_clients st)\<rparr>))
         else if created \<or> previous \<noteq> current
         then (result, add_membership peer current (remove_membership peer previous st))
         else (result, st))"

section \<open>The registry an endpoint relies on\<close>

text \<open>Clients under their addresses, an index of the members of each module that is exact, and
  their number. Storing one client respects both capacity limits when the caller checked them.\<close>

locale client_registry =
  fixes inv :: "'s \<Rightarrow> bool"
    and lookup :: "'s \<Rightarrow> 'p \<Rightarrow> 'h option"
    and placed :: "'h \<Rightarrow> 'm option"
    and members :: "'m \<Rightarrow> 's \<Rightarrow> 'p list"
    and count :: "'s \<Rightarrow> nat"
  assumes members_exact: "inv s \<Longrightarrow> p \<in> set (members m s) \<longleftrightarrow> (\<exists>h. lookup s p = Some h \<and> placed h = Some m)"
    and members_distinct: "inv s \<Longrightarrow> distinct (members m s)"
    and count_exact: "inv s \<Longrightarrow> finite (dom (lookup s)) \<and> count s = card (dom (lookup s))"
begin

lemma count_store:
  assumes "inv s" "inv s'" "lookup s' = (lookup s)(p := v)"
  shows "count s' \<le> (if lookup s p = None \<and> v \<noteq> None then Suc (count s) else count s)"
proof -
  have fin: "finite (dom (lookup s))" using count_exact [OF assms(1)] by simp
  have "card (dom (lookup s')) \<le> (if lookup s p = None \<and> v \<noteq> None then Suc (card (dom (lookup s))) else card (dom (lookup s)))"
  proof (cases v)
    case None
    then show ?thesis using assms(3) fin by (auto intro: card_mono)
  next
    case (Some h)
    then show ?thesis using assms(3) fin by (auto simp: card_insert_if domIff)
  qed
  then show ?thesis using count_exact [OF assms(1)] count_exact [OF assms(2)] by (simp split: if_splits)
qed

lemma members_store:
  assumes "inv s" "inv s'" "lookup s' = (lookup s)(p := v)" "length (members m s) \<le> cap"
    "\<And>h. v = Some h \<Longrightarrow> placed h = Some m \<Longrightarrow> p \<in> set (members m s) \<or> length (members m s) < cap"
  shows "length (members m s') \<le> cap"
proof -
  have sub: "set (members m s') \<subseteq> (if \<exists>h. v = Some h \<and> placed h = Some m then insert p (set (members m s)) else set (members m s))"
    using assms(3) by (auto simp: members_exact [OF assms(1)] members_exact [OF assms(2)] split: if_splits)
  have "card (set (members m s')) \<le> cap"
  proof (cases "\<exists>h. v = Some h \<and> placed h = Some m")
    case True
    then have "card (set (members m s')) \<le> card (insert p (set (members m s)))" using sub by (auto intro: card_mono)
    also have "\<dots> \<le> cap"
      using True assms(4,5) distinct_card [OF members_distinct [OF assms(1)], of m]
      by (auto simp: card_insert_if)
    finally show ?thesis .
  next
    case False
    have "card (set (members m s')) \<le> card (set (members m s))" using sub unfolding if_not_P [OF False] by (intro card_mono) auto
    then show ?thesis using assms(4) distinct_card [OF members_distinct [OF assms(1)], of m] by simp
  qed
  then show ?thesis using distinct_card [OF members_distinct [OF assms(2)], of m] by simp
qed

definition within :: "nat \<Rightarrow> nat \<Rightarrow> 's \<Rightarrow> bool" where
  "within all_max module_max s \<longleftrightarrow> inv s \<and> count s \<le> all_max \<and> (\<forall>m. length (members m s) \<le> module_max)"

lemma within_store:
  assumes "within all_max module_max s" "inv s'" "lookup s' = (lookup s)(p := v)"
    "v \<noteq> None \<Longrightarrow> lookup s p = None \<Longrightarrow> count s < all_max"
    "\<And>h m. v = Some h \<Longrightarrow> placed h = Some m \<Longrightarrow> p \<in> set (members m s) \<or> length (members m s) < module_max"
  shows "within all_max module_max s'"
  using assms count_store [OF _ assms(2,3)] members_store [OF _ assms(2,3)]
  by (fastforce simp: within_def split: if_splits)

lemma within_forget:
  assumes "within all_max module_max s" "inv s'" "lookup s' = (lookup s)(p := None)"
  shows "within all_max module_max s'"
  using within_store [OF assms] by simp

lemma within_keep:
  assumes "within all_max module_max s" "inv s'" "lookup s' = (lookup s)(p := v)"
    "\<And>h'. v = Some h' \<Longrightarrow> \<exists>h. lookup s p = Some h \<and> placed h = placed h'"
  shows "within all_max module_max s'"
proof (rule within_store [OF assms(1-3)])
  have "inv s" using assms(1) by (simp add: within_def)
  then show "p \<in> set (members m s) \<or> length (members m s) < module_max" if "v = Some h'" "placed h' = Some m" for h' m
    using that assms(4) [OF that(1)] by (auto simp: members_exact)
qed (use assms(4) in auto)

end

text \<open>The pool implements it: the index describes the primary map, and each client is stored under
  the address its session was made for.\<close>

definition client_at :: "'f PoolState \<Rightarrow> SocketAddr \<Rightarrow> 'f ClientHandle option" where
  "client_at st p = hm_get (ps_clients st) p"

definition listed :: "(DstarModule, SocketAddr list) hashmap \<Rightarrow> DstarModule \<Rightarrow> SocketAddr list" where
  "listed idx m = (case hm_get idx m of None \<Rightarrow> [] | Some ms \<Rightarrow> ms)"

definition index_ok :: "(SocketAddr \<Rightarrow> DstarModule option) \<Rightarrow> (DstarModule, SocketAddr list) hashmap \<Rightarrow> bool" where
  "index_ok place idx \<longleftrightarrow> hm_wf idx \<and> (\<forall>m. hm_get idx m \<noteq> Some []) \<and> (\<forall>m. distinct (listed idx m)) \<and>
     (\<forall>m p. p \<in> set (listed idx m) \<longleftrightarrow> place p = Some m)"

definition pool_inv :: "'f PoolState \<Rightarrow> bool" where
  "pool_inv st \<longleftrightarrow> hm_wf (ps_clients st) \<and>
     (\<forall>p h. client_at st p = Some h \<longrightarrow> ss_peer (ch_session h) = p) \<and>
     index_ok (\<lambda>p. module_of p st) (ps_by_module st)"

lemma module_of_client: "module_of p st = (case client_at st p of None \<Rightarrow> None | Some h \<Rightarrow> ch_module h)"
  by (simp add: module_of_def client_at_def split: option.split)

lemma members_listed: "members_of_module m st = listed (ps_by_module st) m"
  by (simp add: members_of_module_def listed_def)

interpretation pool: client_registry pool_inv client_at ch_module members_of_module pool_len
proof unfold_locales
  fix st :: "'f PoolState" and p m
  assume inv: "pool_inv st"
  show "p \<in> set (members_of_module m st) \<longleftrightarrow> (\<exists>h. client_at st p = Some h \<and> ch_module h = Some m)"
    using inv by (simp add: pool_inv_def index_ok_def members_listed module_of_client split: option.split)
  show "distinct (members_of_module m st)"
    using inv by (simp add: pool_inv_def index_ok_def members_listed)
  have "client_at st = map_of (ps_clients st)" by (rule ext) (simp add: client_at_def hm_get_def)
  then have "dom (client_at st) = set (map fst (ps_clients st))" by (simp add: dom_map_of_conv_image_fst)
  then show "finite (dom (client_at st)) \<and> pool_len st = card (dom (client_at st))"
    using inv distinct_card [of "map fst (ps_clients st)"]
    by (simp add: pool_inv_def pool_len_def hm_len_def hm_wf_def del: set_map)
qed

section \<open>Every transaction keeps the index exact\<close>

lemma index_ok_update: "index_ok f idx \<Longrightarrow> f p = v \<Longrightarrow> index_ok (f(p := v)) idx"
  by (metis fun_upd_triv)

lemma remove_membership_index:
  assumes "index_ok place (ps_by_module st)" "place p = m"
  shows "index_ok (place(p := None)) (ps_by_module (remove_membership p m st))"
proof (cases m)
  case None
  then show ?thesis using assms by (simp add: remove_membership_def index_ok_update)
next
  case (Some md)
  let ?idx = "ps_by_module st" and ?ms = "removeAll p (listed (ps_by_module st) md)"
  have ok: "hm_wf ?idx" "\<And>m'. hm_get ?idx m' \<noteq> Some []" "\<And>m'. distinct (listed ?idx m')"
    "\<And>m' q. q \<in> set (listed ?idx m') \<longleftrightarrow> place q = Some m'"
    using assms(1) by (auto simp: index_ok_def)
  have "p \<in> set (listed ?idx md)" using ok(4) assms(2) Some by simp
  then have "hm_get ?idx md = Some (listed ?idx md)" by (cases "hm_get ?idx md") (simp_all add: listed_def)
  then have st: "ps_by_module (remove_membership p (Some md) st) =
      (if ?ms = [] then hm_remove md ?idx else hm_insert md ?ms ?idx)"
    by (simp add: remove_membership_def Let_def)
  have "listed (ps_by_module (remove_membership p (Some md) st)) m' = (if m' = md then ?ms else listed ?idx m')" for m'
    using ok(1) by (simp add: st listed_def hm.lookup_insert hm.lookup_remove)
  then show ?thesis
    using ok assms(2) Some unfolding index_ok_def
    by (auto simp: st hm.wf_insert hm.wf_remove hm.lookup_insert hm.lookup_remove distinct_removeAll)
qed

lemma add_membership_index:
  assumes "index_ok place (ps_by_module st)" "place p = None"
  shows "index_ok (place(p := m)) (ps_by_module (add_membership p m st))"
proof (cases m)
  case None
  then show ?thesis using assms by (simp add: add_membership_def index_ok_update)
next
  case (Some md)
  let ?idx = "ps_by_module st" and ?ms = "List.insert p (listed (ps_by_module st) md)"
  have st: "ps_by_module (add_membership p (Some md) st) = hm_insert md ?ms ?idx"
    by (simp add: add_membership_def listed_def Let_def)
  have "listed (ps_by_module (add_membership p (Some md) st)) m' = (if m' = md then ?ms else listed ?idx m')" for m'
    by (simp add: st listed_def hm.lookup_insert)
  moreover have "?ms \<noteq> []" by (auto simp: List.insert_def)
  ultimately show ?thesis
    using assms Some unfolding index_ok_def by (auto simp: st hm.wf_insert hm.lookup_insert)
qed

lemma membership_clients [simp]:
  "ps_clients (remove_membership p m st) = ps_clients st" "ps_clients (add_membership p m st) = ps_clients st"
  by (simp_all add: remove_membership_def add_membership_def Let_def split: option.split)

lemma membership_client_at [simp]:
  "client_at (remove_membership p m st) = client_at st" "client_at (add_membership p m st) = client_at st"
  by (simp_all add: client_at_def fun_eq_iff)

lemma membership_store [simp]:
  "ps_by_module (remove_membership p m (st\<lparr>ps_clients := cs\<rparr>)) = ps_by_module (remove_membership p m st)"
  by (simp add: remove_membership_def Let_def split: option.split)

text \<open>The pool after a transaction, seen through \<open>client_at\<close>: only the peer's entry changes.\<close>

lemma client_at_store [simp]:
  "client_at (st\<lparr>ps_clients := hm_insert p h (ps_clients st)\<rparr>) = (client_at st)(p := Some h)"
  by (auto simp: client_at_def hm.lookup_insert)

lemma client_at_remove:
  "pool_inv st \<Longrightarrow> client_at (st\<lparr>ps_clients := hm_remove p (ps_clients st)\<rparr>) = (client_at st)(p := None)"
  by (auto simp: client_at_def pool_inv_def hm.lookup_remove)

lemma pool_inv_change:
  assumes "pool_inv st" "client_at st' = (client_at st)(p := v)" "hm_wf (ps_clients st')"
    "\<And>h. v = Some h \<Longrightarrow> ss_peer (ch_session h) = p"
    "index_ok ((\<lambda>q. module_of q st)(p := Option.bind v ch_module)) (ps_by_module st')"
  shows "pool_inv st'"
proof -
  have "(\<lambda>q. module_of q st') = (\<lambda>q. module_of q st)(p := Option.bind v ch_module)"
    using assms(2) by (auto simp: module_of_client split: option.splits)
  then show ?thesis using assms by (auto simp: pool_inv_def)
qed

lemma pool_new [simp]: "pool_inv ClientPool_new" "client_at ClientPool_new p = None" "pool_len ClientPool_new = 0"
  "members_of_module m ClientPool_new = []"
  by (simp_all add: pool_inv_def ClientPool_new_def client_at_def hm_get_def hm_wf_def index_ok_def listed_def
      module_of_def pool_len_def hm_len_def members_of_module_def)

lemma update_handle_pool:
  assumes "pool_inv st" "\<And>h. ss_peer (ch_session (f h)) = ss_peer (ch_session h) \<and> ch_module (f h) = ch_module h"
  shows "client_at (update_handle p f st) = (client_at st)(p := map_option f (client_at st p)) \<and>
    pool_inv (update_handle p f st)"
proof (cases "client_at st p")
  case None
  then show ?thesis using assms(1) by (auto simp: update_handle_def client_at_def)
next
  case (Some h)
  then have eq: "update_handle p f st = st\<lparr>ps_clients := hm_insert p (f h) (ps_clients st)\<rparr>"
    by (simp add: update_handle_def client_at_def)
  have at: "client_at (update_handle p f st) = (client_at st)(p := Some (f h))" by (simp add: eq)
  moreover have "pool_inv (update_handle p f st)"
  proof (rule pool_inv_change [OF assms(1) at])
    have "module_of p st = ch_module (f h)" using Some assms(2) by (simp add: module_of_client)
    then show "index_ok ((\<lambda>q. module_of q st)(p := Option.bind (Some (f h)) ch_module)) (ps_by_module (update_handle p f st))"
      using assms(1) by (simp add: eq pool_inv_def index_ok_update)
  qed (use assms Some in \<open>auto simp: eq pool_inv_def hm.wf_insert\<close>)
  ultimately show ?thesis using Some by simp
qed

lemma pool_remove_pool:
  assumes "pool_inv st"
  shows "client_at (snd (pool_remove p st)) = (client_at st)(p := None) \<and> pool_inv (snd (pool_remove p st))"
proof (cases "client_at st p")
  case None
  then show ?thesis using assms by (auto simp: pool_remove_def client_at_def)
next
  case (Some h)
  then have eq: "snd (pool_remove p st) = remove_membership p (ch_module h) (st\<lparr>ps_clients := hm_remove p (ps_clients st)\<rparr>)"
    by (simp add: pool_remove_def client_at_def)
  have at: "client_at (snd (pool_remove p st)) = (client_at st)(p := None)" by (simp add: eq client_at_remove [OF assms])
  have "index_ok ((\<lambda>q. module_of q st)(p := None)) (ps_by_module (snd (pool_remove p st)))"
    using remove_membership_index [of "\<lambda>q. module_of q st" st p] assms Some
    by (simp add: eq pool_inv_def module_of_client)
  then show ?thesis using at pool_inv_change [OF assms at] assms by (simp add: eq pool_inv_def hm.wf_remove)
qed

text \<open>The transaction of the endpoint: what it stores, and that it keeps the pool consistent.\<close>

definition handle_or :: "'f ClientHandle \<Rightarrow> SocketAddr \<Rightarrow> 'f PoolState \<Rightarrow> 'f ClientHandle" where
  "handle_or h p st = (case client_at st p of None \<Rightarrow> h | Some h' \<Rightarrow> h')"

definition kept :: "('e + 'r) \<times> 'f ClientHandle \<Rightarrow> SocketAddr \<Rightarrow> 'f PoolState \<Rightarrow> 'f ClientHandle option" where
  "kept outcome p st =
     (if ss_state (ch_session (snd outcome)) = SI_Closed \<or> (client_at st p = None \<and> isl (fst outcome))
      then None else Some (snd outcome))"

lemma state_kind_closed: "state_kind s = SK_Closed \<longleftrightarrow> ss_state s = SI_Closed"
  by (cases "ss_state s") (simp_all add: state_kind_def InternalState_kind_def)

lemma get_or_try_update_pool:
  assumes "pool_inv st" "ch_module new_handle = None"
    "ss_peer (ch_session (snd (operation (handle_or new_handle p st)))) = p"
    "get_or_try_update p new_handle operation st = (r, st')"
  shows "r = fst (operation (handle_or new_handle p st)) \<and>
    client_at st' = (client_at st)(p := kept (operation (handle_or new_handle p st)) p st) \<and> pool_inv st'"
proof -
  obtain res h where op: "operation (handle_or new_handle p st) = (res, h)" by (cases "operation (handle_or new_handle p st)")
  let ?prev = "ch_module (handle_or new_handle p st)" and ?put = "st\<lparr>ps_clients := hm_insert p h (ps_clients st)\<rparr>"
  have prev: "module_of p st = ?prev" using assms(2) by (simp add: module_of_client handle_or_def split: option.split)
  have idx: "index_ok (\<lambda>q. module_of q st) (ps_by_module st)" "hm_wf (ps_clients st)" using assms(1) by (auto simp: pool_inv_def)
  have res: "r = res" and st': "st' =
      (if ss_state (ch_session h) = SI_Closed \<or> (client_at st p = None \<and> isl res)
       then remove_membership p ?prev (?put\<lparr>ps_clients := hm_remove p (ps_clients ?put)\<rparr>)
       else if client_at st p = None \<or> ?prev \<noteq> ch_module h then add_membership p (ch_module h) (remove_membership p ?prev ?put)
       else ?put)"
    using assms(4) op unfolding get_or_try_update_def state_kind_closed handle_or_def client_at_def
    by (auto simp: Let_def split: if_splits option.splits)
  let ?v = "kept (res, h) p st"
  have removed: "index_ok ((\<lambda>q. module_of q st)(p := None)) (ps_by_module (remove_membership p ?prev st))"
    by (rule remove_membership_index [OF idx(1) prev])
  have at: "client_at st' = (client_at st)(p := ?v)"
    unfolding st' kept_def by (auto simp: client_at_def hm.lookup_insert hm.lookup_remove hm.wf_insert idx(2))
  moreover have "pool_inv st'"
  proof (rule pool_inv_change [OF assms(1) at])
    show "hm_wf (ps_clients st')" unfolding st' using idx(2) by (simp add: hm.wf_insert hm.wf_remove)
    show "index_ok ((\<lambda>q. module_of q st)(p := Option.bind ?v ch_module)) (ps_by_module st')"
    proof (cases "?v")
      case None
      then show ?thesis using removed by (auto simp: st' kept_def split: if_splits)
    next
      case (Some h')
      then have h': "h' = h" by (simp add: kept_def split: if_splits)
      have "index_ok ((\<lambda>q. module_of q st)(p := ch_module h)) (ps_by_module (add_membership p (ch_module h) (remove_membership p ?prev ?put)))"
        using add_membership_index [of "(\<lambda>q. module_of q st)(p := None)" "remove_membership p ?prev ?put" p "ch_module h"] removed
        by simp
      then show ?thesis
        using Some h' prev index_ok_update [OF idx(1) prev] by (auto simp: st' kept_def split: if_splits)
    qed
  qed (use assms(3) op in \<open>auto simp: kept_def split: if_splits\<close>)
  ultimately show ?thesis by (simp add: res op)
qed

end
