(* ===== verification/Reflector_Endpoint.thy ===== *)
theory Reflector_Endpoint
  imports Reflector_Pool
begin

text \<open>
  One protocol endpoint of the reflector: \<open>tokio_shell/endpoint.rs\<close> with the re-encoding of
  \<open>transcode.rs\<close> and the recipient pass of \<open>fanout.rs\<close>, all of \<open>dstar-gateway-server/src\<close>. Each
  method is a function on the endpoint's state; the \<open>transaction\<close> mutex makes an inbound datagram,
  a maintenance sweep and a bus event one step each, and the remaining awaits only take locks. The
  voice bus is the list of the events sent to it. What the socket answers to a send is an argument.
  Logging is left out, and so are the \<open>ShellError\<close> values that only task and socket code produces.
\<close>

unbundle bit_operations_syntax

section \<open>Voice events and re-encoding\<close>

datatype VoiceEvent =
    VE_StreamStart DstarHeader StreamId
  | VE_Frame StreamId FrameSequence VoiceFrame
  | VE_StreamEnd StreamId FrameSequence

record CrossProtocolEvent =
  xe_source_protocol :: ProtocolKind
  xe_source_peer :: SocketAddr
  xe_module :: DstarModule
  xe_event :: VoiceEvent
  xe_cached_header :: "DstarHeader option"

datatype TranscodeError = TE_Encode EncodeError | TE_MissingCachedHeader | TE_UnsupportedProtocol ProtocolKind

text \<open>The conversion that \<open>?\<close> applies to an encoder's error.\<close>

definition transcoded :: "(EncodeError + nat) \<times> bytes \<Rightarrow> (TranscodeError + nat) \<times> bytes" where
  "transcoded r = apfst (map_sum TE_Encode id) r"

definition transcode_dextra :: "VoiceEvent \<Rightarrow> bytes \<Rightarrow> (TranscodeError + nat) \<times> bytes" where
  "transcode_dextra event out = (case event of
      VE_StreamStart header stream_id \<Rightarrow> transcoded (dextra_encode_voice_header out stream_id header)
    | VE_Frame stream_id seq frame \<Rightarrow> transcoded (dextra_encode_voice_data out stream_id seq frame)
    | VE_StreamEnd stream_id seq \<Rightarrow> transcoded (dextra_encode_voice_eot out stream_id seq))"

definition transcode_dplus :: "VoiceEvent \<Rightarrow> bytes \<Rightarrow> (TranscodeError + nat) \<times> bytes" where
  "transcode_dplus event out = (case event of
      VE_StreamStart header stream_id \<Rightarrow> transcoded (dplus_encode_voice_header out stream_id header)
    | VE_Frame stream_id seq frame \<Rightarrow> transcoded (dplus_encode_voice_data out stream_id seq frame)
    | VE_StreamEnd stream_id seq \<Rightarrow> transcoded (dplus_encode_voice_eot out stream_id seq))"

definition transcode_dcs :: "VoiceEvent \<Rightarrow> DstarHeader option \<Rightarrow> bytes \<Rightarrow> (TranscodeError + nat) \<times> bytes" where
  "transcode_dcs event cached_header out = (case event of
      VE_StreamStart _ _ \<Rightarrow> (Ok 0, out)
    | VE_Frame stream_id seq frame \<Rightarrow>
        (case cached_header of
           None \<Rightarrow> (Err TE_MissingCachedHeader, out)
         | Some header \<Rightarrow> transcoded (dcs_encode_voice out header stream_id seq frame False))
    | VE_StreamEnd stream_id seq \<Rightarrow>
        (case cached_header of
           None \<Rightarrow> (Err TE_MissingCachedHeader, out)
         | Some header \<Rightarrow> transcoded (dcs_encode_voice out header stream_id seq VoiceFrame_silence True)))"

definition transcode_voice ::
  "ProtocolKind \<Rightarrow> VoiceEvent \<Rightarrow> DstarHeader option \<Rightarrow> bytes \<Rightarrow> (TranscodeError + nat) \<times> bytes" where
  "transcode_voice target event cached_header out = (case target of
      PK_DExtra \<Rightarrow> transcode_dextra event out
    | PK_DPlus \<Rightarrow> transcode_dplus event out
    | PK_Dcs \<Rightarrow> transcode_dcs event cached_header out)"

definition voice_event_from_server_event :: "ServerEvent \<Rightarrow> FrameSequence option \<Rightarrow> VoiceEvent option" where
  "voice_event_from_server_event ev end_sequence = (case ev of
      ClientStreamStarted _ stream_id header \<Rightarrow> Some (VE_StreamStart header stream_id)
    | ClientStreamFrame _ stream_id seq frame \<Rightarrow>
        (case FrameSequence_new seq of None \<Rightarrow> None | Some seq \<Rightarrow> Some (VE_Frame stream_id seq frame))
    | ClientStreamEnded _ stream_id \<Rightarrow>
        (case end_sequence of None \<Rightarrow> None | Some seq \<Rightarrow> Some (VE_StreamEnd stream_id seq))
    | _ \<Rightarrow> None)"

fun VoiceEvent_stream_id :: "VoiceEvent \<Rightarrow> StreamId" where
  "VoiceEvent_stream_id (VE_StreamStart _ stream_id) = stream_id"
| "VoiceEvent_stream_id (VE_Frame stream_id _ _) = stream_id"
| "VoiceEvent_stream_id (VE_StreamEnd stream_id _) = stream_id"

section \<open>State, settings and outcomes\<close>

datatype ForwardHint =
    FH_Header DstarModule StreamId
  | FH_Data DstarModule StreamId
  | FH_Eot DstarModule StreamId

record EndpointOutcome =
  eo_txs :: "(bytes \<times> SocketAddr) list"
  eo_events :: "ServerEvent list"
  eo_header_retransmit :: "bytes option"
  eo_forward :: "ForwardHint option"

record VoiceRoute =
  vr_module :: DstarModule
  vr_stream_id :: StreamId

definition EndpointOutcome_new :: EndpointOutcome where
  "EndpointOutcome_new = \<lparr>eo_txs = [], eo_events = [], eo_header_retransmit = None, eo_forward = None\<rparr>"

fun hint_parts :: "ForwardHint \<Rightarrow> DstarModule \<times> StreamId" where
  "hint_parts (FH_Header m s) = (m, s)"
| "hint_parts (FH_Data m s) = (m, s)"
| "hint_parts (FH_Eot m s) = (m, s)"

definition voice_route :: "EndpointOutcome \<Rightarrow> VoiceRoute option" where
  "voice_route outcome = (case eo_forward outcome of
      None \<Rightarrow> None
    | Some hint \<Rightarrow> (case hint_parts hint of (m, s) \<Rightarrow> Some \<lparr>vr_module = m, vr_stream_id = s\<rparr>))"

datatype ShellError =
    Shell_AlreadyRunning
  | Shell_DeadlineOverflow duration
  | Shell_Core Error
  | Shell_UnsupportedProtocol ProtocolKind

record 'f EndpointSettings =
  es_reflector_callsign :: DstarCallsign
  es_tx_rate_limit :: "'f FrameRate"
  es_max_total_clients :: nat
  es_max_clients_per_module :: nat
  es_keepalive_interval :: duration
  es_keepalive_inactivity_timeout :: duration
  es_voice_inactivity_timeout :: duration

record 'f ProtocolEndpoint =
  ep_arith :: "'f F64"
  ep_protocol :: ProtocolKind
  ep_clients :: "'f PoolState"
  ep_default_module :: DstarModule
  ep_configured_modules :: "DstarModule list"
  ep_stream_cache :: "(DstarModule, StreamCache) hashmap"
  ep_authorizer :: ClientAuthorizer
  ep_pending_events :: "ServerEvent list"
  ep_voice_bus :: "CrossProtocolEvent list option"
  ep_settings :: "'f EndpointSettings"
  ep_last_keepalive_sent :: "instant option"

text \<open>The constructor's assertion that the default module is configured is the guard of the
  caller, who passes the least configured module.\<close>

definition ProtocolEndpoint_new ::
  "'f F64 \<Rightarrow> ProtocolKind \<Rightarrow> DstarModule \<Rightarrow> ClientAuthorizer \<Rightarrow> CrossProtocolEvent list option \<Rightarrow>
     'f EndpointSettings \<Rightarrow> DstarModule list \<Rightarrow> 'f ProtocolEndpoint option" where
  "ProtocolEndpoint_new fl protocol default_module authorizer voice_bus settings configured_modules =
     (if default_module \<notin> set configured_modules then None
      else Some \<lparr>ep_arith = fl, ep_protocol = protocol, ep_clients = ClientPool_new, ep_default_module = default_module,
        ep_configured_modules = configured_modules, ep_stream_cache = [], ep_authorizer = authorizer,
        ep_pending_events = [], ep_voice_bus = voice_bus, ep_settings = settings, ep_last_keepalive_sent = None\<rparr>)"

section \<open>Admission\<close>

definition link_capacity_reject :: "SocketAddr \<Rightarrow> DstarModule \<Rightarrow> 'f ProtocolEndpoint \<Rightarrow> RejectReason option" where
  "link_capacity_reject peer m ep =
     (if module_of peer (ep_clients ep) = Some m then None
      else if \<not> pool_contains peer (ep_clients ep) \<and> es_max_total_clients (ep_settings ep) \<le> pool_len (ep_clients ep)
      then Some RR_Busy
      else if es_max_clients_per_module (ep_settings ep) \<le> length (members_of_module m (ep_clients ep))
      then Some RR_MaxClients
      else None)"

definition authorize_link ::
  "SocketAddr \<Rightarrow> DstarCallsign \<Rightarrow> DstarModule \<Rightarrow> 'f ProtocolEndpoint \<Rightarrow> RejectReason + AccessPolicy" where
  "authorize_link peer callsign m ep =
     (if m \<notin> set (ep_configured_modules ep) then Err RR_UnknownModule
      else case ep_authorizer ep \<lparr>la_protocol = ep_protocol ep, la_callsign = callsign, la_peer = peer, la_module = m\<rparr> of
             Err reject \<Rightarrow> Err reject
           | Ok access \<Rightarrow>
               (case link_capacity_reject peer m ep of Some reject \<Rightarrow> Err reject | None \<Rightarrow> Ok access))"

definition rejected_outcome :: "SocketAddr \<Rightarrow> (EncodeError + bytes) option \<Rightarrow> RejectReason \<Rightarrow> EndpointOutcome" where
  "rejected_outcome peer nak reject =
     EndpointOutcome_new\<lparr>eo_txs := (case nak of Some (Ok payload) \<Rightarrow> [(payload, peer)] | _ \<Rightarrow> []),
       eo_events := [ClientRejected peer (ClientRejectedReason_from reject)]\<rparr>"

definition build_dextra_reject_outcome ::
  "SocketAddr \<Rightarrow> DstarCallsign \<Rightarrow> DstarModule \<Rightarrow> DstarModule \<Rightarrow> RejectReason \<Rightarrow> EndpointOutcome" where
  "build_dextra_reject_outcome peer callsign client_module reflector_module reject =
     rejected_outcome peer
       (case RoutingCallsign_try_from callsign of
          Err _ \<Rightarrow> None
        | Ok routing \<Rightarrow> Some (encoded 16 (\<lambda>buf. dextra_encode_connect_nak buf
            \<lparr>ri_callsign = routing, ri_module = client_module\<rparr> (ModuleSlot_Module reflector_module)))) reject"

definition build_dplus_reject_outcome :: "SocketAddr \<Rightarrow> RejectReason \<Rightarrow> EndpointOutcome" where
  "build_dplus_reject_outcome peer reject =
     rejected_outcome peer (Some (encoded 16 (\<lambda>buf. dplus_encode_link2_reply buf Link2_Busy))) reject"

definition build_dcs_reject_outcome ::
  "SocketAddr \<Rightarrow> DstarCallsign \<Rightarrow> DstarModule \<Rightarrow> DstarModule \<Rightarrow> RejectReason \<Rightarrow> EndpointOutcome" where
  "build_dcs_reject_outcome peer callsign client_module reflector_module reject =
     rejected_outcome peer
       (case RoutingCallsign_try_from callsign of
          Err _ \<Rightarrow> None
        | Ok routing \<Rightarrow> Some (encoded 32 (\<lambda>buf. dcs_encode_connect_nak buf
            \<lparr>ri_callsign = routing, ri_module = client_module\<rparr> (ModuleSlot_Module reflector_module)))) reject"

section \<open>Driving a session\<close>

definition outcome_linked :: "EndpointOutcome \<Rightarrow> bool" where
  "outcome_linked outcome \<longleftrightarrow>
     list_ex (\<lambda>event. case event of ClientLinked _ _ _ \<Rightarrow> True | _ \<Rightarrow> False) (eo_events outcome)"

definition dplus_link2_was_accepted :: "EndpointOutcome \<Rightarrow> bool" where
  "dplus_link2_was_accepted outcome =
     (case encoded 16 (\<lambda>buf. dplus_encode_link2_reply buf Link2_Accept) of
        Err _ \<Rightarrow> False
      | Ok expected \<Rightarrow> list_ex (\<lambda>(payload, _). payload = expected) (eo_txs outcome))"

text \<open>The two draining loops; the first argument bounds the iterations by what is queued.\<close>

fun drain_transmits :: "nat \<Rightarrow> instant \<Rightarrow> ServerSessionCore \<Rightarrow> (bytes \<times> SocketAddr) list \<times> ServerSessionCore" where
  "drain_transmits 0 now s = ([], s)"
| "drain_transmits (Suc n) now s =
     (case server_pop_transmit now s of
        (None, s) \<Rightarrow> ([], s)
      | (Some tx, s) \<Rightarrow> apfst ((#) (tx_payload tx, tx_dst tx)) (drain_transmits n now s))"

definition note_link :: "ServerEvent \<Rightarrow> 'f ClientHandle \<Rightarrow> 'f ClientHandle" where
  "note_link ev h = (case ev of
      ClientLinked _ _ m \<Rightarrow> h\<lparr>ch_module := Some m\<rparr>
    | ClientUnlinked _ \<Rightarrow> h\<lparr>ch_module := None\<rparr>
    | _ \<Rightarrow> h)"

fun drain_events :: "nat \<Rightarrow> ProtocolKind \<Rightarrow> 'f ClientHandle \<Rightarrow> ServerEvent list \<times> 'f ClientHandle" where
  "drain_events 0 kind h = ([], h)"
| "drain_events (Suc n) kind h =
     (case server_pop_event kind (ch_session h) of
        (None, s) \<Rightarrow> ([], h\<lparr>ch_session := s\<rparr>)
      | (Some ev, s) \<Rightarrow> apfst ((#) ev) (drain_events n kind (note_link ev (h\<lparr>ch_session := s\<rparr>))))"

definition drive_handle ::
  "ProtocolKind \<Rightarrow> bytes \<Rightarrow> instant \<Rightarrow> AccessPolicy option \<Rightarrow> 'f ClientHandle \<Rightarrow> (ShellError + EndpointOutcome) \<times> 'f ClientHandle" where
  "drive_handle protocol bs now pending_access h =
     (case server_handle_input now bs (ch_session h) of
        (Err e, s) \<Rightarrow> (Err (Shell_Core e), h\<lparr>ch_session := s\<rparr>)
      | (Ok _, s) \<Rightarrow>
          (let (txs, s) = drain_transmits (length (waiting (ss_outbox s))) now s;
               (events, h) = drain_events (length (ss_events s)) protocol (h\<lparr>ch_session := s\<rparr>);
               outcome = EndpointOutcome_new\<lparr>eo_txs := txs, eo_events := events\<rparr>;
               h = h\<lparr>ch_last_heard := max (ch_last_heard h) now\<rparr>;
               h = (case pending_access of
                      None \<Rightarrow> h
                    | Some access \<Rightarrow>
                        (let accepted = (case protocol of
                               PK_DPlus \<Rightarrow> dplus_link2_was_accepted outcome
                             | PK_DExtra \<Rightarrow> outcome_linked outcome
                             | PK_Dcs \<Rightarrow> outcome_linked outcome)
                         in if accepted then h\<lparr>ch_access := access\<rparr> else h))
           in (Ok outcome, h)))"

definition drive_core ::
  "SocketAddr \<Rightarrow> bytes \<Rightarrow> instant \<Rightarrow> DstarModule \<Rightarrow> AccessPolicy option \<Rightarrow> 'f ProtocolEndpoint \<Rightarrow>
     (ShellError + EndpointOutcome) \<times> 'f ProtocolEndpoint" where
  "drive_core peer bs now initial_module pending_access ep =
     (let new_handle = with_tx_budget (TokenBucket_from_rate (ep_arith ep) (es_tx_rate_limit (ep_settings ep)) now)
            (ClientHandle_new (ep_arith ep) (ep_protocol ep) peer initial_module ReadOnly now);
          (result, clients) = get_or_try_update peer new_handle (drive_handle (ep_protocol ep) bs now pending_access) (ep_clients ep)
      in (result, ep\<lparr>ep_clients := clients\<rparr>))"

section \<open>Voice selection, stream cache and publication\<close>

text \<open>The loop over the events returns at the first voice event.\<close>

fun forward_hint :: "ServerEvent list \<Rightarrow> DstarModule option \<Rightarrow> ForwardHint option" where
  "forward_hint events None = None"
| "forward_hint [] (Some m) = None"
| "forward_hint (ev # evs) (Some m) = (case ev of
      ClientStreamStarted _ stream_id _ \<Rightarrow> Some (FH_Header m stream_id)
    | ClientStreamFrame _ stream_id _ _ \<Rightarrow> Some (FH_Data m stream_id)
    | ClientStreamEnded _ stream_id \<Rightarrow> Some (FH_Eot m stream_id)
    | _ \<Rightarrow> forward_hint evs (Some m))"

definition local_source :: "SocketAddr \<Rightarrow> 'f ProtocolEndpoint \<Rightarrow> StreamSource" where
  "local_source peer ep = \<lparr>src_protocol = ep_protocol ep, src_peer = peer\<rparr>"

definition select_voice_hint :: "ServerEvent list \<Rightarrow> SocketAddr \<Rightarrow> 'f ProtocolEndpoint \<Rightarrow> ForwardHint option" where
  "select_voice_hint events peer ep =
     (case forward_hint events (module_of peer (ep_clients ep)) of
        None \<Rightarrow> None
      | Some hint \<Rightarrow>
          (let (m, stream_id) = hint_parts hint;
               is_start = (case hint of FH_Header _ _ \<Rightarrow> True | _ \<Rightarrow> False);
               selected = (case hm_get (ep_stream_cache ep) m of
                   None \<Rightarrow> is_start
                 | Some entry \<Rightarrow> cache_matches (local_source peer ep) stream_id entry)
           in if selected then Some hint else None))"

definition module_cached_header_of_peer :: "SocketAddr \<Rightarrow> 'f ProtocolEndpoint \<Rightarrow> DstarHeader option" where
  "module_cached_header_of_peer peer ep =
     (case module_of peer (ep_clients ep) of
        None \<Rightarrow> None
      | Some m \<Rightarrow> map_option sc_header (hm_get (ep_stream_cache ep) m))"

text \<open>The three arms that the DExtra and the DPlus update have in common.\<close>

definition cache_voice_header ::
  "DstarModule \<Rightarrow> StreamId \<Rightarrow> DstarHeader \<Rightarrow> bytes \<Rightarrow> SocketAddr \<Rightarrow> instant \<Rightarrow> 'f ProtocolEndpoint \<Rightarrow> 'f ProtocolEndpoint" where
  "cache_voice_header m stream_id header bs peer now ep =
     (if is_some_and (hm_get (ep_stream_cache ep) m) (\<lambda>entry. \<not> cache_matches (local_source peer ep) stream_id entry) then ep
      else ep\<lparr>ep_stream_cache :=
             hm_insert m (StreamCache_new_with_bytes stream_id header bs (local_source peer ep) now) (ep_stream_cache ep)\<rparr>)"

definition cache_voice_data ::
  "DstarModule \<Rightarrow> StreamId \<Rightarrow> SocketAddr \<Rightarrow> instant \<Rightarrow> 'f ProtocolEndpoint \<Rightarrow> bytes option \<times> 'f ProtocolEndpoint" where
  "cache_voice_data m stream_id peer now ep =
     (case hm_get (ep_stream_cache ep) m of
        None \<Rightarrow> (None, ep)
      | Some entry \<Rightarrow>
          (if \<not> cache_matches (local_source peer ep) stream_id entry then (None, ep)
           else let entry = record_frame now entry
                in (if should_rebroadcast_header entry then Some (sc_header_bytes entry) else None,
                    ep\<lparr>ep_stream_cache := hm_insert m entry (ep_stream_cache ep)\<rparr>)))"

definition cache_voice_eot ::
  "DstarModule \<Rightarrow> StreamId \<Rightarrow> SocketAddr \<Rightarrow> 'f ProtocolEndpoint \<Rightarrow> 'f ProtocolEndpoint" where
  "cache_voice_eot m stream_id peer ep =
     (if is_some_and (hm_get (ep_stream_cache ep) m) (cache_matches (local_source peer ep) stream_id)
      then ep\<lparr>ep_stream_cache := hm_remove m (ep_stream_cache ep)\<rparr> else ep)"

definition update_stream_cache_dextra ::
  "DExtraClientPacket \<Rightarrow> bytes \<Rightarrow> SocketAddr \<Rightarrow> instant \<Rightarrow> 'f ProtocolEndpoint \<Rightarrow> bytes option \<times> 'f ProtocolEndpoint" where
  "update_stream_cache_dextra pkt bs peer now ep =
     (case module_of peer (ep_clients ep) of
        None \<Rightarrow> (None, ep)
      | Some m \<Rightarrow>
          (case pkt of
             DExtraC_VoiceHeader stream_id header \<Rightarrow> (None, cache_voice_header m stream_id header bs peer now ep)
           | DExtraC_VoiceData stream_id _ _ \<Rightarrow> cache_voice_data m stream_id peer now ep
           | DExtraC_VoiceEot stream_id _ \<Rightarrow> (None, cache_voice_eot m stream_id peer ep)
           | _ \<Rightarrow> (None, ep)))"

definition update_stream_cache_dplus ::
  "DPlusClientPacket \<Rightarrow> bytes \<Rightarrow> SocketAddr \<Rightarrow> instant \<Rightarrow> 'f ProtocolEndpoint \<Rightarrow> bytes option \<times> 'f ProtocolEndpoint" where
  "update_stream_cache_dplus pkt bs peer now ep =
     (case module_of peer (ep_clients ep) of
        None \<Rightarrow> (None, ep)
      | Some m \<Rightarrow>
          (case pkt of
             DPlusC_VoiceHeader stream_id header \<Rightarrow> (None, cache_voice_header m stream_id header bs peer now ep)
           | DPlusC_VoiceData stream_id _ _ \<Rightarrow> cache_voice_data m stream_id peer now ep
           | DPlusC_VoiceEot stream_id _ \<Rightarrow> (None, cache_voice_eot m stream_id peer ep)
           | _ \<Rightarrow> (None, ep)))"

definition update_stream_cache_dcs :: "DcsClientPacket \<Rightarrow> SocketAddr \<Rightarrow> instant \<Rightarrow> 'f ProtocolEndpoint \<Rightarrow> 'f ProtocolEndpoint" where
  "update_stream_cache_dcs pkt peer now ep =
     (case module_of peer (ep_clients ep) of
        None \<Rightarrow> ep
      | Some m \<Rightarrow>
          (case pkt of
             DcsC_Voice header stream_id _ _ is_end \<Rightarrow>
               (case hm_get (ep_stream_cache ep) m of
                  None \<Rightarrow>
                    (if \<not> is_end
                     then ep\<lparr>ep_stream_cache := hm_insert m (StreamCache_new stream_id header (local_source peer ep) now) (ep_stream_cache ep)\<rparr>
                     else ep)
                | Some entry \<Rightarrow>
                    (if \<not> cache_matches (local_source peer ep) stream_id entry then ep
                     else let ep = ep\<lparr>ep_stream_cache := hm_insert m (record_frame now entry) (ep_stream_cache ep)\<rparr>
                          in if is_end then ep\<lparr>ep_stream_cache := hm_remove m (ep_stream_cache ep)\<rparr> else ep))
           | _ \<Rightarrow> ep))"

definition published ::
  "SocketAddr \<Rightarrow> DstarModule \<Rightarrow> DstarHeader option \<Rightarrow> FrameSequence option \<Rightarrow> ServerEvent list \<Rightarrow> 'f ProtocolEndpoint \<Rightarrow>
     CrossProtocolEvent list" where
  "published peer m fallback_header end_sequence events ep =
     (let entry = hm_get (ep_stream_cache ep) m;
          cached_header = (case entry of Some e \<Rightarrow> Some (sc_header e) | None \<Rightarrow> fallback_header);
          tracked_stream = map_option sc_stream_id entry
      in List.map_filter (\<lambda>ev.
           case voice_event_from_server_event ev end_sequence of
             None \<Rightarrow> None
           | Some voice_event \<Rightarrow>
               (if is_some_and tracked_stream (\<lambda>tracked. tracked \<noteq> VoiceEvent_stream_id voice_event) then None
                else Some \<lparr>xe_source_protocol = ep_protocol ep, xe_source_peer = peer, xe_module = m,
                           xe_event = voice_event, xe_cached_header = cached_header\<rparr>)) events)"

definition publish_voice_events ::
  "EndpointOutcome \<Rightarrow> SocketAddr \<Rightarrow> DstarHeader option \<Rightarrow> FrameSequence option \<Rightarrow> 'f ProtocolEndpoint \<Rightarrow> 'f ProtocolEndpoint" where
  "publish_voice_events outcome peer fallback_header end_sequence ep =
     (case (eo_forward outcome, ep_voice_bus ep, module_of peer (ep_clients ep)) of
        (Some _, Some sent, Some m) \<Rightarrow>
          ep\<lparr>ep_voice_bus := Some (sent @ published peer m fallback_header end_sequence (eo_events outcome) ep)\<rparr>
      | _ \<Rightarrow> ep)"

definition drain_pending_events :: "EndpointOutcome \<Rightarrow> 'f ProtocolEndpoint \<Rightarrow> EndpointOutcome \<times> 'f ProtocolEndpoint" where
  "drain_pending_events outcome ep =
     (outcome\<lparr>eo_events := eo_events outcome @ ep_pending_events ep\<rparr>, ep\<lparr>ep_pending_events := []\<rparr>)"

section \<open>Inbound datagrams\<close>

fun voice_stream_id_dextra :: "DExtraClientPacket \<Rightarrow> StreamId option" where
  "voice_stream_id_dextra (DExtraC_VoiceHeader stream_id _) = Some stream_id"
| "voice_stream_id_dextra (DExtraC_VoiceData stream_id _ _) = Some stream_id"
| "voice_stream_id_dextra (DExtraC_VoiceEot stream_id _) = Some stream_id"
| "voice_stream_id_dextra _ = None"

fun voice_stream_id_dplus :: "DPlusClientPacket \<Rightarrow> StreamId option" where
  "voice_stream_id_dplus (DPlusC_VoiceHeader stream_id _) = Some stream_id"
| "voice_stream_id_dplus (DPlusC_VoiceData stream_id _ _) = Some stream_id"
| "voice_stream_id_dplus (DPlusC_VoiceEot stream_id _) = Some stream_id"
| "voice_stream_id_dplus _ = None"

fun voice_stream_id_dcs :: "DcsClientPacket \<Rightarrow> StreamId option" where
  "voice_stream_id_dcs (DcsC_Voice _ stream_id _ _ _) = Some stream_id"
| "voice_stream_id_dcs _ = None"

text \<open>The read-only check of each protocol differs in the packet type only; the argument is the
  stream of the decoded packet, if it is a voice packet. The handlers return at once when it drops.\<close>

definition read_only_drop_voice ::
  "StreamId option \<Rightarrow> SocketAddr \<Rightarrow> instant \<Rightarrow> 'f ProtocolEndpoint \<Rightarrow> (EndpointOutcome \<times> 'f ProtocolEndpoint) option" where
  "read_only_drop_voice voice peer now ep =
     (if access_of peer (ep_clients ep) \<noteq> Some ReadOnly then None
      else case voice of
             None \<Rightarrow> None
           | Some stream_id \<Rightarrow>
               Some (EndpointOutcome_new\<lparr>eo_events := [VoiceFromReadOnlyDropped peer stream_id]\<rparr>,
                     ep\<lparr>ep_clients := record_last_heard peer now (ep_clients ep)\<rparr>))"

text \<open>What every handler does with the outcome of the session; \<open>update\<close> is its cache update, which
  runs only for a selected datagram.\<close>

definition after_drive ::
  "SocketAddr \<Rightarrow> instant \<Rightarrow> ('f ProtocolEndpoint \<Rightarrow> bytes option \<times> 'f ProtocolEndpoint) \<Rightarrow> FrameSequence option \<Rightarrow>
     (ShellError + EndpointOutcome) \<times> 'f ProtocolEndpoint \<Rightarrow> (ShellError + EndpointOutcome) \<times> 'f ProtocolEndpoint" where
  "after_drive peer now update end_sequence driven =
     (case driven of
        (Err e, ep) \<Rightarrow> (Err e, ep)
      | (Ok outcome, ep) \<Rightarrow>
          (let ep = ep\<lparr>ep_clients := record_last_heard peer now (ep_clients ep)\<rparr>;
               pre_update_header = module_cached_header_of_peer peer ep;
               forward = select_voice_hint (eo_events outcome) peer ep;
               (retransmit, ep) = (if forward = None then (None, ep) else update ep);
               outcome = outcome\<lparr>eo_forward := forward, eo_header_retransmit := retransmit\<rparr>;
               ep = publish_voice_events outcome peer pre_update_header end_sequence ep;
               (outcome, ep) = drain_pending_events outcome ep
           in (Ok outcome, ep)))"

definition decoded :: "('e + 'p) \<times> diagnostics \<Rightarrow> 'p option" where
  "decoded r = (case fst r of Err _ \<Rightarrow> None | Ok p \<Rightarrow> Some p)"

text \<open>The pipeline that the DExtra and the DCS handler spell out for their packet types. \<open>link\<close> is the
  callsign, reflector module and client module of a decoded LINK packet, \<open>voice\<close> the stream of a
  decoded voice packet, \<open>reject\<close> the protocol's way to build a rejection.\<close>

definition link_pipeline ::
  "bytes \<Rightarrow> SocketAddr \<Rightarrow> instant \<Rightarrow> (DstarCallsign \<times> DstarModule \<times> DstarModule) option \<Rightarrow> StreamId option \<Rightarrow>
     (DstarCallsign \<Rightarrow> DstarModule \<Rightarrow> DstarModule \<Rightarrow> RejectReason \<Rightarrow> EndpointOutcome) \<Rightarrow>
     ('f ProtocolEndpoint \<Rightarrow> bytes option \<times> 'f ProtocolEndpoint) \<Rightarrow> FrameSequence option \<Rightarrow> 'f ProtocolEndpoint \<Rightarrow>
     (ShellError + EndpointOutcome) \<times> 'f ProtocolEndpoint" where
  "link_pipeline bs peer now link voice reject update end_sequence ep =
     (let proceed = (\<lambda>initial_module link_access.
            case read_only_drop_voice voice peer now ep of
              Some (outcome, ep) \<Rightarrow> (Ok outcome, ep)
            | None \<Rightarrow> after_drive peer now update end_sequence (drive_core peer bs now initial_module link_access ep))
      in case link of
           None \<Rightarrow>
             (if \<not> pool_contains peer (ep_clients ep) then (Ok EndpointOutcome_new, ep)
              else proceed (ep_default_module ep) None)
         | Some (callsign, reflector_module, client_module) \<Rightarrow>
             (case authorize_link peer callsign reflector_module ep of
                Err reason \<Rightarrow> (Ok (reject callsign client_module reflector_module reason), ep)
              | Ok access_policy \<Rightarrow> proceed reflector_module (Some access_policy)))"

definition handle_inbound_dextra ::
  "bytes \<Rightarrow> SocketAddr \<Rightarrow> instant \<Rightarrow> 'f ProtocolEndpoint \<Rightarrow> (ShellError + EndpointOutcome) \<times> 'f ProtocolEndpoint" where
  "handle_inbound_dextra bs peer now ep =
     (let pre_decoded = decoded (dextra_decode_client_to_server bs [])
      in link_pipeline bs peer now
           (case pre_decoded of
              Some (DExtraC_Link callsign reflector_module client_module) \<Rightarrow> Some (callsign, reflector_module, client_module)
            | _ \<Rightarrow> None)
           (Option.bind pre_decoded voice_stream_id_dextra)
           (build_dextra_reject_outcome peer)
           (\<lambda>ep. case pre_decoded of None \<Rightarrow> (None, ep) | Some pkt \<Rightarrow> update_stream_cache_dextra pkt bs peer now ep)
           (case pre_decoded of Some (DExtraC_VoiceEot _ seq) \<Rightarrow> FrameSequence_new (seq AND NOT 0x40) | _ \<Rightarrow> None) ep)"

definition handle_inbound_dplus ::
  "bytes \<Rightarrow> SocketAddr \<Rightarrow> instant \<Rightarrow> 'f ProtocolEndpoint \<Rightarrow> (ShellError + EndpointOutcome) \<times> 'f ProtocolEndpoint" where
  "handle_inbound_dplus bs peer now ep =
     (let pre_decoded = decoded (dplus_decode_client_to_server bs []);
          proceed = (\<lambda>link_access.
            case read_only_drop_voice (Option.bind pre_decoded voice_stream_id_dplus) peer now ep of
              Some (outcome, ep) \<Rightarrow> (Ok outcome, ep)
            | None \<Rightarrow>
                after_drive peer now
                  (\<lambda>ep. case pre_decoded of None \<Rightarrow> (None, ep) | Some pkt \<Rightarrow> update_stream_cache_dplus pkt bs peer now ep)
                  (case pre_decoded of Some (DPlusC_VoiceEot _ seq) \<Rightarrow> FrameSequence_new (seq AND NOT 0x40) | _ \<Rightarrow> None)
                  (drive_core peer bs now (ep_default_module ep) link_access ep))
      in if \<not> pool_contains peer (ep_clients ep) \<and> pre_decoded \<noteq> Some DPlusC_Link1 then (Ok EndpointOutcome_new, ep)
         else if \<not> pool_contains peer (ep_clients ep) \<and> es_max_total_clients (ep_settings ep) \<le> pool_len (ep_clients ep)
         then (Ok (build_dplus_reject_outcome peer RR_Busy), ep)
         else case pre_decoded of
             Some (DPlusC_Link2 callsign) \<Rightarrow>
               (case ep_authorizer ep \<lparr>la_protocol = ep_protocol ep, la_callsign = callsign, la_peer = peer,
                                       la_module = ep_default_module ep\<rparr> of
                  Ok access_policy \<Rightarrow>
                    (if module_of peer (ep_clients ep) = None \<and>
                        es_max_clients_per_module (ep_settings ep) \<le> length (members_of_module (ep_default_module ep) (ep_clients ep))
                     then (Ok (build_dplus_reject_outcome peer RR_MaxClients),
                           ep\<lparr>ep_clients := snd (pool_remove peer (ep_clients ep))\<rparr>)
                     else proceed (Some access_policy))
                | Err reject \<Rightarrow>
                    (Ok (build_dplus_reject_outcome peer reject), ep\<lparr>ep_clients := snd (pool_remove peer (ep_clients ep))\<rparr>))
           | _ \<Rightarrow> proceed None)"

definition handle_inbound_dcs ::
  "bytes \<Rightarrow> SocketAddr \<Rightarrow> instant \<Rightarrow> 'f ProtocolEndpoint \<Rightarrow> (ShellError + EndpointOutcome) \<times> 'f ProtocolEndpoint" where
  "handle_inbound_dcs bs peer now ep =
     (let pre_decoded = decoded (dcs_decode_client_to_server bs [])
      in link_pipeline bs peer now
           (case pre_decoded of
              Some (DcsC_Link callsign client_module reflector_module _ _) \<Rightarrow> Some (callsign, reflector_module, client_module)
            | _ \<Rightarrow> None)
           (Option.bind pre_decoded voice_stream_id_dcs)
           (build_dcs_reject_outcome peer)
           (\<lambda>ep. (None, case pre_decoded of None \<Rightarrow> ep | Some pkt \<Rightarrow> update_stream_cache_dcs pkt peer now ep))
           (case pre_decoded of Some (DcsC_Voice _ _ seq _ True) \<Rightarrow> FrameSequence_new (seq AND NOT 0x40) | _ \<Rightarrow> None) ep)"

definition handle_inbound ::
  "bytes \<Rightarrow> SocketAddr \<Rightarrow> instant \<Rightarrow> 'f ProtocolEndpoint \<Rightarrow> (ShellError + EndpointOutcome) \<times> 'f ProtocolEndpoint" where
  "handle_inbound bs peer now ep = (case ep_protocol ep of
      PK_DExtra \<Rightarrow> handle_inbound_dextra bs peer now ep
    | PK_DPlus \<Rightarrow> handle_inbound_dplus bs peer now ep
    | PK_Dcs \<Rightarrow> handle_inbound_dcs bs peer now ep)"

section \<open>Maintenance\<close>

definition evict_peer :: "SocketAddr \<Rightarrow> string \<Rightarrow> 'f ProtocolEndpoint \<Rightarrow> 'f ProtocolEndpoint" where
  "evict_peer peer reason ep =
     ep\<lparr>ep_clients := snd (pool_remove peer (ep_clients ep)),
        ep_pending_events := ep_pending_events ep @ [ClientEvicted peer reason]\<rparr>"

definition encode_keepalive_for :: "ClientSnapshot \<Rightarrow> 'f ProtocolEndpoint \<Rightarrow> bytes option" where
  "encode_keepalive_for entry ep =
     (case cs_module entry of
        None \<Rightarrow> None
      | Some m \<Rightarrow>
          (case ep_protocol ep of
             PK_DExtra \<Rightarrow>
               (case encoded 16 (\<lambda>buf. dextra_encode_poll buf (es_reflector_callsign (ep_settings ep))) of
                  Err _ \<Rightarrow> None | Ok payload \<Rightarrow> Some payload)
           | PK_DPlus \<Rightarrow> (case encoded 8 dplus_encode_poll_echo of Err _ \<Rightarrow> None | Ok payload \<Rightarrow> Some payload)
           | PK_Dcs \<Rightarrow>
               (case (cs_client_callsign entry, cs_client_module entry) of
                  (Some callsign, Some client_module) \<Rightarrow>
                    (case (get_range 0 7 (callsign_bytes (es_reflector_callsign (ep_settings ep))),
                           get_range 0 7 (callsign_bytes callsign)) of
                       (Some reflector, Some client) \<Rightarrow>
                         Some (reflector @ [Module_as_byte m, 0x20] @ client @
                               [Module_as_byte client_module, Module_as_byte client_module, 0x0A, 0x00, 0x20, 0x20])
                     | _ \<Rightarrow> None)
                | _ \<Rightarrow> None)))"

definition evict_idle :: "instant \<Rightarrow> 'f ProtocolEndpoint \<Rightarrow> 'f ProtocolEndpoint" where
  "evict_idle now ep =
     fold (\<lambda>entry ep.
       if es_keepalive_inactivity_timeout (ep_settings ep) \<le> saturating_duration_since now (cs_last_heard entry)
       then evict_peer (cs_peer entry) ''keepalive inactivity timeout'' ep else ep) (sweep_snapshot (ep_clients ep)) ep"

definition handle_tick :: "instant \<Rightarrow> 'f ProtocolEndpoint \<Rightarrow> (bytes \<times> SocketAddr) list \<times> 'f ProtocolEndpoint" where
  "handle_tick now ep =
     (let ep = evict_idle now ep;
          ep = ep\<lparr>ep_stream_cache :=
                 hm_retain (\<lambda>m entry. \<not> should_evict now (es_voice_inactivity_timeout (ep_settings ep)) entry) (ep_stream_cache ep)\<rparr>;
          due = is_none_or (ep_last_keepalive_sent ep)
                  (\<lambda>sent. es_keepalive_interval (ep_settings ep) \<le> saturating_duration_since now sent)
      in if \<not> due then ([], ep)
         else (List.map_filter (\<lambda>entry. map_option (\<lambda>payload. (payload, cs_peer entry)) (encode_keepalive_for entry ep))
                 (sweep_snapshot (ep_clients ep)),
               ep\<lparr>ep_last_keepalive_sent := Some now\<rparr>))"

section \<open>Sending\<close>

datatype SendError = SE_Io | SE_TimedOut

record FanOutReport =
  fo_sent :: nat
  fo_rate_limited :: nat
  fo_failures :: "(SocketAddr \<times> SendError) list"
  fo_evicted :: "SocketAddr list"

definition FanOutReport_default :: FanOutReport where
  "FanOutReport_default = \<lparr>fo_sent = 0, fo_rate_limited = 0, fo_failures = [], fo_evicted = []\<rparr>"

text \<open>The socket's answers in this pass, by destination, are the argument \<open>send\<close>; the datagrams that
  the pass hands to the socket are its first result.\<close>

type_synonym send_results = "SocketAddr \<Rightarrow> SendError + unit"

fun fan_out_members ::
  "'f F64 \<Rightarrow> send_results \<Rightarrow> SocketAddr \<Rightarrow> bytes \<Rightarrow> instant \<Rightarrow> SocketAddr list \<Rightarrow> FanOutReport \<Rightarrow> 'f PoolState \<Rightarrow>
     (bytes \<times> SocketAddr) list \<times> FanOutReport \<times> 'f PoolState" where
  "fan_out_members fl send from bs now [] report clients = ([], report, clients)"
| "fan_out_members fl send from bs now (peer # peers) report clients =
     (if peer = from then fan_out_members fl send from bs now peers report clients
      else case try_consume_tx_token fl peer now clients of
             (False, clients) \<Rightarrow>
               fan_out_members fl send from bs now peers (report\<lparr>fo_rate_limited := fo_rate_limited report + 1\<rparr>) clients
           | (True, clients) \<Rightarrow>
               apfst ((#) (bs, peer))
                 (case send peer of
                    Ok _ \<Rightarrow>
                      fan_out_members fl send from bs now peers (report\<lparr>fo_sent := fo_sent report + 1\<rparr>)
                        (record_send_success peer clients)
                  | Err e \<Rightarrow>
                      (let (health, clients) = mark_unhealthy peer clients;
                           report = (case health of ShouldEvict _ \<Rightarrow> report\<lparr>fo_evicted := fo_evicted report @ [peer]\<rparr>
                                     | StillHealthy _ \<Rightarrow> report)
                       in fan_out_members fl send from bs now peers
                            (report\<lparr>fo_failures := fo_failures report @ [(peer, e)]\<rparr>) clients)))"

definition fan_out_voice_at ::
  "'f F64 \<Rightarrow> send_results \<Rightarrow> SocketAddr \<Rightarrow> DstarModule \<Rightarrow> bytes \<Rightarrow> instant \<Rightarrow> 'f PoolState \<Rightarrow>
     (bytes \<times> SocketAddr) list \<times> FanOutReport \<times> 'f PoolState" where
  "fan_out_voice_at fl send from m bs now clients =
     fan_out_members fl send from bs now (members_of_module m clients) FanOutReport_default clients"

fun send_replies ::
  "send_results \<Rightarrow> (bytes \<times> SocketAddr) list \<Rightarrow> SocketAddr list \<Rightarrow> 'f PoolState \<Rightarrow> SocketAddr list \<times> 'f PoolState" where
  "send_replies send [] evicted_peers clients = (evicted_peers, clients)"
| "send_replies send ((payload, dst) # txs) evicted_peers clients =
     (case send dst of
        Err _ \<Rightarrow>
          (let (health, clients) = mark_unhealthy dst clients
           in send_replies send txs (case health of ShouldEvict _ \<Rightarrow> evicted_peers @ [dst] | StillHealthy _ \<Rightarrow> evicted_peers) clients)
      | Ok _ \<Rightarrow> send_replies send txs evicted_peers (record_send_success dst clients))"

definition evict_all :: "string \<Rightarrow> SocketAddr list \<Rightarrow> 'f ProtocolEndpoint \<Rightarrow> 'f ProtocolEndpoint" where
  "evict_all reason peers ep = fold (\<lambda>peer. evict_peer peer reason) peers ep"

text \<open>One reading of the clock serves each recipient pass.\<close>

definition fan_out_outcome ::
  "send_results \<Rightarrow> send_results \<Rightarrow> EndpointOutcome \<Rightarrow> SocketAddr \<Rightarrow> bytes \<Rightarrow> instant \<Rightarrow> instant \<Rightarrow> SocketAddr list \<Rightarrow>
     'f ProtocolEndpoint \<Rightarrow> (bytes \<times> SocketAddr) list \<times> SocketAddr list \<times> 'f ProtocolEndpoint" where
  "fan_out_outcome send send2 outcome peer bs t t2 evicted_peers ep =
     (case eo_forward outcome of
        None \<Rightarrow> ([], evicted_peers, ep)
      | Some hint \<Rightarrow>
          (let m = fst (hint_parts hint);
               (sent, report, clients) = fan_out_voice_at (ep_arith ep) send peer m bs t (ep_clients ep);
               evicted_peers = evicted_peers @ fo_evicted report
           in case eo_header_retransmit outcome of
                None \<Rightarrow> (sent, evicted_peers, ep\<lparr>ep_clients := clients\<rparr>)
              | Some cached \<Rightarrow>
                  (let (sent2, report2, clients) = fan_out_voice_at (ep_arith ep) send2 peer m cached t2 clients
                   in (sent @ sent2, evicted_peers @ fo_evicted report2, ep\<lparr>ep_clients := clients\<rparr>))))"

text \<open>The three arms of the \<open>run\<close> loop: a datagram, a maintenance tick, an event from the bus. Each
  yields the datagrams handed to the socket.\<close>

record pass_env =
  pe_replies :: send_results
  pe_voice :: send_results
  pe_header :: send_results
  pe_voice_at :: instant
  pe_header_at :: instant

definition run_one_tick ::
  "pass_env \<Rightarrow> bytes \<Rightarrow> SocketAddr \<Rightarrow> instant \<Rightarrow> 'f ProtocolEndpoint \<Rightarrow> (bytes \<times> SocketAddr) list \<times> 'f ProtocolEndpoint" where
  "run_one_tick env bs peer now ep =
     (case handle_inbound bs peer now ep of
        (Err _, ep) \<Rightarrow> ([], ep)
      | (Ok outcome, ep) \<Rightarrow>
          (let (evicted_peers, clients) = send_replies (pe_replies env) (eo_txs outcome) [] (ep_clients ep);
               (voice, evicted_peers, ep) = fan_out_outcome (pe_voice env) (pe_header env) outcome peer bs
                  (pe_voice_at env) (pe_header_at env) evicted_peers (ep\<lparr>ep_clients := clients\<rparr>)
           in (eo_txs outcome @ voice, evict_all ''too many send failures'' evicted_peers ep)))"

definition run_maintenance ::
  "send_results \<Rightarrow> instant \<Rightarrow> 'f ProtocolEndpoint \<Rightarrow> (bytes \<times> SocketAddr) list \<times> 'f ProtocolEndpoint" where
  "run_maintenance send now ep =
     (let (txs, ep) = handle_tick now ep;
          (evicted_peers, clients) = send_replies send txs [] (ep_clients ep)
      in (txs, evict_all ''too many send failures'' evicted_peers (ep\<lparr>ep_clients := clients\<rparr>)))"

definition track_bus_event :: "CrossProtocolEvent \<Rightarrow> instant \<Rightarrow> 'f ProtocolEndpoint \<Rightarrow> 'f ProtocolEndpoint option" where
  "track_bus_event event now ep =
     (let source = \<lparr>src_protocol = xe_source_protocol event, src_peer = xe_source_peer event\<rparr>;
          stream_id = VoiceEvent_stream_id (xe_event event);
          entry = hm_get (ep_stream_cache ep) (xe_module event);
          start = (case xe_event event of VE_StreamStart _ _ \<Rightarrow> True | _ \<Rightarrow> False)
      in if \<not> (case entry of None \<Rightarrow> start | Some e \<Rightarrow> cache_matches source stream_id e) then None
         else Some (case (xe_event event, entry) of
             (VE_StreamStart header _, _) \<Rightarrow>
               ep\<lparr>ep_stream_cache := hm_insert (xe_module event) (StreamCache_new stream_id header source now) (ep_stream_cache ep)\<rparr>
           | (VE_Frame _ _ _, Some e) \<Rightarrow>
               ep\<lparr>ep_stream_cache := hm_insert (xe_module event) (record_frame now e) (ep_stream_cache ep)\<rparr>
           | (VE_StreamEnd _ _, Some e) \<Rightarrow>
               ep\<lparr>ep_stream_cache := hm_remove (xe_module event)
                    (hm_insert (xe_module event) (record_frame now e) (ep_stream_cache ep))\<rparr>
           | _ \<Rightarrow> ep))"

definition handle_cross_protocol_event ::
  "send_results \<Rightarrow> CrossProtocolEvent \<Rightarrow> instant \<Rightarrow> instant \<Rightarrow> 'f ProtocolEndpoint \<Rightarrow>
     (bytes \<times> SocketAddr) list \<times> 'f ProtocolEndpoint" where
  "handle_cross_protocol_event send event now t ep =
     (if xe_source_protocol event = ep_protocol ep then ([], ep)
      else case track_bus_event event now ep of
             None \<Rightarrow> ([], ep)
           | Some ep \<Rightarrow>
               (case transcode_voice (ep_protocol ep) (xe_event event) (xe_cached_header event) (replicate 2048 0) of
                  (Err _, _) \<Rightarrow> ([], ep)
                | (Ok len, scratch) \<Rightarrow>
                    (if len = 0 then ([], ep)
                     else case get_range 0 len scratch of
                            None \<Rightarrow> ([], ep)
                          | Some payload \<Rightarrow>
                              (let (sent, report, clients) =
                                     fan_out_voice_at (ep_arith ep) send (xe_source_peer event) (xe_module event) payload t (ep_clients ep)
                               in (sent, evict_all ''too many cross-protocol send failures'' (fo_evicted report)
                                           (ep\<lparr>ep_clients := clients\<rparr>))))))"

datatype endpoint_op =
    OnDatagram pass_env bytes SocketAddr instant
  | OnTick send_results instant
  | OnBusEvent send_results CrossProtocolEvent instant instant

fun endpoint_step :: "endpoint_op \<Rightarrow> 'f ProtocolEndpoint \<Rightarrow> (bytes \<times> SocketAddr) list \<times> 'f ProtocolEndpoint" where
  "endpoint_step (OnDatagram env bs peer now) ep = run_one_tick env bs peer now ep"
| "endpoint_step (OnTick send now) ep = run_maintenance send now ep"
| "endpoint_step (OnBusEvent send event now t) ep = handle_cross_protocol_event send event now t ep"

end
