(* ===== verification/Reflector_Runs.thy ===== *)
theory Reflector_Runs
  imports Reflector_Endpoint
begin

unbundle bit_operations_syntax

text \<open>
  Runs of a reflector endpoint: datagrams from any addresses, maintenance ticks and events of the
  voice bus, in any order and with any results of the socket's sends. The sessions in the pool stay
  drained and agree with the module index, the capacity limits hold, a module is held by one talker
  at a time, and nothing a listener may only listen with is relayed.
\<close>

section \<open>What one datagram can make a session do\<close>

lemma decode_sink:
  "fst (dextra_decode_client_to_server bs d) = fst (dextra_decode_client_to_server bs [])"
  "fst (dplus_decode_client_to_server bs d) = fst (dplus_decode_client_to_server bs [])"
  "fst (dcs_decode_client_to_server bs d) = fst (dcs_decode_client_to_server bs [])"
  by (simp_all add: dextra_decode_client_to_server_def dextra_parse_dsvt_header_def dplus_decode_client_to_server_def
      decode_dsvt_client_def parse_dsvt_common_def dcs_decode_client_to_server_def dcs_decode_client_voice_def
      dcs_parse_voice_def Let_def split: sum.split option.split)

fun dextra_raw :: "SocketAddr \<Rightarrow> DExtraClientPacket \<Rightarrow> RawServerEvent list" where
  "dextra_raw a (DExtraC_Link c r m) = [RawS_Linked a c r]"
| "dextra_raw a (DExtraC_Unlink c m) = [RawS_Unlinked a]"
| "dextra_raw a (DExtraC_Poll c) = []"
| "dextra_raw a (DExtraC_VoiceHeader i h) = [RawS_StreamStarted a i h]"
| "dextra_raw a (DExtraC_VoiceData i q f) = [RawS_StreamFrame a i q f]"
| "dextra_raw a (DExtraC_VoiceEot i q) = [RawS_StreamEnded a i]"

fun dplus_raw :: "SocketAddr \<Rightarrow> DstarModule \<Rightarrow> DPlusClientPacket \<Rightarrow> RawServerEvent list" where
  "dplus_raw a r (DPlusC_Link2 c) = [RawS_Linked a c r]"
| "dplus_raw a r DPlusC_Unlink = [RawS_Unlinked a]"
| "dplus_raw a r (DPlusC_VoiceHeader i h) = [RawS_StreamStarted a i h]"
| "dplus_raw a r (DPlusC_VoiceData i q f) = [RawS_StreamFrame a i q f]"
| "dplus_raw a r (DPlusC_VoiceEot i q) = [RawS_StreamEnded a i]"
| "dplus_raw a r _ = []"

fun dcs_raw :: "SocketAddr \<Rightarrow> DcsClientPacket \<Rightarrow> RawServerEvent list" where
  "dcs_raw a (DcsC_Link c m r t g) = [RawS_Linked a c r]"
| "dcs_raw a (DcsC_Unlink c m t) = [RawS_Unlinked a]"
| "dcs_raw a (DcsC_Poll c r) = []"
| "dcs_raw a (DcsC_Voice h i q f e) =
     [RawS_StreamStarted a i h, RawS_StreamFrame a i q f] @ (if e then [RawS_StreamEnded a i] else [])"

text \<open>Events among the given ones are appended, and at most one reply, due at once, is queued.\<close>

definition advanced :: "instant \<Rightarrow> RawServerEvent list \<Rightarrow> ServerSessionCore \<Rightarrow> ServerSessionCore \<Rightarrow> bool" where
  "advanced now evs s s' \<longleftrightarrow>
     (\<exists>es. ss_events s' = ss_events s @ es \<and> set es \<subseteq> set evs) \<and>
     (ss_outbox s' = ss_outbox s \<or>
      (\<exists>b. ss_outbox s' = Outbox_enqueue \<lparr>op_dst = ss_peer s, op_payload = b, op_not_before = now\<rparr> (ss_outbox s)))"

lemma advanced_idle [simp]: "advanced now evs s s"
  by (simp add: advanced_def)

lemma advanced_reply_with:
  assumes "ss_events s' = ss_events s @ es" "set es \<subseteq> set evs" "ss_outbox s' = ss_outbox s" "ss_peer s' = ss_peer s"
  shows "advanced now evs s (snd (reply_with now p s'))"
  using assms by (cases p) (auto simp: advanced_def reply_with_def reply_def)

lemma advanced_quiet:
  assumes "ss_events s' = ss_events s @ es" "set es \<subseteq> set evs" "ss_outbox s' = ss_outbox s"
  shows "advanced now evs s s'"
  using assms by (auto simp: advanced_def)

lemma advanced_departed: "RawS_Unlinked (ss_peer s) \<in> set evs \<Longrightarrow> advanced now evs s (departed s)"
  by (rule advanced_quiet [of _ _ "[RawS_Unlinked (ss_peer s)]"]) (simp_all add: departed_def)

lemma advanced_replied_departed:
  "RawS_Unlinked (ss_peer s) \<in> set evs \<Longrightarrow> advanced now evs s (departed (reply now p s))"
  by (auto simp: advanced_def departed_def reply_def emit_def)

lemma advanced_link:
  "RawS_Linked (ss_peer s) c r \<in> set evs \<Longrightarrow> advanced now evs s (snd (on_dextra_link now c r m s))"
  "RawS_Linked (ss_peer s) c r \<in> set evs \<Longrightarrow> advanced now evs s (snd (on_dcs_link now c m r s))"
  by (auto simp: on_link_eq link_allowed_def admitted_def Let_def split: sum.split
      intro!: advanced_reply_with [of _ _ "[RawS_Linked (ss_peer s) c (ss_reflector_module s)]"])

lemma advanced_voice:
  "RawS_StreamStarted (ss_peer s) i h \<in> set evs \<Longrightarrow> advanced now evs s (on_dextra_voice_header i h s)"
  "RawS_StreamFrame (ss_peer s) i q f \<in> set evs \<Longrightarrow> advanced now evs s (on_dextra_voice_data i q f s)"
  "RawS_StreamEnded (ss_peer s) i \<in> set evs \<Longrightarrow> advanced now evs s (on_dextra_voice_eot i s)"
  by (auto simp: on_dextra_voice_header_def on_dextra_voice_data_def on_dextra_voice_eot_def advanced_def)

lemma advanced_dextra: "advanced now (dextra_raw (ss_peer s) p) s (snd (server_dextra_dispatch now p s))"
proof (cases p)
  case (DExtraC_Poll c)
  then show ?thesis
    using advanced_reply_with [of s s "[]"] by (simp add: server_dextra_dispatch_def on_dextra_poll_def)
qed (auto simp: server_dextra_dispatch_def on_dextra_unlink_eq intro: advanced_link advanced_departed advanced_voice)

lemma advanced_dplus: "advanced now (dplus_raw (ss_peer s) (ss_reflector_module s) p) s (snd (server_dplus_dispatch now p s))"
proof (cases p)
  case DPlusC_Link1
  then show ?thesis
    using advanced_reply_with [of _ s "[]"]
    by (simp add: server_dplus_dispatch_def on_dplus_link1_def Let_def split: InternalState.split)
next
  case (DPlusC_Link2 c)
  then show ?thesis
    using advanced_reply_with [of s s "[]"] advanced_reply_with [of _ s "[RawS_Linked (ss_peer s) c (ss_reflector_module s)]"]
    by (simp add: server_dplus_dispatch_def on_dplus_link2_def enqueue_dplus_link2_reply_def Let_def)
next
  case DPlusC_Unlink
  then show ?thesis
    using advanced_replied_departed [of s]
    by (simp add: server_dplus_dispatch_def on_dplus_unlink_def departed_def [symmetric] Let_def split: sum.split)
next
  case DPlusC_Poll
  then show ?thesis
    using advanced_reply_with [of s s "[]"] by (simp add: server_dplus_dispatch_def on_dplus_poll_def)
qed (auto simp: server_dplus_dispatch_def dplus_voice_alike intro: advanced_voice)

lemma advanced_dcs: "advanced now (dcs_raw (ss_peer s) p) s (snd (server_dcs_dispatch now p s))"
proof (cases p)
  case (DcsC_Unlink c m t)
  then show ?thesis
    using advanced_replied_departed [of s]
    by (simp add: server_dcs_dispatch_def on_dcs_unlink_def departed_def [symmetric] Let_def split: sum.split)
next
  case (DcsC_Poll c r)
  then show ?thesis
    using advanced_reply_with [of s s "[]"] by (simp add: server_dcs_dispatch_def on_dcs_poll_def)
next
  case (DcsC_Voice h i q f e)
  then show ?thesis by (auto simp: server_dcs_dispatch_def on_dcs_voice_def advanced_def Let_def)
qed (auto simp: server_dcs_dispatch_def intro: advanced_link)

text \<open>The events a datagram of one protocol can cause.\<close>

definition raw_events :: "ProtocolKind \<Rightarrow> SocketAddr \<Rightarrow> DstarModule \<Rightarrow> bytes \<Rightarrow> RawServerEvent list" where
  "raw_events k a m bs = (case k of
      PK_DExtra \<Rightarrow> (case decoded (dextra_decode_client_to_server bs []) of None \<Rightarrow> [] | Some p \<Rightarrow> dextra_raw a p)
    | PK_DPlus \<Rightarrow> (case decoded (dplus_decode_client_to_server bs []) of None \<Rightarrow> [] | Some p \<Rightarrow> dplus_raw a m p)
    | PK_Dcs \<Rightarrow> (case decoded (dcs_decode_client_to_server bs []) of None \<Rightarrow> [] | Some p \<Rightarrow> dcs_raw a p))"

lemma advanced_diagnostics: "advanced now evs (s\<lparr>ss_diagnostics := d\<rparr>) s' \<Longrightarrow> advanced now evs s s'"
  by (simp add: advanced_def)

lemma advanced_input:
  "advanced now (raw_events (ss_kind s) (ss_peer s) (ss_reflector_module s) bs) s (snd (server_handle_input now bs s))"
proof (cases "ss_kind s")
  case PK_DExtra
  obtain r d where "dextra_decode_client_to_server bs (ss_diagnostics s) = (r, d)" by fastforce
  then show ?thesis
    using PK_DExtra decode_sink(1) [of bs "ss_diagnostics s", symmetric] advanced_dextra [of now "s\<lparr>ss_diagnostics := d\<rparr>"]
    by (cases r) (auto simp: server_handle_input_snd server_kind_input_def server_dextra_input_def raw_events_def decoded_def
        intro: advanced_diagnostics advanced_quiet [of _ _ "[]"])
next
  case PK_DPlus
  obtain r d where "dplus_decode_client_to_server bs (ss_diagnostics s) = (r, d)" by fastforce
  then show ?thesis
    using PK_DPlus decode_sink(2) [of bs "ss_diagnostics s", symmetric] advanced_dplus [of now "s\<lparr>ss_diagnostics := d\<rparr>"]
    by (cases r) (auto simp: server_handle_input_snd server_kind_input_def server_dplus_input_def raw_events_def decoded_def
        intro: advanced_diagnostics advanced_quiet [of _ _ "[]"])
next
  case PK_Dcs
  obtain r d where "dcs_decode_client_to_server bs (ss_diagnostics s) = (r, d)" by fastforce
  then show ?thesis
    using PK_Dcs decode_sink(3) [of bs "ss_diagnostics s", symmetric] advanced_dcs [of now "s\<lparr>ss_diagnostics := d\<rparr>"]
    by (cases r) (auto simp: server_handle_input_snd server_kind_input_def server_dcs_input_def raw_events_def decoded_def
        intro: advanced_diagnostics advanced_quiet [of _ _ "[]"])
qed

section \<open>Driving a stored session\<close>

definition ready :: "instant \<Rightarrow> Outbox \<Rightarrow> bool" where
  "ready now q \<longleftrightarrow> list_all (\<lambda>p. op_not_before p \<le> now) (waiting q)"

lemma drain_transmits_all:
  assumes "server_inv s" "ready now (ss_outbox s)" "n = length (waiting (ss_outbox s))" "drain_transmits n now s = (txs, s')"
  shows "waiting (ss_outbox s') = [] \<and> s' = s\<lparr>ss_outbox := ss_outbox s', ss_current_tx := ss_current_tx s'\<rparr> \<and> server_inv s' \<and>
    txs = map (\<lambda>p. (op_payload p, op_dst p)) (waiting (ss_outbox s))"
  using assms
proof (induction n arbitrary: s txs s')
  case (Suc n)
  obtain p ps where w: "waiting (ss_outbox s) = p # ps" using Suc.prems(3) by (cases "waiting (ss_outbox s)") auto
  obtain r q where pop: "Outbox_pop_ready now (ss_outbox s) = (r, q)" by (cases "Outbox_pop_ready now (ss_outbox s)")
  have q: "outbox_wf q" "r = Some p" "waiting q = ps"
    using Outbox_pop_ready_waiting [OF _ pop] Suc.prems(1,2) w by (auto simp: server_inv_def ready_def)
  let ?s = "s\<lparr>ss_outbox := q, ss_current_tx := Some p\<rparr>"
  have "server_inv ?s" "ready now (ss_outbox ?s)" "n = length (waiting (ss_outbox ?s))"
    using Suc.prems(1-3) w q by (auto simp: server_inv_def ready_def)
  moreover obtain txs' where txs: "txs = (op_payload p, op_dst p) # txs'" "drain_transmits n now ?s = (txs', s')"
    using Suc.prems(4) pop q(2) by (auto simp: server_pop_transmit_def apfst_def map_prod_def split: prod.splits)
  ultimately have "waiting (ss_outbox s') = [] \<and> s' = ?s\<lparr>ss_outbox := ss_outbox s', ss_current_tx := ss_current_tx s'\<rparr> \<and>
      server_inv s' \<and> txs' = map (\<lambda>p. (op_payload p, op_dst p)) ps"
    using Suc.IH [of ?s txs' s'] q(3) by simp
  then show ?case using txs(1) w by simp
qed auto

lemma drain_events_all:
  assumes "ss_kind (ch_session h) = k" "n = length (ss_events (ch_session h))"
  shows "drain_events n k h = (map ServerEvent_of_raw (ss_events (ch_session h)),
    fold note_link (map ServerEvent_of_raw (ss_events (ch_session h))) (h\<lparr>ch_session := (ch_session h)\<lparr>ss_events := []\<rparr>\<rparr>))"
  using assms
proof (induction n arbitrary: h)
  case (Suc n)
  then obtain e es where es: "ss_events (ch_session h) = e # es" by (cases "ss_events (ch_session h)") auto
  let ?h = "note_link (ServerEvent_of_raw e) (h\<lparr>ch_session := (ch_session h)\<lparr>ss_events := es\<rparr>\<rparr>)"
  have s: "ch_session ?h = (ch_session h)\<lparr>ss_events := es\<rparr>" by (simp add: note_link_def split: ServerEvent.split)
  have "?h\<lparr>ch_session := (ch_session h)\<lparr>ss_events := []\<rparr>\<rparr> =
      note_link (ServerEvent_of_raw e) (h\<lparr>ch_session := (ch_session h)\<lparr>ss_events := []\<rparr>\<rparr>)"
    by (simp add: note_link_def split: ServerEvent.split)
  then show ?case using Suc.IH [of ?h] Suc.prems es s by (simp add: server_pop_event_def)
qed auto

text \<open>The module an event sequence leaves the client on.\<close>

fun placement :: "DstarModule \<Rightarrow> peer_phase \<Rightarrow> DstarModule option" where
  "placement m (Present _ _) = Some m"
| "placement m _ = None"

lemma note_link_follow:
  assumes "follow (server_observe a m) es ph = Some ph'" "ch_module h = placement m ph"
  shows "ch_module (fold note_link es h) = placement m ph'"
  using assms
proof (induction es arbitrary: ph h)
  case (Cons e es)
  then obtain ph1 where ph1: "server_observe a m e ph = Some ph1" "follow (server_observe a m) es ph1 = Some ph'"
    by (auto split: option.splits)
  then have "ch_module (note_link e h) = placement m ph1"
    using Cons.prems(2)
    by (cases "(a, m, e, ph)" rule: server_observe.cases) (auto simp: note_link_def split: if_splits)
  then show ?case using Cons.IH [OF ph1(2), of "note_link e h"] by simp
qed simp

lemma note_link_keeps:
  "ch_session (fold note_link es h) = ch_session h" "ch_access (fold note_link es h) = ch_access h"
  "ch_last_heard (fold note_link es h) = ch_last_heard h"
  by (induction es arbitrary: h) (auto simp: note_link_def split: ServerEvent.split)

text \<open>A stored session: drained, in some phase of its automaton, with the module index entry that
  belongs to the phase.\<close>

definition handle_at :: "ProtocolKind \<Rightarrow> SocketAddr \<Rightarrow> peer_phase \<Rightarrow> 'f ClientHandle \<Rightarrow> bool" where
  "handle_at k p ph h \<longleftrightarrow> ss_kind (ch_session h) = k \<and> server_inv (ch_session h) \<and> ss_events (ch_session h) = [] \<and>
     waiting (ss_outbox (ch_session h)) = [] \<and> server_phase p (ss_reflector_module (ch_session h)) (ch_session h) ph \<and>
     ch_module h = placement (ss_reflector_module (ch_session h)) ph"

lemma handle_at_cong:
  assumes "handle_at k p ph h" "ch_module h' = ch_module h"
    "ch_session h' = (ch_session h)\<lparr>ss_diagnostics := ss_diagnostics (ch_session h')\<rparr>"
  shows "handle_at k p ph h'"
proof -
  have "ss_kind (ch_session h') = ss_kind (ch_session h) \<and> ss_peer (ch_session h') = ss_peer (ch_session h) \<and>
      ss_reflector_module (ch_session h') = ss_reflector_module (ch_session h) \<and>
      ss_state (ch_session h') = ss_state (ch_session h) \<and> ss_events (ch_session h') = ss_events (ch_session h) \<and>
      ss_outbox (ch_session h') = ss_outbox (ch_session h) \<and>
      ss_client_callsign (ch_session h') = ss_client_callsign (ch_session h) \<and>
      ss_client_module (ch_session h') = ss_client_module (ch_session h) \<and>
      ss_last_stream_id (ch_session h') = ss_last_stream_id (ch_session h)"
    by (subst (1 2 3 4 5 6 7 8 9) assms(3)) simp
  then show ?thesis using assms(1,2) by (auto simp: handle_at_def server_inv_def server_phase_def split: peer_phase.splits option.splits)
qed

lemma server_phase_updates [simp]:
  "server_phase p m (s\<lparr>ss_outbox := q\<rparr>) ph = server_phase p m s ph"
  "server_phase p m (s\<lparr>ss_current_tx := c\<rparr>) ph = server_phase p m s ph"
  "server_phase p m (s\<lparr>ss_events := es\<rparr>) ph = server_phase p m s ph"
  "server_phase p m (s\<lparr>ss_diagnostics := d\<rparr>) ph = server_phase p m s ph"
  by (auto simp: server_phase_def split: peer_phase.splits option.splits)

lemma advanced_ready:
  assumes "advanced now evs s s'" "waiting (ss_outbox s) = []" "outbox_wf (ss_outbox s)"
  shows "ready now (ss_outbox s')"
  using assms outbox.enq_contents [OF assms(3)] by (auto simp: advanced_def ready_def)

lemma reflector_module_kept:
  assumes "server_phase p (ss_reflector_module s) s ph"
  shows "ss_reflector_module (snd (server_handle_input now bs s)) = ss_reflector_module s"
  using follows_input [of s now bs] assms unfolding follows_def by (metis server_phase_def)

definition driven :: "ProtocolKind \<Rightarrow> SocketAddr \<Rightarrow> bytes \<Rightarrow> peer_phase \<Rightarrow> 'f ClientHandle \<Rightarrow> EndpointOutcome \<Rightarrow> peer_phase \<Rightarrow> 'f ClientHandle \<Rightarrow> bool" where
  "driven k p bs ph h outcome ph' h' \<longleftrightarrow>
     (\<exists>es txs. outcome = EndpointOutcome_new\<lparr>eo_txs := txs, eo_events := map ServerEvent_of_raw es\<rparr> \<and>
        set es \<subseteq> set (raw_events k p (ss_reflector_module (ch_session h)) bs) \<and>
        follow (server_observe p (ss_reflector_module (ch_session h))) (map ServerEvent_of_raw es) ph = Some ph' \<and>
        (\<forall>(b, d) \<in> set txs. d = p \<and> readable k b)) \<and>
     handle_at k p ph' h' \<and> ss_reflector_module (ch_session h') = ss_reflector_module (ch_session h)"

text \<open>The access a client has afterwards: what it had, or the verdict that was waiting.\<close>

definition access_from :: "AccessPolicy option \<Rightarrow> 'f ClientHandle \<Rightarrow> 'f ClientHandle \<Rightarrow> bool" where
  "access_from acc h h' \<longleftrightarrow> ch_access h' = ch_access h \<or> acc = Some (ch_access h')"

lemma drive_handle_cases:
  assumes "handle_at k p ph h" "drive_handle k bs now acc h = (r, h')"
  shows "(\<exists>e d. r = Err (Shell_Core e) \<and> handle_at k p ph h' \<and> ch_module h' = ch_module h \<and> ch_access h' = ch_access h \<and>
        ch_session h' = (ch_session h)\<lparr>ss_diagnostics := d\<rparr>) \<or>
    (\<exists>outcome ph'. r = Ok outcome \<and> driven k p bs ph h outcome ph' h' \<and> ch_last_heard h' = max (ch_last_heard h) now \<and>
        access_from acc h h')"
proof -
  let ?s = "ch_session h"
  have ok: "ss_kind ?s = k" "server_inv ?s" "ss_events ?s = []" "waiting (ss_outbox ?s) = []"
    "server_phase p (ss_reflector_module ?s) ?s ph" "ch_module h = placement (ss_reflector_module ?s) ph"
    using assms(1) by (auto simp: handle_at_def)
  obtain r1 s1 where input: "server_handle_input now bs ?s = (r1, s1)" by (cases "server_handle_input now bs ?s")
  show ?thesis
  proof (cases r1)
    case (Inl e)
    then have "s1 = ?s\<lparr>ss_diagnostics := ss_diagnostics s1\<rparr>" using server_input_errors [OF ok(2)] input by blast
    then have "r = Err (Shell_Core e)" "h' = h\<lparr>ch_session := ?s\<lparr>ss_diagnostics := ss_diagnostics s1\<rparr>\<rparr>"
      using assms(2) input Inl by (auto simp: drive_handle_def)
    then show ?thesis using handle_at_cong [OF assms(1), of h'] by auto
  next
    case (Inr u)
    have s1: "s1 = snd (server_handle_input now bs ?s)" using input by simp
    have kept1: "server_inv s1" "ss_peer s1 = ss_peer ?s" "ss_kind s1 = k" "ss_reflector_module s1 = ss_reflector_module ?s"
      using server_input_sound [OF ok(2), of now bs] reflector_module_kept [OF ok(5), of now bs] ok(1)
      by (auto simp: s1 link_kept_def)
    have adv: "advanced now (raw_events k p (ss_reflector_module ?s) bs) ?s s1"
      using advanced_input [of now ?s bs] ok(1,5) by (simp add: s1 server_phase_def)
    then have evs: "set (ss_events s1) \<subseteq> set (raw_events k p (ss_reflector_module ?s) bs)"
      using ok(3) by (auto simp: advanced_def)
    have rdy: "ready now (ss_outbox s1)" using advanced_ready [OF adv ok(4)] ok(2) by (simp add: server_inv_def)
    obtain ph' where ph': "follow (server_observe p (ss_reflector_module ?s)) (map ServerEvent_of_raw (ss_events s1)) ph = Some ph'"
        "server_phase p (ss_reflector_module ?s) s1 ph'"
      using follows_input [of ?s now bs] ok(3,5) unfolding follows_def s1 by (fastforce simp: queued_server_events_def)
    obtain txs s2 where tx: "drain_transmits (length (waiting (ss_outbox s1))) now s1 = (txs, s2)"
      by (cases "drain_transmits (length (waiting (ss_outbox s1))) now s1")
    have d: "waiting (ss_outbox s2) = []" "s2 = s1\<lparr>ss_outbox := ss_outbox s2, ss_current_tx := ss_current_tx s2\<rparr>" "server_inv s2"
      "txs = map (\<lambda>p. (op_payload p, op_dst p)) (waiting (ss_outbox s1))"
      using drain_transmits_all [OF kept1(1) rdy refl tx] by auto
    obtain q c where s2_eq: "s2 = s1\<lparr>ss_outbox := q, ss_current_tx := c\<rparr>" using d(2) by blast
    have s2: "ss_kind s2 = k" "ss_peer s2 = ss_peer s1" "ss_reflector_module s2 = ss_reflector_module ?s" "ss_events s2 = ss_events s1"
      "server_phase p (ss_reflector_module ?s) s2 ph'"
      using kept1 ph'(2) by (simp_all add: s2_eq)
    have txs: "\<forall>(b, d) \<in> set txs. d = p \<and> readable k b"
      using kept1 ok(5) by (auto simp: d(4) server_inv_def list_all_iff server_phase_def)
    let ?es = "map ServerEvent_of_raw (ss_events s1)" and ?s2 = "s2\<lparr>ss_events := []\<rparr>"
    let ?h2 = "fold note_link ?es (h\<lparr>ch_session := ?s2\<rparr>)"
    let ?o = "EndpointOutcome_new\<lparr>eo_txs := txs, eo_events := ?es\<rparr>"
    have dr: "drain_events (length (ss_events s2)) k (h\<lparr>ch_session := s2\<rparr>) = (?es, ?h2)"
      using drain_events_all [of "h\<lparr>ch_session := s2\<rparr>" k] s2(1,4) by simp
    have r: "r = Ok ?o" and h': "ch_session h' = ?s2" "ch_module h' = ch_module ?h2" "ch_last_heard h' = max (ch_last_heard h) now"
      "access_from acc h h'"
      using assms(2) input Inr tx dr
      by (auto simp: drive_handle_def access_from_def Let_def note_link_keeps split: option.splits if_splits ProtocolKind.splits)
    have "handle_at k p ph' h'"
      using s2 d note_link_follow [OF ph'(1), of "h\<lparr>ch_session := ?s2\<rparr>"] ok(6) server_inv_cong [of ?s2 s2]
      by (auto simp: handle_at_def h')
    then have "driven k p bs ph h ?o ph' h'"
      unfolding driven_def using evs ph'(1) txs s2(3) h'(1) by auto
    then show ?thesis using r h'(3,4) by blast
  qed
qed

section \<open>The handlers of the three protocols, seen alike\<close>

definition link_target :: "bytes \<Rightarrow> 'f ProtocolEndpoint \<Rightarrow> DstarModule option" where
  "link_target bs ep = (case ep_protocol ep of
      PK_DExtra \<Rightarrow> (case decoded (dextra_decode_client_to_server bs []) of Some (DExtraC_Link c r m) \<Rightarrow> Some r | _ \<Rightarrow> None)
    | PK_DPlus \<Rightarrow> (case decoded (dplus_decode_client_to_server bs []) of Some (DPlusC_Link2 c) \<Rightarrow> Some (ep_default_module ep) | _ \<Rightarrow> None)
    | PK_Dcs \<Rightarrow> (case decoded (dcs_decode_client_to_server bs []) of Some (DcsC_Link c m r t g) \<Rightarrow> Some r | _ \<Rightarrow> None))"

definition voice_of :: "ProtocolKind \<Rightarrow> bytes \<Rightarrow> StreamId option" where
  "voice_of k bs = (case k of
      PK_DExtra \<Rightarrow> Option.bind (decoded (dextra_decode_client_to_server bs [])) voice_stream_id_dextra
    | PK_DPlus \<Rightarrow> Option.bind (decoded (dplus_decode_client_to_server bs [])) voice_stream_id_dplus
    | PK_Dcs \<Rightarrow> Option.bind (decoded (dcs_decode_client_to_server bs [])) voice_stream_id_dcs)"

definition cache_update :: "ProtocolKind \<Rightarrow> bytes \<Rightarrow> SocketAddr \<Rightarrow> instant \<Rightarrow> 'f ProtocolEndpoint \<Rightarrow> bytes option \<times> 'f ProtocolEndpoint" where
  "cache_update k bs peer now ep = (case k of
      PK_DExtra \<Rightarrow> (case decoded (dextra_decode_client_to_server bs []) of
        None \<Rightarrow> (None, ep) | Some pkt \<Rightarrow> update_stream_cache_dextra pkt bs peer now ep)
    | PK_DPlus \<Rightarrow> (case decoded (dplus_decode_client_to_server bs []) of
        None \<Rightarrow> (None, ep) | Some pkt \<Rightarrow> update_stream_cache_dplus pkt bs peer now ep)
    | PK_Dcs \<Rightarrow> (None, case decoded (dcs_decode_client_to_server bs []) of
        None \<Rightarrow> ep | Some pkt \<Rightarrow> update_stream_cache_dcs pkt peer now ep))"

text \<open>A datagram reaches a session only when these hold: a new client fits, a client that may be
  placed on a module fits there, and voice is not from a listener.\<close>

definition admissible :: "bytes \<Rightarrow> SocketAddr \<Rightarrow> DstarModule \<Rightarrow> 'f ProtocolEndpoint \<Rightarrow> bool" where
  "admissible bs peer initial_module ep \<longleftrightarrow>
     (client_at (ep_clients ep) peer = None \<longrightarrow>
        pool_len (ep_clients ep) < es_max_total_clients (ep_settings ep) \<and>
        (initial_module \<in> set (ep_configured_modules ep) \<or> initial_module = ep_default_module ep) \<and>
        (ep_protocol ep = PK_DPlus \<longrightarrow> initial_module = ep_default_module ep)) \<and>
     (\<forall>m. link_target bs ep = Some m \<longrightarrow>
        module_of peer (ep_clients ep) = Some m \<or>
        (ep_protocol ep = PK_DPlus \<and> module_of peer (ep_clients ep) \<noteq> None) \<or>
        length (members_of_module m (ep_clients ep)) < es_max_clients_per_module (ep_settings ep)) \<and>
     (voice_of (ep_protocol ep) bs \<noteq> None \<longrightarrow> access_of peer (ep_clients ep) \<noteq> Some ReadOnly)"

text \<open>Otherwise the endpoint answers at once; at most the sender's entry changes.\<close>

definition turned_away :: "SocketAddr \<Rightarrow> instant \<Rightarrow> 'f ProtocolEndpoint \<Rightarrow> EndpointOutcome \<Rightarrow> 'f ProtocolEndpoint \<Rightarrow> bool" where
  "turned_away peer now ep outcome ep' \<longleftrightarrow> eo_forward outcome = None \<and> eo_header_retransmit outcome = None \<and>
     (eo_events outcome = [] \<or> (\<exists>r. eo_events outcome = [ClientRejected peer r]) \<or>
      (\<exists>i. eo_events outcome = [VoiceFromReadOnlyDropped peer i])) \<and>
     (\<exists>clients \<in> {ep_clients ep, snd (pool_remove peer (ep_clients ep)), record_last_heard peer now (ep_clients ep)}.
        ep' = ep\<lparr>ep_clients := clients\<rparr>)"

lemma turned_away_silent [simp]: "turned_away peer now ep EndpointOutcome_new ep"
  by (simp add: turned_away_def EndpointOutcome_new_def)

lemma turned_away_rejected [simp]:
  "turned_away peer now ep (rejected_outcome peer nak reason) ep"
  "turned_away peer now ep (rejected_outcome peer nak reason) (ep\<lparr>ep_clients := snd (pool_remove peer (ep_clients ep))\<rparr>)"
  by (simp_all add: turned_away_def rejected_outcome_def EndpointOutcome_new_def)

lemma read_only_drop_Some:
  "read_only_drop_voice voice peer now ep = Some (outcome, ep') \<Longrightarrow> turned_away peer now ep outcome ep'"
  by (auto simp: read_only_drop_voice_def turned_away_def EndpointOutcome_new_def split: if_splits option.splits)

lemma read_only_drop_None:
  "read_only_drop_voice voice peer now ep = None \<Longrightarrow> voice \<noteq> None \<Longrightarrow> access_of peer (ep_clients ep) \<noteq> Some ReadOnly"
  by (auto simp: read_only_drop_voice_def split: if_splits option.splits)

lemma authorize_link_Ok:
  assumes "authorize_link peer c m ep = Ok access"
  shows "m \<in> set (ep_configured_modules ep) \<and>
    (module_of peer (ep_clients ep) = Some m \<or>
     (pool_contains peer (ep_clients ep) \<or> pool_len (ep_clients ep) < es_max_total_clients (ep_settings ep)) \<and>
     length (members_of_module m (ep_clients ep)) < es_max_clients_per_module (ep_settings ep))"
  using assms by (auto simp: authorize_link_def link_capacity_reject_def split: if_splits sum.splits option.splits)

lemma contains_client: "pool_contains peer st \<longleftrightarrow> client_at st peer \<noteq> None"
  by (simp add: pool_contains_def client_at_def)

lemma authorized_admissible:
  assumes "authorize_link peer c m ep = Ok access" "link_target bs ep = Some m" "ep_protocol ep \<noteq> PK_DPlus"
    "voice_of (ep_protocol ep) bs \<noteq> None \<Longrightarrow> access_of peer (ep_clients ep) \<noteq> Some ReadOnly"
  shows "admissible bs peer m ep"
  using authorize_link_Ok [OF assms(1)] assms(2-4)
  by (auto simp: admissible_def contains_client module_of_client)

lemma other_admissible:
  assumes "client_at (ep_clients ep) peer \<noteq> None" "link_target bs ep = None"
    "voice_of (ep_protocol ep) bs \<noteq> None \<Longrightarrow> access_of peer (ep_clients ep) \<noteq> Some ReadOnly"
  shows "admissible bs peer m ep"
  using assms by (auto simp: admissible_def)

text \<open>The authorizer's verdict on some link attempt of a peer.\<close>

definition granted :: "'f ProtocolEndpoint \<Rightarrow> SocketAddr \<Rightarrow> AccessPolicy \<Rightarrow> bool" where
  "granted ep peer access \<longleftrightarrow> (\<exists>c m. ep_authorizer ep \<lparr>la_protocol = ep_protocol ep, la_callsign = c, la_peer = peer, la_module = m\<rparr> = Ok access)"

lemma authorize_link_granted: "authorize_link peer c m ep = Ok access \<Longrightarrow> granted ep peer access"
  by (auto simp: authorize_link_def granted_def split: if_splits sum.splits option.splits)

definition passed_on ::
  "bytes \<Rightarrow> SocketAddr \<Rightarrow> instant \<Rightarrow> 'f ProtocolEndpoint \<Rightarrow> (ShellError + EndpointOutcome) \<times> 'f ProtocolEndpoint \<Rightarrow> bool" where
  "passed_on bs peer now ep res \<longleftrightarrow>
     (\<exists>m acc end_sequence. admissible bs peer m ep \<and> (\<forall>a. acc = Some a \<longrightarrow> granted ep peer a) \<and>
        res = after_drive peer now (cache_update (ep_protocol ep) bs peer now) end_sequence (drive_core peer bs now m acc ep))"

definition processed ::
  "bytes \<Rightarrow> SocketAddr \<Rightarrow> instant \<Rightarrow> 'f ProtocolEndpoint \<Rightarrow> (ShellError + EndpointOutcome) \<times> 'f ProtocolEndpoint \<Rightarrow> bool" where
  "processed bs peer now ep res \<longleftrightarrow>
     (\<exists>outcome ep'. res = (Ok outcome, ep') \<and> turned_away peer now ep outcome ep') \<or> passed_on bs peer now ep res"

lemma processed_turned_away: "turned_away peer now ep outcome ep' \<Longrightarrow> processed bs peer now ep (Ok outcome, ep')"
  by (auto simp: processed_def)

lemma processed_on:
  assumes "(voice_of (ep_protocol ep) bs \<noteq> None \<longrightarrow> access_of peer (ep_clients ep) \<noteq> Some ReadOnly) \<longrightarrow> admissible bs peer m ep"
    "\<forall>a. acc = Some a \<longrightarrow> granted ep peer a"
  shows "processed bs peer now ep
    (case read_only_drop_voice (voice_of (ep_protocol ep) bs) peer now ep of
       Some (outcome, ep) \<Rightarrow> (Ok outcome, ep)
     | None \<Rightarrow> after_drive peer now (cache_update (ep_protocol ep) bs peer now) e (drive_core peer bs now m acc ep))"
proof (cases "read_only_drop_voice (voice_of (ep_protocol ep) bs) peer now ep")
  case None
  then have "admissible bs peer m ep" using read_only_drop_None [OF None] assms(1) by blast
  then have "passed_on bs peer now ep
      (after_drive peer now (cache_update (ep_protocol ep) bs peer now) e (drive_core peer bs now m acc ep))"
    using assms(2) unfolding passed_on_def by blast
  then show ?thesis using None by (simp add: processed_def)
next
  case (Some oe)
  then show ?thesis by (cases oe) (simp add: processed_turned_away read_only_drop_Some)
qed

lemma processed_pipeline:
  assumes "ep_protocol ep \<noteq> PK_DPlus" "link_target bs ep = map_option (fst \<circ> snd) link" "voice = voice_of (ep_protocol ep) bs"
    "\<And>c m r reason. \<exists>nak. reject c m r reason = rejected_outcome peer nak reason"
    "update = cache_update (ep_protocol ep) bs peer now"
  shows "processed bs peer now ep (link_pipeline bs peer now link voice reject update end_sequence ep)"
proof (cases link)
  case None
  then have t: "link_target bs ep = None" using assms(2) by simp
  have "(voice_of (ep_protocol ep) bs \<noteq> None \<longrightarrow> access_of peer (ep_clients ep) \<noteq> Some ReadOnly) \<longrightarrow>
      admissible bs peer (ep_default_module ep) ep" if "client_at (ep_clients ep) peer \<noteq> None"
    using other_admissible [OF that t] by blast
  then show ?thesis
    using None processed_on [of ep bs peer "ep_default_module ep" None now end_sequence]
    by (cases "client_at (ep_clients ep) peer")
      (auto simp: link_pipeline_def contains_client assms(3,5) intro!: processed_turned_away)
next
  case (Some l)
  obtain c r m where l: "l = (c, r, m)" by (cases l)
  have t: "link_target bs ep = Some r" using assms(2) Some l by simp
  show ?thesis
  proof (cases "authorize_link peer c r ep")
    case (Inl reason)
    then show ?thesis
      using Some l assms(4) [of c m r reason] by (auto simp: link_pipeline_def intro!: processed_turned_away)
  next
    case (Inr access)
    have "(voice_of (ep_protocol ep) bs \<noteq> None \<longrightarrow> access_of peer (ep_clients ep) \<noteq> Some ReadOnly) \<longrightarrow> admissible bs peer r ep"
      using authorized_admissible [OF Inr t assms(1)] by blast
    then show ?thesis
      using Inr Some l t authorize_link_granted [OF Inr] processed_on [of ep bs peer r "Some access" now end_sequence]
      by (auto simp: link_pipeline_def assms(3,5))
  qed
qed

lemma processed_dextra: "ep_protocol ep = PK_DExtra \<Longrightarrow> processed bs peer now ep (handle_inbound_dextra bs peer now ep)"
  unfolding handle_inbound_dextra_def Let_def
  by (rule processed_pipeline)
    (auto simp: link_target_def voice_of_def cache_update_def build_dextra_reject_outcome_def
      split: option.split DExtraClientPacket.split)

lemma processed_dcs: "ep_protocol ep = PK_Dcs \<Longrightarrow> processed bs peer now ep (handle_inbound_dcs bs peer now ep)"
  unfolding handle_inbound_dcs_def Let_def
  by (rule processed_pipeline)
    (auto simp: link_target_def voice_of_def cache_update_def build_dcs_reject_outcome_def
      split: option.split DcsClientPacket.split)

lemma processed_dplus:
  assumes "ep_protocol ep = PK_DPlus"
  shows "processed bs peer now ep (handle_inbound_dplus bs peer now ep)"
proof -
  let ?pkt = "decoded (dplus_decode_client_to_server bs [])" and ?cl = "ep_clients ep"
  have voice: "Option.bind ?pkt voice_stream_id_dplus = voice_of (ep_protocol ep) bs" using assms by (simp add: voice_of_def)
  have upd: "(\<lambda>ep. case ?pkt of None \<Rightarrow> (None, ep) | Some pkt \<Rightarrow> update_stream_cache_dplus pkt bs peer now ep) =
      cache_update (ep_protocol ep) bs peer now"
    using assms by (simp add: cache_update_def fun_eq_iff)
  have t: "link_target bs ep = (case ?pkt of Some (DPlusC_Link2 c) \<Rightarrow> Some (ep_default_module ep) | _ \<Rightarrow> None)"
    using assms by (simp add: link_target_def)
  let ?go = "\<lambda>acc e. case read_only_drop_voice (voice_of (ep_protocol ep) bs) peer now ep of
      Some (outcome, ep) \<Rightarrow> (Ok outcome, ep)
    | None \<Rightarrow> after_drive peer now (cache_update (ep_protocol ep) bs peer now) e (drive_core peer bs now (ep_default_module ep) acc ep)"
  have go: "processed bs peer now ep (?go acc e)"
    if "client_at ?cl peer = None \<Longrightarrow> pool_len ?cl < es_max_total_clients (ep_settings ep)"
      "link_target bs ep \<noteq> None \<Longrightarrow> module_of peer ?cl \<noteq> None \<or>
         length (members_of_module (ep_default_module ep) ?cl) < es_max_clients_per_module (ep_settings ep)"
      "\<forall>a. acc = Some a \<longrightarrow> granted ep peer a" for acc e
    by (rule processed_on) (use that assms t in \<open>auto simp: admissible_def split: option.splits DPlusClientPacket.splits\<close>)
  show ?thesis
  proof (cases "(client_at ?cl peer = None \<and> ?pkt \<noteq> Some DPlusC_Link1) \<or>
      (client_at ?cl peer = None \<and> es_max_total_clients (ep_settings ep) \<le> pool_len ?cl)")
    case True
    then show ?thesis
      by (auto simp: handle_inbound_dplus_def contains_client build_dplus_reject_outcome_def Let_def intro!: processed_turned_away)
  next
    case False
    show ?thesis
    proof (cases "\<exists>c. ?pkt = Some (DPlusC_Link2 c)")
      case True
      then obtain c where c: "?pkt = Some (DPlusC_Link2 c)" by blast
      with t have lt: "link_target bs ep \<noteq> None" by simp
      let ?attempt = "\<lparr>la_protocol = ep_protocol ep, la_callsign = c, la_peer = peer, la_module = ep_default_module ep\<rparr>"
      have eq: "handle_inbound_dplus bs peer now ep = (case ep_authorizer ep ?attempt of
          Ok a \<Rightarrow> (if module_of peer ?cl = None \<and>
                es_max_clients_per_module (ep_settings ep) \<le> length (members_of_module (ep_default_module ep) ?cl)
              then (Ok (build_dplus_reject_outcome peer RR_MaxClients), ep\<lparr>ep_clients := snd (pool_remove peer ?cl)\<rparr>)
              else ?go (Some a) None)
        | Err reject \<Rightarrow> (Ok (build_dplus_reject_outcome peer reject), ep\<lparr>ep_clients := snd (pool_remove peer ?cl)\<rparr>))"
        using False unfolding handle_inbound_dplus_def voice [symmetric] upd [symmetric]
        by (auto simp: contains_client c Let_def split: sum.split option.split)
      have "processed bs peer now ep (?go (Some a) None)"
        if "module_of peer ?cl \<noteq> None \<or> \<not> es_max_clients_per_module (ep_settings ep) \<le> length (members_of_module (ep_default_module ep) ?cl)"
          "ep_authorizer ep ?attempt = Ok a" for a
        by (rule go) (use that False lt c in \<open>auto simp: granted_def\<close>)
      then show ?thesis
        unfolding eq by (auto simp: build_dplus_reject_outcome_def split: sum.split intro!: processed_turned_away)
    next
      case other: False
      then have lt: "link_target bs ep = None" using t by (auto split: option.splits DPlusClientPacket.splits)
      let ?e = "case ?pkt of Some (DPlusC_VoiceEot _ seq) \<Rightarrow> FrameSequence_new (seq AND NOT 0x40) | _ \<Rightarrow> None"
      have skip: "(case ?pkt of Some (DPlusC_Link2 c) \<Rightarrow> f c | _ \<Rightarrow> g) = g" for f :: "DstarCallsign \<Rightarrow> 'x" and g
        using other by (auto split: option.split DPlusClientPacket.split)
      have "handle_inbound_dplus bs peer now ep = ?go None ?e"
        unfolding handle_inbound_dplus_def Let_def skip voice upd
        by (subst if_not_P, use False in \<open>simp add: contains_client\<close>)+ (rule refl)
      then show ?thesis using go [of None ?e] lt False by auto
    qed
  qed
qed

lemma inbound_processed: "processed bs peer now ep (handle_inbound bs peer now ep)"
  by (cases "ep_protocol ep") (simp_all add: handle_inbound_def processed_dextra processed_dplus processed_dcs)

section \<open>The endpoint's invariant\<close>

definition client_ok :: "'f ProtocolEndpoint \<Rightarrow> SocketAddr \<Rightarrow> 'f ClientHandle \<Rightarrow> bool" where
  "client_ok ep p h \<longleftrightarrow> (\<exists>ph. ph \<noteq> Gone \<and> handle_at (ep_protocol ep) p ph h) \<and>
     ss_reflector_module (ch_session h) \<in> set (ep_configured_modules ep) \<and>
     (ep_protocol ep = PK_DPlus \<longrightarrow> ss_reflector_module (ch_session h) = ep_default_module ep)"

definition config_ok :: "'f ProtocolEndpoint \<Rightarrow> bool" where
  "config_ok ep \<longleftrightarrow> ep_default_module ep \<in> set (ep_configured_modules ep) \<and> list_all Module_wf (ep_configured_modules ep)"

definition clients_ok :: "'f ProtocolEndpoint \<Rightarrow> bool" where
  "clients_ok ep \<longleftrightarrow>
     pool.within (es_max_total_clients (ep_settings ep)) (es_max_clients_per_module (ep_settings ep)) (ep_clients ep) \<and>
     (\<forall>p h. client_at (ep_clients ep) p = Some h \<longrightarrow> client_ok ep p h)"

definition ep_inv :: "'f ProtocolEndpoint \<Rightarrow> bool" where
  "ep_inv ep \<longleftrightarrow> config_ok ep \<and> clients_ok ep \<and> hm_wf (ep_stream_cache ep)"

lemma ep_inv_pool: "ep_inv ep \<Longrightarrow> pool_inv (ep_clients ep)"
  by (simp add: ep_inv_def clients_ok_def pool.within_def)

lemma ep_inv_client: "ep_inv ep \<Longrightarrow> client_at (ep_clients ep) p = Some h \<Longrightarrow> client_ok ep p h"
  by (simp add: ep_inv_def clients_ok_def)

text \<open>Only a link puts a session that was not placed on a module.\<close>

lemma follow_gains_module:
  assumes "follow (server_observe a m) es ph = Some ph'" "placement m ph = None" "placement m ph' \<noteq> None"
  shows "\<exists>c. ClientLinked a c m \<in> set es"
  using assms
proof (induction es arbitrary: ph)
  case (Cons e es)
  then obtain ph1 where ph1: "server_observe a m e ph = Some ph1" "follow (server_observe a m) es ph1 = Some ph'"
    by (auto split: option.splits)
  show ?case
  proof (cases "placement m ph1")
    case None
    then show ?thesis using Cons.IH [OF ph1(2)] Cons.prems(3) by auto
  next
    case (Some m1)
    then show ?thesis
      using ph1(1) Cons.prems(2) by (cases "(a, m, e, ph)" rule: server_observe.cases) (auto split: if_splits)
  qed
qed simp

lemma raw_linked:
  assumes "RawS_Linked a c m \<in> set (raw_events (ep_protocol ep) a r bs)" "ep_protocol ep = PK_DPlus \<Longrightarrow> r = ep_default_module ep"
  shows "link_target bs ep = Some m"
proof (cases "ep_protocol ep")
  case PK_DExtra
  then obtain pkt where "decoded (dextra_decode_client_to_server bs []) = Some pkt" "RawS_Linked a c m \<in> set (dextra_raw a pkt)"
    using assms(1) by (cases "decoded (dextra_decode_client_to_server bs [])") (auto simp: raw_events_def)
  then show ?thesis using PK_DExtra by (cases pkt) (auto simp: link_target_def)
next
  case PK_DPlus
  then obtain pkt where "decoded (dplus_decode_client_to_server bs []) = Some pkt" "RawS_Linked a c m \<in> set (dplus_raw a r pkt)"
    using assms(1) by (cases "decoded (dplus_decode_client_to_server bs [])") (auto simp: raw_events_def)
  then show ?thesis using PK_DPlus assms(2) by (cases pkt) (auto simp: link_target_def)
next
  case PK_Dcs
  then obtain pkt where "decoded (dcs_decode_client_to_server bs []) = Some pkt" "RawS_Linked a c m \<in> set (dcs_raw a pkt)"
    using assms(1) by (cases "decoded (dcs_decode_client_to_server bs [])") (auto simp: raw_events_def)
  then show ?thesis using PK_Dcs by (cases pkt) (auto simp: link_target_def split: if_splits)
qed

lemma linked_of_raw: "ClientLinked a c m = ServerEvent_of_raw e \<longleftrightarrow> e = RawS_Linked a c m"
  by (cases e) (auto simp: ServerEvent_of_raw_def)

lemma driven_link_target:
  assumes "driven (ep_protocol ep) p bs ph h outcome ph' h'" "ch_module h = None" "ch_module h' = Some m"
    "handle_at (ep_protocol ep) p ph h"
    "ep_protocol ep = PK_DPlus \<Longrightarrow> ss_reflector_module (ch_session h) = ep_default_module ep"
  shows "link_target bs ep = Some m"
proof -
  let ?r = "ss_reflector_module (ch_session h)"
  obtain es where es: "set es \<subseteq> set (raw_events (ep_protocol ep) p ?r bs)"
      "follow (server_observe p ?r) (map ServerEvent_of_raw es) ph = Some ph'"
    using assms(1) by (auto simp: driven_def)
  have m: "placement ?r ph = None" "placement ?r ph' = Some m"
    using assms by (auto simp: driven_def handle_at_def)
  then have "m = ?r" by (cases ph') auto
  moreover obtain c where "RawS_Linked p c ?r \<in> set es"
    using follow_gains_module [OF es(2)] m by (auto simp: linked_of_raw)
  ultimately show ?thesis using raw_linked [of p c ?r ep ?r bs] es(1) assms(5) by blast
qed

lemma drive_core_pool:
  assumes "pool_inv (ep_clients ep)" "drive_core peer bs now m acc ep = (r, ep1)"
    "client_at (ep_clients ep) peer = None \<Longrightarrow> h = with_tx_budget (TokenBucket_from_rate (ep_arith ep) (es_tx_rate_limit (ep_settings ep)) now)
       (ClientHandle_new (ep_arith ep) (ep_protocol ep) peer m ReadOnly now)"
    "client_at (ep_clients ep) peer \<noteq> None \<Longrightarrow> client_at (ep_clients ep) peer = Some h"
    "drive_handle (ep_protocol ep) bs now acc h = (r', h')" "ss_peer (ch_session h') = peer"
  shows "r = r' \<and> (\<exists>clients. ep1 = ep\<lparr>ep_clients := clients\<rparr> \<and> pool_inv clients \<and>
    client_at clients = (client_at (ep_clients ep))(peer :=
      (if ss_state (ch_session h') = SI_Closed \<or> (client_at (ep_clients ep) peer = None \<and> isl r') then None else Some h')))"
proof -
  let ?new = "with_tx_budget (TokenBucket_from_rate (ep_arith ep) (es_tx_rate_limit (ep_settings ep)) now)
      (ClientHandle_new (ep_arith ep) (ep_protocol ep) peer m ReadOnly now)"
  obtain clients where g: "get_or_try_update peer ?new (drive_handle (ep_protocol ep) bs now acc) (ep_clients ep) = (r, clients)"
      "ep1 = ep\<lparr>ep_clients := clients\<rparr>"
    using assms(2) by (auto simp: drive_core_def split: prod.splits)
  have "handle_or ?new peer (ep_clients ep) = h"
    using assms(3,4) by (auto simp: handle_or_def split: option.splits)
  moreover have "ch_module ?new = None" by (simp add: with_tx_budget_def ClientHandle_new_def)
  ultimately show ?thesis
    using get_or_try_update_pool [OF assms(1) _ _ g(1)] assms(5,6) g(2) by (auto simp: kept_def)
qed

lemma new_handle_at:
  "Module_wf m \<Longrightarrow> handle_at k p Absent (with_tx_budget b (ClientHandle_new fl k p m ReadOnly now))"
  using new_server_inv [of m k p] new_server_phase [of p m k]
  by (simp add: handle_at_def with_tx_budget_def ClientHandle_new_def ServerSessionCore_new_def outbox.new_contents)

lemma handle_at_not_gone: "handle_at k p ph h \<Longrightarrow> ss_state (ch_session h) = SI_Closed \<longleftrightarrow> ph = Gone"
  by (cases ph) (auto simp: handle_at_def server_phase_def split: option.splits)

lemma handle_at_peer: "handle_at k p ph h \<Longrightarrow> ss_peer (ch_session h) = p"
  by (simp add: handle_at_def server_phase_def)

lemma client_ok_clients [simp]:
  "client_ok (ep\<lparr>ep_clients := st\<rparr>) = client_ok ep" "client_ok (ep\<lparr>ep_stream_cache := c\<rparr>) = client_ok ep"
  "client_ok (ep\<lparr>ep_voice_bus := b\<rparr>) = client_ok ep" "client_ok (ep\<lparr>ep_pending_events := e\<rparr>) = client_ok ep"
  "client_ok (ep\<lparr>ep_last_keepalive_sent := t\<rparr>) = client_ok ep"
  by (auto simp: client_ok_def fun_eq_iff)

lemma ep_inv_updates [simp]:
  "ep_inv (ep\<lparr>ep_voice_bus := b\<rparr>) = ep_inv ep" "ep_inv (ep\<lparr>ep_pending_events := e\<rparr>) = ep_inv ep"
  "ep_inv (ep\<lparr>ep_last_keepalive_sent := t\<rparr>) = ep_inv ep"
  by (simp_all add: ep_inv_def clients_ok_def config_ok_def)

lemma ep_inv_cache: "ep_inv ep \<Longrightarrow> hm_wf c \<Longrightarrow> ep_inv (ep\<lparr>ep_stream_cache := c\<rparr>)"
  by (simp add: ep_inv_def clients_ok_def config_ok_def)

lemma ep_inv_store:
  assumes "ep_inv ep" "pool_inv st" "client_at st = (client_at (ep_clients ep))(p := v)"
    "\<And>h. v = Some h \<Longrightarrow> client_ok ep p h"
    "v \<noteq> None \<Longrightarrow> client_at (ep_clients ep) p = None \<Longrightarrow> pool_len (ep_clients ep) < es_max_total_clients (ep_settings ep)"
    "\<And>h m. v = Some h \<Longrightarrow> ch_module h = Some m \<Longrightarrow> module_of p (ep_clients ep) = Some m \<or>
       length (members_of_module m (ep_clients ep)) < es_max_clients_per_module (ep_settings ep)"
  shows "ep_inv (ep\<lparr>ep_clients := st\<rparr>)"
proof -
  have "pool.within (es_max_total_clients (ep_settings ep)) (es_max_clients_per_module (ep_settings ep)) st"
  proof (rule pool.within_store [OF _ assms(2,3,5)])
    show "p \<in> set (members_of_module m (ep_clients ep)) \<or>
        length (members_of_module m (ep_clients ep)) < es_max_clients_per_module (ep_settings ep)"
      if "v = Some h" "ch_module h = Some m" for h m
      using assms(6) [OF that] pool.members_exact [OF ep_inv_pool [OF assms(1)], of p m]
      by (auto simp: module_of_client split: option.splits)
  qed (use assms(1) in \<open>simp_all add: ep_inv_def clients_ok_def\<close>)
  then show ?thesis using assms(1,3,4) by (auto simp: ep_inv_def clients_ok_def config_ok_def split: if_splits)
qed

lemma ep_inv_touch:
  assumes "ep_inv ep" "pool_inv st" "client_at st = (client_at (ep_clients ep))(p := v)"
    "\<And>h'. v = Some h' \<Longrightarrow> \<exists>h. client_at (ep_clients ep) p = Some h \<and> ch_module h' = ch_module h \<and> client_ok ep p h'"
  shows "ep_inv (ep\<lparr>ep_clients := st\<rparr>)"
  using assms(4) by (intro ep_inv_store [OF assms(1-3)]) (auto simp: module_of_client)

lemma drive_core_cases:
  assumes inv: "ep_inv ep" and adm: "admissible bs peer m ep" and "drive_core peer bs now m acc ep = (r, ep1)"
  shows "\<exists>h ph clients. ep1 = ep\<lparr>ep_clients := clients\<rparr> \<and> ep_inv ep1 \<and> ph \<noteq> Gone \<and> handle_at (ep_protocol ep) peer ph h \<and>
    (case client_at (ep_clients ep) peer of None \<Rightarrow> ph = Absent \<and> ch_access h = ReadOnly | Some h0 \<Rightarrow> h0 = h) \<and>
    ((\<exists>e d h'. r = Err (Shell_Core e) \<and> ch_access h' = ch_access h \<and> ch_module h' = ch_module h \<and>
        ch_session h' = (ch_session h)\<lparr>ss_diagnostics := d\<rparr> \<and>
        client_at clients = (client_at (ep_clients ep))(peer := if client_at (ep_clients ep) peer = None then None else Some h')) \<or>
     (\<exists>outcome ph' h'. r = Ok outcome \<and> driven (ep_protocol ep) peer bs ph h outcome ph' h' \<and>
        client_at clients = (client_at (ep_clients ep))(peer := if ph' = Gone then None else Some h') \<and>
        access_from acc h h'))"
proof -
  let ?k = "ep_protocol ep" and ?cl = "ep_clients ep"
  let ?new = "with_tx_budget (TokenBucket_from_rate (ep_arith ep) (es_tx_rate_limit (ep_settings ep)) now)
      (ClientHandle_new (ep_arith ep) ?k peer m ReadOnly now)"
  define h where "h = (case client_at ?cl peer of None \<Rightarrow> ?new | Some h \<Rightarrow> h)"
  let ?r = "ss_reflector_module (ch_session h)"
  have "\<exists>ph. ph \<noteq> Gone \<and> handle_at ?k peer ph h \<and> (client_at ?cl peer = None \<longrightarrow> ph = Absent \<and> ch_access h = ReadOnly) \<and>
      ?r \<in> set (ep_configured_modules ep) \<and> (?k = PK_DPlus \<longrightarrow> ?r = ep_default_module ep)"
  proof (cases "client_at ?cl peer")
    case None
    then have "Module_wf m" "m \<in> set (ep_configured_modules ep)" "?k = PK_DPlus \<longrightarrow> m = ep_default_module ep"
      using adm inv by (auto simp: admissible_def ep_inv_def config_ok_def list_all_iff)
    then show ?thesis
      using None new_handle_at [of m ?k peer] by (auto simp: h_def with_tx_budget_def ClientHandle_new_def ServerSessionCore_new_def)
  qed (use ep_inv_client [OF inv] in \<open>auto simp: h_def client_ok_def\<close>)
  then obtain ph where ph: "ph \<noteq> Gone" "handle_at ?k peer ph h" "client_at ?cl peer = None \<longrightarrow> ph = Absent \<and> ch_access h = ReadOnly"
    and served: "?r \<in> set (ep_configured_modules ep)" "?k = PK_DPlus \<longrightarrow> ?r = ep_default_module ep"
    by (elim exE conjE)
  obtain r' h' where dh: "drive_handle ?k bs now acc h = (r', h')" by (cases "drive_handle ?k bs now acc h")
  note cases = drive_handle_cases [OF ph(2) dh]
  have "\<exists>ph'. handle_at ?k peer ph' h'" using cases unfolding driven_def by blast
  then have sess: "ss_peer (ch_session h') = peer" "ss_reflector_module (ch_session h') = ?r"
    using handle_at_peer cases unfolding driven_def by (blast, elim disjE exE conjE) simp_all
  let ?v = "if ss_state (ch_session h') = SI_Closed \<or> (client_at ?cl peer = None \<and> isl r') then None else Some h'"
  have stored: "client_at ?cl peer = None \<Longrightarrow> h = ?new" "client_at ?cl peer \<noteq> None \<Longrightarrow> client_at ?cl peer = Some h"
    by (auto simp: h_def)
  obtain clients where r: "r = r'" and ep1: "ep1 = ep\<lparr>ep_clients := clients\<rparr>" "pool_inv clients"
      "client_at clients = (client_at ?cl)(peer := ?v)"
    using drive_core_pool [OF ep_inv_pool [OF inv] assms(3) stored dh sess(1)] by blast
  have module: "module_of peer ?cl = ch_module h"
    using ph by (auto simp: module_of_client h_def handle_at_def split: option.splits)
  have "ep_inv ep1"
    unfolding ep1(1)
  proof (rule ep_inv_store [OF inv ep1(2,3)])
    fix h1 assume v: "?v = Some h1"
    then have h1: "h1 = h'" "ss_state (ch_session h') \<noteq> SI_Closed" by (auto split: if_splits)
    show "client_ok ep peer h1"
      using cases h1 served sess handle_at_not_gone [of ?k peer _ h'] by (auto simp: client_ok_def driven_def)
    fix m1 assume m1: "ch_module h1 = Some m1"
    show "module_of peer ?cl = Some m1 \<or> length (members_of_module m1 ?cl) < es_max_clients_per_module (ep_settings ep)"
    proof (cases "ch_module h = Some m1")
      case False
      then obtain outcome ph' where dr: "driven ?k peer bs ph h outcome ph' h'" using cases h1 m1 by auto
      then have "ch_module h = None"
        using False m1 h1 ph(2) sess(2) by (cases ph; cases ph') (auto simp: driven_def handle_at_def)
      then show ?thesis
        using driven_link_target [OF dr _ _ ph(2), of m1] m1 h1 served(2) adm module by (auto simp: admissible_def)
    qed (simp add: module)
  qed (use adm in \<open>auto simp: admissible_def\<close>)
  moreover have "case client_at ?cl peer of None \<Rightarrow> ph = Absent \<and> ch_access h = ReadOnly | Some h0 \<Rightarrow> h0 = h"
    using ph(3) by (simp add: h_def split: option.split)
  moreover have "(\<exists>e d h'. r = Err (Shell_Core e) \<and> ch_access h' = ch_access h \<and> ch_module h' = ch_module h \<and>
        ch_session h' = (ch_session h)\<lparr>ss_diagnostics := d\<rparr> \<and>
        client_at clients = (client_at ?cl)(peer := if client_at ?cl peer = None then None else Some h')) \<or>
      (\<exists>outcome ph' h'. r = Ok outcome \<and> driven ?k peer bs ph h outcome ph' h' \<and>
        client_at clients = (client_at ?cl)(peer := if ph' = Gone then None else Some h') \<and>
        access_from acc h h')"
    using cases
  proof (elim disjE exE conjE)
    fix e d assume e: "r' = Err (Shell_Core e)" "handle_at ?k peer ph h'" "ch_module h' = ch_module h"
      "ch_access h' = ch_access h" "ch_session h' = (ch_session h)\<lparr>ss_diagnostics := d\<rparr>"
    then have "?v = (if client_at ?cl peer = None then None else Some h')" using handle_at_not_gone [OF e(2)] ph(1) by simp
    then show ?thesis using e ep1(3) r by (intro disjI1 exI [of _ e] exI [of _ d] exI [of _ h'] conjI) simp_all
  next
    fix outcome ph' assume o: "r' = Ok outcome" "driven ?k peer bs ph h outcome ph' h'"
      "access_from acc h h'"
    then have "handle_at ?k peer ph' h'" by (simp add: driven_def)
    then have "?v = (if ph' = Gone then None else Some h')" using handle_at_not_gone o(1) by auto
    then show ?thesis using o ep1(3) r by (intro disjI2, intro exI [of _ outcome] exI [of _ ph'] exI [of _ h'] conjI) simp_all
  qed
  ultimately show ?thesis
    using ep1(1) ph(1,2) by (intro exI [of _ h] exI [of _ ph] exI [of _ clients] conjI)
qed

section \<open>Bookkeeping that leaves the clients where they are\<close>

definition same_client :: "'f ClientHandle \<Rightarrow> 'f ClientHandle \<Rightarrow> bool" where
  "same_client h h' \<longleftrightarrow> ch_session h' = ch_session h \<and> ch_module h' = ch_module h \<and> ch_access h' = ch_access h"

definition touched :: "'f PoolState \<Rightarrow> 'f PoolState \<Rightarrow> bool" where
  "touched st st' \<longleftrightarrow> pool_inv st' \<and> (\<forall>p. rel_option same_client (client_at st p) (client_at st' p))"

lemma touched_refl: "pool_inv st \<Longrightarrow> touched st st"
  by (simp add: touched_def same_client_def option.rel_refl)

lemma touched_trans: "touched st st' \<Longrightarrow> touched st' st'' \<Longrightarrow> touched st st''"
  unfolding touched_def
proof (elim conjE, intro conjI allI)
  fix p assume "\<forall>p. rel_option same_client (client_at st p) (client_at st' p)" "\<forall>p. rel_option same_client (client_at st' p) (client_at st'' p)"
  then have "rel_option same_client (client_at st p) (client_at st' p)" "rel_option same_client (client_at st' p) (client_at st'' p)" by blast+
  then show "rel_option same_client (client_at st p) (client_at st'' p)"
    by (auto simp: same_client_def elim!: option.rel_cases)
qed

lemma touched_update:
  assumes "pool_inv st" "\<And>h. same_client h (f h)"
  shows "touched st (update_handle p f st)"
  using update_handle_pool [OF assms(1), of f p] assms(2)
  by (auto simp: touched_def same_client_def option.rel_map option.rel_refl)

lemma touched_inv: "touched st st' \<Longrightarrow> pool_inv st'"
  by (simp add: touched_def)

lemma touched_at: "touched st st' \<Longrightarrow> rel_option same_client (client_at st p) (client_at st' p)"
  by (simp add: touched_def)

lemma touched_ops:
  assumes "pool_inv st"
  shows "touched st (record_send_success p st)" "touched st (record_last_heard p now st)" "touched st (snd (mark_unhealthy p st))"
    "touched st (snd (try_consume_tx_token fl p now st))"
proof -
  show "touched st (record_send_success p st)" "touched st (record_last_heard p now st)" "touched st (snd (mark_unhealthy p st))"
    using touched_update [OF assms]
    by (simp_all add: record_send_success_def record_last_heard_def mark_unhealthy_def count_failure_def same_client_def Let_def)
  have "snd (try_consume_tx_token fl p now st) =
      update_handle p (\<lambda>h. h\<lparr>ch_tx_budget := snd (try_consume fl now 1 (ch_tx_budget h))\<rparr>) st"
    by (simp add: try_consume_tx_token_def update_handle_def split: option.split prod.split)
  then show "touched st (snd (try_consume_tx_token fl p now st))"
    using touched_update [OF assms] by (simp add: same_client_def)
qed

lemma touched_module: "touched st st' \<Longrightarrow> module_of p st' = module_of p st"
  using touched_at [of st st' p] by (auto simp: module_of_client same_client_def elim: option.rel_cases)

lemma touched_access: "touched st st' \<Longrightarrow> access_of p st' = access_of p st"
  using touched_at [of st st' p] by (auto simp: access_of_def client_at_def [symmetric] same_client_def elim: option.rel_cases)

lemma touched_counts:
  assumes "pool_inv st" "touched st st'"
  shows "pool_len st' = pool_len st" "length (members_of_module m st') = length (members_of_module m st)"
proof -
  note inv' = touched_inv [OF assms(2)]
  have none: "client_at st' p = None \<longleftrightarrow> client_at st p = None" for p
    using touched_at [OF assms(2), of p] by (auto elim: option.rel_cases)
  then have "dom (client_at st') = dom (client_at st)" by (simp only: dom_def)
  then show "pool_len st' = pool_len st" using pool.count_exact [OF assms(1)] pool.count_exact [OF inv'] by simp
  have "p \<in> set (members_of_module m st') \<longleftrightarrow> p \<in> set (members_of_module m st)" for p
    using touched_at [OF assms(2), of p]
    by (auto simp: pool.members_exact [OF assms(1)] pool.members_exact [OF inv'] same_client_def elim!: option.rel_cases)
  then have "set (members_of_module m st') = set (members_of_module m st)" by blast
  then show "length (members_of_module m st') = length (members_of_module m st)"
    using distinct_card [OF pool.members_distinct [OF assms(1), of m]] distinct_card [OF pool.members_distinct [OF inv', of m]] by simp
qed

lemma client_ok_same: "same_client h h' \<Longrightarrow> client_ok ep p h' = client_ok ep p h"
  by (simp add: client_ok_def same_client_def handle_at_def)

lemma ep_inv_touched:
  assumes "ep_inv ep" "touched (ep_clients ep) st"
  shows "ep_inv (ep\<lparr>ep_clients := st\<rparr>)"
proof -
  note p = ep_inv_pool [OF assms(1)]
  have "client_ok ep q h'" if "client_at st q = Some h'" for q h'
    using touched_at [OF assms(2), of q] that ep_inv_client [OF assms(1), of q] by (auto simp: client_ok_same elim: option.rel_cases)
  then show ?thesis
    using assms touched_counts [OF p assms(2)] touched_inv [OF assms(2)]
    by (simp add: ep_inv_def clients_ok_def config_ok_def pool.within_def)
qed

lemma ep_inv_evict: "ep_inv ep \<Longrightarrow> ep_inv (evict_peer peer reason ep)"
  unfolding evict_peer_def
  using ep_inv_store [of ep "snd (pool_remove peer (ep_clients ep))" peer None] pool_remove_pool [OF ep_inv_pool, of ep peer]
  by (simp add: ep_inv_def clients_ok_def config_ok_def)

lemma fan_out_touched:
  assumes "pool_inv clients" "fan_out_members fl send from bs now peers report clients = (sent, report', clients')"
  shows "touched clients clients'"
  using assms
proof (induction peers arbitrary: report clients sent)
  case Nil
  then show ?case by (simp add: touched_refl)
next
  case (Cons peer peers)
  obtain granted c1 where t: "try_consume_tx_token fl peer now clients = (granted, c1)" by fastforce
  have c1: "touched clients c1" using touched_ops(4) [OF Cons.prems(1), of fl peer now] t by simp
  then have inv1: "pool_inv c1" by (rule touched_inv)
  note ops = touched_ops [OF inv1]
  obtain health c2 where u: "mark_unhealthy peer c1 = (health, c2)" by fastforce
  then have c2: "touched c1 c2" using ops(3) [of peer] by simp
  have step: "touched clients clients'"
    if "touched c1 c" "fan_out_members fl send from bs now peers rep c = (sent', report', clients')" for c rep sent'
    using touched_trans [OF c1 touched_trans [OF that(1) Cons.IH [OF touched_inv [OF that(1)] that(2)]]] .
  show ?case
    using Cons.prems(2) t u Cons.IH [OF Cons.prems(1)] step [OF touched_refl [OF inv1]] step [OF c2] step [OF ops(1)]
    by (cases granted) (auto simp: apfst_def map_prod_def Let_def split: if_splits sum.splits prod.splits)
qed

lemma send_replies_touched:
  assumes "pool_inv clients"
  shows "touched clients (snd (send_replies send txs ev clients))"
  using assms
proof (induction txs arbitrary: ev clients)
  case Nil
  then show ?case by (simp add: touched_refl)
next
  case (Cons tx txs)
  obtain payload dst where tx: "tx = (payload, dst)" by (cases tx)
  obtain health c2 where u: "mark_unhealthy dst clients = (health, c2)" by fastforce
  have c2: "touched clients c2" using touched_ops(3) [OF Cons.prems, of dst] u by simp
  note ok = touched_ops(1) [OF Cons.prems, of dst]
  show ?case
    using tx u touched_trans [OF c2 Cons.IH [OF touched_inv [OF c2]]] touched_trans [OF ok Cons.IH [OF touched_inv [OF ok]]]
    by (auto split: sum.split)
qed

section \<open>Every step keeps the invariant\<close>

lemma cache_update_only:
  "\<exists>c. snd (cache_update k bs peer now ep) = ep\<lparr>ep_stream_cache := c\<rparr> \<and> (hm_wf (ep_stream_cache ep) \<longrightarrow> hm_wf c)"
proof -
  have id: "\<exists>c. ep = ep\<lparr>ep_stream_cache := c\<rparr> \<and> (hm_wf (ep_stream_cache ep) \<longrightarrow> hm_wf c)"
    by (rule exI [of _ "ep_stream_cache ep"]) simp
  have arms: "\<exists>c. cache_voice_header m i h b peer now ep = ep\<lparr>ep_stream_cache := c\<rparr> \<and> (hm_wf (ep_stream_cache ep) \<longrightarrow> hm_wf c)"
    "\<exists>c. snd (cache_voice_data m i peer now ep) = ep\<lparr>ep_stream_cache := c\<rparr> \<and> (hm_wf (ep_stream_cache ep) \<longrightarrow> hm_wf c)"
    "\<exists>c. cache_voice_eot m i peer ep = ep\<lparr>ep_stream_cache := c\<rparr> \<and> (hm_wf (ep_stream_cache ep) \<longrightarrow> hm_wf c)" for m i h b
    using id by (auto simp: cache_voice_header_def cache_voice_data_def cache_voice_eot_def hm.wf_insert hm.wf_remove Let_def split: option.split)
  have "\<exists>c. snd (update_stream_cache_dextra pkt bs peer now ep) = ep\<lparr>ep_stream_cache := c\<rparr> \<and> (hm_wf (ep_stream_cache ep) \<longrightarrow> hm_wf c)" for pkt
    using id arms by (auto simp: update_stream_cache_dextra_def split: option.split DExtraClientPacket.split)
  moreover have "\<exists>c. snd (update_stream_cache_dplus pkt bs peer now ep) = ep\<lparr>ep_stream_cache := c\<rparr> \<and> (hm_wf (ep_stream_cache ep) \<longrightarrow> hm_wf c)" for pkt
    using id arms by (auto simp: update_stream_cache_dplus_def split: option.split DPlusClientPacket.split)
  moreover have "\<exists>c. update_stream_cache_dcs pkt peer now ep = ep\<lparr>ep_stream_cache := c\<rparr> \<and> (hm_wf (ep_stream_cache ep) \<longrightarrow> hm_wf c)" for pkt
    using id by (auto simp: update_stream_cache_dcs_def hm.wf_insert hm.wf_remove Let_def split: option.split DcsClientPacket.split)
  ultimately show ?thesis using id by (simp add: cache_update_def split: ProtocolKind.split option.split)
qed

lemma after_drive_Ok:
  fixes ep :: "'f ProtocolEndpoint"
  assumes "after_drive peer now update e (Ok outcome, ep) = (r, ep')"
  defines "ep2 \<equiv> ep\<lparr>ep_clients := record_last_heard peer now (ep_clients ep)\<rparr>"
  defines "fwd \<equiv> select_voice_hint (eo_events outcome) peer ep2"
  defines "ep3 \<equiv> if fwd = None then ep2 else snd (update ep2)"
  shows "r = Ok (outcome\<lparr>eo_forward := fwd, eo_header_retransmit := (if fwd = None then None else fst (update ep2)),
      eo_events := eo_events outcome @ ep_pending_events ep3\<rparr>)"
    "\<exists>b. ep' = ep3\<lparr>ep_voice_bus := b, ep_pending_events := []\<rparr> \<and> (fwd = None \<longrightarrow> b = ep_voice_bus ep)"
proof -
  have bus: "\<exists>b. publish_voice_events o2 peer pre e ep3 = ep3\<lparr>ep_voice_bus := b\<rparr> \<and> (eo_forward o2 = None \<longrightarrow> b = ep_voice_bus ep3)" for o2 pre
    by (auto simp: publish_voice_events_def split: option.split intro: exI [of _ "ep_voice_bus ep3"])
  obtain ret upd where u: "update ep2 = (ret, upd)" by (cases "update ep2")
  define o2 where "o2 = outcome\<lparr>eo_forward := fwd, eo_header_retransmit := (if fwd = None then None else ret)\<rparr>"
  obtain b where b: "publish_voice_events o2 peer (module_cached_header_of_peer peer ep2) e ep3 = ep3\<lparr>ep_voice_bus := b\<rparr>"
      "fwd = None \<longrightarrow> b = ep_voice_bus ep3"
    using bus [of o2] by (auto simp: o2_def)
  have res: "(r, ep') = (Ok (o2\<lparr>eo_events := eo_events o2 @ ep_pending_events ep3\<rparr>), ep3\<lparr>ep_voice_bus := b, ep_pending_events := []\<rparr>)"
    unfolding assms(1) [symmetric] after_drive_def prod.case sum.case Let_def ep2_def [symmetric] fwd_def [symmetric]
    using b(1) u by (cases fwd) (simp_all add: ep3_def o2_def drain_pending_events_def)
  then show "r = Ok (outcome\<lparr>eo_forward := fwd, eo_header_retransmit := (if fwd = None then None else fst (update ep2)),
      eo_events := eo_events outcome @ ep_pending_events ep3\<rparr>)" by (simp add: o2_def u)
  show "\<exists>b. ep' = ep3\<lparr>ep_voice_bus := b, ep_pending_events := []\<rparr> \<and> (fwd = None \<longrightarrow> b = ep_voice_bus ep)"
    using res b(2) by (intro exI [of _ b]) (auto simp: ep3_def ep2_def)
qed

lemma ep_inv_heard: "ep_inv ep \<Longrightarrow> ep_inv (ep\<lparr>ep_clients := record_last_heard peer now (ep_clients ep)\<rparr>)"
  by (rule ep_inv_touched [OF _ touched_ops(2) [OF ep_inv_pool]])

lemma ep_inv_cache_update: "ep_inv ep \<Longrightarrow> ep_inv (snd (cache_update k bs peer now ep))"
  using cache_update_only [of k bs peer now ep] ep_inv_cache [of ep] by (auto simp: ep_inv_def)

lemma ep_inv_inbound:
  assumes "ep_inv ep"
  shows "ep_inv (snd (handle_inbound bs peer now ep))"
  using inbound_processed [of bs peer now ep] unfolding processed_def
proof (elim disjE exE conjE)
  fix outcome ep' assume r: "handle_inbound bs peer now ep = (Ok outcome, ep')" "turned_away peer now ep outcome ep'"
  have "ep_inv (ep\<lparr>ep_clients := snd (pool_remove peer (ep_clients ep))\<rparr>)"
    using ep_inv_evict [OF assms, of peer] by (simp add: evict_peer_def)
  then show ?thesis using r assms ep_inv_heard [OF assms, of peer now] by (auto simp: turned_away_def)
next
  assume "passed_on bs peer now ep (handle_inbound bs peer now ep)"
  then obtain m acc e where adm: "admissible bs peer m ep" and res: "handle_inbound bs peer now ep =
      after_drive peer now (cache_update (ep_protocol ep) bs peer now) e (drive_core peer bs now m acc ep)"
    by (auto simp: passed_on_def)
  obtain r ep1 where d: "drive_core peer bs now m acc ep = (r, ep1)" by (cases "drive_core peer bs now m acc ep")
  have inv1: "ep_inv ep1" using drive_core_cases [OF assms adm d] by blast
  show ?thesis
  proof (cases r)
    case (Inl x)
    then show ?thesis using res d inv1 by (simp add: after_drive_def)
  next
    case (Inr outcome)
    obtain r2 ep' where a: "after_drive peer now (cache_update (ep_protocol ep) bs peer now) e (Ok outcome, ep1) = (r2, ep')" by fastforce
    have "ep_inv ep'"
      using after_drive_Ok(2) [OF a] ep_inv_heard [OF inv1, of peer now] ep_inv_cache_update by (auto split: if_splits)
    then show ?thesis using res d Inr a by simp
  qed
qed

lemma ep_inv_evict_all: "ep_inv ep \<Longrightarrow> ep_inv (evict_all reason peers ep)"
  unfolding evict_all_def by (induction peers arbitrary: ep) (simp_all add: ep_inv_evict)

lemma ep_inv_evict_idle: "ep_inv ep \<Longrightarrow> ep_inv (evict_idle now ep)"
proof -
  have "ep_inv (fold (\<lambda>entry ep. if es_keepalive_inactivity_timeout (ep_settings ep) \<le> saturating_duration_since now (cs_last_heard entry)
      then evict_peer (cs_peer entry) reason ep else ep) entries ep)" if "ep_inv ep" for entries reason and ep :: "'a ProtocolEndpoint"
    using that by (induction entries arbitrary: ep) (simp_all add: ep_inv_evict)
  then show "ep_inv ep \<Longrightarrow> ep_inv (evict_idle now ep)" by (simp add: evict_idle_def)
qed

lemma ep_inv_wf: "ep_inv ep \<Longrightarrow> hm_wf (ep_stream_cache ep)"
  by (simp add: ep_inv_def)

lemma ep_inv_tick:
  assumes "ep_inv ep"
  shows "ep_inv (snd (handle_tick now ep))"
proof -
  note idle = ep_inv_evict_idle [OF assms, of now]
  show ?thesis
    using ep_inv_cache [OF idle hm.wf_retain [OF ep_inv_wf [OF idle]]] by (simp add: handle_tick_def Let_def)
qed

lemma ep_inv_send_replies: "ep_inv ep \<Longrightarrow> ep_inv (ep\<lparr>ep_clients := snd (send_replies send txs ev (ep_clients ep))\<rparr>)"
  by (rule ep_inv_touched [OF _ send_replies_touched [OF ep_inv_pool]])

lemma ep_inv_fan_out:
  assumes "ep_inv ep" "fan_out_voice_at fl send from m bs now (ep_clients ep) = (sent, report, clients)"
  shows "ep_inv (ep\<lparr>ep_clients := clients\<rparr>)"
  using ep_inv_touched [OF assms(1) fan_out_touched [OF ep_inv_pool [OF assms(1)]]] assms(2) unfolding fan_out_voice_at_def by blast

lemma ep_inv_fan_out_outcome:
  assumes "ep_inv ep" "fan_out_outcome send send2 outcome peer bs t t2 ev ep = (sent, ev', ep')"
  shows "ep_inv ep'"
proof (cases "eo_forward outcome")
  case (Some hint)
  obtain s1 r1 c1 where f1: "fan_out_voice_at (ep_arith ep) send peer (fst (hint_parts hint)) bs t (ep_clients ep) = (s1, r1, c1)"
    using prod_cases3 by blast
  have inv1: "ep_inv (ep\<lparr>ep_clients := c1\<rparr>)" by (rule ep_inv_fan_out [OF assms(1) f1])
  show ?thesis
  proof (cases "eo_header_retransmit outcome")
    case (Some cached)
    obtain s2 r2 c2 where f2: "fan_out_voice_at (ep_arith ep) send2 peer (fst (hint_parts hint)) cached t2 c1 = (s2, r2, c2)"
      using prod_cases3 by blast
    have "ep_inv (ep\<lparr>ep_clients := c2\<rparr>)" using ep_inv_fan_out [OF inv1, of "ep_arith ep" send2 peer _ cached t2] f2 by simp
    then show ?thesis using assms(2) \<open>eo_forward outcome = Some hint\<close> f1 f2 Some by (auto simp: fan_out_outcome_def Let_def)
  qed (use assms(2) Some f1 inv1 in \<open>auto simp: fan_out_outcome_def Let_def\<close>)
qed (use assms in \<open>simp add: fan_out_outcome_def\<close>)

lemma ep_inv_datagram:
  assumes "ep_inv ep"
  shows "ep_inv (snd (run_one_tick env bs peer now ep))"
proof -
  obtain r ep1 where h: "handle_inbound bs peer now ep = (r, ep1)" by (cases "handle_inbound bs peer now ep")
  have inv1: "ep_inv ep1" using ep_inv_inbound [OF assms, of bs peer now] h by simp
  show ?thesis
  proof (cases r)
    case (Inr outcome)
    obtain ev cl where s: "send_replies (pe_replies env) (eo_txs outcome) [] (ep_clients ep1) = (ev, cl)" by fastforce
    have inv2: "ep_inv (ep1\<lparr>ep_clients := cl\<rparr>)"
      using ep_inv_send_replies [OF inv1, of "pe_replies env" "eo_txs outcome" "[]"] s by simp
    obtain v ev2 ep3 where f: "fan_out_outcome (pe_voice env) (pe_header env) outcome peer bs (pe_voice_at env) (pe_header_at env) ev
        (ep1\<lparr>ep_clients := cl\<rparr>) = (v, ev2, ep3)" using prod_cases3 by blast
    show ?thesis
      using ep_inv_evict_all [OF ep_inv_fan_out_outcome [OF inv2 f]] h Inr s f by (simp add: run_one_tick_def Let_def)
  qed (use h inv1 in \<open>simp add: run_one_tick_def\<close>)
qed

lemma ep_inv_maintenance:
  assumes "ep_inv ep"
  shows "ep_inv (snd (run_maintenance send now ep))"
proof -
  obtain txs ep1 where t: "handle_tick now ep = (txs, ep1)" by fastforce
  then have "ep_inv ep1" using ep_inv_tick [OF assms, of now] by simp
  from ep_inv_evict_all [OF ep_inv_send_replies [OF this, of send txs "[]"]] show ?thesis
    using t by (cases "send_replies send txs [] (ep_clients ep1)") (simp add: run_maintenance_def)
qed

lemma track_bus_event_only:
  assumes "track_bus_event event now ep = Some ep'"
  shows "\<exists>c. ep' = ep\<lparr>ep_stream_cache := c\<rparr> \<and> (hm_wf (ep_stream_cache ep) \<longrightarrow> hm_wf c)"
proof -
  have "\<exists>c. ep = ep\<lparr>ep_stream_cache := c\<rparr> \<and> (hm_wf (ep_stream_cache ep) \<longrightarrow> hm_wf c)"
    by (rule exI [of _ "ep_stream_cache ep"]) simp
  then show ?thesis
    using assms by (auto simp: track_bus_event_def Let_def hm.wf_insert hm.wf_remove split: if_splits VoiceEvent.splits option.splits)
qed

lemma ep_inv_bus_event:
  assumes "ep_inv ep"
  shows "ep_inv (snd (handle_cross_protocol_event send event now t ep))"
proof (cases "xe_source_protocol event = ep_protocol ep \<or> track_bus_event event now ep = None")
  case False
  then obtain ep1 where tr: "track_bus_event event now ep = Some ep1" by auto
  have inv1: "ep_inv ep1" using track_bus_event_only [OF tr] ep_inv_cache [OF assms] ep_inv_wf [OF assms] by auto
  obtain r scratch where v: "transcode_voice (ep_protocol ep1) (xe_event event) (xe_cached_header event) (replicate 2048 0) = (r, scratch)"
    by fastforce
  have "ep_inv (evict_all reason evicted (ep1\<lparr>ep_clients := clients\<rparr>))"
    if "fan_out_voice_at (ep_arith ep1) send src m payload t (ep_clients ep1) = (sent, report, clients)"
    for src m payload sent report clients evicted reason
    by (rule ep_inv_evict_all [OF ep_inv_fan_out [OF inv1 that]])
  then show ?thesis
    using False tr inv1 v
    by (auto simp: handle_cross_protocol_event_def Let_def split: sum.split option.split prod.split)
qed (use assms in \<open>auto simp: handle_cross_protocol_event_def\<close>)

lemma ep_inv_step: "ep_inv ep \<Longrightarrow> ep_inv (snd (endpoint_step op ep))"
  by (cases op) (simp_all add: ep_inv_datagram ep_inv_maintenance ep_inv_bus_event)

lemma snd_run_steps: "snd (run_steps f (x # xs) s) = snd (run_steps f xs (snd (f x s)))"
  by (simp split: prod.split)

lemma ep_inv_run: "ep_inv ep \<Longrightarrow> ep_inv (snd (run_steps endpoint_step ops ep))"
  by (induction ops arbitrary: ep) (simp_all only: snd_run_steps ep_inv_step, simp)

end
