(* ===== verification/Reflector_Sample.thy ===== *)
theory Reflector_Sample
  imports Reflector_Runs
begin

text \<open>
  A reflector endpoint at work, the concrete run that the theorems on endpoints are applied to: a
  DExtra endpoint with one module and whole numbers in place of the floating-point budgets; two
  clients link, one transmits, the end of its transmission is lost, and a sweep frees the module.
\<close>

section \<open>The endpoint and its clients\<close>

definition sample_arith :: "nat F64" where
  "sample_arith = \<lparr>f_of_u32 = id, f_secs = (\<lambda>d. d div from_secs 1), f_finite = (\<lambda>_. True), f_less = (<), f_le = (\<le>),
     f_add = (+), f_sub = (-), f_mul = (*), f_min = min, f_max = max\<rparr>"

definition sample_settings :: "nat EndpointSettings" where
  "sample_settings = \<lparr>es_reflector_callsign = DstarCallsign [0x58, 0x52, 0x46, 0x30, 0x33, 0x30, 0x20, 0x20],
     es_tx_rate_limit = FrameRate 60, es_max_total_clients = 250, es_max_clients_per_module = 50,
     es_keepalive_interval = from_secs 1, es_keepalive_inactivity_timeout = from_secs 30,
     es_voice_inactivity_timeout = from_secs 2\<rparr>"

abbreviation module_C :: DstarModule where "module_C \<equiv> DstarModule 0x43"

definition sample_at :: "nat PoolState \<Rightarrow> (DstarModule, StreamCache) hashmap \<Rightarrow> instant option \<Rightarrow> nat ProtocolEndpoint" where
  "sample_at st cache swept = \<lparr>ep_arith = sample_arith, ep_protocol = PK_DExtra, ep_clients = st,
     ep_default_module = module_C, ep_configured_modules = [module_C], ep_stream_cache = cache,
     ep_authorizer = AllowAllAuthorizer, ep_pending_events = [], ep_voice_bus = None, ep_settings = sample_settings,
     ep_last_keepalive_sent = swept\<rparr>"

lemma sample_at_fields [simp]:
  "ep_arith (sample_at st c l) = sample_arith" "ep_protocol (sample_at st c l) = PK_DExtra" "ep_clients (sample_at st c l) = st"
  "ep_default_module (sample_at st c l) = module_C" "ep_configured_modules (sample_at st c l) = [module_C]"
  "ep_stream_cache (sample_at st c l) = c" "ep_authorizer (sample_at st c l) = AllowAllAuthorizer"
  "ep_pending_events (sample_at st c l) = []" "ep_voice_bus (sample_at st c l) = None" "ep_settings (sample_at st c l) = sample_settings"
  "ep_last_keepalive_sent (sample_at st c l) = l"
  "(sample_at st c l)\<lparr>ep_clients := st'\<rparr> = sample_at st' c l" "(sample_at st c l)\<lparr>ep_stream_cache := c'\<rparr> = sample_at st c' l"
  "(sample_at st c l)\<lparr>ep_pending_events := []\<rparr> = sample_at st c l" "(sample_at st c l)\<lparr>ep_last_keepalive_sent := l'\<rparr> = sample_at st c l'"
  by (simp_all add: sample_at_def)

lemma settings_fields [simp]:
  "es_tx_rate_limit sample_settings = FrameRate 60" "es_max_total_clients sample_settings = 250"
  "es_max_clients_per_module sample_settings = 50" "es_keepalive_interval sample_settings = from_secs 1"
  "es_keepalive_inactivity_timeout sample_settings = from_secs 30" "es_voice_inactivity_timeout sample_settings = from_secs 2"
  by (simp_all add: sample_settings_def)

lemma sample_endpoint_new:
  "ProtocolEndpoint_new sample_arith PK_DExtra module_C AllowAllAuthorizer None sample_settings [module_C] =
     Some (sample_at ClientPool_new [] None)"
  "list_all Module_wf [module_C]"
  by (simp_all add: ProtocolEndpoint_new_def sample_at_def Module_wf_def is_ascii_uppercase_def)

definition sample_talker :: SocketAddr where "sample_talker = SocketAddr (IpV4 192 0 2 1) 30001"
definition sample_listener :: SocketAddr where "sample_listener = SocketAddr (IpV4 192 0 2 2) 30001"

lemma sample_addresses [simp]: "sample_talker \<noteq> sample_listener" "sample_listener \<noteq> sample_talker"
  by (simp_all add: sample_talker_def sample_listener_def)

definition all_sent :: "instant \<Rightarrow> pass_env" where
  "all_sent t = \<lparr>pe_replies = (\<lambda>_. Ok ()), pe_voice = (\<lambda>_. Ok ()), pe_header = (\<lambda>_. Ok ()), pe_voice_at = t, pe_header_at = t\<rparr>"

lemma all_sent_fields [simp]:
  "pe_replies (all_sent t) p = Ok ()" "pe_voice (all_sent t) p = Ok ()" "pe_header (all_sent t) p = Ok ()" "pe_voice_at (all_sent t) = t"
  by (simp_all add: all_sent_def)

section \<open>The sessions\<close>

definition sample_link :: bytes where
  "sample_link = dextra_client_wire (DxLink sample_identity module_C)"

definition talk_header :: "StreamId \<Rightarrow> bytes" where
  "talk_header i = dextra_client_wire (DxHeader i sample_dstar_header)"

abbreviation link_callsign :: DstarCallsign where "link_callsign \<equiv> RoutingCallsign_callsign (ri_callsign sample_identity)"
abbreviation received_header :: DstarHeader where "received_header \<equiv> DstarHeader_with_flags sample_dstar_header HeaderFlags_NONE"

definition sample_reply :: bytes where
  "sample_reply = dextra_server_wire (DxAck sample_identity module_C)"

lemma sample_identity_wf: "RepeaterIdentity_wf sample_identity" "Module_wf module_C"
  by (simp_all add: sample_identity_def RepeaterIdentity_wf_def RoutingCallsign_wf_def Module_wf_def
      is_printable_ascii_def is_ascii_uppercase_def)

lemma sample_decoded:
  "dextra_decode_client_to_server sample_link sink = (Ok (DExtraC_Link link_callsign module_C (DstarModule 0x42)), sink)"
  "StreamId_wf i \<Longrightarrow> dextra_decode_client_to_server (talk_header i) sink = (Ok (DExtraC_VoiceHeader i received_header), sink)"
  using dextra_up.dec_wire [of "DxLink sample_identity module_C" sink] dextra_up.dec_wire [of "DxHeader i sample_dstar_header" sink]
    sample_identity_wf sample_dstar_header_wf
  unfolding sample_link_def talk_header_def by (simp_all add: sample_identity_def)

lemma sample_encoded:
  "encoded 32 (\<lambda>buf. dextra_encode_connect_ack buf \<lparr>ri_callsign = ri_callsign sample_identity, ri_module = DstarModule 0x42\<rparr> module_C) =
     Ok sample_reply"
proof -
  have "\<lparr>ri_callsign = ri_callsign sample_identity, ri_module = DstarModule 0x42\<rparr> = sample_identity" by (simp add: sample_identity_def)
  then show ?thesis
    using dextra_down.encode_fits [of "DxAck sample_identity module_C" "replicate 32 0"] sample_identity_wf
    by (simp add: encoded_def get_range_def dextra_wire_lens ModuleSlot_wf_def sample_reply_def)
qed

lemma link_routing: "RoutingCallsign_try_from link_callsign = Ok (ri_callsign sample_identity)"
  by code_simp

definition new_client :: "SocketAddr \<Rightarrow> nat ClientHandle" where
  "new_client p = with_tx_budget (TokenBucket_from_rate sample_arith (FrameRate 60) 0)
     (ClientHandle_new sample_arith PK_DExtra p module_C ReadOnly 0)"

definition linked_session :: "SocketAddr \<Rightarrow> ServerSessionCore" where
  "linked_session p = (ServerSessionCore_new PK_DExtra p module_C)\<lparr>ss_state := SI_Linked,
     ss_client_callsign := Some link_callsign, ss_client_module := Some (DstarModule 0x42),
     ss_current_tx := Some \<lparr>op_dst = p, op_payload = sample_reply, op_not_before = 0\<rparr>\<rparr>"

definition linked_client :: "SocketAddr \<Rightarrow> nat ClientHandle" where
  "linked_client p = (new_client p)\<lparr>ch_session := linked_session p, ch_module := Some module_C, ch_access := ReadWrite\<rparr>"

definition streaming_client :: "SocketAddr \<Rightarrow> StreamId \<Rightarrow> nat ClientHandle" where
  "streaming_client p i = (linked_client p)\<lparr>ch_session := (linked_session p)\<lparr>ss_state := SI_Streaming, ss_last_stream_id := Some i\<rparr>\<rparr>"

lemma client_fields [simp]:
  "ch_module (new_client p) = None" "ch_module (linked_client p) = Some module_C" "ch_module (streaming_client p i) = Some module_C"
  "ch_access (linked_client p) = ReadWrite" "ch_access (streaming_client p i) = ReadWrite"
  "ch_last_heard (linked_client p) = 0" "ch_last_heard (streaming_client p i) = 0"
  "ch_send_failure_count (linked_client p) = 0" "ch_send_failure_count (streaming_client p i) = 0"
  "ch_session (linked_client p) = linked_session p" "ss_state (linked_session p) = SI_Linked"
  "state_kind (linked_session p) = SK_Linked" "state_kind (ch_session (streaming_client p i)) = SK_Streaming"
  by (simp_all add: new_client_def linked_client_def streaming_client_def linked_session_def with_tx_budget_def ClientHandle_new_def
      state_kind_def InternalState_kind_def)

lemma same_update [simp]:
  "ch_last_heard h = t \<Longrightarrow> h\<lparr>ch_last_heard := t\<rparr> = h" "ch_send_failure_count h = n \<Longrightarrow> h\<lparr>ch_send_failure_count := n\<rparr> = h"
  for h :: "'f ClientHandle"
  by auto

lemmas session_defs = server_handle_input_def server_kind_input_def server_dextra_input_def server_dextra_dispatch_def
  on_link_eq link_allowed_def differs_def admitted_def on_dextra_voice_header_def ServerSessionCore_new_def reply_with_def reply_def
  emit_def dextra_err_def

lemmas drain_defs = Outbox_new_def Outbox_enqueue_def waiting_def server_pop_transmit_def Outbox_pop_ready_def server_pop_event_def
  ServerEvent_of_raw_def note_link_def outcome_linked_def EndpointOutcome_new_def

definition link_outcome :: "SocketAddr \<Rightarrow> EndpointOutcome" where
  "link_outcome p = EndpointOutcome_new\<lparr>eo_txs := [(sample_reply, p)], eo_events := [ClientLinked p link_callsign module_C]\<rparr>"

definition header_outcome :: "SocketAddr \<Rightarrow> StreamId \<Rightarrow> EndpointOutcome" where
  "header_outcome p i = EndpointOutcome_new\<lparr>eo_events := [ClientStreamStarted p i received_header]\<rparr>"

lemma drive_link: "drive_handle PK_DExtra sample_link 0 (Some ReadWrite) (new_client p) = (Ok (link_outcome p), linked_client p)"
  by (simp add: drive_handle_def new_client_def ClientHandle_new_def with_tx_budget_def session_defs sample_decoded linked_client_def
      linked_session_def link_routing sample_encoded drain_defs link_outcome_def Let_def)

lemma drive_header:
  assumes "StreamId_wf i" "ch_session h = linked_session p"
  shows "drive_handle PK_DExtra (talk_header i) t None h =
    (Ok (header_outcome p i), h\<lparr>ch_session := (linked_session p)\<lparr>ss_state := SI_Streaming, ss_last_stream_id := Some i\<rparr>,
       ch_last_heard := max (ch_last_heard h) t\<rparr>)"
  using assms by (simp add: drive_handle_def session_defs sample_decoded linked_session_def drain_defs header_outcome_def Let_def)

lemma drive_ignored:
  "StreamId_wf j \<Longrightarrow> drive_handle PK_DExtra (talk_header j) t None (streaming_client p i) =
     (Ok EndpointOutcome_new, (streaming_client p i)\<lparr>ch_last_heard := t\<rparr>)"
  by (simp add: drive_handle_def linked_client_def streaming_client_def new_client_def ClientHandle_new_def with_tx_budget_def
      session_defs sample_decoded linked_session_def drain_defs Let_def)

section \<open>The run\<close>

definition joined :: "SocketAddr list \<Rightarrow> nat PoolState" where
  "joined ps = \<lparr>ps_clients = map (\<lambda>p. (p, linked_client p)) ps, ps_by_module = [(module_C, rev ps)]\<rparr>"

definition talking :: "nat ClientHandle \<Rightarrow> nat PoolState" where
  "talking h = \<lparr>ps_clients = [(sample_talker, streaming_client sample_talker (StreamId 7)), (sample_listener, h)],
     ps_by_module = [(module_C, [sample_listener, sample_talker])]\<rparr>"

definition sample_cache :: "(DstarModule, StreamCache) hashmap" where
  "sample_cache = [(module_C, StreamCache_new_with_bytes (StreamId 7) received_header (talk_header (StreamId 7))
     \<lparr>src_protocol = PK_DExtra, src_peer = sample_talker\<rparr> 0)]"

lemmas pool_defs = module_of_def hm_get_def hm_insert_def hm_len_def ClientPool_new_def pool_contains_def pool_len_def members_of_module_def
  access_of_def joined_def add_membership_def remove_membership_def update_handle_def record_last_heard_def record_send_success_def
  talking_def

lemma sample_authorized:
  "authorize_link sample_talker c module_C (sample_at ClientPool_new [] None) = Ok ReadWrite"
  "authorize_link sample_listener c module_C (sample_at (joined [sample_talker]) [] None) = Ok ReadWrite"
  by (simp_all add: authorize_link_def AllowAllAuthorizer_def link_capacity_reject_def pool_defs)

lemma drive_joins:
  "drive_core sample_talker sample_link 0 module_C (Some ReadWrite) (sample_at ClientPool_new [] None) =
     (Ok (link_outcome sample_talker), sample_at (joined [sample_talker]) [] None)"
  "drive_core sample_listener sample_link 0 module_C (Some ReadWrite) (sample_at (joined [sample_talker]) [] None) =
     (Ok (link_outcome sample_listener), sample_at (joined [sample_talker, sample_listener]) [] None)"
  by (simp_all add: drive_core_def new_client_def [symmetric] get_or_try_update_def Let_def pool_defs drive_link)

lemma drive_talks:
  "drive_core sample_talker (talk_header (StreamId 7)) 0 module_C None (sample_at (joined [sample_talker, sample_listener]) [] None) =
     (Ok (header_outcome sample_talker (StreamId 7)), sample_at (talking (linked_client sample_listener)) [] None)"
  by (simp add: drive_core_def get_or_try_update_def Let_def pool_defs drive_header StreamId_wf_def streaming_client_def
      state_kind_def InternalState_kind_def)

lemma touch_joined [simp]:
  "record_last_heard sample_talker 0 (joined [sample_talker]) = joined [sample_talker]"
  "record_last_heard sample_listener 0 (joined [sample_talker, sample_listener]) = joined [sample_talker, sample_listener]"
  "record_send_success sample_talker (joined [sample_talker]) = joined [sample_talker]"
  "record_send_success sample_listener (joined [sample_talker, sample_listener]) = joined [sample_talker, sample_listener]"
  "record_last_heard sample_talker 0 (talking h) = talking h"
  "record_send_success sample_talker (talking h) = talking h"
  "ch_send_failure_count h = 0 \<Longrightarrow> record_send_success sample_listener (talking h) = talking h"
  by (simp_all add: pool_defs)

lemma after_link:
  "record_last_heard p 0 st = st \<Longrightarrow> after_drive p 0 u e (Ok (link_outcome p), sample_at st [] None) = (Ok (link_outcome p), sample_at st [] None)"
  by (cases "module_of p st") (simp_all add: after_drive_def Let_def select_voice_hint_def link_outcome_def publish_voice_events_def
    drain_pending_events_def EndpointOutcome_new_def)

lemmas inbound_defs = handle_inbound_def handle_inbound_dextra_def sample_decoded decoded_def link_pipeline_def read_only_drop_voice_def

lemma sample_links:
  "handle_inbound sample_link sample_talker 0 (sample_at ClientPool_new [] None) =
     (Ok (link_outcome sample_talker), sample_at (joined [sample_talker]) [] None)"
  "handle_inbound sample_link sample_listener 0 (sample_at (joined [sample_talker]) [] None) =
     (Ok (link_outcome sample_listener), sample_at (joined [sample_talker, sample_listener]) [] None)"
  using after_link by (simp_all add: inbound_defs Let_def sample_authorized drive_joins access_of_def)

definition talk_outcome :: EndpointOutcome where
  "talk_outcome = (header_outcome sample_talker (StreamId 7))\<lparr>eo_forward := Some (FH_Header module_C (StreamId 7))\<rparr>"

lemma sample_talks:
  "handle_inbound (talk_header (StreamId 7)) sample_talker 0 (sample_at (joined [sample_talker, sample_listener]) [] None) =
     (Ok talk_outcome, sample_at (talking (linked_client sample_listener)) sample_cache None)"
proof -
  have m: "module_of sample_talker (talking h) = Some module_C" for h by (simp add: pool_defs)
  have "after_drive sample_talker 0 (\<lambda>ep. update_stream_cache_dextra (DExtraC_VoiceHeader (StreamId 7) received_header)
        (talk_header (StreamId 7)) sample_talker 0 ep) None
      (Ok (header_outcome sample_talker (StreamId 7)), sample_at (talking (linked_client sample_listener)) [] None) =
    (Ok talk_outcome, sample_at (talking (linked_client sample_listener)) sample_cache None)"
    by (simp add: after_drive_def Let_def select_voice_hint_def header_outcome_def talk_outcome_def m publish_voice_events_def
      drain_pending_events_def EndpointOutcome_new_def update_stream_cache_dextra_def cache_voice_header_def hm_get_def hm_insert_def
      sample_cache_def local_source_def)
  moreover have "pool_contains sample_talker (joined [sample_talker, sample_listener])"
    "access_of sample_talker (joined [sample_talker, sample_listener]) = Some ReadWrite" by (simp_all add: pool_defs)
  ultimately show ?thesis by (simp add: inbound_defs Let_def drive_talks StreamId_wf_def)
qed

definition served_client :: "SocketAddr \<Rightarrow> nat ClientHandle" where
  "served_client p = (linked_client p)\<lparr>ch_tx_budget := (ch_tx_budget (linked_client p))\<lparr>tb_tokens := 59\<rparr>\<rparr>"

lemma served_fields [simp]:
  "ch_module (served_client p) = Some module_C" "ch_last_heard (served_client p) = 0" "ch_send_failure_count (served_client p) = 0"
  "ch_session (served_client p) = linked_session p" "ch_access (served_client p) = ReadWrite"
  by (simp_all add: served_client_def)

lemma sample_budget: "try_consume sample_arith 0 1 (ch_tx_budget (linked_client p)) = (True, ch_tx_budget (served_client p))"
  by (simp add: served_client_def linked_client_def new_client_def with_tx_budget_def TokenBucket_from_rate_def sample_arith_def
      try_consume_def Let_def)

lemma step_links:
  "endpoint_step (OnDatagram (all_sent 0) sample_link sample_talker 0) (sample_at ClientPool_new [] None) =
     ([(sample_reply, sample_talker)], sample_at (joined [sample_talker]) [] None)"
  "endpoint_step (OnDatagram (all_sent 0) sample_link sample_listener 0) (sample_at (joined [sample_talker]) [] None) =
     ([(sample_reply, sample_listener)], sample_at (joined [sample_talker, sample_listener]) [] None)"
  by (simp_all add: run_one_tick_def sample_links fan_out_outcome_def link_outcome_def EndpointOutcome_new_def evict_all_def)

lemma sample_pass:
  "fan_out_voice_at sample_arith (pe_voice (all_sent 0)) sample_talker module_C bs 0 (talking (linked_client sample_listener)) =
     ([(bs, sample_listener)], FanOutReport_default\<lparr>fo_sent := 1\<rparr>, talking (served_client sample_listener))"
proof -
  have "try_consume_tx_token sample_arith sample_listener 0 (talking (linked_client sample_listener)) = (True, talking (served_client sample_listener))"
    by (simp add: try_consume_tx_token_def pool_defs sample_budget [simplified] served_client_def [symmetric])
  moreover have "members_of_module module_C (talking h) = [sample_listener, sample_talker]" for h by (simp add: pool_defs)
  ultimately show ?thesis by (simp add: fan_out_voice_at_def FanOutReport_default_def)
qed

lemma step_talks:
  "endpoint_step (OnDatagram (all_sent 0) (talk_header (StreamId 7)) sample_talker 0) (sample_at (joined [sample_talker, sample_listener]) [] None) =
     ([(talk_header (StreamId 7), sample_listener)], sample_at (talking (served_client sample_listener)) sample_cache None)"
  by (simp add: run_one_tick_def sample_talks fan_out_outcome_def talk_outcome_def header_outcome_def EndpointOutcome_new_def
      sample_pass evict_all_def FanOutReport_default_def)

abbreviation sweep_time :: instant where "sweep_time \<equiv> from_secs 3"

definition sample_poll :: bytes where
  "sample_poll = callsign_bytes (es_reflector_callsign sample_settings) @ [0]"

lemma sample_keepalive: "cs_module entry = Some module_C \<Longrightarrow> encode_keepalive_for entry (sample_at st c l) = Some sample_poll"
  using dextra_up.encode_fits [of "DxPoll (es_reflector_callsign sample_settings)" "replicate 16 0"]
  by (simp add: encode_keepalive_for_def encoded_def get_range_def sample_poll_def sample_settings_def DstarCallsign_wf_def)

lemma sample_sweep:
  "handle_tick sweep_time (sample_at (talking (served_client sample_listener)) sample_cache None) =
     ([(sample_poll, sample_talker), (sample_poll, sample_listener)],
      sample_at (talking (served_client sample_listener)) [] (Some sweep_time))"
proof -
  have "evict_idle sweep_time (sample_at (talking (served_client sample_listener)) sample_cache None) =
      sample_at (talking (served_client sample_listener)) sample_cache None"
    by (simp add: evict_idle_def sweep_snapshot_def talking_def saturating_duration_since_def from_secs_def)
  moreover have "hm_retain (\<lambda>m entry. \<not> should_evict sweep_time (from_secs 2) entry) sample_cache = []"
    by (simp add: hm_retain_def sample_cache_def should_evict_def StreamCache_new_with_bytes_def saturating_duration_since_def from_secs_def)
  ultimately show ?thesis
    by (simp add: handle_tick_def Let_def is_none_or_def sweep_snapshot_def talking_def List.map_filter_def sample_keepalive)
qed

lemma step_sweeps:
  "endpoint_step (OnTick (\<lambda>_. Ok ()) sweep_time) (sample_at (talking (served_client sample_listener)) sample_cache None) =
     ([(sample_poll, sample_talker), (sample_poll, sample_listener)],
      sample_at (talking (served_client sample_listener)) [] (Some sweep_time))"
  by (simp add: run_maintenance_def sample_sweep evict_all_def)

definition sample_ops :: "endpoint_op list" where
  "sample_ops = [OnDatagram (all_sent 0) sample_link sample_talker 0, OnDatagram (all_sent 0) sample_link sample_listener 0,
     OnDatagram (all_sent 0) (talk_header (StreamId 7)) sample_talker 0, OnTick (\<lambda>_. Ok ()) sweep_time]"

definition sample_swept :: "nat ProtocolEndpoint" where
  "sample_swept = sample_at (talking (served_client sample_listener)) [] (Some sweep_time)"

lemma sample_runs:
  "run_steps endpoint_step (take 2 sample_ops) (sample_at ClientPool_new [] None) =
     ([[(sample_reply, sample_talker)], [(sample_reply, sample_listener)]], sample_at (joined [sample_talker, sample_listener]) [] None)"
  "run_steps endpoint_step sample_ops (sample_at ClientPool_new [] None) =
     ([[(sample_reply, sample_talker)], [(sample_reply, sample_listener)], [(talk_header (StreamId 7), sample_listener)],
       [(sample_poll, sample_talker), (sample_poll, sample_listener)]], sample_swept)"
  by (simp_all add: sample_ops_def step_links step_talks step_sweeps sample_swept_def del: endpoint_step.simps)

text \<open>After the sweep the listener may talk, while the talker's next header is ignored.\<close>

lemma sample_answer:
  "\<exists>outcome ep. handle_inbound (talk_header (StreamId 9)) sample_listener t sample_swept = (Ok outcome, ep) \<and>
     eo_forward outcome = Some (FH_Header module_C (StreamId 9))"
proof -
  define h where "h = (served_client sample_listener)\<lparr>ch_session := (linked_session sample_listener)\<lparr>ss_state := SI_Streaming,
    ss_last_stream_id := Some (StreamId 9)\<rparr>, ch_last_heard := t\<rparr>"
  have "drive_core sample_listener (talk_header (StreamId 9)) t module_C None sample_swept =
      (Ok (header_outcome sample_listener (StreamId 9)), sample_at (talking h) [] (Some sweep_time))"
    by (simp add: drive_core_def get_or_try_update_def Let_def pool_defs drive_header StreamId_wf_def sample_swept_def h_def
        state_kind_def InternalState_kind_def)
  moreover have "module_of sample_listener (record_last_heard sample_listener t (talking h)) = Some module_C" by (simp add: pool_defs h_def)
  then have "\<exists>outcome ep. after_drive sample_listener t u None (Ok (header_outcome sample_listener (StreamId 9)), sample_at (talking h) [] (Some sweep_time)) =
      (Ok outcome, ep) \<and> eo_forward outcome = Some (FH_Header module_C (StreamId 9))" for u
    by (simp add: after_drive_def Let_def select_voice_hint_def header_outcome_def EndpointOutcome_new_def hm_get_def
        drain_pending_events_def split: prod.split)
  moreover have "pool_contains sample_listener (talking h')" "access_of sample_listener (talking (served_client sample_listener)) = Some ReadWrite" for h'
    by (simp_all add: pool_defs)
  ultimately show ?thesis by (simp add: inbound_defs Let_def StreamId_wf_def sample_swept_def)
qed

lemma sample_ignored:
  "\<exists>st. endpoint_step (OnDatagram (all_sent t) (talk_header (StreamId 9)) sample_talker t) sample_swept =
     ([], sample_at st [] (Some sweep_time)) \<and> pool_contains sample_talker st"
proof -
  define st where "st = \<lparr>ps_clients = [(sample_talker, (streaming_client sample_talker (StreamId 7))\<lparr>ch_last_heard := t\<rparr>),
    (sample_listener, served_client sample_listener)], ps_by_module = [(module_C, [sample_listener, sample_talker])]\<rparr>"
  have "drive_core sample_talker (talk_header (StreamId 9)) t module_C None sample_swept = (Ok EndpointOutcome_new, sample_at st [] (Some sweep_time))"
    by (simp add: drive_core_def get_or_try_update_def Let_def pool_defs drive_ignored StreamId_wf_def sample_swept_def st_def)
  moreover have "record_last_heard sample_talker t st = st" "module_of sample_talker st = Some module_C" by (simp_all add: pool_defs st_def)
  then have "after_drive sample_talker t u None (Ok EndpointOutcome_new, sample_at st [] (Some sweep_time)) =
      (Ok EndpointOutcome_new, sample_at st [] (Some sweep_time))" for u
    by (simp add: after_drive_def Let_def select_voice_hint_def EndpointOutcome_new_def publish_voice_events_def drain_pending_events_def)
  moreover have "pool_contains sample_talker (talking h')" "access_of sample_talker (talking (served_client sample_listener)) = Some ReadWrite" for h'
    by (simp_all add: pool_defs)
  ultimately have "handle_inbound (talk_header (StreamId 9)) sample_talker t sample_swept = (Ok EndpointOutcome_new, sample_at st [] (Some sweep_time))"
    by (simp add: inbound_defs Let_def StreamId_wf_def sample_swept_def)
  moreover have "pool_contains sample_talker st" by (simp add: st_def pool_defs)
  ultimately show ?thesis
    by (intro exI [of _ st]) (simp add: run_one_tick_def fan_out_outcome_def EndpointOutcome_new_def evict_all_def)
qed

end
