(* ===== verification/Reflector_Floor.thy ===== *)
theory Reflector_Floor
  imports Reflector_Sample
begin

text \<open>
  What a reflector endpoint guarantees along every run: capacity, the module index, who is heard.
  The talker of a module is described by a small machine, the floor, that the stream cache
  refines.
\<close>

section \<open>What a run never changes\<close>

definition same_config :: "'f ProtocolEndpoint \<Rightarrow> 'f ProtocolEndpoint \<Rightarrow> bool" where
  "same_config ep ep' \<longleftrightarrow> ep_protocol ep' = ep_protocol ep \<and> ep_settings ep' = ep_settings ep \<and>
     ep_default_module ep' = ep_default_module ep \<and> ep_configured_modules ep' = ep_configured_modules ep \<and>
     ep_arith ep' = ep_arith ep \<and> ep_authorizer ep' = ep_authorizer ep"

lemma same_config_refl [simp]: "same_config ep ep"
  by (simp add: same_config_def)

lemma same_config_trans: "same_config a b \<Longrightarrow> same_config b c \<Longrightarrow> same_config a c"
  by (simp add: same_config_def)

lemma same_config_updates [simp]:
  "same_config ep (ep'\<lparr>ep_clients := st\<rparr>) = same_config ep ep'" "same_config ep (ep'\<lparr>ep_stream_cache := c\<rparr>) = same_config ep ep'"
  "same_config ep (ep'\<lparr>ep_voice_bus := b\<rparr>) = same_config ep ep'" "same_config ep (ep'\<lparr>ep_pending_events := e\<rparr>) = same_config ep ep'"
  "same_config ep (ep'\<lparr>ep_last_keepalive_sent := t\<rparr>) = same_config ep ep'"
  "same_config ep (evict_peer p reason ep') = same_config ep ep'"
  by (auto simp: same_config_def evict_peer_def)

lemma evict_peer_fields [simp]:
  "ep_stream_cache (evict_peer p reason ep) = ep_stream_cache ep" "ep_protocol (evict_peer p reason ep) = ep_protocol ep"
  "ep_voice_bus (evict_peer p reason ep) = ep_voice_bus ep"
  by (simp_all add: evict_peer_def)

lemma evict_all_fields [simp]:
  "same_config ep (evict_all reason peers ep') = same_config ep ep'"
  "ep_stream_cache (evict_all reason peers ep') = ep_stream_cache ep'" "ep_protocol (evict_all reason peers ep') = ep_protocol ep'"
  unfolding evict_all_def by (induction peers arbitrary: ep') simp_all

lemma evict_idle_fields [simp]:
  "same_config ep (evict_idle now ep') = same_config ep ep'"
  "ep_stream_cache (evict_idle now ep') = ep_stream_cache ep'" "ep_protocol (evict_idle now ep') = ep_protocol ep'"
proof -
  have "(same_config ep (fold (\<lambda>entry ep. if P entry ep then evict_peer (cs_peer entry) reason ep else ep) entries e) \<longleftrightarrow> same_config ep e) \<and>
      ep_stream_cache (fold (\<lambda>entry ep. if P entry ep then evict_peer (cs_peer entry) reason ep else ep) entries e) = ep_stream_cache e \<and>
      ep_protocol (fold (\<lambda>entry ep. if P entry ep then evict_peer (cs_peer entry) reason ep else ep) entries e) = ep_protocol e"
    for P reason entries and e :: "'a ProtocolEndpoint"
    by (induction entries arbitrary: e) simp_all
  from this [of "\<lambda>entry ep. es_keepalive_inactivity_timeout (ep_settings ep) \<le> saturating_duration_since now (cs_last_heard entry)"
      "''keepalive inactivity timeout''" "sweep_snapshot (ep_clients ep')" ep']
  show "same_config ep (evict_idle now ep') = same_config ep ep'"
    "ep_stream_cache (evict_idle now ep') = ep_stream_cache ep'" "ep_protocol (evict_idle now ep') = ep_protocol ep'"
    unfolding evict_idle_def by blast+
qed

text \<open>The outcome of an inbound datagram, for an endpoint in its invariant: turned away, refused by
  the session with an error, or handled.\<close>

definition refused :: "'f ProtocolEndpoint \<Rightarrow> (ShellError + EndpointOutcome) \<times> 'f ProtocolEndpoint \<Rightarrow> bool" where
  "refused ep res \<longleftrightarrow> (\<exists>e clients. res = (Err e, ep\<lparr>ep_clients := clients\<rparr>) \<and>
     (\<forall>q. rel_option (\<lambda>h h'. ch_access h' = ch_access h \<and> ch_module h' = ch_module h \<and>
        (\<exists>d. ch_session h' = (ch_session h)\<lparr>ss_diagnostics := d\<rparr>)) (client_at (ep_clients ep) q) (client_at clients q)))"

record 'f handling =
  hd_before :: "'f ClientHandle"
  hd_phase :: peer_phase
  hd_driven :: EndpointOutcome
  hd_after :: "'f ClientHandle"
  hd_phase' :: peer_phase
  hd_ep :: "'f ProtocolEndpoint"

definition handled ::
  "bytes \<Rightarrow> SocketAddr \<Rightarrow> instant \<Rightarrow> 'f ProtocolEndpoint \<Rightarrow> 'f handling \<Rightarrow> EndpointOutcome \<Rightarrow> 'f ProtocolEndpoint \<Rightarrow> bool" where
  "handled bs peer now ep d outcome ep' \<longleftrightarrow>
     (\<exists>b. ep' = (if eo_forward outcome = None then hd_ep d else snd (cache_update (ep_protocol ep) bs peer now (hd_ep d)))
            \<lparr>ep_voice_bus := b, ep_pending_events := []\<rparr> \<and> (eo_forward outcome = None \<longrightarrow> b = ep_voice_bus ep)) \<and>
     eo_txs outcome = eo_txs (hd_driven d) \<and>
     eo_forward outcome = select_voice_hint (eo_events (hd_driven d)) peer (hd_ep d) \<and>
     eo_header_retransmit outcome =
       (if eo_forward outcome = None then None else fst (cache_update (ep_protocol ep) bs peer now (hd_ep d))) \<and>
     ep_inv (hd_ep d) \<and> (\<exists>st. hd_ep d = ep\<lparr>ep_clients := st\<rparr>) \<and>
     (\<forall>q. q \<noteq> peer \<longrightarrow> client_at (ep_clients (hd_ep d)) q = client_at (ep_clients ep) q) \<and>
     rel_option same_client (if hd_phase' d = Gone then None else Some (hd_after d)) (client_at (ep_clients (hd_ep d)) peer) \<and>
     hd_phase d \<noteq> Gone \<and> handle_at (ep_protocol ep) peer (hd_phase d) (hd_before d) \<and>
     driven (ep_protocol ep) peer bs (hd_phase d) (hd_before d) (hd_driven d) (hd_phase' d) (hd_after d) \<and>
     (case client_at (ep_clients ep) peer of
        None \<Rightarrow> hd_phase d = Absent \<and> ch_access (hd_before d) = ReadOnly | Some h0 \<Rightarrow> h0 = hd_before d) \<and>
     (voice_of (ep_protocol ep) bs \<noteq> None \<longrightarrow> access_of peer (ep_clients ep) \<noteq> Some ReadOnly) \<and>
     (ch_access (hd_after d) = ch_access (hd_before d) \<or> granted ep peer (ch_access (hd_after d)))"

lemma refusedI:
  assumes "client_at clients = (client_at (ep_clients ep))(peer := if client_at (ep_clients ep) peer = None then None else Some h')"
    "ch_access h' = ch_access h" "ch_module h' = ch_module h" "ch_session h' = (ch_session h)\<lparr>ss_diagnostics := d\<rparr>"
    "case client_at (ep_clients ep) peer of None \<Rightarrow> True | Some h0 \<Rightarrow> h0 = h"
  shows "refused ep (Err e, ep\<lparr>ep_clients := clients\<rparr>)"
proof -
  have "rel_option (\<lambda>h h'. ch_access h' = ch_access h \<and> ch_module h' = ch_module h \<and>
      (\<exists>d. ch_session h' = (ch_session h)\<lparr>ss_diagnostics := d\<rparr>)) (client_at (ep_clients ep) q) (client_at clients q)" for q
  proof (cases "client_at (ep_clients ep) q")
    case (Some g)
    have "\<exists>d. ch_session g = (ch_session g)\<lparr>ss_diagnostics := d\<rparr>" by (rule exI [of _ "ss_diagnostics (ch_session g)"]) simp
    then show ?thesis using Some assms by (cases "q = peer") auto
  qed (use assms(1) in auto)
  then show ?thesis by (auto simp: refused_def)
qed

lemma handledI:
  assumes inv: "ep_inv ep1" and ep1: "ep1 = ep\<lparr>ep_clients := clients\<rparr>"
    and at: "client_at clients = (client_at (ep_clients ep))(peer := if ph' = Gone then None else Some h')"
    and dr: "driven (ep_protocol ep) peer bs ph h outcome0 ph' h'"
    and ad: "after_drive peer now (cache_update (ep_protocol ep) bs peer now) e (Ok outcome0, ep1) = (r, ep')"
    and old: "ph \<noteq> Gone" "handle_at (ep_protocol ep) peer ph h"
      "case client_at (ep_clients ep) peer of None \<Rightarrow> ph = Absent \<and> ch_access h = ReadOnly | Some h0 \<Rightarrow> h0 = h"
      "voice_of (ep_protocol ep) bs \<noteq> None \<longrightarrow> access_of peer (ep_clients ep) \<noteq> Some ReadOnly"
      "ch_access h' = ch_access h \<or> granted ep peer (ch_access h')"
  shows "\<exists>outcome d. r = Ok outcome \<and> handled bs peer now ep d outcome ep'"
proof -
  define ep2 where "ep2 = ep1\<lparr>ep_clients := record_last_heard peer now (ep_clients ep1)\<rparr>"
  note A = after_drive_Ok [OF ad, folded ep2_def]
  have inv2: "ep_inv ep2" unfolding ep2_def by (rule ep_inv_heard [OF inv])
  have "touched clients (ep_clients ep2)" using touched_ops(2) [OF ep_inv_pool [OF inv], of peer now] by (simp add: ep2_def ep1)
  then have rel: "rel_option same_client (if ph' = Gone then None else Some h') (client_at (ep_clients ep2) peer)"
    using touched_at [of clients "ep_clients ep2" peer] at by simp
  have others: "client_at (ep_clients ep2) q = client_at (ep_clients ep) q" if "q \<noteq> peer" for q
    using that at update_handle_pool [OF ep_inv_pool [OF inv], of "\<lambda>h. h\<lparr>ch_last_heard := max (ch_last_heard h) now\<rparr>" peer]
    by (simp add: ep2_def record_last_heard_def ep1)
  have shape: "\<exists>st. ep2 = ep\<lparr>ep_clients := st\<rparr>" by (simp add: ep2_def ep1) blast
  define d where "d = \<lparr>hd_before = h, hd_phase = ph, hd_driven = outcome0, hd_after = h', hd_phase' = ph', hd_ep = ep2\<rparr>"
  define outcome where "outcome = outcome0\<lparr>eo_forward := select_voice_hint (eo_events outcome0) peer ep2,
    eo_header_retransmit := (if select_voice_hint (eo_events outcome0) peer ep2 = None then None
      else fst (cache_update (ep_protocol ep) bs peer now ep2)),
    eo_events := eo_events outcome0 @ ep_pending_events (if select_voice_hint (eo_events outcome0) peer ep2 = None then ep2
      else snd (cache_update (ep_protocol ep) bs peer now ep2))\<rparr>"
  have sel: "hd_before d = h" "hd_phase d = ph" "hd_driven d = outcome0" "hd_after d = h'" "hd_phase' d = ph'" "hd_ep d = ep2"
    by (simp_all add: d_def)
  have fields: "eo_txs outcome = eo_txs outcome0" "eo_forward outcome = select_voice_hint (eo_events outcome0) peer ep2"
    "eo_header_retransmit outcome = (if select_voice_hint (eo_events outcome0) peer ep2 = None then None
      else fst (cache_update (ep_protocol ep) bs peer now ep2))"
    by (simp_all add: outcome_def)
  have bus: "ep_voice_bus ep1 = ep_voice_bus ep" by (simp add: ep1)
  have "r = Ok outcome" using A(1) by (simp add: outcome_def)
  moreover have "handled bs peer now ep d outcome ep'"
    unfolding handled_def sel fields using A(2) [unfolded bus] inv2 shape others rel old dr
    by (intro conjI) (assumption | rule refl | blast)+
  ultimately show ?thesis by blast
qed

lemma inbound_cases:
  assumes "ep_inv ep" "handle_inbound bs peer now ep = (r, ep')"
  shows "(\<exists>outcome. r = Ok outcome \<and> turned_away peer now ep outcome ep') \<or> refused ep (r, ep') \<or>
    (\<exists>outcome d. r = Ok outcome \<and> handled bs peer now ep d outcome ep')"
proof (cases "\<exists>outcome. r = Ok outcome \<and> turned_away peer now ep outcome ep'")
  case False
  then obtain m acc e where adm: "admissible bs peer m ep" "\<forall>a. acc = Some a \<longrightarrow> granted ep peer a" and res: "(r, ep') =
      after_drive peer now (cache_update (ep_protocol ep) bs peer now) e (drive_core peer bs now m acc ep)"
    using inbound_processed [of bs peer now ep] assms(2) by (auto simp: processed_def passed_on_def)
  obtain r1 ep1 where d: "drive_core peer bs now m acc ep = (r1, ep1)" by (cases "drive_core peer bs now m acc ep")
  obtain h ph clients where c: "ep1 = ep\<lparr>ep_clients := clients\<rparr>" "ep_inv ep1" "ph \<noteq> Gone" "handle_at (ep_protocol ep) peer ph h"
      "case client_at (ep_clients ep) peer of None \<Rightarrow> ph = Absent \<and> ch_access h = ReadOnly | Some h0 \<Rightarrow> h0 = h"
    and alt: "(\<exists>e d h'. r1 = Err (Shell_Core e) \<and> ch_access h' = ch_access h \<and> ch_module h' = ch_module h \<and>
        ch_session h' = (ch_session h)\<lparr>ss_diagnostics := d\<rparr> \<and>
        client_at clients = (client_at (ep_clients ep))(peer := if client_at (ep_clients ep) peer = None then None else Some h')) \<or>
      (\<exists>outcome ph' h'. r1 = Ok outcome \<and> driven (ep_protocol ep) peer bs ph h outcome ph' h' \<and>
        client_at clients = (client_at (ep_clients ep))(peer := if ph' = Gone then None else Some h') \<and> access_from acc h h')"
    using drive_core_cases [OF assms(1) adm(1) d] by (elim exE conjE)
  have "case client_at (ep_clients ep) peer of None \<Rightarrow> True | Some h0 \<Rightarrow> h0 = h" using c(5) by (simp split: option.splits)
  note err = refusedI [OF _ _ _ _ this]
  have ro: "voice_of (ep_protocol ep) bs \<noteq> None \<longrightarrow> access_of peer (ep_clients ep) \<noteq> Some ReadOnly"
    using adm(1) by (simp add: admissible_def)
  from alt show ?thesis
  proof (elim disjE exE conjE)
    fix x d h' assume x: "r1 = Err (Shell_Core x)" "ch_access h' = ch_access h" "ch_module h' = ch_module h"
      "ch_session h' = (ch_session h)\<lparr>ss_diagnostics := d\<rparr>"
      "client_at clients = (client_at (ep_clients ep))(peer := if client_at (ep_clients ep) peer = None then None else Some h')"
    have "(r, ep') = (Err (Shell_Core x), ep\<lparr>ep_clients := clients\<rparr>)" using res d x(1) c(1) by (simp add: after_drive_def)
    then show ?thesis using err [OF x(5,2,3,4)] by simp
  next
    fix o0 ph' h' assume x: "r1 = Ok o0" "driven (ep_protocol ep) peer bs ph h o0 ph' h'"
      "client_at clients = (client_at (ep_clients ep))(peer := if ph' = Gone then None else Some h')" "access_from acc h h'"
    then have gr: "ch_access h' = ch_access h \<or> granted ep peer (ch_access h')" using adm(2) by (auto simp: access_from_def)
    have "after_drive peer now (cache_update (ep_protocol ep) bs peer now) e (Ok o0, ep1) = (r, ep')" using res d x(1) by simp
    from handledI [OF c(2,1) x(3,2) this c(3-5) ro gr] show ?thesis by blast
  qed
qed blast

lemma cache_update_fields [simp]:
  "same_config ep (snd (cache_update k bs peer now ep')) = same_config ep ep'"
  "ep_clients (snd (cache_update k bs peer now ep')) = ep_clients ep'"
  using cache_update_only [of k bs peer now ep'] by auto

lemma inbound_config:
  assumes "ep_inv ep" "handle_inbound bs peer now ep = (r, ep')"
  shows "same_config ep ep'"
  using inbound_cases [OF assms]
proof (elim disjE exE conjE)
  fix outcome d assume "handled bs peer now ep d outcome ep'"
  then obtain st b where "hd_ep d = ep\<lparr>ep_clients := st\<rparr>"
      "ep' = (if eo_forward outcome = None then hd_ep d else snd (cache_update (ep_protocol ep) bs peer now (hd_ep d)))
         \<lparr>ep_voice_bus := b, ep_pending_events := []\<rparr>"
    by (auto simp: handled_def)
  then show ?thesis by simp
qed (auto simp: turned_away_def refused_def)

lemma fan_out_outcome_frame:
  assumes "fan_out_outcome send send2 outcome peer bs t t2 ev ep = (sent, ev', ep')"
  shows "\<exists>st. ep' = ep\<lparr>ep_clients := st\<rparr>"
  using assms by (auto simp: fan_out_outcome_def Let_def split: option.splits prod.splits intro: exI [of _ "ep_clients ep"])

text \<open>After the datagram is processed, sending changes the clients and the pending events only.\<close>

definition aside :: "'f ProtocolEndpoint \<Rightarrow> 'f ProtocolEndpoint \<Rightarrow> bool" where
  "aside ep ep' \<longleftrightarrow> same_config ep ep' \<and> ep_stream_cache ep' = ep_stream_cache ep"

lemma aside_updates [simp]:
  "aside ep (ep\<lparr>ep_clients := st\<rparr>)" "aside ep (evict_all reason peers ep') = aside ep ep'"
  "aside ep (ep'\<lparr>ep_clients := st\<rparr>) = aside ep ep'"
  by (simp_all add: aside_def)

lemma datagram_aside:
  "aside (snd (handle_inbound bs peer now ep)) (snd (run_one_tick env bs peer now ep))"
proof -
  obtain r ep1 where h: "handle_inbound bs peer now ep = (r, ep1)" by (cases "handle_inbound bs peer now ep")
  show ?thesis
  proof (cases r)
    case (Inr outcome)
    obtain ev cl where s: "send_replies (pe_replies env) (eo_txs outcome) [] (ep_clients ep1) = (ev, cl)" by fastforce
    obtain v ev2 ep3 where f: "fan_out_outcome (pe_voice env) (pe_header env) outcome peer bs (pe_voice_at env) (pe_header_at env) ev
        (ep1\<lparr>ep_clients := cl\<rparr>) = (v, ev2, ep3)" using prod_cases3 by blast
    obtain st where "ep3 = ep1\<lparr>ep_clients := st\<rparr>" using fan_out_outcome_frame [OF f] by auto
    then show ?thesis using h Inr s f by (simp add: run_one_tick_def Let_def)
  qed (use h in \<open>simp add: run_one_tick_def aside_def\<close>)
qed

lemma bus_event_aside:
  assumes "xe_source_protocol event \<noteq> ep_protocol ep" "track_bus_event event now ep = Some ep1"
  shows "aside ep1 (snd (handle_cross_protocol_event send event now t ep))"
proof -
  have "aside ep1 ep1" by (simp add: aside_def)
  then show ?thesis
    using assms by (auto simp: handle_cross_protocol_event_def Let_def split: sum.split option.split prod.split)
qed

lemma step_config:
  assumes "ep_inv ep"
  shows "same_config ep (snd (endpoint_step op ep))"
proof (cases op)
  case (OnDatagram env bs peer now)
  obtain r ep1 where h: "handle_inbound bs peer now ep = (r, ep1)" by (cases "handle_inbound bs peer now ep")
  show ?thesis
    using OnDatagram h same_config_trans [OF inbound_config [OF assms h]] datagram_aside [of bs peer now ep env]
    by (simp add: aside_def)
next
  case (OnTick send now)
  then show ?thesis by (simp add: run_maintenance_def handle_tick_def Let_def split: prod.split)
next
  case (OnBusEvent send event now t)
  show ?thesis
  proof (cases "xe_source_protocol event = ep_protocol ep \<or> track_bus_event event now ep = None")
    case False
    then obtain ep1 where tr: "track_bus_event event now ep = Some ep1" by auto
    obtain c where "ep1 = ep\<lparr>ep_stream_cache := c\<rparr>" using track_bus_event_only [OF tr] by blast
    then show ?thesis
      using OnBusEvent False bus_event_aside [OF _ tr, of send t] same_config_trans [of ep ep1] by (simp add: aside_def)
  qed (use OnBusEvent in \<open>auto simp: handle_cross_protocol_event_def\<close>)
qed

lemma run_config: "ep_inv ep \<Longrightarrow> same_config ep (snd (run_steps endpoint_step ops ep))"
proof (induction ops arbitrary: ep)
  case (Cons op ops)
  show ?case
    unfolding snd_run_steps
    by (rule same_config_trans [OF step_config [OF Cons.prems] Cons.IH [OF ep_inv_step [OF Cons.prems]]])
qed simp

lemma new_ep_inv:
  assumes "ProtocolEndpoint_new fl protocol m authorizer bus settings modules = Some ep" "list_all Module_wf modules"
  shows "ep_inv ep" "ep_settings ep = settings" "ep_protocol ep = protocol"
  using assms by (auto simp: ProtocolEndpoint_new_def ep_inv_def config_ok_def clients_ok_def pool.within_def hm_wf_def split: if_splits)

section \<open>Capacity and the module index\<close>

text \<open>C26. Whatever arrives, and whatever the socket answers, an endpoint never holds more clients
  than its configured total, and never more members of a module than the configured maximum.\<close>

theorem reflector_capacity:
  assumes "ProtocolEndpoint_new fl protocol m0 authorizer bus settings modules = Some ep0" "list_all Module_wf modules"
    "run_steps endpoint_step ops ep0 = (sent, ep)"
  shows "pool_len (ep_clients ep) \<le> es_max_total_clients settings \<and>
    length (members_of_module m (ep_clients ep)) \<le> es_max_clients_per_module settings"
proof -
  note new = new_ep_inv [OF assms(1,2)]
  have "ep_settings ep = settings"
    using run_config [OF new(1), of ops] assms(3) new(2) by (simp add: same_config_def)
  then show ?thesis
    using ep_inv_run [OF new(1), of ops] assms(3) by (simp add: ep_inv_def clients_ok_def pool.within_def)
qed

theorem reflector_capacity_witness:
  "\<exists>sent ep. run_steps endpoint_step sample_ops (sample_at ClientPool_new [] None) = (sent, ep) \<and>
     pool_len (ep_clients ep) = 2 \<and> pool_len (ep_clients ep) \<le> 250 \<and> length (members_of_module module_C (ep_clients ep)) \<le> 50"
  using reflector_capacity [OF sample_endpoint_new sample_runs(2), of module_C] sample_runs(2)
  by (simp add: sample_swept_def pool_defs)

lemma handle_linked:
  assumes "handle_at k p ph h" "ph \<noteq> Gone"
  shows "ch_module h = Some m \<longleftrightarrow> ss_state (ch_session h) \<in> {SI_Linked, SI_Streaming} \<and> ss_reflector_module (ch_session h) = m"
  using assms by (cases ph) (auto simp: handle_at_def server_phase_def split: option.splits)

text \<open>C9. After any run the index that decides who receives voice is exact: the members of a
  module are, without repetition, the addresses whose session is linked to that module; and every
  stored session belongs to its address, speaks the endpoint's protocol, serves a configured
  module and has neither an event nor a datagram left to deliver.\<close>

theorem reflector_index_exact:
  assumes "ProtocolEndpoint_new fl protocol m0 authorizer bus settings modules = Some ep0" "list_all Module_wf modules"
    "run_steps endpoint_step ops ep0 = (sent, ep)"
  shows "distinct (members_of_module m (ep_clients ep)) \<and>
    set (members_of_module m (ep_clients ep)) =
      {p. \<exists>h. client_at (ep_clients ep) p = Some h \<and> ss_state (ch_session h) \<in> {SI_Linked, SI_Streaming} \<and>
        ss_reflector_module (ch_session h) = m} \<and>
    (\<forall>p h. client_at (ep_clients ep) p = Some h \<longrightarrow> ss_peer (ch_session h) = p \<and> ss_kind (ch_session h) = protocol \<and>
       ss_reflector_module (ch_session h) \<in> set modules \<and> ss_events (ch_session h) = [] \<and> waiting (ss_outbox (ch_session h)) = [])"
proof -
  note new = new_ep_inv [OF assms(1,2)]
  have inv: "ep_inv ep" using ep_inv_run [OF new(1), of ops] assms(3) by simp
  have conf: "ep_protocol ep = protocol" "ep_configured_modules ep = modules"
    using run_config [OF new(1), of ops] assms(1,3) by (auto simp: same_config_def ProtocolEndpoint_new_def split: if_splits)
  note p = ep_inv_pool [OF inv]
  have "p \<in> set (members_of_module m (ep_clients ep)) \<longleftrightarrow> (\<exists>h. client_at (ep_clients ep) p = Some h \<and>
      ss_state (ch_session h) \<in> {SI_Linked, SI_Streaming} \<and> ss_reflector_module (ch_session h) = m)" for p
    unfolding pool.members_exact [OF p] using ep_inv_client [OF inv, of p] handle_linked unfolding client_ok_def by blast
  moreover have "ss_peer (ch_session h) = p \<and> ss_kind (ch_session h) = protocol \<and>
      ss_reflector_module (ch_session h) \<in> set modules \<and> ss_events (ch_session h) = [] \<and> waiting (ss_outbox (ch_session h)) = []"
    if "client_at (ep_clients ep) p = Some h" for p h
    using ep_inv_client [OF inv that] conf by (auto simp: client_ok_def handle_at_def server_phase_def)
  ultimately show ?thesis using pool.members_distinct [OF p, of m] by blast
qed

theorem reflector_index_exact_witness:
  "\<exists>sent ep. run_steps endpoint_step sample_ops (sample_at ClientPool_new [] None) = (sent, ep) \<and>
     members_of_module module_C (ep_clients ep) = [sample_listener, sample_talker] \<and>
     distinct (members_of_module module_C (ep_clients ep)) \<and>
     (\<exists>h. client_at (ep_clients ep) sample_talker = Some h \<and> ss_state (ch_session h) \<in> {SI_Linked, SI_Streaming} \<and>
        ss_reflector_module (ch_session h) = module_C \<and> waiting (ss_outbox (ch_session h)) = [])"
proof -
  note r = reflector_index_exact [OF sample_endpoint_new sample_runs(2), of module_C]
  have m: "members_of_module module_C (ep_clients sample_swept) = [sample_listener, sample_talker]" by (simp add: sample_swept_def pool_defs)
  then have "sample_talker \<in> set (members_of_module module_C (ep_clients sample_swept))" by simp
  then obtain h where "client_at (ep_clients sample_swept) sample_talker = Some h" "ss_state (ch_session h) \<in> {SI_Linked, SI_Streaming}"
      "ss_reflector_module (ch_session h) = module_C"
    using r by blast
  moreover from this have "waiting (ss_outbox (ch_session h)) = []" using r by blast
  ultimately show ?thesis
    unfolding sample_runs(2) using r m by (intro exI [of _ sample_swept] exI [of _ h] exI conjI) (rule refl | assumption | blast)+
qed

section \<open>The floor of a module\<close>

text \<open>Who is being heard: at most one source and stream on each module, with the instant it was
  last heard. A free floor is claimed by the start of a stream and kept by its further frames; a
  frame that ends the stream, and no other, gives it up; a sweep frees exactly the floors that
  have been silent for the timeout; nothing else changes a floor. (A start that repeats the header
  of the holder sets the instant afresh, which matters only if time runs backwards.)\<close>

type_synonym talker = "StreamSource \<times> StreamId"

type_synonym floor = "DstarModule \<Rightarrow> (talker \<times> instant) option"

record talk =
  tk_talker :: talker
  tk_module :: DstarModule
  tk_starts :: bool
  tk_ends :: bool
  tk_at :: instant

datatype floor_event = Talk talk | Sweep instant | Quiet

definition swept :: "duration \<Rightarrow> instant \<Rightarrow> floor \<Rightarrow> floor" where
  "swept timeout now f m = (case f m of
      None \<Rightarrow> None
    | Some (a, last_heard) \<Rightarrow> if timeout \<le> saturating_duration_since now last_heard then None else Some (a, last_heard))"

inductive floor_step :: "duration \<Rightarrow> floor \<Rightarrow> floor_event \<Rightarrow> floor \<Rightarrow> bool" for timeout where
  claim: "f (tk_module t) = None \<Longrightarrow> tk_starts t \<Longrightarrow> \<not> tk_ends t \<Longrightarrow>
    floor_step timeout f (Talk t) (f(tk_module t := Some (tk_talker t, tk_at t)))"
| brief: "f (tk_module t) = None \<Longrightarrow> tk_starts t \<Longrightarrow> tk_ends t \<Longrightarrow> floor_step timeout f (Talk t) f"
| hold: "f (tk_module t) = Some (tk_talker t, last_heard) \<Longrightarrow> \<not> tk_ends t \<Longrightarrow>
    last_heard' = max last_heard (tk_at t) \<or> (tk_starts t \<and> last_heard' = tk_at t) \<Longrightarrow>
    floor_step timeout f (Talk t) (f(tk_module t := Some (tk_talker t, last_heard')))"
| release: "f (tk_module t) = Some (tk_talker t, last_heard) \<Longrightarrow> tk_ends t \<Longrightarrow>
    floor_step timeout f (Talk t) (f(tk_module t := None))"
| sweep: "floor_step timeout f (Sweep now) (swept timeout now f)"
| quiet: "floor_step timeout f Quiet f"

inductive_cases floor_talk_cases: "floor_step timeout f (Talk t) f'"
inductive_cases floor_sweep_cases: "floor_step timeout f (Sweep now) f'"
inductive_cases floor_quiet_cases: "floor_step timeout f Quiet f'"

definition floor_run :: "duration \<Rightarrow> floor_event list \<Rightarrow> floor list \<Rightarrow> bool" where
  "floor_run timeout labels floors \<longleftrightarrow> length floors = Suc (length labels) \<and>
     (\<forall>i<length labels. floor_step timeout (floors ! i) (labels ! i) (floors ! Suc i))"

definition holder :: "floor \<Rightarrow> DstarModule \<Rightarrow> talker option" where
  "holder f m = map_option fst (f m)"

lemma holder_simps [simp]:
  "holder f m = None \<longleftrightarrow> f m = None" "f m = None \<Longrightarrow> holder f m = None" "f m = Some (a, l) \<Longrightarrow> holder f m = Some a"
  by (auto simp: holder_def)

text \<open>A talker who is heard after another talker of the same module was heard: in between, the floor
  was free.\<close>

lemma floor_step_held:
  assumes "floor_step timeout f l f'" "holder f m = Some a" "f' m \<noteq> None"
  shows "holder f' m = Some a"
  using assms by (cases rule: floor_step.cases) (auto simp: holder_def swept_def split: if_splits)

lemma floor_held_until:
  assumes "floor_run timeout labels floors" "i \<le> j" "j \<le> length labels" "holder (floors ! i) m = Some a"
    "\<And>k. i \<le> k \<Longrightarrow> k \<le> j \<Longrightarrow> (floors ! k) m \<noteq> None"
  shows "holder (floors ! j) m = Some a"
  using assms(2,3,5)
proof (induction j)
  case 0
  then show ?case using assms(4) by simp
next
  case (Suc j)
  show ?case
  proof (cases "i = Suc j")
    case False
    then have "holder (floors ! j) m = Some a" using Suc by (metis Suc_leD le_SucE le_SucI)
    moreover have "floor_step timeout (floors ! j) (labels ! j) (floors ! Suc j)"
      using assms(1) Suc.prems(2) by (simp add: floor_run_def)
    ultimately show ?thesis using floor_step_held Suc.prems by blast
  qed (use assms(4) in simp)
qed

lemma floor_heard:
  assumes "floor_step timeout f (Talk t) f'"
  shows "holder f (tk_module t) \<in> {None, Some (tk_talker t)} \<and> holder f' (tk_module t) \<in> {None, Some (tk_talker t)}"
  using assms by (cases rule: floor_talk_cases; cases "tk_talker t") (auto simp: holder_def)

lemma floor_free_between:
  assumes "floor_run timeout labels floors" "i < j" "j < length labels" "labels ! i = Talk t" "labels ! j = Talk t'"
    "tk_module t = tk_module t'" "tk_talker t \<noteq> tk_talker t'"
  shows "\<exists>k. i < k \<and> k \<le> j \<and> (floors ! k) (tk_module t) = None"
proof (rule ccontr)
  assume "\<not> ?thesis"
  then have busy: "(floors ! k) (tk_module t) \<noteq> None" if "Suc i \<le> k" "k \<le> j" for k using that by auto
  have "floor_step timeout (floors ! i) (Talk t) (floors ! Suc i)" "floor_step timeout (floors ! j) (Talk t') (floors ! Suc j)"
    using assms(1-5) less_trans [OF assms(2,3)] unfolding floor_run_def by metis+
  from this [THEN floor_heard] have a: "holder (floors ! Suc i) (tk_module t) = Some (tk_talker t)"
    "holder (floors ! j) (tk_module t) = Some (tk_talker t')"
    using busy [of "Suc i"] busy [of j] assms(2,6) by auto
  show False
    using floor_held_until [OF assms(1) _ _ a(1) busy, of j] a(2) assms(2,3,7) by auto
qed

section \<open>The stream cache refines the floor\<close>

definition floor_of :: "'f ProtocolEndpoint \<Rightarrow> floor" where
  "floor_of ep m = map_option (\<lambda>e. ((sc_source e, sc_stream_id e), sc_last_activity e)) (hm_get (ep_stream_cache ep) m)"

text \<open>The datagram that ends a stream: an end packet of DExtra and DPlus, a frame of DCS with the end
  flag.\<close>

definition ends_stream :: "ProtocolKind \<Rightarrow> bytes \<Rightarrow> bool" where
  "ends_stream k bs \<longleftrightarrow> (case k of
      PK_DExtra \<Rightarrow> (case decoded (dextra_decode_client_to_server bs []) of Some (DExtraC_VoiceEot _ _) \<Rightarrow> True | _ \<Rightarrow> False)
    | PK_DPlus \<Rightarrow> (case decoded (dplus_decode_client_to_server bs []) of Some (DPlusC_VoiceEot _ _) \<Rightarrow> True | _ \<Rightarrow> False)
    | PK_Dcs \<Rightarrow> (case decoded (dcs_decode_client_to_server bs []) of Some (DcsC_Voice _ _ _ _ is_end) \<Rightarrow> is_end | _ \<Rightarrow> False))"

definition talk_of :: "StreamSource \<Rightarrow> bool \<Rightarrow> instant \<Rightarrow> ForwardHint \<Rightarrow> talk" where
  "talk_of src ends now hint = \<lparr>tk_talker = (src, snd (hint_parts hint)), tk_module = fst (hint_parts hint),
     tk_starts = (case hint of FH_Header _ _ \<Rightarrow> True | _ \<Rightarrow> False), tk_ends = ends, tk_at = now\<rparr>"

lemma floor_matches:
  "hm_get (ep_stream_cache ep) m = Some e \<Longrightarrow> cache_matches src i e \<longleftrightarrow> holder (floor_of ep) m = Some (src, i)"
  by (auto simp: floor_of_def holder_def cache_matches_def)

lemma floor_of_None: "floor_of ep m = None \<longleftrightarrow> hm_get (ep_stream_cache ep) m = None"
  by (simp add: floor_of_def)

lemma holder_entry:
  assumes "holder (floor_of ep) m = Some (src, i)"
  obtains e where "hm_get (ep_stream_cache ep) m = Some e" "cache_matches src i e" "sc_source e = src" "sc_stream_id e = i"
    "floor_of ep m = Some ((src, i), sc_last_activity e)"
  using assms by (auto simp: floor_of_def holder_def cache_matches_def)

lemma select_voice_hint_floor:
  assumes "select_voice_hint events peer ep = Some hint"
  shows "forward_hint events (module_of peer (ep_clients ep)) = Some hint"
    "holder (floor_of ep) (fst (hint_parts hint)) = Some (local_source peer ep, snd (hint_parts hint)) \<or>
     (floor_of ep (fst (hint_parts hint)) = None \<and> tk_starts (talk_of src ends now hint))"
  using assms
  by (auto simp: select_voice_hint_def floor_of_None floor_matches talk_of_def Let_def split: option.splits if_splits prod.splits)

lemma forward_hint_module: "forward_hint events pm = Some hint \<Longrightarrow> pm = Some (fst (hint_parts hint))"
proof (induction events)
  case Nil
  then show ?case by (cases pm) auto
next
  case (Cons e es)
  then show ?case by (cases pm; cases e) auto
qed

text \<open>The raw event behind the hint.\<close>

fun hint_event :: "ForwardHint \<Rightarrow> RawServerEvent \<Rightarrow> bool" where
  "hint_event (FH_Header m i) (RawS_StreamStarted _ j _) = (i = j)"
| "hint_event (FH_Data m i) (RawS_StreamFrame _ j _ _) = (i = j)"
| "hint_event (FH_Eot m i) (RawS_StreamEnded _ j) = (i = j)"
| "hint_event _ _ = False"

lemma forward_hint_event:
  "forward_hint (map ServerEvent_of_raw es) pm = Some hint \<Longrightarrow> \<exists>e \<in> set es. hint_event hint e"
proof (induction es)
  case Nil
  then show ?case by (cases pm) auto
next
  case (Cons e es)
  then show ?case by (cases pm; cases e) (auto simp: ServerEvent_of_raw_def)
qed

lemma floor_store:
  "floor_of (ep\<lparr>ep_stream_cache := hm_insert m e (ep_stream_cache ep)\<rparr>) =
     (floor_of ep)(m := Some ((sc_source e, sc_stream_id e), sc_last_activity e))"
  "hm_wf (ep_stream_cache ep) \<Longrightarrow> floor_of (ep\<lparr>ep_stream_cache := hm_remove m (ep_stream_cache ep)\<rparr>) = (floor_of ep)(m := None)"
  "hm_wf (ep_stream_cache ep) \<Longrightarrow> floor_of (ep\<lparr>ep_stream_cache := hm_remove m (hm_insert m e (ep_stream_cache ep))\<rparr>) = (floor_of ep)(m := None)"
  by (auto simp: floor_of_def fun_eq_iff hm.lookup_insert hm.lookup_remove hm.wf_insert)

text \<open>A frame of the holder is recorded, or its end removes the entry.\<close>

lemma floor_record:
  assumes "hm_get (ep_stream_cache ep) m = Some e" "cache_matches src i e" "hm_wf (ep_stream_cache ep)"
    "tk_talker t = (src, i)" "tk_module t = m"
  shows "\<not> tk_ends t \<Longrightarrow> tk_at t = now \<Longrightarrow> floor_step timeout (floor_of ep) (Talk t)
      (floor_of (ep\<lparr>ep_stream_cache := hm_insert m (record_frame now e) (ep_stream_cache ep)\<rparr>))"
    "tk_ends t \<Longrightarrow> floor_step timeout (floor_of ep) (Talk t) (floor_of (ep\<lparr>ep_stream_cache := hm_remove m (ep_stream_cache ep)\<rparr>))"
    "tk_ends t \<Longrightarrow> floor_step timeout (floor_of ep) (Talk t)
      (floor_of (ep\<lparr>ep_stream_cache := hm_remove m (hm_insert m (record_frame now e) (ep_stream_cache ep))\<rparr>))"
    "\<not> tk_ends t \<Longrightarrow> tk_starts t \<Longrightarrow> tk_at t = now \<Longrightarrow> sc_source e' = src \<Longrightarrow> sc_stream_id e' = i \<Longrightarrow> sc_last_activity e' = now \<Longrightarrow>
      floor_step timeout (floor_of ep) (Talk t) (floor_of (ep\<lparr>ep_stream_cache := hm_insert m e' (ep_stream_cache ep)\<rparr>))"
proof -
  have f: "floor_of ep (tk_module t) = Some (tk_talker t, sc_last_activity e)" "sc_source e = src" "sc_stream_id e = i"
    using assms by (auto simp: floor_of_def cache_matches_def)
  note hold = floor_step.hold [of "floor_of ep" t, OF f(1)] and release = floor_step.release [of "floor_of ep" t, OF f(1)]
  show "floor_step timeout (floor_of ep) (Talk t)
      (floor_of (ep\<lparr>ep_stream_cache := hm_insert m (record_frame now e) (ep_stream_cache ep)\<rparr>))" if "\<not> tk_ends t" "tk_at t = now"
    using hold [OF that(1), of "max (sc_last_activity e) now"] f assms(4,5) that by (simp add: floor_store record_frame_def)
  show "floor_step timeout (floor_of ep) (Talk t) (floor_of (ep\<lparr>ep_stream_cache := hm_remove m (ep_stream_cache ep)\<rparr>))"
    "floor_step timeout (floor_of ep) (Talk t)
      (floor_of (ep\<lparr>ep_stream_cache := hm_remove m (hm_insert m (record_frame now e) (ep_stream_cache ep))\<rparr>))" if "tk_ends t"
    using release [OF that] assms(3,5) by (simp_all add: floor_store)
  show "floor_step timeout (floor_of ep) (Talk t) (floor_of (ep\<lparr>ep_stream_cache := hm_insert m e' (ep_stream_cache ep)\<rparr>))"
    if "\<not> tk_ends t" "tk_starts t" "tk_at t = now" "sc_source e' = src" "sc_stream_id e' = i" "sc_last_activity e' = now"
    using hold [OF that(1), of now] that assms(4,5) by (simp add: floor_store)
qed

lemma floor_open:
  assumes "floor_of ep m = None" "tk_talker t = (src, i)" "tk_module t = m" "tk_starts t" "\<not> tk_ends t" "tk_at t = now"
    "sc_source e = src" "sc_stream_id e = i" "sc_last_activity e = now"
  shows "floor_step timeout (floor_of ep) (Talk t) (floor_of (ep\<lparr>ep_stream_cache := hm_insert m e (ep_stream_cache ep)\<rparr>))"
  using floor_step.claim [of "floor_of ep" t] assms by (simp add: floor_store)

text \<open>The three arms of the DExtra and DPlus update, and the DCS update, on a selected datagram.\<close>

lemma floor_dcs:
  assumes wf: "hm_wf (ep_stream_cache ep)" "module_of peer (ep_clients ep) = Some m"
    "holder (floor_of ep) m = Some (local_source peer ep, i) \<or> (floor_of ep m = None \<and> tk_starts t)"
    and t: "tk_talker t = (local_source peer ep, i)" "tk_module t = m" "tk_ends t = fin" "tk_at t = now"
  shows "floor_step timeout (floor_of ep) (Talk t) (floor_of (update_stream_cache_dcs (DcsC_Voice h i q fr fin) peer now ep))"
proof (cases "hm_get (ep_stream_cache ep) m")
  case None
  then have "floor_of ep m = None" by (simp add: floor_of_None)
  then show ?thesis
    using None wf t floor_open [of ep m t "local_source peer ep" i now "StreamCache_new i h (local_source peer ep) now"]
      floor_step.brief [of "floor_of ep" t]
    by (auto simp: update_stream_cache_dcs_def StreamCache_new_def)
next
  case (Some e)
  then have m: "cache_matches (local_source peer ep) i e" using wf(3) floor_of_None [of ep m] by (auto simp: floor_matches)
  show ?thesis
    using Some wf(2) m t floor_record(1,3) [OF Some m wf(1) t(1,2)] by (auto simp: update_stream_cache_dcs_def Let_def)
qed

lemma floor_dsvt:
  assumes wf: "hm_wf (ep_stream_cache ep)" "module_of peer (ep_clients ep) = Some m"
    "holder (floor_of ep) m = Some (local_source peer ep, i) \<or> (floor_of ep m = None \<and> tk_starts t)"
    and t: "tk_talker t = (local_source peer ep, i)" "tk_module t = m" "tk_at t = now"
  shows "tk_starts t \<Longrightarrow> \<not> tk_ends t \<Longrightarrow> floor_step timeout (floor_of ep) (Talk t) (floor_of (cache_voice_header m i h bs peer now ep))"
    "\<not> tk_starts t \<Longrightarrow> \<not> tk_ends t \<Longrightarrow> floor_step timeout (floor_of ep) (Talk t) (floor_of (snd (cache_voice_data m i peer now ep)))"
    "\<not> tk_starts t \<Longrightarrow> tk_ends t \<Longrightarrow> floor_step timeout (floor_of ep) (Talk t) (floor_of (cache_voice_eot m i peer ep))"
proof -
  let ?e = "StreamCache_new_with_bytes i h bs (local_source peer ep) now"
  have e: "sc_source ?e = local_source peer ep" "sc_stream_id ?e = i" "sc_last_activity ?e = now"
    by (simp_all add: StreamCache_new_with_bytes_def)
  show "floor_step timeout (floor_of ep) (Talk t) (floor_of (cache_voice_header m i h bs peer now ep))" if st: "tk_starts t" "\<not> tk_ends t"
  proof (cases "hm_get (ep_stream_cache ep) m")
    case None
    then show ?thesis
      using floor_open [OF _ t(1,2) st t(3) e] by (simp add: cache_voice_header_def is_some_and_def floor_of_None)
  next
    case (Some x)
    then have "cache_matches (local_source peer ep) i x" using wf(3) floor_of_None [of ep m] by (auto simp: floor_matches)
    then show ?thesis
      using floor_record(4) [OF Some _ wf(1) t(1,2) st(2,1) t(3) e] Some by (simp add: cache_voice_header_def is_some_and_def)
  qed
  show "floor_step timeout (floor_of ep) (Talk t) (floor_of (snd (cache_voice_data m i peer now ep)))" if st: "\<not> tk_starts t" "\<not> tk_ends t"
    using wf(3) st(1) floor_record(1) [OF _ _ wf(1) t(1,2) st(2) t(3)]
    by (auto elim!: holder_entry simp: cache_voice_data_def Let_def)
  show "floor_step timeout (floor_of ep) (Talk t) (floor_of (cache_voice_eot m i peer ep))" if st: "\<not> tk_starts t" "tk_ends t"
    using wf(3) st(1) floor_record(2) [OF _ _ wf(1) t(1,2) st(2)]
    by (auto elim!: holder_entry simp: cache_voice_eot_def is_some_and_def)
qed

lemma selected_floor:
  assumes "hm_wf (ep_stream_cache ep)" "select_voice_hint (map ServerEvent_of_raw es) peer ep = Some hint"
    "set es \<subseteq> set (raw_events (ep_protocol ep) peer r bs)"
  shows "floor_step timeout (floor_of ep) (Talk (talk_of (local_source peer ep) (ends_stream (ep_protocol ep) bs) now hint))
    (floor_of (snd (cache_update (ep_protocol ep) bs peer now ep)))"
proof -
  obtain m i where mi: "hint_parts hint = (m, i)" by (cases "hint_parts hint")
  let ?t = "talk_of (local_source peer ep) (ends_stream (ep_protocol ep) bs) now hint"
  note sel = select_voice_hint_floor [OF assms(2)]
  have mo: "module_of peer (ep_clients ep) = Some m" using forward_hint_module [OF sel(1)] mi by simp
  have fl: "holder (floor_of ep) m = Some (local_source peer ep, i) \<or> (floor_of ep m = None \<and> tk_starts ?t)"
    using sel(2) [of "local_source peer ep" "ends_stream (ep_protocol ep) bs" now] mi by simp
  have t: "tk_talker ?t = (local_source peer ep, i)" "tk_module ?t = m" "tk_at ?t = now"
    "tk_starts ?t = (case hint of FH_Header _ _ \<Rightarrow> True | _ \<Rightarrow> False)" "tk_ends ?t = ends_stream (ep_protocol ep) bs"
    by (simp_all add: talk_of_def mi)
  obtain e where e: "e \<in> set (raw_events (ep_protocol ep) peer r bs)" "hint_event hint e"
    using forward_hint_event [OF sel(1)] assms(3) by blast
  note dsvt = floor_dsvt [OF assms(1) mo fl t(1-3), unfolded t(4,5)]
  show ?thesis
  proof (cases "ep_protocol ep")
    case PK_DExtra
    then obtain pkt where p: "decoded (dextra_decode_client_to_server bs []) = Some pkt" "e \<in> set (dextra_raw peer pkt)"
      using e(1) by (cases "decoded (dextra_decode_client_to_server bs [])") (auto simp: raw_events_def)
    show ?thesis
      using PK_DExtra p mo e(2) mi dsvt
      by (cases pkt; cases hint) (auto simp: cache_update_def update_stream_cache_dextra_def ends_stream_def)
  next
    case PK_DPlus
    then obtain pkt where p: "decoded (dplus_decode_client_to_server bs []) = Some pkt" "e \<in> set (dplus_raw peer r pkt)"
      using e(1) by (cases "decoded (dplus_decode_client_to_server bs [])") (auto simp: raw_events_def)
    show ?thesis
      using PK_DPlus p mo e(2) mi dsvt
      by (cases pkt; cases hint) (auto simp: cache_update_def update_stream_cache_dplus_def ends_stream_def)
  next
    case PK_Dcs
    then obtain pkt where p: "decoded (dcs_decode_client_to_server bs []) = Some pkt" "e \<in> set (dcs_raw peer pkt)"
      using e(1) by (cases "decoded (dcs_decode_client_to_server bs [])") (auto simp: raw_events_def)
    then obtain h q fr fin where v: "pkt = DcsC_Voice h i q fr fin"
      using e(2) mi by (cases pkt; cases hint) (auto split: if_splits)
    then have "tk_ends ?t = fin" using p(1) PK_Dcs t(5) by (simp add: ends_stream_def)
    from floor_dcs [OF assms(1) mo fl t(1,2) this t(3)] show ?thesis using PK_Dcs p(1) v by (simp add: cache_update_def)
  qed
qed

text \<open>What is heard in one step of the endpoint.\<close>

fun heard :: "endpoint_op \<Rightarrow> 'f ProtocolEndpoint \<Rightarrow> talk option" where
  "heard (OnDatagram env bs peer now) ep = (case fst (handle_inbound bs peer now ep) of
      Err _ \<Rightarrow> None
    | Ok outcome \<Rightarrow> map_option (talk_of (local_source peer ep) (ends_stream (ep_protocol ep) bs) now) (eo_forward outcome))"
| "heard (OnTick send now) ep = None"
| "heard (OnBusEvent send event now t) ep =
     (if xe_source_protocol event = ep_protocol ep \<or> track_bus_event event now ep = None then None
      else Some \<lparr>tk_talker = (\<lparr>src_protocol = xe_source_protocol event, src_peer = xe_source_peer event\<rparr>,
                              VoiceEvent_stream_id (xe_event event)),
                 tk_module = xe_module event,
                 tk_starts = (case xe_event event of VE_StreamStart _ _ \<Rightarrow> True | _ \<Rightarrow> False),
                 tk_ends = (case xe_event event of VE_StreamEnd _ _ \<Rightarrow> True | _ \<Rightarrow> False),
                 tk_at = now\<rparr>)"

text \<open>The event of the floor: what is heard, and otherwise the sweep of a tick, or nothing.\<close>

definition floor_event_of :: "endpoint_op \<Rightarrow> 'f ProtocolEndpoint \<Rightarrow> floor_event" where
  "floor_event_of op ep = (case heard op ep of
      Some t \<Rightarrow> Talk t
    | None \<Rightarrow> (case op of OnTick _ now \<Rightarrow> Sweep now | _ \<Rightarrow> Quiet))"

lemma floor_aside: "aside ep ep' \<Longrightarrow> floor_of ep' = floor_of ep"
  by (auto simp: aside_def floor_of_def fun_eq_iff)

lemma floor_cong [simp]:
  "floor_of (ep\<lparr>ep_clients := st\<rparr>) = floor_of ep" "floor_of (ep\<lparr>ep_voice_bus := b\<rparr>) = floor_of ep"
  "floor_of (ep\<lparr>ep_pending_events := es\<rparr>) = floor_of ep" "floor_of (ep\<lparr>ep_last_keepalive_sent := t\<rparr>) = floor_of ep"
  by (auto simp: floor_of_def fun_eq_iff)

lemma floor_inbound:
  assumes "ep_inv ep" "handle_inbound bs peer now ep = (r, ep')"
  shows "floor_step timeout (floor_of ep) (case r of Err _ \<Rightarrow> Quiet | Ok outcome \<Rightarrow> (case eo_forward outcome of
      None \<Rightarrow> Quiet | Some hint \<Rightarrow> Talk (talk_of (local_source peer ep) (ends_stream (ep_protocol ep) bs) now hint)))
    (floor_of ep')"
  using inbound_cases [OF assms]
proof (elim disjE exE conjE)
  fix outcome d assume r: "r = Ok outcome" and h: "handled bs peer now ep d outcome ep'"
  obtain st b where ep2: "hd_ep d = ep\<lparr>ep_clients := st\<rparr>" and inv: "ep_inv (hd_ep d)"
    and ep': "ep' = (if eo_forward outcome = None then hd_ep d else snd (cache_update (ep_protocol ep) bs peer now (hd_ep d)))
       \<lparr>ep_voice_bus := b, ep_pending_events := []\<rparr>"
    and fw: "eo_forward outcome = select_voice_hint (eo_events (hd_driven d)) peer (hd_ep d)"
    and dr: "driven (ep_protocol ep) peer bs (hd_phase d) (hd_before d) (hd_driven d) (hd_phase' d) (hd_after d)"
    using h by (auto simp: handled_def)
  obtain es where es: "eo_events (hd_driven d) = map ServerEvent_of_raw es"
      "set es \<subseteq> set (raw_events (ep_protocol ep) peer (ss_reflector_module (ch_session (hd_before d))) bs)"
    using dr by (auto simp: driven_def EndpointOutcome_new_def)
  have src: "local_source peer (hd_ep d) = local_source peer ep" "ep_protocol (hd_ep d) = ep_protocol ep" "floor_of (hd_ep d) = floor_of ep"
    by (simp_all add: ep2 local_source_def)
  show ?thesis
  proof (cases "eo_forward outcome")
    case None
    then show ?thesis using r ep' src by (simp add: floor_step.quiet)
  next
    case (Some hint)
    have "select_voice_hint (map ServerEvent_of_raw es) peer (hd_ep d) = Some hint" using Some fw es(1) by simp
    from selected_floor [OF ep_inv_wf [OF inv] this, of _ bs timeout now] show ?thesis
      using es(2) r Some ep' src by simp
  qed
qed (auto simp: turned_away_def refused_def floor_step.quiet split: sum.split)

lemma floor_bus_event:
  assumes "hm_wf (ep_stream_cache ep)" "xe_source_protocol event \<noteq> ep_protocol ep" "track_bus_event event now ep = Some ep1"
    "heard (OnBusEvent send event now t) ep = Some k"
  shows "floor_step timeout (floor_of ep) (Talk k) (floor_of ep1)"
proof -
  let ?src = "\<lparr>src_protocol = xe_source_protocol event, src_peer = xe_source_peer event\<rparr>" and ?i = "VoiceEvent_stream_id (xe_event event)"
  let ?m = "xe_module event"
  have k: "tk_talker k = (?src, ?i)" "tk_module k = ?m" "tk_at k = now"
    "tk_starts k = (case xe_event event of VE_StreamStart _ _ \<Rightarrow> True | _ \<Rightarrow> False)"
    "tk_ends k = (case xe_event event of VE_StreamEnd _ _ \<Rightarrow> True | _ \<Rightarrow> False)"
    using assms(2-4) by auto
  show ?thesis
  proof (cases "hm_get (ep_stream_cache ep) ?m")
    case None
    then have "floor_of ep ?m = None" by (simp add: floor_of_None)
    from floor_open [OF this k(1,2) _ _ k(3)] show ?thesis
      using None assms(3) k(4,5)
      by (cases "xe_event event") (auto simp: track_bus_event_def StreamCache_new_def split: if_splits)
  next
    case (Some e)
    have m: "cache_matches ?src ?i e" using Some assms(3) by (auto simp: track_bus_event_def Let_def split: if_splits)
    show ?thesis
      using Some m assms(3) k(3-5) floor_record(1,3,4) [OF Some m assms(1) k(1,2)]
      by (cases "xe_event event") (auto simp: track_bus_event_def StreamCache_new_def Let_def)
  qed
qed

lemma floor_tick:
  assumes "hm_wf (ep_stream_cache ep)"
  shows "floor_of (snd (run_maintenance send now ep)) = swept (es_voice_inactivity_timeout (ep_settings ep)) now (floor_of ep)"
proof -
  have "es_voice_inactivity_timeout (ep_settings (evict_idle now ep)) = es_voice_inactivity_timeout (ep_settings ep)"
    using evict_idle_fields(1) [of ep now ep] by (simp add: same_config_def)
  then have "floor_of (snd (run_maintenance send now ep)) =
      floor_of (ep\<lparr>ep_stream_cache := hm_retain (\<lambda>m entry. \<not> should_evict now (es_voice_inactivity_timeout (ep_settings ep)) entry)
         (ep_stream_cache ep)\<rparr>)"
    by (auto simp: run_maintenance_def handle_tick_def Let_def floor_of_def fun_eq_iff split: prod.split)
  then show ?thesis
    using assms by (auto simp: floor_of_def hm.lookup_retain swept_def should_evict_def fun_eq_iff split: option.split)
qed

lemma floor_refines:
  assumes "ep_inv ep"
  shows "floor_step (es_voice_inactivity_timeout (ep_settings ep)) (floor_of ep) (floor_event_of op ep) (floor_of (snd (endpoint_step op ep)))"
proof (cases op)
  case (OnDatagram env bs peer now)
  obtain r ep1 where h: "handle_inbound bs peer now ep = (r, ep1)" by (cases "handle_inbound bs peer now ep")
  show ?thesis
    using floor_inbound [OF assms h] floor_aside [OF datagram_aside [of bs peer now ep env]] OnDatagram h
    by (cases r) (auto simp: floor_event_of_def split: option.splits)
next
  case (OnTick send now)
  then show ?thesis using floor_tick [OF ep_inv_wf [OF assms]] by (simp add: floor_event_of_def floor_step.sweep)
next
  case (OnBusEvent send event now t)
  show ?thesis
  proof (cases "xe_source_protocol event = ep_protocol ep \<or> track_bus_event event now ep = None")
    case True
    then have "snd (endpoint_step op ep) = ep" "heard op ep = None" using OnBusEvent by (auto simp: handle_cross_protocol_event_def)
    then show ?thesis using OnBusEvent by (simp add: floor_event_of_def floor_step.quiet)
  next
    case False
    then obtain ep1 k where tr: "track_bus_event event now ep = Some ep1" "heard op ep = Some k" using OnBusEvent by auto
    then show ?thesis
      using False OnBusEvent floor_bus_event [OF ep_inv_wf [OF assms] _ tr(1)] floor_aside [OF bus_event_aside [OF _ tr(1)]]
      by (simp add: floor_event_of_def del: heard.simps)
  qed
qed

text \<open>What is heard along a run, and the floors it passes through.\<close>

fun heard_along :: "endpoint_op list \<Rightarrow> 'f ProtocolEndpoint \<Rightarrow> talk option list" where
  "heard_along [] ep = []"
| "heard_along (op # ops) ep = heard op ep # heard_along ops (snd (endpoint_step op ep))"

fun floor_events_along :: "endpoint_op list \<Rightarrow> 'f ProtocolEndpoint \<Rightarrow> floor_event list" where
  "floor_events_along [] ep = []"
| "floor_events_along (op # ops) ep = floor_event_of op ep # floor_events_along ops (snd (endpoint_step op ep))"

fun floors_along :: "endpoint_op list \<Rightarrow> 'f ProtocolEndpoint \<Rightarrow> floor list" where
  "floors_along [] ep = [floor_of ep]"
| "floors_along (op # ops) ep = floor_of ep # floors_along ops (snd (endpoint_step op ep))"

lemma floors_along_0: "floors_along ops ep ! 0 = floor_of ep"
  by (cases ops) simp_all

lemma heard_events:
  "length (heard_along ops ep) = length ops" "length (floor_events_along ops ep) = length ops"
  "i < length ops \<Longrightarrow> heard_along ops ep ! i = Some t \<Longrightarrow> floor_events_along ops ep ! i = Talk t"
proof -
  show "length (heard_along ops ep) = length ops" "length (floor_events_along ops ep) = length ops"
    by (induction ops arbitrary: ep) auto
  show "i < length ops \<Longrightarrow> heard_along ops ep ! i = Some t \<Longrightarrow> floor_events_along ops ep ! i = Talk t"
    by (induction ops arbitrary: ep i) (auto simp: nth_Cons floor_event_of_def split: nat.splits)
qed

lemma run_floors:
  assumes "ep_inv ep"
  shows "floor_run (es_voice_inactivity_timeout (ep_settings ep)) (floor_events_along ops ep) (floors_along ops ep)"
  using assms
proof (induction ops arbitrary: ep)
  case (Cons op ops)
  let ?ep = "snd (endpoint_step op ep)" and ?timeout = "es_voice_inactivity_timeout (ep_settings ep)"
  have "ep_settings ?ep = ep_settings ep" using step_config [OF Cons.prems, of op] by (simp add: same_config_def)
  then have rest: "floor_run ?timeout (floor_events_along ops ?ep) (floors_along ops ?ep)"
    using Cons.IH [OF ep_inv_step [OF Cons.prems, of op]] by simp
  have "floor_step ?timeout ((floor_of ep # floors_along ops ?ep) ! i) ((floor_event_of op ep # floor_events_along ops ?ep) ! i)
      ((floor_of ep # floors_along ops ?ep) ! Suc i)" if "i < Suc (length (floor_events_along ops ?ep))" for i
    using that rest floor_refines [OF Cons.prems, of op] floors_along_0 [of ops ?ep] by (cases i) (auto simp: floor_run_def)
  then show ?case using rest by (simp add: floor_run_def)
qed (simp add: floor_run_def)

text \<open>C4. The stream cache refines the floor: along every run of an endpoint, with datagrams of any
  clients, ticks and frames from the other protocols interleaved at will, the relayed frames and
  the sweeps are a run of the floor machine, from free modules. A free module is taken by the start
  of a stream only. It is then held by that source and stream alone: it is given up by the frame
  that ends the stream and by no other, a sweep frees it exactly when nothing of the stream was
  relayed for the voice inactivity timeout, and no other step changes who holds it or since when.\<close>

theorem reflector_refines_floor:
  assumes "ProtocolEndpoint_new fl protocol m0 authorizer bus settings modules = Some ep0" "list_all Module_wf modules"
  shows "floor_run (es_voice_inactivity_timeout settings) (floor_events_along ops ep0) (floors_along ops ep0) \<and>
    floors_along ops ep0 ! 0 = (\<lambda>m. None)"
proof -
  note new = new_ep_inv [OF assms]
  have "ep_stream_cache ep0 = []" using assms(1) by (auto simp: ProtocolEndpoint_new_def split: if_splits)
  then have "floor_of ep0 = (\<lambda>m. None)" by (simp add: floor_of_def fun_eq_iff hm_get_def)
  then show ?thesis using run_floors [OF new(1), of ops] new(2) floors_along_0 [of ops ep0] by simp
qed

lemma sample_heard:
  "heard_along sample_ops (sample_at ClientPool_new [] None) =
     [None, None, Some (talk_of (local_source sample_talker (sample_at ClientPool_new [] None)) False 0 (FH_Header module_C (StreamId 7))), None]"
  by (simp add: sample_ops_def step_links step_talks sample_links sample_talks link_outcome_def talk_outcome_def EndpointOutcome_new_def
      local_source_def ends_stream_def sample_decoded decoded_def StreamId_wf_def del: endpoint_step.simps)

theorem reflector_refines_floor_witness:
  "floor_run (es_voice_inactivity_timeout sample_settings) (floor_events_along sample_ops (sample_at ClientPool_new [] None))
     (floors_along sample_ops (sample_at ClientPool_new [] None)) \<and>
   heard_along sample_ops (sample_at ClientPool_new [] None) ! 2 \<noteq> None"
  using reflector_refines_floor [OF sample_endpoint_new, of sample_ops] by (simp add: sample_heard)

text \<open>C8. Two talkers never share a module: when frames of two different talkers of a module are
  relayed at different steps of a run, the module was free at some moment in between.\<close>

theorem one_talker_per_module:
  assumes "ProtocolEndpoint_new fl protocol m0 authorizer bus settings modules = Some ep0" "list_all Module_wf modules"
    "i < j" "j < length ops" "heard_along ops ep0 ! i = Some t" "heard_along ops ep0 ! j = Some t'"
    "tk_module t = tk_module t'" "tk_talker t \<noteq> tk_talker t'"
  shows "\<exists>k. i < k \<and> k \<le> j \<and> (floors_along ops ep0 ! k) (tk_module t) = None"
  using floor_free_between [OF run_floors [OF new_ep_inv(1) [OF assms(1,2)]], of i j ops t t'] assms(3-8) by (simp add: heard_events)

definition sample_answered :: "endpoint_op list" where
  "sample_answered = sample_ops @ [OnDatagram (all_sent sweep_time) (talk_header (StreamId 9)) sample_listener sweep_time]"

lemma heard_along_append:
  "heard_along (ops @ ops') ep = heard_along ops ep @ heard_along ops' (snd (run_steps endpoint_step ops ep))"
proof (induction ops arbitrary: ep)
  case (Cons op ops)
  show ?case unfolding snd_run_steps by (simp add: Cons.IH del: endpoint_step.simps)
qed simp

theorem one_talker_per_module_witness:
  "\<exists>t t'. heard_along sample_answered (sample_at ClientPool_new [] None) ! 2 = Some t \<and>
     heard_along sample_answered (sample_at ClientPool_new [] None) ! 4 = Some t' \<and> tk_talker t \<noteq> tk_talker t' \<and>
     (\<exists>k. 2 < k \<and> k \<le> 4 \<and> (floors_along sample_answered (sample_at ClientPool_new [] None) ! k) module_C = None)"
proof -
  let ?ep = "sample_at ClientPool_new [] None"
  obtain outcome ep where "handle_inbound (talk_header (StreamId 9)) sample_listener sweep_time sample_swept = (Ok outcome, ep)"
      "eo_forward outcome = Some (FH_Header module_C (StreamId 9))"
    using sample_answer by blast
  then have h: "heard_along sample_answered ?ep = [None, None, Some (talk_of (local_source sample_talker ?ep) False 0 (FH_Header module_C (StreamId 7))),
      None, Some (talk_of (local_source sample_listener sample_swept) False sweep_time (FH_Header module_C (StreamId 9)))]"
    by (simp add: sample_answered_def heard_along_append sample_heard sample_runs(2) ends_stream_def sample_decoded decoded_def
        StreamId_wf_def sample_swept_def del: endpoint_step.simps)
  let ?t = "talk_of (local_source sample_talker ?ep) False 0 (FH_Header module_C (StreamId 7))"
  let ?t' = "talk_of (local_source sample_listener sample_swept) False sweep_time (FH_Header module_C (StreamId 9))"
  have at: "heard_along sample_answered ?ep ! 2 = Some ?t" "heard_along sample_answered ?ep ! 4 = Some ?t'" by (simp_all add: h)
  have "tk_module ?t = tk_module ?t'" "tk_talker ?t \<noteq> tk_talker ?t'" "tk_module ?t = module_C" by (simp_all add: talk_of_def)
  moreover have "(2::nat) < 4" "4 < length sample_answered" by (simp_all add: sample_answered_def sample_ops_def)
  ultimately show ?thesis using one_talker_per_module [OF sample_endpoint_new _ _ at] at by auto
qed

end
