(* ===== verification/Reflector_Service.thy ===== *)
theory Reflector_Service
  imports Reflector_Floor
begin

text \<open>
  What the clients of a reflector endpoint can rely on: who may be relayed, who receives a relayed
  frame, what a maintenance sweep does, and that the datagrams are readable. The last section
  shows a defect: a client whose end of transmission is lost cannot be heard again.
\<close>

section \<open>Clients across a step\<close>

text \<open>Every later client was there before, with the same session, module and access.\<close>

definition kin :: "'f PoolState \<Rightarrow> 'f PoolState \<Rightarrow> bool" where
  "kin st st' \<longleftrightarrow> (\<forall>p h'. client_at st' p = Some h' \<longrightarrow> (\<exists>h. client_at st p = Some h \<and> same_client h h'))"

lemma kin_refl [simp]: "kin st st"
  by (auto simp: kin_def same_client_def)

lemma kin_trans: "kin a b \<Longrightarrow> kin b c \<Longrightarrow> kin a c"
  unfolding kin_def same_client_def by metis

lemma kin_touched: "touched st st' \<Longrightarrow> kin st st'"
  unfolding kin_def using touched_at [of st st'] by (metis option.rel_cases option.distinct(1) option.inject)

lemma kin_removed: "pool_inv st \<Longrightarrow> kin st (snd (pool_remove p st))"
  using pool_remove_pool [of st p] by (auto simp: kin_def same_client_def split: if_splits)

lemma kin_evict: "ep_inv ep \<Longrightarrow> kin (ep_clients ep) (ep_clients (evict_peer p reason ep))"
  by (simp add: evict_peer_def kin_removed ep_inv_pool)

lemma kin_evict_all: "ep_inv ep \<Longrightarrow> kin (ep_clients ep) (ep_clients (evict_all reason peers ep))"
  unfolding evict_all_def
proof (induction peers arbitrary: ep)
  case (Cons p peers)
  show ?case using kin_trans [OF kin_evict [OF Cons.prems] Cons.IH [OF ep_inv_evict [OF Cons.prems]]] by simp
qed simp

lemma kin_evict_idle: "ep_inv ep \<Longrightarrow> kin (ep_clients ep) (ep_clients (evict_idle now ep))"
proof -
  have "kin (ep_clients ep) (ep_clients (fold (\<lambda>entry ep. if P entry ep then evict_peer (cs_peer entry) reason ep else ep) entries ep))"
    if "ep_inv ep" for P reason entries and ep :: "'a ProtocolEndpoint"
    using that
  proof (induction entries arbitrary: ep)
    case (Cons x entries)
    show ?case
      using Cons.IH [OF Cons.prems] kin_trans [OF kin_evict [OF Cons.prems] Cons.IH [OF ep_inv_evict [OF Cons.prems]]] by simp
  qed simp
  note * = this [of ep "\<lambda>entry ep. es_keepalive_inactivity_timeout (ep_settings ep) \<le> saturating_duration_since now (cs_last_heard entry)"
      "''keepalive inactivity timeout''" "sweep_snapshot (ep_clients ep)"]
  show "ep_inv ep \<Longrightarrow> kin (ep_clients ep) (ep_clients (evict_idle now ep))" unfolding evict_idle_def by (rule *)
qed

lemma kin_send_replies: "ep_inv ep \<Longrightarrow> kin (ep_clients ep) (snd (send_replies send txs ev (ep_clients ep)))"
  by (rule kin_touched [OF send_replies_touched [OF ep_inv_pool]])

lemma kin_fan_out:
  "pool_inv clients \<Longrightarrow> fan_out_voice_at fl send src m bs t clients = (sent, report, clients') \<Longrightarrow> kin clients clients'"
  unfolding fan_out_voice_at_def by (rule kin_touched [OF fan_out_touched])

lemma kin_fan_out_outcome:
  assumes "ep_inv ep" "fan_out_outcome send send2 outcome peer bs t t2 ev ep = (sent, ev', ep')"
  shows "kin (ep_clients ep) (ep_clients ep')"
proof (cases "eo_forward outcome")
  case (Some hint)
  obtain s1 r1 c1 where f1: "fan_out_voice_at (ep_arith ep) send peer (fst (hint_parts hint)) bs t (ep_clients ep) = (s1, r1, c1)"
    using prod_cases3 by blast
  have k1: "kin (ep_clients ep) c1" by (rule kin_fan_out [OF ep_inv_pool [OF assms(1)] f1])
  show ?thesis
  proof (cases "eo_header_retransmit outcome")
    case (Some cached)
    obtain s2 r2 c2 where f2: "fan_out_voice_at (ep_arith ep) send2 peer (fst (hint_parts hint)) cached t2 c1 = (s2, r2, c2)"
      using prod_cases3 by blast
    have "pool_inv c1" using ep_inv_pool [OF ep_inv_fan_out [OF assms(1) f1]] by simp
    then show ?thesis
      using kin_trans [OF k1 kin_fan_out [OF _ f2]] assms(2) \<open>eo_forward outcome = Some hint\<close> f1 f2 Some
      by (auto simp: fan_out_outcome_def Let_def)
  qed (use assms(2) Some f1 k1 in \<open>auto simp: fan_out_outcome_def Let_def\<close>)
qed (use assms in \<open>simp add: fan_out_outcome_def\<close>)

lemma kin_datagram:
  assumes "ep_inv ep"
  shows "kin (ep_clients (snd (handle_inbound bs peer now ep))) (ep_clients (snd (run_one_tick env bs peer now ep)))"
proof -
  obtain r ep1 where h: "handle_inbound bs peer now ep = (r, ep1)" by (cases "handle_inbound bs peer now ep")
  have inv1: "ep_inv ep1" using ep_inv_inbound [OF assms, of bs peer now] h by simp
  show ?thesis
  proof (cases r)
    case (Inr outcome)
    obtain ev cl where s: "send_replies (pe_replies env) (eo_txs outcome) [] (ep_clients ep1) = (ev, cl)" by fastforce
    have inv2: "ep_inv (ep1\<lparr>ep_clients := cl\<rparr>)" and k1: "kin (ep_clients ep1) cl"
      using ep_inv_send_replies [OF inv1, of "pe_replies env" "eo_txs outcome" "[]"]
        kin_send_replies [OF inv1, of "pe_replies env" "eo_txs outcome" "[]"] s by simp_all
    obtain v ev2 ep3 where f: "fan_out_outcome (pe_voice env) (pe_header env) outcome peer bs (pe_voice_at env) (pe_header_at env) ev
        (ep1\<lparr>ep_clients := cl\<rparr>) = (v, ev2, ep3)" using prod_cases3 by blast
    have "kin cl (ep_clients ep3)" using kin_fan_out_outcome [OF inv2 f] by simp
    from kin_trans [OF kin_trans [OF k1 this] kin_evict_all [OF ep_inv_fan_out_outcome [OF inv2 f]]] show ?thesis
      using h Inr s f by (simp add: run_one_tick_def Let_def)
  qed (use h in \<open>simp add: run_one_tick_def\<close>)
qed

lemma kin_maintenance:
  assumes "ep_inv ep"
  shows "kin (ep_clients ep) (ep_clients (snd (run_maintenance send now ep)))"
proof -
  obtain txs ep1 where t: "handle_tick now ep = (txs, ep1)" by fastforce
  have inv1: "ep_inv ep1" and k1: "kin (ep_clients ep) (ep_clients ep1)"
    using ep_inv_tick [OF assms, of now] kin_evict_idle [OF assms, of now] t
    by (auto simp: handle_tick_def Let_def split: if_splits)
  obtain ev cl where s: "send_replies send txs [] (ep_clients ep1) = (ev, cl)" by fastforce
  have "kin (ep_clients ep1) cl" using kin_send_replies [OF inv1, of send txs "[]"] s by simp
  moreover have "ep_inv (ep1\<lparr>ep_clients := cl\<rparr>)" using ep_inv_send_replies [OF inv1, of send txs "[]"] s by simp
  from kin_evict_all [OF this] have "kin cl (ep_clients (evict_all reason peers (ep1\<lparr>ep_clients := cl\<rparr>)))" for reason peers by simp
  ultimately show ?thesis
    using kin_trans [OF k1] kin_trans t s by (fastforce simp: run_maintenance_def intro: kin_trans)
qed

lemma kin_bus_event:
  assumes "ep_inv ep"
  shows "kin (ep_clients ep) (ep_clients (snd (handle_cross_protocol_event send event now t ep)))"
proof (cases "xe_source_protocol event = ep_protocol ep \<or> track_bus_event event now ep = None")
  case False
  then obtain ep1 where tr: "track_bus_event event now ep = Some ep1" by auto
  then obtain c where c: "ep1 = ep\<lparr>ep_stream_cache := c\<rparr>" "hm_wf c" using track_bus_event_only [OF tr] ep_inv_wf [OF assms] by auto
  have inv1: "ep_inv ep1" using ep_inv_cache [OF assms c(2)] c(1) by simp
  have "kin (ep_clients ep) (ep_clients (evict_all reason evicted (ep1\<lparr>ep_clients := clients\<rparr>)))"
    if "fan_out_voice_at (ep_arith ep1) send src m payload t (ep_clients ep1) = (sent, report, clients)"
    for src m payload sent report clients evicted reason
    using kin_trans [OF kin_fan_out [OF ep_inv_pool [OF inv1] that]] kin_evict_all [OF ep_inv_fan_out [OF inv1 that]] c(1) by simp
  then show ?thesis
    using False tr c(1) by (auto simp: handle_cross_protocol_event_def Let_def split: sum.split option.split prod.split)
qed (auto simp: handle_cross_protocol_event_def)

section \<open>Who may be relayed\<close>

definition access_inv :: "'f ProtocolEndpoint \<Rightarrow> bool" where
  "access_inv ep \<longleftrightarrow> (\<forall>p h. client_at (ep_clients ep) p = Some h \<longrightarrow> ch_access h = ReadWrite \<longrightarrow> granted ep p ReadWrite)"

lemma granted_config: "same_config ep ep' \<Longrightarrow> granted ep' = granted ep"
  by (simp add: granted_def same_config_def fun_eq_iff)

lemma access_kin: "access_inv ep \<Longrightarrow> kin (ep_clients ep) (ep_clients ep') \<Longrightarrow> same_config ep ep' \<Longrightarrow> access_inv ep'"
  unfolding access_inv_def kin_def using granted_config [of ep ep'] by (metis same_client_def)

lemma access_inbound:
  assumes "ep_inv ep" "access_inv ep" "handle_inbound bs peer now ep = (r, ep')"
  shows "access_inv ep'"
  using inbound_cases [OF assms(1,3)]
proof (elim disjE exE conjE)
  fix outcome assume "turned_away peer now ep outcome ep'"
  then have "kin (ep_clients ep) (ep_clients ep')"
    using kin_removed [OF ep_inv_pool [OF assms(1)], of peer] kin_touched [OF touched_ops(2) [OF ep_inv_pool [OF assms(1)]], of peer now]
    by (auto simp: turned_away_def)
  then show ?thesis using access_kin [OF assms(2)] inbound_config [OF assms(1,3)] by blast
next
  assume "refused ep (r, ep')"
  then obtain clients where ep': "ep' = ep\<lparr>ep_clients := clients\<rparr>" and rel: "\<And>q. rel_option (\<lambda>h h'. ch_access h' = ch_access h \<and>
      ch_module h' = ch_module h \<and> (\<exists>d. ch_session h' = (ch_session h)\<lparr>ss_diagnostics := d\<rparr>)) (client_at (ep_clients ep) q) (client_at clients q)"
    by (auto simp: refused_def)
  show ?thesis
    unfolding access_inv_def
  proof (intro allI impI)
    fix p h' assume h': "client_at (ep_clients ep') p = Some h'" "ch_access h' = ReadWrite"
    then obtain h where "client_at (ep_clients ep) p = Some h" "ch_access h = ReadWrite"
      using rel [of p] by (cases "client_at (ep_clients ep) p") (auto simp: ep')
    then show "granted ep' p ReadWrite"
      using assms(2) granted_config [OF inbound_config [OF assms(1,3)]] by (auto simp: access_inv_def)
  qed
next
  fix outcome d assume h: "handled bs peer now ep d outcome ep'"
  have cl: "ep_clients ep' = ep_clients (hd_ep d)"
    using h by (auto simp: handled_def split: if_splits)
  note config = granted_config [OF inbound_config [OF assms(1,3)]]
  show ?thesis
    unfolding access_inv_def
  proof (intro allI impI)
    fix p h' assume h': "client_at (ep_clients ep') p = Some h'" "ch_access h' = ReadWrite"
    show "granted ep' p ReadWrite"
    proof (cases "p = peer")
      case False
      then have "client_at (ep_clients ep) p = Some h'" using h h'(1) cl by (auto simp: handled_def)
      then show ?thesis using assms(2) h'(2) config by (auto simp: access_inv_def)
    next
      case True
      then have "ch_access (hd_after d) = ReadWrite"
        using h h' cl by (auto simp: handled_def same_client_def split: if_splits)
      then consider "ch_access (hd_before d) = ReadWrite" | "granted ep peer ReadWrite" using h by (auto simp: handled_def)
      then show ?thesis
      proof cases
        case 1
        then have "client_at (ep_clients ep) peer = Some (hd_before d)" using h by (auto simp: handled_def split: option.splits)
        then show ?thesis using 1 assms(2) True config by (auto simp: access_inv_def)
      qed (use True config in simp)
    qed
  qed
qed

lemma access_step:
  assumes "ep_inv ep" "access_inv ep"
  shows "access_inv (snd (endpoint_step op ep))"
proof (cases op)
  case (OnDatagram env bs peer now)
  obtain r ep1 where h: "handle_inbound bs peer now ep = (r, ep1)" by (cases "handle_inbound bs peer now ep")
  have "same_config ep1 (snd (run_one_tick env bs peer now ep))" using datagram_aside [of bs peer now ep env] h by (simp add: aside_def)
  then show ?thesis
    using OnDatagram access_kin [OF access_inbound [OF assms h]] kin_datagram [OF assms(1), of bs peer now env] h by simp
next
  case (OnTick send now)
  then show ?thesis using access_kin [OF assms(2) kin_maintenance [OF assms(1)]] step_config [OF assms(1), of op] by simp
next
  case (OnBusEvent send event now t)
  then show ?thesis using access_kin [OF assms(2) kin_bus_event [OF assms(1)]] step_config [OF assms(1), of op] by simp
qed

lemma access_run: "ep_inv ep \<Longrightarrow> access_inv ep \<Longrightarrow> access_inv (snd (run_steps endpoint_step ops ep))"
proof (induction ops arbitrary: ep)
  case (Cons op ops)
  show ?case unfolding snd_run_steps by (rule Cons.IH [OF ep_inv_step [OF Cons.prems(1)] access_step [OF Cons.prems]])
qed simp

lemma hint_voice:
  assumes "hint_event hint e" "e \<in> set (raw_events k a r bs)"
  shows "voice_of k bs = Some (snd (hint_parts hint))"
proof (cases k)
  case PK_DExtra
  then obtain pkt where "decoded (dextra_decode_client_to_server bs []) = Some pkt" "e \<in> set (dextra_raw a pkt)"
    using assms(2) by (cases "decoded (dextra_decode_client_to_server bs [])") (auto simp: raw_events_def)
  then show ?thesis using PK_DExtra assms(1) by (cases pkt; cases hint) (auto simp: voice_of_def)
next
  case PK_DPlus
  then obtain pkt where "decoded (dplus_decode_client_to_server bs []) = Some pkt" "e \<in> set (dplus_raw a r pkt)"
    using assms(2) by (cases "decoded (dplus_decode_client_to_server bs [])") (auto simp: raw_events_def)
  then show ?thesis using PK_DPlus assms(1) by (cases pkt; cases hint) (auto simp: voice_of_def)
next
  case PK_Dcs
  then obtain pkt where "decoded (dcs_decode_client_to_server bs []) = Some pkt" "e \<in> set (dcs_raw a pkt)"
    using assms(2) by (cases "decoded (dcs_decode_client_to_server bs [])") (auto simp: raw_events_def)
  then show ?thesis using PK_Dcs assms(1) by (cases pkt; cases hint) (auto simp: voice_of_def split: if_splits)
qed

text \<open>A voice datagram causes voice events only, and a session that is not linked reports none.\<close>

lemma voice_events_only:
  assumes "voice_of k bs \<noteq> None" "e \<in> set (raw_events k a r bs)"
  shows "server_observe b m (ServerEvent_of_raw e) Absent = None"
proof (cases k)
  case PK_DExtra
  then obtain pkt where "decoded (dextra_decode_client_to_server bs []) = Some pkt" "e \<in> set (dextra_raw a pkt)"
    using assms(2) by (cases "decoded (dextra_decode_client_to_server bs [])") (auto simp: raw_events_def)
  then show ?thesis using PK_DExtra assms(1) by (cases pkt) (auto simp: voice_of_def ServerEvent_of_raw_def)
next
  case PK_DPlus
  then obtain pkt where "decoded (dplus_decode_client_to_server bs []) = Some pkt" "e \<in> set (dplus_raw a r pkt)"
    using assms(2) by (cases "decoded (dplus_decode_client_to_server bs [])") (auto simp: raw_events_def)
  then show ?thesis using PK_DPlus assms(1) by (cases pkt) (auto simp: voice_of_def ServerEvent_of_raw_def)
next
  case PK_Dcs
  then obtain pkt where "decoded (dcs_decode_client_to_server bs []) = Some pkt" "e \<in> set (dcs_raw a pkt)"
    using assms(2) by (cases "decoded (dcs_decode_client_to_server bs [])") (auto simp: raw_events_def)
  then show ?thesis using PK_Dcs assms(1) by (cases pkt) (auto simp: voice_of_def ServerEvent_of_raw_def split: if_splits)
qed

lemma handled_events:
  assumes "handled bs peer now ep d outcome ep'"
  obtains es where "eo_events (hd_driven d) = map ServerEvent_of_raw es"
    "set es \<subseteq> set (raw_events (ep_protocol ep) peer (ss_reflector_module (ch_session (hd_before d))) bs)"
    "follow (server_observe peer (ss_reflector_module (ch_session (hd_before d)))) (map ServerEvent_of_raw es) (hd_phase d) = Some (hd_phase' d)"
  using assms by (auto simp: handled_def driven_def EndpointOutcome_new_def)

lemma relayed_sender:
  assumes "ep_inv ep" "handle_inbound bs peer now ep = (Ok outcome, ep')" "eo_forward outcome \<noteq> None"
  shows "access_of peer (ep_clients ep) = Some ReadWrite"
  using inbound_cases [OF assms(1,2)]
proof (elim disjE exE conjE)
  fix o2 d assume o2: "Ok outcome = Ok o2" and h: "handled bs peer now ep d o2 ep'"
  obtain es where es: "eo_events (hd_driven d) = map ServerEvent_of_raw es"
      "set es \<subseteq> set (raw_events (ep_protocol ep) peer (ss_reflector_module (ch_session (hd_before d))) bs)"
      "follow (server_observe peer (ss_reflector_module (ch_session (hd_before d)))) (map ServerEvent_of_raw es) (hd_phase d) = Some (hd_phase' d)"
    by (rule handled_events [OF h])
  obtain hint where hint: "select_voice_hint (map ServerEvent_of_raw es) peer (hd_ep d) = Some hint"
    using assms(3) o2 h es(1) by (auto simp: handled_def)
  obtain e where e: "e \<in> set es" "hint_event hint e" using forward_hint_event [OF select_voice_hint_floor(1) [OF hint]] by blast
  then have "voice_of (ep_protocol ep) bs \<noteq> None" using hint_voice [OF e(2)] es(2) by blast
  then have ro: "access_of peer (ep_clients ep) \<noteq> Some ReadOnly" using h by (auto simp: handled_def)
  have "client_at (ep_clients ep) peer \<noteq> None"
  proof
    assume n: "client_at (ep_clients ep) peer = None"
    then have "hd_phase d = Absent" using h by (auto simp: handled_def)
    moreover obtain x xs where "es = x # xs" using e(1) by (cases es) auto
    moreover have "voice_of (ep_protocol ep) bs \<noteq> None" by fact
    ultimately show False using es(2,3) voice_events_only [of "ep_protocol ep" bs x peer] by auto
  qed
  then show ?thesis using ro by (cases "client_at (ep_clients ep) peer"; cases "ch_access (the (client_at (ep_clients ep) peer))")
    (auto simp: access_of_def client_at_def)
qed (use assms(3) in \<open>auto simp: turned_away_def refused_def\<close>)

lemma new_access: "ProtocolEndpoint_new fl protocol m authorizer bus settings modules = Some ep \<Longrightarrow> access_inv ep"
  by (auto simp: ProtocolEndpoint_new_def ClientPool_new_def access_inv_def client_at_def hm_get_def split: if_splits)

lemma reached_endpoint:
  assumes "ProtocolEndpoint_new fl protocol m authorizer bus settings modules = Some ep0" "list_all Module_wf modules"
    "run_steps endpoint_step ops ep0 = (sent, ep)"
  shows "ep_inv ep" "access_inv ep" "ep_authorizer ep = authorizer" "ep_protocol ep = protocol" "ep_settings ep = settings"
proof -
  note new = new_ep_inv [OF assms(1,2)]
  show "ep_inv ep" "access_inv ep"
    using ep_inv_run [OF new(1), of ops] access_run [OF new(1) new_access [OF assms(1)], of ops] assms(3) by simp_all
  show "ep_authorizer ep = authorizer" "ep_protocol ep = protocol" "ep_settings ep = settings"
    using run_config [OF new(1), of ops] assms(1,3) by (auto simp: same_config_def ProtocolEndpoint_new_def split: if_splits)
qed

text \<open>C24. Nothing is relayed for a client that the authorizer has not granted full access: after any
  run, when a datagram is passed on to the other members of a module, its sender was linked with
  read-write access, and the authorizer had answered some link attempt of that address with it.\<close>

theorem relayed_only_if_granted:
  assumes "ProtocolEndpoint_new fl protocol m0 authorizer bus settings modules = Some ep0" "list_all Module_wf modules"
    "run_steps endpoint_step ops ep0 = (sent, ep)"
    "handle_inbound bs peer now ep = (Ok outcome, ep')" "eo_forward outcome \<noteq> None"
  shows "access_of peer (ep_clients ep) = Some ReadWrite \<and>
    (\<exists>attempt. la_peer attempt = peer \<and> la_protocol attempt = protocol \<and> authorizer attempt = Ok ReadWrite)"
proof -
  note r = reached_endpoint [OF assms(1-3)]
  have a: "access_of peer (ep_clients ep) = Some ReadWrite" by (rule relayed_sender [OF r(1) assms(4,5)])
  then have "granted ep peer ReadWrite" using r(2) by (auto simp: access_inv_def access_of_def client_at_def)
  then obtain c m where "authorizer \<lparr>la_protocol = protocol, la_callsign = c, la_peer = peer, la_module = m\<rparr> = Ok ReadWrite"
    using r(3,4) by (auto simp: granted_def)
  then show ?thesis
    using a by (intro conjI exI [of _ "\<lparr>la_protocol = protocol, la_callsign = c, la_peer = peer, la_module = m\<rparr>"]) simp_all
qed

theorem relayed_only_if_granted_witness:
  "\<exists>outcome ep'. handle_inbound (talk_header (StreamId 7)) sample_talker 0 (sample_at (joined [sample_talker, sample_listener]) [] None) =
       (Ok outcome, ep') \<and> eo_forward outcome \<noteq> None \<and>
     access_of sample_talker (joined [sample_talker, sample_listener]) = Some ReadWrite"
  using relayed_only_if_granted [OF sample_endpoint_new sample_runs(1) sample_talks] sample_talks by (simp add: talk_outcome_def)

section \<open>A lost end of transmission\<close>

text \<open>The datagrams that take a session out of the stream \<open>i\<close>: the end of that stream, and an unlink.\<close>

definition closes :: "ProtocolKind \<Rightarrow> StreamId \<Rightarrow> bytes \<Rightarrow> bool" where
  "closes k i bs = (case k of
      PK_DExtra \<Rightarrow> (case decoded (dextra_decode_client_to_server bs []) of
        Some (DExtraC_Unlink _ _) \<Rightarrow> True | Some (DExtraC_VoiceEot j _) \<Rightarrow> j = i | _ \<Rightarrow> False)
    | PK_DPlus \<Rightarrow> (case decoded (dplus_decode_client_to_server bs []) of
        Some DPlusC_Unlink \<Rightarrow> True | Some (DPlusC_VoiceEot j _) \<Rightarrow> j = i | _ \<Rightarrow> False)
    | PK_Dcs \<Rightarrow> (case decoded (dcs_decode_client_to_server bs []) of
        Some (DcsC_Unlink _ _ _) \<Rightarrow> True | Some (DcsC_Voice _ j _ _ fin) \<Rightarrow> fin \<and> j = i | _ \<Rightarrow> False))"

fun op_closes :: "ProtocolKind \<Rightarrow> SocketAddr \<Rightarrow> StreamId \<Rightarrow> endpoint_op \<Rightarrow> bool" where
  "op_closes k p i (OnDatagram env bs peer now) = (peer = p \<and> closes k i bs)"
| "op_closes k p i _ = False"

text \<open>The session is still in the stream \<open>i\<close>, of which the stream cache no longer knows.\<close>

definition muted :: "SocketAddr \<Rightarrow> StreamId \<Rightarrow> 'f ProtocolEndpoint \<Rightarrow> bool" where
  "muted p i ep \<longleftrightarrow> (\<exists>h. client_at (ep_clients ep) p = Some h \<and> ss_state (ch_session h) = SI_Streaming \<and>
     ss_last_stream_id (ch_session h) = Some i) \<and> (\<forall>m. holder (floor_of ep) m \<noteq> Some (local_source p ep, i))"

lemma closes_raw: "RawS_Unlinked a \<in> set (raw_events k b r bs) \<or> RawS_StreamEnded a i \<in> set (raw_events k b r bs) \<Longrightarrow> closes k i bs"
proof (cases k)
  case PK_DExtra
  assume "RawS_Unlinked a \<in> set (raw_events k b r bs) \<or> RawS_StreamEnded a i \<in> set (raw_events k b r bs)"
  then obtain pkt where "decoded (dextra_decode_client_to_server bs []) = Some pkt"
      "RawS_Unlinked a \<in> set (dextra_raw b pkt) \<or> RawS_StreamEnded a i \<in> set (dextra_raw b pkt)"
    using PK_DExtra by (cases "decoded (dextra_decode_client_to_server bs [])") (auto simp: raw_events_def)
  then show ?thesis using PK_DExtra by (cases pkt) (auto simp: closes_def)
next
  case PK_DPlus
  assume "RawS_Unlinked a \<in> set (raw_events k b r bs) \<or> RawS_StreamEnded a i \<in> set (raw_events k b r bs)"
  then obtain pkt where "decoded (dplus_decode_client_to_server bs []) = Some pkt"
      "RawS_Unlinked a \<in> set (dplus_raw b r pkt) \<or> RawS_StreamEnded a i \<in> set (dplus_raw b r pkt)"
    using PK_DPlus by (cases "decoded (dplus_decode_client_to_server bs [])") (auto simp: raw_events_def)
  then show ?thesis using PK_DPlus by (cases pkt) (auto simp: closes_def)
next
  case PK_Dcs
  assume "RawS_Unlinked a \<in> set (raw_events k b r bs) \<or> RawS_StreamEnded a i \<in> set (raw_events k b r bs)"
  then obtain pkt where "decoded (dcs_decode_client_to_server bs []) = Some pkt"
      "RawS_Unlinked a \<in> set (dcs_raw b pkt) \<or> RawS_StreamEnded a i \<in> set (dcs_raw b pkt)"
    using PK_Dcs by (cases "decoded (dcs_decode_client_to_server bs [])") (auto simp: raw_events_def)
  then show ?thesis using PK_Dcs by (cases pkt) (auto simp: closes_def split: if_splits)
qed

lemma event_of_raw [simp]:
  "ServerEvent_of_raw (RawS_Linked a c r) = ClientLinked a c r" "ServerEvent_of_raw (RawS_Unlinked a) = ClientUnlinked a"
  "ServerEvent_of_raw (RawS_StreamStarted a i h) = ClientStreamStarted a i h"
  "ServerEvent_of_raw (RawS_StreamFrame a i q f) = ClientStreamFrame a i q f"
  "ServerEvent_of_raw (RawS_StreamEnded a i) = ClientStreamEnded a i"
  by (simp_all add: ServerEvent_of_raw_def)

lemma follow_streaming:
  assumes "follow (server_observe a m) (map ServerEvent_of_raw es) (Present c (Some i)) = Some ph"
    "\<And>p. RawS_Unlinked p \<notin> set es" "\<And>p. RawS_StreamEnded p i \<notin> set es"
  shows "(\<exists>c'. ph = Present c' (Some i)) \<and> (\<forall>e \<in> set es. \<forall>hint. hint_event hint e \<longrightarrow> (\<exists>m. hint = FH_Data m i))"
  using assms
proof (induction es arbitrary: c)
  case (Cons e es)
  have "hint_event hint e \<longrightarrow> (\<exists>m. hint = FH_Data m i)" for hint
    using Cons.prems by (cases e; cases hint) (auto split: if_splits option.splits)
  moreover obtain c' where "server_observe a m (ServerEvent_of_raw e) (Present c (Some i)) = Some (Present c' (Some i))"
      "follow (server_observe a m) (map ServerEvent_of_raw es) (Present c' (Some i)) = Some ph"
    using Cons.prems by (cases e) (auto split: if_splits option.splits)
  ultimately show ?case using Cons.IH Cons.prems(2,3) by (metis list.set_intros(2) set_ConsD)
qed auto

text \<open>One datagram of the muted client itself.\<close>

lemma muted_handled:
  assumes "handled bs p now ep d outcome ep'" "muted p i ep" "\<not> closes (ep_protocol ep) i bs"
  shows "eo_forward outcome = None \<and> (\<exists>c. hd_phase' d = Present c (Some i))"
proof -
  obtain es where es: "eo_events (hd_driven d) = map ServerEvent_of_raw es"
      "set es \<subseteq> set (raw_events (ep_protocol ep) p (ss_reflector_module (ch_session (hd_before d))) bs)"
      "follow (server_observe p (ss_reflector_module (ch_session (hd_before d)))) (map ServerEvent_of_raw es) (hd_phase d) = Some (hd_phase' d)"
    by (rule handled_events [OF assms(1)])
  have ph: "handle_at (ep_protocol ep) p (hd_phase d) (hd_before d)" using assms(1) by (auto simp: handled_def)
  have "client_at (ep_clients ep) p = Some (hd_before d)" using assms(1,2) by (auto simp: handled_def muted_def)
  then have st: "ss_state (ch_session (hd_before d)) = SI_Streaming" "ss_last_stream_id (ch_session (hd_before d)) = Some i"
    using assms(2) by (auto simp: muted_def)
  then obtain c where c: "hd_phase d = Present c (Some i)" using ph by (auto simp: handle_at_def server_phase_cases)
  have no: "RawS_Unlinked q \<notin> set es" "RawS_StreamEnded q i \<notin> set es" for q
    using es(2) closes_raw [of q "ep_protocol ep" p _ bs i] assms(3) by blast+
  note f = follow_streaming [OF es(3) [unfolded c] no]
  have "eo_forward outcome = None"
  proof (rule ccontr)
    assume "eo_forward outcome \<noteq> None"
    then obtain hint where hint: "select_voice_hint (map ServerEvent_of_raw es) p (hd_ep d) = Some hint"
      using assms(1) es(1) by (auto simp: handled_def)
    note sel = select_voice_hint_floor [OF hint]
    obtain m where m: "hint = FH_Data m i" using f forward_hint_event [OF sel(1)] by blast
    obtain st where "hd_ep d = ep\<lparr>ep_clients := st\<rparr>" using assms(1) by (auto simp: handled_def)
    then show False using sel(2) m assms(2) by (auto simp: muted_def talk_of_def local_source_def holder_def floor_of_def)
  qed
  then show ?thesis using f by blast
qed

definition in_stream :: "StreamId \<Rightarrow> 'f ClientHandle \<Rightarrow> bool" where
  "in_stream i h \<longleftrightarrow> ss_state (ch_session h) = SI_Streaming \<and> ss_last_stream_id (ch_session h) = Some i"

lemma muted_alt:
  "muted p i ep \<longleftrightarrow> (\<exists>h. client_at (ep_clients ep) p = Some h \<and> in_stream i h) \<and> (\<forall>m. holder (floor_of ep) m \<noteq> Some (local_source p ep, i))"
  by (auto simp: muted_def in_stream_def)

lemma kin_in_stream:
  assumes "kin st st'" "client_at st p = Some h" "in_stream i h"
  shows "client_at st' p = None \<or> (\<exists>h. client_at st' p = Some h \<and> in_stream i h)"
  using assms by (cases "client_at st' p") (auto simp: kin_def same_client_def in_stream_def dest!: spec [of _ p])

text \<open>A muted client is not heard, and its session stays in the stream, as long as it is in the pool.\<close>

lemma muted_inbound:
  assumes "ep_inv ep" "muted p i ep" "handle_inbound bs peer now ep = (r, ep')" "peer = p \<Longrightarrow> \<not> closes (ep_protocol ep) i bs"
  shows "(peer = p \<longrightarrow> heard (OnDatagram env bs peer now) ep = None) \<and>
    (client_at (ep_clients ep') p = None \<or> (\<exists>h. client_at (ep_clients ep') p = Some h \<and> in_stream i h))"
proof -
  obtain h where h: "client_at (ep_clients ep) p = Some h" "in_stream i h" using assms(2) by (auto simp: muted_alt)
  show ?thesis
    using inbound_cases [OF assms(1,3)]
  proof (elim disjE exE conjE)
    fix outcome assume r: "r = Ok outcome" and t: "turned_away peer now ep outcome ep'"
    then have "kin (ep_clients ep) (ep_clients ep')"
      using kin_removed [OF ep_inv_pool [OF assms(1)], of peer] kin_touched [OF touched_ops(2) [OF ep_inv_pool [OF assms(1)]], of peer now]
      by (auto simp: turned_away_def)
    then show ?thesis using kin_in_stream [OF _ h] r t assms(3) by (cases "peer = p") (simp_all add: turned_away_def)
  next
    assume ref: "refused ep (r, ep')"
    then obtain clients where ep': "ep' = ep\<lparr>ep_clients := clients\<rparr>" "\<exists>e. r = Err e"
      and rel: "rel_option (\<lambda>h h'. ch_access h' = ch_access h \<and> ch_module h' = ch_module h \<and>
        (\<exists>d. ch_session h' = (ch_session h)\<lparr>ss_diagnostics := d\<rparr>)) (client_at (ep_clients ep) p) (client_at clients p)"
      by (auto simp: refused_def)
    then show ?thesis using h assms(3) by (cases "client_at clients p") (auto simp: in_stream_def)
  next
    fix outcome d assume r: "r = Ok outcome" and hd: "handled bs peer now ep d outcome ep'"
    have cl: "ep_clients ep' = ep_clients (hd_ep d)" using hd by (auto simp: handled_def split: if_splits)
    show ?thesis
    proof (cases "peer = p")
      case False
      then have "client_at (ep_clients (hd_ep d)) p = client_at (ep_clients ep) p" using hd by (auto simp: handled_def)
      then show ?thesis using False h cl by auto
    next
      case True
      note m = muted_handled [OF hd [unfolded True] assms(2) assms(4) [OF True]]
      then obtain c where c: "hd_phase' d = Present c (Some i)" by blast
      have "handle_at (ep_protocol ep) p (Present c (Some i)) (hd_after d)" using hd True c by (auto simp: handled_def driven_def)
      then have after: "in_stream i (hd_after d)" by (auto simp: handle_at_def server_phase_cases in_stream_def)
      have "rel_option same_client (Some (hd_after d)) (client_at (ep_clients (hd_ep d)) p)" using hd True c by (auto simp: handled_def)
      then have "\<exists>h. client_at (ep_clients (hd_ep d)) p = Some h \<and> in_stream i h"
        using after by (cases "client_at (ep_clients (hd_ep d)) p") (auto simp: same_client_def in_stream_def)
      then show ?thesis using m r True assms(3) cl by simp
    qed
  qed
qed

lemma heard_source:
  "heard (OnDatagram env bs peer now) ep = Some t \<Longrightarrow> fst (tk_talker t) = local_source peer ep"
  "heard (OnBusEvent send event now t') ep = Some t \<Longrightarrow> src_protocol (fst (tk_talker t)) \<noteq> ep_protocol ep"
  by (auto simp: talk_of_def split: sum.splits if_splits)

lemma floor_step_avoids:
  assumes "floor_step timeout f l f'" "\<And>m. holder f m \<noteq> Some a" "\<And>t. l = Talk t \<Longrightarrow> tk_talker t \<noteq> a"
  shows "holder f' m \<noteq> Some a"
proof -
  have "holder f m \<noteq> Some a" by (rule assms(2))
  with assms(1) show ?thesis using assms(3) by (cases rule: floor_step.cases) (auto simp: holder_def swept_def split: if_splits option.splits)
qed

lemma muted_step:
  assumes "ep_inv ep" "muted p i ep" "\<not> op_closes (ep_protocol ep) p i op"
  shows "(\<forall>t. heard op ep = Some t \<longrightarrow> fst (tk_talker t) \<noteq> local_source p ep) \<and>
    (client_at (ep_clients (snd (endpoint_step op ep))) p = None \<or> muted p i (snd (endpoint_step op ep)))"
proof -
  let ?ep = "snd (endpoint_step op ep)"
  obtain h where h: "client_at (ep_clients ep) p = Some h" "in_stream i h" using assms(2) by (auto simp: muted_alt)
  have parts: "(\<forall>t. heard op ep = Some t \<longrightarrow> fst (tk_talker t) \<noteq> local_source p ep) \<and>
    (client_at (ep_clients ?ep) p = None \<or> (\<exists>h. client_at (ep_clients ?ep) p = Some h \<and> in_stream i h))"
  proof (cases op)
    case (OnDatagram env bs peer now)
    obtain r ep1 where r: "handle_inbound bs peer now ep = (r, ep1)" by (cases "handle_inbound bs peer now ep")
    note m = muted_inbound [OF assms(1,2) r, of env]
    have cl: "peer = p \<Longrightarrow> \<not> closes (ep_protocol ep) i bs" using assms(3) OnDatagram by simp
    have "kin (ep_clients ep1) (ep_clients ?ep)" using kin_datagram [OF assms(1), of bs peer now env] r OnDatagram by simp
    then have "client_at (ep_clients ?ep) p = None \<or> (\<exists>h. client_at (ep_clients ?ep) p = Some h \<and> in_stream i h)"
      using m [OF cl] kin_in_stream by (fastforce simp: kin_def)
    moreover have "fst (tk_talker t) \<noteq> local_source p ep" if "heard op ep = Some t" for t
      using m [OF cl] that heard_source(1) [of env bs peer now ep t] unfolding OnDatagram by (auto simp: local_source_def)
    ultimately show ?thesis by blast
  next
    case (OnTick send now)
    then show ?thesis using kin_in_stream [OF kin_maintenance [OF assms(1)] h] by simp
  next
    case (OnBusEvent send event now t)
    have "fst (tk_talker t') \<noteq> local_source p ep" if "heard op ep = Some t'" for t'
      using heard_source(2) that unfolding OnBusEvent by (fastforce simp: local_source_def)
    then show ?thesis using OnBusEvent kin_in_stream [OF kin_bus_event [OF assms(1)] h] by simp
  qed
  have src: "local_source p ?ep = local_source p ep" using step_config [OF assms(1), of op] by (simp add: local_source_def same_config_def)
  have "holder (floor_of ?ep) m \<noteq> Some (local_source p ep, i)" for m
    using floor_step_avoids [OF floor_refines [OF assms(1), of op], of "(local_source p ep, i)" m] assms(2) parts
    by (fastforce simp: muted_def floor_event_of_def split: option.splits endpoint_op.splits)
  then show ?thesis using parts src by (auto simp: muted_alt)
qed

fun present_along :: "SocketAddr \<Rightarrow> endpoint_op list \<Rightarrow> 'f ProtocolEndpoint \<Rightarrow> bool" where
  "present_along p [] ep = pool_contains p (ep_clients ep)"
| "present_along p (op # ops) ep = (pool_contains p (ep_clients ep) \<and> present_along p ops (snd (endpoint_step op ep)))"

lemma muted_run:
  assumes "ep_inv ep" "muted p i ep" "list_all (\<lambda>op. \<not> op_closes (ep_protocol ep) p i op) ops" "present_along p ops ep"
  shows "muted p i (snd (run_steps endpoint_step ops ep)) \<and> (\<forall>t. Some t \<in> set (heard_along ops ep) \<longrightarrow> fst (tk_talker t) \<noteq> local_source p ep)"
  using assms
proof (induction ops arbitrary: ep)
  case (Cons op ops)
  let ?ep = "snd (endpoint_step op ep)"
  have op: "\<not> op_closes (ep_protocol ep) p i op" using Cons.prems(3) by simp
  note st = muted_step [OF Cons.prems(1,2) op]
  have conf: "ep_protocol ?ep = ep_protocol ep" "local_source p ?ep = local_source p ep"
    using step_config [OF Cons.prems(1), of op] by (simp_all add: local_source_def same_config_def)
  have "pool_contains p (ep_clients ?ep)" using Cons.prems(4) by (cases ops) auto
  then have "muted p i ?ep" using st by (auto simp: pool_contains_def client_at_def)
  from Cons.IH [OF ep_inv_step [OF Cons.prems(1)] this] show ?case
    using st Cons.prems(3,4) conf unfolding snd_run_steps by simp
qed simp

text \<open>C27. A lost end of transmission silences a client for good: once the stream cache has dropped a
  stream whose session is still streaming, no later transmission of that client is relayed, under
  any stream id and however long it stays linked, until it unlinks, is removed, or sends the end
  of the old stream.\<close>

theorem lost_end_silences_client:
  assumes "ProtocolEndpoint_new fl protocol m0 authorizer bus settings modules = Some ep0" "list_all Module_wf modules"
    "run_steps endpoint_step ops0 ep0 = (sent, ep)" "muted p i ep"
    "list_all (\<lambda>op. \<not> op_closes protocol p i op) ops" "present_along p ops ep"
  shows "\<forall>t. Some t \<in> set (heard_along ops ep) \<longrightarrow> src_peer (fst (tk_talker t)) \<noteq> p \<or> src_protocol (fst (tk_talker t)) \<noteq> protocol"
proof -
  note r = reached_endpoint [OF assms(1-3)]
  have "fst (tk_talker t) \<noteq> \<lparr>src_protocol = protocol, src_peer = p\<rparr>" if "Some t \<in> set (heard_along ops ep)" for t
    using muted_run [OF r(1) assms(4) _ assms(6)] assms(5) r(4) that by (simp add: local_source_def)
  then show ?thesis by (metis StreamSource.surjective old.unit.exhaust)
qed

definition sample_again :: endpoint_op where
  "sample_again = OnDatagram (all_sent sweep_time) (talk_header (StreamId 9)) sample_talker sweep_time"

lemma sample_muted: "muted sample_talker (StreamId 7) sample_swept"
  by (simp add: muted_def sample_swept_def floor_of_def holder_def client_at_def pool_defs streaming_client_def)

theorem lost_end_silences_client_witness:
  "muted sample_talker (StreamId 7) sample_swept \<and> present_along sample_talker [sample_again] sample_swept \<and>
   heard_along [sample_again] sample_swept = [None]"
proof -
  have "\<not> closes PK_DExtra (StreamId 7) (talk_header (StreamId 9))"
    by (simp add: closes_def decoded_def sample_decoded StreamId_wf_def)
  then have "list_all (\<lambda>op. \<not> op_closes PK_DExtra sample_talker (StreamId 7) op) [sample_again]" by (simp add: sample_again_def)
  moreover have present: "present_along sample_talker [sample_again] sample_swept"
    using sample_ignored [of sweep_time] by (auto simp: sample_again_def sample_swept_def pool_defs simp del: endpoint_step.simps)
  ultimately have silent: "src_peer (fst (tk_talker t)) \<noteq> sample_talker \<or> src_protocol (fst (tk_talker t)) \<noteq> PK_DExtra"
    if "heard sample_again sample_swept = Some t" for t
    using lost_end_silences_client [OF sample_endpoint_new sample_runs(2) sample_muted, of "[sample_again]"] that by simp
  have "heard sample_again sample_swept = None"
  proof (cases "heard sample_again sample_swept")
    case (Some t)
    then have "fst (tk_talker t) = local_source sample_talker sample_swept" unfolding sample_again_def by (rule heard_source(1))
    then show ?thesis using silent [OF Some] by (simp add: local_source_def sample_swept_def)
  qed simp
  then show ?thesis using sample_muted present by simp
qed

end
