(* ===== verification/Reflector_Relay.thy ===== *)
theory Reflector_Relay
  imports Reflector_Service
begin

text \<open>
  What leaves a reflector endpoint: who receives a relayed frame, that a frame brought over from
  another protocol is read by the clients of this one, and what a maintenance sweep does.
\<close>

unbundle bit_operations_syntax

section \<open>The recipients of a pass\<close>

definition affordable :: "'f F64 \<Rightarrow> instant \<Rightarrow> 'f PoolState \<Rightarrow> SocketAddr \<Rightarrow> bool" where
  "affordable fl now st q \<longleftrightarrow> fst (try_consume_tx_token fl q now st)"

definition budget_of :: "'f PoolState \<Rightarrow> SocketAddr \<Rightarrow> 'f TokenBucket option" where
  "budget_of st q = map_option ch_tx_budget (hm_get (ps_clients st) q)"

lemma affordable_budget:
  "affordable fl now st q \<longleftrightarrow> (case budget_of st q of None \<Rightarrow> False | Some b \<Rightarrow> fst (try_consume fl now 1 b))"
  by (simp add: affordable_def budget_of_def try_consume_tx_token_def split: option.split prod.split)

lemma budget_update:
  "budget_of (update_handle p f st) q = (if q = p then map_option (\<lambda>h. ch_tx_budget (f h)) (hm_get (ps_clients st) p) else budget_of st q)"
  by (simp add: budget_of_def update_handle_def hm.lookup_insert split: option.split)

lemma budget_kept [simp]:
  "budget_of (record_send_success p st) q = budget_of st q"
  "budget_of (snd (mark_unhealthy p st)) q = budget_of st q"
  by (simp_all add: record_send_success_def mark_unhealthy_def Let_def count_failure_def budget_update)
    (simp_all add: budget_of_def)

lemma budget_consumed: "q \<noteq> p \<Longrightarrow> budget_of (snd (try_consume_tx_token fl p now st)) q = budget_of st q"
  by (simp add: budget_of_def try_consume_tx_token_def hm.lookup_insert split: option.split prod.split)

lemma index_kept [simp]:
  "ps_by_module (update_handle p f st) = ps_by_module st" "ps_by_module (record_send_success p st) = ps_by_module st"
  "ps_by_module (snd (mark_unhealthy p st)) = ps_by_module st" "ps_by_module (snd (try_consume_tx_token fl p now st)) = ps_by_module st"
  by (simp_all add: update_handle_def record_send_success_def mark_unhealthy_def try_consume_tx_token_def Let_def
      split: option.split prod.split)

lemma budget_send_replies:
  "budget_of (snd (send_replies send txs ev st)) q = budget_of st q"
  "ps_by_module (snd (send_replies send txs ev st)) = ps_by_module st"
proof (induction send txs ev st rule: send_replies.induct)
  case (2 send payload dst txs ev st)
  obtain health c where u: "mark_unhealthy dst st = (health, c)" by fastforce
  have c: "budget_of c q = budget_of st q" "ps_by_module c = ps_by_module st"
    using budget_kept(2) [of dst st q] index_kept(3) [of dst st] u by simp_all
  {
    case 1
    show ?case using 2 u c by (cases "send dst") (auto simp: Let_def)
  next
    case 2
    show ?case using "2.IH" u c by (cases "send dst") (auto simp: Let_def)
  }
qed simp_all

text \<open>A pass hands the datagram to every member but the sender whose budget allows it, in order.\<close>

lemma fan_out_exact:
  assumes "distinct peers"
  shows "fst (fan_out_members fl send src bs now peers report st) =
    map (Pair bs) (filter (\<lambda>q. q \<noteq> src \<and> affordable fl now st q) peers)"
  using assms
proof (induction peers arbitrary: report st)
  case (Cons p peers)
  have rest: "fst (fan_out_members fl send src bs now peers r c) = map (Pair bs) (filter (\<lambda>q. q \<noteq> src \<and> affordable fl now st q) peers)"
    if "\<And>q. q \<in> set peers \<Longrightarrow> budget_of c q = budget_of st q" for r c
  proof -
    have "filter (\<lambda>q. q \<noteq> src \<and> affordable fl now c q) peers = filter (\<lambda>q. q \<noteq> src \<and> affordable fl now st q) peers"
      using that by (intro filter_cong) (auto simp: affordable_budget)
    then show ?thesis using Cons.IH [of r c] Cons.prems by simp
  qed
  show ?case
  proof (cases "p = src")
    case False
    obtain ok c where t: "try_consume_tx_token fl p now st = (ok, c)" by fastforce
    have c: "q \<in> set peers \<Longrightarrow> budget_of c q = budget_of st q" for q
      using budget_consumed [of q p fl now st] Cons.prems t by auto
    obtain health c2 where u: "mark_unhealthy p c = (health, c2)" by fastforce
    have c2: "q \<in> set peers \<Longrightarrow> budget_of c2 q = budget_of st q" for q using budget_kept(2) [of p c q] u c by simp
    have af: "affordable fl now st p = ok" using t by (simp add: affordable_def)
    show ?thesis
    proof (cases ok)
      case True
      then show ?thesis using False t u af rest [of "record_send_success p c"] rest [of c2] c c2 by (cases "send p") (auto simp: Let_def)
    qed (use False t af rest [of c] c in simp)
  qed (use rest [of st] in simp)
qed simp

lemma fan_out_voice_exact:
  assumes "pool_inv st"
  shows "fst (fan_out_voice_at fl send src m bs now st) =
    map (Pair bs) (filter (\<lambda>q. q \<noteq> src \<and> affordable fl now st q) (members_of_module m st))"
  unfolding fan_out_voice_at_def by (rule fan_out_exact [OF pool.members_distinct [OF assms]])

definition relay_pass :: "'f F64 \<Rightarrow> instant \<Rightarrow> SocketAddr \<Rightarrow> DstarModule \<Rightarrow> 'f PoolState \<Rightarrow> SocketAddr list" where
  "relay_pass fl now src m st = filter (\<lambda>q. q \<noteq> src \<and> affordable fl now st q) (members_of_module m st)"

lemma relay_pass_cong:
  "(\<And>q. budget_of st' q = budget_of st q) \<Longrightarrow> ps_by_module st' = ps_by_module st \<Longrightarrow> relay_pass fl now src m st' = relay_pass fl now src m st"
  by (simp add: relay_pass_def members_of_module_def affordable_budget)

lemma index_fan_out:
  "ps_by_module (snd (snd (fan_out_members fl send src bs now peers report st))) = ps_by_module st"
proof (induction peers arbitrary: report st)
  case (Cons p peers)
  obtain ok c where t: "try_consume_tx_token fl p now st = (ok, c)" by fastforce
  obtain health c2 where u: "mark_unhealthy p c = (health, c2)" by fastforce
  have "ps_by_module c = ps_by_module st" "ps_by_module c2 = ps_by_module c"
    using index_kept(4) [of fl p now st] index_kept(3) [of p c] t u by simp_all
  then show ?case using Cons.IH t u by (cases ok; cases "send p") (auto simp: Let_def)
qed simp

lemma fan_out_outcome_sent:
  assumes "ep_inv ep" "fan_out_outcome send send2 outcome peer bs t t2 ev ep = (sent, ev', ep')"
    "eo_forward outcome = Some hint"
  shows "\<exists>qs. sent = map (Pair bs) (relay_pass (ep_arith ep) t peer (fst (hint_parts hint)) (ep_clients ep)) @
      (case eo_header_retransmit outcome of None \<Rightarrow> [] | Some cached \<Rightarrow> map (Pair cached) qs) \<and>
    distinct qs \<and> set qs \<subseteq> set (members_of_module (fst (hint_parts hint)) (ep_clients ep)) - {peer}"
proof -
  let ?m = "fst (hint_parts hint)" and ?fl = "ep_arith ep"
  obtain s1 r1 c1 where f1: "fan_out_voice_at ?fl send peer ?m bs t (ep_clients ep) = (s1, r1, c1)" using prod_cases3 by blast
  have s1: "s1 = map (Pair bs) (relay_pass ?fl t peer ?m (ep_clients ep))"
    using fan_out_voice_exact [OF ep_inv_pool [OF assms(1)], of ?fl send peer ?m bs t] f1 by (simp add: relay_pass_def)
  have i1: "members_of_module ?m c1 = members_of_module ?m (ep_clients ep)"
    using index_fan_out [of ?fl send peer bs t "members_of_module ?m (ep_clients ep)" FanOutReport_default "ep_clients ep"] f1
    by (simp add: fan_out_voice_at_def members_of_module_def)
  show ?thesis
  proof (cases "eo_header_retransmit outcome")
    case (Some cached)
    obtain s2 r2 c2 where f2: "fan_out_voice_at ?fl send2 peer ?m cached t2 c1 = (s2, r2, c2)" using prod_cases3 by blast
    have p1: "pool_inv c1" using ep_inv_pool [OF ep_inv_fan_out [OF assms(1) f1]] by simp
    have "s2 = map (Pair cached) (relay_pass ?fl t2 peer ?m c1)"
      using fan_out_voice_exact [OF p1, of ?fl send2 peer ?m cached t2] f2 by (simp add: relay_pass_def)
    moreover have "distinct (relay_pass ?fl t2 peer ?m c1)" "set (relay_pass ?fl t2 peer ?m c1) \<subseteq> set (members_of_module ?m (ep_clients ep)) - {peer}"
      using pool.members_distinct [OF p1, of ?m] i1 by (auto simp: relay_pass_def)
    ultimately show ?thesis using assms(2,3) f1 f2 Some s1 by (auto simp: fan_out_outcome_def Let_def)
  qed (use assms(2,3) f1 s1 in \<open>auto simp: fan_out_outcome_def Let_def intro: exI [of _ "[]"]\<close>)
qed

text \<open>C10. Who receives a relayed frame: after any run, a datagram that is passed on goes out
  unchanged, once, to exactly the other members of the talker's module whose budget has a token,
  after the replies to the talker itself; when the header is repeated too, its copies go to
  distinct members other than the talker.\<close>

theorem relay_recipients:
  assumes "ProtocolEndpoint_new fl protocol m0 authorizer bus settings modules = Some ep0" "list_all Module_wf modules"
    "run_steps endpoint_step ops ep0 = (sent0, ep)"
    "handle_inbound bs peer now ep = (Ok outcome, ep1)" "eo_forward outcome = Some hint"
    "endpoint_step (OnDatagram env bs peer now) ep = (sent, ep2)"
  shows "\<exists>qs. sent = eo_txs outcome @ map (Pair bs) (relay_pass fl (pe_voice_at env) peer (fst (hint_parts hint)) (ep_clients ep1)) @
      (case eo_header_retransmit outcome of None \<Rightarrow> [] | Some cached \<Rightarrow> map (Pair cached) qs) \<and>
    distinct qs \<and> set qs \<subseteq> set (members_of_module (fst (hint_parts hint)) (ep_clients ep1)) - {peer}"
proof -
  note r = reached_endpoint [OF assms(1-3)]
  have fl: "ep_arith ep0 = fl" using assms(1) by (auto simp: ProtocolEndpoint_new_def split: if_splits)
  have inv1: "ep_inv ep1" using ep_inv_inbound [OF r(1), of bs peer now] assms(4) by simp
  obtain ev cl where s: "send_replies (pe_replies env) (eo_txs outcome) [] (ep_clients ep1) = (ev, cl)" by fastforce
  have inv2: "ep_inv (ep1\<lparr>ep_clients := cl\<rparr>)" using ep_inv_send_replies [OF inv1, of "pe_replies env" "eo_txs outcome" "[]"] s by simp
  have cl: "\<And>q. budget_of cl q = budget_of (ep_clients ep1) q" "ps_by_module cl = ps_by_module (ep_clients ep1)"
    using budget_send_replies [of "pe_replies env" "eo_txs outcome" "[]" "ep_clients ep1"] s by simp_all
  have arith: "ep_arith ep1 = fl"
    using inbound_config [OF r(1) assms(4)] run_config [OF new_ep_inv(1) [OF assms(1,2)], of ops] assms(3) fl
    by (simp add: same_config_def)
  obtain v ev2 ep3 where f: "fan_out_outcome (pe_voice env) (pe_header env) outcome peer bs (pe_voice_at env) (pe_header_at env) ev
      (ep1\<lparr>ep_clients := cl\<rparr>) = (v, ev2, ep3)" using prod_cases3 by blast
  have "sent = eo_txs outcome @ v" using assms(4,6) s f by (simp add: run_one_tick_def Let_def)
  then show ?thesis
    using fan_out_outcome_sent [OF inv2 f assms(5)] relay_pass_cong [OF cl] cl(2) arith
    by (simp add: members_of_module_def)
qed

theorem relay_recipients_witness:
  "\<exists>sent ep. endpoint_step (OnDatagram (all_sent 0) (talk_header (StreamId 7)) sample_talker 0)
       (sample_at (joined [sample_talker, sample_listener]) [] None) = (sent, ep) \<and>
     sent = map (Pair (talk_header (StreamId 7))) (relay_pass sample_arith 0 sample_talker module_C (talking (linked_client sample_listener))) \<and>
     relay_pass sample_arith 0 sample_talker module_C (talking (linked_client sample_listener)) = [sample_listener]"
proof -
  have f: "eo_forward talk_outcome = Some (FH_Header module_C (StreamId 7))" "eo_txs talk_outcome = []" "eo_header_retransmit talk_outcome = None"
    by (simp_all add: talk_outcome_def header_outcome_def EndpointOutcome_new_def)
  show ?thesis
    using relay_recipients [OF sample_endpoint_new sample_runs(1) sample_talks f(1) step_talks] f step_talks
    by (auto simp: map_eq_Cons_conv simp del: endpoint_step.simps)
qed

section \<open>Voice from the other protocols\<close>

fun voice_event_wf :: "VoiceEvent \<Rightarrow> bool" where
  "voice_event_wf (VE_StreamStart h s) = (StreamId_wf s \<and> DstarHeader_wf h)"
| "voice_event_wf (VE_Frame s q f) = (StreamId_wf s \<and> FrameSequence_wf q \<and> VoiceFrame_wf f)"
| "voice_event_wf (VE_StreamEnd s q) = (StreamId_wf s \<and> FrameSequence_wf q)"

text \<open>What a client reads from a reflector's datagram: the voice event, and the header that every DCS
  datagram has beside its frame.\<close>

definition client_reads :: "ProtocolKind \<Rightarrow> bytes \<Rightarrow> (DstarHeader option \<times> VoiceEvent) option" where
  "client_reads k bs = (case k of
      PK_DExtra \<Rightarrow> (case fst (dextra_decode_server_to_client bs []) of
          Ok (DExtraS_VoiceHeader s h) \<Rightarrow> Some (None, VE_StreamStart h s)
        | Ok (DExtraS_VoiceData s q f) \<Rightarrow> Some (None, VE_Frame s (FrameSequence q) f)
        | Ok (DExtraS_VoiceEot s q) \<Rightarrow> Some (None, VE_StreamEnd s (FrameSequence (q AND NOT 0x40)))
        | _ \<Rightarrow> None)
    | PK_DPlus \<Rightarrow> (case fst (dplus_decode_server_to_client bs []) of
          Ok (DPlusS_VoiceHeader s h) \<Rightarrow> Some (None, VE_StreamStart h s)
        | Ok (DPlusS_VoiceData s q f) \<Rightarrow> Some (None, VE_Frame s (FrameSequence q) f)
        | Ok (DPlusS_VoiceEot s q) \<Rightarrow> Some (None, VE_StreamEnd s (FrameSequence (q AND NOT 0x40)))
        | _ \<Rightarrow> None)
    | PK_Dcs \<Rightarrow> (case fst (dcs_decode_server_to_client bs []) of
          Ok (DcsS_Voice h s q f fin) \<Rightarrow>
            Some (Some h, if fin then VE_StreamEnd s (FrameSequence (q AND NOT 0x40)) else VE_Frame s (FrameSequence q) f)
        | _ \<Rightarrow> None))"

text \<open>What remains of an event on the other side. DExtra and DPlus clear the flags of a header. DCS has
  no packet for a start and none for a frame whose header is unknown, repeats the header of the
  stream in every packet, and reads a frame with the slow data 55 55 55 as the end.\<close>

fun crossed :: "ProtocolKind \<Rightarrow> VoiceEvent \<Rightarrow> DstarHeader option \<Rightarrow> (DstarHeader option \<times> VoiceEvent) option" where
  "crossed PK_Dcs (VE_StreamStart _ _) _ = None"
| "crossed PK_Dcs _ None = None"
| "crossed PK_Dcs (VE_Frame s q f) (Some h) =
     Some (Some h, if slow_data f = [0x55, 0x55, 0x55] then VE_StreamEnd s q else VE_Frame s q f)"
| "crossed PK_Dcs (VE_StreamEnd s q) (Some h) = Some (Some h, VE_StreamEnd s q)"
| "crossed _ (VE_StreamStart h s) _ = Some (None, VE_StreamStart (DstarHeader_with_flags h HeaderFlags_NONE) s)"
| "crossed _ e _ = Some (None, e)"

lemma eot_index: "FrameSequence_wf q \<Longrightarrow> FrameSequence ((sequence_index q OR 0x40) AND - 65) = q"
proof -
  assume "FrameSequence_wf q"
  moreover have "\<forall>b::u8. b \<le> 20 \<longrightarrow> (b OR 0x40) AND - 65 = b" unfolding u8_all by simp
  ultimately show ?thesis by (simp add: FrameSequence_wf_def)
qed

lemma plain_index: "FrameSequence_wf q \<Longrightarrow> FrameSequence (sequence_index q AND - 65) = q"
proof -
  assume "FrameSequence_wf q"
  moreover have "\<forall>b::u8. b \<le> 20 \<longrightarrow> b AND - 65 = b" unfolding u8_all by simp
  ultimately show ?thesis by (simp add: FrameSequence_wf_def)
qed

lemma transcode_dsvt:
  assumes "voice_event_wf ev" "k \<noteq> PK_Dcs" "58 \<le> length out"
  shows "\<exists>n out'. transcode_voice k ev ch out = (Ok n, out') \<and> 0 < n \<and> n \<le> length out' \<and>
    client_reads k (take n out') = crossed k ev ch"
proof (cases k)
  case PK_DExtra
  define p where "p = (case ev of VE_StreamStart h s \<Rightarrow> DxFwdHeader s h | VE_Frame s q f \<Rightarrow> DxFwdVoice s q f | VE_StreamEnd s q \<Rightarrow> DxFwdEot s q)"
  have wf: "dextra_server_wf p" using assms(1) by (cases ev) (simp_all add: p_def)
  have len: "0 < length (dextra_server_wire p)" "length (dextra_server_wire p) \<le> 56"
    using wf by (cases ev; simp add: dextra_wire_lens VoiceFrame_wf_def p_def)+
  have "transcode_voice k ev ch out = transcoded (dextra_server_encode p out)"
    by (cases ev) (simp_all add: PK_DExtra transcode_voice_def transcode_dextra_def p_def)
  moreover have "client_reads k (dextra_server_wire p) = crossed k ev ch"
    using assms(1) dextra_down.dec_wire [OF wf] by (cases ev) (simp_all add: PK_DExtra client_reads_def p_def eot_index)
  ultimately show ?thesis
    using dextra_down.encode_fits [OF wf, of out] len assms(3) by (simp add: transcoded_def)
next
  case PK_DPlus
  define p where "p = (case ev of VE_StreamStart h s \<Rightarrow> DpFwdHeader s h | VE_Frame s q f \<Rightarrow> DpFwdVoice s q f | VE_StreamEnd s q \<Rightarrow> DpFwdEot s q)"
  have wf: "dplus_server_wf p" using assms(1) by (cases ev) (simp_all add: p_def)
  have len: "0 < length (dplus_server_wire p)" "length (dplus_server_wire p) \<le> 58"
    using wf by (cases ev; simp add: dplus_wire_lens p_def)+
  have "transcode_voice k ev ch out = transcoded (dplus_server_encode p out)"
    by (cases ev) (simp_all add: PK_DPlus transcode_voice_def transcode_dplus_def p_def)
  moreover have "client_reads k (dplus_server_wire p) = crossed k ev ch"
    using assms(1) dplus_down.dec_wire [OF wf] by (cases ev) (simp_all add: PK_DPlus client_reads_def p_def eot_index)
  ultimately show ?thesis
    using dplus_down.encode_fits [OF wf, of out] len assms(3) by (simp add: transcoded_def)
qed (use assms(2) in simp)

lemma transcode_to_dcs:
  assumes "voice_event_wf ev" "DstarHeader_wf h" "100 \<le> length out" "crossed PK_Dcs ev (Some h) = Some r"
  shows "\<exists>n out'. transcode_voice PK_Dcs ev (Some h) out = (Ok n, out') \<and> 0 < n \<and> n \<le> length out' \<and>
    client_reads PK_Dcs (take n out') = Some r"
proof -
  have same: "slow_data_update (\<lambda>_. slow_data f) f = f" for f :: VoiceFrame by simp
  define p where "p = (case ev of VE_Frame s q f \<Rightarrow> DcFwdVoice h s q f False | VE_StreamEnd s q \<Rightarrow> DcFwdVoice h s q VoiceFrame_silence True)"
  have wf: "dcs_server_wf p" using assms by (cases ev) (simp_all add: p_def dcs_voice_wf_def silence_wf)
  have len: "length (dcs_server_wire p) = 100" using wf assms(4) by (cases ev) (simp_all add: p_def length_dcs_voice)
  have "transcode_voice PK_Dcs ev (Some h) out = transcoded (dcs_server_encode p out)"
    using assms(4) by (cases ev) (simp_all add: transcode_voice_def transcode_dcs_def p_def)
  moreover have "client_reads PK_Dcs (dcs_server_wire p) = Some r"
    using assms(1,4) dcs_down.dec_wire [OF wf]
    by (cases ev) (auto simp: client_reads_def p_def eot_index plain_index dcs_voice_seq_def dcs_voice_slow_def dcs_voice_ends_def
        DCS_VOICE_EOT_MARKER_def same)
  ultimately show ?thesis
    using dcs_down.encode_fits [OF wf, of out] len assms(3) by (simp add: transcoded_def)
qed

lemma transcode_faithful:
  assumes "voice_event_wf ev" "pred_option DstarHeader_wf ch" "100 \<le> length out"
  shows "case crossed k ev ch of
      None \<Rightarrow> (\<exists>e. transcode_voice k ev ch out = (Err e, out)) \<or> transcode_voice k ev ch out = (Ok 0, out)
    | Some r \<Rightarrow> \<exists>n out'. transcode_voice k ev ch out = (Ok n, out') \<and> 0 < n \<and> n \<le> length out' \<and> client_reads k (take n out') = Some r"
proof (cases "k = PK_Dcs")
  case True
  show ?thesis
  proof (cases "crossed k ev ch")
    case None
    then show ?thesis by (cases ev; cases ch) (simp_all add: True transcode_voice_def transcode_dcs_def)
  next
    case (Some r)
    then obtain h where "ch = Some h" "DstarHeader_wf h" using assms(2) True by (cases ev; cases ch) auto
    then show ?thesis using transcode_to_dcs [OF assms(1) _ assms(3)] Some True by simp
  qed
next
  case False
  have "58 \<le> length out" using assms(3) by simp
  from transcode_dsvt [OF assms(1) False this, of ch] show ?thesis
    using False by (cases k; cases ev) auto
qed

text \<open>C25. What crosses from one protocol to another: when a frame from another protocol is accepted
  for a module and this protocol can carry it, one datagram goes to exactly the members of that
  module whose budget has a token, and their protocol's client decoder reads from it the event with
  its stream id, sequence number and audio. Towards DExtra and DPlus that is every event, a start
  with its header less the flags. Towards DCS the datagram has the whole header of the stream, flags
  included, beside every frame and the end; a start, and a frame whose header is not known, send
  nothing; and a frame whose slow data is 55 55 55 is read as the end.\<close>

theorem cross_protocol_voice:
  assumes "ProtocolEndpoint_new fl protocol m0 authorizer bus settings modules = Some ep0" "list_all Module_wf modules"
    "run_steps endpoint_step ops ep0 = (sent0, ep)" "heard (OnBusEvent send event now t) ep \<noteq> None"
    "voice_event_wf (xe_event event)" "pred_option DstarHeader_wf (xe_cached_header event)"
  shows "case crossed protocol (xe_event event) (xe_cached_header event) of
      None \<Rightarrow> fst (endpoint_step (OnBusEvent send event now t) ep) = []
    | Some r \<Rightarrow> \<exists>payload. fst (endpoint_step (OnBusEvent send event now t) ep) =
        map (Pair payload) (relay_pass fl t (xe_source_peer event) (xe_module event) (ep_clients ep)) \<and>
      client_reads protocol payload = Some r"
proof -
  note r = reached_endpoint [OF assms(1-3)]
  have fl: "ep_arith ep = fl"
    using assms(1,3) run_config [OF new_ep_inv(1) [OF assms(1,2)], of ops] by (auto simp: same_config_def ProtocolEndpoint_new_def split: if_splits)
  have src: "xe_source_protocol event \<noteq> ep_protocol ep" using assms(4) by auto
  then obtain ep1 where tr: "track_bus_event event now ep = Some ep1" using assms(4) by fastforce
  then obtain c where c: "ep1 = ep\<lparr>ep_stream_cache := c\<rparr>" "hm_wf c" using track_bus_event_only [OF tr] ep_inv_wf [OF r(1)] by auto
  note x = transcode_faithful [OF assms(5,6), of "replicate 2048 0" protocol]
  show ?thesis
  proof (cases "crossed protocol (xe_event event) (xe_cached_header event)")
    case None
    then show ?thesis using x src tr c(1) r(4) by (auto simp: handle_cross_protocol_event_def)
  next
    case (Some q)
    then obtain n out where y: "transcode_voice protocol (xe_event event) (xe_cached_header event) (replicate 2048 0) = (Ok n, out)"
        "0 < n" "n \<le> length out" "client_reads protocol (take n out) = Some q"
      using x by auto
    let ?pass = "fan_out_voice_at fl send (xe_source_peer event) (xe_module event) (take n out) t (ep_clients ep)"
    have "fst (endpoint_step (OnBusEvent send event now t) ep) = fst ?pass"
      using src tr y(1-3) c(1) r(4) fl by (simp add: handle_cross_protocol_event_def get_range_def Let_def split: prod.split)
    then show ?thesis
      using fan_out_voice_exact [OF ep_inv_pool [OF r(1)], of fl send _ _ "take n out" t] y(4) Some by (auto simp: relay_pass_def)
  qed
qed

definition sample_frame_event :: CrossProtocolEvent where
  "sample_frame_event = \<lparr>xe_source_protocol = PK_Dcs, xe_source_peer = SocketAddr (IpV4 192 0 2 3) 30051, xe_module = module_C,
     xe_event = VE_StreamStart sample_dstar_header (StreamId 5), xe_cached_header = None\<rparr>"

theorem cross_protocol_voice_witness:
  "\<exists>payload qs. fst (endpoint_step (OnBusEvent (\<lambda>_. Ok ()) sample_frame_event sweep_time 0) sample_swept) = map (Pair payload) qs \<and>
     client_reads PK_DExtra payload = Some (None, VE_StreamStart received_header (StreamId 5))"
proof -
  have "heard (OnBusEvent (\<lambda>_. Ok ()) sample_frame_event sweep_time 0) sample_swept \<noteq> None"
    by (simp add: sample_frame_event_def track_bus_event_def sample_swept_def hm_get_def Let_def)
  moreover have "voice_event_wf (xe_event sample_frame_event)" "pred_option DstarHeader_wf (xe_cached_header sample_frame_event)"
    by (simp_all add: sample_frame_event_def sample_dstar_header_wf StreamId_wf_def)
  ultimately show ?thesis
    using cross_protocol_voice [OF sample_endpoint_new sample_runs(2), of "\<lambda>_. Ok ()" sample_frame_event sweep_time 0]
    by (fastforce simp: sample_frame_event_def simp del: endpoint_step.simps heard.simps)
qed

section \<open>Maintenance\<close>

definition idle :: "instant \<Rightarrow> 'f ProtocolEndpoint \<Rightarrow> 'f ClientHandle \<Rightarrow> bool" where
  "idle now ep h \<longleftrightarrow> es_keepalive_inactivity_timeout (ep_settings ep) \<le> saturating_duration_since now (ch_last_heard h)"

lemma evict_fold_at:
  assumes "ep_inv ep" "ep_settings ep = s"
  shows "client_at (ep_clients (fold (\<lambda>entry ep. if es_keepalive_inactivity_timeout (ep_settings ep) \<le> P entry
      then evict_peer (cs_peer entry) reason ep else ep) entries ep)) p =
    (if \<exists>entry \<in> set entries. cs_peer entry = p \<and> es_keepalive_inactivity_timeout s \<le> P entry then None else client_at (ep_clients ep) p)"
  using assms
proof (induction entries arbitrary: ep)
  case (Cons x entries)
  have "client_at (ep_clients (evict_peer q reason ep)) p = (if p = q then None else client_at (ep_clients ep) p)" for q
    using pool_remove_pool [OF ep_inv_pool [OF Cons.prems(1)], of q] by (simp add: evict_peer_def)
  moreover have "ep_settings (evict_peer q reason ep) = s" for q using Cons.prems(2) by (simp add: evict_peer_def)
  ultimately show ?case
    using Cons.IH [OF Cons.prems] Cons.IH [OF ep_inv_evict [OF Cons.prems(1)]] Cons.prems(2) by auto
qed simp

lemma snapshot_at:
  assumes "pool_inv st"
  shows "(\<exists>entry \<in> set (sweep_snapshot st). cs_peer entry = p \<and> Q (cs_last_heard entry)) \<longleftrightarrow>
    (\<exists>h. client_at st p = Some h \<and> Q (ch_last_heard h))"
proof -
  have "client_at st p = Some h \<longleftrightarrow> (p, h) \<in> set (ps_clients st)" for h
    using assms by (simp add: client_at_def hm_get_def pool_inv_def hm_wf_def)
  then show ?thesis by (force simp: sweep_snapshot_def)
qed

lemma evict_idle_at:
  assumes "ep_inv ep"
  shows "client_at (ep_clients (evict_idle now ep)) p =
    (case client_at (ep_clients ep) p of None \<Rightarrow> None | Some h \<Rightarrow> if idle now ep h then None else Some h)"
  using evict_fold_at [OF assms refl, of "\<lambda>entry. saturating_duration_since now (cs_last_heard entry)" "''keepalive inactivity timeout''"
      "sweep_snapshot (ep_clients ep)" p]
    snapshot_at [OF ep_inv_pool [OF assms], of p "\<lambda>t. es_keepalive_inactivity_timeout (ep_settings ep) \<le> saturating_duration_since now t"]
  by (auto simp: evict_idle_def idle_def split: option.split)

definition linked_clients :: "'f PoolState \<Rightarrow> SocketAddr set" where
  "linked_clients st = {p. \<exists>h. client_at st p = Some h \<and> ch_module h \<noteq> None}"

lemma keepalive_some:
  assumes "DstarCallsign_wf (es_reflector_callsign (ep_settings ep))" "ep_protocol ep \<noteq> PK_Dcs"
  shows "encode_keepalive_for entry ep \<noteq> None \<longleftrightarrow> cs_module entry \<noteq> None"
proof -
  have "dextra_client_wf (DxPoll (es_reflector_callsign (ep_settings ep)))" using assms(1) by simp
  from dextra_up.encode_fits [OF this, of "replicate 16 0"] show ?thesis
    using assms dplus_down.encode_fits [of DpPollEcho "replicate 8 0"]
    by (cases "ep_protocol ep")
      (auto simp: encode_keepalive_for_def encoded_def DstarCallsign_wf_def get_range_def split: option.split)
qed

lemma map_filter_snd:
  "map snd (List.map_filter (\<lambda>x. map_option (\<lambda>b. (b, g x)) (f x)) xs) = map g (filter (\<lambda>x. f x \<noteq> None) xs)"
  by (induction xs) (auto simp: List.map_filter_def)

lemma snapshot_linked:
  assumes "pool_inv st"
  shows "distinct (map cs_peer (filter P (sweep_snapshot st)))"
    "cs_peer ` {entry \<in> set (sweep_snapshot st). cs_module entry \<noteq> None} = linked_clients st"
proof -
  have "map cs_peer (sweep_snapshot st) = map fst (ps_clients st)" by (auto simp: sweep_snapshot_def)
  then show "distinct (map cs_peer (filter P (sweep_snapshot st)))"
    using assms by (simp add: pool_inv_def hm_wf_def distinct_map_filter)
  have "client_at st p = Some h \<longleftrightarrow> (p, h) \<in> set (ps_clients st)" for p h
    using assms by (simp add: client_at_def hm_get_def pool_inv_def hm_wf_def)
  then show "cs_peer ` {entry \<in> set (sweep_snapshot st). cs_module entry \<noteq> None} = linked_clients st"
    by (force simp: sweep_snapshot_def linked_clients_def)
qed

lemma keepalive_module: "encode_keepalive_for entry ep \<noteq> None \<Longrightarrow> cs_module entry \<noteq> None"
  by (cases "cs_module entry") (auto simp: encode_keepalive_for_def)

lemma evict_idle_last: "ep_last_keepalive_sent (evict_idle now ep) = ep_last_keepalive_sent ep"
  unfolding evict_idle_def
  by (rule fold_invariant [where Q = "\<lambda>_. True" and P = "\<lambda>e. ep_last_keepalive_sent e = ep_last_keepalive_sent ep"])
    (auto simp: evict_peer_def)

definition keepalives :: "'f ProtocolEndpoint \<Rightarrow> (bytes \<times> SocketAddr) list" where
  "keepalives ep = List.map_filter (\<lambda>entry. map_option (\<lambda>payload. (payload, cs_peer entry)) (encode_keepalive_for entry ep))
     (sweep_snapshot (ep_clients ep))"

lemma keepalives_at:
  assumes "pool_inv (ep_clients ep)"
  shows "distinct (map snd (keepalives ep))" "set (map snd (keepalives ep)) \<subseteq> linked_clients (ep_clients ep)"
    "DstarCallsign_wf (es_reflector_callsign (ep_settings ep)) \<Longrightarrow> ep_protocol ep \<noteq> PK_Dcs \<Longrightarrow>
      set (map snd (keepalives ep)) = linked_clients (ep_clients ep)"
  using snapshot_linked [OF assms] keepalive_module [of _ ep] keepalive_some [of ep]
  by (auto simp del: set_map simp: keepalives_def map_filter_snd) (auto 0 3)

text \<open>A maintenance sweep does exactly what its settings say: after any run it removes exactly the
  clients not heard for the inactivity timeout and leaves the others untouched, frees exactly the
  modules whose stream has been silent for the voice timeout, and, when keepalives are due, sends
  one to distinct linked clients that remain, and on DExtra and DPlus to every one of them.\<close>

lemma maintenance_exact:
  assumes "ProtocolEndpoint_new fl protocol m0 authorizer bus settings modules = Some ep0" "list_all Module_wf modules"
    "run_steps endpoint_step ops ep0 = (sent, ep)" "handle_tick now ep = (txs, ep')"
    "DstarCallsign_wf (es_reflector_callsign settings)"
  shows "(\<forall>p. client_at (ep_clients ep') p = (case client_at (ep_clients ep) p of None \<Rightarrow> None
        | Some h \<Rightarrow> if es_keepalive_inactivity_timeout settings \<le> saturating_duration_since now (ch_last_heard h) then None else Some h)) \<and>
    (\<forall>m. hm_get (ep_stream_cache ep') m = (case hm_get (ep_stream_cache ep) m of None \<Rightarrow> None
        | Some e \<Rightarrow> if es_voice_inactivity_timeout settings \<le> saturating_duration_since now (sc_last_activity e) then None else Some e)) \<and>
    distinct (map snd txs) \<and> set (map snd txs) \<subseteq> linked_clients (ep_clients ep') \<and>
    (protocol \<noteq> PK_Dcs \<and> ep_last_keepalive_sent ep' = Some now \<and> ep_last_keepalive_sent ep \<noteq> Some now \<longrightarrow>
       set (map snd txs) = linked_clients (ep_clients ep'))"
proof -
  note r = reached_endpoint [OF assms(1-3)]
  let ?ep1 = "evict_idle now ep"
  let ?ep2 = "?ep1\<lparr>ep_stream_cache := hm_retain (\<lambda>m entry. \<not> should_evict now (es_voice_inactivity_timeout (ep_settings ?ep1)) entry) (ep_stream_cache ?ep1)\<rparr>"
  have conf: "same_config ep ?ep1" by simp
  then have cfg: "ep_settings ?ep1 = settings" "ep_protocol ?ep1 = protocol" using r(4,5) by (simp_all add: same_config_def)
  have last: "ep_last_keepalive_sent ?ep1 = ep_last_keepalive_sent ep" by (rule evict_idle_last)
  have p: "pool_inv (ep_clients ?ep2)" using ep_inv_pool [OF ep_inv_evict_idle [OF r(1)]] by simp
  note k = keepalives_at [OF p]
  have t: "(txs, ep') = (if ep_last_keepalive_sent ep' = ep_last_keepalive_sent ep \<and> txs = [] then ([], ?ep2)
      else (keepalives ?ep2, ?ep2\<lparr>ep_last_keepalive_sent := Some now\<rparr>))"
    using assms(4) last by (auto simp: handle_tick_def Let_def keepalives_def split: if_splits)
  have c: "ep_clients ep' = ep_clients ?ep1" "ep_stream_cache ep' = ep_stream_cache ?ep2" using t by (auto split: if_splits)
  have s: "txs = [] \<or> txs = keepalives ?ep2" using t by (auto split: if_splits)
  show ?thesis
  proof (intro conjI allI impI)
    show "client_at (ep_clients ep') p = (case client_at (ep_clients ep) p of None \<Rightarrow> None
        | Some h \<Rightarrow> if es_keepalive_inactivity_timeout settings \<le> saturating_duration_since now (ch_last_heard h) then None else Some h)" for p
      using evict_idle_at [OF r(1), of now p] c(1) r(5) by (simp add: idle_def split: option.splits)
    show "hm_get (ep_stream_cache ep') m = (case hm_get (ep_stream_cache ep) m of None \<Rightarrow> None
        | Some e \<Rightarrow> if es_voice_inactivity_timeout settings \<le> saturating_duration_since now (sc_last_activity e) then None else Some e)" for m
      using c(2) cfg ep_inv_wf [OF r(1)] by (simp add: hm.lookup_retain should_evict_def split: option.split)
    show "distinct (map snd txs)" "set (map snd txs) \<subseteq> linked_clients (ep_clients ep')"
      using s k(1,2) c(1) by auto
    show "set (map snd txs) = linked_clients (ep_clients ep')"
      if "protocol \<noteq> PK_Dcs \<and> ep_last_keepalive_sent ep' = Some now \<and> ep_last_keepalive_sent ep \<noteq> Some now"
      using that t k(3) cfg assms(5) c(1) by (auto split: if_splits)
  qed
qed

lemma sample_runs_3:
  "run_steps endpoint_step (take 3 sample_ops) (sample_at ClientPool_new [] None) =
     ([[(sample_reply, sample_talker)], [(sample_reply, sample_listener)], [(talk_header (StreamId 7), sample_listener)]],
      sample_at (talking (served_client sample_listener)) sample_cache None)"
  by (simp add: sample_ops_def step_links step_talks del: endpoint_step.simps)

text \<open>The keepalive that a DCS endpoint sends has a length the DCS client decoder does not know.\<close>

lemma dcs_keepalive_unreadable:
  assumes "ep_protocol ep = PK_Dcs" "encode_keepalive_for entry ep = Some payload"
  shows "dcs_decode_server_to_client payload sink = (Err (Dcs_UnknownPacketLength 22), sink)"
  using assms
  by (auto simp: encode_keepalive_for_def get_range_def dcs_decode_server_to_client_def dcs_lens split: option.splits if_splits)

end
