(* ===== verification/Reflector_Config.thy ===== *)
theory Reflector_Config
  imports Reflector_Floor
begin

text \<open>
  Configuration and assembly of a reflector: \<open>reflector/config.rs\<close> with its builder and the address
  each protocol binds, and the constructors of \<open>reflector/reflector.rs\<close> and \<open>endpoint.rs\<close> that turn a
  configuration into endpoints, all of \<open>dstar-gateway-server/src\<close>. The builder's type parameters
  record at compile time what its options record here; a \<open>build\<close> without a required field does not
  compile, and is the value \<open>None\<close>. Sockets and the shutdown channel are left out.
\<close>

section \<open>Configuration\<close>

definition STANDARD_DEXTRA_PORT :: u16 where "STANDARD_DEXTRA_PORT = 30001"

definition STANDARD_DPLUS_PORT :: u16 where "STANDARD_DPLUS_PORT = 20001"

definition STANDARD_DCS_PORT :: u16 where "STANDARD_DCS_PORT = 30051"

fun standard_port :: "ProtocolKind \<Rightarrow> u16 option" where
  "standard_port PK_DExtra = Some STANDARD_DEXTRA_PORT"
| "standard_port PK_DPlus = Some STANDARD_DPLUS_PORT"
| "standard_port PK_Dcs = Some STANDARD_DCS_PORT"

datatype ConfigDuration = CD_KeepaliveInterval | CD_KeepaliveInactivity | CD_VoiceInactivity

datatype ConfigError = CE_EmptyModules | CE_EmptyProtocols | CE_DurationOverflow ConfigDuration

record 'f ReflectorConfig =
  rc_callsign :: RoutingCallsign
  rc_modules :: "DstarModule list"
  rc_bind :: SocketAddr
  rc_protocol_binds :: "(ProtocolKind, SocketAddr) hashmap"
  rc_max_clients_per_module :: nat
  rc_max_total_clients :: nat
  rc_enabled_protocols :: "ProtocolKind list"
  rc_keepalive_interval :: duration
  rc_keepalive_inactivity_timeout :: duration
  rc_voice_inactivity_timeout :: duration
  rc_cross_protocol_forwarding :: bool
  rc_tx_rate_limit :: "'f FrameRate"

definition is_enabled :: "ProtocolKind \<Rightarrow> 'f ReflectorConfig \<Rightarrow> bool" where
  "is_enabled protocol c \<longleftrightarrow> protocol \<in> set (rc_enabled_protocols c)"

definition bind_addr_for :: "ProtocolKind \<Rightarrow> 'f ReflectorConfig \<Rightarrow> SocketAddr" where
  "bind_addr_for protocol c =
     (case hm_get (rc_protocol_binds c) protocol of
        Some addr \<Rightarrow> addr
      | None \<Rightarrow>
          (if sa_port (rc_bind c) = 0 then SocketAddr (sa_ip (rc_bind c)) 0
           else if length (rc_enabled_protocols c) = 1 then rc_bind c
           else case standard_port protocol of
                  None \<Rightarrow> rc_bind c
                | Some port \<Rightarrow> SocketAddr (sa_ip (rc_bind c)) port))"

record 'f ReflectorConfigBuilder =
  rb_callsign :: "RoutingCallsign option"
  rb_modules :: "DstarModule list option"
  rb_bind :: "SocketAddr option"
  rb_protocol_binds :: "(ProtocolKind, SocketAddr) hashmap"
  rb_max_clients_per_module :: nat
  rb_max_total_clients :: nat
  rb_enabled_protocols :: "ProtocolKind list"
  rb_keepalive_interval :: duration
  rb_keepalive_inactivity_timeout :: duration
  rb_voice_inactivity_timeout :: duration
  rb_cross_protocol_forwarding :: bool
  rb_tx_rate_limit :: "'f FrameRate"

definition builder_empty :: "'f F64 \<Rightarrow> 'f ReflectorConfigBuilder" where
  "builder_empty fl = \<lparr>rb_callsign = None, rb_modules = None, rb_bind = None, rb_protocol_binds = [],
     rb_max_clients_per_module = 50, rb_max_total_clients = 250,
     rb_enabled_protocols = List.insert PK_Dcs (List.insert PK_DExtra (List.insert PK_DPlus [])),
     rb_keepalive_interval = from_secs 1, rb_keepalive_inactivity_timeout = from_secs 30,
     rb_voice_inactivity_timeout = from_secs 2, rb_cross_protocol_forwarding = False,
     rb_tx_rate_limit = DEFAULT_TX_BUDGET_REFILL_PER_SEC fl\<rparr>"

text \<open>The builder's methods as one operation each; a \<open>HashSet\<close> argument is a list.\<close>

datatype 'f builder_op =
    B_callsign RoutingCallsign
  | B_module_set "DstarModule list"
  | B_bind SocketAddr
  | B_protocol_bind ProtocolKind SocketAddr
  | B_max_clients_per_module nat
  | B_max_total_clients nat
  | B_enable ProtocolKind
  | B_disable ProtocolKind
  | B_keepalive_interval duration
  | B_keepalive_inactivity_timeout duration
  | B_voice_inactivity_timeout duration
  | B_cross_protocol_forwarding bool
  | B_tx_rate_limit "'f FrameRate"

fun builder_step :: "'f builder_op \<Rightarrow> 'f ReflectorConfigBuilder \<Rightarrow> 'f ReflectorConfigBuilder" where
  "builder_step (B_callsign c) b = b\<lparr>rb_callsign := Some c\<rparr>"
| "builder_step (B_module_set ms) b = b\<lparr>rb_modules := Some ms\<rparr>"
| "builder_step (B_bind a) b = b\<lparr>rb_bind := Some a\<rparr>"
| "builder_step (B_protocol_bind p a) b = b\<lparr>rb_protocol_binds := hm_insert p a (rb_protocol_binds b)\<rparr>"
| "builder_step (B_max_clients_per_module n) b = b\<lparr>rb_max_clients_per_module := n\<rparr>"
| "builder_step (B_max_total_clients n) b = b\<lparr>rb_max_total_clients := n\<rparr>"
| "builder_step (B_enable p) b = b\<lparr>rb_enabled_protocols := List.insert p (rb_enabled_protocols b)\<rparr>"
| "builder_step (B_disable p) b = b\<lparr>rb_enabled_protocols := removeAll p (rb_enabled_protocols b)\<rparr>"
| "builder_step (B_keepalive_interval d) b = b\<lparr>rb_keepalive_interval := d\<rparr>"
| "builder_step (B_keepalive_inactivity_timeout d) b = b\<lparr>rb_keepalive_inactivity_timeout := d\<rparr>"
| "builder_step (B_voice_inactivity_timeout d) b = b\<lparr>rb_voice_inactivity_timeout := d\<rparr>"
| "builder_step (B_cross_protocol_forwarding v) b = b\<lparr>rb_cross_protocol_forwarding := v\<rparr>"
| "builder_step (B_tx_rate_limit r) b = b\<lparr>rb_tx_rate_limit := r\<rparr>"

text \<open>The loop over the three durations returns at the first that overflows the clock.\<close>

fun duration_overflow :: "instant \<Rightarrow> (ConfigDuration \<times> duration) list \<Rightarrow> ConfigDuration option" where
  "duration_overflow now [] = None"
| "duration_overflow now ((field, d) # rest) =
     (if checked_add now d = None then Some field else duration_overflow now rest)"

definition build :: "instant \<Rightarrow> 'f ReflectorConfigBuilder \<Rightarrow> (ConfigError + 'f ReflectorConfig) option" where
  "build now b =
     (case (rb_callsign b, rb_modules b, rb_bind b) of
        (Some callsign, Some modules, Some bind) \<Rightarrow>
          Some (if modules = [] then Err CE_EmptyModules
                else if rb_enabled_protocols b = [] then Err CE_EmptyProtocols
                else case duration_overflow now
                       [(CD_KeepaliveInterval, rb_keepalive_interval b),
                        (CD_KeepaliveInactivity, rb_keepalive_inactivity_timeout b),
                        (CD_VoiceInactivity, rb_voice_inactivity_timeout b)] of
                       Some field \<Rightarrow> Err (CE_DurationOverflow field)
                     | None \<Rightarrow>
                         Ok \<lparr>rc_callsign = callsign, rc_modules = modules, rc_bind = bind,
                             rc_protocol_binds = rb_protocol_binds b,
                             rc_max_clients_per_module = rb_max_clients_per_module b,
                             rc_max_total_clients = rb_max_total_clients b,
                             rc_enabled_protocols = rb_enabled_protocols b,
                             rc_keepalive_interval = rb_keepalive_interval b,
                             rc_keepalive_inactivity_timeout = rb_keepalive_inactivity_timeout b,
                             rc_voice_inactivity_timeout = rb_voice_inactivity_timeout b,
                             rc_cross_protocol_forwarding = rb_cross_protocol_forwarding b,
                             rc_tx_rate_limit = rb_tx_rate_limit b\<rparr>)
      | _ \<Rightarrow> None)"

section \<open>Assembly\<close>

definition EndpointSettings_from :: "'f ReflectorConfig \<Rightarrow> 'f EndpointSettings" where
  "EndpointSettings_from c = \<lparr>es_reflector_callsign = RoutingCallsign_callsign (rc_callsign c),
     es_tx_rate_limit = rc_tx_rate_limit c, es_max_total_clients = rc_max_total_clients c,
     es_max_clients_per_module = rc_max_clients_per_module c, es_keepalive_interval = rc_keepalive_interval c,
     es_keepalive_inactivity_timeout = rc_keepalive_inactivity_timeout c,
     es_voice_inactivity_timeout = rc_voice_inactivity_timeout c\<rparr>"

text \<open>\<open>min_by_key\<close> of the modules by their letter.\<close>

fun min_module :: "DstarModule list \<Rightarrow> DstarModule option" where
  "min_module [] = None"
| "min_module (m # ms) =
     Some (fold (\<lambda>m best. if Module_as_byte m < Module_as_byte best then m else best) ms m)"

text \<open>The empty set of modules is unreachable for a built configuration, the value \<open>None\<close>.\<close>

definition from_config :: "'f F64 \<Rightarrow> ProtocolKind \<Rightarrow> 'f ReflectorConfig \<Rightarrow> ClientAuthorizer \<Rightarrow> 'f ProtocolEndpoint option" where
  "from_config fl kind c authorizer =
     (case min_module (rc_modules c) of
        None \<Rightarrow> None
      | Some m \<Rightarrow> ProtocolEndpoint_new fl kind m authorizer None (EndpointSettings_from c) (rc_modules c))"

record 'f Reflector =
  rf_config :: "'f ReflectorConfig"
  rf_dextra :: "'f ProtocolEndpoint option"
  rf_dplus :: "'f ProtocolEndpoint option"
  rf_dcs :: "'f ProtocolEndpoint option"

definition new_endpoint ::
  "'f F64 \<Rightarrow> ProtocolKind \<Rightarrow> DstarModule \<Rightarrow> ClientAuthorizer \<Rightarrow> CrossProtocolEvent list option \<Rightarrow> 'f ReflectorConfig \<Rightarrow>
     'f ProtocolEndpoint option option" where
  "new_endpoint fl kind m authorizer voice_bus c =
     (if is_enabled kind c
      then map_option Some (ProtocolEndpoint_new fl kind m authorizer voice_bus (EndpointSettings_from c) (rc_modules c))
      else Some None)"

definition Reflector_new :: "'f F64 \<Rightarrow> 'f ReflectorConfig \<Rightarrow> ClientAuthorizer \<Rightarrow> 'f Reflector option" where
  "Reflector_new fl c authorizer =
     (case min_module (rc_modules c) of
        None \<Rightarrow> None
      | Some m \<Rightarrow>
          (let voice_bus = (if rc_cross_protocol_forwarding c then Some [] else None)
           in case (new_endpoint fl PK_DExtra m authorizer voice_bus c, new_endpoint fl PK_DPlus m authorizer voice_bus c,
                    new_endpoint fl PK_Dcs m authorizer voice_bus c) of
                (Some dextra, Some dplus, Some dcs) \<Rightarrow>
                  Some \<lparr>rf_config = c, rf_dextra = dextra, rf_dplus = dplus, rf_dcs = dcs\<rparr>
              | _ \<Rightarrow> None))"

fun endpoint_of :: "ProtocolKind \<Rightarrow> 'f Reflector \<Rightarrow> 'f ProtocolEndpoint option" where
  "endpoint_of PK_DExtra r = rf_dextra r"
| "endpoint_of PK_DPlus r = rf_dplus r"
| "endpoint_of PK_Dcs r = rf_dcs r"

section \<open>A built configuration starts\<close>

lemma min_module_least:
  assumes "ms \<noteq> []"
  shows "\<exists>m. min_module ms = Some m \<and> m \<in> set ms \<and> (\<forall>m' \<in> set ms. Module_as_byte m \<le> Module_as_byte m')"
proof -
  have "fold (\<lambda>m best. if Module_as_byte m < Module_as_byte best then m else best) ms b \<in> insert b (set ms) \<and>
      (\<forall>m' \<in> insert b (set ms). Module_as_byte (fold (\<lambda>m best. if Module_as_byte m < Module_as_byte best then m else best) ms b) \<le> Module_as_byte m')"
    for ms b
  proof (induction ms arbitrary: b)
    case (Cons m ms)
    show ?case using Cons.IH [of m] Cons.IH [of b] by (auto simp: not_less)
  qed simp
  then show ?thesis using assms by (cases ms) auto
qed

lemma built_config:
  assumes "build now (fold builder_step ops (builder_empty fl)) = Some (Ok c)"
  shows "rc_modules c \<noteq> []" "rc_enabled_protocols c \<noteq> []" "distinct (rc_enabled_protocols c)"
    "now + rc_keepalive_interval c \<le> instant_max" "now + rc_keepalive_inactivity_timeout c \<le> instant_max"
    "now + rc_voice_inactivity_timeout c \<le> instant_max"
proof -
  have "distinct (rb_enabled_protocols (fold builder_step ops b))" if "distinct (rb_enabled_protocols b)" for b :: "'a ReflectorConfigBuilder"
    using that
  proof (induction ops arbitrary: b)
    case (Cons op ops)
    then show ?case by (cases op) (auto simp: distinct_removeAll)
  qed simp
  from this [of "builder_empty fl"] have d: "distinct (rb_enabled_protocols (fold builder_step ops (builder_empty fl)))"
    by (simp add: builder_empty_def)
  show "rc_modules c \<noteq> []" "rc_enabled_protocols c \<noteq> []" "distinct (rc_enabled_protocols c)"
    "now + rc_keepalive_interval c \<le> instant_max" "now + rc_keepalive_inactivity_timeout c \<le> instant_max"
    "now + rc_voice_inactivity_timeout c \<le> instant_max"
    using assms d by (auto simp: build_def checked_add_def split: option.splits if_splits)
qed

lemma bind_apart:
  assumes "is_enabled p c" "is_enabled q c" "p \<noteq> q" "distinct (rc_enabled_protocols c)" "sa_port (rc_bind c) \<noteq> 0"
    "hm_get (rc_protocol_binds c) p = None" "hm_get (rc_protocol_binds c) q = None"
  shows "bind_addr_for p c \<noteq> bind_addr_for q c"
proof -
  have "length (rc_enabled_protocols c) \<noteq> 1"
    using assms(1-3) by (auto simp: is_enabled_def length_Suc_conv)
  then show ?thesis
    using assms by (cases p; cases q) (auto simp: bind_addr_for_def STANDARD_DEXTRA_PORT_def STANDARD_DPLUS_PORT_def STANDARD_DCS_PORT_def)
qed

text \<open>A configuration that the builder accepts always starts: whatever the builder was told, the
  reflector's constructor does not panic; it makes an endpoint for exactly the enabled protocols, at
  least one, each in its invariant, with the configured limits and modules and the least module as
  its default; and no two of them bind the same address, unless one was pinned by hand or the
  port is left to the system.\<close>

lemma reflector_starts:
  assumes "build now (fold builder_step ops (builder_empty fl)) = Some (Ok c)" "list_all Module_wf (rc_modules c)"
  shows "\<exists>r. Reflector_new fl c authorizer = Some r \<and>
    (\<forall>k. endpoint_of k r \<noteq> None \<longleftrightarrow> is_enabled k c) \<and> (\<exists>k. is_enabled k c) \<and>
    (\<forall>k ep. endpoint_of k r = Some ep \<longrightarrow> ep_inv ep \<and> ep_protocol ep = k \<and> ep_authorizer ep = authorizer \<and>
       ep_settings ep = EndpointSettings_from c \<and> ep_configured_modules ep = rc_modules c \<and>
       ep_default_module ep \<in> set (rc_modules c) \<and>
       (\<forall>m \<in> set (rc_modules c). Module_as_byte (ep_default_module ep) \<le> Module_as_byte m)) \<and>
    (\<forall>p q. is_enabled p c \<and> is_enabled q c \<and> p \<noteq> q \<and> sa_port (rc_bind c) \<noteq> 0 \<and>
       hm_get (rc_protocol_binds c) p = None \<and> hm_get (rc_protocol_binds c) q = None \<longrightarrow> bind_addr_for p c \<noteq> bind_addr_for q c)"
proof -
  note b = built_config [OF assms(1)]
  obtain m where m: "min_module (rc_modules c) = Some m" "m \<in> set (rc_modules c)" "\<forall>m' \<in> set (rc_modules c). Module_as_byte m \<le> Module_as_byte m'"
    using min_module_least [OF b(1)] by blast
  let ?bus = "if rc_cross_protocol_forwarding c then Some [] else None"
  have new: "\<exists>ep. ProtocolEndpoint_new fl k m authorizer ?bus (EndpointSettings_from c) (rc_modules c) = Some ep \<and> ep_inv ep \<and>
      ep_protocol ep = k \<and> ep_authorizer ep = authorizer \<and> ep_settings ep = EndpointSettings_from c \<and>
      ep_configured_modules ep = rc_modules c \<and> ep_default_module ep = m" for k
    using m(2) new_ep_inv(1) [OF _ assms(2), of fl k m authorizer ?bus "EndpointSettings_from c"]
    by (simp add: ProtocolEndpoint_new_def)
  have "\<exists>e. new_endpoint fl k m authorizer ?bus c = Some e \<and> (e \<noteq> None \<longleftrightarrow> is_enabled k c) \<and>
      (\<forall>ep. e = Some ep \<longrightarrow> ep_inv ep \<and> ep_protocol ep = k \<and> ep_authorizer ep = authorizer \<and> ep_settings ep = EndpointSettings_from c \<and>
        ep_configured_modules ep = rc_modules c \<and> ep_default_module ep = m)" for k
    using new [of k] by (auto simp: new_endpoint_def)
  then obtain e where e: "\<And>k. new_endpoint fl k m authorizer ?bus c = Some (e k)" "\<And>k. e k \<noteq> None \<longleftrightarrow> is_enabled k c"
      "\<And>k ep. e k = Some ep \<Longrightarrow> ep_inv ep \<and> ep_protocol ep = k \<and> ep_authorizer ep = authorizer \<and> ep_settings ep = EndpointSettings_from c \<and>
        ep_configured_modules ep = rc_modules c \<and> ep_default_module ep = m"
    by metis
  let ?r = "\<lparr>rf_config = c, rf_dextra = e PK_DExtra, rf_dplus = e PK_DPlus, rf_dcs = e PK_Dcs\<rparr>"
  have r: "Reflector_new fl c authorizer = Some ?r" using m(1) e(1) by (simp add: Reflector_new_def Let_def)
  have at: "endpoint_of k ?r = e k" for k by (cases k) simp_all
  have en: "\<exists>k. is_enabled k c" using b(2) by (cases "rc_enabled_protocols c") (auto simp: is_enabled_def)
  show ?thesis
    by (intro exI [of _ ?r] conjI r en allI impI) (use at e(2,3) m(2,3) bind_apart [OF _ _ _ b(3)] in auto)
qed

end
