(* ===== verification/Mmdvm_Core.thy ===== *)
theory Mmdvm_Core
  imports Prelude
begin

text \<open>
  The modem codec of \<open>mmdvm-core\<close>: command identifiers, the short and the extended frame form,
  modes, refusal reasons, status reports of both protocol versions and the version response with
  its checked text. Beside the round trips stands the incremental contract of
  \<open>MmdvmFrame::from_bytes\<close>: a verdict is final, so a buffer that grows never changes it.
\<close>

section \<open>Commands (command.rs)\<close>

datatype Command = Command (Command_get: u8)

definition GET_VERSION :: Command where "GET_VERSION = Command 0x00"
definition GET_STATUS :: Command where "GET_STATUS = Command 0x01"
definition SET_CONFIG :: Command where "SET_CONFIG = Command 0x02"
definition SET_MODE :: Command where "SET_MODE = Command 0x03"
definition SET_FREQ :: Command where "SET_FREQ = Command 0x04"
definition SEND_CWID :: Command where "SEND_CWID = Command 0x0A"
definition DSTAR_HEADER :: Command where "DSTAR_HEADER = Command 0x10"
definition DSTAR_DATA :: Command where "DSTAR_DATA = Command 0x11"
definition DSTAR_LOST :: Command where "DSTAR_LOST = Command 0x12"
definition DSTAR_EOT :: Command where "DSTAR_EOT = Command 0x13"
definition DMR_DATA1 :: Command where "DMR_DATA1 = Command 0x18"
definition DMR_LOST1 :: Command where "DMR_LOST1 = Command 0x19"
definition DMR_DATA2 :: Command where "DMR_DATA2 = Command 0x1A"
definition DMR_LOST2 :: Command where "DMR_LOST2 = Command 0x1B"
definition DMR_SHORTLC :: Command where "DMR_SHORTLC = Command 0x1C"
definition DMR_START :: Command where "DMR_START = Command 0x1D"
definition DMR_ABORT :: Command where "DMR_ABORT = Command 0x1E"
definition YSF_DATA :: Command where "YSF_DATA = Command 0x20"
definition YSF_LOST :: Command where "YSF_LOST = Command 0x21"
definition P25_HDR :: Command where "P25_HDR = Command 0x30"
definition P25_LDU :: Command where "P25_LDU = Command 0x31"
definition P25_LOST :: Command where "P25_LOST = Command 0x32"
definition NXDN_DATA :: Command where "NXDN_DATA = Command 0x40"
definition NXDN_LOST :: Command where "NXDN_LOST = Command 0x41"
definition POCSAG_DATA :: Command where "POCSAG_DATA = Command 0x50"
definition FM_PARAMS1 :: Command where "FM_PARAMS1 = Command 0x60"
definition FM_PARAMS2 :: Command where "FM_PARAMS2 = Command 0x61"
definition FM_PARAMS3 :: Command where "FM_PARAMS3 = Command 0x62"
definition FM_PARAMS4 :: Command where "FM_PARAMS4 = Command 0x63"
definition FM_DATA :: Command where "FM_DATA = Command 0x65"
definition FM_STATUS :: Command where "FM_STATUS = Command 0x66"
definition FM_EOT :: Command where "FM_EOT = Command 0x67"
definition FM_RSSI :: Command where "FM_RSSI = Command 0x68"
definition ACK :: Command where "ACK = Command 0x70"
definition NAK :: Command where "NAK = Command 0x7F"
definition SERIAL_DATA :: Command where "SERIAL_DATA = Command 0x80"
definition TRANSPARENT :: Command where "TRANSPARENT = Command 0x90"
definition QSO_INFO :: Command where "QSO_INFO = Command 0x91"
definition DEBUG1 :: Command where "DEBUG1 = Command 0xF1"
definition DEBUG2 :: Command where "DEBUG2 = Command 0xF2"
definition DEBUG3 :: Command where "DEBUG3 = Command 0xF3"
definition DEBUG4 :: Command where "DEBUG4 = Command 0xF4"
definition DEBUG5 :: Command where "DEBUG5 = Command 0xF5"
definition DEBUG_DUMP :: Command where "DEBUG_DUMP = Command 0xFA"

lemmas Command_defs = GET_VERSION_def GET_STATUS_def SET_CONFIG_def SET_MODE_def SET_FREQ_def SEND_CWID_def
  DSTAR_HEADER_def DSTAR_DATA_def DSTAR_LOST_def DSTAR_EOT_def DMR_DATA1_def DMR_LOST1_def
  DMR_DATA2_def DMR_LOST2_def DMR_SHORTLC_def DMR_START_def DMR_ABORT_def YSF_DATA_def YSF_LOST_def
  P25_HDR_def P25_LDU_def P25_LOST_def NXDN_DATA_def NXDN_LOST_def POCSAG_DATA_def FM_PARAMS1_def
  FM_PARAMS2_def FM_PARAMS3_def FM_PARAMS4_def FM_DATA_def FM_STATUS_def FM_EOT_def FM_RSSI_def
  ACK_def NAK_def SERIAL_DATA_def TRANSPARENT_def QSO_INFO_def DEBUG1_def DEBUG2_def DEBUG3_def
  DEBUG4_def DEBUG5_def DEBUG_DUMP_def

definition MMDVM_FRAME_START :: u8 where "MMDVM_FRAME_START = 0xE0"
definition CAP1_DSTAR :: u8 where "CAP1_DSTAR = 0x01"
definition CAP1_DMR :: u8 where "CAP1_DMR = 0x02"
definition CAP1_YSF :: u8 where "CAP1_YSF = 0x04"
definition CAP1_P25 :: u8 where "CAP1_P25 = 0x08"
definition CAP1_NXDN :: u8 where "CAP1_NXDN = 0x10"
definition CAP1_FM :: u8 where "CAP1_FM = 0x40"
definition CAP2_POCSAG :: u8 where "CAP2_POCSAG = 0x01"
definition MODE_IDLE :: u8 where "MODE_IDLE = 0"
definition MODE_DSTAR :: u8 where "MODE_DSTAR = 1"
definition MODE_DMR :: u8 where "MODE_DMR = 2"
definition MODE_YSF :: u8 where "MODE_YSF = 3"
definition MODE_P25 :: u8 where "MODE_P25 = 4"
definition MODE_NXDN :: u8 where "MODE_NXDN = 5"
definition MODE_POCSAG :: u8 where "MODE_POCSAG = 6"
definition MODE_FM :: u8 where "MODE_FM = 10"

lemmas mode_consts = MODE_IDLE_def MODE_DSTAR_def MODE_DMR_def MODE_YSF_def MODE_P25_def MODE_NXDN_def
  MODE_POCSAG_def MODE_FM_def

section \<open>Errors (error.rs)\<close>

text \<open>A \<open>char\<close> is its scalar value.\<close>

datatype MmdvmError =
    InvalidStartByte u8
  | Mmdvm_InvalidLength u8
  | Mmdvm_PayloadTooLarge nat
  | InvalidStatusLength nat nat
  | InvalidVersionResponse
  | UnsupportedProtocolVersion u8
  | InvalidVersionText nat "nat option"
  | VersionDescriptionControl nat nat
  | InvalidModemMode u8

section \<open>Frames (frame.rs)\<close>

definition MIN_FRAME_LEN :: u8 where "MIN_FRAME_LEN = 3"
definition MAX_SHORT_PAYLOAD_LEN :: nat where "MAX_SHORT_PAYLOAD_LEN = 252"
definition MAX_PAYLOAD_LEN :: nat where "MAX_PAYLOAD_LEN = 506"

record MmdvmFrame =
  mf_command :: Command
  mf_payload :: bytes

definition MmdvmFrame_new :: "Command \<Rightarrow> MmdvmFrame" where
  "MmdvmFrame_new command = \<lparr>mf_command = command, mf_payload = []\<rparr>"

definition with_payload :: "Command \<Rightarrow> bytes \<Rightarrow> MmdvmError + MmdvmFrame" where
  "with_payload command payload =
     (if length payload > MAX_PAYLOAD_LEN then Err (Mmdvm_PayloadTooLarge (length payload))
      else Ok \<lparr>mf_command = command, mf_payload = payload\<rparr>)"

text \<open>\<open>u8::try_from\<close> of a length; the caller never leaves the range.\<close>

definition length_byte :: "nat \<Rightarrow> u8" where
  "length_byte n = word_of_nat n"

definition MmdvmFrame_to_bytes :: "MmdvmFrame \<Rightarrow> bytes" where
  "MmdvmFrame_to_bytes f =
     (let wire = [MMDVM_FRAME_START];
          wire = (if length (mf_payload f) \<le> MAX_SHORT_PAYLOAD_LEN
                  then wire @ [length_byte (length (mf_payload f) + 3)]
                  else wire @ [0] @ [length_byte (length (mf_payload f) + 4 - 255)])
      in wire @ [Command_get (mf_command f)] @ mf_payload f)"

text \<open>The total length and the header length that the first bytes announce.\<close>

definition frame_extent :: "bytes \<Rightarrow> MmdvmError + (nat \<times> nat) option" where
  "frame_extent data =
     (case get 0 data of None \<Rightarrow> Ok None | Some first \<Rightarrow>
       if first \<noteq> MMDVM_FRAME_START then Err (InvalidStartByte first)
       else (case get 1 data of None \<Rightarrow> Ok None | Some len \<Rightarrow>
         if len = 0 then (case get 2 data of None \<Rightarrow> Ok None | Some length2 \<Rightarrow> Ok (Some (unat length2 + 255, 4)))
         else if len < MIN_FRAME_LEN then Err (Mmdvm_InvalidLength len)
         else Ok (Some (unat len, 3))))"

definition MmdvmFrame_from_bytes :: "bytes \<Rightarrow> MmdvmError + (MmdvmFrame \<times> nat) option" where
  "MmdvmFrame_from_bytes data =
     (case frame_extent data of Err e \<Rightarrow> Err e | Ok None \<Rightarrow> Ok None
      | Ok (Some (frame_len, header_len)) \<Rightarrow>
        (case get_range (header_len - 1) frame_len data of
           Some (command # payload) \<Rightarrow>
             (case with_payload (Command command) payload of
                Err e \<Rightarrow> Err e | Ok frame \<Rightarrow> Ok (Some (frame, frame_len)))
         | _ \<Rightarrow> Ok None))"

definition MmdvmFrame_wf :: "MmdvmFrame \<Rightarrow> bool" where
  "MmdvmFrame_wf f \<longleftrightarrow> length (mf_payload f) \<le> MAX_PAYLOAD_LEN"

lemmas frame_consts = MIN_FRAME_LEN_def MAX_SHORT_PAYLOAD_LEN_def MAX_PAYLOAD_LEN_def MMDVM_FRAME_START_def

lemma with_payload_wf: "with_payload c p = Ok f \<Longrightarrow> MmdvmFrame_wf f \<and> mf_command f = c \<and> mf_payload f = p"
  by (auto simp: with_payload_def MmdvmFrame_wf_def split: if_splits)

lemma with_payload_ok: "length p \<le> 506 \<Longrightarrow> with_payload c p = Ok \<lparr>mf_command = c, mf_payload = p\<rparr>"
  by (simp add: with_payload_def frame_consts)

lemma MmdvmFrame_new_wf [simp]: "MmdvmFrame_wf (MmdvmFrame_new c)"
  by (simp add: MmdvmFrame_new_def MmdvmFrame_wf_def)

text \<open>The announced extent depends on the first bytes only, and is the length of an encoded frame.\<close>

lemma unat_lt2p_8: "unat (x::u8) < 256"
  using unsigned_less [where 'a = nat, of x] by simp

lemma get_one [simp]: "get 1 (x # xs) = get 0 xs" "get (Suc 0) (x # xs) = get 0 xs"
  by (simp_all add: get_def)

lemma frame_extent_append:
  "frame_extent data \<noteq> Ok None \<Longrightarrow> frame_extent (data @ rest) = frame_extent data"
  by (cases data; cases "tl data"; cases "tl (tl data)") (auto simp: frame_extent_def split: if_splits)

lemma frame_extent_le:
  assumes "frame_extent data = Ok (Some (n, h))"
  shows "h \<in> {3, 4} \<and> h \<le> n \<and> n \<le> 510 \<and> (h = 3 \<longrightarrow> n \<le> 255)"
proof -
  have b: "unat (x::u8) \<le> 255" for x using unat_lt2p_8 [of x] by simp
  have "\<not> len < MIN_FRAME_LEN \<Longrightarrow> 3 \<le> unat len" for len
    by (simp add: MIN_FRAME_LEN_def word_less_nat_alt)
  moreover have "unat (x::u8) \<le> 510" for x using b [of x] by simp
  ultimately show ?thesis using assms b
    by (auto simp: frame_extent_def split: option.splits if_splits)
qed

lemma unat_length_byte: "n < 256 \<Longrightarrow> unat (length_byte n) = n"
  by (simp add: length_byte_def unat_of_nat take_bit_eq_mod)

lemma length_to_bytes:
  "length (MmdvmFrame_to_bytes f) = length (mf_payload f) + (if length (mf_payload f) \<le> 252 then 3 else 4)"
  by (simp add: MmdvmFrame_to_bytes_def frame_consts)

lemma frame_extent_to_bytes:
  assumes "MmdvmFrame_wf f"
  shows "frame_extent (MmdvmFrame_to_bytes f @ rest) = Ok (Some
    (length (MmdvmFrame_to_bytes f), if length (mf_payload f) \<le> 252 then 3 else 4))"
proof (cases "length (mf_payload f) \<le> 252")
  case True
  let ?n = "length (mf_payload f) + 3"
  have n: "unat (length_byte ?n) = ?n" using True by (simp add: unat_length_byte)
  have "length_byte ?n \<noteq> 0" using n by (metis add_is_0 numeral_neq_zero unat_0)
  moreover have "\<not> length_byte ?n < MIN_FRAME_LEN" using n by (simp add: word_less_nat_alt MIN_FRAME_LEN_def)
  ultimately show ?thesis using True n
    by (simp add: frame_extent_def length_to_bytes, simp add: MmdvmFrame_to_bytes_def frame_consts)
next
  case False
  let ?n = "length (mf_payload f) + 4 - 255"
  have "unat (length_byte ?n) + 255 = length (mf_payload f) + 4"
    using False assms by (simp add: unat_length_byte MmdvmFrame_wf_def frame_consts)
  then show ?thesis using False
    by (simp add: frame_extent_def length_to_bytes, simp add: MmdvmFrame_to_bytes_def frame_consts)
qed

lemma drop_to_bytes:
  "drop ((if length (mf_payload f) \<le> 252 then 3 else 4) - 1) (MmdvmFrame_to_bytes f)
     = Command_get (mf_command f) # mf_payload f"
  by (simp add: MmdvmFrame_to_bytes_def frame_consts numeral_eq_Suc)

text \<open>A frame at the front of a buffer is decoded whatever follows it.\<close>

lemma from_bytes_to_bytes:
  assumes "MmdvmFrame_wf f"
  shows "MmdvmFrame_from_bytes (MmdvmFrame_to_bytes f @ rest) = Ok (Some (f, length (MmdvmFrame_to_bytes f)))"
proof -
  define h :: nat where "h = (if length (mf_payload f) \<le> 252 then 3 else 4)"
  have "get_range (h - 1) (length (MmdvmFrame_to_bytes f)) (MmdvmFrame_to_bytes f @ rest)
      = Some (drop (h - 1) (MmdvmFrame_to_bytes f))"
    by (auto simp: get_range_def length_to_bytes h_def)
  also have "drop (h - 1) (MmdvmFrame_to_bytes f) = Command_get (mf_command f) # mf_payload f"
    unfolding h_def by (rule drop_to_bytes)
  finally show ?thesis
    using assms frame_extent_to_bytes [OF assms, of rest, folded h_def]
    by (simp add: MmdvmFrame_from_bytes_def with_payload_def MmdvmFrame_wf_def)
qed

text \<open>What a verdict means: an error is in the announced extent, and a frame takes exactly the bytes
  that the front of the buffer announces.\<close>

lemma from_bytes_eq:
  assumes e: "frame_extent data = Ok (Some (n, h))"
  shows "MmdvmFrame_from_bytes data = Ok (if n \<le> length data
    then Some (\<lparr>mf_command = Command (data ! (h - 1)), mf_payload = take (n - h) (drop h data)\<rparr>, n) else None)"
proof (cases "n \<le> length data")
  case True
  note l = frame_extent_le [OF e]
  have h: "drop (h - 1) data = data ! (h - 1) # drop h data"
    using l True Cons_nth_drop_Suc [of "h - 1" data] by (cases h) auto
  have "get_range (h - 1) n data = Some (take (n - (h - 1)) (drop (h - 1) data))"
    using True l by (auto simp: get_range_def)
  also have "take (n - (h - 1)) (drop (h - 1) data) = data ! (h - 1) # take (n - h) (drop h data)"
    unfolding h using l by (auto simp: take_Cons')
  finally show ?thesis
    using True l by (auto simp: MmdvmFrame_from_bytes_def e with_payload_def frame_consts)
qed (simp add: MmdvmFrame_from_bytes_def e get_range_def)

lemma from_bytes_extent:
  "frame_extent data = Err x \<Longrightarrow> MmdvmFrame_from_bytes data = Err x"
  "frame_extent data = Ok None \<Longrightarrow> MmdvmFrame_from_bytes data = Ok None"
  by (simp_all add: MmdvmFrame_from_bytes_def)

lemma from_bytes_cases:
  obtains x where "frame_extent data = Err x" "MmdvmFrame_from_bytes data = Err x"
  | "frame_extent data = Ok None" "MmdvmFrame_from_bytes data = Ok None"
  | n h where "frame_extent data = Ok (Some (n, h))" "length data < n" "MmdvmFrame_from_bytes data = Ok None"
  | n h f where "frame_extent data = Ok (Some (n, h))" "n \<le> length data" "MmdvmFrame_wf f"
      "f = \<lparr>mf_command = Command (data ! (h - 1)), mf_payload = take (n - h) (drop h data)\<rparr>"
      "MmdvmFrame_from_bytes data = Ok (Some (f, n))"
proof (cases "frame_extent data")
  case (Inr x)
  show ?thesis
  proof (cases x)
    case (Some y)
    then obtain n h where e: "frame_extent data = Ok (Some (n, h))" using Inr by (cases y) auto
    note l = frame_extent_le [OF e]
    show ?thesis
    proof (cases "n \<le> length data")
      case True
      then show ?thesis using from_bytes_eq [OF e] l
        by (intro that(4) [OF e True, of "\<lparr>mf_command = Command (data ! (h - 1)),
          mf_payload = take (n - h) (drop h data)\<rparr>"]) (auto simp: MmdvmFrame_wf_def frame_consts)
    next
      case False
      then show ?thesis using from_bytes_eq [OF e] that(3) [OF e] by simp
    qed
  qed (use Inr that(2) from_bytes_extent(2) in blast)
qed (use that(1) from_bytes_extent(1) in blast)

lemma from_bytes_Some:
  assumes "MmdvmFrame_from_bytes data = Ok (Some (f, n))"
  shows "MmdvmFrame_wf f" "3 \<le> n" "n \<le> length data" "n \<le> 510"
  using assms by (cases data rule: from_bytes_cases; auto dest: frame_extent_le)+

lemma frame_extent_None: "frame_extent data = Ok None \<Longrightarrow> length data < 3"
  by (cases data; cases "tl data"; cases "tl (tl data)") (auto simp: frame_extent_def split: if_splits)

lemma from_bytes_None_short: "MmdvmFrame_from_bytes data = Ok None \<Longrightarrow> length data < 510"
  by (cases data rule: from_bytes_cases) (auto dest: frame_extent_le frame_extent_None)

text \<open>A verdict other than "need more bytes" is final: later bytes do not change it.\<close>

lemma from_bytes_final:
  assumes "MmdvmFrame_from_bytes data \<noteq> Ok None"
  shows "MmdvmFrame_from_bytes (data @ rest) = MmdvmFrame_from_bytes data"
proof (cases data rule: from_bytes_cases)
  case (1 x)
  then show ?thesis using frame_extent_append [of data rest] by (simp add: from_bytes_extent)
next
  case (4 n h f)
  then have "frame_extent (data @ rest) = Ok (Some (n, h))" using frame_extent_append [of data rest] by simp
  then show ?thesis using 4 frame_extent_le [OF 4(1)] by (auto simp: from_bytes_eq nth_append)
qed (use assms in simp_all)

section \<open>Modes (mode.rs)\<close>

datatype ModemMode = Mode_Idle | Mode_Dstar | Mode_Dmr | Ysf | P25 | Nxdn | Pocsag | Fm

fun ModemMode_as_byte :: "ModemMode \<Rightarrow> u8" where
  "ModemMode_as_byte Mode_Idle = MODE_IDLE"
| "ModemMode_as_byte Mode_Dstar = MODE_DSTAR"
| "ModemMode_as_byte Mode_Dmr = MODE_DMR"
| "ModemMode_as_byte Ysf = MODE_YSF"
| "ModemMode_as_byte P25 = MODE_P25"
| "ModemMode_as_byte Nxdn = MODE_NXDN"
| "ModemMode_as_byte Pocsag = MODE_POCSAG"
| "ModemMode_as_byte Fm = MODE_FM"

definition ModemMode_from_byte :: "u8 \<Rightarrow> ModemMode" where
  "ModemMode_from_byte b =
     (if b = MODE_DSTAR then Mode_Dstar else if b = MODE_DMR then Mode_Dmr
      else if b = MODE_YSF then Ysf else if b = MODE_P25 then P25
      else if b = MODE_NXDN then Nxdn else if b = MODE_POCSAG then Pocsag
      else if b = MODE_FM then Fm else Mode_Idle)"

definition ModemMode_try_from :: "u8 \<Rightarrow> MmdvmError + ModemMode" where
  "ModemMode_try_from mode =
     (if mode \<in> set [MODE_IDLE, MODE_DSTAR, MODE_DMR, MODE_YSF, MODE_P25, MODE_NXDN, MODE_POCSAG, MODE_FM]
      then Ok (ModemMode_from_byte mode) else Err (InvalidModemMode mode))"

lemma ModemMode_from_as: "ModemMode_from_byte (ModemMode_as_byte m) = m"
  by (cases m) (simp_all add: ModemMode_from_byte_def mode_consts)

lemma ModemMode_try_from_iff: "ModemMode_try_from b = Ok m \<longleftrightarrow> b = ModemMode_as_byte m"
proof
  assume "ModemMode_try_from b = Ok m"
  then show "b = ModemMode_as_byte m"
    by (auto simp: ModemMode_try_from_def ModemMode_from_byte_def mode_consts split: if_splits)
next
  assume "b = ModemMode_as_byte m"
  then show "ModemMode_try_from b = Ok m"
    by (cases m) (simp_all add: ModemMode_try_from_def ModemMode_from_byte_def mode_consts)
qed

section \<open>Refusals (nak.rs)\<close>

datatype NakReason = InvalidCommand | CommandUnavailable | DataIncorrect | QueueOrStateRejected | Nak_Unknown u8

definition NakReason_from_byte :: "u8 \<Rightarrow> NakReason" where
  "NakReason_from_byte b =
     (if b = 1 then InvalidCommand else if b = 2 then CommandUnavailable
      else if b = 4 then DataIncorrect else if b = 5 then QueueOrStateRejected else Nak_Unknown b)"

fun NakReason_as_byte :: "NakReason \<Rightarrow> u8" where
  "NakReason_as_byte InvalidCommand = 1"
| "NakReason_as_byte CommandUnavailable = 2"
| "NakReason_as_byte DataIncorrect = 4"
| "NakReason_as_byte QueueOrStateRejected = 5"
| "NakReason_as_byte (Nak_Unknown code) = code"

lemma NakReason_as_from: "NakReason_as_byte (NakReason_from_byte b) = b"
  by (simp add: NakReason_from_byte_def)

section \<open>Capabilities (capabilities.rs)\<close>

datatype Capabilities = Capabilities (cap_bytes: "u8 \<times> u8")

definition Capabilities_new :: Capabilities where "Capabilities_new = Capabilities (0, 0)"

definition Capabilities_from_bytes :: "u8 \<times> u8 \<Rightarrow> Capabilities" where
  "Capabilities_from_bytes bs = Capabilities bs"

definition Capabilities_bits :: "Capabilities \<Rightarrow> u16" where
  "Capabilities_bits c = ucast (fst (cap_bytes c)) OR push_bit 8 (ucast (snd (cap_bytes c)))"

definition has_dstar :: "Capabilities \<Rightarrow> bool" where "has_dstar c \<longleftrightarrow> fst (cap_bytes c) AND CAP1_DSTAR \<noteq> 0"
definition has_dmr :: "Capabilities \<Rightarrow> bool" where "has_dmr c \<longleftrightarrow> fst (cap_bytes c) AND CAP1_DMR \<noteq> 0"
definition has_ysf :: "Capabilities \<Rightarrow> bool" where "has_ysf c \<longleftrightarrow> fst (cap_bytes c) AND CAP1_YSF \<noteq> 0"
definition has_p25 :: "Capabilities \<Rightarrow> bool" where "has_p25 c \<longleftrightarrow> fst (cap_bytes c) AND CAP1_P25 \<noteq> 0"
definition has_nxdn :: "Capabilities \<Rightarrow> bool" where "has_nxdn c \<longleftrightarrow> fst (cap_bytes c) AND CAP1_NXDN \<noteq> 0"
definition has_fm :: "Capabilities \<Rightarrow> bool" where "has_fm c \<longleftrightarrow> fst (cap_bytes c) AND CAP1_FM \<noteq> 0"
definition has_pocsag :: "Capabilities \<Rightarrow> bool" where "has_pocsag c \<longleftrightarrow> snd (cap_bytes c) AND CAP2_POCSAG \<noteq> 0"

section \<open>Status reports (status.rs)\<close>

definition STATE_TX :: u8 where "STATE_TX = 0x01"
definition STATE_ADC_OVERFLOW :: u8 where "STATE_ADC_OVERFLOW = 0x02"
definition STATE_RX_OVERFLOW :: u8 where "STATE_RX_OVERFLOW = 0x04"
definition STATE_TX_OVERFLOW :: u8 where "STATE_TX_OVERFLOW = 0x08"
definition STATE_LOCKOUT :: u8 where "STATE_LOCKOUT = 0x10"
definition STATE_DAC_OVERFLOW :: u8 where "STATE_DAC_OVERFLOW = 0x20"
definition STATE_CD :: u8 where "STATE_CD = 0x40"
definition MIN_V1_LEN :: nat where "MIN_V1_LEN = 7"
definition MIN_V2_LEN :: nat where "MIN_V2_LEN = 12"

lemmas state_consts = STATE_TX_def STATE_ADC_OVERFLOW_def STATE_RX_OVERFLOW_def STATE_TX_OVERFLOW_def
  STATE_LOCKOUT_def STATE_DAC_OVERFLOW_def STATE_CD_def

datatype StatusFlags = StatusFlags (flag_bits: u8)

definition from_bits_truncate :: "u8 \<Rightarrow> StatusFlags" where
  "from_bits_truncate bits = StatusFlags (bits AND
     (STATE_TX OR STATE_ADC_OVERFLOW OR STATE_RX_OVERFLOW OR STATE_TX_OVERFLOW OR STATE_LOCKOUT
      OR STATE_DAC_OVERFLOW OR STATE_CD))"

definition flag_tx :: "StatusFlags \<Rightarrow> bool" where "flag_tx f \<longleftrightarrow> flag_bits f AND STATE_TX \<noteq> 0"
definition adc_overflow :: "StatusFlags \<Rightarrow> bool" where "adc_overflow f \<longleftrightarrow> flag_bits f AND STATE_ADC_OVERFLOW \<noteq> 0"
definition rx_overflow :: "StatusFlags \<Rightarrow> bool" where "rx_overflow f \<longleftrightarrow> flag_bits f AND STATE_RX_OVERFLOW \<noteq> 0"
definition tx_overflow :: "StatusFlags \<Rightarrow> bool" where "tx_overflow f \<longleftrightarrow> flag_bits f AND STATE_TX_OVERFLOW \<noteq> 0"
definition lockout :: "StatusFlags \<Rightarrow> bool" where "lockout f \<longleftrightarrow> flag_bits f AND STATE_LOCKOUT \<noteq> 0"
definition dac_overflow :: "StatusFlags \<Rightarrow> bool" where "dac_overflow f \<longleftrightarrow> flag_bits f AND STATE_DAC_OVERFLOW \<noteq> 0"
definition flag_cd :: "StatusFlags \<Rightarrow> bool" where "flag_cd f \<longleftrightarrow> flag_bits f AND STATE_CD \<noteq> 0"

record ModemStatus =
  ms_mode :: ModemMode
  ms_flags :: StatusFlags
  ms_dstar_space :: u8
  ms_dmr_space1 :: u8
  ms_dmr_space2 :: u8
  ms_ysf_space :: u8
  ms_p25_space :: u8
  ms_nxdn_space :: u8
  ms_pocsag_space :: u8
  ms_fm_space :: u8

text \<open>\<open>payload.get(i).copied().unwrap_or(0)\<close>.\<close>

definition status_byte :: "bytes \<Rightarrow> nat \<Rightarrow> u8" where
  "status_byte payload i = (case get i payload of None \<Rightarrow> 0 | Some b \<Rightarrow> b)"

definition parse_v1 :: "bytes \<Rightarrow> MmdvmError + ModemStatus" where
  "parse_v1 payload =
     (if length payload < MIN_V1_LEN then Err (InvalidStatusLength (length payload) MIN_V1_LEN)
      else Ok \<lparr>ms_mode = ModemMode_from_byte (status_byte payload 1),
               ms_flags = from_bits_truncate (status_byte payload 2),
               ms_dstar_space = status_byte payload 3, ms_dmr_space1 = status_byte payload 4,
               ms_dmr_space2 = status_byte payload 5, ms_ysf_space = status_byte payload 6,
               ms_p25_space = status_byte payload 7, ms_nxdn_space = status_byte payload 8,
               ms_pocsag_space = status_byte payload 9, ms_fm_space = 0\<rparr>)"

definition parse_v2 :: "bytes \<Rightarrow> MmdvmError + ModemStatus" where
  "parse_v2 payload =
     (if length payload < MIN_V2_LEN then Err (InvalidStatusLength (length payload) MIN_V2_LEN)
      else Ok \<lparr>ms_mode = ModemMode_from_byte (status_byte payload 0),
               ms_flags = from_bits_truncate (status_byte payload 1),
               ms_dstar_space = status_byte payload 3, ms_dmr_space1 = status_byte payload 4,
               ms_dmr_space2 = status_byte payload 5, ms_ysf_space = status_byte payload 6,
               ms_p25_space = status_byte payload 7, ms_nxdn_space = status_byte payload 8,
               ms_pocsag_space = status_byte payload 11, ms_fm_space = status_byte payload 10\<rparr>)"

text \<open>Only the reserved bit is lost from the flags.\<close>

lemma from_bits_truncate_bits: "flag_bits (from_bits_truncate b) = b AND 0x7F"
  by (simp add: from_bits_truncate_def state_consts)

section \<open>UTF-8 validation\<close>

text \<open>
  \<open>str::from_utf8\<close>: the validator of the standard library, which accepts the well-formed byte
  sequences of the Unicode standard and reports the length of the valid prefix together with the
  length of the offending sequence, absent when the input ends inside one. A \<open>str\<close> is the list of
  its scalar values.
\<close>

definition continuation :: "u8 \<Rightarrow> bool" where
  "continuation b \<longleftrightarrow> 0x80 \<le> b \<and> b \<le> 0xBF"

definition second_ok :: "u8 \<Rightarrow> u8 \<Rightarrow> bool" where
  "second_ok first b \<longleftrightarrow>
     (if first = 0xE0 then 0xA0 \<le> b \<and> b \<le> 0xBF
      else if first = 0xED then 0x80 \<le> b \<and> b \<le> 0x9F
      else if first = 0xF0 then 0x90 \<le> b \<and> b \<le> 0xBF
      else if first = 0xF4 then 0x80 \<le> b \<and> b \<le> 0x8F
      else continuation b)"

definition utf8_width :: "u8 \<Rightarrow> nat" where
  "utf8_width b = (if b < 0x80 then 1 else if 0xC2 \<le> b \<and> b \<le> 0xDF then 2
     else if 0xE0 \<le> b \<and> b \<le> 0xEF then 3 else if 0xF0 \<le> b \<and> b \<le> 0xF4 then 4 else 0)"

definition cont_bits :: "u8 \<Rightarrow> nat" where "cont_bits b = unat (b AND 0x3F)"

text \<open>One character from the front, or the length of the offending sequence.\<close>

definition utf8_step :: "bytes \<Rightarrow> nat option + nat \<times> bytes" where
  "utf8_step bs =
     (case bs of [] \<Rightarrow> Err None
      | b0 # r0 \<Rightarrow>
        (if utf8_width b0 = 1 then Ok (unat b0, r0)
         else if utf8_width b0 = 0 then Err (Some 1)
         else (case r0 of [] \<Rightarrow> Err None
           | b1 # r1 \<Rightarrow>
             (if \<not> second_ok b0 b1 then Err (Some 1)
              else if utf8_width b0 = 2 then Ok (unat (b0 AND 0x1F) * 64 + cont_bits b1, r1)
              else (case r1 of [] \<Rightarrow> Err None
                | b2 # r2 \<Rightarrow>
                  (if \<not> continuation b2 then Err (Some 2)
                   else if utf8_width b0 = 3
                        then Ok ((unat (b0 AND 0x0F) * 64 + cont_bits b1) * 64 + cont_bits b2, r2)
                   else (case r2 of [] \<Rightarrow> Err None
                     | b3 # r3 \<Rightarrow>
                       (if \<not> continuation b3 then Err (Some 3)
                        else Ok (((unat (b0 AND 0x07) * 64 + cont_bits b1) * 64 + cont_bits b2) * 64
                                 + cont_bits b3, r3)))))))))"

lemma utf8_step_shorter: "utf8_step bs = Ok (c, rest) \<Longrightarrow> length rest < length bs"
  by (auto simp: utf8_step_def split: list.splits if_splits)

function from_utf8_at :: "nat \<Rightarrow> bytes \<Rightarrow> nat \<times> nat option + nat list" where
  "from_utf8_at valid_up_to bs =
     (if bs = [] then Ok []
      else (case utf8_step bs of Err error_len \<Rightarrow> Err (valid_up_to, error_len)
            | Ok (c, rest) \<Rightarrow>
              (case from_utf8_at (valid_up_to + (length bs - length rest)) rest of
                 Err e \<Rightarrow> Err e | Ok cs \<Rightarrow> Ok (c # cs))))"
  by pat_completeness auto
termination
  by (relation "measure (\<lambda>(_, bs). length bs)") (auto dest: utf8_step_shorter)

declare from_utf8_at.simps [simp del]

definition from_utf8 :: "bytes \<Rightarrow> nat \<times> nat option + nat list" where
  "from_utf8 bs = from_utf8_at 0 bs"

text \<open>\<open>char::len_utf8\<close>, and the byte offsets of \<open>char_indices\<close>.\<close>

definition len_utf8 :: "nat \<Rightarrow> nat" where
  "len_utf8 c = (if c < 0x80 then 1 else if c < 0x800 then 2 else if c < 0x10000 then 3 else 4)"

fun char_indices :: "nat \<Rightarrow> nat list \<Rightarrow> (nat \<times> nat) list" where
  "char_indices i [] = []"
| "char_indices i (c # cs) = (i, c) # char_indices (i + len_utf8 c) cs"

definition is_control :: "nat \<Rightarrow> bool" where
  "is_control c \<longleftrightarrow> c < 0x20 \<or> 0x7F \<le> c \<and> c < 0xA0"

definition is_ascii_whitespace :: "nat \<Rightarrow> bool" where
  "is_ascii_whitespace c \<longleftrightarrow> c \<in> set [0x09, 0x0A, 0x0C, 0x0D, 0x20]"

lemma from_utf8_at_ascii:
  assumes "\<forall>b \<in> set bs. b < 0x80"
  shows "from_utf8_at i bs = Ok (map unat bs)"
  using assms
proof (induction bs arbitrary: i)
  case (Cons b bs)
  then have "utf8_step (b # bs) = Ok (unat b, bs)" by (simp add: utf8_step_def utf8_width_def)
  then show ?case using Cons by (subst from_utf8_at.simps) simp
qed (simp add: from_utf8_at.simps)

lemma from_utf8_ascii: "\<forall>b \<in> set bs. b < 0x80 \<Longrightarrow> from_utf8 bs = Ok (map unat bs)"
  by (simp add: from_utf8_def from_utf8_at_ascii)

section \<open>Version responses (version.rs)\<close>

datatype ProtocolVersion = V1 | V2

fun ProtocolVersion_get :: "ProtocolVersion \<Rightarrow> u8" where
  "ProtocolVersion_get V1 = 1"
| "ProtocolVersion_get V2 = 2"

definition ProtocolVersion_try_from :: "u8 \<Rightarrow> MmdvmError + ProtocolVersion" where
  "ProtocolVersion_try_from protocol =
     (if protocol = 1 then Ok V1 else if protocol = 2 then Ok V2
      else Err (UnsupportedProtocolVersion protocol))"

record VersionResponse =
  vr_protocol :: ProtocolVersion
  vr_description :: "nat list"
  vr_capabilities :: "Capabilities option"

definition version_layout :: "ProtocolVersion \<Rightarrow> bytes \<Rightarrow> MmdvmError + nat \<times> Capabilities option" where
  "version_layout protocol payload =
     (case protocol of V1 \<Rightarrow> Ok (1, None)
      | V2 \<Rightarrow> (case get 1 payload of None \<Rightarrow> Err InvalidVersionResponse
               | Some cap1 \<Rightarrow> (case get 2 payload of None \<Rightarrow> Err InvalidVersionResponse
                   | Some cap2 \<Rightarrow> Ok (20, Some (Capabilities_from_bytes (cap1, cap2))))))"

definition checked_description :: "bytes \<Rightarrow> MmdvmError + nat list" where
  "checked_description raw =
     (case from_utf8 raw of Err (valid_up_to, error_len) \<Rightarrow> Err (InvalidVersionText valid_up_to error_len)
      | Ok text \<Rightarrow>
        (let description = trim_end (\<lambda>c. c = 0 \<or> is_ascii_whitespace c) text
         in case List.find (\<lambda>(_, c). is_control c) (char_indices 0 description) of
              Some (byte_offset, c) \<Rightarrow> Err (VersionDescriptionControl byte_offset c)
            | None \<Rightarrow> Ok description))"

definition VersionResponse_parse :: "bytes \<Rightarrow> MmdvmError + VersionResponse" where
  "VersionResponse_parse payload =
     (case get 0 payload of None \<Rightarrow> Err InvalidVersionResponse
      | Some b \<Rightarrow> (case ProtocolVersion_try_from b of Err e \<Rightarrow> Err e
        | Ok protocol \<Rightarrow> (case version_layout protocol payload of Err e \<Rightarrow> Err e
          | Ok (offset, capabilities) \<Rightarrow> (case get_from offset payload of None \<Rightarrow> Err InvalidVersionResponse
            | Some raw \<Rightarrow> (case checked_description raw of Err e \<Rightarrow> Err e
              | Ok description \<Rightarrow> Ok \<lparr>vr_protocol = protocol, vr_description = description,
                                     vr_capabilities = capabilities\<rparr>)))))"

text \<open>An accepted description has no control character and no trailing padding.\<close>

lemma set_char_indices: "snd ` set (char_indices i cs) = set cs"
  by (induction cs arbitrary: i) auto

lemma checked_description_sound:
  assumes "checked_description raw = Ok d"
  shows "\<forall>c \<in> set d. \<not> is_control c" "d = [] \<or> last d \<noteq> 0x20"
proof -
  let ?P = "\<lambda>c. c = 0 \<or> is_ascii_whitespace c"
  obtain t where d: "d = trim_end ?P t"
    and f: "List.find (\<lambda>(_, c). is_control c) (char_indices 0 d) = None"
    using assms by (auto simp: checked_description_def Let_def split: sum.splits option.splits prod.splits)
  have "\<forall>x \<in> set (char_indices 0 d). \<not> is_control (snd x)" using f by (auto simp: find_None_iff)
  then show "\<forall>c \<in> set d. \<not> is_control c" using set_char_indices [of 0 d] by force
  show "d = [] \<or> last d \<noteq> 0x20" using trim_end_last [of ?P t] d by (auto simp: is_ascii_whitespace_def)
qed

lemma parse_protocol_byte: "VersionResponse_parse payload = Ok v \<Longrightarrow> get 0 payload = Some (ProtocolVersion_get (vr_protocol v))"
  by (auto simp: VersionResponse_parse_def ProtocolVersion_try_from_def
      split: option.splits sum.splits if_splits prod.splits)

section \<open>Hardware families (hw\_type.rs)\<close>

datatype HwType = HW_Mmdvm | HW_DvMega | HW_MmdvmZumSpot | HW_MmdvmHsHat | HW_MmdvmHsDualHat | HW_NanoHotspot
  | HW_NanoDv | HW_D2rgMmdvmHs | HW_MmdvmHs | HW_OpenGd77Hs | HW_SkyBridge | HW_Unknown

definition desc_starts_with :: "nat list \<Rightarrow> string \<Rightarrow> bool" where
  "desc_starts_with desc prefix \<longleftrightarrow> take (length prefix) desc = map of_char prefix"

definition HwType_from_description :: "nat list \<Rightarrow> HwType" where
  "HwType_from_description desc =
     (if desc_starts_with desc ''MMDVM '' then HW_Mmdvm
      else if desc_starts_with desc ''DVMEGA'' then HW_DvMega
      else if desc_starts_with desc ''ZUMspot'' then HW_MmdvmZumSpot
      else if desc_starts_with desc ''MMDVM_HS_Hat'' then HW_MmdvmHsHat
      else if desc_starts_with desc ''MMDVM_HS_Dual_Hat'' then HW_MmdvmHsDualHat
      else if desc_starts_with desc ''Nano_hotSPOT'' then HW_NanoHotspot
      else if desc_starts_with desc ''Nano_DV'' then HW_NanoDv
      else if desc_starts_with desc ''D2RG_MMDVM_HS'' then HW_D2rgMmdvmHs
      else if desc_starts_with desc ''MMDVM_HS-'' then HW_MmdvmHs
      else if desc_starts_with desc ''OpenGD77_HS'' then HW_OpenGd77Hs
      else if desc_starts_with desc ''SkyBridge'' then HW_SkyBridge
      else HW_Unknown)"

end
