(* ===== verification/Mmdvm_Loop.thy ===== *)
theory Mmdvm_Loop
  imports Mmdvm_Core Event_Source "HOL-Library.Multiset"
begin

text \<open>
  The modem driver of \<open>mmdvm/src/tokio_shell\<close>: the D-STAR configuration layouts, the space-gated
  transmit queue and \<open>ModemLoop\<close>. A handler takes the state and returns it with the actions it
  performed, in order: frames written to the transport, replies to requests and events for the
  consumer. What the runtime decides (the clock, whether a requester is gone, the outcome of a
  write, which branch of \<open>select!\<close> fires) is an argument. A diagnostic text is represented by the
  value it renders.
\<close>

section \<open>Errors (error.rs)\<close>

text \<open>\<open>std::io::Error\<close> by its kind and text. \<open>Task\<close> of the source stands for a join error of the
  runtime and is never produced by the loop.\<close>

datatype io_error = IoError (io_kind: string) (io_text: string)

datatype MmdvmShellError =
    SessionClosed
  | Shell_Codec MmdvmError
  | Shell_Io io_error
  | BufferFull ModemMode
  | Shell_Nak Command NakReason
  | ResponseTimeout
  | ModeChangePending
  | ConfigurationPending
  | ConfigurationProtocolMismatch ProtocolVersion ProtocolVersion
  | ReservedCommand Command

section \<open>Configuration layouts (configuration.rs)\<close>

datatype ConfigurationProfile = MmdvmV1 | MmdvmV2 | KenwoodTerminal

datatype ConfigurationError = UnsupportedProfile ConfigurationProfile | InvalidTxDelay u8

datatype TxDelay = TxDelay (TxDelay_get: u8)

definition TxDelay_new :: "u8 \<Rightarrow> TxDelay option" where
  "TxDelay_new units = (if units \<le> 50 then Some (TxDelay units) else None)"

definition TxDelay_try_from :: "u8 \<Rightarrow> ConfigurationError + TxDelay" where
  "TxDelay_try_from units = ok_or (TxDelay_new units) (InvalidTxDelay units)"

datatype SignalLevel = SignalLevel (SignalLevel_get: u8)

record SignalLevels =
  sl_receive :: SignalLevel
  sl_transmit :: SignalLevel

datatype Layout = Layout_V1 bytes | Layout_V2 bytes

datatype DstarConfiguration = DstarConfiguration Layout

definition DstarConfiguration_new ::
  "ConfigurationProfile \<Rightarrow> TxDelay \<Rightarrow> SignalLevels \<Rightarrow> ConfigurationError + DstarConfiguration" where
  "DstarConfiguration_new profile tx_delay levels =
     (case profile of
        MmdvmV1 \<Rightarrow>
          (let payload = replicate 23 0;
               payload = payload[0 := 0x80];
               payload = payload[1 := 1];
               payload = payload[2 := TxDelay_get tx_delay];
               payload = payload[4 := SignalLevel_get (sl_receive levels)];
               payload = payload[8 := 128];
               payload = payload[9 := SignalLevel_get (sl_transmit levels)];
               payload = payload[13 := 128];
               payload = payload[14 := 128]
           in Ok (DstarConfiguration (Layout_V1 payload)))
      | MmdvmV2 \<Rightarrow>
          (let payload = replicate 37 0;
               payload = payload[0 := 0x80];
               payload = payload[1 := 1];
               payload = payload[3 := TxDelay_get tx_delay];
               payload = payload[5 := 128];
               payload = payload[6 := 128];
               payload = payload[7 := SignalLevel_get (sl_receive levels)];
               payload = payload[9 := SignalLevel_get (sl_transmit levels)];
               payload = payload[28 := 128]
           in Ok (DstarConfiguration (Layout_V2 payload)))
      | KenwoodTerminal \<Rightarrow> Err (UnsupportedProfile profile))"

fun DstarConfiguration_protocol :: "DstarConfiguration \<Rightarrow> ProtocolVersion" where
  "DstarConfiguration_protocol (DstarConfiguration (Layout_V1 _)) = V1"
| "DstarConfiguration_protocol (DstarConfiguration (Layout_V2 _)) = V2"

fun DstarConfiguration_payload :: "DstarConfiguration \<Rightarrow> bytes" where
  "DstarConfiguration_payload (DstarConfiguration (Layout_V1 payload)) = payload"
| "DstarConfiguration_payload (DstarConfiguration (Layout_V2 payload)) = payload"

text \<open>The array types fix the payload length.\<close>

definition layout_len :: "ProtocolVersion \<Rightarrow> nat" where
  "layout_len v = (case v of V1 \<Rightarrow> 23 | V2 \<Rightarrow> 37)"

definition DstarConfiguration_wf :: "DstarConfiguration \<Rightarrow> bool" where
  "DstarConfiguration_wf c \<longleftrightarrow> length (DstarConfiguration_payload c) = layout_len (DstarConfiguration_protocol c)"

lemma layout_len_le: "layout_len v \<le> 37"
  by (simp add: layout_len_def split: ProtocolVersion.splits)

lemma DstarConfiguration_new_wf:
  "DstarConfiguration_new profile d l = Ok c \<Longrightarrow> DstarConfiguration_wf c"
  by (auto simp: DstarConfiguration_new_def DstarConfiguration_wf_def layout_len_def Let_def
      split: ConfigurationProfile.splits)

section \<open>The transmit queue (tx\_queue.rs)\<close>

definition DSTAR_HEADER_SLOTS :: u8 where "DSTAR_HEADER_SLOTS = 4"
definition DSTAR_DATA_SLOTS :: u8 where "DSTAR_DATA_SLOTS = 1"
definition DSTAR_EOT_SLOTS :: u8 where "DSTAR_EOT_SLOTS = 1"
definition MAX_TX_QUEUE_FRAMES :: nat where "MAX_TX_QUEUE_FRAMES = 64"

lemmas slot_consts = DSTAR_HEADER_SLOTS_def DSTAR_DATA_SLOTS_def DSTAR_EOT_SLOTS_def

record QueuedFrame =
  qf_command :: Command
  qf_payload :: bytes
  qf_slots_required :: u8
  qf_mode :: ModemMode

datatype TxQueueFull = TxQueueFull

datatype TxQueue = TxQueue (tq_dstar: "QueuedFrame list")

definition TxQueue_new :: TxQueue where "TxQueue_new = TxQueue []"

definition TxQueue_push :: "QueuedFrame \<Rightarrow> TxQueue \<Rightarrow> (TxQueueFull + unit) \<times> TxQueue" where
  "TxQueue_push frame q =
     (if length (tq_dstar q) \<ge> MAX_TX_QUEUE_FRAMES then (Err TxQueueFull, q)
      else (Ok (), TxQueue (tq_dstar q @ [frame])))"

definition push_dstar_header :: "bytes \<Rightarrow> TxQueue \<Rightarrow> (TxQueueFull + unit) \<times> TxQueue" where
  "push_dstar_header bs = TxQueue_push \<lparr>qf_command = DSTAR_HEADER, qf_payload = bs,
     qf_slots_required = DSTAR_HEADER_SLOTS, qf_mode = Mode_Dstar\<rparr>"

definition push_dstar_data :: "bytes \<Rightarrow> TxQueue \<Rightarrow> (TxQueueFull + unit) \<times> TxQueue" where
  "push_dstar_data bs = TxQueue_push \<lparr>qf_command = DSTAR_DATA, qf_payload = bs,
     qf_slots_required = DSTAR_DATA_SLOTS, qf_mode = Mode_Dstar\<rparr>"

definition push_dstar_eot :: "TxQueue \<Rightarrow> (TxQueueFull + unit) \<times> TxQueue" where
  "push_dstar_eot = TxQueue_push \<lparr>qf_command = DSTAR_EOT, qf_payload = [],
     qf_slots_required = DSTAR_EOT_SLOTS, qf_mode = Mode_Dstar\<rparr>"

definition pop_if_space_allows :: "u8 \<Rightarrow> TxQueue \<Rightarrow> QueuedFrame option \<times> TxQueue" where
  "pop_if_space_allows dstar_space q =
     (case tq_dstar q of [] \<Rightarrow> (None, q)
      | frame # rest \<Rightarrow> if dstar_space > qf_slots_required frame then (Some frame, TxQueue rest) else (None, q))"

definition TxQueue_is_empty :: "TxQueue \<Rightarrow> bool" where "TxQueue_is_empty q \<longleftrightarrow> tq_dstar q = []"
definition TxQueue_len :: "TxQueue \<Rightarrow> nat" where "TxQueue_len q = length (tq_dstar q)"

section \<open>Requests and events (command.rs, event.rs)\<close>

text \<open>A \<open>oneshot::Sender\<close> is named by a number; \<open>Ok(())\<close> is the reply \<open>None\<close>.\<close>

type_synonym reply_id = nat

datatype Request =
    ConfigureDstar DstarConfiguration instant reply_id
  | Req_GetVersion reply_id
  | Req_GetStatus reply_id
  | SetMode ModemMode instant reply_id
  | SendDStarHeader bytes reply_id
  | SendDStarData bytes reply_id
  | SendDStarEot reply_id
  | SendRaw MmdvmFrame reply_id
  | Shutdown reply_id

datatype violation =
    Codec_violation MmdvmError
  | Status_before_version
  | Ack_needs_command
  | Nak_needs_reason
  | Header_length nat
  | Data_length nat

datatype MmdvmEvent =
    Ev_Version VersionResponse
  | Ev_Status ModemStatus
  | Ev_Ack Command
  | Ev_Nak Command NakReason
  | DstarHeaderRx bytes
  | DstarDataRx bytes
  | DstarLost
  | DstarEot
  | Ev_Debug Command bytes
  | SerialData bytes
  | TransparentData bytes
  | UnhandledResponse Command bytes
  | TransportClosed
  | Ev_Fatal MmdvmShellError
  | TxDropped nat
  | EventsDropped nat
  | Ev_ProtocolViolation Command violation

datatype act =
    Wrote MmdvmFrame
  | Failed MmdvmFrame
  | Replied reply_id "MmdvmShellError option"
  | Emitted MmdvmEvent

section \<open>The modem loop (modem\_loop.rs)\<close>

definition WRITE_TIMEOUT :: duration where "WRITE_TIMEOUT = from_secs 5"
definition SHUTDOWN_FLUSH_TIMEOUT :: duration where "SHUTDOWN_FLUSH_TIMEOUT = from_secs 2"
definition RX_BUFFER_HARD_CAP :: nat where "RX_BUFFER_HARD_CAP = 8 * 1024"

datatype PendingConfiguration =
    WaitingVersion DstarConfiguration instant reply_id
  | PC_Written reply_id

record ModemLoop =
  ml_rx_buffer :: bytes
  ml_tx_queue :: TxQueue
  ml_dstar_space :: u8
  ml_protocol_version :: "ProtocolVersion option"
  ml_shutting_down :: bool
  ml_flush_deadline :: "instant option"
  ml_pending_set_mode :: "reply_id option"
  ml_pending_configuration :: "PendingConfiguration option"

definition ModemLoop_new :: ModemLoop where
  "ModemLoop_new = \<lparr>ml_rx_buffer = [], ml_tx_queue = TxQueue_new, ml_dstar_space = 0,
     ml_protocol_version = None, ml_shutting_down = False, ml_flush_deadline = None,
     ml_pending_set_mode = None, ml_pending_configuration = None\<rparr>"

text \<open>What a handler observes of its surroundings: the clock, which requesters are gone, and what
  becomes of the one write it may perform (within \<^const>\<open>WRITE_TIMEOUT\<close>, or not).\<close>

datatype write_outcome = Write_done | Write_error io_error | Write_stalled

record moment =
  mo_now :: instant
  mo_closed :: "reply_id \<Rightarrow> bool"
  mo_write :: write_outcome

definition write_frame :: "write_outcome \<Rightarrow> MmdvmFrame \<Rightarrow> (io_error + unit) \<times> act list" where
  "write_frame w frame =
     (case w of Write_done \<Rightarrow> (Ok (), [Wrote frame])
      | Write_error e \<Rightarrow> (Err e, [Failed frame])
      | Write_stalled \<Rightarrow> (Err (IoError ''TimedOut'' ''transport write timed out after 5s''), [Failed frame]))"

definition write_for_request ::
  "write_outcome \<Rightarrow> MmdvmFrame \<Rightarrow> reply_id \<Rightarrow> (MmdvmShellError + reply_id) \<times> act list" where
  "write_for_request w frame reply =
     (case write_frame w frame of
        (Err e, acts) \<Rightarrow>
          (let fatal = IoError (io_kind e) (io_text e)
           in (Err (Shell_Io fatal), acts @ [Replied reply (Some (Shell_Io e))]))
      | (Ok _, acts) \<Rightarrow> (Ok reply, acts))"

definition protocol_violation :: "Command \<Rightarrow> violation \<Rightarrow> act list" where
  "protocol_violation command detail = [Emitted (Ev_ProtocolViolation command detail)]"

definition emit_dstar_header :: "bytes \<Rightarrow> act list" where
  "emit_dstar_header payload =
     (if length payload = 41 then [Emitted (DstarHeaderRx payload)]
      else protocol_violation DSTAR_HEADER (Header_length (length payload)))"

definition emit_dstar_data :: "bytes \<Rightarrow> act list" where
  "emit_dstar_data payload =
     (if length payload = 12 then [Emitted (DstarDataRx payload)]
      else protocol_violation DSTAR_DATA (Data_length (length payload)))"

definition handle_version :: "bytes \<Rightarrow> ModemLoop \<Rightarrow> ModemLoop \<times> act list" where
  "handle_version payload s =
     (case VersionResponse_parse payload of
        Ok v \<Rightarrow> (s\<lparr>ml_protocol_version := Some (vr_protocol v), ml_dstar_space := 0\<rparr>, [Emitted (Ev_Version v)])
      | Err e \<Rightarrow> (s, protocol_violation GET_VERSION (Codec_violation e)))"

definition handle_status :: "bytes \<Rightarrow> ModemLoop \<Rightarrow> ModemLoop \<times> act list" where
  "handle_status payload s =
     (case ml_protocol_version s of
        None \<Rightarrow> (s, protocol_violation GET_STATUS Status_before_version)
      | Some protocol \<Rightarrow>
        (case (case protocol of V1 \<Rightarrow> parse_v1 payload | V2 \<Rightarrow> parse_v2 payload) of
           Ok st \<Rightarrow> (s\<lparr>ml_dstar_space := ms_dstar_space st\<rparr>, [Emitted (Ev_Status st)])
         | Err e \<Rightarrow> (s, protocol_violation GET_STATUS (Codec_violation e))))"

definition complete_configuration :: "MmdvmShellError option \<Rightarrow> ModemLoop \<Rightarrow> ModemLoop \<times> act list" where
  "complete_configuration result s =
     (case ml_pending_configuration s of
        Some (PC_Written reply) \<Rightarrow> (s\<lparr>ml_pending_configuration := None\<rparr>, [Replied reply result])
      | pending \<Rightarrow> (s\<lparr>ml_pending_configuration := pending\<rparr>, []))"

definition complete_set_mode :: "MmdvmShellError option \<Rightarrow> ModemLoop \<Rightarrow> ModemLoop \<times> act list" where
  "complete_set_mode result s =
     (case ml_pending_set_mode s of
        Some reply \<Rightarrow> (s\<lparr>ml_pending_set_mode := None\<rparr>, [Replied reply result])
      | None \<Rightarrow> (s, []))"

text \<open>The correlated part of an answer to \<open>SET_MODE\<close> or \<open>SET_CONFIG\<close>.\<close>

definition resolve :: "Command \<Rightarrow> MmdvmShellError option \<Rightarrow> ModemLoop \<Rightarrow> ModemLoop \<times> act list" where
  "resolve command result s =
     (let (s, a) = (if command = SET_MODE then complete_set_mode result s else (s, []));
          (s, b) = (if command = SET_CONFIG then complete_configuration result s else (s, []))
      in (s, a @ b))"

definition dispatch_ack :: "bytes \<Rightarrow> ModemLoop \<Rightarrow> ModemLoop \<times> act list" where
  "dispatch_ack payload s =
     (case payload of
        [cmd] \<Rightarrow> (let command = Command cmd; (s, a) = resolve command None s
                  in (s, a @ [Emitted (Ev_Ack command)]))
      | _ \<Rightarrow> (s, protocol_violation ACK Ack_needs_command))"

definition dispatch_nak :: "bytes \<Rightarrow> ModemLoop \<Rightarrow> ModemLoop \<times> act list" where
  "dispatch_nak payload s =
     (case payload of
        [cmd, r] \<Rightarrow> (let command = Command cmd; reason = NakReason_from_byte r;
                         (s, a) = resolve command (Some (Shell_Nak command reason)) s
                     in (s, a @ [Emitted (Ev_Nak command reason)]))
      | _ \<Rightarrow> (s, protocol_violation NAK Nak_needs_reason))"

definition dispatch_frame :: "MmdvmFrame \<Rightarrow> ModemLoop \<Rightarrow> ModemLoop \<times> act list" where
  "dispatch_frame frame s =
     (let command = mf_command frame; payload = mf_payload frame in
      if command = GET_VERSION then handle_version payload s
      else if command = GET_STATUS then handle_status payload s
      else if command = ACK then dispatch_ack payload s
      else if command = NAK then dispatch_nak payload s
      else if command = DSTAR_HEADER then (s, emit_dstar_header payload)
      else if command = DSTAR_DATA then (s, emit_dstar_data payload)
      else if command = DSTAR_LOST then (s, [Emitted DstarLost])
      else if command = DSTAR_EOT then (s, [Emitted DstarEot])
      else if command \<in> set [DEBUG1, DEBUG2, DEBUG3, DEBUG4, DEBUG5, DEBUG_DUMP]
      then (s, [Emitted (Ev_Debug command payload)])
      else if command = SERIAL_DATA then (s, [Emitted (SerialData payload)])
      else if command = TRANSPARENT then (s, [Emitted (TransparentData payload)])
      else (s, [Emitted (UnhandledResponse command payload)]))"

definition resync_rx_buffer :: "bytes \<Rightarrow> bytes" where
  "resync_rx_buffer buf =
     (case position (\<lambda>b. b = MMDVM_FRAME_START) (drop 1 buf) of
        Some offset \<Rightarrow> drop (offset + 1) buf
      | None \<Rightarrow> [])"

lemma resync_shorter: "buf \<noteq> [] \<Longrightarrow> length (resync_rx_buffer buf) < length buf"
  by (auto simp: resync_rx_buffer_def split: option.splits)

lemma resolve_rx: "resolve c r s = (s', a) \<Longrightarrow> ml_rx_buffer s' = ml_rx_buffer s"
  by (auto simp: resolve_def complete_set_mode_def complete_configuration_def
      split: option.splits PendingConfiguration.splits if_splits)

lemma dispatch_frame_rx:
  assumes "dispatch_frame f s = (s', a)"
  shows "ml_rx_buffer s' = ml_rx_buffer s"
proof -
  have "dispatch_ack p s = (s', a) \<Longrightarrow> ml_rx_buffer s' = ml_rx_buffer s"
       "dispatch_nak p s = (s', a) \<Longrightarrow> ml_rx_buffer s' = ml_rx_buffer s" for p
    by (auto simp: dispatch_ack_def dispatch_nak_def Let_def dest!: resolve_rx split: list.splits prod.splits)
  moreover have "handle_version p s = (s', a) \<Longrightarrow> ml_rx_buffer s' = ml_rx_buffer s"
       "handle_status p s = (s', a) \<Longrightarrow> ml_rx_buffer s' = ml_rx_buffer s" for p
    by (auto simp: handle_version_def handle_status_def split: sum.splits option.splits)
  ultimately show ?thesis using assms by (auto simp: dispatch_frame_def Let_def split: if_splits)
qed

lemma from_bytes_Err_nonempty: "MmdvmFrame_from_bytes buf = Err e \<Longrightarrow> buf \<noteq> []"
  by (auto simp: MmdvmFrame_from_bytes_def frame_extent_def)

function drain_rx :: "ModemLoop \<Rightarrow> ModemLoop \<times> act list" where
  "drain_rx s =
     (case MmdvmFrame_from_bytes (ml_rx_buffer s) of
        Ok (Some (frame, consumed)) \<Rightarrow>
          (let (s, a) = dispatch_frame frame (s\<lparr>ml_rx_buffer := drop consumed (ml_rx_buffer s)\<rparr>);
               (s, b) = drain_rx s
           in (s, a @ b))
      | Ok None \<Rightarrow>
          (if length (ml_rx_buffer s) > RX_BUFFER_HARD_CAP then (s\<lparr>ml_rx_buffer := []\<rparr>, []) else (s, []))
      | Err e \<Rightarrow> drain_rx (s\<lparr>ml_rx_buffer := resync_rx_buffer (ml_rx_buffer s)\<rparr>))"
  by pat_completeness auto
termination
proof (relation "measure (\<lambda>s. length (ml_rx_buffer s))")
  fix s :: ModemLoop and z p f n x s' a
  assume h: "MmdvmFrame_from_bytes (ml_rx_buffer s) = Ok z" "z = Some p" "(f, n) = p"
    "x = dispatch_frame f (s\<lparr>ml_rx_buffer := drop n (ml_rx_buffer s)\<rparr>)" "(s', a) = x"
  then have "MmdvmFrame_from_bytes (ml_rx_buffer s) = Ok (Some (f, n))" by simp
  then have "3 \<le> n" "n \<le> length (ml_rx_buffer s)" by (auto dest: from_bytes_Some)
  moreover have "ml_rx_buffer s' = drop n (ml_rx_buffer s)"
    using dispatch_frame_rx [of f "s\<lparr>ml_rx_buffer := drop n (ml_rx_buffer s)\<rparr>" s' a] h by simp
  ultimately show "(s', s) \<in> measure (\<lambda>s. length (ml_rx_buffer s))" by simp
qed (auto intro: resync_shorter dest: from_bytes_Err_nonempty)

declare drain_rx.simps [simp del]

text \<open>\<open>map_err\<close> of a refused submission, and its reply.\<close>

definition buffer_full_reply :: "reply_id \<Rightarrow> TxQueueFull + unit \<Rightarrow> act list" where
  "buffer_full_reply reply r = [Replied reply (case r of Err _ \<Rightarrow> Some (BufferFull Mode_Dstar) | Ok _ \<Rightarrow> None)]"

definition write_and_reply :: "write_outcome \<Rightarrow> MmdvmFrame \<Rightarrow> reply_id \<Rightarrow> ModemLoop \<Rightarrow>
    (MmdvmShellError + unit) \<times> ModemLoop \<times> act list" where
  "write_and_reply w frame reply s =
     (case write_for_request w frame reply of
        (Err e, acts) \<Rightarrow> (Err e, s, acts)
      | (Ok reply, acts) \<Rightarrow> (Ok (), s, acts @ [Replied reply None]))"

fun apply_command :: "moment \<Rightarrow> Request \<Rightarrow> ModemLoop \<Rightarrow> (MmdvmShellError + unit) \<times> ModemLoop \<times> act list" where
  "apply_command m (ConfigureDstar configuration deadline reply) s =
     (if ml_pending_configuration s \<noteq> None then (Ok (), s, [Replied reply (Some ConfigurationPending)])
      else (Ok (), s\<lparr>ml_pending_configuration := Some (WaitingVersion configuration deadline reply)\<rparr>, []))"
| "apply_command m (Req_GetVersion reply) s = write_and_reply (mo_write m) (MmdvmFrame_new GET_VERSION) reply s"
| "apply_command m (Req_GetStatus reply) s = write_and_reply (mo_write m) (MmdvmFrame_new GET_STATUS) reply s"
| "apply_command m (SetMode mode deadline reply) s =
     (if ml_pending_set_mode s \<noteq> None then (Ok (), s, [Replied reply (Some ModeChangePending)])
      else if mo_closed m reply \<or> deadline \<le> mo_now m then (Ok (), s, [Replied reply (Some ResponseTimeout)])
      else (case with_payload SET_MODE [ModemMode_as_byte mode] of
              Err e \<Rightarrow> (Err (Shell_Codec e), s, [])
            | Ok frame \<Rightarrow>
              (case write_for_request (mo_write m) frame reply of
                 (Err e, acts) \<Rightarrow> (Err e, s, acts)
               | (Ok reply, acts) \<Rightarrow> (Ok (), s\<lparr>ml_pending_set_mode := Some reply\<rparr>, acts))))"
| "apply_command m (SendDStarHeader bs reply) s =
     (let (r, q) = push_dstar_header bs (ml_tx_queue s)
      in (Ok (), s\<lparr>ml_tx_queue := q\<rparr>, buffer_full_reply reply r))"
| "apply_command m (SendDStarData bs reply) s =
     (let (r, q) = push_dstar_data bs (ml_tx_queue s)
      in (Ok (), s\<lparr>ml_tx_queue := q\<rparr>, buffer_full_reply reply r))"
| "apply_command m (SendDStarEot reply) s =
     (let (r, q) = push_dstar_eot (ml_tx_queue s)
      in (Ok (), s\<lparr>ml_tx_queue := q\<rparr>, buffer_full_reply reply r))"
| "apply_command m (SendRaw frame reply) s = write_and_reply (mo_write m) frame reply s"
| "apply_command m (Shutdown reply) s =
     (Ok (), s\<lparr>ml_shutting_down := True, ml_flush_deadline := Some (mo_now m + SHUTDOWN_FLUSH_TIMEOUT)\<rparr>,
      [Replied reply None])"

definition dispatch_configuration :: "moment \<Rightarrow> ModemLoop \<Rightarrow> (MmdvmShellError + unit) \<times> ModemLoop \<times> act list" where
  "dispatch_configuration m s =
     (case ml_pending_configuration s of
        Some (WaitingVersion configuration deadline reply) \<Rightarrow>
          (let s = s\<lparr>ml_pending_configuration := None\<rparr> in
           if mo_closed m reply \<or> deadline \<le> mo_now m
           then (Ok (), s, [Replied reply (Some ResponseTimeout)])
           else (case ml_protocol_version s of
              Some got \<Rightarrow>
                (let expected = DstarConfiguration_protocol configuration in
                 if expected = got
                 then (case with_payload SET_CONFIG (DstarConfiguration_payload configuration) of
                         Err e \<Rightarrow> (Err (Shell_Codec e), s, [])
                       | Ok frame \<Rightarrow>
                         (case write_for_request (mo_write m) frame reply of
                            (Err e, acts) \<Rightarrow> (Err e, s, acts)
                          | (Ok reply, acts) \<Rightarrow>
                              (Ok (), s\<lparr>ml_pending_configuration := Some (PC_Written reply)\<rparr>, acts)))
                 else (Ok (), s, [Replied reply (Some (ConfigurationProtocolMismatch expected got))]))
            | None \<Rightarrow>
                (Ok (), s\<lparr>ml_pending_configuration := Some (WaitingVersion configuration deadline reply)\<rparr>, [])))
      | _ \<Rightarrow> (Ok (), s, []))"

definition u8_saturating_sub :: "u8 \<Rightarrow> u8 \<Rightarrow> u8" where
  "u8_saturating_sub a b = (if b \<le> a then a - b else 0)"

definition drain_tx_queue :: "moment \<Rightarrow> ModemLoop \<Rightarrow> (MmdvmShellError + unit) \<times> ModemLoop \<times> act list" where
  "drain_tx_queue m s =
     (case pop_if_space_allows (ml_dstar_space s) (ml_tx_queue s) of
        (None, q) \<Rightarrow> (Ok (), s\<lparr>ml_tx_queue := q\<rparr>, [])
      | (Some frame, q) \<Rightarrow>
        (let s = s\<lparr>ml_tx_queue := q\<rparr> in
         case with_payload (qf_command frame) (qf_payload frame) of
           Err e \<Rightarrow> (Err (Shell_Codec e), s, [])
         | Ok wire \<Rightarrow>
           (case write_frame (mo_write m) wire of
              (Err e, acts) \<Rightarrow> (Err (Shell_Io e), s, acts)
            | (Ok _, acts) \<Rightarrow>
                (Ok (), s\<lparr>ml_dstar_space := u8_saturating_sub (ml_dstar_space s) (qf_slots_required frame)\<rparr>, acts))))"

text \<open>
  One turn of the loop: the waiting configuration, the shutdown test, then the branch of
  \<open>select!\<close> that fires. A turn ends the loop or goes on.
\<close>

datatype branch =
    On_command "Request option"
  | On_status_tick
  | On_playout_tick
  | On_read "io_error + bytes"

record turn =
  tn_configure :: moment
  tn_check :: instant
  tn_branch :: branch
  tn_moment :: moment

datatype flow = Continue | Exit "MmdvmShellError option"

definition flow_of :: "MmdvmShellError + unit \<Rightarrow> flow" where
  "flow_of r = (case r of Err e \<Rightarrow> Exit (Some e) | Ok _ \<Rightarrow> Continue)"

fun select_branch :: "moment \<Rightarrow> branch \<Rightarrow> ModemLoop \<Rightarrow> flow \<times> ModemLoop \<times> act list" where
  "select_branch m (On_command None) s = (Exit None, s, [])"
| "select_branch m (On_command (Some cmd)) s = (let (r, s, acts) = apply_command m cmd s in (flow_of r, s, acts))"
| "select_branch m On_status_tick s =
     (case write_frame (mo_write m) (MmdvmFrame_new GET_STATUS) of
        (Err e, acts) \<Rightarrow> (Exit (Some (Shell_Io e)), s, acts)
      | (Ok _, acts) \<Rightarrow> (Continue, s, acts))"
| "select_branch m On_playout_tick s = (let (r, s, acts) = drain_tx_queue m s in (flow_of r, s, acts))"
| "select_branch m (On_read (Ok bs)) s =
     (if bs = [] then (Exit None, s, [Emitted TransportClosed])
      else (let (s, acts) = drain_rx (s\<lparr>ml_rx_buffer := ml_rx_buffer s @ bs\<rparr>) in (Continue, s, acts)))"
| "select_branch m (On_read (Err e)) s = (Exit (Some (Shell_Io e)), s, [])"

definition flush_over :: "instant \<Rightarrow> ModemLoop \<Rightarrow> bool" where
  "flush_over now s \<longleftrightarrow> ml_shutting_down s \<and>
     (TxQueue_is_empty (ml_tx_queue s) \<or> is_some_and (ml_flush_deadline s) (\<lambda>deadline. deadline \<le> now))"

definition loop_turn :: "turn \<Rightarrow> ModemLoop \<Rightarrow> flow \<times> ModemLoop \<times> act list" where
  "loop_turn t s =
     (case dispatch_configuration (tn_configure t) s of
        (Err e, s, a) \<Rightarrow> (Exit (Some e), s, a)
      | (Ok _, s, a) \<Rightarrow>
        (if flush_over (tn_check t) s then (Exit None, s, a)
         else (let (f, s, b) = select_branch (tn_moment t) (tn_branch t) s in (f, s, a @ b))))"

text \<open>The loop over a sequence of turns; \<^const>\<open>Continue\<close> when it has not ended within them.\<close>

fun run_turns :: "turn list \<Rightarrow> ModemLoop \<Rightarrow> flow \<times> ModemLoop \<times> act list" where
  "run_turns [] s = (Continue, s, [])"
| "run_turns (t # ts) s =
     (case loop_turn t s of
        (Exit r, s, a) \<Rightarrow> (Exit r, s, a)
      | (Continue, s, a) \<Rightarrow> (let (f, s, b) = run_turns ts s in (f, s, a @ b)))"

definition run_inner :: "write_outcome \<Rightarrow> write_outcome \<Rightarrow> turn list \<Rightarrow> ModemLoop \<Rightarrow>
    flow \<times> ModemLoop \<times> act list" where
  "run_inner w1 w2 ts s =
     (case write_frame w1 (MmdvmFrame_new GET_VERSION) of
        (Err e, a) \<Rightarrow> (Exit (Some (Shell_Io e)), s, a)
      | (Ok _, a) \<Rightarrow>
        (case write_frame w2 (MmdvmFrame_new GET_STATUS) of
           (Err e, b) \<Rightarrow> (Exit (Some (Shell_Io e)), s, a @ b)
         | (Ok _, b) \<Rightarrow> (let (f, s, c) = run_turns ts s in (f, s, a @ b @ c))))"

text \<open>\<open>TaskCompletion\<close>: the recovered stream or the error, and the frames that were never sent.\<close>

record TaskCompletion =
  tc_result :: "MmdvmShellError option"
  tc_dropped_frames :: nat

definition modem_run :: "write_outcome \<Rightarrow> write_outcome \<Rightarrow> turn list \<Rightarrow> ModemLoop \<Rightarrow>
    TaskCompletion option \<times> ModemLoop \<times> act list" where
  "modem_run w1 w2 ts s =
     (case run_inner w1 w2 ts s of
        (Continue, s, a) \<Rightarrow> (None, s, a)
      | (Exit result, s, a) \<Rightarrow>
        (let undelivered = TxQueue_len (ml_tx_queue s);
             a = (if undelivered > 0 then a @ [Emitted (TxDropped undelivered)] else a);
             a = (case result of None \<Rightarrow> a | Some e \<Rightarrow> a @ [Emitted (Ev_Fatal e)])
         in (Some \<lparr>tc_result = result, tc_dropped_frames = undelivered\<rparr>, s, a)))"

section \<open>The handle (handle.rs)\<close>

text \<open>\<open>send_raw\<close> checks the frame before it submits it.\<close>

definition send_raw :: "Command \<Rightarrow> bytes \<Rightarrow> MmdvmShellError + MmdvmFrame" where
  "send_raw command payload =
     (if command \<in> set [SET_MODE, SET_CONFIG] then Err (ReservedCommand command)
      else (case with_payload command payload of Err e \<Rightarrow> Err (Shell_Codec e) | Ok frame \<Rightarrow> Ok frame))"

text \<open>\<open>broadcast::Receiver::recv\<close> as \<open>next_event\<close> reports it.\<close>

datatype recv_result = Received MmdvmEvent | Lagged nat | Closed

fun AsyncModem_next_event :: "recv_result \<Rightarrow> MmdvmEvent option" where
  "AsyncModem_next_event (Received e) = Some e"
| "AsyncModem_next_event (Lagged n) = Some (EventsDropped n)"
| "AsyncModem_next_event Closed = None"

end
