(* ===== verification/Mmdvm_Runs.thy ===== *)
theory Mmdvm_Runs
  imports Mmdvm_Loop
begin

text \<open>
  What the modem driver guarantees over any run: the receive path does not depend on how the serial
  line cuts the bytes, the transmit path respects the space the modem reported and keeps the order
  of submission, every request is answered once, and a shutdown ends. An invariant of the loop is a
  locale; each guarantee interprets it.
\<close>

section \<open>The receive path\<close>

text \<open>The frames a buffer holds and the bytes that remain, independent of the loop's state.\<close>

function deframe :: "bytes \<Rightarrow> MmdvmFrame list \<times> bytes" where
  "deframe buf =
     (case MmdvmFrame_from_bytes buf of
        Ok (Some (f, n)) \<Rightarrow> (let (fs, r) = deframe (drop n buf) in (f # fs, r))
      | Ok None \<Rightarrow> ([], buf)
      | Err e \<Rightarrow> deframe (resync_rx_buffer buf))"
  by pat_completeness auto
termination
proof (relation "measure length")
  fix buf z p f n
  assume "MmdvmFrame_from_bytes buf = Ok z" "z = Some p" "(f, n) = p"
  then have "MmdvmFrame_from_bytes buf = Ok (Some (f, n))" by simp
  then show "(drop n buf, buf) \<in> measure length" using from_bytes_Some(2,3) [of buf f n] by auto
qed (auto intro: resync_shorter dest: from_bytes_Err_nonempty)

declare deframe.simps [simp del]

lemma deframe_Some: "MmdvmFrame_from_bytes buf = Ok (Some (f, n)) \<Longrightarrow>
    deframe buf = (let (fs, r) = deframe (drop n buf) in (f # fs, r))"
  by (subst deframe.simps) simp

lemma deframe_None: "MmdvmFrame_from_bytes buf = Ok None \<Longrightarrow> deframe buf = ([], buf)"
  by (subst deframe.simps) simp

lemma deframe_Err: "MmdvmFrame_from_bytes buf = Err e \<Longrightarrow> deframe buf = deframe (resync_rx_buffer buf)"
  by (subst deframe.simps) simp

lemma from_bytes_Nil: "MmdvmFrame_from_bytes [] = Ok None"
  by (simp add: MmdvmFrame_from_bytes_def frame_extent_def)

lemma resync_dropWhile:
  "resync_rx_buffer buf = dropWhile (\<lambda>b. b \<noteq> MMDVM_FRAME_START) (drop 1 buf)"
proof -
  have "(case position (\<lambda>b. b = MMDVM_FRAME_START) xs of Some k \<Rightarrow> drop k xs | None \<Rightarrow> [])
      = dropWhile (\<lambda>b. b \<noteq> MMDVM_FRAME_START) xs" for xs
    by (induction xs) (auto split: option.splits)
  from this [of "drop 1 buf"] show ?thesis
    by (simp add: resync_rx_buffer_def split: option.splits)
qed

lemma deframe_skip: "deframe (dropWhile (\<lambda>b. b \<noteq> MMDVM_FRAME_START) buf) = deframe buf"
proof (cases buf)
  case (Cons b bs)
  show ?thesis
  proof (cases "b = MMDVM_FRAME_START")
    case False
    then have "MmdvmFrame_from_bytes buf = Err (InvalidStartByte b)"
      using Cons by (simp add: MmdvmFrame_from_bytes_def frame_extent_def)
    then show ?thesis using False Cons by (simp add: deframe_Err resync_dropWhile)
  qed (use Cons in simp)
qed simp

lemma deframe_append:
  "deframe (a @ b) = (let (fs, r) = deframe a; (gs, r') = deframe (r @ b) in (fs @ gs, r'))"
proof (induction a rule: deframe.induct)
  case (1 a)
  note fin = from_bytes_final [of a b]
  show ?case
  proof (cases "MmdvmFrame_from_bytes a")
    case (Inl e)
    then have ab: "deframe (a @ b) = deframe (resync_rx_buffer (a @ b))" using fin by (simp add: deframe_Err)
    obtain x a' where a: "a = x # a'" using from_bytes_Err_nonempty [OF Inl] by (cases a) auto
    show ?thesis
    proof (cases "\<exists>x \<in> set (drop 1 a). x = MMDVM_FRAME_START")
      case True
      then have "resync_rx_buffer (a @ b) = resync_rx_buffer a @ b"
        using a by (auto simp: resync_dropWhile)
      then show ?thesis using 1(1) [OF Inl] ab Inl by (simp add: deframe_Err)
    next
      case False
      then have "resync_rx_buffer (a @ b) = dropWhile (\<lambda>b. b \<noteq> MMDVM_FRAME_START) b"
        using a by (auto simp: resync_dropWhile intro!: dropWhile_append2)
      moreover have "resync_rx_buffer a = []" using False by (auto simp: resync_dropWhile)
      ultimately show ?thesis using ab Inl
        by (simp add: deframe_skip deframe_Err deframe_None [OF from_bytes_Nil] split: prod.splits)
    qed
  next
    case (Inr x)
    show ?thesis
    proof (cases x)
      case None
      then show ?thesis using Inr by (simp add: deframe_None split: prod.splits)
    next
      case (Some p)
      obtain f n where p: "p = (f, n)" by (cases p)
      then have a: "MmdvmFrame_from_bytes a = Ok (Some (f, n))" using Inr Some by simp
      then have "n \<le> length a" by (rule from_bytes_Some)
      then show ?thesis using 1(2) [OF Inr Some p [symmetric]] a fin
        by (simp add: deframe_Some split: prod.splits)
    qed
  qed
qed

lemma deframe_frames:
  assumes "\<forall>f \<in> set fs. MmdvmFrame_wf f"
  shows "deframe (concat (map MmdvmFrame_to_bytes fs)) = (fs, [])"
  using assms
proof (induction fs)
  case (Cons f fs)
  then show ?case by (simp add: deframe_Some [OF from_bytes_to_bytes])
qed (simp add: deframe_None from_bytes_Nil)

text \<open>Received frames are dispatched in order; draining the buffer is deframing and dispatching.\<close>

fun dispatch_all :: "MmdvmFrame list \<Rightarrow> ModemLoop \<Rightarrow> ModemLoop \<times> act list" where
  "dispatch_all [] s = (s, [])"
| "dispatch_all (f # fs) s = (let (s, a) = dispatch_frame f s; (s, b) = dispatch_all fs s in (s, a @ b))"

lemma dispatch_all_append:
  "dispatch_all (fs @ gs) s = (let (s, a) = dispatch_all fs s; (s, b) = dispatch_all gs s in (s, a @ b))"
  by (induction fs arbitrary: s) (auto split: prod.splits)

lemma resolve_buffer:
  "resolve c r (s\<lparr>ml_rx_buffer := q\<rparr>) = (let (s, a) = resolve c r s in (s\<lparr>ml_rx_buffer := q\<rparr>, a))"
  by (simp add: resolve_def complete_set_mode_def complete_configuration_def
      split: option.splits PendingConfiguration.splits)

lemma dispatch_frame_buffer:
  "dispatch_frame f (s\<lparr>ml_rx_buffer := q\<rparr>) = (let (s, a) = dispatch_frame f s in (s\<lparr>ml_rx_buffer := q\<rparr>, a))"
proof -
  have "dispatch_ack p (s\<lparr>ml_rx_buffer := q\<rparr>) = (let (s, a) = dispatch_ack p s in (s\<lparr>ml_rx_buffer := q\<rparr>, a))"
    "dispatch_nak p (s\<lparr>ml_rx_buffer := q\<rparr>) = (let (s, a) = dispatch_nak p s in (s\<lparr>ml_rx_buffer := q\<rparr>, a))" for p
    by (auto simp: dispatch_ack_def dispatch_nak_def resolve_buffer Let_def split: list.splits prod.splits)
  moreover have
    "handle_version p (s\<lparr>ml_rx_buffer := q\<rparr>) = (let (s, a) = handle_version p s in (s\<lparr>ml_rx_buffer := q\<rparr>, a))"
    "handle_status p (s\<lparr>ml_rx_buffer := q\<rparr>) = (let (s, a) = handle_status p s in (s\<lparr>ml_rx_buffer := q\<rparr>, a))" for p
    by (auto simp: handle_version_def handle_status_def split: sum.splits option.splits)
  ultimately show ?thesis by (simp add: dispatch_frame_def Let_def)
qed

lemma dispatch_all_buffer:
  "dispatch_all fs (s\<lparr>ml_rx_buffer := q\<rparr>) = (let (s, a) = dispatch_all fs s in (s\<lparr>ml_rx_buffer := q\<rparr>, a))"
  by (induction fs arbitrary: s) (simp_all add: dispatch_frame_buffer split: prod.splits)

lemma drain_rx_deframe:
  "drain_rx s = (let (fs, r) = deframe (ml_rx_buffer s) in dispatch_all fs (s\<lparr>ml_rx_buffer := r\<rparr>))"
proof (induction s rule: drain_rx.induct)
  case (1 s)
  let ?b = "ml_rx_buffer s"
  show ?case
  proof (cases "MmdvmFrame_from_bytes ?b")
    case (Inl e)
    then show ?thesis using 1(1) [OF Inl] by (subst drain_rx.simps) (simp add: deframe_Err)
  next
    case (Inr x)
    show ?thesis
    proof (cases x)
      case None
      then have "length ?b < 510" using Inr from_bytes_None_short by blast
      then show ?thesis using Inr None
        by (subst drain_rx.simps) (simp add: deframe_None RX_BUFFER_HARD_CAP_def)
    next
      case (Some p)
      obtain f n where p: "p = (f, n)" by (cases p)
      obtain s1 a where d: "dispatch_frame f (s\<lparr>ml_rx_buffer := drop n ?b\<rparr>) = (s1, a)" by fastforce
      have b: "ml_rx_buffer s1 = drop n ?b" using dispatch_frame_rx [OF d] by simp
      obtain fs r where fr: "deframe (drop n ?b) = (fs, r)" by fastforce
      have i: "drain_rx s1 = dispatch_all fs (s1\<lparr>ml_rx_buffer := r\<rparr>)"
        using 1(2) [OF Inr Some p [symmetric] d [symmetric] refl] b fr by simp
      obtain s2 a2 where d0: "dispatch_frame f s = (s2, a2)" by fastforce
      then have "dispatch_frame f (s\<lparr>ml_rx_buffer := r\<rparr>) = (s1\<lparr>ml_rx_buffer := r\<rparr>, a)"
        using d by (auto simp: dispatch_frame_buffer)
      then show ?thesis using Inr Some p d i fr
        by (subst drain_rx.simps) (simp add: deframe_Some split: prod.splits)
    qed
  qed
qed

text \<open>The read branch of the loop over a sequence of reads.\<close>

fun receive_chunks :: "moment \<Rightarrow> bytes list \<Rightarrow> ModemLoop \<Rightarrow> ModemLoop \<times> act list" where
  "receive_chunks m [] s = (s, [])"
| "receive_chunks m (c # cs) s =
     (let (_, s, a) = select_branch m (On_read (Ok c)) s; (s, b) = receive_chunks m cs s in (s, a @ b))"

lemma read_deframe:
  assumes "c \<noteq> []"
  shows "select_branch m (On_read (Ok c)) s = (Continue,
    (let (fs, r) = deframe (ml_rx_buffer s @ c) in dispatch_all fs (s\<lparr>ml_rx_buffer := r\<rparr>)))"
  using assms by (simp add: drain_rx_deframe split: prod.splits)

lemma deframe_rest: "deframe buf = (fs, r) \<Longrightarrow> MmdvmFrame_from_bytes r = Ok None"
proof (induction buf arbitrary: fs r rule: deframe.induct)
  case (1 buf)
  show ?case
  proof (cases "MmdvmFrame_from_bytes buf")
    case (Inl e)
    then show ?thesis using 1(1) [OF Inl] 1(3) by (simp add: deframe_Err)
  next
    case (Inr x)
    show ?thesis
    proof (cases x)
      case None
      then show ?thesis using Inr 1(3) by (auto simp: deframe_None)
    next
      case (Some p)
      obtain f n where p: "p = (f, n)" by (cases p)
      then show ?thesis using 1(2) [OF Inr Some p [symmetric]] 1(3) Inr Some
        by (auto simp: deframe_Some split: prod.splits)
    qed
  qed
qed

lemma receive_chunks_deframe:
  assumes "\<forall>c \<in> set cs. c \<noteq> []" "MmdvmFrame_from_bytes (ml_rx_buffer s) = Ok None"
  shows "receive_chunks m cs s = (let (fs, r) = deframe (ml_rx_buffer s @ concat cs)
    in dispatch_all fs (s\<lparr>ml_rx_buffer := r\<rparr>))"
  using assms
proof (induction cs arbitrary: s)
  case Nil
  then show ?case by (simp add: deframe_None)
next
  case (Cons c cs)
  obtain fs r where f: "deframe (ml_rx_buffer s @ c) = (fs, r)" by fastforce
  obtain gs r' where g: "deframe (r @ concat cs) = (gs, r')" by fastforce
  obtain s1 a where d: "dispatch_all fs s = (s1, a)" by fastforce
  have "MmdvmFrame_from_bytes r = Ok None" using f by (rule deframe_rest)
  then have i: "receive_chunks m cs (s1\<lparr>ml_rx_buffer := r\<rparr>) = dispatch_all gs (s1\<lparr>ml_rx_buffer := r'\<rparr>)"
    using Cons.IH [of "s1\<lparr>ml_rx_buffer := r\<rparr>"] Cons.prems(1) g by simp
  have "deframe (ml_rx_buffer s @ concat (c # cs)) = (fs @ gs, r')"
    using deframe_append [of "ml_rx_buffer s @ c" "concat cs"] f g by simp
  then show ?case using i f d Cons.prems(1)
    by (simp add: read_deframe dispatch_all_append dispatch_all_buffer del: select_branch.simps split: prod.splits)
qed

lemma modem_rx_chunking:
  assumes "\<forall>c \<in> set cs. c \<noteq> []" "\<forall>d \<in> set ds. d \<noteq> []" "concat cs = concat ds"
    and "MmdvmFrame_from_bytes (ml_rx_buffer s) = Ok None"
  shows "receive_chunks m cs s = receive_chunks m ds s"
  using assms by (simp add: receive_chunks_deframe)

text \<open>C14. However the serial line cuts the bytes into reads, and whatever noise without a start byte
  comes first, the modem loop dispatches exactly the frames that were sent, each once and in order,
  and keeps no byte back: the reads have the same effect as handling the frames one by one.\<close>
theorem modem_rx_stream:
  assumes "\<forall>c \<in> set chunks. c \<noteq> []"
    and "concat chunks = noise @ concat (map MmdvmFrame_to_bytes frames)"
    and "MMDVM_FRAME_START \<notin> set noise" "\<forall>f \<in> set frames. MmdvmFrame_wf f" "ml_rx_buffer s = []"
  shows "receive_chunks m chunks s = dispatch_all frames s"
proof -
  let ?w = "concat (map MmdvmFrame_to_bytes frames)"
  have "dropWhile (\<lambda>b. b \<noteq> MMDVM_FRAME_START) (noise @ ?w) = dropWhile (\<lambda>b. b \<noteq> MMDVM_FRAME_START) ?w"
    using assms(3) by (intro dropWhile_append2) auto
  then have "deframe (noise @ ?w) = deframe ?w" by (metis deframe_skip)
  then have "receive_chunks m chunks s = dispatch_all frames (s\<lparr>ml_rx_buffer := []\<rparr>)"
    using assms receive_chunks_deframe [of chunks s m] by (simp add: deframe_frames from_bytes_Nil)
  also have "s\<lparr>ml_rx_buffer := []\<rparr> = s" using assms(5) by simp
  finally show ?thesis .
qed

section \<open>Invariants of a run\<close>

text \<open>The requests and playout ticks a run handled, each with the actions it led to.\<close>

fun logged :: "branch \<Rightarrow> act list \<Rightarrow> (branch \<times> act list) list" where
  "logged (On_command (Some req)) a = [(On_command (Some req), a)]"
| "logged On_playout_tick a = [(On_playout_tick, a)]"
| "logged _ a = []"

definition turn_log :: "turn \<Rightarrow> ModemLoop \<Rightarrow> (branch \<times> act list) list" where
  "turn_log t s =
     (case dispatch_configuration (tn_configure t) s of
        (Err e, s, a) \<Rightarrow> []
      | (Ok _, s, a) \<Rightarrow>
        (if flush_over (tn_check t) s then []
         else logged (tn_branch t) (snd (snd (select_branch (tn_moment t) (tn_branch t) s)))))"

fun run_log :: "turn list \<Rightarrow> ModemLoop \<Rightarrow> (branch \<times> act list) list" where
  "run_log [] s = []"
| "run_log (t # ts) s =
     turn_log t s @ (case loop_turn t s of (Continue, s, a) \<Rightarrow> run_log ts s | _ \<Rightarrow> [])"

text \<open>An invariant of state, log and trace that every handler keeps holds after any run.\<close>

fun branch_admits :: "(Request \<Rightarrow> bool) \<Rightarrow> branch \<Rightarrow> bool" where
  "branch_admits P (On_command (Some req)) = P req"
| "branch_admits P _ = True"

fun closing_event :: "MmdvmEvent \<Rightarrow> bool" where
  "closing_event TransportClosed = True"
| "closing_event (TxDropped n) = True"
| "closing_event (Ev_Fatal e) = True"
| "closing_event _ = False"

definition modem_log :: "write_outcome \<Rightarrow> write_outcome \<Rightarrow> turn list \<Rightarrow> ModemLoop \<Rightarrow> (branch \<times> act list) list" where
  "modem_log w1 w2 ts s = (if w1 = Write_done \<and> w2 = Write_done then run_log ts s else [])"

locale modem_invariant =
  fixes inv :: "ModemLoop \<Rightarrow> (branch \<times> act list) list \<Rightarrow> act list \<Rightarrow> bool"
    and admits :: "Request \<Rightarrow> bool"
  assumes configure: "inv s log acts \<Longrightarrow> dispatch_configuration m s = (r, s', a) \<Longrightarrow> inv s' log (acts @ a)"
    and frame: "inv s log acts \<Longrightarrow> dispatch_frame f s = (s', a) \<Longrightarrow> inv s' log (acts @ a)"
    and buffer: "inv s log acts \<Longrightarrow> inv (s\<lparr>ml_rx_buffer := q\<rparr>) log acts"
    and command: "inv s log acts \<Longrightarrow> admits req \<Longrightarrow> apply_command m req s = (r, s', a) \<Longrightarrow>
      inv s' (log @ [(On_command (Some req), a)]) (acts @ a)"
    and playout: "inv s log acts \<Longrightarrow> drain_tx_queue m s = (r, s', a) \<Longrightarrow>
      inv s' (log @ [(On_playout_tick, a)]) (acts @ a)"
    and poll: "inv s log acts \<Longrightarrow> c \<in> {GET_VERSION, GET_STATUS} \<Longrightarrow>
      write_frame w (MmdvmFrame_new c) = (r', a) \<Longrightarrow> inv s log (acts @ a)"
    and closing: "inv s log acts \<Longrightarrow> closing_event e \<Longrightarrow> inv s log (acts @ [Emitted e])"
begin

lemma dispatch_all_inv:
  "inv s log acts \<Longrightarrow> dispatch_all fs s = (s', a) \<Longrightarrow> inv s' log (acts @ a)"
proof (induction fs arbitrary: s acts s' a)
  case (Cons f fs)
  obtain s1 b where d: "dispatch_frame f s = (s1, b)" by fastforce
  obtain s2 c where e: "dispatch_all fs s1 = (s2, c)" by fastforce
  have "inv s2 log ((acts @ b) @ c)" using Cons.IH [OF frame [OF Cons.prems(1) d] e] .
  then show ?case using Cons.prems(2) d e by simp
qed simp

lemma select_inv:
  assumes "inv s log acts" "branch_admits admits b" "select_branch m b s = (f, s', a)"
  shows "inv s' (log @ logged b a) (acts @ a)"
proof (cases b)
  case (On_command r)
  then show ?thesis using assms command by (cases r) (auto split: prod.splits)
next
  case On_status_tick
  then show ?thesis using assms poll [OF assms(1)] by (auto split: prod.splits sum.splits)
next
  case On_playout_tick
  then show ?thesis using assms playout by (auto split: prod.splits)
next
  case (On_read r)
  show ?thesis
  proof (cases r)
    case (Inr bs)
    show ?thesis
    proof (cases "bs = []")
      case False
      then obtain fs q where "dispatch_all fs (s\<lparr>ml_rx_buffer := q\<rparr>) = (s', a)"
        using assms(3) On_read Inr by (auto simp: drain_rx_deframe split: prod.splits)
      then show ?thesis using dispatch_all_inv [OF buffer [OF assms(1)]] On_read Inr by simp
    qed (use assms On_read Inr closing in auto)
  qed (use assms On_read in auto)
qed

lemma turn_inv:
  assumes "inv s log acts" "branch_admits admits (tn_branch t)" "loop_turn t s = (f, s', a)"
  shows "inv s' (log @ turn_log t s) (acts @ a)"
proof -
  obtain r s1 a1 where d: "dispatch_configuration (tn_configure t) s = (r, s1, a1)" by (cases rule: prod_cases3)
  have i: "inv s1 log (acts @ a1)" by (rule configure [OF assms(1) d])
  obtain g s2 a2 where e: "select_branch (tn_moment t) (tn_branch t) s1 = (g, s2, a2)" by (cases rule: prod_cases3)
  have "inv s2 (log @ logged (tn_branch t) a2) ((acts @ a1) @ a2)" by (rule select_inv [OF i assms(2) e])
  then show ?thesis using assms(3) d e i
    by (auto simp: loop_turn_def turn_log_def split: sum.splits if_splits)
qed

lemma run_inv:
  assumes "inv s log acts" "\<forall>t \<in> set ts. branch_admits admits (tn_branch t)" "run_turns ts s = (f, s', a)"
  shows "inv s' (log @ run_log ts s) (acts @ a)"
  using assms
proof (induction ts arbitrary: s log acts f s' a)
  case (Cons t ts)
  obtain g s1 a1 where d: "loop_turn t s = (g, s1, a1)" by (cases rule: prod_cases3)
  have i: "inv s1 (log @ turn_log t s) (acts @ a1)" using turn_inv [OF Cons.prems(1) _ d] Cons.prems(2) by simp
  obtain h s2 a2 where e: "run_turns ts s1 = (h, s2, a2)" by (cases rule: prod_cases3)
  have "inv s2 ((log @ turn_log t s) @ run_log ts s1) ((acts @ a1) @ a2)"
    using Cons.IH [OF i _ e] Cons.prems(2) by simp
  then show ?case using Cons.prems(3) d e i by (cases g) auto
qed simp

lemma run_inner_inv:
  assumes "inv s [] []" "\<forall>t \<in> set ts. branch_admits admits (tn_branch t)" "run_inner w1 w2 ts s = (f, s', a)"
  shows "inv s' (modem_log w1 w2 ts s) a"
proof -
  obtain r1 a1 where v: "write_frame w1 (MmdvmFrame_new GET_VERSION) = (r1, a1)" by fastforce
  obtain r2 a2 where t: "write_frame w2 (MmdvmFrame_new GET_STATUS) = (r2, a2)" by fastforce
  have i1: "inv s [] a1" using poll [OF assms(1) _ v] by simp
  have i2: "inv s [] (a1 @ a2)" using poll [OF i1 _ t] by simp
  obtain g s3 a3 where e: "run_turns ts s = (g, s3, a3)" by (cases rule: prod_cases3)
  have i3: "inv s3 (run_log ts s) ((a1 @ a2) @ a3)" using run_inv [OF i2 assms(2) e] by simp
  have w: "write_frame w x = (r, b) \<Longrightarrow> (\<exists>u. r = Ok u) \<longleftrightarrow> w = Write_done" for w x r b
    by (auto simp: write_frame_def split: write_outcome.splits)
  show ?thesis using assms(3) v t e i1 i2 i3 w [OF v] w [OF t]
    by (auto simp: run_inner_def modem_log_def split: sum.splits)
qed

lemma modem_run_inv:
  assumes "inv s [] []" "\<forall>t \<in> set ts. branch_admits admits (tn_branch t)" "modem_run w1 w2 ts s = (r, s', a)"
  shows "inv s' (modem_log w1 w2 ts s) a"
proof -
  obtain f s1 b where e: "run_inner w1 w2 ts s = (f, s1, b)" by (cases rule: prod_cases3)
  note i = run_inner_inv [OF assms(1,2) e]
  have "inv s1 (modem_log w1 w2 ts s) (b @ [Emitted (TxDropped n)])" for n by (rule closing [OF i]) simp
  then have "inv s1 (modem_log w1 w2 ts s) ((b @ [Emitted (TxDropped n)]) @ [Emitted (Ev_Fatal x)])" for n x
    by (rule closing) simp
  moreover have "inv s1 (modem_log w1 w2 ts s) (b @ [Emitted (Ev_Fatal x)])" for x by (rule closing [OF i]) simp
  ultimately show ?thesis using assms(3) e i closing [OF i]
    by (auto simp: modem_run_def Let_def split: flow.splits option.splits if_splits)
qed

end

lemma modem_run_result:
  assumes "modem_run w1 w2 ts s = (Some c, s', a)"
  shows "tc_dropped_frames c = length (tq_dstar (ml_tx_queue s'))"
    and "0 < tc_dropped_frames c \<Longrightarrow> Emitted (TxDropped (tc_dropped_frames c)) \<in> set a"
  using assms by (auto simp: modem_run_def TxQueue_len_def Let_def split: prod.splits flow.splits option.splits)

section \<open>Well-formed states\<close>

text \<open>The array types of a request, and the frames the queue can hold.\<close>

fun request_wf :: "Request \<Rightarrow> bool" where
  "request_wf (ConfigureDstar c _ _) = DstarConfiguration_wf c"
| "request_wf (SendDStarHeader bs _) = (length bs = 41)"
| "request_wf (SendDStarData bs _) = (length bs = 12)"
| "request_wf (SendRaw f _) = MmdvmFrame_wf f"
| "request_wf _ = True"

definition slots_of :: "Command \<Rightarrow> nat" where
  "slots_of c = (if c = DSTAR_HEADER then 4 else if c = DSTAR_DATA then 1 else if c = DSTAR_EOT then 1 else 0)"

definition queued_wf :: "QueuedFrame \<Rightarrow> bool" where
  "queued_wf q \<longleftrightarrow> qf_command q \<in> set [DSTAR_HEADER, DSTAR_DATA, DSTAR_EOT] \<and>
     unat (qf_slots_required q) = slots_of (qf_command q) \<and> length (qf_payload q) \<le> 41"

definition loop_wf :: "ModemLoop \<Rightarrow> bool" where
  "loop_wf s \<longleftrightarrow> length (tq_dstar (ml_tx_queue s)) \<le> MAX_TX_QUEUE_FRAMES \<and>
     (\<forall>q \<in> set (tq_dstar (ml_tx_queue s)). queued_wf q) \<and>
     (\<forall>c d r. ml_pending_configuration s = Some (WaitingVersion c d r) \<longrightarrow> DstarConfiguration_wf c)"

lemma slots_of_simps [simp]:
  "slots_of DSTAR_HEADER = 4" "slots_of DSTAR_DATA = 1" "slots_of DSTAR_EOT = 1"
  "slots_of GET_VERSION = 0" "slots_of GET_STATUS = 0" "slots_of SET_MODE = 0" "slots_of SET_CONFIG = 0"
  by (simp_all add: slots_of_def Command_defs)

lemma config_payload_ok:
  "DstarConfiguration_wf c \<Longrightarrow> with_payload SET_CONFIG (DstarConfiguration_payload c)
     = Ok \<lparr>mf_command = SET_CONFIG, mf_payload = DstarConfiguration_payload c\<rparr>"
  using layout_len_le [of "DstarConfiguration_protocol c"]
  by (intro with_payload_ok) (simp add: DstarConfiguration_wf_def)

lemma mode_payload_ok: "with_payload SET_MODE [b] = Ok \<lparr>mf_command = SET_MODE, mf_payload = [b]\<rparr>"
  by (rule with_payload_ok) simp

lemma queued_payload_ok: "queued_wf q \<Longrightarrow>
    with_payload (qf_command q) (qf_payload q) = Ok \<lparr>mf_command = qf_command q, mf_payload = qf_payload q\<rparr>"
  by (intro with_payload_ok) (simp add: queued_wf_def)

lemmas push_defs = push_dstar_header_def push_dstar_data_def push_dstar_eot_def TxQueue_push_def

lemmas write_defs = write_and_reply_def write_for_request_def write_frame_def Let_def

lemma apply_command_wf:
  assumes "loop_wf s" "request_wf req" "apply_command m req s = (r, s', a)"
  shows "loop_wf s'"
proof (cases req)
  case (ConfigureDstar c d p)
  then show ?thesis using assms by (auto simp: loop_wf_def split: if_splits)
next
  case (SetMode mode d p)
  then show ?thesis using assms
    by (auto simp: loop_wf_def mode_payload_ok write_defs split: if_splits write_outcome.splits)
next
  case (SendDStarHeader bs p)
  then show ?thesis using assms by (auto simp: loop_wf_def push_defs queued_wf_def slot_consts split: if_splits)
next
  case (SendDStarData bs p)
  then show ?thesis using assms by (auto simp: loop_wf_def push_defs queued_wf_def slot_consts split: if_splits)
next
  case (SendDStarEot p)
  then show ?thesis using assms by (auto simp: loop_wf_def push_defs queued_wf_def slot_consts split: if_splits)
qed (use assms in \<open>auto simp: loop_wf_def write_defs split: write_outcome.splits\<close>)

lemma dispatch_configuration_wf:
  "loop_wf s \<Longrightarrow> dispatch_configuration m s = (r, s', a) \<Longrightarrow> loop_wf s'"
  by (auto simp: loop_wf_def dispatch_configuration_def write_defs
      split: option.splits PendingConfiguration.splits if_splits sum.splits write_outcome.splits)

lemma resolve_parts:
  assumes "resolve c r s = (s', a)"
  shows "ml_tx_queue s' = ml_tx_queue s" "ml_dstar_space s' = ml_dstar_space s"
    "ml_protocol_version s' = ml_protocol_version s" "ml_shutting_down s' = ml_shutting_down s"
    "ml_flush_deadline s' = ml_flush_deadline s"
    "ml_pending_set_mode s' = (if c = SET_MODE then None else ml_pending_set_mode s)"
    "ml_pending_configuration s' = (case ml_pending_configuration s of
       Some (PC_Written p) \<Rightarrow> if c = SET_CONFIG then None else ml_pending_configuration s | q \<Rightarrow> q)"
  using assms by (auto simp: resolve_def complete_set_mode_def complete_configuration_def
      split: option.splits PendingConfiguration.splits if_splits)

lemma dispatch_frame_wf:
  assumes "loop_wf s" "dispatch_frame f s = (s', a)"
  shows "loop_wf s'"
proof -
  have r: "resolve c r s = (s1, b) \<Longrightarrow> loop_wf s1" for c r s1 b
    using assms(1) by (auto simp: loop_wf_def resolve_parts split: option.splits PendingConfiguration.splits if_splits)
  then have "dispatch_ack p s = (s', a) \<Longrightarrow> loop_wf s'" "dispatch_nak p s = (s', a) \<Longrightarrow> loop_wf s'" for p
    using assms(1) by (auto simp: dispatch_ack_def dispatch_nak_def Let_def split: list.splits prod.splits)
  moreover have "handle_version p s = (s', a) \<Longrightarrow> loop_wf s'" "handle_status p s = (s', a) \<Longrightarrow> loop_wf s'" for p
    using assms(1) by (auto simp: loop_wf_def handle_version_def handle_status_def split: sum.splits option.splits)
  ultimately show ?thesis using assms by (auto simp: dispatch_frame_def Let_def split: if_splits)
qed

lemma drain_tx_queue_wf:
  "loop_wf s \<Longrightarrow> drain_tx_queue m s = (r, s', a) \<Longrightarrow> loop_wf s'"
  by (auto simp: loop_wf_def drain_tx_queue_def pop_if_space_allows_def Let_def
      split: list.splits if_splits sum.splits prod.splits)

lemma loop_wf_buffer: "loop_wf (s\<lparr>ml_rx_buffer := q\<rparr>) = loop_wf s"
  by (simp add: loop_wf_def)

lemma loop_wf_new: "loop_wf ModemLoop_new"
  by (simp add: loop_wf_def ModemLoop_new_def TxQueue_new_def)

section \<open>Every request is answered once\<close>

fun request_reply :: "Request \<Rightarrow> reply_id" where
  "request_reply (ConfigureDstar _ _ r) = r"
| "request_reply (Req_GetVersion r) = r"
| "request_reply (Req_GetStatus r) = r"
| "request_reply (SetMode _ _ r) = r"
| "request_reply (SendDStarHeader _ r) = r"
| "request_reply (SendDStarData _ r) = r"
| "request_reply (SendDStarEot r) = r"
| "request_reply (SendRaw _ r) = r"
| "request_reply (Shutdown r) = r"

fun asked :: "(branch \<times> act list) list \<Rightarrow> reply_id multiset" where
  "asked [] = {#}"
| "asked ((On_command (Some req), _) # log) = add_mset (request_reply req) (asked log)"
| "asked (_ # log) = asked log"

fun replied :: "act list \<Rightarrow> reply_id multiset" where
  "replied [] = {#}"
| "replied (Replied r _ # acts) = add_mset r (replied acts)"
| "replied (_ # acts) = replied acts"

definition awaiting :: "ModemLoop \<Rightarrow> reply_id multiset" where
  "awaiting s = (case ml_pending_set_mode s of None \<Rightarrow> {#} | Some r \<Rightarrow> {#r#}) +
     (case ml_pending_configuration s of None \<Rightarrow> {#} | Some (WaitingVersion _ _ r) \<Rightarrow> {#r#}
      | Some (PC_Written r) \<Rightarrow> {#r#})"

lemma asked_append: "asked (xs @ ys) = asked xs + asked ys"
  by (induction xs rule: asked.induct) auto

lemma replied_append: "replied (xs @ ys) = replied xs + replied ys"
  by (induction xs rule: replied.induct) auto

definition replies_exact :: "ModemLoop \<Rightarrow> (branch \<times> act list) list \<Rightarrow> act list \<Rightarrow> bool" where
  "replies_exact s log acts \<longleftrightarrow> loop_wf s \<and> replied acts + awaiting s = asked log"

lemma configure_replies:
  assumes "loop_wf s" "dispatch_configuration m s = (r, s', a)"
  shows "replied a + awaiting s' = awaiting s"
proof (cases "ml_pending_configuration s")
  case (Some p)
  show ?thesis
  proof (cases p)
    case (WaitingVersion c d q)
    then have "DstarConfiguration_wf c" using assms(1) Some by (auto simp: loop_wf_def)
    then show ?thesis using assms(2) Some WaitingVersion
      by (auto simp: dispatch_configuration_def awaiting_def config_payload_ok write_defs
          split: if_splits option.splits write_outcome.splits)
  qed (use assms(2) Some in \<open>auto simp: dispatch_configuration_def awaiting_def\<close>)
qed (use assms(2) in \<open>auto simp: dispatch_configuration_def awaiting_def\<close>)

lemma command_replies:
  assumes "apply_command m req s = (r, s', a)"
  shows "replied a + awaiting s' = add_mset (request_reply req) (awaiting s)"
  using assms
  by (cases req) (auto simp: awaiting_def mode_payload_ok write_defs buffer_full_reply_def push_defs
      split: if_splits write_outcome.splits option.splits prod.splits)

lemma resolve_replies: "resolve c r s = (s', a) \<Longrightarrow> replied a + awaiting s' = awaiting s"
  by (auto simp: resolve_def complete_set_mode_def complete_configuration_def awaiting_def replied_append
      split: option.splits PendingConfiguration.splits if_splits)

lemma frame_replies:
  assumes "dispatch_frame f s = (s', a)"
  shows "replied a + awaiting s' = awaiting s"
proof -
  have "dispatch_ack p s = (s', a) \<Longrightarrow> replied a + awaiting s' = awaiting s"
    "dispatch_nak p s = (s', a) \<Longrightarrow> replied a + awaiting s' = awaiting s" for p
    by (auto simp: dispatch_ack_def dispatch_nak_def Let_def replied_append protocol_violation_def
        dest!: resolve_replies split: list.splits prod.splits)
  moreover have "handle_version p s = (s', a) \<Longrightarrow> replied a + awaiting s' = awaiting s"
    "handle_status p s = (s', a) \<Longrightarrow> replied a + awaiting s' = awaiting s" for p
    by (auto simp: handle_version_def handle_status_def awaiting_def protocol_violation_def
        split: sum.splits option.splits)
  moreover have "replied (emit_dstar_header p) = {#}" "replied (emit_dstar_data p) = {#}" for p
    by (simp_all add: emit_dstar_header_def emit_dstar_data_def protocol_violation_def)
  ultimately show ?thesis using assms by (auto simp: dispatch_frame_def Let_def split: if_splits)
qed

lemma drain_replies: "drain_tx_queue m s = (r, s', a) \<Longrightarrow> replied a = {#} \<and> awaiting s' = awaiting s"
  by (auto simp: drain_tx_queue_def awaiting_def write_defs split: prod.splits option.splits sum.splits write_outcome.splits)

lemma write_frame_replies: "write_frame w f = (r, a) \<Longrightarrow> replied a = {#}"
  by (auto simp: write_frame_def split: write_outcome.splits)

interpretation replies: modem_invariant replies_exact request_wf
proof
  fix s log acts m r s' a
  assume i: "replies_exact s log acts"
  { assume d: "dispatch_configuration m s = (r, s', a)"
    then show "replies_exact s' log (acts @ a)"
      using i configure_replies [OF _ d] dispatch_configuration_wf [OF _ d]
      by (simp add: replies_exact_def replied_append add.assoc) }
  { fix f assume d: "dispatch_frame f s = (s', a)"
    then show "replies_exact s' log (acts @ a)"
      using i frame_replies [OF d] dispatch_frame_wf [OF _ d]
      by (simp add: replies_exact_def replied_append add.assoc) }
  { fix req assume "request_wf req" and d: "apply_command m req s = (r, s', a)"
    then show "replies_exact s' (log @ [(On_command (Some req), a)]) (acts @ a)"
      using i command_replies [OF d] apply_command_wf [OF _ _ d]
      by (simp add: replies_exact_def replied_append asked_append add.assoc) }
  { assume d: "drain_tx_queue m s = (r, s', a)"
    then show "replies_exact s' (log @ [(On_playout_tick, a)]) (acts @ a)"
      using i drain_replies [OF d] drain_tx_queue_wf [OF _ d]
      by (simp add: replies_exact_def replied_append asked_append) }
  { fix w c r' assume "write_frame w (MmdvmFrame_new c) = (r', a)"
    then show "replies_exact s log (acts @ a)"
      using i write_frame_replies by (simp add: replies_exact_def replied_append) }
  show "replies_exact (s\<lparr>ml_rx_buffer := q\<rparr>) log acts" for q
    using i by (simp add: replies_exact_def loop_wf_buffer awaiting_def)
  show "replies_exact s log (acts @ [Emitted e])" for e
    using i by (simp add: replies_exact_def replied_append)
qed

text \<open>C13. Over any run of the modem task, the replies sent together with the two reservations still
  awaiting an answer of the modem are exactly the requests taken from the handle: no request is
  dropped or answered twice, also when a write fails and ends the task.\<close>
theorem modem_replies_once:
  assumes "modem_run w1 w2 ts ModemLoop_new = (r, s', acts)"
    and "\<forall>t \<in> set ts. branch_admits request_wf (tn_branch t)"
  shows "replied acts + awaiting s' = asked (modem_log w1 w2 ts ModemLoop_new)"
proof -
  have "replies_exact ModemLoop_new [] []"
    by (simp add: replies_exact_def loop_wf_new) (simp add: ModemLoop_new_def awaiting_def)
  from replies.modem_run_inv [OF this assms(2,1)] show ?thesis by (simp add: replies_exact_def)
qed

section \<open>The transmit queue keeps order and loses nothing\<close>

definition wire_frame :: "QueuedFrame \<Rightarrow> MmdvmFrame" where
  "wire_frame q = \<lparr>mf_command = qf_command q, mf_payload = qf_payload q\<rparr>"

text \<open>The voice frames whose submission was answered with success, those a playout tick wrote, and
  those it took from the queue for a write that failed.\<close>

fun submitted :: "Request \<Rightarrow> MmdvmFrame list" where
  "submitted (SendDStarHeader bs r) = [\<lparr>mf_command = DSTAR_HEADER, mf_payload = bs\<rparr>]"
| "submitted (SendDStarData bs r) = [\<lparr>mf_command = DSTAR_DATA, mf_payload = bs\<rparr>]"
| "submitted (SendDStarEot r) = [\<lparr>mf_command = DSTAR_EOT, mf_payload = []\<rparr>]"
| "submitted _ = []"

fun accepted :: "(branch \<times> act list) list \<Rightarrow> MmdvmFrame list" where
  "accepted [] = []"
| "accepted ((On_command (Some req), a) # log) =
     (if Replied (request_reply req) None \<in> set a then submitted req else []) @ accepted log"
| "accepted (_ # log) = accepted log"

fun written :: "act list \<Rightarrow> MmdvmFrame list" where
  "written [] = []"
| "written (Wrote f # acts) = f # written acts"
| "written (_ # acts) = written acts"

fun failed :: "act list \<Rightarrow> MmdvmFrame list" where
  "failed [] = []"
| "failed (Failed f # acts) = f # failed acts"
| "failed (_ # acts) = failed acts"

fun played :: "(branch \<times> act list) list \<Rightarrow> MmdvmFrame list" where
  "played [] = []"
| "played ((On_playout_tick, a) # log) = written a @ played log"
| "played (_ # log) = played log"

fun lost :: "(branch \<times> act list) list \<Rightarrow> MmdvmFrame list" where
  "lost [] = []"
| "lost ((On_playout_tick, a) # log) = failed a @ lost log"
| "lost (_ # log) = lost log"

fun attempted :: "(branch \<times> act list) list \<Rightarrow> MmdvmFrame list" where
  "attempted [] = []"
| "attempted ((On_playout_tick, a) # log) = written a @ failed a @ attempted log"
| "attempted (_ # log) = attempted log"

lemma log_append:
  "accepted (xs @ ys) = accepted xs @ accepted ys" "played (xs @ ys) = played xs @ played ys"
  "lost (xs @ ys) = lost xs @ lost ys" "attempted (xs @ ys) = attempted xs @ attempted ys"
  by (induction xs rule: accepted.induct) auto

definition fifo_inv :: "ModemLoop \<Rightarrow> (branch \<times> act list) list \<Rightarrow> act list \<Rightarrow> bool" where
  "fifo_inv s log acts \<longleftrightarrow> loop_wf s \<and>
     accepted log = attempted log @ map wire_frame (tq_dstar (ml_tx_queue s))"

lemma command_queue:
  assumes "apply_command m req s = (r, s', a)"
  shows "map wire_frame (tq_dstar (ml_tx_queue s')) = map wire_frame (tq_dstar (ml_tx_queue s)) @
    (if Replied (request_reply req) None \<in> set a then submitted req else [])"
  using assms
  by (cases req) (auto simp: mode_payload_ok write_defs buffer_full_reply_def push_defs wire_frame_def
      split: if_splits write_outcome.splits)

lemma drain_queue:
  assumes "loop_wf s" "drain_tx_queue m s = (r, s', a)"
  shows "map wire_frame (tq_dstar (ml_tx_queue s)) =
    written a @ failed a @ map wire_frame (tq_dstar (ml_tx_queue s'))"
proof (cases "tq_dstar (ml_tx_queue s)")
  case (Cons q qs)
  then have "queued_wf q" using assms(1) by (simp add: loop_wf_def)
  then show ?thesis using assms(2) Cons
    by (auto simp: drain_tx_queue_def pop_if_space_allows_def queued_payload_ok write_defs wire_frame_def
        split: if_splits write_outcome.splits)
qed (use assms(2) in \<open>auto simp: drain_tx_queue_def pop_if_space_allows_def\<close>)

lemma configure_queue: "dispatch_configuration m s = (r, s', a) \<Longrightarrow> ml_tx_queue s' = ml_tx_queue s"
  by (auto simp: dispatch_configuration_def write_defs
      split: option.splits PendingConfiguration.splits if_splits sum.splits write_outcome.splits)

lemma frame_queue:
  assumes "dispatch_frame f s = (s', a)"
  shows "ml_tx_queue s' = ml_tx_queue s" "ml_shutting_down s' = ml_shutting_down s"
    "ml_flush_deadline s' = ml_flush_deadline s"
proof -
  let ?same = "\<lambda>s1. ml_tx_queue s1 = ml_tx_queue s \<and> ml_shutting_down s1 = ml_shutting_down s \<and>
    ml_flush_deadline s1 = ml_flush_deadline s"
  have "dispatch_ack p s = (s', a) \<Longrightarrow> ?same s'" "dispatch_nak p s = (s', a) \<Longrightarrow> ?same s'" for p
    by (auto simp: dispatch_ack_def dispatch_nak_def Let_def resolve_parts split: list.splits prod.splits)
  moreover have "handle_version p s = (s', a) \<Longrightarrow> ?same s'" "handle_status p s = (s', a) \<Longrightarrow> ?same s'" for p
    by (auto simp: handle_version_def handle_status_def split: sum.splits option.splits)
  ultimately have "?same s'" using assms by (auto simp: dispatch_frame_def Let_def split: if_splits)
  then show "ml_tx_queue s' = ml_tx_queue s" "ml_shutting_down s' = ml_shutting_down s"
    "ml_flush_deadline s' = ml_flush_deadline s" by auto
qed

interpretation fifo: modem_invariant fifo_inv request_wf
proof
  fix s log acts m r s' a
  assume i: "fifo_inv s log acts"
  { assume d: "dispatch_configuration m s = (r, s', a)"
    then show "fifo_inv s' log (acts @ a)"
      using i configure_queue [OF d] dispatch_configuration_wf [OF _ d] by (simp add: fifo_inv_def) }
  { fix f assume d: "dispatch_frame f s = (s', a)"
    then show "fifo_inv s' log (acts @ a)"
      using i frame_queue [OF d] dispatch_frame_wf [OF _ d] by (simp add: fifo_inv_def) }
  { fix req assume "request_wf req" and d: "apply_command m req s = (r, s', a)"
    then show "fifo_inv s' (log @ [(On_command (Some req), a)]) (acts @ a)"
      using i command_queue [OF d] apply_command_wf [OF _ _ d] by (simp add: fifo_inv_def log_append) }
  { assume d: "drain_tx_queue m s = (r, s', a)"
    then show "fifo_inv s' (log @ [(On_playout_tick, a)]) (acts @ a)"
      using i drain_queue [OF _ d] drain_tx_queue_wf [OF _ d] by (simp add: fifo_inv_def log_append) }
qed (simp_all add: fifo_inv_def loop_wf_buffer)

text \<open>A failed write ends the loop, so at most the last frame is lost, and its loss is an I/O error.\<close>

lemma drain_failed:
  assumes "drain_tx_queue m s = (r, s', a)"
  shows "failed a = [] \<or> (\<exists>e. r = Err (Shell_Io e)) \<and> length (failed a) = 1"
  using assms by (auto simp: drain_tx_queue_def write_defs
      split: prod.splits option.splits sum.splits write_outcome.splits)

lemma run_lost:
  assumes "run_turns ts s = (f, s', a)"
  shows "attempted (run_log ts s) = played (run_log ts s) @ lost (run_log ts s) \<and>
    (lost (run_log ts s) = [] \<or> (\<exists>e. f = Exit (Some (Shell_Io e))) \<and> length (lost (run_log ts s)) = 1)"
  using assms
proof (induction ts arbitrary: s f s' a)
  case (Cons t ts)
  obtain g s1 a1 where d: "loop_turn t s = (g, s1, a1)" by (cases rule: prod_cases3)
  have l: "attempted (turn_log t s) = played (turn_log t s) @ lost (turn_log t s) \<and>
    (lost (turn_log t s) = [] \<or> (\<exists>e. g = Exit (Some (Shell_Io e))) \<and> length (lost (turn_log t s)) = 1)"
  proof (cases "tn_branch t = On_playout_tick")
    case True
    then show ?thesis using d
      by (auto simp: turn_log_def loop_turn_def flow_of_def split: prod.splits sum.splits if_splits dest: drain_failed)
  next
    case False
    then have "logged (tn_branch t) b = [] \<or> (\<exists>q. logged (tn_branch t) b = [(On_command (Some q), b)])" for b
      by (cases "(tn_branch t, b)" rule: logged.cases) auto
    then have "turn_log t s = [] \<or> (\<exists>q b. turn_log t s = [(On_command (Some q), b)])"
      unfolding turn_log_def by (auto split: prod.splits sum.splits if_splits; metis)
    then show ?thesis by auto
  qed
  show ?case
  proof (cases g)
    case Continue
    obtain h s2 a2 where e: "run_turns ts s1 = (h, s2, a2)" by (cases rule: prod_cases3)
    show ?thesis using Continue l Cons.IH [OF e] Cons.prems d e by (auto simp: log_append)
  next
    case (Exit x)
    then show ?thesis using l Cons.prems d by auto
  qed
qed simp

text \<open>C7. Voice frames leave in the order in which they were accepted and none is forgotten: the
  frames whose submission succeeded are those that playout wrote, then at most one whose write
  failed and ended the task, then those still queued, never more than 64. When the task ends, the
  number still queued is what it reports as dropped.\<close>
theorem modem_fifo:
  assumes "modem_run w1 w2 ts ModemLoop_new = (r, s', acts)"
    and "\<forall>t \<in> set ts. branch_admits request_wf (tn_branch t)"
    and "log = modem_log w1 w2 ts ModemLoop_new" "queued = map wire_frame (tq_dstar (ml_tx_queue s'))"
  shows "accepted log = played log @ lost log @ queued \<and> length queued \<le> 64 \<and> length (lost log) \<le> 1 \<and>
    (case r of None \<Rightarrow> lost log = []
     | Some c \<Rightarrow> tc_dropped_frames c = length queued \<and> (lost log \<noteq> [] \<longrightarrow> (\<exists>e. tc_result c = Some (Shell_Io e))) \<and>
         (queued \<noteq> [] \<longrightarrow> Emitted (TxDropped (length queued)) \<in> set acts))"
proof -
  have "fifo_inv ModemLoop_new [] []"
    by (simp add: fifo_inv_def loop_wf_new) (simp add: ModemLoop_new_def TxQueue_new_def)
  from fifo.modem_run_inv [OF this assms(2,1)]
  have i: "accepted log = attempted log @ queued" and q: "length queued \<le> 64"
    by (simp_all add: fifo_inv_def loop_wf_def MAX_TX_QUEUE_FRAMES_def assms(3,4))
  obtain f s1 a where t: "run_turns ts ModemLoop_new = (f, s1, a)" by (cases rule: prod_cases3)
  have l: "attempted log = played log @ lost log" "length (lost log) \<le> 1"
    using run_lost [OF t] by (auto simp: assms(3) modem_log_def)
  have f: "lost log \<noteq> [] \<Longrightarrow> \<exists>e c. r = Some c \<and> tc_result c = Some (Shell_Io e)"
    using run_lost [OF t] assms(1) t
    by (auto simp: assms(3) modem_log_def modem_run_def run_inner_def write_frame_def Let_def split: if_splits)
  have "case r of None \<Rightarrow> lost log = []
      | Some c \<Rightarrow> tc_dropped_frames c = length queued \<and> (lost log \<noteq> [] \<longrightarrow> (\<exists>e. tc_result c = Some (Shell_Io e))) \<and>
          (queued \<noteq> [] \<longrightarrow> Emitted (TxDropped (length queued)) \<in> set acts)"
  proof (cases r)
    case (Some c)
    then show ?thesis using modem_run_result [of w1 w2 ts ModemLoop_new c s' acts] assms(1,4) f by auto
  qed (use f in auto)
  then show ?thesis using i q l by simp
qed

section \<open>What the modem may be sent\<close>

text \<open>
  The link as the modem sees it: the free slots it last reported less what was sent since, the
  protocol version it announced, and whether a mode change or a configuration awaits its answer.
  The automaton allows a voice frame only while more slots are free than it takes, a configuration
  only in the announced layout, and one unanswered mode change and configuration at a time.
\<close>

record modem_phase =
  lp_credit :: nat
  lp_version :: "ProtocolVersion option"
  lp_mode_open :: bool
  lp_config_open :: bool

definition link_start :: modem_phase where
  "link_start = \<lparr>lp_credit = 0, lp_version = None, lp_mode_open = False, lp_config_open = False\<rparr>"

definition may_write :: "MmdvmFrame \<Rightarrow> modem_phase \<Rightarrow> modem_phase option" where
  "may_write f ph =
     (let c = mf_command f in
      if slots_of c > 0 then (if slots_of c < lp_credit ph then Some (ph\<lparr>lp_credit := lp_credit ph - slots_of c\<rparr>) else None)
      else if c = SET_MODE then (if lp_mode_open ph then None else Some (ph\<lparr>lp_mode_open := True\<rparr>))
      else if c = SET_CONFIG
      then (if \<not> lp_config_open ph \<and> map_option layout_len (lp_version ph) = Some (length (mf_payload f))
            then Some (ph\<lparr>lp_config_open := True\<rparr>) else None)
      else Some ph)"

definition answered :: "Command \<Rightarrow> modem_phase \<Rightarrow> modem_phase" where
  "answered c ph = ph\<lparr>lp_mode_open := (c \<noteq> SET_MODE \<and> lp_mode_open ph),
     lp_config_open := (c \<noteq> SET_CONFIG \<and> lp_config_open ph)\<rparr>"

fun link_observe :: "act \<Rightarrow> modem_phase \<Rightarrow> modem_phase option" where
  "link_observe (Wrote f) ph = may_write f ph"
| "link_observe (Failed f) ph = map_option (\<lambda>_. ph) (may_write f ph)"
| "link_observe (Emitted (Ev_Version v)) ph = Some (ph\<lparr>lp_version := Some (vr_protocol v), lp_credit := 0\<rparr>)"
| "link_observe (Emitted (Ev_Status st)) ph =
     (if lp_version ph = None then None else Some (ph\<lparr>lp_credit := unat (ms_dstar_space st)\<rparr>))"
| "link_observe (Emitted (Ev_Ack c)) ph = Some (answered c ph)"
| "link_observe (Emitted (Ev_Nak c r)) ph = Some (answered c ph)"
| "link_observe _ ph = Some ph"

definition phase_of :: "ModemLoop \<Rightarrow> modem_phase" where
  "phase_of s = \<lparr>lp_credit = unat (ml_dstar_space s), lp_version = ml_protocol_version s,
     lp_mode_open = (ml_pending_set_mode s \<noteq> None),
     lp_config_open = (case ml_pending_configuration s of Some (PC_Written r) \<Rightarrow> True | _ \<Rightarrow> False)\<rparr>"

text \<open>The requests the handle lets through: \<open>send_raw\<close> refuses the two reserved commands, and its
  documentation leaves voice frames to the gated submissions.\<close>

fun link_request :: "Request \<Rightarrow> bool" where
  "link_request (SendRaw f r) = (MmdvmFrame_wf f \<and> slots_of (mf_command f) = 0 \<and> mf_command f \<notin> {SET_MODE, SET_CONFIG})"
| "link_request req = request_wf req"

lemma link_request_wf: "link_request req \<Longrightarrow> request_wf req"
  by (cases req) auto

lemma may_write_simps [simp]:
  "may_write (MmdvmFrame_new GET_VERSION) ph = Some ph" "may_write (MmdvmFrame_new GET_STATUS) ph = Some ph"
  by (simp_all add: may_write_def MmdvmFrame_new_def) (simp_all add: Command_defs)

lemma write_frame_follow:
  "write_frame w f = (r, a) \<Longrightarrow> follow link_observe a ph =
     (case r of Ok _ \<Rightarrow> may_write f ph | Err _ \<Rightarrow> map_option (\<lambda>_. ph) (may_write f ph))"
  by (auto simp: write_frame_def split: write_outcome.splits option.splits)

lemma write_reply_follow:
  "write_for_request w f q = (r, a) \<Longrightarrow> follow link_observe a ph =
     (case r of Ok _ \<Rightarrow> may_write f ph | Err _ \<Rightarrow> map_option (\<lambda>_. ph) (may_write f ph)) \<and> (\<forall>x. r = Ok x \<longrightarrow> x = q)"
  by (auto simp: write_for_request_def write_frame_def split: write_outcome.splits option.splits)

lemma and_reply_follow:
  assumes "write_and_reply w f q s = (r, s', a)" "may_write f (phase_of s) = Some (phase_of s)"
  shows "s' = s \<and> follow link_observe a (phase_of s) = Some (phase_of s)"
  using assms write_reply_follow [of w f q _ _ "phase_of s"]
  by (auto simp: write_and_reply_def follow_append split: prod.splits sum.splits)

lemma command_follow:
  assumes "link_request req" "apply_command m req s = (r, s', a)"
  shows "follow link_observe a (phase_of s) = Some (phase_of s')"
proof (cases req)
  case (SetMode mode d q)
  then show ?thesis using assms
    by (auto simp: mode_payload_ok write_for_request_def write_frame_def may_write_def phase_of_def
        split: if_splits write_outcome.splits)
next
  case (SendRaw f q)
  then have "may_write f (phase_of s) = Some (phase_of s)" using assms(1) by (simp add: may_write_def)
  then show ?thesis using assms(2) SendRaw and_reply_follow by fastforce
next
  case (Req_GetVersion q)
  then show ?thesis using assms(2) and_reply_follow by fastforce
next
  case (Req_GetStatus q)
  then show ?thesis using assms(2) and_reply_follow by fastforce
qed (use assms in \<open>auto simp: phase_of_def buffer_full_reply_def split: if_splits prod.splits\<close>)

lemma configure_follow:
  assumes "loop_wf s" "dispatch_configuration m s = (r, s', a)"
  shows "follow link_observe a (phase_of s) = Some (phase_of s')"
proof (cases "ml_pending_configuration s")
  case (Some p)
  show ?thesis
  proof (cases p)
    case (WaitingVersion c d q)
    then have "DstarConfiguration_wf c" using assms(1) Some by (auto simp: loop_wf_def)
    moreover from this have "length (DstarConfiguration_payload c) = layout_len (DstarConfiguration_protocol c)"
      by (simp add: DstarConfiguration_wf_def)
    moreover have "SET_CONFIG \<noteq> SET_MODE" by (simp add: Command_defs)
    ultimately show ?thesis using assms(2) Some WaitingVersion
      by (auto simp: dispatch_configuration_def phase_of_def config_payload_ok write_for_request_def
          write_frame_def may_write_def Let_def split: if_splits option.splits write_outcome.splits)
  qed (use assms(2) Some in \<open>auto simp: dispatch_configuration_def\<close>)
qed (use assms(2) in \<open>auto simp: dispatch_configuration_def\<close>)

lemma resolve_follow:
  assumes "resolve c r s = (s', a)"
  shows "follow link_observe a ph = Some ph" "phase_of s' = answered c (phase_of s)"
proof -
  show "follow link_observe a ph = Some ph"
    using assms by (auto simp: resolve_def complete_set_mode_def complete_configuration_def follow_append
        split: option.splits PendingConfiguration.splits if_splits)
  show "phase_of s' = answered c (phase_of s)"
    using resolve_parts [OF assms] by (auto simp: phase_of_def answered_def split: option.splits PendingConfiguration.splits)
qed

lemma frame_follow:
  assumes "dispatch_frame f s = (s', a)"
  shows "follow link_observe a (phase_of s) = Some (phase_of s')"
proof -
  have "dispatch_ack p s = (s', a) \<Longrightarrow> follow link_observe a (phase_of s) = Some (phase_of s')"
    "dispatch_nak p s = (s', a) \<Longrightarrow> follow link_observe a (phase_of s) = Some (phase_of s')" for p
    by (auto simp: dispatch_ack_def dispatch_nak_def Let_def follow_append protocol_violation_def resolve_follow
        split: list.splits prod.splits)
  moreover have "handle_version p s = (s', a) \<Longrightarrow> follow link_observe a (phase_of s) = Some (phase_of s')"
    "handle_status p s = (s', a) \<Longrightarrow> follow link_observe a (phase_of s) = Some (phase_of s')" for p
    by (auto simp: handle_version_def handle_status_def phase_of_def protocol_violation_def
        split: sum.splits option.splits)
  moreover have "follow link_observe (emit_dstar_header p) ph = Some ph"
    "follow link_observe (emit_dstar_data p) ph = Some ph" for p ph
    by (simp_all add: emit_dstar_header_def emit_dstar_data_def protocol_violation_def)
  ultimately show ?thesis using assms by (auto simp: dispatch_frame_def Let_def split: if_splits)
qed

lemma unat_saturating_sub: "unat (u8_saturating_sub a b) = unat a - unat b"
  by (auto simp: u8_saturating_sub_def unat_sub word_le_nat_alt)

lemma drain_follow:
  assumes "loop_wf s" "drain_tx_queue m s = (r, s', a)"
  shows "follow link_observe a (phase_of s) = Some (phase_of s')"
proof (cases "tq_dstar (ml_tx_queue s)")
  case (Cons q qs)
  then have q: "queued_wf q" using assms(1) by (simp add: loop_wf_def)
  then have "slots_of (qf_command q) > 0" by (auto simp: queued_wf_def)
  then show ?thesis using assms(2) Cons q
    by (auto simp: drain_tx_queue_def pop_if_space_allows_def queued_payload_ok write_frame_def Let_def
        may_write_def phase_of_def word_less_nat_alt unat_saturating_sub queued_wf_def
        split: if_splits write_outcome.splits)
qed (use assms(2) in \<open>auto simp: drain_tx_queue_def pop_if_space_allows_def phase_of_def\<close>)

definition link_inv :: "ModemLoop \<Rightarrow> (branch \<times> act list) list \<Rightarrow> act list \<Rightarrow> bool" where
  "link_inv s log acts \<longleftrightarrow> loop_wf s \<and> follow link_observe acts link_start = Some (phase_of s)"

interpretation link: modem_invariant link_inv link_request
proof
  fix s log acts m r s' a
  assume i: "link_inv s log acts"
  { assume d: "dispatch_configuration m s = (r, s', a)"
    then show "link_inv s' log (acts @ a)"
      using i configure_follow [OF _ d] dispatch_configuration_wf [OF _ d] by (simp add: link_inv_def follow_append) }
  { fix f assume d: "dispatch_frame f s = (s', a)"
    then show "link_inv s' log (acts @ a)"
      using i frame_follow [OF d] dispatch_frame_wf [OF _ d] by (simp add: link_inv_def follow_append) }
  { fix req assume q: "link_request req" and d: "apply_command m req s = (r, s', a)"
    then show "link_inv s' (log @ [(On_command (Some req), a)]) (acts @ a)"
      using i command_follow [OF q d] apply_command_wf [OF _ link_request_wf [OF q] d]
      by (simp add: link_inv_def follow_append) }
  { assume d: "drain_tx_queue m s = (r, s', a)"
    then show "link_inv s' (log @ [(On_playout_tick, a)]) (acts @ a)"
      using i drain_follow [OF _ d] drain_tx_queue_wf [OF _ d] by (simp add: link_inv_def follow_append) }
  { fix w c r' assume "c \<in> {GET_VERSION, GET_STATUS}" "write_frame w (MmdvmFrame_new c) = (r', a)"
    then show "link_inv s log (acts @ a)"
      using i write_frame_follow by (auto simp: link_inv_def follow_append split: sum.splits) }
  show "link_inv (s\<lparr>ml_rx_buffer := q\<rparr>) log acts" for q
    using i by (simp add: link_inv_def loop_wf_buffer phase_of_def)
  show "link_inv s log (acts @ [Emitted e])" if "closing_event e" for e
    using i that by (cases e) (auto simp: link_inv_def follow_append)
qed

text \<open>C5. Whatever the modem, the handle and the clock do, the actions of the modem task form a run of
  the link automaton that ends in the phase its state describes: no voice frame is sent without free
  slots reported after the version, a configuration is written only in the announced layout, and
  never a second mode change or configuration before the first is answered.\<close>
theorem modem_refines_link:
  assumes "modem_run w1 w2 ts ModemLoop_new = (r, s', acts)"
    and "\<forall>t \<in> set ts. branch_admits link_request (tn_branch t)"
  shows "follow link_observe acts link_start = Some (phase_of s')"
proof -
  have "link_inv ModemLoop_new [] []"
    by (simp add: link_inv_def loop_wf_new) (simp add: ModemLoop_new_def phase_of_def link_start_def)
  from link.modem_run_inv [OF this assms(2,1)] show ?thesis by (simp add: link_inv_def)
qed

section \<open>The modem's queue is never overrun\<close>

fun is_report :: "act \<Rightarrow> bool" where
  "is_report (Emitted (Ev_Version v)) = True"
| "is_report (Emitted (Ev_Status st)) = True"
| "is_report _ = False"

definition voice_slots :: "MmdvmFrame list \<Rightarrow> nat" where
  "voice_slots fs = sum_list (map (\<lambda>f. slots_of (mf_command f)) fs)"

lemma voice_slots_simps [simp]:
  "voice_slots [] = 0" "voice_slots (f # fs) = slots_of (mf_command f) + voice_slots fs"
  by (simp_all add: voice_slots_def)

lemma may_write_credit:
  "may_write f ph = Some ph' \<Longrightarrow> lp_credit ph' + slots_of (mf_command f) = lp_credit ph \<and>
     (slots_of (mf_command f) = 0 \<or> slots_of (mf_command f) < lp_credit ph)"
  by (auto simp: may_write_def Let_def split: if_splits)

lemma follow_credit:
  assumes "\<forall>a \<in> set acts. \<not> is_report a" "follow link_observe acts ph = Some ph'"
  shows "lp_credit ph' + voice_slots (written acts) = lp_credit ph \<and>
    (voice_slots (written acts) = 0 \<or> voice_slots (written acts) < lp_credit ph)"
  using assms
proof (induction acts arbitrary: ph)
  case (Cons a acts)
  obtain ph1 where o: "link_observe a ph = Some ph1" and f: "follow link_observe acts ph1 = Some ph'"
    using Cons.prems(2) by (auto split: option.splits)
  note i = Cons.IH [OF _ f]
  show ?case
  proof (cases a)
    case (Wrote x)
    then show ?thesis using i Cons.prems(1) o may_write_credit [of x ph ph1] by auto
  next
    case (Emitted e)
    then have "lp_credit ph1 = lp_credit ph" using o Cons.prems(1) by (cases e) (auto simp: answered_def)
    then show ?thesis using i Emitted Cons.prems(1) by auto
  qed (use i Cons.prems(1) o in auto)
qed simp

text \<open>C12. Between one status report of the modem and the next, the voice frames written take fewer
  slots than the report said were free, and before the first report none is written, however many
  frames are queued and whatever else is on the line.\<close>
theorem modem_never_overruns:
  assumes "modem_run w1 w2 ts ModemLoop_new = (r, s', acts)"
    and "\<forall>t \<in> set ts. branch_admits link_request (tn_branch t)"
    and "acts = pre @ Emitted (Ev_Status st) # mid @ post" "\<forall>a \<in> set mid. \<not> is_report a"
  shows "(voice_slots (written mid) = 0 \<or> voice_slots (written mid) < unat (ms_dstar_space st)) \<and>
    (list_ex is_report pre \<or> voice_slots (written pre) = 0)"
proof -
  have "link_inv ModemLoop_new [] []"
    by (simp add: link_inv_def loop_wf_new) (simp add: ModemLoop_new_def phase_of_def link_start_def)
  from link.modem_run_inv [OF this assms(2,1)]
  obtain ph0 ph1 ph2 where a: "follow link_observe pre link_start = Some ph0"
    and b: "link_observe (Emitted (Ev_Status st)) ph0 = Some ph1"
    and c: "follow link_observe mid ph1 = Some ph2"
    by (auto simp: link_inv_def assms(3) follow_append split: option.splits)
  have "lp_credit ph1 = unat (ms_dstar_space st)" using b by (auto split: if_splits)
  then have "voice_slots (written mid) = 0 \<or> voice_slots (written mid) < unat (ms_dstar_space st)"
    using follow_credit [OF assms(4) c] by simp
  moreover have "list_ex is_report pre \<or> voice_slots (written pre) = 0"
    using follow_credit [OF _ a] by (cases "list_ex is_report pre") (auto simp: link_start_def list_ex_iff)
  ultimately show ?thesis by blast
qed

section \<open>Shutdown ends\<close>

fun is_shutdown :: "Request \<Rightarrow> bool" where
  "is_shutdown (Shutdown r) = True"
| "is_shutdown _ = False"

definition flushing :: "instant \<Rightarrow> ModemLoop \<Rightarrow> (branch \<times> act list) list \<Rightarrow> act list \<Rightarrow> bool" where
  "flushing d s log acts \<longleftrightarrow> ml_shutting_down s \<and> ml_flush_deadline s = Some d"

lemma configure_flush: "dispatch_configuration m s = (r, s', a) \<Longrightarrow>
    ml_shutting_down s' = ml_shutting_down s \<and> ml_flush_deadline s' = ml_flush_deadline s"
  by (auto simp: dispatch_configuration_def write_defs
      split: option.splits PendingConfiguration.splits if_splits sum.splits write_outcome.splits)

interpretation flush: modem_invariant "flushing d" "\<lambda>req. \<not> is_shutdown req" for d
proof
  fix s log acts m r s' a
  assume i: "flushing d s log acts"
  { assume "dispatch_configuration m s = (r, s', a)"
    then show "flushing d s' log (acts @ a)" using i configure_flush by (simp add: flushing_def) }
  { fix f assume "dispatch_frame f s = (s', a)"
    then show "flushing d s' log (acts @ a)" using i frame_queue by (simp add: flushing_def) }
  { fix req assume "\<not> is_shutdown req" "apply_command m req s = (r, s', a)"
    then show "flushing d s' (log @ [(On_command (Some req), a)]) (acts @ a)"
      using i by (cases req) (auto simp: flushing_def mode_payload_ok write_defs split: if_splits write_outcome.splits prod.splits) }
  { assume "drain_tx_queue m s = (r, s', a)"
    then show "flushing d s' (log @ [(On_playout_tick, a)]) (acts @ a)"
      using i by (auto simp: flushing_def drain_tx_queue_def Let_def split: prod.splits option.splits sum.splits) }
qed (simp_all add: flushing_def)

lemma flushing_turn:
  assumes "flushing d s [] []" "d \<le> tn_check t"
  shows "\<exists>res s' a. loop_turn t s = (Exit res, s', a)"
proof -
  obtain r s1 a where c: "dispatch_configuration (tn_configure t) s = (r, s1, a)" by (cases rule: prod_cases3)
  then have "flush_over (tn_check t) s1"
    using configure_flush [OF c] assms by (simp add: flushing_def flush_over_def)
  then show ?thesis using c by (cases r) (auto simp: loop_turn_def)
qed

lemma flushing_ends:
  assumes "flushing d s [] []" "\<forall>t \<in> set ts. branch_admits (\<lambda>req. \<not> is_shutdown req) (tn_branch t)"
    and "t \<in> set ts" "d \<le> tn_check t"
  shows "\<exists>res s' a. run_turns ts s = (Exit res, s', a)"
  using assms
proof (induction ts arbitrary: s)
  case (Cons t' ts)
  obtain f s1 a where l: "loop_turn t' s = (f, s1, a)" by (cases rule: prod_cases3)
  show ?case
  proof (cases f)
    case Continue
    then have "t \<in> set ts" using flushing_turn [OF Cons.prems(1), of t'] Cons.prems(3,4) l by auto
    moreover have "flushing d s1 [] []"
      using flush.turn_inv [OF Cons.prems(1) _ l] Cons.prems(2) by (simp add: flushing_def)
    ultimately show ?thesis using Cons.IH [of s1] Cons.prems(2,4) Continue l by (auto split: prod.splits)
  qed (use l in auto)
qed simp

text \<open>C15. After the loop has accepted a shutdown at some instant it ends at the latest in the first turn
  that begins two seconds later, whether or not the modem ever grants space for the queued frames.\<close>
theorem modem_shutdown_ends:
  assumes "apply_command m (Shutdown q) s = (r, s1, a)"
    and "\<forall>t \<in> set ts. branch_admits (\<lambda>req. \<not> is_shutdown req) (tn_branch t)"
    and "t \<in> set ts" "mo_now m + from_secs 2 \<le> tn_check t"
  shows "\<exists>res s' b. run_turns ts s1 = (Exit res, s', b)"
proof -
  have "flushing (mo_now m + SHUTDOWN_FLUSH_TIMEOUT) s1 [] []" using assms(1) by (auto simp: flushing_def)
  from flushing_ends [OF this assms(2,3)] show ?thesis using assms(4) by (simp add: SHUTDOWN_FLUSH_TIMEOUT_def)
qed

section \<open>A sample run\<close>

text \<open>A modem of protocol 1 with two free slots, an end-of-transmission frame and a mode change.\<close>

definition sample_moment :: moment where
  "sample_moment = \<lparr>mo_now = 0, mo_closed = (\<lambda>_. False), mo_write = Write_done\<rparr>"

definition sample_turn :: "branch \<Rightarrow> turn" where
  "sample_turn b = \<lparr>tn_configure = sample_moment, tn_check = 0, tn_branch = b, tn_moment = sample_moment\<rparr>"

definition sample_version :: MmdvmFrame where
  "sample_version = \<lparr>mf_command = GET_VERSION, mf_payload = [1, 0x54]\<rparr>"

definition sample_status :: MmdvmFrame where
  "sample_status = \<lparr>mf_command = GET_STATUS, mf_payload = [0, 1, 0, 2, 0, 0, 0]\<rparr>"

definition sample_turns :: "turn list" where
  "sample_turns = map sample_turn
     [On_read (Ok (MmdvmFrame_to_bytes sample_version @ MmdvmFrame_to_bytes sample_status)),
      On_command (Some (SendDStarEot 7)), On_playout_tick, On_command (Some (SetMode Mode_Dstar 5 8))]"

definition sample_reports :: "act list" where
  "sample_reports = [Emitted (Ev_Version \<lparr>vr_protocol = V1, vr_description = [0x54], vr_capabilities = None\<rparr>),
     Emitted (Ev_Status \<lparr>ms_mode = Mode_Dstar, ms_flags = StatusFlags 0, ms_dstar_space = 2, ms_dmr_space1 = 0,
       ms_dmr_space2 = 0, ms_ysf_space = 0, ms_p25_space = 0, ms_nxdn_space = 0, ms_pocsag_space = 0, ms_fm_space = 0\<rparr>)]"

lemma sample_moment_simps [simp]:
  "mo_now sample_moment = 0" "mo_closed sample_moment q = False" "mo_write sample_moment = Write_done"
  by (simp_all add: sample_moment_def)

lemma sample_turn_simps [simp]:
  "tn_configure (sample_turn b) = sample_moment" "tn_check (sample_turn b) = 0"
  "tn_branch (sample_turn b) = b" "tn_moment (sample_turn b) = sample_moment"
  by (simp_all add: sample_turn_def)

lemma ModemLoop_new_simps [simp]:
  "ml_rx_buffer ModemLoop_new = []" "ml_tx_queue ModemLoop_new = TxQueue []" "ml_dstar_space ModemLoop_new = 0"
  "ml_protocol_version ModemLoop_new = None" "\<not> ml_shutting_down ModemLoop_new"
  "ml_flush_deadline ModemLoop_new = None" "ml_pending_set_mode ModemLoop_new = None"
  "ml_pending_configuration ModemLoop_new = None"
  by (simp_all add: ModemLoop_new_def TxQueue_new_def)

lemma sample_frames_wf: "MmdvmFrame_wf sample_version" "MmdvmFrame_wf sample_status"
  by (simp_all add: MmdvmFrame_wf_def sample_version_def sample_status_def frame_consts)

lemma sample_version_parse:
  "VersionResponse_parse [1, 0x54] = Ok \<lparr>vr_protocol = V1, vr_description = [0x54], vr_capabilities = None\<rparr>"
  by (simp add: VersionResponse_parse_def ProtocolVersion_try_from_def version_layout_def get_from_def
      checked_description_def from_utf8_ascii trim_end_def is_ascii_whitespace_def is_control_def)

lemma sample_status_parse: "parse_v1 [0, 1, 0, 2, 0, 0, 0] =
    Ok \<lparr>ms_mode = Mode_Dstar, ms_flags = StatusFlags 0, ms_dstar_space = 2, ms_dmr_space1 = 0,
       ms_dmr_space2 = 0, ms_ysf_space = 0, ms_p25_space = 0, ms_nxdn_space = 0, ms_pocsag_space = 0, ms_fm_space = 0\<rparr>"
  by (simp add: parse_v1_def MIN_V1_LEN_def status_byte_def ModemMode_from_byte_def mode_consts from_bits_truncate_def)

lemma sample_dispatch:
  assumes "ml_rx_buffer s = []"
  shows "select_branch m (On_read (Ok (MmdvmFrame_to_bytes sample_version @ MmdvmFrame_to_bytes sample_status))) s
    = (Continue, s\<lparr>ml_protocol_version := Some V1, ml_dstar_space := 2\<rparr>, sample_reports)"
proof -
  let ?bs = "MmdvmFrame_to_bytes sample_version @ MmdvmFrame_to_bytes sample_status"
  have b: "?bs \<noteq> []" by (simp add: MmdvmFrame_to_bytes_def Let_def)
  have "deframe ?bs = ([sample_version, sample_status], [])"
    using deframe_frames [of "[sample_version, sample_status]"] sample_frames_wf by simp
  then have "select_branch m (On_read (Ok ?bs)) s
      = (Continue, dispatch_all [sample_version, sample_status] (s\<lparr>ml_rx_buffer := []\<rparr>))"
    using read_deframe [OF b, of m s] assms by simp
  also have "s\<lparr>ml_rx_buffer := []\<rparr> = s" using assms by simp
  also have "dispatch_all [sample_version, sample_status] s
      = (s\<lparr>ml_protocol_version := Some V1, ml_dstar_space := 2\<rparr>, sample_reports)"
    using sample_status_parse
    by (simp add: dispatch_frame_def sample_version_def sample_status_def handle_version_def
        sample_version_parse sample_reports_def Command_defs) (simp add: handle_status_def)
  finally show ?thesis .
qed

definition sample_acts :: "act list" where
  "sample_acts = [Wrote (MmdvmFrame_new GET_VERSION), Wrote (MmdvmFrame_new GET_STATUS)] @ sample_reports @
     [Replied 7 None, Wrote (MmdvmFrame_new DSTAR_EOT),
      Wrote \<lparr>mf_command = SET_MODE, mf_payload = [1]\<rparr>]"

definition sample_end :: ModemLoop where
  "sample_end = ModemLoop_new\<lparr>ml_protocol_version := Some V1, ml_dstar_space := 1, ml_pending_set_mode := Some 8\<rparr>"

lemma sample_modem_run: "modem_run Write_done Write_done sample_turns ModemLoop_new = (None, sample_end, sample_acts)"
proof -
  have t1: "loop_turn (sample_turn (On_read (Ok (MmdvmFrame_to_bytes sample_version @ MmdvmFrame_to_bytes sample_status)))) ModemLoop_new
      = (Continue, ModemLoop_new\<lparr>ml_protocol_version := Some V1, ml_dstar_space := 2\<rparr>, sample_reports)"
    using sample_dispatch [of ModemLoop_new sample_moment]
    by (simp add: loop_turn_def dispatch_configuration_def flush_over_def del: select_branch.simps)
  show ?thesis
    by (simp add: modem_run_def run_inner_def write_frame_def sample_turns_def t1)
       (simp add: loop_turn_def dispatch_configuration_def flush_over_def flow_of_def push_dstar_eot_def TxQueue_push_def
         MAX_TX_QUEUE_FRAMES_def buffer_full_reply_def drain_tx_queue_def pop_if_space_allows_def slot_consts
         with_payload_def frame_consts write_frame_def write_for_request_def u8_saturating_sub_def mode_consts
         MmdvmFrame_new_def sample_end_def sample_acts_def ModemLoop_new_def TxQueue_new_def)
qed

lemma sample_turns_admitted:
  "\<forall>t \<in> set sample_turns. branch_admits request_wf (tn_branch t)"
  "\<forall>t \<in> set sample_turns. branch_admits link_request (tn_branch t)"
  by (simp_all add: sample_turns_def)

lemma modem_rx_stream_witness:
  "receive_chunks sample_moment [[0x41, 0xE0], [3], [0x13, 0xE0, 3], [0x12]] ModemLoop_new
     = (ModemLoop_new, [Emitted DstarEot, Emitted DstarLost])"
proof -
  have "dispatch_all [MmdvmFrame_new DSTAR_EOT, MmdvmFrame_new DSTAR_LOST] ModemLoop_new
      = (ModemLoop_new, [Emitted DstarEot, Emitted DstarLost])"
    by (simp add: dispatch_frame_def MmdvmFrame_new_def) (simp add: Command_defs)
  moreover have "concat [[0x41, 0xE0], [3], [0x13, 0xE0, 3], [0x12]] =
      [0x41] @ concat (map MmdvmFrame_to_bytes [MmdvmFrame_new DSTAR_EOT, MmdvmFrame_new DSTAR_LOST])"
    by (simp add: MmdvmFrame_to_bytes_def MmdvmFrame_new_def length_byte_def frame_consts Command_defs)
  ultimately show ?thesis
    using modem_rx_stream [of "[[0x41, 0xE0], [3], [0x13, 0xE0, 3], [0x12]]" "[0x41]"
      "[MmdvmFrame_new DSTAR_EOT, MmdvmFrame_new DSTAR_LOST]" ModemLoop_new sample_moment]
    by (simp add: MMDVM_FRAME_START_def)
qed

lemma modem_replies_once_witness:
  "replied sample_acts + awaiting sample_end = {#7, 8#}"
proof -
  have "asked (modem_log Write_done Write_done sample_turns ModemLoop_new)
      = replied sample_acts + awaiting sample_end"
    using modem_replies_once [OF sample_modem_run sample_turns_admitted(1)] by simp
  then show ?thesis by (simp add: sample_acts_def sample_reports_def sample_end_def awaiting_def)
qed

lemma modem_fifo_witness:
  "accepted (modem_log Write_done Write_done sample_turns ModemLoop_new)
     = played (modem_log Write_done Write_done sample_turns ModemLoop_new)"
  using modem_fifo [OF sample_modem_run sample_turns_admitted(1) refl refl] by (simp add: sample_end_def)

lemma modem_refines_link_witness:
  "follow link_observe sample_acts link_start =
     Some \<lparr>lp_credit = 1, lp_version = Some V1, lp_mode_open = True, lp_config_open = False\<rparr>"
  using modem_refines_link [OF sample_modem_run sample_turns_admitted(2)]
  by (simp add: sample_end_def phase_of_def)

lemma modem_never_overruns_witness:
  "voice_slots [MmdvmFrame_new DSTAR_EOT, \<lparr>mf_command = SET_MODE, mf_payload = [1]\<rparr>] < unat (2::u8)"
  using modem_never_overruns [OF sample_modem_run sample_turns_admitted(2),
      of "[Wrote (MmdvmFrame_new GET_VERSION), Wrote (MmdvmFrame_new GET_STATUS), hd sample_reports]" _
        "[Replied 7 None, Wrote (MmdvmFrame_new DSTAR_EOT), Wrote \<lparr>mf_command = SET_MODE, mf_payload = [1]\<rparr>]" "[]"]
  by (simp add: sample_acts_def sample_reports_def MmdvmFrame_new_def)

lemma modem_shutdown_ends_witness:
  "\<exists>res s' b. run_turns [sample_turn On_status_tick, (sample_turn On_playout_tick)\<lparr>tn_check := from_secs 2\<rparr>]
     (ModemLoop_new\<lparr>ml_tx_queue := TxQueue [\<lparr>qf_command = DSTAR_EOT, qf_payload = [], qf_slots_required = 1,
        qf_mode = Mode_Dstar\<rparr>], ml_shutting_down := True, ml_flush_deadline := Some (from_secs 2)\<rparr>) = (Exit res, s', b)"
  by (rule modem_shutdown_ends [of sample_moment 3 "ModemLoop_new\<lparr>ml_tx_queue := TxQueue [\<lparr>qf_command = DSTAR_EOT,
      qf_payload = [], qf_slots_required = 1, qf_mode = Mode_Dstar\<rparr>]\<rparr>" "Ok ()" _ "[Replied 3 None]" _
      "(sample_turn On_playout_tick)\<lparr>tn_check := from_secs 2\<rparr>"])
     (simp_all add: SHUTDOWN_FLUSH_TIMEOUT_def)

end
