(* ===== verification/Mmdvm_Dstar.thy ===== *)
theory Mmdvm_Dstar
  imports Mmdvm_Runs Dstar_Slowdata Dstar_Session
begin

text \<open>
  The D-STAR runtime over a modem (\<open>mmdvm/src/dstar.rs\<close>): transmit identity, status headers,
  translation of modem events into gateway events, last-heard list and automatic echo. The modem is
  reached through its handle: a submission is a function on the state of the modem task, which is an
  argument, so that the echo can be run against the loop of \<open>Mmdvm_Loop\<close>.
\<close>

section \<open>Configuration\<close>

definition MAX_ECHO_RECORDING_FRAMES :: nat where "MAX_ECHO_RECORDING_FRAMES = 3000"
definition DEFAULT_MAX_LAST_HEARD :: nat where "DEFAULT_MAX_LAST_HEARD = 100"
definition STATUS_POLL_TIMEOUT :: duration where "STATUS_POLL_TIMEOUT = from_secs 2"
definition EVENT_POLL_TIMEOUT :: duration where "EVENT_POLL_TIMEOUT = from_millis 500"

record DstarModemConfig =
  mc_callsign :: DstarCallsign
  mc_suffix :: Suffix
  mc_max_last_heard :: nat

datatype IdentityField = Identity_Callsign | Identity_Suffix

datatype DstarConfigError =
    Config_Identity TypeError
  | Config_TooLong IdentityField nat nat
  | Config_InvalidByte IdentityField nat u8

definition validate_identity :: "bytes \<Rightarrow> IdentityField \<Rightarrow> nat \<Rightarrow> DstarConfigError + unit" where
  "validate_identity v field limit =
     (if length v > limit then Err (Config_TooLong field (length v) limit)
      else (case find_enumerate (\<lambda>b. \<not> (0x20 \<le> b \<and> b \<le> 0x7E) \<or> b = 0x2C) v of
              Some (index, b) \<Rightarrow> Err (Config_InvalidByte field index b)
            | None \<Rightarrow> Ok ()))"

definition DstarModemConfig_new :: "bytes \<Rightarrow> DstarConfigError + DstarModemConfig" where
  "DstarModemConfig_new callsign =
     (case validate_identity callsign Identity_Callsign 8 of Err e \<Rightarrow> Err e
      | Ok _ \<Rightarrow> (case DstarCallsign_try_from_str callsign of Err e \<Rightarrow> Err (Config_Identity e)
        | Ok c \<Rightarrow> Ok \<lparr>mc_callsign = c, mc_suffix = Suffix_EMPTY, mc_max_last_heard = DEFAULT_MAX_LAST_HEARD\<rparr>))"

definition with_suffix :: "bytes \<Rightarrow> DstarModemConfig \<Rightarrow> DstarConfigError + DstarModemConfig" where
  "with_suffix text config =
     (case validate_identity text Identity_Suffix 4 of Err e \<Rightarrow> Err e
      | Ok _ \<Rightarrow> (case Suffix_try_from_str text of Err e \<Rightarrow> Err (Config_Identity e)
        | Ok x \<Rightarrow> Ok (config\<lparr>mc_suffix := x\<rparr>)))"

datatype DstarError =
    Gateway_Shell MmdvmShellError
  | Gateway_Timeout duration
  | InvalidEventTimeout duration
  | Gateway_TransportClosed
  | Gateway_Fatal MmdvmShellError

section \<open>Status headers\<close>

record DstarStatusReflector =
  sr_name :: ReflectorCallsign
  sr_module :: DstarModule

datatype DstarStatusReflectorError = Status_InvalidValue TypeError | Status_NameTooLong nat nat

definition STATUS_MAX_NAME_LEN :: nat where "STATUS_MAX_NAME_LEN = 7"

text \<open>\<open>rposition\<close> of the last byte that is not a space, plus one.\<close>

definition name_len :: "bytes \<Rightarrow> nat" where
  "name_len bs = length (trim_end (\<lambda>b. b = 0x20) bs)"

definition DstarStatusReflector_new :: "bytes \<Rightarrow> nat \<Rightarrow> DstarStatusReflectorError + DstarStatusReflector" where
  "DstarStatusReflector_new name m =
     (case ReflectorCallsign_try_from_str name of Err e \<Rightarrow> Err (Status_InvalidValue e)
      | Ok r \<Rightarrow> (case Module_try_from_char m of Err e \<Rightarrow> Err (Status_InvalidValue e)
        | Ok md \<Rightarrow>
          (let n = name_len (callsign_bytes (rc_callsign r))
           in if n > STATUS_MAX_NAME_LEN then Err (Status_NameTooLong n STATUS_MAX_NAME_LEN)
              else Ok \<lparr>sr_name = r, sr_module = md\<rparr>)))"

definition status_wire_bytes :: "DstarStatusReflector \<Rightarrow> bytes" where
  "status_wire_bytes r = take 7 (callsign_bytes (rc_callsign (sr_name r))) @ [Module_as_byte (sr_module r)]"

definition DIRECT :: bytes where "DIRECT = [0x44, 0x49, 0x52, 0x45, 0x43, 0x54, 0x20, 0x20]"

definition status_header :: "DstarModemConfig \<Rightarrow> DstarStatusReflector option \<Rightarrow> DstarHeader" where
  "status_header config reflector =
     (let rpt_bytes = (case reflector of None \<Rightarrow> DIRECT | Some r \<Rightarrow> status_wire_bytes r)
      in \<lparr>dh_flags = HeaderFlags_NONE, rpt2 = DstarCallsign_from_wire_bytes rpt_bytes,
          rpt1 = DstarCallsign_from_wire_bytes rpt_bytes, ur_call = CQCQCQ,
          my_call = mc_callsign config, my_suffix = mc_suffix config\<rparr>)"

section \<open>Events and state\<close>

text \<open>\<open>ObservedDstarCallsign\<close> is the eight received bytes, like a callsign.\<close>

record LastHeardEntry =
  lh_callsign :: DstarCallsign
  lh_suffix :: Suffix
  lh_destination :: DstarCallsign
  lh_repeater1 :: DstarCallsign
  lh_repeater2 :: DstarCallsign
  lh_timestamp :: instant

definition LastHeardEntry_age :: "instant \<Rightarrow> LastHeardEntry \<Rightarrow> duration" where
  "LastHeardEntry_age now e = now - lh_timestamp e"

datatype DstarProtocolViolation =
    VoiceDataWithoutHeader VoiceFrame
  | EndOfTransmissionWithoutHeader
  | SignalLostWithoutHeader

datatype DstarEvent =
    VoiceStart DstarHeader
  | VoiceData VoiceFrame
  | VoiceEnd
  | VoiceLost
  | EchoRecordingAborted nat
  | Gateway_EventsDropped nat
  | Gateway_Violation DstarProtocolViolation
  | TextMessage SlowDataTextMessage
  | StationHeard LastHeardEntry
  | UrCallCommand UrCallAction
  | StatusUpdate ModemStatus
  | ModemEvent MmdvmEvent

record 'm DstarModem =
  dm_modem :: 'm
  dm_config :: DstarModemConfig
  dm_slow_data :: SlowDataTextCollector
  dm_slow_data_frame_index :: u8
  dm_last_heard :: "LastHeardEntry list"
  dm_rx_active :: bool
  dm_rx_header :: "DstarHeader option"
  dm_pending_events :: "DstarEvent list"
  dm_echo_header :: "DstarHeader option"
  dm_echo_frames :: "VoiceFrame list"
  dm_echo_active :: bool
  dm_event_timeout :: duration
  dm_last_tx_active :: "bool option"
  dm_last_health_bits :: "u8 option"

text \<open>The state that \<open>initialize\<close> builds once configuration and mode change are acknowledged.\<close>

definition DstarModem_started :: "'m \<Rightarrow> DstarModemConfig \<Rightarrow> 'm DstarModem" where
  "DstarModem_started modem config =
     \<lparr>dm_modem = modem, dm_config = config, dm_slow_data = SlowDataTextCollector_new,
      dm_slow_data_frame_index = 0, dm_last_heard = [], dm_rx_active = False, dm_rx_header = None,
      dm_pending_events = [], dm_echo_header = None, dm_echo_frames = [], dm_echo_active = False,
      dm_event_timeout = EVENT_POLL_TIMEOUT, dm_last_tx_active = None, dm_last_health_bits = None\<rparr>"

type_synonym 'm call = "'m \<Rightarrow> (MmdvmShellError + unit) \<times> 'm"

definition init_dstar :: "'m call \<Rightarrow> 'm call \<Rightarrow> 'm \<Rightarrow> (DstarError + unit) \<times> 'm" where
  "init_dstar configure_dstar set_mode modem =
     (case configure_dstar modem of
        (Err e, modem) \<Rightarrow> (Err (Gateway_Shell e), modem)
      | (Ok _, modem) \<Rightarrow> (case set_mode modem of
          (Err e, modem) \<Rightarrow> (Err (Gateway_Shell e), modem)
        | (Ok _, modem) \<Rightarrow> (Ok (), modem)))"

definition DstarModem_initialize ::
  "'m call \<Rightarrow> 'm call \<Rightarrow> 'm \<Rightarrow> DstarModemConfig \<Rightarrow> ('m \<times> DstarError) + 'm DstarModem" where
  "DstarModem_initialize configure_dstar set_mode modem config =
     (case init_dstar configure_dstar set_mode modem of
        (Err e, modem) \<Rightarrow> Err (modem, e)
      | (Ok _, modem) \<Rightarrow> Ok (DstarModem_started modem config))"

section \<open>Transmission\<close>

datatype voice_request = VR_Header bytes | VR_Data bytes | VR_Eot

type_synonym 'm submit = "voice_request \<Rightarrow> 'm call"

definition dm_call :: "'m call \<Rightarrow> 'm DstarModem \<Rightarrow> (DstarError + unit) \<times> 'm DstarModem" where
  "dm_call f d = (case f (dm_modem d) of
     (Err e, m) \<Rightarrow> (Err (Gateway_Shell e), d\<lparr>dm_modem := m\<rparr>) | (Ok _, m) \<Rightarrow> (Ok (), d\<lparr>dm_modem := m\<rparr>))"

definition send_header :: "'m submit \<Rightarrow> DstarHeader \<Rightarrow> 'm DstarModem \<Rightarrow> (DstarError + unit) \<times> 'm DstarModem" where
  "send_header submit header = dm_call (submit (VR_Header (DstarHeader_encode header)))"

definition voice_bytes :: "VoiceFrame \<Rightarrow> bytes" where
  "voice_bytes frame = ambe frame @ slow_data frame"

definition send_voice :: "'m submit \<Rightarrow> VoiceFrame \<Rightarrow> 'm DstarModem \<Rightarrow> (DstarError + unit) \<times> 'm DstarModem" where
  "send_voice submit frame = dm_call (submit (VR_Data (voice_bytes frame)))"

definition send_eot :: "'m submit \<Rightarrow> 'm DstarModem \<Rightarrow> (DstarError + unit) \<times> 'm DstarModem" where
  "send_eot submit = dm_call (submit VR_Eot)"

definition send_status_header ::
  "'m submit \<Rightarrow> DstarStatusReflector option \<Rightarrow> 'm DstarModem \<Rightarrow> (DstarError + unit) \<times> 'm DstarModem" where
  "send_status_header submit reflector d = send_header submit (status_header (dm_config d) reflector) d"

fun send_frames :: "'m submit \<Rightarrow> VoiceFrame list \<Rightarrow> 'm DstarModem \<Rightarrow> (DstarError + unit) \<times> 'm DstarModem" where
  "send_frames submit [] d = (Ok (), d)"
| "send_frames submit (f # fs) d =
     (case send_voice submit f d of (Err e, d) \<Rightarrow> (Err e, d) | (Ok _, d) \<Rightarrow> send_frames submit fs d)"

definition echo_reply :: "DstarModemConfig \<Rightarrow> DstarHeader \<Rightarrow> DstarHeader" where
  "echo_reply config orig =
     (let rpt2_bytes = (callsign_bytes (mc_callsign config))[7 := 0x47]
      in \<lparr>dh_flags = dh_flags orig, rpt2 = DstarCallsign_from_wire_bytes rpt2_bytes, rpt1 = rpt1 orig,
          ur_call = my_call orig, my_call = mc_callsign config, my_suffix = mc_suffix config\<rparr>)"

definition play_echo ::
  "'m submit \<Rightarrow> DstarHeader \<Rightarrow> VoiceFrame list \<Rightarrow> 'm DstarModem \<Rightarrow> (DstarError + unit) \<times> 'm DstarModem" where
  "play_echo submit orig_header frames d =
     (if frames = [] then (Ok (), d)
      else (case send_header submit (echo_reply (dm_config d) orig_header) d of (Err e, d) \<Rightarrow> (Err e, d)
        | (Ok _, d) \<Rightarrow> (case send_frames submit frames d of (Err e, d) \<Rightarrow> (Err e, d)
          | (Ok _, d) \<Rightarrow> send_eot submit d)))"

section \<open>Reception\<close>

definition reset_receive_state :: "'m DstarModem \<Rightarrow> 'm DstarModem" where
  "reset_receive_state d =
     d\<lparr>dm_rx_active := False, dm_rx_header := None, dm_slow_data := SlowDataTextCollector_reset (dm_slow_data d),
       dm_slow_data_frame_index := 0, dm_echo_active := False, dm_echo_header := None, dm_echo_frames := []\<rparr>"

definition update_last_heard :: "LastHeardEntry \<Rightarrow> 'm DstarModem \<Rightarrow> 'm DstarModem" where
  "update_last_heard entry d =
     (let lh = filter (\<lambda>e. lh_callsign e \<noteq> lh_callsign entry) (dm_last_heard d);
          lh = entry # lh;
          limit = mc_max_last_heard (dm_config d);
          lh = (if length lh > limit then take limit lh else lh)
      in d\<lparr>dm_last_heard := lh\<rparr>)"

definition push_pending :: "DstarEvent \<Rightarrow> 'm DstarModem \<Rightarrow> 'm DstarModem" where
  "push_pending e d = d\<lparr>dm_pending_events := dm_pending_events d @ [e]\<rparr>"

text \<open>\<open>VecDeque::insert\<close> and \<open>VecDeque::remove\<close>.\<close>

definition insert_pending :: "nat \<Rightarrow> DstarEvent \<Rightarrow> 'm DstarModem \<Rightarrow> 'm DstarModem" where
  "insert_pending i e d = d\<lparr>dm_pending_events := take i (dm_pending_events d) @ e # drop i (dm_pending_events d)\<rparr>"

definition remove_pending :: "nat \<Rightarrow> 'm DstarModem \<Rightarrow> DstarEvent option \<times> 'm DstarModem" where
  "remove_pending i d =
     (case get i (dm_pending_events d) of None \<Rightarrow> (None, d)
      | Some e \<Rightarrow> (Some e, d\<lparr>dm_pending_events := take i (dm_pending_events d) @ drop (Suc i) (dm_pending_events d)\<rparr>))"

definition heard_entry :: "instant \<Rightarrow> DstarHeader \<Rightarrow> LastHeardEntry" where
  "heard_entry now header = \<lparr>lh_callsign = my_call header, lh_suffix = my_suffix header,
     lh_destination = ur_call header, lh_repeater1 = rpt1 header, lh_repeater2 = rpt2 header, lh_timestamp = now\<rparr>"

definition handle_voice_start :: "instant \<Rightarrow> DstarHeader \<Rightarrow> 'm DstarModem \<Rightarrow> 'm DstarModem" where
  "handle_voice_start now header d =
     (let d = reset_receive_state d;
          d = d\<lparr>dm_rx_active := True, dm_rx_header := Some header\<rparr>;
          entry = heard_entry now header;
          d = update_last_heard entry d;
          d = push_pending (StationHeard entry) d;
          action = UrCallAction_classify (ur_call header)
      in case action of UrCq \<Rightarrow> d | UrCallsign _ \<Rightarrow> d
         | UrEcho \<Rightarrow> d\<lparr>dm_echo_active := True, dm_echo_header := Some header\<rparr>
         | _ \<Rightarrow> push_pending (UrCallCommand action) d)"

definition handle_voice_data :: "VoiceFrame \<Rightarrow> 'm DstarModem \<Rightarrow> 'm DstarModem" where
  "handle_voice_data frame d =
     (let idx = (dm_slow_data_frame_index d mod 20) + 1;
          d = d\<lparr>dm_slow_data := SlowDataTextCollector_push (slow_data frame) idx (dm_slow_data d),
                dm_slow_data_frame_index := dm_slow_data_frame_index d + 1\<rparr>
      in if dm_echo_active d
         then (if length (dm_echo_frames d) < MAX_ECHO_RECORDING_FRAMES
               then d\<lparr>dm_echo_frames := dm_echo_frames d @ [frame]\<rparr>
               else push_pending (EchoRecordingAborted MAX_ECHO_RECORDING_FRAMES)
                      (d\<lparr>dm_echo_active := False, dm_echo_header := None, dm_echo_frames := []\<rparr>))
         else d)"

definition take_text_message :: "'m DstarModem \<Rightarrow> 'm DstarModem \<times> SlowDataTextMessage option" where
  "take_text_message d = (let (c, t) = take_message (dm_slow_data d) in (d\<lparr>dm_slow_data := c\<rparr>, t))"

definition take_recording :: "'m DstarModem \<Rightarrow> 'm DstarModem \<times> (DstarHeader \<times> VoiceFrame list) option" where
  "take_recording d =
     (if dm_echo_active d
      then (case dm_echo_header d of None \<Rightarrow> (d, None)
            | Some header \<Rightarrow> (d\<lparr>dm_echo_header := None, dm_echo_frames := []\<rparr>, Some (header, dm_echo_frames d)))
      else (d, None))"

definition on_eot :: "'m submit \<Rightarrow> 'm DstarModem \<Rightarrow> (DstarError + DstarEvent option) \<times> 'm DstarModem" where
  "on_eot submit d =
     (let (d, text_event) = take_text_message d;
          (d, echo_recording) = take_recording d;
          d = reset_receive_state d;
          end_event_index = length (dm_pending_events d);
          d = push_pending VoiceEnd d;
          d = (case text_event of None \<Rightarrow> d | Some text \<Rightarrow> push_pending (TextMessage text) d)
      in case (case echo_recording of None \<Rightarrow> (Ok (), d)
               | Some (header, frames) \<Rightarrow> play_echo submit header frames d) of
           (Err e, d) \<Rightarrow> (Err e, d)
         | (Ok _, d) \<Rightarrow> (let (e, d) = remove_pending end_event_index d in (Ok e, d)))"

definition gateway_handle_status :: "ModemStatus \<Rightarrow> 'm DstarModem \<Rightarrow> DstarEvent option \<times> 'm DstarModem" where
  "gateway_handle_status st d =
     (let health_now = flag_bits (ms_flags st) AND NOT 0x01 AND NOT 0x40;
          d = d\<lparr>dm_last_health_bits := Some health_now\<rparr>;
          tx_now = flag_tx (ms_flags st);
          changed = (dm_last_tx_active d \<noteq> Some tx_now);
          d = d\<lparr>dm_last_tx_active := Some tx_now\<rparr>
      in (if changed then Some (StatusUpdate st) else None, d))"

fun terminal_event_error :: "MmdvmEvent \<Rightarrow> DstarError option" where
  "terminal_event_error TransportClosed = Some Gateway_TransportClosed"
| "terminal_event_error (Ev_Fatal message) = Some (Gateway_Fatal message)"
| "terminal_event_error _ = None"

fun translate_event :: "'m submit \<Rightarrow> instant \<Rightarrow> MmdvmEvent \<Rightarrow> 'm DstarModem \<Rightarrow>
    (DstarError + DstarEvent option) \<times> 'm DstarModem" where
  "translate_event submit now (DstarHeaderRx bs) d =
     (let header = DstarHeader_decode bs;
          preempted = dm_rx_active d;
          followup_start = length (dm_pending_events d);
          d = handle_voice_start now header d
      in if preempted then (Ok (Some VoiceLost), insert_pending followup_start (VoiceStart header) d)
         else (Ok (Some (VoiceStart header)), d))"
| "translate_event submit now (DstarDataRx bs) d =
     (let frame = \<lparr>ambe = take 9 bs, slow_data = drop 9 bs\<rparr>
      in if \<not> dm_rx_active d then (Ok (Some (Gateway_Violation (VoiceDataWithoutHeader frame))), d)
         else (Ok (Some (VoiceData frame)), handle_voice_data frame d))"
| "translate_event submit now DstarEot d =
     (if dm_rx_active d then on_eot submit d
      else (Ok (Some (Gateway_Violation EndOfTransmissionWithoutHeader)), d))"
| "translate_event submit now DstarLost d =
     (if dm_rx_active d then (Ok (Some VoiceLost), reset_receive_state d)
      else (Ok (Some (Gateway_Violation SignalLostWithoutHeader)), reset_receive_state d))"
| "translate_event submit now (EventsDropped n) d =
     (let interrupted = dm_rx_active d;
          d = reset_receive_state d;
          d = (if interrupted then push_pending VoiceLost d else d)
      in (Ok (Some (Gateway_EventsDropped n)), d))"
| "translate_event submit now (Ev_Status st) d = (let (e, d) = gateway_handle_status st d in (Ok e, d))"
| "translate_event submit now other d = (Ok (Some (ModemEvent other)), d)"

definition dispatch_event :: "'m submit \<Rightarrow> instant \<Rightarrow> MmdvmEvent \<Rightarrow> 'm DstarModem \<Rightarrow>
    (DstarError + DstarEvent option) \<times> 'm DstarModem" where
  "dispatch_event submit now raw d =
     (case terminal_event_error raw of Some err \<Rightarrow> (Err err, d) | None \<Rightarrow> translate_event submit now raw d)"

text \<open>
  \<open>next_event\<close> after its buffered events are drained: what the modem's event channel yields, with
  the clock before each wait, until something is delivered or the deadline passes; \<open>None\<close> while it
  still waits.
\<close>

datatype arrival = Arrived MmdvmEvent instant | Modem_closed | Quiet

fun next_event_loop :: "'m submit \<Rightarrow> instant \<Rightarrow> (instant \<times> arrival) list \<Rightarrow> 'm DstarModem \<Rightarrow>
    (DstarError + DstarEvent option) option \<times> 'm DstarModem" where
  "next_event_loop submit deadline [] d = (None, d)"
| "next_event_loop submit deadline ((now, a) # rest) d =
     (if deadline - now = 0 then (Some (Ok None), d)
      else (case a of
              Modem_closed \<Rightarrow> (Some (Err Gateway_TransportClosed), d)
            | Quiet \<Rightarrow> (Some (Ok None), d)
            | Arrived raw at \<Rightarrow>
              (case dispatch_event submit at raw d of
                 (Err e, d) \<Rightarrow> (Some (Err e), d)
               | (Ok (Some evt), d) \<Rightarrow> (Some (Ok (Some evt)), d)
               | (Ok None, d) \<Rightarrow> next_event_loop submit deadline rest d)))"

definition next_event :: "'m submit \<Rightarrow> instant \<Rightarrow> (instant \<times> arrival) list \<Rightarrow> 'm DstarModem \<Rightarrow>
    (DstarError + DstarEvent option) option \<times> 'm DstarModem" where
  "next_event submit start arrivals d =
     (case dm_pending_events d of
        e # rest \<Rightarrow> (Some (Ok (Some e)), d\<lparr>dm_pending_events := rest\<rparr>)
      | [] \<Rightarrow> (case checked_add start (dm_event_timeout d) of
                 None \<Rightarrow> (Some (Err (InvalidEventTimeout (dm_event_timeout d))), d)
               | Some deadline \<Rightarrow> next_event_loop submit deadline arrivals d))"

text \<open>\<open>poll_status\<close> after its request is written: every other event is kept for \<open>next_event\<close>, the
  event itself before those it gave rise to. The outer deadline may also cut off a submission that is
  waiting; what it leaves behind is the state of a submission that failed.\<close>

fun status_of :: "MmdvmEvent \<Rightarrow> ModemStatus option" where
  "status_of (Ev_Status st) = Some st"
| "status_of _ = None"

fun poll_status_loop :: "'m submit \<Rightarrow> instant \<Rightarrow> (instant \<times> arrival) list \<Rightarrow> 'm DstarModem \<Rightarrow>
    (DstarError + ModemStatus) option \<times> 'm DstarModem" where
  "poll_status_loop submit deadline [] d = (None, d)"
| "poll_status_loop submit deadline ((now, a) # rest) d =
     (if deadline \<le> now then (Some (Err (Gateway_Timeout STATUS_POLL_TIMEOUT)), d)
      else (case a of
              Modem_closed \<Rightarrow> (Some (Err Gateway_TransportClosed), d)
            | Quiet \<Rightarrow> (Some (Err (Gateway_Timeout STATUS_POLL_TIMEOUT)), d)
            | Arrived raw at \<Rightarrow>
              (case status_of raw of Some st \<Rightarrow> (Some (Ok st), d)
               | None \<Rightarrow>
                 (let insertion_index = length (dm_pending_events d) in
                  case dispatch_event submit at raw d of
                    (Err e, d) \<Rightarrow> (Some (Err e), d)
                  | (Ok (Some evt), d) \<Rightarrow> poll_status_loop submit deadline rest (insert_pending insertion_index evt d)
                  | (Ok None, d) \<Rightarrow> poll_status_loop submit deadline rest d))))"

definition poll_status :: "'m submit \<Rightarrow> 'm call \<Rightarrow> instant \<Rightarrow> (instant \<times> arrival) list \<Rightarrow> 'm DstarModem \<Rightarrow>
    (DstarError + ModemStatus) option \<times> 'm DstarModem" where
  "poll_status submit request_status start arrivals d =
     (case dm_call request_status d of (Err e, d) \<Rightarrow> (Some (Err e), d)
      | (Ok _, d) \<Rightarrow> poll_status_loop submit (start + STATUS_POLL_TIMEOUT) arrivals d)"

definition set_event_timeout :: "duration \<Rightarrow> 'm DstarModem \<Rightarrow> 'm DstarModem" where
  "set_event_timeout timeout d = d\<lparr>dm_event_timeout := timeout\<rparr>"

section \<open>The gateway's state\<close>

definition gateway_wf :: "'m DstarModem \<Rightarrow> bool" where
  "gateway_wf d \<longleftrightarrow> (dm_rx_active d \<longleftrightarrow> dm_rx_header d \<noteq> None) \<and>
     (if dm_echo_active d then dm_rx_active d \<and> dm_echo_header d = dm_rx_header d
      else dm_echo_header d = None \<and> dm_echo_frames d = []) \<and>
     length (dm_echo_frames d) \<le> MAX_ECHO_RECORDING_FRAMES \<and>
     distinct (map lh_callsign (dm_last_heard d)) \<and>
     length (dm_last_heard d) \<le> mc_max_last_heard (dm_config d)"

lemma gateway_wf_started: "gateway_wf (DstarModem_started m c)"
  by (simp add: gateway_wf_def DstarModem_started_def)

text \<open>Submissions change the modem only.\<close>

lemma dm_call_modem: "dm_call f d = (r, d') \<Longrightarrow> \<exists>m. d' = d\<lparr>dm_modem := m\<rparr>"
  by (auto simp: dm_call_def split: prod.splits sum.splits)

lemma send_frames_modem: "send_frames submit fs d = (r, d') \<Longrightarrow> \<exists>m. d' = d\<lparr>dm_modem := m\<rparr>"
proof (induction fs arbitrary: d)
  case Nil
  then show ?case by (auto intro: exI [of _ "dm_modem d"])
next
  case (Cons f fs)
  obtain r1 d1 where c: "send_voice submit f d = (r1, d1)" by fastforce
  then obtain m where m: "d1 = d\<lparr>dm_modem := m\<rparr>" using dm_call_modem unfolding send_voice_def by blast
  show ?case
  proof (cases r1)
    case (Inl e)
    then show ?thesis using Cons.prems c m by auto
  next
    case (Inr u)
    then obtain m' where "d' = d1\<lparr>dm_modem := m'\<rparr>" using Cons.IH [of d1] Cons.prems c by auto
    then show ?thesis using m by auto
  qed
qed

lemma play_echo_modem:
  assumes "play_echo submit h fs d = (r, d')"
  shows "\<exists>m. d' = d\<lparr>dm_modem := m\<rparr>"
proof (cases "fs = []")
  case True
  then show ?thesis using assms by (auto simp: play_echo_def intro: exI [of _ "dm_modem d"])
next
  case False
  obtain r1 d1 where a: "send_header submit (echo_reply (dm_config d) h) d = (r1, d1)" by fastforce
  obtain r2 d2 where b: "send_frames submit fs d1 = (r2, d2)" by fastforce
  obtain r3 d3 where c: "send_eot submit d2 = (r3, d3)" by fastforce
  have 1: "\<exists>m. d1 = d\<lparr>dm_modem := m\<rparr>" using dm_call_modem a unfolding send_header_def by blast
  have 2: "\<exists>m. d2 = d1\<lparr>dm_modem := m\<rparr>" by (rule send_frames_modem [OF b])
  have 3: "\<exists>m. d3 = d2\<lparr>dm_modem := m\<rparr>" using dm_call_modem c unfolding send_eot_def by blast
  show ?thesis using assms False a b c 1 2 3 by (auto simp: play_echo_def split: sum.splits)
qed

section \<open>What a consumer sees\<close>

text \<open>
  Reception as an automaton over the gateway's events, whose phase is the header of the open
  transmission: a transmission opens with its header, its station and a command are those of the
  header, voice belongs to an open transmission, and it ends once, cleanly or lost. Frames without
  a header are reported only while none is open.
\<close>

fun gateway_observe :: "DstarEvent \<Rightarrow> DstarHeader option \<Rightarrow> DstarHeader option option" where
  "gateway_observe (VoiceStart h) ph = (if ph = None then Some (Some h) else None)"
| "gateway_observe (VoiceData f) ph = (if ph = None then None else Some ph)"
| "gateway_observe VoiceEnd ph = (if ph = None then None else Some None)"
| "gateway_observe VoiceLost ph = (if ph = None then None else Some None)"
| "gateway_observe (EchoRecordingAborted n) ph =
     (case ph of Some h \<Rightarrow> if UrCallAction_classify (ur_call h) = UrEcho then Some ph else None | None \<Rightarrow> None)"
| "gateway_observe (Gateway_Violation v) ph = (if ph = None then Some None else None)"
| "gateway_observe (StationHeard e) ph =
     (case ph of Some h \<Rightarrow> if e = heard_entry (lh_timestamp e) h then Some ph else None | None \<Rightarrow> None)"
| "gateway_observe (UrCallCommand a) ph =
     (case ph of Some h \<Rightarrow> if a = UrCallAction_classify (ur_call h) \<and> a \<notin> {UrCq, UrEcho} then Some ph else None
      | None \<Rightarrow> None)"
| "gateway_observe _ ph = Some ph"

definition gateway_phase :: "'m DstarModem \<Rightarrow> DstarHeader option \<Rightarrow> bool" where
  "gateway_phase d ph \<longleftrightarrow> gateway_wf d \<and> ph = dm_rx_header d \<and>
     (dm_echo_active d \<longrightarrow> (\<exists>h. ph = Some h \<and> UrCallAction_classify (ur_call h) = UrEcho))"

text \<open>One translated event, and one event taken by the consumer.\<close>

datatype gateway_op = Op_event instant MmdvmEvent | Op_take

definition gateway_absorb :: "'m submit \<Rightarrow> instant \<Rightarrow> MmdvmEvent \<Rightarrow> 'm DstarModem \<Rightarrow> 'm DstarModem" where
  "gateway_absorb submit now raw d =
     (case dispatch_event submit now raw d of
        (Ok (Some e), d') \<Rightarrow> insert_pending (length (dm_pending_events d)) e d'
      | (_, d') \<Rightarrow> d')"

fun gateway_step :: "'m submit \<Rightarrow> gateway_op \<Rightarrow> 'm DstarModem \<Rightarrow> DstarEvent option \<times> 'm DstarModem" where
  "gateway_step submit (Op_event now raw) d = (None, gateway_absorb submit now raw d)"
| "gateway_step submit Op_take d = (case dm_pending_events d of [] \<Rightarrow> (None, d)
     | e # rest \<Rightarrow> (Some e, d\<lparr>dm_pending_events := rest\<rparr>))"

lemma gateway_phase_pending: "gateway_phase (d\<lparr>dm_pending_events := p\<rparr>) ph = gateway_phase d ph"
  by (simp add: gateway_phase_def gateway_wf_def)

lemma last_heard_wf:
  assumes "distinct (map lh_callsign lh)" "length lh \<le> n"
  shows "distinct (map lh_callsign (take n (e # filter (\<lambda>x. lh_callsign x \<noteq> lh_callsign e) lh)))"
proof -
  have "distinct (map lh_callsign (e # filter (\<lambda>x. lh_callsign x \<noteq> lh_callsign e) lh))"
    using assms by (auto simp: distinct_map_filter)
  then show ?thesis by (metis distinct_take take_map)
qed

lemma reset_phase: "gateway_wf d \<Longrightarrow> gateway_phase (reset_receive_state d) None"
  by (simp add: gateway_phase_def gateway_wf_def reset_receive_state_def)

lemma voice_start_events:
  assumes "gateway_wf d"
  shows "\<exists>es. dm_pending_events (handle_voice_start now h d) = dm_pending_events d @ es \<and>
    follow gateway_observe es (Some h) = Some (Some h) \<and> gateway_phase (handle_voice_start now h d) (Some h)"
proof -
  let ?e = "heard_entry now h"
  let ?d = "push_pending (StationHeard ?e) (update_last_heard ?e
    ((reset_receive_state d)\<lparr>dm_rx_active := True, dm_rx_header := Some h\<rparr>))"
  have l: "distinct (map lh_callsign (dm_last_heard ?d))" "length (dm_last_heard ?d) \<le> mc_max_last_heard (dm_config ?d)"
    using assms last_heard_wf [of "dm_last_heard d" "mc_max_last_heard (dm_config d)" ?e]
    by (auto simp: push_pending_def update_last_heard_def reset_receive_state_def gateway_wf_def Let_def
        distinct_map_filter)
  have p: "gateway_phase ?d (Some h)" "dm_pending_events ?d = dm_pending_events d @ [StationHeard ?e]"
    using l by (auto simp: gateway_phase_def gateway_wf_def push_pending_def update_last_heard_def
        reset_receive_state_def Let_def)
  have s: "gateway_observe (StationHeard ?e) (Some h) = Some (Some h)" by (simp add: heard_entry_def)
  show ?thesis
  proof (cases "UrCallAction_classify (ur_call h)")
    case UrEcho
    then show ?thesis using l p s
      by (auto simp: handle_voice_start_def Let_def gateway_phase_def gateway_wf_def)
  qed (use p s in \<open>auto simp: handle_voice_start_def Let_def push_pending_def gateway_phase_pending follow_append\<close>)
qed

lemma voice_data_events:
  assumes "gateway_phase d (Some h)"
  shows "\<exists>es. dm_pending_events (handle_voice_data f d) = dm_pending_events d @ es \<and>
    follow gateway_observe es (Some h) = Some (Some h) \<and> gateway_phase (handle_voice_data f d) (Some h)"
  using assms by (auto simp: handle_voice_data_def Let_def push_pending_def gateway_phase_def gateway_wf_def)

text \<open>What one translated event adds to the pending events, in the consumer's order.\<close>

definition extends :: "'m DstarModem \<Rightarrow> DstarHeader option \<Rightarrow> 'm DstarModem \<Rightarrow> bool" where
  "extends d ph d' \<longleftrightarrow> (\<exists>es ph'. dm_pending_events d' = dm_pending_events d @ es \<and>
     follow gateway_observe es ph = Some ph' \<and> gateway_phase d' ph')"

lemma extendsI: "dm_pending_events d' = dm_pending_events d @ es \<Longrightarrow> follow gateway_observe es ph = Some ph' \<Longrightarrow>
    gateway_phase d' ph' \<Longrightarrow> extends d ph d'"
  by (auto simp: extends_def)

lemma insert_primary:
  assumes "dm_pending_events d' = dm_pending_events d @ es"
  shows "dm_pending_events (insert_pending (length (dm_pending_events d)) e d') = dm_pending_events d @ e # es"
  using assms by (simp add: insert_pending_def)

lemma insert_pending_phase: "gateway_phase (insert_pending i e d) ph = gateway_phase d ph"
  by (simp add: insert_pending_def gateway_phase_pending)

lemma gateway_phase_modem: "gateway_phase (d\<lparr>dm_modem := m\<rparr>) ph = gateway_phase d ph"
  by (simp add: gateway_phase_def gateway_wf_def)

lemma eot_state:
  assumes "gateway_wf d" "on_eot submit d = (r, d')"
  shows "\<exists>es. set es \<subseteq> range TextMessage \<and> gateway_phase d' None \<and>
    (case r of Ok e \<Rightarrow> e = Some VoiceEnd \<and> dm_pending_events d' = dm_pending_events d @ es
     | Err _ \<Rightarrow> dm_pending_events d' = dm_pending_events d @ VoiceEnd # es)"
proof -
  obtain d1 t where a: "take_text_message d = (d1, t)" by fastforce
  obtain d2 rec where b: "take_recording d1 = (d2, rec)" by fastforce
  define es where "es = (case t of None \<Rightarrow> [] | Some x \<Rightarrow> [TextMessage x])"
  define d3 where "d3 = (case t of None \<Rightarrow> push_pending VoiceEnd (reset_receive_state d2)
    | Some x \<Rightarrow> push_pending (TextMessage x) (push_pending VoiceEnd (reset_receive_state d2)))"
  have p1: "dm_pending_events d2 = dm_pending_events d" and c: "dm_config d2 = dm_config d" "dm_last_heard d2 = dm_last_heard d"
    using a b by (auto simp: take_text_message_def take_recording_def Let_def split: prod.splits if_splits option.splits)
  have p: "dm_pending_events d3 = dm_pending_events d @ VoiceEnd # es"
    by (simp add: d3_def es_def push_pending_def reset_receive_state_def p1 split: option.splits)
  have i: "length (dm_pending_events (reset_receive_state d2)) = length (dm_pending_events d)"
    by (simp add: reset_receive_state_def p1)
  have w: "gateway_phase (d3\<lparr>dm_modem := m\<rparr>) None" for m
    using assms(1) c by (auto simp: d3_def gateway_phase_def gateway_wf_def push_pending_def reset_receive_state_def
        split: option.splits)
  obtain r4 d4 where e: "(case rec of None \<Rightarrow> (Ok (), d3) | Some (h, fs) \<Rightarrow> play_echo submit h fs d3) = (r4, d4)"
    by fastforce
  have "\<exists>m. d4 = d3\<lparr>dm_modem := m\<rparr>"
  proof (cases rec)
    case None
    then show ?thesis using e by (auto intro: exI [of _ "dm_modem d3"])
  next
    case (Some x)
    then show ?thesis using e play_echo_modem [of submit "fst x" "snd x" d3 r4 d4] by (cases x) simp
  qed
  then obtain m where m: "d4 = d3\<lparr>dm_modem := m\<rparr>" by blast
  have f: "on_eot submit d = (case r4 of Err x \<Rightarrow> (Err x, d4)
      | Ok _ \<Rightarrow> (let (e, d) = remove_pending (length (dm_pending_events d)) d4 in (Ok e, d)))"
    unfolding on_eot_def a b Let_def prod.case i d3_def [symmetric] e by (simp split: sum.splits)
  have "set es \<subseteq> range TextMessage" by (auto simp: es_def split: option.splits)
  moreover have "gateway_phase (d4\<lparr>dm_pending_events := q\<rparr>) None" for q
    using w m by (simp add: gateway_phase_pending)
  ultimately show ?thesis using f assms(2) p m w
    by (intro exI [of _ es]) (cases r4, auto simp: remove_pending_def get_def nth_append split: prod.splits)
qed

lemma follow_texts: "set es \<subseteq> range TextMessage \<Longrightarrow> follow gateway_observe es ph = Some ph"
  by (induction es) auto

lemma absorb_extends:
  assumes "gateway_phase d ph"
  shows "extends d ph (gateway_absorb submit now raw d)"
proof -
  have w: "gateway_wf d" and ph: "ph = dm_rx_header d" and act: "dm_rx_active d = (ph \<noteq> None)"
    using assms by (auto simp: gateway_phase_def gateway_wf_def)
  note defs = gateway_absorb_def dispatch_event_def Let_def
  have simple: "extends d ph (insert_pending (length (dm_pending_events d)) e d)"
    if "gateway_observe e ph = Some ph" for e
    using that insert_primary [of d d "[]" e] assms by (intro extendsI [of _ _ "[e]" _ ph]) (auto simp: insert_pending_phase)
  show ?thesis
  proof (cases raw)
    case (DstarHeaderRx bs)
    let ?h = "DstarHeader_decode bs"
    obtain es where e: "dm_pending_events (handle_voice_start now ?h d) = dm_pending_events d @ es"
        "follow gateway_observe es (Some ?h) = Some (Some ?h)" "gateway_phase (handle_voice_start now ?h d) (Some ?h)"
      using voice_start_events [OF w] by blast
    show ?thesis
    proof (cases "dm_rx_active d")
      case True
      then show ?thesis using DstarHeaderRx e act
        by (intro extendsI [of _ _ "VoiceLost # VoiceStart ?h # es" _ "Some ?h"])
           (auto simp: defs insert_pending_phase, simp add: insert_pending_def)
    next
      case False
      then show ?thesis using DstarHeaderRx e act insert_primary [OF e(1)]
        by (intro extendsI [of _ _ "VoiceStart ?h # es" _ "Some ?h"]) (auto simp: defs insert_pending_phase)
    qed
  next
    case (DstarDataRx bs)
    let ?f = "\<lparr>ambe = take 9 bs, slow_data = drop 9 bs\<rparr>"
    show ?thesis
    proof (cases ph)
      case (Some h)
      then obtain es where e: "dm_pending_events (handle_voice_data ?f d) = dm_pending_events d @ es"
          "follow gateway_observe es (Some h) = Some (Some h)" "gateway_phase (handle_voice_data ?f d) (Some h)"
        using voice_data_events assms by blast
      then show ?thesis using DstarDataRx Some act insert_primary [OF e(1)]
        by (intro extendsI [of _ _ "VoiceData ?f # es" _ "Some h"]) (auto simp: defs insert_pending_phase)
    qed (use DstarDataRx act simple in \<open>simp add: defs\<close>)
  next
    case DstarEot
    show ?thesis
    proof (cases ph)
      case (Some h)
      obtain r d' where o: "on_eot submit d = (r, d')" by fastforce
      obtain es where e: "set es \<subseteq> range TextMessage" "gateway_phase d' None"
        "case r of Ok e \<Rightarrow> e = Some VoiceEnd \<and> dm_pending_events d' = dm_pending_events d @ es
         | Err _ \<Rightarrow> dm_pending_events d' = dm_pending_events d @ VoiceEnd # es"
        using eot_state [OF w o] by blast
      have g: "gateway_absorb submit now raw d = (case r of
          Ok (Some e) \<Rightarrow> insert_pending (length (dm_pending_events d)) e d' | _ \<Rightarrow> d')"
        using DstarEot Some act o by (simp add: defs split: sum.splits option.splits)
      show ?thesis
        using e g Some follow_texts [OF e(1), of None] insert_primary [of d' d es VoiceEnd]
        by (intro extendsI [of _ _ "VoiceEnd # es" _ None]) (auto simp: insert_pending_phase split: sum.splits)
    qed (use DstarEot act simple in \<open>simp add: defs\<close>)
  next
    case DstarLost
    have r: "gateway_phase (reset_receive_state d) None" "dm_pending_events (reset_receive_state d) = dm_pending_events d @ []"
      using reset_phase [OF w] by (auto simp: reset_receive_state_def)
    show ?thesis
    proof (cases ph)
      case (Some h)
      then show ?thesis using DstarLost act r insert_primary [OF r(2)]
        by (intro extendsI [of _ _ "[VoiceLost]" _ None]) (auto simp: defs insert_pending_phase)
    next
      case None
      then show ?thesis using DstarLost act r insert_primary [OF r(2)]
        by (intro extendsI [of _ _ "[Gateway_Violation SignalLostWithoutHeader]" _ None])
           (auto simp: defs insert_pending_phase)
    qed
  next
    case (EventsDropped n)
    have r: "gateway_phase (reset_receive_state d) None" "dm_pending_events (reset_receive_state d) = dm_pending_events d"
      using reset_phase [OF w] by (auto simp: reset_receive_state_def)
    show ?thesis using EventsDropped act r
      by (intro extendsI [of _ _ "Gateway_EventsDropped n # (if dm_rx_active d then [VoiceLost] else [])" _ None])
         (auto simp: defs insert_pending_def push_pending_def gateway_phase_pending)
  next
    case (Ev_Status st)
    let ?d = "snd (gateway_handle_status st d)"
    have r: "gateway_phase ?d ph" "dm_pending_events ?d = dm_pending_events d @ []"
      using assms by (auto simp: gateway_handle_status_def gateway_phase_def gateway_wf_def Let_def)
    show ?thesis
    proof (cases "fst (gateway_handle_status st d)")
      case None
      then show ?thesis using Ev_Status r
        by (intro extendsI [of _ _ "[]" _ ph]) (auto simp: defs split: prod.splits)
    next
      case (Some e)
      then have "gateway_observe e ph = Some ph" by (auto simp: gateway_handle_status_def Let_def split: if_splits)
      then show ?thesis using Ev_Status r Some insert_primary [OF r(2)]
        by (intro extendsI [of _ _ "[e]" _ ph]) (auto simp: defs insert_pending_phase split: prod.splits)
    qed
  next
    case TransportClosed
    then show ?thesis using assms by (intro extendsI [of _ _ "[]" _ ph]) (auto simp: defs)
  next
    case (Ev_Fatal x)
    then show ?thesis using assms by (intro extendsI [of _ _ "[]" _ ph]) (auto simp: defs)
  qed (use simple in \<open>simp_all add: defs\<close>)
qed

interpretation gateway: event_source "gateway_step submit" "\<lambda>x. x" dm_pending_events gateway_observe gateway_phase
  for submit :: "'m submit"
proof
  fix op s and x :: "DstarEvent option" and s' ph e
  assume a: "gateway_step submit op s = (x, s')" and p: "gateway_phase s ph"
  { assume "x = Some e"
    then show "dm_pending_events s = e # dm_pending_events s' \<and> gateway_phase s' ph"
      using a p by (cases op) (auto simp: gateway_phase_pending split: list.splits) }
  assume "x = None"
  then show "\<exists>es ph'. dm_pending_events s' = dm_pending_events s @ es \<and>
      follow gateway_observe es ph = Some ph' \<and> gateway_phase s' ph'"
    using a p absorb_extends [OF p, of submit]
    by (cases op) (auto simp: extends_def split: list.splits)
qed

text \<open>A call of \<open>poll_status\<close> absorbs events; a call of \<open>next_event\<close> absorbs events until it can hand
  one out.\<close>

lemma poll_loop_steps:
  "poll_status_loop submit deadline as d = (r, d') \<Longrightarrow>
     \<exists>ops. run_steps (gateway_step submit) ops d = (replicate (length ops) None, d')"
proof (induction as arbitrary: d)
  case (Cons x as)
  obtain now a where x: "x = (now, a)" by (cases x)
  show ?case
  proof (cases "deadline \<le> now \<or> a = Modem_closed \<or> a = Quiet \<or> (\<exists>raw t st. a = Arrived raw t \<and> status_of raw = Some st)")
    case True
    then show ?thesis using Cons.prems x by (intro exI [of _ "[]"]) (auto split: if_splits)
  next
    case False
    then obtain raw t where a: "a = Arrived raw t" and st: "status_of raw = None" by (cases a) auto
    obtain q d1 where q: "dispatch_event submit t raw d = (q, d1)" by fastforce
    have "poll_status_loop submit deadline (x # as) d = (case q of Err e \<Rightarrow> (Some (Err e), gateway_absorb submit t raw d)
        | Ok _ \<Rightarrow> poll_status_loop submit deadline as (gateway_absorb submit t raw d))"
      using False x a q st by (auto simp: gateway_absorb_def Let_def split: sum.splits option.splits)
    then have "d' = gateway_absorb submit t raw d \<or>
        poll_status_loop submit deadline as (gateway_absorb submit t raw d) = (r, d')"
      using Cons.prems by (cases q) auto
    then obtain ops where "run_steps (gateway_step submit) ops (gateway_absorb submit t raw d) =
        (replicate (length ops) None, d')"
      using Cons.IH by (metis list.size(3) replicate_0 run_steps.simps(1))
    then show ?thesis by (intro exI [of _ "Op_event t raw # ops"]) simp
  qed
qed (auto intro!: exI [of _ "[]"])

lemma dispatch_none:
  assumes "dispatch_event submit t raw d = (Ok None, d1)" "dm_pending_events d = []" "gateway_wf d"
  shows "dm_pending_events d1 = []"
proof (cases raw)
  case (Ev_Status st)
  then show ?thesis using assms(1,2) by (auto simp: dispatch_event_def gateway_handle_status_def Let_def)
next
  case DstarEot
  then show ?thesis using assms eot_state [OF assms(3), of submit "Ok None" d1]
    by (auto simp: dispatch_event_def split: if_splits)
qed (use assms(1) in \<open>auto simp: dispatch_event_def Let_def split: if_splits\<close>)

lemma next_loop_steps:
  assumes "next_event_loop submit deadline as d = (r, d')" "dm_pending_events d = []" "gateway_phase d ph"
  shows "\<exists>ops xs. run_steps (gateway_step submit) ops d = (xs, d') \<and>
    handed_out (\<lambda>x. x) xs = (case r of Some (Ok (Some e)) \<Rightarrow> [e] | _ \<Rightarrow> [])"
  using assms
proof (induction as arbitrary: d ph)
  case (Cons x as)
  obtain now a where x: "x = (now, a)" by (cases x)
  show ?case
  proof (cases "deadline - now = 0 \<or> a = Modem_closed \<or> a = Quiet")
    case True
    then show ?thesis using Cons.prems x by (intro exI [of _ "[]"]) (auto split: if_splits)
  next
    case False
    then obtain raw t where a: "a = Arrived raw t" by (cases a) auto
    obtain q d1 where q: "dispatch_event submit t raw d = (q, d1)" by fastforce
    show ?thesis
    proof (cases q)
      case (Inl e)
      then show ?thesis using Cons.prems x a q False
        by (intro exI [of _ "[Op_event t raw]"] exI [of _ "[None]"]) (auto simp: gateway_absorb_def)
    next
      case (Inr o')
      show ?thesis
      proof (cases o')
        case None
        have p: "dm_pending_events d1 = []"
          using dispatch_none q Inr None Cons.prems(2,3) by (auto simp: gateway_phase_def)
        have b: "gateway_absorb submit t raw d = d1" using q Inr None by (simp add: gateway_absorb_def)
        then obtain ph' where ph': "gateway_phase d1 ph'"
          using absorb_extends [OF Cons.prems(3), of submit t raw] by (auto simp: extends_def)
        have l: "next_event_loop submit deadline as d1 = (r, d')"
          using Cons.prems(1) x a q Inr None False by simp
        obtain ops xs where "run_steps (gateway_step submit) ops d1 = (xs, d') \<and>
            handed_out (\<lambda>x. x) xs = (case r of Some (Ok (Some e)) \<Rightarrow> [e] | _ \<Rightarrow> [])"
          using Cons.IH [OF l p ph'] by blast
        then show ?thesis using b
          by (intro exI [of _ "Op_event t raw # ops"] exI [of _ "None # xs"]) simp
      next
        case (Some e)
        have b: "gateway_absorb submit t raw d = insert_pending 0 e d1"
          using q Inr Some Cons.prems(2) by (simp add: gateway_absorb_def)
        have "r = Some (Ok (Some e)) \<and> d' = d1" using Cons.prems(1) x a q Inr Some False by auto
        then show ?thesis using b
          by (intro exI [of _ "[Op_event t raw, Op_take]"] exI [of _ "[None, Some e]"])
             (simp add: insert_pending_def)
      qed
    qed
  qed
qed (auto intro!: exI [of _ "[]"])

datatype gateway_call =
    Call_next_event instant "(instant \<times> arrival) list"
  | Call_poll_status instant "(instant \<times> arrival) list"
  | Call_submit voice_request
  | Call_set_event_timeout duration

fun gateway_call_step :: "'m submit \<Rightarrow> 'm call \<Rightarrow> gateway_call \<Rightarrow> 'm DstarModem \<Rightarrow> DstarEvent list \<times> 'm DstarModem" where
  "gateway_call_step submit req (Call_next_event t as) d =
     (let (r, d) = next_event submit t as d in (case r of Some (Ok (Some e)) \<Rightarrow> [e] | _ \<Rightarrow> [], d))"
| "gateway_call_step submit req (Call_poll_status t as) d = ([], snd (poll_status submit req t as d))"
| "gateway_call_step submit req (Call_submit v) d = ([], snd (dm_call (submit v) d))"
| "gateway_call_step submit req (Call_set_event_timeout t) d = ([], set_event_timeout t d)"

fun gateway_calls :: "'m submit \<Rightarrow> 'm call \<Rightarrow> gateway_call list \<Rightarrow> 'm DstarModem \<Rightarrow> DstarEvent list \<times> 'm DstarModem" where
  "gateway_calls submit req [] d = ([], d)"
| "gateway_calls submit req (c # cs) d =
     (let (es, d) = gateway_call_step submit req c d; (fs, d) = gateway_calls submit req cs d in (es @ fs, d))"

lemma handed_out_nones: "handed_out (\<lambda>x. x) (replicate n None) = []"
  by (induction n) auto

lemma next_event_follows:
  assumes "next_event submit t as d = (r, d')" "gateway_phase d ph"
    and "follow gateway_observe (seen @ dm_pending_events d) None = Some ph"
  shows "\<exists>ph'. follow gateway_observe (seen @ (case r of Some (Ok (Some e)) \<Rightarrow> [e] | _ \<Rightarrow> []) @ dm_pending_events d') None
    = Some ph' \<and> gateway_phase d' ph'"
proof (cases "dm_pending_events d")
  case Nil
  show ?thesis
  proof (cases "checked_add t (dm_event_timeout d)")
    case None
    then show ?thesis using assms Nil by (auto simp: next_event_def)
  next
    case (Some deadline)
    then have l: "next_event_loop submit deadline as d = (r, d')" using assms(1) Nil by (simp add: next_event_def)
    obtain ops xs where o: "run_steps (gateway_step submit) ops d = (xs, d')"
      and h: "handed_out (\<lambda>x. x) xs = (case r of Some (Ok (Some e)) \<Rightarrow> [e] | _ \<Rightarrow> [])"
      using next_loop_steps [OF l Nil assms(2)] by blast
    show ?thesis using gateway.run_follows [OF o assms(3,2)] h by simp
  qed
next
  case (Cons e es)
  then show ?thesis using assms by (auto simp: next_event_def gateway_phase_pending)
qed

lemma poll_status_follows:
  assumes "poll_status submit req t as d = (r, d')" "gateway_phase d ph"
    and "follow gateway_observe (seen @ dm_pending_events d) None = Some ph"
  shows "\<exists>ph'. follow gateway_observe (seen @ dm_pending_events d') None = Some ph' \<and> gateway_phase d' ph'"
proof -
  obtain q d1 where c: "dm_call req d = (q, d1)" by fastforce
  obtain m where m: "d1 = d\<lparr>dm_modem := m\<rparr>" using dm_call_modem [OF c] by blast
  have p: "gateway_phase d1 ph" "follow gateway_observe (seen @ dm_pending_events d1) None = Some ph"
    using assms m by (simp_all add: gateway_phase_modem)
  show ?thesis
  proof (cases q)
    case (Inl e)
    then show ?thesis using assms(1) c p by (auto simp: poll_status_def)
  next
    case (Inr u)
    then have l: "poll_status_loop submit (t + STATUS_POLL_TIMEOUT) as d1 = (r, d')"
      using assms(1) c by (simp add: poll_status_def)
    obtain ops where o: "run_steps (gateway_step submit) ops d1 = (replicate (length ops) None, d')"
      using poll_loop_steps [OF l] by blast
    show ?thesis using gateway.run_follows [OF o p(2,1)] by (simp add: handed_out_nones)
  qed
qed

lemma gateway_call_follows:
  assumes "gateway_call_step submit req c d = (es, d')" "gateway_phase d ph"
    and "follow gateway_observe (seen @ dm_pending_events d) None = Some ph"
  shows "\<exists>ph'. follow gateway_observe (seen @ es @ dm_pending_events d') None = Some ph' \<and> gateway_phase d' ph'"
proof (cases c)
  case (Call_next_event t as)
  then show ?thesis using assms next_event_follows [OF _ assms(2,3)] by (auto split: prod.splits)
next
  case (Call_poll_status t as)
  then show ?thesis using assms poll_status_follows [OF prod.collapse [symmetric] assms(2,3)] by auto
next
  case (Call_submit v)
  obtain q d1 where q: "dm_call (submit v) d = (q, d1)" by fastforce
  obtain m where "d1 = d\<lparr>dm_modem := m\<rparr>" using dm_call_modem [OF q] by blast
  then show ?thesis using assms Call_submit q by (auto simp: gateway_phase_modem)
next
  case (Call_set_event_timeout t)
  then show ?thesis using assms by (auto simp: set_event_timeout_def gateway_phase_def gateway_wf_def)
qed

lemma gateway_calls_follow:
  assumes "gateway_calls submit req cs d = (es, d')" "gateway_phase d ph"
    and "follow gateway_observe (seen @ dm_pending_events d) None = Some ph"
  shows "\<exists>ph'. follow gateway_observe (seen @ es @ dm_pending_events d') None = Some ph' \<and> gateway_phase d' ph'"
  using assms
proof (induction cs arbitrary: d es seen ph)
  case (Cons c cs)
  obtain fs d1 where c: "gateway_call_step submit req c d = (fs, d1)" by fastforce
  obtain gs where g: "gateway_calls submit req cs d1 = (gs, d')" "es = fs @ gs"
    using Cons.prems(1) c by (auto split: prod.splits)
  obtain ph1 where "follow gateway_observe ((seen @ fs) @ dm_pending_events d1) None = Some ph1" "gateway_phase d1 ph1"
    using gateway_call_follows [OF c Cons.prems(2,3)] by auto
  from Cons.IH [OF g(1) this(2,1)] show ?case using g(2) by auto
qed auto

text \<open>C6. Through any sequence of calls on the gateway, whatever the modem delivers and whatever it
  answers to submissions, the events handed to the consumer followed by those still buffered are a
  run of the reception automaton that ends in the gateway's own view of the channel: every
  transmission opens once, carries its own station and command, and ends once, also when a header
  pre-empts another, the signal is lost, events are dropped or an echo fails. The echo recording
  stays within 3000 frames and the last-heard list within its limit, one entry for each callsign.\<close>
theorem gateway_event_protocol:
  assumes "gateway_calls submit req cs (DstarModem_started modem config) = (seen, d)"
  shows "follow gateway_observe (seen @ dm_pending_events d) None = Some (dm_rx_header d) \<and>
    length (dm_echo_frames d) \<le> 3000 \<and> length (dm_last_heard d) \<le> mc_max_last_heard (dm_config d) \<and>
    distinct (map lh_callsign (dm_last_heard d))"
proof -
  let ?d0 = "DstarModem_started modem config"
  have p: "gateway_phase ?d0 None" "follow gateway_observe ([] @ dm_pending_events ?d0) None = Some None"
    using gateway_wf_started [of modem config] by (simp_all add: gateway_phase_def DstarModem_started_def)
  obtain ph where "follow gateway_observe ([] @ seen @ dm_pending_events d) None = Some ph" "gateway_phase d ph"
    using gateway_calls_follow [OF assms p] by blast
  then show ?thesis by (auto simp: gateway_phase_def gateway_wf_def MAX_ECHO_RECORDING_FRAMES_def)
qed


text \<open>A modem that accepts every submission and keeps them.\<close>

definition recorded :: "voice_request list submit" where
  "recorded r m = (Ok (), m @ [r])"

definition sample_gateway_config :: DstarModemConfig where
  "sample_gateway_config = \<lparr>mc_callsign = DstarCallsign [0x57, 0x31, 0x41, 0x57, 0x20, 0x20, 0x20, 0x20],
     mc_suffix = Suffix_EMPTY, mc_max_last_heard = 1\<rparr>"

lemma sample_header_rx: "DstarHeader_decode (DstarHeader_encode sample_dstar_header) = sample_dstar_header"
    "UrCallAction_classify (ur_call sample_dstar_header) = UrCq"
  using header_codec_lossless [OF sample_dstar_header_wf] classify_CQCQCQ by (simp_all add: sample_dstar_header_def)

lemma gateway_event_protocol_witness:
  "follow gateway_observe [Gateway_Violation EndOfTransmissionWithoutHeader, VoiceStart sample_dstar_header,
     StationHeard (heard_entry 7 sample_dstar_header), VoiceLost] None = Some None"
proof -
  let ?cs = "[Call_next_event 0 [(0, Arrived DstarEot 1)],
    Call_poll_status 2 [(2, Arrived (DstarHeaderRx (DstarHeader_encode sample_dstar_header)) 7), (9, Quiet)],
    Call_next_event 10 [], Call_next_event 11 [], Call_next_event 12 [(12, Arrived DstarLost 12)]]"
  let ?r = "gateway_calls recorded (\<lambda>m. (Ok (), m)) ?cs (DstarModem_started [] sample_gateway_config)"
  have r: "fst ?r = [Gateway_Violation EndOfTransmissionWithoutHeader, VoiceStart sample_dstar_header,
     StationHeard (heard_entry 7 sample_dstar_header), VoiceLost]"
    "dm_pending_events (snd ?r) = []" "dm_rx_header (snd ?r) = None"
    by (simp_all add: next_event_def poll_status_def dispatch_event_def Let_def DstarModem_started_def
        EVENT_POLL_TIMEOUT_def STATUS_POLL_TIMEOUT_def from_secs_def from_millis_def checked_add_def instant_max_def sample_header_rx handle_voice_start_def push_pending_def
        update_last_heard_def reset_receive_state_def insert_pending_def dm_call_def sample_gateway_config_def)
  show ?thesis using gateway_event_protocol [OF prod.collapse [symmetric, of ?r]] r by simp
qed

end
