(* ===== verification/Mmdvm_Echo.thy ===== *)
theory Mmdvm_Echo
  imports Mmdvm_Dstar
begin

text \<open>
  The gateway's automatic echo and its text reception, run end to end: what a recording is played
  back as, how much of it the transmit queue of the modem task takes, and which slow-data texts
  reach the consumer.
\<close>

section \<open>Echo\<close>

definition absorb_all :: "'m submit \<Rightarrow> instant \<Rightarrow> MmdvmEvent list \<Rightarrow> 'm DstarModem \<Rightarrow> 'm DstarModem" where
  "absorb_all submit now raws d = fold (gateway_absorb submit now) raws d"

lemma absorb_all_simps [simp]:
  "absorb_all submit now [] d = d"
  "absorb_all submit now (r # rs) d = absorb_all submit now rs (gateway_absorb submit now r d)"
  "absorb_all submit now (rs @ qs) d = absorb_all submit now qs (absorb_all submit now rs d)"
  by (simp_all add: absorb_all_def)

abbreviation frame_of :: "bytes \<Rightarrow> VoiceFrame" where
  "frame_of bs \<equiv> \<lparr>ambe = take 9 bs, slow_data = drop 9 bs\<rparr>"

lemma dm_call_recorded: "dm_call (recorded v) d = (Ok (), d\<lparr>dm_modem := dm_modem d @ [v]\<rparr>)"
  by (simp add: dm_call_def recorded_def)

lemma send_frames_recorded:
  "send_frames recorded fs d = (Ok (), d\<lparr>dm_modem := dm_modem d @ map (VR_Data \<circ> voice_bytes) fs\<rparr>)"
  by (induction fs arbitrary: d) (auto simp: send_voice_def dm_call_recorded)

lemma play_echo_recorded:
  "play_echo recorded h fs d = (Ok (), d\<lparr>dm_modem := dm_modem d @ (if fs = [] then []
     else VR_Header (DstarHeader_encode (echo_reply (dm_config d) h)) # map (VR_Data \<circ> voice_bytes) fs @ [VR_Eot])\<rparr>)"
  by (simp add: play_echo_def send_header_def send_eot_def dm_call_recorded send_frames_recorded)

lemma absorb_data:
  assumes "dm_rx_active d"
  shows "gateway_absorb submit now (DstarDataRx bs) d =
    insert_pending (length (dm_pending_events d)) (VoiceData (frame_of bs)) (handle_voice_data (frame_of bs) d)"
  using assms by (simp add: gateway_absorb_def dispatch_event_def Let_def)

lemma voice_bytes_frame: "length bs = 12 \<Longrightarrow> voice_bytes (frame_of bs) = bs"
  by (simp add: voice_bytes_def)

text \<open>What an echo recording holds after some frames.\<close>

lemma echo_recording:
  fixes submit :: "'m submit" and now :: instant and d :: "'m DstarModem"
  assumes "dm_rx_active d" "dm_echo_active d" "dm_echo_header d = Some h" "dm_echo_frames d = []"
  defines "d' \<equiv> \<lambda>ds. absorb_all submit now (map DstarDataRx ds) d"
  shows "dm_rx_active (d' ds) \<and> dm_modem (d' ds) = dm_modem d \<and> dm_config (d' ds) = dm_config d \<and>
    dm_echo_active (d' ds) = (length ds \<le> 3000) \<and>
    (length ds \<le> 3000 \<longrightarrow> dm_echo_header (d' ds) = Some h \<and> dm_echo_frames (d' ds) = map frame_of ds) \<and>
    (\<exists>es. dm_pending_events (d' ds) = dm_pending_events d @ es \<and> (EchoRecordingAborted 3000 \<in> set es \<longleftrightarrow> 3000 < length ds))"
proof (induction ds rule: rev_induct)
  case Nil
  then show ?case using assms by (simp add: d'_def)
next
  case (snoc bs ds)
  have "d' (ds @ [bs]) = insert_pending (length (dm_pending_events (d' ds))) (VoiceData (frame_of bs))
      (handle_voice_data (frame_of bs) (d' ds))"
    using absorb_data [of "d' ds"] snoc by (simp add: d'_def)
  then show ?case using snoc
    by (auto simp: insert_pending_def handle_voice_data_def Let_def MAX_ECHO_RECORDING_FRAMES_def push_pending_def)
qed

lemma absorb_header:
  fixes submit :: "'m submit" and now :: instant and d :: "'m DstarModem"
  assumes "UrCallAction_classify (ur_call (DstarHeader_decode hb)) = UrEcho"
  defines "d' \<equiv> gateway_absorb submit now (DstarHeaderRx hb) d"
  shows "dm_rx_active d' \<and> dm_echo_active d' \<and> dm_echo_header d' = Some (DstarHeader_decode hb) \<and>
    dm_echo_frames d' = [] \<and> dm_modem d' = dm_modem d \<and> dm_config d' = dm_config d \<and>
    (\<exists>es. dm_pending_events d' = dm_pending_events d @ es \<and> EchoRecordingAborted 3000 \<notin> set es)"
  using assms(1) by (auto simp: d'_def gateway_absorb_def dispatch_event_def Let_def handle_voice_start_def
      push_pending_def update_last_heard_def reset_receive_state_def insert_pending_def)

lemma absorb_eot:
  fixes d :: "voice_request list DstarModem" and now :: instant
  assumes "dm_rx_active d" and rec: "take_recording (fst (take_text_message d)) = (d2, rec)"
  defines "d' \<equiv> gateway_absorb recorded now DstarEot d"
  shows "dm_modem d' = dm_modem d @ (case rec of None \<Rightarrow> [] | Some (h, fs) \<Rightarrow> (if fs = [] then []
      else VR_Header (DstarHeader_encode (echo_reply (dm_config d) h)) # map (VR_Data \<circ> voice_bytes) fs @ [VR_Eot]))"
    and "\<exists>es. dm_pending_events d' = dm_pending_events d @ es \<and> es =
      VoiceEnd # (case snd (take_text_message d) of None \<Rightarrow> [] | Some m \<Rightarrow> [TextMessage m])"
proof -
  obtain d1 t where t: "take_text_message d = (d1, t)" by fastforce
  have k: "dm_modem d2 = dm_modem d" "dm_config d2 = dm_config d" "dm_pending_events d2 = dm_pending_events d"
    using t rec by (auto simp: take_text_message_def take_recording_def Let_def split: prod.splits if_splits option.splits)
  have r: "take_recording d1 = (d2, rec)" using t rec by simp
  show "dm_modem d' = dm_modem d @ (case rec of None \<Rightarrow> [] | Some (h, fs) \<Rightarrow> (if fs = [] then []
      else VR_Header (DstarHeader_encode (echo_reply (dm_config d) h)) # map (VR_Data \<circ> voice_bytes) fs @ [VR_Eot]))"
    and "\<exists>es. dm_pending_events d' = dm_pending_events d @ es \<and> es =
      VoiceEnd # (case snd (take_text_message d) of None \<Rightarrow> [] | Some m \<Rightarrow> [TextMessage m])"
    using assms(1) k t r
    by (auto simp: d'_def gateway_absorb_def dispatch_event_def on_eot_def Let_def play_echo_recorded
        remove_pending_def get_def reset_receive_state_def push_pending_def insert_pending_def nth_append
        split: option.splits)
qed

text \<open>C17. An echo transmission is played back as it was received: whatever the state of the gateway, a
  header addressed to the echo command, up to 3000 voice frames and an end of transmission make it
  submit one reply header, the same frames byte for byte in their order, and one end; no frames, or
  more than 3000, make it submit nothing, and the consumer is told of an aborted recording exactly
  in the latter case.\<close>
theorem echo_faithful:
  assumes "UrCallAction_classify (ur_call (DstarHeader_decode hb)) = UrEcho" and "list_all (\<lambda>bs. length bs = 12) ds"
    and "d' = absorb_all recorded now (DstarHeaderRx hb # map DstarDataRx ds @ [DstarEot]) d"
  shows "dm_modem d' = dm_modem d @ (if ds = [] \<or> 3000 < length ds then []
      else VR_Header (DstarHeader_encode (echo_reply (dm_config d) (DstarHeader_decode hb))) # map VR_Data ds @ [VR_Eot]) \<and>
    (\<exists>es. dm_pending_events d' = dm_pending_events d @ es \<and> (EchoRecordingAborted 3000 \<in> set es \<longleftrightarrow> 3000 < length ds))"
proof -
  define d1 where "d1 = gateway_absorb recorded now (DstarHeaderRx hb) d"
  define d2 where "d2 = absorb_all recorded now (map DstarDataRx ds) d1"
  note h = absorb_header [OF assms(1), of recorded now d, folded d1_def]
  have e: "dm_rx_active d2 \<and> dm_modem d2 = dm_modem d1 \<and> dm_config d2 = dm_config d1 \<and>
    dm_echo_active d2 = (length ds \<le> 3000) \<and>
    (length ds \<le> 3000 \<longrightarrow> dm_echo_header d2 = Some (DstarHeader_decode hb) \<and> dm_echo_frames d2 = map frame_of ds) \<and>
    (\<exists>es. dm_pending_events d2 = dm_pending_events d1 @ es \<and> (EchoRecordingAborted 3000 \<in> set es \<longleftrightarrow> 3000 < length ds))"
    unfolding d2_def using h by (intro echo_recording) auto
  obtain d3 rec where r: "take_recording (fst (take_text_message d2)) = (d3, rec)" by fastforce
  have rec: "rec = (if length ds \<le> 3000 then Some (DstarHeader_decode hb, map frame_of ds) else None)"
    using r e by (auto simp: take_recording_def take_text_message_def Let_def split: prod.splits)
  have f: "map (VR_Data \<circ> voice_bytes) (map frame_of ds) = map VR_Data ds"
    using assms(2) by (auto simp: list_all_iff voice_bytes_frame)
  have d': "d' = gateway_absorb recorded now DstarEot d2" using assms(3) by (simp add: d1_def d2_def)
  have m: "dm_modem d' = dm_modem d @ (if ds = [] \<or> 3000 < length ds then []
      else VR_Header (DstarHeader_encode (echo_reply (dm_config d) (DstarHeader_decode hb))) # map VR_Data ds @ [VR_Eot])"
    using absorb_eot(1) [OF _ r, of now, folded d'] e h f rec by (auto simp: not_le)
  obtain es fs where "dm_pending_events d2 = dm_pending_events d @ es @ fs" "EchoRecordingAborted 3000 \<notin> set es"
      "EchoRecordingAborted 3000 \<in> set fs \<longleftrightarrow> 3000 < length ds"
    using e h by auto
  then show ?thesis
    using m absorb_eot(2) [OF _ r, of now, folded d'] e by (auto split: option.splits)
qed

section \<open>The slow-data text of a transmission\<close>

lemma voice_data_collected:
  assumes "dm_rx_active d" "\<not> dm_echo_active d"
  shows "\<exists>i. i \<noteq> 0 \<and> gateway_absorb submit now (DstarDataRx bs) d =
    d\<lparr>dm_slow_data := SlowDataTextCollector_push (drop 9 bs) i (dm_slow_data d),
      dm_slow_data_frame_index := dm_slow_data_frame_index d + 1,
      dm_pending_events := dm_pending_events d @ [VoiceData (frame_of bs)]\<rparr>"
proof -
  let ?i = "dm_slow_data_frame_index d mod 20 + 1"
  have "unat (dm_slow_data_frame_index d mod 20) < 20" by (simp add: unat_mod)
  then have "unat ?i = unat (dm_slow_data_frame_index d mod 20) + 1" by (simp add: unat_word_ariths)
  then have "?i \<noteq> 0" by (metis add_is_0 one_neq_zero unat_0)
  then show ?thesis using assms
    by (intro exI [of _ ?i]) (simp add: absorb_data handle_voice_data_def Let_def insert_pending_def)
qed


lemma voices_collected:
  assumes "dm_rx_active d" "\<not> dm_echo_active d"
  shows "\<exists>ns. length ns = length bss \<and> 0 \<notin> set ns \<and>
    dm_slow_data (absorb_all submit now (map DstarDataRx bss) d) = collect_frames (zip (map (drop 9) bss) ns) (dm_slow_data d) \<and>
    dm_pending_events (absorb_all submit now (map DstarDataRx bss) d) = dm_pending_events d @ map (VoiceData \<circ> frame_of) bss \<and>
    dm_rx_active (absorb_all submit now (map DstarDataRx bss) d) \<and>
    \<not> dm_echo_active (absorb_all submit now (map DstarDataRx bss) d)"
  using assms
proof (induction bss arbitrary: d)
  case (Cons bs bss)
  let ?d = "gateway_absorb submit now (DstarDataRx bs) d"
  obtain i where i: "i \<noteq> 0" "?d = d\<lparr>dm_slow_data := SlowDataTextCollector_push (drop 9 bs) i (dm_slow_data d),
      dm_slow_data_frame_index := dm_slow_data_frame_index d + 1,
      dm_pending_events := dm_pending_events d @ [VoiceData (frame_of bs)]\<rparr>"
    using voice_data_collected [OF Cons.prems] by blast
  have "dm_rx_active ?d" "\<not> dm_echo_active ?d" using i Cons.prems by auto
  from Cons.IH [OF this] obtain ns where "length ns = length bss" "0 \<notin> set ns"
    "dm_slow_data (absorb_all submit now (map DstarDataRx bss) ?d) = collect_frames (zip (map (drop 9) bss) ns) (dm_slow_data ?d)"
    "dm_pending_events (absorb_all submit now (map DstarDataRx bss) ?d) = dm_pending_events ?d @ map (VoiceData \<circ> frame_of) bss"
    "dm_rx_active (absorb_all submit now (map DstarDataRx bss) ?d)" "\<not> dm_echo_active (absorb_all submit now (map DstarDataRx bss) ?d)"
    by blast
  then show ?case using i by (intro exI [of _ "i # ns"]) auto
qed auto

lemma header_collected:
  fixes submit :: "'m submit" and now :: instant and d :: "'m DstarModem"
  assumes "UrCallAction_classify (ur_call (DstarHeader_decode hb)) \<noteq> UrEcho"
  defines "d' \<equiv> gateway_absorb submit now (DstarHeaderRx hb) d"
  shows "dm_rx_active d' \<and> \<not> dm_echo_active d' \<and> dm_slow_data d' = SlowDataTextCollector_reset (dm_slow_data d) \<and>
    (\<exists>es. dm_pending_events d' = dm_pending_events d @ es \<and> set es \<inter> range TextMessage = {})"
  using assms(1) by (cases "UrCallAction_classify (ur_call (DstarHeader_decode hb))")
    (auto simp: d'_def gateway_absorb_def dispatch_event_def Let_def handle_voice_start_def
      push_pending_def update_last_heard_def reset_receive_state_def insert_pending_def)

lemma eot_text:
  assumes "dm_rx_active d" "\<not> dm_echo_active d"
  shows "dm_pending_events (gateway_absorb submit now DstarEot d) = dm_pending_events d @
    VoiceEnd # (case SlowDataTextCollector_message (dm_slow_data d) of None \<Rightarrow> [] | Some m \<Rightarrow> [TextMessage m])"
  using assms by (auto simp: gateway_absorb_def dispatch_event_def on_eot_def Let_def take_text_message_def take_message_def
      take_recording_def remove_pending_def get_def reset_receive_state_def push_pending_def insert_pending_def nth_append
      split: option.splits)

lemma text_of_transmission:
  fixes submit :: "'m submit" and now :: instant and d :: "'m DstarModem"
  assumes "UrCallAction_classify (ur_call (DstarHeader_decode hb)) \<noteq> UrEcho" and "length a = 9"
  shows "\<exists>es ns c. length ns = length fs \<and> 0 \<notin> set ns \<and> set es \<inter> range TextMessage = {} \<and>
    c = collect_frames (zip fs ns) (SlowDataTextCollector_reset (dm_slow_data d)) \<and>
    dm_pending_events (absorb_all submit now (DstarHeaderRx hb # map (\<lambda>f. DstarDataRx (a @ f)) fs @ [DstarEot]) d) =
      dm_pending_events d @ es @ (case SlowDataTextCollector_message c of None \<Rightarrow> [] | Some m \<Rightarrow> [TextMessage m])"
proof -
  let ?d1 = "gateway_absorb submit now (DstarHeaderRx hb) d"
  note h = header_collected [OF assms(1), of submit now d]
  let ?d2 = "absorb_all submit now (map DstarDataRx (map (\<lambda>f. a @ f) fs)) ?d1"
  obtain es where es: "dm_pending_events ?d1 = dm_pending_events d @ es" "set es \<inter> range TextMessage = {}"
    using h by blast
  obtain ns where i: "length ns = length fs" "0 \<notin> set ns"
    "dm_slow_data ?d2 = collect_frames (zip fs ns) (dm_slow_data ?d1)"
    "dm_pending_events ?d2 = dm_pending_events ?d1 @ map (VoiceData \<circ> frame_of) (map (\<lambda>f. a @ f) fs)"
    "dm_rx_active ?d2" "\<not> dm_echo_active ?d2"
    using voices_collected [where submit = submit and now = now and d = ?d1 and bss = "map (\<lambda>f. a @ f) fs"] h assms(2) by (auto simp: comp_def)
  have m: "map (\<lambda>f. DstarDataRx (a @ f)) fs = map DstarDataRx (map (\<lambda>f. a @ f) fs)" by simp
  show ?thesis
    using i es h eot_text [OF i(5,6), of submit now]
    by (intro exI [of _ "es @ map (VoiceData \<circ> frame_of) (map (\<lambda>f. a @ f) fs) @ [VoiceEnd]"] exI [of _ ns])
       (auto simp: m simp del: map_map)
qed

text \<open>The slots that a collector has seen are those of whole blocks.\<close>

lemma seen_blocks:
  assumes "collector_wf c" "tc_phase c = First" "list_all item_wf items"
  shows "bit (seen_mask (collect_frames (frames_of items) c)) k \<Longrightarrow> bit (seen_mask c) k \<or> carries_slot k items"
    and "tc_phase (collect_frames (frames_of items) c) = First"
    and "collector_wf (collect_frames (frames_of items) c)"
proof -
  have "collector_wf (collect_frames (frames_of items) c) \<and> tc_phase (collect_frames (frames_of items) c) = First \<and>
    (bit (seen_mask (collect_frames (frames_of items) c)) k \<longrightarrow> bit (seen_mask c) k \<or> carries_slot k items)"
    using assms
  proof (induction items arbitrary: c)
    case (Cons x items)
    let ?c = "collect_frames (item_frames x) c"
    have s: "collector_wf ?c \<and> tc_phase ?c = First \<and> (bit (seen_mask ?c) k \<longrightarrow> bit (seen_mask c) k \<or> carries_slot k [x])"
    proof (cases x)
      case (Sync f)
      then show ?thesis using Cons.prems by (simp add: SlowDataTextCollector_push_def collector_wf_def)
    next
      case (Block t p i j)
      have it: "item_wf (Block t p i j)" using Cons.prems(3) Block by simp
      show ?thesis using push_block [OF Cons.prems(1,2) it] unfolding Block carries_slot_def
        by (cases "text_index t") (auto simp: bit_or_iff bit_u8_exp dest: text_index_less simp del: push_bit_of_1)
    qed
    have "carries_slot k [x] \<or> carries_slot k items \<longrightarrow> carries_slot k (x # items)"
      by (auto simp: carries_slot_def)
    then show ?case using Cons.IH [of ?c] s Cons.prems(3) by auto
  qed simp
  then show "bit (seen_mask (collect_frames (frames_of items) c)) k \<Longrightarrow> bit (seen_mask c) k \<or> carries_slot k items"
    and "tc_phase (collect_frames (frames_of items) c) = First" "collector_wf (collect_frames (frames_of items) c)" by blast+
qed

lemma reset_collector: "collector_wf (SlowDataTextCollector_reset c)" "tc_phase (SlowDataTextCollector_reset c) = First"
    "seen_mask (SlowDataTextCollector_reset c) = 0"
  by (simp_all add: SlowDataTextCollector_reset_def rearm_def collector_wf_def TEXT_CHARS_PER_BLOCK_def)

text \<open>Whatever an even number of fragments carry, they are whole blocks.\<close>

lemma fragment_scrambled:
  assumes "length f = 3"
  obtains x y z where "f = scramble [x, y, z]"
proof -
  obtain a b c where f: "f = [a, b, c]" using assms by (auto simp: length_Suc_conv eval_nat_numeral)
  have "length (descramble f) = Suc (Suc (Suc 0))" by simp
  then obtain x y z where "descramble f = [x, y, z]" by (metis (no_types) length_0_conv length_Suc_conv)
  moreover have "f = scramble (descramble f)" using descramble_scramble [of a b c] by (simp add: f scramble_def)
  ultimately show thesis using that by simp
qed

lemma paired_fragments:
  assumes "even (length fs)" "list_all (\<lambda>f. length f = 3) fs" "length ns = length fs" "0 \<notin> set ns"
  shows "\<exists>items. zip fs ns = frames_of items \<and> list_all item_wf items"
  using assms
proof (induction fs arbitrary: ns rule: induct_list012)
  case 1
  then show ?case by (intro exI [of _ "[]"]) simp
next
  case (3 f g fs)
  obtain i j ms where ns: "ns = i # j # ms" using "3.prems"(3) by (auto simp: length_Suc_conv)
  obtain items where it: "zip fs ms = frames_of items" "list_all item_wf items"
    using "3.IH"(1) [of ms] "3.prems" ns by auto
  obtain x y z where f: "f = scramble [x, y, z]" using fragment_scrambled [of f] "3.prems"(2) by auto
  obtain u v w where g: "g = scramble [u, v, w]" using fragment_scrambled [of g] "3.prems"(2) by auto
  have "zip (f # g # fs) ns = frames_of (Block x [y, z, u, v, w] i j # items)" by (simp add: ns it(1) f g)
  moreover have "list_all item_wf (Block x [y, z, u, v, w] i j # items)" using "3.prems"(4) ns it(2) by auto
  ultimately show ?case by blast
qed simp

text \<open>The eight fragments at whatever frame numbers.\<close>

lemma aligned_text_complete:
  assumes m: "SlowDataTextMessage_wf m" and i: "length ns = 8" "0 \<notin> set ns" "collector_wf c" "tc_phase c = First"
  shows "SlowDataTextCollector_message (collect_frames (zip (SlowDataTextMessage_encode m) ns) c) = Some m"
proof -
  obtain i1 i2 i3 i4 i5 i6 i7 i8 where ns: "ns = [i1, i2, i3, i4, i5, i6, i7, i8]"
    using i(1) by (auto simp: length_Suc_conv eval_nat_numeral)
  let ?items = "[Block 0x40 (chunk m 0) i1 i2, Block 0x41 (chunk m 1) i3 i4,
    Block 0x42 (chunk m 2) i5 i6, Block 0x43 (chunk m 3) i7 i8]"
  have f: "zip (SlowDataTextMessage_encode m) ns = frames_of ?items"
    using m by (simp add: Let_def ns SlowDataTextMessage_encode_def chunk_def SlowDataTextMessage_wf_def MAX_MESSAGE_LEN_def)
  have w: "list_all item_wf ?items"
    using i(2) ns m by (simp add: chunk_def SlowDataTextMessage_wf_def MAX_MESSAGE_LEN_def)
  have "carries_only m ?items" by (auto simp: carries_only_def)
  moreover have "\<forall>k<4. carries_slot k ?items"
    by (simp add: All_less_Suc eval_nat_numeral carries_slot_def ex_disj_distrib conj_disj_distribR)
  ultimately show ?thesis unfolding f using collect_items [OF i(3,4) w] m by (auto intro!: message_from_slots)
qed

text \<open>A message of three blocks at most is not complete.\<close>

lemma four_slots:
  assumes "\<forall>k<4. k = x \<or> k = y \<or> k = (z::nat)"
  shows False
proof -
  have "{..<4} \<subseteq> {x, y, z}" using assms by auto
  then have "card {..<4::nat} \<le> card {x, y, z}" by (intro card_mono) auto
  also have "card {x, y, z} \<le> 3" by (simp add: card_insert_if)
  finally show False by simp
qed

lemma first_half_mask:
  "tc_phase c = First \<Longrightarrow> i \<noteq> 0 \<Longrightarrow> seen_mask (SlowDataTextCollector_push f i c) = seen_mask c"
  by (simp add: SlowDataTextCollector_push_def Let_def)

lemma shifted_text_incomplete:
  assumes "SlowDataTextMessage_wf m" and i: "length ns = 9" "0 \<notin> set ns" "collector_wf c" "tc_phase c = First" "seen_mask c = 0"
  shows "SlowDataTextCollector_message (collect_frames (zip (DSTAR_SYNC_BYTES # SlowDataTextMessage_encode m) ns) c) = None"
proof -
  obtain i0 i1 i2 i3 i4 i5 i6 i7 i8 where ns: "ns = [i0, i1, i2, i3, i4, i5, i6, i7, i8]"
    using i(1) by (auto simp: length_Suc_conv eval_nat_numeral)
  let ?b = "\<lambda>i. message_bytes m ! i"
  let ?items = "[Block 0x25 [0x62, 0x85, 0x40, ?b 0, ?b 1] i0 i1, Block (?b 2) [?b 3, ?b 4, 0x41, ?b 5, ?b 6] i2 i3,
    Block (?b 7) [?b 8, ?b 9, 0x42, ?b 10, ?b 11] i4 i5, Block (?b 12) [?b 13, ?b 14, 0x43, ?b 15, ?b 16] i6 i7]"
  have s: "DSTAR_SYNC_BYTES = scramble [0x25, 0x62, 0x85]"
    by (simp add: DSTAR_SYNC_BYTES_def scramble_def descramble_def SCRAMBLER_KEY_def)
  have f: "zip (DSTAR_SYNC_BYTES # SlowDataTextMessage_encode m) ns = frames_of ?items @ [(scramble [?b 17, ?b 18, ?b 19], i8)]"
    by (simp add: ns s SlowDataTextMessage_encode_def Let_def)
  let ?c = "collect_frames (frames_of ?items) c"
  have w: "list_all item_wf ?items" using i(2) ns by simp
  have p: "tc_phase ?c = First" by (rule seen_blocks(2) [OF i(3,4) w])
  have n8: "i8 \<noteq> 0" using i(2) ns by simp
  have m: "seen_mask (collect_frames (zip (DSTAR_SYNC_BYTES # SlowDataTextMessage_encode m) ns) c) = seen_mask ?c"
    by (simp only: f collect_frames_simps fst_conv snd_conv first_half_mask [OF p n8])
  have n: "text_index 0x25 = None" by (simp add: text_index_def)
  have k: "k \<in> {j. text_index (?b 2) = Some j \<or> text_index (?b 7) = Some j \<or> text_index (?b 12) = Some j}"
    if "bit (seen_mask ?c) k" for k
    using seen_blocks(1) [OF i(3,4) w that] i(5) n by (auto simp: carries_slot_def)
  have "seen_mask ?c \<noteq> 0xF"
  proof
    assume a: "seen_mask ?c = 0xF"
    have f: "(0xF::u8) = mask 4" by (simp add: mask_eq_exp_minus_1)
    have "\<forall>k<4. bit (seen_mask ?c) k" unfolding a f by (auto simp only: bit_mask_iff) simp
    then have "\<forall>k<4. k = the (text_index (?b 2)) \<or> k = the (text_index (?b 7)) \<or> k = the (text_index (?b 12))"
      using k by force
    then show False by (rule four_slots)
  qed
  then show ?thesis unfolding SlowDataTextCollector_message_def m by simp
qed

text \<open>C28. Whether the gateway reads a text message depends on the number of frames before it. After
  any even number of frames, none included, the consumer gets the message at the end of the
  transmission; but a transmission that is just the sync frame of its first superframe and the
  eight fragments of the message gives no text at all, whatever the message. The gateway numbers
  every frame from one instead of passing the sync frame as such, so the collector pairs the sync
  pattern with the first fragment and each block with the next one's half. (Behind the sync frame
  of the second superframe 22 frames have passed, and the text is read.)\<close>
theorem sync_frame_hides_text:
  assumes "UrCallAction_classify (ur_call (DstarHeader_decode hb)) \<noteq> UrEcho" and "length a = 9"
    and "SlowDataTextMessage_wf m" and "dm_pending_events d = []"
    and "even (length before)" "list_all (\<lambda>f. length f = 3) before"
  shows "TextMessage m \<in> set (dm_pending_events (absorb_all submit now (DstarHeaderRx hb #
      map (\<lambda>f. DstarDataRx (a @ f)) (before @ SlowDataTextMessage_encode m) @ [DstarEot]) d)) \<and>
    range TextMessage \<inter> set (dm_pending_events (absorb_all submit now (DstarHeaderRx hb #
      map (\<lambda>f. DstarDataRx (a @ f)) (DSTAR_SYNC_BYTES # SlowDataTextMessage_encode m) @ [DstarEot]) d)) = {}"
proof
  let ?c = "SlowDataTextCollector_reset (dm_slow_data d)" and ?fs = "before @ SlowDataTextMessage_encode m"
  have l: "length (SlowDataTextMessage_encode m) = 8" by (simp add: SlowDataTextMessage_encode_def Let_def)
  obtain es ns where e: "length ns = length before + 8" "0 \<notin> set ns"
    "dm_pending_events (absorb_all submit now (DstarHeaderRx hb # map (\<lambda>f. DstarDataRx (a @ f)) ?fs @ [DstarEot]) d) = es @
      (case SlowDataTextCollector_message (collect_frames (zip ?fs ns) ?c) of None \<Rightarrow> [] | Some m \<Rightarrow> [TextMessage m])"
    using text_of_transmission [OF assms(1,2), where fs = ?fs and submit = submit and now = now and d = d] assms(4) l by fastforce
  define us ks where "us = take (length before) ns" and "ks = drop (length before) ns"
  have ns: "ns = us @ ks" "length us = length before" "length ks = 8" "0 \<notin> set us" "0 \<notin> set ks"
    using e(1,2) by (auto simp: us_def ks_def dest: in_set_takeD in_set_dropD)
  obtain items where it: "zip before us = frames_of items" "list_all item_wf items"
    using paired_fragments [OF assms(5,6) ns(2,4)] by blast
  have "SlowDataTextCollector_message (collect_frames (zip ?fs ns) ?c) = Some m"
    using aligned_text_complete [OF assms(3) ns(3,5) seen_blocks(3,2) [OF reset_collector(1,2) it(2)]] it(1) ns(2) by (simp add: ns(1))
  then show "TextMessage m \<in> set (dm_pending_events (absorb_all submit now (DstarHeaderRx hb #
      map (\<lambda>f. DstarDataRx (a @ f)) ?fs @ [DstarEot]) d))" using e(3) by simp
  obtain fs js where g: "length js = 9" "0 \<notin> set js" "set fs \<inter> range TextMessage = {}"
    "dm_pending_events (absorb_all submit now (DstarHeaderRx hb #
      map (\<lambda>f. DstarDataRx (a @ f)) (DSTAR_SYNC_BYTES # SlowDataTextMessage_encode m) @ [DstarEot]) d) = fs @
      (case SlowDataTextCollector_message (collect_frames (zip (DSTAR_SYNC_BYTES # SlowDataTextMessage_encode m) js) ?c)
       of None \<Rightarrow> [] | Some m \<Rightarrow> [TextMessage m])"
    using text_of_transmission [OF assms(1,2), where fs = "DSTAR_SYNC_BYTES # SlowDataTextMessage_encode m" and submit = submit and now = now and d = d]
      assms(4) l by auto
  show "range TextMessage \<inter> set (dm_pending_events (absorb_all submit now (DstarHeaderRx hb #
      map (\<lambda>f. DstarDataRx (a @ f)) (DSTAR_SYNC_BYTES # SlowDataTextMessage_encode m) @ [DstarEot]) d)) = {}"
    using g shifted_text_incomplete [OF assms(3) g(1,2) reset_collector] by auto
qed


section \<open>How much echo the modem task takes\<close>

text \<open>
  A submission through the handle (\<open>send_dstar_header\<close>, \<open>send_dstar_data\<close>, \<open>send_dstar_eot\<close> of
  \<open>tokio_shell/handle.rs\<close>): the loop runs some turns before it takes the request, in a turn of its
  own, and the caller waits for the reply. The turns ahead of each submission are the schedule.
\<close>

fun request_of :: "voice_request \<Rightarrow> reply_id \<Rightarrow> Request" where
  "request_of (VR_Header bs) tx = SendDStarHeader bs tx"
| "request_of (VR_Data bs) tx = SendDStarData bs tx"
| "request_of VR_Eot tx = SendDStarEot tx"

fun reply_result :: "act \<Rightarrow> MmdvmShellError + unit" where
  "reply_result (Replied _ (Some e)) = Err e"
| "reply_result (Replied _ None) = Ok ()"
| "reply_result _ = Err SessionClosed"

type_synonym modem_task = "(turn list \<times> turn) list \<times> ModemLoop"

fun AsyncModem_submit :: "modem_task submit" where
  "AsyncModem_submit v ([], s) = (Err SessionClosed, ([], s))"
| "AsyncModem_submit v ((ts, t) # rest, s) =
     (case run_turns ts s of
        (Exit _, s, _) \<Rightarrow> (Err SessionClosed, ([], s))
      | (Continue, s, _) \<Rightarrow>
        (case loop_turn (t\<lparr>tn_branch := On_command (Some (request_of v 0))\<rparr>) s of
           (Exit _, s, _) \<Rightarrow> (Err SessionClosed, ([], s))
         | (Continue, s, acts) \<Rightarrow> (reply_result (last acts), (rest, s))))"

definition queue_len :: "ModemLoop \<Rightarrow> nat" where
  "queue_len s = length (tq_dstar (ml_tx_queue s))"

definition playout_turns :: "turn list \<Rightarrow> nat" where
  "playout_turns ts = length (filter (\<lambda>t. tn_branch t = On_playout_tick) ts)"

definition playouts :: "(branch \<times> act list) list \<Rightarrow> nat" where
  "playouts log = length (filter (\<lambda>x. fst x = On_playout_tick) log)"

definition queue_floor :: "nat \<Rightarrow> ModemLoop \<Rightarrow> (branch \<times> act list) list \<Rightarrow> act list \<Rightarrow> bool" where
  "queue_floor n s log acts \<longleftrightarrow> n \<le> queue_len s + playouts log"

lemma command_len: "apply_command m req s = (r, s', a) \<Longrightarrow> queue_len s \<le> queue_len s'"
  using arg_cong [OF command_queue, of m req s r s' a length] by (simp add: queue_len_def)

lemma drain_len: "drain_tx_queue m s = (r, s', a) \<Longrightarrow> queue_len s \<le> Suc (queue_len s')"
  by (auto simp: drain_tx_queue_def pop_if_space_allows_def queue_len_def write_defs
      split: list.splits if_splits sum.splits write_outcome.splits)

interpretation floor: modem_invariant "queue_floor n" "\<lambda>_. True" for n
proof
  fix s log acts m r s' a
  assume i: "queue_floor n s log acts"
  { assume "dispatch_configuration m s = (r, s', a)"
    from configure_queue [OF this] show "queue_floor n s' log (acts @ a)"
      using i by (simp add: queue_floor_def queue_len_def) }
  { fix f assume "dispatch_frame f s = (s', a)"
    from frame_queue(1) [OF this] show "queue_floor n s' log (acts @ a)"
      using i by (simp add: queue_floor_def queue_len_def) }
  { fix req assume "apply_command m req s = (r, s', a)"
    from command_len [OF this] show "queue_floor n s' (log @ [(On_command (Some req), a)]) (acts @ a)"
      using i by (simp add: queue_floor_def playouts_def) }
  { assume "drain_tx_queue m s = (r, s', a)"
    from drain_len [OF this] show "queue_floor n s' (log @ [(On_playout_tick, a)]) (acts @ a)"
      using i by (simp add: queue_floor_def playouts_def) }
qed (simp_all add: queue_floor_def queue_len_def)

lemma playouts_turn: "playouts (turn_log t s) \<le> playout_turns [t]"
  by (cases "(tn_branch t, [] :: act list)" rule: logged.cases)
     (auto simp: turn_log_def playouts_def playout_turns_def split: prod.splits sum.splits)

lemma playouts_run: "playouts (run_log ts s) \<le> playout_turns ts"
proof (induction ts arbitrary: s)
  case (Cons t ts)
  have "playouts (case loop_turn t s of (Continue, s, a) \<Rightarrow> run_log ts s | _ \<Rightarrow> []) \<le> playout_turns ts"
    using Cons.IH by (auto simp: playouts_def split: prod.splits flow.splits)
  then show ?case using playouts_turn [of t s] by (simp add: playouts_def playout_turns_def split: if_splits)
qed (simp add: playouts_def playout_turns_def)

lemma admits_any: "branch_admits (\<lambda>_. True) b"
  by (cases "(\<lambda>_ :: Request. True, b)" rule: branch_admits.cases) auto

lemma run_turns_floor:
  assumes "run_turns ts s = (f, s', a)"
  shows "queue_len s \<le> queue_len s' + playout_turns ts"
proof -
  have "queue_floor (queue_len s) s [] []" by (simp add: queue_floor_def)
  then have "queue_floor (queue_len s) s' ([] @ run_log ts s) ([] @ a)"
    by (rule floor.run_inv [OF _ _ assms]) (simp add: admits_any)
  then show ?thesis using playouts_run [of ts s] by (simp add: queue_floor_def)
qed

lemma command_accepted:
  assumes "apply_command m (request_of v tx) s = (r, s', a)"
  shows "r = Ok () \<and> a \<noteq> [] \<and> (reply_result (last a) = Ok () \<longrightarrow> queue_len s' = Suc (queue_len s) \<and> queue_len s < 64)"
  using assms by (cases v) (auto simp: push_defs buffer_full_reply_def queue_len_def MAX_TX_QUEUE_FRAMES_def split: if_splits)

lemma submit_room:
  assumes "AsyncModem_submit v (sched, s) = (Ok (), m)"
  shows "\<exists>ts t rest s'. sched = (ts, t) # rest \<and> m = (rest, s') \<and>
    queue_len s + 1 \<le> queue_len s' + playout_turns ts \<and> queue_len s' \<le> 64"
proof (cases sched)
  case (Cons x rest)
  obtain ts t where x: "x = (ts, t)" by (cases x)
  obtain f s1 a1 where r: "run_turns ts s = (f, s1, a1)" by (cases rule: prod_cases3)
  let ?t = "t\<lparr>tn_branch := On_command (Some (request_of v 0))\<rparr>"
  obtain g s3 a3 where l: "loop_turn ?t s1 = (g, s3, a3)" by (cases rule: prod_cases3)
  have c: "f = Continue" "g = Continue" "reply_result (last a3) = Ok ()" "m = (rest, s3)"
    using assms Cons x r l by (auto split: flow.splits)
  obtain q s2 a2 where d: "dispatch_configuration (tn_configure t) s1 = (q, s2, a2)" by (cases rule: prod_cases3)
  obtain r4 s4 a4 where e: "apply_command (tn_moment t) (request_of v 0) s2 = (r4, s4, a4)" by (cases rule: prod_cases3)
  have "s3 = s4 \<and> a3 = a2 @ a4"
    using l c(2) d e by (auto simp: loop_turn_def split: sum.splits if_splits)
  then have "queue_len s3 = Suc (queue_len s2)" "queue_len s2 < 64"
    using command_accepted [OF e] c(3) by auto
  moreover have "queue_len s2 = queue_len s1" using configure_queue [OF d] by (simp add: queue_len_def)
  ultimately show ?thesis using Cons x c(4) run_turns_floor [OF r] by auto
qed (use assms in simp)

lemma call_room:
  assumes "dm_call (AsyncModem_submit v) d = (Ok (), d')" "dm_modem d = (sched, s)"
  shows "\<exists>ts t rest s'. sched = (ts, t) # rest \<and> dm_modem d' = (rest, s') \<and>
    queue_len s + 1 \<le> queue_len s' + playout_turns ts \<and> queue_len s' \<le> 64"
proof -
  obtain m where "AsyncModem_submit v (sched, s) = (Ok (), m)" "d' = d\<lparr>dm_modem := m\<rparr>"
    using assms by (auto simp: dm_call_def split: prod.splits sum.splits)
  then show ?thesis using submit_room [of v sched s m] by auto
qed

definition ahead :: "nat \<Rightarrow> (turn list \<times> turn) list \<Rightarrow> turn list" where
  "ahead n sched = concat (map fst (take n sched))"

lemma ahead_Suc: "playout_turns (ahead (Suc n) ((ts, t) # rest)) = playout_turns ts + playout_turns (ahead n rest)"
  by (simp add: ahead_def playout_turns_def)

lemma frames_room:
  assumes "send_frames AsyncModem_submit fs d = (Ok (), d')" "dm_modem d = (sched, s)"
  shows "\<exists>s'. dm_modem d' = (drop (length fs) sched, s') \<and>
    queue_len s + length fs \<le> queue_len s' + playout_turns (ahead (length fs) sched)"
  using assms
proof (induction fs arbitrary: d sched s)
  case Nil
  then show ?case by (auto simp: ahead_def)
next
  case (Cons f fs)
  obtain d1 where v: "dm_call (AsyncModem_submit (VR_Data (voice_bytes f))) d = (Ok (), d1)"
    and r: "send_frames AsyncModem_submit fs d1 = (Ok (), d')"
    using Cons.prems(1) by (auto simp: send_voice_def split: prod.splits sum.splits)
  obtain ts t rest s1 where c: "sched = (ts, t) # rest" "dm_modem d1 = (rest, s1)"
    "queue_len s + 1 \<le> queue_len s1 + playout_turns ts" "queue_len s1 \<le> 64"
    using call_room [OF v Cons.prems(2)] by blast
  obtain s' where "dm_modem d' = (drop (length fs) rest, s')"
    "queue_len s1 + length fs \<le> queue_len s' + playout_turns (ahead (length fs) rest)"
    using Cons.IH [OF r c(2)] by blast
  then show ?case using c ahead_Suc [of "length fs" ts t rest] by auto
qed

text \<open>C18. An echo is played back in full only if the modem loop gets round to sending most of it while
  it is being submitted. Playback hands its header, frames and end marker to a transmit queue of 64
  entries without waiting for room, so it succeeds only if what was queued, the recording and two
  more fit into 64 plus the playout ticks (one in 10 ms, one frame each) that the loop took between
  the submissions: a recording of more than 62 frames, 1.3 seconds of the 60 that are recorded,
  cannot succeed when the submissions outrun them.\<close>
theorem echo_needs_playout:
  assumes "play_echo AsyncModem_submit h frames d = (Ok (), d')" "frames \<noteq> []" "dm_modem d = (sched, s)"
  shows "queue_len s + length frames + 2 \<le> 64 + playout_turns (ahead (length frames + 2) sched)"
proof -
  obtain d1 d2 where p: "dm_call (AsyncModem_submit (VR_Header (DstarHeader_encode (echo_reply (dm_config d) h)))) d = (Ok (), d1)"
      "send_frames AsyncModem_submit frames d1 = (Ok (), d2)" "dm_call (AsyncModem_submit VR_Eot) d2 = (Ok (), d')"
    using assms(1,2) by (auto simp: play_echo_def send_header_def send_eot_def split: prod.splits sum.splits)
  obtain ts t rest s1 where a: "sched = (ts, t) # rest" "dm_modem d1 = (rest, s1)"
    "queue_len s + 1 \<le> queue_len s1 + playout_turns ts" "queue_len s1 \<le> 64"
    using call_room [OF p(1) assms(3)] by blast
  obtain s2 where b: "dm_modem d2 = (drop (length frames) rest, s2)"
    "queue_len s1 + length frames \<le> queue_len s2 + playout_turns (ahead (length frames) rest)"
    using frames_room [OF p(2) a(2)] by blast
  obtain us u rest' s3 where c: "drop (length frames) rest = (us, u) # rest'"
    "queue_len s2 + 1 \<le> queue_len s3 + playout_turns us" "queue_len s3 \<le> 64"
    using call_room [OF p(3) b(1)] by blast
  have "length frames < length rest" using c(1) by (metis drop_all list.discI not_le)
  then have "take (Suc (length frames)) rest = take (length frames) rest @ [(us, u)]"
    using c(1) by (metis hd_drop_conv_nth list.sel(1) take_Suc_conv_app_nth)
  then have "playout_turns (ahead (Suc (length frames)) rest) = playout_turns (ahead (length frames) rest) + playout_turns us"
    by (simp add: ahead_def playout_turns_def)
  then show ?thesis using a b c ahead_Suc [of "Suc (length frames)" ts t rest] by simp
qed


section \<open>Samples\<close>

definition sample_echo_header :: DstarHeader where
  "sample_echo_header = sample_dstar_header\<lparr>ur_call := DstarCallsign (replicate 7 0x20 @ [0x45])\<rparr>"

lemma sample_echo_rx: "DstarHeader_decode (DstarHeader_encode sample_echo_header) = sample_echo_header"
    "UrCallAction_classify (ur_call sample_echo_header) = UrEcho"
proof -
  have "DstarHeader_wf sample_echo_header"
    using sample_dstar_header_wf by (simp add: sample_echo_header_def DstarHeader_wf_def DstarCallsign_wf_def)
  then show "DstarHeader_decode (DstarHeader_encode sample_echo_header) = sample_echo_header"
    by (rule header_codec_lossless)
  show "UrCallAction_classify (ur_call sample_echo_header) = UrEcho"
    by (simp add: sample_echo_header_def UrCallAction_classify_def classify_wire_bytes_def)
qed

lemma echo_faithful_witness:
  "dm_modem (absorb_all recorded 0 [DstarHeaderRx (DstarHeader_encode sample_echo_header),
      DstarDataRx (replicate 12 1), DstarDataRx (replicate 12 2), DstarEot] (DstarModem_started [] sample_gateway_config)) =
    [VR_Header (DstarHeader_encode (echo_reply sample_gateway_config sample_echo_header)), VR_Data (replicate 12 1),
     VR_Data (replicate 12 2), VR_Eot]"
  using echo_faithful [of "DstarHeader_encode sample_echo_header" "[replicate 12 1, replicate 12 2]" _ 0
      "DstarModem_started [] sample_gateway_config", OF _ _ refl]
  by (simp add: sample_echo_rx DstarModem_started_def)

lemma sync_frame_hides_text_witness:
  "TextMessage (SlowDataTextMessage (replicate 20 0x41)) \<in> set (dm_pending_events (absorb_all recorded 0
      (DstarHeaderRx (DstarHeader_encode sample_dstar_header) # map (\<lambda>f. DstarDataRx (replicate 9 0 @ f))
        ((DSTAR_SYNC_BYTES # replicate 20 [0, 0, 0] @ [DSTAR_SYNC_BYTES]) @
          SlowDataTextMessage_encode (SlowDataTextMessage (replicate 20 0x41))) @ [DstarEot]) (DstarModem_started [] sample_gateway_config)))"
  by (rule sync_frame_hides_text [THEN conjunct1])
     (simp_all add: sample_header_rx SlowDataTextMessage_wf_def MAX_MESSAGE_LEN_def DstarModem_started_def DSTAR_SYNC_BYTES_def list_all_iff)

lemma echo_needs_playout_witness:
  "queue_len ModemLoop_new + length [VoiceFrame_silence] + 2 \<le>
     64 + playout_turns (ahead (length [VoiceFrame_silence] + 2) [([], sample_turn On_status_tick), ([], sample_turn On_status_tick),
       ([], sample_turn On_status_tick)])"
proof -
  let ?x = "([], sample_turn On_status_tick)"
  let ?d = "DstarModem_started ([?x, ?x, ?x], ModemLoop_new) sample_gateway_config"
  let ?r = "play_echo AsyncModem_submit sample_echo_header [VoiceFrame_silence] ?d"
  have "fst ?r = Ok ()"
    by (simp add: play_echo_def send_header_def send_voice_def send_eot_def dm_call_def DstarModem_started_def
        loop_turn_def dispatch_configuration_def flush_over_def flow_of_def push_defs
        MAX_TX_QUEUE_FRAMES_def buffer_full_reply_def)
  then have "?r = (Ok (), snd ?r)" by (metis prod.collapse)
  from echo_needs_playout [OF this] show ?thesis by (simp add: DstarModem_started_def)
qed

end
