(* ===== verification/Rewind_Codec.thy ===== *)
theory Rewind_Codec
  imports Wire_Buffer
begin

unbundle bit_operations_syntax

text \<open>
  REWIND datagrams (\<open>dmr-rewind-core/src\<close>): packet and session types, full link control, typed
  payloads, and the encoder and decoder of whole datagrams. The decoder accepts exactly the
  encodings of the packets that the constructor can build.
\<close>

section \<open>Constants and wire words (lib.rs, wire.rs)\<close>

definition SIGNATURE :: bytes where "SIGNATURE = [0x52, 0x45, 0x57, 0x49, 0x4E, 0x44, 0x30, 0x31]"
definition HEADER_LEN :: nat where "HEADER_LEN = 18"
definition MAX_DATAGRAM_LEN :: nat where "MAX_DATAGRAM_LEN = 65507"
definition REWIND_MAX_PAYLOAD_LEN :: nat where "REWIND_MAX_PAYLOAD_LEN = MAX_DATAGRAM_LEN - HEADER_LEN"
definition AUTHENTICATION_LEN :: nat where "AUTHENTICATION_LEN = 32"
definition FULL_LINK_CONTROL_LEN :: nat where "FULL_LINK_CONTROL_LEN = 12"
definition DMR_AUDIO_LEN :: nat where "DMR_AUDIO_LEN = 27"
definition SUPER_HEADER_LEN :: nat where "SUPER_HEADER_LEN = 32"

lemmas rewind_lens = HEADER_LEN_def MAX_DATAGRAM_LEN_def REWIND_MAX_PAYLOAD_LEN_def AUTHENTICATION_LEN_def
  FULL_LINK_CONTROL_LEN_def DMR_AUDIO_LEN_def SUPER_HEADER_LEN_def

text \<open>The newtypes of \<open>wire.rs\<close> accept every value of their width.\<close>

type_synonym RemoteId = u32
type_synonym WireDmrId = u32
type_synonym TransportSequence = u32
type_synonym ServiceCode = u8
type_synonym PollKind = u32
type_synonym PollState = u32
type_synonym PollFlags = u32
type_synonym FeatureId = u8
type_synonym ControlOctet = u8
type_synonym ServiceOptions = u8
type_synonym PacketFlags = u16

definition OPEN_TERMINAL :: ServiceCode where "OPEN_TERMINAL = 0x21"
definition PacketFlags_NONE :: PacketFlags where "PacketFlags_NONE = 0"
definition REAL_TIME_1 :: PacketFlags where "REAL_TIME_1 = 1"

definition PacketFlags_contains :: "PacketFlags \<Rightarrow> PacketFlags \<Rightarrow> bool" where
  "PacketFlags_contains fl other \<longleftrightarrow> fl AND other = other"

text \<open>\<open>u32::to_le_bytes\<close> and \<open>u32::from_le_bytes\<close>.\<close>

definition le32 :: "u32 \<Rightarrow> bytes" where
  "le32 w = [ucast w, ucast (drop_bit 8 w), ucast (drop_bit 16 w), ucast (drop_bit 24 w)]"

definition from_le32 :: "u8 \<Rightarrow> u8 \<Rightarrow> u8 \<Rightarrow> u8 \<Rightarrow> u32" where
  "from_le32 a b c d = ucast a OR push_bit 8 (ucast b) OR push_bit 16 (ucast c) OR push_bit 24 (ucast d)"

lemma length_le32 [simp]: "length (le32 w) = 4"
  by (simp add: le32_def)

lemma from_le32_le32 [simp]:
  "from_le32 (ucast w) (ucast (drop_bit 8 w)) (ucast (drop_bit 16 w)) (ucast (drop_bit 24 w)) = w"
proof (rule bit_eqI)
  fix n assume "possible_bit TYPE(u32) n"
  then have n: "n < 32" by simp
  then consider "n < 8" | "8 \<le> n" "n < 16" | "16 \<le> n" "n < 24" | "24 \<le> n" by linarith
  then show "bit (from_le32 (ucast w) (ucast (drop_bit 8 w)) (ucast (drop_bit 16 w)) (ucast (drop_bit 24 w))) n = bit w n"
    using n by cases (auto simp: from_le32_def bit_or_iff bit_push_bit_iff bit_unsigned_iff bit_drop_bit_eq)
qed

lemma le32_from_le32 [simp]: "le32 (from_le32 a b c d) = [a, b, c, d]"
proof -
  have "ucast (from_le32 a b c d) = a" "ucast (drop_bit 8 (from_le32 a b c d)) = b"
    "ucast (drop_bit 16 (from_le32 a b c d)) = c" "ucast (drop_bit 24 (from_le32 a b c d)) = d"
    by (rule bit_eqI, auto simp: from_le32_def bit_or_iff bit_push_bit_iff bit_unsigned_iff bit_drop_bit_eq
        dest: bit_imp_le_length)+
  then show ?thesis by (simp add: le32_def)
qed

section \<open>Packet types\<close>

datatype PacketType =
    PT_KeepAlive | PT_Close | PT_Challenge | PT_Authentication | PT_Redirection | PT_Report
  | PT_BusyNotice | PT_AddressNotice | PT_BindingNotice | PT_ExternalServer | PT_RemoteControl
  | PT_SnmpTrap | PT_PeerData | PT_RdacData | PT_MediaData | PT_Configuration | PT_Subscription
  | PT_Cancelling | PT_SessionPoll | PT_DmrVoiceHeader | PT_DmrTerminator | PT_DmrData u8
  | PT_DmrAudio u8 | PT_DmrEmbeddedData | PT_SuperHeader | PT_Failure | PT_TerminalIdle
  | PT_TerminalAttach | PT_TerminalDetach | PT_TerminalWakeup | PT_MessageText | PT_MessageStatus
  | PT_LocationReport | PT_LocationRequest | PT_Unknown u16

datatype CodecError =
    DatagramTooShort nat nat
  | DatagramTooLong nat nat
  | InvalidSignature
  | TruncatedPayload nat nat
  | TrailingBytes nat
  | InvalidPayloadLength PacketType string nat
  | PayloadTypeMismatch PacketType
  | InvalidDataSubtype u8
  | InvalidAudioSubtype u8
  | KnownPacketType u16
  | KnownSessionType u32
  | InvalidFlco u8
  | PayloadTooLong nat nat
  | DmrIdOutOfRange u32

definition PacketType_from_raw :: "u16 \<Rightarrow> PacketType" where
  "PacketType_from_raw raw =
     (if raw = 0x0000 then PT_KeepAlive else if raw = 0x0001 then PT_Close
      else if raw = 0x0002 then PT_Challenge else if raw = 0x0003 then PT_Authentication
      else if raw = 0x0008 then PT_Redirection else if raw = 0x0100 then PT_Report
      else if raw = 0x0200 then PT_BusyNotice else if raw = 0x0201 then PT_AddressNotice
      else if raw = 0x0202 then PT_BindingNotice else if raw = 0x0800 then PT_ExternalServer
      else if raw = 0x0801 then PT_RemoteControl else if raw = 0x0802 then PT_SnmpTrap
      else if raw = 0x0810 then PT_PeerData else if raw = 0x0811 then PT_RdacData
      else if raw = 0x0812 then PT_MediaData else if raw = 0x0900 then PT_Configuration
      else if raw = 0x0901 then PT_Subscription else if raw = 0x0902 then PT_Cancelling
      else if raw = 0x0903 then PT_SessionPoll else if raw = 0x0911 then PT_DmrVoiceHeader
      else if raw = 0x0912 then PT_DmrTerminator
      else if 0x0910 \<le> raw \<and> raw \<le> 0x091F then PT_DmrData (to_le_bytes (raw - 0x0910) ! 0)
      else if 0x0920 \<le> raw \<and> raw \<le> 0x0926 then PT_DmrAudio (to_le_bytes (raw - 0x0920) ! 0)
      else if raw = 0x0927 then PT_DmrEmbeddedData else if raw = 0x0928 then PT_SuperHeader
      else if raw = 0x0929 then PT_Failure else if raw = 0x0A00 then PT_TerminalIdle
      else if raw = 0x0A02 then PT_TerminalAttach else if raw = 0x0A03 then PT_TerminalDetach
      else if raw = 0x0A04 then PT_TerminalWakeup else if raw = 0x0A10 then PT_MessageText
      else if raw = 0x0A11 then PT_MessageStatus else if raw = 0x0A20 then PT_LocationReport
      else if raw = 0x0A21 then PT_LocationRequest
      else PT_Unknown raw)"

fun PacketType_as_raw :: "PacketType \<Rightarrow> u16" where
  "PacketType_as_raw PT_KeepAlive = 0x0000"
| "PacketType_as_raw PT_Close = 0x0001"
| "PacketType_as_raw PT_Challenge = 0x0002"
| "PacketType_as_raw PT_Authentication = 0x0003"
| "PacketType_as_raw PT_Redirection = 0x0008"
| "PacketType_as_raw PT_Report = 0x0100"
| "PacketType_as_raw PT_BusyNotice = 0x0200"
| "PacketType_as_raw PT_AddressNotice = 0x0201"
| "PacketType_as_raw PT_BindingNotice = 0x0202"
| "PacketType_as_raw PT_ExternalServer = 0x0800"
| "PacketType_as_raw PT_RemoteControl = 0x0801"
| "PacketType_as_raw PT_SnmpTrap = 0x0802"
| "PacketType_as_raw PT_PeerData = 0x0810"
| "PacketType_as_raw PT_RdacData = 0x0811"
| "PacketType_as_raw PT_MediaData = 0x0812"
| "PacketType_as_raw PT_Configuration = 0x0900"
| "PacketType_as_raw PT_Subscription = 0x0901"
| "PacketType_as_raw PT_Cancelling = 0x0902"
| "PacketType_as_raw PT_SessionPoll = 0x0903"
| "PacketType_as_raw PT_DmrVoiceHeader = 0x0911"
| "PacketType_as_raw PT_DmrTerminator = 0x0912"
| "PacketType_as_raw (PT_DmrData subtype) = 0x0910 + ucast subtype"
| "PacketType_as_raw (PT_DmrAudio subtype) = 0x0920 + ucast subtype"
| "PacketType_as_raw PT_DmrEmbeddedData = 0x0927"
| "PacketType_as_raw PT_SuperHeader = 0x0928"
| "PacketType_as_raw PT_Failure = 0x0929"
| "PacketType_as_raw PT_TerminalIdle = 0x0A00"
| "PacketType_as_raw PT_TerminalAttach = 0x0A02"
| "PacketType_as_raw PT_TerminalDetach = 0x0A03"
| "PacketType_as_raw PT_TerminalWakeup = 0x0A04"
| "PacketType_as_raw PT_MessageText = 0x0A10"
| "PacketType_as_raw PT_MessageStatus = 0x0A11"
| "PacketType_as_raw PT_LocationReport = 0x0A20"
| "PacketType_as_raw PT_LocationRequest = 0x0A21"
| "PacketType_as_raw (PT_Unknown value) = value"

definition DmrDataSubtype_new :: "u8 \<Rightarrow> CodecError + u8" where
  "DmrDataSubtype_new subtype =
     (if subtype > 15 \<or> subtype = 1 \<or> subtype = 2 then Err (InvalidDataSubtype subtype) else Ok subtype)"

definition DmrAudioSubtype_new :: "u8 \<Rightarrow> CodecError + u8" where
  "DmrAudioSubtype_new subtype = (if subtype \<le> 6 then Ok subtype else Err (InvalidAudioSubtype subtype))"

definition UnknownPacketType_new :: "u16 \<Rightarrow> CodecError + u16" where
  "UnknownPacketType_new raw =
     (case PacketType_from_raw raw of PT_Unknown _ \<Rightarrow> Ok raw | _ \<Rightarrow> Err (KnownPacketType raw))"

fun PacketType_wf :: "PacketType \<Rightarrow> bool" where
  "PacketType_wf (PT_DmrData s) \<longleftrightarrow> DmrDataSubtype_new s = Ok s"
| "PacketType_wf (PT_DmrAudio s) \<longleftrightarrow> DmrAudioSubtype_new s = Ok s"
| "PacketType_wf (PT_Unknown w) \<longleftrightarrow> UnknownPacketType_new w = Ok w"
| "PacketType_wf _ \<longleftrightarrow> True"

text \<open>A subtype within its family.\<close>

lemma low_byte_family:
  fixes raw base :: u16
  assumes "base \<le> raw" "unat raw < unat base + 16"
  shows "base + ucast (to_le_bytes (raw - base) ! 0) = raw" "unat (to_le_bytes (raw - base) ! 0) = unat raw - unat base"
proof -
  have u: "unat (raw - base) = unat raw - unat base" using assms(1) by (simp add: unat_sub word_le_nat_alt)
  then have l: "unat (raw - base) < 256" using assms(2) by simp
  then have c: "unat (to_le_bytes (raw - base) ! 0) = unat (raw - base)"
    by (simp add: to_le_bytes_def crc_lo_def unsigned_ucast_eq take_bit_eq_mod)
  then show "unat (to_le_bytes (raw - base) ! 0) = unat raw - unat base" using u by simp
  have "unat (ucast (to_le_bytes (raw - base) ! 0) :: u16) = unat (raw - base)"
    using c l by (simp add: unsigned_ucast_eq take_bit_eq_mod)
  then have "ucast (to_le_bytes (raw - base) ! 0) = raw - base" by (simp add: word_unat_eq_iff)
  then show "base + ucast (to_le_bytes (raw - base) ! 0) = raw" by simp
qed

lemma family_member:
  fixes base :: u16 and s :: u8
  assumes "unat s < 16" "unat base + 16 \<le> 2 ^ 16"
  shows "unat (base + ucast s) = unat base + unat s" "to_le_bytes (base + ucast s - base) ! 0 = s"
proof -
  have c: "unat (ucast s :: u16) = unat s" using assms(1) by (simp add: unsigned_ucast_eq take_bit_eq_mod)
  then show "unat (base + ucast s) = unat base + unat s" using assms by (simp add: unat_word_ariths)
  have "ucast (ucast s :: u16) = s" by (rule bit_eqI) (auto simp: bit_unsigned_iff)
  then show "to_le_bytes (base + ucast s - base) ! 0 = s" by (simp add: to_le_bytes_def crc_lo_def)
qed

lemma as_raw_from_raw: "PacketType_as_raw (PacketType_from_raw raw) = raw"
proof -
  have "0x910 + ucast (to_le_bytes (raw - 0x910) ! 0) = raw" if "0x910 \<le> raw" "raw \<le> 0x91F"
    using that by (intro low_byte_family(1)) (simp_all add: word_le_nat_alt)
  moreover have "0x920 + ucast (to_le_bytes (raw - 0x920) ! 0) = raw" if "0x920 \<le> raw" "raw \<le> 0x926"
    using that by (intro low_byte_family(1)) (simp_all add: word_le_nat_alt)
  ultimately show ?thesis unfolding PacketType_from_raw_def by simp
qed

lemma from_raw_wf: "PacketType_wf (PacketType_from_raw raw)"
proof -
  have d: "unat (to_le_bytes (raw - 0x910) ! 0) = unat raw - 0x910" if "0x910 \<le> raw" "raw \<le> 0x91F"
    using low_byte_family(2) [of "0x910" raw] that by (simp add: word_le_nat_alt)
  have a: "unat (to_le_bytes (raw - 0x920) ! 0) = unat raw - 0x920" if "0x920 \<le> raw" "raw \<le> 0x926"
    using low_byte_family(2) [of "0x920" raw] that by (simp add: word_le_nat_alt)
  have "PacketType_wf t" if "t = PacketType_from_raw raw" for t
  proof (cases t)
    case (PT_DmrData s)
    then have "s = to_le_bytes (raw - 0x910) ! 0" "0x910 \<le> raw" "raw \<le> 0x91F" "raw \<noteq> 0x911" "raw \<noteq> 0x912"
      using that by (simp_all add: PacketType_from_raw_def split: if_split_asm)
    then show ?thesis using d PT_DmrData by (auto simp: DmrDataSubtype_new_def word_le_nat_alt word_less_nat_alt word_unat_eq_iff)
  next
    case (PT_DmrAudio s)
    then have "s = to_le_bytes (raw - 0x920) ! 0" "0x920 \<le> raw" "raw \<le> 0x926"
      using that by (simp_all add: PacketType_from_raw_def split: if_split_asm)
    then show ?thesis using a PT_DmrAudio by (simp add: DmrAudioSubtype_new_def word_le_nat_alt word_unat_eq_iff)
  next
    case (PT_Unknown w)
    then have "PacketType_from_raw raw = PT_Unknown w" "w = raw" using that as_raw_from_raw [of raw] by simp_all
    then show ?thesis using PT_Unknown by (simp add: UnknownPacketType_new_def)
  qed simp_all
  then show ?thesis by blast
qed

lemma from_raw_as_raw:
  assumes "PacketType_wf t"
  shows "PacketType_from_raw (PacketType_as_raw t) = t"
proof (cases t)
  case (PT_DmrData s)
  then have s: "unat s < 16" "s \<noteq> 1" "s \<noteq> 2"
    using assms by (auto simp: DmrDataSubtype_new_def word_less_nat_alt split: if_splits)
  note m = family_member [of s "0x910"]
  have "unat (0x910 + ucast s :: u16) = 0x910 + unat s" using m(1) s(1) by simp
  then show ?thesis using PT_DmrData s m(2)
    by (simp add: PacketType_from_raw_def word_le_nat_alt word_unat_eq_iff)
next
  case (PT_DmrAudio s)
  then have s: "unat s \<le> 6" using assms by (auto simp: DmrAudioSubtype_new_def word_le_nat_alt split: if_splits)
  note m = family_member [of s "0x920"]
  have "unat (0x920 + ucast s :: u16) = 0x920 + unat s" using m(1) s by simp
  then show ?thesis using PT_DmrAudio s m(2)
    by (simp add: PacketType_from_raw_def word_le_nat_alt word_unat_eq_iff)
next
  case (PT_Unknown w)
  then have "UnknownPacketType_new w = Ok w" using assms by simp
  then obtain v where v: "PacketType_from_raw w = PT_Unknown v"
    by (auto simp: UnknownPacketType_new_def split: PacketType.splits)
  then show ?thesis using PT_Unknown as_raw_from_raw [of w] by simp
qed (simp_all add: PacketType_from_raw_def)


section \<open>Session types and full link control\<close>

datatype SessionType = PrivateVoice | GroupVoice | Session_Unknown u32

definition UnknownSessionType_new :: "u32 \<Rightarrow> CodecError + u32" where
  "UnknownSessionType_new raw = (if raw = 5 \<or> raw = 7 then Err (KnownSessionType raw) else Ok raw)"

definition SessionType_from_raw :: "u32 \<Rightarrow> SessionType" where
  "SessionType_from_raw raw =
     (if raw = 5 then PrivateVoice else if raw = 7 then GroupVoice else Session_Unknown raw)"

fun SessionType_as_raw :: "SessionType \<Rightarrow> u32" where
  "SessionType_as_raw PrivateVoice = 5"
| "SessionType_as_raw GroupVoice = 7"
| "SessionType_as_raw (Session_Unknown value) = value"

fun SessionType_wf :: "SessionType \<Rightarrow> bool" where
  "SessionType_wf (Session_Unknown w) \<longleftrightarrow> UnknownSessionType_new w = Ok w"
| "SessionType_wf _ \<longleftrightarrow> True"

lemma session_raw [simp]: "SessionType_as_raw (SessionType_from_raw raw) = raw" "SessionType_wf (SessionType_from_raw raw)"
  by (simp_all add: SessionType_from_raw_def UnknownSessionType_new_def)

lemma session_from_as [simp]: "SessionType_wf t \<Longrightarrow> SessionType_from_raw (SessionType_as_raw t) = t"
  by (cases t) (auto simp: SessionType_from_raw_def UnknownSessionType_new_def split: if_splits)

datatype FullLinkControlType = Flco_Group | Flco_Private | Flco_Unknown u8

definition UnknownFullLinkControlType_new :: "u8 \<Rightarrow> CodecError + u8" where
  "UnknownFullLinkControlType_new flco =
     (if flco > 0x3F \<or> flco = 0 \<or> flco = 3 then Err (InvalidFlco flco) else Ok flco)"

definition from_flco :: "u8 \<Rightarrow> FullLinkControlType" where
  "from_flco flco =
     (let value = flco AND 0x3F in if value = 0 then Flco_Group else if value = 3 then Flco_Private else Flco_Unknown value)"

fun as_flco :: "FullLinkControlType \<Rightarrow> u8" where
  "as_flco Flco_Group = 0"
| "as_flco Flco_Private = 3"
| "as_flco (Flco_Unknown value) = value"

lemma as_flco_from_flco: "as_flco (from_flco b) = b AND 0x3F"
  by (simp add: from_flco_def Let_def)

datatype DmrId = DmrId (DmrId_get: u32)

definition DmrId_MAX :: DmrId where "DmrId_MAX = DmrId 0x00FFFFFF"

definition DmrId_new :: "u32 \<Rightarrow> CodecError + DmrId" where
  "DmrId_new value = (if value \<le> DmrId_get DmrId_MAX then Ok (DmrId value) else Err (DmrIdOutOfRange value))"

record FullLinkControl =
  lc_flco :: ControlOctet
  lc_feature_id :: FeatureId
  lc_service_options :: ServiceOptions
  lc_destination_id :: DmrId
  lc_source_id :: DmrId
  lc_tail :: bytes

definition call_type :: "FullLinkControl \<Rightarrow> FullLinkControlType" where
  "call_type lc = from_flco (lc_flco lc)"

definition FullLinkControl_from_bytes :: "bytes \<Rightarrow> FullLinkControl" where
  "FullLinkControl_from_bytes bs =
     \<lparr>lc_flco = bs ! 0, lc_feature_id = bs ! 1, lc_service_options = bs ! 2,
      lc_destination_id = DmrId (from_le32 (bs ! 5) (bs ! 4) (bs ! 3) 0),
      lc_source_id = DmrId (from_le32 (bs ! 8) (bs ! 7) (bs ! 6) 0), lc_tail = [bs ! 9, bs ! 10, bs ! 11]\<rparr>"

text \<open>\<open>to_be_bytes\<close> without its first byte.\<close>

definition be24 :: "u32 \<Rightarrow> bytes" where
  "be24 w = tl (rev (le32 w))"

definition FullLinkControl_to_bytes :: "FullLinkControl \<Rightarrow> bytes" where
  "FullLinkControl_to_bytes lc =
     [lc_flco lc, lc_feature_id lc, lc_service_options lc] @ be24 (DmrId_get (lc_destination_id lc)) @
     be24 (DmrId_get (lc_source_id lc)) @ lc_tail lc"

definition FullLinkControl_wf :: "FullLinkControl \<Rightarrow> bool" where
  "FullLinkControl_wf lc \<longleftrightarrow> DmrId_new (DmrId_get (lc_destination_id lc)) = Ok (lc_destination_id lc) \<and>
     DmrId_new (DmrId_get (lc_source_id lc)) = Ok (lc_source_id lc) \<and> length (lc_tail lc) = 3"

lemma DmrId_new_iff: "DmrId_new (DmrId_get i) = Ok i \<longleftrightarrow> DmrId_get i \<le> 0xFFFFFF"
  by (cases i) (simp add: DmrId_new_def DmrId_MAX_def)

lemma high_byte_zero:
  fixes w :: u32
  shows "w \<le> 0xFFFFFF \<longleftrightarrow> ucast (drop_bit 24 w) = (0 :: u8)"
proof -
  have "w \<le> 0xFFFFFF \<longleftrightarrow> unat w < 2 ^ 24" by (auto simp: word_le_nat_alt)
  also have "\<dots> \<longleftrightarrow> unat w div 2 ^ 24 = 0" by (simp add: div_eq_0_iff)
  also have "\<dots> \<longleftrightarrow> drop_bit 24 w = 0" by (simp add: word_unat_eq_iff unat_drop_bit_eq drop_bit_eq_div unat_div)
  also have "\<dots> \<longleftrightarrow> ucast (drop_bit 24 w) = (0 :: u8)"
  proof
    assume z: "ucast (drop_bit 24 w) = (0 :: u8)"
    show "drop_bit 24 w = 0"
    proof (rule bit_eqI)
      fix n
      have "bit (ucast (drop_bit 24 w) :: u8) n = bit (0 :: u8) n" using z by simp
      then show "bit (drop_bit 24 w) n = bit (0 :: u32) n"
        by (auto simp: bit_unsigned_iff bit_drop_bit_eq dest: bit_imp_le_length)
    qed
  qed simp
  finally show ?thesis .
qed

lemma be24_from [simp]: "be24 (from_le32 c b a 0) = [a, b, c]"
  by (simp add: be24_def)

lemma from_le32_24_wf: "from_le32 c b a 0 \<le> 0xFFFFFF"
  using le32_from_le32 [of c b a 0] by (simp add: high_byte_zero le32_def)

lemma from_be24: "w \<le> 0xFFFFFF \<Longrightarrow> from_le32 (be24 w ! 2) (be24 w ! 1) (be24 w ! 0) 0 = w"
  using from_le32_le32 [of w] by (simp add: be24_def le32_def high_byte_zero)

lemma link_control_exact:
  assumes "length bs = 12"
  shows "FullLinkControl_to_bytes (FullLinkControl_from_bytes bs) = bs" "FullLinkControl_wf (FullLinkControl_from_bytes bs)"
proof -
  obtain a b c d e f g h i j k l where "bs = [a, b, c, d, e, f, g, h, i, j, k, l]"
    using assms by (auto simp: length_Suc_conv eval_nat_numeral)
  then show "FullLinkControl_to_bytes (FullLinkControl_from_bytes bs) = bs" "FullLinkControl_wf (FullLinkControl_from_bytes bs)"
    by (simp_all add: FullLinkControl_from_bytes_def FullLinkControl_to_bytes_def FullLinkControl_wf_def
        DmrId_new_def DmrId_MAX_def from_le32_24_wf)
qed

lemma length_be24 [simp]: "length (be24 w) = 3"
  by (simp add: be24_def)

lemma link_control_roundtrip:
  assumes "FullLinkControl_wf lc"
  shows "FullLinkControl_from_bytes (FullLinkControl_to_bytes lc) = lc" "length (FullLinkControl_to_bytes lc) = 12"
proof -
  have t: "length (lc_tail lc) = 3" using assms by (simp add: FullLinkControl_wf_def)
  then show "length (FullLinkControl_to_bytes lc) = 12" by (simp add: FullLinkControl_to_bytes_def)
  obtain x y z where b: "lc_tail lc = [x, y, z]" using t by (auto simp: length_Suc_conv eval_nat_numeral)
  have d: "DmrId_get (lc_destination_id lc) \<le> 0xFFFFFF" "DmrId_get (lc_source_id lc) \<le> 0xFFFFFF"
    using assms by (simp_all add: FullLinkControl_wf_def DmrId_new_iff)
  have e: "\<exists>p q r. be24 w = [p, q, r]" for w by (simp add: be24_def le32_def)
  obtain p q r where f: "be24 (DmrId_get (lc_destination_id lc)) = [p, q, r]" using e by blast
  obtain u v w where g: "be24 (DmrId_get (lc_source_id lc)) = [u, v, w]" using e by blast
  show "FullLinkControl_from_bytes (FullLinkControl_to_bytes lc) = lc"
    using from_be24 [OF d(1)] from_be24 [OF d(2)] b f g
    by (simp add: FullLinkControl_from_bytes_def FullLinkControl_to_bytes_def)
qed


section \<open>Payloads and packets\<close>

datatype RewindCallsign = RewindCallsign (rcs_bytes: bytes)

record VersionData =
  vd_remote_id :: RemoteId
  vd_service :: ServiceCode
  vd_description :: bytes

record WireSubscription =
  ws_session_type :: SessionType
  ws_target :: WireDmrId

record SessionPoll =
  sp_kind :: PollKind
  sp_flags :: PollFlags
  sp_number :: WireDmrId
  sp_state :: PollState

record SuperHeader =
  sh_session_type :: SessionType
  sh_source_id :: WireDmrId
  sh_target_id :: WireDmrId
  sh_source_call :: RewindCallsign
  sh_target_call :: RewindCallsign

datatype Payload =
    PL_KeepAlive "VersionData option"
  | PL_Close
  | PL_Challenge bytes
  | PL_Authentication bytes
  | PL_Redirection bytes
  | PL_Report bytes
  | PL_Busy bytes
  | PL_Subscription "WireSubscription option"
  | PL_Cancelling "WireSubscription option"
  | PL_SessionPoll SessionPoll
  | PL_DmrVoiceHeader FullLinkControl
  | PL_DmrTerminator "FullLinkControl option"
  | PL_DmrAudio bytes
  | PL_DmrEmbeddedData bytes
  | PL_SuperHeader SuperHeader
  | PL_Failure bytes
  | PL_Opaque bytes

record RewindHeader =
  rh_packet_type :: PacketType
  rh_flags :: PacketFlags
  rh_sequence :: TransportSequence
  rh_payload_len :: u16

record RewindPacket =
  rp_header :: RewindHeader
  rp_payload :: Payload

definition accepts_opaque :: "PacketType \<Rightarrow> bool" where
  "accepts_opaque t = (case t of
     PT_Configuration \<Rightarrow> True | PT_AddressNotice \<Rightarrow> True | PT_BindingNotice \<Rightarrow> True | PT_ExternalServer \<Rightarrow> True
   | PT_RemoteControl \<Rightarrow> True | PT_SnmpTrap \<Rightarrow> True | PT_PeerData \<Rightarrow> True | PT_RdacData \<Rightarrow> True
   | PT_MediaData \<Rightarrow> True | PT_DmrData _ \<Rightarrow> True | PT_TerminalIdle \<Rightarrow> True | PT_TerminalAttach \<Rightarrow> True
   | PT_TerminalDetach \<Rightarrow> True | PT_TerminalWakeup \<Rightarrow> True | PT_MessageText \<Rightarrow> True | PT_MessageStatus \<Rightarrow> True
   | PT_LocationReport \<Rightarrow> True | PT_LocationRequest \<Rightarrow> True | PT_Unknown _ \<Rightarrow> True | _ \<Rightarrow> False)"

text \<open>The length of a payload that agrees with its packet type.\<close>

fun measure_payload :: "PacketType \<Rightarrow> Payload \<Rightarrow> nat option" where
  "measure_payload t (PL_KeepAlive v) =
     (if t = PT_KeepAlive then Some (case v of None \<Rightarrow> 0 | Some x \<Rightarrow> usize_saturating_add (length (vd_description x)) 5) else None)"
| "measure_payload t PL_Close = (if t = PT_Close then Some 0 else None)"
| "measure_payload t (PL_Challenge v) = (if t = PT_Challenge then Some (length v) else None)"
| "measure_payload t (PL_Redirection v) = (if t = PT_Redirection then Some (length v) else None)"
| "measure_payload t (PL_Report v) = (if t = PT_Report then Some (length v) else None)"
| "measure_payload t (PL_Busy v) = (if t = PT_BusyNotice then Some (length v) else None)"
| "measure_payload t (PL_Failure v) = (if t = PT_Failure then Some (length v) else None)"
| "measure_payload t (PL_DmrEmbeddedData v) = (if t = PT_DmrEmbeddedData then Some (length v) else None)"
| "measure_payload t (PL_Authentication v) = (if t = PT_Authentication then Some (length v) else None)"
| "measure_payload t (PL_Subscription v) = (if t = PT_Subscription then Some (if v = None then 0 else 8) else None)"
| "measure_payload t (PL_Cancelling v) = (if t = PT_Cancelling then Some (if v = None then 0 else 8) else None)"
| "measure_payload t (PL_SessionPoll v) = (if t = PT_SessionPoll then Some 16 else None)"
| "measure_payload t (PL_DmrVoiceHeader v) = (if t = PT_DmrVoiceHeader then Some FULL_LINK_CONTROL_LEN else None)"
| "measure_payload t (PL_DmrTerminator v) =
     (if t = PT_DmrTerminator then Some (if v = None then 0 else FULL_LINK_CONTROL_LEN) else None)"
| "measure_payload t (PL_DmrAudio v) = (case t of PT_DmrAudio _ \<Rightarrow> Some (length v) | _ \<Rightarrow> None)"
| "measure_payload t (PL_SuperHeader v) = (if t = PT_SuperHeader then Some SUPER_HEADER_LEN else None)"
| "measure_payload t (PL_Opaque v) = (if accepts_opaque t then Some (length v) else None)"

definition validate_and_measure :: "PacketType \<Rightarrow> Payload \<Rightarrow> CodecError + nat" where
  "validate_and_measure t payload =
     (case measure_payload t payload of None \<Rightarrow> Err (PayloadTypeMismatch t)
      | Some n \<Rightarrow> if n > REWIND_MAX_PAYLOAD_LEN then Err (PayloadTooLong n REWIND_MAX_PAYLOAD_LEN) else Ok n)"

definition RewindPacket_new :: "PacketType \<Rightarrow> PacketFlags \<Rightarrow> TransportSequence \<Rightarrow> Payload \<Rightarrow> CodecError + RewindPacket" where
  "RewindPacket_new packet_type fl sequence payload =
     (case validate_and_measure packet_type payload of Err e \<Rightarrow> Err e
      | Ok n \<Rightarrow> if n \<ge> 65536 then Err (PayloadTooLong n REWIND_MAX_PAYLOAD_LEN)
        else Ok \<lparr>rp_header = \<lparr>rh_packet_type = packet_type, rh_flags = fl, rh_sequence = sequence,
                   rh_payload_len = of_nat n\<rparr>, rp_payload = payload\<rparr>)"

section \<open>Encoding (codec.rs)\<close>

fun encode_payload :: "Payload \<Rightarrow> bytes" where
  "encode_payload (PL_KeepAlive (Some v)) = le32 (vd_remote_id v) @ [vd_service v] @ vd_description v"
| "encode_payload (PL_KeepAlive None) = []"
| "encode_payload PL_Close = []"
| "encode_payload (PL_Subscription None) = []"
| "encode_payload (PL_Cancelling None) = []"
| "encode_payload (PL_DmrTerminator None) = []"
| "encode_payload (PL_Challenge v) = v"
| "encode_payload (PL_Redirection v) = v"
| "encode_payload (PL_Report v) = v"
| "encode_payload (PL_Busy v) = v"
| "encode_payload (PL_Failure v) = v"
| "encode_payload (PL_Opaque v) = v"
| "encode_payload (PL_Authentication v) = v"
| "encode_payload (PL_Subscription (Some v)) = le32 (SessionType_as_raw (ws_session_type v)) @ le32 (ws_target v)"
| "encode_payload (PL_Cancelling (Some v)) = le32 (SessionType_as_raw (ws_session_type v)) @ le32 (ws_target v)"
| "encode_payload (PL_SessionPoll v) = le32 (sp_kind v) @ le32 (sp_flags v) @ le32 (sp_number v) @ le32 (sp_state v)"
| "encode_payload (PL_DmrVoiceHeader v) = FullLinkControl_to_bytes v"
| "encode_payload (PL_DmrTerminator (Some v)) = FullLinkControl_to_bytes v"
| "encode_payload (PL_DmrAudio v) = v"
| "encode_payload (PL_DmrEmbeddedData v) = v"
| "encode_payload (PL_SuperHeader v) = le32 (SessionType_as_raw (sh_session_type v)) @ le32 (sh_source_id v) @
     le32 (sh_target_id v) @ rcs_bytes (sh_source_call v) @ rcs_bytes (sh_target_call v)"

definition RewindPacket_to_bytes :: "RewindPacket \<Rightarrow> bytes" where
  "RewindPacket_to_bytes p =
     SIGNATURE @ to_le_bytes (PacketType_as_raw (rh_packet_type (rp_header p))) @ to_le_bytes (rh_flags (rp_header p)) @
     le32 (rh_sequence (rp_header p)) @ to_le_bytes (rh_payload_len (rp_header p)) @ encode_payload (rp_payload p)"

section \<open>Decoding (codec.rs)\<close>

definition read_array :: "nat \<Rightarrow> bytes \<Rightarrow> nat \<Rightarrow> CodecError + bytes" where
  "read_array n bs offset =
     (case get_range offset (offset + n) bs of None \<Rightarrow> Err (DatagramTooShort (length bs) (offset + n)) | Some v \<Rightarrow> Ok v)"

definition read_u16_le :: "bytes \<Rightarrow> nat \<Rightarrow> CodecError + u16" where
  "read_u16_le bs offset = (case read_array 2 bs offset of Err e \<Rightarrow> Err e | Ok v \<Rightarrow> Ok (from_le_bytes (v ! 0) (v ! 1)))"

definition read_u32_le :: "bytes \<Rightarrow> nat \<Rightarrow> CodecError + u32" where
  "read_u32_le bs offset =
     (case read_array 4 bs offset of Err e \<Rightarrow> Err e | Ok v \<Rightarrow> Ok (from_le32 (v ! 0) (v ! 1) (v ! 2) (v ! 3)))"

definition require_len :: "PacketType \<Rightarrow> bytes \<Rightarrow> nat \<Rightarrow> string \<Rightarrow> CodecError + unit" where
  "require_len t bs n expected = (if length bs = n then Ok () else Err (InvalidPayloadLength t expected (length bs)))"

definition read_exact_payload :: "nat \<Rightarrow> PacketType \<Rightarrow> bytes \<Rightarrow> string \<Rightarrow> CodecError + bytes" where
  "read_exact_payload n t bs expected =
     (case require_len t bs n expected of Err e \<Rightarrow> Err e | Ok _ \<Rightarrow> read_array n bs 0)"

definition map_ok :: "('a \<Rightarrow> 'b) \<Rightarrow> 'e + 'a \<Rightarrow> 'e + 'b" where
  "map_ok f r = (case r of Err e \<Rightarrow> Err e | Ok v \<Rightarrow> Ok (f v))"

definition decode_keep_alive :: "bytes \<Rightarrow> CodecError + Payload" where
  "decode_keep_alive bs =
     (if bs = [] then Ok (PL_KeepAlive None)
      else if length bs < 5 then Err (InvalidPayloadLength PT_KeepAlive ''0 or at least 5'' (length bs))
      else (case read_u32_le bs 0 of Err e \<Rightarrow> Err e
        | Ok remote_id \<Rightarrow> (case get 4 bs of None \<Rightarrow> Err (InvalidPayloadLength PT_KeepAlive ''0 or at least 5'' (length bs))
          | Some service \<Rightarrow> (case get_from 5 bs of None \<Rightarrow> Err (InvalidPayloadLength PT_KeepAlive ''0 or at least 5'' (length bs))
            | Some description \<Rightarrow> Ok (PL_KeepAlive (Some \<lparr>vd_remote_id = remote_id, vd_service = service,
                vd_description = description\<rparr>))))))"

definition decode_subscription :: "PacketType \<Rightarrow> bytes \<Rightarrow> CodecError + Payload" where
  "decode_subscription t bs =
     (case (if length bs = 0 then Ok None
            else if length bs = 8
            then (case read_u32_le bs 0 of Err e \<Rightarrow> Err e | Ok st \<Rightarrow> (case read_u32_le bs 4 of Err e \<Rightarrow> Err e
                    | Ok target \<Rightarrow> Ok (Some \<lparr>ws_session_type = SessionType_from_raw st, ws_target = target\<rparr>)))
            else Err (InvalidPayloadLength t ''0 or 8'' (length bs))) of
        Err e \<Rightarrow> Err e
      | Ok value \<Rightarrow> if t = PT_Cancelling then Ok (PL_Cancelling value) else Ok (PL_Subscription value))"

definition decode_session_poll :: "bytes \<Rightarrow> CodecError + Payload" where
  "decode_session_poll bs =
     (case require_len PT_SessionPoll bs 16 ''16'' of Err e \<Rightarrow> Err e
      | Ok _ \<Rightarrow> (case read_u32_le bs 0 of Err e \<Rightarrow> Err e | Ok kind \<Rightarrow> (case read_u32_le bs 4 of Err e \<Rightarrow> Err e
        | Ok fl \<Rightarrow> (case read_u32_le bs 8 of Err e \<Rightarrow> Err e | Ok number \<Rightarrow> (case read_u32_le bs 12 of Err e \<Rightarrow> Err e
          | Ok state \<Rightarrow> Ok (PL_SessionPoll \<lparr>sp_kind = kind, sp_flags = fl, sp_number = number, sp_state = state\<rparr>))))))"

definition decode_super_header :: "bytes \<Rightarrow> CodecError + Payload" where
  "decode_super_header bs =
     (case require_len PT_SuperHeader bs SUPER_HEADER_LEN ''32'' of Err e \<Rightarrow> Err e
      | Ok _ \<Rightarrow> (case read_u32_le bs 0 of Err e \<Rightarrow> Err e | Ok st \<Rightarrow> (case read_u32_le bs 4 of Err e \<Rightarrow> Err e
        | Ok source \<Rightarrow> (case read_u32_le bs 8 of Err e \<Rightarrow> Err e | Ok target \<Rightarrow> (case read_array 10 bs 12 of Err e \<Rightarrow> Err e
          | Ok source_call \<Rightarrow> (case read_array 10 bs 22 of Err e \<Rightarrow> Err e
            | Ok target_call \<Rightarrow> Ok (PL_SuperHeader \<lparr>sh_session_type = SessionType_from_raw st, sh_source_id = source,
                sh_target_id = target, sh_source_call = RewindCallsign source_call,
                sh_target_call = RewindCallsign target_call\<rparr>)))))))"

definition decode_terminator :: "bytes \<Rightarrow> CodecError + Payload" where
  "decode_terminator bs =
     (if length bs = 0 then Ok (PL_DmrTerminator None)
      else if length bs = FULL_LINK_CONTROL_LEN
      then map_ok (\<lambda>raw. PL_DmrTerminator (Some (FullLinkControl_from_bytes raw))) (read_array FULL_LINK_CONTROL_LEN bs 0)
      else Err (InvalidPayloadLength PT_DmrTerminator ''0 or 12'' (length bs)))"

definition decode_payload :: "PacketType \<Rightarrow> bytes \<Rightarrow> CodecError + Payload" where
  "decode_payload t bs =
     (case t of
        PT_KeepAlive \<Rightarrow> decode_keep_alive bs
      | PT_Close \<Rightarrow> map_ok (\<lambda>_. PL_Close) (require_len t bs 0 ''0'')
      | PT_Challenge \<Rightarrow> Ok (PL_Challenge bs)
      | PT_Authentication \<Rightarrow> map_ok PL_Authentication (read_exact_payload AUTHENTICATION_LEN t bs ''32'')
      | PT_Redirection \<Rightarrow> Ok (PL_Redirection bs)
      | PT_Report \<Rightarrow> Ok (PL_Report bs)
      | PT_BusyNotice \<Rightarrow> Ok (PL_Busy bs)
      | PT_Subscription \<Rightarrow> decode_subscription t bs
      | PT_Cancelling \<Rightarrow> decode_subscription t bs
      | PT_SessionPoll \<Rightarrow> decode_session_poll bs
      | PT_DmrVoiceHeader \<Rightarrow> map_ok (\<lambda>raw. PL_DmrVoiceHeader (FullLinkControl_from_bytes raw))
          (read_exact_payload FULL_LINK_CONTROL_LEN t bs ''12'')
      | PT_DmrTerminator \<Rightarrow> decode_terminator bs
      | PT_DmrAudio _ \<Rightarrow> map_ok PL_DmrAudio (read_exact_payload DMR_AUDIO_LEN t bs ''27'')
      | PT_DmrEmbeddedData \<Rightarrow> Ok (PL_DmrEmbeddedData bs)
      | PT_SuperHeader \<Rightarrow> decode_super_header bs
      | PT_Failure \<Rightarrow> Ok (PL_Failure bs)
      | _ \<Rightarrow> Ok (PL_Opaque bs))"

definition RewindPacket_from_bytes :: "bytes \<Rightarrow> CodecError + RewindPacket" where
  "RewindPacket_from_bytes datagram =
     (if length datagram < HEADER_LEN then Err (DatagramTooShort (length datagram) HEADER_LEN)
      else if length datagram > MAX_DATAGRAM_LEN then Err (DatagramTooLong (length datagram) MAX_DATAGRAM_LEN)
      else (case get_range 0 (length SIGNATURE) datagram of None \<Rightarrow> Err (DatagramTooShort (length datagram) HEADER_LEN)
        | Some signature \<Rightarrow> if signature \<noteq> SIGNATURE then Err InvalidSignature
          else (case read_u16_le datagram 8 of Err e \<Rightarrow> Err e | Ok raw \<Rightarrow> (case read_u16_le datagram 10 of Err e \<Rightarrow> Err e
            | Ok fl \<Rightarrow> (case read_u32_le datagram 12 of Err e \<Rightarrow> Err e | Ok sequence \<Rightarrow>
              (case read_u16_le datagram 16 of Err e \<Rightarrow> Err e | Ok len \<Rightarrow>
                (let packet_type = PacketType_from_raw raw; declared = unat len; actual = length datagram - HEADER_LEN
                 in if actual < declared then Err (TruncatedPayload declared actual)
                    else if actual > declared then Err (TrailingBytes (actual - declared))
                    else (case get_from HEADER_LEN datagram of None \<Rightarrow> Err (DatagramTooShort (length datagram) HEADER_LEN)
                      | Some payload_bytes \<Rightarrow> (case decode_payload packet_type payload_bytes of Err e \<Rightarrow> Err e
                        | Ok payload \<Rightarrow> Ok \<lparr>rp_header = \<lparr>rh_packet_type = packet_type, rh_flags = fl,
                            rh_sequence = sequence, rh_payload_len = len\<rparr>, rp_payload = payload\<rparr>)))))))))"

text \<open>The login answer: SHA-256 of the challenge followed by the password. The hash comes from the
  \<open>sha2\<close> crate and is the parameter \<open>H\<close>.\<close>

definition authentication_digest :: "(bytes \<Rightarrow> bytes) \<Rightarrow> bytes \<Rightarrow> bytes \<Rightarrow> bytes" where
  "authentication_digest H challenge password = H (challenge @ password)"

section \<open>Exactness of the codec\<close>

fun Payload_wf :: "Payload \<Rightarrow> bool" where
  "Payload_wf (PL_Authentication v) \<longleftrightarrow> length v = AUTHENTICATION_LEN"
| "Payload_wf (PL_Subscription (Some v)) \<longleftrightarrow> SessionType_wf (ws_session_type v)"
| "Payload_wf (PL_Cancelling (Some v)) \<longleftrightarrow> SessionType_wf (ws_session_type v)"
| "Payload_wf (PL_DmrVoiceHeader v) \<longleftrightarrow> FullLinkControl_wf v"
| "Payload_wf (PL_DmrTerminator (Some v)) \<longleftrightarrow> FullLinkControl_wf v"
| "Payload_wf (PL_DmrAudio v) \<longleftrightarrow> length v = DMR_AUDIO_LEN"
| "Payload_wf (PL_SuperHeader v) \<longleftrightarrow> SessionType_wf (sh_session_type v) \<and>
     length (rcs_bytes (sh_source_call v)) = 10 \<and> length (rcs_bytes (sh_target_call v)) = 10"
| "Payload_wf _ \<longleftrightarrow> True"

definition RewindPacket_wf :: "RewindPacket \<Rightarrow> bool" where
  "RewindPacket_wf p \<longleftrightarrow> PacketType_wf (rh_packet_type (rp_header p)) \<and> Payload_wf (rp_payload p) \<and>
     RewindPacket_new (rh_packet_type (rp_header p)) (rh_flags (rp_header p)) (rh_sequence (rp_header p)) (rp_payload p) = Ok p"

lemma word_of_le32 [simp]: "from_le32 (le32 w ! 0) (le32 w ! Suc 0) (le32 w ! 2) (le32 w ! 3) = w"
  by (simp add: le32_def)

lemma le32_cover: "length bs = 4 \<Longrightarrow> \<exists>w. bs = le32 w"
proof -
  assume "length bs = 4"
  then obtain a b c d where "bs = [a, b, c, d]" by (auto simp: length_Suc_conv eval_nat_numeral)
  then show ?thesis using le32_from_le32 [of a b c d] by metis
qed

lemma le_bytes_cover: "length bs = 2 \<Longrightarrow> \<exists>w. bs = to_le_bytes w"
proof -
  assume "length bs = 2"
  then obtain a b where "bs = [a, b]" by (auto simp: length_Suc_conv eval_nat_numeral)
  then show ?thesis using to_from_le_bytes_list [of a b] by metis
qed

lemma word_of_le_bytes [simp]: "from_le_bytes (to_le_bytes w ! 0) (to_le_bytes w ! Suc 0) = w"
  by (simp add: to_le_bytes_def)

text \<open>A list cut at an offset.\<close>

lemma cut_at: "n \<le> length bs \<Longrightarrow> \<exists>a b. bs = a @ b \<and> length a = n \<and> length b = length bs - n"
  by (rule exI [of _ "take n bs"], rule exI [of _ "drop n bs"]) simp

lemma cut_le32:
  assumes "length bs = 4 + n"
  obtains w rest where "bs = le32 w @ rest" "length rest = n"
  using cut_at [of 4 bs] le32_cover assms by (metis add_diff_cancel_left' le_add1)

lemmas field_reads = read_array_def read_u16_le_def read_u32_le_def get_range_def get_from_def get_def

lemma keep_alive_exact:
  assumes "length bs \<le> REWIND_MAX_PAYLOAD_LEN"
  shows "decode_keep_alive bs = Ok pl \<longleftrightarrow> measure_payload PT_KeepAlive pl = Some (length bs) \<and> encode_payload pl = bs"
    (is "?l \<longleftrightarrow> ?r")
proof
  assume l: ?l
  show ?r
  proof (cases "bs = []")
    case False
    then have "5 \<le> length bs" using l by (auto simp: decode_keep_alive_def split: if_splits)
    then obtain w rest where b: "bs = le32 w @ rest" "length rest = length bs - 4"
      using cut_le32 [of bs "length bs - 4"] by auto
    then obtain s d where r: "rest = s # d" using \<open>5 \<le> length bs\<close> by (cases rest) auto
    have "usize_saturating_add (length d) 5 = length d + 5"
      using assms b r by (intro usize_saturating_add_exact) (simp add: usize_max_def rewind_lens)
    then show ?thesis using l b r by (auto simp: decode_keep_alive_def field_reads nth_append)
  qed (use l in \<open>auto simp: decode_keep_alive_def\<close>)
next
  assume r: ?r
  then obtain v where p: "pl = PL_KeepAlive v" by (cases pl) (auto simp: accepts_opaque_def split: if_splits)
  show ?l
  proof (cases v)
    case (Some x)
    then show ?thesis using r p by (auto simp: decode_keep_alive_def field_reads le32_def)
  qed (use r p in \<open>auto simp: decode_keep_alive_def\<close>)
qed

lemma subscription_exact:
  assumes "t = PT_Subscription \<or> t = PT_Cancelling"
  shows "decode_subscription t bs = Ok pl \<longleftrightarrow>
    Payload_wf pl \<and> measure_payload t pl = Some (length bs) \<and> encode_payload pl = bs" (is "?l \<longleftrightarrow> ?r")
proof
  assume l: ?l
  then consider "bs = []" | "length bs = 8" by (auto simp: decode_subscription_def split: if_splits)
  then show ?r
  proof cases
    case 2
    then obtain v r where r: "bs = le32 v @ r" "length r = 4" using cut_le32 [of bs 4] by auto
    then obtain w where w: "bs = le32 v @ le32 w" using 2 le32_cover [of r] by auto
    show ?thesis using l assms unfolding w by (auto simp: decode_subscription_def field_reads)
  qed (use l assms in \<open>auto simp: decode_subscription_def\<close>)
next
  assume r: ?r
  then obtain v where p: "t = PT_Subscription \<and> pl = PL_Subscription v \<or> t = PT_Cancelling \<and> pl = PL_Cancelling v"
    using assms by (cases pl) (auto simp: accepts_opaque_def split: if_splits)
  show ?l
  proof (cases v)
    case (Some x)
    then have bs: "bs = le32 (SessionType_as_raw (ws_session_type x)) @ le32 (ws_target x)" and
      wf: "SessionType_wf (ws_session_type x)" using r p by auto
    show ?thesis using p Some wf unfolding bs by (auto simp: decode_subscription_def field_reads)
  qed (use r p in \<open>auto simp: decode_subscription_def\<close>)
qed

lemma session_poll_exact:
  "decode_session_poll bs = Ok pl \<longleftrightarrow> measure_payload PT_SessionPoll pl = Some (length bs) \<and> encode_payload pl = bs"
    (is "?l \<longleftrightarrow> ?r")
proof
  assume l: ?l
  then have n: "length bs = 16" by (auto simp: decode_session_poll_def require_len_def split: if_splits)
  obtain a r where a: "bs = le32 a @ r" "length r = 12" using n cut_le32 [of bs 12] by auto
  obtain b r' where b: "r = le32 b @ r'" "length r' = 8" using a cut_le32 [of r 8] by auto
  obtain c r'' where c: "r' = le32 c @ r''" "length r'' = 4" using b cut_le32 [of r' 4] by auto
  obtain d where bs: "bs = le32 a @ le32 b @ le32 c @ le32 d" using a b c le32_cover [of r''] by auto
  show ?r using l unfolding bs by (auto simp: decode_session_poll_def require_len_def field_reads)
next
  assume r: ?r
  then obtain v where p: "pl = PL_SessionPoll v" by (cases pl) (auto simp: accepts_opaque_def split: if_splits)
  then have bs: "bs = le32 (sp_kind v) @ le32 (sp_flags v) @ le32 (sp_number v) @ le32 (sp_state v)" using r by simp
  show ?l unfolding bs p by (simp add: decode_session_poll_def require_len_def field_reads)
qed

lemma super_header_exact:
  "decode_super_header bs = Ok pl \<longleftrightarrow>
    Payload_wf pl \<and> measure_payload PT_SuperHeader pl = Some (length bs) \<and> encode_payload pl = bs" (is "?l \<longleftrightarrow> ?r")
proof
  assume l: ?l
  then have n: "length bs = 32"
    by (auto simp: decode_super_header_def require_len_def rewind_lens split: if_splits)
  obtain a r where a: "bs = le32 a @ r" "length r = 28" using n cut_le32 [of bs 28] by auto
  obtain b r' where b: "r = le32 b @ r'" "length r' = 24" using a cut_le32 [of r 24] by auto
  obtain c r'' where c: "r' = le32 c @ r''" "length r'' = 20" using b cut_le32 [of r' 20] by auto
  obtain x y where xy: "r'' = x @ y" "length x = 10" "length y = 10" using c cut_at [of 10 r''] by auto
  have bs: "bs = le32 a @ le32 b @ le32 c @ x @ y" using a b c xy by simp
  show ?r using l xy(2,3) unfolding bs
    by (auto simp: decode_super_header_def require_len_def field_reads rewind_lens)
next
  assume r: ?r
  then obtain v where p: "pl = PL_SuperHeader v" by (cases pl) (auto simp: accepts_opaque_def split: if_splits)
  then have bs: "bs = le32 (SessionType_as_raw (sh_session_type v)) @ le32 (sh_source_id v) @
     le32 (sh_target_id v) @ rcs_bytes (sh_source_call v) @ rcs_bytes (sh_target_call v)" and
    wf: "SessionType_wf (sh_session_type v)" "length (rcs_bytes (sh_source_call v)) = 10"
      "length (rcs_bytes (sh_target_call v)) = 10" using r by auto
  show ?l using wf unfolding bs p
    by (simp add: decode_super_header_def require_len_def field_reads rewind_lens)
qed

lemma terminator_exact:
  "decode_terminator bs = Ok pl \<longleftrightarrow>
    Payload_wf pl \<and> measure_payload PT_DmrTerminator pl = Some (length bs) \<and> encode_payload pl = bs" (is "?l \<longleftrightarrow> ?r")
proof
  assume l: ?l
  then consider "bs = []" | "length bs = 12" by (auto simp: decode_terminator_def rewind_lens split: if_splits)
  then show ?r
    by cases (use l link_control_exact [of bs] in \<open>auto simp: decode_terminator_def map_ok_def field_reads rewind_lens\<close>)
next
  assume r: ?r
  then obtain v where p: "pl = PL_DmrTerminator v" by (cases pl) (auto simp: accepts_opaque_def split: if_splits)
  show ?l
  proof (cases v)
    case (Some lc)
    then show ?thesis using r p link_control_roundtrip [of lc]
      by (auto simp: decode_terminator_def map_ok_def field_reads rewind_lens)
  qed (use r p in \<open>auto simp: decode_terminator_def\<close>)
qed

lemma voice_header_exact:
  "decode_payload PT_DmrVoiceHeader bs = Ok pl \<longleftrightarrow>
    Payload_wf pl \<and> measure_payload PT_DmrVoiceHeader pl = Some (length bs) \<and> encode_payload pl = bs" (is "?l \<longleftrightarrow> ?r")
proof
  assume l: ?l
  then have "length bs = 12"
    by (auto simp: decode_payload_def map_ok_def read_exact_payload_def require_len_def rewind_lens split: if_splits)
  then show ?r using l link_control_exact [of bs]
    by (auto simp: decode_payload_def map_ok_def read_exact_payload_def require_len_def field_reads rewind_lens)
next
  assume r: ?r
  then obtain lc where p: "pl = PL_DmrVoiceHeader lc" by (cases pl) (auto simp: accepts_opaque_def split: if_splits)
  show ?l using r p link_control_roundtrip [of lc]
    by (auto simp: decode_payload_def map_ok_def read_exact_payload_def require_len_def field_reads rewind_lens)
qed

lemma decode_payload_exact:
  assumes "length bs \<le> REWIND_MAX_PAYLOAD_LEN"
  shows "decode_payload t bs = Ok pl \<longleftrightarrow>
    Payload_wf pl \<and> measure_payload t pl = Some (length bs) \<and> encode_payload pl = bs"
proof -
  have k: "measure_payload PT_KeepAlive pl = Some n \<Longrightarrow> Payload_wf pl" for n
    by (cases pl) (auto simp: accepts_opaque_def)
  have p: "measure_payload PT_SessionPoll pl = Some n \<Longrightarrow> Payload_wf pl" for n
    by (cases pl) (auto simp: accepts_opaque_def)
  note fixed = map_ok_def read_exact_payload_def require_len_def field_reads rewind_lens
  show ?thesis
  proof (cases t)
    case PT_KeepAlive
    then show ?thesis using keep_alive_exact [OF assms] k by (auto simp: decode_payload_def)
  next
    case PT_Subscription
    then show ?thesis using subscription_exact [of t] by (simp add: decode_payload_def)
  next
    case PT_Cancelling
    then show ?thesis using subscription_exact [of t] by (simp add: decode_payload_def)
  next
    case PT_SessionPoll
    then show ?thesis using session_poll_exact p by (auto simp: decode_payload_def)
  next
    case PT_SuperHeader
    then show ?thesis using super_header_exact by (simp add: decode_payload_def)
  next
    case PT_DmrTerminator
    then show ?thesis using terminator_exact by (simp add: decode_payload_def)
  next
    case PT_DmrVoiceHeader
    then show ?thesis using voice_header_exact by simp
  qed (cases pl; auto simp: decode_payload_def accepts_opaque_def fixed)+
qed

lemma encode_payload_length:
  assumes "Payload_wf pl" "measure_payload t pl = Some n" "n \<le> REWIND_MAX_PAYLOAD_LEN"
  shows "length (encode_payload pl) = n"
  using assms
proof (cases pl)
  case (PL_KeepAlive v)
  then show ?thesis using assms
    by (cases v) (auto simp: usize_saturating_add_def usize_max_def rewind_lens min_def split: if_splits)
next
  case (PL_DmrTerminator v)
  then show ?thesis using assms link_control_roundtrip(2) by (cases v) (auto simp: rewind_lens split: if_splits)
next
  case (PL_Subscription v)
  then show ?thesis using assms by (cases v) (auto split: if_splits)
next
  case (PL_Cancelling v)
  then show ?thesis using assms by (cases v) (auto split: if_splits)
qed (auto simp: rewind_lens link_control_roundtrip(2) split: if_splits PacketType.splits)

lemma length_SIGNATURE: "length SIGNATURE = 8"
  by (simp add: SIGNATURE_def)

text \<open>The decoder on a datagram in its parts.\<close>

lemma from_bytes_parts:
  assumes "length body \<le> REWIND_MAX_PAYLOAD_LEN"
  shows "RewindPacket_from_bytes (SIGNATURE @ to_le_bytes a @ to_le_bytes b @ le32 c @ to_le_bytes d @ body) = Ok p \<longleftrightarrow>
    length body = unat d \<and> (\<exists>pl. decode_payload (PacketType_from_raw a) body = Ok pl \<and>
      p = \<lparr>rp_header = \<lparr>rh_packet_type = PacketType_from_raw a, rh_flags = b, rh_sequence = c, rh_payload_len = d\<rparr>,
           rp_payload = pl\<rparr>)"
proof -
  have l: "length body \<le> 65489" using assms by (simp add: rewind_lens)
  show ?thesis using l
    by (auto simp: RewindPacket_from_bytes_def field_reads rewind_lens length_SIGNATURE Let_def split: sum.splits)
qed

lemma datagram_parts:
  assumes "HEADER_LEN \<le> length d" "take 8 d = SIGNATURE"
  obtains a b c e body where "d = SIGNATURE @ to_le_bytes a @ to_le_bytes b @ le32 c @ to_le_bytes e @ body"
    "length d = HEADER_LEN + length body"
proof -
  have n: "18 \<le> length d" using assms(1) by (simp add: rewind_lens)
  have "d = take 8 d @ take 2 (drop 8 d) @ take 2 (drop 10 d) @ take 4 (drop 12 d) @ take 2 (drop 16 d) @ drop 18 d"
    using append_take_drop_id [of 2 "drop 8 d"] append_take_drop_id [of 2 "drop 10 d"]
      append_take_drop_id [of 4 "drop 12 d"] append_take_drop_id [of 2 "drop 16 d"] append_take_drop_id [of 8 d]
    by (simp add: append_take_drop_id [symmetric] del: append_take_drop_id)
  moreover obtain a where "take 2 (drop 8 d) = to_le_bytes a" using n le_bytes_cover [of "take 2 (drop 8 d)"] by auto
  moreover obtain b where "take 2 (drop 10 d) = to_le_bytes b" using n le_bytes_cover [of "take 2 (drop 10 d)"] by auto
  moreover obtain c where "take 4 (drop 12 d) = le32 c" using n le32_cover [of "take 4 (drop 12 d)"] by auto
  moreover obtain e where "take 2 (drop 16 d) = to_le_bytes e" using n le_bytes_cover [of "take 2 (drop 16 d)"] by auto
  ultimately have "d = SIGNATURE @ to_le_bytes a @ to_le_bytes b @ le32 c @ to_le_bytes e @ drop 18 d"
    using assms(2) by simp
  then show thesis by (rule that) (use n in \<open>simp add: rewind_lens\<close>)
qed

lemma decoder_sound:
  assumes l: "RewindPacket_from_bytes d = Ok p"
  shows "RewindPacket_wf p \<and> d = RewindPacket_to_bytes p"
proof -
  have n: "HEADER_LEN \<le> length d" "length d \<le> MAX_DATAGRAM_LEN" and sg: "take 8 d = SIGNATURE"
    using l by (auto simp: RewindPacket_from_bytes_def get_range_def length_SIGNATURE rewind_lens split: if_splits)
  obtain a b c e body where d: "d = SIGNATURE @ to_le_bytes a @ to_le_bytes b @ le32 c @ to_le_bytes e @ body"
    and k: "length d = HEADER_LEN + length body" using datagram_parts [OF n(1) sg] by metis
  have m: "length body \<le> REWIND_MAX_PAYLOAD_LEN" using n k by (simp add: rewind_lens)
  obtain pl where pl: "length body = unat e" "decode_payload (PacketType_from_raw a) body = Ok pl"
    "p = \<lparr>rp_header = \<lparr>rh_packet_type = PacketType_from_raw a, rh_flags = b, rh_sequence = c, rh_payload_len = e\<rparr>,
          rp_payload = pl\<rparr>" using l from_bytes_parts [OF m] unfolding d by blast
  then have x: "Payload_wf pl" "measure_payload (PacketType_from_raw a) pl = Some (unat e)" "encode_payload pl = body"
    using decode_payload_exact [OF m] by auto
  have "RewindPacket_wf p" using x m pl(1) unfolding pl(3)
    by (auto simp: RewindPacket_wf_def from_raw_wf RewindPacket_new_def validate_and_measure_def rewind_lens)
  moreover have "d = RewindPacket_to_bytes p" using x(3) unfolding pl(3) d
    by (simp add: RewindPacket_to_bytes_def as_raw_from_raw)
  ultimately show ?thesis by blast
qed

lemma encoder_decodes:
  assumes r: "RewindPacket_wf p"
  shows "RewindPacket_from_bytes (RewindPacket_to_bytes p) = Ok p"
proof -
  obtain t fl sq len pl where p: "p = \<lparr>rp_header = \<lparr>rh_packet_type = t, rh_flags = fl, rh_sequence = sq,
      rh_payload_len = len\<rparr>, rp_payload = pl\<rparr>" by (metis RewindPacket.cases RewindHeader.cases)
  have w: "PacketType_wf t" "Payload_wf pl" using r by (auto simp: p RewindPacket_wf_def)
  obtain n where n: "measure_payload t pl = Some n" "n \<le> REWIND_MAX_PAYLOAD_LEN" "len = of_nat n"
    using r by (auto simp: p RewindPacket_wf_def RewindPacket_new_def validate_and_measure_def split: option.splits if_splits)
  have e: "length (encode_payload pl) = n" using encode_payload_length [OF w(2) n(1,2)] .
  have u: "unat len = n" using n by (simp add: rewind_lens unsigned_of_nat take_bit_eq_mod)
  have "decode_payload t (encode_payload pl) = Ok pl" using decode_payload_exact e n w by simp
  then show ?thesis using r e u n(2) from_raw_as_raw [OF w(1)]
    by (simp add: p RewindPacket_to_bytes_def from_bytes_parts)
qed

text \<open>C35. The REWIND datagram decoder is exact: a byte string decodes to a packet if and only if the
  packet is one that the checked constructor builds from well-formed parts and the byte string is
  its encoding. Decoding and encoding are inverse on everything either accepts, a datagram has one
  encoding, and a wrong signature, length, type and payload pair or trailing byte is always refused.\<close>

theorem rewind_codec_exact:
  "RewindPacket_from_bytes d = Ok p \<longleftrightarrow> RewindPacket_wf p \<and> d = RewindPacket_to_bytes p"
  using decoder_sound [of d p] encoder_decodes [of p] by blast

end
