(* ===== verification/Rewind_Client.thy ===== *)
theory Rewind_Client
  imports Rewind_Codec Dstar_Session Mmdvm_Core
begin

unbundle bit_operations_syntax

text \<open>
  The Open DMR Terminal client (\<open>dmr-rewind/src/config.rs\<close> and \<open>client.rs\<close>): checked
  configurations, the events made from datagrams, the bounded backlog, the login, the receive loop
  with its recovery from a fresh challenge, keepalives and timeouts, and the orderly close.

  The connected UDP socket is represented by the transcript of the datagrams that passed through it.
  Every await is answered by a \<open>RewindMoment\<close>: what the socket and the clock did. A future that is
  dropped at an await has no result: a list of moments that ends while the client is receiving,
  or a send whose outcome is \<open>SO_Dropped\<close>.
\<close>

section \<open>Lossy text\<close>

text \<open>\<open>String::from_utf8_lossy\<close>: every offending sequence becomes one U+FFFD.\<close>

lemma utf8_step_error: "utf8_step bs = Err (Some n) \<Longrightarrow> 0 < n \<and> bs \<noteq> []"
  by (auto simp: utf8_step_def split: list.splits if_splits)

function from_utf8_lossy :: "bytes \<Rightarrow> nat list" where
  "from_utf8_lossy bs =
     (if bs = [] then []
      else (case utf8_step bs of
              Err None \<Rightarrow> [0xFFFD]
            | Err (Some n) \<Rightarrow> 0xFFFD # from_utf8_lossy (drop n bs)
            | Ok (c, rest) \<Rightarrow> c # from_utf8_lossy rest))"
  by pat_completeness auto
termination
  by (relation "measure length") (auto dest: utf8_step_shorter utf8_step_error)

declare from_utf8_lossy.simps [simp del]

text \<open>\<open>char::is_whitespace\<close>: the Unicode property \<open>White_Space\<close>.\<close>

definition is_whitespace :: "nat \<Rightarrow> bool" where
  "is_whitespace c \<longleftrightarrow> 0x09 \<le> c \<and> c \<le> 0x0D \<or> c \<in> set [0x20, 0x85, 0xA0, 0x1680] \<or> 0x2000 \<le> c \<and> c \<le> 0x200A \<or>
     c \<in> set [0x2028, 0x2029, 0x202F, 0x205F, 0x3000]"

definition to_trimmed_lossy :: "RewindCallsign \<Rightarrow> nat list" where
  "to_trimmed_lossy cs = trim_end is_whitespace (from_utf8_lossy (takeWhile (\<lambda>b. b \<noteq> 0) (rcs_bytes cs)))"

section \<open>Operator identifiers and subscriptions (config.rs)\<close>

datatype SubscriberId = SubscriberId (SubscriberId_get: u32)
datatype DestinationId = DestinationId (DestinationId_dmr: DmrId)
datatype SubscriptionKind = Sub_Group | Sub_Private

datatype RewindConfigError =
    ZeroServerPort
  | BadSubscriberId u32
  | BadDestinationId u32
  | BadSubscriptionKind u32
  | EmptyPassword
  | EmptyDescription
  | DescriptionTooLong nat nat
  | TimerRelationship duration duration
  | ZeroSendTimeout
  | Rewind_ClockRange duration
  | DuplicateSubscription SubscriptionKind DestinationId
  | AddressFamily

definition SubscriberId_new :: "u32 \<Rightarrow> RewindConfigError + SubscriberId" where
  "SubscriberId_new value =
     (if value \<ge> 1000000 \<and> value \<le> 9999999 then Ok (SubscriberId value) else Err (BadSubscriberId value))"

definition DestinationId_new :: "u32 \<Rightarrow> RewindConfigError + DestinationId" where
  "DestinationId_new value =
     (if value = 0 then Err (BadDestinationId value)
      else (case DmrId_new value of Ok v \<Rightarrow> Ok (DestinationId v) | Err _ \<Rightarrow> Err (BadDestinationId value)))"

definition DestinationId_get :: "DestinationId \<Rightarrow> u32" where
  "DestinationId_get d = DmrId_get (DestinationId_dmr d)"

fun SubscriptionKind_session :: "SubscriptionKind \<Rightarrow> SessionType" where
  "SubscriptionKind_session Sub_Group = GroupVoice"
| "SubscriptionKind_session Sub_Private = PrivateVoice"

fun SubscriptionKind_try_from :: "SessionType \<Rightarrow> RewindConfigError + SubscriptionKind" where
  "SubscriptionKind_try_from GroupVoice = Ok Sub_Group"
| "SubscriptionKind_try_from PrivateVoice = Ok Sub_Private"
| "SubscriptionKind_try_from (Session_Unknown value) = Err (BadSubscriptionKind value)"

section \<open>Configuration (client.rs)\<close>

definition DEFAULT_TIMEOUT :: duration where "DEFAULT_TIMEOUT = from_secs 15"
definition DEFAULT_KEEPALIVE_INTERVAL :: duration where "DEFAULT_KEEPALIVE_INTERVAL = from_secs 5"
definition DEFAULT_SEND_TIMEOUT :: duration where "DEFAULT_SEND_TIMEOUT = from_secs 5"
definition MAX_PENDING_EVENTS :: nat where "MAX_PENDING_EVENTS = 1024"
definition MAX_PENDING_BYTES :: nat where "MAX_PENDING_BYTES = 4 * 1024 * 1024"
definition MAX_DESCRIPTION_LEN :: nat where "MAX_DESCRIPTION_LEN = REWIND_MAX_PAYLOAD_LEN - 5"

record RewindSubscription =
  sub_kind :: SubscriptionKind
  sub_destination_id :: DestinationId

definition Subscription_group :: "DestinationId \<Rightarrow> RewindSubscription" where
  "Subscription_group d = \<lparr>sub_kind = Sub_Group, sub_destination_id = d\<rparr>"

definition Subscription_private :: "DestinationId \<Rightarrow> RewindSubscription" where
  "Subscription_private d = \<lparr>sub_kind = Sub_Private, sub_destination_id = d\<rparr>"

text \<open>A \<open>String\<close> is its UTF-8 bytes; its length is a count of bytes.\<close>

record RewindConfig =
  rc_server :: SocketAddr
  rc_bind :: SocketAddr
  rc_dmr_id :: SubscriberId
  rc_password :: bytes
  rc_description :: bytes
  rc_subscriptions :: "RewindSubscription list"
  rc_timeout :: duration
  rc_keepalive_interval :: duration
  rc_send_timeout :: duration

fun is_ipv4 :: "SocketAddr \<Rightarrow> bool" where
  "is_ipv4 (SocketAddr (IpV4 _ _ _ _) _) \<longleftrightarrow> True"
| "is_ipv4 (SocketAddr (IpV6 _) _) \<longleftrightarrow> False"

text \<open>The loops of \<open>validate\<close>: the first duration whose deadline does not exist, and the first
  subscription already seen.\<close>

fun first_unclocked :: "instant \<Rightarrow> duration list \<Rightarrow> duration option" where
  "first_unclocked now [] = None"
| "first_unclocked now (d # ds) = (case checked_add now d of None \<Rightarrow> Some d | Some _ \<Rightarrow> first_unclocked now ds)"

fun first_repeated :: "RewindSubscription list \<Rightarrow> RewindSubscription list \<Rightarrow> RewindSubscription option" where
  "first_repeated seen [] = None"
| "first_repeated seen (s # ss) = (if s \<in> set seen then Some s else first_repeated (s # seen) ss)"

definition RewindConfig_validate :: "instant \<Rightarrow> RewindConfig \<Rightarrow> RewindConfigError + unit" where
  "RewindConfig_validate now c =
     (if sa_port (rc_server c) = 0 then Err ZeroServerPort
      else if is_ipv4 (rc_bind c) \<noteq> is_ipv4 (rc_server c) then Err AddressFamily
      else if rc_password c = [] then Err EmptyPassword
      else if rc_description c = [] then Err EmptyDescription
      else if length (rc_description c) > MAX_DESCRIPTION_LEN
           then Err (DescriptionTooLong (length (rc_description c)) MAX_DESCRIPTION_LEN)
      else if rc_keepalive_interval c = 0 \<or> rc_timeout c \<le> rc_keepalive_interval c
           then Err (TimerRelationship (rc_timeout c) (rc_keepalive_interval c))
      else if rc_send_timeout c = 0 then Err ZeroSendTimeout
      else (case first_unclocked now [rc_timeout c, rc_keepalive_interval c, rc_send_timeout c] of
              Some d \<Rightarrow> Err (Rewind_ClockRange d)
            | None \<Rightarrow> (case first_repeated [] (rc_subscriptions c) of
                Some s \<Rightarrow> Err (DuplicateSubscription (sub_kind s) (sub_destination_id s))
              | None \<Rightarrow> Ok ())))"

text \<open>The consuming setters: change one field and validate the whole.\<close>

definition checked_config :: "instant \<Rightarrow> RewindConfig \<Rightarrow> RewindConfigError + RewindConfig" where
  "checked_config now c = (case RewindConfig_validate now c of Err e \<Rightarrow> Err e | Ok _ \<Rightarrow> Ok c)"

definition RewindConfig_new :: "instant \<Rightarrow> SocketAddr \<Rightarrow> SubscriberId \<Rightarrow> bytes \<Rightarrow> bytes \<Rightarrow> RewindConfigError + RewindConfig" where
  "RewindConfig_new now server dmr_id password package_description = checked_config now
     \<lparr>rc_server = server,
      rc_bind = SocketAddr (if is_ipv4 server then IpV4 0 0 0 0 else IpV6 (replicate 8 0)) 0,
      rc_dmr_id = dmr_id, rc_password = password, rc_description = package_description,
      rc_subscriptions = [], rc_timeout = DEFAULT_TIMEOUT,
      rc_keepalive_interval = DEFAULT_KEEPALIVE_INTERVAL, rc_send_timeout = DEFAULT_SEND_TIMEOUT\<rparr>"

definition with_bind :: "instant \<Rightarrow> SocketAddr \<Rightarrow> RewindConfig \<Rightarrow> RewindConfigError + RewindConfig" where
  "with_bind now v c = checked_config now (c\<lparr>rc_bind := v\<rparr>)"

definition with_description :: "instant \<Rightarrow> bytes \<Rightarrow> RewindConfig \<Rightarrow> RewindConfigError + RewindConfig" where
  "with_description now v c = checked_config now (c\<lparr>rc_description := v\<rparr>)"

definition with_subscriptions :: "instant \<Rightarrow> RewindSubscription list \<Rightarrow> RewindConfig \<Rightarrow> RewindConfigError + RewindConfig" where
  "with_subscriptions now v c = checked_config now (c\<lparr>rc_subscriptions := v\<rparr>)"

definition with_timeout :: "instant \<Rightarrow> duration \<Rightarrow> RewindConfig \<Rightarrow> RewindConfigError + RewindConfig" where
  "with_timeout now v c = checked_config now (c\<lparr>rc_timeout := v\<rparr>)"

definition with_keepalive_interval :: "instant \<Rightarrow> duration \<Rightarrow> RewindConfig \<Rightarrow> RewindConfigError + RewindConfig" where
  "with_keepalive_interval now v c = checked_config now (c\<lparr>rc_keepalive_interval := v\<rparr>)"

definition with_send_timeout :: "instant \<Rightarrow> duration \<Rightarrow> RewindConfig \<Rightarrow> RewindConfigError + RewindConfig" where
  "with_send_timeout now v c = checked_config now (c\<lparr>rc_send_timeout := v\<rparr>)"

section \<open>Events\<close>

record EventMetadata =
  em_sequence :: TransportSequence
  em_flags :: PacketFlags
  em_payload_len :: u16
  em_raw_datagram :: bytes
  em_received_at :: nat

datatype EventKind =
    EK_VoiceHeader EventMetadata FullLinkControl
  | EK_Terminator EventMetadata "FullLinkControl option"
  | EK_Audio EventMetadata u8 bytes
  | EK_EmbeddedData EventMetadata bytes
  | EK_SuperHeader EventMetadata SuperHeader
  | EK_Report EventMetadata bytes
  | EK_Failure EventMetadata bytes
  | EK_BusyNotice EventMetadata bytes
  | EK_Close EventMetadata
  | EK_Other EventMetadata PacketType Payload

record PacketEnvelope =
  pe_packet :: RewindPacket
  pe_raw_datagram :: bytes
  pe_received_at :: nat

fun Event_metadata :: "EventKind \<Rightarrow> EventMetadata" where
  "Event_metadata (EK_VoiceHeader m _) = m"
| "Event_metadata (EK_Terminator m _) = m"
| "Event_metadata (EK_Audio m _ _) = m"
| "Event_metadata (EK_EmbeddedData m _) = m"
| "Event_metadata (EK_SuperHeader m _) = m"
| "Event_metadata (EK_Report m _) = m"
| "Event_metadata (EK_Failure m _) = m"
| "Event_metadata (EK_BusyNotice m _) = m"
| "Event_metadata (EK_Close m) = m"
| "Event_metadata (EK_Other m _ _) = m"

definition event_kind :: "EventMetadata \<Rightarrow> PacketType \<Rightarrow> Payload \<Rightarrow> EventKind" where
  "event_kind m t pl =
     (case (t, pl) of
        (PT_DmrVoiceHeader, PL_DmrVoiceHeader lc) \<Rightarrow> EK_VoiceHeader m lc
      | (PT_DmrTerminator, PL_DmrTerminator lc) \<Rightarrow> EK_Terminator m lc
      | (PT_DmrAudio subtype, PL_DmrAudio d) \<Rightarrow> EK_Audio m subtype d
      | (PT_DmrEmbeddedData, PL_DmrEmbeddedData d) \<Rightarrow> EK_EmbeddedData m d
      | (PT_SuperHeader, PL_SuperHeader d) \<Rightarrow> EK_SuperHeader m d
      | (PT_Report, PL_Report d) \<Rightarrow> EK_Report m d
      | (PT_Failure, PL_Failure d) \<Rightarrow> EK_Failure m d
      | (PT_BusyNotice, PL_Busy d) \<Rightarrow> EK_BusyNotice m d
      | (PT_Close, PL_Close) \<Rightarrow> EK_Close m
      | _ \<Rightarrow> EK_Other m t pl)"

definition from_envelope :: "PacketEnvelope \<Rightarrow> EventKind" where
  "from_envelope e =
     (let h = rp_header (pe_packet e);
          m = \<lparr>em_sequence = rh_sequence h, em_flags = rh_flags h, em_payload_len = rh_payload_len h,
               em_raw_datagram = pe_raw_datagram e, em_received_at = pe_received_at e\<rparr>
      in event_kind m (rh_packet_type h) (rp_payload (pe_packet e)))"

definition from_datagram :: "bytes \<Rightarrow> nat \<Rightarrow> CodecError + EventKind" where
  "from_datagram raw received_at =
     (case RewindPacket_from_bytes raw of Err e \<Rightarrow> Err e
      | Ok p \<Rightarrow> Ok (from_envelope \<lparr>pe_packet = p, pe_raw_datagram = raw, pe_received_at = received_at\<rparr>))"

lemma from_envelope_metadata [simp]:
  "em_raw_datagram (Event_metadata (from_envelope e)) = pe_raw_datagram e"
proof -
  have "Event_metadata (event_kind m t pl) = m" for m t pl
    by (cases t; cases pl) (simp_all add: event_kind_def)
  then show ?thesis by (simp add: from_envelope_def Let_def)
qed

section \<open>Errors and control operations\<close>

datatype ControlOperation = Op_Bind | Op_Connect | Op_Keepalive | Op_Authentication | Op_Subscription | Op_Close

text \<open>An \<open>io::Error\<close> is its kind.\<close>

datatype RewindError =
    RE_Bind SocketAddr string
  | RE_Connect SocketAddr string
  | RE_Send ControlOperation string
  | RE_Receive string
  | RE_Codec CodecError
  | RE_HandshakeTimeout string duration
  | RE_UnexpectedHandshakePacket string PacketType
  | RE_HandshakeRejected "nat list"
  | RE_InvalidChallengeLength nat
  | RE_SessionTimeout duration
  | RE_InvalidWaitDuration duration
  | RE_PendingQueueOverflow nat nat nat nat
  | RE_ClientClosed
  | RE_ControlTimeout ControlOperation duration
  | RE_ControlSendInterrupted

definition text_of :: "string \<Rightarrow> nat list" where
  "text_of s = map of_char s"

definition trim_text :: "nat list \<Rightarrow> nat list" where
  "trim_text t = trim_end is_whitespace (dropWhile is_whitespace t)"

definition handshake_rejection :: "bytes \<Rightarrow> RewindError" where
  "handshake_rejection message =
     (let text = trim_text (from_utf8_lossy message)
      in RE_HandshakeRejected (if text = [] then text_of ''master sent an empty failure notice'' else text))"

definition remote_close_rejection :: RewindError where
  "remote_close_rejection = RE_HandshakeRejected (text_of ''master closed the session'')"

definition deadline_after :: "instant \<Rightarrow> duration \<Rightarrow> RewindError + instant" where
  "deadline_after start duration =
     (case checked_add start duration of None \<Rightarrow> Err (RE_InvalidWaitDuration duration) | Some t \<Rightarrow> Ok t)"

definition challenge_bytes :: "bytes \<Rightarrow> RewindError + bytes" where
  "challenge_bytes challenge =
     (if length challenge = 4 then Ok challenge else Err (RE_InvalidChallengeLength (length challenge)))"

section \<open>Backlog and sequence numbers\<close>

record PendingEvents =
  pd_events :: "EventKind list"
  pd_datagram_bytes :: nat

definition PendingEvents_push :: "EventKind \<Rightarrow> PendingEvents \<Rightarrow> (RewindError + unit) \<times> PendingEvents" where
  "PendingEvents_push ev p =
     (let events = usize_saturating_add (length (pd_events p)) 1;
          bytes = usize_saturating_add (pd_datagram_bytes p) (length (em_raw_datagram (Event_metadata ev)))
      in if events > MAX_PENDING_EVENTS \<or> bytes > MAX_PENDING_BYTES
         then (Err (RE_PendingQueueOverflow events bytes MAX_PENDING_EVENTS MAX_PENDING_BYTES), p)
         else (Ok (), p\<lparr>pd_datagram_bytes := bytes, pd_events := pd_events p @ [ev]\<rparr>))"

definition PendingEvents_pop :: "PendingEvents \<Rightarrow> EventKind option \<times> PendingEvents" where
  "PendingEvents_pop p =
     (case pd_events p of [] \<Rightarrow> (None, p)
      | ev # rest \<Rightarrow> (Some ev, p\<lparr>pd_events := rest,
          pd_datagram_bytes := pd_datagram_bytes p - length (em_raw_datagram (Event_metadata ev))\<rparr>))"

record SequenceCounters =
  sq_routine :: u32
  sq_real_time_one :: u32

definition SequenceCounters_next :: "PacketFlags \<Rightarrow> SequenceCounters \<Rightarrow> TransportSequence \<times> SequenceCounters" where
  "SequenceCounters_next fl s =
     (if PacketFlags_contains fl REAL_TIME_1
      then (sq_real_time_one s, s\<lparr>sq_real_time_one := sq_real_time_one s + 1\<rparr>)
      else (sq_routine s, s\<lparr>sq_routine := sq_routine s + 1\<rparr>))"

section \<open>The client and its awaits\<close>

datatype RuntimeState =
    Rt_Operational
  | Rt_Authentication instant
  | Rt_Subscription instant nat

text \<open>What passed through the socket, and what the caller was given.\<close>

datatype exchange = Tx bytes | Rx bytes nat | Delivered EventKind

record RewindClient =
  rw_socket :: "exchange list"
  rw_server :: SocketAddr
  rw_dmr_id :: SubscriberId
  rw_password :: bytes
  rw_description :: bytes
  rw_subscriptions :: "RewindSubscription list"
  rw_timeout :: duration
  rw_keepalive_interval :: duration
  rw_send_timeout :: duration
  rw_sequences :: SequenceCounters
  rw_pending :: PendingEvents
  rw_last_valid_packet :: instant
  rw_next_keepalive :: instant
  rw_state :: RuntimeState
  rw_closed :: bool
  rw_control_pending :: bool

text \<open>The answer to an awaited control operation, to a receive, and all that one round of the receive
  loop observes: the clock where the caller's deadline is read, the receive, the clock afterwards,
  and the clock and the answer of the send that may follow. A datagram comes with the clock and the
  wall clock at its receipt; an elapsed wait ends at its deadline or later.\<close>

datatype 'a control_outcome = Completed 'a | Refused string | Overdue | Abandoned

datatype recv_outcome = Rx_Datagram bytes instant nat | Rx_Failed string | Rx_Elapsed duration

record RewindMoment =
  rm_check :: instant
  rm_recv :: recv_outcome
  rm_now :: instant
  rm_send_at :: instant
  rm_send :: "nat control_outcome"

datatype 'a poll = Ready 'a | Dropped

type_synonym 'a outcome = "(RewindError + 'a) poll \<times> RewindClient"

text \<open>\<open>.await?\<close>.\<close>

definition and_then :: "'a outcome \<Rightarrow> ('a \<Rightarrow> RewindClient \<Rightarrow> 'b outcome) \<Rightarrow> 'b outcome" where
  "and_then r f = (case r of (Dropped, c) \<Rightarrow> (Dropped, c) | (Ready (Err e), c) \<Rightarrow> (Ready (Err e), c) | (Ready (Ok v), c) \<Rightarrow> f v c)"

lemma and_then_simps [simp]:
  "and_then (Dropped, c) f = (Dropped, c)"
  "and_then (Ready (Err e), c) f = (Ready (Err e), c)"
  "and_then (Ready (Ok v), c) f = f v c"
  by (simp_all add: and_then_def)

datatype ControlFailure = Control_Io string | Control_Deadline RewindError

definition bounded_control :: "instant \<Rightarrow> 'a control_outcome \<Rightarrow> duration \<Rightarrow> ControlOperation \<Rightarrow> (ControlFailure + 'a) poll" where
  "bounded_control now outcome budget kind =
     (case deadline_after now budget of Err e \<Rightarrow> Ready (Err (Control_Deadline e))
      | Ok _ \<Rightarrow> (case outcome of
          Completed v \<Rightarrow> Ready (Ok v)
        | Refused io \<Rightarrow> Ready (Err (Control_Io io))
        | Overdue \<Rightarrow> Ready (Err (Control_Deadline (RE_ControlTimeout kind budget)))
        | Abandoned \<Rightarrow> Dropped))"

text \<open>The transcript records the datagrams that the socket accepted whole.\<close>

definition complete_control_send :: "RewindMoment \<Rightarrow> bytes \<Rightarrow> ControlOperation \<Rightarrow> RewindClient \<Rightarrow> unit outcome" where
  "complete_control_send m dg operation c =
     (let c1 = c\<lparr>rw_control_pending := True\<rparr>
      in case bounded_control (rm_send_at m) (rm_send m) (rw_send_timeout c) operation of
           Dropped \<Rightarrow> (Dropped, c1)
         | Ready result \<Rightarrow>
           (let c2 = c1\<lparr>rw_control_pending := False\<rparr>
            in case result of
                 Err failure \<Rightarrow> (Ready (Err (case failure of Control_Io io \<Rightarrow> RE_Send operation io
                     | Control_Deadline e \<Rightarrow> e)), c2\<lparr>rw_closed := True\<rparr>)
               | Ok sent \<Rightarrow> if sent \<noteq> length dg then (Ready (Err (RE_Send operation ''WriteZero'')), c2\<lparr>rw_closed := True\<rparr>)
                   else (Ready (Ok ()), c2\<lparr>rw_socket := rw_socket c2 @ [Tx dg]\<rparr>)))"

definition send_payload :: "RewindMoment \<Rightarrow> PacketType \<Rightarrow> Payload \<Rightarrow> ControlOperation \<Rightarrow> RewindClient \<Rightarrow> unit outcome" where
  "send_payload m packet_type payload operation c =
     (let (sequence, sequences) = SequenceCounters_next PacketFlags_NONE (rw_sequences c);
          c1 = c\<lparr>rw_sequences := sequences\<rparr>
      in case RewindPacket_new packet_type PacketFlags_NONE sequence payload of
           Err e \<Rightarrow> (Ready (Err (RE_Codec e)), c1)
         | Ok packet \<Rightarrow> complete_control_send m (RewindPacket_to_bytes packet) operation c1)"

definition version_data :: "SubscriberId \<Rightarrow> bytes \<Rightarrow> VersionData" where
  "version_data dmr_id description = \<lparr>vd_remote_id = SubscriberId_get dmr_id, vd_service = OPEN_TERMINAL,
     vd_description = description\<rparr>"

definition send_keepalive :: "RewindMoment \<Rightarrow> RewindClient \<Rightarrow> unit outcome" where
  "send_keepalive m c =
     send_payload m PT_KeepAlive (PL_KeepAlive (Some (version_data (rw_dmr_id c) (rw_description c)))) Op_Keepalive c"

definition wire_subscription :: "RewindSubscription \<Rightarrow> WireSubscription" where
  "wire_subscription s = \<lparr>ws_session_type = SubscriptionKind_session (sub_kind s),
     ws_target = DestinationId_get (sub_destination_id s)\<rparr>"

definition send_subscription :: "RewindMoment \<Rightarrow> RewindSubscription \<Rightarrow> RewindClient \<Rightarrow> unit outcome" where
  "send_subscription m s c = send_payload m PT_Subscription (PL_Subscription (Some (wire_subscription s))) Op_Subscription c"

definition send_authentication :: "(bytes \<Rightarrow> bytes) \<Rightarrow> RewindMoment \<Rightarrow> bytes \<Rightarrow> RewindClient \<Rightarrow> unit outcome" where
  "send_authentication H m challenge c =
     send_payload m PT_Authentication (PL_Authentication (authentication_digest H challenge (rw_password c)))
       Op_Authentication c"

definition subscription_acknowledges :: "WireSubscription option \<Rightarrow> RewindSubscription \<Rightarrow> bool" where
  "subscription_acknowledges acknowledgement expected \<longleftrightarrow>
     (case acknowledgement of None \<Rightarrow> True | Some actual \<Rightarrow> actual = wire_subscription expected)"

definition is_operational :: "RewindPacket \<Rightarrow> bool" where
  "is_operational p \<longleftrightarrow> (case rh_packet_type (rp_header p) of
     PT_KeepAlive \<Rightarrow> False | PT_Close \<Rightarrow> False | PT_Challenge \<Rightarrow> False | PT_Authentication \<Rightarrow> False
   | PT_Configuration \<Rightarrow> False | PT_Subscription \<Rightarrow> False | PT_Cancelling \<Rightarrow> False | _ \<Rightarrow> True)"

definition ensure_usable :: "RewindClient \<Rightarrow> (RewindError + unit) \<times> RewindClient" where
  "ensure_usable c =
     (if rw_control_pending c then (Err RE_ControlSendInterrupted, c\<lparr>rw_closed := True\<rparr>)
      else if rw_closed c then (Err RE_ClientClosed, c) else (Ok (), c))"

definition is_closed :: "RewindClient \<Rightarrow> bool" where
  "is_closed c \<longleftrightarrow> rw_closed c \<or> rw_control_pending c"

definition queue_pending :: "PacketEnvelope \<Rightarrow> RewindClient \<Rightarrow> (RewindError + unit) \<times> RewindClient" where
  "queue_pending e c = (case PendingEvents_push (from_envelope e) (rw_pending c) of (r, p) \<Rightarrow> (r, c\<lparr>rw_pending := p\<rparr>))"

text \<open>\<open>receive\<close>: the socket copies at most the receive buffer of one byte more than the largest
  datagram.\<close>

definition receive_datagram :: "bytes \<Rightarrow> instant \<Rightarrow> nat \<Rightarrow> RewindClient \<Rightarrow> (RewindError + PacketEnvelope) \<times> RewindClient" where
  "receive_datagram raw now received_at c =
     (let dg = take (MAX_DATAGRAM_LEN + 1) raw;
          c1 = c\<lparr>rw_socket := rw_socket c @ [Rx dg received_at]\<rparr>
      in case RewindPacket_from_bytes dg of Err e \<Rightarrow> (Err (RE_Codec e), c1)
         | Ok packet \<Rightarrow> (Ok \<lparr>pe_packet = packet, pe_raw_datagram = dg, pe_received_at = received_at\<rparr>,
             c1\<lparr>rw_last_valid_packet := now\<rparr>))"

section \<open>Recovery and operation\<close>

definition AUTH_PHASE :: string where "AUTH_PHASE = ''authentication acknowledgement''"
definition SUB_PHASE :: string where "SUB_PHASE = ''subscription acknowledgement''"
definition CHALLENGE_PHASE :: string where "CHALLENGE_PHASE = ''authentication challenge''"

definition begin_runtime_authentication ::
  "(bytes \<Rightarrow> bytes) \<Rightarrow> RewindMoment \<Rightarrow> bytes \<Rightarrow> instant option \<Rightarrow> RewindClient \<Rightarrow> unit outcome" where
  "begin_runtime_authentication H m challenge existing_deadline c =
     (case challenge_bytes challenge of Err e \<Rightarrow> (Ready (Err e), c)
      | Ok ch \<Rightarrow> (case (case existing_deadline of Some d \<Rightarrow> Ok d | None \<Rightarrow> deadline_after (rm_now m) (rw_timeout c)) of
          Err e \<Rightarrow> (Ready (Err e), c)
        | Ok deadline \<Rightarrow> send_authentication H m ch (c\<lparr>rw_state := Rt_Authentication deadline\<rparr>)))"

definition send_runtime_subscription :: "RewindMoment \<Rightarrow> nat \<Rightarrow> RewindSubscription \<Rightarrow> RewindClient \<Rightarrow> unit outcome" where
  "send_runtime_subscription m index s c =
     (case deadline_after (rm_now m) (rw_timeout c) of Err e \<Rightarrow> (Ready (Err e), c)
      | Ok deadline \<Rightarrow> send_subscription m s (c\<lparr>rw_state := Rt_Subscription deadline index\<rparr>))"

definition finish_runtime_recovery :: "RewindMoment \<Rightarrow> RewindClient \<Rightarrow> unit outcome" where
  "finish_runtime_recovery m c =
     (case deadline_after (rm_now m) (rw_keepalive_interval c) of Err e \<Rightarrow> (Ready (Err e), c)
      | Ok next_keepalive \<Rightarrow> (Ready (Ok ()), c\<lparr>rw_state := Rt_Operational, rw_next_keepalive := next_keepalive\<rparr>))"

definition begin_runtime_subscriptions :: "RewindMoment \<Rightarrow> RewindClient \<Rightarrow> unit outcome" where
  "begin_runtime_subscriptions m c =
     (case get 0 (rw_subscriptions c) of None \<Rightarrow> finish_runtime_recovery m c
      | Some s \<Rightarrow> send_runtime_subscription m 0 s c)"

definition advance_runtime_subscription :: "RewindMoment \<Rightarrow> nat \<Rightarrow> RewindClient \<Rightarrow> unit outcome" where
  "advance_runtime_subscription m acknowledged_index c =
     (let next_index = usize_saturating_add acknowledged_index 1
      in case get next_index (rw_subscriptions c) of None \<Rightarrow> finish_runtime_recovery m c
         | Some s \<Rightarrow> send_runtime_subscription m next_index s c)"

definition pending_event_if_recovered :: "RewindClient \<Rightarrow> EventKind option \<times> RewindClient" where
  "pending_event_if_recovered c =
     (if rw_state c = Rt_Operational
      then (case PendingEvents_pop (rw_pending c) of (ev, p) \<Rightarrow> (ev, c\<lparr>rw_pending := p\<rparr>))
      else (None, c))"

definition resume :: "RewindClient \<Rightarrow> EventKind option outcome" where
  "resume c = (case pending_event_if_recovered c of (ev, c') \<Rightarrow> (Ready (Ok ev), c'))"

definition queue_or_fail :: "PacketEnvelope \<Rightarrow> string \<Rightarrow> RewindClient \<Rightarrow> unit outcome" where
  "queue_or_fail e phase c =
     (if is_operational (pe_packet e) then (case queue_pending e c of (r, c') \<Rightarrow> (Ready r, c'))
      else (Ready (Err (RE_UnexpectedHandshakePacket phase (rh_packet_type (rp_header (pe_packet e))))), c))"

definition handle_operational_packet ::
  "(bytes \<Rightarrow> bytes) \<Rightarrow> RewindMoment \<Rightarrow> PacketEnvelope \<Rightarrow> RewindClient \<Rightarrow> EventKind option outcome" where
  "handle_operational_packet H m e c =
     (case rp_payload (pe_packet e) of
        PL_KeepAlive _ \<Rightarrow> (Ready (Ok None), c)
      | PL_Challenge challenge \<Rightarrow>
          and_then (begin_runtime_authentication H m challenge None c) (\<lambda>_ c'. (Ready (Ok None), c'))
      | PL_Close \<Rightarrow> (Ready (Ok (Some (from_envelope e))), c\<lparr>rw_closed := True\<rparr>)
      | _ \<Rightarrow> (Ready (Ok (Some (from_envelope e))), c))"

definition handle_authentication_packet ::
  "(bytes \<Rightarrow> bytes) \<Rightarrow> RewindMoment \<Rightarrow> PacketEnvelope \<Rightarrow> instant \<Rightarrow> RewindClient \<Rightarrow> EventKind option outcome" where
  "handle_authentication_packet H m e deadline c =
     (case rp_payload (pe_packet e) of
        PL_KeepAlive _ \<Rightarrow> and_then (begin_runtime_subscriptions m c) (\<lambda>_ c'. resume c')
      | PL_Challenge challenge \<Rightarrow>
          and_then (begin_runtime_authentication H m challenge (Some deadline) c) (\<lambda>_ c'. (Ready (Ok None), c'))
      | PL_Close \<Rightarrow> (Ready (Ok (Some (from_envelope e))), c\<lparr>rw_closed := True\<rparr>)
      | PL_Failure message \<Rightarrow> (Ready (Err (handshake_rejection message)), c)
      | _ \<Rightarrow> and_then (queue_or_fail e AUTH_PHASE c) (\<lambda>_ c'. (Ready (Ok None), c')))"

definition handle_subscription_packet ::
  "(bytes \<Rightarrow> bytes) \<Rightarrow> RewindMoment \<Rightarrow> PacketEnvelope \<Rightarrow> nat \<Rightarrow> RewindClient \<Rightarrow> EventKind option outcome" where
  "handle_subscription_packet H m e acknowledged_index c =
     (case rp_payload (pe_packet e) of
        PL_Subscription acknowledgement \<Rightarrow>
          (if (case get acknowledged_index (rw_subscriptions c) of None \<Rightarrow> False
               | Some expected \<Rightarrow> subscription_acknowledges acknowledgement expected)
           then and_then (advance_runtime_subscription m acknowledged_index c) (\<lambda>_ c'. resume c')
           else (Ready (Ok None), c))
      | PL_KeepAlive _ \<Rightarrow> (Ready (Ok None), c)
      | PL_Challenge challenge \<Rightarrow>
          and_then (begin_runtime_authentication H m challenge None c) (\<lambda>_ c'. (Ready (Ok None), c'))
      | PL_Close \<Rightarrow> (Ready (Ok (Some (from_envelope e))), c\<lparr>rw_closed := True\<rparr>)
      | PL_Failure message \<Rightarrow> (Ready (Err (handshake_rejection message)), c)
      | _ \<Rightarrow> and_then (queue_or_fail e SUB_PHASE c) (\<lambda>_ c'. (Ready (Ok None), c')))"

definition handle_runtime_packet ::
  "(bytes \<Rightarrow> bytes) \<Rightarrow> RewindMoment \<Rightarrow> PacketEnvelope \<Rightarrow> RewindClient \<Rightarrow> EventKind option outcome" where
  "handle_runtime_packet H m e c =
     (case rw_state c of
        Rt_Operational \<Rightarrow> handle_operational_packet H m e c
      | Rt_Authentication deadline \<Rightarrow> handle_authentication_packet H m e deadline c
      | Rt_Subscription _ acknowledged_index \<Rightarrow> handle_subscription_packet H m e acknowledged_index c)"

definition runtime_handshake_timeout :: "instant \<Rightarrow> RewindClient \<Rightarrow> RewindError option" where
  "runtime_handshake_timeout now c =
     (case rw_state c of
        Rt_Operational \<Rightarrow> None
      | Rt_Authentication deadline \<Rightarrow> if now \<ge> deadline then Some (RE_HandshakeTimeout AUTH_PHASE (rw_timeout c)) else None
      | Rt_Subscription deadline _ \<Rightarrow> if now \<ge> deadline then Some (RE_HandshakeTimeout SUB_PHASE (rw_timeout c)) else None)"

definition state_deadline :: "RewindClient \<Rightarrow> instant" where
  "state_deadline c = (case rw_state c of Rt_Operational \<Rightarrow> rw_next_keepalive c
     | Rt_Authentication deadline \<Rightarrow> deadline | Rt_Subscription deadline _ \<Rightarrow> deadline)"

definition passed :: "instant option \<Rightarrow> instant \<Rightarrow> bool" where
  "passed caller_deadline now \<longleftrightarrow> (case caller_deadline of None \<Rightarrow> False | Some d \<Rightarrow> now \<ge> d)"

text \<open>One round of the receive loop: \<open>Ok (Some r)\<close> returns \<open>r\<close> to the caller, \<open>Ok None\<close> goes round
  again.\<close>

definition elapsed_round :: "instant option \<Rightarrow> RewindMoment \<Rightarrow> instant \<Rightarrow> instant \<Rightarrow> RewindClient \<Rightarrow> EventKind option option outcome" where
  "elapsed_round caller_deadline m timeout_deadline now c =
     (if now \<ge> timeout_deadline then (Ready (Err (RE_SessionTimeout (rw_timeout c))), c)
      else (case runtime_handshake_timeout now c of Some e \<Rightarrow> (Ready (Err e), c)
        | None \<Rightarrow> if passed caller_deadline now then (Ready (Ok (Some None)), c)
          else if rw_state c = Rt_Operational
          then and_then (send_keepalive m c) (\<lambda>_ c'. case deadline_after now (rw_keepalive_interval c') of
                 Err e \<Rightarrow> (Ready (Err e), c') | Ok t \<Rightarrow> (Ready (Ok None), c'\<lparr>rw_next_keepalive := t\<rparr>))
          else (Ready (Ok None), c)))"

definition next_event_round :: "(bytes \<Rightarrow> bytes) \<Rightarrow> instant option \<Rightarrow> RewindMoment \<Rightarrow> RewindClient \<Rightarrow> EventKind option option outcome" where
  "next_event_round H caller_deadline m c =
     (if passed caller_deadline (rm_check m) then (Ready (Ok (Some None)), c)
      else (case deadline_after (rw_last_valid_packet c) (rw_timeout c) of Err e \<Rightarrow> (Ready (Err e), c)
        | Ok timeout_deadline \<Rightarrow>
          (let protocol_deadline = min timeout_deadline (state_deadline c);
               deadline = (case caller_deadline of None \<Rightarrow> protocol_deadline | Some d \<Rightarrow> min d protocol_deadline)
           in case rm_recv m of
                Rx_Datagram raw now received_at \<Rightarrow>
                  (case receive_datagram raw now received_at c of (Err e, c') \<Rightarrow> (Ready (Err e), c')
                   | (Ok e, c') \<Rightarrow> and_then (handle_runtime_packet H m e c')
                       (\<lambda>ev c''. (Ready (Ok (case ev of None \<Rightarrow> None | Some x \<Rightarrow> Some (Some x))), c'')))
              | Rx_Failed io \<Rightarrow> (Ready (Err (RE_Receive io)), c)
              | Rx_Elapsed late \<Rightarrow> elapsed_round caller_deadline m timeout_deadline (deadline + late) c)))"

type_synonym 'a run_outcome = "(RewindError + 'a) poll \<times> RewindMoment list \<times> RewindClient"

fun receive_rounds :: "(bytes \<Rightarrow> bytes) \<Rightarrow> instant option \<Rightarrow> RewindMoment list \<Rightarrow> RewindClient \<Rightarrow> EventKind option run_outcome" where
  "receive_rounds H caller_deadline [] c = (Dropped, [], c)"
| "receive_rounds H caller_deadline (m # ms) c =
     (case next_event_round H caller_deadline m c of
        (Dropped, c') \<Rightarrow> (Dropped, ms, c')
      | (Ready (Err e), c') \<Rightarrow> (Ready (Err e), ms, c')
      | (Ready (Ok (Some r)), c') \<Rightarrow> (Ready (Ok r), ms, c')
      | (Ready (Ok None), c') \<Rightarrow> receive_rounds H caller_deadline ms c')"

definition next_event_until :: "(bytes \<Rightarrow> bytes) \<Rightarrow> instant option \<Rightarrow> RewindMoment list \<Rightarrow> RewindClient \<Rightarrow> EventKind option run_outcome" where
  "next_event_until H caller_deadline ms c =
     (case ensure_usable c of (Err e, c') \<Rightarrow> (Ready (Err e), ms, c')
      | (Ok _, c') \<Rightarrow>
        (case pending_event_if_recovered c' of (Some ev, c'') \<Rightarrow> (Ready (Ok (Some ev)), ms, c'')
         | (None, c'') \<Rightarrow> receive_rounds H caller_deadline ms c''))"

lemma receive_rounds_shorter:
  "receive_rounds H d ms c = (Ready r, ms', c') \<Longrightarrow> length ms' < length ms"
  by (induction H d ms c rule: receive_rounds.induct)
    (fastforce split: prod.splits poll.splits sum.splits option.splits)+

lemma next_event_until_shorter:
  "next_event_until H d ms c = (Ready (Ok None), ms', c') \<Longrightarrow> length ms' < length ms"
  by (auto simp: next_event_until_def split: prod.splits sum.splits option.splits dest: receive_rounds_shorter)

function next_event_rw :: "(bytes \<Rightarrow> bytes) \<Rightarrow> RewindMoment list \<Rightarrow> RewindClient \<Rightarrow> EventKind run_outcome" where
  "next_event_rw H ms c =
     (case next_event_until H None ms c of
        (Dropped, ms', c') \<Rightarrow> (Dropped, ms', c')
      | (Ready (Err e), ms', c') \<Rightarrow> (Ready (Err e), ms', c')
      | (Ready (Ok (Some ev)), ms', c') \<Rightarrow> (Ready (Ok ev), ms', c')
      | (Ready (Ok None), ms', c') \<Rightarrow> next_event_rw H ms' c')"
  by pat_completeness auto
termination
  by (relation "measure (\<lambda>(_, ms, _). length ms)") (auto dest: next_event_until_shorter [OF sym] next_event_until_shorter)

declare next_event_rw.simps [simp del]

definition next_event_for :: "(bytes \<Rightarrow> bytes) \<Rightarrow> instant \<Rightarrow> duration \<Rightarrow> RewindMoment list \<Rightarrow> RewindClient \<Rightarrow> EventKind option run_outcome" where
  "next_event_for H now max_wait ms c =
     (case checked_add now max_wait of None \<Rightarrow> (Ready (Err (RE_InvalidWaitDuration max_wait)), ms, c)
      | Some caller_deadline \<Rightarrow> next_event_until H (Some caller_deadline) ms c)"

definition close_rw :: "RewindMoment \<Rightarrow> RewindClient \<Rightarrow> unit outcome" where
  "close_rw m c =
     (if rw_closed c then (Ready (Ok ()), c)
      else if rw_control_pending c then (Ready (Err RE_ControlSendInterrupted), c\<lparr>rw_closed := True\<rparr>)
      else and_then (send_payload m PT_Close PL_Close Op_Close c) (\<lambda>_ c'. (Ready (Ok ()), c'\<lparr>rw_closed := True\<rparr>)))"

section \<open>The initial login\<close>

text \<open>The login consumes one moment per receive; a send that follows a receive is answered by the same
  moment, which is handed on as the current one. A phase returns the current moment and the rest.\<close>

type_synonym 'a login_outcome = "(RewindError + 'a) poll \<times> RewindMoment \<times> RewindMoment list \<times> RewindClient"

definition receive_handshake :: "string \<Rightarrow> recv_outcome \<Rightarrow> RewindClient \<Rightarrow> (RewindError + PacketEnvelope) \<times> RewindClient" where
  "receive_handshake phase r c =
     (case r of
        Rx_Datagram raw now received_at \<Rightarrow> receive_datagram raw now received_at c
      | Rx_Failed io \<Rightarrow> (Err (RE_Receive io), c)
      | Rx_Elapsed _ \<Rightarrow> (Err (RE_HandshakeTimeout phase (rw_timeout c)), c))"

fun await_challenge_loop :: "RewindMoment \<Rightarrow> RewindMoment list \<Rightarrow> RewindClient \<Rightarrow> bytes login_outcome" where
  "await_challenge_loop m0 [] c = (Dropped, m0, [], c)"
| "await_challenge_loop m0 (m # ms) c =
     (case receive_handshake CHALLENGE_PHASE (rm_recv m) c of (Err e, c') \<Rightarrow> (Ready (Err e), m, ms, c')
      | (Ok e, c') \<Rightarrow> (case rp_payload (pe_packet e) of
          PL_Challenge challenge \<Rightarrow> (Ready (challenge_bytes challenge), m, ms, c')
        | PL_Close \<Rightarrow> (Ready (Err remote_close_rejection), m, ms, c')
        | PL_Failure message \<Rightarrow> (Ready (Err (handshake_rejection message)), m, ms, c')
        | _ \<Rightarrow> (case queue_or_fail e CHALLENGE_PHASE c' of
            (Ready (Ok _), c'') \<Rightarrow> await_challenge_loop m ms c''
          | (Ready (Err x), c'') \<Rightarrow> (Ready (Err x), m, ms, c'')
          | (Dropped, c'') \<Rightarrow> (Dropped, m, ms, c''))))"

definition await_challenge :: "RewindMoment \<Rightarrow> RewindMoment list \<Rightarrow> RewindClient \<Rightarrow> bytes login_outcome" where
  "await_challenge m ms c =
     (case deadline_after (rm_now m) (rw_timeout c) of Err e \<Rightarrow> (Ready (Err e), m, ms, c)
      | Ok _ \<Rightarrow> await_challenge_loop m ms c)"

text \<open>The two nested loops of \<open>finish_authentication\<close>: the outer one answers a challenge, the inner one
  waits for the verdict and goes back to the outer one when a replacement challenge arrives.\<close>

function answer_loop :: "(bytes \<Rightarrow> bytes) \<Rightarrow> bytes \<Rightarrow> RewindMoment \<Rightarrow> RewindMoment list \<Rightarrow> RewindClient \<Rightarrow> unit login_outcome"
  and verdict_loop :: "(bytes \<Rightarrow> bytes) \<Rightarrow> RewindMoment \<Rightarrow> RewindMoment list \<Rightarrow> RewindClient \<Rightarrow> unit login_outcome" where
  "answer_loop H challenge m ms c =
     (case send_authentication H m challenge c of
        (Ready (Ok _), c') \<Rightarrow> verdict_loop H m ms c'
      | (Ready (Err e), c') \<Rightarrow> (Ready (Err e), m, ms, c')
      | (Dropped, c') \<Rightarrow> (Dropped, m, ms, c'))"
| "verdict_loop H m0 [] c = (Dropped, m0, [], c)"
| "verdict_loop H m0 (m # ms) c =
     (case receive_handshake AUTH_PHASE (rm_recv m) c of (Err e, c') \<Rightarrow> (Ready (Err e), m, ms, c')
      | (Ok e, c') \<Rightarrow> (case rp_payload (pe_packet e) of
          PL_KeepAlive _ \<Rightarrow> (Ready (Ok ()), m, ms, c')
        | PL_Challenge replacement \<Rightarrow> (case challenge_bytes replacement of
              Err x \<Rightarrow> (Ready (Err x), m, ms, c') | Ok challenge \<Rightarrow> answer_loop H challenge m ms c')
        | PL_Close \<Rightarrow> (Ready (Err remote_close_rejection), m, ms, c')
        | PL_Failure message \<Rightarrow> (Ready (Err (handshake_rejection message)), m, ms, c')
        | _ \<Rightarrow> (case queue_or_fail e AUTH_PHASE c' of
            (Ready (Ok _), c'') \<Rightarrow> verdict_loop H m ms c''
          | (Ready (Err x), c'') \<Rightarrow> (Ready (Err x), m, ms, c'')
          | (Dropped, c'') \<Rightarrow> (Dropped, m, ms, c''))))"
  by pat_completeness auto
termination
  by (relation "measure (case_sum (\<lambda>(_, _, _, ms, _). 2 * length ms + 1) (\<lambda>(_, _, ms, _). 2 * length ms))") auto

definition finish_authentication :: "(bytes \<Rightarrow> bytes) \<Rightarrow> bytes \<Rightarrow> RewindMoment \<Rightarrow> RewindMoment list \<Rightarrow> RewindClient \<Rightarrow> unit login_outcome" where
  "finish_authentication H challenge m ms c =
     (case deadline_after (rm_now m) (rw_timeout c) of Err e \<Rightarrow> (Ready (Err e), m, ms, c)
      | Ok _ \<Rightarrow> answer_loop H challenge m ms c)"

text \<open>\<open>Ok True\<close>: a new challenge was answered, and all subscriptions start again.\<close>

fun subscription_ack_loop :: "(bytes \<Rightarrow> bytes) \<Rightarrow> RewindSubscription \<Rightarrow> RewindMoment \<Rightarrow> RewindMoment list \<Rightarrow> RewindClient \<Rightarrow> bool login_outcome" where
  "subscription_ack_loop H expected m0 [] c = (Dropped, m0, [], c)"
| "subscription_ack_loop H expected m0 (m # ms) c =
     (case receive_handshake SUB_PHASE (rm_recv m) c of (Err e, c') \<Rightarrow> (Ready (Err e), m, ms, c')
      | (Ok e, c') \<Rightarrow> (case rp_payload (pe_packet e) of
          PL_Subscription acknowledgement \<Rightarrow>
            (if subscription_acknowledges acknowledgement expected then (Ready (Ok False), m, ms, c')
             else subscription_ack_loop H expected m ms c')
        | PL_KeepAlive _ \<Rightarrow> subscription_ack_loop H expected m ms c'
        | PL_Challenge challenge \<Rightarrow> (case challenge_bytes challenge of Err x \<Rightarrow> (Ready (Err x), m, ms, c')
            | Ok ch \<Rightarrow> (case finish_authentication H ch m ms c' of
                (Ready (Ok _), m', ms', c'') \<Rightarrow> (Ready (Ok True), m', ms', c'')
              | (Ready (Err x), m', ms', c'') \<Rightarrow> (Ready (Err x), m', ms', c'')
              | (Dropped, m', ms', c'') \<Rightarrow> (Dropped, m', ms', c'')))
        | PL_Close \<Rightarrow> (Ready (Err remote_close_rejection), m, ms, c')
        | PL_Failure message \<Rightarrow> (Ready (Err (handshake_rejection message)), m, ms, c')
        | _ \<Rightarrow> (case queue_or_fail e SUB_PHASE c' of
            (Ready (Ok _), c'') \<Rightarrow> subscription_ack_loop H expected m ms c''
          | (Ready (Err x), c'') \<Rightarrow> (Ready (Err x), m, ms, c'')
          | (Dropped, c'') \<Rightarrow> (Dropped, m, ms, c''))))"

definition await_subscription_ack :: "(bytes \<Rightarrow> bytes) \<Rightarrow> RewindSubscription \<Rightarrow> RewindMoment \<Rightarrow> RewindMoment list \<Rightarrow> RewindClient \<Rightarrow> bool login_outcome" where
  "await_subscription_ack H expected m ms c =
     (case deadline_after (rm_now m) (rw_timeout c) of Err e \<Rightarrow> (Ready (Err e), m, ms, c)
      | Ok _ \<Rightarrow> subscription_ack_loop H expected m ms c)"

lemma login_not_longer:
  "answer_loop H ch m ms c = (r, m', ms', c') \<Longrightarrow> length ms' \<le> length ms"
  "verdict_loop H m ms c = (r, m', ms', c') \<Longrightarrow> length ms' \<le> length ms"
  by (induction H ch m ms c and H m ms c arbitrary: r m' ms' c' and r m' ms' c' rule: answer_loop_verdict_loop.induct)
    (fastforce split: prod.splits poll.splits sum.splits Payload.splits)+

lemma subscription_ack_shorter:
  "subscription_ack_loop H s m ms c = (Ready r, m', ms', c') \<Longrightarrow> length ms' < length ms"
proof (induction H s m ms c rule: subscription_ack_loop.induct)
  case (2 H expected m0 m ms c)
  have fa: "length ms' \<le> length ms" if "finish_authentication H ch m ms x = (q, n, ms', y)" for ch x q n ms' y
    using that login_not_longer(1) by (auto simp: finish_authentication_def split: sum.splits)
  show ?case using 2 by (fastforce dest: fa split: prod.splits poll.splits sum.splits Payload.splits if_splits)
qed simp

lemma await_subscription_ack_shorter:
  "await_subscription_ack H s m ms c = (Ready (Ok b), m', ms', c') \<Longrightarrow> length ms' < length ms"
  by (auto simp: await_subscription_ack_def split: sum.splits dest: subscription_ack_shorter)

function subscribe_from :: "(bytes \<Rightarrow> bytes) \<Rightarrow> nat \<Rightarrow> RewindMoment \<Rightarrow> RewindMoment list \<Rightarrow> RewindClient \<Rightarrow> unit login_outcome" where
  "subscribe_from H k m ms c =
     (case get k (rw_subscriptions c) of None \<Rightarrow> (Ready (Ok ()), m, ms, c)
      | Some s \<Rightarrow> (case send_subscription m s c of
          (Ready (Err e), c') \<Rightarrow> (Ready (Err e), m, ms, c')
        | (Dropped, c') \<Rightarrow> (Dropped, m, ms, c')
        | (Ready (Ok _), c') \<Rightarrow> (case await_subscription_ack H s m ms c' of
            (Ready (Err e), m', ms', c'') \<Rightarrow> (Ready (Err e), m', ms', c'')
          | (Dropped, m', ms', c'') \<Rightarrow> (Dropped, m', ms', c'')
          | (Ready (Ok restart), m', ms', c'') \<Rightarrow> subscribe_from H (if restart then 0 else k + 1) m' ms' c'')))"
  by pat_completeness auto
termination
  by (relation "measure (\<lambda>(_, _, _, ms, _). length ms)") (auto dest: await_subscription_ack_shorter await_subscription_ack_shorter [OF sym])

declare subscribe_from.simps [simp del]

definition subscribe_all :: "(bytes \<Rightarrow> bytes) \<Rightarrow> RewindMoment \<Rightarrow> RewindMoment list \<Rightarrow> RewindClient \<Rightarrow> unit login_outcome" where
  "subscribe_all H m ms c = subscribe_from H 0 m ms c"

definition fresh_client :: "RewindConfig \<Rightarrow> instant \<Rightarrow> instant \<Rightarrow> RewindClient" where
  "fresh_client cfg now next_keepalive =
     \<lparr>rw_socket = [], rw_server = rc_server cfg, rw_dmr_id = rc_dmr_id cfg, rw_password = rc_password cfg,
      rw_description = rc_description cfg, rw_subscriptions = rc_subscriptions cfg, rw_timeout = rc_timeout cfg,
      rw_keepalive_interval = rc_keepalive_interval cfg, rw_send_timeout = rc_send_timeout cfg,
      rw_sequences = \<lparr>sq_routine = 0, sq_real_time_one = 0\<rparr>, rw_pending = \<lparr>pd_events = [], pd_datagram_bytes = 0\<rparr>,
      rw_last_valid_packet = now, rw_next_keepalive = next_keepalive, rw_state = Rt_Operational,
      rw_closed = False, rw_control_pending = False\<rparr>"

text \<open>\<open>connect\<close>, with the clock and the outcomes of binding and connecting the socket. The first
  moment answers the first keepalive.\<close>

definition open_socket :: "RewindConfig \<Rightarrow> instant \<Rightarrow> unit control_outcome \<Rightarrow> instant \<Rightarrow> unit control_outcome \<Rightarrow> (RewindError + unit) poll" where
  "open_socket cfg at_bind bind_outcome at_connect connect_outcome =
     (case bounded_control at_bind bind_outcome (rc_send_timeout cfg) Op_Bind of
        Dropped \<Rightarrow> Dropped
      | Ready (Err f) \<Rightarrow> Ready (Err (case f of Control_Io io \<Rightarrow> RE_Bind (rc_bind cfg) io | Control_Deadline e \<Rightarrow> e))
      | Ready (Ok _) \<Rightarrow> (case bounded_control at_connect connect_outcome (rc_send_timeout cfg) Op_Connect of
          Dropped \<Rightarrow> Dropped
        | Ready (Err f) \<Rightarrow> Ready (Err (case f of Control_Io io \<Rightarrow> RE_Connect (rc_server cfg) io | Control_Deadline e \<Rightarrow> e))
        | Ready (Ok _) \<Rightarrow> Ready (Ok ())))"

definition login :: "(bytes \<Rightarrow> bytes) \<Rightarrow> RewindMoment \<Rightarrow> RewindMoment list \<Rightarrow> RewindClient \<Rightarrow> unit login_outcome" where
  "login H m ms c =
     (case send_keepalive m c of (Dropped, c1) \<Rightarrow> (Dropped, m, ms, c1) | (Ready (Err e), c1) \<Rightarrow> (Ready (Err e), m, ms, c1)
      | (Ready (Ok _), c1) \<Rightarrow> (case await_challenge m ms c1 of
          (Dropped, m2, ms2, c2) \<Rightarrow> (Dropped, m2, ms2, c2) | (Ready (Err e), m2, ms2, c2) \<Rightarrow> (Ready (Err e), m2, ms2, c2)
        | (Ready (Ok challenge), m2, ms2, c2) \<Rightarrow> (case finish_authentication H challenge m2 ms2 c2 of
            (Ready (Ok _), m3, ms3, c3) \<Rightarrow> subscribe_all H m3 ms3 c3
          | other \<Rightarrow> other)))"

definition connect_rw ::
  "(bytes \<Rightarrow> bytes) \<Rightarrow> RewindConfig \<Rightarrow> instant \<Rightarrow> unit control_outcome \<Rightarrow> instant \<Rightarrow> unit control_outcome \<Rightarrow>
   instant \<Rightarrow> RewindMoment \<Rightarrow> RewindMoment list \<Rightarrow> (RewindError + RewindClient) poll" where
  "connect_rw H cfg at_bind bind_outcome at_connect connect_outcome now m ms =
     (case open_socket cfg at_bind bind_outcome at_connect connect_outcome of
        Dropped \<Rightarrow> Dropped | Ready (Err e) \<Rightarrow> Ready (Err e)
      | Ready (Ok _) \<Rightarrow> (case deadline_after now (rc_keepalive_interval cfg) of Err e \<Rightarrow> Ready (Err e)
        | Ok next_keepalive \<Rightarrow> (case login H m ms (fresh_client cfg now next_keepalive) of
            (Dropped, _) \<Rightarrow> Dropped | (Ready (Err e), _) \<Rightarrow> Ready (Err e)
          | (Ready (Ok _), m', _, c) \<Rightarrow> (case deadline_after (rm_now m') (rw_keepalive_interval c) of
              Err e \<Rightarrow> Ready (Err e) | Ok t \<Rightarrow> Ready (Ok (c\<lparr>rw_next_keepalive := t\<rparr>))))))"

end
