(* ===== verification/Rewind_Runs.thy ===== *)
theory Rewind_Runs
  imports Rewind_Client
begin

text \<open>
  Runs of the Open DMR Terminal client against a specification of the session as a machine over the
  transcript: what the client may send in which phase, which datagrams become events, and in which
  order the caller gets them. The theorems cover the login and every later sequence of calls, with
  any datagrams, clock readings, send failures and cancelled calls.
\<close>

section \<open>The session as a machine over its transcript\<close>

datatype term_phase =
    Ph_Hello | Ph_Challenge | Ph_Answer bytes | Ph_Verdict | Ph_Subscribe nat | Ph_Ack nat
  | Ph_Ready | Ph_Closing EventKind | Ph_Ended

record term_session =
  tp_phase :: term_phase
  tp_backlog :: "EventKind list"
  tp_sent :: nat

definition fresh_session :: term_session where
  "fresh_session = \<lparr>tp_phase = Ph_Hello, tp_backlog = [], tp_sent = 0\<rparr>"

text \<open>After \<open>k\<close> acknowledged subscriptions.\<close>

definition subscribed :: "RewindConfig \<Rightarrow> nat \<Rightarrow> term_phase" where
  "subscribed cfg k = (if k < length (rc_subscriptions cfg) then Ph_Subscribe k else Ph_Ready)"

definition event_bytes :: "EventKind \<Rightarrow> nat" where
  "event_bytes ev = length (em_raw_datagram (Event_metadata ev))"

definition backlog_room :: "EventKind \<Rightarrow> EventKind list \<Rightarrow> bool" where
  "backlog_room ev q \<longleftrightarrow> length q < MAX_PENDING_EVENTS \<and> (\<Sum>x\<leftarrow>q. event_bytes x) + event_bytes ev \<le> MAX_PENDING_BYTES"

definition enqueue_event :: "EventKind \<Rightarrow> term_session \<Rightarrow> term_session" where
  "enqueue_event ev s = s\<lparr>tp_backlog := tp_backlog s @ [ev]\<rparr>"

definition session_rx :: "RewindConfig \<Rightarrow> EventKind \<Rightarrow> RewindPacket \<Rightarrow> term_session \<Rightarrow> term_session" where
  "session_rx cfg ev p s =
     (case rp_payload p of
        PL_Challenge ch \<Rightarrow> if length ch = 4 then s\<lparr>tp_phase := Ph_Answer ch\<rparr> else s
      | PL_KeepAlive _ \<Rightarrow> if tp_phase s = Ph_Verdict then s\<lparr>tp_phase := subscribed cfg 0\<rparr> else s
      | PL_Close \<Rightarrow> s\<lparr>tp_phase := Ph_Closing ev\<rparr>
      | PL_Subscription a \<Rightarrow> (case tp_phase s of
          Ph_Ready \<Rightarrow> enqueue_event ev s
        | Ph_Ack k \<Rightarrow> if subscription_acknowledges a (rc_subscriptions cfg ! k) then s\<lparr>tp_phase := subscribed cfg (k + 1)\<rparr> else s
        | _ \<Rightarrow> s)
      | PL_Failure _ \<Rightarrow> if tp_phase s = Ph_Ready then enqueue_event ev s else s
      | _ \<Rightarrow> if tp_phase s = Ph_Ready \<or> is_operational p \<and> backlog_room ev (tp_backlog s) then enqueue_event ev s else s)"

definition tx_phase :: "(bytes \<Rightarrow> bytes) \<Rightarrow> RewindConfig \<Rightarrow> Payload \<Rightarrow> term_phase \<Rightarrow> term_phase option" where
  "tx_phase H cfg pl ph =
     (case pl of
        PL_KeepAlive (Some v) \<Rightarrow>
          if v = version_data (rc_dmr_id cfg) (rc_description cfg)
          then (case ph of Ph_Hello \<Rightarrow> Some Ph_Challenge | Ph_Ready \<Rightarrow> Some Ph_Ready | _ \<Rightarrow> None) else None
      | PL_Authentication d \<Rightarrow>
          (case ph of Ph_Answer ch \<Rightarrow> if d = H (ch @ rc_password cfg) then Some Ph_Verdict else None | _ \<Rightarrow> None)
      | PL_Subscription (Some w) \<Rightarrow>
          (case ph of Ph_Subscribe k \<Rightarrow> if w = wire_subscription (rc_subscriptions cfg ! k) then Some (Ph_Ack k) else None
           | _ \<Rightarrow> None)
      | PL_Close \<Rightarrow> (case ph of Ph_Ready \<Rightarrow> Some Ph_Ended | Ph_Verdict \<Rightarrow> Some Ph_Ended | Ph_Ack _ \<Rightarrow> Some Ph_Ended | _ \<Rightarrow> None)
      | _ \<Rightarrow> None)"

definition session_tx :: "(bytes \<Rightarrow> bytes) \<Rightarrow> RewindConfig \<Rightarrow> RewindPacket \<Rightarrow> term_session \<Rightarrow> term_session option" where
  "session_tx H cfg p s =
     (if rh_flags (rp_header p) = PacketFlags_NONE \<and> rh_sequence (rp_header p) = of_nat (tp_sent s)
      then map_option (\<lambda>ph. s\<lparr>tp_phase := ph, tp_sent := tp_sent s + 1\<rparr>) (tx_phase H cfg (rp_payload p) (tp_phase s))
      else None)"

definition session_deliver :: "EventKind \<Rightarrow> term_session \<Rightarrow> term_session option" where
  "session_deliver ev s =
     (case tp_phase s of
        Ph_Ready \<Rightarrow> (case tp_backlog s of [] \<Rightarrow> None | e # rest \<Rightarrow> if e = ev then Some (s\<lparr>tp_backlog := rest\<rparr>) else None)
      | Ph_Closing e \<Rightarrow> if e = ev then Some (s\<lparr>tp_phase := Ph_Ended\<rparr>) else None
      | _ \<Rightarrow> None)"

fun session_step :: "(bytes \<Rightarrow> bytes) \<Rightarrow> RewindConfig \<Rightarrow> exchange \<Rightarrow> term_session \<Rightarrow> term_session option" where
  "session_step H cfg (Tx d) s = (case RewindPacket_from_bytes d of Err _ \<Rightarrow> None | Ok p \<Rightarrow> session_tx H cfg p s)"
| "session_step H cfg (Rx d t) s =
     (case RewindPacket_from_bytes d of Err _ \<Rightarrow> Some s
      | Ok p \<Rightarrow> Some (session_rx cfg (from_envelope \<lparr>pe_packet = p, pe_raw_datagram = d, pe_received_at = t\<rparr>) p s))"
| "session_step H cfg (Delivered ev) s = session_deliver ev s"

fun session_run :: "(bytes \<Rightarrow> bytes) \<Rightarrow> RewindConfig \<Rightarrow> exchange list \<Rightarrow> term_session \<Rightarrow> term_session option" where
  "session_run H cfg [] s = Some s"
| "session_run H cfg (x # xs) s = (case session_step H cfg x s of None \<Rightarrow> None | Some s' \<Rightarrow> session_run H cfg xs s')"

lemma session_run_snoc:
  "session_run H cfg (xs @ [x]) s = (case session_run H cfg xs s of None \<Rightarrow> None | Some s' \<Rightarrow> session_step H cfg x s')"
  by (induction xs arbitrary: s) (auto split: option.splits)

section \<open>The backlog\<close>

definition backlog_wf :: "PendingEvents \<Rightarrow> bool" where
  "backlog_wf p \<longleftrightarrow> length (pd_events p) \<le> MAX_PENDING_EVENTS \<and> pd_datagram_bytes p = (\<Sum>x\<leftarrow>pd_events p. event_bytes x) \<and>
     pd_datagram_bytes p \<le> MAX_PENDING_BYTES"

lemma push_spec:
  assumes "backlog_wf p" "event_bytes ev \<le> MAX_DATAGRAM_LEN + 1" "PendingEvents_push ev p = (r, p')"
  shows "backlog_wf p'" "backlog_room ev (pd_events p) \<Longrightarrow> r = Ok () \<and> pd_events p' = pd_events p @ [ev]"
    "\<not> backlog_room ev (pd_events p) \<Longrightarrow> p' = p \<and> (\<exists>e. r = Err e)"
proof -
  have n: "usize_saturating_add (length (pd_events p)) 1 = length (pd_events p) + 1"
    and b: "usize_saturating_add (pd_datagram_bytes p) (event_bytes ev) = pd_datagram_bytes p + event_bytes ev"
    using assms(1,2) by (auto simp: backlog_wf_def usize_saturating_add_def usize_max_def MAX_PENDING_EVENTS_def
        MAX_PENDING_BYTES_def MAX_DATAGRAM_LEN_def)
  have push: "PendingEvents_push ev p = (if length (pd_events p) + 1 > MAX_PENDING_EVENTS \<or> pd_datagram_bytes p + event_bytes ev > MAX_PENDING_BYTES
      then (Err (RE_PendingQueueOverflow (length (pd_events p) + 1) (pd_datagram_bytes p + event_bytes ev) MAX_PENDING_EVENTS MAX_PENDING_BYTES), p)
      else (Ok (), p\<lparr>pd_datagram_bytes := pd_datagram_bytes p + event_bytes ev, pd_events := pd_events p @ [ev]\<rparr>))"
    by (simp only: PendingEvents_push_def Let_def event_bytes_def [symmetric] n b)
  note d = push backlog_room_def backlog_wf_def
  show "backlog_wf p'" using assms(1,3) by (auto simp: d split: if_splits)
  show "backlog_room ev (pd_events p) \<Longrightarrow> r = Ok () \<and> pd_events p' = pd_events p @ [ev]"
    using assms(1,3) by (auto simp: d split: if_splits)
  show "\<not> backlog_room ev (pd_events p) \<Longrightarrow> p' = p \<and> (\<exists>e. r = Err e)"
    using assms(1,3) by (auto simp: d split: if_splits)
qed

lemma pop_spec:
  assumes "backlog_wf p" "PendingEvents_pop p = (r, p')"
  shows "backlog_wf p'" "pd_events p = (case r of None \<Rightarrow> [] | Some ev \<Rightarrow> ev # pd_events p')" "r = None \<Longrightarrow> p' = p"
  using assms by (auto simp: PendingEvents_pop_def backlog_wf_def event_bytes_def split: list.splits)

section \<open>The client beside its session\<close>

definition runs_config :: "RewindConfig \<Rightarrow> RewindClient \<Rightarrow> bool" where
  "runs_config cfg c \<longleftrightarrow> rw_dmr_id c = rc_dmr_id cfg \<and> rw_password c = rc_password cfg \<and>
     rw_description c = rc_description cfg \<and> rw_subscriptions c = rc_subscriptions cfg \<and>
     rw_timeout c = rc_timeout cfg \<and> rw_keepalive_interval c = rc_keepalive_interval cfg"

definition tracks :: "(bytes \<Rightarrow> bytes) \<Rightarrow> RewindConfig \<Rightarrow> term_session \<Rightarrow> RewindClient \<Rightarrow> bool" where
  "tracks H cfg s c \<longleftrightarrow> runs_config cfg c \<and> \<not> is_closed c \<and> session_run H cfg (rw_socket c) fresh_session = Some s \<and>
     sq_routine (rw_sequences c) = of_nat (tp_sent s) \<and> backlog_wf (rw_pending c)"

definition stands :: "(bytes \<Rightarrow> bytes) \<Rightarrow> RewindConfig \<Rightarrow> term_phase \<Rightarrow> RewindClient \<Rightarrow> bool" where
  "stands H cfg ph c \<longleftrightarrow> (\<exists>s. tracks H cfg s c \<and> tp_phase s = ph \<and> tp_backlog s = pd_events (rw_pending c))"

text \<open>A client that can do nothing more, after a session that was in order.\<close>

definition retired :: "(bytes \<Rightarrow> bytes) \<Rightarrow> RewindConfig \<Rightarrow> RewindClient \<Rightarrow> bool" where
  "retired H cfg c \<longleftrightarrow> is_closed c \<and> session_run H cfg (rw_socket c) fresh_session \<noteq> None \<and> backlog_wf (rw_pending c)"

definition terminal_ok :: "(bytes \<Rightarrow> bytes) \<Rightarrow> RewindConfig \<Rightarrow> bool" where
  "terminal_ok H cfg \<longleftrightarrow> (\<forall>x. length (H x) = AUTHENTICATION_LEN) \<and> length (rc_description cfg) \<le> MAX_DESCRIPTION_LEN \<and>
     length (rc_subscriptions cfg) \<le> usize_max"

lemma stands_state [simp]:
  "stands H cfg ph (c\<lparr>rw_state := st\<rparr>) = stands H cfg ph c"
  "stands H cfg ph (c\<lparr>rw_next_keepalive := t\<rparr>) = stands H cfg ph c"
  "stands H cfg ph (c\<lparr>rw_last_valid_packet := t\<rparr>) = stands H cfg ph c"
  by (simp_all add: stands_def tracks_def runs_config_def is_closed_def)

text \<open>A send in order either completes and moves the session on, or retires the client.\<close>

definition sendable :: "(bytes \<Rightarrow> bytes) \<Rightarrow> RewindConfig \<Rightarrow> PacketType \<Rightarrow> Payload \<Rightarrow> term_phase \<Rightarrow> term_phase \<Rightarrow> bool" where
  "sendable H cfg t pl ph ph' \<longleftrightarrow> PacketType_wf t \<and> Payload_wf pl \<and>
     (\<exists>n. measure_payload t pl = Some n \<and> n \<le> REWIND_MAX_PAYLOAD_LEN) \<and> tx_phase H cfg pl ph = Some ph'"

definition same_terminal :: "RewindClient \<Rightarrow> RewindClient \<Rightarrow> bool" where
  "same_terminal c c' \<longleftrightarrow> rw_state c' = rw_state c \<and> rw_pending c' = rw_pending c \<and>
     rw_last_valid_packet c' = rw_last_valid_packet c \<and> rw_next_keepalive c' = rw_next_keepalive c"

lemma complete_control_send_cases:
  assumes "complete_control_send m d op c = (r, c')" "\<not> is_closed c"
  shows "(r = Ready (Ok ()) \<and> c' = c\<lparr>rw_socket := rw_socket c @ [Tx d]\<rparr>) \<or>
    (r \<noteq> Ready (Ok ()) \<and> is_closed c' \<and> rw_socket c' = rw_socket c \<and> rw_pending c' = rw_pending c)"
  using assms by (auto simp: complete_control_send_def Let_def is_closed_def split: poll.splits sum.splits if_splits)

lemma send_payload_spec:
  assumes "stands H cfg ph c" "sendable H cfg t pl ph ph'" "send_payload m t pl op c = (r, c')"
  shows "(r = Ready (Ok ()) \<and> stands H cfg ph' c' \<and> same_terminal c c') \<or> (r \<noteq> Ready (Ok ()) \<and> retired H cfg c')"
proof -
  obtain s where s: "tracks H cfg s c" "tp_phase s = ph" "tp_backlog s = pd_events (rw_pending c)"
    using assms(1) by (auto simp: stands_def)
  let ?q = "sq_routine (rw_sequences c)"
  obtain n where n: "measure_payload t pl = Some n" "n \<le> REWIND_MAX_PAYLOAD_LEN" and ph': "tx_phase H cfg pl ph = Some ph'"
    and w: "PacketType_wf t" "Payload_wf pl" using assms(2) by (auto simp: sendable_def)
  define p where "p = \<lparr>rp_header = \<lparr>rh_packet_type = t, rh_flags = PacketFlags_NONE, rh_sequence = ?q,
    rh_payload_len = of_nat n\<rparr>, rp_payload = pl\<rparr>"
  have new: "RewindPacket_new t PacketFlags_NONE ?q pl = Ok p"
    using n by (simp add: RewindPacket_new_def validate_and_measure_def p_def rewind_lens)
  then have dec: "RewindPacket_from_bytes (RewindPacket_to_bytes p) = Ok p"
    using w by (intro encoder_decodes) (simp add: RewindPacket_wf_def p_def)
  let ?c = "c\<lparr>rw_sequences := (rw_sequences c)\<lparr>sq_routine := ?q + 1\<rparr>\<rparr>"
  have "send_payload m t pl op c = complete_control_send m (RewindPacket_to_bytes p) op ?c"
    using new by (simp add: send_payload_def SequenceCounters_next_def PacketFlags_contains_def PacketFlags_NONE_def REAL_TIME_1_def Let_def)
  then have cc: "complete_control_send m (RewindPacket_to_bytes p) op ?c = (r, c')" using assms(3) by simp
  have "\<not> is_closed ?c" using s(1) by (simp add: tracks_def is_closed_def)
  note cases = complete_control_send_cases [OF cc this]
  have tx: "session_tx H cfg p s = Some (s\<lparr>tp_phase := ph', tp_sent := tp_sent s + 1\<rparr>)"
    using s(1,2) ph' by (simp add: session_tx_def p_def tracks_def)
  show ?thesis using cases
  proof (elim disjE conjE)
    assume r: "r = Ready (Ok ())" and c': "c' = ?c\<lparr>rw_socket := rw_socket ?c @ [Tx (RewindPacket_to_bytes p)]\<rparr>"
    have "tracks H cfg (s\<lparr>tp_phase := ph', tp_sent := tp_sent s + 1\<rparr>) c'"
      using s(1) tx dec by (simp add: c' tracks_def session_run_snoc runs_config_def is_closed_def)
    then have "stands H cfg ph' c'" using s(3) by (auto simp: stands_def c')
    then show ?thesis using r by (simp add: c' same_terminal_def)
  next
    assume "r \<noteq> Ready (Ok ())" "is_closed c'" "rw_socket c' = rw_socket ?c" "rw_pending c' = rw_pending ?c"
    then show ?thesis using s(1) by (auto simp: retired_def tracks_def)
  qed
qed

lemma keepalive_sendable:
  assumes "terminal_ok H cfg" "ph = Ph_Hello \<and> ph' = Ph_Challenge \<or> ph = Ph_Ready \<and> ph' = Ph_Ready"
  shows "sendable H cfg PT_KeepAlive (PL_KeepAlive (Some (version_data (rc_dmr_id cfg) (rc_description cfg)))) ph ph'"
  using assms by (auto simp: sendable_def tx_phase_def version_data_def terminal_ok_def MAX_DESCRIPTION_LEN_def
      usize_saturating_add_def usize_max_def rewind_lens)

lemma authentication_sendable:
  assumes "terminal_ok H cfg"
  shows "sendable H cfg PT_Authentication (PL_Authentication (H (ch @ rc_password cfg))) (Ph_Answer ch) Ph_Verdict"
  using assms by (auto simp: sendable_def tx_phase_def terminal_ok_def rewind_lens)

lemma subscription_sendable:
  "sendable H cfg PT_Subscription (PL_Subscription (Some (wire_subscription (rc_subscriptions cfg ! k)))) (Ph_Subscribe k) (Ph_Ack k)"
proof -
  have "SessionType_wf (SubscriptionKind_session x)" for x by (cases x) simp_all
  then show ?thesis by (auto simp: sendable_def tx_phase_def wire_subscription_def rewind_lens)
qed

text \<open>The three control sends and what the session says of them.\<close>

definition advances_to :: "(bytes \<Rightarrow> bytes) \<Rightarrow> RewindConfig \<Rightarrow> term_phase \<Rightarrow> RewindClient \<Rightarrow> (RewindError + unit) poll \<Rightarrow> RewindClient \<Rightarrow> bool" where
  "advances_to H cfg ph c r c' \<longleftrightarrow>
     (r = Ready (Ok ()) \<and> stands H cfg ph c' \<and> same_terminal c c') \<or> (r \<noteq> Ready (Ok ()) \<and> retired H cfg c')"

lemma stands_config: "stands H cfg ph c \<Longrightarrow> runs_config cfg c"
  by (auto simp: stands_def tracks_def)

lemma send_keepalive_spec:
  assumes "terminal_ok H cfg" "stands H cfg ph c" "send_keepalive m c = (r, c')"
    "ph = Ph_Hello \<and> ph' = Ph_Challenge \<or> ph = Ph_Ready \<and> ph' = Ph_Ready"
  shows "advances_to H cfg ph' c r c'"
proof -
  have "send_payload m PT_KeepAlive (PL_KeepAlive (Some (version_data (rc_dmr_id cfg) (rc_description cfg)))) Op_Keepalive c = (r, c')"
    using assms(3) stands_config [OF assms(2)] by (simp add: send_keepalive_def runs_config_def)
  from send_payload_spec [OF assms(2) keepalive_sendable [OF assms(1,4)] this] show ?thesis by (simp add: advances_to_def)
qed

lemma send_authentication_spec:
  assumes "terminal_ok H cfg" "stands H cfg (Ph_Answer ch) c" "send_authentication H m ch c = (r, c')"
  shows "advances_to H cfg Ph_Verdict c r c'"
proof -
  have "send_payload m PT_Authentication (PL_Authentication (H (ch @ rc_password cfg))) Op_Authentication c = (r, c')"
    using assms(3) stands_config [OF assms(2)] by (simp add: send_authentication_def runs_config_def authentication_digest_def)
  from send_payload_spec [OF assms(2) authentication_sendable [OF assms(1)] this] show ?thesis by (simp add: advances_to_def)
qed

lemma send_subscription_spec:
  assumes "stands H cfg (Ph_Subscribe k) c" "send_subscription m (rc_subscriptions cfg ! k) c = (r, c')"
  shows "advances_to H cfg (Ph_Ack k) c r c'"
proof -
  have "send_payload m PT_Subscription (PL_Subscription (Some (wire_subscription (rc_subscriptions cfg ! k)))) Op_Subscription c = (r, c')"
    using assms(2) by (simp add: send_subscription_def)
  from send_payload_spec [OF assms(1) subscription_sendable this] show ?thesis by (simp add: advances_to_def)
qed

section \<open>What a received datagram does to the session\<close>

definition received_at_phase :: "(bytes \<Rightarrow> bytes) \<Rightarrow> RewindConfig \<Rightarrow> PacketEnvelope \<Rightarrow> term_phase \<Rightarrow> RewindClient \<Rightarrow> bool" where
  "received_at_phase H cfg e ph c \<longleftrightarrow> length (pe_raw_datagram e) \<le> MAX_DATAGRAM_LEN + 1 \<and>
     RewindPacket_wf (pe_packet e) \<and>
     (\<exists>s. tracks H cfg (session_rx cfg (from_envelope e) (pe_packet e) s) c \<and> tp_phase s = ph \<and>
          tp_backlog s = pd_events (rw_pending c))"

lemma receive_datagram_spec:
  assumes "stands H cfg ph c" "receive_datagram raw now t c = (r, c')"
  shows "(\<exists>x. r = Err x) \<and> stands H cfg ph c' \<or> (\<exists>e. r = Ok e \<and> received_at_phase H cfg e ph c')"
    "rw_state c' = rw_state c" "rw_pending c' = rw_pending c"
proof -
  let ?d = "take (MAX_DATAGRAM_LEN + 1) raw"
  obtain s where s: "tracks H cfg s c" "tp_phase s = ph" "tp_backlog s = pd_events (rw_pending c)"
    using assms(1) by (auto simp: stands_def)
  show "rw_state c' = rw_state c" "rw_pending c' = rw_pending c"
    using assms(2) by (auto simp: receive_datagram_def Let_def split: sum.splits)
  show "(\<exists>x. r = Err x) \<and> stands H cfg ph c' \<or> (\<exists>e. r = Ok e \<and> received_at_phase H cfg e ph c')"
  proof (cases "RewindPacket_from_bytes ?d")
    case (Inl x)
    then have "r = Err (RE_Codec x)" "c' = c\<lparr>rw_socket := rw_socket c @ [Rx ?d t]\<rparr>"
      using assms(2) by (simp_all add: receive_datagram_def)
    moreover have "tracks H cfg s (c\<lparr>rw_socket := rw_socket c @ [Rx ?d t]\<rparr>)"
      using s(1) Inl by (simp add: tracks_def session_run_snoc runs_config_def is_closed_def)
    ultimately show ?thesis using s(2,3) by (auto simp: stands_def)
  next
    case (Inr p)
    let ?e = "\<lparr>pe_packet = p, pe_raw_datagram = ?d, pe_received_at = t\<rparr>"
    have r: "r = Ok ?e" "c' = c\<lparr>rw_socket := rw_socket c @ [Rx ?d t], rw_last_valid_packet := now\<rparr>"
      using assms(2) Inr by (simp_all add: receive_datagram_def Let_def)
    have "tracks H cfg (session_rx cfg (from_envelope ?e) p s) c'"
      using s(1) Inr unfolding r(2) tracks_def
      by (auto simp: session_run_snoc runs_config_def is_closed_def session_rx_def enqueue_event_def
          split: Payload.splits term_phase.splits)
    moreover have "RewindPacket_wf p" using decoder_sound [OF Inr] by blast
    ultimately have "received_at_phase H cfg ?e ph c'"
      using s(2,3) unfolding received_at_phase_def by (intro conjI exI [of _ s]) (simp_all add: r(2))
    then show ?thesis using r(1) by blast
  qed
qed

lemma rx_phase:
  assumes "received_at_phase H cfg e ph c"
    "\<And>s. tp_phase s = ph \<Longrightarrow> tp_phase (session_rx cfg (from_envelope e) (pe_packet e) s) = ph' \<and>
       tp_backlog (session_rx cfg (from_envelope e) (pe_packet e) s) = tp_backlog s"
  shows "stands H cfg ph' c"
  using assms unfolding received_at_phase_def stands_def by metis

lemma rx_challenge:
  assumes "received_at_phase H cfg e ph c" "rp_payload (pe_packet e) = PL_Challenge ch"
  shows "challenge_bytes ch = Ok x \<Longrightarrow> stands H cfg (Ph_Answer x) c" "challenge_bytes ch = Err y \<Longrightarrow> stands H cfg ph c"
  by (rule rx_phase [OF assms(1)], simp add: session_rx_def assms(2) challenge_bytes_def split: if_splits)+

lemma rx_keep_alive:
  assumes "received_at_phase H cfg e ph c" "rp_payload (pe_packet e) = PL_KeepAlive v"
  shows "stands H cfg (if ph = Ph_Verdict then subscribed cfg 0 else ph) c"
  by (rule rx_phase [OF assms(1)]) (simp add: session_rx_def assms(2))

lemma rx_subscription:
  assumes "received_at_phase H cfg e ph c" "rp_payload (pe_packet e) = PL_Subscription a" "ph \<noteq> Ph_Ready"
  shows "stands H cfg (case ph of Ph_Ack k \<Rightarrow> if subscription_acknowledges a (rc_subscriptions cfg ! k) then subscribed cfg (k + 1) else ph
     | _ \<Rightarrow> ph) c"
  by (rule rx_phase [OF assms(1)]) (use assms(3) in \<open>cases ph; simp add: session_rx_def assms(2)\<close>)

lemma rx_failure:
  assumes "received_at_phase H cfg e ph c" "rp_payload (pe_packet e) = PL_Failure a" "ph \<noteq> Ph_Ready"
  shows "stands H cfg ph c"
  by (rule rx_phase [OF assms(1)]) (simp add: session_rx_def assms(2,3))

text \<open>Packets that are events, and the type and the body of a packet that was decoded.\<close>

fun plain_payload :: "Payload \<Rightarrow> bool" where
  "plain_payload (PL_KeepAlive _) \<longleftrightarrow> False"
| "plain_payload (PL_Challenge _) \<longleftrightarrow> False"
| "plain_payload PL_Close \<longleftrightarrow> False"
| "plain_payload (PL_Subscription _) \<longleftrightarrow> False"
| "plain_payload (PL_Failure _) \<longleftrightarrow> False"
| "plain_payload _ \<longleftrightarrow> True"

lemma session_rx_plain:
  "plain_payload (rp_payload p) \<Longrightarrow> session_rx cfg ev p s =
     (if tp_phase s = Ph_Ready \<or> is_operational p \<and> backlog_room ev (tp_backlog s) then enqueue_event ev s else s)"
  by (cases "rp_payload p") (simp_all add: session_rx_def)

lemma queue_or_fail_spec:
  assumes "received_at_phase H cfg e ph c" "plain_payload (rp_payload (pe_packet e)) \<or>
      (\<exists>a. rp_payload (pe_packet e) = PL_Subscription a \<and> \<not> is_operational (pe_packet e) \<and> (\<forall>k. ph \<noteq> Ph_Ack k)) \<or>
      (\<exists>a. rp_payload (pe_packet e) = PL_KeepAlive a \<and> \<not> is_operational (pe_packet e) \<and> ph \<noteq> Ph_Verdict)"
    "ph \<noteq> Ph_Ready" "queue_or_fail e phase c = (r, c')"
  shows "r \<noteq> Dropped" "stands H cfg ph c'" "rw_state c' = rw_state c"
proof -
  let ?ev = "from_envelope e" and ?p = "pe_packet e"
  obtain s where s: "tracks H cfg (session_rx cfg ?ev ?p s) c" "tp_phase s = ph" "tp_backlog s = pd_events (rw_pending c)"
    and len: "event_bytes ?ev \<le> MAX_DATAGRAM_LEN + 1" using assms(1) by (auto simp: received_at_phase_def event_bytes_def)
  obtain q p' where q: "PendingEvents_push ?ev (rw_pending c) = (q, p')" by fastforce
  have w: "backlog_wf (rw_pending c)" using s(1) by (simp add: tracks_def)
  note push = push_spec [OF w len q]
  show "r \<noteq> Dropped" "rw_state c' = rw_state c"
    using assms(4) by (auto simp: queue_or_fail_def queue_pending_def split: if_splits prod.splits)
  have quiet: "session_rx cfg ?ev ?p s = s" if "\<not> is_operational ?p"
    using assms(2)
  proof (elim disjE exE conjE)
    assume "plain_payload (rp_payload ?p)"
    from session_rx_plain [OF this, of cfg ?ev s] show ?thesis using that assms(3) s(2) by simp
  qed (use assms(3) s(2) in \<open>cases ph; simp add: session_rx_def\<close>)+
  show "stands H cfg ph c'"
  proof (cases "is_operational ?p")
    case False
    then have "c' = c" using assms(4) by (simp add: queue_or_fail_def)
    then show ?thesis using s quiet [OF False] by (auto simp: stands_def)
  next
    case True
    then have pl: "plain_payload (rp_payload ?p)" using assms(2) by auto
    have c': "c' = c\<lparr>rw_pending := p'\<rparr>" using assms(4) True q by (simp add: queue_or_fail_def queue_pending_def)
    have "tp_backlog (session_rx cfg ?ev ?p s) = pd_events p'" "tp_phase (session_rx cfg ?ev ?p s) = ph"
      using session_rx_plain [OF pl, of cfg ?ev s] True assms(3) s(2,3) push(2,3)
      by (cases "backlog_room ?ev (pd_events (rw_pending c))"; simp add: enqueue_event_def)+
    moreover have "tracks H cfg (session_rx cfg ?ev ?p s) c'"
      using s(1) push(1) by (simp add: tracks_def c' runs_config_def is_closed_def)
    ultimately show ?thesis by (auto simp: stands_def c')
  qed
qed

lemma wf_type:
  assumes "RewindPacket_wf p"
  shows "\<exists>n. measure_payload (rh_packet_type (rp_header p)) (rp_payload p) = Some n"
  using assms by (auto simp: RewindPacket_wf_def RewindPacket_new_def validate_and_measure_def split: option.splits)

lemma handshake_only:
  assumes "RewindPacket_wf p"
  shows "rp_payload p = PL_Subscription a \<Longrightarrow> \<not> is_operational p" "rp_payload p = PL_KeepAlive v \<Longrightarrow> \<not> is_operational p"
  using wf_type [OF assms] by (auto simp: is_operational_def split: if_splits)

lemma payload_kinds:
  obtains v where "pl = PL_KeepAlive v" | ch where "pl = PL_Challenge ch" | "pl = PL_Close"
    | a where "pl = PL_Subscription a" | f where "pl = PL_Failure f" | "plain_payload pl"
  by (cases pl) simp_all

section \<open>The receive loop\<close>

fun runtime_phase :: "RuntimeState \<Rightarrow> term_phase" where
  "runtime_phase Rt_Operational = Ph_Ready"
| "runtime_phase (Rt_Authentication _) = Ph_Verdict"
| "runtime_phase (Rt_Subscription _ k) = Ph_Ack k"

definition steady :: "(bytes \<Rightarrow> bytes) \<Rightarrow> RewindConfig \<Rightarrow> RewindClient \<Rightarrow> bool" where
  "steady H cfg c \<longleftrightarrow> stands H cfg (runtime_phase (rw_state c)) c \<and>
     (case rw_state c of Rt_Subscription _ k \<Rightarrow> k < length (rc_subscriptions cfg) | _ \<Rightarrow> True)"

definition settled :: "(bytes \<Rightarrow> bytes) \<Rightarrow> RewindConfig \<Rightarrow> RewindClient \<Rightarrow> bool" where
  "settled H cfg c \<longleftrightarrow> steady H cfg c \<or> retired H cfg c"

definition hand_over :: "EventKind \<Rightarrow> RewindClient \<Rightarrow> RewindClient" where
  "hand_over ev c = c\<lparr>rw_socket := rw_socket c @ [Delivered ev]\<rparr>"

text \<open>Between two rounds nothing waits for delivery in the operational state.\<close>

definition between_rounds :: "(bytes \<Rightarrow> bytes) \<Rightarrow> RewindConfig \<Rightarrow> RewindClient \<Rightarrow> bool" where
  "between_rounds H cfg c \<longleftrightarrow> steady H cfg c \<and> (rw_state c = Rt_Operational \<longrightarrow> pd_events (rw_pending c) = [])"

fun outcome_ok :: "(bytes \<Rightarrow> bytes) \<Rightarrow> RewindConfig \<Rightarrow> EventKind option outcome \<Rightarrow> bool" where
  "outcome_ok H cfg (Ready (Ok None), c) \<longleftrightarrow> between_rounds H cfg c"
| "outcome_ok H cfg (Ready (Ok (Some ev)), c) \<longleftrightarrow> settled H cfg (hand_over ev c)"
| "outcome_ok H cfg (_, c) \<longleftrightarrow> settled H cfg c"

definition clock_fits :: "RewindConfig \<Rightarrow> RewindMoment \<Rightarrow> bool" where
  "clock_fits cfg m \<longleftrightarrow> rm_now m + rc_timeout cfg \<le> instant_max \<and> rm_now m + rc_keepalive_interval cfg \<le> instant_max"

lemma deadline_fits:
  assumes "clock_fits cfg m" "runs_config cfg c"
  shows "deadline_after (rm_now m) (rw_timeout c) = Ok (rm_now m + rw_timeout c)"
    "deadline_after (rm_now m) (rw_keepalive_interval c) = Ok (rm_now m + rw_keepalive_interval c)"
  using assms by (simp_all add: clock_fits_def runs_config_def deadline_after_def checked_add_def)

lemma deliver_spec:
  assumes "tracks H cfg s c" "session_deliver ev s = Some s'" "tp_backlog s' = pd_events (rw_pending c)" "tp_sent s' = tp_sent s"
  shows "stands H cfg (tp_phase s') (hand_over ev c)"
  using assms unfolding stands_def by (intro exI [of _ s']) (simp add: tracks_def hand_over_def session_run_snoc runs_config_def is_closed_def)

lemma resume_spec:
  assumes "steady H cfg c"
  shows "outcome_ok H cfg (resume c)"
proof (cases "rw_state c = Rt_Operational")
  case False
  then show ?thesis using assms by (simp add: resume_def pending_event_if_recovered_def between_rounds_def)
next
  case True
  obtain ev p where p: "PendingEvents_pop (rw_pending c) = (ev, p)" by fastforce
  obtain s where s: "tracks H cfg s c" "tp_phase s = Ph_Ready" "tp_backlog s = pd_events (rw_pending c)"
    using assms True by (auto simp: steady_def stands_def)
  have w: "backlog_wf (rw_pending c)" using s(1) by (simp add: tracks_def)
  note pop = pop_spec [OF w p]
  show ?thesis
  proof (cases ev)
    case None
    then show ?thesis using assms True p pop by (simp add: resume_def pending_event_if_recovered_def between_rounds_def)
  next
    case (Some e)
    let ?c = "c\<lparr>rw_pending := p\<rparr>"
    have t: "tracks H cfg s ?c" using s(1) pop(1) by (simp add: tracks_def runs_config_def is_closed_def)
    have "session_deliver e s = Some (s\<lparr>tp_backlog := pd_events p\<rparr>)" using s(2,3) pop(2) Some by (simp add: session_deliver_def)
    from deliver_spec [OF t this] have "stands H cfg Ph_Ready (hand_over e ?c)" using s(2) by simp
    then have "steady H cfg (hand_over e ?c)" using True by (simp add: steady_def hand_over_def)
    then show ?thesis using Some p True by (simp add: resume_def pending_event_if_recovered_def settled_def)
  qed
qed

lemma steady_not_closed: "steady H cfg c \<Longrightarrow> \<not> is_closed c"
  by (auto simp: steady_def stands_def tracks_def)

text \<open>From the phase after \<open>k\<close> acknowledgements the client installs the next subscription or is done.\<close>

definition install_next :: "RewindMoment \<Rightarrow> nat \<Rightarrow> RewindClient \<Rightarrow> unit outcome" where
  "install_next m k c = (case get k (rw_subscriptions c) of None \<Rightarrow> finish_runtime_recovery m c
     | Some s \<Rightarrow> send_runtime_subscription m k s c)"

lemma install_next_spec:
  assumes "stands H cfg (subscribed cfg k) c" "clock_fits cfg m" "install_next m k c = (r, c')"
  shows "(r = Ready (Ok ()) \<and> steady H cfg c') \<or> (r \<noteq> Ready (Ok ()) \<and> retired H cfg c')"
proof -
  have rc: "runs_config cfg c" using assms(1) by (rule stands_config)
  note dl = deadline_fits [OF assms(2) rc]
  show ?thesis
  proof (cases "k < length (rc_subscriptions cfg)")
    case False
    then show ?thesis using assms rc dl
      by (auto simp: install_next_def get_def runs_config_def finish_runtime_recovery_def subscribed_def steady_def)
  next
    case True
    let ?c = "c\<lparr>rw_state := Rt_Subscription (rm_now m + rw_timeout c) k\<rparr>"
    have "send_subscription m (rc_subscriptions cfg ! k) ?c = (r, c')"
      using assms(3) True rc dl by (simp add: install_next_def get_def runs_config_def send_runtime_subscription_def)
    moreover have "stands H cfg (Ph_Subscribe k) ?c" using assms(1) True by (simp add: subscribed_def)
    ultimately have "advances_to H cfg (Ph_Ack k) ?c r c'" by (intro send_subscription_spec)
    then show ?thesis using True by (auto simp: advances_to_def steady_def same_terminal_def)
  qed
qed

lemma unit_poll_cases: "r = Dropped \<or> (\<exists>e. r = Ready (Err e)) \<or> r = Ready (Ok ())"
  by (cases r; metis old.unit.exhaust sum.exhaust)

lemma recovery_spec:
  assumes "stands H cfg (subscribed cfg k) c" "clock_fits cfg m"
  shows "outcome_ok H cfg (and_then (install_next m k c) (\<lambda>_ c'. resume c'))"
proof -
  obtain r c' where i: "install_next m k c = (r, c')" by fastforce
  from install_next_spec [OF assms i] show ?thesis
  proof (elim disjE conjE)
    assume "r \<noteq> Ready (Ok ())" "retired H cfg c'"
    then show ?thesis using i unit_poll_cases [of r] by (auto simp: settled_def)
  qed (use i in \<open>simp add: resume_spec\<close>)
qed

lemma reauthenticate_spec:
  assumes "terminal_ok H cfg" "clock_fits cfg m" "steady H cfg c0" "rw_state c = rw_state c0" "ph = runtime_phase (rw_state c)"
    "received_at_phase H cfg e ph c" "rp_payload (pe_packet e) = PL_Challenge ch"
  shows "outcome_ok H cfg (and_then (begin_runtime_authentication H m ch dl c) (\<lambda>_ c'. (Ready (Ok None), c')))"
proof (cases "challenge_bytes ch")
  case (Inl x)
  have "stands H cfg ph c" using rx_challenge(2) [OF assms(6,7) Inl] .
  then have "steady H cfg c" using assms(3-5) by (simp add: steady_def)
  then show ?thesis using Inl by (simp add: begin_runtime_authentication_def settled_def)
next
  case (Inr x)
  have st: "stands H cfg (Ph_Answer x) c" using rx_challenge(1) [OF assms(6,7) Inr] .
  define d where "d = (case dl of Some t \<Rightarrow> t | None \<Rightarrow> rm_now m + rw_timeout c)"
  let ?c = "c\<lparr>rw_state := Rt_Authentication d\<rparr>"
  have b: "begin_runtime_authentication H m ch dl c = send_authentication H m x ?c"
    using Inr deadline_fits(1) [OF assms(2) stands_config [OF st]]
    by (simp add: begin_runtime_authentication_def d_def split: option.splits)
  obtain r c' where r: "send_authentication H m x ?c = (r, c')" by fastforce
  have "advances_to H cfg Ph_Verdict ?c r c'" using st by (intro send_authentication_spec [OF assms(1) _ r]) simp
  then show ?thesis unfolding advances_to_def
  proof (elim disjE conjE)
    assume "r \<noteq> Ready (Ok ())" "retired H cfg c'"
    then show ?thesis using b r unit_poll_cases [of r] by (auto simp: settled_def)
  qed (use b r in \<open>auto simp: between_rounds_def steady_def same_terminal_def\<close>)
qed

lemma remote_close_spec:
  assumes "received_at_phase H cfg e ph c" "rp_payload (pe_packet e) = PL_Close"
  shows "settled H cfg (hand_over (from_envelope e) (c\<lparr>rw_closed := True\<rparr>))"
proof -
  obtain s where s: "tracks H cfg (session_rx cfg (from_envelope e) (pe_packet e) s) c"
    using assms(1) by (auto simp: received_at_phase_def)
  have "session_deliver (from_envelope e) (session_rx cfg (from_envelope e) (pe_packet e) s) \<noteq> None"
    by (simp add: session_rx_def assms(2) session_deliver_def)
  then show ?thesis using s by (auto simp: settled_def retired_def hand_over_def tracks_def is_closed_def session_run_snoc)
qed

lemma operational_event_spec:
  assumes "received_at_phase H cfg e Ph_Ready c" "rw_state c = Rt_Operational" "pd_events (rw_pending c) = []"
    "plain_payload (rp_payload (pe_packet e)) \<or> (\<exists>a. rp_payload (pe_packet e) = PL_Subscription a) \<or>
     (\<exists>f. rp_payload (pe_packet e) = PL_Failure f)"
  shows "settled H cfg (hand_over (from_envelope e) c)"
proof -
  let ?ev = "from_envelope e"
  obtain s where s: "tracks H cfg (session_rx cfg ?ev (pe_packet e) s) c" "tp_phase s = Ph_Ready" "tp_backlog s = []"
    using assms(1,3) by (auto simp: received_at_phase_def)
  have rx: "session_rx cfg ?ev (pe_packet e) s = enqueue_event ?ev s"
    using assms(4) s(2) by (cases "rp_payload (pe_packet e)") (simp_all add: session_rx_def)
  have "session_deliver ?ev (enqueue_event ?ev s) = Some s"
    using s(2,3) by (simp add: session_deliver_def enqueue_event_def)
  from deliver_spec [OF s(1) [unfolded rx] this] have "stands H cfg Ph_Ready (hand_over ?ev c)"
    using s(2,3) assms(3) by (simp add: enqueue_event_def)
  then show ?thesis using assms(2) by (simp add: settled_def steady_def hand_over_def)
qed

lemma backlog_event_spec:
  assumes "received_at_phase H cfg e ph c" "ph = runtime_phase (rw_state c)" "steady H cfg c0" "rw_state c = rw_state c0"
    "rw_state c \<noteq> Rt_Operational"
    "plain_payload (rp_payload (pe_packet e)) \<or> (\<exists>a. rp_payload (pe_packet e) = PL_Subscription a \<and> (\<forall>k. ph \<noteq> Ph_Ack k))"
  shows "outcome_ok H cfg (and_then (queue_or_fail e phase c) (\<lambda>_ c'. (Ready (Ok None), c')))"
proof -
  obtain r c' where r: "queue_or_fail e phase c = (r, c')" by fastforce
  have ph: "ph \<noteq> Ph_Ready" using assms(2,5) by (cases "rw_state c") simp_all
  have "RewindPacket_wf (pe_packet e)" using assms(1) by (simp add: received_at_phase_def)
  then have p: "plain_payload (rp_payload (pe_packet e)) \<or>
      (\<exists>a. rp_payload (pe_packet e) = PL_Subscription a \<and> \<not> is_operational (pe_packet e) \<and> (\<forall>k. ph \<noteq> Ph_Ack k)) \<or>
      (\<exists>a. rp_payload (pe_packet e) = PL_KeepAlive a \<and> \<not> is_operational (pe_packet e) \<and> ph \<noteq> Ph_Verdict)"
    using assms(6) handshake_only(1) by blast
  note q = queue_or_fail_spec [OF assms(1) p ph r]
  have "steady H cfg c'" using q(2,3) assms(2-4) by (simp add: steady_def)
  then show ?thesis using r q(1,3) assms(5) unit_poll_cases [of r] by (auto simp: settled_def between_rounds_def)
qed

lemma handle_operational_spec:
  assumes "terminal_ok H cfg" "clock_fits cfg m" "between_rounds H cfg c0" "rw_state c = rw_state c0" "rw_pending c = rw_pending c0"
    "rw_state c = Rt_Operational" "received_at_phase H cfg e Ph_Ready c"
  shows "outcome_ok H cfg (handle_operational_packet H m e c)"
proof -
  have st: "steady H cfg c0" "pd_events (rw_pending c) = []" using assms(3-6) by (simp_all add: between_rounds_def)
  note ev = operational_event_spec [OF assms(7,6) st(2)]
  show ?thesis
  proof (cases "rp_payload (pe_packet e)" rule: payload_kinds)
    case (1 v)
    have "stands H cfg Ph_Ready c" using rx_keep_alive [OF assms(7) 1] by simp
    then show ?thesis using 1 assms(6) st by (simp add: handle_operational_packet_def between_rounds_def steady_def)
  next
    case (2 ch)
    then show ?thesis using reauthenticate_spec [OF assms(1,2) st(1) assms(4) _ assms(7)] assms(6)
      by (simp add: handle_operational_packet_def)
  next
    case 3
    then show ?thesis using remote_close_spec [OF assms(7)] by (simp add: handle_operational_packet_def)
  next
    case 6
    then show ?thesis using ev by (cases "rp_payload (pe_packet e)") (simp_all add: handle_operational_packet_def)
  qed (use ev in \<open>simp_all add: handle_operational_packet_def\<close>)
qed

lemma handle_authentication_spec:
  assumes "terminal_ok H cfg" "clock_fits cfg m" "steady H cfg c0" "rw_state c = rw_state c0"
    "rw_state c = Rt_Authentication d" "received_at_phase H cfg e Ph_Verdict c"
  shows "outcome_ok H cfg (handle_authentication_packet H m e d c)"
proof -
  note ev = backlog_event_spec [OF assms(6) _ assms(3,4), of AUTH_PHASE]
  show ?thesis
  proof (cases "rp_payload (pe_packet e)" rule: payload_kinds)
    case (1 v)
    have "stands H cfg (subscribed cfg 0) c" using rx_keep_alive [OF assms(6) 1] by simp
    from recovery_spec [OF this assms(2)] show ?thesis
      using 1 by (simp add: handle_authentication_packet_def begin_runtime_subscriptions_def install_next_def)
  next
    case (2 ch)
    then show ?thesis using reauthenticate_spec [OF assms(1-4) _ assms(6)] assms(5)
      by (simp add: handle_authentication_packet_def)
  next
    case 3
    then show ?thesis using remote_close_spec [OF assms(6)] by (simp add: handle_authentication_packet_def)
  next
    case (4 a)
    then show ?thesis using ev assms(5) by (simp add: handle_authentication_packet_def)
  next
    case (5 f)
    have "stands H cfg Ph_Verdict c" using rx_failure [OF assms(6) 5] by simp
    then show ?thesis using 5 assms(5) by (simp add: handle_authentication_packet_def settled_def steady_def)
  next
    case 6
    then show ?thesis using ev assms(5) by (cases "rp_payload (pe_packet e)") (simp_all add: handle_authentication_packet_def)
  qed
qed

lemma handle_subscription_spec:
  assumes "terminal_ok H cfg" "clock_fits cfg m" "steady H cfg c0" "rw_state c = rw_state c0"
    "rw_state c = Rt_Subscription d k" "received_at_phase H cfg e (Ph_Ack k) c"
  shows "outcome_ok H cfg (handle_subscription_packet H m e k c)"
proof -
  note ev = backlog_event_spec [OF assms(6) _ assms(3,4), of SUB_PHASE]
  have "rw_state c0 = Rt_Subscription d k" using assms(4,5) by simp
  then have k: "k < length (rc_subscriptions cfg)" using assms(3) by (simp add: steady_def)
  have rc: "rw_subscriptions c = rc_subscriptions cfg" using assms(6) by (auto simp: received_at_phase_def tracks_def runs_config_def)
  have n: "usize_saturating_add k 1 = k + 1" using k assms(1) by (intro usize_saturating_add_exact) (simp add: terminal_ok_def)
  show ?thesis
  proof (cases "rp_payload (pe_packet e)" rule: payload_kinds)
    case (1 v)
    have "stands H cfg (Ph_Ack k) c" using rx_keep_alive [OF assms(6) 1] by simp
    then show ?thesis using 1 assms(5) k by (simp add: handle_subscription_packet_def between_rounds_def steady_def)
  next
    case (2 ch)
    then show ?thesis using reauthenticate_spec [OF assms(1-4) _ assms(6)] assms(5)
      by (simp add: handle_subscription_packet_def)
  next
    case 3
    then show ?thesis using remote_close_spec [OF assms(6)] by (simp add: handle_subscription_packet_def)
  next
    case (4 a)
    note rx = rx_subscription [OF assms(6) 4]
    show ?thesis
    proof (cases "subscription_acknowledges a (rc_subscriptions cfg ! k)")
      case True
      then have "stands H cfg (subscribed cfg (k + 1)) c" using rx by simp
      from recovery_spec [OF this assms(2)] show ?thesis using 4 True k rc n
        by (simp add: handle_subscription_packet_def get_def advance_runtime_subscription_def install_next_def)
    next
      case False
      then have "stands H cfg (Ph_Ack k) c" using rx by simp
      then show ?thesis using 4 False k rc assms(5) by (simp add: handle_subscription_packet_def get_def between_rounds_def steady_def)
    qed
  next
    case (5 f)
    have "stands H cfg (Ph_Ack k) c" using rx_failure [OF assms(6) 5] by simp
    then show ?thesis using 5 assms(5) k by (simp add: handle_subscription_packet_def settled_def steady_def)
  next
    case 6
    then show ?thesis using ev assms(5) by (cases "rp_payload (pe_packet e)") (simp_all add: handle_subscription_packet_def)
  qed
qed

lemma handle_runtime_spec:
  assumes "terminal_ok H cfg" "clock_fits cfg m" "between_rounds H cfg c0" "rw_state c = rw_state c0" "rw_pending c = rw_pending c0"
    "received_at_phase H cfg e (runtime_phase (rw_state c0)) c"
  shows "outcome_ok H cfg (handle_runtime_packet H m e c)"
proof (cases "rw_state c0")
  case Rt_Operational
  then show ?thesis using handle_operational_spec [OF assms(1-5)] assms(4,6) by (simp add: handle_runtime_packet_def)
next
  case (Rt_Authentication d)
  then show ?thesis using handle_authentication_spec [OF assms(1,2) _ assms(4)] assms(3,4,6)
    by (simp add: handle_runtime_packet_def between_rounds_def)
next
  case (Rt_Subscription d k)
  then show ?thesis using handle_subscription_spec [OF assms(1,2) _ assms(4)] assms(3,4,6)
    by (simp add: handle_runtime_packet_def between_rounds_def)
qed

lemma round_spec:
  assumes "terminal_ok H cfg" "clock_fits cfg m" "between_rounds H cfg c" "next_event_round H dl m c = (r, c')"
  shows "case r of Ready (Ok None) \<Rightarrow> between_rounds H cfg c' | Ready (Ok (Some (Some ev))) \<Rightarrow> settled H cfg (hand_over ev c')
    | _ \<Rightarrow> settled H cfg c'"
proof -
  have st: "stands H cfg (runtime_phase (rw_state c)) c" "settled H cfg c" "steady H cfg c"
    using assms(3) by (simp_all add: between_rounds_def steady_def settled_def)
  show ?thesis
  proof (cases "passed dl (rm_check m) \<or> (\<exists>e. deadline_after (rw_last_valid_packet c) (rw_timeout c) = Err e)")
    case True
    then show ?thesis using assms(4) st by (auto simp: next_event_round_def split: if_splits)
  next
    case False
    then obtain td where td: "deadline_after (rw_last_valid_packet c) (rw_timeout c) = Ok td" by (metis sum.exhaust)
    show ?thesis
    proof (cases "rm_recv m")
      case (Rx_Datagram raw now t)
      obtain q c1 where q: "receive_datagram raw now t c = (q, c1)" by fastforce
      note rx = receive_datagram_spec [OF st(1) q]
      show ?thesis
      proof (cases q)
        case (Inl x)
        then have "steady H cfg c1" using rx st(3) by (auto simp: steady_def)
        then show ?thesis using assms(4) False td Rx_Datagram q Inl by (auto simp: next_event_round_def settled_def Let_def)
      next
        case (Inr e)
        then have "received_at_phase H cfg e (runtime_phase (rw_state c)) c1" using rx by auto
        then have h: "outcome_ok H cfg (handle_runtime_packet H m e c1)"
          using handle_runtime_spec [OF assms(1-3) rx(2,3)] by simp
        obtain a c2 where a: "handle_runtime_packet H m e c1 = (a, c2)" by fastforce
        have "(r, c') = and_then (a, c2) (\<lambda>ev c''. (Ready (Ok (case ev of None \<Rightarrow> None | Some x \<Rightarrow> Some (Some x))), c''))"
          using assms(4) False td Rx_Datagram q Inr a by (simp add: next_event_round_def Let_def)
        then show ?thesis using h a by (cases "(H, cfg, (a, c2))" rule: outcome_ok.cases) auto
      qed
    next
      case (Rx_Failed io)
      then show ?thesis using assms(4) False td st by (auto simp: next_event_round_def Let_def)
    next
      case (Rx_Elapsed late)
      obtain now where e: "elapsed_round dl m td now c = (r, c')"
        using assms(4) False td Rx_Elapsed by (auto simp: next_event_round_def Let_def)
      show ?thesis
      proof (cases "td \<le> now \<or> runtime_handshake_timeout now c \<noteq> None \<or> passed dl now \<or> rw_state c \<noteq> Rt_Operational")
        case True
        then show ?thesis using e st assms(3) by (auto simp: elapsed_round_def split: if_splits option.splits)
      next
        case False
        obtain a c1 where a: "send_keepalive m c = (a, c1)" by fastforce
        have "advances_to H cfg Ph_Ready c a c1"
          using send_keepalive_spec [OF assms(1) _ a, of Ph_Ready Ph_Ready] st(1) False by simp
        then show ?thesis unfolding advances_to_def
        proof (elim disjE conjE)
          assume "a = Ready (Ok ())" "stands H cfg Ph_Ready c1" "same_terminal c c1"
          then show ?thesis using e False a assms(3)
            by (auto simp: elapsed_round_def settled_def steady_def between_rounds_def same_terminal_def split: sum.splits)
        next
          assume "a \<noteq> Ready (Ok ())" "retired H cfg c1"
          then show ?thesis using e False a unit_poll_cases [of a] by (auto simp: elapsed_round_def settled_def)
        qed
      qed
    qed
  qed
qed

fun returned :: "(bytes \<Rightarrow> bytes) \<Rightarrow> RewindConfig \<Rightarrow> EventKind option run_outcome \<Rightarrow> bool" where
  "returned H cfg (Ready (Ok (Some ev)), _, c) \<longleftrightarrow> settled H cfg (hand_over ev c)"
| "returned H cfg (_, _, c) \<longleftrightarrow> settled H cfg c"

lemma receive_rounds_spec:
  assumes "terminal_ok H cfg" "\<forall>m \<in> set ms. clock_fits cfg m" "between_rounds H cfg c"
  shows "returned H cfg (receive_rounds H dl ms c)"
  using assms(2,3)
proof (induction ms arbitrary: c)
  case Nil
  then show ?case by (simp add: between_rounds_def settled_def)
next
  case (Cons m ms)
  obtain r c' where r: "next_event_round H dl m c = (r, c')" by fastforce
  have "case r of Ready (Ok None) \<Rightarrow> between_rounds H cfg c' | Ready (Ok (Some (Some ev))) \<Rightarrow> settled H cfg (hand_over ev c')
    | _ \<Rightarrow> settled H cfg c'" using round_spec [OF assms(1) _ Cons.prems(2) r] Cons.prems(1) by simp
  then show ?case using Cons.IH [of c'] Cons.prems(1) r by (auto split: poll.splits sum.splits option.splits)
qed

lemma next_event_until_spec:
  assumes "terminal_ok H cfg" "\<forall>m \<in> set ms. clock_fits cfg m" "settled H cfg c"
  shows "returned H cfg (next_event_until H dl ms c)"
proof (cases "is_closed c")
  case True
  then have "retired H cfg c" using assms(3) by (auto simp: settled_def dest: steady_not_closed)
  then show ?thesis using True
    by (auto simp: next_event_until_def ensure_usable_def is_closed_def settled_def retired_def)
next
  case False
  then have st: "steady H cfg c" using assms(3) by (auto simp: settled_def retired_def)
  have e: "ensure_usable c = (Ok (), c)" using False by (simp add: ensure_usable_def is_closed_def)
  obtain ev c' where p: "pending_event_if_recovered c = (ev, c')" by fastforce
  have h: "outcome_ok H cfg (Ready (Ok ev), c')" using resume_spec [OF st] p by (simp add: resume_def)
  show ?thesis
  proof (cases ev)
    case None
    then show ?thesis using h e p receive_rounds_spec [OF assms(1,2)] by (simp add: next_event_until_def)
  qed (use h e p in \<open>simp add: next_event_until_def\<close>)
qed

text \<open>Without a caller's deadline a round returns an event, an error, or goes on.\<close>

lemma round_without_deadline: "next_event_round H None m c \<noteq> (Ready (Ok (Some None)), c')"
proof
  assume "next_event_round H None m c = (Ready (Ok (Some None)), c')"
  then show False
    by (auto simp: next_event_round_def passed_def elapsed_round_def Let_def and_then_def
        split: sum.splits recv_outcome.splits prod.splits if_splits option.splits poll.splits)
qed

lemma rounds_without_deadline: "receive_rounds H None ms c \<noteq> (Ready (Ok None), ms', c')"
  by (induction ms arbitrary: c)
    (auto simp: round_without_deadline split: prod.splits poll.splits sum.splits option.splits dest: round_without_deadline [THEN notE])

lemma next_event_rw_once:
  "next_event_rw H ms c = (case next_event_until H None ms c of
     (Dropped, ms', c') \<Rightarrow> (Dropped, ms', c') | (Ready (Err e), ms', c') \<Rightarrow> (Ready (Err e), ms', c')
   | (Ready (Ok (Some ev)), ms', c') \<Rightarrow> (Ready (Ok ev), ms', c') | (Ready (Ok None), ms', c') \<Rightarrow> undefined)"
proof -
  have "next_event_until H None ms c \<noteq> (Ready (Ok None), ms', c')" for ms' c'
    by (auto simp: next_event_until_def rounds_without_deadline split: prod.splits sum.splits option.splits)
  then show ?thesis by (subst next_event_rw.simps) (auto split: prod.splits poll.splits sum.splits option.splits)
qed

section \<open>Calls and runs\<close>

datatype client_call =
    Call_next "RewindMoment list"
  | Call_next_for instant duration "RewindMoment list"
  | Call_close RewindMoment

fun call_moments :: "client_call \<Rightarrow> RewindMoment list" where
  "call_moments (Call_next ms) = ms"
| "call_moments (Call_next_for _ _ ms) = ms"
| "call_moments (Call_close m) = [m]"

fun perform :: "(bytes \<Rightarrow> bytes) \<Rightarrow> client_call \<Rightarrow> RewindClient \<Rightarrow> RewindClient" where
  "perform H (Call_next ms) c = (case next_event_rw H ms c of (Ready (Ok ev), _, c') \<Rightarrow> hand_over ev c' | (_, _, c') \<Rightarrow> c')"
| "perform H (Call_next_for now max_wait ms) c =
     (case next_event_for H now max_wait ms c of (Ready (Ok (Some ev)), _, c') \<Rightarrow> hand_over ev c' | (_, _, c') \<Rightarrow> c')"
| "perform H (Call_close m) c = snd (close_rw m c)"

lemma close_spec:
  assumes "settled H cfg c"
  shows "settled H cfg (snd (close_rw m c))"
proof (cases "is_closed c")
  case True
  then show ?thesis using assms steady_not_closed by (auto simp: close_rw_def settled_def retired_def is_closed_def)
next
  case False
  then have st: "stands H cfg (runtime_phase (rw_state c)) c" using assms by (auto simp: settled_def retired_def steady_def)
  have ok: "sendable H cfg PT_Close PL_Close (runtime_phase (rw_state c)) Ph_Ended"
    by (cases "rw_state c") (simp_all add: sendable_def tx_phase_def)
  obtain r c' where r: "send_payload m PT_Close PL_Close Op_Close c = (r, c')" by fastforce
  from send_payload_spec [OF st ok r] show ?thesis
  proof (elim disjE conjE)
    assume "r = Ready (Ok ())" "stands H cfg Ph_Ended c'"
    then show ?thesis using False r
      by (auto simp: close_rw_def settled_def retired_def is_closed_def stands_def tracks_def)
  next
    assume "r \<noteq> Ready (Ok ())" "retired H cfg c'"
    then show ?thesis using False r unit_poll_cases [of r] by (auto simp: close_rw_def settled_def is_closed_def)
  qed
qed

lemma perform_spec:
  assumes "terminal_ok H cfg" "\<forall>m \<in> set (call_moments x). clock_fits cfg m" "settled H cfg c"
  shows "settled H cfg (perform H x c)"
proof (cases x)
  case (Call_next ms)
  obtain r ms' c' where r: "next_event_until H None ms c = (r, ms', c')" by (metis prod_cases3)
  have "returned H cfg (r, ms', c')" using next_event_until_spec [OF assms(1) _ assms(3), of ms None] assms(2) r Call_next by simp
  moreover have "r \<noteq> Ready (Ok None)" using r
    by (auto simp: next_event_until_def rounds_without_deadline split: prod.splits sum.splits option.splits)
  ultimately show ?thesis using Call_next r
    by (cases "(H, cfg, (r, ms', c'))" rule: returned.cases) (auto simp: next_event_rw_once)
next
  case (Call_next_for now w ms)
  show ?thesis
  proof (cases "checked_add now w")
    case None
    then show ?thesis using Call_next_for assms(3) by (simp add: next_event_for_def)
  next
    case (Some d)
    obtain r ms' c' where r: "next_event_until H (Some d) ms c = (r, ms', c')" by (metis prod_cases3)
    have "returned H cfg (r, ms', c')" using next_event_until_spec [OF assms(1) _ assms(3), of ms "Some d"] assms(2) r Call_next_for by simp
    then show ?thesis using Call_next_for Some r
      by (cases "(H, cfg, (r, ms', c'))" rule: returned.cases) (auto simp: next_event_for_def)
  qed
next
  case (Call_close m)
  then show ?thesis using close_spec [OF assms(3)] by simp
qed

lemma fold_perform_spec:
  assumes "terminal_ok H cfg" "\<forall>x \<in> set calls. \<forall>m \<in> set (call_moments x). clock_fits cfg m" "settled H cfg c"
  shows "settled H cfg (fold (perform H) calls c)"
  using assms(2,3) by (induction calls arbitrary: c) (auto simp: perform_spec [OF assms(1)])

section \<open>The login\<close>

definition logging_in :: "(bytes \<Rightarrow> bytes) \<Rightarrow> RewindConfig \<Rightarrow> term_phase \<Rightarrow> RewindClient \<Rightarrow> bool" where
  "logging_in H cfg ph c \<longleftrightarrow> stands H cfg ph c \<and> rw_state c = Rt_Operational"

lemma advances_logging:
  "advances_to H cfg ph' c (Ready (Ok u)) c' \<Longrightarrow> logging_in H cfg ph c \<Longrightarrow> logging_in H cfg ph' c'"
  by (auto simp: advances_to_def logging_in_def same_terminal_def)

lemma receive_handshake_spec:
  assumes "logging_in H cfg ph c" "receive_handshake phase r c = (Ok e, c')"
  shows "received_at_phase H cfg e ph c'" "rw_state c' = Rt_Operational"
  using assms receive_datagram_spec [of H cfg ph c]
  by (fastforce simp: receive_handshake_def logging_in_def split: recv_outcome.splits)+

lemma queue_handshake_spec:
  assumes "received_at_phase H cfg e ph c" "rw_state c = Rt_Operational" "ph \<noteq> Ph_Ready"
    "queue_or_fail e phase c = (Ready (Ok u), c')"
    "plain_payload (rp_payload (pe_packet e)) \<or> (\<exists>a. rp_payload (pe_packet e) = PL_Subscription a) \<or>
     (\<exists>v. rp_payload (pe_packet e) = PL_KeepAlive v)"
  shows "logging_in H cfg ph c'"
proof -
  have "is_operational (pe_packet e)" using assms(4) by (auto simp: queue_or_fail_def split: if_splits)
  moreover have "RewindPacket_wf (pe_packet e)" using assms(1) by (simp add: received_at_phase_def)
  ultimately have "plain_payload (rp_payload (pe_packet e))" using assms(5) handshake_only by blast
  then show ?thesis using queue_or_fail_spec [OF assms(1) _ assms(3,4)] assms(2) by (simp add: logging_in_def)
qed

lemma await_challenge_loop_spec:
  "await_challenge_loop m ms c = (Ready (Ok ch), m', ms', c') \<Longrightarrow> logging_in H cfg Ph_Challenge c \<Longrightarrow> logging_in H cfg (Ph_Answer ch) c'"
proof (induction m ms c rule: await_challenge_loop.induct)
  case (2 m0 m ms c)
  obtain e c1 where r: "receive_handshake CHALLENGE_PHASE (rm_recv m) c = (Ok e, c1)"
    using "2.prems"(1) by (auto split: prod.splits sum.splits)
  note rx = receive_handshake_spec [OF "2.prems"(2) r]
  obtain q c2 where q: "queue_or_fail e CHALLENGE_PHASE c1 = (q, c2)" by fastforce
  note queued = queue_handshake_spec [OF rx, of CHALLENGE_PHASE]
  note IH = "2.IH" [OF r [symmetric] refl]
  show ?case
  proof (cases "rp_payload (pe_packet e)" rule: payload_kinds)
    case (2 x)
    then show ?thesis using "2.prems"(1) r rx_challenge(1) [OF rx(1) 2] rx(2) by (auto simp: logging_in_def)
  next
    case 6
    then show ?thesis using "2.prems"(1) r q queued unit_poll_cases [of q] IH
      by (cases "rp_payload (pe_packet e)") auto
  qed (use "2.prems"(1) r q queued unit_poll_cases [of q] IH in auto)
qed simp

lemma login_loops_spec:
  assumes ok: "terminal_ok H cfg"
  shows "answer_loop H ch m ms c = (Ready (Ok u), m', ms', c') \<Longrightarrow> logging_in H cfg (Ph_Answer ch) c \<Longrightarrow>
      logging_in H cfg (subscribed cfg 0) c'"
    "verdict_loop H m ms c = (Ready (Ok u), m', ms', c') \<Longrightarrow> logging_in H cfg Ph_Verdict c \<Longrightarrow>
      logging_in H cfg (subscribed cfg 0) c'"
  using ok
proof (induction H ch m ms c and H m ms c rule: answer_loop_verdict_loop.induct)
  case (1 H ch m ms c)
  obtain c1 where a: "send_authentication H m ch c = (Ready (Ok ()), c1)"
    using "1.prems"(1) by (auto split: prod.splits poll.splits sum.splits)
  have "logging_in H cfg Ph_Verdict c1"
    using send_authentication_spec [OF "1.prems"(3) _ a] "1.prems"(2) advances_logging by (auto simp: logging_in_def)
  then show ?case using "1.IH" [OF a [symmetric] refl refl] "1.prems"(1,3) a by simp
next
  case (3 H m0 m ms c)
  obtain e c1 where r: "receive_handshake AUTH_PHASE (rm_recv m) c = (Ok e, c1)"
    using "3.prems"(1) by (auto split: prod.splits sum.splits)
  note rx = receive_handshake_spec [OF "3.prems"(2) r]
  obtain q c2 where q: "queue_or_fail e AUTH_PHASE c1 = (q, c2)" by fastforce
  note queued = queue_handshake_spec [OF rx, of AUTH_PHASE]
  note IH = "3.IH"(2-) [OF r [symmetric] refl]
  show ?case
  proof (cases "rp_payload (pe_packet e)" rule: payload_kinds)
    case (1 v)
    then show ?thesis using "3.prems"(1) r rx_keep_alive [OF rx(1) 1] rx(2) by (auto simp: logging_in_def)
  next
    case (2 x)
    obtain y where y: "challenge_bytes x = Ok y" using "3.prems"(1) r 2 by (auto split: sum.splits)
    have "logging_in H cfg (Ph_Answer y) c1" using rx_challenge(1) [OF rx(1) 2 y] rx(2) by (simp add: logging_in_def)
    then show ?thesis using "3.prems"(1,3) r 2 y "3.IH"(1) [OF r [symmetric] refl 2 y] by simp
  next
    case 6
    then show ?thesis using "3.prems"(1,3) r q queued unit_poll_cases [of q] IH
      by (cases "rp_payload (pe_packet e)") auto
  qed (use "3.prems"(1,3) r q queued unit_poll_cases [of q] IH in auto)
qed simp

lemma finish_authentication_spec:
  assumes "terminal_ok H cfg" "finish_authentication H ch m ms c = (Ready (Ok u), m', ms', c')" "logging_in H cfg (Ph_Answer ch) c"
  shows "logging_in H cfg (subscribed cfg 0) c'"
  using assms login_loops_spec(1) [OF assms(1)] by (auto simp: finish_authentication_def split: sum.splits)

lemma subscription_ack_loop_spec:
  assumes ok: "terminal_ok H cfg"
  shows "subscription_ack_loop H (rc_subscriptions cfg ! k) m ms c = (Ready (Ok restart), m', ms', c') \<Longrightarrow>
    logging_in H cfg (Ph_Ack k) c \<Longrightarrow> logging_in H cfg (subscribed cfg (if restart then 0 else k + 1)) c'"
proof (induction ms arbitrary: m c)
  case (Cons m ms m0 c)
  obtain e c1 where r: "receive_handshake SUB_PHASE (rm_recv m) c = (Ok e, c1)"
    using Cons.prems(1) by (auto split: prod.splits sum.splits)
  note rx = receive_handshake_spec [OF Cons.prems(2) r]
  obtain q c2 where q: "queue_or_fail e SUB_PHASE c1 = (q, c2)" by fastforce
  note queued = queue_handshake_spec [OF rx, of SUB_PHASE]
  show ?case
  proof (cases "rp_payload (pe_packet e)" rule: payload_kinds)
    case (1 v)
    have "logging_in H cfg (Ph_Ack k) c1" using rx_keep_alive [OF rx(1) 1] rx(2) by (simp add: logging_in_def)
    then show ?thesis using Cons r 1 by simp
  next
    case (2 x)
    obtain y where y: "challenge_bytes x = Ok y" using Cons.prems(1) r 2 by (auto split: sum.splits)
    have "logging_in H cfg (Ph_Answer y) c1" using rx_challenge(1) [OF rx(1) 2 y] rx(2) by (simp add: logging_in_def)
    then show ?thesis using Cons.prems(1) r 2 y finish_authentication_spec [OF ok]
      by (auto split: prod.splits poll.splits sum.splits)
  next
    case (4 a)
    have "logging_in H cfg (if subscription_acknowledges a (rc_subscriptions cfg ! k) then subscribed cfg (k + 1) else Ph_Ack k) c1"
      using rx_subscription [OF rx(1) 4] rx(2) by (simp add: logging_in_def)
    then show ?thesis using Cons r 4 by (auto split: if_splits)
  next
    case 6
    then show ?thesis using Cons.prems(1) r q queued unit_poll_cases [of q] Cons.IH
      by (cases "rp_payload (pe_packet e)") auto
  qed (use Cons.prems(1) r in auto)
qed simp

lemma subscribe_from_spec:
  assumes ok: "terminal_ok H cfg"
  shows "subscribe_from H k m ms c = (Ready (Ok u), m', ms', c') \<Longrightarrow> logging_in H cfg (subscribed cfg k) c \<Longrightarrow>
    logging_in H cfg Ph_Ready c'"
  using ok
proof (induction H k m ms c rule: subscribe_from.induct)
  case (1 H k m ms c)
  have rc: "rw_subscriptions c = rc_subscriptions cfg"
    using "1.prems"(2) stands_config by (auto simp: logging_in_def runs_config_def)
  show ?case
  proof (cases "k < length (rc_subscriptions cfg)")
    case False
    then show ?thesis using "1.prems"(1,2) rc by (simp add: subscribe_from.simps [of H k] get_def subscribed_def)
  next
    case True
    have g: "get k (rw_subscriptions c) = Some (rc_subscriptions cfg ! k)" using True rc by (simp add: get_def)
    obtain c1 where a: "send_subscription m (rc_subscriptions cfg ! k) c = (Ready (Ok ()), c1)"
      using "1.prems"(1) g by (auto simp: subscribe_from.simps [of H k] split: prod.splits poll.splits sum.splits)
    obtain b m2 ms2 c2 where w: "await_subscription_ack H (rc_subscriptions cfg ! k) m ms c1 = (Ready (Ok b), m2, ms2, c2)"
      using "1.prems"(1) g a by (auto simp: subscribe_from.simps [of H k] split: prod.splits poll.splits sum.splits)
    have s: "logging_in H cfg (Ph_Subscribe k) c" using "1.prems"(2) True by (simp add: subscribed_def)
    then have "stands H cfg (Ph_Subscribe k) c" by (simp add: logging_in_def)
    from advances_logging [OF send_subscription_spec [OF this a] s] have "logging_in H cfg (Ph_Ack k) c1" .
    moreover have "subscription_ack_loop H (rc_subscriptions cfg ! k) m ms c1 = (Ready (Ok b), m2, ms2, c2)"
      using w by (auto simp: await_subscription_ack_def split: sum.splits)
    ultimately have "logging_in H cfg (subscribed cfg (if b then 0 else k + 1)) c2"
      by (intro subscription_ack_loop_spec [OF "1.prems"(3)])
    then show ?thesis using "1.IH" [OF g a [symmetric] refl refl w [symmetric] refl refl refl refl] "1.prems"(1,3) g a w
      by (simp add: subscribe_from.simps [of H k])
  qed
qed

lemma connect_spec:
  assumes "terminal_ok H cfg" "connect_rw H cfg t1 o1 t2 o2 now m ms = Ready (Ok c)"
  shows "steady H cfg c"
proof -
  obtain nk where nk: "deadline_after now (rc_keepalive_interval cfg) = Ok nk"
    using assms(2) by (auto simp: connect_rw_def split: poll.splits sum.splits)
  let ?c = "fresh_client cfg now nk"
  obtain m3 ms3 c3 t where l: "login H m ms ?c = (Ready (Ok ()), m3, ms3, c3)" and c: "c = c3\<lparr>rw_next_keepalive := t\<rparr>"
    using assms(2) nk by (auto simp: connect_rw_def split: poll.splits sum.splits prod.splits)
  have "tracks H cfg fresh_session ?c"
    by (simp add: tracks_def fresh_client_def runs_config_def is_closed_def fresh_session_def backlog_wf_def)
  then have f: "logging_in H cfg Ph_Hello ?c"
    by (auto simp: logging_in_def stands_def fresh_session_def fresh_client_def)
  obtain c1 where k: "send_keepalive m ?c = (Ready (Ok ()), c1)"
    using l by (auto simp: login_def split: prod.splits poll.splits sum.splits)
  obtain ch m2 ms2 c2 where a: "await_challenge m ms c1 = (Ready (Ok ch), m2, ms2, c2)"
    using l k by (auto simp: login_def split: prod.splits poll.splits sum.splits)
  obtain m4 ms4 c4 where b: "finish_authentication H ch m2 ms2 c2 = (Ready (Ok ()), m4, ms4, c4)"
    using l k a by (auto simp: login_def split: prod.splits poll.splits sum.splits)
  have d: "subscribe_all H m4 ms4 c4 = (Ready (Ok ()), m3, ms3, c3)" using l k a b by (simp add: login_def)
  have "logging_in H cfg Ph_Challenge c1"
    using send_keepalive_spec [OF assms(1) _ k, of Ph_Hello Ph_Challenge] f advances_logging by (auto simp: logging_in_def)
  then have "logging_in H cfg (Ph_Answer ch) c2"
    using a await_challenge_loop_spec by (auto simp: await_challenge_def split: sum.splits)
  then have "logging_in H cfg (subscribed cfg 0) c4" using finish_authentication_spec [OF assms(1) b] by blast
  then have "logging_in H cfg Ph_Ready c3" using subscribe_from_spec [OF assms(1)] d by (auto simp: subscribe_all_def)
  then show ?thesis by (simp add: c steady_def logging_in_def)
qed

section \<open>Sends and receives that succeed\<close>

lemma length_datagram: "length (RewindPacket_to_bytes p) = HEADER_LEN + length (encode_payload (rp_payload p))"
  by (simp add: RewindPacket_to_bytes_def length_SIGNATURE rewind_lens)

definition packet_of :: "PacketType \<Rightarrow> u32 \<Rightarrow> nat \<Rightarrow> Payload \<Rightarrow> RewindPacket" where
  "packet_of t sequence n pl = \<lparr>rp_header = \<lparr>rh_packet_type = t, rh_flags = PacketFlags_NONE, rh_sequence = sequence,
     rh_payload_len = of_nat n\<rparr>, rp_payload = pl\<rparr>"

lemma packet_of_wf:
  assumes "PacketType_wf t" "Payload_wf pl" "measure_payload t pl = Some n" "n \<le> REWIND_MAX_PAYLOAD_LEN"
  shows "RewindPacket_wf (packet_of t q n pl)"
  using assms by (simp add: RewindPacket_wf_def packet_of_def RewindPacket_new_def validate_and_measure_def rewind_lens)

text \<open>The socket takes a datagram with a body of \<open>n\<close> bytes in time.\<close>

definition takes :: "RewindMoment \<Rightarrow> nat \<Rightarrow> RewindClient \<Rightarrow> bool" where
  "takes m n c \<longleftrightarrow> rm_send m = Completed (HEADER_LEN + n) \<and> rm_send_at m + rw_send_timeout c \<le> instant_max"

definition after_send :: "PacketType \<Rightarrow> nat \<Rightarrow> Payload \<Rightarrow> RewindClient \<Rightarrow> RewindClient" where
  "after_send t n pl c = c\<lparr>rw_sequences := (rw_sequences c)\<lparr>sq_routine := sq_routine (rw_sequences c) + 1\<rparr>,
     rw_control_pending := False,
     rw_socket := rw_socket c @ [Tx (RewindPacket_to_bytes (packet_of t (sq_routine (rw_sequences c)) n pl))]\<rparr>"

lemma send_payload_ok:
  assumes "Payload_wf pl" "measure_payload t pl = Some n" "n \<le> REWIND_MAX_PAYLOAD_LEN" "takes m n c"
  shows "send_payload m t pl op c = (Ready (Ok ()), after_send t n pl c)"
proof -
  let ?q = "sq_routine (rw_sequences c)"
  have new: "RewindPacket_new t PacketFlags_NONE ?q pl = Ok (packet_of t ?q n pl)"
    using assms(2,3) by (simp add: RewindPacket_new_def validate_and_measure_def packet_of_def rewind_lens)
  have len: "length (RewindPacket_to_bytes (packet_of t ?q n pl)) = HEADER_LEN + n"
    using encode_payload_length [OF assms(1-3)] by (simp add: length_datagram packet_of_def)
  show ?thesis using assms(4) new len
    by (simp add: send_payload_def SequenceCounters_next_def PacketFlags_contains_def PacketFlags_NONE_def REAL_TIME_1_def
        Let_def complete_control_send_def bounded_control_def deadline_after_def checked_add_def takes_def after_send_def)
qed

definition after_receive :: "RewindPacket \<Rightarrow> instant \<Rightarrow> nat \<Rightarrow> RewindClient \<Rightarrow> RewindClient" where
  "after_receive p now t c = c\<lparr>rw_socket := rw_socket c @ [Rx (RewindPacket_to_bytes p) t], rw_last_valid_packet := now\<rparr>"

definition envelope_of :: "RewindPacket \<Rightarrow> nat \<Rightarrow> PacketEnvelope" where
  "envelope_of p t = \<lparr>pe_packet = p, pe_raw_datagram = RewindPacket_to_bytes p, pe_received_at = t\<rparr>"

lemma receive_datagram_ok:
  assumes "RewindPacket_wf p"
  shows "receive_datagram (RewindPacket_to_bytes p) now t c = (Ok (envelope_of p t), after_receive p now t c)"
proof -
  have "length (RewindPacket_to_bytes p) \<le> MAX_DATAGRAM_LEN"
    using encoder_decodes [OF assms] by (auto simp: RewindPacket_from_bytes_def split: if_splits)
  then show ?thesis using encoder_decodes [OF assms]
    by (simp add: receive_datagram_def Let_def after_receive_def envelope_of_def)
qed

section \<open>A master that falls silent\<close>

definition silent :: "RewindClient \<Rightarrow> RewindMoment \<Rightarrow> bool" where
  "silent c m \<longleftrightarrow> (\<exists>late. rm_recv m = Rx_Elapsed late) \<and> takes m (5 + length (rw_description c)) c"

definition silence_error :: "RewindError \<Rightarrow> bool" where
  "silence_error e \<longleftrightarrow> (case e of RE_SessionTimeout _ \<Rightarrow> True | RE_HandshakeTimeout _ _ \<Rightarrow> True | _ \<Rightarrow> False)"

lemma send_keepalive_ok:
  assumes "length (rw_description c) \<le> MAX_DESCRIPTION_LEN" "takes m (5 + length (rw_description c)) c"
  shows "\<exists>c'. send_keepalive m c = (Ready (Ok ()), c') \<and> same_terminal c c' \<and> rw_description c' = rw_description c \<and>
    rw_timeout c' = rw_timeout c \<and> rw_keepalive_interval c' = rw_keepalive_interval c \<and> rw_send_timeout c' = rw_send_timeout c"
proof -
  let ?pl = "PL_KeepAlive (Some (version_data (rw_dmr_id c) (rw_description c)))" and ?n = "5 + length (rw_description c)"
  have "measure_payload PT_KeepAlive ?pl = Some ?n" "?n \<le> REWIND_MAX_PAYLOAD_LEN"
    using assms(1) by (simp_all add: version_data_def usize_saturating_add_def usize_max_def MAX_DESCRIPTION_LEN_def rewind_lens)
  from send_payload_ok [OF _ this assms(2)] show ?thesis
    by (simp add: send_keepalive_def after_send_def same_terminal_def)
qed

lemma silent_rounds:
  assumes "length (rw_description c) \<le> MAX_DESCRIPTION_LEN" "\<forall>m \<in> set ms. silent c m"
    "rw_last_valid_packet c + rw_timeout c + rw_keepalive_interval c \<le> instant_max" "ms \<noteq> []"
    "rw_last_valid_packet c + rw_timeout c \<le> rw_next_keepalive c + (length ms - 1) * rw_keepalive_interval c"
  shows "\<exists>e ms' c'. receive_rounds H None ms c = (Ready (Err e), ms', c') \<and> silence_error e"
  using assms
proof (induction ms arbitrary: c)
  case (Cons m ms)
  let ?td = "rw_last_valid_packet c + rw_timeout c"
  obtain late where late: "rm_recv m = Rx_Elapsed late" and t: "takes m (5 + length (rw_description c)) c"
    using Cons.prems(2) by (auto simp: silent_def)
  define now where "now = min ?td (state_deadline c) + late"
  have td: "deadline_after (rw_last_valid_packet c) (rw_timeout c) = Ok ?td"
    using Cons.prems(3) by (simp add: deadline_after_def checked_add_def)
  have r: "next_event_round H None m c = elapsed_round None m ?td now c"
    using td late by (simp add: next_event_round_def passed_def Let_def now_def)
  show ?case
  proof (cases "?td \<le> now \<or> runtime_handshake_timeout now c \<noteq> None")
    case True
    then have "\<exists>e. elapsed_round None m ?td now c = (Ready (Err e), c) \<and> silence_error e"
      by (auto simp: elapsed_round_def silence_error_def runtime_handshake_timeout_def split: RuntimeState.splits if_splits)
    then show ?thesis using r by auto
  next
    case False
    then have st: "rw_state c = Rt_Operational"
      by (cases "rw_state c") (auto simp: now_def state_deadline_def runtime_handshake_timeout_def split: if_splits)
    obtain c1 where c1: "send_keepalive m c = (Ready (Ok ()), c1)" "same_terminal c c1" "rw_description c1 = rw_description c"
      "rw_timeout c1 = rw_timeout c" "rw_keepalive_interval c1 = rw_keepalive_interval c" "rw_send_timeout c1 = rw_send_timeout c"
      using send_keepalive_ok [OF Cons.prems(1) t] by blast
    let ?c = "c1\<lparr>rw_next_keepalive := now + rw_keepalive_interval c\<rparr>"
    have "now + rw_keepalive_interval c \<le> instant_max" using False Cons.prems(3) by simp
    then have e: "next_event_round H None m c = (Ready (Ok None), ?c)"
      using False st c1 r by (simp add: elapsed_round_def passed_def deadline_after_def checked_add_def)
    have nk: "rw_next_keepalive c \<le> now" using False st by (auto simp: now_def state_deadline_def min_def split: if_splits)
    have ms: "ms \<noteq> []" using Cons.prems(5) False nk by auto
    have "?td \<le> rw_next_keepalive c + length ms * rw_keepalive_interval c" using Cons.prems(5) by simp
    also have "\<dots> \<le> rw_next_keepalive ?c + (length ms - 1) * rw_keepalive_interval c"
      using nk ms by (cases ms) auto
    finally have "\<exists>e ms' c'. receive_rounds H None ms ?c = (Ready (Err e), ms', c') \<and> silence_error e"
      using Cons.prems(1-3) c1 ms by (intro Cons.IH) (auto simp: same_terminal_def silent_def takes_def)
    then show ?thesis using e by simp
  qed
qed simp

section \<open>After a close\<close>

lemma closed_frozen:
  assumes "rw_closed c"
  shows "rw_closed (perform H x c) \<and> rw_pending (perform H x c) = rw_pending c \<and> rw_socket (perform H x c) = rw_socket c"
  using assms
  by (cases x) (auto simp: next_event_rw_once next_event_for_def next_event_until_def ensure_usable_def close_rw_def split: option.splits)

lemma fold_closed_frozen:
  assumes "rw_closed c"
  shows "rw_pending (fold (perform H) calls c) = rw_pending c \<and> rw_socket (fold (perform H) calls c) = rw_socket c"
  using assms by (induction calls arbitrary: c) (auto simp: closed_frozen)

lemma close_during_recovery:
  assumes "\<not> is_closed c" "rw_state c \<noteq> Rt_Operational" "RewindPacket_wf p" "rp_payload p = PL_Close"
    "rm_recv m = Rx_Datagram (RewindPacket_to_bytes p) now t" "rw_last_valid_packet c + rw_timeout c \<le> instant_max"
  shows "perform H (Call_next [m]) c = hand_over (from_envelope (envelope_of p t)) ((after_receive p now t c)\<lparr>rw_closed := True\<rparr>)"
proof -
  have h: "handle_runtime_packet H m (envelope_of p t) (after_receive p now t c) =
      (Ready (Ok (Some (from_envelope (envelope_of p t)))), (after_receive p now t c)\<lparr>rw_closed := True\<rparr>)"
    using assms(2,4) by (cases "rw_state c") (simp_all add: handle_runtime_packet_def handle_authentication_packet_def
      handle_subscription_packet_def envelope_of_def after_receive_def)
  have "deadline_after (rw_last_valid_packet c) (rw_timeout c) = Ok (rw_last_valid_packet c + rw_timeout c)"
    using assms(6) by (simp add: deadline_after_def checked_add_def)
  then have "next_event_round H None m c =
      (Ready (Ok (Some (Some (from_envelope (envelope_of p t))))), (after_receive p now t c)\<lparr>rw_closed := True\<rparr>)"
    using h assms(5) receive_datagram_ok [OF assms(3)] by (simp add: next_event_round_def passed_def Let_def)
  then show ?thesis using assms(1,2)
    by (simp add: next_event_rw_once next_event_until_def ensure_usable_def is_closed_def pending_event_if_recovered_def)
qed

section \<open>A sample session\<close>

definition sample_digest :: "bytes \<Rightarrow> bytes" where "sample_digest x = replicate 32 0"

definition sample_terminal :: RewindConfig where
  "sample_terminal = \<lparr>rc_server = SocketAddr (IpV4 203 0 113 10) 54006, rc_bind = SocketAddr (IpV4 0 0 0 0) 0,
     rc_dmr_id = SubscriberId 1234567, rc_password = [112], rc_description = [100],
     rc_subscriptions = [Subscription_group (DestinationId (DmrId 91))], rc_timeout = DEFAULT_TIMEOUT,
     rc_keepalive_interval = DEFAULT_KEEPALIVE_INTERVAL, rc_send_timeout = DEFAULT_SEND_TIMEOUT\<rparr>"

definition terminal_moment :: "recv_outcome \<Rightarrow> nat \<Rightarrow> RewindMoment" where
  "terminal_moment r n = \<lparr>rm_check = 0, rm_recv = r, rm_now = 0, rm_send_at = 0, rm_send = Completed (HEADER_LEN + n)\<rparr>"

definition arrives :: "PacketType \<Rightarrow> nat \<Rightarrow> Payload \<Rightarrow> recv_outcome" where
  "arrives t n pl = Rx_Datagram (RewindPacket_to_bytes (packet_of t 0 n pl)) 0 0"

definition terminal_login :: "RewindMoment list" where
  "terminal_login = [terminal_moment (arrives PT_Challenge 4 (PL_Challenge [1, 2, 3, 4])) 32,
     terminal_moment (arrives PT_KeepAlive 0 (PL_KeepAlive None)) 8,
     terminal_moment (arrives PT_Subscription 0 (PL_Subscription None)) 0]"

lemma terminal_moment_simps [simp]:
  "rm_recv (terminal_moment r n) = r" "rm_now (terminal_moment r n) = 0" "rm_check (terminal_moment r n) = 0"
  by (simp_all add: terminal_moment_def)

lemma sample_send [simp]:
  assumes "Payload_wf pl" "measure_payload t pl = Some n" "n \<le> REWIND_MAX_PAYLOAD_LEN" "rw_send_timeout c \<le> instant_max"
  shows "send_payload (terminal_moment r n) t pl op c = (Ready (Ok ()), after_send t n pl c)"
  using assms by (intro send_payload_ok) (simp_all add: takes_def terminal_moment_def)

lemma sample_arrival:
  assumes "PacketType_wf t" "Payload_wf pl" "measure_payload t pl = Some n" "n \<le> REWIND_MAX_PAYLOAD_LEN"
  shows "receive_handshake phase (arrives t n pl) c = (Ok (envelope_of (packet_of t 0 n pl) 0), after_receive (packet_of t 0 n pl) 0 0 c)"
  using receive_datagram_ok [OF packet_of_wf [OF assms]] by (simp add: receive_handshake_def arrives_def)

lemma sample_clock [simp]:
  "DEFAULT_TIMEOUT \<le> instant_max" "DEFAULT_KEEPALIVE_INTERVAL \<le> instant_max" "DEFAULT_SEND_TIMEOUT \<le> instant_max"
  by (simp_all add: DEFAULT_TIMEOUT_def DEFAULT_KEEPALIVE_INTERVAL_def DEFAULT_SEND_TIMEOUT_def from_secs_def instant_max_def)

definition sample_report :: RewindPacket where "sample_report = packet_of PT_Report 0 1 (PL_Report [33])"
definition sample_close :: RewindPacket where "sample_close = packet_of PT_Close 0 0 PL_Close"

text \<open>A new challenge, and a report while its answer is awaited.\<close>

definition sample_recovery :: client_call where
  "sample_recovery = Call_next [terminal_moment (arrives PT_Challenge 4 (PL_Challenge [1, 2, 3, 4])) 32,
     terminal_moment (arrives PT_Report 1 (PL_Report [33])) 0]"

lemma sample_deadline: "t \<le> instant_max \<Longrightarrow> deadline_after 0 t = Ok t"
  by (simp add: deadline_after_def checked_add_def)

lemma sample_round:
  assumes "PacketType_wf t" "Payload_wf pl" "measure_payload t pl = Some n" "n \<le> REWIND_MAX_PAYLOAD_LEN"
    "rw_last_valid_packet c + rw_timeout c \<le> instant_max"
  shows "next_event_round H None (terminal_moment (arrives t n pl) k) c =
    and_then (handle_runtime_packet H (terminal_moment (arrives t n pl) k) (envelope_of (packet_of t 0 n pl) 0) (after_receive (packet_of t 0 n pl) 0 0 c))
      (\<lambda>ev c'. (Ready (Ok (case ev of None \<Rightarrow> None | Some x \<Rightarrow> Some (Some x))), c'))"
  using assms(5) receive_datagram_ok [OF packet_of_wf [OF assms(1-4)]]
  by (simp add: next_event_round_def passed_def arrives_def deadline_after_def checked_add_def Let_def)

lemmas sample_effects = after_send_def after_receive_def envelope_of_def packet_of_def rewind_lens usize_saturating_add_def
  usize_max_def sample_deadline

lemma sample_connects:
  "\<exists>c. connect_rw sample_digest sample_terminal 0 (Completed ()) 0 (Completed ()) 0 (terminal_moment (Rx_Elapsed 0) 6) terminal_login
     = Ready (Ok c) \<and> rw_state c = Rt_Operational \<and> rw_pending c = \<lparr>pd_events = [], pd_datagram_bytes = 0\<rparr> \<and> \<not> is_closed c \<and>
     rw_last_valid_packet c = 0 \<and> rw_timeout c = DEFAULT_TIMEOUT \<and> rw_send_timeout c = DEFAULT_SEND_TIMEOUT \<and>
     rw_keepalive_interval c = DEFAULT_KEEPALIVE_INTERVAL \<and> rw_next_keepalive c = DEFAULT_KEEPALIVE_INTERVAL \<and> rw_description c = [100]"
  by (simp add: connect_rw_def open_socket_def bounded_control_def sample_terminal_def fresh_client_def login_def
      send_keepalive_def version_data_def sample_effects
      await_challenge_def terminal_login_def sample_arrival challenge_bytes_def
      finish_authentication_def send_authentication_def authentication_digest_def sample_digest_def subscribe_all_def
      subscribe_from.simps get_def send_subscription_def wire_subscription_def Subscription_group_def
      await_subscription_ack_def subscription_acknowledges_def is_closed_def)

lemma sample_backlog:
  assumes "rw_state c = Rt_Operational" "rw_pending c = \<lparr>pd_events = [], pd_datagram_bytes = 0\<rparr>" "\<not> is_closed c"
    "rw_last_valid_packet c = 0" "rw_timeout c = DEFAULT_TIMEOUT" "rw_send_timeout c = DEFAULT_SEND_TIMEOUT"
  shows "rw_state (perform sample_digest sample_recovery c) \<noteq> Rt_Operational \<and> \<not> is_closed (perform sample_digest sample_recovery c) \<and>
    pd_events (rw_pending (perform sample_digest sample_recovery c)) = [from_envelope (envelope_of sample_report 0)] \<and>
    rw_last_valid_packet (perform sample_digest sample_recovery c) + rw_timeout (perform sample_digest sample_recovery c) \<le> instant_max"
  using assms
  by (simp add: sample_recovery_def next_event_rw_once next_event_until_def ensure_usable_def is_closed_def
      pending_event_if_recovered_def PendingEvents_pop_def sample_round sample_effects
      handle_runtime_packet_def handle_operational_packet_def begin_runtime_authentication_def challenge_bytes_def
      send_authentication_def authentication_digest_def sample_digest_def handle_authentication_packet_def queue_or_fail_def
      is_operational_def queue_pending_def PendingEvents_push_def MAX_PENDING_EVENTS_def MAX_PENDING_BYTES_def Let_def
      sample_report_def from_envelope_def event_kind_def length_datagram)

lemma sample_config_valid: "RewindConfig_validate 0 sample_terminal = Ok ()"
  by (simp add: RewindConfig_validate_def sample_terminal_def MAX_DESCRIPTION_LEN_def rewind_lens checked_add_def
      DEFAULT_TIMEOUT_def DEFAULT_KEEPALIVE_INTERVAL_def DEFAULT_SEND_TIMEOUT_def from_secs_def instant_max_def)

section \<open>The properties of the client\<close>

text \<open>C11. A session of the terminal client, from the login through any sequence of calls with any datagrams,
  send failures and cancelled calls, is a run of the session machine. Every datagram sent decodes,
  carries the next sequence number and is due: the first keepalive, the digest of exactly the challenge
  last received, one subscription at a time and the next only after the acknowledgement of the one
  before, keepalives only in a session that is fully set up, nothing after a close. Events
  are handed over only in a set-up session, each once and in the order of their datagrams, and what
  waits for the end of a recovery stays within 1024 events and 4 MiB. The digest has 32 bytes, the
  configuration passed its validation, and the clock is not at the end of its range.\<close>

theorem rewind_session_refines:
  assumes "\<forall>x. length (H x) = AUTHENTICATION_LEN" "RewindConfig_validate now0 cfg = Ok ()"
    "length (rc_subscriptions cfg) \<le> usize_max"
    "connect_rw H cfg at_bind bind_outcome at_connect connect_outcome now m ms = Ready (Ok c0)"
    "\<forall>x \<in> set calls. \<forall>m \<in> set (call_moments x). clock_fits cfg m"
  shows "let c = fold (perform H) calls c0
    in \<exists>s. session_run H cfg (rw_socket c) fresh_session = Some s \<and>
       length (pd_events (rw_pending c)) \<le> MAX_PENDING_EVENTS \<and>
       (\<Sum>ev\<leftarrow>pd_events (rw_pending c). event_bytes ev) \<le> MAX_PENDING_BYTES \<and>
       (\<not> is_closed c \<longrightarrow> tp_phase s = runtime_phase (rw_state c) \<and> tp_backlog s = pd_events (rw_pending c))"
proof -
  have ok: "terminal_ok H cfg" using assms(1-3) by (auto simp: terminal_ok_def RewindConfig_validate_def split: if_splits)
  have "settled H cfg c0" using connect_spec [OF ok assms(4)] by (simp add: settled_def)
  from fold_perform_spec [OF ok assms(5) this] show ?thesis
    by (auto simp: Let_def settled_def retired_def steady_def stands_def tracks_def backlog_wf_def)
qed

theorem rewind_session_refines_witness:
  "\<exists>c0. connect_rw sample_digest sample_terminal 0 (Completed ()) 0 (Completed ()) 0 (terminal_moment (Rx_Elapsed 0) 6) terminal_login
      = Ready (Ok c0) \<and>
    (\<exists>s. session_run sample_digest sample_terminal (rw_socket (perform sample_digest sample_recovery c0)) fresh_session = Some s \<and>
      tp_backlog s = [from_envelope (envelope_of sample_report 0)])"
proof -
  obtain c0 where c0: "connect_rw sample_digest sample_terminal 0 (Completed ()) 0 (Completed ()) 0 (terminal_moment (Rx_Elapsed 0) 6) terminal_login
      = Ready (Ok c0)" "rw_state c0 = Rt_Operational" "rw_pending c0 = \<lparr>pd_events = [], pd_datagram_bytes = 0\<rparr>" "\<not> is_closed c0"
    "rw_last_valid_packet c0 = 0" "rw_timeout c0 = DEFAULT_TIMEOUT" "rw_send_timeout c0 = DEFAULT_SEND_TIMEOUT"
    using sample_connects by blast
  note b = sample_backlog [OF c0(2-7)]
  have "\<forall>x \<in> set [sample_recovery]. \<forall>m \<in> set (call_moments x). clock_fits sample_terminal m"
    by (simp add: sample_recovery_def clock_fits_def sample_terminal_def)
  from rewind_session_refines [OF _ sample_config_valid _ c0(1) this] b c0(1) show ?thesis
    by (auto simp: sample_digest_def AUTHENTICATION_LEN_def sample_terminal_def usize_max_def Let_def)
qed

text \<open>C16. A master that falls silent is noticed: if no datagram arrives any more, a call to \<open>next_event\<close> of a
  client with nothing to hand over returns a session or handshake timeout after at most one round for each
  keepalive that fits before the session deadline, and one more. Sends are accepted, and the
  deadlines lie in the range of the clock.\<close>

theorem rewind_silence_detected:
  assumes "\<not> is_closed c" "rw_state c = Rt_Operational \<Longrightarrow> pd_events (rw_pending c) = []"
    "length (rw_description c) \<le> MAX_DESCRIPTION_LEN" "\<forall>m \<in> set ms. silent c m" "ms \<noteq> []"
    "rw_last_valid_packet c + rw_timeout c + rw_keepalive_interval c \<le> instant_max"
    "rw_last_valid_packet c + rw_timeout c \<le> rw_next_keepalive c + (length ms - 1) * rw_keepalive_interval c"
  shows "\<exists>e ms' c'. next_event_rw H ms c = (Ready (Err e), ms', c') \<and> silence_error e"
proof -
  have "next_event_until H None ms c = receive_rounds H None ms c"
    using assms(1,2) by (cases "rw_state c") (simp_all add: next_event_until_def ensure_usable_def is_closed_def
      pending_event_if_recovered_def PendingEvents_pop_def)
  then show ?thesis using silent_rounds [OF assms(3,4,6,5,7), of H] by (auto simp: next_event_rw_once)
qed

theorem rewind_silence_detected_witness:
  "\<exists>c0. connect_rw sample_digest sample_terminal 0 (Completed ()) 0 (Completed ()) 0 (terminal_moment (Rx_Elapsed 0) 6) terminal_login
      = Ready (Ok c0) \<and>
    (\<exists>e ms' c'. next_event_rw sample_digest (replicate 3 (terminal_moment (Rx_Elapsed 7) 6)) c0 = (Ready (Err e), ms', c') \<and> silence_error e)"
proof -
  obtain c0 where c0: "connect_rw sample_digest sample_terminal 0 (Completed ()) 0 (Completed ()) 0 (terminal_moment (Rx_Elapsed 0) 6) terminal_login
      = Ready (Ok c0)" "rw_pending c0 = \<lparr>pd_events = [], pd_datagram_bytes = 0\<rparr>" "\<not> is_closed c0"
    "rw_last_valid_packet c0 = 0" "rw_timeout c0 = DEFAULT_TIMEOUT" "rw_send_timeout c0 = DEFAULT_SEND_TIMEOUT"
    "rw_keepalive_interval c0 = DEFAULT_KEEPALIVE_INTERVAL" "rw_next_keepalive c0 = DEFAULT_KEEPALIVE_INTERVAL" "rw_description c0 = [100]"
    using sample_connects by blast
  have "\<forall>m \<in> set (replicate 3 (terminal_moment (Rx_Elapsed 7) 6)). silent c0 m"
    using c0 by (simp add: silent_def takes_def terminal_moment_def)
  then show ?thesis using rewind_silence_detected [where c = c0 and ms = "replicate 3 (terminal_moment (Rx_Elapsed 7) 6)" and H = sample_digest] c0
    by (simp add: MAX_DESCRIPTION_LEN_def rewind_lens DEFAULT_TIMEOUT_def DEFAULT_KEEPALIVE_INTERVAL_def from_secs_def instant_max_def)
qed

text \<open>C29. A close from the master during a recovery overtakes the backlog and strands it: \<open>next_event\<close> hands over the
  close at once although earlier events wait, and no later call ever hands over one of those, sends or
  receives anything.\<close>

theorem rewind_close_strands_backlog:
  assumes "\<not> is_closed c" "rw_state c \<noteq> Rt_Operational" "RewindPacket_wf p" "rp_payload p = PL_Close"
    "rm_recv m = Rx_Datagram (RewindPacket_to_bytes p) now t" "rw_last_valid_packet c + rw_timeout c \<le> instant_max"
  shows "let c1 = perform H (Call_next [m]) c; c2 = fold (perform H) calls c1
    in rw_socket c1 = rw_socket c @ [Rx (RewindPacket_to_bytes p) t, Delivered (from_envelope (envelope_of p t))] \<and>
       rw_pending c2 = rw_pending c \<and> rw_socket c2 = rw_socket c1"
proof -
  note c1 = close_during_recovery [OF assms, of H]
  then have "rw_closed (perform H (Call_next [m]) c)" by (simp add: hand_over_def)
  from fold_closed_frozen [OF this, of H calls] show ?thesis using c1
    by (simp add: Let_def hand_over_def after_receive_def)
qed

theorem rewind_close_strands_backlog_witness:
  "\<exists>c0. connect_rw sample_digest sample_terminal 0 (Completed ()) 0 (Completed ()) 0 (terminal_moment (Rx_Elapsed 0) 6) terminal_login
      = Ready (Ok c0) \<and>
    (\<forall>calls. pd_events (rw_pending (fold (perform sample_digest) calls
       (perform sample_digest (Call_next [terminal_moment (arrives PT_Close 0 PL_Close) 0]) (perform sample_digest sample_recovery c0))))
       = [from_envelope (envelope_of sample_report 0)])"
proof -
  obtain c0 where c0: "connect_rw sample_digest sample_terminal 0 (Completed ()) 0 (Completed ()) 0 (terminal_moment (Rx_Elapsed 0) 6) terminal_login
      = Ready (Ok c0)" "rw_state c0 = Rt_Operational" "rw_pending c0 = \<lparr>pd_events = [], pd_datagram_bytes = 0\<rparr>" "\<not> is_closed c0"
    "rw_last_valid_packet c0 = 0" "rw_timeout c0 = DEFAULT_TIMEOUT" "rw_send_timeout c0 = DEFAULT_SEND_TIMEOUT"
    using sample_connects by blast
  note b = sample_backlog [OF c0(2-7)]
  have p: "RewindPacket_wf sample_close" "rp_payload sample_close = PL_Close"
    by (simp_all add: sample_close_def packet_of_wf, simp add: packet_of_def)
  have r: "rm_recv (terminal_moment (arrives PT_Close 0 PL_Close) 0) = Rx_Datagram (RewindPacket_to_bytes sample_close) 0 0"
    by (simp add: arrives_def sample_close_def)
  have "pd_events (rw_pending (fold (perform sample_digest) calls
       (perform sample_digest (Call_next [terminal_moment (arrives PT_Close 0 PL_Close) 0]) (perform sample_digest sample_recovery c0))))
       = [from_envelope (envelope_of sample_report 0)]" for calls
    using rewind_close_strands_backlog [OF _ _ p r, of "perform sample_digest sample_recovery c0" sample_digest calls] b
    by (simp add: Let_def)
  then show ?thesis using c0(1) by blast
qed

end
