(* ===== verification/Spec2Isabelle.thy ===== *)
theory Spec2Isabelle
  imports Kiss_Decoder Ax25_Frame Crc Aprs_Digipeater Aprs_Messenger Dstar_Slowdata Dstar_Link Reflector_Relay Reflector_Config Mmdvm_Echo Rewind_Runs
begin

text \<open>
  A verification library for the protocol core of the workspace: packet radio (KISS, AX.25, APRS
  messages, the digipeater and the messenger), the D-STAR gateway (types, headers, slow data,
  the codecs of the three reflector protocols, the client and server sessions and the reflector),
  the MMDVM modem (frame codec, the task that drives a modem, the D-STAR gateway on top of it), and
  the REWIND link to a DMR master (datagram codec and receive-only client).

  \<^bold>\<open>The program and its parts.\<close> A radio delivers KISS frames over a serial line
  (\<open>kiss-tnc\<close>); their payload is an AX.25 frame (\<open>ax25-codec\<close>), whose information field is an
  APRS report (\<open>aprs\<close>). On top of the codecs the messenger sends numbered messages until they
  are acknowledged and the digipeater relays frames. The D-STAR side (\<open>dstar-gateway-core\<close>) is a
  sans-I/O library: codecs for DPlus, DExtra and DCS datagrams, and session state machines that
  are fed datagrams and instants and asked for datagrams, events and deadlines. The reflector
  (\<open>dstar-gateway-server\<close>) keeps one server session for each client of a protocol endpoint, admits
  clients, relays the voice of one talker at a time on each module, and carries it to the endpoints
  of the other protocols over a bus. Shells around all of it own the sockets. A hotspot modem speaks
  MMDVM frames over a serial line (\<open>mmdvm-core\<close>); one task owns the line, answers requests from a
  handle and paces voice by the free space the modem reports (\<open>mmdvm/src/tokio_shell\<close>), and the
  D-STAR gateway (\<open>mmdvm/src/dstar.rs\<close>) turns the modem's events into transmissions, last-heard
  entries, texts and echoes. The DMR client (\<open>dmr-rewind\<close>) logs in to a master over UDP with
  REWIND datagrams (\<open>dmr-rewind-core\<close>), subscribes, and hands out the events it receives.

  \<^bold>\<open>Theories, and the code each one models.\<close>

  \<^item> \<open>Prelude\<close>: bytes as 8-bit words, results as sums, slices, strings, time as natural
    nanoseconds, hash maps as association lists, and the locale of a time-windowed duplicate
    filter that the digipeater and the messenger both interpret.
  \<^item> \<open>Kiss_Frame\<close>, \<open>Kiss_Decoder\<close>: \<open>kiss-tnc/src\<close>. Byte stuffing and frames; the incremental
    decoder with its resynchronisation and memory bound.
  \<^item> \<open>Ax25_Address\<close>, \<open>Ax25_Control\<close>, \<open>Ax25_Frame\<close>: \<open>ax25-codec/src\<close>. Callsigns and SSIDs, control
    and protocol bytes, whole frames.
  \<^item> \<open>Crc\<close>: the two checksum routines, \<open>ax25_fcs\<close> and \<open>crc_ccitt\<close>.
  \<^item> \<open>Aprs_Message\<close>, \<open>Aprs_Messenger\<close>, \<open>Aprs_Digipeater\<close>: \<open>message.rs\<close>, \<open>text.rs\<close>, the message
    parts of \<open>build.rs\<close> and \<open>units.rs\<close>, \<open>messenger.rs\<close> and \<open>digipeater.rs\<close> of \<open>aprs/src\<close>.
  \<^item> \<open>Wire_Buffer\<close>: stores into a caller's buffer and little-endian fields.
  \<^item> \<open>Dstar_Types\<close>, \<open>Dstar_Header\<close>, \<open>Dstar_Slowdata\<close>: \<open>types/\<close>, \<open>voice.rs\<close>, \<open>header.rs\<close> and
    \<open>slowdata/\<close> of \<open>dstar-gateway-core/src\<close>.
  \<^item> \<open>Dstar_Codec\<close>: \<open>validator/\<close>, and the locales \<open>datagram\<close> and \<open>datagram_link\<close>, the contract of a
    datagram codec. \<open>Dstar_Dextra\<close>, \<open>Dstar_Dplus\<close>, \<open>Dstar_Dcs\<close>: the directories of the same names
    under \<open>codec/\<close>, each with an interpretation of the contract for both directions.
  \<^item> \<open>Dstar_Session\<close>: \<open>session/outbox.rs\<close> and \<open>session/timer_wheel.rs\<close>, and the locale
    \<open>delay_queue\<close> that the outbox implements.
  \<^item> \<open>Dstar_Client\<close>: \<open>session/client/core.rs\<close> with the event, state, configuration and error types.
    \<open>Dstar_Client_Runs\<close>: its runs, event automaton and state invariant.
  \<^item> \<open>Event_Source\<close>: the locale of a component whose events follow an automaton, which both session
    cores interpret. \<open>Dstar_Server\<close>: \<open>session/server\<close>, the reflector side of one link;
    \<open>Dstar_Server_Runs\<close>: its runs. \<open>Dstar_Link\<close>: a client and a server session joined by their datagrams.
  \<^item> \<open>Reflector_Pool\<close>: \<open>client_pool/\<close>, \<open>stream_cache.rs\<close> and \<open>authorizer.rs\<close> of
    \<open>dstar-gateway-server/src\<close>, with the locale \<open>client_registry\<close> of an indexed, bounded registry.
    \<open>Reflector_Endpoint\<close>: \<open>endpoint.rs\<close>, \<open>transcode.rs\<close> and \<open>fanout.rs\<close> of its \<open>tokio_shell/\<close>; one step
    is one arm of the endpoint's loop. \<open>Reflector_Runs\<close>: the invariant of an endpoint.
    \<open>Reflector_Sample\<close>: one concrete run. \<open>Reflector_Floor\<close>: capacity, index, and the floor machine.
    \<open>Reflector_Service\<close>: access, and the effect of a lost end of transmission. \<open>Reflector_Relay\<close>:
    recipients, voice across protocols, maintenance. \<open>Reflector_Config\<close>: \<open>reflector/config.rs\<close> and the
    constructors of \<open>reflector/reflector.rs\<close>.
  \<^item> \<open>Mmdvm_Core\<close>: \<open>mmdvm-core/src\<close>. \<open>Mmdvm_Loop\<close>: \<open>configuration.rs\<close>, \<open>tx_queue.rs\<close>, \<open>command.rs\<close>,
    \<open>event.rs\<close> and \<open>modem_loop.rs\<close> of \<open>mmdvm/src/tokio_shell\<close>; a turn is one iteration of the select
    loop. \<open>Mmdvm_Runs\<close>: the locale \<open>modem_invariant\<close>, whose laws are what every handler keeps, with
    an interpretation for each invariant of a run. \<open>Mmdvm_Dstar\<close>: \<open>dstar.rs\<close>, over an arbitrary modem,
    and its event automaton (again \<open>Event_Source\<close>). \<open>Mmdvm_Echo\<close>: echo and texts end to end, also with
    the modem task of \<open>Mmdvm_Loop\<close> behind the handle.
  \<^item> \<open>Rewind_Codec\<close>: \<open>dmr-rewind-core/src\<close>. \<open>Rewind_Client\<close>: \<open>dmr-rewind/src\<close>; the socket is the transcript
    of its datagrams, and a moment is what socket and clock answer at one await. \<open>Rewind_Runs\<close>: the
    session as a machine over the transcript, and the runs of the client.

  \<^bold>\<open>Conventions.\<close> A struct is a record or a one-constructor datatype, an enum a datatype, a
  fallible function returns a sum with \<open>Err\<close> on the left, a method that changes its object
  returns the new object. Integers that wrap or are tested bitwise are words; \<open>usize\<close> values are
  naturals where the code cannot reach the limit and saturating or checked operations are written
  out elsewhere. Conditions a Rust type enforces (array lengths, validated newtypes) are the
  predicates ending in \<open>_wf\<close>. Logging is left out.

  \<^bold>\<open>What is shown.\<close>

  \<^item> Codecs: what one side encodes the other decodes, for KISS streams cut at any points, AX.25
    frames, APRS messages through three layers, D-STAR headers, status texts, and the datagrams of the
    three reflector protocols, where the theorems say what is not carried over (header flags on
    DExtra and DPlus; on DCS the banner of a link request, and a frame whose slow data is the end
    marker 55 55 55, which is read as the end); encoders write only their packet. Decoders are total, accept
    only what re-encodes to itself (AX.25), resynchronise and bound their memory (KISS). The REWIND
    decoder accepts exactly the encodings of constructible packets.
  \<^item> Digipeater: two transmissions of the same report, at once or deferred, are a duplicate window
    apart; a relayed frame changes only its path and asks for fewer hops each time; the state stays
    within its capacities.
  \<^item> Messenger: identifiers unique, retries bounded and on time, acknowledgements authentic,
    incoming messages delivered once, and the whole handshake over the real frames succeeds.
  \<^item> Slow data: texts and retransmitted headers are recovered, and a header is reported only when
    it was sent.
  \<^item> Client session: the outbox refines a stable priority queue; through every sequence of calls
    and datagrams the events form a run of a small automaton, no call panics, every datagram sent
    is readable by the reflector, every open session ends by its own timers. One theorem records a
    defect: after an unlink request an unserved keepalive deadline, not the outbox, makes the
    reported wake-up stay in the past.
  \<^item> Server session: its events form a run of an automaton with one callsign and one stream at a
    time, its replies are readable by the client, an error changes nothing. Client and server
    together: a call is reported frame by frame, in order, over each of the three protocols, with the
    frames that DCS adds to the header and the end.
  \<^item> Reflector endpoint, for every interleaving of datagrams, ticks, bus events and send results:
    the capacity limits hold, the module index is exact, the stream cache refines the timed floor
    machine (a module is taken by a start, given up by the end of that stream or by a sweep after
    the voice timeout, and by nothing else) so that talkers never overlap, only authorised clients
    are relayed, a frame reaches exactly the other members with budget, across protocols with what
    the other protocol can carry, and a sweep removes exactly what is overdue. Every configuration the builder accepts starts. One theorem
    records a defect: a client whose end of transmission is lost is not heard again.
  \<^item> Modem task, for every sequence of requests, ticks, reads and write results: frames are
    recovered from a stream cut anywhere, each request is answered once, voice is written in order
    and never beyond the space reported, the run refines the link protocol, shutdown ends in time. Raw
    frames bypass the pacing, as the handle documents, so the theorems on space and on the link
    protocol leave out raw voice.
  \<^item> Modem gateway: its events form a run of the reception automaton whatever the modem does; echoes
    are played back byte for byte. Two theorems record defects: playback does not wait for room in
    the transmit queue, so that an echo of more than 62 frames depends on the timing of the task; and
    sync frames reach the text collector as data, so that a text behind the first one is lost.
    The fidelity of an echo is stated for a modem that accepts every submission; the other theorem
    says when the task of \<open>Mmdvm_Loop\<close> does.
  \<^item> DMR client, from the login through any sequence of calls, datagrams, send results and cancelled
    calls: the transcript is a run of the session machine (numbered datagrams, authentic answers,
    acknowledged subscriptions, events once and in order, a bounded backlog), and a silent master is
    noticed. One theorem records a defect: a close during a recovery strands the events that wait.

  \<^bold>\<open>Parameters, bounds and fuel.\<close> The hash function of the digipeater (\<open>DefaultHasher\<close>) is an
  argument of its operations, with no assumption. SHA-256 is an argument of the
  DMR client, of which only the length of the digest is assumed. The \<open>f64\<close> operations of the token buckets are an
  argument of the reflector's operations, with no assumption either, as are the authorizer and
  what the socket answers to each send. The modem behind the gateway is a function on its state; the
  turns of the modem task carry the branch taken, the clock and the result of each write, so no
  fairness or timing is assumed. \<open>Instant\<close> has the range of a 64-bit Unix
  platform where \<open>checked_add\<close> is used. Draining loops take the number of iterations as an
  argument and the theorems give one that suffices (the number of bytes or packets held).

  \<^bold>\<open>Not modelled.\<close> The shells around the session cores and the task set, sockets and shutdown of
  the reflector's \<open>run\<close> are asynchronous I/O, as are the modem handle's channels and timeouts and
  the serial port probe. The other APRS reports and D-PRS positions compute with
  floating point. The radio control crates are mostly tables over device memory. The login response
  parser, host files and APRS-IS lines are pure code that this library does not cover yet.
\<close>

end
